(* ===== verification/Prelude.thy ===== *)
theory Prelude
  imports
    Main
    "HOL-Library.AList"
    "HOL-Library.Char_ord"
    "HOL-Library.List_Lexorder"
    "HOL-Library.Product_Lexorder"
begin

text \<open>
  Shared vocabulary of the development: Python's ordered dictionaries as association lists,
  order-preserving de-duplication, the string operations the code uses (\<open>strip\<close>,
  \<open>lower\<close>, \<open>replace\<close>, \<open>join\<close>, decimal notation) and results that may raise.
  Strings are lists of characters; the operations are those of Python on ASCII text.
\<close>

named_theorems py_simps \<open>evaluation rules for the Python string and container operations\<close>

section \<open>Results that may raise\<close>

text \<open>A raised exception is \<open>Inl\<close>, a returned value is \<open>Inr\<close>.\<close>

type_synonym ('e, 'a) result = "'e + 'a"

definition res_bind :: "('e, 'a) result \<Rightarrow> ('a \<Rightarrow> ('e, 'b) result) \<Rightarrow> ('e, 'b) result" where
  "res_bind r f = (case r of Inl e \<Rightarrow> Inl e | Inr x \<Rightarrow> f x)"

lemma res_bind_simps [simp]:
  "res_bind (Inl e) f = Inl e"
  "res_bind (Inr x) f = f x"
  by (simp_all add: res_bind_def)

lemma res_bind_Inr_iff: "res_bind r f = Inr y \<longleftrightarrow> (\<exists>x. r = Inr x \<and> f x = Inr y)"
  by (cases r) auto

lemma res_bind_Inl_iff:
  "res_bind r f = Inl e \<longleftrightarrow> r = Inl e \<or> (\<exists>x. r = Inr x \<and> f x = Inl e)"
  by (cases r) auto

definition returned :: "('e, 'a) result \<Rightarrow> bool" where
  "returned r = (case r of Inl _ \<Rightarrow> False | Inr _ \<Rightarrow> True)"

lemma returned_simps [simp]: "\<not> returned (Inl e)" "returned (Inr x)"
  by (simp_all add: returned_def)

lemma returned_iff: "returned r \<longleftrightarrow> (\<exists>x. r = Inr x)"
  by (cases r) auto

section \<open>Order-preserving de-duplication\<close>

text \<open>\<open>list(dict.fromkeys(xs))\<close>: the first occurrence of each element, in order.\<close>

fun dedupe :: "'a list \<Rightarrow> 'a list" where
  "dedupe [] = []"
| "dedupe (x # xs) = x # filter (\<lambda>y. y \<noteq> x) (dedupe xs)"

lemma set_dedupe [simp]: "set (dedupe xs) = set xs"
  by (induction xs) auto

lemma distinct_dedupe [simp]: "distinct (dedupe xs)"
  by (induction xs) auto

lemma dedupe_distinct: "distinct xs \<Longrightarrow> dedupe xs = xs"
  by (induction xs) (auto intro!: filter_True)

lemma dedupe_idem [simp]: "dedupe (dedupe xs) = dedupe xs"
  by (simp add: dedupe_distinct)

lemma dedupe_Nil_iff [simp]: "dedupe xs = [] \<longleftrightarrow> xs = []"
  by (cases xs) auto

section \<open>Association lists as Python dictionaries\<close>

text \<open>
  \<open>AList.update\<close> overwrites in place or appends, as assignment to a dictionary key does;
  \<open>AList.delete\<close> is \<open>pop(key, None)\<close>; \<open>map_of\<close> is \<open>get\<close>.
\<close>

type_synonym ('k, 'v) dict = "('k \<times> 'v) list"

definition dict_ok :: "('k, 'v) dict \<Rightarrow> bool" where
  "dict_ok d = distinct (map fst d)"

definition dict_has :: "'k \<Rightarrow> ('k, 'v) dict \<Rightarrow> bool" where
  "dict_has k d = (k \<in> fst ` set d)"

lemma dict_has_iff: "dict_has k d \<longleftrightarrow> map_of d k \<noteq> None"
  by (simp add: dict_has_def map_of_eq_None_iff)

lemma dict_ok_Nil [simp]: "dict_ok []"
  by (simp add: dict_ok_def)

lemma dict_ok_update [simp]: "dict_ok d \<Longrightarrow> dict_ok (AList.update k v d)"
  unfolding dict_ok_def by (rule distinct_update)

lemma dict_ok_delete [simp]: "dict_ok d \<Longrightarrow> dict_ok (AList.delete k d)"
  unfolding dict_ok_def by (rule distinct_delete)

lemma map_of_update_simp [simp]:
  "map_of (AList.update k v d) k' = (if k' = k then Some v else map_of d k')"
  by (simp add: update_conv')

lemma map_of_delete_simp [simp]:
  "map_of (AList.delete k d) k' = (if k' = k then None else map_of d k')"
  by (simp add: delete_conv')

lemma update_new: "\<not> dict_has k d \<Longrightarrow> AList.update k v d = d @ [(k, v)]"
  by (induction d) (auto simp: dict_has_def)

lemma dict_has_update [simp]: "dict_has k (AList.update k' v d) \<longleftrightarrow> k = k' \<or> dict_has k d"
  by (simp add: dict_has_iff)

lemma map_of_map_snd: "map_of (map (\<lambda>(k, v). (k, f v)) d) k = map_option f (map_of d k)"
  by (induction d) auto

section \<open>Python strings\<close>

text \<open>The ASCII characters for which \<open>str.isspace\<close> holds.\<close>

definition whitespace :: "string" where
  "whitespace = [CHR 0x09, CHR 0x0A, CHR 0x0B, CHR 0x0C, CHR 0x0D,
                 CHR 0x1C, CHR 0x1D, CHR 0x1E, CHR 0x1F, CHR '' '']"

definition is_space :: "char \<Rightarrow> bool" where
  "is_space c = (c \<in> set whitespace)"

definition py_strip :: "string \<Rightarrow> string" where
  "py_strip s = rev (dropWhile is_space (rev (dropWhile is_space s)))"

definition upper_letters :: "string" where
  "upper_letters = ''ABCDEFGHIJKLMNOPQRSTUVWXYZ''"

definition lower_letters :: "string" where
  "lower_letters = ''abcdefghijklmnopqrstuvwxyz''"

definition char_lower :: "char \<Rightarrow> char" where
  "char_lower c = (case map_of (zip upper_letters lower_letters) c of None \<Rightarrow> c | Some d \<Rightarrow> d)"

definition py_lower :: "string \<Rightarrow> string" where
  "py_lower s = map char_lower s"

text \<open>\<open>str.capitalize\<close> on ASCII text.\<close>

definition char_upper :: "char \<Rightarrow> char" where
  "char_upper c = (case map_of (zip lower_letters upper_letters) c of Some d \<Rightarrow> d | None \<Rightarrow> c)"

definition py_capitalize :: "string \<Rightarrow> string" where
  "py_capitalize s = (case s of [] \<Rightarrow> [] | c # cs \<Rightarrow> char_upper c # py_lower cs)"

text \<open>\<open>s.replace(a, b)\<close> for one-character \<open>a\<close> and \<open>b\<close>.\<close>

definition py_replace :: "char \<Rightarrow> char \<Rightarrow> string \<Rightarrow> string" where
  "py_replace a b s = map (\<lambda>c. if c = a then b else c) s"

fun py_join :: "string \<Rightarrow> string list \<Rightarrow> string" where
  "py_join sep [] = []"
| "py_join sep [s] = s"
| "py_join sep (s # t # ss) = s @ sep @ py_join sep (t # ss)"

fun py_startswith :: "string \<Rightarrow> string \<Rightarrow> bool" where
  "py_startswith s [] = True"
| "py_startswith [] (p # ps) = False"
| "py_startswith (c # cs) (p # ps) = (c = p \<and> py_startswith cs ps)"

lemma py_startswith_iff: "py_startswith s p \<longleftrightarrow> (\<exists>r. s = p @ r)"
  by (induction s p rule: py_startswith.induct) auto

text \<open>\<open>sub in s\<close> for strings.\<close>

fun py_contains :: "string \<Rightarrow> string \<Rightarrow> bool" where
  "py_contains s [] = True"
| "py_contains [] (p # ps) = False"
| "py_contains (c # cs) (p # ps) = (py_startswith (c # cs) (p # ps) \<or> py_contains cs (p # ps))"

lemma py_contains_iff: "py_contains s p \<longleftrightarrow> (\<exists>a b. s = a @ p @ b)"
proof (induction s p rule: py_contains.induct)
  case (3 c cs p ps)
  have "(\<exists>a b. c # cs = a @ (p # ps) @ b) \<longleftrightarrow>
      (\<exists>b. c # cs = (p # ps) @ b) \<or> (\<exists>a b. cs = a @ (p # ps) @ b)" (is "?l \<longleftrightarrow> ?r")
  proof
    assume ?l
    then obtain a b where ab: "c # cs = a @ (p # ps) @ b" by blast
    then show ?r by (cases a) auto
  next
    assume ?r
    then show ?l
    proof
      assume "\<exists>b. c # cs = (p # ps) @ b"
      then show ?l by (metis append_Nil)
    next
      assume "\<exists>a b. cs = a @ (p # ps) @ b"
      then show ?l by (metis append_Cons)
    qed
  qed
  with 3 show ?case by (simp add: py_startswith_iff)
qed auto

lemma is_space_not_lower: "is_space (char_lower c) \<longleftrightarrow> is_space c"
proof (cases "map_of (zip upper_letters lower_letters) c")
  case None
  then show ?thesis by (simp add: char_lower_def)
next
  case (Some d)
  then have mem: "(c, d) \<in> set (zip upper_letters lower_letters)" by (rule map_of_SomeD)
  have "list_all (\<lambda>(c, d). \<not> is_space c \<and> \<not> is_space d) (zip upper_letters lower_letters)"
    by code_simp
  with mem have "\<not> is_space c \<and> \<not> is_space d" by (auto simp: list_all_iff)
  with Some show ?thesis by (simp add: char_lower_def)
qed

lemma char_lower_idem [simp]: "char_lower (char_lower c) = char_lower c"
proof (cases "map_of (zip upper_letters lower_letters) c")
  case None
  then show ?thesis by (simp add: char_lower_def)
next
  case (Some d)
  then have mem: "(c, d) \<in> set (zip upper_letters lower_letters)" by (rule map_of_SomeD)
  have "list_all (\<lambda>(c, d). char_lower d = d) (zip upper_letters lower_letters)"
    by code_simp
  with mem have "char_lower d = d" by (auto simp: list_all_iff)
  with Some show ?thesis by (simp add: char_lower_def)
qed

lemma py_lower_idem [simp]: "py_lower (py_lower s) = py_lower s"
  by (simp add: py_lower_def)

definition trimmed :: "string \<Rightarrow> bool" where
  "trimmed s = (s = [] \<or> (\<not> is_space (hd s) \<and> \<not> is_space (last s)))"

lemma dropWhile_id: "s = [] \<or> \<not> P (hd s) \<Longrightarrow> dropWhile P s = s"
  by (cases s) auto

lemma py_strip_trimmed_id: "trimmed s \<Longrightarrow> py_strip s = s"
  by (auto simp: trimmed_def py_strip_def dropWhile_id hd_rev)

lemma trimmed_py_strip: "trimmed (py_strip s)"
proof -
  let ?d = "dropWhile is_space s"
  let ?e = "dropWhile is_space (rev ?d)"
  show ?thesis
  proof (cases "?e = []")
    case True
    then show ?thesis by (simp add: trimmed_def py_strip_def)
  next
    case False
    have last_ok: "\<not> is_space (hd ?e)" using False by (rule hd_dropWhile)
    have "\<exists>p. rev ?d = p @ ?e" by (metis takeWhile_dropWhile_id)
    then obtain p where "rev ?d = p @ ?e" ..
    then have d: "?d = rev ?e @ rev p" by (metis rev_append rev_rev_ident)
    have "hd (rev ?e @ rev p) = hd (rev ?e)" using False by (simp only: hd_append2 rev_is_Nil_conv simp_thms)
    with d have "hd (rev ?e) = hd ?d" by (simp only:)
    moreover have "?d \<noteq> []" using d False by (metis append_is_Nil_conv rev_is_Nil_conv)
    then have "\<not> is_space (hd ?d)" by (rule hd_dropWhile)
    ultimately show ?thesis using False last_ok
      by (simp add: trimmed_def py_strip_def last_rev)
  qed
qed

lemma py_strip_idem [simp]: "py_strip (py_strip s) = py_strip s"
  by (simp add: py_strip_trimmed_id trimmed_py_strip)

lemma trimmed_map:
  "(\<And>c. is_space (f c) \<longleftrightarrow> is_space c) \<Longrightarrow> trimmed (map f s) \<longleftrightarrow> trimmed s"
  by (cases "s = []") (simp_all add: trimmed_def hd_map last_map)

section \<open>Decimal notation\<close>

definition digits :: "string" where
  "digits = ''0123456789''"

definition digit_char :: "nat \<Rightarrow> char" where
  "digit_char n = digits ! n"

fun nat_str :: "nat \<Rightarrow> string" where
  "nat_str n = (if n < 10 then [digit_char n] else nat_str (n div 10) @ [digit_char (n mod 10)])"

declare nat_str.simps [simp del]

text \<open>\<open>str(i)\<close> for an integer.\<close>

definition int_str :: "int \<Rightarrow> string" where
  "int_str i = (if i < 0 then CHR ''-'' # nat_str (nat (- i)) else nat_str (nat i))"

definition digit_val :: "char \<Rightarrow> nat option" where
  "digit_val c = map_of (zip digits [0..<10]) c"

definition is_digit :: "char \<Rightarrow> bool" where
  "is_digit c = (c \<in> set digits)"

fun str_nat_acc :: "nat \<Rightarrow> string \<Rightarrow> nat" where
  "str_nat_acc a [] = a"
| "str_nat_acc a (c # cs) =
     str_nat_acc (10 * a + (case digit_val c of None \<Rightarrow> 0 | Some d \<Rightarrow> d)) cs"

text \<open>\<open>int(s)\<close> for a string of decimal digits.\<close>

definition str_nat :: "string \<Rightarrow> nat" where
  "str_nat s = str_nat_acc 0 s"

lemma digit_val_digit_char: "n < 10 \<Longrightarrow> digit_val (digit_char n) = Some n"
proof -
  assume "n < 10"
  moreover have "list_all (\<lambda>n. digit_val (digit_char n) = Some n) [0..<10]" by code_simp
  ultimately show ?thesis by (simp add: list_all_iff)
qed

lemma digit_char_mem: "n < 10 \<Longrightarrow> digit_char n \<in> set digits"
  unfolding digit_char_def by (rule nth_mem) (simp add: digits_def)

lemma str_nat_acc_append: "str_nat_acc a (s @ t) = str_nat_acc (str_nat_acc a s) t"
  by (induction s arbitrary: a) auto

lemma str_nat_nat_str [simp]: "str_nat (nat_str n) = n"
proof (induction n rule: nat_str.induct)
  case (1 n)
  show ?case
  proof (cases "n < 10")
    case True
    then show ?thesis
      by (simp add: str_nat_def nat_str.simps [of n] digit_val_digit_char)
  next
    case False
    with 1 have "str_nat (nat_str (n div 10)) = n div 10" by blast
    with False show ?thesis
      by (simp add: str_nat_def nat_str.simps [of n] str_nat_acc_append digit_val_digit_char)
  qed
qed

lemma nat_str_inj: "nat_str m = nat_str n \<Longrightarrow> m = n"
  by (metis str_nat_nat_str)

lemma nat_str_digits: "set (nat_str n) \<subseteq> set digits"
proof (induction n rule: nat_str.induct)
  case (1 n)
  then show ?case
    by (cases "n < 10") (simp_all add: nat_str.simps [of n] digit_char_mem)
qed

lemma nat_str_not_Nil [simp]: "nat_str n \<noteq> []"
  by (subst nat_str.simps) simp

lemma minus_not_digit: "CHR ''-'' \<notin> set (nat_str n)"
proof
  assume "CHR ''-'' \<in> set (nat_str n)"
  then have "CHR ''-'' \<in> set digits" using nat_str_digits by blast
  then show False by (simp add: digits_def)
qed

lemma minus_nat_str: "CHR ''-'' # s \<noteq> nat_str n"
  by (metis list.set_intros(1) minus_not_digit)

lemma int_str_inj: "int_str i = int_str j \<Longrightarrow> i = j"
proof (cases "i < 0"; cases "j < 0")
  assume "int_str i = int_str j" "i < 0" "j < 0"
  then have "nat_str (nat (- i)) = nat_str (nat (- j))" by (simp add: int_str_def)
  then have "nat (- i) = nat (- j)" by (rule nat_str_inj)
  with \<open>i < 0\<close> \<open>j < 0\<close> show ?thesis by simp
next
  assume "int_str i = int_str j" "\<not> i < 0" "\<not> j < 0"
  then have "nat_str (nat i) = nat_str (nat j)" by (simp add: int_str_def)
  then have "nat i = nat j" by (rule nat_str_inj)
  with \<open>\<not> i < 0\<close> \<open>\<not> j < 0\<close> show ?thesis by simp
qed (auto simp: int_str_def minus_nat_str minus_nat_str [symmetric])

lemma int_str_not_Nil [simp]: "int_str i \<noteq> []"
  by (simp add: int_str_def)

lemma int_str_chars: "set (int_str i) \<subseteq> insert (CHR ''-'') (set digits)"
  using nat_str_digits [of "nat i"] nat_str_digits [of "nat (- i)"]
  by (auto simp: int_str_def)

section \<open>Sorting downwards and merging\<close>

text \<open>\<open>sort(key=..., reverse=True)\<close>, which keeps equal elements in order.\<close>

definition sort_desc :: "('a \<Rightarrow> 'k::linorder) \<Rightarrow> 'a list \<Rightarrow> 'a list" where
  "sort_desc f xs = rev (sort_key f (rev xs))"

lemma set_sort_desc [simp]: "set (sort_desc f xs) = set xs"
  by (simp add: sort_desc_def)

lemma sort_desc_Nil: "sort_desc f xs = [] \<longleftrightarrow> xs = []"
  by (metis set_empty set_sort_desc)

lemma sort_desc_head: "sort_desc f xs = x # ys \<Longrightarrow> y \<in> set xs \<Longrightarrow> f y \<le> f x"
proof -
  assume d: "sort_desc f xs = x # ys" and y: "y \<in> set xs"
  then have "sort_key f (rev xs) = rev ys @ [x]" unfolding sort_desc_def by (metis rev.simps(2) rev_rev_ident)
  then have "sorted (map f (rev ys @ [x]))" by (metis sorted_sort_key)
  moreover have "y \<in> set (x # ys)" using d y by (metis set_sort_desc)
  ultimately show ?thesis by (auto simp: sorted_append)
qed

text \<open>\<open>{**defaults, **overrides}\<close>.\<close>

definition dict_merge :: "('k, 'v) dict \<Rightarrow> ('k, 'v) dict \<Rightarrow> ('k, 'v) dict" where
  "dict_merge d e = fold (\<lambda>(k, v). AList.update k v) e d"

end
