(* ===== verification/Canonical_Json.thy ===== *)
theory Canonical_Json
  imports Prelude
begin

text \<open>
  Python values, JSON values and the text \<open>json.dumps\<close> writes for them. The permit
  signature, the operation digest and the two hash chains all hash such a text, so what they
  protect rests on the text determining the value: \<open>json_text_inj\<close> below. Floats are
  kept as the token Python prints for them (the code never computes with one).
\<close>

section \<open>Values\<close>

text \<open>A \<open>datetime\<close>: microseconds on its own clock, and the offset from UTC when aware.\<close>

datatype pydatetime = Naive int | Aware int int

datatype pyval =
    PNone
  | PBool bool
  | PInt int
  | PFloat string
  | PStr string
  | PEnum string
  | PDatetime pydatetime
  | PList "pyval list"
  | PTuple "pyval list"
  | PDict "(string \<times> pyval) list"
  | PModel "(string \<times> pyval) list"
  | POther string

datatype json =
    JNull
  | JBool bool
  | JInt int
  | JFloat string
  | JStr string
  | JArr "json list"
  | JObj "(string \<times> json) list"

text \<open>\<open>as_utc\<close>: a naive value is taken to be UTC, an aware one is converted.\<close>

fun as_utc :: "pydatetime \<Rightarrow> pydatetime" where
  "as_utc (Naive t) = Aware t 0"
| "as_utc (Aware t off) = Aware (t - off) 0"

fun utc_us :: "pydatetime \<Rightarrow> int" where
  "utc_us (Naive t) = t"
| "utc_us (Aware t off) = t - off"

lemma as_utc_eq: "as_utc d = Aware (utc_us d) 0"
  by (cases d) auto

text \<open>\<open>json.dumps\<close> spells the non-finite floats its own way.\<close>

definition json_float :: "string \<Rightarrow> string" where
  "json_float t = (if t = ''nan'' then ''NaN'' else if t = ''inf'' then ''Infinity''
     else if t = ''-inf'' then ''-Infinity'' else t)"

section \<open>Text\<close>

text \<open>Separators and escapes of one call of \<open>json.dumps\<close>.\<close>

record json_style =
  item_sep :: string
  key_sep :: string
  escapes :: "(char \<times> string) list"

definition hex_digit :: "nat \<Rightarrow> char" where
  "hex_digit n = ''0123456789abcdef'' ! n"

definition u_escape :: "nat \<Rightarrow> string" where
  "u_escape n = [CHR 0x5C, CHR ''u'', CHR ''0'', CHR ''0'', hex_digit (n div 16), hex_digit (n mod 16)]"

definition short_escapes :: "(char \<times> string) list" where
  "short_escapes =
     [(CHR 0x22, [CHR 0x5C, CHR 0x22]), (CHR 0x5C, [CHR 0x5C, CHR 0x5C]),
      (CHR 0x08, [CHR 0x5C, CHR ''b'']), (CHR 0x0C, [CHR 0x5C, CHR ''f'']),
      (CHR 0x0A, [CHR 0x5C, CHR ''n'']), (CHR 0x0D, [CHR 0x5C, CHR ''r'']),
      (CHR 0x09, [CHR 0x5C, CHR ''t''])]"

definition control_escapes :: "(char \<times> string) list" where
  "control_escapes =
     short_escapes @
     filter (\<lambda>(c, e). c \<notin> fst ` set short_escapes) (map (\<lambda>n. (char_of n, u_escape n)) [0..<32])"

text \<open>\<open>separators=(",", ":"), ensure_ascii=False\<close>, and the defaults.\<close>

definition compact_style :: json_style where
  "compact_style = \<lparr>item_sep = '','', key_sep = '':'', escapes = control_escapes\<rparr>"

definition default_style :: json_style where
  "default_style = \<lparr>item_sep = '', '', key_sep = '': '',
     escapes = control_escapes @ [(CHR 0x7F, u_escape 127)]\<rparr>"

definition esc_char :: "json_style \<Rightarrow> char \<Rightarrow> string" where
  "esc_char st c = (case map_of (escapes st) c of None \<Rightarrow> [c] | Some e \<Rightarrow> e)"

fun esc_string :: "json_style \<Rightarrow> string \<Rightarrow> string" where
  "esc_string st [] = []"
| "esc_string st (c # cs) = esc_char st c @ esc_string st cs"

definition quote :: "json_style \<Rightarrow> string \<Rightarrow> string" where
  "quote st s = CHR 0x22 # esc_string st s @ [CHR 0x22]"

fun dumps :: "json_style \<Rightarrow> json \<Rightarrow> string"
and dumps_list :: "json_style \<Rightarrow> json list \<Rightarrow> string"
and dumps_more :: "json_style \<Rightarrow> json list \<Rightarrow> string"
and dumps_fields :: "json_style \<Rightarrow> (string \<times> json) list \<Rightarrow> string"
and dumps_more_fields :: "json_style \<Rightarrow> (string \<times> json) list \<Rightarrow> string" where
  "dumps st JNull = ''null''"
| "dumps st (JBool b) = (if b then ''true'' else ''false'')"
| "dumps st (JInt i) = int_str i"
| "dumps st (JFloat t) = t"
| "dumps st (JStr s) = quote st s"
| "dumps st (JArr vs) = CHR ''['' # dumps_list st vs"
| "dumps st (JObj fs) = CHR ''{'' # dumps_fields st fs"
| "dumps_list st [] = '']''"
| "dumps_list st (v # vs) = dumps st v @ dumps_more st vs"
| "dumps_more st [] = '']''"
| "dumps_more st (v # vs) = item_sep st @ dumps st v @ dumps_more st vs"
| "dumps_fields st [] = ''}''"
| "dumps_fields st ((k, v) # fs) = quote st k @ key_sep st @ dumps st v @ dumps_more_fields st fs"
| "dumps_more_fields st [] = ''}''"
| "dumps_more_fields st ((k, v) # fs) =
     item_sep st @ quote st k @ key_sep st @ dumps st v @ dumps_more_fields st fs"

text \<open>\<open>sort_keys=True\<close> orders the fields of every object.\<close>

fun sort_fields :: "json \<Rightarrow> json" where
  "sort_fields (JArr vs) = JArr (map sort_fields vs)"
| "sort_fields (JObj fs) = JObj (sort_key fst (map (\<lambda>(k, v). (k, sort_fields v)) fs))"
| "sort_fields v = v"

definition json_dumps :: "json_style \<Rightarrow> json \<Rightarrow> string" where
  "json_dumps st v = dumps st (sort_fields v)"

section \<open>The text determines the value\<close>

subsection \<open>Well-formed styles and float tokens\<close>

definition clash :: "string \<Rightarrow> string \<Rightarrow> bool" where
  "clash e f = (take (min (length e) (length f)) e = take (min (length e) (length f)) f)"

definition escapes_ok :: "(char \<times> string) list \<Rightarrow> bool" where
  "escapes_ok T =
     (CHR 0x22 \<in> fst ` set T \<and> CHR 0x5C \<in> fst ` set T \<and>
      list_all (\<lambda>(c, e). e \<noteq> [] \<and> hd e = CHR 0x5C) T \<and>
      list_all (\<lambda>(c, e). list_all (\<lambda>(d, f). c = d \<and> e = f \<or> \<not> clash e f) T) T)"

definition style_ok :: "json_style \<Rightarrow> bool" where
  "style_ok st = (escapes_ok (escapes st) \<and> item_sep st \<noteq> [] \<and> hd (item_sep st) = CHR '','' \<and>
     key_sep st \<noteq> [])"

lemma compact_style_ok: "style_ok compact_style"
  by code_simp

lemma default_style_ok: "style_ok default_style"
  by code_simp

text \<open>What a Python float prints as: none of JSON's punctuation, and a mark no integer has.\<close>

definition delims :: "string" where
  "delims = [CHR '','', CHR '']'', CHR ''}'', CHR ''['', CHR ''{'', CHR 0x22]"

definition float_token :: "string \<Rightarrow> bool" where
  "float_token t = (t \<noteq> [] \<and> list_all (\<lambda>c. c \<notin> set delims) t \<and>
     list_ex (\<lambda>c. c \<in> set ''.eNI'') t \<and> t \<notin> {''null'', ''true'', ''false''})"

fun json_ok :: "json \<Rightarrow> bool" where
  "json_ok (JFloat t) = float_token t"
| "json_ok (JArr vs) = list_all json_ok vs"
| "json_ok (JObj fs) = list_all (\<lambda>(k, v). json_ok v) fs"
| "json_ok v = True"

subsection \<open>Strings\<close>

lemma append_eq_clash: "e @ x = f @ y \<Longrightarrow> clash e f"
  unfolding clash_def by (metis append_eq_append_conv_if min.commute min_def take_all_iff linear)

lemma esc_char_prefix:
  assumes ok: "escapes_ok (escapes st)" and eq: "esc_char st c @ x = esc_char st d @ y"
  shows "c = d \<and> x = y"
proof -
  let ?T = "escapes st"
  from ok have bs: "CHR 0x5C \<in> fst ` set ?T"
    and hds: "\<And>c e. (c, e) \<in> set ?T \<Longrightarrow> e \<noteq> [] \<and> hd e = CHR 0x5C"
    and pre: "\<And>c e d f. (c, e) \<in> set ?T \<Longrightarrow> (d, f) \<in> set ?T \<Longrightarrow> c = d \<and> e = f \<or> \<not> clash e f"
    by (fastforce simp: escapes_ok_def list_all_iff)+
  have plain: "map_of ?T c = None \<Longrightarrow> c \<noteq> CHR 0x5C" for c
    using bs by (auto simp: map_of_eq_None_iff)
  show ?thesis
  proof (cases "map_of ?T c"; cases "map_of ?T d")
    assume "map_of ?T c = None" "map_of ?T d = None"
    with eq show ?thesis by (simp add: esc_char_def)
  next
    fix f assume c: "map_of ?T c = None" and d: "map_of ?T d = Some f"
    from hds [OF map_of_SomeD [OF d]] obtain f' where "f = CHR 0x5C # f'"
      by (cases f) auto
    with eq c d plain [OF c] show ?thesis by (simp add: esc_char_def)
  next
    fix e assume c: "map_of ?T c = Some e" and d: "map_of ?T d = None"
    from hds [OF map_of_SomeD [OF c]] obtain e' where "e = CHR 0x5C # e'"
      by (cases e) auto
    with eq c d plain [OF d] show ?thesis by (auto simp: esc_char_def)
  next
    fix e f assume c: "map_of ?T c = Some e" and d: "map_of ?T d = Some f"
    from eq c d have "e @ x = f @ y" by (simp add: esc_char_def)
    moreover from this pre [OF map_of_SomeD [OF c] map_of_SomeD [OF d]] append_eq_clash
    have "c = d \<and> e = f" by blast
    ultimately show ?thesis by simp
  qed
qed

lemma esc_char_not_quote:
  assumes ok: "escapes_ok (escapes st)"
  shows "esc_char st c \<noteq> [] \<and> hd (esc_char st c) \<noteq> CHR 0x22"
proof (cases "map_of (escapes st) c")
  case None
  with ok have "c \<noteq> CHR 0x22" by (auto simp: escapes_ok_def map_of_eq_None_iff)
  with None show ?thesis by (simp add: esc_char_def)
next
  case (Some e)
  then have "(c, e) \<in> set (escapes st)" by (rule map_of_SomeD)
  with ok have "e \<noteq> [] \<and> hd e = CHR 0x5C" by (auto simp: escapes_ok_def list_all_iff)
  with Some show ?thesis by (simp add: esc_char_def)
qed

lemma esc_string_prefix:
  assumes ok: "escapes_ok (escapes st)"
  shows "esc_string st s @ CHR 0x22 # x = esc_string st t @ CHR 0x22 # y \<Longrightarrow> s = t \<and> x = y"
proof (induction s arbitrary: t)
  case Nil
  then show ?case
  proof (cases t)
    case (Cons d t')
    then have "hd (esc_string st t @ CHR 0x22 # y) = hd (esc_char st d)"
      using esc_char_not_quote [OF ok, of d] by simp
    with Nil Cons show ?thesis using esc_char_not_quote [OF ok, of d] by (metis esc_string.simps(1) append_Nil list.sel(1))
  qed simp
next
  case (Cons c s)
  show ?case
  proof (cases t)
    case Nil
    have "hd (esc_string st (c # s) @ CHR 0x22 # x) = hd (esc_char st c)"
      using esc_char_not_quote [OF ok, of c] by simp
    with Cons.prems Nil show ?thesis using esc_char_not_quote [OF ok, of c]
      by (metis esc_string.simps(1) append_Nil list.sel(1))
  next
    case (Cons d t')
    with Cons.prems have "esc_char st c @ (esc_string st s @ CHR 0x22 # x)
        = esc_char st d @ (esc_string st t' @ CHR 0x22 # y)" by simp
    then have "c = d" and "esc_string st s @ CHR 0x22 # x = esc_string st t' @ CHR 0x22 # y"
      using esc_char_prefix [OF ok] by blast+
    with Cons.IH Cons show ?thesis by blast
  qed
qed

lemma quote_prefix:
  "escapes_ok (escapes st) \<Longrightarrow> quote st s @ x = quote st t @ y \<Longrightarrow> s = t \<and> x = y"
  unfolding quote_def by (rule esc_string_prefix) auto

subsection \<open>Scalars\<close>

definition stops :: "string \<Rightarrow> bool" where
  "stops r = (r = [] \<or> hd r \<in> set delims)"

definition token :: "string \<Rightarrow> bool" where
  "token t = (t \<noteq> [] \<and> list_all (\<lambda>c. c \<notin> set delims) t)"

lemma token_prefix:
  assumes t: "token t" "token u" and r: "stops r" "stops s" and eq: "t @ r = u @ s"
  shows "t = u \<and> r = s"
proof -
  have tw: "takeWhile (\<lambda>c. c \<notin> set delims) (t @ r) = t" if "token t" "stops r" for t r
  proof -
    from that have "takeWhile (\<lambda>c. c \<notin> set delims) r = []"
      by (cases r) (auto simp: stops_def)
    with that show ?thesis by (simp add: token_def list_all_iff takeWhile_append)
  qed
  from tw [OF t(1) r(1)] tw [OF t(2) r(2)] eq have "t = u" by simp
  with eq show ?thesis by simp
qed

fun scalar :: "json \<Rightarrow> bool" where
  "scalar (JStr s) = False"
| "scalar (JArr vs) = False"
| "scalar (JObj fs) = False"
| "scalar v = True"

lemma int_str_not_mark: "c \<in> set (int_str i) \<Longrightarrow> c \<notin> set ''.eNI'' \<and> c \<notin> set delims \<and> c \<notin> set ''nullfas''"
proof -
  assume "c \<in> set (int_str i)"
  then have "c \<in> set (CHR ''-'' # digits)" using int_str_chars by auto
  moreover have "list_all (\<lambda>c. c \<notin> set ''.eNI'' \<and> c \<notin> set delims \<and> c \<notin> set ''nullfas'') (CHR ''-'' # digits)"
    by code_simp
  ultimately show ?thesis unfolding list_all_iff by blast
qed

lemma int_str_token: "token (int_str i)"
  using int_str_not_mark by (auto simp: token_def list_all_iff)

lemma scalar_token:
  assumes "scalar v" "json_ok v"
  shows "token (dumps st v)"
  using assms
proof (cases v)
  case (JFloat t)
  with assms show ?thesis by (simp add: float_token_def token_def)
next
  case (JInt i)
  then show ?thesis by (simp add: int_str_token)
qed (auto simp: token_def delims_def)

lemma int_str_not_word:
  "int_str i \<noteq> ''null''" "int_str i \<noteq> ''true''" "int_str i \<noteq> ''false''"
  using int_str_not_mark [of "CHR ''l''" i] int_str_not_mark [of "CHR ''e''" i] by auto

lemma int_str_not_float: "float_token t \<Longrightarrow> int_str i \<noteq> t"
  using int_str_not_mark by (fastforce simp: float_token_def list_ex_iff)

lemma scalar_text_inj:
  "scalar v \<Longrightarrow> scalar w \<Longrightarrow> json_ok v \<Longrightarrow> json_ok w \<Longrightarrow> dumps st v = dumps st w \<Longrightarrow> v = w"
proof (cases v; cases w)
  fix i j
  assume "v = JInt i" "w = JInt j" "dumps st v = dumps st w"
  then show "v = w" by (simp add: int_str_inj)
next
  fix i t
  assume "v = JInt i" "w = JFloat t" "dumps st v = dumps st w" "json_ok w"
  then show "v = w" using int_str_not_float by auto
next
  fix i t
  assume "w = JInt i" "v = JFloat t" "dumps st v = dumps st w" "json_ok v"
  then show "v = w" using int_str_not_float by auto
qed (auto simp: int_str_not_word int_str_not_word [symmetric] float_token_def split: if_splits)

lemma dumps_head:
  "json_ok v \<Longrightarrow> dumps st v \<noteq> [] \<and> hd (dumps st v) \<noteq> CHR '']'' \<and> hd (dumps st v) \<noteq> CHR ''}''"
proof (cases "scalar v")
  case True
  moreover assume "json_ok v"
  ultimately have "token (dumps st v)" by (rule scalar_token)
  then show ?thesis by (cases "dumps st v") (auto simp: token_def delims_def)
next
  case False
  then show ?thesis by (cases v) (auto simp: quote_def)
qed

lemma dumps_open:
  assumes "json_ok v" "json_ok w" "dumps st v @ r = dumps st w @ s"
  shows "scalar v = scalar w \<and> (\<forall>t. v = JStr t \<longrightarrow> (\<exists>u. w = JStr u)) \<and>
    (\<forall>t. v = JArr t \<longrightarrow> (\<exists>u. w = JArr u)) \<and> (\<forall>t. v = JObj t \<longrightarrow> (\<exists>u. w = JObj u))"
proof -
  have hds: "hd (dumps st v) = hd (dumps st w)"
    using assms dumps_head by (metis hd_append2)
  have sc: "scalar x \<Longrightarrow> json_ok x \<Longrightarrow> hd (dumps st x) \<notin> set delims" for x
    using scalar_token [of x st] by (cases "dumps st x") (auto simp: token_def)
  show ?thesis
    using hds assms(1,2) sc [of v] sc [of w]
    by (cases v; cases w) (auto simp: quote_def delims_def)
qed

subsection \<open>All values\<close>

lemma more_stops:
  assumes "style_ok st"
  shows "stops (dumps_more st vs @ r)" "stops (dumps_more_fields st fs @ r)"
proof -
  from assms have "item_sep st \<noteq> []" "hd (item_sep st) = CHR '',''" by (simp_all add: style_ok_def)
  then show "stops (dumps_more st vs @ r)"
    by (cases vs) (simp_all add: stops_def delims_def)
  from \<open>item_sep st \<noteq> []\<close> \<open>hd (item_sep st) = CHR '',''\<close>
  show "stops (dumps_more_fields st fs @ r)"
    by (cases fs) (auto simp: stops_def delims_def)
qed

lemma sep_not_close:
  "style_ok st \<Longrightarrow> CHR '']'' # x \<noteq> item_sep st @ y"
  "style_ok st \<Longrightarrow> CHR ''}'' # x \<noteq> item_sep st @ y"
  by (cases "item_sep st"; auto simp: style_ok_def)+

lemma close_not_value:
  "json_ok v \<Longrightarrow> CHR '']'' # x \<noteq> dumps st v @ y"
  using dumps_head [of v st] by (cases "dumps st v") auto

lemma scalar_readable:
  assumes "scalar v" "json_ok v" "json_ok w" "stops r" "stops s" "dumps st v @ r = dumps st w @ s"
  shows "v = w \<and> r = s"
proof -
  from dumps_open [OF assms(2,3,6)] assms(1) have w: "scalar w" by simp
  from token_prefix [OF scalar_token scalar_token assms(4-6)] assms w
  have "dumps st v = dumps st w" "r = s" by auto
  with scalar_text_inj [OF assms(1) w assms(2,3)] show ?thesis by blast
qed

text \<open>A value followed by punctuation can be read back: the property lifted over lists.\<close>

definition readable :: "json_style \<Rightarrow> json \<Rightarrow> bool" where
  "readable st v \<longleftrightarrow> (\<forall>w r s. json_ok w \<longrightarrow> stops r \<longrightarrow> stops s \<longrightarrow>
     dumps st v @ r = dumps st w @ s \<longrightarrow> v = w \<and> r = s)"

lemma readableD:
  "readable st v \<Longrightarrow> dumps st v @ r = dumps st w @ s \<Longrightarrow> json_ok w \<Longrightarrow> stops r \<Longrightarrow> stops s \<Longrightarrow>
     v = w \<and> r = s"
  unfolding readable_def by blast

lemma dumps_more_prefix:
  assumes st: "style_ok st"
  shows "\<forall>v\<in>set vs. readable st v \<Longrightarrow> list_all json_ok ws \<Longrightarrow>
      dumps_more st vs @ r = dumps_more st ws @ s \<Longrightarrow> vs = ws \<and> r = s"
proof (induction vs arbitrary: ws)
  case Nil
  then show ?case using sep_not_close [OF st] by (cases ws) auto
next
  case (Cons v vs)
  then obtain w ws' where ws: "ws = w # ws'"
    using sep_not_close(1) [OF st] by (cases ws) (auto dest: sym)
  with Cons.prems have "dumps st v @ dumps_more st vs @ r = dumps st w @ dumps_more st ws' @ s" by simp
  with Cons.prems ws have "v = w \<and> dumps_more st vs @ r = dumps_more st ws' @ s"
    by (intro readableD [of st]) (auto intro: more_stops st)
  with Cons.IH [of ws'] Cons.prems ws show ?case by auto
qed

lemma dumps_list_prefix:
  assumes st: "style_ok st"
    and vs: "\<forall>v\<in>set vs. readable st v" "list_all json_ok vs" and ws: "list_all json_ok ws"
    and eq: "dumps_list st vs @ r = dumps_list st ws @ s"
  shows "vs = ws \<and> r = s"
proof (cases vs; cases ws)
  fix v vs' w ws'
  assume eqs: "vs = v # vs'" "ws = w # ws'"
  with eq have "dumps st v @ dumps_more st vs' @ r = dumps st w @ dumps_more st ws' @ s" by simp
  with vs ws eqs have "v = w \<and> dumps_more st vs' @ r = dumps_more st ws' @ s"
    by (intro readableD [of st]) (auto intro: more_stops st)
  with dumps_more_prefix [OF st, of vs' ws' r s] vs ws eqs show ?thesis by simp
qed (use eq vs ws in \<open>auto simp: close_not_value dest: sym\<close>)

lemma field_prefix:
  assumes st: "style_ok st" and v: "readable st v" "json_ok w" "stops r" "stops s"
    and eq: "quote st k @ key_sep st @ dumps st v @ r = quote st l @ key_sep st @ dumps st w @ s"
  shows "k = l \<and> v = w \<and> r = s"
proof -
  from st have "escapes_ok (escapes st)" by (simp add: style_ok_def)
  from quote_prefix [OF this eq] have "k = l" "dumps st v @ r = dumps st w @ s" by auto
  with readableD v show ?thesis by blast
qed

lemma dumps_more_fields_prefix:
  assumes st: "style_ok st"
  shows "\<forall>(k, v)\<in>set fs. readable st v \<Longrightarrow> list_all (\<lambda>(k, v). json_ok v) gs \<Longrightarrow>
      dumps_more_fields st fs @ r = dumps_more_fields st gs @ s \<Longrightarrow> fs = gs \<and> r = s"
proof (induction fs arbitrary: gs)
  case Nil
  then show ?case using sep_not_close [OF st] by (cases gs) auto
next
  case (Cons kv fs)
  obtain k v where kv: "kv = (k, v)" by force
  with Cons.prems obtain l w gs' where gs: "gs = (l, w) # gs'"
    using sep_not_close(2) [OF st] by (cases gs) (auto dest: sym)
  with Cons.prems kv have "quote st k @ key_sep st @ dumps st v @ dumps_more_fields st fs @ r
      = quote st l @ key_sep st @ dumps st w @ dumps_more_fields st gs' @ s" by simp
  with Cons.prems kv gs have "k = l \<and> v = w \<and> dumps_more_fields st fs @ r = dumps_more_fields st gs' @ s"
    by (intro field_prefix [OF st]) (auto intro: more_stops st)
  with Cons.IH [of gs'] Cons.prems kv gs show ?case by auto
qed

lemma dumps_fields_prefix:
  assumes st: "style_ok st"
    and fs: "\<forall>(k, v)\<in>set fs. readable st v" and gs: "list_all (\<lambda>(k, v). json_ok v) gs"
    and eq: "dumps_fields st fs @ r = dumps_fields st gs @ s"
  shows "fs = gs \<and> r = s"
proof (cases fs; cases gs)
  fix kv fs' lw gs'
  assume eqs: "fs = kv # fs'" "gs = lw # gs'"
  obtain k v l w where kv: "kv = (k, v)" "lw = (l, w)" by force
  with eq eqs have "quote st k @ key_sep st @ dumps st v @ dumps_more_fields st fs' @ r
      = quote st l @ key_sep st @ dumps st w @ dumps_more_fields st gs' @ s" by simp
  with fs gs eqs kv have "k = l \<and> v = w \<and> dumps_more_fields st fs' @ r = dumps_more_fields st gs' @ s"
    by (intro field_prefix [OF st]) (auto intro: more_stops st)
  with dumps_more_fields_prefix [OF st, of fs' gs' r s] fs gs eqs kv show ?thesis by simp
qed (use eq in \<open>auto simp: quote_def\<close>)

lemma readable_scalar: "scalar v \<Longrightarrow> json_ok v \<Longrightarrow> readable st v"
  unfolding readable_def by (intro allI impI) (rule scalar_readable)

lemma readable_all: "style_ok st \<Longrightarrow> json_ok v \<Longrightarrow> readable st v"
proof (induction v)
  case (JStr t)
  show ?case unfolding readable_def
  proof (intro allI impI)
    fix w r s
    assume w: "json_ok w" and eq: "dumps st (JStr t) @ r = dumps st w @ s"
    with dumps_open [OF JStr.prems(2) w eq] obtain u where "w = JStr u" by blast
    with eq JStr.prems quote_prefix [of st t r u s] show "JStr t = w \<and> r = s"
      by (simp add: style_ok_def)
  qed
next
  case (JArr vs)
  show ?case unfolding readable_def
  proof (intro allI impI)
    fix w r s
    assume w: "json_ok w" and eq: "dumps st (JArr vs) @ r = dumps st w @ s"
    with dumps_open [OF JArr.prems(2) w eq] obtain ws where "w = JArr ws" by blast
    with eq w JArr dumps_list_prefix [of st vs ws r s] show "JArr vs = w \<and> r = s"
      by (simp add: list_all_iff)
  qed
next
  case (JObj fs)
  have fs: "\<forall>(k, v)\<in>set fs. readable st v"
  proof clarify
    fix k v
    assume "(k, v) \<in> set fs"
    with JObj.prems(2) have "json_ok v" by (auto simp: list_all_iff)
    with JObj.IH [of "(k, v)" v] \<open>(k, v) \<in> set fs\<close> JObj.prems(1) show "readable st v" by simp
  qed
  show ?case unfolding readable_def
  proof (intro allI impI)
    fix w r s
    assume w: "json_ok w" and eq: "dumps st (JObj fs) @ r = dumps st w @ s"
    with dumps_open [OF JObj.prems(2) w eq] obtain gs where "w = JObj gs" by blast
    with eq w fs JObj.prems dumps_fields_prefix [of st fs gs r s] show "JObj fs = w \<and> r = s"
      by simp
  qed
qed (auto intro: readable_scalar)

theorem dumps_inj:
  assumes "style_ok st" "json_ok v" "json_ok w" "dumps st v = dumps st w"
  shows "v = w"
proof -
  have "dumps st v @ [] = dumps st w @ []" using assms(4) by simp
  with readableD [OF readable_all [OF assms(1,2)] this assms(3)] show ?thesis
    by (simp add: stops_def)
qed

lemma json_ok_sort_fields: "json_ok v \<Longrightarrow> json_ok (sort_fields v)"
proof (induction v)
  case (JObj fs)
  then show ?case by (fastforce simp: list_all_iff)
qed (auto simp: list_all_iff)

text \<open>Two values with the same canonical text have the same fields, up to their order.\<close>

theorem json_text_inj:
  assumes "style_ok st" "json_ok v" "json_ok w" "json_dumps st v = json_dumps st w"
  shows "sort_fields v = sort_fields w"
  using assms dumps_inj json_ok_sort_fields unfolding json_dumps_def by blast

end
