(* ===== verification/Cap_Policy.thy ===== *)
theory Cap_Policy
  imports Canonical_Json
begin

text \<open>
  CAP's trust boundary: the vocabulary of \<open>app/core/contracts/policy.py\<close>, the regular
  expressions of \<open>PrivacyClassifier\<close> with a matcher for them, and \<open>PolicyEngine\<close>,
  which turns a planned action into a risk, the permissions it needs and whether a human has to
  approve it.
\<close>

section \<open>Vocabulary\<close>

datatype privacy_category = PUBLIC | INTERNAL | PERSONAL | SENSITIVE | CRITICAL_DATA

datatype action_risk = LOW | MEDIUM | HIGH | CRITICAL

datatype approval_decision = ALLOW | DENY | ASK_USER | STORE_PERMISSION

datatype permission_decision = ALLOWED | DENIED | UNKNOWN

datatype permission_scope =
  READ | WRITE | DELETE | EXECUTE | NETWORK | MODEL_CLOUD | MODEL_LOCAL

fun privacy_value :: "privacy_category \<Rightarrow> string" where
  "privacy_value PUBLIC = ''public''"
| "privacy_value INTERNAL = ''internal''"
| "privacy_value PERSONAL = ''personal''"
| "privacy_value SENSITIVE = ''sensitive''"
| "privacy_value CRITICAL_DATA = ''critical''"

fun risk_value :: "action_risk \<Rightarrow> string" where
  "risk_value LOW = ''low''"
| "risk_value MEDIUM = ''medium''"
| "risk_value HIGH = ''high''"
| "risk_value CRITICAL = ''critical''"

fun decision_value :: "approval_decision \<Rightarrow> string" where
  "decision_value ALLOW = ''allow''"
| "decision_value DENY = ''deny''"
| "decision_value ASK_USER = ''ask_user''"
| "decision_value STORE_PERMISSION = ''store_permission''"

fun scope_value :: "permission_scope \<Rightarrow> string" where
  "scope_value READ = ''read''"
| "scope_value WRITE = ''write''"
| "scope_value DELETE = ''delete''"
| "scope_value EXECUTE = ''execute''"
| "scope_value NETWORK = ''network''"
| "scope_value MODEL_CLOUD = ''model_cloud''"
| "scope_value MODEL_LOCAL = ''model_local''"

lemma enum_value_inj:
  "risk_value a = risk_value b \<longleftrightarrow> a = b"
  "decision_value c = decision_value d \<longleftrightarrow> c = d"
  "scope_value e = scope_value f \<longleftrightarrow> e = f"
  "privacy_value g = privacy_value h \<longleftrightarrow> g = h"
     apply (cases a; cases b; simp)
    apply (cases c; cases d; simp)
   apply (cases e; cases f; simp)
  apply (cases g; cases h; simp)
  done

text \<open>Risks are ordered as the enumeration lists them.\<close>

fun risk_rank :: "action_risk \<Rightarrow> nat" where
  "risk_rank LOW = 0"
| "risk_rank MEDIUM = 1"
| "risk_rank HIGH = 2"
| "risk_rank CRITICAL = 3"

lemma risk_rank_inj: "risk_rank a = risk_rank b \<longleftrightarrow> a = b"
  by (cases a; cases b; simp)

instantiation action_risk :: linorder
begin

definition less_eq_action_risk :: "action_risk \<Rightarrow> action_risk \<Rightarrow> bool" where
  "a \<le> b \<longleftrightarrow> risk_rank a \<le> risk_rank b"

definition less_action_risk :: "action_risk \<Rightarrow> action_risk \<Rightarrow> bool" where
  "a < b \<longleftrightarrow> risk_rank a < risk_rank b"

instance
  by standard (auto simp: less_eq_action_risk_def less_action_risk_def risk_rank_inj)

end

lemma risk_le_simps [simp]:
  "LOW \<le> r" "r \<le> CRITICAL" "MEDIUM \<le> HIGH" "\<not> HIGH \<le> MEDIUM" "\<not> HIGH \<le> LOW" "\<not> MEDIUM \<le> LOW"
  "\<not> CRITICAL \<le> HIGH" "\<not> CRITICAL \<le> MEDIUM" "\<not> CRITICAL \<le> LOW"
  by (cases r; simp add: less_eq_action_risk_def)+

section \<open>Privacy classification\<close>

text \<open>The regular expressions of \<open>PrivacyClassifier\<close>: \<open>\b\<close>, a letter, an optional class.\<close>

datatype rx = Bound | Lit char | Opt "char list"

definition word_chars :: "string" where
  "word_chars = upper_letters @ lower_letters @ digits @ ''_''"

definition is_word :: "char option \<Rightarrow> bool" where
  "is_word c = (case c of None \<Rightarrow> False | Some c \<Rightarrow> c \<in> set word_chars)"

definition first_char :: "string \<Rightarrow> char option" where
  "first_char s = (case s of [] \<Rightarrow> None | c # _ \<Rightarrow> Some c)"

text \<open>Match at the current position; \<open>prev\<close> is the character before it.\<close>

fun rx_match :: "rx list \<Rightarrow> char option \<Rightarrow> string \<Rightarrow> bool" where
  "rx_match [] prev s = True"
| "rx_match (Bound # p) prev s = (is_word prev \<noteq> is_word (first_char s) \<and> rx_match p prev s)"
| "rx_match (Lit c # p) prev [] = False"
| "rx_match (Lit c # p) prev (x # s) = (char_lower x = char_lower c \<and> rx_match p (Some x) s)"
| "rx_match (Opt cs # p) prev [] = rx_match p prev []"
| "rx_match (Opt cs # p) prev (x # s) =
     (x \<in> set cs \<and> rx_match p (Some x) s \<or> rx_match p prev (x # s))"

text \<open>\<open>re.search\<close> with \<open>IGNORECASE\<close>.\<close>

fun rx_search :: "rx list \<Rightarrow> char option \<Rightarrow> string \<Rightarrow> bool" where
  "rx_search p prev [] = rx_match p prev []"
| "rx_search p prev (c # s) = (rx_match p prev (c # s) \<or> rx_search p (Some c) s)"

fun rx_text :: "rx list \<Rightarrow> string" where
  "rx_text [] = []"
| "rx_text (Bound # p) = [CHR 0x5C, CHR ''b''] @ rx_text p"
| "rx_text (Lit c # p) = c # rx_text p"
| "rx_text (Opt cs # p) = ''['' @ cs @ '']?'' @ rx_text p"

definition word_pattern :: "string \<Rightarrow> rx list" where
  "word_pattern w = Bound # map Lit w @ [Bound]"

definition critical_patterns :: "rx list list" where
  "critical_patterns =
     [word_pattern ''password'',
      Bound # map Lit ''api'' @ [Opt ''_ -''] @ map Lit ''key'' @ [Bound],
      word_pattern ''secret'', word_pattern ''private key'', word_pattern ''seed phrase'',
      word_pattern ''token'']"

definition sensitive_patterns :: "rx list list" where
  "sensitive_patterns = map word_pattern
     [''ssn'', ''social security'', ''credit card'', ''bank'', ''medical'', ''health'', ''legal'']"

definition personal_patterns :: "rx list list" where
  "personal_patterns = map word_pattern
     [''email'', ''phone'', ''address'', ''contact'', ''calendar'', ''outlook'', ''gmail'']"

definition internal_patterns :: "rx list list" where
  "internal_patterns = map word_pattern
     [''internal'', ''confidential'', ''company'', ''workspace'', ''repository'']"

record privacy_classification =
  pc_category :: privacy_category
  pc_reasons :: "string list"

text \<open>
  \<open>str(value)\<close> of a value that is neither a string, a dictionary nor a list; \<open>show\<close>
  gives it for the objects the classifier does not look into.
\<close>

fun py_str :: "(pyval \<Rightarrow> string) \<Rightarrow> pyval \<Rightarrow> string" where
  "py_str show PNone = ''None''"
| "py_str show (PBool b) = (if b then ''True'' else ''False'')"
| "py_str show (PInt i) = int_str i"
| "py_str show (PFloat t) = t"
| "py_str show (PStr s) = s"
| "py_str show (PEnum s) = s"
| "py_str show (POther s) = s"
| "py_str show v = show v"

text \<open>\<open>PrivacyClassifier._normalize\<close>.\<close>

fun classifier_text :: "(pyval \<Rightarrow> string) \<Rightarrow> pyval \<Rightarrow> string" where
  "classifier_text show (PStr s) = s"
| "classifier_text show (PEnum s) = s"
| "classifier_text show (PDict kvs) =
     py_join '' '' (map (\<lambda>(k, v). k @ '' '' @ classifier_text show v) kvs)"
| "classifier_text show (PList vs) = py_join '' '' (map (classifier_text show) vs)"
| "classifier_text show v = py_str show v"

fun first_category ::
  "string \<Rightarrow> (privacy_category \<times> rx list list) list \<Rightarrow> privacy_classification" where
  "first_category text [] = \<lparr>pc_category = PUBLIC, pc_reasons = []\<rparr>"
| "first_category text ((cat, pats) # checks) =
     (let reasons = map (\<lambda>p. ''Matched privacy signal: '' @ rx_text p)
                        (filter (\<lambda>p. rx_search p None text) pats)
      in if reasons \<noteq> [] then \<lparr>pc_category = cat, pc_reasons = reasons\<rparr>
         else first_category text checks)"

definition privacy_checks :: "(privacy_category \<times> rx list list) list" where
  "privacy_checks =
     [(CRITICAL_DATA, critical_patterns), (SENSITIVE, sensitive_patterns),
      (PERSONAL, personal_patterns), (INTERNAL, internal_patterns)]"

definition classify :: "(pyval \<Rightarrow> string) \<Rightarrow> pyval \<Rightarrow> privacy_classification" where
  "classify show v = first_category (classifier_text show v) privacy_checks"

section \<open>The policy engine\<close>

record planned_action =
  pa_action_id :: string
  pa_action_type :: string
  pa_description :: string
  pa_target :: "string option"
  pa_payload :: "(string \<times> pyval) list"
  pa_requested :: "permission_scope list"
  pa_metadata :: "(string \<times> pyval) list"

record execution_constraints =
  ec_requires_local_model :: bool
  ec_network_allowed :: bool
  ec_privacy_category :: privacy_category

record policy_decision =
  pd_action_id :: string
  pd_allowed :: bool
  pd_risk :: action_risk
  pd_privacy :: privacy_classification
  pd_required :: "permission_scope list"
  pd_approval_required :: bool
  pd_use_local_model :: bool
  pd_constraints :: execution_constraints
  pd_reasons :: "string list"

definition normalize_action_type :: "string \<Rightarrow> string" where
  "normalize_action_type t =
     py_replace CHR '' '' CHR ''_'' (py_replace CHR ''-'' CHR ''_'' (py_lower (py_strip t)))"

definition READ_ACTIONS :: "string list" where
  "READ_ACTIONS = [''read'', ''list'', ''search'', ''summarize'', ''inspect'']"

definition WRITE_ACTIONS :: "string list" where
  "WRITE_ACTIONS = [''write'', ''create'', ''update'', ''edit'', ''save'', ''organize'']"

definition DELETE_ACTIONS :: "string list" where
  "DELETE_ACTIONS = [''delete'', ''remove'', ''destroy'']"

definition EXECUTE_ACTIONS :: "string list" where
  "EXECUTE_ACTIONS = [''execute'', ''run'', ''shell'', ''command'']"

definition NETWORK_ACTIONS :: "string list" where
  "NETWORK_ACTIONS = [''send'', ''email'', ''post'', ''request'', ''upload'', ''download'']"

definition INTERNET_ACTIONS :: "string list" where
  "INTERNET_ACTIONS = [''internet'', ''web_search'', ''search_web'', ''fetch_url'', ''browse'']"

definition required_permissions :: "string \<Rightarrow> planned_action \<Rightarrow> permission_scope list" where
  "required_permissions t a =
     (let ps = dedupe (pa_requested a);
          ps = (if t \<in> set READ_ACTIONS then ps @ [READ] else ps);
          ps = (if t \<in> set WRITE_ACTIONS then ps @ [WRITE] else ps);
          ps = (if t \<in> set DELETE_ACTIONS then ps @ [DELETE] else ps);
          ps = (if t \<in> set EXECUTE_ACTIONS then ps @ [EXECUTE] else ps);
          ps = (if t \<in> set NETWORK_ACTIONS then ps @ [NETWORK] else ps);
          ps = (if t \<in> set INTERNET_ACTIONS then ps @ [NETWORK] else ps)
      in dedupe ps)"

definition risk_for ::
  "string \<Rightarrow> privacy_category \<Rightarrow> permission_scope list \<Rightarrow> action_risk" where
  "risk_for t cat ps =
     (if cat = CRITICAL_DATA \<or> DELETE \<in> set ps \<or> EXECUTE \<in> set ps then CRITICAL
      else if cat = SENSITIVE \<or> WRITE \<in> set ps \<or> NETWORK \<in> set ps then HIGH
      else if cat \<in> {PERSONAL, INTERNAL} then MEDIUM
      else if t \<notin> set READ_ACTIONS then MEDIUM
      else LOW)"

definition approval_required_for :: "action_risk \<Rightarrow> permission_scope list \<Rightarrow> bool" where
  "approval_required_for risk ps =
     (risk \<in> {HIGH, CRITICAL} \<or>
      list_ex (\<lambda>p. p \<in> set ps) [WRITE, DELETE, EXECUTE, NETWORK, READ])"

definition policy_reasons :: "action_risk \<Rightarrow> bool \<Rightarrow> bool \<Rightarrow> string list" where
  "policy_reasons risk approval local =
     [''Classified action risk as '' @ risk_value risk @ ''.''] @
     (if approval then [''Human approval is required before execution.''] else []) @
     (if local then [''Sensitive data should stay on a local model boundary.''] else [])"

definition classified_value :: "planned_action \<Rightarrow> pyval" where
  "classified_value a =
     PDict [(''description'', PStr (pa_description a)),
            (''target'', (case pa_target a of None \<Rightarrow> PNone | Some t \<Rightarrow> PStr t)),
            (''payload'', PDict (pa_payload a))]"

definition evaluate :: "(pyval \<Rightarrow> string) \<Rightarrow> planned_action \<Rightarrow> policy_decision" where
  "evaluate show a =
     (let t = normalize_action_type (pa_action_type a);
          privacy = classify show (classified_value a);
          ps = required_permissions t a;
          risk = risk_for t (pc_category privacy) ps;
          approval = approval_required_for risk ps;
          local = pc_category privacy \<in> {SENSITIVE, CRITICAL_DATA}
      in \<lparr>pd_action_id = pa_action_id a,
          pd_allowed = (\<not> approval \<and> risk \<noteq> CRITICAL),
          pd_risk = risk,
          pd_privacy = privacy,
          pd_required = ps,
          pd_approval_required = approval,
          pd_use_local_model = local,
          pd_constraints =
            \<lparr>ec_requires_local_model = local, ec_network_allowed = True,
             ec_privacy_category = pc_category privacy\<rparr>,
          pd_reasons = policy_reasons risk approval local\<rparr>)"

section \<open>Lemmas\<close>

lemma set_required_permissions:
  "set (required_permissions t a) =
     set (pa_requested a)
     \<union> (if t \<in> set READ_ACTIONS then {READ} else {})
     \<union> (if t \<in> set WRITE_ACTIONS then {WRITE} else {})
     \<union> (if t \<in> set DELETE_ACTIONS then {DELETE} else {})
     \<union> (if t \<in> set EXECUTE_ACTIONS then {EXECUTE} else {})
     \<union> (if t \<in> set NETWORK_ACTIONS \<or> t \<in> set INTERNET_ACTIONS then {NETWORK} else {})"
  by (auto simp: required_permissions_def Let_def)

lemma distinct_required_permissions [simp]: "distinct (required_permissions t a)"
  by (simp add: required_permissions_def Let_def)

lemma risk_for_mono: "set ps \<subseteq> set qs \<Longrightarrow> risk_for t cat ps \<le> risk_for t cat qs"
  by (auto simp: risk_for_def)

lemma risk_for_not_high:
  "\<not> HIGH \<le> risk_for t cat ps \<Longrightarrow>
     cat \<in> {PUBLIC, INTERNAL, PERSONAL} \<and> set ps \<inter> {WRITE, DELETE, EXECUTE, NETWORK} = {}"
  by (cases cat) (auto simp: risk_for_def split: if_splits)

lemma evaluate_simps:
  "pd_action_id (evaluate show a) = pa_action_id a"
  "pd_required (evaluate show a) = required_permissions (normalize_action_type (pa_action_type a)) a"
  "pd_privacy (evaluate show a) = classify show (classified_value a)"
  "pd_risk (evaluate show a) =
     risk_for (normalize_action_type (pa_action_type a))
       (pc_category (classify show (classified_value a)))
       (required_permissions (normalize_action_type (pa_action_type a)) a)"
  "pd_approval_required (evaluate show a) =
     approval_required_for (pd_risk (evaluate show a)) (pd_required (evaluate show a))"
  "pd_allowed (evaluate show a) \<longleftrightarrow>
     \<not> pd_approval_required (evaluate show a) \<and> pd_risk (evaluate show a) \<noteq> CRITICAL"
  "pd_use_local_model (evaluate show a) \<longleftrightarrow>
     pc_category (classify show (classified_value a)) \<in> {SENSITIVE, CRITICAL_DATA}"
  "ec_requires_local_model (pd_constraints (evaluate show a)) = pd_use_local_model (evaluate show a)"
  "ec_privacy_category (pd_constraints (evaluate show a)) =
     pc_category (classify show (classified_value a))"
  "pd_reasons (evaluate show a) =
     policy_reasons (pd_risk (evaluate show a)) (pd_approval_required (evaluate show a))
       (pd_use_local_model (evaluate show a))"
  by (simp_all add: evaluate_def Let_def)

text \<open>The signals that bind an action to a local model.\<close>

definition signals :: "(pyval \<Rightarrow> string) \<Rightarrow> planned_action \<Rightarrow> bool" where
  "signals show a = list_ex (\<lambda>p. rx_search p None (classifier_text show (classified_value a)))
                      (critical_patterns @ sensitive_patterns)"

lemma signals_local: "ec_requires_local_model (pd_constraints (evaluate show a)) = signals show a"
proof -
  let ?t = "classifier_text show (classified_value a)"
  have first: "pc_category (first_category ?t ((c, ps) # checks)) =
      (if list_ex (\<lambda>p. rx_search p None ?t) ps then c else pc_category (first_category ?t checks))" for c ps checks
    by (simp add: Let_def list_ex_iff filter_empty_conv)
  show ?thesis
    unfolding signals_def evaluate_simps classify_def privacy_checks_def first by simp
qed

lemma critical_needs_approval: "approval_required_for CRITICAL ps"
  by (simp add: approval_required_for_def)

text \<open>The classifier reports the first category, from the most critical one, with a signal.\<close>

lemma first_category_public:
  "pc_category (first_category text checks) = PUBLIC \<Longrightarrow> \<forall>(c, ps)\<in>set checks. c \<noteq> PUBLIC \<Longrightarrow>
     (c, ps) \<in> set checks \<Longrightarrow> p \<in> set ps \<Longrightarrow> \<not> rx_search p None text"
  by (induction checks) (auto simp: Let_def filter_empty_conv split: if_splits)

definition type_char :: "char \<Rightarrow> char" where
  "type_char c = (if char_lower c = CHR ''-'' \<or> char_lower c = CHR '' '' then CHR ''_'' else char_lower c)"

lemma normalize_action_type_map: "normalize_action_type t = map type_char (py_strip t)"
  by (simp add: normalize_action_type_def py_replace_def py_lower_def type_char_def)

lemma type_char_idem: "type_char (type_char c) = type_char c"
proof -
  have "char_lower (CHR ''_'') = CHR ''_''" by code_simp
  then show ?thesis by (simp add: type_char_def)
qed

lemma type_char_not_space: "\<not> is_space c \<Longrightarrow> \<not> is_space (type_char c)"
proof -
  have "\<not> is_space (CHR ''_'')" by code_simp
  then show "\<not> is_space c \<Longrightarrow> \<not> is_space (type_char c)"
    by (simp add: type_char_def is_space_not_lower)
qed

lemma trimmed_map_not_space:
  "(\<And>c. \<not> is_space c \<Longrightarrow> \<not> is_space (f c)) \<Longrightarrow> trimmed s \<Longrightarrow> trimmed (map f s)"
  by (cases "s = []") (simp_all add: trimmed_def hd_map last_map)

lemma normalize_action_type_idem:
  "normalize_action_type (normalize_action_type t) = normalize_action_type t"
proof -
  have "trimmed (map type_char (py_strip t))"
    using type_char_not_space trimmed_py_strip by (rule trimmed_map_not_space)
  then show ?thesis
    by (simp add: normalize_action_type_map py_strip_trimmed_id type_char_idem)
qed

end
