(* ===== verification/Cap_Permit.thy ===== *)
theory Cap_Permit
  imports Cap_Policy
begin

text \<open>
  CAP's permits (\<open>app/core/contracts/policy.py\<close>): the normalisation of an operation, its
  digest, and \<open>ExecutionPermit\<close> with its signature, validity window and reissue. SHA-256,
  HMAC and \<open>isoformat\<close> are functions of the library the code calls: they are the fields
  of \<open>crypto\<close>, and what is proved about a digest names the pair of texts that would have
  to collide.
\<close>

section \<open>Normalised operations\<close>

record crypto =
  sha256 :: "string \<Rightarrow> string"
  hmac_sha256 :: "string \<Rightarrow> string \<Rightarrow> string"
  isoformat :: "int \<Rightarrow> string"

definition INCIDENTAL_OPERATION_KEYS :: "string list" where
  "INCIDENTAL_OPERATION_KEYS = [''_cap_permit'', ''plan_task_id'', ''plan_task_kind'']"

definition keep_fields :: "(string \<times> json) list \<Rightarrow> (string \<times> json) list" where
  "keep_fields fs = sort_key fst (filter (\<lambda>(k, v). k \<notin> set INCIDENTAL_OPERATION_KEYS) fs)"

fun normalize_operation_payload :: "(int \<Rightarrow> string) \<Rightarrow> pyval \<Rightarrow> json" where
  "normalize_operation_payload isof (PModel fs) =
     JObj (keep_fields (map (\<lambda>(k, v). (k, normalize_operation_payload isof v)) fs))"
| "normalize_operation_payload isof (PDict fs) =
     JObj (keep_fields (map (\<lambda>(k, v). (k, normalize_operation_payload isof v)) fs))"
| "normalize_operation_payload isof (PList vs) = JArr (map (normalize_operation_payload isof) vs)"
| "normalize_operation_payload isof (PTuple vs) = JArr (map (normalize_operation_payload isof) vs)"
| "normalize_operation_payload isof (PEnum s) = JStr s"
| "normalize_operation_payload isof (PDatetime d) = JStr (isof (utc_us (as_utc d)))"
| "normalize_operation_payload isof (PStr s) = JStr s"
| "normalize_operation_payload isof (PInt i) = JInt i"
| "normalize_operation_payload isof (PFloat t) = JFloat (json_float t)"
| "normalize_operation_payload isof (PBool b) = JBool b"
| "normalize_operation_payload isof PNone = JNull"
| "normalize_operation_payload isof (POther s) = JStr s"

definition normalize_target :: "string option \<Rightarrow> string option" where
  "normalize_target t =
     (case t of None \<Rightarrow> None
      | Some s \<Rightarrow> (let n = py_strip s in if n = [] then None else Some n))"

definition opt_json :: "string option \<Rightarrow> json" where
  "opt_json t = (case t of None \<Rightarrow> JNull | Some s \<Rightarrow> JStr s)"

definition opt_py :: "string option \<Rightarrow> pyval" where
  "opt_py t = (case t of None \<Rightarrow> PNone | Some s \<Rightarrow> PStr s)"

definition canonical_operation ::
  "(int \<Rightarrow> string) \<Rightarrow> string \<Rightarrow> string option \<Rightarrow> (string \<times> pyval) list \<Rightarrow> json" where
  "canonical_operation isof action_type target payload =
     JObj [(''action_type'', JStr (normalize_action_type action_type)),
           (''target'', opt_json (normalize_target target)),
           (''payload'', normalize_operation_payload isof (PDict payload))]"

definition operation_text ::
  "crypto \<Rightarrow> string \<Rightarrow> string option \<Rightarrow> (string \<times> pyval) list \<Rightarrow> string" where
  "operation_text C action_type target payload =
     json_dumps compact_style (canonical_operation (isoformat C) action_type target payload)"

definition operation_digest ::
  "crypto \<Rightarrow> string \<Rightarrow> string option \<Rightarrow> (string \<times> pyval) list \<Rightarrow> string" where
  "operation_digest C action_type target payload =
     sha256 C (operation_text C action_type target payload)"

section \<open>What an execution is authorised for\<close>

fun truthy :: "pyval \<Rightarrow> bool" where
  "truthy PNone = False"
| "truthy (PBool b) = b"
| "truthy (PInt i) = (i \<noteq> 0)"
| "truthy (PFloat t) = (t \<noteq> ''0.0'' \<and> t \<noteq> ''-0.0'')"
| "truthy (PStr s) = (s \<noteq> [])"
| "truthy (PEnum s) = (s \<noteq> [])"
| "truthy (PList vs) = (vs \<noteq> [])"
| "truthy (PTuple vs) = (vs \<noteq> [])"
| "truthy (PDict fs) = (fs \<noteq> [])"
| "truthy v = True"

definition opt_truthy :: "pyval option \<Rightarrow> bool" where
  "opt_truthy v = (case v of None \<Rightarrow> False | Some v \<Rightarrow> truthy v)"

text \<open>\<open>s.rsplit(m, 1)[-1]\<close>: the text after the last \<open>m\<close>, if there is one.\<close>

fun after_last :: "string \<Rightarrow> string \<Rightarrow> string option" where
  "after_last m [] = (if m = [] then Some [] else None)"
| "after_last m (c # cs) =
     (case after_last m cs of
        Some r \<Rightarrow> Some r
      | None \<Rightarrow> if py_startswith (c # cs) m then Some (drop (length m) (c # cs)) else None)"

definition PROVIDER_ACTIONS :: "string list" where
  "PROVIDER_ACTIONS = [''text_generation'', ''code_generation'', ''provider'']"

definition user_request_marker :: "string" where
  "user_request_marker = ''[USER REQUEST]'' @ [CHR 0x0A]"

text \<open>\<open>isinstance(v, str)\<close>, with the text of the string.\<close>

definition as_str :: "pyval option \<Rightarrow> string option" where
  "as_str v = (case v of Some (PStr s) \<Rightarrow> Some s | Some (PEnum s) \<Rightarrow> Some s | _ \<Rightarrow> None)"

text \<open>The prompt of a provider task, cut back to the request when context was prepended.\<close>

definition bind_prompt :: "bool \<Rightarrow> (string, pyval) dict \<Rightarrow> (string, pyval) dict" where
  "bind_prompt has_messages payload =
     (case as_str (map_of payload ''prompt'') of
        Some p \<Rightarrow>
          (case after_last user_request_marker p of
             Some r \<Rightarrow> if has_messages then AList.update ''prompt'' (PStr r) payload else payload
           | None \<Rightarrow> payload)
      | None \<Rightarrow> payload)"

definition authorization_payload ::
  "string \<Rightarrow> (string, pyval) dict \<Rightarrow> (string, pyval) dict" where
  "authorization_payload action_type inputs =
     (let messages = map_of inputs ''messages'';
          payload = AList.delete ''prepared_context'' (AList.delete ''messages'' inputs)
      in if normalize_action_type action_type \<in> set PROVIDER_ACTIONS
         then bind_prompt (opt_truthy messages) payload
         else AList.delete ''system_prompt'' (AList.delete ''prompt'' payload))"

definition authorization_target :: "string \<Rightarrow> string option \<Rightarrow> string" where
  "authorization_target action_type tool_id =
     (let normalized = normalize_action_type action_type
      in if normalized \<in> set PROVIDER_ACTIONS then ''provider:'' @ normalized
         else (case normalize_target tool_id of Some t \<Rightarrow> t | None \<Rightarrow> normalized))"

text \<open>\<open>a or b\<close> for strings that may be missing.\<close>

definition str_or :: "string option \<Rightarrow> string option \<Rightarrow> string option" where
  "str_or a b = (case a of Some s \<Rightarrow> if s = [] then b else Some s | None \<Rightarrow> b)"

definition authorization_subject_id ::
  "string option \<Rightarrow> string option \<Rightarrow> string \<Rightarrow> string" where
  "authorization_subject_id user_id session_id request_id =
     (case str_or user_id (str_or session_id (Some request_id)) of
        Some s \<Rightarrow> s | None \<Rightarrow> request_id)"

section \<open>Permits\<close>

record execution_permit =
  ep_permit_id :: string
  ep_action_id :: string
  ep_subject_id :: string
  ep_session_id :: "string option"
  ep_workspace_id :: "string option"
  ep_action_type :: string
  ep_target :: "string option"
  ep_operation_digest :: string
  ep_required :: "permission_scope list"
  ep_risk :: action_risk
  ep_constraints :: execution_constraints
  ep_policy_reference :: string
  ep_approval_source :: string
  ep_approval_provenance :: "(string, pyval) dict"
  ep_issued_at :: pydatetime
  ep_expires_at :: pydatetime
  ep_decision :: approval_decision
  ep_reasons :: "string list"
  ep_issued_by :: string
  ep_integrity_digest :: string

definition PERMIT_LIFETIME :: int where
  "PERMIT_LIFETIME = 15 * 60 * 1000000"

definition PERMIT_CLOCK_SKEW :: int where
  "PERMIT_CLOCK_SKEW = 30 * 1000000"

definition add_us :: "pydatetime \<Rightarrow> int \<Rightarrow> pydatetime" where
  "add_us d us = (case d of Naive t \<Rightarrow> Naive (t + us) | Aware t off \<Rightarrow> Aware (t + us) off)"

definition constraints_py :: "execution_constraints \<Rightarrow> pyval" where
  "constraints_py c =
     PModel [(''requires_local_model'', PBool (ec_requires_local_model c)),
             (''network_allowed'', PBool (ec_network_allowed c)),
             (''privacy_category'', PEnum (privacy_value (ec_privacy_category c)))]"

text \<open>\<open>model_dump(exclude={"integrity_digest"})\<close>.\<close>

definition permit_values :: "execution_permit \<Rightarrow> (string, pyval) dict" where
  "permit_values p =
     [(''permit_id'', PStr (ep_permit_id p)),
      (''action_id'', PStr (ep_action_id p)),
      (''subject_id'', PStr (ep_subject_id p)),
      (''session_id'', opt_py (ep_session_id p)),
      (''workspace_id'', opt_py (ep_workspace_id p)),
      (''action_type'', PStr (ep_action_type p)),
      (''target'', opt_py (ep_target p)),
      (''operation_digest'', PStr (ep_operation_digest p)),
      (''required_permissions'', PTuple (map (\<lambda>s. PEnum (scope_value s)) (ep_required p))),
      (''risk'', PEnum (risk_value (ep_risk p))),
      (''constraints'', constraints_py (ep_constraints p)),
      (''policy_reference'', PStr (ep_policy_reference p)),
      (''approval_source'', PStr (ep_approval_source p)),
      (''approval_provenance'', PDict (ep_approval_provenance p)),
      (''issued_at'', PDatetime (ep_issued_at p)),
      (''expires_at'', PDatetime (ep_expires_at p)),
      (''decision'', PEnum (decision_value (ep_decision p))),
      (''reasons'', PList (map PStr (ep_reasons p))),
      (''issued_by'', PStr (ep_issued_by p))]"

definition permit_text :: "crypto \<Rightarrow> execution_permit \<Rightarrow> string" where
  "permit_text C p =
     json_dumps compact_style (normalize_operation_payload (isoformat C) (PDict (permit_values p)))"

definition sign_permit :: "crypto \<Rightarrow> string \<Rightarrow> execution_permit \<Rightarrow> string" where
  "sign_permit C key p = hmac_sha256 C key (permit_text C p)"

text \<open>A permit with its signature.\<close>

definition seal :: "crypto \<Rightarrow> string \<Rightarrow> execution_permit \<Rightarrow> execution_permit" where
  "seal C key p = p\<lparr>ep_integrity_digest := sign_permit C key p\<rparr>"

text \<open>\<open>ExecutionPermit.issue\<close>; \<open>pid\<close> is the fresh \<open>uuid4().hex\<close>.\<close>

definition issue_permit ::
  "crypto \<Rightarrow> string \<Rightarrow> string \<Rightarrow> pydatetime \<Rightarrow> planned_action \<Rightarrow> string \<Rightarrow> string option \<Rightarrow>
   string option \<Rightarrow> policy_decision \<Rightarrow> approval_decision \<Rightarrow> string list \<Rightarrow> string \<Rightarrow>
   (string, pyval) dict \<Rightarrow> string \<Rightarrow> execution_permit" where
  "issue_permit C key pid now action subject session workspace policy decision reasons source
       provenance reference =
     (let issued_at = as_utc now in
      seal C key
       \<lparr>ep_permit_id = pid,
        ep_action_id = pa_action_id action,
        ep_subject_id = subject,
        ep_session_id = session,
        ep_workspace_id = workspace,
        ep_action_type = normalize_action_type (pa_action_type action),
        ep_target = normalize_target (pa_target action),
        ep_operation_digest =
          operation_digest C (pa_action_type action) (pa_target action) (pa_payload action),
        ep_required = pd_required policy,
        ep_risk = pd_risk policy,
        ep_constraints = pd_constraints policy,
        ep_policy_reference = reference,
        ep_approval_source = source,
        ep_approval_provenance = provenance,
        ep_issued_at = issued_at,
        ep_expires_at = add_us issued_at PERMIT_LIFETIME,
        ep_decision = decision,
        ep_reasons = reasons,
        ep_issued_by = ''cap.approval_engine'',
        ep_integrity_digest = []\<rparr>)"

definition verify_integrity :: "crypto \<Rightarrow> string \<Rightarrow> execution_permit \<Rightarrow> bool" where
  "verify_integrity C key p = (ep_integrity_digest p = sign_permit C key p)"

definition is_expired :: "pydatetime \<Rightarrow> execution_permit \<Rightarrow> bool" where
  "is_expired now p = (utc_us (as_utc now) \<ge> utc_us (as_utc (ep_expires_at p)))"

definition is_not_yet_valid :: "pydatetime \<Rightarrow> execution_permit \<Rightarrow> bool" where
  "is_not_yet_valid now p =
     (utc_us (as_utc now) + PERMIT_CLOCK_SKEW < utc_us (as_utc (ep_issued_at p)))"

text \<open>\<open>ExecutionPermit.resolve_pending\<close>.\<close>

definition resolve_pending ::
  "crypto \<Rightarrow> string \<Rightarrow> string \<Rightarrow> pydatetime \<Rightarrow> execution_permit \<Rightarrow> approval_decision \<Rightarrow>
   string list \<Rightarrow> string \<Rightarrow> (string, pyval) dict \<Rightarrow> execution_permit" where
  "resolve_pending C key pid now pending decision reasons source provenance =
     (let issued_at = as_utc now in
      seal C key
       (pending\<lparr>ep_permit_id := pid, ep_issued_at := issued_at,
                ep_expires_at := add_us issued_at PERMIT_LIFETIME,
                ep_decision := decision, ep_reasons := reasons,
                ep_approval_source := source, ep_approval_provenance := provenance,
                ep_issued_by := ''cap.approval_engine''\<rparr>))"

text \<open>\<open>configure_permit_signing_key\<close>: the process key, or the error of a short one.\<close>

datatype key_error = SigningKeyTooShort

definition configure_permit_signing_key :: "string \<Rightarrow> (key_error, string) result" where
  "configure_permit_signing_key key =
     (if length key < 32 then Inl SigningKeyTooShort else Inr key)"

section \<open>Lemmas\<close>

subsection \<open>Normal forms\<close>

lemma insort_key_map_snd:
  "insort_key fst (k, f v) (map (\<lambda>(k, v). (k, f v)) xs)
     = map (\<lambda>(k, v). (k, f v)) (insort_key fst (k, v) xs)"
  by (induction xs) auto

lemma sort_key_map_snd:
  "sort_key fst (map (\<lambda>(k, v). (k, f v)) fs) = map (\<lambda>(k, v). (k, f v)) (sort_key fst fs)"
  by (induction fs) (auto simp: insort_key_map_snd)

lemma filter_map_snd:
  "filter (\<lambda>(k, v). k \<notin> A) (map (\<lambda>(k, v). (k, f v)) fs)
     = map (\<lambda>(k, v). (k, f v)) (filter (\<lambda>(k, v). k \<notin> A) fs)"
  by (induction fs) auto

lemma sort_key_idem [simp]: "sort_key f (sort_key f xs) = sort_key f xs"
  by (rule sort_key_id_if_sorted) simp

lemma keep_fields_map_snd:
  "keep_fields (map (\<lambda>(k, v). (k, f v)) fs) = map (\<lambda>(k, v). (k, f v)) (keep_fields fs)"
  by (simp only: keep_fields_def filter_map_snd sort_key_map_snd)

lemma sorted_keep_fields: "sorted (map fst (keep_fields fs))"
  by (simp add: keep_fields_def)

lemma set_keep_fields: "set (keep_fields fs) \<subseteq> set fs"
  by (auto simp: keep_fields_def)

text \<open>A normalised value has its fields sorted already: \<open>sort_keys=True\<close> changes nothing.\<close>

lemma sort_fields_obj:
  assumes "\<And>k v. (k, v) \<in> set fs \<Longrightarrow> sort_fields v = v" and "sorted (map fst fs)"
  shows "sort_fields (JObj fs) = JObj fs"
proof -
  have "map (\<lambda>(k, v). (k, sort_fields v)) fs = fs"
    using assms(1) by (intro map_idI) auto
  with assms(2) show ?thesis by (simp add: sort_key_id_if_sorted)
qed

lemma sort_fields_keep_fields:
  assumes "\<And>k v. (k, v) \<in> set fs \<Longrightarrow> sort_fields (f v) = f v"
  shows "sort_fields (JObj (keep_fields (map (\<lambda>(k, v). (k, f v)) fs)))
    = JObj (keep_fields (map (\<lambda>(k, v). (k, f v)) fs))"
  using assms set_keep_fields by (intro sort_fields_obj sorted_keep_fields) fastforce

lemma sort_fields_normalize [simp]:
  "sort_fields (normalize_operation_payload isof v) = normalize_operation_payload isof v"
proof (induction isof v rule: normalize_operation_payload.induct)
  case (1 isof fs)
  have "sort_fields (normalize_operation_payload isof v) = normalize_operation_payload isof v"
    if "(k, v) \<in> set fs" for k v
    using 1 that by blast
  then show ?case by (simp only: normalize_operation_payload.simps sort_fields_keep_fields)
next
  case (2 isof fs)
  have "sort_fields (normalize_operation_payload isof v) = normalize_operation_payload isof v"
    if "(k, v) \<in> set fs" for k v
    using 2 that by blast
  then show ?case by (simp only: normalize_operation_payload.simps sort_fields_keep_fields)
qed (auto simp: map_idI)

text \<open>Python prints a float with a point, an exponent, or as \<open>nan\<close> or \<open>inf\<close>.\<close>

definition py_float_token :: "string \<Rightarrow> bool" where
  "py_float_token t = float_token (json_float t)"

fun floats_ok :: "pyval \<Rightarrow> bool" where
  "floats_ok (PFloat t) = py_float_token t"
| "floats_ok (PList vs) = list_all floats_ok vs"
| "floats_ok (PTuple vs) = list_all floats_ok vs"
| "floats_ok (PDict fs) = list_all (\<lambda>(k, v). floats_ok v) fs"
| "floats_ok (PModel fs) = list_all (\<lambda>(k, v). floats_ok v) fs"
| "floats_ok v = True"

lemma json_ok_keep_fields:
  assumes "\<And>k v. (k, v) \<in> set fs \<Longrightarrow> json_ok (f v)"
  shows "json_ok (JObj (keep_fields (map (\<lambda>(k, v). (k, f v)) fs)))"
  using assms set_keep_fields by (fastforce simp: list_all_iff)

lemma json_ok_normalize: "floats_ok v \<Longrightarrow> json_ok (normalize_operation_payload isof v)"
proof (induction isof v rule: normalize_operation_payload.induct)
  case (1 isof fs)
  have "json_ok (normalize_operation_payload isof v)" if "(k, v) \<in> set fs" for k v
    using 1 that by (fastforce simp: list_all_iff)
  then show ?case by (simp only: normalize_operation_payload.simps json_ok_keep_fields)
next
  case (2 isof fs)
  have "json_ok (normalize_operation_payload isof v)" if "(k, v) \<in> set fs" for k v
    using 2 that by (fastforce simp: list_all_iff)
  then show ?case by (simp only: normalize_operation_payload.simps json_ok_keep_fields)
qed (auto simp: list_all_iff py_float_token_def)

subsection \<open>The digest binds the operation\<close>

lemma normalize_dict_field:
  assumes eq: "normalize_operation_payload isof (PDict fs) = normalize_operation_payload isof (PDict gs)"
    and fs: "(k, v) \<in> set fs" and gs: "(k, w) \<in> set gs" "distinct (map fst gs)"
    and k: "k \<notin> set INCIDENTAL_OPERATION_KEYS"
  shows "normalize_operation_payload isof v = normalize_operation_payload isof w"
proof -
  let ?n = "map (\<lambda>(k, v). (k, normalize_operation_payload isof v))"
  have in_keep: "(k, normalize_operation_payload isof x) \<in> set (keep_fields (?n hs))"
    if "(k, x) \<in> set hs" for x hs
    using that k by (auto simp: keep_fields_def)
  from in_keep [OF fs] eq have "(k, normalize_operation_payload isof v) \<in> set (keep_fields (?n gs))"
    by simp
  then have "(k, normalize_operation_payload isof v) \<in> set (?n gs)"
    using set_keep_fields by blast
  then obtain x where "(k, x) \<in> set gs" "normalize_operation_payload isof v = normalize_operation_payload isof x"
    by auto
  with gs show ?thesis by (metis eq_key_imp_eq_value)
qed

lemma normalize_PStr_list:
  "map (normalize_operation_payload isof) (map PStr xs)
     = map (normalize_operation_payload isof) (map PStr ys) \<longleftrightarrow> xs = ys"
proof -
  have "map JStr xs = map JStr ys \<longleftrightarrow> xs = ys"
    by (intro inj_map_eq_map injI) simp
  then show ?thesis by (simp add: comp_def)
qed

lemma normalize_opt_py [simp]: "normalize_operation_payload isof (opt_py t) = opt_json t"
  by (cases t) (simp_all add: opt_py_def opt_json_def)

lemma opt_json_inj [simp]: "opt_json s = opt_json t \<longleftrightarrow> s = t"
  by (cases s; cases t) (simp_all add: opt_json_def)

lemma three_fields:
  assumes eq: "{(a, x), (b, y), (c, z)} = {(a, x'), (b, y'), (c, z')}" and "distinct [a, b, c]"
  shows "x = x' \<and> y = y' \<and> z = z'"
proof -
  have "(a, x) \<in> {(a, x'), (b, y'), (c, z')}" "(b, y) \<in> {(a, x'), (b, y'), (c, z')}"
    "(c, z) \<in> {(a, x'), (b, y'), (c, z')}"
    unfolding eq [symmetric] by simp_all
  with assms(2) show ?thesis by auto
qed

lemma canonical_operation_fields:
  assumes "sort_fields (canonical_operation isof a t p) = sort_fields (canonical_operation isof b u q)"
  shows "normalize_action_type a = normalize_action_type b \<and> normalize_target t = normalize_target u \<and>
    normalize_operation_payload isof (PDict p) = normalize_operation_payload isof (PDict q)"
proof -
  let ?f = "\<lambda>(k :: string, v). (k, sort_fields v)"
  have opt: "sort_fields (opt_json x) = opt_json x" for x
    by (cases x) (simp_all add: opt_json_def)
  have "set (sort_key fst (map ?f [(''action_type'', JStr (normalize_action_type a)),
        (''target'', opt_json (normalize_target t)), (''payload'', normalize_operation_payload isof (PDict p))]))
      = set (sort_key fst (map ?f [(''action_type'', JStr (normalize_action_type b)),
        (''target'', opt_json (normalize_target u)), (''payload'', normalize_operation_payload isof (PDict q))]))"
    using assms unfolding canonical_operation_def by (simp only: sort_fields.simps json.inject)
  then have "{(''action_type'', JStr (normalize_action_type a)), (''target'', opt_json (normalize_target t)),
       (''payload'', normalize_operation_payload isof (PDict p))}
     = {(''action_type'', JStr (normalize_action_type b)), (''target'', opt_json (normalize_target u)),
       (''payload'', normalize_operation_payload isof (PDict q))}"
    by (simp only: set_sort list.map list.set prod.case sort_fields_normalize sort_fields.simps opt)
  from three_fields [OF this] show ?thesis by simp
qed

lemma canonical_operation_ok:
  "floats_ok (PDict p) \<Longrightarrow> json_ok (canonical_operation isof a t p)"
  using json_ok_normalize [of "PDict p" isof]
  by (auto simp: canonical_operation_def opt_json_def split: option.splits)

lemma operation_text_binds:
  assumes "floats_ok (PDict p)" "floats_ok (PDict q)" "operation_text C a t p = operation_text C b u q"
  shows "normalize_action_type a = normalize_action_type b \<and> normalize_target t = normalize_target u \<and>
    normalize_operation_payload (isoformat C) (PDict p) = normalize_operation_payload (isoformat C) (PDict q)"
  using json_text_inj [OF compact_style_ok canonical_operation_ok canonical_operation_ok] assms
    canonical_operation_fields
  unfolding operation_text_def by blast

subsection \<open>The signature binds the permit\<close>

text \<open>Two permits that authorise the same thing: every field agrees, instants as instants.\<close>

definition same_authorization :: "crypto \<Rightarrow> execution_permit \<Rightarrow> execution_permit \<Rightarrow> bool" where
  "same_authorization C p q \<longleftrightarrow>
     ep_permit_id p = ep_permit_id q \<and> ep_action_id p = ep_action_id q \<and>
     ep_subject_id p = ep_subject_id q \<and> ep_session_id p = ep_session_id q \<and>
     ep_workspace_id p = ep_workspace_id q \<and> ep_action_type p = ep_action_type q \<and>
     ep_target p = ep_target q \<and> ep_operation_digest p = ep_operation_digest q \<and>
     ep_required p = ep_required q \<and> ep_risk p = ep_risk q \<and>
     ep_constraints p = ep_constraints q \<and> ep_policy_reference p = ep_policy_reference q \<and>
     ep_approval_source p = ep_approval_source q \<and>
     normalize_operation_payload (isoformat C) (PDict (ep_approval_provenance p))
       = normalize_operation_payload (isoformat C) (PDict (ep_approval_provenance q)) \<and>
     utc_us (ep_issued_at p) = utc_us (ep_issued_at q) \<and>
     utc_us (ep_expires_at p) = utc_us (ep_expires_at q) \<and>
     ep_decision p = ep_decision q \<and> ep_reasons p = ep_reasons q \<and>
     ep_issued_by p = ep_issued_by q"

lemma permit_values_distinct: "distinct (map fst (permit_values p))"
  by (simp add: permit_values_def)

lemma permit_values_keys: "k \<in> fst ` set (permit_values p) \<Longrightarrow> k \<notin> set INCIDENTAL_OPERATION_KEYS"
  by (auto simp: permit_values_def INCIDENTAL_OPERATION_KEYS_def)

lemma scope_list_inj:
  "map (normalize_operation_payload isof) (map (\<lambda>s. PEnum (scope_value s)) xs)
     = map (normalize_operation_payload isof) (map (\<lambda>s. PEnum (scope_value s)) ys) \<longleftrightarrow> xs = ys"
proof -
  have "map (\<lambda>s. JStr (scope_value s)) xs = map (\<lambda>s. JStr (scope_value s)) ys \<longleftrightarrow> xs = ys"
    by (intro inj_map_eq_map injI) (simp add: enum_value_inj)
  then show ?thesis by (simp add: comp_def)
qed

lemma constraints_py_inj:
  assumes "normalize_operation_payload isof (constraints_py c) = normalize_operation_payload isof (constraints_py d)"
  shows "c = d"
proof -
  have dict: "normalize_operation_payload isof (PModel fs) = normalize_operation_payload isof (PDict fs)" for fs
    by simp
  note field = normalize_dict_field [OF assms [unfolded constraints_py_def dict]]
  have "ec_requires_local_model c = ec_requires_local_model d"
    using field [of "''requires_local_model''" "PBool (ec_requires_local_model c)"
        "PBool (ec_requires_local_model d)"] by (simp add: INCIDENTAL_OPERATION_KEYS_def)
  moreover have "ec_network_allowed c = ec_network_allowed d"
    using field [of "''network_allowed''" "PBool (ec_network_allowed c)"
        "PBool (ec_network_allowed d)"] by (simp add: INCIDENTAL_OPERATION_KEYS_def)
  moreover have "ec_privacy_category c = ec_privacy_category d"
    using field [of "''privacy_category''" "PEnum (privacy_value (ec_privacy_category c))"
        "PEnum (privacy_value (ec_privacy_category d))"]
    by (simp add: INCIDENTAL_OPERATION_KEYS_def enum_value_inj)
  ultimately show ?thesis by (cases c; cases d) simp
qed

lemma permit_field:
  assumes "normalize_operation_payload isof (PDict (permit_values p))
      = normalize_operation_payload isof (PDict (permit_values q))"
    and "(k, v) \<in> set (permit_values p)" "(k, w) \<in> set (permit_values q)"
  shows "normalize_operation_payload isof v = normalize_operation_payload isof w"
  using normalize_dict_field [OF assms permit_values_distinct] permit_values_keys [of k p] assms(2)
  by force

lemma permit_text_binds:
  assumes inj: "inj (isoformat C)"
    and ok: "floats_ok (PDict (ep_approval_provenance p))" "floats_ok (PDict (ep_approval_provenance q))"
    and eq: "permit_text C p = permit_text C q"
  shows "same_authorization C p q"
proof -
  have fok: "floats_ok (PDict (permit_values p))" if "floats_ok (PDict (ep_approval_provenance p))" for p
    using that by (auto simp: permit_values_def opt_py_def constraints_py_def list_all_iff split: option.splits)
  have n: "normalize_operation_payload (isoformat C) (PDict (permit_values p))
      = normalize_operation_payload (isoformat C) (PDict (permit_values q))"
    using json_text_inj [OF compact_style_ok json_ok_normalize json_ok_normalize] fok ok eq
    unfolding permit_text_def by (metis sort_fields_normalize)
  note f = permit_field [OF n]
  have s: "ep_permit_id p = ep_permit_id q" "ep_action_id p = ep_action_id q"
    "ep_subject_id p = ep_subject_id q" "ep_action_type p = ep_action_type q"
    "ep_operation_digest p = ep_operation_digest q" "ep_policy_reference p = ep_policy_reference q"
    "ep_approval_source p = ep_approval_source q" "ep_issued_by p = ep_issued_by q"
    using f [of "''permit_id''" "PStr (ep_permit_id p)" "PStr (ep_permit_id q)"]
      f [of "''action_id''" "PStr (ep_action_id p)" "PStr (ep_action_id q)"]
      f [of "''subject_id''" "PStr (ep_subject_id p)" "PStr (ep_subject_id q)"]
      f [of "''action_type''" "PStr (ep_action_type p)" "PStr (ep_action_type q)"]
      f [of "''operation_digest''" "PStr (ep_operation_digest p)" "PStr (ep_operation_digest q)"]
      f [of "''policy_reference''" "PStr (ep_policy_reference p)" "PStr (ep_policy_reference q)"]
      f [of "''approval_source''" "PStr (ep_approval_source p)" "PStr (ep_approval_source q)"]
      f [of "''issued_by''" "PStr (ep_issued_by p)" "PStr (ep_issued_by q)"]
    by (simp_all add: permit_values_def)
  have o: "ep_session_id p = ep_session_id q" "ep_workspace_id p = ep_workspace_id q"
    "ep_target p = ep_target q"
    using f [of "''session_id''" "opt_py (ep_session_id p)" "opt_py (ep_session_id q)"]
      f [of "''workspace_id''" "opt_py (ep_workspace_id p)" "opt_py (ep_workspace_id q)"]
      f [of "''target''" "opt_py (ep_target p)" "opt_py (ep_target q)"]
    by (simp_all add: permit_values_def)
  have t: "utc_us (ep_issued_at p) = utc_us (ep_issued_at q)"
    "utc_us (ep_expires_at p) = utc_us (ep_expires_at q)"
    using f [of "''issued_at''" "PDatetime (ep_issued_at p)" "PDatetime (ep_issued_at q)"]
      f [of "''expires_at''" "PDatetime (ep_expires_at p)" "PDatetime (ep_expires_at q)"]
    by (simp_all add: permit_values_def as_utc_eq inj_eq [OF inj])
  have e: "ep_risk p = ep_risk q" "ep_decision p = ep_decision q"
    using f [of "''risk''" "PEnum (risk_value (ep_risk p))" "PEnum (risk_value (ep_risk q))"]
      f [of "''decision''" "PEnum (decision_value (ep_decision p))" "PEnum (decision_value (ep_decision q))"]
    by (simp_all add: permit_values_def enum_value_inj)
  have l: "ep_required p = ep_required q" "ep_reasons p = ep_reasons q"
    using f [of "''required_permissions''" "PTuple (map (\<lambda>s. PEnum (scope_value s)) (ep_required p))"
          "PTuple (map (\<lambda>s. PEnum (scope_value s)) (ep_required q))"]
      f [of "''reasons''" "PList (map PStr (ep_reasons p))" "PList (map PStr (ep_reasons q))"]
    by (simp_all only: permit_values_def normalize_operation_payload.simps json.inject scope_list_inj
        normalize_PStr_list list.set insert_iff simp_thms)
  have c: "ep_constraints p = ep_constraints q"
    using f [of "''constraints''" "constraints_py (ep_constraints p)" "constraints_py (ep_constraints q)"]
    by (intro constraints_py_inj) (simp add: permit_values_def)
  have v: "normalize_operation_payload (isoformat C) (PDict (ep_approval_provenance p))
      = normalize_operation_payload (isoformat C) (PDict (ep_approval_provenance q))"
    by (rule f [of "''approval_provenance''"]) (simp_all add: permit_values_def)
  show ?thesis unfolding same_authorization_def by (intro conjI s o t e l c v)
qed

subsection \<open>Issue, validity window, reissue\<close>

lemma permit_text_seal [simp]: "permit_text C (p\<lparr>ep_integrity_digest := d\<rparr>) = permit_text C p"
  by (simp add: permit_text_def permit_values_def)

lemma verify_seal [simp]: "verify_integrity C key (seal C key p)"
  by (simp add: verify_integrity_def seal_def sign_permit_def)

lemma utc_us_add_us [simp]: "utc_us (add_us d us) = utc_us d + us"
  by (cases d) (simp_all add: add_us_def)

lemma utc_us_as_utc [simp]: "utc_us (as_utc d) = utc_us d"
  by (simp add: as_utc_eq)

lemma not_expired_iff: "\<not> is_expired now p \<longleftrightarrow> utc_us now < utc_us (ep_expires_at p)"
  by (auto simp: is_expired_def)

lemma issue_permit_verifies [simp]:
  "verify_integrity C key (issue_permit C key pid now a subj ses ws pol dec rs src prov ref)"
  by (simp add: issue_permit_def Let_def)

lemma resolve_pending_verifies [simp]:
  "verify_integrity C key (resolve_pending C key pid now p dec rs src prov)"
  by (simp add: resolve_pending_def Let_def)

lemma resolve_pending_keeps:
  "ep_action_id (resolve_pending C key pid now p dec rs src prov) = ep_action_id p"
  "ep_subject_id (resolve_pending C key pid now p dec rs src prov) = ep_subject_id p"
  "ep_session_id (resolve_pending C key pid now p dec rs src prov) = ep_session_id p"
  "ep_workspace_id (resolve_pending C key pid now p dec rs src prov) = ep_workspace_id p"
  "ep_operation_digest (resolve_pending C key pid now p dec rs src prov) = ep_operation_digest p"
  "ep_required (resolve_pending C key pid now p dec rs src prov) = ep_required p"
  "ep_risk (resolve_pending C key pid now p dec rs src prov) = ep_risk p"
  "ep_constraints (resolve_pending C key pid now p dec rs src prov) = ep_constraints p"
  "ep_action_type (resolve_pending C key pid now p dec rs src prov) = ep_action_type p"
  "ep_target (resolve_pending C key pid now p dec rs src prov) = ep_target p"
  "ep_decision (resolve_pending C key pid now p dec rs src prov) = dec"
  "ep_permit_id (resolve_pending C key pid now p dec rs src prov) = pid"
  by (simp_all add: resolve_pending_def seal_def Let_def)

lemma issue_permit_simps:
  "ep_action_id (issue_permit C key pid now a subj ses ws pol dec rs src prov ref) = pa_action_id a"
  "ep_subject_id (issue_permit C key pid now a subj ses ws pol dec rs src prov ref) = subj"
  "ep_session_id (issue_permit C key pid now a subj ses ws pol dec rs src prov ref) = ses"
  "ep_workspace_id (issue_permit C key pid now a subj ses ws pol dec rs src prov ref) = ws"
  "ep_decision (issue_permit C key pid now a subj ses ws pol dec rs src prov ref) = dec"
  "ep_required (issue_permit C key pid now a subj ses ws pol dec rs src prov ref) = pd_required pol"
  "ep_risk (issue_permit C key pid now a subj ses ws pol dec rs src prov ref) = pd_risk pol"
  "ep_constraints (issue_permit C key pid now a subj ses ws pol dec rs src prov ref) = pd_constraints pol"
  "ep_action_type (issue_permit C key pid now a subj ses ws pol dec rs src prov ref)
     = normalize_action_type (pa_action_type a)"
  "ep_target (issue_permit C key pid now a subj ses ws pol dec rs src prov ref) = normalize_target (pa_target a)"
  "ep_operation_digest (issue_permit C key pid now a subj ses ws pol dec rs src prov ref)
     = operation_digest C (pa_action_type a) (pa_target a) (pa_payload a)"
  "utc_us (ep_issued_at (issue_permit C key pid now a subj ses ws pol dec rs src prov ref)) = utc_us now"
  "utc_us (ep_expires_at (issue_permit C key pid now a subj ses ws pol dec rs src prov ref))
     = utc_us now + PERMIT_LIFETIME"
  by (simp_all add: issue_permit_def seal_def Let_def)

end
