(* ===== verification/Cap_Approval.thy ===== *)
theory Cap_Approval
  imports Cap_Permit
begin

text \<open>
  CAP's approval step: the permission store (an interface and its in-memory implementation),
  and \<open>ApprovalEngine\<close>, which decides a request, issues the permit for the decision and
  turns a pending permit plus a human answer into the final one. The engine's definitions take
  the store's operations as arguments, as the class takes a \<open>PermissionStore\<close>; its lemmas
  are proved once in the locale of that interface.
\<close>

section \<open>The permission store\<close>

record permission_record =
  pr_subject_id :: string
  pr_resource :: string
  pr_scope :: permission_scope
  pr_decision :: permission_decision

type_synonym store_key = "string \<times> string \<times> permission_scope"
type_synonym permission_store = "(store_key, permission_decision) dict"

definition resource_key :: "string \<Rightarrow> string" where
  "resource_key r = py_lower (py_strip r)"

definition store_key :: "string \<Rightarrow> string \<Rightarrow> permission_scope \<Rightarrow> store_key" where
  "store_key subject resource scope = (subject, resource_key resource, scope)"

definition store_get ::
  "permission_store \<Rightarrow> string \<Rightarrow> string \<Rightarrow> permission_scope \<Rightarrow> permission_decision" where
  "store_get s subject resource scope =
     (case map_of s (store_key subject resource scope) of None \<Rightarrow> UNKNOWN | Some d \<Rightarrow> d)"

definition store_set :: "permission_record \<Rightarrow> permission_store \<Rightarrow> permission_store" where
  "store_set r s =
     AList.update (store_key (pr_subject_id r) (pr_resource r) (pr_scope r)) (pr_decision r) s"

definition store_revoke ::
  "string \<Rightarrow> string \<Rightarrow> permission_scope \<Rightarrow> permission_store \<Rightarrow> permission_store" where
  "store_revoke subject resource scope s = AList.delete (store_key subject resource scope) s"

text \<open>What the engine may rely on, whatever the store is.\<close>

locale permission_interface =
  fixes get :: "'s \<Rightarrow> string \<Rightarrow> string \<Rightarrow> permission_scope \<Rightarrow> permission_decision"
    and put :: "permission_record \<Rightarrow> 's \<Rightarrow> 's"
    and revoke :: "string \<Rightarrow> string \<Rightarrow> permission_scope \<Rightarrow> 's \<Rightarrow> 's"
    and empty :: 's
    and rkey :: "string \<Rightarrow> string"
  assumes get_empty: "get empty subject resource scope = UNKNOWN"
    and get_put: "get (put r s) subject resource scope =
      (if subject = pr_subject_id r \<and> rkey resource = rkey (pr_resource r) \<and> scope = pr_scope r
       then pr_decision r else get s subject resource scope)"
    and get_revoke: "get (revoke subject' resource' scope' s) subject resource scope =
      (if subject = subject' \<and> rkey resource = rkey resource' \<and> scope = scope'
       then UNKNOWN else get s subject resource scope)"

section \<open>The approval engine\<close>

record approval_request =
  ar_action :: planned_action
  ar_policy :: policy_decision
  ar_operation :: "planned_action option"
  ar_remember :: bool

record approval_outcome =
  ao_decision :: approval_decision
  ao_action_id :: string
  ao_reasons :: "string list"

record approval_submission =
  as_action_id :: string
  as_decision :: approval_decision
  as_reasons :: "string list"

text \<open>\<open>request.action.target or request.action.action_type\<close>.\<close>

definition permission_resource :: "planned_action \<Rightarrow> string" where
  "permission_resource a =
     (case pa_target a of None \<Rightarrow> pa_action_type a
      | Some t \<Rightarrow> if t = [] then pa_action_type a else t)"

fun first_not_allowed ::
  "('s \<Rightarrow> string \<Rightarrow> string \<Rightarrow> permission_scope \<Rightarrow> permission_decision) \<Rightarrow> 's \<Rightarrow> string \<Rightarrow> string \<Rightarrow>
   permission_scope list \<Rightarrow> permission_decision option" where
  "first_not_allowed get s subject resource [] = None"
| "first_not_allowed get s subject resource (scope # scopes) =
     (let d = get s subject resource scope
      in if d \<noteq> ALLOWED then Some d else first_not_allowed get s subject resource scopes)"

definition remembered_permission ::
  "('s \<Rightarrow> string \<Rightarrow> string \<Rightarrow> permission_scope \<Rightarrow> permission_decision) \<Rightarrow> 's option \<Rightarrow>
   approval_request \<Rightarrow> string \<Rightarrow> permission_decision" where
  "remembered_permission get st req subject =
     (case st of None \<Rightarrow> UNKNOWN
      | Some s \<Rightarrow>
          (case first_not_allowed get s subject (permission_resource (ar_action req))
                  (pd_required (ar_policy req)) of
             Some d \<Rightarrow> d
           | None \<Rightarrow> if pd_required (ar_policy req) \<noteq> [] then ALLOWED else UNKNOWN))"

definition store_allow_permissions ::
  "(permission_record \<Rightarrow> 's \<Rightarrow> 's) \<Rightarrow> approval_request \<Rightarrow> string \<Rightarrow> 's \<Rightarrow> 's" where
  "store_allow_permissions put req subject s =
     fold (\<lambda>scope. put \<lparr>pr_subject_id = subject,
                        pr_resource = permission_resource (ar_action req),
                        pr_scope = scope, pr_decision = ALLOWED\<rparr>)
       (pd_required (ar_policy req)) s"

definition approval_outcome_of ::
  "approval_request \<Rightarrow> approval_decision \<Rightarrow> string list \<Rightarrow> approval_outcome" where
  "approval_outcome_of req d reasons =
     \<lparr>ao_decision = d, ao_action_id = pa_action_id (ar_action req), ao_reasons = reasons\<rparr>"

definition decide ::
  "('s \<Rightarrow> string \<Rightarrow> string \<Rightarrow> permission_scope \<Rightarrow> permission_decision) \<Rightarrow>
   (permission_record \<Rightarrow> 's \<Rightarrow> 's) \<Rightarrow> 's option \<Rightarrow> approval_request \<Rightarrow> string \<Rightarrow>
   approval_outcome \<times> 's option" where
  "decide get put st req subject =
     (let policy = ar_policy req in
      if \<not> pd_allowed policy \<and> \<not> pd_approval_required policy
      then (approval_outcome_of req DENY (pd_reasons policy), st)
      else if pd_approval_required policy then
        (let remembered = remembered_permission get st req subject in
         if remembered = ALLOWED
         then (approval_outcome_of req ALLOW [''Remembered permission allows this action.''], st)
         else if remembered = DENIED
         then (approval_outcome_of req DENY [''Remembered permission denies this action.''], st)
         else (approval_outcome_of req ASK_USER (pd_reasons policy), st))
      else if ar_remember req \<and> st \<noteq> None
      then (approval_outcome_of req STORE_PERMISSION [''Permission can be remembered for future requests.''],
            map_option (store_allow_permissions put req subject) st)
      else (approval_outcome_of req ALLOW (pd_reasons policy), st))"

definition authorize ::
  "crypto \<Rightarrow> string \<Rightarrow> string \<Rightarrow> pydatetime \<Rightarrow>
   ('s \<Rightarrow> string \<Rightarrow> string \<Rightarrow> permission_scope \<Rightarrow> permission_decision) \<Rightarrow>
   (permission_record \<Rightarrow> 's \<Rightarrow> 's) \<Rightarrow> 's option \<Rightarrow> approval_request \<Rightarrow> string \<Rightarrow>
   string option \<Rightarrow> string option \<Rightarrow> execution_permit \<times> 's option" where
  "authorize C key pid now get put st req subject session workspace =
     (let (out, st') = decide get put st req subject;
          decision = (if ao_decision out = STORE_PERMISSION then ALLOW else ao_decision out);
          action = (case ar_operation req of Some op \<Rightarrow> op | None \<Rightarrow> ar_action req);
          source = (if py_contains (py_join '' '' (ao_reasons out)) ''Remembered permission''
                    then ''remembered_permission'' else ''cap_policy'')
      in (issue_permit C key pid now action subject session workspace (ar_policy req) decision
            (ao_reasons out) source [(''remember_permission'', PBool (ar_remember req))]
            ''cap.policy_engine'', st'))"

datatype resolve_error =
    PendingIntegrityInvalid
  | PendingExpired
  | NotAwaitingApproval
  | SubmissionActionMismatch
  | SubmissionSubjectMismatch
  | UnresolvedDecision

definition resolve ::
  "crypto \<Rightarrow> string \<Rightarrow> string \<Rightarrow> pydatetime \<Rightarrow> execution_permit \<Rightarrow> approval_submission \<Rightarrow>
   string \<Rightarrow> string \<Rightarrow> (resolve_error, execution_permit) result" where
  "resolve C key pid now pending sub subject source =
     (if \<not> verify_integrity C key pending then Inl PendingIntegrityInvalid
      else if is_expired now pending then Inl PendingExpired
      else if ep_decision pending \<noteq> ASK_USER then Inl NotAwaitingApproval
      else if as_action_id sub \<noteq> ep_action_id pending then Inl SubmissionActionMismatch
      else if subject \<noteq> ep_subject_id pending then Inl SubmissionSubjectMismatch
      else if as_decision sub \<notin> {ALLOW, DENY} then Inl UnresolvedDecision
      else Inr (resolve_pending C key pid now pending (as_decision sub) (as_reasons sub) source
                  [(''human_submission'', PBool True)]))"

text \<open>The stores the engine's own decisions lead to, each request judged by the policy engine.\<close>

inductive served ::
  "('s \<Rightarrow> string \<Rightarrow> string \<Rightarrow> permission_scope \<Rightarrow> permission_decision) \<Rightarrow>
   (permission_record \<Rightarrow> 's \<Rightarrow> 's) \<Rightarrow> 's \<Rightarrow> (pyval \<Rightarrow> string) \<Rightarrow> 's \<Rightarrow> bool"
  for get put empty str_of where
  start: "served get put empty str_of empty"
| step: "served get put empty str_of s \<Longrightarrow> ar_policy req = evaluate str_of (ar_action req) \<Longrightarrow>
     snd (decide get put (Some s) req subject) = Some s' \<Longrightarrow> served get put empty str_of s'"

section \<open>Lemmas\<close>

lemma first_not_allowed_None:
  "first_not_allowed get s subject resource scopes = None \<longleftrightarrow>
     (\<forall>scope\<in>set scopes. get s subject resource scope = ALLOWED)"
  by (induction scopes) (auto simp: Let_def)

lemma first_not_allowed_Some:
  "first_not_allowed get s subject resource scopes = Some d \<Longrightarrow> d \<noteq> ALLOWED"
  by (induction scopes) (auto simp: Let_def split: if_splits)

lemma remembered_ALLOWED_iff:
  "remembered_permission get st req subject = ALLOWED \<longleftrightarrow>
     (\<exists>s. st = Some s \<and> pd_required (ar_policy req) \<noteq> [] \<and>
        (\<forall>scope\<in>set (pd_required (ar_policy req)).
           get s subject (permission_resource (ar_action req)) scope = ALLOWED))"
  unfolding remembered_permission_def first_not_allowed_None [symmetric]
  by (auto dest: first_not_allowed_Some split: option.splits)

lemmas decide_defs = decide_def approval_outcome_of_def Let_def

text \<open>What a positive decision rests on.\<close>

lemma decide_positive:
  assumes "decide get put st req subject = (out, st')" "ao_decision out \<in> {ALLOW, STORE_PERMISSION}"
  shows "pd_approval_required (ar_policy req) \<Longrightarrow> remembered_permission get st req subject = ALLOWED"
    and "\<not> pd_approval_required (ar_policy req) \<Longrightarrow> pd_allowed (ar_policy req)"
  using assms by (auto simp: decide_defs split: if_splits)

lemma decide_action_id: "ao_action_id (fst (decide get put st req subject)) = pa_action_id (ar_action req)"
  by (simp add: decide_defs)

lemma decide_store_cases:
  "snd (decide get put st req subject) = st \<or>
   (\<not> pd_approval_required (ar_policy req) \<and> pd_allowed (ar_policy req) \<and>
    snd (decide get put st req subject) = map_option (store_allow_permissions put req subject) st)"
  by (auto simp: decide_defs)

lemma authorize_store:
  "snd (authorize C key pid now get put st req subject session workspace)
     = snd (decide get put st req subject)"
  by (simp add: authorize_def Let_def case_prod_beta)

lemma authorize_permit:
  "verify_integrity C key (fst (authorize C key pid now get put st req subject session workspace))"
  by (simp add: authorize_def Let_def case_prod_beta)

lemma authorize_decision:
  "ep_decision (fst (authorize C key pid now get put st req subject session workspace)) =
     (let d = ao_decision (fst (decide get put st req subject))
      in if d = STORE_PERMISSION then ALLOW else d)"
  by (simp add: authorize_def Let_def case_prod_beta issue_permit_simps)

context permission_interface
begin

lemma get_store_allow:
  "get (store_allow_permissions put req subject' s) subject resource scope =
     (if subject = subject' \<and> rkey resource = rkey (permission_resource (ar_action req)) \<and>
         scope \<in> set (pd_required (ar_policy req))
      then ALLOWED else get s subject resource scope)"
proof -
  have "get (fold (\<lambda>sc. put \<lparr>pr_subject_id = subject', pr_resource = res, pr_scope = sc,
              pr_decision = ALLOWED\<rparr>) scopes s) subject resource scope =
     (if subject = subject' \<and> rkey resource = rkey res \<and> scope \<in> set scopes
      then ALLOWED else get s subject resource scope)" for res scopes
    by (induction scopes arbitrary: s) (auto simp: get_put)
  then show ?thesis by (simp add: store_allow_permissions_def)
qed

text \<open>A remembered permission is found again by the same principal for the same resource.\<close>

lemma remembered_after_store:
  assumes "pd_required (ar_policy req') \<noteq> []"
    and "set (pd_required (ar_policy req')) \<subseteq> set (pd_required (ar_policy req))"
    and "rkey (permission_resource (ar_action req')) = rkey (permission_resource (ar_action req))"
  shows "remembered_permission get (Some (store_allow_permissions put req subject s)) req' subject = ALLOWED"
  using assms by (auto simp: remembered_ALLOWED_iff get_store_allow)

text \<open>Decisions only ever remember permissions the policy grants without asking.\<close>

lemma served_scopes:
  "served get put empty str_of s \<Longrightarrow> get s subject resource scope = ALLOWED \<Longrightarrow> scope \<in> {MODEL_CLOUD, MODEL_LOCAL}"
proof (induction arbitrary: subject resource scope rule: served.induct)
  case start
  then show ?case by (simp add: get_empty)
next
  case (step s req subj s')
  from decide_store_cases [of get put "Some s" req subj] step.hyps(3)
  consider "s' = s" | "\<not> pd_approval_required (ar_policy req)" "s' = store_allow_permissions put req subj s"
    by auto
  then show ?case
  proof cases
    case 1
    with step.IH step.prems show ?thesis by blast
  next
    case 2
    with step.hyps(2) have "\<not> approval_required_for (pd_risk (ar_policy req)) (pd_required (ar_policy req))"
      using evaluate_simps(5) by metis
    then have "scope \<in> set (pd_required (ar_policy req)) \<Longrightarrow> scope \<in> {MODEL_CLOUD, MODEL_LOCAL}"
      by (cases scope) (auto simp: approval_required_for_def)
    with 2 step.IH step.prems show ?thesis by (auto simp: get_store_allow split: if_splits)
  qed
qed

end

lemma store_key_eq:
  "store_key subject resource scope = store_key subject' resource' scope' \<longleftrightarrow>
     subject = subject' \<and> resource_key resource = resource_key resource' \<and> scope = scope'"
  by (simp add: store_key_def)

interpretation memory_store: permission_interface store_get store_set store_revoke "[]" resource_key
  by unfold_locales
    (simp_all add: store_get_def store_set_def store_revoke_def store_key_eq [symmetric] eq_commute)

lemma resolve_Inr_iff:
  "resolve C key pid now pending sub subject source = Inr p \<longleftrightarrow>
     verify_integrity C key pending \<and> \<not> is_expired now pending \<and> ep_decision pending = ASK_USER \<and>
     as_action_id sub = ep_action_id pending \<and> subject = ep_subject_id pending \<and>
     as_decision sub \<in> {ALLOW, DENY} \<and>
     p = resolve_pending C key pid now pending (as_decision sub) (as_reasons sub) source
           [(''human_submission'', PBool True)]"
  unfolding resolve_def by auto

end
