(* ===== verification/Evidence_Sanitizer.thy ===== *)
theory Evidence_Sanitizer
  imports Cap_Policy
begin

text \<open>
  \<open>app/evidence/sanitizer.py\<close>: what of a metadata dictionary may reach durable evidence.
  Keys are classified by the words they contain, strings lose inline credentials by a regular
  expression, containers are bounded. Values are those of \<open>pyval\<close>; byte strings are not
  modelled.
\<close>

section \<open>Keys\<close>

definition SECRET_KEY_PATTERNS :: "string list" where
  "SECRET_KEY_PATTERNS =
     [''api_key'', ''apikey'', ''authorization'', ''auth_token'', ''access_token'',
      ''refresh_token'', ''secret'', ''password'', ''credential'', ''token'', ''cookie'',
      ''session_id'', ''bearer'', ''x-api-key'', ''x-subscription-token'', ''x-brave-api-key'',
      ''x-goog-api-key'', ''jwt'', ''hmac'', ''signing_key'', ''private_key'', ''client_secret'',
      ''client_id'']"

definition CONTENT_KEY_PATTERNS :: "string list" where
  "CONTENT_KEY_PATTERNS =
     [''prompt'', ''response'', ''content'', ''body'', ''message'', ''text'', ''output'',
      ''input'', ''stdout'', ''stderr'', ''clipboard'', ''file_content'', ''memory_content'',
      ''web_body'', ''html'', ''markdown'']"

definition SAFE_METADATA_KEYS :: "string list" where
  "SAFE_METADATA_KEYS =
     [''execution_id'', ''sequence_number'', ''request_id'', ''trace_id'', ''session_id'',
      ''principal_id'', ''task_id'', ''action_id'', ''permit_id'', ''approval_id'',
      ''operation_digest'', ''retry_attempt'', ''provider'', ''model'', ''tool_name'',
      ''tool_action'', ''status'', ''failure_type'', ''decision'', ''reason_code'',
      ''duration_ms'', ''input_chars'', ''output_chars'', ''input_bytes'', ''output_bytes'',
      ''content_type'', ''mime_type'', ''target_category'', ''sanitized_target'',
      ''result_status'', ''event_type'', ''severity'', ''schema_version'', ''event_version'',
      ''source'', ''streaming'', ''generation'', ''completed_tasks'', ''failed_tasks'',
      ''total_steps'', ''retry_count'', ''approval_count'', ''security_denial_count'',
      ''recovery_count'']"

definition is_secret_key :: "string \<Rightarrow> bool" where
  "is_secret_key key = list_ex (py_contains (py_lower key)) SECRET_KEY_PATTERNS"

definition is_content_key :: "string \<Rightarrow> bool" where
  "is_content_key key = list_ex (py_contains (py_lower key)) CONTENT_KEY_PATTERNS"

definition is_safe_key :: "string \<Rightarrow> bool" where
  "is_safe_key key = (key \<in> set SAFE_METADATA_KEYS)"

section \<open>Inline credentials\<close>

text \<open>The alternatives of the first group of \<open>_INLINE_SECRET\<close>.\<close>

definition inline_words :: "rx list list" where
  "inline_words =
     [Bound # map Lit ''api'' @ [Opt ''_-''] @ map Lit ''key'' @ [Bound],
      word_pattern ''authorization'',
      Bound # map Lit ''access'' @ [Opt ''_-''] @ map Lit ''token'' @ [Bound],
      Bound # map Lit ''refresh'' @ [Opt ''_-''] @ map Lit ''token'' @ [Bound],
      word_pattern ''password'', word_pattern ''secret'', word_pattern ''credential'',
      word_pattern ''cookie'', word_pattern ''bearer'']"

text \<open>As \<open>rx_match\<close>, but the text that follows the match.\<close>

fun rx_rest :: "rx list \<Rightarrow> char option \<Rightarrow> string \<Rightarrow> string option" where
  "rx_rest [] prev s = Some s"
| "rx_rest (Bound # p) prev s =
     (if is_word prev \<noteq> is_word (first_char s) then rx_rest p prev s else None)"
| "rx_rest (Lit c # p) prev [] = None"
| "rx_rest (Lit c # p) prev (x # s) =
     (if char_lower x = char_lower c then rx_rest p (Some x) s else None)"
| "rx_rest (Opt cs # p) prev [] = rx_rest p prev []"
| "rx_rest (Opt cs # p) prev (x # s) =
     (case (if x \<in> set cs then rx_rest p (Some x) s else None) of
        Some r \<Rightarrow> Some r | None \<Rightarrow> rx_rest p prev (x # s))"

definition value_char :: "char \<Rightarrow> bool" where
  "value_char c = (\<not> is_space c \<and> c \<notin> set '',;&'')"

text \<open>The value \<open>[^\s,;&]+\<close>: what follows it, if it is not empty.\<close>

definition skip_value :: "string \<Rightarrow> string option" where
  "skip_value s = (if takeWhile value_char s = [] then None else Some (dropWhile value_char s))"

text \<open>The separator \<open>\s*[:=]\s*|\s+\<close> and the value after it.\<close>

definition skip_separated :: "string \<Rightarrow> string option" where
  "skip_separated s =
     (let t = dropWhile is_space s;
          colon = (case t of
             c # u \<Rightarrow> if c \<in> set '':='' then skip_value (dropWhile is_space u) else None
           | [] \<Rightarrow> None)
      in case colon of
           Some r \<Rightarrow> Some r
         | None \<Rightarrow> if t \<noteq> s then skip_value t else None)"

fun secret_alternative :: "rx list list \<Rightarrow> char option \<Rightarrow> string \<Rightarrow> (string \<times> string) option" where
  "secret_alternative [] prev s = None"
| "secret_alternative (p # ps) prev s =
     (case rx_rest p prev s of
        Some t \<Rightarrow>
          (case skip_separated t of
             Some r \<Rightarrow> Some (take (length s - length t) s, r)
           | None \<Rightarrow> secret_alternative ps prev s)
      | None \<Rightarrow> secret_alternative ps prev s)"

definition secret_match :: "char option \<Rightarrow> string \<Rightarrow> (string \<times> string) option" where
  "secret_match prev s = secret_alternative inline_words prev s"

lemma dropWhile_length: "length (dropWhile P s) \<le> length s"
  by (induction s) auto

lemma skip_value_shorter: "skip_value s = Some r \<Longrightarrow> length r < length s"
  by (cases s) (auto simp: skip_value_def le_imp_less_Suc dropWhile_length split: if_splits)

lemma skip_separated_shorter: "skip_separated s = Some r \<Longrightarrow> length r < length s"
proof -
  assume s: "skip_separated s = Some r"
  have le: "length (dropWhile is_space u) \<le> length u" for u by (rule dropWhile_length)
  show ?thesis
  proof (cases "dropWhile is_space s")
    case Nil
    with s show ?thesis by (auto simp: skip_separated_def skip_value_def split: if_splits)
  next
    case (Cons c u)
    with le [of s] have u: "length u < length s" by simp
    from s Cons consider "skip_value (dropWhile is_space u) = Some r" | "skip_value (c # u) = Some r"
      by (auto simp: skip_separated_def Let_def split: if_splits option.splits)
    then show ?thesis
      using skip_value_shorter [of _ r] le [of u] u le [of s] Cons
      by cases (fastforce dest: skip_value_shorter)+
  qed
qed

lemma rx_rest_shorter: "rx_rest p prev s = Some t \<Longrightarrow> length t \<le> length s"
  by (induction p prev s rule: rx_rest.induct) (fastforce split: if_splits option.splits)+

lemma secret_alternative_shorter: "secret_alternative ps prev s = Some (g, r) \<Longrightarrow> length r < length s"
proof (induction ps)
  case (Cons p ps)
  show ?case
  proof (cases "rx_rest p prev s")
    case None
    with Cons show ?thesis by simp
  next
    case (Some t)
    then have "length t \<le> length s" by (rule rx_rest_shorter)
    with Cons Some show ?thesis
      by (auto split: option.splits dest: skip_separated_shorter)
  qed
qed simp

text \<open>\<open>_INLINE_SECRET.sub\<close>, from the left.\<close>

function sub_secrets :: "char option \<Rightarrow> string \<Rightarrow> string" where
  "sub_secrets prev [] = []"
| "sub_secrets prev (c # cs) =
     (case secret_match prev (c # cs) of
        Some (g, r) \<Rightarrow>
          g @ ''=[REDACTED]'' @ sub_secrets (Some ((c # cs) ! (length (c # cs) - length r - 1))) r
      | None \<Rightarrow> c # sub_secrets (Some c) cs)"
  by pat_completeness auto
termination
  by (relation "measure (\<lambda>(prev, s). length s)")
    (auto simp: secret_match_def dest: secret_alternative_shorter)

definition sanitize_string :: "string \<Rightarrow> string" where
  "sanitize_string s = sub_secrets None s"

section \<open>Values\<close>

definition redact_value :: "pyval \<Rightarrow> string" where
  "redact_value v =
     (case v of
        PStr s \<Rightarrow> if length s \<le> 8 then ''***'' else take 8 s @ ''***''
      | PEnum s \<Rightarrow> if length s \<le> 8 then ''***'' else take 8 s @ ''***''
      | _ \<Rightarrow> ''***'')"

definition content_marker :: "pyval \<Rightarrow> string" where
  "content_marker v =
     (case v of
        PStr s \<Rightarrow> ''[content:'' @ nat_str (length s) @ '' chars]''
      | PEnum s \<Rightarrow> ''[content:'' @ nat_str (length s) @ '' chars]''
      | PList _ \<Rightarrow> ''[content:list]''
      | PDict _ \<Rightarrow> ''[content:dict]''
      | _ \<Rightarrow> ''[content]'')"

definition sanitize_text :: "string \<Rightarrow> string" where
  "sanitize_text s =
     (let t = sanitize_string s
      in if length t > 10000 then ''[truncated:'' @ nat_str (length t) @ '' chars]'' else t)"

definition str_longer :: "nat \<Rightarrow> pyval \<Rightarrow> nat option" where
  "str_longer n v =
     (case v of PStr s \<Rightarrow> if length s > n then Some (length s) else None
      | PEnum s \<Rightarrow> if length s > n then Some (length s) else None
      | _ \<Rightarrow> None)"

definition MAX_DEPTH :: nat where
  "MAX_DEPTH = 10"

fun sanitize_recursive :: "nat \<Rightarrow> pyval \<Rightarrow> pyval" where
  "sanitize_recursive depth (PDict fs) =
     (if depth > MAX_DEPTH then PStr ''[max_depth_exceeded]''
      else PDict (map (\<lambda>(key, v).
        (key,
         if is_secret_key key then PStr (redact_value v)
         else if is_content_key key then PStr (content_marker v)
         else if is_safe_key key then sanitize_recursive (Suc depth) v
         else (case str_longer 500 v of
                 Some n \<Rightarrow> PStr (''[truncated:'' @ nat_str n @ '' chars]'')
               | None \<Rightarrow> sanitize_recursive (Suc depth) v))) fs))"
| "sanitize_recursive depth (PList vs) =
     (if depth > MAX_DEPTH then PStr ''[max_depth_exceeded]''
      else if length vs > 100
      then PList (take 100 (map (sanitize_recursive (Suc depth)) vs) @ [PStr ''[list_truncated]''])
      else PList (map (sanitize_recursive (Suc depth)) vs))"
| "sanitize_recursive depth v =
     (if depth > MAX_DEPTH then PStr ''[max_depth_exceeded]''
      else (case v of PStr s \<Rightarrow> PStr (sanitize_text s) | PEnum s \<Rightarrow> PStr (sanitize_text s) | _ \<Rightarrow> v))"

text \<open>What \<open>json.dumps\<close> accepts; anything else raises a \<open>TypeError\<close>.\<close>

fun py_json :: "pyval \<Rightarrow> json option" where
  "py_json PNone = Some JNull"
| "py_json (PBool b) = Some (JBool b)"
| "py_json (PInt i) = Some (JInt i)"
| "py_json (PFloat t) = Some (JFloat (json_float t))"
| "py_json (PStr s) = Some (JStr s)"
| "py_json (PEnum s) = Some (JStr s)"
| "py_json (PList vs) = map_option JArr (those (map py_json vs))"
| "py_json (PTuple vs) = map_option JArr (those (map py_json vs))"
| "py_json (PDict fs) =
     map_option JObj (those (map (\<lambda>(k, v). map_option (Pair k) (py_json v)) fs))"
| "py_json v = None"

definition plain_style :: json_style where
  "plain_style = \<lparr>item_sep = '', '', key_sep = '': '', escapes = control_escapes\<rparr>"

text \<open>The bytes of a text whose characters are the code points below 256.\<close>

definition utf8_length :: "string \<Rightarrow> nat" where
  "utf8_length s = sum_list (map (\<lambda>c. if of_char c < (128 :: nat) then 1 else 2) s)"

definition payload_size :: "(string, pyval) dict \<Rightarrow> nat option" where
  "payload_size d = map_option (\<lambda>j. utf8_length (dumps plain_style j)) (py_json (PDict d))"

text \<open>
  Over the limit, the safe fields are kept and the others are added back one by one while the
  whole still fits; a field that does not fit is replaced by a marker.
\<close>

fun add_back :: "nat \<Rightarrow> (string, pyval) dict \<Rightarrow> (string, pyval) dict \<Rightarrow> (string, pyval) dict" where
  "add_back limit kept [] = kept"
| "add_back limit kept ((k, v) # fs) =
     (if dict_has k kept then add_back limit kept fs
      else (case payload_size (AList.update k v kept) of
              Some n \<Rightarrow>
                if n \<le> limit then add_back limit (AList.update k v kept) fs
                else add_back limit (AList.update k (PStr ''[omitted:size_limit]'') kept) fs
            | None \<Rightarrow> add_back limit kept fs))"

definition sanitize_for_evidence ::
  "bool \<Rightarrow> nat \<Rightarrow> pyval \<Rightarrow> string \<Rightarrow> (string, pyval) dict" where
  "sanitize_for_evidence allow_content max_bytes metadata type_name =
     (case metadata of
        PDict _ \<Rightarrow>
          (case sanitize_recursive 0 metadata of
             PDict fs \<Rightarrow>
               (let sanitized = AList.update ''_content_allowed'' (PBool allow_content)
                                  (AList.update ''_sanitized'' (PBool True) fs)
                in case payload_size sanitized of
                     None \<Rightarrow> sanitized
                   | Some n \<Rightarrow>
                       if n > max_bytes
                       then add_back max_bytes
                              (filter (\<lambda>(k, v). is_safe_key k \<or> py_startswith k ''_'') sanitized)
                              sanitized
                       else sanitized)
           | _ \<Rightarrow> [])
      | _ \<Rightarrow> [(''_sanitized_type'', PStr type_name)])"

definition sanitize_headers :: "(string \<times> string) list \<Rightarrow> (string \<times> string) list" where
  "sanitize_headers hs =
     map (\<lambda>(k, v). (k, if is_secret_key k then redact_value (PStr v) else v)) hs"

section \<open>Lemmas\<close>

lemma sanitize_dict: 
  "sanitize_recursive 0 (PDict fs) = PDict (map (\<lambda>(key, v).
        (key,
         if is_secret_key key then PStr (redact_value v)
         else if is_content_key key then PStr (content_marker v)
         else if is_safe_key key then sanitize_recursive (Suc 0) v
         else (case str_longer 500 v of
                 Some n \<Rightarrow> PStr (''[truncated:'' @ nat_str n @ '' chars]'')
               | None \<Rightarrow> sanitize_recursive (Suc 0) v))) fs)"
  by (simp add: MAX_DEPTH_def)

lemma map_of_map_key: "map_of (map (\<lambda>(k, v). (k, f k v)) d) k = map_option (f k) (map_of d k)"
  by (induction d) auto

lemma bearer_leak: "sanitize_string ''Authorization: Bearer abc123'' = ''Authorization=[REDACTED] abc123''"
  by code_simp

text \<open>Tuples are passed through as they are, with whatever they contain.\<close>

lemma tuple_leak:
  "sanitize_recursive 0 (PDict [(''args'', PTuple [PDict [(''password'', PStr ''hunter2 hunter2'')]])]) =
     PDict [(''args'', PTuple [PDict [(''password'', PStr ''hunter2 hunter2'')]])]"
  by code_simp

subsection \<open>What is left of a value\<close>

text \<open>Built from dictionaries, lists and values that contain nothing.\<close>

fun plain_value :: "pyval \<Rightarrow> bool" where
  "plain_value (PDict fs) = list_all (\<lambda>(k, v). plain_value v) fs"
| "plain_value (PList vs) = list_all plain_value vs"
| "plain_value (PTuple vs) = False"
| "plain_value (PModel fs) = False"
| "plain_value v = True"

text \<open>
  At every depth a field with a secret key holds \<open>***\<close>, or eight characters followed by it, and one
  with a content key one of the markers.
\<close>

definition masked_text :: "string \<Rightarrow> bool" where
  "masked_text s \<longleftrightarrow> s = ''***'' \<or> length s = 11 \<and> drop 8 s = ''***''"

definition marker_text :: "string \<Rightarrow> bool" where
  "marker_text s \<longleftrightarrow> s \<in> {''[content]'', ''[content:list]'', ''[content:dict]''} \<or>
     (\<exists>n. s = ''[content:'' @ nat_str n @ '' chars]'')"

fun redacted :: "pyval \<Rightarrow> bool" where
  "redacted (PDict fs) = list_all (\<lambda>(k, v).
     if is_secret_key k then (case v of PStr s \<Rightarrow> masked_text s | _ \<Rightarrow> False)
     else if is_content_key k then (case v of PStr s \<Rightarrow> marker_text s | _ \<Rightarrow> False)
     else redacted v) fs"
| "redacted (PList vs) = list_all redacted vs"
| "redacted (PTuple vs) = False"
| "redacted (PModel fs) = False"
| "redacted v = True"

lemma content_marker_text: "marker_text (content_marker v)"
  by (cases v) (auto simp: marker_text_def content_marker_def)

lemma redact_value_text: "masked_text (redact_value v)"
  by (cases v) (auto simp: masked_text_def redact_value_def)

lemma redacted_str_longer: "str_longer n v = Some m \<Longrightarrow> \<exists>s. v = PStr s \<or> v = PEnum s"
  by (cases v) (auto simp: str_longer_def)

lemma sanitize_redacts: "plain_value v \<Longrightarrow> redacted (sanitize_recursive depth v)"
proof (induction v arbitrary: depth)
  case (PDict fs)
  have ih: "redacted (sanitize_recursive d v)" if "(k, v) \<in> set fs" for d k v
    using PDict.IH [of "(k, v)" v d] PDict.prems that by (auto simp: list_all_iff)
  show ?case
    using ih by (auto simp: list_all_iff redact_value_text content_marker_text split: option.split)
next
  case (PList vs)
  have ih: "redacted (sanitize_recursive d v)" if "v \<in> set vs" for d v
    using PList.IH [of v d] PList.prems that by (auto simp: list_all_iff)
  show ?case
    using ih by (auto simp: list_all_iff dest!: in_set_takeD)
qed simp_all

subsection \<open>What can be learnt from the evidence\<close>

text \<open>What of a secret is shown (the first eight characters of a text that has more), and what of content:
  its kind and the length of a text.\<close>

definition secret_shown :: "pyval \<Rightarrow> string option" where
  "secret_shown v =
     (case v of PStr s \<Rightarrow> if 8 < length s then Some (take 8 s) else None
      | PEnum s \<Rightarrow> if 8 < length s then Some (take 8 s) else None
      | _ \<Rightarrow> None)"

datatype content_kind = TextOf nat | SomeList | SomeDict | SomeValue

definition content_shown :: "pyval \<Rightarrow> content_kind" where
  "content_shown v =
     (case v of PStr s \<Rightarrow> TextOf (length s) | PEnum s \<Rightarrow> TextOf (length s)
      | PList _ \<Rightarrow> SomeList | PDict _ \<Rightarrow> SomeDict | _ \<Rightarrow> SomeValue)"

text \<open>Two values that differ in nothing but what is hidden: under secret keys and under content keys.\<close>

inductive alike :: "pyval \<Rightarrow> pyval \<Rightarrow> bool" where
  dict: "list_all2 (\<lambda>f g. fst f = fst g \<and>
      (is_secret_key (fst f) \<longrightarrow> secret_shown (snd f) = secret_shown (snd g)) \<and>
      (\<not> is_secret_key (fst f) \<and> is_content_key (fst f) \<longrightarrow> content_shown (snd f) = content_shown (snd g)) \<and>
      (\<not> is_secret_key (fst f) \<and> \<not> is_content_key (fst f) \<longrightarrow> alike (snd f) (snd g))) fs gs \<Longrightarrow>
    alike (PDict fs) (PDict gs)"
| items: "list_all2 alike vs ws \<Longrightarrow> alike (PList vs) (PList ws)"
| same: "alike v v"

lemma redact_value_shown: "redact_value v = (case secret_shown v of None \<Rightarrow> ''***'' | Some t \<Rightarrow> t @ ''***'')"
  by (cases v) (auto simp: redact_value_def secret_shown_def)

lemma content_marker_shown:
  "content_marker v = (case content_shown v of TextOf n \<Rightarrow> ''[content:'' @ nat_str n @ '' chars]''
     | SomeList \<Rightarrow> ''[content:list]'' | SomeDict \<Rightarrow> ''[content:dict]'' | SomeValue \<Rightarrow> ''[content]'')"
  by (cases v) (auto simp: content_marker_def content_shown_def)

lemma alike_longer: "alike v w \<Longrightarrow> str_longer n v = str_longer n w"
  by (cases rule: alike.cases) (auto simp: str_longer_def)

lemma map_eq_all2: "list_all2 (\<lambda>x y. f x = f y) xs ys \<Longrightarrow> map f xs = map f ys"
  by (induction rule: list_all2_induct) auto

lemma sanitize_alike: "alike v w \<Longrightarrow> sanitize_recursive depth v = sanitize_recursive depth w"
proof (induction arbitrary: depth rule: alike.induct)
  case (dict fs gs)
  let ?F = "\<lambda>(key, v). (key,
         if is_secret_key key then PStr (redact_value v)
         else if is_content_key key then PStr (content_marker v)
         else if is_safe_key key then sanitize_recursive (Suc depth) v
         else (case str_longer 500 v of
                 Some n \<Rightarrow> PStr (''[truncated:'' @ nat_str n @ '' chars]'')
               | None \<Rightarrow> sanitize_recursive (Suc depth) v))"
  have "?F f = ?F g" if "fst f = fst g" "is_secret_key (fst f) \<longrightarrow> secret_shown (snd f) = secret_shown (snd g)"
    "\<not> is_secret_key (fst f) \<and> is_content_key (fst f) \<longrightarrow> content_shown (snd f) = content_shown (snd g)"
    "\<not> is_secret_key (fst f) \<and> \<not> is_content_key (fst f) \<longrightarrow>
       alike (snd f) (snd g) \<and> (\<forall>d. sanitize_recursive d (snd f) = sanitize_recursive d (snd g))" for f g
    using that alike_longer [of "snd f" "snd g" 500]
    by (simp add: case_prod_beta redact_value_shown content_marker_shown split: option.split)
  then have "list_all2 (\<lambda>f g. ?F f = ?F g) fs gs" using dict by (elim list_all2_mono) blast
  then have "map ?F fs = map ?F gs" by (rule map_eq_all2)
  then show ?case by simp
next
  case (items vs ws)
  then have "list_all2 (\<lambda>v w. sanitize_recursive (Suc depth) v = sanitize_recursive (Suc depth) w) vs ws"
    by (elim list_all2_mono) blast
  then have "map (sanitize_recursive (Suc depth)) vs = map (sanitize_recursive (Suc depth)) ws" by (rule map_eq_all2)
  moreover have "length vs = length ws" using items by (rule list_all2_lengthD)
  ultimately show ?case by simp
qed simp

end
