(* ===== verification/Runtime_Gate.thy ===== *)
theory Runtime_Gate
  imports Cap_Approval Evidence_Sanitizer
begin

text \<open>
  The contracts a runtime task travels in (\<open>app/core/contracts/runtime.py\<close>,
  \<open>routing.py\<close>, \<open>pause.py\<close>) and the permit gate every execution path goes through,
  \<open>enforce_cap_permit\<close> of \<open>app/runtime/governance.py\<close>. Pydantic's validation of the
  constraints a task carries is the argument \<open>validate\<close>; one clock reading \<open>now\<close>
  serves a whole call. Durations are kept in microseconds.
\<close>

section \<open>Contracts\<close>

datatype task_status =
  PENDING | READY | BLOCKED | BLOCKED_BY_DEPENDENCY | PAUSED | COMPLETED | FAILED | CANCELLED

record runtime_context =
  rc_request_id :: string
  rc_user_id :: "string option"
  rc_session_id :: "string option"
  rc_workspace_id :: "string option"
  rc_metadata :: "(string, pyval) dict"

record routing_decision =
  rd_provider_id :: string
  rd_model_id :: string
  rd_reasoning_summary :: string
  rd_constraints :: "string list"
  rd_execution_constraints :: execution_constraints
  rd_metadata :: "(string, pyval) dict"

text \<open>\<open>rt_permit\<close> is \<open>None\<close> for a plain \<open>RuntimeTask\<close> and for an approved one without a permit.\<close>

record runtime_task =
  rt_task_id :: string
  rt_title :: string
  rt_description :: string
  rt_action_type :: string
  rt_inputs :: "(string, pyval) dict"
  rt_dependencies :: "string list"
  rt_metadata :: "(string, pyval) dict"
  rt_worker_requirement :: "string option"
  rt_preferred_worker :: "string option"
  rt_permit :: "execution_permit option"

record execution_pause =
  xp_reason :: string
  xp_metadata :: "(string, pyval) dict"

record runtime_result =
  rr_task_id :: string
  rr_status :: task_status
  rr_routing :: "routing_decision option"
  rr_pause :: "execution_pause option"
  rr_output :: "(string, pyval) dict"
  rr_error :: "string option"
  rr_started_at :: "pydatetime option"
  rr_finished_at :: "pydatetime option"
  rr_duration :: int
  rr_metadata :: "(string, pyval) dict"

section \<open>The argument summary of a pause\<close>

definition APPROVAL_ARGUMENT_KEYS :: "string list" where
  "APPROVAL_ARGUMENT_KEYS =
     [''action'', ''path'', ''target_path'', ''source'', ''destination'', ''query'', ''recipient'',
      ''to'', ''subject'', ''title'', ''executable'', ''args'', ''command'', ''host'', ''url'',
      ''due_at'', ''datetime'', ''name'', ''amount'', ''value'']"

definition bounded_argument :: "(pyval \<Rightarrow> string) \<Rightarrow> pyval \<Rightarrow> pyval" where
  "bounded_argument show v =
     (case v of
        PList vs \<Rightarrow> PList (map (\<lambda>x. PStr (take 200 (py_str show x))) (take 20 vs))
      | PDict fs \<Rightarrow>
          PDict (fold (\<lambda>(k, x). AList.update (take 80 k) (PStr (take 200 (py_str show x))))
                   (take 20 fs) [])
      | _ \<Rightarrow> PStr (take 500 (py_str show v)))"

definition approval_argument_summary ::
  "(pyval \<Rightarrow> string) \<Rightarrow> (string, pyval) dict \<Rightarrow> (string, pyval) dict" where
  "approval_argument_summary show inputs =
     (let selected = filter (\<lambda>(k, v). py_lower k \<in> set APPROVAL_ARGUMENT_KEYS) inputs;
          sanitized = sanitize_for_evidence False 64000 (PDict selected) ''dict''
      in map (\<lambda>(k, v). (k, bounded_argument show v)) sanitized)"

section \<open>The gate\<close>

definition authorization_metadata :: "runtime_task \<Rightarrow> (string, pyval) dict" where
  "authorization_metadata task =
     (case rt_permit task of
        None \<Rightarrow> []
      | Some p \<Rightarrow>
          [(''permit_id'', PStr (ep_permit_id p)),
           (''operation_digest'', PStr (ep_operation_digest p)),
           (''authorization_decision'', PStr (decision_value (ep_decision p))),
           (''authorization_source'', PStr (ep_approval_source p)),
           (''policy_reference'', PStr (ep_policy_reference p))])"

definition blocked_result ::
  "runtime_task \<Rightarrow> routing_decision \<Rightarrow> pydatetime \<Rightarrow> int \<Rightarrow> pydatetime \<Rightarrow> string \<Rightarrow> string \<Rightarrow>
   (string, pyval) dict \<Rightarrow> runtime_result" where
  "blocked_result task routing started_at duration now diagnostic error metadata =
     \<lparr>rr_task_id = rt_task_id task, rr_status = FAILED, rr_routing = Some routing,
      rr_pause = None, rr_output = [], rr_error = Some error,
      rr_started_at = Some started_at, rr_finished_at = Some now, rr_duration = duration,
      rr_metadata = (''diagnostic'', PStr diagnostic) # metadata\<rparr>"

definition approval_pause ::
  "(pyval \<Rightarrow> string) \<Rightarrow> runtime_task \<Rightarrow> execution_permit \<Rightarrow> execution_pause" where
  "approval_pause show task p =
     \<lparr>xp_reason = ''cap_approval'',
      xp_metadata =
        [(''action_type'', PStr (rt_action_type task)),
         (''action'', (case map_of (rt_inputs task) ''action'' of
             Some v \<Rightarrow> if truthy v then v else PStr (rt_action_type task)
           | None \<Rightarrow> PStr (rt_action_type task))),
         (''target'', opt_py (ep_target p)),
         (''tool'', (case map_of (rt_metadata task) ''tool'' of Some v \<Rightarrow> v | None \<Rightarrow> PNone)),
         (''args'', PDict (approval_argument_summary show (rt_inputs task))),
         (''risk'', PStr (risk_value (ep_risk p))),
         (''permissions'', PList (map (\<lambda>s. PStr (scope_value s)) (ep_required p))),
         (''operation_digest'', PStr (ep_operation_digest p))]\<rparr>"

definition paused_result ::
  "(pyval \<Rightarrow> string) \<Rightarrow> runtime_task \<Rightarrow> routing_decision \<Rightarrow> pydatetime \<Rightarrow> int \<Rightarrow> pydatetime \<Rightarrow>
   execution_permit \<Rightarrow> runtime_result" where
  "paused_result show task routing started_at duration now p =
     \<lparr>rr_task_id = rt_task_id task, rr_status = PAUSED, rr_routing = Some routing,
      rr_pause = Some (approval_pause show task p), rr_output = [],
      rr_error = Some ''approval required: CAP governance requests user confirmation'',
      rr_started_at = Some started_at, rr_finished_at = Some now, rr_duration = duration,
      rr_metadata = (''diagnostic'', PStr ''approval_required'') # authorization_metadata task\<rparr>"

definition opt_nonempty :: "string option \<Rightarrow> bool" where
  "opt_nonempty s = (case s of None \<Rightarrow> False | Some s \<Rightarrow> s \<noteq> [])"

text \<open>The principal the permit must name; \<open>None\<close> when it is not a string.\<close>

definition expected_subject :: "runtime_context option \<Rightarrow> runtime_task \<Rightarrow> string option" where
  "expected_subject context task =
     (case context of
        None \<Rightarrow> Some (authorization_subject_id None None (rt_task_id task))
      | Some c \<Rightarrow>
          (let derived = authorization_subject_id (rc_user_id c) (rc_session_id c) (rc_request_id c)
           in if opt_nonempty (rc_user_id c) \<or> opt_nonempty (rc_session_id c) then Some derived
              else (case map_of (rc_metadata c) ''authorization_subject_id'' of
                      Some v \<Rightarrow> if truthy v then as_str (Some v) else Some derived
                    | None \<Rightarrow> Some derived)))"

definition task_tool :: "(pyval \<Rightarrow> string) \<Rightarrow> runtime_task \<Rightarrow> string option" where
  "task_tool show task =
     (if rt_action_type task = ''tool''
      then (case map_of (rt_metadata task) ''tool'' of
              None \<Rightarrow> None | Some PNone \<Rightarrow> None | Some v \<Rightarrow> Some (py_str show v))
      else None)"

text \<open>\<open>tuple(v)\<close>; \<open>None\<close> when the value cannot be iterated and \<open>tuple\<close> raises.\<close>

definition py_tuple :: "pyval option \<Rightarrow> pyval list option" where
  "py_tuple v =
     (case v of
        None \<Rightarrow> Some []
      | Some (PList vs) \<Rightarrow> Some vs
      | Some (PTuple vs) \<Rightarrow> Some vs
      | Some (PStr s) \<Rightarrow> Some (map (\<lambda>c. PStr [c]) s)
      | Some (PEnum s) \<Rightarrow> Some (map (\<lambda>c. PStr [c]) s)
      | Some (PDict fs) \<Rightarrow> Some (map (\<lambda>(k, v). PStr k) fs)
      | Some (PModel fs) \<Rightarrow> Some (map (\<lambda>(k, v). PTuple [PStr k, v]) fs)
      | _ \<Rightarrow> None)"

definition permissions_match :: "pyval list \<Rightarrow> permission_scope list \<Rightarrow> bool" where
  "permissions_match items scopes =
     (map (\<lambda>v. as_str (Some v)) items = map (\<lambda>s. Some (scope_value s)) scopes)"

datatype gate_outcome = Granted | Blocked runtime_result | GateTypeError

text \<open>The checks that bind the permit to the operation, after its identity checks.\<close>

definition enforce_operation_binding ::
  "crypto \<Rightarrow> (pyval \<Rightarrow> string) \<Rightarrow> (pyval \<Rightarrow> execution_constraints option) \<Rightarrow>
   (string \<Rightarrow> string \<Rightarrow> gate_outcome) \<Rightarrow> runtime_task \<Rightarrow> routing_decision \<Rightarrow>
   execution_permit \<Rightarrow> gate_outcome" where
  "enforce_operation_binding C show validate block task routing p =
     (let target = authorization_target (rt_action_type task) (task_tool show task);
          digest = operation_digest C (rt_action_type task) (Some target)
                     (authorization_payload (rt_action_type task) (rt_inputs task))
      in if ep_action_type p \<noteq> rt_action_type task \<or> ep_target p \<noteq> Some target \<or>
            ep_operation_digest p \<noteq> digest
         then block ''permit_operation_mismatch''
                ''Runtime execution blocked: ExecutionPermit operation binding does not match.''
         else (case py_tuple (map_of (rt_metadata task) ''required_permissions'') of
            None \<Rightarrow> GateTypeError
          | Some items \<Rightarrow>
              if \<not> permissions_match items (ep_required p)
              then block ''permit_permissions_mismatch''
                     ''Runtime execution blocked: ExecutionPermit permissions do not match.''
              else if validate (case map_of (rt_metadata task) ''execution_constraints'' of
                        Some v \<Rightarrow> v | None \<Rightarrow> PDict []) \<noteq> Some (ep_constraints p)
              then block ''permit_constraints_mismatch''
                     ''Runtime execution blocked: ExecutionPermit constraints do not match.''
              else if rt_action_type task \<in> set PROVIDER_ACTIONS \<and>
                      rd_execution_constraints routing \<noteq> ep_constraints p
              then block ''routing_constraints_mismatch''
                     ''Runtime execution blocked: Router did not preserve CAP constraints.''
              else Granted))"

definition enforce_cap_permit ::
  "crypto \<Rightarrow> string \<Rightarrow> (pyval \<Rightarrow> string) \<Rightarrow> (pyval \<Rightarrow> execution_constraints option) \<Rightarrow>
   pydatetime \<Rightarrow> runtime_task \<Rightarrow> routing_decision \<Rightarrow> pydatetime \<Rightarrow> int \<Rightarrow>
   runtime_context option \<Rightarrow> gate_outcome" where
  "enforce_cap_permit C key show validate now task routing started_at duration context =
     (case rt_permit task of
        None \<Rightarrow> Blocked (blocked_result task routing started_at duration now ''unapproved_task''
                  ''Runtime execution blocked: Task lacks a valid ExecutionPermit from CAP.'' [])
      | Some p \<Rightarrow>
          (let block = (\<lambda>diagnostic error.
                 Blocked (blocked_result task routing started_at duration now diagnostic error
                            (authorization_metadata task)))
           in if ep_decision p = ASK_USER
              then Blocked (paused_result show task routing started_at duration now p)
              else if ep_decision p \<noteq> ALLOW
              then block ''approval_blocked''
                     ''approval required: CAP governance blocked user request''
              else if \<not> verify_integrity C key p
              then block ''permit_integrity_invalid''
                     ''Runtime execution blocked: ExecutionPermit integrity validation failed.''
              else if is_not_yet_valid now p
              then block ''permit_not_yet_valid''
                     ''Runtime execution blocked: ExecutionPermit is not yet valid.''
              else if is_expired now p
              then block ''permit_expired''
                     ''Runtime execution blocked: ExecutionPermit has expired.''
              else if Some (ep_subject_id p) \<noteq> expected_subject context task
              then block ''permit_subject_mismatch''
                     ''Runtime execution blocked: ExecutionPermit subject does not match.''
              else if ep_session_id p \<noteq> None \<and>
                      (case context of None \<Rightarrow> True | Some c \<Rightarrow> rc_session_id c \<noteq> ep_session_id p)
              then block ''permit_session_mismatch''
                     ''Runtime execution blocked: ExecutionPermit session does not match.''
              else if ep_workspace_id p \<noteq> None \<and>
                      (case context of None \<Rightarrow> None | Some c \<Rightarrow> rc_workspace_id c) \<noteq> ep_workspace_id p
              then block ''permit_workspace_mismatch''
                     ''Runtime execution blocked: ExecutionPermit workspace does not match.''
              else if ep_action_id p \<noteq> rt_task_id task
              then block ''permit_action_mismatch''
                     ''Runtime execution blocked: ExecutionPermit action does not match.''
              else enforce_operation_binding C show validate block task routing p))"

section \<open>Lemmas\<close>

text \<open>What the permit must say for the operation of the task.\<close>

definition operation_bound ::
  "crypto \<Rightarrow> (pyval \<Rightarrow> string) \<Rightarrow> (pyval \<Rightarrow> execution_constraints option) \<Rightarrow> runtime_task \<Rightarrow>
   routing_decision \<Rightarrow> execution_permit \<Rightarrow> bool" where
  "operation_bound C show validate task routing p \<longleftrightarrow>
     ep_action_type p = rt_action_type task \<and>
     ep_target p = Some (authorization_target (rt_action_type task) (task_tool show task)) \<and>
     ep_operation_digest p =
       operation_digest C (rt_action_type task)
         (Some (authorization_target (rt_action_type task) (task_tool show task)))
         (authorization_payload (rt_action_type task) (rt_inputs task)) \<and>
     (\<exists>items. py_tuple (map_of (rt_metadata task) ''required_permissions'') = Some items \<and>
        permissions_match items (ep_required p)) \<and>
     validate (case map_of (rt_metadata task) ''execution_constraints'' of
       Some v \<Rightarrow> v | None \<Rightarrow> PDict []) = Some (ep_constraints p) \<and>
     (rt_action_type task \<in> set PROVIDER_ACTIONS \<longrightarrow>
        rd_execution_constraints routing = ep_constraints p)"

text \<open>Who may use the permit, where, and when.\<close>

definition permit_applies ::
  "crypto \<Rightarrow> string \<Rightarrow> pydatetime \<Rightarrow> runtime_context option \<Rightarrow> runtime_task \<Rightarrow>
   execution_permit \<Rightarrow> bool" where
  "permit_applies C key now context task p \<longleftrightarrow>
     ep_decision p = ALLOW \<and> verify_integrity C key p \<and>
     utc_us (ep_issued_at p) \<le> utc_us now + PERMIT_CLOCK_SKEW \<and>
     utc_us now < utc_us (ep_expires_at p) \<and>
     Some (ep_subject_id p) = expected_subject context task \<and>
     (ep_session_id p \<noteq> None \<longrightarrow> (\<exists>c. context = Some c \<and> rc_session_id c = ep_session_id p)) \<and>
     (ep_workspace_id p \<noteq> None \<longrightarrow> (\<exists>c. context = Some c \<and> rc_workspace_id c = ep_workspace_id p)) \<and>
     ep_action_id p = rt_task_id task"

lemma binding_granted:
  "(\<And>d e. block d e \<noteq> Granted) \<Longrightarrow>
   enforce_operation_binding C show validate block task routing p = Granted \<longleftrightarrow>
     operation_bound C show validate task routing p"
  by (auto simp: enforce_operation_binding_def operation_bound_def Let_def split: option.splits)

lemma if_Blocked_Granted:
  "(if c then Blocked r else g) = Granted \<longleftrightarrow> \<not> c \<and> g = Granted"
  by simp

lemma if_Blocked_Blocked:
  "(if c then Blocked r else g) = Blocked s \<longleftrightarrow> c \<and> r = s \<or> \<not> c \<and> g = Blocked s"
  by simp

lemma granted_iff:
  "enforce_cap_permit C key show validate now task routing started_at duration context = Granted \<longleftrightarrow>
     (\<exists>p. rt_permit task = Some p \<and> permit_applies C key now context task p \<and>
          operation_bound C show validate task routing p)"
proof (cases "rt_permit task")
  case None
  then show ?thesis by (simp add: enforce_cap_permit_def)
next
  case (Some p)
  let ?block = "\<lambda>diagnostic error. Blocked (blocked_result task routing started_at duration now diagnostic
      error (authorization_metadata task))"
  have b: "enforce_operation_binding C show validate ?block task routing p = Granted \<longleftrightarrow>
      operation_bound C show validate task routing p"
    by (rule binding_granted) simp
  have ses: "\<not> (ep_session_id p \<noteq> None \<and>
        (case context of None \<Rightarrow> True | Some c \<Rightarrow> rc_session_id c \<noteq> ep_session_id p)) \<longleftrightarrow>
      (ep_session_id p \<noteq> None \<longrightarrow> (\<exists>c. context = Some c \<and> rc_session_id c = ep_session_id p))"
    by (cases "context") auto
  have wsp: "\<not> (ep_workspace_id p \<noteq> None \<and>
        (case context of None \<Rightarrow> None | Some c \<Rightarrow> rc_workspace_id c) \<noteq> ep_workspace_id p) \<longleftrightarrow>
      (ep_workspace_id p \<noteq> None \<longrightarrow> (\<exists>c. context = Some c \<and> rc_workspace_id c = ep_workspace_id p))"
    by (cases "context") auto
  have win: "\<not> is_not_yet_valid now p \<longleftrightarrow> utc_us (ep_issued_at p) \<le> utc_us now + PERMIT_CLOCK_SKEW"
    "\<not> is_expired now p \<longleftrightarrow> utc_us now < utc_us (ep_expires_at p)"
    by (auto simp: is_not_yet_valid_def is_expired_def)
  show ?thesis
    unfolding enforce_cap_permit_def Some option.case Let_def permit_applies_def
    by (simp only: if_Blocked_Granted b ses wsp win not_not) auto
qed

text \<open>
  A refusal names the task, produces nothing, says why in one of a few texts, and pauses exactly
  for an unanswered approval.
\<close>

definition ROUTER_REFUSAL :: "string" where
  "ROUTER_REFUSAL = ''Runtime execution blocked: Router did not preserve CAP constraints.''"

definition REFUSAL_TEXTS :: "string list" where
  "REFUSAL_TEXTS =
     [''Runtime execution blocked: Task lacks a valid ExecutionPermit from CAP.'',
      ''approval required: CAP governance blocked user request'',
      ''Runtime execution blocked: ExecutionPermit integrity validation failed.'',
      ''Runtime execution blocked: ExecutionPermit is not yet valid.'',
      ''Runtime execution blocked: ExecutionPermit has expired.'',
      ''Runtime execution blocked: ExecutionPermit subject does not match.'',
      ''Runtime execution blocked: ExecutionPermit session does not match.'',
      ''Runtime execution blocked: ExecutionPermit workspace does not match.'',
      ''Runtime execution blocked: ExecutionPermit action does not match.'',
      ''Runtime execution blocked: ExecutionPermit operation binding does not match.'',
      ''Runtime execution blocked: ExecutionPermit permissions do not match.'',
      ''Runtime execution blocked: ExecutionPermit constraints do not match.'']"

definition refusal :: "runtime_task \<Rightarrow> runtime_result \<Rightarrow> bool" where
  "refusal task r \<longleftrightarrow> rr_task_id r = rt_task_id task \<and> rr_output r = [] \<and>
     (\<forall>k\<in>{''failure_type'', ''provider_finish_reason'', ''operation_outcome''}.
        map_of (rr_metadata r) k = None) \<and>
     (rr_status r = FAILED \<and> rr_pause r = None \<and>
        (\<exists>e. rr_error r = Some e \<and>
           (e \<in> set REFUSAL_TEXTS \<or> e = ROUTER_REFUSAL \<and> rt_action_type task \<in> set PROVIDER_ACTIONS)) \<or>
      rr_status r = PAUSED \<and> rr_pause r \<noteq> None \<and>
        (\<exists>p. rt_permit task = Some p \<and> ep_decision p = ASK_USER))"

lemma authorization_metadata_keys:
  "fst ` set (authorization_metadata task) \<subseteq> {''permit_id'', ''operation_digest'',
     ''authorization_decision'', ''authorization_source'', ''policy_reference''}"
  by (auto simp: authorization_metadata_def split: option.splits)

lemma authorization_metadata_None:
  "k \<notin> {''permit_id'', ''operation_digest'', ''authorization_decision'', ''authorization_source'',
     ''policy_reference''} \<Longrightarrow> map_of (authorization_metadata task) k = None"
  using authorization_metadata_keys [of task] by (auto simp: map_of_eq_None_iff)

lemma refusal_blocked:
  assumes "md = [] \<or> md = authorization_metadata task"
    and "y \<in> set REFUSAL_TEXTS \<or> y = ROUTER_REFUSAL \<and> rt_action_type task \<in> set PROVIDER_ACTIONS"
  shows "refusal task (blocked_result task routing t d now x y md)"
  using assms by (auto simp: refusal_def blocked_result_def authorization_metadata_None)

lemma refusal_paused:
  "rt_permit task = Some p \<Longrightarrow> ep_decision p = ASK_USER \<Longrightarrow> refusal task (paused_result show task routing t d now p)"
  by (auto simp: refusal_def paused_result_def authorization_metadata_None)

lemma in_REFUSAL_TEXTS:
  "list_all (\<lambda>t. t \<in> set REFUSAL_TEXTS) REFUSAL_TEXTS"
  by (simp add: list_all_iff)

lemmas refusal_texts = in_REFUSAL_TEXTS [unfolded REFUSAL_TEXTS_def list.pred_inject simp_thms, folded REFUSAL_TEXTS_def]

lemma binding_refusal:
  assumes "enforce_operation_binding C show validate
      (\<lambda>x y. Blocked (blocked_result task routing t d now x y (authorization_metadata task))) task routing p
      = Blocked r"
  shows "refusal task r"
  using assms unfolding enforce_operation_binding_def Let_def
  by (auto intro!: refusal_blocked simp: refusal_texts ROUTER_REFUSAL_def split: option.splits if_splits)

lemma Blocked_refusal:
  assumes "enforce_cap_permit C key show validate now task routing started_at duration context = Blocked r"
  shows "refusal task r"
proof (cases "rt_permit task")
  case None
  with assms show ?thesis
    by (auto simp: enforce_cap_permit_def refusal_texts intro!: refusal_blocked)
next
  case (Some p)
  note fail = refusal_blocked [OF disjI2 [OF refl] disjI1]
  from assms show ?thesis
    unfolding enforce_cap_permit_def Some option.case Let_def if_Blocked_Blocked gate_outcome.inject
    by (elim disjE conjE)
      (auto simp only: fail refusal_texts refusal_paused [OF Some] intro: binding_refusal)
qed

end
