(* ===== verification/Runtime_Reliability.thy ===== *)
theory Runtime_Reliability
  imports Complex_Main Prelude
begin

text \<open>
  \<open>app/runtime/reliability.py\<close>: the failure classes, the classification of an error text
  into one of them, and the retry policy with its delays. Delays are rational seconds.
\<close>

section \<open>Failure classes\<close>

datatype failure_type =
    TRANSIENT_PROVIDER_FAILURE | RATE_LIMITED | PROVIDER_TIMEOUT | PROVIDER_UNAVAILABLE
  | CONNECTION_ERROR | TOOL_TIMEOUT | TOOL_FAILURE | TOOL_SECURITY_DENIED | INVALID_REQUEST
  | CONFIGURATION_ERROR | MODEL_UNAVAILABLE | AUTHORIZATION_DENIED | PERMIT_INVALID
  | PERMIT_EXPIRED | FAILURE_CANCELLED | EXECUTION_TIMEOUT | CHECKPOINT_INVALID
  | CHECKPOINT_STALE | RECOVERY_FAILED | UNKNOWN_FAILURE | INTEGRATION_NOT_CONFIGURED
  | CREDENTIAL_UNAVAILABLE | CREDENTIAL_EXPIRED | PROVIDER_AUTH_FAILED | PROVIDER_REJECTED
  | EXTERNAL_RATE_LIMIT | EXTERNAL_TIMEOUT | EXTERNAL_SUBMISSION_UNKNOWN
  | EXTERNAL_RESOURCE_NOT_FOUND | EXTERNAL_CONFLICT

fun failure_value :: "failure_type \<Rightarrow> string" where
  "failure_value TRANSIENT_PROVIDER_FAILURE = ''transient_provider_failure''"
| "failure_value RATE_LIMITED = ''rate_limited''"
| "failure_value PROVIDER_TIMEOUT = ''provider_timeout''"
| "failure_value PROVIDER_UNAVAILABLE = ''provider_unavailable''"
| "failure_value CONNECTION_ERROR = ''connection_error''"
| "failure_value TOOL_TIMEOUT = ''tool_timeout''"
| "failure_value TOOL_FAILURE = ''tool_failure''"
| "failure_value TOOL_SECURITY_DENIED = ''tool_security_denied''"
| "failure_value INVALID_REQUEST = ''invalid_request''"
| "failure_value CONFIGURATION_ERROR = ''configuration_error''"
| "failure_value MODEL_UNAVAILABLE = ''model_unavailable''"
| "failure_value AUTHORIZATION_DENIED = ''authorization_denied''"
| "failure_value PERMIT_INVALID = ''permit_invalid''"
| "failure_value PERMIT_EXPIRED = ''permit_expired''"
| "failure_value FAILURE_CANCELLED = ''cancelled''"
| "failure_value EXECUTION_TIMEOUT = ''execution_timeout''"
| "failure_value CHECKPOINT_INVALID = ''checkpoint_invalid''"
| "failure_value CHECKPOINT_STALE = ''checkpoint_stale''"
| "failure_value RECOVERY_FAILED = ''recovery_failed''"
| "failure_value UNKNOWN_FAILURE = ''unknown_failure''"
| "failure_value INTEGRATION_NOT_CONFIGURED = ''integration_not_configured''"
| "failure_value CREDENTIAL_UNAVAILABLE = ''credential_unavailable''"
| "failure_value CREDENTIAL_EXPIRED = ''credential_expired''"
| "failure_value PROVIDER_AUTH_FAILED = ''provider_auth_failed''"
| "failure_value PROVIDER_REJECTED = ''provider_rejected''"
| "failure_value EXTERNAL_RATE_LIMIT = ''external_rate_limit''"
| "failure_value EXTERNAL_TIMEOUT = ''external_timeout''"
| "failure_value EXTERNAL_SUBMISSION_UNKNOWN = ''external_submission_unknown''"
| "failure_value EXTERNAL_RESOURCE_NOT_FOUND = ''external_resource_not_found''"
| "failure_value EXTERNAL_CONFLICT = ''external_conflict''"

datatype side_effect_class = READ_ONLY | IDEMPOTENT_MUTATION | NON_IDEMPOTENT_MUTATION

fun side_effect_value :: "side_effect_class \<Rightarrow> string" where
  "side_effect_value READ_ONLY = ''read_only''"
| "side_effect_value IDEMPOTENT_MUTATION = ''idempotent_mutation''"
| "side_effect_value NON_IDEMPOTENT_MUTATION = ''non_idempotent_mutation''"

datatype operation_outcome =
    NOT_STARTED | STARTED | OUTCOME_COMPLETED | FAILED_BEFORE_EFFECT
  | FAILED_AFTER_EFFECT_UNKNOWN | OUTCOME_CANCELLED | TIMED_OUT_UNKNOWN

fun outcome_value :: "operation_outcome \<Rightarrow> string" where
  "outcome_value NOT_STARTED = ''not_started''"
| "outcome_value STARTED = ''started''"
| "outcome_value OUTCOME_COMPLETED = ''completed''"
| "outcome_value FAILED_BEFORE_EFFECT = ''failed_before_effect''"
| "outcome_value FAILED_AFTER_EFFECT_UNKNOWN = ''failed_after_effect_unknown''"
| "outcome_value OUTCOME_CANCELLED = ''cancelled''"
| "outcome_value TIMED_OUT_UNKNOWN = ''timed_out_unknown''"

text \<open>The enumerations' constructors applied to a string, \<open>None\<close> for a \<open>ValueError\<close>.\<close>

definition side_effect_of :: "string \<Rightarrow> side_effect_class option" where
  "side_effect_of s =
     List.find (\<lambda>c. side_effect_value c = s) [READ_ONLY, IDEMPOTENT_MUTATION, NON_IDEMPOTENT_MUTATION]"

definition outcome_of :: "string \<Rightarrow> operation_outcome option" where
  "outcome_of s =
     List.find (\<lambda>c. outcome_value c = s)
       [NOT_STARTED, STARTED, OUTCOME_COMPLETED, FAILED_BEFORE_EFFECT,
        FAILED_AFTER_EFFECT_UNKNOWN, OUTCOME_CANCELLED, TIMED_OUT_UNKNOWN]"

section \<open>Classification of an error text\<close>

definition any_in :: "string \<Rightarrow> string list \<Rightarrow> bool" where
  "any_in text words = list_ex (py_contains text) words"

text \<open>The branches added for external integrations, after the runtime's own.\<close>

definition classify_external :: "string \<Rightarrow> string \<Rightarrow> failure_type" where
  "classify_external text action_type =
     (if any_in text [''not configured'', ''not_configured''] then INTEGRATION_NOT_CONFIGURED
      else if py_contains text ''credential'' \<and> any_in text [''unavailable'', ''missing'']
      then CREDENTIAL_UNAVAILABLE
      else if py_contains text ''credential'' \<and> py_contains text ''expired'' then CREDENTIAL_EXPIRED
      else if py_contains text ''auth'' \<and> py_contains text ''failed'' then PROVIDER_AUTH_FAILED
      else if any_in text [''rejected'', ''provider_rejected''] then PROVIDER_REJECTED
      else if any_in text [''rate limit'', ''rate_limited''] then EXTERNAL_RATE_LIMIT
      else if py_contains text ''submission_unknown'' \<or>
              py_contains text ''unknown'' \<and> py_contains text ''submission''
      then EXTERNAL_SUBMISSION_UNKNOWN
      else if py_contains text ''not found'' \<and> py_contains text ''external''
      then EXTERNAL_RESOURCE_NOT_FOUND
      else if py_contains text ''conflict'' then EXTERNAL_CONFLICT
      else if action_type = ''tool'' then TOOL_FAILURE
      else UNKNOWN_FAILURE)"

definition classify_text :: "string \<Rightarrow> string \<Rightarrow> failure_type" where
  "classify_text text action_type =
     (if py_contains text ''cancel'' then FAILURE_CANCELLED
      else if py_contains text ''permit'' \<and> py_contains text ''expired'' then PERMIT_EXPIRED
      else if any_in text [''permit'', ''operation digest'', ''tamper''] then PERMIT_INVALID
      else if any_in text [''authoriz'', ''permission denied'', ''governance'']
      then AUTHORIZATION_DENIED
      else if py_contains text ''tool_security_denied'' \<or>
              py_contains text ''filesystem access'' \<and> py_contains text ''denied''
      then TOOL_SECURITY_DENIED
      else if any_in text [''rate limit'', ''rate_limited'', ''429''] then RATE_LIMITED
      else if py_contains text ''model'' \<and> any_in text [''not found'', ''invalid'', ''unknown'', ''unavailable'']
      then MODEL_UNAVAILABLE
      else if any_in text [''configuration'', ''not configured'', ''api key'', ''credential'']
      then CONFIGURATION_ERROR
      else if any_in text [''invalid request'', ''validation'', ''bad request'', ''400'']
      then INVALID_REQUEST
      else if any_in text [''timeout'', ''timed out'']
      then (if action_type = ''tool'' then TOOL_TIMEOUT else PROVIDER_TIMEOUT)
      else if any_in text [''connection'', ''dns'', ''reset'', ''offline''] then CONNECTION_ERROR
      else if any_in text [''server_error'', ''server error'', ''502'', ''503'', ''504'']
      then TRANSIENT_PROVIDER_FAILURE
      else if py_contains text ''unavailable'' then PROVIDER_UNAVAILABLE
      else classify_external text action_type)"

text \<open>\<open>classify_failure\<close> of an error that is a text or missing.\<close>

definition classify_failure :: "string option \<Rightarrow> string \<Rightarrow> failure_type" where
  "classify_failure error action_type =
     classify_text (case error of None \<Rightarrow> [] | Some e \<Rightarrow> py_lower e) action_type"

section \<open>The retry policy\<close>

definition RETRYABLE :: "failure_type list" where
  "RETRYABLE = [TRANSIENT_PROVIDER_FAILURE, RATE_LIMITED, PROVIDER_TIMEOUT, PROVIDER_UNAVAILABLE,
     CONNECTION_ERROR]"

record retry_policy =
  rp_max_attempts :: nat
  rp_initial_delay :: rat
  rp_max_delay :: rat
  rp_multiplier :: rat
  rp_retryable :: "failure_type list"

definition default_retry_policy :: retry_policy where
  "default_retry_policy =
     \<lparr>rp_max_attempts = 2, rp_initial_delay = 1 / 10, rp_max_delay = 2, rp_multiplier = 2,
      rp_retryable = RETRYABLE\<rparr>"

text \<open>The bounds the model's fields are declared with.\<close>

definition retry_policy_ok :: "retry_policy \<Rightarrow> bool" where
  "retry_policy_ok p =
     (1 \<le> rp_max_attempts p \<and> rp_max_attempts p \<le> 10 \<and>
      0 \<le> rp_initial_delay p \<and> rp_initial_delay p \<le> 60 \<and>
      0 \<le> rp_max_delay p \<and> rp_max_delay p \<le> 300 \<and>
      1 \<le> rp_multiplier p \<and> rp_multiplier p \<le> 10)"

definition delay_for_retry :: "retry_policy \<Rightarrow> int \<Rightarrow> rat" where
  "delay_for_retry p retry_number =
     (if retry_number \<le> 0 then 0
      else min (rp_initial_delay p * rp_multiplier p ^ nat (retry_number - 1)) (rp_max_delay p))"

definition allows ::
  "retry_policy \<Rightarrow> failure_type \<Rightarrow> nat \<Rightarrow> side_effect_class \<Rightarrow> operation_outcome \<Rightarrow> bool" where
  "allows p failure attempt side outcome =
     (if attempt \<ge> rp_max_attempts p \<or> failure \<notin> set (rp_retryable p) then False
      else if failure \<in> {FAILURE_CANCELLED, AUTHORIZATION_DENIED, PERMIT_INVALID, PERMIT_EXPIRED}
      then False
      else if side = NON_IDEMPOTENT_MUTATION then outcome \<in> {NOT_STARTED, FAILED_BEFORE_EFFECT}
      else True)"

section \<open>Lemmas\<close>

lemma allows_attempt: "allows p failure attempt side outcome \<Longrightarrow> attempt < rp_max_attempts p"
  by (simp add: allows_def split: if_splits)

lemma allows_not_denied:
  "allows p failure attempt side outcome \<Longrightarrow>
     failure \<notin> {FAILURE_CANCELLED, AUTHORIZATION_DENIED, PERMIT_INVALID, PERMIT_EXPIRED}"
  by (simp add: allows_def split: if_splits)

lemma allows_mutation:
  "allows p failure attempt NON_IDEMPOTENT_MUTATION outcome \<Longrightarrow> outcome \<in> {NOT_STARTED, FAILED_BEFORE_EFFECT}"
  by (simp add: allows_def split: if_splits)

lemma delay_nonneg: "retry_policy_ok p \<Longrightarrow> 0 \<le> delay_for_retry p n"
  by (auto simp: delay_for_retry_def retry_policy_ok_def)

lemma delay_mono: "retry_policy_ok p \<Longrightarrow> m \<le> n \<Longrightarrow> delay_for_retry p m \<le> delay_for_retry p n"
proof -
  assume ok: "retry_policy_ok p" and le: "m \<le> n"
  show ?thesis
  proof (cases "m \<le> 0")
    case True
    with delay_nonneg [OF ok] show ?thesis by (simp add: delay_for_retry_def)
  next
    case False
    with le have "nat (m - 1) \<le> nat (n - 1)" by simp
    with ok have "rp_multiplier p ^ nat (m - 1) \<le> rp_multiplier p ^ nat (n - 1)"
      by (intro power_increasing) (simp_all add: retry_policy_ok_def)
    with ok have "rp_initial_delay p * rp_multiplier p ^ nat (m - 1)
        \<le> rp_initial_delay p * rp_multiplier p ^ nat (n - 1)"
      by (intro mult_left_mono) (simp_all add: retry_policy_ok_def)
    with False le show ?thesis by (auto simp: delay_for_retry_def)
  qed
qed

lemma delay_bounded: "retry_policy_ok p \<Longrightarrow> delay_for_retry p n \<le> rp_max_delay p"
  by (simp add: delay_for_retry_def retry_policy_ok_def)

lemma side_effect_of_value [simp]: "side_effect_of (side_effect_value c) = Some c"
  by (cases c) (simp_all add: side_effect_of_def)

lemma outcome_of_value [simp]: "outcome_of (outcome_value c) = Some c"
  by (cases c) (simp_all add: outcome_of_def)

text \<open>
  A text that mentions a credential, or a rate limit, never reaches the external branches:
  an earlier branch has taken it.
\<close>

lemma classify_text_shadowed:
  "classify_text text action_type \<notin>
     {CREDENTIAL_UNAVAILABLE, CREDENTIAL_EXPIRED, EXTERNAL_RATE_LIMIT, EXTERNAL_TIMEOUT}"
  unfolding classify_text_def
  by (auto simp: classify_external_def any_in_def)

end
