(* ===== verification/Runtime_Engine.thy ===== *)
theory Runtime_Engine
  imports Runtime_Gate Runtime_Reliability
begin

text \<open>
  \<open>RuntimeDispatcher\<close> and \<open>RuntimeEngine.run\<close> (\<open>app/runtime/dispatcher.py\<close>,
  \<open>app/runtime/engine.py\<close>): the retry loop around the gate, the claim of a mutation permit,
  the dispatch and the checkpoints, with every effect recorded in a log. What the engine calls
  outside itself is the environment of a run: the executor's answer, the clock and the
  cancellation flag at each attempt, and the revalidation of recovered tool results.
\<close>

section \<open>Dispatch\<close>

definition default_executor_map :: "(string, string) dict" where
  "default_executor_map =
     [(''text_generation'', ''provider''), (''provider'', ''provider''),
      (''tool_execution'', ''tool''), (''tool'', ''tool''), (''filesystem'', ''tool''),
      (''pdf'', ''tool''), (''memory'', ''tool''), (''windows'', ''tool''), (''internet'', ''tool'')]"

record dispatcher =
  di_registry :: "string list"
  di_overrides :: "(string, string) dict"

text \<open>The name of the registered executor, or \<open>None\<close>.\<close>

definition dispatch :: "dispatcher \<Rightarrow> string \<Rightarrow> string option" where
  "dispatch d action_type =
     (let normalized = normalize_action_type action_type;
          executor_map = dict_merge default_executor_map (di_overrides d);
          name = (case map_of executor_map normalized of Some n \<Rightarrow> n | None \<Rightarrow> normalized)
      in if name \<in> set (di_registry d) then Some name else None)"

section \<open>The engine's state and environment\<close>

datatype engine_event =
    CheckpointEvent string operation_outcome nat bool bool
    \<comment> \<open>operation id, outcome, attempt, whether a result is stored, whether recovery is safe\<close>
  | Executed string "string option" side_effect_class nat
    \<comment> \<open>executor, permit id, side-effect class, attempt\<close>

record engine_state =
  es_consumed :: "string set"
  es_dispatches :: nat
  es_log :: "engine_event list"

record engine_config =
  ec_crypto :: crypto
  ec_key :: string
  ec_show :: "pyval \<Rightarrow> string"
  ec_validate :: "pyval \<Rightarrow> execution_constraints option"
  ec_dispatcher :: dispatcher
  ec_retry :: retry_policy
  ec_resolver :: "(runtime_task \<Rightarrow> side_effect_class option) option"
  ec_security :: "(runtime_context \<Rightarrow> runtime_task \<Rightarrow> (string \<times> string) option) option"

text \<open>One call of \<open>run\<close>, with what the world answers at each attempt.\<close>

record run_request =
  rq_context :: runtime_context
  rq_task :: runtime_task
  rq_routing :: routing_decision
  rq_recovered :: "(string, runtime_result) dict"
  rq_checkpoint :: bool
  rq_now :: "nat \<Rightarrow> pydatetime"
  rq_elapsed :: "nat \<Rightarrow> int"
  rq_execute :: "nat \<Rightarrow> (string, runtime_result) result"
  rq_cancel_after :: "nat \<Rightarrow> bool"
  rq_cancel_slept :: "nat \<Rightarrow> bool"

definition log_event :: "engine_event \<Rightarrow> engine_state \<Rightarrow> engine_state" where
  "log_event e st = st\<lparr>es_log := es_log st @ [e]\<rparr>"

section \<open>Classification of a task and of its result\<close>

definition side_effect_of_task :: "engine_config \<Rightarrow> runtime_task \<Rightarrow> side_effect_class" where
  "side_effect_of_task E task =
     (if rt_action_type task \<noteq> ''tool'' then READ_ONLY
      else case (case map_of (rt_metadata task) ''side_effect_class'' of
                   Some v \<Rightarrow> if truthy v then Option.bind (as_str (Some v)) side_effect_of else None
                 | None \<Rightarrow> None) of
             Some c \<Rightarrow> c
           | None \<Rightarrow>
               if map_of (rt_metadata task) ''idempotent'' = Some (PBool True) then IDEMPOTENT_MUTATION
               else (case ec_resolver E of
                       None \<Rightarrow> NON_IDEMPOTENT_MUTATION
                     | Some f \<Rightarrow> (case f task of Some c \<Rightarrow> c | None \<Rightarrow> NON_IDEMPOTENT_MUTATION)))"

text \<open>\<open>metadata.get(k) or rest\<close> for texts.\<close>

definition meta_or :: "(pyval \<Rightarrow> string) \<Rightarrow> (string, pyval) dict \<Rightarrow> string \<Rightarrow> string option \<Rightarrow> string option" where
  "meta_or show md k rest =
     (case map_of md k of Some v \<Rightarrow> if truthy v then Some (py_str show v) else rest | None \<Rightarrow> rest)"

definition operation_outcome_of :: "engine_config \<Rightarrow> runtime_task \<Rightarrow> runtime_result \<Rightarrow> operation_outcome" where
  "operation_outcome_of E task result =
     (case (case map_of (rr_metadata result) ''operation_outcome'' of
              Some v \<Rightarrow> if truthy v then Option.bind (as_str (Some v)) outcome_of else None
            | None \<Rightarrow> None) of
        Some o' \<Rightarrow> o'
      | None \<Rightarrow>
          if rr_status result = COMPLETED then OUTCOME_COMPLETED
          else (let failure = classify_failure
                      (meta_or (ec_show E) (rr_metadata result) ''failure_type'' (rr_error result))
                      (rt_action_type task)
                in if failure = FAILURE_CANCELLED then OUTCOME_CANCELLED
                   else if failure = TOOL_TIMEOUT then TIMED_OUT_UNKNOWN
                   else if rt_action_type task = ''tool'' then FAILED_AFTER_EFFECT_UNKNOWN
                   else FAILED_BEFORE_EFFECT))"

definition result_failure :: "engine_config \<Rightarrow> runtime_task \<Rightarrow> runtime_result \<Rightarrow> failure_type" where
  "result_failure E task result =
     classify_failure
       (meta_or (ec_show E) (rr_metadata result) ''failure_type''
         (meta_or (ec_show E) (rr_metadata result) ''provider_finish_reason'' (rr_error result)))
       (rt_action_type task)"

definition operation_id :: "runtime_context \<Rightarrow> runtime_task \<Rightarrow> string" where
  "operation_id context task =
     (let digest = (case rt_permit task of
            Some p \<Rightarrow> if ep_operation_digest p \<noteq> [] then ep_operation_digest p else rt_task_id task
          | None \<Rightarrow> rt_task_id task)
      in rc_request_id context @ '':'' @ rt_task_id task @ '':'' @ digest)"

section \<open>One attempt\<close>

definition failed_result ::
  "runtime_task \<Rightarrow> routing_decision \<Rightarrow> pydatetime \<Rightarrow> int \<Rightarrow> string \<Rightarrow> (string, pyval) dict \<Rightarrow> runtime_result" where
  "failed_result task routing now duration error metadata =
     \<lparr>rr_task_id = rt_task_id task, rr_status = FAILED, rr_routing = Some routing, rr_pause = None,
      rr_output = [], rr_error = Some error, rr_started_at = Some now, rr_finished_at = Some now,
      rr_duration = duration, rr_metadata = metadata\<rparr>"

text \<open>The executor's result with the times and the authorisation filled in.\<close>

definition finish_result ::
  "runtime_context \<Rightarrow> runtime_task \<Rightarrow> pydatetime \<Rightarrow> int \<Rightarrow> runtime_result \<Rightarrow> runtime_result" where
  "finish_result context task now elapsed r =
     r\<lparr>rr_started_at := (case rr_started_at r of Some t \<Rightarrow> Some t | None \<Rightarrow> Some now),
       rr_finished_at := (case rr_finished_at r of Some t \<Rightarrow> Some t | None \<Rightarrow> Some now),
       rr_duration := (if rr_duration r \<noteq> 0 then rr_duration r else elapsed),
       rr_metadata := dict_merge (dict_merge (rr_metadata r) (authorization_metadata task))
         [(''runtime_action_type'', PStr (rt_action_type task)),
          (''runtime_request_id'', PStr (rc_request_id context))]\<rparr>"

datatype run_error = GateRaised | ExecutorRaised string

definition engine_gate :: "engine_config \<Rightarrow> run_request \<Rightarrow> nat \<Rightarrow> int \<Rightarrow> gate_outcome" where
  "engine_gate E rq attempt duration =
     enforce_cap_permit (ec_crypto E) (ec_key E) (ec_show E) (ec_validate E) (rq_now rq attempt)
       (rq_task rq) (rq_routing rq) (rq_now rq attempt) duration (Some (rq_context rq))"

definition claims_mutation :: "engine_config \<Rightarrow> run_request \<Rightarrow> nat \<Rightarrow> string option" where
  "claims_mutation E rq attempt =
     (case rt_permit (rq_task rq) of
        None \<Rightarrow> None
      | Some p \<Rightarrow>
          if side_effect_of_task E (rq_task rq) = NON_IDEMPOTENT_MUTATION \<and> attempt = 1
          then Some (ep_permit_id p) else None)"

text \<open>Dispatch and execution, once the gate and the claim are passed.\<close>

definition execute_once ::
  "engine_config \<Rightarrow> run_request \<Rightarrow> nat \<Rightarrow> engine_state \<Rightarrow>
   (run_error, runtime_result) result \<times> engine_state" where
  "execute_once E rq attempt st =
     (let task = rq_task rq; now = rq_now rq attempt; elapsed = rq_elapsed rq attempt in
      case dispatch (ec_dispatcher E) (rt_action_type task) of
        None \<Rightarrow>
          (Inr (failed_result task (rq_routing rq) now elapsed
             (''No runtime executor registered for action type: '' @ rt_action_type task)
             [(''diagnostic'', PStr ''executor_not_registered'')]), st)
      | Some executor \<Rightarrow>
          (let st' = log_event (Executed executor (map_option ep_permit_id (rt_permit task))
                       (side_effect_of_task E task) attempt) st
           in case rq_execute rq attempt of
                Inl e \<Rightarrow> (Inl (ExecutorRaised e), st')
              | Inr r \<Rightarrow> (Inr (finish_result (rq_context rq) task now elapsed r), st')))"

definition run_once ::
  "engine_config \<Rightarrow> run_request \<Rightarrow> nat \<Rightarrow> engine_state \<Rightarrow>
   (run_error, runtime_result) result \<times> engine_state" where
  "run_once E rq attempt st =
     (let st1 = st\<lparr>es_dispatches := Suc (es_dispatches st)\<rparr> in
      case engine_gate E rq attempt (rq_elapsed rq attempt) of
        GateTypeError \<Rightarrow> (Inl GateRaised, st1)
      | Blocked r \<Rightarrow> (Inr r, st1)
      | Granted \<Rightarrow>
          (case claims_mutation E rq attempt of
             None \<Rightarrow> execute_once E rq attempt st1
           | Some pid \<Rightarrow>
               if pid \<in> es_consumed st1
               then (Inr (failed_result (rq_task rq) (rq_routing rq) (rq_now rq attempt)
                       (rq_elapsed rq attempt)
                       ''Runtime execution blocked: mutation permit was already consumed.''
                       ((''diagnostic'', PStr ''permit_replayed'')
                          # authorization_metadata (rq_task rq))), st1)
               else execute_once E rq attempt
                      (st1\<lparr>es_consumed := insert pid (es_consumed st1)\<rparr>)))"

section \<open>The retry loop\<close>

definition annotate ::
  "failure_type \<Rightarrow> nat \<Rightarrow> side_effect_class \<Rightarrow> operation_outcome \<Rightarrow> string \<Rightarrow>
   runtime_result \<Rightarrow> runtime_result" where
  "annotate failure attempt side outcome op r =
     r\<lparr>rr_metadata := dict_merge (rr_metadata r)
        [(''failure_type'', if rr_status r \<noteq> COMPLETED then PStr (failure_value failure) else PNone),
         (''retry_attempt'', PInt (int attempt)),
         (''retry_count'', PInt (int attempt - 1)),
         (''side_effect_class'', PStr (side_effect_value side)),
         (''operation_outcome'', PStr (outcome_value outcome)),
         (''operation_id'', PStr op)]\<rparr>"

definition checkpoint_if :: "run_request \<Rightarrow> engine_event \<Rightarrow> engine_state \<Rightarrow> engine_state" where
  "checkpoint_if rq e st = (if rq_checkpoint rq then log_event e st else st)"

text \<open>A recovered result is returned without execution, after the gate and tool security.\<close>

definition run_recovered ::
  "engine_config \<Rightarrow> run_request \<Rightarrow> nat \<Rightarrow> string \<Rightarrow> runtime_result \<Rightarrow>
   (run_error, runtime_result) result" where
  "run_recovered E rq attempt op stored =
     (case engine_gate E rq attempt 0 of
        GateTypeError \<Rightarrow> Inl GateRaised
      | Blocked r \<Rightarrow> Inr r
      | Granted \<Rightarrow>
          (case (if rt_action_type (rq_task rq) = ''tool''
                 then Option.bind (ec_security E) (\<lambda>f. f (rq_context rq) (rq_task rq)) else None) of
             Some (message, reason) \<Rightarrow>
               Inr \<lparr>rr_task_id = rt_task_id (rq_task rq), rr_status = FAILED,
                    rr_routing = Some (rq_routing rq), rr_pause = None, rr_output = [],
                    rr_error = Some message, rr_started_at = None, rr_finished_at = None,
                    rr_duration = 0,
                    rr_metadata =
                      [(''security_blocked'', PBool True), (''security_reason'', PStr reason),
                       (''failure_type'', PStr (failure_value TOOL_SECURITY_DENIED)),
                       (''operation_outcome'', PStr (outcome_value FAILED_BEFORE_EFFECT)),
                       (''recovery_security_revalidated'', PBool True),
                       (''tool'', (case map_of (rt_metadata (rq_task rq)) ''tool'' of
                           Some v \<Rightarrow> if truthy v then PStr (py_str (ec_show E) v) else PStr []
                         | None \<Rightarrow> PStr []))]\<rparr>
           | None \<Rightarrow>
               Inr (stored\<lparr>rr_metadata := dict_merge (rr_metadata stored)
                      [(''duplicate_suppressed'', PBool True), (''operation_id'', PStr op),
                       (''retry_attempt'', PInt (int attempt))]\<rparr>)))"

function run_loop ::
  "engine_config \<Rightarrow> run_request \<Rightarrow> nat \<Rightarrow> engine_state \<Rightarrow>
   (run_error, runtime_result) result \<times> engine_state" where
  "run_loop E rq attempt st =
     (let task = rq_task rq;
          side = side_effect_of_task E task;
          op = operation_id (rq_context rq) task
      in case map_of (rq_recovered rq) op of
           Some stored \<Rightarrow> (run_recovered E rq attempt op stored, st)
         | None \<Rightarrow>
             (let st1 = checkpoint_if rq (CheckpointEvent op STARTED attempt False
                          (side \<noteq> NON_IDEMPOTENT_MUTATION)) st
              in case run_once E rq attempt st1 of
                   (Inl e, st2) \<Rightarrow> (Inl e, st2)
                 | (Inr r, st2) \<Rightarrow>
                     (let failure = result_failure E task r;
                          out = operation_outcome_of E task r;
                          r' = annotate failure attempt side out op r;
                          st3 = checkpoint_if rq (CheckpointEvent op out attempt
                                  (out = OUTCOME_COMPLETED)
                                  (out = OUTCOME_COMPLETED \<or> side \<noteq> NON_IDEMPOTENT_MUTATION \<or>
                                   out = FAILED_BEFORE_EFFECT)) st2
                      in if rr_status r' \<in> {COMPLETED, CANCELLED, PAUSED} then (Inr r', st3)
                         else if rq_cancel_after rq attempt then (Inr r', st3)
                         else if \<not> allows (ec_retry E) failure attempt side out then (Inr r', st3)
                         else if rq_cancel_slept rq attempt then (Inr r', st3)
                         else run_loop E rq (Suc attempt) st3)))"
  by pat_completeness auto
termination
  by (relation "measure (\<lambda>(E, rq, attempt, st). rp_max_attempts (ec_retry E) - attempt)")
    (auto dest: allows_attempt)

declare run_loop.simps [simp del]

definition run :: "engine_config \<Rightarrow> run_request \<Rightarrow> engine_state \<Rightarrow>
   (run_error, runtime_result) result \<times> engine_state" where
  "run E rq st = run_loop E rq 1 st"

text \<open>The life of a process: its calls of \<open>run\<close>, one after the other, with the log of each.\<close>

fun run_all :: "engine_config \<Rightarrow> run_request list \<Rightarrow> engine_state \<Rightarrow> engine_event list list" where
  "run_all E [] st = []"
| "run_all E (rq # rqs) st =
     (let st' = snd (run E rq st)
      in drop (length (es_log st)) (es_log st') # run_all E rqs st')"

section \<open>Lemmas\<close>

subsection \<open>One attempt\<close>

fun is_executed :: "engine_event \<Rightarrow> bool" where
  "is_executed (Executed _ _ _ _) = True"
| "is_executed (CheckpointEvent _ _ _ _ _) = False"

definition the_execution :: "engine_config \<Rightarrow> run_request \<Rightarrow> nat \<Rightarrow> string \<Rightarrow> engine_event" where
  "the_execution E rq attempt ex =
     Executed ex (map_option ep_permit_id (rt_permit (rq_task rq))) (side_effect_of_task E (rq_task rq)) attempt"

definition executes :: "engine_config \<Rightarrow> run_request \<Rightarrow> nat \<Rightarrow> engine_state \<Rightarrow> bool" where
  "executes E rq attempt st \<longleftrightarrow>
     engine_gate E rq attempt (rq_elapsed rq attempt) = Granted \<and>
     dispatch (ec_dispatcher E) (rt_action_type (rq_task rq)) \<noteq> None \<and>
     (\<forall>pid. claims_mutation E rq attempt = Some pid \<longrightarrow> pid \<notin> es_consumed st)"

lemma execute_once_state:
  "es_consumed (snd (execute_once E rq attempt st)) = es_consumed st"
  "es_log (snd (execute_once E rq attempt st)) = es_log st @
     (case dispatch (ec_dispatcher E) (rt_action_type (rq_task rq)) of
        None \<Rightarrow> [] | Some ex \<Rightarrow> [the_execution E rq attempt ex])"
  by (auto simp: execute_once_def log_event_def the_execution_def Let_def split: option.splits sum.splits)

lemma run_once_log:
  "es_log (snd (run_once E rq attempt st)) = es_log st @
     (if executes E rq attempt st
      then [the_execution E rq attempt
              (the (dispatch (ec_dispatcher E) (rt_action_type (rq_task rq))))] else [])"
  by (auto simp: run_once_def executes_def Let_def execute_once_state
      split: gate_outcome.splits option.splits)

lemma run_once_consumed:
  "es_consumed (snd (run_once E rq attempt st)) =
     (case (engine_gate E rq attempt (rq_elapsed rq attempt), claims_mutation E rq attempt) of
        (Granted, Some pid) \<Rightarrow> insert pid (es_consumed st)
      | _ \<Rightarrow> es_consumed st)"
  by (auto simp: run_once_def Let_def execute_once_state split: gate_outcome.splits option.splits)

lemma checkpoint_if_state [simp]:
  "es_consumed (checkpoint_if rq e st) = es_consumed st"
  "es_log (checkpoint_if rq e st) = es_log st @ (if rq_checkpoint rq then [e] else [])"
  by (simp_all add: checkpoint_if_def log_event_def)

subsection \<open>One turn of the loop\<close>

definition started_state :: "engine_config \<Rightarrow> run_request \<Rightarrow> nat \<Rightarrow> engine_state \<Rightarrow> engine_state" where
  "started_state E rq attempt st =
     checkpoint_if rq (CheckpointEvent (operation_id (rq_context rq) (rq_task rq)) STARTED attempt False
       (side_effect_of_task E (rq_task rq) \<noteq> NON_IDEMPOTENT_MUTATION)) st"

definition attempted :: "engine_config \<Rightarrow> run_request \<Rightarrow> nat \<Rightarrow> engine_state \<Rightarrow>
   (run_error, runtime_result) result \<times> engine_state" where
  "attempted E rq attempt st = run_once E rq attempt (started_state E rq attempt st)"

definition retried :: "engine_config \<Rightarrow> run_request \<Rightarrow> nat \<Rightarrow> engine_state \<Rightarrow> runtime_result \<Rightarrow> bool" where
  "retried E rq attempt st r \<longleftrightarrow>
     fst (attempted E rq attempt st) = Inr r \<and> rr_status r \<notin> {COMPLETED, CANCELLED, PAUSED} \<and>
     \<not> rq_cancel_after rq attempt \<and> \<not> rq_cancel_slept rq attempt \<and>
     allows (ec_retry E) (result_failure E (rq_task rq) r) attempt
       (side_effect_of_task E (rq_task rq)) (operation_outcome_of E (rq_task rq) r)"

definition finished_state :: "engine_config \<Rightarrow> run_request \<Rightarrow> nat \<Rightarrow> engine_state \<Rightarrow> engine_state" where
  "finished_state E rq attempt st =
     (let task = rq_task rq; op = operation_id (rq_context rq) task; side = side_effect_of_task E task in
      case attempted E rq attempt st of
        (Inl e, st2) \<Rightarrow> st2
      | (Inr r, st2) \<Rightarrow>
          (let out = operation_outcome_of E task r in
           checkpoint_if rq (CheckpointEvent op out attempt (out = OUTCOME_COMPLETED)
             (out = OUTCOME_COMPLETED \<or> side \<noteq> NON_IDEMPOTENT_MUTATION \<or> out = FAILED_BEFORE_EFFECT)) st2))"

lemma rr_status_annotate [simp]: "rr_status (annotate f a s o' op r) = rr_status r"
  by (simp add: annotate_def)

lemma run_loop_turn:
  "snd (run_loop E rq a st) =
     (if map_of (rq_recovered rq) (operation_id (rq_context rq) (rq_task rq)) \<noteq> None then st
      else if \<exists>r. retried E rq a st r then snd (run_loop E rq (Suc a) (finished_state E rq a st))
      else finished_state E rq a st)"
  by (subst run_loop.simps)
    (auto simp: Let_def finished_state_def retried_def attempted_def started_state_def
      split: option.splits prod.splits sum.splits)

lemma finished_state_simps:
  "es_consumed (finished_state E rq a st) = es_consumed (snd (attempted E rq a st))"
  "\<exists>ev. es_log (finished_state E rq a st) = es_log (snd (attempted E rq a st)) @ ev \<and>
     filter is_executed ev = []"
  by (auto simp: finished_state_def Let_def split: prod.splits sum.splits)

text \<open>The executions an attempt adds.\<close>

definition attempt_executions :: "engine_config \<Rightarrow> run_request \<Rightarrow> nat \<Rightarrow> engine_state \<Rightarrow> engine_event list" where
  "attempt_executions E rq attempt st =
     (if executes E rq attempt st
      then [the_execution E rq attempt (the (dispatch (ec_dispatcher E) (rt_action_type (rq_task rq))))]
      else [])"

lemma finished_state_log:
  "\<exists>ev. es_log (finished_state E rq a st) = es_log st @ ev \<and>
     filter is_executed ev = attempt_executions E rq a st"
proof -
  obtain ev where ev: "es_log (finished_state E rq a st) = es_log (snd (attempted E rq a st)) @ ev"
    "filter is_executed ev = []" using finished_state_simps(2) by blast
  have "es_consumed (started_state E rq a st) = es_consumed st" by (simp add: started_state_def)
  then have ex: "executes E rq a (started_state E rq a st) = executes E rq a st"
    by (simp add: executes_def)
  obtain c where c: "es_log (started_state E rq a st) = es_log st @ c" "filter is_executed c = []"
    by (cases "rq_checkpoint rq") (auto simp: started_state_def)
  have "es_log (finished_state E rq a st) = es_log st @ (c @ attempt_executions E rq a st @ ev)"
    using ev c by (simp add: attempted_def run_once_log ex attempt_executions_def)
  moreover have "filter is_executed (c @ attempt_executions E rq a st @ ev) = attempt_executions E rq a st"
    using ev c by (auto simp: attempt_executions_def the_execution_def)
  ultimately show ?thesis by blast
qed

text \<open>The executions of a whole run, from the attempt and state it starts in.\<close>

function loop_executions :: "engine_config \<Rightarrow> run_request \<Rightarrow> nat \<Rightarrow> engine_state \<Rightarrow> engine_event list" where
  "loop_executions E rq a st =
     (if map_of (rq_recovered rq) (operation_id (rq_context rq) (rq_task rq)) \<noteq> None then []
      else attempt_executions E rq a st @
        (if \<exists>r. retried E rq a st r then loop_executions E rq (Suc a) (finished_state E rq a st) else []))"
  by pat_completeness auto
termination
  by (relation "measure (\<lambda>(E, rq, attempt, st). rp_max_attempts (ec_retry E) - attempt)")
    (auto simp: retried_def dest!: allows_attempt intro: diff_less_mono2)

declare loop_executions.simps [simp del]

lemma run_loop_log:
  "\<exists>ev. es_log (snd (run_loop E rq a st)) = es_log st @ ev \<and>
     filter is_executed ev = loop_executions E rq a st"
proof (induction E rq a st rule: loop_executions.induct)
  case (1 E rq a st)
  obtain ev where ev: "es_log (finished_state E rq a st) = es_log st @ ev"
    "filter is_executed ev = attempt_executions E rq a st" using finished_state_log by blast
  show ?case
  proof (cases "map_of (rq_recovered rq) (operation_id (rq_context rq) (rq_task rq)) = None \<and> (\<exists>r. retried E rq a st r)")
    case True
    then have "map_of (rq_recovered rq) (operation_id (rq_context rq) (rq_task rq)) = None"
      "\<exists>r. retried E rq a st r" by simp_all
    with 1 obtain ev' where "es_log (snd (run_loop E rq (Suc a) (finished_state E rq a st)))
        = es_log (finished_state E rq a st) @ ev'"
      "filter is_executed ev' = loop_executions E rq (Suc a) (finished_state E rq a st)" by blast
    with True ev show ?thesis
      by (intro exI [of _ "ev @ ev'"]) (simp add: run_loop_turn [of E rq a st] loop_executions.simps [of E rq a st])
  next
    case False
    with ev show ?thesis
      by (auto simp: run_loop_turn [of E rq a st] loop_executions.simps [of E rq a st])
  qed
qed

subsection \<open>Executions are gated, bounded and claimed\<close>

lemma loop_executions_gated:
  "e \<in> set (loop_executions E rq a st) \<Longrightarrow>
     \<exists>k ex. a \<le> k \<and> e = the_execution E rq k ex \<and>
       dispatch (ec_dispatcher E) (rt_action_type (rq_task rq)) = Some ex \<and>
       engine_gate E rq k (rq_elapsed rq k) = Granted"
proof (induction E rq a st rule: loop_executions.induct)
  case (1 E rq a st)
  from "1.prems" consider "e \<in> set (attempt_executions E rq a st)"
    | "map_of (rq_recovered rq) (operation_id (rq_context rq) (rq_task rq)) = None"
      "\<exists>r. retried E rq a st r" "e \<in> set (loop_executions E rq (Suc a) (finished_state E rq a st))"
    by (subst (asm) loop_executions.simps) (auto split: if_splits)
  then show ?case
  proof cases
    case 1
    then show ?thesis by (auto simp: attempt_executions_def executes_def split: if_splits)
  next
    case 2
    with "1.IH" show ?thesis using Suc_leD by fastforce
  qed
qed

lemma loop_executions_bound:
  "length (loop_executions E rq a st) \<le> Suc (rp_max_attempts (ec_retry E) - a)"
proof (induction E rq a st rule: loop_executions.induct)
  case (1 E rq a st)
  have one: "length (attempt_executions E rq a st) \<le> 1" by (simp add: attempt_executions_def)
  show ?case
  proof (cases "map_of (rq_recovered rq) (operation_id (rq_context rq) (rq_task rq)) = None \<and> (\<exists>r. retried E rq a st r)")
    case True
    then have "a < rp_max_attempts (ec_retry E)" by (auto simp: retried_def dest: allows_attempt)
    with True 1 one show ?thesis by (simp add: loop_executions.simps [of E rq a st])
  next
    case False
    with one show ?thesis by (auto simp: loop_executions.simps [of E rq a st])
  qed
qed

text \<open>A mutation is executed again only after an outcome that rules an effect out.\<close>

lemma loop_executions_retry:
  assumes "the_execution E rq (Suc k) ex \<in> set (loop_executions E rq a st)" "a \<le> k"
  shows "\<exists>st' r. retried E rq k st' r"
  using assms
proof (induction E rq a st rule: loop_executions.induct)
  case (1 E rq a st)
  have "the_execution E rq (Suc k) ex \<notin> set (attempt_executions E rq a st)"
    using "1.prems"(2) by (auto simp: attempt_executions_def the_execution_def)
  with "1.prems"(1) have rec: "map_of (rq_recovered rq) (operation_id (rq_context rq) (rq_task rq)) = None"
    and r: "\<exists>r. retried E rq a st r"
    and later: "the_execution E rq (Suc k) ex \<in> set (loop_executions E rq (Suc a) (finished_state E rq a st))"
    by (auto simp: loop_executions.simps [of E rq a st] split: if_splits)
  show ?case
  proof (cases "a = k")
    case True
    with r show ?thesis by blast
  next
    case False
    with "1.prems"(2) have "Suc a \<le> k" by simp
    with 1 rec r later show ?thesis by blast
  qed
qed

lemma retried_mutation:
  "retried E rq k st r \<Longrightarrow> side_effect_of_task E (rq_task rq) = NON_IDEMPOTENT_MUTATION \<Longrightarrow>
     operation_outcome_of E (rq_task rq) r \<in> {NOT_STARTED, FAILED_BEFORE_EFFECT}"
  unfolding retried_def using allows_mutation by metis

subsection \<open>A refused attempt is not retried\<close>

lemma if_chain_denied:
  "p \<or> g \<Longrightarrow> (p \<Longrightarrow> P) \<Longrightarrow> (g \<Longrightarrow> G) \<Longrightarrow>
     (if a then w else if b then x else if P then y else if G then z else rest) \<in> {w, z, y, x}"
  by auto

lemma classify_denied:
  "py_contains text ''permit'' \<or> py_contains text ''governance'' \<Longrightarrow>
     classify_text text a \<in> {FAILURE_CANCELLED, AUTHORIZATION_DENIED, PERMIT_INVALID, PERMIT_EXPIRED}"
  unfolding classify_text_def by (erule if_chain_denied) (simp_all only: any_in_def list_ex_iff list.set insert_iff bex_simps simp_thms)

lemma py_contains_lower: "py_contains t s \<Longrightarrow> py_contains (py_lower t) (py_lower s)"
proof -
  assume "py_contains t s"
  then obtain a b where "t = a @ s @ b" by (auto simp: py_contains_iff)
  then have "py_lower t = py_lower a @ py_lower s @ py_lower b" by (simp add: py_lower_def)
  then show ?thesis unfolding py_contains_iff by blast
qed

lemma py_contains_at: "py_startswith (drop n t) s \<Longrightarrow> py_contains t s"
proof -
  assume "py_startswith (drop n t) s"
  then obtain r where "drop n t = s @ r" by (auto simp: py_startswith_iff)
  then have "t = take n t @ s @ r" by (metis append_take_drop_id)
  then show ?thesis unfolding py_contains_iff by blast
qed

text \<open>Where each refusal text names the permit or the governance decision.\<close>

definition refusal_marks :: "(nat \<times> string) list" where
  "refusal_marks = [(36, ''permit''), (55, ''Permit''), (23, ''governance''), (36, ''Permit''), (36, ''Permit''), (36, ''Permit''), (36, ''Permit''), (36, ''Permit''), (36, ''Permit''), (36, ''Permit''), (36, ''Permit''), (36, ''Permit''), (36, ''Permit'')]"

lemma refusal_texts_marked:
  "list_all2 (\<lambda>t (n, s). py_startswith (drop n t) s)
     (''Runtime execution blocked: mutation permit was already consumed.'' # REFUSAL_TEXTS) refusal_marks"
  by (simp add: REFUSAL_TEXTS_def refusal_marks_def)

lemma lower_marks: "\<forall>(n, s)\<in>set refusal_marks. py_lower s = ''permit'' \<or> py_lower s = ''governance''"
  by (simp add: refusal_marks_def) code_simp

lemma list_all2_left: "list_all2 P xs ys \<Longrightarrow> x \<in> set xs \<Longrightarrow> \<exists>y\<in>set ys. P x y"
  by (induction rule: list_all2_induct) auto

lemma refusal_texts_denied:
  assumes "t \<in> set (''Runtime execution blocked: mutation permit was already consumed.'' # REFUSAL_TEXTS)"
  shows "py_contains (py_lower t) ''permit'' \<or> py_contains (py_lower t) ''governance''"
proof -
  obtain n s where m: "(n, s) \<in> set refusal_marks" "py_startswith (drop n t) s"
    using list_all2_left [OF refusal_texts_marked assms] by blast
  then have "py_contains (py_lower t) (py_lower s)" by (blast intro: py_contains_at py_contains_lower)
  moreover have "py_lower s = ''permit'' \<or> py_lower s = ''governance''" using lower_marks m(1) by blast
  ultimately show ?thesis by metis
qed

lemma refused_not_retried:
  assumes tool: "rt_action_type (rq_task rq) = ''tool''"
    and r: "rr_error r = Some t" "t \<in> set (''Runtime execution blocked: mutation permit was already consumed.'' # REFUSAL_TEXTS)"
    and md: "map_of (rr_metadata r) ''failure_type'' = None" "map_of (rr_metadata r) ''provider_finish_reason'' = None"
  shows "\<not> allows p (result_failure E (rq_task rq) r) k side out"
proof -
  have "py_contains (py_lower t) ''permit'' \<or> py_contains (py_lower t) ''governance''"
    using refusal_texts_denied [OF r(2)] .
  then have "classify_failure (Some t) ''tool'' \<in>
      {FAILURE_CANCELLED, AUTHORIZATION_DENIED, PERMIT_INVALID, PERMIT_EXPIRED}"
    unfolding classify_failure_def option.case by (rule classify_denied)
  moreover have "result_failure E (rq_task rq) r = classify_failure (Some t) ''tool''"
    using tool r(1) md by (simp add: result_failure_def meta_or_def)
  ultimately show ?thesis using allows_not_denied [of p _ k side out] by auto
qed

lemma mutation_is_tool: "side_effect_of_task E task = NON_IDEMPOTENT_MUTATION \<Longrightarrow> rt_action_type task = ''tool''"
  by (auto simp: side_effect_of_task_def split: if_splits)

lemma attempted_refused:
  assumes "fst (attempted E rq a st) = Inr r" "\<not> executes E rq a st"
    "dispatch (ec_dispatcher E) (rt_action_type (rq_task rq)) \<noteq> None"
  shows "refusal (rq_task rq) r \<or>
    (rr_error r = Some ''Runtime execution blocked: mutation permit was already consumed.'' \<and>
     map_of (rr_metadata r) ''failure_type'' = None \<and> map_of (rr_metadata r) ''provider_finish_reason'' = None)"
proof -
  have cs: "es_consumed (started_state E rq a st) = es_consumed st" by (simp add: started_state_def)
  show ?thesis
  proof (cases "engine_gate E rq a (rq_elapsed rq a)")
    case (Blocked r')
    with assms have "r' = r" by (simp add: attempted_def run_once_def Let_def)
    with Blocked show ?thesis unfolding engine_gate_def by (blast intro: Blocked_refusal)
  next
    case GateTypeError
    with assms show ?thesis by (simp add: attempted_def run_once_def Let_def)
  next
    case Granted
    with assms(2,3) obtain pid where pid: "claims_mutation E rq a = Some pid" "pid \<in> es_consumed st"
      by (auto simp: executes_def)
    with Granted assms(1) cs show ?thesis
      by (auto simp: attempted_def run_once_def Let_def failed_result_def authorization_metadata_None)
  qed
qed

lemma mutation_retry_executed:
  assumes "retried E rq a st r" "side_effect_of_task E (rq_task rq) = NON_IDEMPOTENT_MUTATION"
    "dispatch (ec_dispatcher E) (rt_action_type (rq_task rq)) \<noteq> None"
  shows "executes E rq a st"
proof (rule ccontr)
  assume no: "\<not> executes E rq a st"
  from assms(2) have tool: "rt_action_type (rq_task rq) = ''tool''" by (rule mutation_is_tool)
  from assms(1) have fst: "fst (attempted E rq a st) = Inr r"
    and ok: "allows (ec_retry E) (result_failure E (rq_task rq) r) a
       (side_effect_of_task E (rq_task rq)) (operation_outcome_of E (rq_task rq) r)"
    and st: "rr_status r \<noteq> PAUSED" by (auto simp: retried_def)
  have prov: "''tool'' \<notin> set PROVIDER_ACTIONS" by (simp add: PROVIDER_ACTIONS_def)
  from attempted_refused [OF fst no assms(3)] show False
  proof
    assume "refusal (rq_task rq) r"
    with st tool prov obtain t where "rr_error r = Some t" "t \<in> set REFUSAL_TEXTS"
      "map_of (rr_metadata r) ''failure_type'' = None"
      "map_of (rr_metadata r) ''provider_finish_reason'' = None"
      by (auto simp: refusal_def)
    with refused_not_retried [OF tool] ok show False by auto
  next
    assume "rr_error r = Some ''Runtime execution blocked: mutation permit was already consumed.'' \<and>
     map_of (rr_metadata r) ''failure_type'' = None \<and> map_of (rr_metadata r) ''provider_finish_reason'' = None"
    with refused_not_retried [OF tool] ok show False by auto
  qed
qed

subsection \<open>The claim of a mutation permit\<close>

lemma run_once_consumed_mono: "es_consumed st \<subseteq> es_consumed (snd (run_once E rq a st))"
  by (auto simp: run_once_consumed split: gate_outcome.splits option.splits)

lemma finished_consumed_mono: "es_consumed st \<subseteq> es_consumed (finished_state E rq a st)"
  using run_once_consumed_mono [of "started_state E rq a st" E rq a]
  by (simp add: finished_state_simps attempted_def started_state_def)

lemma run_loop_consumed_mono: "es_consumed st \<subseteq> es_consumed (snd (run_loop E rq a st))"
proof (induction E rq a st rule: loop_executions.induct)
  case (1 E rq a st)
  then show ?case
    using finished_consumed_mono [of st E rq a] by (auto simp: run_loop_turn [of E rq a st])
qed

lemma first_attempt_claims:
  assumes "executes E rq 1 st" "rt_permit (rq_task rq) = Some p"
    "side_effect_of_task E (rq_task rq) = NON_IDEMPOTENT_MUTATION"
  shows "ep_permit_id p \<notin> es_consumed st" "ep_permit_id p \<in> es_consumed (finished_state E rq 1 st)"
proof -
  have c: "claims_mutation E rq 1 = Some (ep_permit_id p)"
    using assms by (simp add: claims_mutation_def)
  then show "ep_permit_id p \<notin> es_consumed st" using assms(1) by (simp add: executes_def)
  from c assms(1) show "ep_permit_id p \<in> es_consumed (finished_state E rq 1 st)"
    by (simp add: finished_state_simps attempted_def run_once_consumed executes_def)
qed

text \<open>A run that executes a mutation starts with its permit unclaimed and ends with it claimed.\<close>

lemma run_claims:
  assumes ne: "loop_executions E rq 1 st \<noteq> []" and p: "rt_permit (rq_task rq) = Some p"
    and side: "side_effect_of_task E (rq_task rq) = NON_IDEMPOTENT_MUTATION"
  shows "ep_permit_id p \<notin> es_consumed st \<and> ep_permit_id p \<in> es_consumed (snd (run E rq st))"
proof -
  from ne obtain e where "e \<in> set (loop_executions E rq 1 st)" by (cases "loop_executions E rq 1 st") auto
  from loop_executions_gated [OF this]
  have disp: "dispatch (ec_dispatcher E) (rt_action_type (rq_task rq)) \<noteq> None" by auto
  have ex: "executes E rq 1 st"
  proof (rule ccontr)
    assume no: "\<not> executes E rq 1 st"
    then have "attempt_executions E rq 1 st = []" by (simp add: attempt_executions_def)
    with ne have "\<exists>r. retried E rq 1 st r"
      by (subst (asm) loop_executions.simps) (auto split: if_splits)
    with mutation_retry_executed [OF _ side disp] no show False by blast
  qed
  from ne have rec: "map_of (rq_recovered rq) (operation_id (rq_context rq) (rq_task rq)) = None"
    by (subst (asm) loop_executions.simps) (auto split: if_splits)
  have "es_consumed (finished_state E rq 1 st) \<subseteq> es_consumed (snd (run_loop E rq 1 st))"
    using rec run_loop_consumed_mono [of "finished_state E rq 1 st" E rq "Suc 1"]
    by (simp add: run_loop_turn [of E rq "Suc 0" st] One_nat_def)
  with first_attempt_claims [OF ex p side] show ?thesis by (auto simp: run_def)
qed

lemma run_all_executions:
  "rqs ! i = rq \<Longrightarrow> i < length rqs \<Longrightarrow>
   \<exists>st'. es_consumed st \<subseteq> es_consumed st' \<and>
     filter is_executed (run_all E rqs st ! i) = loop_executions E rq 1 st'"
proof (induction rqs arbitrary: i st)
  case (Cons q qs)
  have one: "filter is_executed (drop (length (es_log st)) (es_log (snd (run E q st)))) = loop_executions E q 1 st"
    using run_loop_log [of E q 1 st] by (auto simp: run_def)
  have mono: "es_consumed st \<subseteq> es_consumed (snd (run E q st))"
    unfolding run_def by (rule run_loop_consumed_mono)
  show ?case
  proof (cases i)
    case 0
    with one Cons.prems show ?thesis by (auto simp: Let_def)
  next
    case (Suc j)
    with Cons.prems Cons.IH [of j "snd (run E q st)"] mono show ?thesis
      by (auto simp: Let_def)
  qed
qed simp

text \<open>The executions of one run, and of two runs of a process with one permit.\<close>

lemma run_executions:
  "filter is_executed (drop (length (es_log st)) (es_log (snd (run E rq st)))) = loop_executions E rq 1 st"
  using run_loop_log [of E rq 1 st] by (auto simp: run_def)

lemma run_all_claimed:
  assumes "i < j" "j < length rqs" "rt_permit (rq_task (rqs ! i)) = Some p" "rt_permit (rq_task (rqs ! j)) = Some q"
    "ep_permit_id p = ep_permit_id q"
    "side_effect_of_task E (rq_task (rqs ! i)) = NON_IDEMPOTENT_MUTATION"
    "side_effect_of_task E (rq_task (rqs ! j)) = NON_IDEMPOTENT_MUTATION"
    "filter is_executed (run_all E rqs st ! i) \<noteq> []"
  shows "filter is_executed (run_all E rqs st ! j) = []"
  using assms
proof (induction rqs arbitrary: i j st)
  case (Cons rq rqs)
  obtain j' where j: "j = Suc j'" using Cons.prems(1) by (cases j) auto
  have later: "run_all E (rq # rqs) st ! j = run_all E rqs (snd (run E rq st)) ! j'" by (simp add: j Let_def)
  show ?case
  proof (cases i)
    case 0
    have "loop_executions E rq 1 st \<noteq> []"
      using Cons.prems(8) run_executions [of st E rq] by (simp add: 0 Let_def)
    with run_claims [OF this, of p] Cons.prems(3,6) have "ep_permit_id p \<in> es_consumed (snd (run E rq st))"
      by (simp add: 0)
    moreover obtain st' where st': "es_consumed (snd (run E rq st)) \<subseteq> es_consumed st'"
      "filter is_executed (run_all E rqs (snd (run E rq st)) ! j') = loop_executions E (rqs ! j') 1 st'"
      using run_all_executions [of rqs j' "rqs ! j'" "snd (run E rq st)" E] Cons.prems(2) by (auto simp: j)
    ultimately have "ep_permit_id q \<in> es_consumed st'" using Cons.prems(5) by auto
    then have "loop_executions E (rqs ! j') 1 st' = []"
      using run_claims [of E "rqs ! j'" st' q] Cons.prems(4,7) by (auto simp: j)
    with st'(2) later show ?thesis by simp
  next
    case (Suc i')
    with Cons.IH [of i' j' "snd (run E rq st)"] Cons.prems later show ?thesis by (simp add: j Let_def)
  qed
qed simp

end
