(* ===== verification/Gov_Chain.thy ===== *)
theory Gov_Chain
  imports Cap_Permit
begin

text \<open>
  The append-only, hash-chained logs of the governance engine: execution records
  (\<open>app/governance/records.py\<close>, \<open>ExecutionRecord\<close> of \<open>models.py\<close>) and the audit
  trail (\<open>app/governance/audit.py\<close>). What the two have in common is the locale
  \<open>hash_chain\<close>, interpreted on both. The durable table behind a log (\<open>SQLiteJsonTable\<close> of
  \<open>app/db/base.py\<close>) is a dictionary of the JSON values of its rows, which \<open>put\<close> makes from the
  dumped model and \<open>all\<close> reads back in the order of the text keys; the text that stands for a
  JSON value in the file is injective (\<open>Canonical_Json\<close>) and read back by the library.
\<close>

section \<open>Chains of hashes\<close>

text \<open>The loop of \<open>verify_chain\<close>: every stored hash is recomputed over the one before.\<close>

fun chain_from ::
  "(string \<Rightarrow> string) \<Rightarrow> (string \<Rightarrow> 'e \<Rightarrow> string) \<Rightarrow> ('e \<Rightarrow> string) \<Rightarrow> string \<Rightarrow> 'e list \<Rightarrow> bool" where
  "chain_from H link stored previous [] = True"
| "chain_from H link stored previous (e # es) =
     (if stored e \<noteq> H (link previous e) then False else chain_from H link stored (stored e) es)"

text \<open>The hash a new entry is chained to.\<close>

definition head_hash :: "('e \<Rightarrow> string) \<Rightarrow> 'e list \<Rightarrow> string" where
  "head_hash stored es = (if es = [] then [] else stored (last es))"

text \<open>Collision freedom and the shape of a digest.\<close>

definition good_hash :: "(string \<Rightarrow> string) \<Rightarrow> bool" where
  "good_hash H \<longleftrightarrow> inj H \<and> (\<forall>t. H t \<noteq> [] \<and> CHR ''|'' \<notin> set (H t))"

locale hash_chain =
  fixes link :: "string \<Rightarrow> 'e \<Rightarrow> string"
    and stored :: "'e \<Rightarrow> string"
    and content :: "'e \<Rightarrow> 'c"
    and seal_with :: "(string \<Rightarrow> string) \<Rightarrow> string \<Rightarrow> 'e \<Rightarrow> 'e"
    and well_formed :: "'e \<Rightarrow> bool"
  assumes stored_seal: "stored (seal_with H previous e) = H (link previous e)"
    and link_seal: "link q (seal_with H previous e) = link q e"
    and content_seal: "content (seal_with H previous e) = content e"
    and link_inj: "well_formed e \<Longrightarrow> well_formed f \<Longrightarrow> CHR ''|'' \<notin> set p \<Longrightarrow> CHR ''|'' \<notin> set q \<Longrightarrow>
      link p e = link q f \<Longrightarrow> p = q \<and> content e = content f"
begin

lemma chain_snoc:
  "chain_from H link stored previous (es @ [e]) \<longleftrightarrow>
     chain_from H link stored previous es \<and>
     stored e = H (link (if es = [] then previous else stored (last es)) e)"
  by (induction es arbitrary: previous) auto

text \<open>Sealing an entry onto the head keeps the chain.\<close>

lemma chain_append:
  "chain_from H link stored [] es \<Longrightarrow>
     chain_from H link stored [] (es @ [seal_with H (head_hash stored es) e])"
  by (simp add: chain_snoc head_hash_def stored_seal link_seal)

lemma chain_prefix: "chain_from H link stored previous (es @ fs) \<Longrightarrow> chain_from H link stored previous es"
  by (induction es arbitrary: previous) (auto split: if_splits)

text \<open>The head of a verified chain determines what every entry says.\<close>

lemma chain_stored:
  "chain_from H link stored previous es \<Longrightarrow> good_hash H \<Longrightarrow> e \<in> set es \<Longrightarrow>
     stored e \<noteq> [] \<and> CHR ''|'' \<notin> set (stored e)"
proof (induction es arbitrary: previous)
  case (Cons x es)
  from Cons.prems have x: "stored x = H (link previous x)" "chain_from H link stored (stored x) es"
    by (simp_all split: if_splits)
  have "stored x \<noteq> []" "CHR ''|'' \<notin> set (stored x)"
    using Cons.prems(2) unfolding x(1) good_hash_def by blast+
  with Cons x show ?case by auto
qed simp

lemma head_hash_clean:
  "chain_from H link stored [] es \<Longrightarrow> good_hash H \<Longrightarrow> CHR ''|'' \<notin> set (head_hash stored es)"
  using chain_stored [of H "[]" es "last es"] by (auto simp: head_hash_def)

lemma chain_head_binds:
  "good_hash H \<Longrightarrow> chain_from H link stored [] es \<Longrightarrow> chain_from H link stored [] fs \<Longrightarrow>
   \<forall>e\<in>set es \<union> set fs. well_formed e \<Longrightarrow>
   head_hash stored es = head_hash stored fs \<Longrightarrow> map content es = map content fs"
proof (induction es arbitrary: fs rule: rev_induct)
  case Nil
  then show ?case using chain_stored [OF Nil(3,1), of "last fs"] by (auto simp: head_hash_def split: if_splits)
next
  case (snoc e es)
  have "fs \<noteq> []" using snoc.prems chain_stored [OF snoc.prems(2,1), of e] by (auto simp: head_hash_def)
  then obtain gs f where fs: "fs = gs @ [f]" by (meson rev_exhaust)
  have h: "stored e = H (link (head_hash stored es) e)" "stored f = H (link (head_hash stored gs) f)"
    using snoc.prems(2,3) unfolding fs chain_snoc by (simp_all add: head_hash_def)
  have ok: "chain_from H link stored [] es" "chain_from H link stored [] gs"
    using snoc.prems(2,3) unfolding fs chain_snoc by simp_all
  have "stored e = stored f" using snoc.prems(5) by (simp add: fs head_hash_def)
  with h snoc.prems(1) have "link (head_hash stored es) e = link (head_hash stored gs) f"
    by (metis good_hash_def injD)
  with link_inj [of e f "head_hash stored es" "head_hash stored gs"] ok snoc.prems(1,4) head_hash_clean
  have "head_hash stored es = head_hash stored gs" "content e = content f" by (simp_all add: fs)
  with snoc.IH [OF snoc.prems(1) ok] snoc.prems(4) show ?case by (simp add: fs)
qed

text \<open>Any change of a single entry that keeps its stored hash is detected.\<close>

lemma chain_tamper:
  assumes "good_hash H" "chain_from H link stored [] es" "i < length es" "stored f = stored (es ! i)"
    "well_formed f" "well_formed (es ! i)" "content f \<noteq> content (es ! i)"
  shows "\<not> chain_from H link stored [] (es[i := f])"
proof
  assume bad: "chain_from H link stored [] (es[i := f])"
  let ?p = "take i es"
  have e: "es = (?p @ [es ! i]) @ drop (Suc i) es" using assms(3) by (simp add: id_take_nth_drop [symmetric])
  have f: "es[i := f] = (?p @ [f]) @ drop (Suc i) es" using assms(3) by (simp add: upd_conv_take_nth_drop)
  have 1: "chain_from H link stored [] (?p @ [es ! i])" using assms(2) e by (metis chain_prefix)
  have 2: "chain_from H link stored [] (?p @ [f])" using bad unfolding f by (rule chain_prefix)
  have p: "chain_from H link stored [] ?p" using 1 by (rule chain_prefix)
  have "H (link (head_hash stored ?p) (es ! i)) = H (link (head_hash stored ?p) f)"
    using 1 2 assms(4) by (simp add: chain_snoc head_hash_def)
  with assms(1) have "link (head_hash stored ?p) (es ! i) = link (head_hash stored ?p) f"
    by (metis good_hash_def injD)
  with link_inj [OF assms(6,5)] head_hash_clean [OF p assms(1)] assms(7) show False by metis
qed

end

text \<open>\<open>_chain_hash\<close>.\<close>

definition chain_text :: "string \<Rightarrow> json \<Rightarrow> string" where
  "chain_text previous payload = previous @ ''|'' @ json_dumps default_style payload"

lemma bar_split: "p @ c # s = q @ c # t \<Longrightarrow> c \<notin> set p \<Longrightarrow> c \<notin> set q \<Longrightarrow> p = q \<and> s = t"
proof (induction p arbitrary: q)
  case Nil
  then show ?case by (cases q) auto
next
  case (Cons x p)
  then show ?case by (cases q) auto
qed

lemma chain_text_inj:
  assumes "chain_text p v = chain_text q w" "CHR ''|'' \<notin> set p" "CHR ''|'' \<notin> set q" "json_ok v" "json_ok w"
  shows "p = q \<and> sort_fields v = sort_fields w"
proof -
  have "p @ CHR ''|'' # json_dumps default_style v = q @ CHR ''|'' # json_dumps default_style w"
    using assms(1) unfolding chain_text_def append_Cons append_Nil .
  from bar_split [OF this assms(2,3)]
  have "p = q" and j: "json_dumps default_style v = json_dumps default_style w" by simp_all
  from json_text_inj [OF default_style_ok assms(4,5) j] \<open>p = q\<close> show ?thesis by (rule conjI [rotated])
qed

text \<open>A field of an object is determined by the sorted object.\<close>

lemma sorted_field:
  assumes "sort_fields (JObj fs) = sort_fields (JObj gs)" "distinct (map fst gs)"
    "(k, v) \<in> set fs" "(k, w) \<in> set gs"
  shows "sort_fields v = sort_fields w"
proof -
  let ?f = "\<lambda>(k :: string, v). (k, sort_fields v)"
  have eq: "sort_key fst (map ?f fs) = sort_key fst (map ?f gs)"
    using assms(1) by (simp only: sort_fields.simps json.inject)
  have "set (map ?f fs) = set (map ?f gs)" using arg_cong [OF eq, of set] by (simp only: set_sort)
  moreover have "(k, sort_fields v) \<in> set (map ?f fs)"
    unfolding set_map by (rule image_eqI [OF _ assms(3)]) simp
  ultimately obtain x where "(k, x) \<in> set gs" "sort_fields v = sort_fields x" by auto
  with assms(2,4) show ?thesis by (metis eq_key_imp_eq_value)
qed

section \<open>Execution records\<close>

datatype target_type = TARGET_TOOL | TARGET_PROVIDER | TARGET_CAPABILITY | TARGET_ACTION

fun target_value :: "target_type \<Rightarrow> string" where
  "target_value TARGET_TOOL = ''tool''"
| "target_value TARGET_PROVIDER = ''provider''"
| "target_value TARGET_CAPABILITY = ''capability''"
| "target_value TARGET_ACTION = ''action''"

datatype decision_status =
  STATUS_ALLOWED | STATUS_BLOCKED | STATUS_APPROVAL_REQUIRED | STATUS_EXECUTED | STATUS_FAILED | STATUS_ROLLED_BACK

fun status_value :: "decision_status \<Rightarrow> string" where
  "status_value STATUS_ALLOWED = ''allowed''"
| "status_value STATUS_BLOCKED = ''blocked''"
| "status_value STATUS_APPROVAL_REQUIRED = ''approval_required''"
| "status_value STATUS_EXECUTED = ''executed''"
| "status_value STATUS_FAILED = ''failed''"
| "status_value STATUS_ROLLED_BACK = ''rolled_back''"

record execution_record =
  er_record_id :: string
  er_recorded_at :: string
  er_request_id :: string
  er_task_id :: string
  er_target_type :: target_type
  er_target :: string
  er_decision :: string
  er_risk :: string
  er_status :: decision_status
  er_permissions :: "string list"
  er_error :: "string option"
  er_permit_id :: "string option"
  er_operation_digest :: "string option"
  er_authorization_source :: "string option"
  er_previous_hash :: string
  er_hash :: string

text \<open>The payload of \<open>recompute_hash\<close>, with the previous hash it is given.\<close>

definition record_payload :: "string \<Rightarrow> execution_record \<Rightarrow> json" where
  "record_payload previous r = JObj
     [(''record_id'', JStr (er_record_id r)),
      (''recorded_at'', JStr (er_recorded_at r)),
      (''request_id'', JStr (er_request_id r)),
      (''task_id'', JStr (er_task_id r)),
      (''target_type'', JStr (target_value (er_target_type r))),
      (''target'', JStr (er_target r)),
      (''decision'', JStr (er_decision r)),
      (''risk'', JStr (er_risk r)),
      (''status'', JStr (status_value (er_status r))),
      (''permissions'', JArr (map JStr (er_permissions r))),
      (''error'', opt_json (er_error r)),
      (''permit_id'', opt_json (er_permit_id r)),
      (''operation_digest'', opt_json (er_operation_digest r)),
      (''authorization_source'', opt_json (er_authorization_source r)),
      (''previous_hash'', JStr previous)]"

definition record_link :: "string \<Rightarrow> execution_record \<Rightarrow> string" where
  "record_link previous r = chain_text previous (record_payload previous r)"

text \<open>\<open>recompute_hash\<close>, and \<open>_chain_for\<close>, which recomputes over a given previous hash.\<close>

definition recompute_hash :: "(string \<Rightarrow> string) \<Rightarrow> execution_record \<Rightarrow> string" where
  "recompute_hash H r = H (record_link (er_previous_hash r) r)"

definition chain_for :: "(string \<Rightarrow> string) \<Rightarrow> execution_record \<Rightarrow> string \<Rightarrow> string" where
  "chain_for H r previous = recompute_hash H (r\<lparr>er_previous_hash := previous\<rparr>)"

definition seal_record :: "(string \<Rightarrow> string) \<Rightarrow> string \<Rightarrow> execution_record \<Rightarrow> execution_record" where
  "seal_record H previous r = r\<lparr>er_previous_hash := previous, er_hash := chain_for H r previous\<rparr>"

text \<open>\<open>build_execution_record\<close>; \<open>nonce\<close> is the fresh \<open>uuid4().hex\<close>.\<close>

definition build_execution_record ::
  "(string \<Rightarrow> string) \<Rightarrow> string \<Rightarrow> string \<Rightarrow> string \<Rightarrow> string \<Rightarrow> target_type \<Rightarrow> string \<Rightarrow> string \<Rightarrow> string \<Rightarrow>
   decision_status \<Rightarrow> string list \<Rightarrow> string option \<Rightarrow> string option \<Rightarrow> string option \<Rightarrow> string option \<Rightarrow>
   execution_record" where
  "build_execution_record H stamp nonce request task tt target decision risk status permissions error
       permit digest source =
     \<lparr>er_record_id = take 16 (H (stamp @ ''|'' @ nonce @ ''|'' @ request @ ''|'' @ task @ ''|'' @ target)),
      er_recorded_at = stamp, er_request_id = request, er_task_id = task, er_target_type = tt,
      er_target = target, er_decision = decision, er_risk = risk, er_status = status,
      er_permissions = permissions, er_error = error, er_permit_id = permit,
      er_operation_digest = digest, er_authorization_source = source,
      er_previous_hash = [], er_hash = []\<rparr>"

record record_store =
  rs_records :: "execution_record list"
  rs_by_id :: "(string, execution_record) dict"
  rs_backing :: "(string, json) dict option"

text \<open>The rows of a table in the order of their keys.\<close>

definition table_rows :: "(string, 'r) dict \<Rightarrow> 'r list" where
  "table_rows t = map snd (sort_key fst t)"

text \<open>The fields of a row, as the model that is validated from it takes them.\<close>

definition row_field :: "string \<Rightarrow> json \<Rightarrow> json option" where
  "row_field k row = (case row of JObj fs \<Rightarrow> map_of fs k | _ \<Rightarrow> None)"

definition row_text :: "string \<Rightarrow> json \<Rightarrow> string option" where
  "row_text k row = (case row_field k row of Some (JStr t) \<Rightarrow> Some t | _ \<Rightarrow> None)"

definition row_text_or :: "string \<Rightarrow> string \<Rightarrow> json \<Rightarrow> string option" where
  "row_text_or t k row = (if row_field k row = None then Some t else row_text k row)"

definition row_optional :: "string \<Rightarrow> json \<Rightarrow> string option option" where
  "row_optional k row =
     (case row_field k row of None \<Rightarrow> Some None | Some JNull \<Rightarrow> Some None | Some (JStr t) \<Rightarrow> Some (Some t) | _ \<Rightarrow> None)"

definition json_text :: "json \<Rightarrow> string option" where
  "json_text j = (case j of JStr t \<Rightarrow> Some t | _ \<Rightarrow> None)"

definition row_texts :: "string \<Rightarrow> json \<Rightarrow> string list option" where
  "row_texts k row =
     (case row_field k row of
        None \<Rightarrow> Some []
      | Some (JArr js) \<Rightarrow> if list_ex (\<lambda>j. json_text j = None) js then None else Some (map (the \<circ> json_text) js)
      | _ \<Rightarrow> None)"

text \<open>The key the rows are sorted by: the time a row carries, or the empty text.\<close>

definition row_time :: "json \<Rightarrow> string" where
  "row_time row = (case row_text ''recorded_at'' row of Some t \<Rightarrow> t | None \<Rightarrow> [])"

definition target_of :: "string \<Rightarrow> target_type option" where
  "target_of t = List.find (\<lambda>x. target_value x = t) [TARGET_TOOL, TARGET_PROVIDER, TARGET_CAPABILITY, TARGET_ACTION]"

definition status_of :: "string \<Rightarrow> decision_status option" where
  "status_of t = List.find (\<lambda>x. status_value x = t)
     [STATUS_ALLOWED, STATUS_BLOCKED, STATUS_APPROVAL_REQUIRED, STATUS_EXECUTED, STATUS_FAILED, STATUS_ROLLED_BACK]"

text \<open>The row of a record, its \<open>model_dump\<close> in JSON, and \<open>ExecutionRecord.model_validate\<close> of a row.\<close>

definition record_row :: "execution_record \<Rightarrow> json" where
  "record_row r = JObj
     [(''record_id'', JStr (er_record_id r)),
      (''recorded_at'', JStr (er_recorded_at r)),
      (''request_id'', JStr (er_request_id r)),
      (''task_id'', JStr (er_task_id r)),
      (''target_type'', JStr (target_value (er_target_type r))),
      (''target'', JStr (er_target r)),
      (''decision'', JStr (er_decision r)),
      (''risk'', JStr (er_risk r)),
      (''status'', JStr (status_value (er_status r))),
      (''permissions'', JArr (map JStr (er_permissions r))),
      (''error'', opt_json (er_error r)),
      (''permit_id'', opt_json (er_permit_id r)),
      (''operation_digest'', opt_json (er_operation_digest r)),
      (''authorization_source'', opt_json (er_authorization_source r)),
      (''previous_hash'', JStr (er_previous_hash r)),
      (''hash'', JStr (er_hash r))]"

definition record_of_row :: "json \<Rightarrow> execution_record option" where
  "record_of_row row =
     Option.bind (row_text ''record_id'' row) (\<lambda>record_id.
     Option.bind (row_text ''recorded_at'' row) (\<lambda>recorded_at.
     Option.bind (row_text ''request_id'' row) (\<lambda>request_id.
     Option.bind (row_text ''task_id'' row) (\<lambda>task_id.
     Option.bind (Option.bind (row_text ''target_type'' row) target_of) (\<lambda>target_type.
     Option.bind (row_text ''target'' row) (\<lambda>target.
     Option.bind (row_text ''decision'' row) (\<lambda>decision.
     Option.bind (row_text ''risk'' row) (\<lambda>risk.
     Option.bind (Option.bind (row_text ''status'' row) status_of) (\<lambda>status.
     Option.bind (row_texts ''permissions'' row) (\<lambda>permissions.
     Option.bind (row_optional ''error'' row) (\<lambda>error.
     Option.bind (row_optional ''permit_id'' row) (\<lambda>permit_id.
     Option.bind (row_optional ''operation_digest'' row) (\<lambda>operation_digest.
     Option.bind (row_optional ''authorization_source'' row) (\<lambda>source.
     Option.bind (row_text_or [] ''previous_hash'' row) (\<lambda>previous.
     Option.bind (row_text_or [] ''hash'' row) (\<lambda>hash.
     Some \<lparr>er_record_id = record_id, er_recorded_at = recorded_at, er_request_id = request_id,
        er_task_id = task_id, er_target_type = target_type, er_target = target, er_decision = decision,
        er_risk = risk, er_status = status, er_permissions = permissions, er_error = error,
        er_permit_id = permit_id, er_operation_digest = operation_digest, er_authorization_source = source,
        er_previous_hash = previous, er_hash = hash\<rparr>))))))))))))))))"

text \<open>A store as it is constructed, and after \<open>_load_backing\<close>; a row that is no record raises.\<close>

datatype row_error = RowInvalid

definition empty_record_store :: "(string, json) dict option \<Rightarrow> record_store" where
  "empty_record_store backing = \<lparr>rs_records = [], rs_by_id = [], rs_backing = backing\<rparr>"

definition load_record_store :: "(string, json) dict option \<Rightarrow> (row_error, record_store) result" where
  "load_record_store backing =
     (case backing of None \<Rightarrow> Inr (empty_record_store None)
      | Some t \<Rightarrow>
          (let rows = sort_key row_time (table_rows t)
           in if list_ex (\<lambda>row. record_of_row row = None) rows then Inl RowInvalid
              else (let records = map (the \<circ> record_of_row) rows
                    in Inr \<lparr>rs_records = records,
                            rs_by_id = fold (\<lambda>r. AList.update (er_record_id r) r) records [],
                            rs_backing = Some t\<rparr>)))"

datatype record_error = RecordExists string

definition append_record ::
  "(string \<Rightarrow> string) \<Rightarrow> execution_record \<Rightarrow> record_store \<Rightarrow>
   (record_error, execution_record) result \<times> record_store" where
  "append_record H r st =
     (if dict_has (er_record_id r) (rs_by_id st) then (Inl (RecordExists (er_record_id r)), st)
      else
        (let chained = seal_record H (head_hash er_hash (rs_records st)) r;
             st1 = st\<lparr>rs_records := rs_records st @ [chained],
                      rs_by_id := AList.update (er_record_id chained) chained (rs_by_id st)\<rparr>
         in case rs_backing st of
              None \<Rightarrow> (Inr chained, st1)
            | Some t \<Rightarrow>
                if dict_has (er_record_id chained) t then (Inl (RecordExists (er_record_id r)), st1)
                else (Inr chained, st1\<lparr>rs_backing := Some (AList.update (er_record_id chained) (record_row chained) t)\<rparr>)))"

definition get_record :: "record_store \<Rightarrow> string \<Rightarrow> execution_record option" where
  "get_record st k = map_of (rs_by_id st) k"

definition verify_records :: "(string \<Rightarrow> string) \<Rightarrow> record_store \<Rightarrow> bool" where
  "verify_records H st = chain_from H record_link er_hash [] (rs_records st)"

section \<open>The audit trail\<close>

record audit_entry =
  ae_seq :: int
  ae_recorded_at :: string
  ae_category :: string
  ae_action :: string
  ae_subject :: string
  ae_result :: string
  ae_details :: "(string, pyval) dict"
  ae_previous_hash :: string
  ae_hash :: string

text \<open>\<open>json.dumps(..., default=str)\<close>: what JSON has no form for becomes its text.\<close>

fun json_default :: "(pyval \<Rightarrow> string) \<Rightarrow> pyval \<Rightarrow> json" where
  "json_default show PNone = JNull"
| "json_default show (PBool b) = JBool b"
| "json_default show (PInt i) = JInt i"
| "json_default show (PFloat t) = JFloat (json_float t)"
| "json_default show (PStr s) = JStr s"
| "json_default show (PEnum s) = JStr s"
| "json_default show (PList vs) = JArr (map (json_default show) vs)"
| "json_default show (PTuple vs) = JArr (map (json_default show) vs)"
| "json_default show (PDict fs) = JObj (map (\<lambda>(k, v). (k, json_default show v)) fs)"
| "json_default show v = JStr (show v)"

definition audit_payload :: "(pyval \<Rightarrow> string) \<Rightarrow> string \<Rightarrow> audit_entry \<Rightarrow> json" where
  "audit_payload show previous e = JObj
     [(''seq'', JInt (ae_seq e)),
      (''recorded_at'', JStr (ae_recorded_at e)),
      (''category'', JStr (ae_category e)),
      (''action'', JStr (ae_action e)),
      (''subject'', JStr (ae_subject e)),
      (''result'', JStr (ae_result e)),
      (''details'', json_default show (PDict (ae_details e))),
      (''previous_hash'', JStr previous)]"

definition audit_link :: "(pyval \<Rightarrow> string) \<Rightarrow> string \<Rightarrow> audit_entry \<Rightarrow> string" where
  "audit_link show previous e = chain_text previous (audit_payload show previous e)"

definition audit_hash :: "(string \<Rightarrow> string) \<Rightarrow> (pyval \<Rightarrow> string) \<Rightarrow> audit_entry \<Rightarrow> string" where
  "audit_hash H show e = H (audit_link show (ae_previous_hash e) e)"

definition seal_audit ::
  "(pyval \<Rightarrow> string) \<Rightarrow> (string \<Rightarrow> string) \<Rightarrow> string \<Rightarrow> audit_entry \<Rightarrow> audit_entry" where
  "seal_audit show H previous e =
     (let e' = e\<lparr>ae_previous_hash := previous\<rparr> in e'\<lparr>ae_hash := audit_hash H show e'\<rparr>)"

record audit_log =
  al_entries :: "audit_entry list"
  al_seq :: int
  al_backing :: "(string, json) dict option"

text \<open>
  What a value is after \<open>model_dump\<close> (a model in it becomes a dictionary), whether \<open>json.dumps\<close>
  without a \<open>default\<close> takes it, and what \<open>json.loads\<close> makes of a JSON value: sequences come back
  as lists and enumerations as their texts.
\<close>

fun model_dumped :: "pyval \<Rightarrow> pyval" where
  "model_dumped (PList vs) = PList (map model_dumped vs)"
| "model_dumped (PTuple vs) = PTuple (map model_dumped vs)"
| "model_dumped (PDict fs) = PDict (map (\<lambda>(k, v). (k, model_dumped v)) fs)"
| "model_dumped (PModel fs) = PDict (map (\<lambda>(k, v). (k, model_dumped v)) fs)"
| "model_dumped v = v"

fun serialisable :: "pyval \<Rightarrow> bool" where
  "serialisable (PList vs) = list_all serialisable vs"
| "serialisable (PTuple vs) = list_all serialisable vs"
| "serialisable (PDict fs) = list_all (\<lambda>(k, v). serialisable v) fs"
| "serialisable (PDatetime t) = False"
| "serialisable (PModel fs) = False"
| "serialisable (POther t) = False"
| "serialisable v = True"

definition float_of_json :: "string \<Rightarrow> string" where
  "float_of_json t = (if t = ''NaN'' then ''nan'' else if t = ''Infinity'' then ''inf''
     else if t = ''-Infinity'' then ''-inf'' else t)"

fun py_of_json :: "json \<Rightarrow> pyval" where
  "py_of_json JNull = PNone"
| "py_of_json (JBool b) = PBool b"
| "py_of_json (JInt i) = PInt i"
| "py_of_json (JFloat t) = PFloat (float_of_json t)"
| "py_of_json (JStr t) = PStr t"
| "py_of_json (JArr js) = PList (map py_of_json js)"
| "py_of_json (JObj fs) = PDict (map (\<lambda>(k, j). (k, py_of_json j)) fs)"

definition py_fields :: "pyval \<Rightarrow> (string, pyval) dict" where
  "py_fields v = (case v of PDict fs \<Rightarrow> fs | _ \<Rightarrow> [])"

text \<open>The row of an entry and \<open>AuditEntry.model_validate\<close> of a row.\<close>

definition audit_row :: "(pyval \<Rightarrow> string) \<Rightarrow> audit_entry \<Rightarrow> json" where
  "audit_row show e = JObj
     [(''seq'', JInt (ae_seq e)),
      (''recorded_at'', JStr (ae_recorded_at e)),
      (''category'', JStr (ae_category e)),
      (''action'', JStr (ae_action e)),
      (''subject'', JStr (ae_subject e)),
      (''result'', JStr (ae_result e)),
      (''details'', json_default show (model_dumped (PDict (ae_details e)))),
      (''previous_hash'', JStr (ae_previous_hash e)),
      (''hash'', JStr (ae_hash e))]"

definition row_int :: "string \<Rightarrow> json \<Rightarrow> int option" where
  "row_int k row = (case row_field k row of Some (JInt i) \<Rightarrow> Some i | _ \<Rightarrow> None)"

definition row_dict :: "string \<Rightarrow> json \<Rightarrow> (string, pyval) dict option" where
  "row_dict k row =
     (case row_field k row of None \<Rightarrow> Some [] | Some (JObj fs) \<Rightarrow> Some (py_fields (py_of_json (JObj fs))) | _ \<Rightarrow> None)"

definition audit_of_row :: "json \<Rightarrow> audit_entry option" where
  "audit_of_row row =
     Option.bind (row_int ''seq'' row) (\<lambda>seq.
     Option.bind (row_text ''recorded_at'' row) (\<lambda>recorded_at.
     Option.bind (row_text ''category'' row) (\<lambda>category.
     Option.bind (row_text ''action'' row) (\<lambda>act.
     Option.bind (row_text ''subject'' row) (\<lambda>subject.
     Option.bind (row_text ''result'' row) (\<lambda>outcome.
     Option.bind (row_dict ''details'' row) (\<lambda>details.
     Option.bind (row_text_or [] ''previous_hash'' row) (\<lambda>previous.
     Option.bind (row_text_or [] ''hash'' row) (\<lambda>hash.
     Some \<lparr>ae_seq = seq, ae_recorded_at = recorded_at, ae_category = category, ae_action = act,
        ae_subject = subject, ae_result = outcome, ae_details = details, ae_previous_hash = previous,
        ae_hash = hash\<rparr>)))))))))"

definition row_seq :: "json \<Rightarrow> int" where
  "row_seq row = (case row_int ''seq'' row of Some i \<Rightarrow> i | None \<Rightarrow> 0)"

definition empty_audit_log :: "(string, json) dict option \<Rightarrow> audit_log" where
  "empty_audit_log backing = \<lparr>al_entries = [], al_seq = 0, al_backing = backing\<rparr>"

definition load_audit_log :: "(string, json) dict option \<Rightarrow> (row_error, audit_log) result" where
  "load_audit_log backing =
     (case backing of None \<Rightarrow> Inr (empty_audit_log None)
      | Some t \<Rightarrow>
          (let rows = sort_key (\<lambda>row. (row_time row, row_seq row)) (table_rows t)
           in if list_ex (\<lambda>row. audit_of_row row = None) rows then Inl RowInvalid
              else (let es = map (the \<circ> audit_of_row) rows
                    in Inr \<lparr>al_entries = es, al_seq = fold (\<lambda>e n. max n (ae_seq e + 1)) es 0,
                            al_backing = Some t\<rparr>)))"

text \<open>
  \<open>record\<close>, at the time \<open>now\<close>. The entry joins the trail before its row is put: a value that JSON
  has no form for makes \<open>put\<close> raise, and the entry stands in memory only.
\<close>

datatype audit_error = NotSerialisable

definition sealed_entry ::
  "(pyval \<Rightarrow> string) \<Rightarrow> (string \<Rightarrow> string) \<Rightarrow> string \<Rightarrow> string \<Rightarrow> string \<Rightarrow> string \<Rightarrow> string \<Rightarrow>
   (string, pyval) dict \<Rightarrow> audit_log \<Rightarrow> audit_entry" where
  "sealed_entry show H now category act subject outcome details log =
     seal_audit show H (head_hash ae_hash (al_entries log))
       \<lparr>ae_seq = al_seq log, ae_recorded_at = now, ae_category = category, ae_action = act,
        ae_subject = subject, ae_result = outcome, ae_details = details,
        ae_previous_hash = [], ae_hash = []\<rparr>"

definition audit_record ::
  "(pyval \<Rightarrow> string) \<Rightarrow> (string \<Rightarrow> string) \<Rightarrow> string \<Rightarrow> string \<Rightarrow> string \<Rightarrow> string \<Rightarrow> string \<Rightarrow>
   (string, pyval) dict \<Rightarrow> audit_log \<Rightarrow> (audit_error, audit_entry) result \<times> audit_log" where
  "audit_record show H now category act subject outcome details log =
     (let sealed = sealed_entry show H now category act subject outcome details log;
          log1 = log\<lparr>al_entries := al_entries log @ [sealed], al_seq := al_seq log + 1\<rparr>
      in case al_backing log of
           None \<Rightarrow> (Inr sealed, log1)
         | Some t \<Rightarrow>
             if \<not> serialisable (model_dumped (PDict details)) then (Inl NotSerialisable, log1)
             else (Inr sealed, log1\<lparr>al_backing := Some (AList.update (int_str (ae_seq sealed)) (audit_row show sealed) t)\<rparr>))"

definition keep_if :: "('e \<Rightarrow> string) \<Rightarrow> string option \<Rightarrow> 'e list \<Rightarrow> 'e list" where
  "keep_if f want es = (case want of None \<Rightarrow> es | Some w \<Rightarrow> filter (\<lambda>e. f e = w) es)"

definition audit_query ::
  "string option \<Rightarrow> string option \<Rightarrow> string option \<Rightarrow> string option \<Rightarrow> audit_log \<Rightarrow> audit_entry list" where
  "audit_query category act subject outcome log =
     keep_if ae_result outcome (keep_if ae_subject subject (keep_if ae_action act
       (keep_if ae_category category (al_entries log))))"

definition verify_audit :: "(pyval \<Rightarrow> string) \<Rightarrow> (string \<Rightarrow> string) \<Rightarrow> audit_log \<Rightarrow> bool" where
  "verify_audit show H log = chain_from H (audit_link show) ae_hash [] (al_entries log)"

section \<open>Lemmas\<close>

subsection \<open>The two logs are chains\<close>

text \<open>What a record says, apart from its place in the chain.\<close>

definition record_content :: "execution_record \<Rightarrow> execution_record" where
  "record_content r = r\<lparr>er_previous_hash := [], er_hash := []\<rparr>"

text \<open>What an entry says, with its details as they are hashed.\<close>

definition audit_content ::
  "(pyval \<Rightarrow> string) \<Rightarrow> audit_entry \<Rightarrow> int \<times> string \<times> string \<times> string \<times> string \<times> string \<times> json" where
  "audit_content show e = (ae_seq e, ae_recorded_at e, ae_category e, ae_action e, ae_subject e, ae_result e,
     sort_fields (json_default show (PDict (ae_details e))))"

definition audit_ok :: "(pyval \<Rightarrow> string) \<Rightarrow> audit_entry \<Rightarrow> bool" where
  "audit_ok show e = json_ok (json_default show (PDict (ae_details e)))"

lemma enum_value_inj2:
  "target_value a = target_value b \<longleftrightarrow> a = b" "status_value s = status_value t \<longleftrightarrow> s = t"
   apply (cases a; cases b; simp)
  apply (cases s; cases t; simp)
  done

lemma sort_fields_opt_json [simp]: "sort_fields (opt_json v) = opt_json v"
  by (cases v) (simp_all add: opt_json_def)

lemma map_JStr_inj [simp]: "map JStr xs = map JStr ys \<longleftrightarrow> xs = ys"
  by (rule inj_map_eq_map) (simp add: inj_def)

lemma record_payload_ok: "json_ok (record_payload previous r)"
  by (simp add: record_payload_def opt_json_def list_all_iff split: option.splits)

lemma record_fields_distinct: "distinct (map fst [(''record_id'', a), (''recorded_at'', b), (''request_id'', c),
    (''task_id'', d), (''target_type'', e), (''target'', f), (''decision'', g), (''risk'', h), (''status'', i),
    (''permissions'', j), (''error'', k), (''permit_id'', l), (''operation_digest'', m),
    (''authorization_source'', n), (''previous_hash'', p)])"
  by simp

lemma record_link_inj:
  assumes "CHR ''|'' \<notin> set p" "CHR ''|'' \<notin> set q" "record_link p r = record_link q s"
  shows "p = q \<and> record_content r = record_content s"
proof -
  from chain_text_inj [OF assms(3) [unfolded record_link_def] assms(1,2) record_payload_ok record_payload_ok]
  have pq: "p = q" and eq: "sort_fields (record_payload p r) = sort_fields (record_payload q s)" by blast+
  note field = sorted_field [OF eq [unfolded record_payload_def] record_fields_distinct]
  have "er_record_id r = er_record_id s" using field [of "''record_id''"] by simp
  moreover have "er_recorded_at r = er_recorded_at s" using field [of "''recorded_at''"] by simp
  moreover have "er_request_id r = er_request_id s" using field [of "''request_id''"] by simp
  moreover have "er_task_id r = er_task_id s" using field [of "''task_id''"] by simp
  moreover have "er_target_type r = er_target_type s"
    using field [of "''target_type''"] by (simp add: enum_value_inj2)
  moreover have "er_target r = er_target s" using field [of "''target''"] by simp
  moreover have "er_decision r = er_decision s" using field [of "''decision''"] by simp
  moreover have "er_risk r = er_risk s" using field [of "''risk''"] by simp
  moreover have "er_status r = er_status s" using field [of "''status''"] by (simp add: enum_value_inj2)
  moreover have "er_permissions r = er_permissions s" using field [of "''permissions''"] by (simp add: comp_def)
  moreover have "er_error r = er_error s" using field [of "''error''"] by simp
  moreover have "er_permit_id r = er_permit_id s" using field [of "''permit_id''"] by simp
  moreover have "er_operation_digest r = er_operation_digest s" using field [of "''operation_digest''"] by simp
  moreover have "er_authorization_source r = er_authorization_source s"
    using field [of "''authorization_source''"] by simp
  ultimately show ?thesis using pq by (simp add: record_content_def)
qed

lemma audit_payload_ok: "audit_ok show e \<Longrightarrow> json_ok (audit_payload show previous e)"
  by (simp add: audit_payload_def audit_ok_def)

lemma audit_fields_distinct: "distinct (map fst [(''seq'', a), (''recorded_at'', b), (''category'', c),
    (''action'', d), (''subject'', e), (''result'', f), (''details'', g), (''previous_hash'', h)])"
  by simp

lemma audit_link_inj:
  assumes ok: "audit_ok sh e" "audit_ok sh f" and bar: "CHR ''|'' \<notin> set p" "CHR ''|'' \<notin> set q"
    and eq: "audit_link sh p e = audit_link sh q f"
  shows "p = q \<and> audit_content sh e = audit_content sh f"
proof -
  from chain_text_inj [OF eq [unfolded audit_link_def] bar audit_payload_ok [OF ok(1)] audit_payload_ok [OF ok(2)]]
  have pq: "p = q" and eq: "sort_fields (audit_payload sh p e) = sort_fields (audit_payload sh q f)" by blast+
  note field = sorted_field [OF eq [unfolded audit_payload_def] audit_fields_distinct]
  have "ae_seq e = ae_seq f" using field [of "''seq''"] by simp
  moreover have "ae_recorded_at e = ae_recorded_at f" using field [of "''recorded_at''"] by simp
  moreover have "ae_category e = ae_category f" using field [of "''category''"] by simp
  moreover have "ae_action e = ae_action f" using field [of "''action''"] by simp
  moreover have "ae_subject e = ae_subject f" using field [of "''subject''"] by simp
  moreover have "ae_result e = ae_result f" using field [of "''result''"] by simp
  moreover have "sort_fields (json_default sh (PDict (ae_details e))) = sort_fields (json_default sh (PDict (ae_details f)))"
    using field [of "''details''"] by simp
  ultimately show ?thesis using pq by (simp add: audit_content_def del: json_default.simps sort_fields.simps)
qed

interpretation record_chain: hash_chain record_link er_hash record_content seal_record "\<lambda>_. True"
proof unfold_locales
  show "er_hash (seal_record H previous e) = H (record_link previous e)" for H previous e
    by (simp add: seal_record_def chain_for_def recompute_hash_def record_link_def record_payload_def)
  show "record_link q (seal_record H previous e) = record_link q e" for q H previous e
    by (simp add: seal_record_def record_link_def record_payload_def)
  show "record_content (seal_record H previous e) = record_content e" for H previous e
    by (simp add: seal_record_def record_content_def)
qed (rule record_link_inj)

interpretation audit_chain: hash_chain "audit_link sh" ae_hash "audit_content sh" "seal_audit sh" "audit_ok sh"
  for sh
proof unfold_locales
  show "ae_hash (seal_audit sh H previous e) = H (audit_link sh previous e)" for H previous e
    by (simp add: seal_audit_def audit_hash_def audit_link_def audit_payload_def Let_def)
  show "audit_link sh q (seal_audit sh H previous e) = audit_link sh q e" for q H previous e
    by (simp add: seal_audit_def audit_link_def audit_payload_def Let_def)
  show "audit_content sh (seal_audit sh H previous e) = audit_content sh e" for H previous e
    by (simp add: seal_audit_def audit_content_def Let_def)
qed (rule audit_link_inj)

subsection \<open>The record store\<close>

text \<open>What every operation keeps: the index lists the records, the table holds them.\<close>

definition index_of :: "execution_record list \<Rightarrow> (string, execution_record) dict" where
  "index_of rs = map (\<lambda>r. (er_record_id r, r)) rs"

definition table_of :: "execution_record list \<Rightarrow> (string, json) dict" where
  "table_of rs = map (\<lambda>r. (er_record_id r, record_row r)) rs"

definition record_store_ok :: "(string \<Rightarrow> string) \<Rightarrow> record_store \<Rightarrow> bool" where
  "record_store_ok H st \<longleftrightarrow>
     verify_records H st \<and> distinct (map er_record_id (rs_records st)) \<and>
     rs_by_id st = index_of (rs_records st) \<and>
     (rs_backing st = None \<or> rs_backing st = Some (table_of (rs_records st)))"

lemma dict_has_index: "dict_has k (index_of rs) \<longleftrightarrow> k \<in> er_record_id ` set rs"
  "dict_has k (table_of rs) \<longleftrightarrow> k \<in> er_record_id ` set rs"
  by (auto simp: dict_has_def index_of_def table_of_def image_iff)

lemma er_record_id_seal [simp]: "er_record_id (seal_record H previous r) = er_record_id r"
  by (simp add: seal_record_def)

lemma append_record_new:
  assumes ok: "record_store_ok H st" and new: "er_record_id r \<notin> er_record_id ` set (rs_records st)"
  shows "append_record H r st =
    (Inr (seal_record H (head_hash er_hash (rs_records st)) r),
     \<lparr>rs_records = rs_records st @ [seal_record H (head_hash er_hash (rs_records st)) r],
      rs_by_id = index_of (rs_records st @ [seal_record H (head_hash er_hash (rs_records st)) r]),
      rs_backing = map_option (\<lambda>_. table_of (rs_records st @ [seal_record H (head_hash er_hash (rs_records st)) r]))
        (rs_backing st)\<rparr>)"
proof -
  have fresh: "\<not> dict_has (er_record_id r) (index_of (rs_records st))" using new by (simp add: dict_has_index)
  have upd: "AList.update (er_record_id r) x (index_of (rs_records st)) = index_of (rs_records st) @ [(er_record_id r, x)]"
    for x using fresh by (rule update_new)
  have fresh2: "\<not> dict_has (er_record_id r) (table_of (rs_records st))" using new by (simp add: dict_has_index)
  have upd2: "AList.update (er_record_id r) x (table_of (rs_records st)) = table_of (rs_records st) @ [(er_record_id r, x)]"
    for x using fresh2 by (rule update_new)
  have "record_store.more st = ()" by simp
  with ok fresh upd fresh2 upd2 show ?thesis
    by (cases st) (auto simp: append_record_def record_store_ok_def Let_def index_of_def table_of_def)
qed

lemma append_record_ok:
  assumes "record_store_ok H st"
  shows "record_store_ok H (snd (append_record H r st))"
proof (cases "er_record_id r \<in> er_record_id ` set (rs_records st)")
  case True
  with assms show ?thesis by (simp add: append_record_def record_store_ok_def dict_has_index)
next
  case False
  with assms show ?thesis
    by (auto simp: append_record_new record_store_ok_def verify_records_def record_chain.chain_append)
qed

lemma fold_update_index:
  "distinct (map er_record_id rs) \<Longrightarrow> \<forall>r\<in>set rs. \<not> dict_has (er_record_id r) d \<Longrightarrow>
     fold (\<lambda>r. AList.update (er_record_id r) r) rs d = d @ index_of rs"
proof (induction rs arbitrary: d)
  case (Cons r rs)
  then have "AList.update (er_record_id r) r d = d @ [(er_record_id r, r)]" by (simp add: update_new)
  moreover have "\<forall>x\<in>set rs. \<not> dict_has (er_record_id x) (d @ [(er_record_id r, r)])"
    using Cons.prems by (simp add: dict_has_def) (metis image_eqI)
  ultimately show ?case using Cons.IH [of "d @ [(er_record_id r, r)]"] Cons.prems(1) by (simp add: index_of_def)
qed (simp add: index_of_def)

text \<open>A list with strictly increasing keys is the only sorted arrangement of its elements.\<close>

lemma sort_key_permuted:
  assumes "set ys = set xs" "distinct ys" "sorted (map f xs)" "distinct (map f xs)"
  shows "sort_key f ys = xs"
proof -
  have inj: "inj_on f (set xs)" using assms(4) by (simp add: distinct_map)
  have "sort_key f ys = xs"
  proof (rule map_sorted_distinct_set_unique)
    show "inj_on f (set (sort_key f ys) \<union> set xs)" using inj assms(1) by simp
    show "sorted (map f (sort_key f ys))" by simp
    show "distinct (map f (sort_key f ys))"
      using inj assms(1,2) by (simp add: distinct_map)
    show "sorted (map f xs)" "distinct (map f xs)" "set (sort_key f ys) = set xs" using assms by simp_all
  qed
  then show ?thesis .
qed

lemma table_rows_set: "set (table_rows t) = snd ` set t"
  by (simp add: table_rows_def)

lemma distinct_table_rows: "distinct (map snd t) \<Longrightarrow> distinct (table_rows t)"
proof -
  assume "distinct (map snd t)"
  then have "card (set (table_rows t)) = length (table_rows t)"
    using distinct_card [of "map snd t"] by (simp add: table_rows_set) (simp add: table_rows_def)
  then show ?thesis by (rule card_distinct)
qed

text \<open>A record is read back from its row.\<close>

lemma value_of_value [simp]: "target_of (target_value t) = Some t" "status_of (status_value v) = Some v"
  by (cases t; simp add: target_of_def) (cases v; simp add: status_of_def)

lemma row_field_cons [simp]:
  "row_field k (JObj []) = None"
  "row_field k (JObj ((k', v) # fs)) = (if k' = k then Some v else row_field k (JObj fs))"
  by (simp_all add: row_field_def)

lemma row_optional_json: "row_field k row = Some (opt_json v) \<Longrightarrow> row_optional k row = Some v"
  by (cases v) (simp_all add: row_optional_def opt_json_def)

lemma row_texts_json: "row_field k row = Some (JArr (map JStr ts)) \<Longrightarrow> row_texts k row = Some ts"
  by (simp add: row_texts_def json_text_def list_ex_iff comp_def)

lemma row_text_json: "row_field k row = Some (JStr t) \<Longrightarrow> row_text k row = Some t \<and> row_text_or d k row = Some t"
  by (simp add: row_text_or_def row_text_def)

lemma record_of_row_row [simp]: "record_of_row (record_row r) = Some r"
proof -
  note plain_text = row_text_json [THEN conjunct1] row_text_json [THEN conjunct2]
  have "row_text ''record_id'' (record_row r) = Some (er_record_id r)"
    "row_text ''recorded_at'' (record_row r) = Some (er_recorded_at r)"
    "row_text ''request_id'' (record_row r) = Some (er_request_id r)"
    "row_text ''task_id'' (record_row r) = Some (er_task_id r)"
    "row_text ''target_type'' (record_row r) = Some (target_value (er_target_type r))"
    "row_text ''target'' (record_row r) = Some (er_target r)"
    "row_text ''decision'' (record_row r) = Some (er_decision r)"
    "row_text ''risk'' (record_row r) = Some (er_risk r)"
    "row_text ''status'' (record_row r) = Some (status_value (er_status r))"
    "row_texts ''permissions'' (record_row r) = Some (er_permissions r)"
    "row_optional ''error'' (record_row r) = Some (er_error r)"
    "row_optional ''permit_id'' (record_row r) = Some (er_permit_id r)"
    "row_optional ''operation_digest'' (record_row r) = Some (er_operation_digest r)"
    "row_optional ''authorization_source'' (record_row r) = Some (er_authorization_source r)"
    "row_text_or [] ''previous_hash'' (record_row r) = Some (er_previous_hash r)"
    "row_text_or [] ''hash'' (record_row r) = Some (er_hash r)"
    unfolding record_row_def
    by (intro plain_text row_texts_json row_optional_json; simp only: row_field_cons list.inject char.inject refl if_True if_False; simp)+
  then show ?thesis by (simp only: record_of_row_def bind.bind_lunit value_of_value) simp
qed

lemma row_time_record [simp]: "row_time (record_row r) = er_recorded_at r"
  by (simp add: row_time_def record_row_def row_text_def)

lemma record_row_inj: "record_row r = record_row q \<longleftrightarrow> r = q"
  by (metis option.inject record_of_row_row)

text \<open>A store whose records carry strictly increasing times is read back as it was.\<close>

lemma reload_records:
  assumes ok: "record_store_ok H st" and b: "rs_backing st \<noteq> None"
    and times: "sorted (map er_recorded_at (rs_records st))" "distinct (map er_recorded_at (rs_records st))"
  shows "load_record_store (rs_backing st) = Inr st"
proof -
  let ?t = "table_of (rs_records st)"
  from ok b have t: "rs_backing st = Some ?t" "rs_by_id st = index_of (rs_records st)"
    "distinct (map er_record_id (rs_records st))"
    by (auto simp: record_store_ok_def)
  have snd: "map snd ?t = map record_row (rs_records st)" by (simp add: table_of_def comp_def)
  have "distinct (rs_records st)" using t(3) by (simp add: distinct_map)
  then have "distinct (map record_row (rs_records st))" by (simp add: distinct_map inj_on_def record_row_inj)
  then have "distinct (table_rows ?t)" "set (table_rows ?t) = set (map record_row (rs_records st))"
    by (simp_all only: distinct_table_rows snd table_rows_set flip: set_map)
  then have rows: "sort_key row_time (table_rows ?t) = map record_row (rs_records st)"
    using times by (intro sort_key_permuted) (simp_all add: comp_def)
  have "fold (\<lambda>r. AList.update (er_record_id r) r) (rs_records st) [] = index_of (rs_records st)"
    using fold_update_index [OF t(3), of "[]"] by (simp add: dict_has_def)
  moreover have "map (the \<circ> record_of_row) (map record_row (rs_records st)) = rs_records st" by (simp add: comp_def)
  ultimately show ?thesis using rows t by (simp add: load_record_store_def Let_def list_ex_iff)
qed

text \<open>
  With equal times the rows come back in the order of their ids, which need not be the order of
  the chain: the store then rejects its own records.
\<close>

definition tie_store :: "(string \<Rightarrow> string) \<Rightarrow> record_store" where
  "tie_store H =
     (let r = \<lparr>er_record_id = ''b'', er_recorded_at = ''t'', er_request_id = [], er_task_id = [],
            er_target_type = TARGET_TOOL, er_target = [], er_decision = [], er_risk = [],
            er_status = STATUS_EXECUTED, er_permissions = [], er_error = None, er_permit_id = None,
            er_operation_digest = None, er_authorization_source = None, er_previous_hash = [], er_hash = []\<rparr>
      in snd (append_record H (r\<lparr>er_record_id := ''a''\<rparr>) (snd (append_record H r (empty_record_store (Some []))))))"

lemma load_empty: "load_record_store (Some []) = Inr (empty_record_store (Some []))"
  "load_audit_log (Some []) = Inr (empty_audit_log (Some []))"
  by (simp_all add: load_record_store_def load_audit_log_def empty_record_store_def empty_audit_log_def table_rows_def)

lemma empty_store_ok: "record_store_ok H (empty_record_store (Some []))" "record_store_ok H (empty_record_store None)"
  by (simp_all add: empty_record_store_def record_store_ok_def verify_records_def index_of_def table_of_def)

lemma tie_store_ok: "record_store_ok H (tie_store H)"
  unfolding tie_store_def Let_def by (intro append_record_ok empty_store_ok)

lemma tie_store_reload:
  assumes "good_hash H"
  shows "verify_records H (tie_store H)"
    "\<exists>st. load_record_store (rs_backing (tie_store H)) = Inr st \<and> \<not> verify_records H st"
proof -
  show "verify_records H (tie_store H)" using tie_store_ok by (simp add: record_store_ok_def)
  let ?r = "\<lparr>er_record_id = ''b'', er_recorded_at = ''t'', er_request_id = [], er_task_id = [],
            er_target_type = TARGET_TOOL, er_target = [], er_decision = [], er_risk = [],
            er_status = STATUS_EXECUTED, er_permissions = [], er_error = None, er_permit_id = None,
            er_operation_digest = None, er_authorization_source = None, er_previous_hash = [], er_hash = []\<rparr>"
  let ?b = "seal_record H [] ?r"
  let ?a = "seal_record H (er_hash ?b) (?r\<lparr>er_record_id := ''a''\<rparr>)"
  have rs: "rs_backing (tie_store H) = Some [(''b'', record_row ?b), (''a'', record_row ?a)]"
    by (simp add: tie_store_def Let_def append_record_def empty_record_store_def dict_has_def head_hash_def)
  have "sort_key fst [(''b'', record_row ?b), (''a'', record_row ?a)] = [(''a'', record_row ?a), (''b'', record_row ?b)]"
    by (simp add: less_eq_char_def less_char_def)
  then have tr: "table_rows [(''b'', record_row ?b), (''a'', record_row ?a)] = [record_row ?a, record_row ?b]"
    by (simp add: table_rows_def)
  have "er_recorded_at ?a = er_recorded_at ?b" by (simp add: seal_record_def)
  then have "sort_key row_time [record_row ?a, record_row ?b] = [record_row ?a, record_row ?b]" by simp
  then obtain st where st: "load_record_store (rs_backing (tie_store H)) = Inr st" and rows: "rs_records st = [?a, ?b]"
    unfolding rs load_record_store_def option.case tr by simp
  have clean: "CHR ''|'' \<notin> set (er_hash ?b)" "er_hash ?b \<noteq> []"
    using assms by (simp_all add: record_chain.stored_seal good_hash_def)
  have "er_hash ?a \<noteq> H (record_link [] ?a)"
  proof
    assume "er_hash ?a = H (record_link [] ?a)"
    then have "record_link (er_hash ?b) ?a = record_link [] ?a"
      using assms unfolding record_chain.stored_seal record_chain.link_seal good_hash_def by (metis injD)
    with record_link_inj clean show False by fastforce
  qed
  with rows have "\<not> verify_records H st" by (simp add: verify_records_def)
  with st show "\<exists>st. load_record_store (rs_backing (tie_store H)) = Inr st \<and> \<not> verify_records H st" by blast
qed

subsection \<open>The audit trail\<close>

text \<open>The entries whose rows are in the table.\<close>

definition row_kept :: "audit_entry \<Rightarrow> bool" where
  "row_kept e \<longleftrightarrow> serialisable (model_dumped (PDict (ae_details e)))"

definition audit_table :: "(pyval \<Rightarrow> string) \<Rightarrow> audit_entry list \<Rightarrow> (string, json) dict" where
  "audit_table show es = map (\<lambda>e. (int_str (ae_seq e), audit_row show e)) (filter row_kept es)"

lemma audit_table_snoc:
  "audit_table sh (es @ [e]) = audit_table sh es @ (if row_kept e then [(int_str (ae_seq e), audit_row sh e)] else [])"
  by (simp add: audit_table_def)

definition audit_log_ok :: "(pyval \<Rightarrow> string) \<Rightarrow> (string \<Rightarrow> string) \<Rightarrow> audit_log \<Rightarrow> bool" where
  "audit_log_ok show H log \<longleftrightarrow>
     verify_audit show H log \<and> map ae_seq (al_entries log) = map int [0..<length (al_entries log)] \<and>
     al_seq log = int (length (al_entries log)) \<and>
     (al_backing log = None \<or> al_backing log = Some (audit_table show (al_entries log)))"

lemma empty_log_ok: "audit_log_ok show H (empty_audit_log (Some []))" "audit_log_ok show H (empty_audit_log None)"
  by (simp_all add: audit_log_ok_def empty_audit_log_def verify_audit_def audit_table_def)

lemma ae_simps_seal [simp]:
  "ae_seq (seal_audit sh H p e) = ae_seq e" "ae_recorded_at (seal_audit sh H p e) = ae_recorded_at e"
  "ae_result (seal_audit sh H p e) = ae_result e" "ae_category (seal_audit sh H p e) = ae_category e"
  "ae_subject (seal_audit sh H p e) = ae_subject e" "ae_action (seal_audit sh H p e) = ae_action e"
  "ae_details (seal_audit sh H p e) = ae_details e"
  by (simp_all add: seal_audit_def Let_def)

lemma sealed_entry_fields [simp]:
  "ae_category (sealed_entry sh H now c a s r d log) = c"
  "ae_action (sealed_entry sh H now c a s r d log) = a"
  "ae_subject (sealed_entry sh H now c a s r d log) = s"
  "ae_result (sealed_entry sh H now c a s r d log) = r"
  "ae_details (sealed_entry sh H now c a s r d log) = d"
  "ae_recorded_at (sealed_entry sh H now c a s r d log) = now"
  "ae_seq (sealed_entry sh H now c a s r d log) = al_seq log"
  by (simp_all add: sealed_entry_def)

lemma audit_record_parts:
  "al_entries (snd (audit_record sh H now c a s r d log)) = al_entries log @ [sealed_entry sh H now c a s r d log]"
  "al_seq (snd (audit_record sh H now c a s r d log)) = al_seq log + 1"
  "al_backing (snd (audit_record sh H now c a s r d log)) =
     map_option (\<lambda>t. if serialisable (model_dumped (PDict d))
       then AList.update (int_str (al_seq log)) (audit_row sh (sealed_entry sh H now c a s r d log)) t else t)
     (al_backing log)"
  by (simp_all add: audit_record_def Let_def split: option.split)

lemma seq_map_nth: "map ae_seq es = map int [0..<length es] \<Longrightarrow> e \<in> set es \<Longrightarrow> 0 \<le> ae_seq e \<and> ae_seq e < int (length es)"
  by (metis (no_types, lifting) in_set_conv_nth length_map nth_map nth_upt add_0 of_nat_0_le_iff of_nat_less_iff length_upt)

lemma audit_record_ok:
  assumes "audit_log_ok sh H log"
  shows "audit_log_ok sh H (snd (audit_record sh H now c a s r d log))"
proof -
  let ?s = "sealed_entry sh H now c a s r d log"
  have ok: "verify_audit sh H log" "map ae_seq (al_entries log) = map int [0..<length (al_entries log)]"
    "al_seq log = int (length (al_entries log))"
    "al_backing log = None \<or> al_backing log = Some (audit_table sh (al_entries log))"
    using assms by (simp_all add: audit_log_ok_def)
  have "\<not> dict_has (int_str (al_seq log)) (audit_table sh (al_entries log))"
    using ok(3) seq_map_nth [OF ok(2)] int_str_inj by (fastforce simp: dict_has_def audit_table_def)
  from update_new [OF this] have upd: "AList.update (int_str (al_seq log)) x (audit_table sh (al_entries log)) =
      audit_table sh (al_entries log) @ [(int_str (al_seq log), x)]" for x .
  have st: "row_kept ?s \<longleftrightarrow> serialisable (model_dumped (PDict d))" unfolding row_kept_def sealed_entry_fields ..
  have "verify_audit sh H (snd (audit_record sh H now c a s r d log))"
    using ok(1) unfolding verify_audit_def audit_record_parts sealed_entry_def by (rule audit_chain.chain_append)
  moreover have "al_backing (snd (audit_record sh H now c a s r d log)) = None \<or>
      al_backing (snd (audit_record sh H now c a s r d log)) =
      Some (audit_table sh (al_entries (snd (audit_record sh H now c a s r d log))))"
    using ok(4) unfolding audit_record_parts st [symmetric]
    by (auto simp: upd audit_table_snoc simp del: model_dumped.simps)
  ultimately show ?thesis using ok(2,3) by (simp add: audit_log_ok_def audit_record_parts(1,2))
qed

text \<open>
  The JSON form of the details survives the table: what is read back has the same form, so that
  the hashes over it do not change.
\<close>

lemma model_dumped_id: "serialisable v \<Longrightarrow> model_dumped v = v"
proof (induction v rule: model_dumped.induct)
  case (1 vs)
  then show ?case by (auto simp: list_all_iff intro: map_idI)
next
  case (2 vs)
  then show ?case by (auto simp: list_all_iff intro: map_idI)
next
  case (3 fs)
  then show ?case by (auto simp: list_all_iff intro!: map_idI)
qed simp_all

lemma json_float_back [simp]: "json_float (float_of_json (json_float t)) = json_float t"
  by (simp add: json_float_def float_of_json_def)

lemma json_default_back: "json_default sh (py_of_json (json_default sh v)) = json_default sh v"
proof (induction sh v rule: json_default.induct)
  case (9 sh fs)
  then show ?case by (fastforce simp: comp_def intro: map_cong)
qed simp_all

text \<open>An entry as it comes back from its row.\<close>

definition reloaded_entry :: "(pyval \<Rightarrow> string) \<Rightarrow> audit_entry \<Rightarrow> audit_entry" where
  "reloaded_entry show e = e\<lparr>ae_details := py_fields (py_of_json (json_default show (PDict (ae_details e))))\<rparr>"

lemma details_back: "PDict (ae_details (reloaded_entry sh e)) = py_of_json (json_default sh (PDict (ae_details e)))"
  by (simp add: reloaded_entry_def py_fields_def)

lemma reloaded_simps [simp]:
  "ae_seq (reloaded_entry sh e) = ae_seq e" "ae_recorded_at (reloaded_entry sh e) = ae_recorded_at e"
  "ae_category (reloaded_entry sh e) = ae_category e" "ae_action (reloaded_entry sh e) = ae_action e"
  "ae_subject (reloaded_entry sh e) = ae_subject e" "ae_result (reloaded_entry sh e) = ae_result e"
  "ae_previous_hash (reloaded_entry sh e) = ae_previous_hash e" "ae_hash (reloaded_entry sh e) = ae_hash e"
  by (simp_all add: reloaded_entry_def)

lemma reloaded_link: "audit_link sh p (reloaded_entry sh e) = audit_link sh p e"
  unfolding audit_link_def audit_payload_def details_back json_default_back by simp

lemma reloaded_content: "audit_content sh (reloaded_entry sh e) = audit_content sh e"
  unfolding audit_content_def details_back json_default_back by simp

lemma reloaded_chain: "chain_from H (audit_link sh) ae_hash p (map (reloaded_entry sh) es) = chain_from H (audit_link sh) ae_hash p es"
  by (induction es arbitrary: p) (simp_all add: reloaded_link)

lemma audit_of_row_row:
  assumes "serialisable (PDict (ae_details e))"
  shows "audit_of_row (audit_row sh e) = Some (reloaded_entry sh e)"
proof -
  note plain_text = row_text_json [THEN conjunct1] row_text_json [THEN conjunct2]
  have "row_int ''seq'' (audit_row sh e) = Some (ae_seq e)" by (simp add: row_int_def audit_row_def)
  moreover have "row_text ''recorded_at'' (audit_row sh e) = Some (ae_recorded_at e)"
    "row_text ''category'' (audit_row sh e) = Some (ae_category e)"
    "row_text ''action'' (audit_row sh e) = Some (ae_action e)"
    "row_text ''subject'' (audit_row sh e) = Some (ae_subject e)"
    "row_text ''result'' (audit_row sh e) = Some (ae_result e)"
    "row_text_or [] ''previous_hash'' (audit_row sh e) = Some (ae_previous_hash e)"
    "row_text_or [] ''hash'' (audit_row sh e) = Some (ae_hash e)"
    unfolding audit_row_def by (intro plain_text; simp del: model_dumped.simps json_default.simps)+
  moreover have "row_field ''details'' (audit_row sh e) = Some (json_default sh (PDict (ae_details e)))"
    unfolding audit_row_def model_dumped_id [OF assms] by (simp del: json_default.simps)
  then have "row_dict ''details'' (audit_row sh e) = Some (ae_details (reloaded_entry sh e))"
    by (simp add: row_dict_def reloaded_entry_def)
  ultimately show ?thesis by (simp only: audit_of_row_def bind.bind_lunit) (simp add: reloaded_entry_def)
qed

lemma row_keys_audit [simp]: "row_time (audit_row sh e) = ae_recorded_at e" "row_seq (audit_row sh e) = ae_seq e"
  by (simp_all add: row_time_def row_seq_def row_text_def row_int_def audit_row_def)

text \<open>The audit trail is read back in its own order whenever its clock does not run backwards.\<close>

lemma reload_audit:
  assumes ok: "audit_log_ok sh H log" and b: "al_backing log \<noteq> None"
    and times: "sorted (map ae_recorded_at (al_entries log))"
    and plain: "\<forall>e\<in>set (al_entries log). serialisable (PDict (ae_details e))"
  shows "load_audit_log (al_backing log) = Inr (log\<lparr>al_entries := map (reloaded_entry sh) (al_entries log)\<rparr>)"
proof -
  let ?es = "al_entries log"
  let ?t = "map (\<lambda>e. (int_str (ae_seq e), audit_row sh e)) ?es"
  have "filter row_kept ?es = ?es" using plain by (auto simp: filter_id_conv row_kept_def model_dumped_id simp del: model_dumped.simps serialisable.simps)
  then have "audit_table sh ?es = ?t" by (simp add: audit_table_def)
  with ok b have t: "al_backing log = Some ?t" and seq: "map ae_seq ?es = map int [0..<length ?es]"
    and n: "al_seq log = int (length ?es)" by (auto simp: audit_log_ok_def)
  have nth: "ae_seq (?es ! i) = int i" if "i < length ?es" for i
    using seq that by (metis (no_types, lifting) add_0 length_upt minus_nat.diff_0 nth_map nth_upt)
  have dseq: "distinct (map ae_seq ?es)" unfolding seq by (simp add: distinct_map)
  let ?rs = "map (audit_row sh) ?es"
  have "map row_seq ?rs = map ae_seq ?es" by (simp add: comp_def)
  with dseq have dr: "distinct (map row_seq ?rs)" by metis
  then have d: "distinct ?rs" by (rule distinct_map [THEN iffD1, THEN conjunct1])
  have snd: "map snd ?t = ?rs" by (simp add: comp_def)
  have rows: "sort_key (\<lambda>row. (row_time row, row_seq row)) (table_rows ?t) = ?rs"
  proof (rule sort_key_permuted)
    show "set (table_rows ?t) = set ?rs" by (simp only: table_rows_set snd flip: set_map)
    show "distinct (table_rows ?t)" using d by (simp only: distinct_table_rows snd)
    show "sorted (map (\<lambda>row. (row_time row, row_seq row)) ?rs)"
      using times nth by (auto simp: sorted_iff_nth_mono le_less)
    show "distinct (map (\<lambda>row. (row_time row, row_seq row)) ?rs)"
      using dseq by (auto simp: distinct_map inj_on_def)
  qed
  have returned: "audit_of_row (audit_row sh e) = Some (reloaded_entry sh e)" if "e \<in> set ?es" for e
    using plain that by (intro audit_of_row_row) blast
  then have none: "\<not> list_ex (\<lambda>row. audit_of_row row = None) ?rs" by (simp add: list_ex_iff)
  have es: "map (the \<circ> audit_of_row) ?rs = map (reloaded_entry sh) ?es" using returned by simp
  have "fold (\<lambda>e n. max n (ae_seq e + 1)) (take k (map (reloaded_entry sh) ?es)) 0 = int k" if "k \<le> length ?es" for k
    using that by (induction k) (simp_all add: take_Suc_conv_app_nth nth)
  from this [of "length ?es"]
  have "fold (\<lambda>e n. max n (ae_seq e + 1)) (map (reloaded_entry sh) ?es) 0 = int (length ?es)" by simp
  with n have m: "fold (\<lambda>e n. max n (ae_seq e + 1)) (map (reloaded_entry sh) ?es) 0 = al_seq log" by simp
  show ?thesis
    unfolding t load_audit_log_def option.case rows Let_def es m
    using none t by (simp only: if_False) simp
qed

end
