(* ===== verification/Plugin_Semver.thy ===== *)
theory Plugin_Semver
  imports Prelude
begin

text \<open>
  Semantic versions (\<open>app/plugins/semver.py\<close>): parsing, the order of versions and
  the constraints a plugin dependency or a governance policy is written with. A parse failure
  is \<open>Inl\<close> with the offending text.
\<close>

section \<open>Versions\<close>

datatype semver = Semver (sv_major: nat) (sv_minor: nat) (sv_patch: nat)

datatype version_error = InvalidVersion string | ConstraintNotString

definition version_tuple :: "semver \<Rightarrow> nat \<times> nat \<times> nat" where
  "version_tuple v = (sv_major v, sv_minor v, sv_patch v)"

lemma version_tuple_inj [simp]: "version_tuple v = version_tuple w \<longleftrightarrow> v = w"
  by (cases v; cases w) (simp add: version_tuple_def)

instantiation semver :: linorder
begin

definition less_eq_semver :: "semver \<Rightarrow> semver \<Rightarrow> bool" where
  "v \<le> w \<longleftrightarrow> version_tuple v \<le> version_tuple w"

definition less_semver :: "semver \<Rightarrow> semver \<Rightarrow> bool" where
  "v < w \<longleftrightarrow> version_tuple v < version_tuple w"

instance
  by standard (auto simp: less_eq_semver_def less_semver_def less_le)

end

lemma semver_le [simp]:
  "Semver a b c \<le> Semver x y z \<longleftrightarrow> a < x \<or> a = x \<and> (b < y \<or> b = y \<and> c \<le> z)"
  "Semver a b c < Semver x y z \<longleftrightarrow> a < x \<or> a = x \<and> (b < y \<or> b = y \<and> c < z)"
  by (auto simp: less_eq_semver_def less_semver_def version_tuple_def)

definition version_text :: "semver \<Rightarrow> string" where
  "version_text v = nat_str (sv_major v) @ ''.'' @ nat_str (sv_minor v) @ ''.'' @ nat_str (sv_patch v)"

section \<open>Parsing\<close>

text \<open>\<open>[0-9A-Za-z.-]\<close>, the characters of a suffix.\<close>

definition suffix_chars :: "string" where
  "suffix_chars = digits @ upper_letters @ lower_letters @ ''.-''"

text \<open>\<open>\d+\<close> at the start: the digits and the rest, when there is a digit.\<close>

definition take_number :: "string \<Rightarrow> (nat \<times> string) option" where
  "take_number s =
     (let ds = takeWhile is_digit s in if ds = [] then None else Some (str_nat ds, dropWhile is_digit s))"

definition take_dot :: "string \<Rightarrow> string option" where
  "take_dot s = (case s of [] \<Rightarrow> None | c # cs \<Rightarrow> if c = CHR ''.'' then Some cs else None)"

definition suffix_ok :: "string \<Rightarrow> bool" where
  "suffix_ok s =
     (case s of [] \<Rightarrow> True
      | c # cs \<Rightarrow> (c = CHR ''-'' \<or> c = CHR ''+'') \<and> cs \<noteq> [] \<and> list_all (\<lambda>x. x \<in> set suffix_chars) cs)"

text \<open>\<open>_PATTERN.match\<close> on a stripped text.\<close>

definition match_version :: "string \<Rightarrow> semver option" where
  "match_version s =
     (case take_number s of None \<Rightarrow> None
      | Some (a, s1) \<Rightarrow> (case take_dot s1 of None \<Rightarrow> None
      | Some s2 \<Rightarrow> (case take_number s2 of None \<Rightarrow> None
      | Some (b, s3) \<Rightarrow> (case take_dot s3 of None \<Rightarrow> None
      | Some s4 \<Rightarrow> (case take_number s4 of None \<Rightarrow> None
      | Some (c, s5) \<Rightarrow> if suffix_ok s5 then Some (Semver a b c) else None)))))"

definition parse_version :: "string \<Rightarrow> (version_error, semver) result" where
  "parse_version s =
     (case match_version (py_strip s) of None \<Rightarrow> Inl (InvalidVersion s) | Some v \<Rightarrow> Inr v)"

section \<open>Constraints\<close>

text \<open>A constraint is \<open>None\<close> or a text; \<open>>=\<close> is tried before \<open>>\<close>.\<close>

definition satisfies :: "semver \<Rightarrow> string option \<Rightarrow> (version_error, bool) result" where
  "satisfies v constraint =
     (case constraint of None \<Rightarrow> Inr False
      | Some c0 \<Rightarrow>
          (let c = py_strip c0 in
           if c \<in> {'''', ''*''} then Inr True
           else if py_startswith c ''>='' then res_bind (parse_version (py_strip (drop 2 c))) (\<lambda>b. Inr (v \<ge> b))
           else if py_startswith c ''<='' then res_bind (parse_version (py_strip (drop 2 c))) (\<lambda>b. Inr (v \<le> b))
           else if py_startswith c ''>'' then res_bind (parse_version (py_strip (drop 1 c))) (\<lambda>b. Inr (v > b))
           else if py_startswith c ''<'' then res_bind (parse_version (py_strip (drop 1 c))) (\<lambda>b. Inr (v < b))
           else if py_startswith c ''=='' then res_bind (parse_version (py_strip (drop 2 c))) (\<lambda>b. Inr (v = b))
           else if py_startswith c ''^'' then
             res_bind (parse_version (py_strip (drop 1 c)))
               (\<lambda>b. Inr (version_tuple v \<ge> version_tuple b \<and> sv_major v = sv_major b))
           else if py_startswith c ''~'' then
             res_bind (parse_version (py_strip (drop 1 c)))
               (\<lambda>b. Inr ((sv_major v, sv_minor v) = (sv_major b, sv_minor b) \<and> sv_patch v \<ge> sv_patch b))
           else res_bind (parse_version c) (\<lambda>b. Inr (v = b))))"

definition constraint_prefixes :: "string list" where
  "constraint_prefixes = [''>='', ''<='', ''>'', ''<'', ''=='', ''^'', ''~'']"

fun validate_prefixes :: "string list \<Rightarrow> string \<Rightarrow> (version_error, unit) result" where
  "validate_prefixes [] c = res_bind (parse_version c) (\<lambda>_. Inr ())"
| "validate_prefixes (p # ps) c =
     (if py_startswith c p then res_bind (parse_version (py_strip (drop (length p) c))) (\<lambda>_. Inr ())
      else validate_prefixes ps c)"

definition validate_constraint :: "string option \<Rightarrow> (version_error, unit) result" where
  "validate_constraint constraint =
     (case constraint of None \<Rightarrow> Inl ConstraintNotString
      | Some c0 \<Rightarrow>
          (let c = py_strip c0 in if c \<in> {'''', ''*''} then Inr () else validate_prefixes constraint_prefixes c))"

section \<open>Lemmas\<close>

lemma is_digit_nat_str: "c \<in> set (nat_str n) \<Longrightarrow> is_digit c"
  using nat_str_digits [of n] by (auto simp: is_digit_def)

lemma takeWhile_nat_str:
  "s = [] \<or> \<not> is_digit (hd s) \<Longrightarrow> takeWhile is_digit (nat_str n @ s) = nat_str n \<and> dropWhile is_digit (nat_str n @ s) = s"
  by (cases s) (auto simp: takeWhile_append dropWhile_append is_digit_nat_str)

lemma take_number_nat_str: "s = [] \<or> \<not> is_digit (hd s) \<Longrightarrow> take_number (nat_str n @ s) = Some (n, s)"
  using takeWhile_nat_str [of s n] by (simp add: take_number_def)

lemma not_digit_marks: "\<not> is_digit (CHR ''.'')" "\<not> is_digit (CHR ''-'')" "\<not> is_digit (CHR ''+'')"
  by (simp_all add: is_digit_def digits_def)

lemma match_version_text: "suffix_ok s \<Longrightarrow> match_version (version_text v @ s) = Some v"
proof -
  assume ok: "suffix_ok s"
  then have nd: "s = [] \<or> \<not> is_digit (hd s)" by (auto simp: suffix_ok_def not_digit_marks split: list.splits)
  have n: "take_number (nat_str m @ CHR ''.'' # t) = Some (m, CHR ''.'' # t)" for m t
    by (rule take_number_nat_str) (simp add: not_digit_marks)
  show ?thesis
    unfolding match_version_def version_text_def append_assoc append_Cons append_Nil n
    using ok take_number_nat_str [OF nd, of "sv_patch v"] by (simp add: take_dot_def n)
qed

text \<open>The branch a constraint takes, for \<open>satisfies\<close> and for its validation.\<close>

lemma returned_bind [simp]: "returned (res_bind r (\<lambda>b. Inr (f b))) = returned r"
  by (cases r) auto

lemma satisfies_returned: "returned (satisfies v (Some c)) \<longleftrightarrow> returned (validate_constraint (Some c))"
  unfolding satisfies_def validate_constraint_def constraint_prefixes_def validate_prefixes.simps Let_def option.case
  by (simp only: if_distrib [of returned] returned_bind returned_simps) (simp add: numeral_2_eq_2)

lemma satisfies_None: "satisfies v None = Inr False"
  by (simp add: satisfies_def)

lemma caret_interval:
  "version_tuple v \<ge> version_tuple b \<and> sv_major v = sv_major b \<longleftrightarrow> b \<le> v \<and> v < Semver (Suc (sv_major b)) 0 0"
  by (cases v; cases b) (auto simp: version_tuple_def)

lemma tilde_interval:
  "(sv_major v, sv_minor v) = (sv_major b, sv_minor b) \<and> sv_patch v \<ge> sv_patch b \<longleftrightarrow>
     b \<le> v \<and> v < Semver (sv_major b) (Suc (sv_minor b)) 0"
  by (cases v; cases b) auto

lemma not_space_marks: "\<not> is_space (CHR ''^'')" "\<not> is_space (CHR ''~'')"
  by code_simp+

lemma trimmed_Cons: "\<not> is_space c \<Longrightarrow> trimmed s \<Longrightarrow> trimmed (c # s)"
  by (auto simp: trimmed_def)

lemma strip_mark: "\<not> is_space m \<Longrightarrow> trimmed s \<Longrightarrow> py_strip (m # s) = m # s"
  by (simp add: py_strip_trimmed_id trimmed_Cons)

lemma satisfies_caret:
  "trimmed s \<Longrightarrow> satisfies v (Some (CHR ''^'' # s)) =
     res_bind (parse_version s) (\<lambda>b. Inr (b \<le> v \<and> v < Semver (Suc (sv_major b)) 0 0))"
  by (simp add: satisfies_def strip_mark not_space_marks py_strip_trimmed_id caret_interval)

lemma satisfies_tilde:
  "trimmed s \<Longrightarrow> satisfies v (Some (CHR ''~'' # s)) =
     res_bind (parse_version s) (\<lambda>b. Inr (b \<le> v \<and> v < Semver (sv_major b) (Suc (sv_minor b)) 0))"
  by (simp add: satisfies_def strip_mark not_space_marks py_strip_trimmed_id tilde_interval
      del: Product_Type.prod.inject)

end
