(* ===== verification/Gov_Policy.thy ===== *)
theory Gov_Policy
  imports Gov_Chain Plugin_Semver
begin

text \<open>
  Policy as code: the governance documents of \<open>app/governance/models.py\<close>, their validation
  and registry (\<open>policy.py\<close>), and the three deterministic engines that read them: risk
  classification (\<open>risk.py\<close>), approval (\<open>approval.py\<close>) and rollback (\<open>rollback.py\<close>).
\<close>

section \<open>Documents\<close>

datatype tool_permission =
  TOOL_READ | TOOL_WRITE | TOOL_MODIFY | TOOL_DELETE | TOOL_EXECUTE | TOOL_NETWORK | TOOL_ADMIN

fun permission_value :: "tool_permission \<Rightarrow> string" where
  "permission_value TOOL_READ = ''read''"
| "permission_value TOOL_WRITE = ''write''"
| "permission_value TOOL_MODIFY = ''modify''"
| "permission_value TOOL_DELETE = ''delete''"
| "permission_value TOOL_EXECUTE = ''execute''"
| "permission_value TOOL_NETWORK = ''network''"
| "permission_value TOOL_ADMIN = ''admin''"

record permission_rule =
  pr_target :: string
  pr_permissions :: "tool_permission list"
  pr_approval :: bool

record risk_rule =
  rk_target :: string
  rk_target_type :: "target_type option"
  rk_risk :: action_risk
  rk_scopes :: "tool_permission list"

record approval_rule =
  apr_target :: string
  apr_target_type :: "target_type option"
  apr_risk_at_least :: "action_risk option"
  apr_require :: bool

record rollback_rule =
  rb_target :: string
  rb_target_type :: "target_type option"
  rb_force :: bool
  rb_when :: string

record governance_policy =
  gp_policy_id :: string
  gp_version :: string
  gp_name :: string
  gp_default_risk :: action_risk
  gp_default_approval :: bool
  gp_capabilities :: "permission_rule list"
  gp_providers :: "permission_rule list"
  gp_tools :: "permission_rule list"
  gp_risks :: "risk_rule list"
  gp_approvals :: "approval_rule list"
  gp_rollbacks :: "rollback_rule list"

definition policy_key :: "governance_policy \<Rightarrow> string" where
  "policy_key p = gp_policy_id p @ ''@'' @ gp_version p"

definition rules_for :: "governance_policy \<Rightarrow> target_type \<Rightarrow> permission_rule list" where
  "rules_for p tt =
     (case tt of TARGET_TOOL \<Rightarrow> gp_tools p | TARGET_PROVIDER \<Rightarrow> gp_providers p
      | TARGET_CAPABILITY \<Rightarrow> gp_capabilities p | TARGET_ACTION \<Rightarrow> [])"

definition rule_for :: "governance_policy \<Rightarrow> target_type \<Rightarrow> string \<Rightarrow> permission_rule option" where
  "rule_for p tt target = List.find (\<lambda>r. pr_target r = target) (rules_for p tt)"

section \<open>Validation and the registry\<close>

datatype policy_problem =
    EmptyPolicyId
  | EmptyPolicyName
  | InvalidPolicyVersion version_error
  | DuplicateRule target_type string

fun duplicate_rules :: "target_type \<Rightarrow> string list \<Rightarrow> permission_rule list \<Rightarrow> policy_problem list" where
  "duplicate_rules tt seen [] = []"
| "duplicate_rules tt seen (r # rs) =
     (if pr_target r \<in> set seen then [DuplicateRule tt (pr_target r)] else []) @
     duplicate_rules tt (pr_target r # seen) rs"

definition validate_policy :: "governance_policy \<Rightarrow> policy_problem list" where
  "validate_policy p =
     (if gp_policy_id p = [] \<or> py_strip (gp_policy_id p) = [] then [EmptyPolicyId] else []) @
     (if py_strip (gp_name p) = [] then [EmptyPolicyName] else []) @
     (case parse_version (gp_version p) of Inl e \<Rightarrow> [InvalidPolicyVersion e] | Inr v \<Rightarrow> []) @
     duplicate_rules TARGET_TOOL [] (gp_tools p) @
     duplicate_rules TARGET_PROVIDER [] (gp_providers p) @
     duplicate_rules TARGET_CAPABILITY [] (gp_capabilities p)"

type_synonym policy_registry = "(string, governance_policy) dict"

datatype registry_error = PolicyRegistered string | PolicyInvalid "policy_problem list"

definition register_policy ::
  "governance_policy \<Rightarrow> policy_registry \<Rightarrow> (registry_error, governance_policy) result \<times> policy_registry" where
  "register_policy p reg =
     (if dict_has (policy_key p) reg then (Inl (PolicyRegistered (policy_key p)), reg)
      else if validate_policy p \<noteq> [] then (Inl (PolicyInvalid (validate_policy p)), reg)
      else (Inr p, AList.update (policy_key p) p reg))"

text \<open>Python's \<open>max\<close> with a key: the first of the largest.\<close>

definition py_max :: "('a \<Rightarrow> 'k::linorder) \<Rightarrow> 'a list \<Rightarrow> 'a option" where
  "py_max f xs =
     (case xs of [] \<Rightarrow> None | x # ys \<Rightarrow> Some (fold (\<lambda>y m. if f m < f y then y else m) ys x))"

definition policy_version :: "governance_policy \<Rightarrow> nat \<times> nat \<times> nat" where
  "policy_version p = (case parse_version (gp_version p) of Inl e \<Rightarrow> (0, 0, 0) | Inr v \<Rightarrow> version_tuple v)"

definition latest_policy :: "policy_registry \<Rightarrow> string \<Rightarrow> governance_policy option" where
  "latest_policy reg pid =
     py_max (\<lambda>p. (policy_version p, policy_key p)) (filter (\<lambda>p. gp_policy_id p = pid) (map snd reg))"

definition get_policy :: "policy_registry \<Rightarrow> string \<Rightarrow> governance_policy option" where
  "get_policy reg k = map_of reg k"

definition has_policy :: "policy_registry \<Rightarrow> string \<Rightarrow> bool" where
  "has_policy reg k =
     (if dict_has k reg then True else CHR ''@'' \<notin> set k \<and> latest_policy reg k \<noteq> None)"

definition list_policies :: "policy_registry \<Rightarrow> governance_policy list" where
  "list_policies reg = map snd (sort_key fst reg)"

section \<open>Risk\<close>

definition matches_rule :: "string \<Rightarrow> target_type option \<Rightarrow> target_type \<Rightarrow> string \<Rightarrow> bool" where
  "matches_rule rule_target rule_type tt target =
     (if rule_target \<noteq> ''*'' \<and> rule_target \<noteq> target then False
      else if rule_type \<noteq> None \<and> rule_type \<noteq> Some tt then False
      else True)"

definition risk_rule_applies :: "target_type \<Rightarrow> string \<Rightarrow> tool_permission list \<Rightarrow> risk_rule \<Rightarrow> bool" where
  "risk_rule_applies tt target ps r =
     (matches_rule (rk_target r) (rk_target_type r) tt target \<and>
      (rk_scopes r = [] \<or> list_ex (\<lambda>p. p \<in> set (rk_scopes r)) ps))"

definition any_permission :: "tool_permission list \<Rightarrow> tool_permission list \<Rightarrow> bool" where
  "any_permission want ps = list_ex (\<lambda>p. p \<in> set want) ps"

definition scope_risk :: "action_risk \<Rightarrow> bool \<Rightarrow> tool_permission list \<Rightarrow> action_risk \<times> string list" where
  "scope_risk base approval ps =
     (if any_permission [TOOL_ADMIN, TOOL_DELETE] ps then (CRITICAL, [''destructive permission declared''])
      else if approval \<or> any_permission [TOOL_EXECUTE, TOOL_NETWORK] ps
      then (HIGH, if approval then [''approval is required''] else [''execute/network permission declared''])
      else if any_permission [TOOL_WRITE, TOOL_MODIFY] ps
      then (MEDIUM, [''write/modify permission declared''])
      else (base, [''default risk applied'']))"

definition classify_risk ::
  "target_type \<Rightarrow> string \<Rightarrow> tool_permission list \<Rightarrow> bool \<Rightarrow> governance_policy option \<Rightarrow> action_risk \<times> string list" where
  "classify_risk tt target ps approval policy =
     (let base = (case policy of None \<Rightarrow> LOW | Some p \<Rightarrow> gp_default_risk p);
          rules = (case policy of None \<Rightarrow> [] | Some p \<Rightarrow> gp_risks p)
      in case List.find (risk_rule_applies tt target ps) rules of
           Some r \<Rightarrow> (rk_risk r, [''risk rule '' @ [CHR 0x27] @ rk_target r @ [CHR 0x27] @ '' matched''])
         | None \<Rightarrow> scope_risk base approval ps)"

section \<open>Approval\<close>

definition approval_rule_applies :: "target_type \<Rightarrow> string \<Rightarrow> action_risk \<Rightarrow> approval_rule \<Rightarrow> bool" where
  "approval_rule_applies tt target risk r =
     (matches_rule (apr_target r) (apr_target_type r) tt target \<and>
      (case apr_risk_at_least r of None \<Rightarrow> True | Some t \<Rightarrow> risk_rank risk \<ge> risk_rank t))"

definition approval_required ::
  "target_type \<Rightarrow> string \<Rightarrow> action_risk \<Rightarrow> governance_policy option \<Rightarrow> bool option \<Rightarrow> bool \<times> string list" where
  "approval_required tt target risk policy rule_approval =
     (case List.find (approval_rule_applies tt target risk)
             (case policy of None \<Rightarrow> [] | Some p \<Rightarrow> gp_approvals p) of
        Some r \<Rightarrow>
          (apr_require r,
           [if apr_require r then ''approval required by policy rule'' else ''approval exempted by policy rule''])
      | None \<Rightarrow>
          (case rule_approval of
             Some b \<Rightarrow> (b, [''target permission rule requires approval''])
           | None \<Rightarrow>
               if risk_rank risk \<ge> risk_rank HIGH then (True, [''high/critical risk requires approval''])
               else if (case policy of None \<Rightarrow> False | Some p \<Rightarrow> gp_default_approval p)
               then (True, [''policy default requires approval''])
               else (False, [''no approval required''])))"

definition approval_decision_for ::
  "target_type \<Rightarrow> string \<Rightarrow> action_risk \<Rightarrow> tool_permission list \<Rightarrow> governance_policy option \<Rightarrow> bool option \<Rightarrow>
   approval_decision \<times> string list" where
  "approval_decision_for tt target risk denied policy rule_approval =
     (if denied \<noteq> []
      then (DENY, [''missing granted permission(s): '' @ py_join '', '' (map permission_value denied)])
      else
        (let (required, reasons) = approval_required tt target risk policy rule_approval
         in if required then (ASK_USER, reasons @ [''human approval requested'']) else (ALLOW, reasons)))"

section \<open>Rollback\<close>

definition rollback_rule_applies :: "target_type \<Rightarrow> string \<Rightarrow> bool \<Rightarrow> bool \<Rightarrow> rollback_rule \<Rightarrow> bool" where
  "rollback_rule_applies tt target failed denied r =
     (matches_rule (rb_target r) (rb_target_type r) tt target \<and>
      \<not> (rb_when r = ''denial'' \<and> \<not> denied) \<and> \<not> (rb_when r = ''failure'' \<and> \<not> failed))"

definition should_rollback ::
  "target_type \<Rightarrow> string \<Rightarrow> bool \<Rightarrow> bool \<Rightarrow> bool \<Rightarrow> action_risk option \<Rightarrow> governance_policy option \<Rightarrow>
   bool \<times> string list" where
  "should_rollback tt target supported failed denied risk policy =
     (case List.find (rollback_rule_applies tt target failed denied)
             (case policy of None \<Rightarrow> [] | Some p \<Rightarrow> gp_rollbacks p) of
        Some r \<Rightarrow>
          (rb_force r,
           [if rb_force r then ''rollback forced by policy rule'' else ''rollback exempted by policy rule''])
      | None \<Rightarrow>
          if \<not> supported then (False, [''target does not support rollback''])
          else if (case risk of None \<Rightarrow> False | Some x \<Rightarrow> risk_rank x \<ge> risk_rank HIGH) \<and> (failed \<or> denied)
          then (True, [''high/critical failure or denial with rollback support''])
          else if failed then (True, [''execution failed and target supports rollback''])
          else (False, [''no rollback required'']))"

section \<open>Lemmas\<close>

lemma permission_value_inj [simp]: "permission_value p = permission_value q \<longleftrightarrow> p = q"
  by (cases p; cases q; simp)

subsection \<open>The registry\<close>

text \<open>Every registered policy is valid and stands under its own key.\<close>

definition registry_ok :: "policy_registry \<Rightarrow> bool" where
  "registry_ok reg \<longleftrightarrow> dict_ok reg \<and> (\<forall>(k, p)\<in>set reg. k = policy_key p \<and> validate_policy p = [])"

lemma registry_ok_register: "registry_ok reg \<Longrightarrow> registry_ok (snd (register_policy p reg))"
  by (auto simp: registry_ok_def register_policy_def update_new dict_ok_def dict_has_def)

lemma register_policy_Inr:
  "fst (register_policy p reg) = Inr q \<Longrightarrow> q = p \<and> get_policy (snd (register_policy p reg)) (policy_key p) = Some p"
  by (auto simp: register_policy_def get_policy_def split: if_splits)

lemma fold_max:
  fixes f :: "'a \<Rightarrow> 'k::linorder"
  shows "fold (\<lambda>y m. if f m < f y then y else m) ys x \<in> insert x (set ys) \<and>
     (\<forall>z\<in>insert x (set ys). f z \<le> f (fold (\<lambda>y m. if f m < f y then y else m) ys x))"
proof (induction ys arbitrary: x)
  case (Cons y ys)
  from Cons [of "if f x < f y then y else x"] show ?case
    by (auto split: if_splits intro: order_trans less_imp_le)
qed simp

lemma py_max_Some: "py_max f xs = Some m \<Longrightarrow> m \<in> set xs \<and> (\<forall>x\<in>set xs. f x \<le> f m)"
  using fold_max [of f] by (cases xs) (auto simp: py_max_def)

lemma py_max_None [simp]: "py_max f xs = None \<longleftrightarrow> xs = []"
  by (simp add: py_max_def split: list.splits)

lemma latest_policy_Some:
  "latest_policy reg pid = Some p \<Longrightarrow>
     p \<in> snd ` set reg \<and> gp_policy_id p = pid \<and>
     (\<forall>q\<in>snd ` set reg. gp_policy_id q = pid \<longrightarrow> policy_version q \<le> policy_version p)"
proof -
  assume "latest_policy reg pid = Some p"
  then have m: "p \<in> set (filter (\<lambda>p. gp_policy_id p = pid) (map snd reg))"
    "\<forall>x\<in>set (filter (\<lambda>p. gp_policy_id p = pid) (map snd reg)).
       (policy_version x, policy_key x) \<le> (policy_version p, policy_key p)"
    unfolding latest_policy_def by (blast dest: py_max_Some)+
  have "policy_version q \<le> policy_version p" if "q \<in> snd ` set reg" "gp_policy_id q = pid" for q
  proof -
    have "q \<in> set (filter (\<lambda>p. gp_policy_id p = pid) (map snd reg))" using that by simp
    with m(2) have "(policy_version q, policy_key q) \<le> (policy_version p, policy_key p)" by blast
    then show ?thesis by (simp only: less_eq_prod_simp) (metis less_imp_le)
  qed
  with m(1) show ?thesis by simp
qed

lemma bare_key_not_registered: "registry_ok reg \<Longrightarrow> CHR ''@'' \<notin> set k \<Longrightarrow> \<not> dict_has k reg"
  by (auto simp: registry_ok_def dict_has_def policy_key_def)

subsection \<open>Risk, approval, rollback\<close>

lemma any_permission_mono: "set ps \<subseteq> set qs \<Longrightarrow> any_permission w ps \<Longrightarrow> any_permission w qs"
  by (auto simp: any_permission_def list_ex_iff)

lemma scope_risk_mono:
  assumes "set ps \<subseteq> set qs" "base \<le> MEDIUM" "a \<longrightarrow> b"
  shows "fst (scope_risk base a ps) \<le> fst (scope_risk base b qs)"
proof -
  have le: "base \<le> CRITICAL" "base \<le> HIGH" using assms(2) by (auto intro: order_trans [of _ MEDIUM])
  show ?thesis
    using any_permission_mono [OF assms(1)] assms(2,3) le by (auto simp: scope_risk_def)
qed

lemma approval_decision_cases:
  "fst (approval_decision_for tt target risk denied policy ra) = ALLOW \<longleftrightarrow>
     denied = [] \<and> \<not> fst (approval_required tt target risk policy ra)"
  "fst (approval_decision_for tt target risk denied policy ra) = DENY \<longleftrightarrow> denied \<noteq> []"
  "fst (approval_decision_for tt target risk denied policy ra) \<noteq> STORE_PERMISSION"
  by (auto simp: approval_decision_for_def case_prod_beta)

lemma rollback_needs_event:
  "fst (should_rollback tt target supported failed denied risk None) \<Longrightarrow> supported \<and> (failed \<or> denied)"
  by (auto simp: should_rollback_def split: if_splits)

end
