(* ===== verification/Gov_Engine.thy ===== *)
theory Gov_Engine
  imports Gov_Policy "HOL-Library.Sublist"
begin

text \<open>
  The governance engine (\<open>app/governance/engine.py\<close>) with its metrics (\<open>metrics.py\<close>) and
  the violation handler (\<open>violations.py\<close>): evaluation of a subject, enforcement for tools,
  capabilities and providers, execution records and rollback decisions, each with the audit
  entries and counters it leaves. The clock, the nonces and the printing of values that are no
  JSON are arguments.
\<close>

section \<open>State\<close>

record governance_metrics =
  gm_evaluations :: nat
  gm_allow :: nat
  gm_ask_user :: nat
  gm_deny :: nat
  gm_blocks :: nat
  gm_violations :: nat
  gm_rollbacks :: nat

definition zero_metrics :: governance_metrics where
  "zero_metrics = \<lparr>gm_evaluations = 0, gm_allow = 0, gm_ask_user = 0, gm_deny = 0, gm_blocks = 0,
     gm_violations = 0, gm_rollbacks = 0\<rparr>"

definition record_evaluation :: "string \<Rightarrow> bool \<Rightarrow> governance_metrics \<Rightarrow> governance_metrics" where
  "record_evaluation d approval m =
     (let m = m\<lparr>gm_evaluations := Suc (gm_evaluations m)\<rparr>
      in if d = decision_value ALLOW then m\<lparr>gm_allow := Suc (gm_allow m)\<rparr>
         else if d = decision_value DENY then m\<lparr>gm_deny := Suc (gm_deny m)\<rparr>
         else if d = decision_value ASK_USER then m\<lparr>gm_ask_user := Suc (gm_ask_user m)\<rparr>
         else if approval then m\<lparr>gm_ask_user := Suc (gm_ask_user m)\<rparr>
         else m)"

definition record_block :: "governance_metrics \<Rightarrow> governance_metrics" where
  "record_block m = m\<lparr>gm_blocks := Suc (gm_blocks m)\<rparr>"

definition record_violation :: "governance_metrics \<Rightarrow> governance_metrics" where
  "record_violation m = m\<lparr>gm_violations := Suc (gm_violations m)\<rparr>"

definition record_rollback :: "governance_metrics \<Rightarrow> governance_metrics" where
  "record_rollback m = m\<lparr>gm_rollbacks := Suc (gm_rollbacks m)\<rparr>"

record governance_state =
  gs_registry :: policy_registry
  gs_default :: "string option"
  gs_records :: record_store
  gs_audit :: audit_log
  gs_metrics :: governance_metrics

text \<open>What the engine reads of the world.\<close>

record governance_env =
  ge_crypto :: crypto
  ge_key :: string
  ge_show :: "pyval \<Rightarrow> string"

text \<open>
  The constructor takes a store or a log given to it by \<open>records or ExecutionRecordStore()\<close>: both have a
  length, so that one that is empty is replaced by a fresh one without a table.
\<close>

definition governance_init ::
  "policy_registry \<Rightarrow> string option \<Rightarrow> record_store \<Rightarrow> audit_log \<Rightarrow> governance_state" where
  "governance_init reg dflt recs log =
     \<lparr>gs_registry = reg, gs_default = dflt,
      gs_records = (if rs_records recs = [] then empty_record_store None else recs),
      gs_audit = (if al_entries log = [] then empty_audit_log None else log),
      gs_metrics = zero_metrics\<rparr>"

definition set_default_policy ::
  "governance_policy \<Rightarrow> governance_state \<Rightarrow> (registry_error, unit) result \<times> governance_state" where
  "set_default_policy p st =
     (case register_policy p (gs_registry st) of
        (Inl e, reg) \<Rightarrow> (Inl e, st\<lparr>gs_registry := reg\<rparr>)
      | (Inr q, reg) \<Rightarrow> (Inr (), st\<lparr>gs_registry := reg, gs_default := Some (policy_key p)\<rparr>))"

definition resolve_policy :: "string option \<Rightarrow> governance_state \<Rightarrow> governance_policy option" where
  "resolve_policy pid st =
     (case str_or pid (gs_default st) of
        None \<Rightarrow> None
      | Some k \<Rightarrow>
          if has_policy (gs_registry st) k then get_policy (gs_registry st) k
          else latest_policy (gs_registry st) k)"

section \<open>Evaluation\<close>

record governance_decision =
  gd_target_type :: target_type
  gd_target :: string
  gd_decision :: approval_decision
  gd_risk :: action_risk
  gd_granted :: "tool_permission list"
  gd_required :: "tool_permission list"
  gd_approval_required :: bool
  gd_policy_id :: "string option"
  gd_policy_hits :: "string list"
  gd_reasons :: "string list"
  gd_permit_id :: "string option"
  gd_operation_digest :: "string option"
  gd_authorization_source :: "string option"

definition gd_allowed :: "governance_decision \<Rightarrow> bool" where
  "gd_allowed d = (gd_decision d = ALLOW)"

definition subject_text :: "target_type \<Rightarrow> string \<Rightarrow> string" where
  "subject_text tt target = target_value tt @ '':'' @ target"

text \<open>The permit given with a subject is usable: sealed, current, allowing, of that subject.\<close>

definition governance_permit_valid ::
  "governance_env \<Rightarrow> pydatetime \<Rightarrow> string option \<Rightarrow> execution_permit \<Rightarrow> bool" where
  "governance_permit_valid G now subject p =
     (verify_integrity (ge_crypto G) (ge_key G) p \<and> \<not> is_expired now p \<and> ep_decision p = ALLOW \<and>
      (subject = None \<or> subject = Some (ep_subject_id p)))"

definition apply_permit ::
  "governance_env \<Rightarrow> pydatetime \<Rightarrow> string option \<Rightarrow> execution_permit option \<Rightarrow>
   approval_decision \<times> string list \<Rightarrow> approval_decision \<times> string list" where
  "apply_permit G now subject permit dr =
     (case permit of
        None \<Rightarrow> dr
      | Some p \<Rightarrow>
          if \<not> governance_permit_valid G now subject p then (DENY, snd dr @ [''invalid CAP ExecutionPermit''])
          else if fst dr = ASK_USER
          then (ALLOW, snd dr @ [''human approval satisfied by exact CAP ExecutionPermit''])
          else dr)"

text \<open>The permissions a subject is granted, and those it asks for without having them.\<close>

definition granted_permissions ::
  "permission_rule option \<Rightarrow> bool \<Rightarrow> tool_permission list \<Rightarrow> tool_permission list" where
  "granted_permissions rule from_declared declared =
     (case rule of Some r \<Rightarrow> if \<not> from_declared then dedupe (pr_permissions r) else dedupe declared
      | None \<Rightarrow> dedupe declared)"

definition combined_permissions :: "tool_permission list \<Rightarrow> tool_permission list \<Rightarrow> tool_permission list" where
  "combined_permissions declared requested = dedupe (dedupe declared @ dedupe requested)"

definition denied_permissions :: "tool_permission list \<Rightarrow> tool_permission list \<Rightarrow> tool_permission list" where
  "denied_permissions combined granted = filter (\<lambda>p. p \<notin> set granted) combined"

definition decide_subject ::
  "governance_env \<Rightarrow> pydatetime \<Rightarrow> governance_state \<Rightarrow> target_type \<Rightarrow> string \<Rightarrow> tool_permission list \<Rightarrow>
   tool_permission list \<Rightarrow> string option \<Rightarrow> string option \<Rightarrow> bool \<Rightarrow> execution_permit option \<Rightarrow>
   governance_decision" where
  "decide_subject G now st tt target declared requested pid subject from_declared permit =
     (let policy = resolve_policy pid st;
          rule = (case policy of None \<Rightarrow> None | Some p \<Rightarrow> rule_for p tt target);
          granted = granted_permissions rule from_declared declared;
          combined = combined_permissions declared requested;
          denied = denied_permissions combined granted;
          (risk, risk_reasons) = classify_risk tt target combined
            (case rule of None \<Rightarrow> False | Some r \<Rightarrow> pr_approval r) policy;
          (d0, approval_reasons) = approval_decision_for tt target risk denied policy (map_option pr_approval rule);
          (d, hits) = apply_permit G now subject permit (d0, risk_reasons @ approval_reasons)
      in \<lparr>gd_target_type = tt, gd_target = target, gd_decision = d, gd_risk = risk,
          gd_granted = granted,
          gd_required = (case rule of None \<Rightarrow> [] | Some r \<Rightarrow> dedupe (pr_permissions r)),
          gd_approval_required = (d = ASK_USER),
          gd_policy_id = map_option policy_key policy,
          gd_policy_hits = hits, gd_reasons = hits,
          gd_permit_id = map_option ep_permit_id permit,
          gd_operation_digest = map_option ep_operation_digest permit,
          gd_authorization_source = map_option ep_approval_source permit\<rparr>)"

text \<open>The details of the audit entry of an evaluation.\<close>

definition evaluation_details ::
  "governance_decision \<Rightarrow> tool_permission list \<Rightarrow> (string, pyval) dict" where
  "evaluation_details d denied =
     [(''risk'', PStr (risk_value (gd_risk d))),
      (''granted_permissions'', PList (map (\<lambda>p. PStr (permission_value p)) (gd_granted d))),
      (''denied_permissions'', PList (map (\<lambda>p. PStr (permission_value p)) denied)),
      (''policy_id'', opt_py (gd_policy_id d)),
      (''reasons'', PList (map PStr (gd_policy_hits d))),
      (''permit_id'', opt_py (gd_permit_id d)),
      (''operation_digest'', opt_py (gd_operation_digest d)),
      (''authorization_source'', opt_py (gd_authorization_source d))]"

text \<open>The engine's own details are texts and lists of texts, which the table takes: only \<open>blocked\<close> can raise.\<close>

definition audit_state ::
  "governance_env \<Rightarrow> string \<Rightarrow> string \<Rightarrow> string \<Rightarrow> string \<Rightarrow> string \<Rightarrow> (string, pyval) dict \<Rightarrow>
   governance_state \<Rightarrow> governance_state" where
  "audit_state G stamp category act subject outcome details st =
     st\<lparr>gs_audit := snd (audit_record (ge_show G) (sha256 (ge_crypto G)) stamp category act subject outcome
          details (gs_audit st))\<rparr>"

definition gov_evaluate ::
  "governance_env \<Rightarrow> pydatetime \<Rightarrow> string \<Rightarrow> target_type \<Rightarrow> string \<Rightarrow> tool_permission list \<Rightarrow>
   tool_permission list \<Rightarrow> string option \<Rightarrow> string option \<Rightarrow> bool \<Rightarrow> execution_permit option \<Rightarrow>
   governance_state \<Rightarrow> governance_decision \<times> governance_state" where
  "gov_evaluate G now stamp tt target declared requested pid subject from_declared permit st =
     (let d = decide_subject G now st tt target declared requested pid subject from_declared permit;
          denied = denied_permissions (combined_permissions declared requested) (gd_granted d);
          st1 = audit_state G stamp ''governance'' (subject_text tt target)
                  (case subject of Some s \<Rightarrow> if s = [] then target else s | None \<Rightarrow> target)
                  (decision_value (gd_decision d)) (evaluation_details d denied) st
      in (d, st1\<lparr>gs_metrics := record_evaluation (decision_value (gd_decision d))
               (gd_decision d = ASK_USER) (gs_metrics st1)\<rparr>))"

section \<open>Enforcement\<close>

record policy_violation =
  pv_code :: string
  pv_message :: string
  pv_target_type :: target_type
  pv_target :: string
  pv_decision :: "governance_decision option"
  pv_details :: "(string, pyval) dict"

definition denial_message :: "governance_decision \<Rightarrow> string" where
  "denial_message d =
     ''Governance '' @ decision_value (gd_decision d) @ '' for '' @ target_value (gd_target_type d) @ '' '' @
     [CHR 0x27] @ gd_target d @ [CHR 0x27] @ '': '' @
     (if gd_reasons d \<noteq> [] then py_join ''; '' (gd_reasons d) else decision_value (gd_decision d))"

definition violation_of :: "string \<Rightarrow> string \<Rightarrow> governance_decision \<Rightarrow> policy_violation" where
  "violation_of code message d =
     \<lparr>pv_code = code, pv_message = message, pv_target_type = gd_target_type d, pv_target = gd_target d,
      pv_decision = Some d, pv_details = []\<rparr>"

definition block_state :: "governance_state \<Rightarrow> governance_state" where
  "block_state st = st\<lparr>gs_metrics := record_block (gs_metrics st)\<rparr>"

text \<open>A raised \<open>PolicyViolationError\<close> is \<open>Inl\<close> of its violation.\<close>

definition enforce_allowed ::
  "string \<Rightarrow> governance_decision \<times> governance_state \<Rightarrow>
   (policy_violation, governance_decision) result \<times> governance_state" where
  "enforce_allowed code ds =
     (if \<not> gd_allowed (fst ds)
      then (Inl (violation_of code (denial_message (fst ds)) (fst ds)), block_state (snd ds))
      else (Inr (fst ds), snd ds))"

definition enforce_tool ::
  "governance_env \<Rightarrow> pydatetime \<Rightarrow> string \<Rightarrow> string \<Rightarrow> tool_permission list \<Rightarrow> tool_permission list \<Rightarrow>
   string option \<Rightarrow> string option \<Rightarrow> execution_permit option \<Rightarrow> governance_state \<Rightarrow>
   (policy_violation, governance_decision) result \<times> governance_state" where
  "enforce_tool G now stamp tool declared requested pid subject permit st =
     enforce_allowed ''permission_denied''
       (gov_evaluate G now stamp TARGET_TOOL tool declared requested pid subject False permit st)"

definition covers :: "tool_permission list \<Rightarrow> tool_permission list \<Rightarrow> bool" where
  "covers granted required = list_all (\<lambda>p. p \<in> set granted) required"

definition enforce_capability ::
  "governance_env \<Rightarrow> pydatetime \<Rightarrow> string \<Rightarrow> string \<Rightarrow> string \<Rightarrow> tool_permission list \<Rightarrow>
   string option \<Rightarrow> string option \<Rightarrow> execution_permit option \<Rightarrow> governance_state \<Rightarrow>
   (policy_violation, governance_decision) result \<times> governance_state" where
  "enforce_capability G now stamp capability tool declared pid subject permit st =
     (let (d, st1) = gov_evaluate G now stamp TARGET_CAPABILITY capability declared [] pid subject True permit st
      in if gd_required d \<noteq> [] \<and> \<not> covers (gd_granted d) (gd_required d)
         then (Inl (violation_of ''capability_permissions_missing''
                 (''Capability '' @ [CHR 0x27] @ capability @ [CHR 0x27] @ '' (tool '' @ [CHR 0x27] @ tool @
                  [CHR 0x27] @ '') requires permission(s): '' @
                  py_join '', '' (map permission_value (filter (\<lambda>p. p \<notin> set (gd_granted d)) (gd_required d)))) d),
               block_state st1)
         else enforce_allowed ''permission_denied'' (d, st1))"

definition enforce_provider ::
  "governance_env \<Rightarrow> pydatetime \<Rightarrow> string \<Rightarrow> string \<Rightarrow> tool_permission list \<Rightarrow>
   string option \<Rightarrow> string option \<Rightarrow> execution_permit option \<Rightarrow> governance_state \<Rightarrow>
   (policy_violation, governance_decision) result \<times> governance_state" where
  "enforce_provider G now stamp provider requested pid subject permit st =
     enforce_allowed ''provider_blocked''
       (gov_evaluate G now stamp TARGET_PROVIDER provider [] requested pid subject False permit st)"

section \<open>Recording\<close>

definition record_execution ::
  "governance_env \<Rightarrow> string \<Rightarrow> string \<Rightarrow> string \<Rightarrow> governance_decision \<Rightarrow> string \<Rightarrow> string \<Rightarrow> decision_status \<Rightarrow>
   string option \<Rightarrow> string option \<Rightarrow> governance_state \<Rightarrow>
   (record_error, execution_record) result \<times> governance_state" where
  "record_execution G stamp audit_stamp nonce d request task status error subject st =
     (let H = sha256 (ge_crypto G);
          r = build_execution_record H stamp nonce request task (gd_target_type d) (gd_target d)
                (decision_value (gd_decision d)) (risk_value (gd_risk d)) status
                (map permission_value (gd_granted d)) error (gd_permit_id d) (gd_operation_digest d)
                (gd_authorization_source d)
      in case append_record H r (gs_records st) of
           (Inl e, recs) \<Rightarrow> (Inl e, st\<lparr>gs_records := recs\<rparr>)
         | (Inr sealed, recs) \<Rightarrow>
             (Inr sealed,
              audit_state G audit_stamp ''execution'' (subject_text (gd_target_type d) (gd_target d))
                (case subject of Some s \<Rightarrow> if s = [] then gd_target d else s | None \<Rightarrow> gd_target d)
                (status_value status)
                [(''record_id'', PStr (er_record_id sealed)),
                 (''decision'', PStr (decision_value (gd_decision d))),
                 (''risk'', PStr (risk_value (gd_risk d))),
                 (''error'', opt_py error),
                 (''permit_id'', opt_py (gd_permit_id d)),
                 (''operation_digest'', opt_py (gd_operation_digest d)),
                 (''authorization_source'', opt_py (gd_authorization_source d))]
                (st\<lparr>gs_records := recs\<rparr>)))"

definition gov_violation ::
  "governance_env \<Rightarrow> string \<Rightarrow> string \<Rightarrow> string \<Rightarrow> governance_decision \<Rightarrow> governance_state \<Rightarrow>
   policy_violation \<times> governance_state" where
  "gov_violation G stamp code message d st =
     (violation_of code message d,
      audit_state G stamp ''violation'' (subject_text (gd_target_type d) (gd_target d)) (gd_target d) ''blocked''
        [(''code'', PStr code), (''message'', PStr message)]
        (st\<lparr>gs_metrics := record_violation (gs_metrics st)\<rparr>))"

definition gov_should_rollback ::
  "target_type \<Rightarrow> string \<Rightarrow> bool \<Rightarrow> bool \<Rightarrow> bool \<Rightarrow> action_risk option \<Rightarrow> string option \<Rightarrow> governance_state \<Rightarrow>
   (bool \<times> string list) \<times> governance_state" where
  "gov_should_rollback tt target supported failed denied risk pid st =
     (let (decided, reasons) = should_rollback tt target supported failed denied risk (resolve_policy pid st)
      in ((decided, reasons), if decided then st\<lparr>gs_metrics := record_rollback (gs_metrics st)\<rparr> else st))"

text \<open>\<open>decision.model_dump()\<close>.\<close>

definition decision_dump :: "governance_decision \<Rightarrow> pyval" where
  "decision_dump d = PDict
     [(''target_type'', PEnum (target_value (gd_target_type d))),
      (''target'', PStr (gd_target d)),
      (''decision'', PEnum (decision_value (gd_decision d))),
      (''risk'', PEnum (risk_value (gd_risk d))),
      (''granted_permissions'', PTuple (map (\<lambda>p. PEnum (permission_value p)) (gd_granted d))),
      (''required_permissions'', PTuple (map (\<lambda>p. PEnum (permission_value p)) (gd_required d))),
      (''approval_required'', PBool (gd_approval_required d)),
      (''policy_id'', opt_py (gd_policy_id d)),
      (''policy_hits'', PList (map PStr (gd_policy_hits d))),
      (''reasons'', PList (map PStr (gd_reasons d))),
      (''permit_id'', opt_py (gd_permit_id d)),
      (''operation_digest'', opt_py (gd_operation_digest d)),
      (''authorization_source'', opt_py (gd_authorization_source d))]"

definition blocked_details :: "policy_violation \<Rightarrow> (string, pyval) dict" where
  "blocked_details v =
     [(''code'', PStr (pv_code v)), (''message'', PStr (pv_message v)),
      (''decision'', (case pv_decision v of None \<Rightarrow> PNone | Some d \<Rightarrow> decision_dump d)),
      (''extra'', PDict (pv_details v))]"

definition blocked_payload ::
  "governance_env \<Rightarrow> string \<Rightarrow> policy_violation \<Rightarrow> governance_state \<Rightarrow>
   (audit_error, (string, pyval) dict) result \<times> governance_state" where
  "blocked_payload G stamp v st =
     (let (noted, log) = audit_record (ge_show G) (sha256 (ge_crypto G)) stamp ''violation''
            (subject_text (pv_target_type v) (pv_target v)) (pv_target v) ''blocked'' (blocked_details v) (gs_audit st)
      in (case noted of
            Inl e \<Rightarrow> Inl e
          | Inr _ \<Rightarrow>
              Inr [(''governance_blocked'', PBool True), (''governance_violation'', PStr (pv_code v)),
                (''governance_reason'', PStr (pv_message v)),
                (''target_type'', PStr (target_value (pv_target_type v))), (''target'', PStr (pv_target v)),
                (''extra'', PDict (pv_details v))],
          st\<lparr>gs_audit := log\<rparr>))"

section \<open>Lemmas\<close>

subsection \<open>The decision\<close>

text \<open>Whether the rules of the active policy ask for a human.\<close>

definition asks_human ::
  "governance_state \<Rightarrow> target_type \<Rightarrow> string \<Rightarrow> tool_permission list \<Rightarrow> tool_permission list \<Rightarrow> string option \<Rightarrow> bool" where
  "asks_human st tt target declared requested pid \<longleftrightarrow>
     (let policy = resolve_policy pid st;
          rule = (case policy of None \<Rightarrow> None | Some p \<Rightarrow> rule_for p tt target);
          risk = fst (classify_risk tt target (combined_permissions declared requested)
            (case rule of None \<Rightarrow> False | Some r \<Rightarrow> pr_approval r) policy)
      in fst (approval_required tt target risk policy (map_option pr_approval rule)))"

lemma set_combined [simp]: "set (combined_permissions d r) = set d \<union> set r"
  by (simp add: combined_permissions_def)

lemma denied_Nil: "denied_permissions c g = [] \<longleftrightarrow> set c \<subseteq> set g"
  by (auto simp: denied_permissions_def filter_empty_conv)

lemma apply_permit_fst:
  "fst (apply_permit G now subject permit dr) =
     (case permit of None \<Rightarrow> fst dr
      | Some p \<Rightarrow> if \<not> governance_permit_valid G now subject p then DENY
                   else if fst dr = ASK_USER then ALLOW else fst dr)"
  by (simp add: apply_permit_def split: option.splits)

lemma decide_subject_decision:
  fixes G now st tt target declared requested pid subject fd permit
  defines "d \<equiv> decide_subject G now st tt target declared requested pid subject fd permit"
  shows "gd_decision d = (case permit of
       Some p \<Rightarrow> if \<not> governance_permit_valid G now subject p \<or> \<not> set declared \<union> set requested \<subseteq> set (gd_granted d)
                 then DENY else ALLOW
     | None \<Rightarrow> if \<not> set declared \<union> set requested \<subseteq> set (gd_granted d) then DENY
               else if asks_human st tt target declared requested pid then ASK_USER else ALLOW)"
proof -
  define policy where "policy = resolve_policy pid st"
  define rule where "rule = (case policy of None \<Rightarrow> None | Some p \<Rightarrow> rule_for p tt target)"
  define denied where "denied = denied_permissions (combined_permissions declared requested) (gd_granted d)"
  define risk where "risk = fst (classify_risk tt target (combined_permissions declared requested)
            (case rule of None \<Rightarrow> False | Some r \<Rightarrow> pr_approval r) policy)"
  have g: "gd_granted d = granted_permissions rule fd declared"
    by (simp add: d_def decide_subject_def Let_def case_prod_beta rule_def policy_def)
  have d: "gd_decision d = (case permit of
       None \<Rightarrow> fst (approval_decision_for tt target risk denied policy (map_option pr_approval rule))
     | Some p \<Rightarrow> if \<not> governance_permit_valid G now subject p then DENY
         else if fst (approval_decision_for tt target risk denied policy (map_option pr_approval rule)) = ASK_USER
         then ALLOW else fst (approval_decision_for tt target risk denied policy (map_option pr_approval rule)))"
    unfolding denied_def g
    by (simp only: d_def decide_subject_def Let_def case_prod_beta governance_decision.simps
        policy_def [symmetric] rule_def [symmetric] risk_def [symmetric] apply_permit_fst fst_conv)
  have asks: "asks_human st tt target declared requested pid =
      fst (approval_required tt target risk policy (map_option pr_approval rule))"
    by (simp add: asks_human_def Let_def policy_def rule_def risk_def)
  have dn: "denied = [] \<longleftrightarrow> set declared \<union> set requested \<subseteq> set (gd_granted d)"
    by (simp add: denied_def denied_Nil)
  show ?thesis
    unfolding d asks dn [symmetric]
    by (simp add: approval_decision_for_def case_prod_beta split: option.split)
qed

lemma decide_subject_fields:
  "gd_target_type (decide_subject G now st tt target dcl req pid subject fd permit) = tt"
  "gd_target (decide_subject G now st tt target dcl req pid subject fd permit) = target"
  "gd_permit_id (decide_subject G now st tt target dcl req pid subject fd permit) = map_option ep_permit_id permit"
  "gd_granted (decide_subject G now st tt target dcl req pid subject fd permit) =
     granted_permissions (case resolve_policy pid st of None \<Rightarrow> None | Some p \<Rightarrow> rule_for p tt target) fd dcl"
  "gd_required (decide_subject G now st tt target dcl req pid subject fd permit) =
     (case (case resolve_policy pid st of None \<Rightarrow> None | Some p \<Rightarrow> rule_for p tt target) of
        None \<Rightarrow> [] | Some r \<Rightarrow> dedupe (pr_permissions r))"
  by (simp_all add: decide_subject_def Let_def case_prod_beta)

lemma gov_evaluate_fst:
  "fst (gov_evaluate G now stamp tt target dcl req pid subject fd permit st) =
     decide_subject G now st tt target dcl req pid subject fd permit"
  by (simp add: gov_evaluate_def Let_def)

lemma enforce_allowed_Inr: "fst (enforce_allowed code ds) = Inr d \<longleftrightarrow> d = fst ds \<and> gd_decision d = ALLOW"
  by (auto simp: enforce_allowed_def gd_allowed_def)

lemma covers_iff [simp]: "covers g r \<longleftrightarrow> set r \<subseteq> set g"
  by (auto simp: covers_def list_all_iff)

lemma if_raised_Inr: "fst (if c then (Inl x, s) else r) = Inr d \<longleftrightarrow> \<not> c \<and> fst r = Inr d"
  by simp

lemma enforce_capability_Inr:
  "fst (enforce_capability G now stamp cap tool dcl pid subject permit st) = Inr d \<longleftrightarrow>
     d = decide_subject G now st TARGET_CAPABILITY cap dcl [] pid subject True permit \<and>
     gd_decision d = ALLOW \<and> set (gd_required d) \<subseteq> set dcl"
proof -
  let ?d = "decide_subject G now st TARGET_CAPABILITY cap dcl [] pid subject True permit"
  have g: "set (gd_granted ?d) = set dcl"
    by (simp add: decide_subject_fields granted_permissions_def split: option.splits)
  obtain st1 where e: "gov_evaluate G now stamp TARGET_CAPABILITY cap dcl [] pid subject True permit st = (?d, st1)"
    by (metis gov_evaluate_fst prod.collapse)
  have r: "fst (enforce_capability G now stamp cap tool dcl pid subject permit st) = Inr d \<longleftrightarrow>
      \<not> (gd_required ?d \<noteq> [] \<and> \<not> covers (gd_granted ?d) (gd_required ?d)) \<and>
      fst (enforce_allowed ''permission_denied'' (?d, st1)) = Inr d"
    unfolding enforce_capability_def e Let_def prod.case by (rule if_raised_Inr)
  show ?thesis
    unfolding r enforce_allowed_Inr covers_iff g fst_conv by auto
qed

subsection \<open>Every operation keeps the logs verifiable and the counters consistent\<close>

definition metrics_ok :: "governance_metrics \<Rightarrow> bool" where
  "metrics_ok m \<longleftrightarrow> gm_evaluations m = gm_allow m + gm_ask_user m + gm_deny m"

definition governance_ok :: "governance_env \<Rightarrow> governance_state \<Rightarrow> bool" where
  "governance_ok G st \<longleftrightarrow>
     registry_ok (gs_registry st) \<and> record_store_ok (sha256 (ge_crypto G)) (gs_records st) \<and>
     audit_log_ok (ge_show G) (sha256 (ge_crypto G)) (gs_audit st) \<and> metrics_ok (gs_metrics st)"

text \<open>The operations of the engine, each with the arguments it is called with.\<close>

inductive governance_step :: "governance_env \<Rightarrow> governance_state \<Rightarrow> governance_state \<Rightarrow> bool" for G where
  policy: "governance_step G st (snd (set_default_policy p st))"
| eval: "governance_step G st (snd (gov_evaluate G now stamp tt target dcl req pid subject fd permit st))"
| tool: "governance_step G st (snd (enforce_tool G now stamp tool_id dcl req pid subject permit st))"
| capability: "governance_step G st (snd (enforce_capability G now stamp cap tool_id dcl pid subject permit st))"
| provider: "governance_step G st (snd (enforce_provider G now stamp prov req pid subject permit st))"
| recording: "governance_step G st (snd (record_execution G stamp stamp' nonce d rid task status err subject st))"
| violating: "governance_step G st (snd (gov_violation G stamp code message d st))"
| rolling: "governance_step G st (snd (gov_should_rollback tt target supported failed denied risk pid st))"
| blocking: "governance_step G st (snd (blocked_payload G stamp v st))"

lemma metrics_ok_evaluation:
  "d \<noteq> STORE_PERMISSION \<Longrightarrow> metrics_ok m \<Longrightarrow> metrics_ok (record_evaluation (decision_value d) (d = ASK_USER) m)"
  by (cases d) (simp_all add: metrics_ok_def record_evaluation_def Let_def)

lemma metrics_ok_others [simp]:
  "metrics_ok (record_block m) = metrics_ok m" "metrics_ok (record_violation m) = metrics_ok m"
  "metrics_ok (record_rollback m) = metrics_ok m" "metrics_ok zero_metrics"
  by (simp_all add: metrics_ok_def record_block_def record_violation_def record_rollback_def zero_metrics_def)

lemma audit_state_ok:
  "governance_ok G (audit_state G stamp c a s r d st) \<longleftrightarrow>
     governance_ok G st"
  if "audit_log_ok (ge_show G) (sha256 (ge_crypto G)) (gs_audit st)"
  using that by (simp add: governance_ok_def audit_state_def audit_record_ok)

lemma decision_not_store:
  "gd_decision (decide_subject G now st tt target dcl req pid subject fd permit) \<noteq> STORE_PERMISSION"
  by (simp add: decide_subject_decision split: option.splits)

lemma gov_evaluate_ok:
  "governance_ok G st \<Longrightarrow>
     governance_ok G (snd (gov_evaluate G now stamp tt target dcl req pid subject fd permit st))"
  using metrics_ok_evaluation [OF decision_not_store]
  by (simp add: gov_evaluate_def Let_def governance_ok_def audit_state_def audit_record_ok)

lemma block_state_ok [simp]: "governance_ok G (block_state st) = governance_ok G st"
  by (simp add: governance_ok_def block_state_def)

lemma enforce_allowed_state: "snd (enforce_allowed code ds) = (if gd_allowed (fst ds) then snd ds else block_state (snd ds))"
  by (simp add: enforce_allowed_def)

lemma record_execution_ok:
  assumes "governance_ok G st"
  shows "governance_ok G (snd (record_execution G stamp stamp' nonce d rid task status err subject st))"
proof -
  let ?H = "sha256 (ge_crypto G)"
  define r where "r = build_execution_record ?H stamp nonce rid task (gd_target_type d) (gd_target d)
                (decision_value (gd_decision d)) (risk_value (gd_risk d)) status
                (map permission_value (gd_granted d)) err (gd_permit_id d) (gd_operation_digest d)
                (gd_authorization_source d)"
  obtain res recs where a: "append_record ?H r (gs_records st) = (res, recs)" by fastforce
  have "record_store_ok ?H (gs_records st)" using assms by (simp add: governance_ok_def)
  from append_record_ok [OF this, of r] have recs: "record_store_ok ?H recs" by (simp add: a)
  show ?thesis
    unfolding record_execution_def Let_def r_def [symmetric] a
    using assms recs by (cases res) (simp_all add: governance_ok_def audit_state_def audit_record_ok)
qed

lemma blocked_state:
  "snd (blocked_payload G stamp v st) =
     st\<lparr>gs_audit := snd (audit_record (ge_show G) (sha256 (ge_crypto G)) stamp ''violation''
            (subject_text (pv_target_type v) (pv_target v)) (pv_target v) ''blocked'' (blocked_details v) (gs_audit st))\<rparr>"
  by (simp add: blocked_payload_def case_prod_beta Let_def)

text \<open>What the engine notes itself is always stored; so is a blocked call whose details are.\<close>

lemma opt_py_serialisable [simp]: "serialisable (opt_py t)" "model_dumped (opt_py t) = opt_py t"
  by (cases t; simp add: opt_py_def)+

lemma evaluation_stored: "serialisable (model_dumped (PDict (evaluation_details d denied)))"
  by (simp add: evaluation_details_def list_all_iff)

lemma decision_dump_stored: "serialisable (decision_dump d)"
  by (simp add: decision_dump_def list_all_iff)

lemma governance_step_ok: "governance_step G st st' \<Longrightarrow> governance_ok G st \<Longrightarrow> governance_ok G st'"
proof (induction rule: governance_step.induct)
  case (policy st p)
  then show ?case using registry_ok_register [of "gs_registry st" p]
    by (auto simp: set_default_policy_def governance_ok_def split: prod.splits sum.splits)
next
  case (capability st now stamp cap tool_id dcl pid subject permit)
  then show ?case
    using gov_evaluate_ok by (auto simp: enforce_capability_def Let_def case_prod_beta enforce_allowed_state)
next
  case (rolling st tt target supported failed denied risk pid)
  then show ?case by (simp add: gov_should_rollback_def case_prod_beta Let_def governance_ok_def)
next
  case (violating st stamp code message d)
  then show ?case by (simp add: gov_violation_def governance_ok_def audit_state_def audit_record_ok)
next
  case (blocking st stamp v)
  then show ?case by (simp add: blocked_state governance_ok_def audit_record_ok)
qed (simp_all add: gov_evaluate_ok enforce_tool_def enforce_provider_def enforce_allowed_state record_execution_ok)

text \<open>An engine over stores without entries, with or without tables behind them.\<close>

definition fresh_engine :: "bool \<Rightarrow> string option \<Rightarrow> governance_state" where
  "fresh_engine durable dflt =
     (let t = (if durable then Some [] else None)
      in governance_init [] dflt (empty_record_store t) (empty_audit_log t))"

lemma governance_init_ok: "governance_ok G (fresh_engine durable dflt)"
  by (simp add: fresh_engine_def governance_ok_def governance_init_def registry_ok_def empty_store_ok empty_log_ok
      empty_record_store_def [of "Some []"] empty_audit_log_def [of "Some []"] Let_def)

text \<open>An engine over stores that were filled before.\<close>

lemma governance_init_stores_ok:
  "record_store_ok (sha256 (ge_crypto G)) recs \<Longrightarrow> audit_log_ok (ge_show G) (sha256 (ge_crypto G)) log \<Longrightarrow>
     governance_ok G (governance_init [] dflt recs log)"
  by (simp add: governance_ok_def governance_init_def registry_ok_def empty_store_ok empty_log_ok)

lemma governance_steps_ok: "(governance_step G)\<^sup>*\<^sup>* st st' \<Longrightarrow> governance_ok G st \<Longrightarrow> governance_ok G st'"
  by (induction rule: rtranclp_induct) (auto intro: governance_step_ok)

lemma governance_reachable_ok:
  "(governance_step G)\<^sup>*\<^sup>* (fresh_engine durable dflt) st \<Longrightarrow> governance_ok G st"
  by (erule governance_steps_ok) (rule governance_init_ok)

text \<open>No operation gives a log a table, or takes it away.\<close>

lemma append_record_table: "rs_backing (snd (append_record H r st)) = None \<longleftrightarrow> rs_backing st = None"
  by (cases "rs_backing st") (auto simp: append_record_def Let_def)

lemma audit_record_table: "al_backing (snd (audit_record sh H now c a s r d log)) = None \<longleftrightarrow> al_backing log = None"
  by (simp only: audit_record_parts map_option_is_None)

lemma gov_evaluate_table:
  "al_backing (gs_audit (snd (gov_evaluate G now stamp tt target dcl req pid subject fd permit st))) = None \<longleftrightarrow>
     al_backing (gs_audit st) = None"
  "gs_records (snd (gov_evaluate G now stamp tt target dcl req pid subject fd permit st)) = gs_records st"
  by (simp_all add: gov_evaluate_def Let_def audit_state_def audit_record_table)

lemma enforce_allowed_table:
  "gs_audit (snd (enforce_allowed code ds)) = gs_audit (snd ds)" "gs_records (snd (enforce_allowed code ds)) = gs_records (snd ds)"
  by (simp_all add: enforce_allowed_def block_state_def)

lemma governance_step_tables:
  "governance_step G st st' \<Longrightarrow>
     (rs_backing (gs_records st') = None \<longleftrightarrow> rs_backing (gs_records st) = None) \<and>
     (al_backing (gs_audit st') = None \<longleftrightarrow> al_backing (gs_audit st) = None)"
proof (induction rule: governance_step.induct)
  case (policy st p)
  then show ?case by (simp add: set_default_policy_def split: prod.splits sum.splits)
next
  case (capability st now stamp cap tool_id dcl pid subject permit)
  then show ?case
    by (simp add: enforce_capability_def Let_def case_prod_beta enforce_allowed_table gov_evaluate_table block_state_def)
next
  case (recording st stamp stamp' nonce d rid task status err subject)
  let ?a = "append_record (sha256 (ge_crypto G)) (build_execution_record (sha256 (ge_crypto G)) stamp nonce rid task
      (gd_target_type d) (gd_target d) (decision_value (gd_decision d)) (risk_value (gd_risk d)) status
      (map permission_value (gd_granted d)) err (gd_permit_id d) (gd_operation_digest d) (gd_authorization_source d))
      (gs_records st)"
  obtain res recs where a: "?a = (res, recs)" by fastforce
  then have "rs_backing recs = None \<longleftrightarrow> rs_backing (gs_records st) = None"
    using append_record_table by (metis snd_conv)
  with a show ?case
    by (cases res) (simp_all add: record_execution_def Let_def audit_state_def audit_record_table)
next
  case (rolling st tt target supported failed denied risk pid)
  then show ?case by (simp add: gov_should_rollback_def case_prod_beta Let_def)
qed (simp_all add: gov_evaluate_table enforce_tool_def enforce_provider_def enforce_allowed_table gov_violation_def
      audit_state_def audit_record_table blocked_state)

text \<open>No operation removes or changes an entry of a log.\<close>

definition extends_logs :: "governance_state \<Rightarrow> governance_state \<Rightarrow> bool" where
  "extends_logs st st' \<longleftrightarrow>
     prefix (rs_records (gs_records st)) (rs_records (gs_records st')) \<and>
     prefix (al_entries (gs_audit st)) (al_entries (gs_audit st'))"

lemma extends_logs_refl [simp]: "extends_logs st st"
  by (simp add: extends_logs_def)

lemma extends_logs_trans: "extends_logs st st' \<Longrightarrow> extends_logs st' st'' \<Longrightarrow> extends_logs st st''"
  by (auto simp: extends_logs_def intro: prefix_order.trans)

lemma extends_logs_audit:
  "extends_logs st (audit_state G stamp c a s r d st)"
  "extends_logs st (st'\<lparr>gs_metrics := m\<rparr>) = extends_logs st st'"
  "extends_logs st (block_state st') = extends_logs st st'"
  by (simp_all add: extends_logs_def audit_state_def audit_record_parts(1) block_state_def)

lemma extends_logs_append:
  "prefix (rs_records st) (rs_records (snd (append_record H r st)))"
  by (cases "rs_backing st") (auto simp: append_record_def Let_def)

lemma gov_evaluate_extends:
  "extends_logs st (snd (gov_evaluate G now stamp tt target dcl req pid subject fd permit st))"
  by (simp add: gov_evaluate_def Let_def extends_logs_audit)

lemma record_execution_extends:
  "extends_logs st (snd (record_execution G stamp stamp' nonce d rid task status err subject st))"
proof -
  let ?H = "sha256 (ge_crypto G)"
  define r where "r = build_execution_record ?H stamp nonce rid task (gd_target_type d) (gd_target d)
                (decision_value (gd_decision d)) (risk_value (gd_risk d)) status
                (map permission_value (gd_granted d)) err (gd_permit_id d) (gd_operation_digest d)
                (gd_authorization_source d)"
  obtain res recs where a: "append_record ?H r (gs_records st) = (res, recs)" by fastforce
  then have "prefix (rs_records (gs_records st)) (rs_records recs)"
    using extends_logs_append [of "gs_records st" ?H r] by simp
  then have e: "extends_logs st (st\<lparr>gs_records := recs\<rparr>)" by (simp add: extends_logs_def)
  show ?thesis
    unfolding record_execution_def Let_def r_def [symmetric] a
    using e extends_logs_trans [OF e extends_logs_audit(1)] by (cases res) simp_all
qed

lemma governance_step_extends: "governance_step G st st' \<Longrightarrow> extends_logs st st'"
proof (induction rule: governance_step.induct)
  case (policy st p)
  then show ?case
    by (simp add: set_default_policy_def extends_logs_def split: prod.splits sum.splits)
next
  case (capability st now stamp cap tool_id dcl pid subject permit)
  then show ?case
    using gov_evaluate_extends
    by (simp add: enforce_capability_def Let_def case_prod_beta enforce_allowed_state extends_logs_audit)
next
  case (rolling st tt target supported failed denied risk pid)
  then show ?case by (simp add: gov_should_rollback_def case_prod_beta Let_def extends_logs_audit)
next
  case (violating st stamp code message d)
  then show ?case
    by (simp add: gov_violation_def extends_logs_def audit_state_def audit_record_parts(1))
next
  case (blocking st stamp v)
  show ?case by (simp add: blocked_state extends_logs_def audit_record_parts(1))
qed (simp_all add: gov_evaluate_extends enforce_tool_def enforce_provider_def enforce_allowed_state
      record_execution_extends extends_logs_audit)

text \<open>A bare policy id never resolves: \<open>has\<close> answers for the latest version, \<open>get\<close> does not.\<close>

lemma bare_policy_unresolved:
  assumes "registry_ok (gs_registry st)" "CHR ''@'' \<notin> set k" "k \<noteq> []"
  shows "resolve_policy (Some k) st = None"
  using bare_key_not_registered [OF assms(1,2)] assms(2,3)
  by (auto simp: resolve_policy_def str_or_def has_policy_def get_policy_def dict_has_iff)

end
