(* ===== verification/Plugin_Dependencies.thy ===== *)
theory Plugin_Dependencies
  imports Plugin_Semver Canonical_Json
begin

text \<open>
  Dependency resolution of the plugin registry (\<open>app/plugins/dependencies.py\<close>): the
  choice of a concrete record for each declared dependency, the topological load order, and the
  transitive dependencies of one plugin. Keys are \<open>id@version\<close> texts.
\<close>

section \<open>Records\<close>

datatype plugin_state =
  DISCOVERED | REGISTERED | LOADING | LOADED | ACTIVE | UNLOADING | UNLOADED | PLUGIN_DISABLED |
  PLUGIN_FAILED | INSTALLING | INSTALLED | UNINSTALLING | UNINSTALLED | ENABLED

record plugin_dependency =
  dep_plugin_id :: string
  dep_version :: string

record plugin_capability =
  pcp_name :: string
  pcp_description :: string

record plugin_permission =
  pps_scope :: string
  pps_description :: string

text \<open>Of an action, the schemas and \<open>idempotent\<close> are descriptive and left out.\<close>

record plugin_action =
  pat_name :: string
  pat_required_permissions :: "string list"
  pat_side_effect_class :: string
  pat_timeout_seconds :: int

datatype plugin_kind = KIND_TOOL | KIND_PROVIDER | KIND_SKILL | KIND_PERSONALITY

record plugin_manifest =
  pm_schema_version :: string
  pm_id :: string
  pm_name :: string
  pm_version :: string
  pm_description :: string
  pm_kind :: plugin_kind
  pm_author :: string
  pm_entry :: string
  pm_dependencies :: "plugin_dependency list"
  pm_capabilities :: "plugin_capability list"
  pm_permissions :: "plugin_permission list"
  pm_metadata :: "(string, pyval) dict"
  pm_api_version :: int
  pm_min_version :: "string option"
  pm_max_version :: "string option"
  pm_actions :: "plugin_action list"

text \<open>The part of a record that resolution reads; the registry extends it with the rest.\<close>

record plugin_record =
  pl_manifest :: plugin_manifest
  pl_state :: plugin_state

definition manifest_key :: "plugin_manifest \<Rightarrow> string" where
  "manifest_key m = pm_id m @ ''@'' @ pm_version m"

definition record_key :: "plugin_record \<Rightarrow> string" where
  "record_key r = manifest_key (pl_manifest r)"

abbreviation record_id :: "plugin_record \<Rightarrow> string" where
  "record_id r \<equiv> pm_id (pl_manifest r)"

abbreviation record_version :: "plugin_record \<Rightarrow> string" where
  "record_version r \<equiv> pm_version (pl_manifest r)"

definition record_semver :: "plugin_record \<Rightarrow> semver option" where
  "record_semver r = (case parse_version (record_version r) of Inl _ \<Rightarrow> None | Inr v \<Rightarrow> Some v)"

section \<open>The choice of a candidate\<close>

text \<open>\<open>_version_key\<close>, asked only of records whose version parses.\<close>

definition version_key :: "plugin_record \<Rightarrow> nat \<times> nat \<times> nat" where
  "version_key r = (case record_semver r of None \<Rightarrow> (0, 0, 0) | Some v \<Rightarrow> version_tuple v)"

definition candidate :: "string \<Rightarrow> plugin_record \<Rightarrow> bool" where
  "candidate constraint r =
     (case record_semver r of None \<Rightarrow> False
      | Some v \<Rightarrow> satisfies v (Some constraint) = Inr True)"

definition choose_candidate ::
  "plugin_record list \<Rightarrow> string \<Rightarrow> string \<Rightarrow> string set \<Rightarrow> plugin_record option" where
  "choose_candidate records plugin_id constraint prefer_loaded =
     (let candidates = sort_desc (\<lambda>r. (version_key r, record_key r))
            (filter (candidate constraint) (filter (\<lambda>r. record_id r = plugin_id) records))
      in case candidates of
           [] \<Rightarrow> None
         | best # _ \<Rightarrow>
             (case List.find (\<lambda>r. record_key r \<in> prefer_loaded) candidates of
                Some r \<Rightarrow> Some r | None \<Rightarrow> Some best))"

section \<open>Selection\<close>

datatype dependency_error = Unresolvable "string list" | Circular "string list"

type_synonym selection = "(string \<times> string, string) dict"

definition missing_text :: "plugin_record list \<Rightarrow> plugin_record \<Rightarrow> plugin_dependency \<Rightarrow> string" where
  "missing_text records r d =
     (let available = sort (dedupe (map record_version (filter (\<lambda>x. record_id x = dep_plugin_id d) records)))
      in record_key r @ '' requires '' @ dep_plugin_id d @ ''@'' @
         (if dep_version d = [] then ''*'' else dep_version d) @ '' (available: '' @
         (if py_join '', '' available = [] then ''none'' else py_join '', '' available) @ '')'')"

text \<open>One declared dependency: the choice is stored under its record, or it is missing.\<close>

definition select_one ::
  "plugin_record list \<Rightarrow> string set \<Rightarrow> plugin_record \<Rightarrow> plugin_dependency \<Rightarrow>
   selection \<times> string list \<Rightarrow> selection \<times> string list" where
  "select_one records prefer_loaded r d st =
     (case choose_candidate records (dep_plugin_id d) (dep_version d) prefer_loaded of
        None \<Rightarrow> (fst st, snd st @ [missing_text records r d])
      | Some pick \<Rightarrow> (AList.update (record_id r, record_key r) (record_key pick) (fst st), snd st))"

definition select_record ::
  "plugin_record list \<Rightarrow> string set \<Rightarrow> plugin_record \<Rightarrow> selection \<times> string list \<Rightarrow> selection \<times> string list" where
  "select_record records prefer_loaded r st =
     fold (select_one records prefer_loaded r) (pm_dependencies (pl_manifest r)) st"

definition select_dependency_keys ::
  "plugin_record list \<Rightarrow> string set \<Rightarrow> (dependency_error, selection) result" where
  "select_dependency_keys records prefer_loaded =
     (let (selected, missing) = fold (select_record records prefer_loaded) records ([], [])
      in if missing \<noteq> [] then Inl (Unresolvable missing) else Inr selected)"

section \<open>The load order\<close>

text \<open>The dependency of a key: its record's selection, through \<open>key_to_record\<close> (last wins).\<close>

definition record_of :: "plugin_record list \<Rightarrow> string \<Rightarrow> plugin_record option" where
  "record_of records key = map_of (rev (map (\<lambda>r. (record_key r, r)) records)) key"

definition dep_key_of :: "plugin_record list \<Rightarrow> selection \<Rightarrow> string \<Rightarrow> string option" where
  "dep_key_of records selected key =
     (case record_of records key of None \<Rightarrow> None | Some r \<Rightarrow> map_of selected (record_id r, key))"

type_synonym dep_graph = "(string, string list) dict"

definition add_edge :: "(string \<Rightarrow> string option) \<Rightarrow> string \<Rightarrow> dep_graph \<Rightarrow> dep_graph" where
  "add_edge dep key graph =
     (case dep key of None \<Rightarrow> graph
      | Some d \<Rightarrow> (case map_of graph d of None \<Rightarrow> graph
          | Some ks \<Rightarrow> AList.update d (ks @ [key]) graph))"

definition build_graph :: "(string \<Rightarrow> string option) \<Rightarrow> string list \<Rightarrow> dep_graph" where
  "build_graph dep keys = fold (add_edge dep) keys (map (\<lambda>k. (k, [])) (dedupe keys))"

definition dependents :: "dep_graph \<Rightarrow> string \<Rightarrow> string list" where
  "dependents graph key = (case map_of graph key of None \<Rightarrow> [] | Some ks \<Rightarrow> ks)"

text \<open>\<open>indegree\<close> as the code counts it, one for every entry of every list.\<close>

definition initial_indegree :: "dep_graph \<Rightarrow> string \<Rightarrow> int" where
  "initial_indegree graph key = int (count_list (concat (map snd graph)) key)"

definition lower_indegree :: "string list \<Rightarrow> (string \<Rightarrow> int) \<Rightarrow> string \<Rightarrow> int" where
  "lower_indegree ks indegree = (\<lambda>k. indegree k - int (count_list ks k))"

definition ready_keys :: "dep_graph \<Rightarrow> (string \<Rightarrow> int) \<Rightarrow> string list \<Rightarrow> string list" where
  "ready_keys graph indegree order =
     sort (filter (\<lambda>k. k \<notin> set order \<and> indegree k = 0) (map fst graph))"

function kahn :: "dep_graph \<Rightarrow> (string \<Rightarrow> int) \<Rightarrow> string list \<Rightarrow> string list" where
  "kahn graph indegree order =
     (case ready_keys graph indegree order of
        [] \<Rightarrow> order
      | node # _ \<Rightarrow> kahn graph (lower_indegree (dependents graph node) indegree) (order @ [node]))"
  by pat_completeness auto

lemma ready_head:
  "ready_keys graph indegree order = node # rest \<Longrightarrow>
     node \<in> fst ` set graph \<and> node \<notin> set order \<and> indegree node = 0"
proof -
  assume "ready_keys graph indegree order = node # rest"
  then have "node \<in> set (ready_keys graph indegree order)" by simp
  then show ?thesis by (simp add: ready_keys_def)
qed

termination kahn
  by (relation "measure (\<lambda>(graph, indegree, order). card (fst ` set graph - set order))")
    (auto dest!: ready_head intro!: psubset_card_mono)

declare kahn.simps [simp del]

definition toposort ::
  "plugin_record list \<Rightarrow> selection \<Rightarrow> string set option \<Rightarrow> (dependency_error, string list) result" where
  "toposort records selected within =
     (let keys = sort (map record_key records);
          keys = (case within of None \<Rightarrow> keys | Some s \<Rightarrow> filter (\<lambda>k. k \<in> s) keys);
          graph = build_graph (dep_key_of records selected) keys;
          order = kahn graph (initial_indegree graph) []
      in if length order \<noteq> length graph
         then Inl (Circular (sort (filter (\<lambda>k. k \<notin> set order) (map fst graph))))
         else Inr order)"

definition resolve_load_order ::
  "plugin_record list \<Rightarrow> string set \<Rightarrow> (dependency_error, string list) result" where
  "resolve_load_order records prefer_loaded =
     res_bind (select_dependency_keys records prefer_loaded) (\<lambda>selected. toposort records selected None)"

text \<open>
  The closure of a target: the work list of the code with the set of keys found. A key is
  pushed only when it is new and is a value of the selection.
\<close>

function closure_loop :: "plugin_record list \<Rightarrow> selection \<Rightarrow> string list \<Rightarrow> string set \<Rightarrow> string set" where
  "closure_loop records selected [] closure = closure"
| "closure_loop records selected (key # stack) closure =
     (case dep_key_of records selected key of
        None \<Rightarrow> closure_loop records selected stack closure
      | Some d \<Rightarrow>
          if d \<in> closure then closure_loop records selected stack closure
          else closure_loop records selected (d # stack) (insert d closure))"
  by pat_completeness auto

lemma dep_key_value: "dep_key_of records selected key = Some d \<Longrightarrow> d \<in> snd ` set selected"
  by (force simp: dep_key_of_def dest: map_of_SomeD split: option.splits)

termination closure_loop
  by (relation "measures [\<lambda>(records, selected, stack, closure). card (snd ` set selected - closure),
        \<lambda>(records, selected, stack, closure). length stack]")
    (auto dest!: dep_key_value intro!: psubset_card_mono)

definition resolve_dependencies ::
  "plugin_record list \<Rightarrow> string \<Rightarrow> string set \<Rightarrow> (dependency_error, string list) result" where
  "resolve_dependencies records target prefer_loaded =
     res_bind (select_dependency_keys records prefer_loaded) (\<lambda>selected.
       (let closure = closure_loop records selected [target] {}
        in res_bind (toposort records selected (Some (insert target closure)))
             (\<lambda>order. Inr (filter (\<lambda>k. k \<noteq> target) order))))"

section \<open>Lemmas\<close>

subsection \<open>The candidate\<close>

lemma find_Some_in: "List.find P xs = Some x \<Longrightarrow> x \<in> set xs \<and> P x"
  by (auto simp: find_Some_iff)

lemma choose_candidate_None:
  "choose_candidate records i c loaded = None \<longleftrightarrow> (\<forall>r\<in>set records. record_id r = i \<longrightarrow> \<not> candidate c r)"
proof -
  let ?cs = "filter (candidate c) (filter (\<lambda>r. record_id r = i) records)"
  have "choose_candidate records i c loaded = None \<longleftrightarrow> sort_desc (\<lambda>r. (version_key r, record_key r)) ?cs = []"
    unfolding choose_candidate_def Let_def
    by (cases "sort_desc (\<lambda>r. (version_key r, record_key r)) ?cs")
      (simp_all del: List.find.simps filter_filter split: option.split)
  also have "\<dots> \<longleftrightarrow> ?cs = []" by (rule sort_desc_Nil)
  finally show ?thesis by (auto simp: filter_empty_conv)
qed

lemma choose_candidate_Some:
  assumes "choose_candidate records i c loaded = Some r"
  shows "r \<in> set records \<and> record_id r = i \<and> candidate c r"
    and "record_key r \<in> loaded \<or>
      (\<forall>x\<in>set records. record_id x = i \<longrightarrow> candidate c x \<longrightarrow>
         record_key x \<notin> loaded \<and> (version_key x, record_key x) \<le> (version_key r, record_key r))"
proof -
  let ?f = "\<lambda>r. (version_key r, record_key r)"
  let ?cs = "filter (candidate c) (filter (\<lambda>r. record_id r = i) records)"
  let ?L = "\<lambda>r. record_key r \<in> loaded"
  from assms obtain best rest where b: "sort_desc ?f ?cs = best # rest"
    unfolding choose_candidate_def Let_def by (cases "sort_desc ?f ?cs") (simp_all del: filter_filter)
  then have r: "Some r = (case List.find ?L (best # rest) of Some x \<Rightarrow> Some x | None \<Rightarrow> Some best)"
    using assms unfolding choose_candidate_def Let_def by (simp only: list.case)
  have "set (best # rest) = set ?cs" by (metis b set_sort_desc)
  then have mem: "x \<in> set (best # rest) \<longleftrightarrow> x \<in> set records \<and> record_id x = i \<and> candidate c x" for x
    by (simp only: set_filter) auto
  have le: "x \<in> set records \<Longrightarrow> record_id x = i \<Longrightarrow> candidate c x \<Longrightarrow> ?f x \<le> ?f best" for x
    by (rule sort_desc_head [OF b]) simp
  have "(\<exists>x\<in>set (best # rest). r = x \<and> ?L x) \<or> r = best \<and> (\<forall>x\<in>set (best # rest). \<not> ?L x)"
  proof (cases "List.find ?L (best # rest)")
    case None
    then have "\<forall>x\<in>set (best # rest). \<not> ?L x" by (simp only: find_None_iff) blast
    moreover have "r = best" using r unfolding None by simp
    ultimately show ?thesis by blast
  next
    case (Some x)
    with r have "r = x" by simp
    with find_Some_in [OF Some] show ?thesis by blast
  qed
  then consider "r \<in> set (best # rest)" "?L r" | "r = best" "\<forall>x\<in>set (best # rest). \<not> ?L x" by blast
  then have "r \<in> set (best # rest) \<and> (?L r \<or>
      (\<forall>x\<in>set records. record_id x = i \<longrightarrow> candidate c x \<longrightarrow> \<not> ?L x \<and> ?f x \<le> ?f r))"
    using le mem by cases (simp, metis list.set_intros(1))
  then show "r \<in> set records \<and> record_id r = i \<and> candidate c r"
    and "record_key r \<in> loaded \<or>
      (\<forall>x\<in>set records. record_id x = i \<longrightarrow> candidate c x \<longrightarrow>
         record_key x \<notin> loaded \<and> ?f x \<le> ?f r)"
    unfolding mem by blast+
qed

subsection \<open>The graph\<close>

lemma map_of_key: "map_of graph d = Some ks \<Longrightarrow> d \<in> fst ` set graph"
  by (metis domI dom_map_of_conv_image_fst)

lemma keys_add_edge [simp]: "map fst (add_edge dep key graph) = map fst graph"
proof (cases "dep key")
  case (Some d)
  then show ?thesis
    by (cases "map_of graph d") (simp_all add: add_edge_def update_keys map_of_key)
qed (simp add: add_edge_def)

lemma dependents_add_edge:
  "dependents (add_edge dep key graph) n =
     dependents graph n @ (if dep key = Some n \<and> n \<in> fst ` set graph then [key] else [])"
proof (cases "dep key")
  case (Some d)
  show ?thesis
  proof (cases "map_of graph d")
    case None
    then have "d \<notin> fst ` set graph" by (simp add: map_of_eq_None_iff)
    with Some show ?thesis by (auto simp: add_edge_def None)
  next
    case (Some ks)
    with \<open>dep key = Some d\<close> show ?thesis by (simp add: add_edge_def dependents_def map_of_key)
  qed
qed (simp add: add_edge_def)

lemma build_graph_fold:
  "map fst (fold (add_edge dep) keys graph) = map fst graph \<and>
   dependents (fold (add_edge dep) keys graph) n =
     dependents graph n @ (if n \<in> fst ` set graph then filter (\<lambda>k. dep k = Some n) keys else [])"
proof (induction keys arbitrary: graph)
  case (Cons k ks)
  have "fst ` set (add_edge dep k graph) = fst ` set graph" by (metis keys_add_edge set_map)
  with Cons [of "add_edge dep k graph"] show ?case by (simp add: dependents_add_edge)
qed simp

lemma graph_keys: "map fst (build_graph dep keys) = dedupe keys"
  by (simp add: build_graph_def build_graph_fold comp_def)

lemma set_graph_keys [simp]: "fst ` set (build_graph dep keys) = set keys"
  by (metis graph_keys set_dedupe set_map)

lemma graph_ok: "dict_ok (build_graph dep keys)"
  by (simp add: dict_ok_def graph_keys)

lemma dependents_build:
  "dependents (build_graph dep keys) n = (if n \<in> set keys then filter (\<lambda>k. dep k = Some n) keys else [])"
proof -
  have "dependents (map (\<lambda>k. (k, [])) (dedupe keys)) n = []" 
    by (auto simp: dependents_def dest!: map_of_SomeD split: option.splits)
  moreover have "fst ` set (map (\<lambda>k. (k, [] :: string list)) (dedupe keys)) = set keys" by force
  ultimately show ?thesis
    using build_graph_fold [of dep keys "map (\<lambda>k. (k, [])) (dedupe keys)" n] by (simp only: build_graph_def append_Nil)
qed

subsection \<open>Kahn's loop\<close>

definition graph_nodes :: "dep_graph \<Rightarrow> string set" where
  "graph_nodes graph = fst ` set graph"

text \<open>Every key comes after the keys it is a dependent of.\<close>

definition dep_ordered :: "dep_graph \<Rightarrow> string list \<Rightarrow> bool" where
  "dep_ordered graph order \<longleftrightarrow>
     (\<forall>pre k post n. order = pre @ k # post \<longrightarrow> n \<in> graph_nodes graph \<longrightarrow>
        k \<in> set (dependents graph n) \<longrightarrow> n \<in> set pre)"

text \<open>What the loop keeps: the counters count the edges from nodes not yet placed.\<close>

definition kahn_ok :: "dep_graph \<Rightarrow> (string \<Rightarrow> int) \<Rightarrow> string list \<Rightarrow> bool" where
  "kahn_ok graph indegree order \<longleftrightarrow>
     dict_ok graph \<and> distinct order \<and> set order \<subseteq> graph_nodes graph \<and> dep_ordered graph order \<and>
     (\<forall>k. indegree k = (\<Sum>n\<in>graph_nodes graph - set order. int (count_list (dependents graph n) k)))"

lemma finite_graph_nodes [simp]: "finite (graph_nodes graph)"
  by (simp add: graph_nodes_def)

lemma initial_indegree_sum:
  "dict_ok graph \<Longrightarrow>
     initial_indegree graph k = (\<Sum>n\<in>graph_nodes graph. int (count_list (dependents graph n) k))"
proof (induction graph)
  case (Cons e es)
  obtain n ks where e: "e = (n, ks)" by fastforce
  with Cons.prems have n: "n \<notin> graph_nodes es" and ok: "dict_ok es" by (auto simp: dict_ok_def graph_nodes_def)
  have "dependents (e # es) m = (if m = n then ks else dependents es m)" for m by (simp add: dependents_def e)
  with n have "(\<Sum>m\<in>graph_nodes es. int (count_list (dependents (e # es) m) k))
      = (\<Sum>m\<in>graph_nodes es. int (count_list (dependents es m) k))" by (intro sum.cong) auto
  with Cons.IH [OF ok] n show ?case
    by (simp add: e initial_indegree_def dependents_def graph_nodes_def)
qed (simp add: initial_indegree_def graph_nodes_def)

lemma kahn_ok_start: "dict_ok graph \<Longrightarrow> kahn_ok graph (initial_indegree graph) []"
  by (simp add: kahn_ok_def dep_ordered_def initial_indegree_sum)

lemma kahn_ok_zero:
  "kahn_ok graph indegree order \<Longrightarrow> indegree k = 0 \<longleftrightarrow>
     (\<forall>n\<in>graph_nodes graph - set order. k \<notin> set (dependents graph n))"
  by (simp add: kahn_ok_def sum_nonneg_eq_0_iff count_list_0_iff)

lemma dep_ordered_snoc:
  assumes "dep_ordered graph order" "\<And>n. n \<in> graph_nodes graph \<Longrightarrow> k \<in> set (dependents graph n) \<Longrightarrow> n \<in> set order"
  shows "dep_ordered graph (order @ [k])"
  unfolding dep_ordered_def
proof (intro allI impI)
  fix pre x post n
  assume "order @ [k] = pre @ x # post" and n: "n \<in> graph_nodes graph" "x \<in> set (dependents graph n)"
  then consider "pre = order" "x = k" | post' where "order = pre @ x # post'"
    by (cases post rule: rev_cases) auto
  then show "n \<in> set pre"
    by cases (use assms n in \<open>auto simp: dep_ordered_def\<close>)
qed

lemma kahn_ok_step:
  assumes ok: "kahn_ok graph indegree order" and r: "ready_keys graph indegree order = node # rest"
  shows "kahn_ok graph (lower_indegree (dependents graph node) indegree) (order @ [node])"
proof -
  from ready_head [OF r] have node: "node \<in> graph_nodes graph" "node \<notin> set order" "indegree node = 0"
    by (auto simp: graph_nodes_def)
  have "dep_ordered graph (order @ [node])"
    using ok kahn_ok_zero [OF ok, of node] node(3) by (intro dep_ordered_snoc) (auto simp: kahn_ok_def)
  moreover have "(\<Sum>n\<in>graph_nodes graph - set order. int (count_list (dependents graph n) k)) =
      int (count_list (dependents graph node) k) +
      (\<Sum>n\<in>graph_nodes graph - set (order @ [node]). int (count_list (dependents graph n) k))" for k
    using node by (subst sum.remove [of _ node]) (auto simp: Diff_insert2 [symmetric] insert_commute
        intro!: arg_cong2 [where f = sum])
  ultimately show ?thesis using ok node by (auto simp: kahn_ok_def lower_indegree_def)
qed

lemma kahn_result:
  "kahn_ok graph indegree order \<Longrightarrow>
     \<exists>d. kahn_ok graph d (kahn graph indegree order) \<and> ready_keys graph d (kahn graph indegree order) = []"
proof (induction graph indegree order rule: kahn.induct)
  case (1 graph indegree order)
  show ?case
  proof (cases "ready_keys graph indegree order")
    case Nil
    with 1 show ?thesis by (subst (1 2) kahn.simps) auto
  next
    case (Cons node rest)
    with 1 kahn_ok_step [OF "1.prems" Cons] show ?thesis by (subst (1 2) kahn.simps) simp
  qed
qed

subsection \<open>The load order\<close>

text \<open>The keys that are sorted, with or without the restriction.\<close>

definition sorted_keys :: "plugin_record list \<Rightarrow> string set option \<Rightarrow> string set" where
  "sorted_keys records within =
     (case within of None \<Rightarrow> record_key ` set records | Some s \<Rightarrow> record_key ` set records \<inter> s)"

lemma mem_dependents: "k \<in> set (dependents (build_graph dep keys) n) \<longleftrightarrow> n \<in> set keys \<and> k \<in> set keys \<and> dep k = Some n"
  by (simp add: dependents_build)

lemma nodes_build [simp]: "graph_nodes (build_graph dep keys) = set keys"
  by (simp add: graph_nodes_def)

lemma kahn_build:
  assumes "order = kahn (build_graph dep keys) (initial_indegree (build_graph dep keys)) []"
  shows "distinct order" "set order \<subseteq> set keys"
    and "order = pre @ k # post \<Longrightarrow> dep k = Some d \<Longrightarrow> d \<in> set keys \<Longrightarrow> d \<in> set pre"
    and "k \<in> set keys \<Longrightarrow> k \<notin> set order \<Longrightarrow> \<exists>d. dep k = Some d \<and> d \<in> set keys \<and> d \<notin> set order"
proof -
  let ?g = "build_graph dep keys"
  obtain i where ok: "kahn_ok ?g i order" and no: "ready_keys ?g i order = []"
    using kahn_result [OF kahn_ok_start [OF graph_ok]] assms by blast
  then show "distinct order" "set order \<subseteq> set keys" by (simp_all add: kahn_ok_def)
  from ok have ord: "dep_ordered ?g order" by (simp add: kahn_ok_def)
  show "d \<in> set pre" if o': "order = pre @ k # post" and d: "dep k = Some d" "d \<in> set keys"
  proof -
    have "k \<in> set keys" using o' \<open>set order \<subseteq> set keys\<close> by auto
    with d have "k \<in> set (dependents ?g d)" by (simp add: mem_dependents)
    with ord o' d(2) show ?thesis unfolding dep_ordered_def nodes_build by blast
  qed
  show "\<exists>d. dep k = Some d \<and> d \<in> set keys \<and> d \<notin> set order" if k: "k \<in> set keys" "k \<notin> set order"
  proof -
    have "set (ready_keys ?g i order) = {}" using no by simp
    with k have "i k \<noteq> 0" by (auto simp: ready_keys_def)
    with kahn_ok_zero [OF ok, of k] show ?thesis by (auto simp: mem_dependents)
  qed
qed

lemma toposort_keys:
  "toposort records selected within = Inr order \<Longrightarrow>
     distinct order \<and> set order = sorted_keys records within \<and>
     (\<forall>pre k post d. order = pre @ k # post \<longrightarrow> dep_key_of records selected k = Some d \<longrightarrow>
        d \<in> sorted_keys records within \<longrightarrow> d \<in> set pre)"
proof -
  define keys where "keys = (case within of None \<Rightarrow> sort (map record_key records)
      | Some s \<Rightarrow> filter (\<lambda>k. k \<in> s) (sort (map record_key records)))"
  have keys: "set keys = sorted_keys records within"
    by (auto simp: keys_def sorted_keys_def split: option.splits)
  let ?g = "build_graph (dep_key_of records selected) keys"
  assume "toposort records selected within = Inr order"
  then have o': "order = kahn ?g (initial_indegree ?g) []" "length order = length ?g"
    by (auto simp: toposort_def Let_def keys_def split: if_splits)
  have "length ?g = card (set keys)"
    using distinct_card [of "map fst ?g"] graph_ok [of _ keys] by (simp add: dict_ok_def)
  with o' kahn_build(1,2) [OF o'(1)] have "set order = set keys"
    by (metis card_subset_eq distinct_card finite_set)
  with kahn_build(1,3) [OF o'(1)] keys show ?thesis by blast
qed

text \<open>A failure names keys each of which waits for another one of them; there is none otherwise.\<close>

lemma toposort_circular:
  "toposort records selected within = Inl e \<Longrightarrow>
     \<exists>ks. e = Circular ks \<and> ks \<noteq> [] \<and> set ks \<subseteq> sorted_keys records within \<and>
       (\<forall>k\<in>set ks. \<exists>d\<in>set ks. dep_key_of records selected k = Some d)"
proof -
  define keys where "keys = (case within of None \<Rightarrow> sort (map record_key records)
      | Some s \<Rightarrow> filter (\<lambda>k. k \<in> s) (sort (map record_key records)))"
  have keys: "set keys = sorted_keys records within"
    by (auto simp: keys_def sorted_keys_def split: option.splits)
  let ?g = "build_graph (dep_key_of records selected) keys"
  define order where "order = kahn ?g (initial_indegree ?g) []"
  let ?ks = "sort (filter (\<lambda>k. k \<notin> set order) (map fst ?g))"
  assume "toposort records selected within = Inl e"
  then have e: "e = Circular ?ks" "length order \<noteq> length ?g"
    unfolding toposort_def Let_def keys_def [symmetric] order_def [symmetric]
    by (auto split: if_splits)
  have mem: "set ?ks = {k \<in> set keys. k \<notin> set order}" by auto
  have "set order \<noteq> set keys"
  proof
    assume "set order = set keys"
    moreover have "length ?g = card (set keys)"
      using distinct_card [of "map fst ?g"] graph_ok [of _ keys] by (simp add: dict_ok_def)
    ultimately show False using e(2) distinct_card [OF kahn_build(1) [OF order_def]] by simp
  qed
  with kahn_build(2) [OF order_def] have "set ?ks \<noteq> {}" unfolding mem by blast
  then have "?ks \<noteq> []" by (metis empty_set)
  moreover have "\<forall>k\<in>set ?ks. \<exists>d\<in>set ?ks. dep_key_of records selected k = Some d"
    unfolding mem using kahn_build(4) [OF order_def] by blast
  ultimately show ?thesis using e(1) mem keys by blast
qed

lemma toposort_no_cycle:
  assumes "toposort records selected within = Inr order" "ks \<subseteq> sorted_keys records within" "ks \<noteq> {}"
  shows "\<exists>k\<in>ks. \<forall>d\<in>ks. dep_key_of records selected k \<noteq> Some d"
proof -
  let ?dep = "dep_key_of records selected"
  from toposort_keys [OF assms(1)] have set: "set order = sorted_keys records within"
    and ord: "\<And>pre k post d. order = pre @ k # post \<Longrightarrow> ?dep k = Some d \<Longrightarrow>
        d \<in> sorted_keys records within \<Longrightarrow> d \<in> set pre" by auto
  have "\<exists>x\<in>set order. x \<in> ks" unfolding set using assms(2,3) by blast
  then obtain pre k post where o': "order = pre @ k # post" and k: "k \<in> ks" "\<forall>y\<in>set pre. y \<notin> ks"
    using split_list_first_prop [of order "\<lambda>x. x \<in> ks"] by blast
  have "?dep k \<noteq> Some d" if "d \<in> ks" for d
    using ord [OF o', of d] that k(2) assms(2) by blast
  with k(1) show ?thesis by blast
qed

subsection \<open>The closure\<close>

definition dep_edges :: "plugin_record list \<Rightarrow> selection \<Rightarrow> (string \<times> string) set" where
  "dep_edges records selected = {(k, d). dep_key_of records selected k = Some d}"

lemma closure_loop_within:
  "closure_loop records selected stack closure \<subseteq>
     closure \<union> {d. \<exists>s\<in>set stack. (s, d) \<in> (dep_edges records selected)\<^sup>+}"
proof (induction records selected stack closure rule: closure_loop.induct)
  case (2 records selected key stack closure)
  show ?case
  proof (cases "dep_key_of records selected key")
    case None
    with 2 show ?thesis by auto
  next
    case (Some d)
    let ?E = "dep_edges records selected"
    from Some have e: "(key, d) \<in> ?E" by (simp add: dep_edges_def)
    show ?thesis
    proof (cases "d \<in> closure")
      case True
      have "closure_loop records selected stack closure \<subseteq> closure \<union> {d. \<exists>s\<in>set stack. (s, d) \<in> ?E\<^sup>+}"
        using Some True by (rule 2(2))
      with Some True show ?thesis by auto
    next
      case False
      have "closure_loop records selected (d # stack) (insert d closure)
          \<subseteq> insert d closure \<union> {x. \<exists>s\<in>set (d # stack). (s, x) \<in> ?E\<^sup>+}"
        using Some False by (rule 2(3))
      also have "\<dots> \<subseteq> closure \<union> {x. \<exists>s\<in>set (key # stack). (s, x) \<in> ?E\<^sup>+}"
        using e by (auto intro: trancl_into_trancl2)
      finally show ?thesis using Some False by simp
    qed
  qed
qed simp

lemma closure_loop_closed:
  "\<forall>c\<in>closure. c \<in> set stack \<or> dep_edges records selected `` {c} \<subseteq> closure \<Longrightarrow>
   closure \<subseteq> closure_loop records selected stack closure \<and>
   (\<forall>x\<in>closure_loop records selected stack closure \<union> set stack.
      dep_edges records selected `` {x} \<subseteq> closure_loop records selected stack closure)"
proof (induction records selected stack closure rule: closure_loop.induct)
  case (2 records selected key stack closure)
  let ?E = "dep_edges records selected"
  let ?D = "dep_key_of records selected key"
  consider "?E `` {key} \<subseteq> closure" "closure_loop records selected (key # stack) closure
        = closure_loop records selected stack closure"
      "?D = None \<or> (\<exists>d. ?D = Some d \<and> d \<in> closure)"
    | d where "?E `` {key} = {d}" "?D = Some d" "d \<notin> closure"
    by (cases "?D") (auto simp: dep_edges_def split: if_splits)
  then show ?case
  proof cases
    case 1
    with "2.prems" have "\<forall>c\<in>closure. c \<in> set stack \<or> ?E `` {c} \<subseteq> closure" by (metis set_ConsD)
    with 1(3) "2.IH" have "closure \<subseteq> closure_loop records selected stack closure \<and>
       (\<forall>x\<in>closure_loop records selected stack closure \<union> set stack.
          ?E `` {x} \<subseteq> closure_loop records selected stack closure)" by metis
    with 1(1,2) show ?thesis by (auto simp del: closure_loop.simps)
  next
    case (2 d)
    have "\<forall>c\<in>insert d closure. c \<in> set (d # stack) \<or> ?E `` {c} \<subseteq> insert d closure"
      using 2(1) "2.prems" by fastforce
    with "2.IH"(3) [OF 2(2,3)] 2 show ?thesis by auto
  qed
qed auto

lemma closure_loop_reach:
  "closure_loop records selected [target] {} = (dep_edges records selected)\<^sup>+ `` {target}"
proof -
  let ?c = "closure_loop records selected [target] {}"
  have closed: "dep_edges records selected `` {x} \<subseteq> ?c" if "x \<in> insert target ?c" for x
    using closure_loop_closed [of "{}" "[target]" records selected] that by auto
  have "d \<in> ?c" if "(target, d) \<in> (dep_edges records selected)\<^sup>+" for d
    using that by (induction rule: trancl_induct) (use closed in blast)+
  with closure_loop_within [of records selected "[target]" "{}"] show ?thesis by auto
qed

subsection \<open>The selection\<close>

lemma select_one_missing: "snd (select_one records loaded r d st) = snd st @
    (if choose_candidate records (dep_plugin_id d) (dep_version d) loaded = None then [missing_text records r d] else [])"
  by (simp add: select_one_def split: option.splits)

lemma fold_select_missing:
  "snd (fold (select_one records loaded r) ds st) = snd st @
     map (missing_text records r)
       (filter (\<lambda>d. choose_candidate records (dep_plugin_id d) (dep_version d) loaded = None) ds)"
  by (induction ds arbitrary: st) (simp_all add: select_one_missing)

text \<open>The declarations that no record satisfies, in the order they are read.\<close>

definition unmet :: "plugin_record list \<Rightarrow> string set \<Rightarrow> plugin_record \<Rightarrow> plugin_dependency list" where
  "unmet records loaded r =
     filter (\<lambda>d. choose_candidate records (dep_plugin_id d) (dep_version d) loaded = None)
       (pm_dependencies (pl_manifest r))"

lemma select_record_missing:
  "snd (select_record records loaded r st) = snd st @ map (missing_text records r) (unmet records loaded r)"
  by (simp add: select_record_def fold_select_missing unmet_def)

lemma fold_record_missing:
  "snd (fold (select_record records loaded) rs st) =
     snd st @ concat (map (\<lambda>r. map (missing_text records r) (unmet records loaded r)) rs)"
  by (induction rs arbitrary: st) (simp_all add: select_record_missing)

lemma select_dependency_keys_cases:
  "select_dependency_keys records loaded =
     (let missing = concat (map (\<lambda>r. map (missing_text records r) (unmet records loaded r)) records)
      in if missing \<noteq> [] then Inl (Unresolvable missing)
         else Inr (fst (fold (select_record records loaded) records ([], []))))"
  using fold_record_missing [of records loaded records "([], [])"]
  by (simp add: select_dependency_keys_def case_prod_beta Let_def)

text \<open>Only the last declared dependency of a record is kept.\<close>

lemma fold_select_last:
  assumes "\<forall>d\<in>set ds. choose_candidate records (dep_plugin_id d) (dep_version d) loaded \<noteq> None"
  shows "map_of (fst (fold (select_one records loaded r) ds st)) k =
     (if ds \<noteq> [] \<and> k = (record_id r, record_key r)
      then map_option record_key
             (choose_candidate records (dep_plugin_id (last ds)) (dep_version (last ds)) loaded)
      else map_of (fst st) k)"
  using assms by (induction ds arbitrary: st) (auto simp: select_one_def split: option.splits)

lemma fold_record_other:
  assumes "\<forall>r\<in>set rs. unmet records loaded r = []" "\<forall>r\<in>set rs. record_key r \<noteq> snd k"
  shows "map_of (fst (fold (select_record records loaded) rs st)) k = map_of (fst st) k"
  using assms
proof (induction rs arbitrary: st)
  case (Cons r rs)
  then have "map_of (fst (select_record records loaded r st)) k = map_of (fst st) k"
    by (auto simp: select_record_def unmet_def filter_empty_conv fold_select_last)
  with Cons show ?case by simp
qed simp

lemma selected_last:
  assumes sel: "select_dependency_keys records loaded = Inr selected"
    and r: "r \<in> set records" and uniq: "distinct (map record_key records)"
  shows "map_of selected (record_id r, record_key r) =
     (if pm_dependencies (pl_manifest r) = [] then None
      else let d = last (pm_dependencies (pl_manifest r))
           in map_option record_key (choose_candidate records (dep_plugin_id d) (dep_version d) loaded))"
proof -
  from sel have met: "\<forall>x\<in>set records. unmet records loaded x = []"
    and sel': "selected = fst (fold (select_record records loaded) records ([], []))"
    by (auto simp: select_dependency_keys_cases Let_def split: if_splits)
  from r obtain pre post where rs: "records = pre @ r # post" by (metis split_list)
  with uniq have others: "\<forall>x\<in>set pre \<union> set post. record_key x \<noteq> record_key r"
    by simp (metis Un_iff image_eqI)
  let ?k = "(record_id r, record_key r)"
  let ?st = "fold (select_record records loaded) pre ([], [])"
  have "map_of selected ?k = map_of (fst (select_record records loaded r ?st)) ?k"
    unfolding sel' using met others fold_record_other [of post records loaded ?k] by (simp add: rs)
  also have "\<dots> = (if pm_dependencies (pl_manifest r) = [] then map_of (fst ?st) ?k
      else let d = last (pm_dependencies (pl_manifest r))
           in map_option record_key (choose_candidate records (dep_plugin_id d) (dep_version d) loaded))"
    using met r by (auto simp: select_record_def fold_select_last unmet_def filter_empty_conv Let_def)
  also have "map_of (fst ?st) ?k = None"
    using met others fold_record_other [of pre records loaded ?k "([], [])"] by (simp add: rs)
  finally show ?thesis .
qed

end
