(* ===== verification/Parallel_Graph.thy ===== *)
theory Parallel_Graph
  imports Prelude
begin

text \<open>
  The execution graph of a batch and its resolver (\<open>app/runtime_parallel/graph.py\<close> and
  \<open>dependency.py\<close>): validation, cycle detection by depth-first search, the topological order
  and the levels a scheduler runs one after the other.
\<close>

section \<open>The graph\<close>

record execution_graph =
  eg_task_ids :: "string list"
  eg_dependencies :: "(string, string list) dict"

definition deps_of :: "execution_graph \<Rightarrow> string \<Rightarrow> string list" where
  "deps_of g n = (case map_of (eg_dependencies g) n of None \<Rightarrow> [] | Some ds \<Rightarrow> ds)"

definition graph_ids :: "execution_graph \<Rightarrow> string set" where
  "graph_ids g = set (eg_task_ids g) \<union> fst ` set (eg_dependencies g) \<union> \<Union> (set ` snd ` set (eg_dependencies g))"

lemma finite_graph_ids [simp]: "finite (graph_ids g)"
  by (simp add: graph_ids_def)

lemma deps_of_in: "set (deps_of g n) \<subseteq> graph_ids g"
proof (cases "map_of (eg_dependencies g) n")
  case (Some ds)
  then have "(n, ds) \<in> set (eg_dependencies g)" by (rule map_of_SomeD)
  then have "set ds \<in> set ` snd ` set (eg_dependencies g)" by force
  with Some show ?thesis by (auto simp: deps_of_def graph_ids_def)
qed (simp add: deps_of_def)

lemma deps_of_key: "deps_of g n \<noteq> [] \<Longrightarrow> n \<in> fst ` set (eg_dependencies g)"
  by (metis deps_of_def map_of_eq_None_iff option.simps(4))

lemma deps_of_outside: "n \<notin> graph_ids g \<Longrightarrow> deps_of g n = []"
  using deps_of_key [of g n] by (auto simp: graph_ids_def)

section \<open>Cycle detection\<close>

text \<open>
  The nodes being visited are the path from the root of the search, which every return without
  a cycle restores; the nodes already cleared are threaded through.
\<close>

function (sequential)
  visit :: "execution_graph \<Rightarrow> string set \<Rightarrow> string \<Rightarrow> string set \<Rightarrow> bool \<times> string set" and
  visit_deps :: "execution_graph \<Rightarrow> string set \<Rightarrow> string list \<Rightarrow> string set \<Rightarrow> bool \<times> string set" where
  "visit g path node visited =
     (if node \<in> path then (True, visited)
      else if node \<in> visited then (False, visited)
      else (case visit_deps g (insert node path) (deps_of g node) visited of
              (True, v) \<Rightarrow> (True, v)
            | (False, v) \<Rightarrow> (False, insert node v)))"
| "visit_deps g path [] visited = (False, visited)"
| "visit_deps g path (d # ds) visited =
     (case visit g path d visited of
        (True, v) \<Rightarrow> (True, v)
      | (False, v) \<Rightarrow> visit_deps g path ds v)"
  by pat_completeness auto

lemma path_measure: "node \<notin> path \<Longrightarrow> node \<in> graph_ids g \<Longrightarrow> card (graph_ids g - insert node path) < card (graph_ids g - path)"
  by (rule psubset_card_mono) auto

termination visit
proof (relation "measures [\<lambda>x. case x of Inl (g, path, node, v) \<Rightarrow> card (graph_ids g - path)
                             | Inr (g, path, ds, v) \<Rightarrow> card (graph_ids g - path),
                           \<lambda>x. case x of Inl (g, path, node, v) \<Rightarrow> 1 | Inr (g, path, ds, v) \<Rightarrow> 2 * length ds]")
  fix g :: execution_graph and path and node :: string and visited :: "string set"
  assume "node \<notin> path"
  then show "(Inr (g, insert node path, deps_of g node, visited), Inl (g, path, node, visited)) \<in>
      measures [\<lambda>x. case x of Inl (g, path, node, v) \<Rightarrow> card (graph_ids g - path)
                             | Inr (g, path, ds, v) \<Rightarrow> card (graph_ids g - path),
                \<lambda>x. case x of Inl (g, path, node, v) \<Rightarrow> 1 | Inr (g, path, ds, v) \<Rightarrow> 2 * length ds]"
    using path_measure [of node path g] by (cases "node \<in> graph_ids g") (simp_all add: deps_of_outside)
qed simp_all

declare visit.simps [simp del]

fun visit_roots :: "execution_graph \<Rightarrow> string list \<Rightarrow> string set \<Rightarrow> bool" where
  "visit_roots g [] visited = False"
| "visit_roots g (n # ns) visited =
     (case visit g {} n visited of (True, v) \<Rightarrow> True | (False, v) \<Rightarrow> visit_roots g ns v)"

definition detect_cycles :: "execution_graph \<Rightarrow> bool" where
  "detect_cycles g = visit_roots g (eg_task_ids g) {}"

datatype graph_error = CycleDetected | UnknownTask string | UnknownDependency string string

fun validate_entries :: "string set \<Rightarrow> (string, string list) dict \<Rightarrow> graph_error option" where
  "validate_entries known [] = None"
| "validate_entries known ((t, ds) # es) =
     (if t \<notin> known then Some (UnknownTask t)
      else case List.find (\<lambda>d. d \<notin> known) ds of
             Some d \<Rightarrow> Some (UnknownDependency d t)
           | None \<Rightarrow> validate_entries known es)"

definition validate_graph :: "execution_graph \<Rightarrow> (graph_error, unit) result" where
  "validate_graph g =
     (if detect_cycles g then Inl CycleDetected
      else case validate_entries (set (eg_task_ids g)) (eg_dependencies g) of
             Some e \<Rightarrow> Inl e | None \<Rightarrow> Inr ())"

section \<open>Order and levels\<close>

text \<open>
  \<open>indegree\<close> and \<open>children\<close> as the loops fill them: one unit, and one entry, for every
  occurrence of a dependency.
\<close>

definition graph_nodes_list :: "execution_graph \<Rightarrow> string list" where
  "graph_nodes_list g =
     dedupe (eg_task_ids g @ concat (map (\<lambda>(t, ds). t # ds) (eg_dependencies g)))"

definition graph_indegree :: "execution_graph \<Rightarrow> string \<Rightarrow> int" where
  "graph_indegree g n = int (length (deps_of g n))"

definition graph_children :: "execution_graph \<Rightarrow> string \<Rightarrow> string list" where
  "graph_children g n = concat (map (\<lambda>(t, ds). replicate (count_list ds n) t) (eg_dependencies g))"

definition graph_sources :: "execution_graph \<Rightarrow> string list" where
  "graph_sources g = sort (filter (\<lambda>n. graph_indegree g n = 0) (graph_nodes_list g))"

text \<open>One child: its counter is lowered, and it is ready when the counter reaches zero.\<close>

definition drop_child :: "string \<Rightarrow> (string \<Rightarrow> int) \<times> string list \<Rightarrow> (string \<Rightarrow> int) \<times> string list" where
  "drop_child c st =
     (let i = fst st c - 1 in ((fst st)(c := i), if i = 0 then snd st @ [c] else snd st))"

definition drop_children ::
  "execution_graph \<Rightarrow> string list \<Rightarrow> (string \<Rightarrow> int) \<Rightarrow> (string \<Rightarrow> int) \<times> string list" where
  "drop_children g current indegree =
     fold drop_child (concat (map (\<lambda>n. sort (graph_children g n)) current)) (indegree, [])"

lemma fold_drop_child:
  "fst (fold drop_child cs st) = (\<lambda>k. fst st k - int (count_list cs k)) \<and>
   set (snd (fold drop_child cs st)) =
     set (snd st) \<union> {k. 0 < fst st k \<and> fst st k \<le> int (count_list cs k)}"
proof (induction cs arbitrary: st)
  case (Cons c cs)
  let ?s = "drop_child c st"
  have f: "fst ?s = (fst st)(c := fst st c - 1)" by (simp add: drop_child_def Let_def)
  have s: "set (snd ?s) = set (snd st) \<union> (if fst st c = 1 then {c} else {})" by (simp add: drop_child_def Let_def)
  have "set (snd (fold drop_child (c # cs) st)) =
      set (snd st) \<union> (if fst st c = 1 then {c} else {}) \<union> {k. 0 < fst ?s k \<and> fst ?s k \<le> int (count_list cs k)}"
    using Cons [of ?s] s by simp
  also have "\<dots> = set (snd st) \<union> {k. 0 < fst st k \<and> fst st k \<le> int (count_list (c # cs) k)}"
    unfolding f by auto
  finally show ?case using Cons [of ?s] f by (auto simp: fun_eq_iff)
qed auto

lemma drop_children_simps:
  "fst (drop_children g current indegree) =
     (\<lambda>k. indegree k - int (count_list (concat (map (\<lambda>n. sort (graph_children g n)) current)) k))"
  "set (snd (drop_children g current indegree)) =
     {k. 0 < indegree k \<and> indegree k \<le> int (count_list (concat (map (\<lambda>n. sort (graph_children g n)) current)) k)}"
  unfolding drop_children_def using fold_drop_child [of _ "(indegree, [])"] by simp_all

lemma graph_children_in: "c \<in> set (graph_children g n) \<Longrightarrow> c \<in> graph_ids g"
  by (force simp: graph_children_def graph_ids_def)

text \<open>The nodes still waiting for a dependency; every node that becomes ready leaves them.\<close>

definition waiting_nodes :: "execution_graph \<Rightarrow> (string \<Rightarrow> int) \<Rightarrow> string set" where
  "waiting_nodes g indegree = {k \<in> graph_ids g. 0 < indegree k}"

lemma drop_children_waiting:
  "waiting_nodes g (fst (drop_children g current indegree)) \<subseteq> waiting_nodes g indegree \<and>
   set (snd (drop_children g current indegree)) \<subseteq>
     waiting_nodes g indegree - waiting_nodes g (fst (drop_children g current indegree))"
proof -
  have "k \<in> graph_ids g" if "0 < indegree k" "indegree k \<le> int (count_list (concat (map (\<lambda>n. sort (graph_children g n)) current)) k)" for k
  proof -
    from that have "count_list (concat (map (\<lambda>n. sort (graph_children g n)) current)) k \<noteq> 0" by linarith
    then have "k \<in> set (concat (map (\<lambda>n. sort (graph_children g n)) current))" by (simp only: count_list_0_iff not_not)
    then show ?thesis using graph_children_in by auto
  qed
  then show ?thesis by (auto simp: drop_children_simps waiting_nodes_def)
qed

lemma finite_waiting [simp]: "finite (waiting_nodes g indegree)"
  by (simp add: waiting_nodes_def)

function level_loop :: "execution_graph \<Rightarrow> (string \<Rightarrow> int) \<Rightarrow> string list \<Rightarrow> string list list" where
  "level_loop g indegree ready =
     (if ready = [] then []
      else ready # level_loop g (fst (drop_children g ready indegree))
             (sort (dedupe (snd (drop_children g ready indegree)))))"
  by pat_completeness auto

termination
proof (relation "measures [\<lambda>(g, indegree, ready). card (waiting_nodes g indegree), \<lambda>(g, indegree, ready). length ready]")
  fix g :: execution_graph and indegree and ready :: "string list"
  assume r: "ready \<noteq> []"
  let ?i = "fst (drop_children g ready indegree)"
  let ?n = "snd (drop_children g ready indegree)"
  have sub: "waiting_nodes g ?i \<subseteq> waiting_nodes g indegree"
    "set ?n \<subseteq> waiting_nodes g indegree - waiting_nodes g ?i"
    using drop_children_waiting by blast+
  have le: "card (waiting_nodes g ?i) \<le> card (waiting_nodes g indegree)" using sub(1) by (rule card_mono [OF finite_waiting])
  have lt: "card (waiting_nodes g ?i) < card (waiting_nodes g indegree)" if "?n \<noteq> []"
  proof (rule psubset_card_mono)
    from that have "\<exists>k. k \<in> set ?n" by (meson last_in_set)
    with sub(2) have "\<exists>k. k \<in> waiting_nodes g indegree \<and> k \<notin> waiting_nodes g ?i" by (meson DiffD1 DiffD2 subsetD)
    with sub(1) show "waiting_nodes g ?i \<subset> waiting_nodes g indegree" by (metis psubsetI)
  qed simp
  show "((g, ?i, sort (dedupe ?n)), (g, indegree, ready)) \<in>
      measures [\<lambda>(g, indegree, ready). card (waiting_nodes g indegree), \<lambda>(g, indegree, ready). length ready]"
    using le lt r by (cases "?n = []") auto
qed simp

declare level_loop.simps [simp del]

lemma level_loop_Nil [simp]: "level_loop g indegree [] = []"
  by (subst level_loop.simps) simp

definition graph_levels :: "execution_graph \<Rightarrow> string list list" where
  "graph_levels g = level_loop g (graph_indegree g) (graph_sources g)"

text \<open>\<open>topological_order\<close>: one node at a time, the ready nodes kept sorted.\<close>

definition ready_child :: "string \<Rightarrow> (string \<Rightarrow> int) \<times> string list \<Rightarrow> (string \<Rightarrow> int) \<times> string list" where
  "ready_child c st =
     (let i = fst st c - 1 in ((fst st)(c := i), if i = 0 then sort (snd st @ [c]) else snd st))"

definition order_step ::
  "execution_graph \<Rightarrow> string \<Rightarrow> (string \<Rightarrow> int) \<Rightarrow> string list \<Rightarrow> (string \<Rightarrow> int) \<times> string list" where
  "order_step g node indegree ready = fold ready_child (sort (graph_children g node)) (indegree, ready)"

lemma fold_ready_child:
  "fst (fold ready_child cs st) = (\<lambda>k. fst st k - int (count_list cs k)) \<and>
   set (snd (fold ready_child cs st)) =
     set (snd st) \<union> {k. 0 < fst st k \<and> fst st k \<le> int (count_list cs k)}"
proof (induction cs arbitrary: st)
  case (Cons c cs)
  let ?s = "ready_child c st"
  have f: "fst ?s = (fst st)(c := fst st c - 1)" by (simp add: ready_child_def Let_def)
  have s: "set (snd ?s) = set (snd st) \<union> (if fst st c = 1 then {c} else {})" by (simp add: ready_child_def Let_def)
  have "set (snd (fold ready_child (c # cs) st)) =
      set (snd st) \<union> (if fst st c = 1 then {c} else {}) \<union> {k. 0 < fst ?s k \<and> fst ?s k \<le> int (count_list cs k)}"
    using Cons [of ?s] s by simp
  also have "\<dots> = set (snd st) \<union> {k. 0 < fst st k \<and> fst st k \<le> int (count_list (c # cs) k)}"
    unfolding f by auto
  finally show ?case using Cons [of ?s] f by (auto simp: fun_eq_iff)
qed auto

lemma ready_child_measure:
  "c \<in> graph_ids g \<Longrightarrow>
     card (waiting_nodes g (fst (ready_child c st))) + length (snd (ready_child c st))
       \<le> card (waiting_nodes g (fst st)) + length (snd st)"
proof (cases "fst st c = 1")
  case True
  assume "c \<in> graph_ids g"
  with True have "waiting_nodes g (fst st) = insert c (waiting_nodes g (fst (ready_child c st)))"
    "c \<notin> waiting_nodes g (fst (ready_child c st))"
    by (auto simp: waiting_nodes_def ready_child_def Let_def)
  with True show ?thesis by (simp add: ready_child_def Let_def)
next
  case False
  have "waiting_nodes g (fst (ready_child c st)) \<subseteq> waiting_nodes g (fst st)"
    by (auto simp: waiting_nodes_def ready_child_def Let_def split: if_splits)
  then have "card (waiting_nodes g (fst (ready_child c st))) \<le> card (waiting_nodes g (fst st))"
    by (rule card_mono [OF finite_waiting])
  with False show ?thesis by (simp add: ready_child_def Let_def)
qed

lemma fold_ready_measure:
  "set cs \<subseteq> graph_ids g \<Longrightarrow>
     card (waiting_nodes g (fst (fold ready_child cs st))) + length (snd (fold ready_child cs st))
       \<le> card (waiting_nodes g (fst st)) + length (snd st)"
proof (induction cs arbitrary: st)
  case (Cons c cs)
  then show ?case using ready_child_measure [of c g st] Cons.IH [of "ready_child c st"] by force
qed simp

function order_loop :: "execution_graph \<Rightarrow> (string \<Rightarrow> int) \<Rightarrow> string list \<Rightarrow> string list" where
  "order_loop g indegree [] = []"
| "order_loop g indegree (node # ready) =
     node # order_loop g (fst (order_step g node indegree ready)) (snd (order_step g node indegree ready))"
  by pat_completeness auto

termination
proof (relation "measure (\<lambda>(g, indegree, ready). card (waiting_nodes g indegree) + length ready)")
  fix g :: execution_graph and indegree and node and ready
  have "set (sort (graph_children g node)) \<subseteq> graph_ids g" using graph_children_in by auto
  from fold_ready_measure [OF this, of "(indegree, ready)"]
  show "((g, fst (order_step g node indegree ready), snd (order_step g node indegree ready)),
         (g, indegree, node # ready)) \<in> measure (\<lambda>(g, indegree, ready). card (waiting_nodes g indegree) + length ready)"
    by (simp add: order_step_def case_prod_beta)
qed simp

definition topological_order :: "execution_graph \<Rightarrow> string list" where
  "topological_order g = order_loop g (graph_indegree g) (graph_sources g)"

section \<open>Lemmas\<close>

subsection \<open>Cycle detection finds exactly the cycles\<close>

definition dep_rel :: "execution_graph \<Rightarrow> (string \<times> string) set" where
  "dep_rel g = {(n, d). d \<in> set (deps_of g n)}"

text \<open>The cleared nodes are closed under dependencies and on no cycle.\<close>

definition cleared :: "execution_graph \<Rightarrow> string set \<Rightarrow> bool" where
  "cleared g v \<longleftrightarrow> (\<forall>x\<in>v. set (deps_of g x) \<subseteq> v \<and> (x, x) \<notin> (dep_rel g)\<^sup>+)"

lemma cleared_closed:
  assumes "cleared g v" "(x, y) \<in> (dep_rel g)\<^sup>+" "x \<in> v"
  shows "y \<in> v"
  using assms(2,3) by (induction rule: trancl_induct) (use assms(1) in \<open>auto simp: cleared_def dep_rel_def\<close>)

lemma cleared_insert:
  assumes v: "cleared g v" and d: "set (deps_of g n) \<subseteq> v"
  shows "cleared g (insert n v)"
proof -
  have "(n, n) \<notin> (dep_rel g)\<^sup>+"
  proof
    assume c: "(n, n) \<in> (dep_rel g)\<^sup>+"
    then obtain m where m: "(n, m) \<in> dep_rel g" "m = n \<or> (m, n) \<in> (dep_rel g)\<^sup>+" by (meson tranclD rtrancl_eq_or_trancl)
    then have "m \<in> v" using d by (auto simp: dep_rel_def)
    with m(2) cleared_closed [OF v] have "n \<in> v" by blast
    with v c show False by (auto simp: cleared_def)
  qed
  with v d show ?thesis by (auto simp: cleared_def)
qed

lemma visit_spec:
  "cleared g visited \<Longrightarrow> \<forall>p\<in>path. (p, node) \<in> (dep_rel g)\<^sup>+ \<Longrightarrow>
     (case visit g path node visited of
        (True, v) \<Rightarrow> \<exists>x. (x, x) \<in> (dep_rel g)\<^sup>+
      | (False, v) \<Rightarrow> cleared g v \<and> visited \<subseteq> v \<and> node \<in> v)"
  "cleared g visited \<Longrightarrow> \<forall>p\<in>path. \<forall>d\<in>set ds. (p, d) \<in> (dep_rel g)\<^sup>+ \<Longrightarrow>
     (case visit_deps g path ds visited of
        (True, v) \<Rightarrow> \<exists>x. (x, x) \<in> (dep_rel g)\<^sup>+
      | (False, v) \<Rightarrow> cleared g v \<and> visited \<subseteq> v \<and> set ds \<subseteq> v)"
proof (induction g path node visited and g path ds visited rule: visit_visit_deps.induct)
  case (1 g path node visited)
  show ?case
  proof (cases "node \<in> path \<or> node \<in> visited")
    case True
    with 1 show ?thesis by (auto simp: visit.simps [of g path node visited])
  next
    case False
    have "\<forall>p\<in>insert node path. \<forall>d\<in>set (deps_of g node). (p, d) \<in> (dep_rel g)\<^sup>+"
      using "1.prems"(2) by (auto simp: dep_rel_def intro: trancl_into_trancl)
    then have ih: "case visit_deps g (insert node path) (deps_of g node) visited of
        (True, v) \<Rightarrow> \<exists>x. (x, x) \<in> (dep_rel g)\<^sup>+
      | (False, v) \<Rightarrow> cleared g v \<and> visited \<subseteq> v \<and> set (deps_of g node) \<subseteq> v"
      using False "1.prems"(1) by (intro "1.IH") auto
    obtain b v where "visit_deps g (insert node path) (deps_of g node) visited = (b, v)" by fastforce
    with False ih cleared_insert show ?thesis by (cases b) (auto simp: visit.simps [of g path node visited])
  qed
next
  case (3 g path d ds visited)
  obtain b v where bv: "visit g path d visited = (b, v)" by fastforce
  show ?case
  proof (cases b)
    case True
    with bv 3 show ?thesis by auto
  next
    case False
    with bv 3 have v: "cleared g v" "visited \<subseteq> v" "d \<in> v" by auto
    obtain b' v' where bv': "visit_deps g path ds v = (b', v')" by fastforce
    have "case visit_deps g path ds v of (True, v') \<Rightarrow> \<exists>x. (x, x) \<in> (dep_rel g)\<^sup>+
      | (False, v') \<Rightarrow> cleared g v' \<and> v \<subseteq> v' \<and> set ds \<subseteq> v'"
      by (rule "3.IH"(2) [OF bv [symmetric]]) (use False v(1) "3.prems"(2) in auto)
    with bv bv' False v show ?thesis by (cases b') auto
  qed
qed simp

lemma visit_roots_spec:
  "cleared g visited \<Longrightarrow>
     if visit_roots g ns visited then \<exists>x. (x, x) \<in> (dep_rel g)\<^sup>+ else \<exists>v. cleared g v \<and> visited \<subseteq> v \<and> set ns \<subseteq> v"
proof (induction ns arbitrary: visited)
  case (Cons n ns)
  obtain b v where bv: "visit g {} n visited = (b, v)" by fastforce
  from visit_spec(1) [OF Cons.prems, of "{}" n]
  have sp: "if b then \<exists>x. (x, x) \<in> (dep_rel g)\<^sup>+ else cleared g v \<and> visited \<subseteq> v \<and> n \<in> v"
    by (cases b) (simp_all add: bv)
  show ?case
  proof (cases b)
    case True
    with bv sp show ?thesis by simp
  next
    case False
    then show ?thesis
      using bv sp Cons.IH [of v] by (simp split: if_splits) (meson subsetD subset_trans)
  qed
qed auto

text \<open>Without a cycle among the tasks the dependencies are acyclic, when only tasks have some.\<close>

lemma detect_cycles_iff:
  assumes "fst ` set (eg_dependencies g) \<subseteq> set (eg_task_ids g)"
  shows "detect_cycles g \<longleftrightarrow> \<not> acyclic (dep_rel g)"
proof
  assume "detect_cycles g"
  then show "\<not> acyclic (dep_rel g)"
    using visit_roots_spec [of g "{}" "eg_task_ids g"] by (auto simp: detect_cycles_def cleared_def acyclic_def)
next
  assume "\<not> acyclic (dep_rel g)"
  then obtain x where x: "(x, x) \<in> (dep_rel g)\<^sup>+" by (auto simp: acyclic_def)
  then obtain y where "(x, y) \<in> dep_rel g" by (meson tranclD)
  then have "deps_of g x \<noteq> []" by (auto simp: dep_rel_def)
  with deps_of_key assms have "x \<in> set (eg_task_ids g)" by blast
  with x show "detect_cycles g"
    using visit_roots_spec [of g "{}" "eg_task_ids g"]
    by (simp add: detect_cycles_def cleared_def split: if_splits) blast
qed

lemma validate_entries_None:
  "validate_entries known es = None \<longleftrightarrow> (\<forall>(t, ds)\<in>set es. t \<in> known \<and> set ds \<subseteq> known)"
proof (induction known es rule: validate_entries.induct)
  case (2 known t ds es)
  show ?case
  proof (cases "List.find (\<lambda>d. d \<notin> known) ds")
    case None
    then have "set ds \<subseteq> known" by (auto simp: find_None_iff)
    with None 2 show ?thesis by auto
  next
    case (Some d)
    then have "d \<in> set ds" "d \<notin> known" by (auto simp: find_Some_iff)
    with Some show ?thesis by auto
  qed
qed simp

lemma entries_known:
  "(\<forall>(t, ds)\<in>set es. t \<in> known \<and> set ds \<subseteq> known) \<longleftrightarrow> fst ` set es \<union> \<Union> (set ` snd ` set es) \<subseteq> known"
  by (induction es) auto

definition valid_graph :: "execution_graph \<Rightarrow> bool" where
  "valid_graph g \<longleftrightarrow> graph_ids g = set (eg_task_ids g) \<and> acyclic (dep_rel g)"

lemma validate_graph_iff: "validate_graph g = Inr () \<longleftrightarrow> valid_graph g"
proof -
  have known: "validate_entries (set (eg_task_ids g)) (eg_dependencies g) = None \<longleftrightarrow> graph_ids g = set (eg_task_ids g)"
    unfolding validate_entries_None entries_known graph_ids_def by blast
  have "graph_ids g = set (eg_task_ids g) \<Longrightarrow> detect_cycles g \<longleftrightarrow> \<not> acyclic (dep_rel g)"
    by (rule detect_cycles_iff) (auto simp: graph_ids_def)
  with known show ?thesis
    unfolding validate_graph_def valid_graph_def
    by (cases "validate_entries (set (eg_task_ids g)) (eg_dependencies g)") auto
qed

subsection \<open>The levels\<close>

lemma count_concat: "count_list (concat xss) k = sum_list (map (\<lambda>xs. count_list xs k) xss)"
  by (induction xss) auto

lemma count_sort [simp]: "count_list (sort (xs :: 'a::linorder list)) k = count_list xs k"
proof -
  have "count_list (insort x ys) k = count_list (x # ys) k" for x and ys :: "'a list"
    by (induction ys) auto
  then show ?thesis by (induction xs) (simp_all add: sort_key_def)
qed

lemma count_replicate: "count_list (replicate n x) k = (if x = k then n else 0)"
  by (induction n) auto

lemma children_count:
  "dict_ok (eg_dependencies g) \<Longrightarrow> count_list (graph_children g n) k = count_list (deps_of g k) n"
proof -
  have "dict_ok es \<Longrightarrow> count_list (concat (map (\<lambda>(t, ds). replicate (count_list ds n) t) es)) k =
      (case map_of es k of None \<Rightarrow> 0 | Some ds \<Rightarrow> count_list ds n)" for es :: "(string, string list) dict"
  proof (induction es)
    case (Cons e es)
    obtain t ds where e: "e = (t, ds)" by fastforce
    from Cons.prems have "dict_ok es" "t \<notin> fst ` set es" by (auto simp: dict_ok_def e)
    moreover from this(2) have "map_of es t = None" by (simp add: map_of_eq_None_iff)
    ultimately show ?case using Cons.IH by (simp add: e count_replicate)
  qed simp
  moreover assume "dict_ok (eg_dependencies g)"
  ultimately show ?thesis by (simp add: graph_children_def deps_of_def split: option.splits)
qed

lemma count_selected:
  "distinct cur \<Longrightarrow> sum_list (map (count_list xs) cur) = length (filter (\<lambda>x. x \<in> set cur) xs)"
proof (induction cur)
  case (Cons c cur)
  have "length (filter (\<lambda>x. x = c \<or> x \<in> set cur) xs) = count_list xs c + length (filter (\<lambda>x. x \<in> set cur) xs)"
    using Cons.prems by (induction xs) auto
  with Cons show ?case by simp
qed simp

text \<open>The counters after the nodes \<open>past\<close> are finished, and the nodes that may run.\<close>

definition left_degree :: "execution_graph \<Rightarrow> string set \<Rightarrow> string \<Rightarrow> int" where
  "left_degree g past = (\<lambda>k. int (length (filter (\<lambda>d. d \<notin> past) (deps_of g k))))"

definition runnable :: "execution_graph \<Rightarrow> string set \<Rightarrow> string set" where
  "runnable g past = {k \<in> graph_ids g. k \<notin> past \<and> set (deps_of g k) \<subseteq> past}"

lemma left_degree_0: "left_degree g past k = 0 \<longleftrightarrow> set (deps_of g k) \<subseteq> past"
  by (auto simp: left_degree_def filter_empty_conv)

lemma left_degree_nonneg: "0 \<le> left_degree g past k"
  by (simp add: left_degree_def)

lemma left_degree_drop:
  assumes "dict_ok (eg_dependencies g)" "distinct cur" "set cur \<inter> past = {}"
  shows "left_degree g past k - int (count_list (concat (map (\<lambda>n. sort (graph_children g n)) cur)) k)
    = left_degree g (past \<union> set cur) k"
proof -
  have "count_list (concat (map (\<lambda>n. sort (graph_children g n)) cur)) k = sum_list (map (count_list (deps_of g k)) cur)"
    using children_count [OF assms(1)] by (simp add: count_concat comp_def)
  also have "\<dots> = length (filter (\<lambda>x. x \<in> set cur) (deps_of g k))" using assms(2) by (rule count_selected)
  finally have c: "count_list (concat (map (\<lambda>n. sort (graph_children g n)) cur)) k
      = length (filter (\<lambda>x. x \<in> set cur) (deps_of g k))" .
  have "length (filter (\<lambda>d. d \<notin> past) ds) = length (filter (\<lambda>x. x \<in> set cur) ds) +
      length (filter (\<lambda>d. d \<notin> past \<union> set cur) ds)" for ds
    using assms(3) by (induction ds) auto
  then show ?thesis unfolding c left_degree_def by simp
qed

text \<open>What the loop keeps: the ready nodes are those that may run.\<close>

definition level_state :: "execution_graph \<Rightarrow> string set \<Rightarrow> (string \<Rightarrow> int) \<Rightarrow> string list \<Rightarrow> bool" where
  "level_state g past indegree ready \<longleftrightarrow>
     indegree = left_degree g past \<and> set ready = runnable g past \<and> distinct ready \<and>
     past \<subseteq> graph_ids g \<and> (\<forall>k\<in>past. set (deps_of g k) \<subseteq> past)"

lemma graph_nodes_set: "set (graph_nodes_list g) = graph_ids g"
  by (auto simp: graph_nodes_list_def graph_ids_def) force+

lemma level_state_start: "level_state g {} (graph_indegree g) (graph_sources g)"
proof -
  have "distinct (graph_nodes_list g)" by (simp add: graph_nodes_list_def)
  then show ?thesis
    by (auto simp: level_state_def left_degree_def graph_indegree_def runnable_def graph_sources_def
        graph_nodes_set fun_eq_iff)
qed

lemma level_state_step:
  assumes ok: "dict_ok (eg_dependencies g)" and st: "level_state g past indegree ready"
  shows "level_state g (past \<union> set ready) (fst (drop_children g ready indegree))
    (sort (dedupe (snd (drop_children g ready indegree))))"
proof -
  from st have i: "indegree = left_degree g past" and r: "set ready = runnable g past" "distinct ready"
    and d: "past \<subseteq> graph_ids g" "\<forall>k\<in>past. set (deps_of g k) \<subseteq> past"
    by (auto simp: level_state_def)
  have disj: "set ready \<inter> past = {}" using r(1) by (auto simp: runnable_def)
  note drop = left_degree_drop [OF ok r(2) disj]
  have f: "fst (drop_children g ready indegree) = left_degree g (past \<union> set ready)"
    unfolding drop_children_simps i using drop by (simp add: fun_eq_iff)
  have "set (snd (drop_children g ready indegree)) =
      {k. 0 < left_degree g past k \<and> left_degree g (past \<union> set ready) k = 0}"
    unfolding drop_children_simps i using drop left_degree_nonneg [of g "past \<union> set ready"]
    by (smt (verit) Collect_cong)
  also have "\<dots> = runnable g (past \<union> set ready)"
  proof (intro set_eqI iffI)
    fix k
    assume k: "k \<in> {k. 0 < left_degree g past k \<and> left_degree g (past \<union> set ready) k = 0}"
    then have "left_degree g past k \<noteq> 0" by simp
    then have n: "\<not> set (deps_of g k) \<subseteq> past" by (simp add: left_degree_0)
    then have "k \<in> graph_ids g" using deps_of_outside by fastforce
    moreover have "k \<notin> past \<union> set ready" using n d(2) r(1) by (auto simp: runnable_def)
    ultimately show "k \<in> runnable g (past \<union> set ready)" using k by (simp add: runnable_def left_degree_0)
  next
    fix k
    assume k: "k \<in> runnable g (past \<union> set ready)"
    then have "\<not> set (deps_of g k) \<subseteq> past" using r(1) by (auto simp: runnable_def)
    then have "left_degree g past k \<noteq> 0" by (simp add: left_degree_0)
    with left_degree_nonneg [of g past k] have "0 < left_degree g past k" by linarith
    with k show "k \<in> {k. 0 < left_degree g past k \<and> left_degree g (past \<union> set ready) k = 0}"
      by (simp add: runnable_def left_degree_0)
  qed
  finally have n: "set (snd (drop_children g ready indegree)) = runnable g (past \<union> set ready)" .
  show ?thesis
    unfolding level_state_def f using n d r(1) by (auto simp: runnable_def)
qed

text \<open>In an acyclic graph something may run as long as a node is left.\<close>

lemma runnable_exists:
  assumes "acyclic (dep_rel g)" "past \<subset> graph_ids g"
  shows "runnable g past \<noteq> {}"
proof -
  let ?R = "dep_rel g \<inter> (graph_ids g \<times> graph_ids g)"
  have "finite ?R" by (rule finite_subset [OF _ finite_cartesian_product [OF finite_graph_ids finite_graph_ids]]) blast
  moreover have "acyclic ?R" using assms(1) by (rule acyclic_subset) blast
  ultimately have "wf (?R\<inverse>)" by (rule finite_acyclic_wf_converse)
  from assms(2) have "\<exists>k. k \<in> graph_ids g - past" by blast
  with \<open>wf (?R\<inverse>)\<close> obtain k where k: "k \<in> graph_ids g - past" "\<And>y. (y, k) \<in> ?R\<inverse> \<Longrightarrow> y \<notin> graph_ids g - past"
    by (meson wfE_min)
  have "d \<in> past" if d: "d \<in> set (deps_of g k)" for d
  proof -
    have "d \<in> graph_ids g" using d deps_of_in by blast
    moreover have "(d, k) \<in> ?R\<inverse>" using d k(1) \<open>d \<in> graph_ids g\<close> by (auto simp: dep_rel_def)
    ultimately show ?thesis using k(2) by blast
  qed
  with k(1) show ?thesis by (auto simp: runnable_def)
qed

text \<open>Every node stands in one level, after all it depends on.\<close>

definition levels_ok :: "execution_graph \<Rightarrow> string set \<Rightarrow> string list list \<Rightarrow> bool" where
  "levels_ok g past ls \<longleftrightarrow>
     distinct (concat ls) \<and> set (concat ls) \<inter> past = {} \<and> set (concat ls) \<union> past = graph_ids g \<and>
     (\<forall>pre l post. ls = pre @ l # post \<longrightarrow>
        (\<forall>t\<in>set l. set (deps_of g t) \<subseteq> past \<union> set (concat pre)))"

lemma levels_ok_Cons:
  assumes "levels_ok g (past \<union> set l) ls" "distinct l" "set l = runnable g past"
  shows "levels_ok g past (l # ls)"
proof -
  have "set l \<inter> past = {}" using assms(3) by (auto simp: runnable_def)
  moreover have "\<forall>t\<in>set m. set (deps_of g t) \<subseteq> past \<union> set (concat pre)"
    if "l # ls = pre @ m # post" for pre m post
  proof (cases pre)
    case Nil
    with that assms(3) show ?thesis by (auto simp: runnable_def)
  next
    case (Cons a pre')
    with that assms(1) show ?thesis by (fastforce simp: levels_ok_def)
  qed
  ultimately show ?thesis using assms by (auto simp: levels_ok_def)
qed

lemma level_loop_ok:
  "dict_ok (eg_dependencies g) \<Longrightarrow> acyclic (dep_rel g) \<Longrightarrow> level_state g past indegree ready \<Longrightarrow>
     levels_ok g past (level_loop g indegree ready)"
proof (induction g indegree ready arbitrary: past rule: level_loop.induct)
  case (1 g indegree ready)
  show ?case
  proof (cases "ready = []")
    case True
    then have "runnable g past = {}" "past \<subseteq> graph_ids g" using "1.prems"(3) by (auto simp: level_state_def)
    with runnable_exists [OF "1.prems"(2), of past] have "past = graph_ids g" by blast
    with True show ?thesis by (simp add: levels_ok_def)
  next
    case False
    note step = level_state_step [OF "1.prems"(1,3)]
    from "1.IH" [OF False "1.prems"(1,2) step] have "levels_ok g (past \<union> set ready)
        (level_loop g (fst (drop_children g ready indegree)) (sort (dedupe (snd (drop_children g ready indegree)))))" .
    moreover have "distinct ready" "set ready = runnable g past" using "1.prems"(3) by (auto simp: level_state_def)
    ultimately show ?thesis using False by (simp add: level_loop.simps [of g indegree ready] levels_ok_Cons)
  qed
qed

lemma graph_levels_ok:
  "dict_ok (eg_dependencies g) \<Longrightarrow> validate_graph g = Inr () \<Longrightarrow> levels_ok g {} (graph_levels g)"
  unfolding graph_levels_def validate_graph_iff valid_graph_def
  by (intro level_loop_ok level_state_start) auto

subsection \<open>The topological order\<close>

lemma newly_runnable:
  assumes ok: "dict_ok (eg_dependencies g)" and past: "\<forall>k\<in>past. set (deps_of g k) \<subseteq> past"
    and cur: "distinct cur" "set cur \<subseteq> runnable g past"
  shows "{k. 0 < left_degree g past k \<and> left_degree g past k \<le>
            int (count_list (concat (map (\<lambda>n. sort (graph_children g n)) cur)) k)}
      = runnable g (past \<union> set cur) - runnable g past"
proof (intro set_eqI)
  fix k
  have disj: "set cur \<inter> past = {}" using cur(2) by (auto simp: runnable_def)
  have "0 < left_degree g past k \<longleftrightarrow> \<not> set (deps_of g k) \<subseteq> past"
    using left_degree_nonneg [of g past k] left_degree_0 [of g past k] by linarith
  moreover have "left_degree g past k \<le> int (count_list (concat (map (\<lambda>n. sort (graph_children g n)) cur)) k)
      \<longleftrightarrow> set (deps_of g k) \<subseteq> past \<union> set cur"
    using left_degree_nonneg [of g "past \<union> set cur" k] left_degree_0 [of g "past \<union> set cur" k]
      left_degree_drop [OF ok cur(1) disj, of k] by linarith
  moreover have "k \<in> graph_ids g" if "\<not> set (deps_of g k) \<subseteq> past" using that deps_of_outside by fastforce
  ultimately show "k \<in> {k. 0 < left_degree g past k \<and> left_degree g past k \<le>
            int (count_list (concat (map (\<lambda>n. sort (graph_children g n)) cur)) k)} \<longleftrightarrow>
      k \<in> runnable g (past \<union> set cur) - runnable g past"
    using past cur(2) by (auto simp: runnable_def)
qed

lemma ready_child_distinct:
  "distinct (snd st) \<and> (\<forall>k\<in>set (snd st). fst st k \<le> 0) \<Longrightarrow>
     distinct (snd (ready_child c st)) \<and> (\<forall>k\<in>set (snd (ready_child c st)). fst (ready_child c st) k \<le> 0)"
  by (auto simp: ready_child_def Let_def)

lemma fold_ready_distinct:
  "distinct (snd st) \<and> (\<forall>k\<in>set (snd st). fst st k \<le> 0) \<Longrightarrow> distinct (snd (fold ready_child cs st))"
proof (induction cs arbitrary: st)
  case (Cons c cs)
  from Cons.IH [OF ready_child_distinct [OF Cons.prems]] show ?case by simp
qed simp

lemma order_step_state:
  assumes ok: "dict_ok (eg_dependencies g)" and st: "level_state g past indegree (node # ready)"
  shows "level_state g (insert node past) (fst (order_step g node indegree ready)) (snd (order_step g node indegree ready))"
proof -
  from st have i: "indegree = left_degree g past" and r: "insert node (set ready) = runnable g past"
    "distinct ready" "node \<notin> set ready"
    and d: "past \<subseteq> graph_ids g" "\<forall>k\<in>past. set (deps_of g k) \<subseteq> past"
    by (auto simp: level_state_def)
  have node: "node \<in> runnable g past" using r(1) by blast
  have one: "concat (map (\<lambda>n. sort (graph_children g n)) [node]) = sort (graph_children g node)" by simp
  note new = newly_runnable [OF ok d(2), of "[node]", unfolded one]
  have drop: "left_degree g past k - int (count_list (sort (graph_children g node)) k) = left_degree g (insert node past) k" for k
    using left_degree_drop [OF ok, of "[node]" past k, unfolded one] node by (auto simp: runnable_def)
  have f: "fst (order_step g node indegree ready) = left_degree g (insert node past)"
    unfolding order_step_def conjunct1 [OF fold_ready_child] i by (simp only: fst_conv drop)
  have "set (snd (order_step g node indegree ready)) =
      set ready \<union> (runnable g (insert node past) - runnable g past)"
    unfolding order_step_def conjunct2 [OF fold_ready_child] i using new node by simp
  also have "\<dots> = runnable g (insert node past)"
    using r(1,3) by (auto simp: runnable_def)
  finally have s: "set (snd (order_step g node indegree ready)) = runnable g (insert node past)" .
  have "\<forall>k\<in>set ready. indegree k \<le> 0"
  proof
    fix k
    assume "k \<in> set ready"
    then have "k \<in> runnable g past" using r(1) by blast
    then have "left_degree g past k = 0" by (simp add: left_degree_0 runnable_def)
    then show "indegree k \<le> 0" by (simp add: i)
  qed
  then have "distinct (snd (order_step g node indegree ready))"
    unfolding order_step_def using r(2) by (intro fold_ready_distinct) simp
  with s f d node show ?thesis by (auto simp: level_state_def runnable_def)
qed

lemma order_loop_ok:
  "dict_ok (eg_dependencies g) \<Longrightarrow> acyclic (dep_rel g) \<Longrightarrow> level_state g past indegree ready \<Longrightarrow>
     levels_ok g past (map (\<lambda>n. [n]) (order_loop g indegree ready))"
proof (induction g indegree ready arbitrary: past rule: order_loop.induct)
  case (1 g indegree)
  then have "runnable g past = {}" "past \<subseteq> graph_ids g" by (auto simp: level_state_def)
  with runnable_exists [OF "1"(2), of past] have "past = graph_ids g" by blast
  then show ?case by (simp add: levels_ok_def)
next
  case (2 g indegree node ready)
  note step = order_step_state [OF "2.prems"(1,3)]
  let ?os = "order_loop g (fst (order_step g node indegree ready)) (snd (order_step g node indegree ready))"
  from "2.IH" [OF "2.prems"(1,2) step] have ih: "levels_ok g (insert node past) (map (\<lambda>n. [n]) ?os)" .
  have node: "node \<in> runnable g past" using "2.prems"(3) by (auto simp: level_state_def)
  have "\<forall>t\<in>set m. set (deps_of g t) \<subseteq> past \<union> set (concat pre)"
    if "[node] # map (\<lambda>n. [n]) ?os = pre @ m # post" for pre m post
  proof (cases pre)
    case Nil
    with that node show ?thesis by (auto simp: runnable_def)
  next
    case (Cons a pre')
    with that ih show ?thesis by (fastforce simp: levels_ok_def)
  qed
  with ih node show ?case unfolding levels_ok_def by (auto simp: runnable_def comp_def)
qed

lemma topological_order_ok:
  "dict_ok (eg_dependencies g) \<Longrightarrow> validate_graph g = Inr () \<Longrightarrow>
     levels_ok g {} (map (\<lambda>n. [n]) (topological_order g))"
  unfolding topological_order_def validate_graph_iff valid_graph_def
  by (intro order_loop_ok level_state_start) auto

end
