(* ===== verification/Parallel_Scheduler.thy ===== *)
theory Parallel_Scheduler
  imports Complex_Main Parallel_Graph Runtime_Gate
begin

text \<open>
  The batch scheduler of \<open>app/runtime_parallel\<close>: resources (\<open>allocator.py\<close>), workers
  (\<open>worker.py\<close>, \<open>manager.py\<close>), retries and the choice of the best attempt
  (\<open>engine.py\<close>, \<open>aggregator.py\<close>, \<open>RuntimeScheduler._execute_with_retries\<close>), the
  level-by-level schedule (\<open>scheduler.py\<close>) and \<open>RuntimeEngine.run_batch\<close> over it. What
  one execution of the runtime answers is an argument, for each task and attempt.
\<close>

section \<open>Resources\<close>

record resource_allocator =
  ra_cpu :: int
  ra_memory :: int
  ra_tokens :: int
  ra_internet :: int

definition default_allocator :: resource_allocator where
  "default_allocator = \<lparr>ra_cpu = 100, ra_memory = 100, ra_tokens = 100, ra_internet = 0\<rparr>"

definition allocate :: "int \<Rightarrow> int \<Rightarrow> int \<Rightarrow> int \<Rightarrow> resource_allocator \<Rightarrow> bool \<times> resource_allocator" where
  "allocate cpu memory tokens internet a =
     (if ra_cpu a < cpu \<or> ra_memory a < memory \<or> ra_tokens a < tokens \<or> ra_internet a < internet
      then (False, a)
      else (True, a\<lparr>ra_cpu := ra_cpu a - cpu, ra_memory := ra_memory a - memory,
                    ra_tokens := ra_tokens a - tokens, ra_internet := ra_internet a - internet\<rparr>))"

definition release :: "int \<Rightarrow> int \<Rightarrow> int \<Rightarrow> int \<Rightarrow> resource_allocator \<Rightarrow> resource_allocator" where
  "release cpu memory tokens internet a =
     a\<lparr>ra_cpu := ra_cpu a + cpu, ra_memory := ra_memory a + memory,
       ra_tokens := ra_tokens a + tokens, ra_internet := ra_internet a + internet\<rparr>"

section \<open>Workers\<close>

datatype worker_state =
  WORKER_CREATED | WORKER_ASSIGNED | WORKER_RUNNING | WORKER_WAITING |
  WORKER_COMPLETED | WORKER_FAILED | WORKER_CANCELLED | WORKER_ARCHIVED

record execution_worker =
  ew_worker_id :: string
  ew_task_id :: string
  ew_status :: worker_state

type_synonym worker_pool = "(string, execution_worker) dict"

definition create_worker :: "execution_worker \<Rightarrow> worker_pool \<Rightarrow> worker_pool" where
  "create_worker w pool = AList.update (ew_worker_id w) (w\<lparr>ew_status := WORKER_CREATED\<rparr>) pool"

definition destroy_worker :: "string \<Rightarrow> worker_pool \<Rightarrow> worker_pool" where
  "destroy_worker wid pool = AList.delete wid pool"

definition count_workers :: "worker_state \<Rightarrow> worker_pool \<Rightarrow> nat" where
  "count_workers s pool = length (filter (\<lambda>(k, w). ew_status w = s) pool)"

definition active_workers :: "worker_pool \<Rightarrow> nat" where
  "active_workers pool = length (filter (\<lambda>(k, w).
     ew_status w \<in> {WORKER_CREATED, WORKER_ASSIGNED, WORKER_RUNNING, WORKER_WAITING}) pool)"

definition cleanup_workers :: "worker_pool \<Rightarrow> worker_pool" where
  "cleanup_workers pool = map (\<lambda>(k, w).
     (k, if ew_status w \<in> {WORKER_COMPLETED, WORKER_FAILED, WORKER_CANCELLED}
         then w\<lparr>ew_status := WORKER_ARCHIVED\<rparr> else w)) pool"

record worker_result =
  wr_worker_id :: string
  wr_success :: bool
  wr_output :: "(string, pyval) dict"
  wr_confidence :: rat
  wr_provenance :: string
  wr_errors :: "string list"

text \<open>\<open>aggregate\<close>: the best result of each worker, the workers in order.\<close>

definition result_rank :: "worker_result \<Rightarrow> string \<times> bool \<times> rat" where
  "result_rank r = (wr_worker_id r, \<not> wr_success r, - wr_confidence r)"

fun first_per_worker :: "string list \<Rightarrow> worker_result list \<Rightarrow> worker_result list" where
  "first_per_worker seen [] = []"
| "first_per_worker seen (r # rs) =
     (if wr_worker_id r \<in> set seen then first_per_worker seen rs
      else r # first_per_worker (wr_worker_id r # seen) rs)"

definition aggregate :: "worker_result list \<Rightarrow> worker_result list" where
  "aggregate rs = first_per_worker [] (sort_key result_rank rs)"

record failure_recovery =
  fr_max_retries :: nat
  fr_backoff_base :: rat

definition should_retry :: "failure_recovery \<Rightarrow> worker_state \<Rightarrow> nat \<Rightarrow> bool" where
  "should_retry f status attempt = (attempt \<le> fr_max_retries f \<and> status = WORKER_FAILED)"

definition backoff_ms :: "failure_recovery \<Rightarrow> nat \<Rightarrow> rat" where
  "backoff_ms f attempt =
     (if fr_backoff_base f \<le> 0 then 0 else min (fr_backoff_base f * 2 ^ (attempt - 1)) 30000)"

section \<open>One task\<close>

text \<open>
  What the executor answers at an attempt, and the world around a task. \<open>CancelledError\<close> is no \<open>Exception\<close>:
  the handlers of the scheduler let it through, and the loop that collects the results of a level reads
  \<open>task_id\<close> of it, which raises and ends the batch.
\<close>

datatype attempt_answer = AnswerTimeout string | AnswerRaised string | AnswerCancelled | AnswerResult runtime_result

datatype run_fault = RunRaised string | RunCancelled

datatype batch_error = GraphRefused graph_error | CollectionBroken

record worker_env =
  we_find :: "runtime_task \<Rightarrow> (string, string option) result"
  we_cancelled :: "string \<Rightarrow> nat \<Rightarrow> bool"
  we_allocates :: "string \<Rightarrow> bool"
  we_answer :: "string \<Rightarrow> nat \<Rightarrow> attempt_answer"
  we_confidence :: "runtime_result \<Rightarrow> (string, rat) result"
  we_recovery :: failure_recovery

text \<open>The best registered worker, if any, or one named after the task; the search may raise.\<close>

definition assigned_worker :: "worker_env \<Rightarrow> runtime_task \<Rightarrow> (string, string) result" where
  "assigned_worker W task = res_bind (we_find W task) (\<lambda>found.
     Inr (case found of Some w \<Rightarrow> w | None \<Rightarrow> ''worker-'' @ rt_task_id task))"

definition plain_result :: "string \<Rightarrow> task_status \<Rightarrow> string \<Rightarrow> runtime_result" where
  "plain_result tid status error =
     \<lparr>rr_task_id = tid, rr_status = status, rr_routing = None, rr_pause = None, rr_output = [],
      rr_error = Some error, rr_started_at = None, rr_finished_at = None, rr_duration = 0, rr_metadata = []\<rparr>"

text \<open>\<open>None\<close> is a \<open>CancelledError\<close>.\<close>

definition attempt_result :: "worker_env \<Rightarrow> string \<Rightarrow> runtime_task \<Rightarrow> nat \<Rightarrow> runtime_result option" where
  "attempt_result W wid task attempt =
     map_option (\<lambda>r. r\<lparr>rr_metadata := AList.update ''worker_id'' (PStr wid) (rr_metadata r)\<rparr>)
       (if we_cancelled W (rt_task_id task) attempt
        then Some (plain_result (rt_task_id task) CANCELLED ''cancelled'')
        else (case we_answer W (rt_task_id task) attempt of
                AnswerTimeout t \<Rightarrow>
                  Some (plain_result (rt_task_id task) FAILED (''worker timeout after '' @ t @ ''s''))
              | AnswerRaised e \<Rightarrow> Some (plain_result (rt_task_id task) FAILED e)
              | AnswerCancelled \<Rightarrow> None
              | AnswerResult r \<Rightarrow> Some r))"

definition worker_state_of :: "task_status \<Rightarrow> worker_state" where
  "worker_state_of s =
     (if s = COMPLETED then WORKER_COMPLETED else if s = CANCELLED then WORKER_CANCELLED else WORKER_FAILED)"

definition worker_result_of :: "string \<Rightarrow> runtime_task \<Rightarrow> nat \<Rightarrow> rat \<Rightarrow> runtime_result \<Rightarrow> worker_result" where
  "worker_result_of wid task attempt confidence r =
     \<lparr>wr_worker_id = wid, wr_success = (rr_status r = COMPLETED), wr_output = rr_output r,
      wr_confidence = confidence,
      wr_provenance = ''runtime:'' @ rt_task_id task @
        (if attempt > 1 then '':retry'' @ nat_str attempt else []),
      wr_errors = (case rr_error r of None \<Rightarrow> [] | Some e \<Rightarrow> if e = [] then [] else [e])\<rparr>"

text \<open>The runtime result of the attempt that the aggregator ranks first.\<close>

definition pick_best :: "(worker_result \<times> runtime_result) list \<Rightarrow> runtime_result" where
  "pick_best attempts = snd (hd (sort_key (\<lambda>a. result_rank (fst a)) attempts))"

function execute_with_retries ::
  "worker_env \<Rightarrow> string \<Rightarrow> runtime_task \<Rightarrow> nat \<Rightarrow> (worker_result \<times> runtime_result) list \<Rightarrow>
   (run_fault, runtime_result) result" where
  "execute_with_retries W wid task attempt attempts =
     (case attempt_result W wid task attempt of
        None \<Rightarrow> Inl RunCancelled
      | Some r \<Rightarrow>
          (case we_confidence W r of
             Inl e \<Rightarrow> Inl (RunRaised e)
           | Inr c \<Rightarrow>
               (let attempts' = attempts @ [(worker_result_of wid task attempt c r, r)]
                in if rr_status r \<in> {COMPLETED, CANCELLED} then Inr (pick_best attempts')
                   else if \<not> should_retry (we_recovery W) (worker_state_of (rr_status r)) attempt
                   then Inr (pick_best attempts')
                   else execute_with_retries W wid task (Suc attempt) attempts')))"
  by pat_completeness auto

termination
  by (relation "measure (\<lambda>(W, wid, task, attempt, attempts). Suc (fr_max_retries (we_recovery W)) - attempt)")
    (auto simp: should_retry_def)

declare execute_with_retries.simps [simp del]

definition run_one :: "worker_env \<Rightarrow> runtime_task \<Rightarrow> (run_fault, runtime_result) result" where
  "run_one W task =
     (case assigned_worker W task of
        Inl e \<Rightarrow> Inl (RunRaised e)
      | Inr wid \<Rightarrow>
          (if we_cancelled W (rt_task_id task) 0 then Inr (plain_result (rt_task_id task) CANCELLED ''cancelled'')
           else if \<not> we_allocates W (rt_task_id task)
           then Inr (plain_result (rt_task_id task) FAILED ''budget exhausted'')
           else execute_with_retries W wid task 1 []))"

section \<open>The schedule\<close>

text \<open>
  \<open>ss_ran\<close> lists the tasks handed to a worker, in the order of the levels; \<open>ss_broken\<close> says that the
  collection of the results has raised, after which nothing more happens.
\<close>

record schedule_state =
  ss_completed :: "string set"
  ss_failed :: "string set"
  ss_cancelled :: "string set"
  ss_results :: "(string, runtime_result) dict"
  ss_ran :: "string list"
  ss_broken :: bool

definition start_schedule :: schedule_state where
  "start_schedule = \<lparr>ss_completed = {}, ss_failed = {}, ss_cancelled = {}, ss_results = [], ss_ran = [],
      ss_broken = False\<rparr>"

definition task_in :: "runtime_task list \<Rightarrow> string \<Rightarrow> runtime_task option" where
  "task_in tasks tid = map_of (rev (map (\<lambda>t. (rt_task_id t, t)) tasks)) tid"

definition task_deps :: "execution_graph \<Rightarrow> runtime_task \<Rightarrow> string list" where
  "task_deps g task =
     (case map_of (eg_dependencies g) (rt_task_id task) of None \<Rightarrow> rt_dependencies task | Some ds \<Rightarrow> ds)"

text \<open>One task of a level: failed, cancelled, skipped, or ready.\<close>

definition admit_task ::
  "execution_graph \<Rightarrow> runtime_task list \<Rightarrow> string \<Rightarrow> schedule_state \<times> runtime_task list \<Rightarrow>
   schedule_state \<times> runtime_task list" where
  "admit_task g tasks tid sr =
     (case task_in tasks tid of
        None \<Rightarrow> sr
      | Some task \<Rightarrow>
          (let (st, ready) = sr; deps = task_deps g task in
           if list_ex (\<lambda>d. d \<in> ss_failed st) deps
           then (st\<lparr>ss_failed := insert tid (ss_failed st),
                    ss_results := AList.update tid (plain_result tid FAILED ''dependency failed'') (ss_results st)\<rparr>, ready)
           else if list_ex (\<lambda>d. d \<in> ss_cancelled st) deps
           then (st\<lparr>ss_cancelled := insert tid (ss_cancelled st),
                    ss_results := AList.update tid (plain_result tid CANCELLED ''dependency cancelled'') (ss_results st)\<rparr>, ready)
           else if \<not> list_all (\<lambda>d. d \<in> ss_completed st) deps then (st, ready)
           else (st, ready @ [task])))"

definition finish_task :: "runtime_task \<times> (run_fault, runtime_result) result \<Rightarrow> schedule_state \<Rightarrow> schedule_state" where
  "finish_task ti st =
     (if ss_broken st then st else
      case ti of (task, item) \<Rightarrow>
        (case item of
           Inl RunCancelled \<Rightarrow> st\<lparr>ss_broken := True\<rparr>
         | Inl (RunRaised e) \<Rightarrow>
             st\<lparr>ss_failed := insert (rt_task_id task) (ss_failed st),
                ss_results := AList.update (rt_task_id task)
                  (plain_result (rt_task_id task) FAILED (''unhandled worker exception: '' @ e)) (ss_results st)\<rparr>
         | Inr r \<Rightarrow>
             (let st1 = st\<lparr>ss_results := AList.update (rr_task_id r) r (ss_results st)\<rparr>
              in if rr_status r = COMPLETED then st1\<lparr>ss_completed := insert (rr_task_id r) (ss_completed st1)\<rparr>
                 else if rr_status r = CANCELLED then st1\<lparr>ss_cancelled := insert (rr_task_id r) (ss_cancelled st1)\<rparr>
                 else st1\<lparr>ss_failed := insert (rr_task_id r) (ss_failed st1)\<rparr>)))"

definition run_level ::
  "execution_graph \<Rightarrow> runtime_task list \<Rightarrow> (runtime_task \<Rightarrow> (run_fault, runtime_result) result) \<Rightarrow> string list \<Rightarrow>
   schedule_state \<Rightarrow> schedule_state" where
  "run_level g tasks run1 level st =
     (if ss_broken st then st else
      let (st1, ready) = fold (admit_task g tasks) level (st, []);
          gathered = map (\<lambda>t. (t, run1 t)) ready
      in fold finish_task gathered (st1\<lparr>ss_ran := ss_ran st1 @ map rt_task_id ready\<rparr>))"

definition schedule_final ::
  "execution_graph \<Rightarrow> runtime_task list \<Rightarrow> (runtime_task \<Rightarrow> (run_fault, runtime_result) result) \<Rightarrow> schedule_state" where
  "schedule_final g tasks run1 = fold (run_level g tasks run1) (graph_levels g) start_schedule"

definition schedule ::
  "execution_graph \<Rightarrow> runtime_task list \<Rightarrow> (runtime_task \<Rightarrow> (run_fault, runtime_result) result) \<Rightarrow>
   (batch_error, runtime_result list) result" where
  "schedule g tasks run1 =
     (case validate_graph g of
        Inl e \<Rightarrow> Inl (GraphRefused e)
      | Inr _ \<Rightarrow>
          (let st = schedule_final g tasks run1
           in if ss_broken st then Inl CollectionBroken
              else Inr (List.map_filter (\<lambda>t. map_of (ss_results st) (rt_task_id t)) tasks)))"

section \<open>The batch of the runtime engine\<close>

definition batch_graph :: "runtime_task list \<Rightarrow> execution_graph" where
  "batch_graph tasks =
     \<lparr>eg_task_ids = map rt_task_id tasks,
      eg_dependencies = fold (\<lambda>t. AList.update (rt_task_id t) (rt_dependencies t)) tasks []\<rparr>"

definition external_dependency :: "runtime_task list \<Rightarrow> bool" where
  "external_dependency tasks =
     list_ex (\<lambda>t. list_ex (\<lambda>d. d \<notin> rt_task_id ` set tasks) (rt_dependencies t)) tasks"

text \<open>
  With a dependency outside the batch every task is run at once (\<open>RuntimeExecutionPool\<close>, whose
  answers are those of the engine's \<open>run\<close>); otherwise the scheduler runs the levels.
\<close>

definition pool_result :: "runtime_task \<Rightarrow> (run_fault, runtime_result) result \<Rightarrow> runtime_result option" where
  "pool_result t item =
     (case item of
        Inl RunCancelled \<Rightarrow> None
      | Inl (RunRaised e) \<Rightarrow> Some (plain_result (rt_task_id t) FAILED (''Unhandled runtime exception: '' @ e))
      | Inr r \<Rightarrow> Some r)"

definition pool_results ::
  "runtime_task list \<Rightarrow> (runtime_task \<Rightarrow> (run_fault, runtime_result) result) \<Rightarrow>
   (batch_error, runtime_result list) result" where
  "pool_results tasks answer =
     (if list_ex (\<lambda>t. pool_result t (answer t) = None) tasks then Inl CollectionBroken
      else Inr (map (\<lambda>t. the (pool_result t (answer t))) tasks))"

definition run_batch ::
  "worker_env \<Rightarrow> (runtime_task \<Rightarrow> (run_fault, runtime_result) result) \<Rightarrow> runtime_task list \<Rightarrow>
   (batch_error, runtime_result list) result" where
  "run_batch W answer tasks =
     (if external_dependency tasks then pool_results tasks answer
      else schedule (batch_graph tasks) tasks
             (run_one (W\<lparr>we_recovery := \<lparr>fr_max_retries = 0, fr_backoff_base = 0\<rparr>\<rparr>)))"

section \<open>Lemmas\<close>

subsection \<open>Resources and retries\<close>

lemma allocate_release:
  "allocate c m t i a = (True, b) \<Longrightarrow> release c m t i b = a"
  by (auto simp: allocate_def release_def split: if_splits)

definition allocator_ok :: "resource_allocator \<Rightarrow> bool" where
  "allocator_ok a \<longleftrightarrow> 0 \<le> ra_cpu a \<and> 0 \<le> ra_memory a \<and> 0 \<le> ra_tokens a \<and> 0 \<le> ra_internet a"

lemma allocate_ok: "allocator_ok a \<Longrightarrow> allocator_ok (snd (allocate c m t i a))"
  by (auto simp: allocator_ok_def allocate_def)

lemma pick_best_in: "attempts \<noteq> [] \<Longrightarrow> \<exists>w. (w, pick_best attempts) \<in> set attempts"
proof -
  assume "attempts \<noteq> []"
  then have "sort_key (\<lambda>a. result_rank (fst a)) attempts \<noteq> []"
    by (metis length_0_conv length_sort)
  then have "hd (sort_key (\<lambda>a. result_rank (fst a)) attempts) \<in> set attempts" by (metis hd_in_set set_sort)
  then show ?thesis unfolding pick_best_def by (metis prod.collapse)
qed

lemma pick_best_least:
  "(w, r) \<in> set attempts \<Longrightarrow> \<exists>v. (v, pick_best attempts) \<in> set attempts \<and> result_rank v \<le> result_rank w"
proof -
  let ?s = "sort_key (\<lambda>a. result_rank (fst a)) attempts"
  assume m: "(w, r) \<in> set attempts"
  then obtain x xs where s: "?s = x # xs" by (cases ?s) (metis empty_iff list.set(1) set_sort, blast)
  have "sorted (map (\<lambda>a. result_rank (fst a)) ?s)" by (rule sorted_sort_key)
  moreover have "(w, r) \<in> set (x # xs)" using m by (metis s set_sort)
  ultimately have "result_rank (fst x) \<le> result_rank w" unfolding s by auto
  moreover have "x \<in> set attempts" by (metis list.set_intros(1) s set_sort)
  ultimately show ?thesis unfolding pick_best_def s by (metis list.sel(1) prod.collapse)
qed

text \<open>The aggregator agrees: its first result is the one picked.\<close>

lemma aggregate_head: "rs \<noteq> [] \<Longrightarrow> hd (aggregate rs) = hd (sort_key result_rank rs)"
  by (cases "sort_key result_rank rs") (auto simp: aggregate_def dest: arg_cong [of _ _ length])

lemma execute_with_retries_answers:
  "\<forall>a\<in>set attempts. \<exists>k. Some (snd a) = attempt_result W wid task k \<Longrightarrow>
   execute_with_retries W wid task attempt attempts = Inr r \<Longrightarrow> \<exists>k. Some r = attempt_result W wid task k"
proof (induction W wid task attempt attempts rule: execute_with_retries.induct)
  case (1 W wid task attempt attempts)
  from "1.prems"(2) obtain q where q: "attempt_result W wid task attempt = Some q"
    by (subst (asm) execute_with_retries.simps) (auto split: option.splits)
  from "1.prems"(2) q obtain c where c: "we_confidence W q = Inr c"
    by (subst (asm) execute_with_retries.simps) (auto simp: Let_def split: sum.splits)
  let ?as = "attempts @ [(worker_result_of wid task attempt c q, q)]"
  have all: "\<forall>a\<in>set ?as. \<exists>k. Some (snd a) = attempt_result W wid task k" using "1.prems"(1) q by (auto intro: sym)
  show ?case
  proof (cases "rr_status q \<in> {COMPLETED, CANCELLED} \<or>
      \<not> should_retry (we_recovery W) (worker_state_of (rr_status q)) attempt")
    case True
    with "1.prems"(2) c q have "r = pick_best ?as"
      by (subst (asm) execute_with_retries.simps) (auto simp: Let_def split: if_splits)
    moreover have "\<exists>w. (w, pick_best ?as) \<in> set ?as" by (rule pick_best_in) simp
    ultimately show ?thesis using all by (metis snd_conv)
  next
    case False
    with "1.prems"(2) c q have "execute_with_retries W wid task (Suc attempt) ?as = Inr r"
      by (subst (asm) execute_with_retries.simps) (auto simp: Let_def)
    with False c q all "1.IH" [OF q c refl] show ?thesis by auto
  qed
qed

text \<open>A run is cancelled only by an executor that raised \<open>CancelledError\<close>.\<close>

lemma execute_with_retries_cancelled:
  "execute_with_retries W wid task attempt attempts = Inl RunCancelled \<Longrightarrow>
     \<exists>k. we_answer W (rt_task_id task) k = AnswerCancelled"
proof (induction W wid task attempt attempts rule: execute_with_retries.induct)
  case (1 W wid task attempt attempts)
  show ?case
  proof (cases "attempt_result W wid task attempt")
    case None
    then show ?thesis by (auto simp: attempt_result_def split: if_splits attempt_answer.splits)
  next
    case (Some q)
    with "1.prems" obtain c where c: "we_confidence W q = Inr c"
      by (subst (asm) execute_with_retries.simps) (auto split: sum.splits)
    from "1.prems" Some c have "rr_status q \<notin> {COMPLETED, CANCELLED}"
      "should_retry (we_recovery W) (worker_state_of (rr_status q)) attempt"
      "execute_with_retries W wid task (Suc attempt) (attempts @ [(worker_result_of wid task attempt c q, q)]) = Inl RunCancelled"
      by (subst (asm) execute_with_retries.simps; simp add: Let_def split: if_splits)+
    with "1.IH" [OF Some c refl] show ?thesis by simp
  qed
qed

lemma run_one_cancelled: "run_one W t = Inl RunCancelled \<Longrightarrow> \<exists>k. we_answer W (rt_task_id t) k = AnswerCancelled"
  by (auto simp: run_one_def split: sum.splits if_splits dest: execute_with_retries_cancelled)

subsection \<open>The schedule settles every task once, after its dependencies\<close>

text \<open>Recording a result for a task, with the set its status puts it in.\<close>

definition note_result :: "string \<Rightarrow> runtime_result \<Rightarrow> schedule_state \<Rightarrow> schedule_state" where
  "note_result t r st =
     (let st1 = st\<lparr>ss_results := AList.update t r (ss_results st)\<rparr>
      in if rr_status r = COMPLETED then st1\<lparr>ss_completed := insert t (ss_completed st1)\<rparr>
         else if rr_status r = CANCELLED then st1\<lparr>ss_cancelled := insert t (ss_cancelled st1)\<rparr>
         else st1\<lparr>ss_failed := insert t (ss_failed st1)\<rparr>)"

definition answered :: "runtime_task \<Rightarrow> (run_fault, runtime_result) result \<Rightarrow> runtime_result" where
  "answered task item =
     (case item of
        Inl f \<Rightarrow> plain_result (rt_task_id task) FAILED
                   (''unhandled worker exception: '' @ (case f of RunRaised e \<Rightarrow> e | RunCancelled \<Rightarrow> []))
      | Inr r \<Rightarrow> r)"

text \<open>A worker answers for the task it was given, and its run is not cancelled.\<close>

definition own_ids :: "(runtime_task \<Rightarrow> (run_fault, runtime_result) result) \<Rightarrow> bool" where
  "own_ids run1 \<longleftrightarrow> (\<forall>t r. run1 t = Inr r \<longrightarrow> rr_task_id r = rt_task_id t) \<and> (\<forall>t. run1 t \<noteq> Inl RunCancelled)"

lemma finish_task_note:
  "own_ids run1 \<Longrightarrow> \<not> ss_broken st \<Longrightarrow> finish_task (t, run1 t) st = note_result (rt_task_id t) (answered t (run1 t)) st"
  by (cases "run1 t") (auto simp: own_ids_def finish_task_def note_result_def answered_def plain_result_def Let_def
      split: run_fault.split)

text \<open>The sets say of every task what its result says.\<close>

definition consistent :: "schedule_state \<Rightarrow> bool" where
  "consistent st \<longleftrightarrow> \<not> ss_broken st \<and> (\<forall>t. case map_of (ss_results st) t of
       None \<Rightarrow> t \<notin> ss_completed st \<union> ss_cancelled st \<union> ss_failed st
     | Some r \<Rightarrow> (t \<in> ss_completed st \<longleftrightarrow> rr_status r = COMPLETED) \<and> (t \<in> ss_cancelled st \<longleftrightarrow> rr_status r = CANCELLED) \<and>
                 (t \<in> ss_failed st \<longleftrightarrow> rr_status r \<notin> {COMPLETED, CANCELLED}))"

lemma consistent_unbroken: "consistent st \<Longrightarrow> \<not> ss_broken st"
  unfolding consistent_def by (rule conjunct1)

lemma consistent_at:
  "consistent st \<Longrightarrow> (case map_of (ss_results st) t of
       None \<Rightarrow> t \<notin> ss_completed st \<union> ss_cancelled st \<union> ss_failed st
     | Some r \<Rightarrow> (t \<in> ss_completed st \<longleftrightarrow> rr_status r = COMPLETED) \<and> (t \<in> ss_cancelled st \<longleftrightarrow> rr_status r = CANCELLED) \<and>
                 (t \<in> ss_failed st \<longleftrightarrow> rr_status r \<notin> {COMPLETED, CANCELLED}))"
  unfolding consistent_def by (erule conjE, erule spec)

lemma note_result_broken [simp]: "ss_broken (note_result t r st) = ss_broken st"
  by (simp add: note_result_def Let_def)

lemma consistent_note:
  assumes "consistent st" "map_of (ss_results st) t = None"
  shows "consistent (note_result t r st)"
  unfolding consistent_def
proof (intro conjI allI)
  show "\<not> ss_broken (note_result t r st)" using assms(1) by (simp add: consistent_unbroken)
next
  fix x
  show "case map_of (ss_results (note_result t r st)) x of
       None \<Rightarrow> x \<notin> ss_completed (note_result t r st) \<union> ss_cancelled (note_result t r st) \<union> ss_failed (note_result t r st)
     | Some q \<Rightarrow> (x \<in> ss_completed (note_result t r st) \<longleftrightarrow> rr_status q = COMPLETED) \<and>
         (x \<in> ss_cancelled (note_result t r st) \<longleftrightarrow> rr_status q = CANCELLED) \<and>
         (x \<in> ss_failed (note_result t r st) \<longleftrightarrow> rr_status q \<notin> {COMPLETED, CANCELLED})"
    using consistent_at [OF assms(1), of x] assms(2)
    by (auto simp: note_result_def Let_def split: option.splits)
qed

lemma consistent_settled:
  "consistent st \<Longrightarrow> map_of (ss_results st) t \<noteq> None \<longleftrightarrow> t \<in> ss_completed st \<union> ss_cancelled st \<union> ss_failed st"
  by (drule consistent_at [of _ t]) (auto split: option.splits)

lemma consistent_disjoint: "consistent st \<Longrightarrow> t \<in> ss_completed st \<Longrightarrow> t \<notin> ss_failed st \<union> ss_cancelled st"
  by (drule consistent_at [of _ t]) (auto split: option.splits)

lemma note_result_simps [simp]:
  "ss_results (note_result t r st) = AList.update t r (ss_results st)"
  "ss_ran (note_result t r st) = ss_ran st"
  "ss_completed (note_result t r st) = (if rr_status r = COMPLETED then insert t (ss_completed st) else ss_completed st)"
  by (simp_all add: note_result_def Let_def)

text \<open>One task of a level, in these terms.\<close>

lemma admit_task_cases:
  assumes "task_in tasks t = Some task"
  obtains (noted) r where "rr_status r \<noteq> COMPLETED" "admit_task g tasks t (st, ready) = (note_result t r st, ready)"
      "rr_task_id r = t" "\<exists>d\<in>set (task_deps g task). d \<in> ss_failed st \<union> ss_cancelled st"
  | (skipped) "admit_task g tasks t (st, ready) = (st, ready)"
      "\<exists>d\<in>set (task_deps g task). d \<notin> ss_completed st \<union> ss_cancelled st \<union> ss_failed st"
  | (ready) "admit_task g tasks t (st, ready) = (st, ready @ [task])" "set (task_deps g task) \<subseteq> ss_completed st"
proof -
  let ?ds = "task_deps g task"
  consider "\<exists>d\<in>set ?ds. d \<in> ss_failed st"
    | "\<not> (\<exists>d\<in>set ?ds. d \<in> ss_failed st)" "\<exists>d\<in>set ?ds. d \<in> ss_cancelled st"
    | "\<not> (\<exists>d\<in>set ?ds. d \<in> ss_failed st)" "\<not> (\<exists>d\<in>set ?ds. d \<in> ss_cancelled st)" by blast
  then show thesis
  proof cases
    case 1
    show thesis
      by (rule noted [of "plain_result t FAILED ''dependency failed''"])
        (use 1 assms in \<open>auto simp: admit_task_def Let_def list_ex_iff note_result_def plain_result_def\<close>)
  next
    case 2
    show thesis
      by (rule noted [of "plain_result t CANCELLED ''dependency cancelled''"])
        (use 2 assms in \<open>auto simp: admit_task_def Let_def list_ex_iff note_result_def plain_result_def\<close>)
  next
    case 3
    show thesis
    proof (cases "set ?ds \<subseteq> ss_completed st")
      case True
      with 3 assms show thesis by (intro ready) (auto simp: admit_task_def Let_def list_ex_iff list_all_iff)
    next
      case False
      with 3 assms show thesis by (intro skipped) (auto simp: admit_task_def Let_def list_ex_iff list_all_iff)
    qed
  qed
qed

lemma task_in_id: "task_in tasks t = Some task \<Longrightarrow> rt_task_id task = t \<and> task \<in> set tasks"
  by (auto simp: task_in_def dest!: map_of_SomeD)

text \<open>Admission of a whole level of new tasks.\<close>

lemma admit_level:
  assumes "fold (admit_task g tasks) level (st, ready) = (st', ready')"
    and "consistent st" "distinct level" "\<forall>t\<in>set level. map_of (ss_results st) t = None"
  shows "consistent st' \<and> ss_completed st' = ss_completed st \<and> ss_ran st' = ss_ran st \<and>
    (\<forall>t. t \<notin> set level \<longrightarrow> map_of (ss_results st') t = map_of (ss_results st) t) \<and>
    (\<exists>new. ready' = ready @ new \<and> distinct (map rt_task_id new) \<and>
       (\<forall>task\<in>set new. rt_task_id task \<in> set level \<and> task_in tasks (rt_task_id task) = Some task \<and>
          set (task_deps g task) \<subseteq> ss_completed st \<and> map_of (ss_results st') (rt_task_id task) = None) \<and>
       (\<forall>t\<in>set level. \<forall>task. task_in tasks t = Some task \<longrightarrow>
          (\<forall>d\<in>set (task_deps g task). map_of (ss_results st) d \<noteq> None) \<longrightarrow>
          map_of (ss_results st') t \<noteq> None \<or> t \<in> rt_task_id ` set new))"
  using assms
proof (induction level arbitrary: st ready)
  case (Cons t level)
  obtain st1 ready1 where s1: "admit_task g tasks t (st, ready) = (st1, ready1)" by fastforce
  have rest: "fold (admit_task g tasks) level (st1, ready1) = (st', ready')" using Cons.prems(1) s1 by simp
  have dl: "distinct level" "t \<notin> set level" using Cons.prems(3) by simp_all
  have free: "map_of (ss_results st) t = None" "\<forall>t\<in>set level. map_of (ss_results st) t = None"
    using Cons.prems(4) by simp_all
  show ?case
  proof (cases "task_in tasks t")
    case None
    then have "st1 = st" "ready1 = ready" using s1 by (simp_all add: admit_task_def)
    with Cons.IH [OF rest] Cons.prems(2) dl free None show ?thesis by fastforce
  next
    case (Some task)
    note tid = task_in_id [OF Some]
    from Some show ?thesis
    proof (cases rule: admit_task_cases [where g = g and st = st and ready = ready])
      case (noted r)
      then have e: "st1 = note_result t r st" "ready1 = ready" using s1 by simp_all
      have c1: "consistent st1" unfolding e using Cons.prems(2) free(1) by (rule consistent_note)
      have f1: "\<forall>x\<in>set level. map_of (ss_results st1) x = None" using free dl by (auto simp: e)
      from Cons.IH [OF rest c1 dl(1) f1] noted(1) dl(2) e show ?thesis by fastforce
    next
      case skipped
      then have e: "st1 = st" "ready1 = ready" using s1 by simp_all
      have no: "\<not> (\<forall>d\<in>set (task_deps g task). map_of (ss_results st) d \<noteq> None)"
        using skipped(2) consistent_settled [OF Cons.prems(2)] by blast
      from Cons.IH [OF rest [unfolded e] Cons.prems(2) dl(1) free(2)] no Some show ?thesis
        by (elim conjE exE) (intro conjI exI, auto)
    next
      case ready
      then have e: "st1 = st" "ready1 = ready @ [task]" using s1 by simp_all
      from Cons.IH [OF rest [unfolded e] Cons.prems(2) dl(1) free(2)]
      obtain new where ih: "consistent st'" "ss_completed st' = ss_completed st" "ss_ran st' = ss_ran st"
        "\<forall>x. x \<notin> set level \<longrightarrow> map_of (ss_results st') x = map_of (ss_results st) x"
        "ready' = (ready @ [task]) @ new" "distinct (map rt_task_id new)"
        "\<forall>task\<in>set new. rt_task_id task \<in> set level \<and> task_in tasks (rt_task_id task) = Some task \<and>
          set (task_deps g task) \<subseteq> ss_completed st \<and> map_of (ss_results st') (rt_task_id task) = None"
        "\<forall>t\<in>set level. \<forall>task. task_in tasks t = Some task \<longrightarrow>
          (\<forall>d\<in>set (task_deps g task). map_of (ss_results st) d \<noteq> None) \<longrightarrow>
          map_of (ss_results st') t \<noteq> None \<or> t \<in> rt_task_id ` set new" by blast
      have "rt_task_id task \<notin> rt_task_id ` set new" using ih(7) dl(2) tid by auto
      moreover have "map_of (ss_results st') t = None" using ih(4) dl(2) free(1) by simp
      ultimately show ?thesis
        using ih Some tid ready(2) by (intro conjI exI [of _ "task # new"]) auto
    qed
  qed
qed simp

lemma finish_level:
  assumes "own_ids run1" "consistent st" "distinct (map rt_task_id new)"
    "\<forall>t\<in>set new. map_of (ss_results st) (rt_task_id t) = None"
  shows "consistent (fold finish_task (map (\<lambda>t. (t, run1 t)) new) st) \<and>
    ss_ran (fold finish_task (map (\<lambda>t. (t, run1 t)) new) st) = ss_ran st \<and>
    ss_completed st \<subseteq> ss_completed (fold finish_task (map (\<lambda>t. (t, run1 t)) new) st) \<and>
    (\<forall>x. map_of (ss_results (fold finish_task (map (\<lambda>t. (t, run1 t)) new) st)) x \<noteq> None \<longleftrightarrow>
       map_of (ss_results st) x \<noteq> None \<or> x \<in> rt_task_id ` set new)"
  using assms
proof (induction new arbitrary: st)
  case (Cons t new)
  let ?s = "note_result (rt_task_id t) (answered t (run1 t)) st"
  have c: "consistent ?s" using Cons.prems by (intro consistent_note) auto
  have f: "\<forall>x\<in>set new. map_of (ss_results ?s) (rt_task_id x) = None"
    using Cons.prems(3,4) by (auto simp: image_iff)
  from Cons.prems(3) have "distinct (map rt_task_id new)" by simp
  from Cons.IH [OF Cons.prems(1) c this f] show ?case
    by (auto simp: finish_task_note [OF Cons.prems(1) consistent_unbroken [OF Cons.prems(2)]] split: if_splits)
qed simp

text \<open>What a level keeps, and what it adds.\<close>

definition ran_after_deps :: "execution_graph \<Rightarrow> runtime_task list \<Rightarrow> schedule_state \<Rightarrow> bool" where
  "ran_after_deps g tasks st \<longleftrightarrow>
     (\<forall>t\<in>set (ss_ran st). \<exists>task. task_in tasks t = Some task \<and> set (task_deps g task) \<subseteq> ss_completed st)"

lemma run_level_ok:
  assumes own: "own_ids run1" and st: "consistent st" "ran_after_deps g tasks st" "distinct (ss_ran st)"
      "\<forall>t\<in>set (ss_ran st). map_of (ss_results st) t \<noteq> None"
    and level: "distinct level" "\<forall>t\<in>set level. map_of (ss_results st) t = None"
  shows "consistent (run_level g tasks run1 level st) \<and> ran_after_deps g tasks (run_level g tasks run1 level st) \<and>
    distinct (ss_ran (run_level g tasks run1 level st)) \<and>
    (\<forall>t\<in>set (ss_ran (run_level g tasks run1 level st)). map_of (ss_results (run_level g tasks run1 level st)) t \<noteq> None) \<and>
    (\<forall>t. t \<notin> set level \<longrightarrow> (map_of (ss_results (run_level g tasks run1 level st)) t \<noteq> None \<longleftrightarrow> map_of (ss_results st) t \<noteq> None)) \<and>
    (\<forall>t\<in>set level. \<forall>task. task_in tasks t = Some task \<longrightarrow>
       (\<forall>d\<in>set (task_deps g task). map_of (ss_results st) d \<noteq> None) \<longrightarrow>
       map_of (ss_results (run_level g tasks run1 level st)) t \<noteq> None)"
proof -
  obtain st1 new where f: "fold (admit_task g tasks) level (st, []) = (st1, new)" by fastforce
  from admit_level [OF f st(1) level]
  have a: "consistent st1" "ss_completed st1 = ss_completed st" "ss_ran st1 = ss_ran st"
    "\<forall>t. t \<notin> set level \<longrightarrow> map_of (ss_results st1) t = map_of (ss_results st) t"
    "distinct (map rt_task_id new)"
    "\<forall>task\<in>set new. rt_task_id task \<in> set level \<and> task_in tasks (rt_task_id task) = Some task \<and>
       set (task_deps g task) \<subseteq> ss_completed st \<and> map_of (ss_results st1) (rt_task_id task) = None"
    "\<forall>t\<in>set level. \<forall>task. task_in tasks t = Some task \<longrightarrow>
       (\<forall>d\<in>set (task_deps g task). map_of (ss_results st) d \<noteq> None) \<longrightarrow>
       map_of (ss_results st1) t \<noteq> None \<or> t \<in> rt_task_id ` set new" by auto
  let ?s2 = "st1\<lparr>ss_ran := ss_ran st1 @ map rt_task_id new\<rparr>"
  let ?s3 = "fold finish_task (map (\<lambda>t. (t, run1 t)) new) ?s2"
  have r: "run_level g tasks run1 level st = ?s3" using consistent_unbroken [OF st(1)] by (simp add: run_level_def f)
  have c2: "consistent ?s2" using a(1) by (simp add: consistent_def cong: option.case_cong)
  have n2: "\<forall>t\<in>set new. map_of (ss_results ?s2) (rt_task_id t) = None" using a(6) by simp
  from finish_level [OF own c2 a(5) n2]
  have b: "consistent ?s3" "ss_ran ?s3 = ss_ran st @ map rt_task_id new" "ss_completed st \<subseteq> ss_completed ?s3"
    "\<And>x. map_of (ss_results ?s3) x \<noteq> None \<longleftrightarrow> map_of (ss_results st1) x \<noteq> None \<or> x \<in> rt_task_id ` set new"
    using a(2,3) by auto
  have ids: "rt_task_id ` set new \<subseteq> set level" using a(6) by auto
  have p1: "ran_after_deps g tasks ?s3"
    using st(2) a(6) b(2,3) by (fastforce simp: ran_after_deps_def)
  have p2: "distinct (ss_ran ?s3)" using st(3,4) level(2) a(5) ids b(2) by fastforce
  have p3: "\<forall>t\<in>set (ss_ran ?s3). map_of (ss_results ?s3) t \<noteq> None"
  proof
    fix t
    assume t: "t \<in> set (ss_ran ?s3)"
    show "map_of (ss_results ?s3) t \<noteq> None"
    proof (cases "t \<in> set level")
      case True
      then have "t \<in> rt_task_id ` set new" using t b(2) st(4) level(2) by auto
      then show ?thesis using b(4) by blast
    next
      case False
      then have "t \<in> set (ss_ran st)" using t b(2) ids by auto
      with st(4) a(4) False b(4) show ?thesis by metis
    qed
  qed
  have p4: "\<forall>t. t \<notin> set level \<longrightarrow> (map_of (ss_results ?s3) t \<noteq> None \<longleftrightarrow> map_of (ss_results st) t \<noteq> None)"
    unfolding b(4) using a(4) ids by auto
  have p5: "\<forall>t\<in>set level. \<forall>task. task_in tasks t = Some task \<longrightarrow>
       (\<forall>d\<in>set (task_deps g task). map_of (ss_results st) d \<noteq> None) \<longrightarrow> map_of (ss_results ?s3) t \<noteq> None"
    unfolding b(4) using a(7) .
  show ?thesis unfolding r by (intro conjI b(1) p1 p2 p3 p4 p5)
qed

lemma levels_prefix_ok:
  assumes own: "own_ids run1" and ok: "dict_ok (eg_dependencies g)" "validate_graph g = Inr ()"
    and all: "graph_ids g \<subseteq> rt_task_id ` set tasks" "\<forall>t\<in>set tasks. task_deps g t = deps_of g (rt_task_id t)"
  shows "pre @ post = graph_levels g \<Longrightarrow>
    (let st = fold (run_level g tasks run1) pre start_schedule in
     consistent st \<and> ran_after_deps g tasks st \<and> distinct (ss_ran st) \<and>
     (\<forall>t\<in>set (ss_ran st). map_of (ss_results st) t \<noteq> None) \<and>
     (\<forall>t. map_of (ss_results st) t \<noteq> None \<longleftrightarrow> t \<in> set (concat pre)))"
proof (induction pre arbitrary: post rule: rev_induct)
  case Nil
  show ?case by (simp add: start_schedule_def consistent_def ran_after_deps_def)
next
  case (snoc l pre)
  let ?st = "fold (run_level g tasks run1) pre start_schedule"
  have split: "graph_levels g = pre @ l # post" using snoc.prems by simp
  have lv: "levels_ok g {} (graph_levels g)" using ok by (rule graph_levels_ok)
  have d: "distinct l" "set l \<inter> set (concat pre) = {}" "set l \<subseteq> graph_ids g"
    using lv unfolding levels_ok_def split by auto
  have deps: "set (deps_of g t) \<subseteq> set (concat pre)" if "t \<in> set l" for t
    using lv that unfolding levels_ok_def split by blast
  from snoc.IH [of "l # post"] split have ih: "consistent ?st" "ran_after_deps g tasks ?st" "distinct (ss_ran ?st)"
    "\<forall>t\<in>set (ss_ran ?st). map_of (ss_results ?st) t \<noteq> None"
    "\<And>t. map_of (ss_results ?st) t \<noteq> None \<longleftrightarrow> t \<in> set (concat pre)" by (auto simp: Let_def)
  have new: "\<forall>t\<in>set l. map_of (ss_results ?st) t = None" using ih(5) d(2) by blast
  let ?s = "run_level g tasks run1 l ?st"
  from run_level_ok [OF own ih(1-4) d(1) new]
  have lo: "consistent ?s" "ran_after_deps g tasks ?s" "distinct (ss_ran ?s)"
    "\<forall>t\<in>set (ss_ran ?s). map_of (ss_results ?s) t \<noteq> None"
    "\<forall>t. t \<notin> set l \<longrightarrow> (map_of (ss_results ?s) t \<noteq> None \<longleftrightarrow> map_of (ss_results ?st) t \<noteq> None)"
    "\<forall>t\<in>set l. \<forall>task. task_in tasks t = Some task \<longrightarrow>
       (\<forall>d\<in>set (task_deps g task). map_of (ss_results ?st) d \<noteq> None) \<longrightarrow> map_of (ss_results ?s) t \<noteq> None" by blast+
  have "map_of (ss_results ?s) t \<noteq> None" if t: "t \<in> set l" for t
  proof -
    have "t \<in> rt_task_id ` set tasks" using t d(3) all(1) by blast
    then obtain task where task: "task_in tasks t = Some task"
      by (cases "task_in tasks t") (auto simp: task_in_def map_of_eq_None_iff image_iff)
    with task_in_id [OF task] all(2) deps [OF t] ih(5) lo(6) t show ?thesis by (metis subsetD)
  qed
  then have "map_of (ss_results ?s) t \<noteq> None \<longleftrightarrow> t \<in> set (concat (pre @ [l]))" for t
    using lo(5) ih(5) by (cases "t \<in> set l") auto
  with lo(1-4) show ?case by (simp add: Let_def)
qed

lemma schedule_final_ok:
  assumes "own_ids run1" "dict_ok (eg_dependencies g)" "validate_graph g = Inr ()"
    "graph_ids g = rt_task_id ` set tasks" "\<forall>t\<in>set tasks. task_deps g t = deps_of g (rt_task_id t)"
  shows "consistent (schedule_final g tasks run1) \<and> ran_after_deps g tasks (schedule_final g tasks run1) \<and>
    distinct (ss_ran (schedule_final g tasks run1)) \<and>
    (\<forall>t\<in>set tasks. map_of (ss_results (schedule_final g tasks run1)) (rt_task_id t) \<noteq> None)"
proof -
  have "set (concat (graph_levels g)) = graph_ids g"
    using graph_levels_ok [OF assms(2,3)] by (simp add: levels_ok_def)
  then have set: "set (concat (graph_levels g)) = rt_task_id ` set tasks" using assms(4) by simp
  have sub: "graph_ids g \<subseteq> rt_task_id ` set tasks" using assms(4) by simp
  note all = levels_prefix_ok [OF assms(1-3) sub assms(5) append_Nil2, unfolded Let_def set]
  then show ?thesis unfolding schedule_final_def by blast
qed

lemma batch_deps:
  "map_of (fold (\<lambda>t. AList.update (rt_task_id t) (rt_dependencies t)) ts d) k =
     (case task_in ts k of Some t \<Rightarrow> Some (rt_dependencies t) | None \<Rightarrow> map_of d k)"
  by (induction ts arbitrary: d) (auto simp: task_in_def map_add_def split: option.splits)

lemma batch_dict_ok: "dict_ok d \<Longrightarrow> dict_ok (fold (\<lambda>t. AList.update (rt_task_id t) (rt_dependencies t)) ts d)"
  by (induction ts arbitrary: d) auto

lemma task_in_member: "distinct (map rt_task_id tasks) \<Longrightarrow> t \<in> set tasks \<Longrightarrow> task_in tasks (rt_task_id t) = Some t"
  unfolding task_in_def by (rule map_of_is_SomeI) (auto simp: rev_map [symmetric] comp_def)

lemma batch_graph_facts:
  assumes "distinct (map rt_task_id tasks)" "\<not> external_dependency tasks"
  shows "dict_ok (eg_dependencies (batch_graph tasks))"
    and "\<forall>t\<in>set tasks. deps_of (batch_graph tasks) (rt_task_id t) = rt_dependencies t"
    and "\<forall>t\<in>set tasks. task_deps (batch_graph tasks) t = rt_dependencies t"
    and "graph_ids (batch_graph tasks) = rt_task_id ` set tasks"
proof -
  show ok: "dict_ok (eg_dependencies (batch_graph tasks))" by (simp add: batch_graph_def batch_dict_ok)
  have look: "map_of (eg_dependencies (batch_graph tasks)) k =
      (case task_in tasks k of Some t \<Rightarrow> Some (rt_dependencies t) | None \<Rightarrow> None)" for k
    by (simp add: batch_graph_def batch_deps split: option.split)
  show "\<forall>t\<in>set tasks. deps_of (batch_graph tasks) (rt_task_id t) = rt_dependencies t"
    "\<forall>t\<in>set tasks. task_deps (batch_graph tasks) t = rt_dependencies t"
    using task_in_member [OF assms(1)] by (simp_all add: deps_of_def task_deps_def look)
  have "k \<in> rt_task_id ` set tasks \<and> set ds \<subseteq> rt_task_id ` set tasks"
    if "(k, ds) \<in> set (eg_dependencies (batch_graph tasks))" for k ds
  proof -
    have "map_of (eg_dependencies (batch_graph tasks)) k = Some ds"
      using ok that by (simp add: dict_ok_def)
    then obtain t where t: "task_in tasks k = Some t" "ds = rt_dependencies t" by (auto simp: look split: option.splits)
    from task_in_id [OF t(1)] assms(2) t(2) show ?thesis by (auto simp: external_dependency_def list_ex_iff)
  qed
  then have "\<forall>(k, ds)\<in>set (eg_dependencies (batch_graph tasks)).
      k \<in> rt_task_id ` set tasks \<and> set ds \<subseteq> rt_task_id ` set tasks" by blast
  then have sub: "fst ` set (eg_dependencies (batch_graph tasks)) \<union>
      \<Union> (set ` snd ` set (eg_dependencies (batch_graph tasks))) \<subseteq> rt_task_id ` set tasks"
    unfolding entries_known .
  have ids: "set (eg_task_ids (batch_graph tasks)) = rt_task_id ` set tasks" by (simp add: batch_graph_def)
  show "graph_ids (batch_graph tasks) = rt_task_id ` set tasks"
    unfolding graph_ids_def ids Un_assoc using sub by (rule Un_absorb2)
qed

text \<open>A worker that answers for its own task keeps doing so through retries.\<close>

lemma run_one_answers_own:
  assumes "\<And>tid k r. we_answer W tid k = AnswerResult r \<Longrightarrow> rr_task_id r = tid" "run_one W t = Inr r"
  shows "rr_task_id r = rt_task_id t"
proof -
  have "rr_task_id q = rt_task_id t" if "Some q = attempt_result W wid t k" for wid k q
    using assms(1) [of "rt_task_id t" k] that
    by (auto simp: attempt_result_def plain_result_def split: attempt_answer.splits if_splits)
  then have "rr_task_id r = rt_task_id t" if "execute_with_retries W wid t 1 [] = Inr r" for wid
    using execute_with_retries_answers [of "[]" W wid t 1 r] that by auto
  then show ?thesis using assms(2) by (auto simp: run_one_def plain_result_def split: sum.splits if_splits)
qed

subsection \<open>A schedule that is not broken is the schedule without cancelled runs\<close>

text \<open>The answers with every cancelled run turned into one that failed.\<close>

definition calm :: "(runtime_task \<Rightarrow> (run_fault, runtime_result) result) \<Rightarrow> runtime_task \<Rightarrow> (run_fault, runtime_result) result" where
  "calm run1 t = (if run1 t = Inl RunCancelled then Inl (RunRaised []) else run1 t)"

lemma finish_broken: "ss_broken st \<Longrightarrow> fold finish_task tis st = st"
  by (induction tis) (auto simp: finish_task_def)

lemma finish_tasks_calm:
  "\<not> ss_broken (fold finish_task (map (\<lambda>t. (t, run1 t)) ts) st) \<Longrightarrow>
   fold finish_task (map (\<lambda>t. (t, run1 t)) ts) st = fold finish_task (map (\<lambda>t. (t, calm run1 t)) ts) st"
proof (induction ts arbitrary: st)
  case (Cons t ts)
  show ?case
  proof (cases "run1 t = Inl RunCancelled \<and> \<not> ss_broken st")
    case True
    then have "ss_broken (finish_task (t, run1 t) st)" by (simp add: finish_task_def)
    with Cons.prems show ?thesis by (simp add: finish_broken)
  next
    case False
    then have "finish_task (t, calm run1 t) st = finish_task (t, run1 t) st" by (auto simp: calm_def finish_task_def)
    with Cons show ?thesis by simp
  qed
qed simp

lemma finish_tasks_broken:
  "ss_broken (fold finish_task (map (\<lambda>t. (t, run1 t)) ts) st) \<Longrightarrow> \<not> ss_broken st \<Longrightarrow>
   \<exists>t\<in>set ts. run1 t = Inl RunCancelled"
proof (induction ts arbitrary: st)
  case (Cons t ts)
  show ?case
  proof (cases "ss_broken (finish_task (t, run1 t) st)")
    case True
    with Cons.prems(2) have "run1 t = Inl RunCancelled"
      by (auto simp: finish_task_def Let_def split: sum.splits run_fault.splits if_splits)
    then show ?thesis by simp
  next
    case False
    with Cons.IH [OF _ False] Cons.prems(1) show ?thesis by auto
  qed
qed simp

lemma admit_ready:
  "fold (admit_task g tasks) ts (st, ready) = (st', ready') \<Longrightarrow>
     ss_broken st' = ss_broken st \<and> set ready' \<subseteq> set ready \<union> set tasks"
proof (induction ts arbitrary: st ready)
  case (Cons t ts)
  obtain st1 ready1 where a: "admit_task g tasks t (st, ready) = (st1, ready1)" by fastforce
  then have "ss_broken st1 = ss_broken st \<and> set ready1 \<subseteq> set ready \<union> set tasks"
    by (auto simp: admit_task_def Let_def dest: task_in_id split: option.splits if_splits)
  with Cons.IH [of st1 ready1] Cons.prems a show ?case by auto
qed simp

lemma run_level_calm:
  "\<not> ss_broken (run_level g tasks run1 level st) \<Longrightarrow>
   run_level g tasks run1 level st = run_level g tasks (calm run1) level st"
  by (auto simp: run_level_def Let_def finish_tasks_calm split: prod.splits if_splits)

lemma run_level_broken:
  assumes "ss_broken (run_level g tasks run1 level st)" "\<not> ss_broken st"
  shows "\<exists>t\<in>set tasks. run1 t = Inl RunCancelled"
proof -
  obtain st1 ready where f: "fold (admit_task g tasks) level (st, []) = (st1, ready)" by fastforce
  from assms f have "ss_broken (fold finish_task (map (\<lambda>t. (t, run1 t)) ready) (st1\<lparr>ss_ran := ss_ran st1 @ map rt_task_id ready\<rparr>))"
    by (simp add: run_level_def)
  moreover have "\<not> ss_broken (st1\<lparr>ss_ran := ss_ran st1 @ map rt_task_id ready\<rparr>)"
    using admit_ready [OF f] assms(2) by simp
  ultimately have "\<exists>t\<in>set ready. run1 t = Inl RunCancelled" by (rule finish_tasks_broken)
  with admit_ready [OF f] show ?thesis by auto
qed

lemma levels_broken: "ss_broken st \<Longrightarrow> fold (run_level g tasks run1) ls st = st"
  by (induction ls) (auto simp: run_level_def)

lemma levels_calm:
  "\<not> ss_broken (fold (run_level g tasks run1) ls st) \<Longrightarrow>
   fold (run_level g tasks run1) ls st = fold (run_level g tasks (calm run1)) ls st"
proof (induction ls arbitrary: st)
  case (Cons l ls)
  then have "\<not> ss_broken (run_level g tasks run1 l st)" using levels_broken by fastforce
  with Cons run_level_calm [of g tasks run1 l st] show ?case by simp
qed simp

lemma schedule_final_calm:
  "\<not> ss_broken (schedule_final g tasks run1) \<Longrightarrow> schedule_final g tasks run1 = schedule_final g tasks (calm run1)"
  unfolding schedule_final_def by (rule levels_calm)

lemma schedule_final_broken:
  assumes "ss_broken (schedule_final g tasks run1)"
  shows "\<exists>t\<in>set tasks. run1 t = Inl RunCancelled"
proof (rule ccontr)
  assume none: "\<not> (\<exists>t\<in>set tasks. run1 t = Inl RunCancelled)"
  have "\<not> ss_broken st \<Longrightarrow> \<not> ss_broken (fold (run_level g tasks run1) ls st)" for ls st
  proof (induction ls arbitrary: st)
    case (Cons l ls)
    with none run_level_broken [of g tasks run1 l st] have "\<not> ss_broken (run_level g tasks run1 l st)" by blast
    with Cons show ?case by simp
  qed simp
  with assms show False by (auto simp: schedule_final_def start_schedule_def)
qed

lemma calm_own: "(\<And>t r. run1 t = Inr r \<Longrightarrow> rr_task_id r = rt_task_id t) \<Longrightarrow> own_ids (calm run1)"
  by (auto simp: own_ids_def calm_def)

end
