(* ===== verification/Sample_World.thy ===== *)
theory Sample_World
  imports Runtime_Engine Gov_Engine Plugin_Dependencies Parallel_Scheduler
begin

text \<open>
  Concrete inputs: an injective stand-in for the digests, a permit issued by the approval engine
  for a small provider task, the engine that runs it, and a governance state. They show that the
  hypotheses of the properties can hold together.
\<close>

section \<open>Digests\<close>

definition guard_bar :: "char \<Rightarrow> string" where
  "guard_bar c = (if c = CHR ''|'' then ''xa'' else if c = CHR ''x'' then ''xb'' else [c])"

definition sample_hash :: "string \<Rightarrow> string" where
  "sample_hash t = CHR ''h'' # concat (map guard_bar t)"

definition sample_crypto :: crypto where
  "sample_crypto = \<lparr>sha256 = sample_hash, hmac_sha256 = (\<lambda>k t. k @ t), isoformat = int_str\<rparr>"

lemma guard_bar_inj: "guard_bar c @ s = guard_bar d @ t \<Longrightarrow> c = d \<and> s = t"
  by (auto simp: guard_bar_def split: if_splits)

lemma guard_bar_not_Nil: "guard_bar c \<noteq> []"
  by (simp add: guard_bar_def)

lemma concat_guard_inj: "concat (map guard_bar s) = concat (map guard_bar t) \<Longrightarrow> s = t"
proof (induction s arbitrary: t)
  case Nil
  then show ?case by (cases t) (simp_all add: guard_bar_not_Nil)
next
  case (Cons c s)
  then obtain d t' where "t = d # t'" by (cases t) (simp_all add: guard_bar_not_Nil)
  with Cons guard_bar_inj show ?case by fastforce
qed

lemma sample_good_hash: "good_hash (sha256 sample_crypto)"
proof -
  have "CHR ''|'' \<notin> set (guard_bar c)" for c by (simp add: guard_bar_def)
  then show ?thesis
    by (auto simp: good_hash_def sample_crypto_def sample_hash_def inj_def dest: concat_guard_inj)
qed

lemma sample_isoformat: "inj (isoformat sample_crypto)"
  by (simp add: sample_crypto_def inj_def) (metis int_str_inj)

lemma sample_hmac: "inj (hmac_sha256 sample_crypto key)"
  by (simp add: sample_crypto_def inj_def)

lemma sample_sha: "inj (sha256 sample_crypto)"
  using sample_good_hash by (simp add: good_hash_def)

section \<open>A provider task and its permit\<close>

definition sample_constraints :: execution_constraints where
  "sample_constraints = \<lparr>ec_requires_local_model = False, ec_network_allowed = True, ec_privacy_category = PUBLIC\<rparr>"

definition sample_policy :: policy_decision where
  "sample_policy = \<lparr>pd_action_id = ''t1'', pd_allowed = True, pd_risk = LOW,
     pd_privacy = \<lparr>pc_category = PUBLIC, pc_reasons = []\<rparr>, pd_required = [], pd_approval_required = False,
     pd_use_local_model = False, pd_constraints = sample_constraints, pd_reasons = [''ok'']\<rparr>"

definition sample_inputs :: "(string, pyval) dict" where
  "sample_inputs = [(''prompt'', PStr ''hi'')]"

definition sample_action :: "string \<Rightarrow> string \<Rightarrow> planned_action" where
  "sample_action kind target = \<lparr>pa_action_id = ''t1'', pa_action_type = kind, pa_description = [],
     pa_target = Some target, pa_payload = authorization_payload kind sample_inputs, pa_requested = [],
     pa_metadata = []\<rparr>"

definition sample_target :: "string" where
  "sample_target = authorization_target ''text_generation'' None"

definition sample_request :: approval_request where
  "sample_request = \<lparr>ar_action = sample_action ''text_generation'' sample_target, ar_policy = sample_policy,
     ar_operation = None, ar_remember = False\<rparr>"

definition sample_context :: runtime_context where
  "sample_context = \<lparr>rc_request_id = ''r1'', rc_user_id = Some ''ann'', rc_session_id = None,
     rc_workspace_id = None, rc_metadata = []\<rparr>"

definition sample_routing :: routing_decision where
  "sample_routing = \<lparr>rd_provider_id = ''p'', rd_model_id = ''m'', rd_reasoning_summary = [], rd_constraints = [],
     rd_execution_constraints = sample_constraints, rd_metadata = []\<rparr>"

definition sample_task :: "string \<Rightarrow> execution_permit option \<Rightarrow> runtime_task" where
  "sample_task kind permit = \<lparr>rt_task_id = ''t1'', rt_title = [], rt_description = [], rt_action_type = kind,
     rt_inputs = sample_inputs, rt_dependencies = [], rt_metadata = [], rt_worker_requirement = None,
     rt_preferred_worker = None, rt_permit = permit\<rparr>"

definition sample_validate :: "pyval \<Rightarrow> execution_constraints option" where
  "sample_validate v = Some sample_constraints"

definition sample_show :: "pyval \<Rightarrow> string" where
  "sample_show v = []"

definition sample_permit :: execution_permit where
  "sample_permit = issue_permit sample_crypto ''k'' ''p1'' (Aware 0 0) (sample_action ''text_generation'' sample_target)
     ''ann'' None None sample_policy ALLOW [''ok''] ''cap_policy'' [] ''cap.policy_engine''"

lemma normalize_text_generation [simp]: "normalize_action_type ''text_generation'' = ''text_generation''"
  by code_simp

lemma normalize_sample_target [simp]: "normalize_target (Some sample_target) = Some sample_target"
  unfolding sample_target_def by code_simp

text \<open>The permit that fits the task passes the gate.\<close>

lemma sample_gate_fits:
  assumes "ep_decision p = ALLOW" "verify_integrity sample_crypto key p" "utc_us (ep_issued_at p) = 0"
    "utc_us (ep_expires_at p) = PERMIT_LIFETIME" "ep_subject_id p = ''ann''" "ep_session_id p = None"
    "ep_workspace_id p = None" "ep_action_id p = ''t1''" "ep_action_type p = ''text_generation''"
    "ep_target p = Some sample_target" "ep_required p = []" "ep_constraints p = sample_constraints"
    "ep_operation_digest p = operation_digest sample_crypto ''text_generation'' (Some sample_target)
       (authorization_payload ''text_generation'' sample_inputs)"
  shows "enforce_cap_permit sample_crypto key sample_show sample_validate (Aware 0 0)
    (sample_task ''text_generation'' (Some p)) sample_routing d e (Some sample_context) = Granted"
proof -
  have "expected_subject (Some sample_context) (sample_task ''text_generation'' (Some p)) = Some ''ann''"
    by (simp add: expected_subject_def sample_context_def opt_nonempty_def authorization_subject_id_def str_or_def)
  with assms show ?thesis
    unfolding granted_iff
    by (simp add: permit_applies_def operation_bound_def sample_task_def sample_target_def task_tool_def
        py_tuple_def permissions_match_def sample_validate_def sample_routing_def
        PERMIT_LIFETIME_def PERMIT_CLOCK_SKEW_def)
qed

lemma sample_permit_granted:
  "enforce_cap_permit sample_crypto ''k'' sample_show sample_validate (Aware 0 0)
    (sample_task ''text_generation'' (Some sample_permit)) sample_routing d e (Some sample_context) = Granted"
  by (rule sample_gate_fits)
    (simp_all add: sample_permit_def issue_permit_simps sample_action_def sample_policy_def)

end
