(* ===== verification/Authority.thy ===== *)
theory Authority
  imports Sample_World
begin

text \<open>
  What the authority chain guarantees, from the policy decision over the permit and the gate to
  the executions of the runtime. The identifiers C1, C2, ... are those of the manifest.
\<close>

section \<open>Executions\<close>

text \<open>C1: every execution the runtime logs for a run belongs to an attempt at which the task carried
  a permit that applies to it (an ALLOW decision, an intact signature, inside its validity window,
  for the running principal, session, workspace and action) and that is bound to the operation, and
  it went to the executor registered for the action type.\<close>

theorem executions_are_authorized:
  "set (filter is_executed (drop (length (es_log st)) (es_log (snd (run E rq st))))) \<subseteq>
     {the_execution E rq k ex | k ex p.
        1 \<le> k \<and> dispatch (ec_dispatcher E) (rt_action_type (rq_task rq)) = Some ex \<and>
        rt_permit (rq_task rq) = Some p \<and>
        permit_applies (ec_crypto E) (ec_key E) (rq_now rq k) (Some (rq_context rq)) (rq_task rq) p \<and>
        operation_bound (ec_crypto E) (ec_show E) (ec_validate E) (rq_task rq) (rq_routing rq) p}"
  unfolding run_executions
  by (auto dest!: loop_executions_gated simp: engine_gate_def granted_iff)

text \<open>The gate grants a task exactly when it carries a permit that applies and is bound to it;
  there is no other way through.\<close>

theorem gate_grants_exactly:
  "enforce_cap_permit C key show validate now task routing started_at duration context = Granted \<longleftrightarrow>
     (\<exists>p. rt_permit task = Some p \<and> permit_applies C key now context task p \<and>
          operation_bound C show validate task routing p)"
  by (rule granted_iff)

text \<open>C2: a task whose permit came out of the approval engine passes the gate only if the policy
  allowed the action without a human, or every permission it needs had been remembered for that
  principal and resource.\<close>

theorem grants_trace_to_policy:
  assumes "rt_permit task = Some (fst (authorize C key pid t0 get put st req subject session workspace))"
    and "enforce_cap_permit C key show validate now task routing started_at duration context = Granted"
  shows "(\<not> pd_approval_required (ar_policy req) \<and> pd_allowed (ar_policy req)) \<or>
    (pd_approval_required (ar_policy req) \<and> (\<exists>s. st = Some s \<and> pd_required (ar_policy req) \<noteq> [] \<and>
       (\<forall>scope\<in>set (pd_required (ar_policy req)).
          get s subject (permission_resource (ar_action req)) scope = ALLOWED)))"
proof -
  obtain out st' where d: "decide get put st req subject = (out, st')" by fastforce
  have "ep_decision (fst (authorize C key pid t0 get put st req subject session workspace)) = ALLOW"
    using assms unfolding granted_iff permit_applies_def by auto
  then have "ao_decision out \<in> {ALLOW, STORE_PERMISSION}"
    by (auto simp: authorize_decision d Let_def split: if_splits)
  from decide_positive [OF d this] show ?thesis unfolding remembered_ALLOWED_iff by blast
qed

theorem grants_trace_to_policy_witness:
  "\<not> pd_approval_required (ar_policy sample_request) \<and> pd_allowed (ar_policy sample_request)"
proof -
  let ?p = "fst (authorize sample_crypto ''k'' ''p1'' (Aware 0 0) store_get store_set None sample_request ''ann'' None None)"
  have dec: "ep_decision ?p = ALLOW"
    by (simp add: authorize_decision decide_defs sample_request_def sample_policy_def)
  have "?p = issue_permit sample_crypto ''k'' ''p1'' (Aware 0 0) (ar_action sample_request) ''ann'' None None
      sample_policy ALLOW [''ok''] ''cap_policy'' [(''remember_permission'', PBool False)] ''cap.policy_engine''"
    by (simp add: authorize_def decide_defs sample_request_def sample_policy_def)
  then have "enforce_cap_permit sample_crypto ''k'' sample_show sample_validate (Aware 0 0)
      (sample_task ''text_generation'' (Some ?p)) sample_routing (Aware 0 0) 0 (Some sample_context) = Granted"
    by (intro sample_gate_fits)
      (simp_all add: issue_permit_simps sample_request_def sample_action_def sample_policy_def)
  from grants_trace_to_policy [OF _ this, of "''p1''" "Aware 0 0" store_get store_set None sample_request "''ann''" None None]
  show ?thesis by (simp add: sample_task_def)
qed

text \<open>C3: a permit that was pending becomes a pass only through a human answer: if the resolved permit
  is granted, the pending one was intact, current and asking, the answer was ALLOW, and it was given
  by the principal the request was made for, for that action.\<close>

theorem pending_needs_human:
  assumes "resolve C key pid t0 pending sub subject source = Inr p" "rt_permit task = Some p"
    and "enforce_cap_permit C key show validate now task routing started_at duration context = Granted"
  shows "as_decision sub = ALLOW \<and> as_action_id sub = ep_action_id pending \<and> subject = ep_subject_id pending \<and>
    ep_decision pending = ASK_USER \<and> verify_integrity C key pending \<and> \<not> is_expired t0 pending \<and>
    Some subject = expected_subject context task \<and> rt_task_id task = as_action_id sub \<and>
    ep_operation_digest p = ep_operation_digest pending"
proof -
  from assms(1) have r: "verify_integrity C key pending" "\<not> is_expired t0 pending" "ep_decision pending = ASK_USER"
    "as_action_id sub = ep_action_id pending" "subject = ep_subject_id pending"
    "p = resolve_pending C key pid t0 pending (as_decision sub) (as_reasons sub) source [(''human_submission'', PBool True)]"
    by (auto simp: resolve_Inr_iff)
  from assms(2,3) have "permit_applies C key now context task p" by (auto simp: granted_iff)
  with r show ?thesis by (auto simp: permit_applies_def resolve_pending_keeps)
qed

definition sample_pending :: execution_permit where
  "sample_pending = issue_permit sample_crypto ''k'' ''p0'' (Aware 0 0) (sample_action ''text_generation'' sample_target)
     ''ann'' None None sample_policy ASK_USER [''ask''] ''cap_policy'' [] ''cap.policy_engine''"

theorem pending_needs_human_witness:
  "\<exists>p. resolve sample_crypto ''k'' ''p1'' (Aware 0 0) sample_pending
      \<lparr>as_action_id = ''t1'', as_decision = ALLOW, as_reasons = []\<rparr> ''ann'' ''human'' = Inr p \<and>
    ep_operation_digest p = ep_operation_digest sample_pending"
proof -
  let ?sub = "\<lparr>as_action_id = ''t1'', as_decision = ALLOW, as_reasons = []\<rparr>"
  let ?p = "resolve_pending sample_crypto ''k'' ''p1'' (Aware 0 0) sample_pending ALLOW [] ''human''
      [(''human_submission'', PBool True)]"
  have f: "ep_action_id sample_pending = ''t1''" "ep_subject_id sample_pending = ''ann''"
    "ep_decision sample_pending = ASK_USER" "ep_session_id sample_pending = None" "ep_workspace_id sample_pending = None"
    "ep_action_type sample_pending = ''text_generation''" "ep_target sample_pending = Some sample_target"
    "ep_required sample_pending = []" "ep_constraints sample_pending = sample_constraints"
    "ep_operation_digest sample_pending = operation_digest sample_crypto ''text_generation'' (Some sample_target)
       (authorization_payload ''text_generation'' sample_inputs)"
    "verify_integrity sample_crypto ''k'' sample_pending"
    by (simp_all add: sample_pending_def issue_permit_simps sample_action_def sample_policy_def)
  have cur: "\<not> is_expired (Aware 0 0) sample_pending"
    by (simp add: not_expired_iff sample_pending_def issue_permit_simps PERMIT_LIFETIME_def)
  have r: "resolve sample_crypto ''k'' ''p1'' (Aware 0 0) sample_pending ?sub ''ann'' ''human'' = Inr ?p"
    using f cur by (simp add: resolve_Inr_iff)
  have "enforce_cap_permit sample_crypto ''k'' sample_show sample_validate (Aware 0 0)
      (sample_task ''text_generation'' (Some ?p)) sample_routing (Aware 0 0) 0 (Some sample_context) = Granted"
    by (intro sample_gate_fits) (simp_all add: f resolve_pending_keeps, simp_all add: resolve_pending_def seal_def Let_def)
  from pending_needs_human [OF r _ this] r show ?thesis by (auto simp: sample_task_def)
qed

text \<open>C4: a permit that verifies with the signature of another permit authorises the same thing in
  every field (times as instants, provenance as it is signed): no field of a signed permit can be
  changed without invalidating it, as long as the keyed digest has no collisions.\<close>

theorem permit_tamper_evident:
  assumes "inj (hmac_sha256 C key)" "inj (isoformat C)"
    and "floats_ok (PDict (ep_approval_provenance p))" "floats_ok (PDict (ep_approval_provenance q))"
    and "verify_integrity C key (p\<lparr>ep_integrity_digest := ep_integrity_digest (seal C key q)\<rparr>)"
  shows "same_authorization C p q"
proof -
  have "hmac_sha256 C key (permit_text C q) = hmac_sha256 C key (permit_text C p)"
    using assms(5) by (simp add: verify_integrity_def seal_def sign_permit_def)
  then have "permit_text C p = permit_text C q" using assms(1) by (metis injD)
  with permit_text_binds [OF assms(2-4)] show ?thesis .
qed

theorem permit_tamper_evident_witness:
  "same_authorization sample_crypto sample_permit (sample_permit\<lparr>ep_issued_at := Aware 3600 3600\<rparr>)"
proof (rule permit_tamper_evident [OF sample_hmac sample_isoformat])
  let ?q = "sample_permit\<lparr>ep_issued_at := Aware 3600 3600\<rparr>"
  have "utc_us (ep_issued_at sample_permit) = 0" by (simp add: sample_permit_def issue_permit_simps)
  then have "permit_text sample_crypto ?q = permit_text sample_crypto sample_permit"
    by (simp add: permit_text_def permit_values_def)
  then show "verify_integrity sample_crypto ''k''
      (sample_permit\<lparr>ep_integrity_digest := ep_integrity_digest (seal sample_crypto ''k'' ?q)\<rparr>)"
    by (simp add: verify_integrity_def seal_def sign_permit_def)
qed (simp_all add: sample_permit_def issue_permit_def seal_def Let_def)

text \<open>C5: the operation digest determines the operation: equal digests mean the same normalised action
  type, the same target and the same normalised payload.\<close>

theorem operation_digest_binds:
  assumes "inj (sha256 C)" "floats_ok (PDict p)" "floats_ok (PDict q)"
    and "operation_digest C a t p = operation_digest C b u q"
  shows "normalize_action_type a = normalize_action_type b \<and> normalize_target t = normalize_target u \<and>
    normalize_operation_payload (isoformat C) (PDict p) = normalize_operation_payload (isoformat C) (PDict q)"
proof -
  have "operation_text C a t p = operation_text C b u q"
    using assms(1,4) by (auto simp: operation_digest_def dest: injD)
  with operation_text_binds [OF assms(2,3)] show ?thesis .
qed

theorem operation_digest_binds_witness:
  "normalize_target (Some '' notes '') = normalize_target (Some ''notes'')"
proof -
  have n: "normalize_target (Some '' notes '') = normalize_target (Some ''notes'')" by code_simp
  have "operation_digest sample_crypto ''tool'' (Some '' notes '') [] = operation_digest sample_crypto ''tool'' (Some ''notes'') []"
    unfolding operation_digest_def operation_text_def canonical_operation_def n ..
  with operation_digest_binds [OF sample_sha, of "[]" "[]" "''tool''" "Some '' notes ''" "''tool''" "Some ''notes''"]
  show ?thesis by simp
qed

text \<open>C6: one process executes a non-idempotent mutation under one permit in at most one of its runs,
  however often the runs are requested.\<close>

theorem mutation_permit_used_once:
  assumes "i < length rqs" "j < length rqs" "i \<noteq> j"
    and "rt_permit (rq_task (rqs ! i)) = Some p" "rt_permit (rq_task (rqs ! j)) = Some q"
    and "ep_permit_id p = ep_permit_id q"
    and "side_effect_of_task E (rq_task (rqs ! i)) = NON_IDEMPOTENT_MUTATION"
    and "side_effect_of_task E (rq_task (rqs ! j)) = NON_IDEMPOTENT_MUTATION"
  shows "filter is_executed (run_all E rqs st ! i) = [] \<or> filter is_executed (run_all E rqs st ! j) = []"
  using run_all_claimed [of i j rqs p q E st] run_all_claimed [of j i rqs q p E st] assms
  by (metis linorder_neqE_nat)

definition sample_engine :: engine_config where
  "sample_engine = \<lparr>ec_crypto = sample_crypto, ec_key = ''k'', ec_show = sample_show, ec_validate = sample_validate,
     ec_dispatcher = \<lparr>di_registry = [''provider'', ''tool''], di_overrides = []\<rparr>, ec_retry = default_retry_policy,
     ec_resolver = None, ec_security = None\<rparr>"

definition sample_run :: "runtime_task \<Rightarrow> (string, runtime_result) result \<Rightarrow> run_request" where
  "sample_run task answer = \<lparr>rq_context = sample_context, rq_task = task, rq_routing = sample_routing,
     rq_recovered = [], rq_checkpoint = True, rq_now = (\<lambda>_. Aware 0 0), rq_elapsed = (\<lambda>_. 0),
     rq_execute = (\<lambda>_. answer), rq_cancel_after = (\<lambda>_. False), rq_cancel_slept = (\<lambda>_. False)\<rparr>"

theorem mutation_permit_used_once_witness:
  "\<forall>st. let rq = sample_run (sample_task ''tool'' (Some sample_permit)) (Inl ''boom'') in
     filter is_executed (run_all sample_engine [rq, rq] st ! 0) = [] \<or>
     filter is_executed (run_all sample_engine [rq, rq] st ! 1) = []"
proof (unfold Let_def, rule allI)
  fix st
  let ?rq = "sample_run (sample_task ''tool'' (Some sample_permit)) (Inl ''boom'')"
  have "side_effect_of_task sample_engine (rq_task ?rq) = NON_IDEMPOTENT_MUTATION"
    by (simp add: side_effect_of_task_def sample_run_def sample_task_def sample_engine_def)
  then show "filter is_executed (run_all sample_engine [?rq, ?rq] st ! 0) = [] \<or>
     filter is_executed (run_all sample_engine [?rq, ?rq] st ! 1) = []"
    by (intro mutation_permit_used_once [of 0 "[?rq, ?rq]" 1 sample_permit sample_permit])
      (simp_all add: sample_run_def sample_task_def)
qed

text \<open>C7: a non-idempotent mutation is executed at a later attempt of a run only after an attempt whose
  outcome rules out that the effect happened.\<close>

theorem mutation_retried_only_without_effect:
  "{k. \<exists>ex. 1 \<le> k \<and> side_effect_of_task E (rq_task rq) = NON_IDEMPOTENT_MUTATION \<and>
       the_execution E rq (Suc k) ex \<in> set (drop (length (es_log st)) (es_log (snd (run E rq st))))} \<subseteq>
   {k. \<exists>st' r. fst (run_once E rq k st') = Inr r \<and>
       operation_outcome_of E (rq_task rq) r \<in> {NOT_STARTED, FAILED_BEFORE_EFFECT}}"
proof (clarsimp)
  fix k ex
  assume k: "Suc 0 \<le> k" and side: "side_effect_of_task E (rq_task rq) = NON_IDEMPOTENT_MUTATION"
    and m: "the_execution E rq (Suc k) ex \<in> set (drop (length (es_log st)) (es_log (snd (run E rq st))))"
  have "the_execution E rq (Suc k) ex \<in> set (loop_executions E rq 1 st)"
    using m unfolding run_executions [symmetric] by (simp add: the_execution_def)
  with loop_executions_retry k obtain st' r where "retried E rq k st' r" by fastforce
  with retried_mutation [OF this side]
  show "\<exists>st' r. fst (run_once E rq k st') = Inr r \<and>
      (operation_outcome_of E (rq_task rq) r = NOT_STARTED \<or>
       operation_outcome_of E (rq_task rq) r = FAILED_BEFORE_EFFECT)"
    unfolding retried_def attempted_def by blast
qed

text \<open>A run executes its task at most once for each attempt the retry policy admits.\<close>

theorem executions_bounded:
  "length (filter is_executed (drop (length (es_log st)) (es_log (snd (run E rq st)))))
     \<le> max 1 (rp_max_attempts (ec_retry E))"
  unfolding run_executions using loop_executions_bound [of E rq 1 st] by simp

end
