(* ===== verification/Provider_Health.thy ===== *)
theory Provider_Health
  imports Runtime_Gate Runtime_Reliability
begin

text \<open>
  Provider configuration (\<open>app/providers/config.py\<close>) and the health checker
  (\<open>app/providers/health.py\<close>): which providers are enabled and configured, the cached status of
  each, and the cooldowns a failed provider is put into. Instants are microseconds since the
  epoch; an operation reads the clock once, as its argument. The last part is the invariant that
  ties the cached statuses to the cooldowns and the operations that keep it.
\<close>

section \<open>Settings\<close>

record provider_settings =
  ps_default_provider :: string
  ps_openai_enabled :: bool
  ps_openai_api_key :: "string option"
  ps_groq_enabled :: bool
  ps_groq_api_key :: "string option"
  ps_openrouter_enabled :: bool
  ps_openrouter_api_key :: "string option"
  ps_local_enabled :: bool
  ps_local_base_url :: "string option"
  ps_mock_enabled :: bool
  ps_mock_agent :: bool
  ps_dev_mode :: bool
  ps_cooldown_seconds :: int
  ps_stream_enabled :: bool
  ps_cost_enabled :: bool
  ps_usage_enabled :: bool
  ps_fallback_enabled :: bool
  ps_max_output_tokens :: int

definition default_provider_settings :: provider_settings where
  "default_provider_settings =
     \<lparr>ps_default_provider = ''groq'', ps_openai_enabled = True, ps_openai_api_key = None,
      ps_groq_enabled = True, ps_groq_api_key = None,
      ps_openrouter_enabled = True, ps_openrouter_api_key = None,
      ps_local_enabled = True, ps_local_base_url = None,
      ps_mock_enabled = True, ps_mock_agent = False, ps_dev_mode = False,
      ps_cooldown_seconds = 60, ps_stream_enabled = True, ps_cost_enabled = True,
      ps_usage_enabled = True, ps_fallback_enabled = True, ps_max_output_tokens = 1024\<rparr>"

definition PRODUCTION_PROVIDERS :: "string list" where
  "PRODUCTION_PROVIDERS = [''openai'', ''groq'', ''openrouter'', ''local'']"

text \<open>\<open>getattr(self, f"{provider_id}_enabled", False)\<close> reads every attribute of that shape.\<close>

definition is_provider_enabled :: "provider_settings \<Rightarrow> string \<Rightarrow> bool" where
  "is_provider_enabled s pid =
     (case map_of
        [(''openai'', ps_openai_enabled s), (''groq'', ps_groq_enabled s),
         (''openrouter'', ps_openrouter_enabled s), (''local'', ps_local_enabled s),
         (''mock'', ps_mock_enabled s), (''stream'', ps_stream_enabled s),
         (''cost'', ps_cost_enabled s), (''usage'', ps_usage_enabled s),
         (''fallback'', ps_fallback_enabled s)] pid of
        Some b \<Rightarrow> b
      | None \<Rightarrow> False)"

definition is_provider_configured :: "provider_settings \<Rightarrow> string \<Rightarrow> bool" where
  "is_provider_configured s pid =
     (case map_of
        [(''openai'', opt_nonempty (ps_openai_api_key s)), (''groq'', opt_nonempty (ps_groq_api_key s)),
         (''openrouter'', opt_nonempty (ps_openrouter_api_key s)),
         (''local'', opt_nonempty (ps_local_base_url s)), (''mock'', True)] pid of
        Some b \<Rightarrow> b
      | None \<Rightarrow> False)"

text \<open>\<open>env\<close> is the value of the environment variable \<open>MOCK_AGENT\<close>, if it is set.\<close>

definition mock_allowed :: "string option \<Rightarrow> provider_settings \<Rightarrow> bool" where
  "mock_allowed env s =
     (if \<not> ps_mock_enabled s then False
      else if ps_mock_agent s \<or> ps_dev_mode s then True
      else py_lower (py_strip (case env of Some v \<Rightarrow> v | None \<Rightarrow> [])) \<in> {''1'', ''true'', ''yes''})"

definition configured_production_providers :: "provider_settings \<Rightarrow> string list" where
  "configured_production_providers s =
     filter (\<lambda>pid. is_provider_enabled s pid \<and> is_provider_configured s pid) PRODUCTION_PROVIDERS"

text \<open>The two startup diagnostics, with the error's message when they raise.\<close>

definition validate_startup :: "string option \<Rightarrow> provider_settings \<Rightarrow> (string, unit) result" where
  "validate_startup env s =
     (let pid = ps_default_provider s in
      if pid = [] then Inl ''No production provider is configured.''
      else if pid = ''mock'' then
        (if \<not> mock_allowed env s
         then Inl (''Provider Startup Error\<newline>'' @ ''Mock provider is not available in production.\<newline>'' @
                   ''Configure a real provider in .env before starting Samaktha.'')
         else Inr ())
      else if \<not> is_provider_enabled s pid
      then Inl (''Provider Startup Error\<newline>'' @ py_capitalize pid @ '' is disabled.\<newline>'' @
                ''Configure .env before starting Samaktha.'')
      else if \<not> is_provider_configured s pid
      then Inl (''Provider Startup Error\<newline>'' @ py_capitalize pid @ '' API key missing.\<newline>'' @
                ''Configure .env before starting Samaktha.'')
      else Inr ())"

definition validate_production :: "string option \<Rightarrow> provider_settings \<Rightarrow> (string, unit) result" where
  "validate_production env s =
     (if configured_production_providers s \<noteq> [] \<or> mock_allowed env s then Inr ()
      else Inl (''No production provider is configured.\<newline>'' @ ''Configure .env before starting Samaktha.''))"

section \<open>Health\<close>

record provider_status =
  st_provider_id :: string
  st_enabled :: bool
  st_configured :: bool
  st_available :: bool
  st_reachable :: bool
  st_rate_limited :: bool
  st_cooldown_until :: "int option"
  st_last_checked :: "int option"
  st_last_error :: "string option"
  st_failures :: nat
  st_total_latency :: rat
  st_successful_calls :: nat
  st_last_success :: "int option"

definition average_latency :: "provider_status \<Rightarrow> rat" where
  "average_latency s =
     (if st_successful_calls s > 0 then st_total_latency s / of_nat (st_successful_calls s) else 0)"

record health =
  hc_settings :: provider_settings
  hc_status :: "(string, provider_status) dict"
  hc_cooldowns :: "(string, int) dict"

definition new_health :: "provider_settings \<Rightarrow> health" where
  "new_health s = \<lparr>hc_settings = s, hc_status = [], hc_cooldowns = []\<rparr>"

text \<open>A provider the tables do not name counts as enabled and configured here.\<close>

definition health_enabled :: "health \<Rightarrow> string \<Rightarrow> bool" where
  "health_enabled h pid =
     (let s = hc_settings h in
      case map_of
        [(''mock'', ps_mock_enabled s), (''openai'', ps_openai_enabled s), (''groq'', ps_groq_enabled s),
         (''openrouter'', ps_openrouter_enabled s), (''local'', ps_local_enabled s)] pid of
        Some b \<Rightarrow> b
      | None \<Rightarrow> True)"

definition health_configured :: "health \<Rightarrow> string \<Rightarrow> bool" where
  "health_configured h pid =
     (let s = hc_settings h in
      case map_of
        [(''mock'', True), (''openai'', opt_nonempty (ps_openai_api_key s)),
         (''groq'', opt_nonempty (ps_groq_api_key s)),
         (''openrouter'', opt_nonempty (ps_openrouter_api_key s)),
         (''local'', opt_nonempty (ps_local_base_url s))] pid of
        Some b \<Rightarrow> b
      | None \<Rightarrow> True)"

definition last_error_of :: "bool \<Rightarrow> bool \<Rightarrow> bool \<Rightarrow> string option" where
  "last_error_of registered enabled configured =
     (if \<not> registered then Some ''Provider is not registered''
      else if \<not> enabled then Some ''Provider is disabled''
      else if \<not> configured then Some ''Provider configuration is incomplete''
      else None)"

definition is_in_cooldown :: "int \<Rightarrow> string \<Rightarrow> health \<Rightarrow> bool \<times> health" where
  "is_in_cooldown now pid h =
     (case map_of (hc_cooldowns h) pid of
        None \<Rightarrow> (False, h)
      | Some until \<Rightarrow>
          if until \<le> now then (False, h\<lparr>hc_cooldowns := AList.delete pid (hc_cooldowns h)\<rparr>)
          else (True, h))"

definition health_cooldown_until :: "int \<Rightarrow> string \<Rightarrow> health \<Rightarrow> int option \<times> health" where
  "health_cooldown_until now pid h =
     (case map_of (hc_cooldowns h) pid of
        None \<Rightarrow> (None, h)
      | Some until \<Rightarrow>
          if until \<le> now then (None, h\<lparr>hc_cooldowns := AList.delete pid (hc_cooldowns h)\<rparr>)
          else (Some until, h))"

definition cooldown_providers :: "int \<Rightarrow> health \<Rightarrow> string list \<times> health" where
  "cooldown_providers now h =
     (let expired = map fst (filter (\<lambda>(_, until). until \<le> now) (hc_cooldowns h));
          rest = fold AList.delete expired (hc_cooldowns h)
      in (map fst (filter (\<lambda>(_, until). until > now) rest), h\<lparr>hc_cooldowns := rest\<rparr>))"

definition mark_cooldown :: "int \<Rightarrow> string \<Rightarrow> int option \<Rightarrow> health \<Rightarrow> health" where
  "mark_cooldown now pid seconds h =
     (let until = now + 1000000 * (case seconds of Some s \<Rightarrow> s | None \<Rightarrow> ps_cooldown_seconds (hc_settings h));
          h = h\<lparr>hc_cooldowns := AList.update pid until (hc_cooldowns h)\<rparr>
      in case map_of (hc_status h) pid of
           None \<Rightarrow> h
         | Some s \<Rightarrow> h\<lparr>hc_status := AList.update pid
             (s\<lparr>st_available := False, st_rate_limited := True, st_cooldown_until := Some until,
                st_last_checked := Some now, st_last_error := Some ''Provider is in cooldown''\<rparr>)
             (hc_status h)\<rparr>)"

definition clear_cooldown :: "string \<Rightarrow> health \<Rightarrow> health" where
  "clear_cooldown pid h = h\<lparr>hc_cooldowns := AList.delete pid (hc_cooldowns h)\<rparr>"

definition is_available :: "int \<Rightarrow> string \<Rightarrow> health \<Rightarrow> bool \<times> health" where
  "is_available now pid h =
     (case map_of (hc_status h) pid of
        Some s \<Rightarrow>
          (if (case st_cooldown_until s of Some until \<Rightarrow> until \<le> now | None \<Rightarrow> False)
           then let available = st_enabled s \<and> st_configured s;
                    s = s\<lparr>st_available := available, st_rate_limited := False,
                          st_cooldown_until := None, st_last_checked := Some now,
                          st_last_error := (if available then None else st_last_error s)\<rparr>
                in (available, h\<lparr>hc_cooldowns := AList.delete pid (hc_cooldowns h),
                                 hc_status := AList.update pid s (hc_status h)\<rparr>)
           else (st_available s, h))
      | None \<Rightarrow>
          if health_enabled h pid \<and> health_configured h pid
          then let (cooling, h') = is_in_cooldown now pid h in (\<not> cooling, h')
          else (False, h))"

text \<open>\<open>check\<close>; \<open>registered\<close> says whether a provider instance was passed.\<close>

definition health_check :: "int \<Rightarrow> string \<Rightarrow> bool \<Rightarrow> health \<Rightarrow> provider_status \<times> health" where
  "health_check now pid registered h =
     (let enabled = health_enabled h pid;
          configured = registered \<and> health_configured h pid;
          (cooling, h) = is_in_cooldown now pid h;
          available = enabled \<and> configured \<and> \<not> cooling;
          existing = map_of (hc_status h) pid;
          reachable = (if available \<and> registered
                       then (case existing of Some s \<Rightarrow> st_reachable s | None \<Rightarrow> True) else False);
          err = last_error_of registered enabled configured;
          err = (if cooling \<and> err = None then Some ''Provider is in cooldown'' else err);
          err = (if \<not> reachable \<and> err = None then Some ''Provider is currently unreachable'' else err);
          until = map_of (hc_cooldowns h) pid;
          s = (case existing of
                 Some s \<Rightarrow> s\<lparr>st_enabled := enabled, st_configured := configured,
                   st_available := available, st_rate_limited := cooling, st_cooldown_until := until,
                   st_last_checked := Some now,
                   st_last_error := (if err \<noteq> None then err else st_last_error s)\<rparr>
               | None \<Rightarrow> \<lparr>st_provider_id = pid, st_enabled = enabled, st_configured = configured,
                   st_available = available, st_reachable = reachable, st_rate_limited = cooling,
                   st_cooldown_until = until, st_last_checked = Some now, st_last_error = err,
                   st_failures = 0, st_total_latency = 0, st_successful_calls = 0,
                   st_last_success = None\<rparr>)
      in (s, h\<lparr>hc_status := AList.update pid s (hc_status h)\<rparr>))"

definition unseen_status :: "string \<Rightarrow> provider_status" where
  "unseen_status pid =
     \<lparr>st_provider_id = pid, st_enabled = True, st_configured = True, st_available = True,
      st_reachable = False, st_rate_limited = False, st_cooldown_until = None,
      st_last_checked = None, st_last_error = None, st_failures = 0, st_total_latency = 0,
      st_successful_calls = 0, st_last_success = None\<rparr>"

definition status_or_new :: "string \<Rightarrow> health \<Rightarrow> provider_status" where
  "status_or_new pid h = (case map_of (hc_status h) pid of Some s \<Rightarrow> s | None \<Rightarrow> unseen_status pid)"

definition record_success :: "int \<Rightarrow> string \<Rightarrow> rat \<Rightarrow> health \<Rightarrow> health" where
  "record_success now pid latency h =
     (let s = status_or_new pid h
      in h\<lparr>hc_status := AList.update pid
           (s\<lparr>st_successful_calls := st_successful_calls s + 1,
              st_total_latency := st_total_latency s + latency, st_last_success := Some now,
              st_last_error := None, st_reachable := True, st_failures := 0\<rparr>) (hc_status h)\<rparr>)"

definition record_failure :: "string \<Rightarrow> string \<Rightarrow> health \<Rightarrow> health" where
  "record_failure pid message h =
     (let s = status_or_new pid h
      in h\<lparr>hc_status := AList.update pid
           (s\<lparr>st_failures := st_failures s + 1, st_last_error := Some message,
              st_reachable := False\<rparr>) (hc_status h)\<rparr>)"

section \<open>Cooldowns and cached statuses\<close>

text \<open>
  A cached status of a provider with a cooldown is unavailable and carries that cooldown.
\<close>

definition cooldown_consistent :: "health \<Rightarrow> bool" where
  "cooldown_consistent h \<longleftrightarrow>
     (\<forall>pid s until. map_of (hc_status h) pid = Some s \<longrightarrow> map_of (hc_cooldowns h) pid = Some until \<longrightarrow>
        \<not> st_available s \<and> st_cooldown_until s = Some until)"

named_theorems health_ops \<open>the operations of the health checker that keep its invariant\<close>

lemma consistent_update:
  assumes "cooldown_consistent h"
    and "\<And>until. map_of c pid = Some until \<Longrightarrow> \<not> st_available s \<and> st_cooldown_until s = Some until"
    and "\<And>p until. p \<noteq> pid \<Longrightarrow> map_of c p = Some until \<Longrightarrow> map_of (hc_cooldowns h) p = Some until"
  shows "cooldown_consistent (h\<lparr>hc_cooldowns := c, hc_status := AList.update pid s (hc_status h)\<rparr>)"
  using assms unfolding cooldown_consistent_def by auto

lemma consistent_cooldowns:
  assumes "cooldown_consistent h"
    and "\<And>p until. map_of c p = Some until \<Longrightarrow> map_of (hc_cooldowns h) p = Some until"
  shows "cooldown_consistent (h\<lparr>hc_cooldowns := c\<rparr>)"
  using assms unfolding cooldown_consistent_def by auto

lemma new_health_consistent: "cooldown_consistent (new_health s)"
  by (simp add: cooldown_consistent_def new_health_def)

lemma is_in_cooldown_fst:
  "fst (is_in_cooldown now pid h) \<longleftrightarrow> (\<exists>until. map_of (hc_cooldowns h) pid = Some until \<and> now < until)"
  by (auto simp: is_in_cooldown_def split: option.splits)

lemma is_in_cooldown_snd:
  "snd (is_in_cooldown now pid h) =
     h\<lparr>hc_cooldowns := (if (\<exists>until. map_of (hc_cooldowns h) pid = Some until \<and> until \<le> now)
                        then AList.delete pid (hc_cooldowns h) else hc_cooldowns h)\<rparr>"
  by (auto simp: is_in_cooldown_def split: option.splits)

lemma is_in_cooldown_after:
  "map_of (hc_cooldowns (snd (is_in_cooldown now pid h))) pid =
     (if fst (is_in_cooldown now pid h) then map_of (hc_cooldowns h) pid else None)"
  by (auto simp: is_in_cooldown_def split: option.splits)

lemma map_of_deleteD: "map_of (AList.delete k d) p = Some v \<Longrightarrow> map_of d p = Some v"
  by (simp split: if_splits)

lemma is_in_cooldown_consistent [health_ops]:
  "cooldown_consistent h \<Longrightarrow> cooldown_consistent (snd (is_in_cooldown now pid h))"
  unfolding is_in_cooldown_snd by (rule consistent_cooldowns) (auto split: if_splits)

lemma clear_cooldown_consistent [health_ops]:
  "cooldown_consistent h \<Longrightarrow> cooldown_consistent (clear_cooldown pid h)"
  unfolding clear_cooldown_def by (rule consistent_cooldowns) (auto split: if_splits)

lemma mark_cooldown_consistent [health_ops]:
  assumes "cooldown_consistent h"
  shows "cooldown_consistent (mark_cooldown now pid seconds h)"
  using assms unfolding mark_cooldown_def Let_def cooldown_consistent_def
  by (auto split: option.splits if_splits)

lemma is_available_consistent [health_ops]:
  assumes "cooldown_consistent h"
  shows "cooldown_consistent (snd (is_available now pid h))"
proof (cases "map_of (hc_status h) pid")
  case None
  then show ?thesis
    using is_in_cooldown_consistent [OF assms, of now pid] assms
    by (cases "is_in_cooldown now pid h") (simp add: is_available_def)
next
  case (Some s)
  then show ?thesis
    using assms unfolding is_available_def Let_def cooldown_consistent_def
    by (auto split: option.splits if_splits)
qed

lemma health_check_status:
  "st_enabled (fst (health_check now pid r h)) = health_enabled h pid"
  "st_configured (fst (health_check now pid r h)) = (r \<and> health_configured h pid)"
  "st_available (fst (health_check now pid r h)) =
     (health_enabled h pid \<and> r \<and> health_configured h pid \<and> \<not> fst (is_in_cooldown now pid h))"
  "st_cooldown_until (fst (health_check now pid r h)) =
     map_of (hc_cooldowns (snd (is_in_cooldown now pid h))) pid"
  by (cases "is_in_cooldown now pid h"; cases "map_of (hc_status h) pid";
      auto simp: health_check_def Let_def is_in_cooldown_def split: option.splits if_splits)+

lemma health_check_state:
  "snd (health_check now pid r h) =
     (snd (is_in_cooldown now pid h))
       \<lparr>hc_status := AList.update pid (fst (health_check now pid r h)) (hc_status h)\<rparr>"
  by (cases "is_in_cooldown now pid h")
     (auto simp: health_check_def Let_def is_in_cooldown_def split: option.splits if_splits)

lemma health_check_consistent [health_ops]:
  assumes "cooldown_consistent h"
  shows "cooldown_consistent (snd (health_check now pid r h))"
proof -
  let ?i = "is_in_cooldown now pid h"
  have "snd (health_check now pid r h) =
      h\<lparr>hc_cooldowns := hc_cooldowns (snd ?i),
        hc_status := AList.update pid (fst (health_check now pid r h)) (hc_status h)\<rparr>"
    unfolding health_check_state is_in_cooldown_snd by simp
  moreover have "cooldown_consistent \<dots>"
  proof (rule consistent_update [OF assms])
    fix until assume "map_of (hc_cooldowns (snd ?i)) pid = Some until"
    then show "\<not> st_available (fst (health_check now pid r h)) \<and>
        st_cooldown_until (fst (health_check now pid r h)) = Some until"
      by (simp add: health_check_status is_in_cooldown_after split: if_splits)
  next
    fix p until assume "map_of (hc_cooldowns (snd ?i)) p = Some until"
    then show "map_of (hc_cooldowns h) p = Some until"
      by (auto simp: is_in_cooldown_snd split: if_splits)
  qed
  ultimately show ?thesis by simp
qed

text \<open>A call recorded for a provider that has a status keeps the invariant; one recorded for a
  provider without a status may not, because the status it creates is available.\<close>

lemma record_success_consistent [health_ops]:
  "cooldown_consistent h \<Longrightarrow> map_of (hc_status h) pid \<noteq> None \<Longrightarrow>
     cooldown_consistent (record_success now pid latency h)"
  by (auto simp: record_success_def status_or_new_def cooldown_consistent_def split: option.splits)

lemma record_failure_consistent [health_ops]:
  "cooldown_consistent h \<Longrightarrow> map_of (hc_status h) pid \<noteq> None \<Longrightarrow>
     cooldown_consistent (record_failure pid message h)"
  by (auto simp: record_failure_def status_or_new_def cooldown_consistent_def split: option.splits)

lemma cooling_unavailable:
  assumes "cooldown_consistent h" "map_of (hc_cooldowns h) pid = Some until" "now < until"
  shows "\<not> fst (is_available now pid h)" "\<not> st_available (fst (health_check now pid r h))"
proof -
  show "\<not> fst (is_available now pid h)"
  proof (cases "map_of (hc_status h) pid")
    case None
    then show ?thesis using assms by (simp add: is_available_def is_in_cooldown_def)
  next
    case (Some s)
    then have "\<not> st_available s" "st_cooldown_until s = Some until"
      using assms unfolding cooldown_consistent_def by blast+
    then show ?thesis using Some assms(3) by (simp add: is_available_def)
  qed
  show "\<not> st_available (fst (health_check now pid r h))"
    using assms by (simp add: health_check_status is_in_cooldown_fst)
qed

text \<open>What a query answers, and that a query does not change the answer to another one made
  at the same instant.\<close>

lemma is_available_fst:
  "fst (is_available now p h) =
     (case map_of (hc_status h) p of
        Some s \<Rightarrow> (case st_cooldown_until s of
                     Some until \<Rightarrow> if until \<le> now then st_enabled s \<and> st_configured s else st_available s
                   | None \<Rightarrow> st_available s)
      | None \<Rightarrow> health_enabled h p \<and> health_configured h p \<and> \<not> fst (is_in_cooldown now p h))"
  by (auto simp: is_available_def Let_def split: option.splits prod.splits)

lemma is_available_settings: "hc_settings (snd (is_available now q h)) = hc_settings h"
  by (auto simp: is_available_def is_in_cooldown_def Let_def split: option.splits prod.splits if_splits)

lemma settings_enabled:
  "hc_settings h = hc_settings h' \<Longrightarrow> health_enabled h p = health_enabled h' p"
  "hc_settings h = hc_settings h' \<Longrightarrow> health_configured h p = health_configured h' p"
  by (simp_all add: health_enabled_def health_configured_def)

lemma is_available_other:
  assumes "p \<noteq> q"
  shows "map_of (hc_status (snd (is_available now q h))) p = map_of (hc_status h) p"
    "map_of (hc_cooldowns (snd (is_available now q h))) p = map_of (hc_cooldowns h) p"
  using assms
  by (auto simp: is_available_def is_in_cooldown_def Let_def split: option.splits if_splits)

lemma is_available_again: "fst (is_available now p (snd (is_available now p h))) = fst (is_available now p h)"
proof (cases "map_of (hc_status h) p")
  case None
  then have "map_of (hc_status (snd (is_available now p h))) p = None"
    by (auto simp: is_available_def is_in_cooldown_def split: option.splits if_splits)
  moreover have "fst (is_in_cooldown now p (snd (is_available now p h))) = fst (is_in_cooldown now p h)"
    using None by (auto simp: is_available_def is_in_cooldown_def split: option.splits if_splits)
  ultimately show ?thesis
    using None settings_enabled [OF is_available_settings] by (simp add: is_available_fst)
next
  case (Some s)
  then show ?thesis by (auto simp: is_available_def Let_def split: option.splits if_splits)
qed

lemma is_available_stable: "fst (is_available now p (snd (is_available now q h))) = fst (is_available now p h)"
proof (cases "p = q")
  case True
  then show ?thesis by (simp add: is_available_again)
next
  case False
  then show ?thesis
    using is_available_other [of p q now h] settings_enabled [OF is_available_settings]
    by (simp add: is_available_fst is_in_cooldown_fst split: option.splits)
qed

section \<open>Histories of the checker\<close>

text \<open>The states the router and the provider manager bring the checker into.\<close>

inductive health_history :: "provider_settings \<Rightarrow> health \<Rightarrow> bool" for settings where
  start: "health_history settings (new_health settings)"
| queried: "health_history settings h \<Longrightarrow> health_history settings (snd (is_available now pid h))"
| checked: "health_history settings h \<Longrightarrow> health_history settings (snd (health_check now pid r h))"
| cooled: "health_history settings h \<Longrightarrow> health_history settings (mark_cooldown now pid seconds h)"
| cleared: "health_history settings h \<Longrightarrow> health_history settings (clear_cooldown pid h)"
| asked: "health_history settings h \<Longrightarrow> health_history settings (snd (is_in_cooldown now pid h))"
| succeeded: "health_history settings h \<Longrightarrow> map_of (hc_status h) pid \<noteq> None \<Longrightarrow>
     health_history settings (record_success now pid latency h)"
| failed: "health_history settings h \<Longrightarrow> map_of (hc_status h) pid \<noteq> None \<Longrightarrow>
     health_history settings (record_failure pid message h)"

lemma history_consistent: "health_history settings h \<Longrightarrow> cooldown_consistent h"
  by (induction rule: health_history.induct) (auto intro: health_ops new_health_consistent)

end
