(* ===== verification/Model_Routing.thy ===== *)
theory Model_Routing
  imports Provider_Health
begin

text \<open>
  The model router (\<open>app/router/\<close>) and the model registry it consults (\<open>app/models/\<close>): the
  candidates for a request, the filters they pass, the configured preference, the scoring of
  capabilities, and the decision with its text. A route changes the router's health checker and
  its counters, so it returns the router it leaves. Floats are rationals; the printed form of one
  is the argument \<open>show\<close>.
\<close>

section \<open>Requests, registrations, models and capabilities\<close>

datatype execution_location = LOCAL | CLOUD

datatype goal_complexity = COMPLEXITY_LOW | COMPLEXITY_MEDIUM | COMPLEXITY_HIGH

record router_request =
  qr_purpose :: string
  qr_complexity :: goal_complexity
  qr_estimated_context_tokens :: int
  qr_requires_local_model :: bool
  qr_requires_code :: bool
  qr_requires_reasoning :: bool
  qr_requires_fast_response :: bool
  qr_max_latency_ms :: "rat option"
  qr_max_cost_per_1k_tokens :: "rat option"
  qr_execution_constraints :: execution_constraints

record model_registration =
  mr_provider_id :: string
  mr_model_id :: string
  mr_capabilities :: "string list"
  mr_execution_location :: execution_location
  mr_metadata :: "(string, string) dict"

definition provider_kind :: "model_registration \<Rightarrow> string" where
  "provider_kind r = (case map_of (mr_metadata r) ''provider_kind'' of Some k \<Rightarrow> k | None \<Rightarrow> ''cloud'')"

record model_info =
  mi_model_id :: string
  mi_provider_id :: string
  mi_context_window :: int
  mi_reasoning_score :: int
  mi_coding_score :: int
  mi_speed_score :: int
  mi_cost_score :: int
  mi_privacy_score :: int
  mi_execution_location :: execution_location
  mi_maximum_output :: int
  mi_version :: "string option"
  mi_input_cost_per_1k :: rat
  mi_output_cost_per_1k :: rat
  mi_capability_source :: string

text \<open>\<open>ModelRegistry\<close>: model metadata by model id.\<close>

type_synonym model_registry = "(string, model_info) dict"

definition register_model :: "model_info \<Rightarrow> model_registry \<Rightarrow> model_registry" where
  "register_model m r = AList.update (mi_model_id m) m r"

definition register_models :: "model_info list \<Rightarrow> model_registry \<Rightarrow> model_registry" where
  "register_models ms r = fold register_model ms r"

definition discover_from_metadata :: "model_info \<Rightarrow> model_registry \<Rightarrow> model_registry" where
  "discover_from_metadata m r = register_model (m\<lparr>mi_capability_source := ''metadata''\<rparr>) r"

definition resolve_model :: "model_registry \<Rightarrow> string \<Rightarrow> model_info option" where
  "resolve_model r model_id = map_of r model_id"

definition list_models_by_provider :: "model_registry \<Rightarrow> string \<Rightarrow> model_info list" where
  "list_models_by_provider r pid = filter (\<lambda>m. mi_provider_id m = pid) (map snd r)"

record provider_capability =
  cap_provider_id :: string
  cap_model_id :: string
  cap_capabilities :: "string list"
  cap_execution_location :: execution_location
  cap_reasoning_score :: int
  cap_coding_score :: int
  cap_speed_score :: int
  cap_privacy_score :: int
  cap_cost_score :: int
  cap_context_window :: int
  cap_maximum_output :: int
  cap_input_cost_per_1k :: rat
  cap_output_cost_per_1k :: rat
  cap_latency_ms :: "rat option"
  cap_version :: "string option"
  cap_metadata :: "(string, string) dict"

type_synonym capability_registry = "(string \<times> string, provider_capability) dict"

definition register_capability :: "provider_capability \<Rightarrow> capability_registry \<Rightarrow> capability_registry" where
  "register_capability c r = AList.update (cap_provider_id c, cap_model_id c) c r"

definition get_capability :: "capability_registry \<Rightarrow> string \<Rightarrow> string option \<Rightarrow> provider_capability option" where
  "get_capability r pid model_id =
     (case model_id of
        Some m \<Rightarrow> map_of r (pid, m)
      | None \<Rightarrow> map_option snd (List.find (\<lambda>((p, _), _). p = pid) r))"

record routing_policy =
  pol_require_private_execution :: bool
  pol_prefer_local :: bool
  pol_prefer_low_cost :: bool
  pol_prefer_fast_response :: bool
  pol_max_latency_ms :: "rat option"
  pol_max_cost_per_1k_tokens :: "rat option"
  pol_require_context_tokens :: "int option"

definition default_routing_policy :: routing_policy where
  "default_routing_policy =
     \<lparr>pol_require_private_execution = False, pol_prefer_local = False, pol_prefer_low_cost = False,
      pol_prefer_fast_response = False, pol_max_latency_ms = None,
      pol_max_cost_per_1k_tokens = None, pol_require_context_tokens = None\<rparr>"

text \<open>\<open>RouterRegistry.candidates\<close>; \<open>_normalize\<close> is the normalisation of action types.\<close>

definition normalize_capability :: "string \<Rightarrow> string" where
  "normalize_capability s =
     py_replace CHR '' '' CHR ''_'' (py_replace CHR ''-'' CHR ''_'' (py_lower (py_strip s)))"

definition router_candidates :: "model_registration list \<Rightarrow> string \<Rightarrow> model_registration list" where
  "router_candidates regs capability =
     filter (\<lambda>r. normalize_capability capability \<in> set (map normalize_capability (mr_capabilities r))) regs"

section \<open>Scoring\<close>

record provider_score =
  sc_provider_id :: string
  sc_model_id :: string
  sc_score :: int
  sc_reasons :: "string list"

text \<open>One optional line of the score: whether it applies, what it adds, the reason it gives.\<close>

definition score_line :: "bool \<Rightarrow> int \<Rightarrow> string \<Rightarrow> int \<times> string list \<Rightarrow> int \<times> string list" where
  "score_line applies amount reason acc =
     (if applies then (fst acc + amount, snd acc @ [reason]) else acc)"

definition weight_reason :: "string \<Rightarrow> int \<Rightarrow> int \<Rightarrow> string" where
  "weight_reason name value weight =
     name @ ''='' @ int_str value @ '' (weight='' @ int_str weight @ '')''"

definition score_capability :: "router_request \<Rightarrow> provider_capability \<Rightarrow> routing_policy \<Rightarrow> provider_score" where
  "score_capability q c p =
     (let double = (if qr_complexity q = COMPLEXITY_HIGH then 2 else 1);
          local = qr_requires_local_model q \<or> pol_require_private_execution p \<or> pol_prefer_local p;
          (score, reasons) =
            score_line (pol_prefer_low_cost p) (cap_cost_score c * 2)
              (weight_reason ''cost_score'' (cap_cost_score c) 2)
            (score_line (local \<and> cap_privacy_score c < 5) (- 50)
              ''penalty: low privacy score for private request''
            (score_line local (cap_privacy_score c * 5)
              (weight_reason ''privacy_score'' (cap_privacy_score c) 5)
            (score_line (qr_requires_fast_response q \<or> pol_prefer_fast_response p) (cap_speed_score c * 2)
              (weight_reason ''speed_score'' (cap_speed_score c) 2)
            (score_line (qr_requires_reasoning q \<or> qr_complexity q = COMPLEXITY_HIGH)
              (cap_reasoning_score c * (3 * double))
              (weight_reason ''reasoning_score'' (cap_reasoning_score c) (3 * double))
            (score_line (qr_requires_code q) (cap_coding_score c * (3 * double))
              (weight_reason ''coding_score'' (cap_coding_score c) (3 * double))
              (cap_speed_score c * 1, []))))))
      in \<lparr>sc_provider_id = cap_provider_id c, sc_model_id = cap_model_id c, sc_score = score,
          sc_reasons = (if reasons = [] then [''base speed_score='' @ int_str (cap_speed_score c)]
                        else reasons)\<rparr>)"

text \<open>\<open>a or b\<close> on optional floats: a zero counts as absent.\<close>

definition or_limit :: "rat option \<Rightarrow> rat option \<Rightarrow> rat option" where
  "or_limit a b = (case a of Some x \<Rightarrow> if x = 0 then b else a | None \<Rightarrow> b)"

definition capability_eligible :: "router_request \<Rightarrow> provider_capability \<Rightarrow> routing_policy \<Rightarrow> bool" where
  "capability_eligible q c p =
     (let required = max (qr_estimated_context_tokens q)
                         (case pol_require_context_tokens p of Some n \<Rightarrow> n | None \<Rightarrow> 0);
          latency_limit = or_limit (qr_max_latency_ms q) (pol_max_latency_ms p);
          cost_limit = or_limit (qr_max_cost_per_1k_tokens q) (pol_max_cost_per_1k_tokens p);
          cost = cap_input_cost_per_1k c + cap_output_cost_per_1k c
      in if cap_context_window c \<noteq> 0 \<and> cap_context_window c < required then False
         else if (case (latency_limit, cap_latency_ms c) of
                    (Some limit, Some latency) \<Rightarrow> latency > limit | _ \<Rightarrow> False) then False
         else if (case cost_limit of Some limit \<Rightarrow> cost > limit \<and> cost > 0 | None \<Rightarrow> False) then False
         else True)"

definition rank_capabilities ::
  "router_request \<Rightarrow> provider_capability list \<Rightarrow> routing_policy \<Rightarrow> provider_score list" where
  "rank_capabilities q caps p =
     sort_desc sc_score (map (\<lambda>c. score_capability q c p) (filter (\<lambda>c. capability_eligible q c p) caps))"

section \<open>The router\<close>

record router_metrics =
  rm_decisions :: nat
  rm_successful :: nat
  rm_failed :: nat

definition record_decision :: "bool \<Rightarrow> router_metrics \<Rightarrow> router_metrics" where
  "record_decision successful m =
     (if successful
      then m\<lparr>rm_decisions := rm_decisions m + 1, rm_successful := rm_successful m + 1\<rparr>
      else m\<lparr>rm_decisions := rm_decisions m + 1, rm_failed := rm_failed m + 1\<rparr>)"

record model_router =
  ro_registry :: "model_registration list"
  ro_capabilities :: "capability_registry option"
  ro_policy :: routing_policy
  ro_models :: "model_registry option"
  ro_health :: "health option"
  ro_preferred :: "string option"
  ro_metrics :: router_metrics

definition capability_of_request :: "router_request \<Rightarrow> string" where
  "capability_of_request q =
     (let purpose = py_lower (qr_purpose q) in
      if py_contains purpose ''tool_execution'' \<or> py_contains purpose ''tool execution''
      then ''tool_execution''
      else if qr_requires_code q then ''code_generation''
      else ''text_generation'')"

definition router_requires_local :: "router_request \<Rightarrow> bool" where
  "router_requires_local q =
     (qr_requires_local_model q \<or> ec_requires_local_model (qr_execution_constraints q))"

definition local_registration :: "model_registration \<Rightarrow> bool" where
  "local_registration r = (mr_execution_location r = LOCAL \<and> provider_kind r \<noteq> ''mock'')"

definition model_is_eligible :: "model_registry \<Rightarrow> string \<Rightarrow> router_request \<Rightarrow> bool" where
  "model_is_eligible models model_id q =
     (case resolve_model models model_id of
        None \<Rightarrow> True
      | Some m \<Rightarrow>
          if ec_requires_local_model (qr_execution_constraints q) \<and> mi_execution_location m \<noteq> LOCAL then False
          else if mi_context_window m < qr_estimated_context_tokens q then False
          else if qr_requires_code q \<and> mi_coding_score m \<le> 0 then False
          else if qr_requires_reasoning q \<and> mi_reasoning_score m \<le> 0 then False
          else True)"

text \<open>The registered candidates, with the text models that can write code when there are none.\<close>

definition initial_candidates :: "model_router \<Rightarrow> router_request \<Rightarrow> model_registration list" where
  "initial_candidates ro q =
     (let capability = capability_of_request q;
          requires_local = router_requires_local q;
          cs = router_candidates (ro_registry ro) capability;
          cs = (if requires_local then filter local_registration cs else cs)
      in case ro_models ro of
           None \<Rightarrow> cs
         | Some models \<Rightarrow>
             if cs = [] \<and> capability = ''code_generation''
             then filter (\<lambda>c. (case resolve_model models (mr_model_id c) of
                                 Some m \<Rightarrow> mi_coding_score m > 0 | None \<Rightarrow> False)
                              \<and> (\<not> requires_local \<or> local_registration c))
                    (router_candidates (ro_registry ro) ''text_generation'')
             else cs)"

definition eligible_candidates :: "model_router \<Rightarrow> router_request \<Rightarrow> model_registration list" where
  "eligible_candidates ro q =
     (case ro_models ro of
        None \<Rightarrow> initial_candidates ro q
      | Some models \<Rightarrow> filter (\<lambda>c. model_is_eligible models (mr_model_id c) q) (initial_candidates ro q))"

text \<open>The availability filter asks the checker about one candidate after the other.\<close>

fun available_candidates :: "int \<Rightarrow> model_registration list \<Rightarrow> health \<Rightarrow> model_registration list \<times> health" where
  "available_candidates now [] h = ([], h)"
| "available_candidates now (c # cs) h =
     (let (ok, h1) = is_available now (mr_provider_id c) h;
          (rest, h2) = available_candidates now cs h1
      in (if ok then c # rest else rest, h2))"

definition capability_of_model :: "model_registration \<Rightarrow> model_info \<Rightarrow> provider_capability" where
  "capability_of_model c m =
     \<lparr>cap_provider_id = mr_provider_id c, cap_model_id = mr_model_id c,
      cap_capabilities = mr_capabilities c, cap_execution_location = mi_execution_location m,
      cap_reasoning_score = mi_reasoning_score m, cap_coding_score = mi_coding_score m,
      cap_speed_score = mi_speed_score m, cap_privacy_score = mi_privacy_score m,
      cap_cost_score = mi_cost_score m, cap_context_window = mi_context_window m,
      cap_maximum_output = mi_maximum_output m, cap_input_cost_per_1k = mi_input_cost_per_1k m,
      cap_output_cost_per_1k = mi_output_cost_per_1k m, cap_latency_ms = None,
      cap_version = mi_version m,
      cap_metadata = [(''capability_source'', mi_capability_source m)]\<rparr>"

definition capability_for :: "model_router \<Rightarrow> model_registration \<Rightarrow> provider_capability option" where
  "capability_for ro c =
     (let registered = (case ro_capabilities ro of
                          Some r \<Rightarrow> get_capability r (mr_provider_id c) (Some (mr_model_id c)) | None \<Rightarrow> None);
          model = (case ro_models ro of Some ms \<Rightarrow> resolve_model ms (mr_model_id c) | None \<Rightarrow> None)
      in case model of Some m \<Rightarrow> Some (capability_of_model c m) | None \<Rightarrow> registered)"

definition capabilities_for_candidates :: "model_router \<Rightarrow> model_registration list \<Rightarrow> provider_capability list" where
  "capabilities_for_candidates ro cs = List.map_filter (capability_for ro) cs"

text \<open>A refusal, which names no provider, and a decision for a candidate.\<close>

definition refused_decision :: "router_request \<Rightarrow> string \<Rightarrow> string \<Rightarrow> routing_decision" where
  "refused_decision q summary constraint =
     \<lparr>rd_provider_id = [], rd_model_id = [], rd_reasoning_summary = summary,
      rd_constraints = [constraint], rd_execution_constraints = qr_execution_constraints q,
      rd_metadata = [(''capability'', PStr (capability_of_request q))]\<rparr>"

definition chosen_decision ::
  "router_request \<Rightarrow> model_registration \<Rightarrow> string \<Rightarrow> (string, pyval) dict \<Rightarrow> routing_decision" where
  "chosen_decision q c summary metadata =
     \<lparr>rd_provider_id = mr_provider_id c, rd_model_id = mr_model_id c, rd_reasoning_summary = summary,
      rd_constraints = [], rd_execution_constraints = qr_execution_constraints q,
      rd_metadata = dict_merge metadata (map (\<lambda>(k, v). (k, PStr v)) (mr_metadata c))\<rparr>"

definition scored_decision ::
  "(rat \<Rightarrow> string) \<Rightarrow> router_request \<Rightarrow> model_registration list \<Rightarrow> provider_capability list \<Rightarrow>
   provider_score \<Rightarrow> routing_decision" where
  "scored_decision show q cs caps best =
     (let same = (\<lambda>c. cap_provider_id c = sc_provider_id best \<and> cap_model_id c = sc_model_id best);
          matched = (case List.find (\<lambda>c. mr_provider_id c = sc_provider_id best \<and>
                                         mr_model_id c = sc_model_id best) cs of
                       Some c \<Rightarrow> c | None \<Rightarrow> hd cs)
      in chosen_decision q matched
           (''Scored selection: '' @ mr_provider_id matched @ ''/'' @ mr_model_id matched @
            '' (score='' @ int_str (sc_score best) @ '') for capability: '' @ capability_of_request q @
            ''. Factors: '' @ py_join ''; '' (take 3 (sc_reasons best)))
           [(''capability'', PStr (capability_of_request q)),
            (''score'', PStr (int_str (sc_score best))),
            (''scoring_version'', PStr ''v0.2''),
            (''context_window'', PStr (case List.find same caps of
               Some c \<Rightarrow> int_str (cap_context_window c) | None \<Rightarrow> ''0'')),
            (''latency_ms'', PStr (case List.find same caps of
               Some c \<Rightarrow> (case cap_latency_ms c of Some l \<Rightarrow> show l | None \<Rightarrow> ''None'')
             | None \<Rightarrow> ''unknown''))])"

definition scoreable_capabilities :: "model_router \<Rightarrow> model_registration list \<Rightarrow> provider_capability list" where
  "scoreable_capabilities ro cs =
     (if ro_capabilities ro = None \<and> ro_models ro = None then []
      else filter (\<lambda>c. cap_provider_id c \<in> set (map mr_provider_id cs)) (capabilities_for_candidates ro cs))"

text \<open>The choice among candidates that passed every filter.\<close>

definition choose_route ::
  "(rat \<Rightarrow> string) \<Rightarrow> model_router \<Rightarrow> router_request \<Rightarrow> model_registration list \<Rightarrow> routing_decision" where
  "choose_route show ro q cs =
     (let capability = capability_of_request q;
          preferred = (if opt_nonempty (ro_preferred ro)
                       then List.find (\<lambda>c. Some (mr_provider_id c) = ro_preferred ro) cs else None);
          caps = scoreable_capabilities ro cs
      in case preferred of
           Some c \<Rightarrow> chosen_decision q c
             (''Configured provider selected: '' @ mr_provider_id c @ ''/'' @ mr_model_id c)
             [(''capability'', PStr capability)]
         | None \<Rightarrow>
             if caps \<noteq> [] then
               (case rank_capabilities q caps (ro_policy ro) of
                  best # _ \<Rightarrow> scored_decision show q cs caps best
                | [] \<Rightarrow> refused_decision q ''No eligible model satisfies routing constraints'' ''routing_constraints'')
             else chosen_decision q (hd cs)
               (''Selected '' @ mr_provider_id (hd cs) @ ''/'' @ mr_model_id (hd cs) @
                '' for capability: '' @ capability)
               [(''capability'', PStr capability)])"

definition route :: "(rat \<Rightarrow> string) \<Rightarrow> int \<Rightarrow> model_router \<Rightarrow> router_request \<Rightarrow> routing_decision \<times> model_router" where
  "route show now ro q =
     (let capability = capability_of_request q;
          eligible = eligible_candidates ro q;
          (cs, h) = (case ro_health ro of
                       None \<Rightarrow> (eligible, None)
                     | Some h \<Rightarrow> let (cs, h') = available_candidates now eligible h in (cs, Some h'));
          decided = (\<lambda>h d. (d, ro\<lparr>ro_health := h,
                                  ro_metrics := record_decision (rd_constraints d = []) (ro_metrics ro)\<rparr>))
      in if ro_models ro \<noteq> None \<and> eligible = []
         then decided (ro_health ro) (refused_decision q (''No registered model satisfies capability: '' @ capability)
                                        (''model_constraints:'' @ capability))
         else if cs = [] then
           (if ro_health ro \<noteq> None
            then decided h (refused_decision q ''No registered provider is currently available''
                              (''health_constraints:'' @ capability))
            else decided h (refused_decision q (''No registered provider supports capability: '' @ capability)
                              (''missing_capability:'' @ capability)))
         else decided h (choose_route show ro q cs))"

section \<open>What a route is\<close>

lemma available_candidates_fst:
  "fst (available_candidates now cs h) = filter (\<lambda>c. fst (is_available now (mr_provider_id c) h)) cs"
proof (induction cs arbitrary: h)
  case (Cons c cs)
  let ?h = "snd (is_available now (mr_provider_id c) h)"
  have "fst (available_candidates now (c # cs) h) =
      (if fst (is_available now (mr_provider_id c) h) then c # fst (available_candidates now cs ?h)
       else fst (available_candidates now cs ?h))"
    by (simp add: Let_def split: prod.split)
  then show ?case by (simp add: Cons.IH is_available_stable)
qed simp

definition routable :: "int \<Rightarrow> model_router \<Rightarrow> router_request \<Rightarrow> model_registration list" where
  "routable now ro q =
     (case ro_health ro of
        None \<Rightarrow> eligible_candidates ro q
      | Some h \<Rightarrow> filter (\<lambda>c. fst (is_available now (mr_provider_id c) h)) (eligible_candidates ro q))"

lemma refused_constraints [simp]: "rd_constraints (refused_decision q s c) = [c]"
  by (simp add: refused_decision_def)

lemma chosen_simps [simp]:
  "rd_constraints (chosen_decision q c s m) = []"
  "rd_provider_id (chosen_decision q c s m) = mr_provider_id c"
  "rd_model_id (chosen_decision q c s m) = mr_model_id c"
  by (simp_all add: chosen_decision_def)

lemma decision_constraints [simp]:
  "rd_execution_constraints (refused_decision q s c) = qr_execution_constraints q"
  "rd_execution_constraints (chosen_decision q r s m) = qr_execution_constraints q"
  by (simp_all add: chosen_decision_def refused_decision_def)

lemma choose_route_constraints: "rd_execution_constraints (choose_route show ro q cs) = qr_execution_constraints q"
  by (auto simp: choose_route_def Let_def scored_decision_def split: option.splits list.splits)

lemma route_fst_cases:
  obtains (refused) summary constraint where "fst (route show now ro q) = refused_decision q summary constraint"
  | (chosen) "routable now ro q \<noteq> []" "fst (route show now ro q) = choose_route show ro q (routable now ro q)"
proof -
  show ?thesis
  proof (cases "ro_models ro \<noteq> None \<and> eligible_candidates ro q = []")
    case True
    then have "\<exists>s c. fst (route show now ro q) = refused_decision q s c"
      by (auto simp: route_def Let_def split: option.splits prod.splits)
    then show ?thesis using refused by blast
  next
    case models: False
    show ?thesis
    proof (cases "routable now ro q = []")
      case True
      then have "\<exists>s c. fst (route show now ro q) = refused_decision q s c"
        by (auto simp: route_def Let_def routable_def available_candidates_fst [symmetric]
            split: option.splits prod.splits)
      then show ?thesis using refused by blast
    next
      case False
      then have "fst (route show now ro q) = choose_route show ro q (routable now ro q)"
        using models
        by (auto simp: route_def Let_def routable_def available_candidates_fst [symmetric]
            split: option.splits prod.splits)
      then show ?thesis using False chosen by blast
    qed
  qed
qed

lemma find_SomeD: "List.find P xs = Some x \<Longrightarrow> x \<in> set xs \<and> P x"
  by (auto simp: find_Some_iff)

lemma choose_route_member:
  assumes "cs \<noteq> []" "rd_constraints (choose_route show ro q cs) = []"
  shows "\<exists>c \<in> set cs. rd_provider_id (choose_route show ro q cs) = mr_provider_id c \<and>
           rd_model_id (choose_route show ro q cs) = mr_model_id c"
  using assms
  by (auto simp: choose_route_def Let_def scored_decision_def
      split: option.splits list.splits if_splits dest!: find_SomeD)

lemma route_member:
  assumes "rd_constraints (fst (route show now ro q)) = []"
  shows "\<exists>c \<in> set (routable now ro q). rd_provider_id (fst (route show now ro q)) = mr_provider_id c \<and>
           rd_model_id (fst (route show now ro q)) = mr_model_id c"
  using route_fst_cases [of "show" now ro q] choose_route_member assms by fastforce

lemma initial_candidates_sound:
  assumes "c \<in> set (initial_candidates ro q)"
  shows "c \<in> set (ro_registry ro)" "router_requires_local q \<Longrightarrow> local_registration c"
  using assms
  by (auto simp: initial_candidates_def router_candidates_def Let_def split: option.splits if_splits)

lemma routable_sound:
  assumes "c \<in> set (routable now ro q)"
  shows "c \<in> set (initial_candidates ro q)"
    "ro_models ro = Some ms \<Longrightarrow> model_is_eligible ms (mr_model_id c) q"
    "ro_health ro = Some h \<Longrightarrow> fst (is_available now (mr_provider_id c) h)"
  using assms by (auto simp: routable_def eligible_candidates_def split: option.splits)

section \<open>The scored choice\<close>

text \<open>A capability registry files every capability under its own provider and model.\<close>

definition capabilities_filed :: "model_router \<Rightarrow> bool" where
  "capabilities_filed ro =
     (case ro_capabilities ro of
        None \<Rightarrow> True
      | Some r \<Rightarrow> list_all (\<lambda>(k, c). k = (cap_provider_id c, cap_model_id c)) r)"

lemma register_capability_filed:
  "list_all (\<lambda>(k, c). k = (cap_provider_id c, cap_model_id c)) r \<Longrightarrow>
   list_all (\<lambda>(k, c). k = (cap_provider_id c, cap_model_id c)) (register_capability c r)"
  unfolding register_capability_def by (induction r) auto

lemma capability_for_ids:
  assumes "capabilities_filed ro" "capability_for ro c = Some k"
  shows "cap_provider_id k = mr_provider_id c" "cap_model_id k = mr_model_id c"
  using assms
  by (auto simp: capability_for_def capabilities_filed_def Let_def get_capability_def
      capability_of_model_def list_all_iff split: option.splits dest!: map_of_SomeD)

lemma score_ids [simp]:
  "sc_provider_id (score_capability q k p) = cap_provider_id k"
  "sc_model_id (score_capability q k p) = cap_model_id k"
  by (simp_all add: score_capability_def Let_def split: prod.splits)

lemma set_map_filter: "x \<in> set (List.map_filter f xs) \<longleftrightarrow> (\<exists>y \<in> set xs. f y = Some x)"
  by (force simp: List.map_filter_def)

lemma scoreable_iff:
  assumes "capabilities_filed ro"
  shows "k \<in> set (scoreable_capabilities ro cs) \<longleftrightarrow> (\<exists>c \<in> set cs. capability_for ro c = Some k)"
proof -
  have "capability_for ro c = None" if "ro_capabilities ro = None" "ro_models ro = None" for c
    using that by (simp add: capability_for_def)
  then show ?thesis
    using capability_for_ids [OF assms]
    by (auto simp: scoreable_capabilities_def capabilities_for_candidates_def set_map_filter)
qed

text \<open>The candidate a best score belongs to, and the bound on the scores of the others.\<close>

lemma best_score:
  assumes filed: "capabilities_filed ro"
    and best: "rank_capabilities q (scoreable_capabilities ro cs) p = best # rest"
  shows "\<exists>c k. c \<in> set cs \<and> capability_for ro c = Some k \<and> capability_eligible q k p \<and>
           best = score_capability q k p \<and>
           List.find (\<lambda>c. mr_provider_id c = sc_provider_id best \<and> mr_model_id c = sc_model_id best) cs \<noteq> None"
    and "c' \<in> set cs \<Longrightarrow> capability_for ro c' = Some k' \<Longrightarrow> capability_eligible q k' p \<Longrightarrow>
           sc_score (score_capability q k' p) \<le> sc_score best"
proof -
  let ?eligible = "filter (\<lambda>c. capability_eligible q c p) (scoreable_capabilities ro cs)"
  have "set (best # rest) = set (map (\<lambda>c. score_capability q c p) ?eligible)"
    unfolding best [symmetric] rank_capabilities_def by simp
  then obtain k where k: "k \<in> set (scoreable_capabilities ro cs)" "capability_eligible q k p"
    "best = score_capability q k p" by auto
  then obtain c where c: "c \<in> set cs" "capability_for ro c = Some k"
    using scoreable_iff [OF filed] by blast
  then have "List.find (\<lambda>c. mr_provider_id c = sc_provider_id best \<and> mr_model_id c = sc_model_id best) cs \<noteq> None"
    using k capability_for_ids [OF filed c(2)] by (auto simp: find_None_iff)
  with c k show "\<exists>c k. c \<in> set cs \<and> capability_for ro c = Some k \<and> capability_eligible q k p \<and>
      best = score_capability q k p \<and>
      List.find (\<lambda>c. mr_provider_id c = sc_provider_id best \<and> mr_model_id c = sc_model_id best) cs \<noteq> None"
    by blast
next
  assume "c' \<in> set cs" "capability_for ro c' = Some k'" "capability_eligible q k' p"
  then have "score_capability q k' p \<in> set (map (\<lambda>c. score_capability q c p)
      (filter (\<lambda>c. capability_eligible q c p) (scoreable_capabilities ro cs)))"
    using scoreable_iff [OF filed] by force
  then show "sc_score (score_capability q k' p) \<le> sc_score best"
    using sort_desc_head best unfolding rank_capabilities_def by metis
qed

section \<open>A route keeps the checker's history\<close>

lemma available_candidates_history:
  "health_history s h \<Longrightarrow> health_history s (snd (available_candidates now cs h))"
proof (induction cs arbitrary: h)
  case (Cons c cs)
  then have "health_history s (snd (available_candidates now cs (snd (is_available now (mr_provider_id c) h))))"
    by (intro Cons.IH health_history.queried)
  then show ?case by (auto simp: Let_def split: prod.split)
qed simp

lemma route_history:
  assumes "ro_health ro = Some h" "health_history s h"
  shows "\<exists>h'. ro_health (snd (route shw now ro q)) = Some h' \<and> health_history s h'"
  using assms available_candidates_history [OF assms(2), of now "eligible_candidates ro q"]
  by (auto simp: route_def Let_def split: prod.splits)

end
