(* ===== verification/Provider_Fallback.thy ===== *)
theory Provider_Fallback
  imports Model_Routing
begin

text \<open>
  The provider registry, the selection engine, the metrics and the provider manager
  (\<open>app/providers/registry.py\<close>, \<open>selector.py\<close>, \<open>metrics.py\<close>, \<open>cost.py\<close>, \<open>usage.py\<close>,
  \<open>manager.py\<close>): which providers may stand in for the routed one, in which order they are
  tried, and what the plain and the streaming call return. A provider instance is a value of the
  type \<open>'p\<close>; what it answers and what the clock says are the environment of a call, indexed
  by the position of the attempt. Every call into a provider is recorded in the returned list.
\<close>

section \<open>Providers and their answers\<close>

record provider_info =
  pi_provider_id :: string
  pi_capabilities :: "string list"
  pi_models :: "string list"
  pi_supported_models :: "string list"
  pi_execution_location :: execution_location
  pi_maximum_context :: int
  \<comment> \<open>\<open>int(metadata.get("maximum_context", 0) or 0)\<close>\<close>

record provider_response =
  pr_success :: bool
  pr_message :: "string option"
  pr_content :: string
  pr_provider_id :: string
  pr_model_id :: string
  pr_finish_reason :: "string option"
  pr_usage :: "(string, pyval) dict"
  pr_cost :: "(string, pyval) dict"
  pr_latency_ms :: "rat option"
  pr_metadata :: "(string, pyval) dict"

text \<open>The dictionary a provider returns: a field is \<open>None\<close> when the key is absent (for the
  optional ones also when it is \<open>None\<close>).\<close>

record raw_response =
  rw_response :: "string option"
  rw_success :: "bool option"
  rw_message :: "string option"
  rw_content :: "string option"
  rw_provider_id :: "string option"
  rw_model_id :: "string option"
  rw_finish_reason :: "string option"
  rw_usage :: "(string, pyval) dict"
  rw_cost :: "(string, pyval) dict"
  rw_latency_ms :: "rat option"
  rw_metadata :: "(string, pyval) dict"

record provider_payload =
  pl_prompt :: pyval
  pl_max_tokens :: "int option"
  pl_messages :: "pyval list option"
  pl_model_id :: "string option"
  pl_other :: "(string, pyval) dict"

text \<open>An exception out of a provider: the status code of its HTTP response, if any, and its text.\<close>

record provider_exn =
  px_status :: "int option"
  px_text :: string

record 'p provider_env =
  pe_clock :: "nat \<Rightarrow> int"
  pe_answer :: "nat \<Rightarrow> 'p \<Rightarrow> provider_payload \<Rightarrow> (provider_exn, raw_response) result"
  pe_stream :: "nat \<Rightarrow> 'p \<Rightarrow> provider_payload \<Rightarrow> string list \<times> provider_exn option"
  pe_show :: "pyval \<Rightarrow> string"
  pe_float :: "pyval \<Rightarrow> rat"
  pe_value :: "raw_response \<Rightarrow> pyval"
  \<comment> \<open>the answer as the dictionary it is, for the key \<open>legacy_response\<close>\<close>

section \<open>Registry and selection\<close>

type_synonym 'p provider_registry = "(string, 'p \<times> provider_info) dict"

definition register_provider :: "string \<Rightarrow> 'p \<Rightarrow> provider_info \<Rightarrow> 'p provider_registry \<Rightarrow> 'p provider_registry" where
  "register_provider pid p info r = AList.update pid (p, info) r"

definition remove_provider :: "string \<Rightarrow> 'p provider_registry \<Rightarrow> bool \<times> 'p provider_registry" where
  "remove_provider pid r = (if dict_has pid r then (True, AList.delete pid r) else (False, r))"

definition get_provider :: "'p provider_registry \<Rightarrow> string \<Rightarrow> 'p option" where
  "get_provider r pid = map_option fst (map_of r pid)"

definition get_info :: "'p provider_registry \<Rightarrow> string \<Rightarrow> provider_info option" where
  "get_info r pid = map_option snd (map_of r pid)"

definition list_providers :: "'p provider_registry \<Rightarrow> provider_info list" where
  "list_providers r = map (snd \<circ> snd) r"

definition supported_models :: "provider_info \<Rightarrow> string list" where
  "supported_models i = (if pi_supported_models i \<noteq> [] then pi_supported_models i else pi_models i)"

text \<open>The statuses the selection asks for, provider after provider.\<close>

fun filter_available ::
  "int \<Rightarrow> 'p provider_registry \<Rightarrow> provider_info list \<Rightarrow> health \<Rightarrow> provider_info list \<times> health" where
  "filter_available now r [] h = ([], h)"
| "filter_available now r (i # is) h =
     (let (s, h1) = health_check now (pi_provider_id i) (get_provider r (pi_provider_id i) \<noteq> None) h;
          (rest, h2) = filter_available now r is h1
      in (if st_available s then i # rest else rest, h2))"

definition select_candidates ::
  "int \<Rightarrow> 'p provider_registry \<Rightarrow> string list \<Rightarrow> string option \<Rightarrow> health \<Rightarrow> provider_info option \<times> health" where
  "select_candidates now r required preferred_model h =
     (let (available, h) = filter_available now r (list_providers r) h;
          cs = filter (\<lambda>i. set required \<subseteq> set (pi_capabilities i)) available;
          cs = (case preferred_model of
                  None \<Rightarrow> cs
                | Some m \<Rightarrow> let matches = filter (\<lambda>i. m \<in> set (supported_models i)) cs
                            in if matches \<noteq> [] then matches else cs)
      in (case cs of i # _ \<Rightarrow> Some i | [] \<Rightarrow> None, h))"

definition select_provider ::
  "int \<Rightarrow> 'p provider_registry \<Rightarrow> string list \<Rightarrow> string option \<Rightarrow> string option \<Rightarrow> health \<Rightarrow>
   provider_info option \<times> health" where
  "select_provider now r required preferred preferred_model h =
     (case preferred of
        None \<Rightarrow> select_candidates now r required preferred_model h
      | Some pid \<Rightarrow>
          (case List.find (\<lambda>i. pi_provider_id i = pid) (list_providers r) of
             None \<Rightarrow> (None, h)
           | Some i \<Rightarrow>
               let (s, h) = health_check now (pi_provider_id i) (get_provider r (pi_provider_id i) \<noteq> None) h
               in if st_available s then (Some i, h)
                  else select_candidates now r required preferred_model h))"

section \<open>Metrics, usage and cost\<close>

record provider_metrics =
  mm_provider_id :: string
  mm_requests :: nat
  mm_successes :: nat
  mm_failures :: nat
  mm_average_latency :: rat
  mm_average_tokens :: rat
  mm_estimated_spend :: rat
  mm_last_success :: "pyval option"
  mm_last_failure :: "pyval option"

definition fresh_metrics :: "string \<Rightarrow> provider_metrics" where
  "fresh_metrics pid =
     \<lparr>mm_provider_id = pid, mm_requests = 0, mm_successes = 0, mm_failures = 0,
      mm_average_latency = 0, mm_average_tokens = 0, mm_estimated_spend = 0,
      mm_last_success = None, mm_last_failure = None\<rparr>"

definition running_average :: "rat \<Rightarrow> nat \<Rightarrow> rat \<Rightarrow> rat" where
  "running_average current n v = (if n \<le> 1 then v else current + (v - current) / of_nat n)"

text \<open>\<open>float(d.get(key, 0) or 0)\<close>.\<close>

definition float_field :: "(pyval \<Rightarrow> rat) \<Rightarrow> (string, pyval) dict \<Rightarrow> string \<Rightarrow> rat" where
  "float_field float d k = (case map_of d k of Some v \<Rightarrow> if truthy v then float v else 0 | None \<Rightarrow> 0)"

type_synonym metrics_store = "(string, provider_metrics) dict"

definition metrics_of :: "metrics_store \<Rightarrow> string \<Rightarrow> provider_metrics" where
  "metrics_of store pid = (case map_of store pid of Some m \<Rightarrow> m | None \<Rightarrow> fresh_metrics pid)"

definition record_metrics ::
  "(pyval \<Rightarrow> rat) \<Rightarrow> string \<Rightarrow> provider_response \<Rightarrow> metrics_store \<Rightarrow> metrics_store" where
  "record_metrics float pid r store =
     (let m = metrics_of store pid;
          n = mm_requests m + 1;
          stamp = map_of (pr_usage r) ''response_timestamp'';
          m = m\<lparr>mm_requests := n\<rparr>;
          m = (if pr_success r then m\<lparr>mm_successes := mm_successes m + 1, mm_last_success := stamp\<rparr>
               else m\<lparr>mm_failures := mm_failures m + 1, mm_last_failure := stamp\<rparr>);
          latency = (case pr_latency_ms r of Some l \<Rightarrow> l | None \<Rightarrow> 0);
          m = m\<lparr>mm_average_latency := running_average (mm_average_latency m) n latency,
                mm_average_tokens := running_average (mm_average_tokens m) n
                                       (float_field float (pr_usage r) ''total_tokens''),
                mm_estimated_spend := mm_estimated_spend m + float_field float (pr_cost r) ''total_cost''\<rparr>
      in AList.update pid m store)"

record token_usage =
  tu_prompt :: int
  tu_completion :: int
  tu_total :: int
  tu_provider :: string
  tu_model :: string
  tu_requested :: int
  tu_answered :: int

definition track_usage :: "int \<Rightarrow> string \<Rightarrow> string \<Rightarrow> int \<Rightarrow> int \<Rightarrow> int \<Rightarrow> int option \<Rightarrow> token_usage" where
  "track_usage now provider model prompt completion requested answered =
     \<lparr>tu_prompt = prompt, tu_completion = completion, tu_total = prompt + completion,
      tu_provider = provider, tu_model = model, tu_requested = requested,
      tu_answered = (case answered of Some t \<Rightarrow> t | None \<Rightarrow> now)\<rparr>"

record cost_estimate =
  ce_input :: rat
  ce_output :: rat
  ce_total :: rat

definition default_pricing :: "(string, rat \<times> rat) dict" where
  "default_pricing =
     [(''gpt-4o-mini'', (15 / 100, 60 / 100)), (''gpt-4o'', (250 / 100, 10)),
      (''llama-3.3-70b-versatile'', (59 / 100, 79 / 100)), (''openai/gpt-oss-120b'', (15 / 100, 60 / 100)),
      (''mock-model'', (0, 0)), (''local-default'', (0, 0))]"

definition estimate_cost :: "(string, rat \<times> rat) dict \<Rightarrow> string \<Rightarrow> int \<Rightarrow> int \<Rightarrow> cost_estimate" where
  "estimate_cost pricing model prompt completion =
     (let (price_in, price_out) = (case map_of pricing model of Some p \<Rightarrow> p | None \<Rightarrow> (0, 0));
          input = of_int prompt / 1000000 * price_in;
          output = of_int completion / 1000000 * price_out
      in \<lparr>ce_input = input, ce_output = output, ce_total = input + output\<rparr>)"

section \<open>The manager\<close>

record 'p provider_manager =
  pm_registry :: "'p provider_registry"
  pm_settings :: provider_settings
  pm_health :: health
  pm_metrics :: metrics_store

definition prepare_semantic_retry :: "string \<Rightarrow> 'p provider_manager \<Rightarrow> 'p provider_manager" where
  "prepare_semantic_retry pid m = m\<lparr>pm_health := clear_cooldown pid (pm_health m)\<rparr>"

definition default_model :: "provider_info \<Rightarrow> string" where
  "default_model i = (case supported_models i of m # _ \<Rightarrow> m | [] \<Rightarrow> [])"

definition candidate_model :: "provider_info \<Rightarrow> string option \<Rightarrow> string \<Rightarrow> string" where
  "candidate_model i requested primary =
     (case requested of
        Some m \<Rightarrow> if pi_provider_id i = primary \<and> m \<noteq> [] \<and> m \<in> set (supported_models i) then m
                  else default_model i
      | None \<Rightarrow> default_model i)"

definition candidate_infos ::
  "'p provider_manager \<Rightarrow> string \<Rightarrow> string list option \<Rightarrow> execution_constraints option \<Rightarrow> provider_info list" where
  "candidate_infos m pid required_capabilities constraints =
     (case get_info (pm_registry m) pid of
        None \<Rightarrow> []
      | Some selected \<Rightarrow>
          let cs = selected # (if ps_fallback_enabled (pm_settings m)
                               then filter (\<lambda>i. pi_provider_id i \<noteq> pid) (list_providers (pm_registry m))
                               else []);
              required = (case required_capabilities of
                            Some (c # cs) \<Rightarrow> c # cs | _ \<Rightarrow> pi_capabilities selected)
          in filter (\<lambda>i. (case constraints of
                            Some ec \<Rightarrow> ec_requires_local_model ec \<longrightarrow> pi_execution_location i = LOCAL
                          | None \<Rightarrow> True)
                        \<and> (pi_capabilities i = [] \<or> set required \<subseteq> set (pi_capabilities i))) cs)"

definition get_provider_status :: "int \<Rightarrow> string \<Rightarrow> 'p provider_manager \<Rightarrow> provider_status \<times> 'p provider_manager" where
  "get_provider_status now pid m =
     (let checked = (let (s, h) = health_check now pid (get_provider (pm_registry m) pid \<noteq> None) (pm_health m)
                     in (s, m\<lparr>pm_health := h\<rparr>))
      in case map_of (hc_status (pm_health m)) pid of
           Some s \<Rightarrow> if st_cooldown_until s = None then (s, m) else checked
         | None \<Rightarrow> checked)"

definition normalize_response :: "raw_response \<Rightarrow> string \<Rightarrow> string \<Rightarrow> string \<Rightarrow> pyval \<Rightarrow> provider_response" where
  "normalize_response raw pid model_id registered_default legacy =
     (case (rw_response raw, rw_content raw) of
        (Some text, None) \<Rightarrow>
          \<lparr>pr_success = True, pr_message = None, pr_content = text,
           pr_provider_id = pid, pr_model_id = (if model_id \<noteq> [] then model_id else registered_default),
           pr_finish_reason = None, pr_usage = [], pr_cost = [], pr_latency_ms = None,
           pr_metadata = [(''legacy_response'', legacy)]\<rparr>
      | _ \<Rightarrow>
          \<lparr>pr_success = (case rw_success raw of Some b \<Rightarrow> b | None \<Rightarrow> True),
           pr_message = rw_message raw,
           pr_content = (case rw_content raw of Some c \<Rightarrow> c | None \<Rightarrow> []),
           pr_provider_id = (case rw_provider_id raw of Some p \<Rightarrow> if p \<noteq> [] then p else pid | None \<Rightarrow> pid),
           pr_model_id = (case rw_model_id raw of Some i \<Rightarrow> if i \<noteq> [] then i else model_id | None \<Rightarrow> model_id),
           pr_finish_reason = rw_finish_reason raw, pr_usage = rw_usage raw, pr_cost = rw_cost raw,
           pr_latency_ms = rw_latency_ms raw, pr_metadata = rw_metadata raw\<rparr>)"

definition failure_response :: "string \<Rightarrow> string \<Rightarrow> string \<Rightarrow> string \<Rightarrow> (string, pyval) dict \<Rightarrow> provider_response" where
  "failure_response message pid model_id reason metadata =
     \<lparr>pr_success = False, pr_message = Some message, pr_content = [], pr_provider_id = pid,
      pr_model_id = model_id, pr_finish_reason = Some reason, pr_usage = [], pr_cost = [],
      pr_latency_ms = None, pr_metadata = metadata\<rparr>"

definition unavailable_response :: "provider_info \<Rightarrow> string \<Rightarrow> provider_response" where
  "unavailable_response i model_id =
     failure_response (''Provider unavailable: '' @ pi_provider_id i) (pi_provider_id i)
       (if model_id \<noteq> [] then model_id else default_model i) ''unavailable'' []"

definition validate_context ::
  "(pyval \<Rightarrow> string) \<Rightarrow> provider_settings \<Rightarrow> provider_info \<Rightarrow> provider_payload \<Rightarrow> string \<Rightarrow> provider_response option" where
  "validate_context shw s i payload model_id =
     (let maximum = pi_maximum_context i in
      if maximum \<le> 0 then None
      else let prompt = py_str shw (pl_prompt payload);
               estimated = (if prompt \<noteq> [] then max 1 (int (List.length prompt) div 4) else 0);
               requested = (case pl_max_tokens payload of
                              Some n \<Rightarrow> if n \<noteq> 0 then n else ps_max_output_tokens s
                            | None \<Rightarrow> ps_max_output_tokens s)
           in if estimated + requested \<le> maximum then None
              else Some (failure_response ''Context window exceeded'' (pi_provider_id i)
                (if model_id \<noteq> [] then model_id else default_model i) ''context_window_exceeded''
                [(''estimated_context_tokens'', PInt estimated), (''maximum_context'', PInt maximum),
                 (''requested_output_tokens'', PInt requested)]))"

definition names_missing_model :: "string \<Rightarrow> bool" where
  "names_missing_model text =
     any_in (py_lower text) [''model_not_found'', ''model not found'', ''invalid_model'']"

definition is_model_specific_error :: "provider_exn \<Rightarrow> bool" where
  "is_model_specific_error e =
     (if px_status e = Some 404 \<or> px_status e = Some 400 then True else names_missing_model (px_text e))"

definition is_model_specific_response :: "provider_response \<Rightarrow> bool" where
  "is_model_specific_response r =
     (if map_of (pr_metadata r) ''status_code'' \<in> {Some (PInt 404), Some (PInt 400)} then True
      else names_missing_model (case pr_message r of Some t \<Rightarrow> t | None \<Rightarrow> []))"

definition COOLDOWN_REASONS :: "string list" where
  "COOLDOWN_REASONS = [''rate_limited'', ''server_error'', ''timeout'', ''unavailable'', ''http_error'']"

definition manager_cooldown :: "int \<Rightarrow> string \<Rightarrow> 'p provider_manager \<Rightarrow> 'p provider_manager" where
  "manager_cooldown now pid m = m\<lparr>pm_health := mark_cooldown now pid None (pm_health m)\<rparr>"

definition manager_record ::
  "(pyval \<Rightarrow> rat) \<Rightarrow> string \<Rightarrow> provider_response \<Rightarrow> 'p provider_manager \<Rightarrow> 'p provider_manager" where
  "manager_record float pid r m = m\<lparr>pm_metrics := record_metrics float pid r (pm_metrics m)\<rparr>"

section \<open>Execution with fallback\<close>

text \<open>An attempt: the provider called, the instance behind it, and the model asked for.\<close>

type_synonym attempt = "string \<times> string"

datatype call_outcome = Responded provider_response | CallRaised provider_exn

text \<open>The state after a provider has answered: metrics, and a cooldown for a failing provider.\<close>

definition after_answer ::
  "'p provider_env \<Rightarrow> nat \<Rightarrow> string \<Rightarrow> provider_response \<Rightarrow> 'p provider_manager \<Rightarrow> 'p provider_manager" where
  "after_answer env n pid r m =
     (let m = manager_record (pe_float env) pid r m
      in if (case pr_finish_reason r of Some reason \<Rightarrow> reason \<in> set COOLDOWN_REASONS | None \<Rightarrow> False)
            \<and> \<not> is_model_specific_response r
         then manager_cooldown (pe_clock env (2 * n + 1)) pid m else m)"

text \<open>The instant of the status check is \<open>pe_clock (2 * n)\<close>, the one after the call
  \<open>pe_clock (2 * n + 1)\<close>.\<close>

fun execute_candidates ::
  "'p provider_env \<Rightarrow> string \<Rightarrow> string option \<Rightarrow> provider_payload \<Rightarrow> nat \<Rightarrow> provider_info list \<Rightarrow>
   string list \<Rightarrow> provider_response option \<Rightarrow> 'p provider_manager \<Rightarrow>
   (call_outcome option \<times> provider_response option) \<times> attempt list \<times> 'p provider_manager" where
  "execute_candidates env pid model_id payload n [] attempted final m = ((None, final), [], m)"
| "execute_candidates env pid model_id payload n (i # is) attempted final m =
     (let cid = pi_provider_id i in
      if cid \<in> set attempted
      then execute_candidates env pid model_id payload (Suc n) is attempted final m
      else let attempted = cid # attempted;
               model = candidate_model i model_id pid;
               (status, m) = get_provider_status (pe_clock env (2 * n)) cid m
           in if \<not> st_available status
              then let r = unavailable_response i model
                   in execute_candidates env pid model_id payload (Suc n) is attempted (Some r)
                        (manager_record (pe_float env) cid r m)
              else case validate_context (pe_show env) (pm_settings m) i payload model of
                     Some r \<Rightarrow> ((Some (Responded r), final), [], manager_record (pe_float env) cid r m)
                   | None \<Rightarrow>
                       (case get_provider (pm_registry m) cid of
                          None \<Rightarrow> execute_candidates env pid model_id payload (Suc n) is attempted final m
                        | Some p \<Rightarrow>
                            (case pe_answer env n p (payload\<lparr>pl_model_id := Some model\<rparr>) of
                               Inl e \<Rightarrow> ((Some (CallRaised e), final), [(cid, model)], m)
                             | Inr raw \<Rightarrow>
                                 let r = normalize_response raw cid model
                                           (case get_info (pm_registry m) cid of
                                              Some info \<Rightarrow> default_model info | None \<Rightarrow> []) (pe_value env raw);
                                     m = after_answer env n cid r m
                                 in if pr_success r then ((Some (Responded r), final), [(cid, model)], m)
                                    else if \<not> ps_fallback_enabled (pm_settings m)
                                    then ((None, Some r), [(cid, model)], m)
                                    else let (out, tries, m) =
                                               execute_candidates env pid model_id payload (Suc n) is
                                                 attempted (Some r) m
                                         in (out, (cid, model) # tries, m))))"

definition execute_provider ::
  "'p provider_env \<Rightarrow> string \<Rightarrow> provider_payload \<Rightarrow> string option \<Rightarrow> string list option \<Rightarrow>
   execution_constraints option \<Rightarrow> 'p provider_manager \<Rightarrow>
   call_outcome \<times> attempt list \<times> 'p provider_manager" where
  "execute_provider env pid payload model_id required constraints m =
     (let requested = (case model_id of Some i \<Rightarrow> i | None \<Rightarrow> []) in
      case get_info (pm_registry m) pid of
        None \<Rightarrow> (Responded (failure_response (''Provider is not registered: '' @ pid) pid requested
                              ''unavailable'' []), [], m)
      | Some _ \<Rightarrow>
          let ((out, final), tries, m) =
                execute_candidates env pid model_id payload 0
                  (candidate_infos m pid required constraints) [] None m
          in (case out of
                Some r \<Rightarrow> r
              | None \<Rightarrow> (case final of
                           Some r \<Rightarrow> Responded r
                         | None \<Rightarrow> Responded (failure_response ''No compatible provider is available'' pid
                                     requested ''unavailable'' [])), tries, m))"

section \<open>Streams\<close>

datatype stream_event_type =
  STREAM_STARTED | STREAM_TOKEN | STREAM_PARTIAL_RESULT | STREAM_COMPLETED | STREAM_FAILED | STREAM_HEARTBEAT

record stream_chunk =
  sk_stream_id :: string
  sk_event_type :: stream_event_type
  sk_content :: string
  sk_sequence_number :: nat
  sk_provider_id :: "string option"

record stream_request =
  sq_request_id :: string
  sq_provider_id :: string
  sq_prompt :: pyval
  sq_messages :: "pyval list option"
  sq_capabilities :: "string list"
  sq_constraints :: execution_constraints
  sq_model_id :: "string option"

text \<open>The payload of a stream: the messages, when there are any, and the last one's content.\<close>

definition stream_payload :: "stream_request \<Rightarrow> string \<Rightarrow> provider_payload" where
  "stream_payload q model =
     (case sq_messages q of
        Some (v # vs) \<Rightarrow>
          \<lparr>pl_prompt = (case last (v # vs) of
                          PDict d \<Rightarrow> (case map_of d ''content'' of Some c \<Rightarrow> c | None \<Rightarrow> PStr [])
                        | _ \<Rightarrow> PStr []),
           pl_max_tokens = None, pl_messages = Some (v # vs), pl_model_id = Some model, pl_other = []\<rparr>
      | _ \<Rightarrow> \<lparr>pl_prompt = sq_prompt q, pl_max_tokens = None, pl_messages = None,
               pl_model_id = Some model, pl_other = []\<rparr>)"

fun token_chunks :: "string \<Rightarrow> string \<Rightarrow> nat \<Rightarrow> string list \<Rightarrow> stream_chunk list" where
  "token_chunks sid cid k [] = []"
| "token_chunks sid cid k (t # ts) =
     \<lparr>sk_stream_id = sid, sk_event_type = STREAM_TOKEN, sk_content = t, sk_sequence_number = k,
      sk_provider_id = Some cid\<rparr> # token_chunks sid cid (Suc k) ts"

text \<open>What ends a stream: its last chunk, or the last error of the providers tried.\<close>

datatype stream_end = StreamCompleted | StreamFailed "provider_exn option" string
  \<comment> \<open>the last error, if a provider was called, and the provider used last\<close>

fun stream_candidates ::
  "'p provider_env \<Rightarrow> stream_request \<Rightarrow> nat \<Rightarrow> provider_info list \<Rightarrow> string list \<Rightarrow> nat \<Rightarrow>
   provider_exn option \<Rightarrow> string \<Rightarrow> 'p provider_manager \<Rightarrow>
   stream_chunk list \<times> stream_end \<times> attempt list \<times> 'p provider_manager" where
  "stream_candidates env q n [] attempted k err used m = ([], StreamFailed err used, [], m)"
| "stream_candidates env q n (i # is) attempted k err used m =
     (let cid = pi_provider_id i in
      if cid \<in> set attempted
      then stream_candidates env q (Suc n) is attempted k err used m
      else let attempted = cid # attempted;
               (status, m) = get_provider_status (pe_clock env (2 * n)) cid m
           in if \<not> st_available status
              then stream_candidates env q (Suc n) is attempted k err used m
              else case get_provider (pm_registry m) cid of
                     None \<Rightarrow> stream_candidates env q (Suc n) is attempted k err used m
                   | Some p \<Rightarrow>
                       let sid = ''stream-'' @ sq_request_id q;
                           model = candidate_model i (sq_model_id q) (sq_provider_id q);
                           (tokens, failure) = pe_stream env n p (stream_payload q model);
                           chunks = token_chunks sid cid k tokens;
                           k = k + List.length tokens
                       in case failure of
                            None \<Rightarrow>
                              (chunks @ [\<lparr>sk_stream_id = sid, sk_event_type = STREAM_COMPLETED,
                                          sk_content = [], sk_sequence_number = k,
                                          sk_provider_id = Some cid\<rparr>],
                               StreamCompleted, [(cid, model)], m)
                          | Some e \<Rightarrow>
                              let m = (if is_model_specific_error e then m
                                       else manager_cooldown (pe_clock env (2 * n + 1)) cid m)
                              in if \<not> ps_fallback_enabled (pm_settings m)
                                 then (chunks, StreamFailed (Some e) cid, [(cid, model)], m)
                                 else let (rest, out, tries, m) =
                                            stream_candidates env q (Suc n) is attempted k (Some e) cid m
                                      in (chunks @ rest, out, (cid, model) # tries, m))"

datatype stream_error = UnregisteredProvider string | UnavailableProvider string | StreamBroke string string

definition stream_provider ::
  "'p provider_env \<Rightarrow> stream_request \<Rightarrow> 'p provider_manager \<Rightarrow>
   (stream_chunk list \<times> (stream_error, unit) result) \<times> attempt list \<times> 'p provider_manager" where
  "stream_provider env q m =
     (let primary = sq_provider_id q; sid = ''stream-'' @ sq_request_id q in
      if get_info (pm_registry m) primary = None
      then (([], Inl (UnregisteredProvider primary)), [], m)
      else let (chunks, out, tries, m) =
                 stream_candidates env q 0
                   (candidate_infos m primary (Some (sq_capabilities q)) (Some (sq_constraints q)))
                   [] 2 None primary m
           in ((\<lparr>sk_stream_id = sid, sk_event_type = STREAM_STARTED, sk_content = [],
                  sk_sequence_number = 1, sk_provider_id = Some primary\<rparr> # chunks,
                case out of
                  StreamCompleted \<Rightarrow> Inr ()
                | StreamFailed None _ \<Rightarrow> Inl (UnavailableProvider primary)
                | StreamFailed (Some e) used \<Rightarrow> Inl (StreamBroke used (px_text e))), tries, m))"

text \<open>\<open>execute_provider_stream\<close>: no status change on a failure, and no list of attempts.\<close>

fun plain_stream_candidates ::
  "'p provider_env \<Rightarrow> string \<Rightarrow> string option \<Rightarrow> provider_payload \<Rightarrow> nat \<Rightarrow> provider_info list \<Rightarrow>
   'p provider_manager \<Rightarrow> string list \<times> attempt list \<times> 'p provider_manager" where
  "plain_stream_candidates env pid model_id payload n [] m = ([], [], m)"
| "plain_stream_candidates env pid model_id payload n (i # is) m =
     (let cid = pi_provider_id i;
          (status, m) = get_provider_status (pe_clock env (2 * n)) cid m
      in if \<not> st_available status
         then plain_stream_candidates env pid model_id payload (Suc n) is m
         else let model = candidate_model i model_id pid in
              if validate_context (pe_show env) (pm_settings m) i payload model \<noteq> None then ([], [], m)
              else case get_provider (pm_registry m) cid of
                     None \<Rightarrow> plain_stream_candidates env pid model_id payload (Suc n) is m
                   | Some p \<Rightarrow>
                       (case pe_stream env n p (payload\<lparr>pl_model_id := Some model\<rparr>) of
                          (tokens, None) \<Rightarrow> (tokens, [(cid, model)], m)
                        | (tokens, Some _) \<Rightarrow>
                            if \<not> ps_fallback_enabled (pm_settings m) then (tokens, [(cid, model)], m)
                            else let (rest, tries, m) =
                                       plain_stream_candidates env pid model_id payload (Suc n) is m
                                 in (tokens @ rest, (cid, model) # tries, m)))"

definition execute_provider_stream ::
  "'p provider_env \<Rightarrow> string \<Rightarrow> provider_payload \<Rightarrow> string option \<Rightarrow> string list option \<Rightarrow>
   execution_constraints option \<Rightarrow> 'p provider_manager \<Rightarrow>
   string list \<times> attempt list \<times> 'p provider_manager" where
  "execute_provider_stream env pid payload model_id required constraints m =
     (if get_info (pm_registry m) pid = None then ([], [], m)
      else plain_stream_candidates env pid model_id payload 0
             (candidate_infos m pid required constraints) m)"

section \<open>What the fallback may reach\<close>

named_theorems manager_frame \<open>what the operations of the manager leave alone\<close>

lemma get_provider_status_frame [manager_frame]:
  "pm_registry (snd (get_provider_status now pid m)) = pm_registry m"
  "pm_settings (snd (get_provider_status now pid m)) = pm_settings m"
  "pm_metrics (snd (get_provider_status now pid m)) = pm_metrics m"
  by (auto simp: get_provider_status_def Let_def split: option.splits prod.splits)

lemma cooldown_record_frame [manager_frame]:
  "pm_registry (manager_cooldown now pid m) = pm_registry m"
  "pm_settings (manager_cooldown now pid m) = pm_settings m"
  "pm_registry (manager_record float pid r m) = pm_registry m"
  "pm_settings (manager_record float pid r m) = pm_settings m"
  "pm_health (manager_record float pid r m) = pm_health m"
  by (simp_all add: manager_cooldown_def manager_record_def)

lemma after_answer_frame [manager_frame]:
  "pm_registry (after_answer env n pid r m) = pm_registry m"
  "pm_settings (after_answer env n pid r m) = pm_settings m"
  by (simp_all add: after_answer_def Let_def manager_frame)

lemma prepare_semantic_retry_frame [manager_frame]:
  "pm_registry (prepare_semantic_retry pid m) = pm_registry m"
  "pm_settings (prepare_semantic_retry pid m) = pm_settings m"
  by (simp_all add: prepare_semantic_retry_def)

lemma candidate_infos_sound:
  assumes "i \<in> set (candidate_infos m pid required constraints)"
  shows "get_info (pm_registry m) pid = Some i \<or> i \<in> set (list_providers (pm_registry m))"
    "constraints = Some ec \<Longrightarrow> ec_requires_local_model ec \<Longrightarrow> pi_execution_location i = LOCAL"
  using assms by (auto simp: candidate_infos_def Let_def split: option.splits if_splits)

lemma candidate_infos_cong:
  "pm_registry m = pm_registry m' \<Longrightarrow> pm_settings m = pm_settings m' \<Longrightarrow> candidate_infos m = candidate_infos m'"
  by (intro ext) (simp only: candidate_infos_def)

lemma get_info_listed: "get_info r pid = Some i \<Longrightarrow> i \<in> set (list_providers r)"
  by (force simp: get_info_def list_providers_def dest: map_of_SomeD)

lemma candidate_listed:
  "i \<in> set (candidate_infos m pid required constraints) \<Longrightarrow> i \<in> set (list_providers (pm_registry m))"
  using candidate_infos_sound(1) get_info_listed by blast

text \<open>One candidate of the two loops, as the cases a proof goes through.\<close>

definition answered ::
  "'p provider_env \<Rightarrow> string \<Rightarrow> string \<Rightarrow> raw_response \<Rightarrow> 'p provider_manager \<Rightarrow> provider_response" where
  "answered env cid model raw m =
     normalize_response raw cid model
       (case get_info (pm_registry m) cid of Some info \<Rightarrow> default_model info | None \<Rightarrow> []) (pe_value env raw)"

lemma execute_step:
  fixes env :: "'p provider_env" and pid :: string and mid :: "string option"
    and payload :: provider_payload and n :: nat and i :: provider_info and js :: "provider_info list"
    and attempted :: "string list" and final :: "provider_response option" and m :: "'p provider_manager"
  defines "R \<equiv> execute_candidates env pid mid payload n (i # js) attempted final m"
    and "cid \<equiv> pi_provider_id i" and "model \<equiv> candidate_model i mid pid"
    and "status \<equiv> fst (get_provider_status (pe_clock env (2 * n)) (pi_provider_id i) m)"
    and "m1 \<equiv> snd (get_provider_status (pe_clock env (2 * n)) (pi_provider_id i) m)"
  obtains (attempted) "cid \<in> set attempted"
      "R = execute_candidates env pid mid payload (Suc n) js attempted final m"
  | (unavailable) "cid \<notin> set attempted" "\<not> st_available status"
      "R = execute_candidates env pid mid payload (Suc n) js (cid # attempted)
             (Some (unavailable_response i model))
             (manager_record (pe_float env) cid (unavailable_response i model) m1)"
  | (oversized) r where "cid \<notin> set attempted" "st_available status" "\<not> pr_success r"
      "validate_context (pe_show env) (pm_settings m) i payload model = Some r"
      "R = ((Some (Responded r), final), [], manager_record (pe_float env) cid r m1)"
  | (missing) "cid \<notin> set attempted" "st_available status" "get_provider (pm_registry m) cid = None"
      "R = execute_candidates env pid mid payload (Suc n) js (cid # attempted) final m1"
  | (raised) p e where "cid \<notin> set attempted" "st_available status"
      "get_provider (pm_registry m) cid = Some p"
      "pe_answer env n p (payload\<lparr>pl_model_id := Some model\<rparr>) = Inl e"
      "R = ((Some (CallRaised e), final), [(cid, model)], m1)"
  | (success) p raw where "cid \<notin> set attempted" "st_available status"
      "get_provider (pm_registry m) cid = Some p"
      "pe_answer env n p (payload\<lparr>pl_model_id := Some model\<rparr>) = Inr raw"
      "pr_success (answered env cid model raw m1)"
      "R = ((Some (Responded (answered env cid model raw m1)), final), [(cid, model)],
            after_answer env n cid (answered env cid model raw m1) m1)"
  | (stopped) p raw where "cid \<notin> set attempted" "st_available status"
      "get_provider (pm_registry m) cid = Some p"
      "pe_answer env n p (payload\<lparr>pl_model_id := Some model\<rparr>) = Inr raw"
      "\<not> pr_success (answered env cid model raw m1)" "\<not> ps_fallback_enabled (pm_settings m)"
      "R = ((None, Some (answered env cid model raw m1)), [(cid, model)],
            after_answer env n cid (answered env cid model raw m1) m1)"
  | (continued) p raw rest where "cid \<notin> set attempted" "st_available status"
      "get_provider (pm_registry m) cid = Some p"
      "pe_answer env n p (payload\<lparr>pl_model_id := Some model\<rparr>) = Inr raw"
      "\<not> pr_success (answered env cid model raw m1)" "ps_fallback_enabled (pm_settings m)"
      "rest = execute_candidates env pid mid payload (Suc n) js (cid # attempted)
                (Some (answered env cid model raw m1))
                (after_answer env n cid (answered env cid model raw m1) m1)"
      "R = (fst rest, (cid, model) # fst (snd rest), snd (snd rest))"
proof -
  obtain st where st: "get_provider_status (pe_clock env (2 * n)) (pi_provider_id i) m = (st, m1)"
    unfolding m1_def by (metis prod.collapse)
  then have status: "status = st" by (simp add: status_def)
  have frame: "pm_registry m1 = pm_registry m" "pm_settings m1 = pm_settings m"
    unfolding m1_def by (simp_all add: manager_frame)
  note unfold = R_def cid_def model_def execute_candidates.simps(2) Let_def st
  consider "cid \<in> set attempted" | "cid \<notin> set attempted" "\<not> st_available st"
    | r where "cid \<notin> set attempted" "st_available st"
        "validate_context (pe_show env) (pm_settings m) i payload model = Some r"
    | "cid \<notin> set attempted" "st_available st"
        "validate_context (pe_show env) (pm_settings m) i payload model = None"
        "get_provider (pm_registry m) cid = None"
    | p where "cid \<notin> set attempted" "st_available st"
        "validate_context (pe_show env) (pm_settings m) i payload model = None"
        "get_provider (pm_registry m) cid = Some p"
    by (cases "validate_context (pe_show env) (pm_settings m) i payload model";
        cases "get_provider (pm_registry m) cid") blast+
  then show thesis
  proof cases
    case 1
    then show ?thesis by (intro attempted) (simp_all add: unfold)
  next
    case 2
    then show ?thesis by (intro unavailable) (simp_all add: status unfold)
  next
    case (3 r)
    then have "\<not> pr_success r"
      by (auto simp: validate_context_def failure_response_def Let_def split: if_splits)
    with 3 show ?thesis
      by (intro oversized [of r]) (simp_all add: status unfold frame)
  next
    case 4
    then show ?thesis by (intro missing) (simp_all add: status unfold frame)
  next
    case (5 p)
    then show ?thesis
    proof (cases "pe_answer env n p (payload\<lparr>pl_model_id := Some model\<rparr>)")
      case (Inl e)
      with 5 show ?thesis
        by (intro raised [of p e]) (simp_all add: status unfold frame)
    next
      case (Inr raw)
      let ?r = "answered env cid model raw m1"
      let ?rest = "execute_candidates env pid mid payload (Suc n) js (cid # attempted) (Some ?r)
                     (after_answer env n cid ?r m1)"
      have R: "R = (if pr_success ?r then ((Some (Responded ?r), final), [(cid, model)], after_answer env n cid ?r m1)
                    else if \<not> ps_fallback_enabled (pm_settings m)
                    then ((None, Some ?r), [(cid, model)], after_answer env n cid ?r m1)
                    else (fst ?rest, (cid, model) # fst (snd ?rest), snd (snd ?rest)))"
        using 5 Inr
        by (simp add: unfold frame answered_def manager_frame split: prod.split)
      with 5 Inr show ?thesis
        using success [of p raw] stopped [of p raw] continued [of p raw ?rest] status by presburger
    qed
  qed
qed

text \<open>The providers tried are candidates, each at most once.\<close>

definition tried :: "attempt list \<Rightarrow> string list" where
  "tried ts = map fst ts"

lemma tried_simps [simp]: "tried [] = []" "tried (t # ts) = fst t # tried ts"
  by (simp_all add: tried_def)

lemma execute_candidates_tries:
  "set (tried (fst (snd (execute_candidates env pid mid payload n js attempted final m))))
     \<subseteq> set (map pi_provider_id js) - set attempted \<and>
   distinct (tried (fst (snd (execute_candidates env pid mid payload n js attempted final m))))"
proof (induction js arbitrary: n attempted final m)
  case (Cons i js)
  show ?case
    by (rule execute_step [of i attempted env pid mid payload n js final m];
        use Cons.IH in \<open>fastforce\<close>)
qed simp

lemma stream_step:
  fixes env :: "'p provider_env" and q :: stream_request and n :: nat and i :: provider_info
    and js :: "provider_info list" and attempted :: "string list" and k :: nat
    and err :: "provider_exn option" and used :: string and m :: "'p provider_manager"
  defines "R \<equiv> stream_candidates env q n (i # js) attempted k err used m"
    and "cid \<equiv> pi_provider_id i" and "model \<equiv> candidate_model i (sq_model_id q) (sq_provider_id q)"
    and "status \<equiv> fst (get_provider_status (pe_clock env (2 * n)) (pi_provider_id i) m)"
    and "m1 \<equiv> snd (get_provider_status (pe_clock env (2 * n)) (pi_provider_id i) m)"
  obtains (attempted) "cid \<in> set attempted"
      "R = stream_candidates env q (Suc n) js attempted k err used m"
  | (skipped) "cid \<notin> set attempted" "\<not> st_available status \<or> get_provider (pm_registry m) cid = None"
      "R = stream_candidates env q (Suc n) js (cid # attempted) k err used m1"
  | (completed) p tokens where "cid \<notin> set attempted" "st_available status"
      "get_provider (pm_registry m) cid = Some p"
      "pe_stream env n p (stream_payload q model) = (tokens, None)"
      "R = (token_chunks (''stream-'' @ sq_request_id q) cid k tokens @
              [\<lparr>sk_stream_id = ''stream-'' @ sq_request_id q, sk_event_type = STREAM_COMPLETED,
                sk_content = [], sk_sequence_number = k + List.length tokens, sk_provider_id = Some cid\<rparr>],
            StreamCompleted, [(cid, model)], m1)"
  | (broke) p tokens e m2 rest where "cid \<notin> set attempted" "st_available status"
      "get_provider (pm_registry m) cid = Some p"
      "pe_stream env n p (stream_payload q model) = (tokens, Some e)"
      "m2 = m1 \<or> m2 = manager_cooldown (pe_clock env (2 * n + 1)) cid m1"
      "rest = (if ps_fallback_enabled (pm_settings m)
               then stream_candidates env q (Suc n) js (cid # attempted) (k + List.length tokens)
                      (Some e) cid m2
               else ([], StreamFailed (Some e) cid, [], m2))"
      "R = (token_chunks (''stream-'' @ sq_request_id q) cid k tokens @ fst rest,
            fst (snd rest), (cid, model) # fst (snd (snd rest)), snd (snd (snd rest)))"
proof -
  obtain st where st: "get_provider_status (pe_clock env (2 * n)) (pi_provider_id i) m = (st, m1)"
    unfolding m1_def by (metis prod.collapse)
  then have status: "status = st" by (simp add: status_def)
  have frame: "pm_registry m1 = pm_registry m" "pm_settings m1 = pm_settings m"
    unfolding m1_def by (simp_all add: manager_frame)
  note unfold = R_def cid_def model_def stream_candidates.simps(2) Let_def st
  consider "cid \<in> set attempted" | "cid \<notin> set attempted" "\<not> st_available st"
    | "cid \<notin> set attempted" "st_available st" "get_provider (pm_registry m) cid = None"
    | p where "cid \<notin> set attempted" "st_available st" "get_provider (pm_registry m) cid = Some p"
    by (cases "get_provider (pm_registry m) cid") blast+
  then show thesis
  proof cases
    case 1
    then show ?thesis by (intro attempted) (simp_all add: unfold)
  next
    case 2
    then show ?thesis by (intro skipped) (simp_all add: status unfold)
  next
    case 3
    then show ?thesis by (intro skipped) (simp_all add: status unfold frame)
  next
    case (4 p)
    obtain tokens failure where out: "pe_stream env n p (stream_payload q model) = (tokens, failure)"
      by (metis prod.collapse)
    show ?thesis
    proof (cases failure)
      case None
      with 4 out show ?thesis
        by (intro completed [of p tokens]) (simp_all add: status unfold frame)
    next
      case (Some e)
      let ?m2 = "if is_model_specific_error e then m1
                 else manager_cooldown (pe_clock env (2 * n + 1)) cid m1"
      have "pm_settings ?m2 = pm_settings m" by (simp add: manager_frame frame)
      with 4 out Some show ?thesis
        by (intro broke [of p tokens e ?m2, OF _ _ _ _ _ refl])
           (simp_all add: status unfold frame manager_frame split: prod.split)
    qed
  qed
qed

lemma stream_candidates_tries:
  "set (tried (fst (snd (snd (stream_candidates env q n js attempted k err used m)))))
     \<subseteq> set (map pi_provider_id js) - set attempted \<and>
   distinct (tried (fst (snd (snd (stream_candidates env q n js attempted k err used m)))))"
proof (induction js arbitrary: n attempted k err used m)
  case (Cons i js)
  show ?case
    by (rule stream_step [of i attempted env q n js k err used m];
        use Cons.IH in \<open>fastforce split: if_splits\<close>)
qed simp

lemma execute_provider_tries:
  "set (tried (fst (snd (execute_provider env pid payload mid req cs m)))) \<subseteq> pi_provider_id ` set (candidate_infos m pid req cs)"
  "distinct (tried (fst (snd (execute_provider env pid payload mid req cs m))))"
  using execute_candidates_tries [of env pid mid payload 0 "candidate_infos m pid req cs" "[]" None m]
  by (auto simp: execute_provider_def Let_def split: option.splits prod.splits)

lemma stream_provider_tries:
  "set (tried (fst (snd (stream_provider env q m))))
     \<subseteq> pi_provider_id ` set (candidate_infos m (sq_provider_id q) (Some (sq_capabilities q)) (Some (sq_constraints q)))"
  "distinct (tried (fst (snd (stream_provider env q m))))"
  using stream_candidates_tries [of env q 0 "candidate_infos m (sq_provider_id q) (Some (sq_capabilities q))
      (Some (sq_constraints q))" "[]" 2 None "sq_provider_id q" m]
  by (auto simp: stream_provider_def Let_def split: option.splits prod.splits)

lemma execute_provider_triesD:
  "execute_provider env pid payload mid req cs m = (out, ts, m') \<Longrightarrow>
   set (tried ts) \<subseteq> pi_provider_id ` set (candidate_infos m pid req cs)"
  using execute_provider_tries(1) [of env pid payload mid req cs m] by simp

lemma stream_provider_triesD:
  "stream_provider env q m = (out, ts, m') \<Longrightarrow>
   set (tried ts)
     \<subseteq> pi_provider_id ` set (candidate_infos m (sq_provider_id q) (Some (sq_capabilities q)) (Some (sq_constraints q)))"
  using stream_provider_tries(1) [of env q m] by simp

section \<open>Cooling providers\<close>

definition cooling :: "string \<Rightarrow> int \<Rightarrow> 'p provider_manager \<Rightarrow> bool" where
  "cooling pid until m \<longleftrightarrow>
     cooldown_consistent (pm_health m) \<and> map_of (hc_cooldowns (pm_health m)) pid = Some until"

lemma status_cases:
  "get_provider_status now pid m =
     (if (\<exists>s. map_of (hc_status (pm_health m)) pid = Some s \<and> st_cooldown_until s = None)
      then (the (map_of (hc_status (pm_health m)) pid), m)
      else let c = health_check now pid (get_provider (pm_registry m) pid \<noteq> None) (pm_health m)
           in (fst c, m\<lparr>pm_health := snd c\<rparr>))"
  by (auto simp: get_provider_status_def Let_def split: option.splits prod.splits)

lemma status_health:
  "pm_health (snd (get_provider_status now p m)) = pm_health m \<or>
   (\<exists>r. pm_health (snd (get_provider_status now p m)) = snd (health_check now p r (pm_health m)))"
  unfolding status_cases Let_def by auto

lemma status_cooling:
  assumes "cooling pid until m" "now < until"
  shows "\<not> st_available (fst (get_provider_status now pid m))"
proof -
  have c: "cooldown_consistent (pm_health m)" "map_of (hc_cooldowns (pm_health m)) pid = Some until"
    using assms by (simp_all add: cooling_def)
  show ?thesis
    using c(1) [unfolded cooldown_consistent_def] c(2) cooling_unavailable(2) [OF c assms(2)]
    unfolding status_cases Let_def by auto
qed

lemma check_keeps_cooldown:
  "map_of (hc_cooldowns h) pid = Some until \<Longrightarrow> now < until \<Longrightarrow>
   map_of (hc_cooldowns (snd (health_check now p r h))) pid = Some until"
  by (auto simp: health_check_state is_in_cooldown_snd)

lemma cooling_keeps [manager_frame]:
  "cooling pid until m \<Longrightarrow> now < until \<Longrightarrow> cooling pid until (snd (get_provider_status now p m))"
  "cooling pid until m \<Longrightarrow> p \<noteq> pid \<Longrightarrow> cooling pid until (manager_cooldown now p m)"
  "cooling pid until m \<Longrightarrow> cooling pid until (manager_record float p r m)"
  using status_health [of now p m]
  by (auto simp: cooling_def manager_cooldown_def manager_record_def health_check_consistent
      check_keeps_cooldown mark_cooldown_consistent)
     (auto simp: mark_cooldown_def Let_def split: option.splits)

lemma cooling_after_answer: "cooling pid until m \<Longrightarrow> p \<noteq> pid \<Longrightarrow> cooling pid until (after_answer env n p r m)"
  by (simp add: after_answer_def Let_def manager_frame)

text \<open>While a provider cools down no call reaches it.\<close>

lemma execute_skips_cooling:
  assumes "cooling pid until m" "\<And>k. pe_clock env k < until"
  shows "pid \<notin> set (tried (fst (snd (execute_candidates env primary mid payload n js attempted final m))))"
  using assms(1)
proof (induction js arbitrary: n attempted final m)
  case (Cons i js)
  let ?now = "pe_clock env (2 * n)" and ?cid = "pi_provider_id i"
  have keep: "cooling pid until (snd (get_provider_status ?now ?cid m))"
    using Cons.prems assms(2) by (simp add: cooling_keeps)
  have other: "?cid \<noteq> pid" if "st_available (fst (get_provider_status ?now ?cid m))"
    using that status_cooling [OF Cons.prems assms(2)] by blast
  show ?case
    by (rule execute_step [of i attempted env primary mid payload n js final m];
        use Cons.IH Cons.prems keep other in \<open>simp add: cooling_keeps(3) cooling_after_answer\<close>)
qed simp

lemma stream_skips_cooling:
  assumes "cooling pid until m" "\<And>k. pe_clock env k < until"
  shows "pid \<notin> set (tried (fst (snd (snd (stream_candidates env q n js attempted k err used m)))))"
  using assms(1)
proof (induction js arbitrary: n attempted k err used m)
  case (Cons i js)
  let ?now = "pe_clock env (2 * n)" and ?cid = "pi_provider_id i"
  have keep: "cooling pid until (snd (get_provider_status ?now ?cid m))"
    using Cons.prems assms(2) by (simp add: cooling_keeps)
  have other: "?cid \<noteq> pid" if "st_available (fst (get_provider_status ?now ?cid m))"
    using that status_cooling [OF Cons.prems assms(2)] by blast
  have marked: "cooling pid until (manager_cooldown t ?cid (snd (get_provider_status ?now ?cid m)))"
    if "?cid \<noteq> pid" for t
    using keep that by (simp add: cooling_keeps(2))
  show ?case
    by (rule stream_step [of i attempted env q n js k err used m];
        use Cons.IH Cons.prems keep other marked in \<open>auto split: if_splits\<close>)
qed simp

section \<open>A healthy candidate answers\<close>

definition healthy :: "string \<Rightarrow> 'p provider_manager \<Rightarrow> bool" where
  "healthy pid m \<longleftrightarrow>
     (case map_of (hc_status (pm_health m)) pid of
        Some s \<Rightarrow> st_available s \<and> st_cooldown_until s = None
      | None \<Rightarrow> False)"

lemma healthy_status: "healthy pid m \<Longrightarrow> get_provider_status now pid m = (the (map_of (hc_status (pm_health m)) pid), m)"
  "healthy pid m \<Longrightarrow> st_available (fst (get_provider_status now pid m))"
  by (auto simp: healthy_def status_cases Let_def split: option.splits)

lemma healthy_keeps:
  "healthy pid m \<Longrightarrow> healthy pid (snd (get_provider_status now p m))"
  "healthy pid m \<Longrightarrow> p \<noteq> pid \<Longrightarrow> healthy pid (manager_cooldown now p m)"
  "healthy pid m \<Longrightarrow> healthy pid (manager_record float p r m)"
proof -
  assume h: "healthy pid m"
  show "healthy pid (snd (get_provider_status now p m))"
  proof (cases "p = pid")
    case True
    then show ?thesis using h healthy_status(1) [OF h] by simp
  next
    case False
    then have "map_of (hc_status (pm_health (snd (get_provider_status now p m)))) pid =
        map_of (hc_status (pm_health m)) pid"
      by (auto simp: status_cases Let_def health_check_state)
    then show ?thesis using h by (simp add: healthy_def)
  qed
  show "healthy pid (manager_record float p r m)" using h by (simp add: healthy_def manager_record_def)
  show "healthy pid (manager_cooldown now p m)" if "p \<noteq> pid"
    using h that by (auto simp: healthy_def manager_cooldown_def mark_cooldown_def Let_def split: option.splits)
qed

lemma healthy_after_answer: "healthy pid m \<Longrightarrow> p \<noteq> pid \<Longrightarrow> healthy pid (after_answer env n p r m)"
  by (simp add: after_answer_def Let_def healthy_keeps)

lemma answered_success: "rw_success raw \<noteq> Some False \<Longrightarrow> pr_success (answered env cid model raw m)"
  by (auto simp: answered_def normalize_response_def split: option.splits)

lemma healthy_answers:
  assumes "healthy pid m" "get_provider (pm_registry m) pid = Some p"
    and "ps_fallback_enabled (pm_settings m)"
    and "pid \<in> set (map pi_provider_id js)" "pid \<notin> set attempted"
    and "\<forall>i \<in> set js. pi_maximum_context i \<le> 0"
    and "\<And>n p' pl. \<exists>raw. pe_answer env n p' pl = Inr raw"
    and "\<And>n pl raw. pe_answer env n p pl = Inr raw \<Longrightarrow> rw_success raw \<noteq> Some False"
  shows "\<exists>r. fst (fst (execute_candidates env primary mid payload n js attempted final m)) = Some (Responded r)
           \<and> pr_success r"
  using assms(1-6)
proof (induction js arbitrary: n attempted final m)
  case (Cons i js)
  let ?now = "pe_clock env (2 * n)" and ?cid = "pi_provider_id i" and ?model = "candidate_model i mid primary"
  let ?m1 = "snd (get_provider_status ?now ?cid m)"
  have keep: "healthy pid ?m1" by (rule healthy_keeps(1) [OF Cons.prems(1)])
  have rest: "\<exists>r. fst (fst (execute_candidates env primary mid payload k js att fin m')) = Some (Responded r) \<and> pr_success r"
    if "?cid \<noteq> pid" "healthy pid m'" "pid \<notin> set att" "pm_registry m' = pm_registry m"
      "pm_settings m' = pm_settings m" for k att fin m'
    using Cons.IH [of m' att k fin] Cons.prems that by auto
  show ?case
  proof (cases "?cid = pid")
    case True
    obtain raw where raw: "pe_answer env n p (payload\<lparr>pl_model_id := Some ?model\<rparr>) = Inr raw"
      using assms(7) by blast
    have fits: "validate_context shw s i payload ?model = None" for shw s
      using Cons.prems(6) by (simp add: validate_context_def)
    have "pr_success (answered env ?cid ?model raw ?m1)"
      by (rule answered_success [OF assms(8) [OF raw]])
    then show ?thesis
      using True Cons.prems(1,2,5) raw fits healthy_status(2) [OF Cons.prems(1), of ?now]
      by (simp add: Let_def healthy_status(1) answered_def)
  next
    case False
    show ?thesis
    proof (cases rule: execute_step [of i attempted env primary mid payload n js final m,
        case_names attempted unavailable oversized missing raised success stopped continued])
      case attempted
      then show ?thesis using False Cons.prems(1,5) rest by simp
    next
      case unavailable
      then show ?thesis
        using False Cons.prems(5) keep by (simp add: rest healthy_keeps(3) manager_frame)
    next
      case (oversized r)
      then show ?thesis using Cons.prems(6) by (simp add: validate_context_def)
    next
      case missing
      then show ?thesis using False Cons.prems(5) keep by (simp add: rest manager_frame)
    next
      case (raised p' e)
      then show ?thesis using assms(7) [of n p' "payload\<lparr>pl_model_id := Some ?model\<rparr>"] by simp
    next
      case (success p' raw)
      then show ?thesis by simp
    next
      case (stopped p' raw)
      then show ?thesis using Cons.prems(3) by simp
    next
      case (continued p' raw r)
      then show ?thesis
        using False Cons.prems(5) keep by (simp add: rest healthy_after_answer manager_frame)
    qed
  qed
qed simp

section \<open>The checker's history\<close>

lemma manager_history:
  assumes "health_history s (pm_health m)"
  shows "health_history s (pm_health (snd (get_provider_status now p m)))"
    "health_history s (pm_health (manager_cooldown now p m))"
    "health_history s (pm_health (manager_record float p r m))"
    "health_history s (pm_health (after_answer env n p r m))"
    "health_history s (pm_health (prepare_semantic_retry p m))"
proof -
  show "health_history s (pm_health (snd (get_provider_status now p m)))"
    using status_health [of now p m] assms health_history.checked by metis
  have cool: "health_history s (pm_health (manager_cooldown t p k))" if "health_history s (pm_health k)" for t and k :: "'a provider_manager"
    using that by (simp add: manager_cooldown_def health_history.cooled)
  show "health_history s (pm_health (manager_cooldown now p m))" by (rule cool [OF assms])
  have recording: "health_history s (pm_health (manager_record f p r m))" for f
    using assms by (simp add: manager_frame)
  then show "health_history s (pm_health (manager_record float p r m))" .
  show "health_history s (pm_health (after_answer env n p r m))"
    using cool recording by (simp add: after_answer_def Let_def)
  show "health_history s (pm_health (prepare_semantic_retry p m))"
    using assms by (simp add: prepare_semantic_retry_def health_history.cleared)
qed

lemma execute_candidates_history:
  assumes "health_history s (pm_health m)"
  shows "health_history s (pm_health (snd (snd (execute_candidates env pid mid payload n js attempted final m))))"
  using assms
proof (induction js arbitrary: n attempted final m)
  case (Cons i js)
  have checked: "health_history s (pm_health (snd (get_provider_status (pe_clock env (2 * n)) (pi_provider_id i) m)))"
    by (rule manager_history(1) [OF Cons.prems])
  show ?case
    by (rule execute_step [of i attempted env pid mid payload n js final m];
        use Cons.IH Cons.prems checked in \<open>simp add: manager_history\<close>)
qed simp

lemma stream_candidates_history:
  assumes "health_history s (pm_health m)"
  shows "health_history s (pm_health (snd (snd (snd (stream_candidates env q n js attempted k err used m)))))"
  using assms
proof (induction js arbitrary: n attempted k err used m)
  case (Cons i js)
  have checked: "health_history s (pm_health (snd (get_provider_status (pe_clock env (2 * n)) (pi_provider_id i) m)))"
    by (rule manager_history(1) [OF Cons.prems])
  show ?case
    by (rule stream_step [of i attempted env q n js k err used m];
        use Cons.IH Cons.prems checked manager_history(2) [OF checked] in \<open>auto split: if_splits\<close>)
qed simp

text \<open>Calls keep the checker inside its history.\<close>

lemma calls_keep_history:
  assumes "health_history s (pm_health m)"
  shows "health_history s (pm_health (snd (snd (execute_provider env pid payload mid req cs m))))"
    "health_history s (pm_health (snd (snd (stream_provider env q m))))"
  using execute_candidates_history [OF assms, of env pid mid payload 0 "candidate_infos m pid req cs" "[]" None]
    stream_candidates_history [OF assms, of env q 0 "candidate_infos m (sq_provider_id q) (Some (sq_capabilities q))
      (Some (sq_constraints q))" "[]" 2 None "sq_provider_id q"] assms
  by (auto simp: execute_provider_def stream_provider_def Let_def split: option.splits prod.splits)

lemma calls_skip_cooling:
  assumes "cooling pid until m" "\<And>k. pe_clock env k < until"
  shows "pid \<notin> set (tried (fst (snd (execute_provider env primary payload mid req cs m))))"
    "pid \<notin> set (tried (fst (snd (stream_provider env q m))))"
  using execute_skips_cooling [OF assms, of primary mid payload 0 "candidate_infos m primary req cs" "[]" None]
    stream_skips_cooling [OF assms, of q 0 "candidate_infos m (sq_provider_id q) (Some (sq_capabilities q))
      (Some (sq_constraints q))" "[]" 2 None "sq_provider_id q"]
  by (auto simp: execute_provider_def stream_provider_def Let_def split: option.splits prod.splits)

text \<open>A healthy candidate that answers keeps the whole call from failing.\<close>

lemma call_answers:
  assumes "healthy pid m" "get_provider (pm_registry m) pid = Some p" "ps_fallback_enabled (pm_settings m)"
    and "pid \<in> pi_provider_id ` set (candidate_infos m primary req cs)"
    and "\<forall>i \<in> set (candidate_infos m primary req cs). pi_maximum_context i \<le> 0"
    and "\<And>n p' pl. \<exists>raw. pe_answer env n p' pl = Inr raw"
    and "\<And>n pl raw. pe_answer env n p pl = Inr raw \<Longrightarrow> rw_success raw \<noteq> Some False"
  shows "\<exists>r. fst (execute_provider env primary payload mid req cs m) = Responded r \<and> pr_success r"
proof -
  have "\<exists>r. fst (fst (execute_candidates env primary mid payload 0 (candidate_infos m primary req cs) [] None m)) =
      Some (Responded r) \<and> pr_success r"
    by (rule healthy_answers [OF assms(1-3) _ _ assms(5,6)])
       (use assms(4) in simp, simp, rule assms(7))
  then obtain r where r: "fst (fst (execute_candidates env primary mid payload 0 (candidate_infos m primary req cs) [] None m)) =
      Some (Responded r)" "pr_success r" by blast
  moreover have "get_info (pm_registry m) primary \<noteq> None"
    by (rule notI) (use assms(4) in \<open>simp add: candidate_infos_def\<close>)
  ultimately show ?thesis
    by (auto simp: execute_provider_def Let_def split: option.splits prod.splits)
qed

end
