(* ===== verification/Provider_Executor.thy ===== *)
theory Provider_Executor
  imports Provider_Fallback Gov_Engine
begin

text \<open>
  \<open>ProviderExecutor\<close> (\<open>app/runtime/executor.py\<close>) and the messages it builds
  (\<open>app/runtime/payload.py\<close>): the governance check of the routed provider, the payload, the
  plain or streaming call through the provider manager, the result and its record. Pydantic's
  validation of a message or a prepared context, \<open>int()\<close> and the clocks and identifiers a run
  reads are the environment \<open>executor_env\<close>.
\<close>

section \<open>Messages\<close>

datatype message_role = ROLE_SYSTEM | ROLE_USER | ROLE_ASSISTANT | ROLE_TOOL

fun role_value :: "message_role \<Rightarrow> string" where
  "role_value ROLE_SYSTEM = ''system''"
| "role_value ROLE_USER = ''user''"
| "role_value ROLE_ASSISTANT = ''assistant''"
| "role_value ROLE_TOOL = ''tool''"

record conversation_message =
  cm_role :: message_role
  cm_content :: string

record 'p executor_env =
  xe_provider :: "'p provider_env"
  xe_message :: "pyval \<Rightarrow> (string, conversation_message) result"
  xe_prepared :: "pyval \<Rightarrow> (string, conversation_message list) result"
  xe_invalid :: "pyval \<Rightarrow> string"
  \<comment> \<open>the error of a value that is no list of messages or no text\<close>
  xe_int :: "pyval \<Rightarrow> int"
  xe_now :: pydatetime
  xe_stamp :: string
  xe_audit_stamp :: string
  xe_nonce :: string
  xe_float_value :: "rat option \<Rightarrow> pyval"

definition message_fault :: "conversation_message list \<Rightarrow> string option" where
  "message_fault ms =
     (let systems = filter (\<lambda>k. cm_role (ms ! k) = ROLE_SYSTEM) [0 ..< List.length ms] in
      if ms = [] then Some ''Provider messages must not be empty.''
      else if \<exists>m \<in> set ms. py_strip (cm_content m) = []
      then Some ''Provider message content must be a non-empty string.''
      else if List.length systems > 1 then Some ''Provider context may contain at most one system message.''
      else if systems \<noteq> [] \<and> hd systems \<noteq> 0 then Some ''The system message must be first.''
      else None)"

definition validated_messages :: "conversation_message list \<Rightarrow> (string, conversation_message list) result" where
  "validated_messages ms = (case message_fault ms of Some e \<Rightarrow> Inl e | None \<Rightarrow> Inr ms)"

fun messages_of :: "'p executor_env \<Rightarrow> pyval list \<Rightarrow> (string, conversation_message list) result" where
  "messages_of X [] = Inr []"
| "messages_of X (v # vs) = res_bind (xe_message X v) (\<lambda>m. res_bind (messages_of X vs) (\<lambda>ms. Inr (m # ms)))"

definition text_message :: "'p executor_env \<Rightarrow> message_role \<Rightarrow> pyval \<Rightarrow> (string, conversation_message) result" where
  "text_message X role v =
     (case v of
        PStr t \<Rightarrow> Inr \<lparr>cm_role = role, cm_content = t\<rparr>
      | PEnum t \<Rightarrow> Inr \<lparr>cm_role = role, cm_content = t\<rparr>
      | _ \<Rightarrow> Inl (xe_invalid X v))"

definition input_value :: "(string, pyval) dict \<Rightarrow> string \<Rightarrow> pyval" where
  "input_value inputs k = (case map_of inputs k of Some v \<Rightarrow> v | None \<Rightarrow> PNone)"

definition canonical_provider_messages ::
  "'p executor_env \<Rightarrow> (string, pyval) dict \<Rightarrow> (string, conversation_message list option) result" where
  "canonical_provider_messages X inputs =
     (let prepared = input_value inputs ''prepared_context'';
          messages = input_value inputs ''messages'';
          system_prompt = input_value inputs ''system_prompt'';
          prompt = (if truthy (input_value inputs ''prompt'') then input_value inputs ''prompt''
                    else if truthy (input_value inputs ''description'') then input_value inputs ''description''
                    else PStr [])
      in if prepared \<noteq> PNone
         then res_bind (xe_prepared X prepared) (\<lambda>ms. res_bind (validated_messages ms) (\<lambda>ms. Inr (Some ms)))
         else if truthy messages
         then (case messages of
                 PList vs \<Rightarrow> res_bind (messages_of X vs) (\<lambda>ms. res_bind (validated_messages ms) (\<lambda>ms. Inr (Some ms)))
               | PTuple vs \<Rightarrow> res_bind (messages_of X vs) (\<lambda>ms. res_bind (validated_messages ms) (\<lambda>ms. Inr (Some ms)))
               | _ \<Rightarrow> Inl (xe_invalid X messages))
         else if truthy system_prompt
         then res_bind (text_message X ROLE_SYSTEM system_prompt) (\<lambda>s.
              res_bind (text_message X ROLE_USER prompt) (\<lambda>u.
              res_bind (validated_messages [s, u]) (\<lambda>ms. Inr (Some ms))))
         else Inr None)"

definition message_value :: "conversation_message \<Rightarrow> pyval" where
  "message_value m = PDict [(''role'', PStr (role_value (cm_role m))), (''content'', PStr (cm_content m))]"

definition current_user_prompt :: "conversation_message list \<Rightarrow> pyval \<Rightarrow> pyval" where
  "current_user_prompt ms fallback =
     (case List.find (\<lambda>m. cm_role m = ROLE_USER) (rev ms) of
        Some m \<Rightarrow> PStr (cm_content m)
      | None \<Rightarrow> fallback)"

definition executor_payload :: "'p executor_env \<Rightarrow> runtime_task \<Rightarrow> (string, provider_payload) result" where
  "executor_payload X task =
     (let inputs = rt_inputs task;
          prompt = (case map_of inputs ''prompt'' of Some v \<Rightarrow> v | None \<Rightarrow> PStr []);
          max_tokens = input_value inputs ''max_tokens''
      in res_bind (canonical_provider_messages X inputs) (\<lambda>messages.
         Inr \<lparr>pl_prompt = (case messages of Some ms \<Rightarrow> current_user_prompt ms prompt | None \<Rightarrow> prompt),
              pl_max_tokens = (if truthy max_tokens then Some (xe_int X max_tokens) else None),
              pl_messages = (case messages of
                 Some ms \<Rightarrow> Some (map message_value ms)
               | None \<Rightarrow> (case input_value inputs ''messages'' of PList vs \<Rightarrow> Some vs | _ \<Rightarrow> None)),
              pl_model_id = None,
              pl_other = filter (\<lambda>(k, _). k \<notin> {''prompt'', ''messages'', ''max_tokens'', ''model_id''}) inputs\<rparr>))"

section \<open>The call\<close>

text \<open>What the executor reads of an answer: \<open>output.get(...)\<close> on the dictionary returned.\<close>

record provider_output =
  po_success :: bool
  po_message :: "string option"
  po_finish_reason :: "string option"
  po_provider_id :: string
  po_model_id :: string
  po_legacy :: "pyval option"
  po_dict :: "(string, pyval) dict"

definition response_dict :: "'p executor_env \<Rightarrow> provider_response \<Rightarrow> (string, pyval) dict" where
  "response_dict X r =
     [(''success'', PBool (pr_success r)), (''message'', opt_py (pr_message r)),
      (''content'', PStr (pr_content r)), (''provider_id'', PStr (pr_provider_id r)),
      (''model_id'', PStr (pr_model_id r)), (''finish_reason'', opt_py (pr_finish_reason r)),
      (''usage'', PDict (pr_usage r)), (''cost'', PDict (pr_cost r)),
      (''latency_ms'', xe_float_value X (pr_latency_ms r)), (''metadata'', PDict (pr_metadata r))]"

definition response_output :: "'p executor_env \<Rightarrow> provider_response \<Rightarrow> provider_output" where
  "response_output X r =
     \<lparr>po_success = pr_success r, po_message = pr_message r, po_finish_reason = pr_finish_reason r,
      po_provider_id = pr_provider_id r, po_model_id = pr_model_id r,
      po_legacy = (case map_of (pr_metadata r) ''legacy_response'' of
                     Some v \<Rightarrow> if truthy v then Some v else None | None \<Rightarrow> None),
      po_dict = response_dict X r\<rparr>"

definition stream_content :: "stream_chunk list \<Rightarrow> string" where
  "stream_content chunks = concat (map sk_content (filter (\<lambda>c. sk_event_type c = STREAM_TOKEN) chunks))"

definition streamed_output :: "routing_decision \<Rightarrow> stream_chunk list \<Rightarrow> provider_output" where
  "streamed_output routing chunks =
     \<lparr>po_success = True, po_message = None, po_finish_reason = None,
      po_provider_id = rd_provider_id routing, po_model_id = rd_model_id routing, po_legacy = None,
      po_dict = [(''success'', PBool True), (''content'', PStr (stream_content chunks)),
                 (''provider_id'', PStr (rd_provider_id routing)), (''model_id'', PStr (rd_model_id routing)),
                 (''metadata'', PDict [(''streaming'', PBool True)])]\<rparr>"

definition stream_error_text :: "stream_error \<Rightarrow> string" where
  "stream_error_text e =
     (case e of
        UnregisteredProvider pid \<Rightarrow> ''Provider '' @ [CHR 39] @ pid @ [CHR 39] @ '' is not registered.''
      | UnavailableProvider pid \<Rightarrow> ''Provider '' @ [CHR 39] @ pid @ [CHR 39] @ '' is currently unavailable.''
      | StreamBroke pid t \<Rightarrow> ''Provider '' @ [CHR 39] @ pid @ [CHR 39] @ '' stream failed: '' @ t)"

text \<open>The body of the \<open>try\<close>: an output, or the text of the exception.\<close>

definition call_provider ::
  "'p executor_env \<Rightarrow> runtime_context \<Rightarrow> runtime_task \<Rightarrow> routing_decision \<Rightarrow> 'p provider_manager \<Rightarrow>
   (string, provider_output) result \<times> attempt list \<times> 'p provider_manager" where
  "call_provider X ctx task routing m =
     (let attempt_no = (case map_of (rc_metadata ctx) ''runtime_retry_attempt'' of Some v \<Rightarrow> xe_int X v | None \<Rightarrow> 1);
          m = (if attempt_no > 1 then prepare_semantic_retry (rd_provider_id routing) m else m);
          permit = rt_permit task
      in case executor_payload X task of
           Inl e \<Rightarrow> (Inl e, [], m)
         | Inr payload \<Rightarrow>
             if truthy (input_value (rc_metadata ctx) ''streaming'') then
               (case permit of
                  None \<Rightarrow> (Inl ''Provider streaming requires an ExecutionPermit.'', [], m)
                | Some p \<Rightarrow>
                    let q = \<lparr>sq_request_id = rc_request_id ctx, sq_provider_id = rd_provider_id routing,
                             sq_prompt = pl_prompt payload, sq_messages = pl_messages payload,
                             sq_capabilities = [rt_action_type task], sq_constraints = ep_constraints p,
                             sq_model_id = Some (rd_model_id routing)\<rparr>;
                        ((chunks, out), tries, m) = stream_provider (xe_provider X) q m
                    in (case out of
                          Inl e \<Rightarrow> Inl (stream_error_text e)
                        | Inr _ \<Rightarrow> Inr (streamed_output routing chunks), tries, m))
             else
               let (out, tries, m) = execute_provider (xe_provider X) (rd_provider_id routing) payload
                     (Some (rd_model_id routing)) (Some [rt_action_type task])
                     (map_option ep_constraints permit) m
               in (case out of
                     CallRaised e \<Rightarrow> Inl (px_text e)
                   | Responded r \<Rightarrow> Inr (response_output X r), tries, m))"

text \<open>The result of a call. A legacy answer becomes the output as it is; one that is no dictionary
  fails the validation of the result.\<close>

definition provider_result ::
  "(pyval \<Rightarrow> string) \<Rightarrow> runtime_task \<Rightarrow> routing_decision \<Rightarrow> (string, provider_output) result \<Rightarrow>
   runtime_result" where
  "provider_result invalid task routing out =
     (let base = \<lparr>rr_task_id = rt_task_id task, rr_status = FAILED, rr_routing = Some routing,
                  rr_pause = None, rr_output = [], rr_error = None, rr_started_at = None,
                  rr_finished_at = None, rr_duration = 0, rr_metadata = []\<rparr>
      in case out of
           Inl e \<Rightarrow> base\<lparr>rr_error := Some e\<rparr>
         | Inr v \<Rightarrow>
             (let metadata = [(''provider_finish_reason'', opt_py (po_finish_reason v)),
                              (''provider_id'', PStr (po_provider_id v)),
                              (''model_id'', PStr (po_model_id v))] in
              if \<not> po_success v
              then base\<lparr>rr_error := po_message v, rr_metadata := metadata\<rparr>
              else case po_legacy v of
                     None \<Rightarrow> base\<lparr>rr_status := COMPLETED, rr_output := po_dict v, rr_metadata := metadata\<rparr>
                   | Some (PDict d) \<Rightarrow> base\<lparr>rr_status := COMPLETED, rr_output := d, rr_metadata := metadata\<rparr>
                   | Some w \<Rightarrow> base\<lparr>rr_error := Some (invalid w)\<rparr>))"

definition provider_subject :: "runtime_context \<Rightarrow> runtime_task \<Rightarrow> string" where
  "provider_subject ctx task =
     (case rt_permit task of
        Some p \<Rightarrow> ep_subject_id p
      | None \<Rightarrow> authorization_subject_id (rc_user_id ctx) (rc_session_id ctx) (rc_request_id ctx))"

definition blocked_by_governance ::
  "runtime_task \<Rightarrow> routing_decision \<Rightarrow> policy_violation \<Rightarrow> governance_decision \<Rightarrow> string \<Rightarrow> runtime_result" where
  "blocked_by_governance task routing v d record_id =
     \<lparr>rr_task_id = rt_task_id task, rr_status = FAILED, rr_routing = Some routing, rr_pause = None,
      rr_output = [],
      rr_error = Some (if pv_message v \<noteq> [] then pv_message v
                       else ''Provider execution blocked by governance policy''),
      rr_started_at = None, rr_finished_at = None, rr_duration = 0,
      rr_metadata = [(''governance_blocked'', PBool True), (''governance_violation'', PStr (pv_code v)),
                     (''governance_reason'', PStr (pv_message v)),
                     (''governance_decision'', PStr (decision_value (gd_decision d))),
                     (''governance_risk'', PStr (risk_value (gd_risk d))),
                     (''record_id'', PStr record_id), (''provider'', PStr (rd_provider_id routing))]\<rparr>"

text \<open>\<open>ProviderExecutor.execute\<close>, without and with a governance engine. An error of the record
  store leaves the executor.\<close>

datatype executor_error = RecordStoreError record_error | ViolationWithoutDecision

definition provider_execute_plain ::
  "'p executor_env \<Rightarrow> runtime_context \<Rightarrow> runtime_task \<Rightarrow> routing_decision \<Rightarrow> 'p provider_manager \<Rightarrow>
   runtime_result \<times> attempt list \<times> 'p provider_manager" where
  "provider_execute_plain X ctx task routing m =
     (let (out, tries, m) = call_provider X ctx task routing m
      in (provider_result (xe_invalid X) task routing out, tries, m))"

definition provider_execute ::
  "'p executor_env \<Rightarrow> governance_env \<Rightarrow> runtime_context \<Rightarrow> runtime_task \<Rightarrow> routing_decision \<Rightarrow>
   'p provider_manager \<Rightarrow> governance_state \<Rightarrow>
   (executor_error, runtime_result) result \<times> attempt list \<times> 'p provider_manager \<times> governance_state" where
  "provider_execute X G ctx task routing m st =
     (let subject = provider_subject ctx task in
      if rd_provider_id routing = []
      then (let (r, tries, m) = provider_execute_plain X ctx task routing m in (Inr r, tries, m, st))
      else case enforce_provider G (xe_now X) (xe_stamp X) (rd_provider_id routing) [] None
                  (Some subject) (rt_permit task) st of
             (Inl v, st) \<Rightarrow>
               (case pv_decision v of
                  None \<Rightarrow> (Inl ViolationWithoutDecision, [], m, st)
                | Some d \<Rightarrow>
                    (case record_execution G (xe_stamp X) (xe_audit_stamp X) (xe_nonce X) d
                            (rc_request_id ctx) (rt_task_id task)
                            (if gd_approval_required d then STATUS_APPROVAL_REQUIRED else STATUS_BLOCKED)
                            (Some (pv_message v)) (Some subject) st of
                       (Inl e, st) \<Rightarrow> (Inl (RecordStoreError e), [], m, st)
                     | (Inr rec, st) \<Rightarrow>
                         (Inr (blocked_by_governance task routing v d (er_record_id rec)), [], m, st)))
           | (Inr d, st) \<Rightarrow>
               (let (r, tries, m) = provider_execute_plain X ctx task routing m in
                case record_execution G (xe_stamp X) (xe_audit_stamp X) (xe_nonce X) d
                       (rc_request_id ctx) (rt_task_id task)
                       (if rr_status r = COMPLETED then STATUS_EXECUTED else STATUS_FAILED)
                       (rr_error r) (Some subject) st of
                  (Inl e, st) \<Rightarrow> (Inl (RecordStoreError e), tries, m, st)
                | (Inr rec, st) \<Rightarrow>
                    (Inr (r\<lparr>rr_metadata := AList.update ''record_id'' (PStr (er_record_id rec)) (rr_metadata r)\<rparr>),
                     tries, m, st)))"

section \<open>Where a call goes\<close>

text \<open>The providers called are candidates of the routed one under the permit's constraints.\<close>

lemma call_provider_tries:
  "set (tried (fst (snd (call_provider X ctx task routing m))))
     \<subseteq> pi_provider_id ` set (candidate_infos m (rd_provider_id routing) (Some [rt_action_type task])
          (map_option ep_constraints (rt_permit task)))"
proof -
  define m' where "m' = (if (case map_of (rc_metadata ctx) ''runtime_retry_attempt'' of
      Some v \<Rightarrow> xe_int X v | None \<Rightarrow> 1) > 1 then prepare_semantic_retry (rd_provider_id routing) m else m)"
  have same: "candidate_infos m = candidate_infos m'"
    by (rule candidate_infos_cong) (simp_all add: m'_def manager_frame)
  note call = call_provider_def Let_def m'_def [symmetric]
  show ?thesis
  proof (cases "executor_payload X task")
    case (Inl e)
    then show ?thesis by (simp add: call)
  next
    case (Inr payload)
    show ?thesis
    proof (cases "truthy (input_value (rc_metadata ctx) ''streaming'')")
      case True
      with Inr show ?thesis
        by (cases "rt_permit task")
           (auto simp: call same split: prod.splits dest!: stream_provider_triesD)
    next
      case False
      with Inr show ?thesis
        by (auto simp: call same split: prod.splits dest!: execute_provider_triesD)
    qed
  qed
qed

end
