(* ===== verification/Task_Authorization.thy ===== *)
theory Task_Authorization
  imports Provider_Executor Cap_Approval
begin

text \<open>
  The authorisation stage of the orchestrator (\<open>app/core/orchestrator/engine.py\<close>, step 5 of a
  run): for every task of the plan that the runtime executes, the planned action, its policy
  decision, the permit of the approval engine, and the router request that carries the permit's
  constraints. The permit a task's metadata carries is a field of its own here.
\<close>

datatype task_kind =
  KIND_UNDERSTAND | KIND_RETRIEVE_CONTEXT | KIND_PLAN | KIND_TRANSFORM | KIND_VERIFY |
  KIND_REFLECT | KIND_EXECUTE_VIA_RUNTIME

fun kind_value :: "task_kind \<Rightarrow> string" where
  "kind_value KIND_UNDERSTAND = ''understand''"
| "kind_value KIND_RETRIEVE_CONTEXT = ''retrieve_context''"
| "kind_value KIND_PLAN = ''plan''"
| "kind_value KIND_TRANSFORM = ''transform''"
| "kind_value KIND_VERIFY = ''verify''"
| "kind_value KIND_REFLECT = ''reflect''"
| "kind_value KIND_EXECUTE_VIA_RUNTIME = ''execute_via_runtime''"

record plan_task =
  pt_task_id :: string
  pt_title :: string
  pt_kind :: task_kind
  pt_description :: string
  pt_dependencies :: "string list"
  pt_router_request :: "router_request option"
  pt_execution_action_type :: string
  pt_metadata :: "(string, pyval) dict"
  pt_worker_requirement :: "string option"
  pt_preferred_worker :: "string option"
  pt_permit :: "execution_permit option"
  \<comment> \<open>\<open>metadata["permit"]\<close>\<close>

text \<open>The action a task is judged as; \<open>None\<close> when its name is no string.\<close>

definition base_action :: "string \<Rightarrow> string" where
  "base_action a =
     (if py_startswith a ''read_'' then ''read''
      else if py_startswith a ''write_'' then ''write''
      else if py_startswith a ''list_'' then ''list''
      else if py_startswith a ''delete'' then ''delete''
      else a)"

definition is_internet_task :: "plan_task \<Rightarrow> bool" where
  "is_internet_task t = (as_str (map_of (pt_metadata t) ''tool'') = Some ''internet'')"

definition policy_action :: "plan_task \<Rightarrow> string option" where
  "policy_action t =
     (case as_str (Some (case map_of (pt_metadata t) ''policy_action'' of
                           Some v \<Rightarrow> v
                         | None \<Rightarrow> (case map_of (pt_metadata t) ''action'' of
                                      Some v \<Rightarrow> v | None \<Rightarrow> PStr (pt_title t)))) of
        None \<Rightarrow> None
      | Some a \<Rightarrow> Some (if is_internet_task t then ''internet'' else base_action a))"

definition task_args :: "plan_task \<Rightarrow> (string, pyval) dict" where
  "task_args t =
     (let args = (case map_of (pt_metadata t) ''args'' of Some (PDict d) \<Rightarrow> d | _ \<Rightarrow> []) in
      case map_of (pt_metadata t) ''action'' of
        Some a \<Rightarrow> if pt_execution_action_type t = ''tool'' \<and> truthy a \<and> \<not> dict_has ''action'' args
                  then AList.update ''action'' a args else args
      | None \<Rightarrow> args)"

definition execution_inputs :: "string \<Rightarrow> plan_task \<Rightarrow> (string, pyval) dict" where
  "execution_inputs raw_request t =
     (let inputs = dict_merge [(''prompt'', PStr raw_request), (''plan_task_id'', PStr (pt_task_id t)),
                               (''plan_task_kind'', PStr (kind_value (pt_kind t)))] (task_args t) in
      case map_of (pt_metadata t) ''prepared_context'' of
        Some v \<Rightarrow> if v = PNone then inputs else AList.update ''prepared_context'' v inputs
      | None \<Rightarrow> inputs)"

definition task_target :: "plan_task \<Rightarrow> string" where
  "task_target t =
     authorization_target (pt_execution_action_type t) (as_str (map_of (pt_metadata t) ''tool''))"

definition planned_task_action :: "string \<Rightarrow> plan_task \<Rightarrow> string \<Rightarrow> planned_action" where
  "planned_task_action raw_request t a =
     \<lparr>pa_action_id = pt_task_id t, pa_action_type = a, pa_description = pt_description t,
      pa_target = Some (task_target t),
      pa_payload = authorization_payload (pt_execution_action_type t) (execution_inputs raw_request t),
      pa_requested = [], pa_metadata = pt_metadata t\<rparr>"

definition task_operation :: "string \<Rightarrow> plan_task \<Rightarrow> planned_action" where
  "task_operation raw_request t =
     \<lparr>pa_action_id = pt_task_id t, pa_action_type = pt_execution_action_type t,
      pa_description = pt_description t, pa_target = Some (task_target t),
      pa_payload = authorization_payload (pt_execution_action_type t) (execution_inputs raw_request t),
      pa_requested = [], pa_metadata = []\<rparr>"

text \<open>\<open>base_router_request.model_copy(update=...)\<close>.\<close>

definition constrain_request :: "execution_constraints \<Rightarrow> router_request \<Rightarrow> router_request" where
  "constrain_request ec q =
     q\<lparr>qr_requires_local_model := ec_requires_local_model ec, qr_execution_constraints := ec\<rparr>"

text \<open>\<open>permit.constraints.model_dump()\<close>.\<close>

definition constraints_value :: "execution_constraints \<Rightarrow> pyval" where
  "constraints_value ec =
     PDict [(''requires_local_model'', PBool (ec_requires_local_model ec)),
            (''network_allowed'', PBool (ec_network_allowed ec)),
            (''privacy_category'', PEnum (privacy_value (ec_privacy_category ec)))]"

definition set_arg :: "string \<Rightarrow> pyval \<Rightarrow> (string, pyval) dict \<Rightarrow> (string, pyval) dict" where
  "set_arg k v metadata =
     (let args = (case map_of metadata ''args'' of Some (PDict d) \<Rightarrow> d | _ \<Rightarrow> [])
      in AList.update ''args'' (PDict (AList.update k v args)) metadata)"

record 's authorisation_env =
  az_crypto :: crypto
  az_key :: string
  az_show :: "pyval \<Rightarrow> string"
  az_get :: "'s \<Rightarrow> string \<Rightarrow> string \<Rightarrow> permission_scope \<Rightarrow> permission_decision"
  az_put :: "permission_record \<Rightarrow> 's \<Rightarrow> 's"
  az_subject :: string
  az_session :: "string option"
  az_workspace :: "string option"
  az_permit_id :: "nat \<Rightarrow> string"
  az_now :: "nat \<Rightarrow> pydatetime"

text \<open>One task of the loop, the \<open>n\<close>-th; \<open>None\<close> when its action has no name.\<close>

definition authorise_task ::
  "'s authorisation_env \<Rightarrow> string \<Rightarrow> router_request \<Rightarrow> nat \<Rightarrow> plan_task \<Rightarrow> 's option \<Rightarrow>
   (plan_task \<times> 's option) option" where
  "authorise_task A raw_request plan_request n t st =
     (if pt_kind t \<noteq> KIND_EXECUTE_VIA_RUNTIME then Some (t, st)
      else case policy_action t of
             None \<Rightarrow> None
           | Some a \<Rightarrow>
               let action = planned_task_action raw_request t a;
                   policy = evaluate (az_show A) action;
                   (permit, st) = authorize (az_crypto A) (az_key A) (az_permit_id A n) (az_now A n)
                     (az_get A) (az_put A) st
                     \<lparr>ar_action = action, ar_policy = policy,
                      ar_operation = Some (task_operation raw_request t), ar_remember = False\<rparr>
                     (az_subject A) (az_session A) (az_workspace A);
                   base = (case pt_router_request t of Some q \<Rightarrow> q | None \<Rightarrow> plan_request);
                   metadata = AList.update ''execution_constraints'' (constraints_value (ep_constraints permit))
                     (AList.update ''required_permissions''
                        (PList (map (\<lambda>s. PStr (scope_value s)) (ep_required permit))) (pt_metadata t));
                   t = t\<lparr>pt_permit := Some permit, pt_metadata := metadata,
                         pt_router_request := Some (constrain_request (ep_constraints permit) base)\<rparr>;
                   t = (if is_internet_task t
                        then t\<lparr>pt_metadata := set_arg ''_cap_permit''
                                 (PStr (decision_value (ep_decision permit))) (pt_metadata t)\<rparr>
                        else t)
               in Some (t, st))"

fun authorise_plan ::
  "'s authorisation_env \<Rightarrow> string \<Rightarrow> router_request \<Rightarrow> nat \<Rightarrow> plan_task list \<Rightarrow> 's option \<Rightarrow>
   (plan_task list \<times> 's option) option" where
  "authorise_plan A raw_request plan_request n [] st = Some ([], st)"
| "authorise_plan A raw_request plan_request n (t # ts) st =
     (case authorise_task A raw_request plan_request n t st of
        None \<Rightarrow> None
      | Some (t, st) \<Rightarrow>
          (case authorise_plan A raw_request plan_request (Suc n) ts st of
             None \<Rightarrow> None
           | Some (ts, st) \<Rightarrow> Some (t # ts, st)))"

section \<open>The signals of a request\<close>

text \<open>\<open>GoalParser.parse\<close> asks for a local model when the request carries one of these words.\<close>

definition LOCAL_MODEL_SIGNALS :: "string list" where
  "LOCAL_MODEL_SIGNALS =
     [''private'', ''confidential'', ''local only'', ''offline'', ''do not send'',
      ''don'' @ [CHR 39] @ ''t send'', ''sensitive'', ''secret'', ''credential'', ''password'',
      ''token'', ''key'']"

definition goal_requires_local :: "string \<Rightarrow> bool" where
  "goal_requires_local request = any_in (py_lower request) LOCAL_MODEL_SIGNALS"

section \<open>What the stage hands on\<close>

lemma authorise_task_permit:
  assumes "authorise_task A raw q n t st = Some (t', st')" "pt_kind t = KIND_EXECUTE_VIA_RUNTIME"
  obtains a p q' where "policy_action t = Some a" "pt_permit t' = Some p"
    "ep_constraints p = pd_constraints (evaluate (az_show A) (planned_task_action raw t a))"
    "pt_router_request t' = Some (constrain_request (ep_constraints p) q')"
    "q' = (case pt_router_request t of Some r \<Rightarrow> r | None \<Rightarrow> q)"
    "pt_task_id t' = pt_task_id t" "pt_execution_action_type t' = pt_execution_action_type t"
    "ep_subject_id p = az_subject A" "verify_integrity (az_crypto A) (az_key A) p"
    "ep_operation_digest p = operation_digest (az_crypto A) (pt_execution_action_type t)
       (Some (task_target t)) (authorization_payload (pt_execution_action_type t) (execution_inputs raw t))"
proof -
  from assms obtain a where a: "policy_action t = Some a"
    by (auto simp: authorise_task_def split: option.splits)
  from assms(1) [unfolded authorise_task_def a] assms(2) that [OF a]
  show thesis
    by (auto simp: authorize_def Let_def issue_permit_simps task_operation_def split: prod.splits if_splits)
qed

end
