(* ===== verification/Workflow_Graph.thy ===== *)
theory Workflow_Graph
  imports Task_Authorization Parallel_Graph
begin

text \<open>
  The dependency graph of a workflow (\<open>app/core/contracts/workflow.py\<close>) and the scheduler over it
  (\<open>ParallelWorkflowScheduler\<close> of \<open>app/workflow/engine.py\<close>): cycle detection, the tasks that are
  ready, and the tasks a failure blocks. A set of task ids is a list without repetition. The
  lemmas show that the search finds exactly the cycles, that it agrees with the one of the
  parallel runtime, and that the blocked tasks are the ones reachable from a failed task.
\<close>

section \<open>The graph\<close>

record workflow_graph =
  wg_tasks :: "plan_task list"
  wg_dependencies :: "(string \<times> string list) list"

definition plan_graph :: "plan_task list \<Rightarrow> workflow_graph" where
  "plan_graph ts = \<lparr>wg_tasks = ts, wg_dependencies = map (\<lambda>t. (pt_task_id t, pt_dependencies t)) ts\<rparr>"

text \<open>\<open>{dep.task_id: dep.depends_on for dep in dependencies}\<close>.\<close>

definition dependency_dict :: "workflow_graph \<Rightarrow> (string, string list) dict" where
  "dependency_dict g = fold (\<lambda>(t, ds) d. AList.update t ds d) (wg_dependencies g) []"

definition neighbours :: "(string, string list) dict \<Rightarrow> string \<Rightarrow> string list" where
  "neighbours d n = (case map_of d n of Some ns \<Rightarrow> ns | None \<Rightarrow> [])"

definition search_graph :: "(string, string list) dict \<Rightarrow> execution_graph" where
  "search_graph d = \<lparr>eg_task_ids = map fst d, eg_dependencies = d\<rparr>"

lemma neighbours_deps: "neighbours d n = deps_of (search_graph d) n"
  by (auto simp: neighbours_def deps_of_def search_graph_def split: option.splits)

text \<open>\<open>detect_cycles\<close>: a node is marked visited before its neighbours are.\<close>

function (sequential)
  search_node :: "(string, string list) dict \<Rightarrow> string set \<Rightarrow> string \<Rightarrow> string set \<Rightarrow> bool \<times> string set" and
  search_neighbours :: "(string, string list) dict \<Rightarrow> string set \<Rightarrow> string list \<Rightarrow> string set \<Rightarrow> bool \<times> string set" where
  "search_node d stack node visited =
     (if node \<in> stack then (True, visited)
      else if node \<in> visited then (False, visited)
      else search_neighbours d (insert node stack) (neighbours d node) (insert node visited))"
| "search_neighbours d stack [] visited = (False, visited)"
| "search_neighbours d stack (n # ns) visited =
     (case search_node d stack n visited of
        (True, v) \<Rightarrow> (True, v)
      | (False, v) \<Rightarrow> search_neighbours d stack ns v)"
  by pat_completeness auto

termination search_node
proof (relation "measures
    [\<lambda>x. case x of Inl (d, stack, n, v) \<Rightarrow> card (graph_ids (search_graph d) - stack)
                 | Inr (d, stack, ns, v) \<Rightarrow> card (graph_ids (search_graph d) - stack),
     \<lambda>x. case x of Inl (d, stack, n, v) \<Rightarrow> 1 | Inr (d, stack, ns, v) \<Rightarrow> 2 * length ns]")
  fix d and stack and node :: string and visited :: "string set"
  assume "node \<notin> stack"
  then show "(Inr (d, insert node stack, neighbours d node, insert node visited), Inl (d, stack, node, visited)) \<in>
      measures [\<lambda>x. case x of Inl (d, stack, n, v) \<Rightarrow> card (graph_ids (search_graph d) - stack)
                             | Inr (d, stack, ns, v) \<Rightarrow> card (graph_ids (search_graph d) - stack),
                \<lambda>x. case x of Inl (d, stack, n, v) \<Rightarrow> 1 | Inr (d, stack, ns, v) \<Rightarrow> 2 * length ns]"
    using path_measure [of node stack "search_graph d"]
    by (cases "node \<in> graph_ids (search_graph d)") (simp_all add: neighbours_deps deps_of_outside)
qed simp_all

declare search_node.simps [simp del]

fun search_roots :: "(string, string list) dict \<Rightarrow> string list \<Rightarrow> string set \<Rightarrow> bool" where
  "search_roots d [] visited = False"
| "search_roots d (n # ns) visited =
     (case search_node d {} n visited of (True, v) \<Rightarrow> True | (False, v) \<Rightarrow> search_roots d ns v)"

definition workflow_cyclic :: "workflow_graph \<Rightarrow> bool" where
  "workflow_cyclic g = (let d = dependency_dict g in search_roots d (map fst d) {})"

section \<open>Ready and blocked tasks\<close>

definition dependencies_of :: "workflow_graph \<Rightarrow> plan_task \<Rightarrow> string list" where
  "dependencies_of g t = (case map_of (dependency_dict g) (pt_task_id t) of
                      Some ds \<Rightarrow> ds | None \<Rightarrow> pt_dependencies t)"

definition ready_tasks :: "workflow_graph \<Rightarrow> string list \<Rightarrow> string list \<Rightarrow> plan_task list" where
  "ready_tasks g completed failed =
     filter (\<lambda>t. pt_task_id t \<notin> set completed \<and> pt_task_id t \<notin> set failed \<and>
                 \<not> list_ex (\<lambda>d. d \<in> set failed) (dependencies_of g t) \<and>
                 list_all (\<lambda>d. d \<in> set completed) (dependencies_of g t)) (wg_tasks g)"

definition add_child :: "string \<Rightarrow> string \<Rightarrow> (string, string list) dict \<Rightarrow> (string, string list) dict" where
  "add_child t d children =
     (case map_of children d of Some cs \<Rightarrow> AList.update d (cs @ [t]) children | None \<Rightarrow> children)"

definition children_dict :: "workflow_graph \<Rightarrow> (string, string list) dict" where
  "children_dict g =
     fold (\<lambda>t children. fold (add_child (pt_task_id t)) (dependencies_of g t) children) (wg_tasks g)
       (fold (\<lambda>t d. AList.update (pt_task_id t) [] d) (wg_tasks g) [])"

definition block_child :: "string list \<Rightarrow> string \<Rightarrow> string list \<times> string list \<Rightarrow> string list \<times> string list" where
  "block_child failed c acc =
     (case acc of (queue, blocked) \<Rightarrow>
        if c \<notin> set blocked \<and> c \<notin> set failed then (queue @ [c], c # blocked) else acc)"

lemma fold_block_child:
  "fold (block_child failed) cs (queue, blocked) = (queue', blocked') \<Longrightarrow>
     set blocked' = set blocked \<union> (set cs - set failed) \<and>
     set queue' = set queue \<union> (set cs - set failed - set blocked) \<and>
     length queue' + card (set blocked) = length queue + card (set blocked')"
proof (induction cs arbitrary: queue blocked)
  case (Cons c cs)
  show ?case
  proof (cases "c \<notin> set blocked \<and> c \<notin> set failed")
    case True
    then have "fold (block_child failed) cs (queue @ [c], c # blocked) = (queue', blocked')"
      using Cons.prems by (simp add: block_child_def [of failed c])
    from Cons.IH [OF this] True show ?thesis by auto
  next
    case False
    then have "fold (block_child failed) cs (queue, blocked) = (queue', blocked')"
      using Cons.prems by (auto simp: block_child_def [of failed c])
    from Cons.IH [OF this] False show ?thesis by auto
  qed
qed auto

text \<open>The queue, first in first out.\<close>

function block_loop :: "(string, string list) dict \<Rightarrow> string list \<Rightarrow> string list \<Rightarrow> string list \<Rightarrow> string list" where
  "block_loop children failed [] blocked = blocked"
| "block_loop children failed (node # queue) blocked =
     (let (queue, blocked) = fold (block_child failed) (neighbours children node) (queue, blocked)
      in block_loop children failed queue blocked)"
  by pat_completeness auto

definition all_children :: "(string, string list) dict \<Rightarrow> string set" where
  "all_children d = \<Union> (set ` snd ` set d)"

lemma neighbours_children: "set (neighbours d n) \<subseteq> all_children d"
proof (cases "map_of d n")
  case (Some ns)
  then have "(n, ns) \<in> set d" by (rule map_of_SomeD)
  then have "set ns \<in> set ` snd ` set d" by force
  with Some show ?thesis by (auto simp: neighbours_def all_children_def)
qed (simp add: neighbours_def)

lemma finite_all_children [simp]: "finite (all_children d)"
  by (simp add: all_children_def)

termination block_loop
proof (relation "measure (\<lambda>(children, failed, queue, blocked).
    length queue + 2 * card (all_children children - set blocked))")
  fix children and failed :: "string list" and node :: string and queue blocked queue' blocked' and x
  assume x: "x = fold (block_child failed) (neighbours children node) (queue, blocked)" "(queue', blocked') = x"
  from fold_block_child [of failed "neighbours children node" queue blocked queue' blocked'] x
  have spec: "set blocked' = set blocked \<union> (set (neighbours children node) - set failed)"
    "length queue' + card (set blocked) = length queue + card (set blocked')"
    by auto
  let ?new = "set (neighbours children node) - set failed - set blocked"
  have "card (set blocked') = card (set blocked) + card ?new"
    unfolding spec(1) by (subst card_Un_disjoint [symmetric]) (auto intro: arg_cong [of _ _ card])
  then have "length queue' = length queue + card ?new" using spec(2) by simp
  moreover have "card (all_children children - set blocked') + card ?new = card (all_children children - set blocked)"
  proof -
    have sub: "?new \<subseteq> all_children children - set blocked" using neighbours_children by blast
    have "all_children children - set blocked' = (all_children children - set blocked) - ?new"
      using spec(1) by auto
    moreover have "card ?new \<le> card (all_children children - set blocked)"
      using sub by (intro card_mono) simp_all
    ultimately show ?thesis using sub by (simp add: card_Diff_subset)
  qed
  ultimately show "((children, failed, queue', blocked'), (children, failed, node # queue, blocked)) \<in>
      measure (\<lambda>(children, failed, queue, blocked). length queue + 2 * card (all_children children - set blocked))"
    by simp
qed simp

definition blocked_ids :: "workflow_graph \<Rightarrow> string list \<Rightarrow> string list" where
  "blocked_ids g failed = block_loop (children_dict g) failed failed []"

definition blocked_tasks :: "workflow_graph \<Rightarrow> string list \<Rightarrow> plan_task list" where
  "blocked_tasks g failed = filter (\<lambda>t. pt_task_id t \<in> set (blocked_ids g failed)) (wg_tasks g)"

section \<open>The scheduler\<close>

record scheduler =
  sd_graph :: workflow_graph
  sd_completed :: "string list"
  sd_failed :: "string list"

definition next_batch :: "scheduler \<Rightarrow> plan_task list" where
  "next_batch s = ready_tasks (sd_graph s) (sd_completed s) (sd_failed s)"

definition mark_completed :: "string \<Rightarrow> scheduler \<Rightarrow> scheduler" where
  "mark_completed t s = s\<lparr>sd_completed := List.insert t (sd_completed s)\<rparr>"

definition mark_failed :: "string \<Rightarrow> scheduler \<Rightarrow> scheduler" where
  "mark_failed t s = s\<lparr>sd_failed := List.insert t (sd_failed s)\<rparr>"

definition is_finished :: "scheduler \<Rightarrow> bool" where
  "is_finished s =
     (card (set (sd_completed s) \<union> set (sd_failed s) \<union>
            set (map pt_task_id (blocked_tasks (sd_graph s) (sd_failed s))))
      \<ge> length (wg_tasks (sd_graph s)))"

section \<open>The search finds exactly the cycles\<close>

text \<open>The nodes the parallel runtime's search has cleared, with the path, are the visited ones here.\<close>

lemma search_visit:
  "visit (search_graph d) stack node c = (b, v) \<Longrightarrow>
     \<exists>w. search_node d stack node (c \<union> stack) = (b, w) \<and> (\<not> b \<longrightarrow> w = v \<union> stack)"
  "visit_deps (search_graph d) stack ns c = (b, v) \<Longrightarrow>
     \<exists>w. search_neighbours d stack ns (c \<union> stack) = (b, w) \<and> (\<not> b \<longrightarrow> w = v \<union> stack)"
proof (induction "search_graph d" stack node c and "search_graph d" stack ns c
    arbitrary: b v and b v rule: visit_visit_deps.induct)
  case (1 path node visited)
  show ?case
  proof (cases "node \<in> path \<or> node \<in> visited")
    case True
    with "1.prems" show ?thesis
      by (auto simp: visit.simps [of _ path node visited] search_node.simps [of d path node])
  next
    case False
    obtain b' v' where d: "visit_deps (search_graph d) (insert node path) (deps_of (search_graph d) node) visited = (b', v')"
      by fastforce
    with "1.prems" False have bv: "b = b'" "\<not> b \<longrightarrow> v = insert node v'"
      by (cases b'; simp add: visit.simps [of _ path node visited])+
    have "search_node d path node (visited \<union> path) =
        search_neighbours d (insert node path) (deps_of (search_graph d) node) (visited \<union> insert node path)"
      using False by (simp add: search_node.simps [of d path node] neighbours_deps)
    then show ?thesis
      using False "1.hyps" [OF _ _ d] bv by auto
  qed
next
  case (3 path n ns visited)
  obtain b1 v1 where bv: "visit (search_graph d) path n visited = (b1, v1)" by fastforce
  from "3.hyps"(1) [OF bv] obtain w where
    w: "search_node d path n (visited \<union> path) = (b1, w)" "\<not> b1 \<longrightarrow> w = v1 \<union> path" by blast
  show ?case
  proof (cases b1)
    case True
    with bv w "3.prems" show ?thesis by simp
  next
    case False
    with bv "3.prems" have "visit_deps (search_graph d) path ns v1 = (b, v)" by simp
    from "3.hyps"(2) [OF bv [symmetric] _ this] False w show ?thesis by simp
  qed
qed simp

lemma search_roots_visit: "search_roots d ns c = visit_roots (search_graph d) ns c"
proof (induction ns arbitrary: c)
  case (Cons n ns)
  obtain b v where bv: "visit (search_graph d) {} n c = (b, v)" by fastforce
  from search_visit(1) [OF this] obtain w where "search_node d {} n c = (b, w)" "\<not> b \<longrightarrow> w = v" by auto
  with bv Cons.IH show ?case by (cases b) simp_all
qed simp

definition waits_for :: "workflow_graph \<Rightarrow> (string \<times> string) set" where
  "waits_for g = {(t, d). d \<in> set (neighbours (dependency_dict g) t)}"

lemma workflow_cyclic_iff: "workflow_cyclic g \<longleftrightarrow> \<not> acyclic (waits_for g)"
proof -
  let ?s = "search_graph (dependency_dict g)"
  have "workflow_cyclic g = detect_cycles ?s"
    by (simp add: workflow_cyclic_def search_roots_visit detect_cycles_def Let_def) (simp add: search_graph_def)
  also have "\<dots> \<longleftrightarrow> \<not> acyclic (dep_rel ?s)"
    by (rule detect_cycles_iff) (simp add: search_graph_def)
  also have "dep_rel ?s = waits_for g"
    by (simp add: dep_rel_def waits_for_def neighbours_deps)
  finally show ?thesis .
qed

section \<open>The blocked tasks are the ones a failure reaches\<close>

lemma neighbours_update: "neighbours (AList.update k v d) n = (if n = k then v else neighbours d n)"
  by (simp add: neighbours_def)

lemma add_child_dict:
  "dict_has k (add_child t d ch) = dict_has k ch"
  "set (neighbours (add_child t d ch) k) =
     set (neighbours ch k) \<union> (if k = d \<and> dict_has k ch then {t} else {})"
  by (auto simp: add_child_def dict_has_iff neighbours_update neighbours_def split: option.splits)

lemma fold_add_child:
  "dict_has k (fold (add_child t) ds ch) = dict_has k ch"
  "set (neighbours (fold (add_child t) ds ch) k) =
     set (neighbours ch k) \<union> (if k \<in> set ds \<and> dict_has k ch then {t} else {})"
  by (induction ds arbitrary: ch) (auto simp: add_child_dict)

lemma fold_children:
  "dict_has k (fold (\<lambda>t ch. fold (add_child (pt_task_id t)) (f t) ch) ts ch) = dict_has k ch"
  "set (neighbours (fold (\<lambda>t ch. fold (add_child (pt_task_id t)) (f t) ch) ts ch) k) =
     set (neighbours ch k) \<union> (if dict_has k ch then pt_task_id ` {t \<in> set ts. k \<in> set (f t)} else {})"
  by (induction ts arbitrary: ch) (auto simp: fold_add_child)

lemma fold_empty_children:
  "dict_has k (fold (\<lambda>t d. AList.update (pt_task_id t) [] d) ts ch) \<longleftrightarrow> k \<in> pt_task_id ` set ts \<or> dict_has k ch"
  "(\<And>n. neighbours ch n = []) \<Longrightarrow> neighbours (fold (\<lambda>t d. AList.update (pt_task_id t) [] d) ts ch) n = []"
  by (induction ts arbitrary: ch) (auto simp: neighbours_update)

lemma children_iff:
  "c \<in> set (neighbours (children_dict g) d) \<longleftrightarrow>
     d \<in> pt_task_id ` set (wg_tasks g) \<and> (\<exists>t \<in> set (wg_tasks g). pt_task_id t = c \<and> d \<in> set (dependencies_of g t))"
proof -
  have "neighbours [] n = []" for n by (simp add: neighbours_def)
  note empty = fold_empty_children(2) [OF this]
  show ?thesis
    unfolding children_dict_def fold_children(2) fold_empty_children(1) empty
    by (auto simp: dict_has_def)
qed

lemma block_loop_spec:
  assumes "\<forall>x \<in> set blocked \<union> set failed. x \<in> set queue \<or> set (neighbours ch x) - set failed \<subseteq> set blocked"
    and "set queue \<subseteq> set blocked \<union> set failed"
  shows "set blocked \<subseteq> set (block_loop ch failed queue blocked) \<and>
    (\<forall>x \<in> set (block_loop ch failed queue blocked) \<union> set failed.
       set (neighbours ch x) - set failed \<subseteq> set (block_loop ch failed queue blocked)) \<and>
    (\<forall>X. set blocked \<subseteq> X \<longrightarrow> (\<forall>x \<in> X \<union> set failed. set (neighbours ch x) - set failed \<subseteq> X) \<longrightarrow>
       set (block_loop ch failed queue blocked) \<subseteq> X)"
  using assms
proof (induction ch failed queue blocked rule: block_loop.induct)
  case (2 children failed node queue blocked)
  obtain queue' blocked' where f: "fold (block_child failed) (neighbours children node) (queue, blocked) = (queue', blocked')"
    by fastforce
  note spec = fold_block_child [OF f]
  have inv: "\<forall>x \<in> set blocked' \<union> set failed. x \<in> set queue' \<or> set (neighbours children x) - set failed \<subseteq> set blocked'"
    "set queue' \<subseteq> set blocked' \<union> set failed"
    using spec "2.prems" by auto
  have step: "block_loop children failed (node # queue) blocked = block_loop children failed queue' blocked'"
    by (simp add: f)
  have low: "set blocked' \<subseteq> X" if "set blocked \<subseteq> X" "\<forall>x \<in> X \<union> set failed. set (neighbours children x) - set failed \<subseteq> X" for X
    using that spec "2.prems"(2) by auto
  from "2.IH" [OF f [symmetric] refl inv]
  show ?case unfolding step
  proof (elim conjE, intro conjI allI impI)
    assume "set blocked' \<subseteq> set (block_loop children failed queue' blocked')"
    then show "set blocked \<subseteq> set (block_loop children failed queue' blocked')" using spec by simp
  next
    fix X assume "set blocked \<subseteq> X" "\<forall>x \<in> X \<union> set failed. set (neighbours children x) - set failed \<subseteq> X"
      and "\<forall>X. set blocked' \<subseteq> X \<longrightarrow> (\<forall>x \<in> X \<union> set failed. set (neighbours children x) - set failed \<subseteq> X) \<longrightarrow>
        set (block_loop children failed queue' blocked') \<subseteq> X"
    then show "set (block_loop children failed queue' blocked') \<subseteq> X" using low [of X] by simp
  qed
qed auto

definition depends_chain :: "workflow_graph \<Rightarrow> (string \<times> string) set" where
  "depends_chain g = {(d, c). c \<in> set (neighbours (children_dict g) d)}"

lemma set_blocked_ids:
  "set (blocked_ids g failed) = {c. \<exists>f \<in> set failed. (f, c) \<in> (depends_chain g)\<^sup>+} - set failed"
    (is "?B = ?R - _")
proof
  let ?ch = "children_dict g"
  have start: "\<forall>x \<in> set [] \<union> set failed. x \<in> set failed \<or> set (neighbours ?ch x) - set failed \<subseteq> set []"
    "set failed \<subseteq> set [] \<union> set failed" by auto
  note spec = block_loop_spec [OF start, folded blocked_ids_def]
  show "?B \<subseteq> ?R - set failed"
  proof (rule spec [THEN conjunct2, THEN conjunct2, THEN HOL.spec [of _ "?R - set failed"], THEN mp, THEN mp])
    show "\<forall>x \<in> (?R - set failed) \<union> set failed. set (neighbours ?ch x) - set failed \<subseteq> ?R - set failed"
      by (auto simp: depends_chain_def intro: trancl_into_trancl)
  qed simp
  have "c \<in> ?B \<union> set failed" if "(f, c) \<in> (depends_chain g)\<^sup>+" "f \<in> set failed" for f c
    using that(1)
    by (induction rule: trancl_induct) (use spec that(2) in \<open>auto simp: depends_chain_def\<close>)
  then show "?R - set failed \<subseteq> ?B" by blast
qed

end
