(* ===== verification/Execution_State.thy ===== *)
theory Execution_State
  imports Canonical_Json
begin

text \<open>
  The public life of an execution (\<open>app/core/contracts/state.py\<close>): its statuses, the table of
  transitions between them and \<open>ExecutionState\<close> with its one writer, \<open>transition\<close>. The table has
  no entry for \<open>PAUSED\<close>, so nothing leaves that status, and none for the terminal ones. The task
  states of an execution (\<open>current_tasks\<close>) are written by no component modelled here and are left
  out. \<open>now\<close> is the clock, in microseconds.
\<close>

section \<open>Statuses and the table\<close>

datatype execution_status =
  EXEC_CREATED | EXEC_PLANNING | EXEC_AWAITING_APPROVAL | EXEC_APPROVED | EXEC_RUNNING | EXEC_PAUSED |
  EXEC_RECOVERING | EXEC_COMPLETED | EXEC_FAILED | EXEC_DENIED | EXEC_CANCELLED | EXEC_TIMED_OUT

fun execution_value :: "execution_status \<Rightarrow> string" where
  "execution_value EXEC_CREATED = ''created''"
| "execution_value EXEC_PLANNING = ''planning''"
| "execution_value EXEC_AWAITING_APPROVAL = ''awaiting_approval''"
| "execution_value EXEC_APPROVED = ''approved''"
| "execution_value EXEC_RUNNING = ''running''"
| "execution_value EXEC_PAUSED = ''paused''"
| "execution_value EXEC_RECOVERING = ''recovering''"
| "execution_value EXEC_COMPLETED = ''completed''"
| "execution_value EXEC_FAILED = ''failed''"
| "execution_value EXEC_DENIED = ''denied''"
| "execution_value EXEC_CANCELLED = ''cancelled''"
| "execution_value EXEC_TIMED_OUT = ''timed_out''"

definition TERMINAL_EXECUTION_STATUSES :: "execution_status list" where
  "TERMINAL_EXECUTION_STATUSES =
     [EXEC_COMPLETED, EXEC_FAILED, EXEC_DENIED, EXEC_CANCELLED, EXEC_TIMED_OUT]"

fun PUBLIC_TRANSITIONS :: "execution_status \<Rightarrow> execution_status list" where
  "PUBLIC_TRANSITIONS EXEC_CREATED =
     [EXEC_PLANNING, EXEC_RECOVERING, EXEC_FAILED, EXEC_CANCELLED, EXEC_TIMED_OUT]"
| "PUBLIC_TRANSITIONS EXEC_PLANNING =
     [EXEC_AWAITING_APPROVAL, EXEC_RUNNING, EXEC_COMPLETED, EXEC_FAILED, EXEC_DENIED, EXEC_CANCELLED,
      EXEC_TIMED_OUT, EXEC_RECOVERING]"
| "PUBLIC_TRANSITIONS EXEC_AWAITING_APPROVAL =
     [EXEC_APPROVED, EXEC_DENIED, EXEC_CANCELLED, EXEC_TIMED_OUT, EXEC_RECOVERING]"
| "PUBLIC_TRANSITIONS EXEC_APPROVED =
     [EXEC_RUNNING, EXEC_AWAITING_APPROVAL, EXEC_COMPLETED, EXEC_FAILED, EXEC_CANCELLED, EXEC_TIMED_OUT]"
| "PUBLIC_TRANSITIONS EXEC_RUNNING =
     [EXEC_AWAITING_APPROVAL, EXEC_COMPLETED, EXEC_FAILED, EXEC_CANCELLED, EXEC_TIMED_OUT, EXEC_RECOVERING]"
| "PUBLIC_TRANSITIONS EXEC_RECOVERING =
     [EXEC_PLANNING, EXEC_RUNNING, EXEC_AWAITING_APPROVAL, EXEC_COMPLETED, EXEC_FAILED, EXEC_CANCELLED,
      EXEC_TIMED_OUT]"
| "PUBLIC_TRANSITIONS _ = []"

section \<open>The state of an execution\<close>

text \<open>The sets of task ids are lists; principal, session and request are \<open>None\<close> when unset.\<close>

record execution_state =
  es_execution_id :: string
  es_status :: execution_status
  es_principal_id :: "string option"
  es_session_id :: "string option"
  es_request :: "string option"
  es_pending_approval_id :: "string option"
  es_pending_task_id :: "string option"
  es_result_available :: bool
  es_error :: "string option"
  es_completed_tasks :: "string list"
  es_failed_tasks :: "string list"
  es_blocked_tasks :: "string list"
  es_created_at :: int
  es_started_at :: "int option"
  es_completed_at :: "int option"
  es_updated_at :: "int option"
  es_metadata :: "(string, pyval) dict"

definition new_execution_state ::
  "string \<Rightarrow> string \<Rightarrow> string \<Rightarrow> string \<Rightarrow> (string, pyval) dict \<Rightarrow> int \<Rightarrow> execution_state" where
  "new_execution_state execution_id owner session request metadata now =
     \<lparr>es_execution_id = execution_id, es_status = EXEC_CREATED, es_principal_id = Some owner,
      es_session_id = Some session, es_request = Some request, es_pending_approval_id = None,
      es_pending_task_id = None, es_result_available = False, es_error = None, es_completed_tasks = [],
      es_failed_tasks = [], es_blocked_tasks = [], es_created_at = now, es_started_at = None,
      es_completed_at = None, es_updated_at = None, es_metadata = metadata\<rparr>"

definition status_terminal :: "execution_status \<Rightarrow> bool" where
  "status_terminal s = (s \<in> set TERMINAL_EXECUTION_STATUSES)"

definition es_terminal :: "execution_state \<Rightarrow> bool" where
  "es_terminal e = status_terminal (es_status e)"

text \<open>A refused transition raises \<open>ValueError\<close> and leaves the state alone.\<close>

definition stamp_status :: "int \<Rightarrow> execution_status \<Rightarrow> string option \<Rightarrow> execution_state \<Rightarrow> execution_state" where
  "stamp_status now status error e =
     e\<lparr>es_status := status, es_updated_at := Some now,
       es_started_at := (if status \<in> {EXEC_PLANNING, EXEC_RUNNING}
                         then (case es_started_at e of None \<Rightarrow> Some now | Some t \<Rightarrow> Some t)
                         else es_started_at e),
       es_completed_at := (if status_terminal status then Some now else es_completed_at e),
       es_error := (case error of None \<Rightarrow> es_error e | Some t \<Rightarrow> Some t)\<rparr>"

definition transition ::
  "int \<Rightarrow> execution_status \<Rightarrow> string option \<Rightarrow> execution_state \<Rightarrow> (string, execution_state) result" where
  "transition now status error e =
     (if status = es_status e then Inr e
      else if es_terminal e then
        Inl (''Terminal execution cannot transition from '' @ execution_value (es_status e) @ '' to '' @
             execution_value status @ ''.'')
      else if status \<notin> set (PUBLIC_TRANSITIONS (es_status e)) then
        Inl (''Invalid execution transition: '' @ execution_value (es_status e) @ '' -> '' @
             execution_value status @ ''.'')
      else Inr (stamp_status now status error e))"

section \<open>The lifecycle\<close>

text \<open>One permitted move, and any number of them.\<close>

inductive moves :: "execution_status \<Rightarrow> execution_status \<Rightarrow> bool" where
  here: "moves s s"
| move: "moves s t \<Longrightarrow> u \<in> set (PUBLIC_TRANSITIONS t) \<Longrightarrow> moves s u"

lemma execution_value_inj [simp]: "execution_value s = execution_value t \<longleftrightarrow> s = t"
  by (cases s; cases t) simp_all

lemma status_terminal_simps [simp]:
  "\<not> status_terminal EXEC_CREATED" "\<not> status_terminal EXEC_PLANNING"
  "\<not> status_terminal EXEC_AWAITING_APPROVAL" "\<not> status_terminal EXEC_APPROVED"
  "\<not> status_terminal EXEC_RUNNING" "\<not> status_terminal EXEC_PAUSED" "\<not> status_terminal EXEC_RECOVERING"
  "status_terminal EXEC_COMPLETED" "status_terminal EXEC_FAILED" "status_terminal EXEC_DENIED"
  "status_terminal EXEC_CANCELLED" "status_terminal EXEC_TIMED_OUT"
  by (simp_all add: status_terminal_def TERMINAL_EXECUTION_STATUSES_def)

lemma terminal_no_move: "status_terminal s \<Longrightarrow> PUBLIC_TRANSITIONS s = []"
  by (cases s) simp_all

lemma moves_trans:
  assumes "moves s t" "moves t u"
  shows "moves s u"
  using assms(2,1) by (induction rule: moves.induct) (auto intro: moves.move)

lemma moves_terminal:
  assumes "moves s t" "status_terminal s"
  shows "t = s"
  using assms by (induction rule: moves.induct) (auto simp: terminal_no_move)

lemma stamp_status_simps [simp]:
  "es_status (stamp_status now s err e) = s"
  "es_execution_id (stamp_status now s err e) = es_execution_id e"
  "es_principal_id (stamp_status now s err e) = es_principal_id e"
  "es_session_id (stamp_status now s err e) = es_session_id e"
  "es_request (stamp_status now s err e) = es_request e"
  "es_pending_approval_id (stamp_status now s err e) = es_pending_approval_id e"
  "es_pending_task_id (stamp_status now s err e) = es_pending_task_id e"
  "es_metadata (stamp_status now s err e) = es_metadata e"
  "es_result_available (stamp_status now s err e) = es_result_available e"
  by (simp_all add: stamp_status_def)

lemma transition_Inr:
  assumes "transition now s err e = Inr e'"
  shows "es_status e' = s \<and> moves (es_status e) s \<and> (s = es_status e \<and> e' = e \<or>
    s \<in> set (PUBLIC_TRANSITIONS (es_status e)) \<and> \<not> es_terminal e \<and> e' = stamp_status now s err e)"
  using assms by (auto simp: transition_def split: if_splits intro: moves.intros)

lemma transition_keeps:
  assumes "transition now s err e = Inr e'"
  shows "es_execution_id e' = es_execution_id e" "es_principal_id e' = es_principal_id e"
    "es_session_id e' = es_session_id e" "moves (es_status e) (es_status e')" "es_status e' = s"
  using assms by (auto simp: transition_def split: if_splits intro: moves.intros)

lemma transition_returns:
  assumes "s \<in> set (PUBLIC_TRANSITIONS (es_status e))" "s \<noteq> es_status e"
  shows "transition now s err e = Inr (stamp_status now s err e)"
  using assms terminal_no_move [of "es_status e"] by (auto simp: transition_def es_terminal_def)

end
