(* ===== verification/Workflow_Engine.thy ===== *)
theory Workflow_Engine
  imports Workflow_Graph Execution_State
begin

text \<open>
  The workflow engine (\<open>app/workflow/engine.py\<close>), its pauses (\<open>app/workflow/pause.py\<close>) and its
  state (\<open>app/workflow/state.py\<close>): the runtime tasks of a plan, the batches the scheduler
  releases, routing and dispatch of a batch, what a result does to the state, the pause that ends
  a run early, and the blocked tasks at its end. The router, the runtime and the evidence the
  context builder appends act on a world \<open>'w\<close> of the environment. The prepared context is one
  object shared by every provider task, so the loop carries it and a task reads it when it is
  dispatched. The loop takes fuel; one unit per task and one more suffice.
\<close>

section \<open>State\<close>

record workflow_state =
  ws_workflow_id :: string
  ws_status :: execution_status
  ws_current_step :: nat
  ws_total_steps :: nat
  ws_completed_steps :: nat
  ws_failed_step :: "nat option"
  ws_started_at :: "int option"
  ws_finished_at :: "int option"
  ws_results :: "runtime_result list"
  ws_completed_ids :: "string list"
  ws_failed_ids :: "string list"
  ws_errors :: "string list"

definition new_workflow_state :: "string \<Rightarrow> nat \<Rightarrow> int \<Rightarrow> workflow_state" where
  "new_workflow_state plan_id steps now =
     \<lparr>ws_workflow_id = plan_id, ws_status = EXEC_RUNNING, ws_current_step = 0, ws_total_steps = steps,
      ws_completed_steps = 0, ws_failed_step = None, ws_started_at = Some now, ws_finished_at = None,
      ws_results = [], ws_completed_ids = [], ws_failed_ids = [], ws_errors = []\<rparr>"

text \<open>Overrides map a task to the arguments that replace its own.\<close>

type_synonym overrides = "(string, (string, pyval) dict) dict"

record pending_pause =
  pp_task_id :: string
  pp_pause :: execution_pause
  pp_overrides :: overrides

type_synonym pause_manager = "(string, pending_pause) dict"

definition register_pause :: "string \<Rightarrow> string \<Rightarrow> execution_pause \<Rightarrow> pause_manager \<Rightarrow> pause_manager" where
  "register_pause plan task pause pm =
     AList.update plan \<lparr>pp_task_id = task, pp_pause = pause, pp_overrides = []\<rparr> pm"

definition get_pending_pause :: "pause_manager \<Rightarrow> string \<Rightarrow> pending_pause option" where
  "get_pending_pause pm plan = map_of pm plan"

definition update_resume_context :: "string \<Rightarrow> overrides \<Rightarrow> pause_manager \<Rightarrow> pause_manager" where
  "update_resume_context plan new pm =
     (case map_of pm plan of
        None \<Rightarrow> pm
      | Some p \<Rightarrow> AList.update plan (p\<lparr>pp_overrides := dict_merge (pp_overrides p) new\<rparr>) pm)"

definition resolve_pause :: "string \<Rightarrow> pause_manager \<Rightarrow> pending_pause option \<times> pause_manager" where
  "resolve_pause plan pm = (map_of pm plan, AList.delete plan pm)"

record workflow_metrics =
  wm_executions :: nat
  wm_successes :: nat
  wm_failures :: nat
  wm_parallel_batches :: nat
  wm_concurrent_tasks :: nat
  wm_scheduling_failures :: nat

definition record_workflow :: "bool \<Rightarrow> workflow_metrics \<Rightarrow> workflow_metrics" where
  "record_workflow success m =
     (if success then m\<lparr>wm_executions := wm_executions m + 1, wm_successes := wm_successes m + 1\<rparr>
      else m\<lparr>wm_executions := wm_executions m + 1, wm_failures := wm_failures m + 1\<rparr>)"

definition record_batch :: "nat \<Rightarrow> workflow_metrics \<Rightarrow> workflow_metrics" where
  "record_batch n m = m\<lparr>wm_parallel_batches := wm_parallel_batches m + 1,
                        wm_concurrent_tasks := wm_concurrent_tasks m + n\<rparr>"

definition record_scheduling_failure :: "workflow_metrics \<Rightarrow> workflow_metrics" where
  "record_scheduling_failure m = m\<lparr>wm_scheduling_failures := wm_scheduling_failures m + 1\<rparr>"

section \<open>The runtime tasks of a plan\<close>

record execution_plan =
  pn_plan_id :: string
  pn_raw_request :: string
  pn_tasks :: "plan_task list"
  pn_router_request :: router_request

definition CONTEXT_ACTIONS :: "string list" where
  "CONTEXT_ACTIONS = [''text_generation'', ''code_generation'', ''provider'']"

definition workflow_args :: "(string, pyval) dict option \<Rightarrow> plan_task \<Rightarrow> (string, pyval) dict" where
  "workflow_args override t =
     (case override of None \<Rightarrow> task_args t | Some d \<Rightarrow> dict_merge (task_args t) d)"

text \<open>\<open>None\<close> for no prepared context. The router request of the metadata stays with the plan task.\<close>

definition workflow_inputs ::
  "string \<Rightarrow> (string, pyval) dict option \<Rightarrow> pyval option \<Rightarrow> plan_task \<Rightarrow> (string, pyval) dict" where
  "workflow_inputs raw override prepared t =
     (let base = dict_merge
            [(''prompt'', PStr (if pt_kind t = KIND_EXECUTE_VIA_RUNTIME then raw else pt_description t)),
             (''plan_task_id'', PStr (pt_task_id t)), (''plan_task_kind'', PStr (kind_value (pt_kind t)))]
            (workflow_args override t);
          context = (case prepared of
                       Some v \<Rightarrow> if pt_execution_action_type t \<in> set CONTEXT_ACTIONS
                                 then [(''prepared_context'', v)] else []
                     | None \<Rightarrow> []);
          system = (case map_of (pt_metadata t) ''system_prompt'' of
                      Some v \<Rightarrow> if truthy v then [(''system_prompt'', v)] else []
                    | None \<Rightarrow> [])
      in dict_merge (dict_merge base context) system)"

definition workflow_task ::
  "execution_plan \<Rightarrow> overrides \<Rightarrow> pyval option \<Rightarrow> plan_task \<Rightarrow> runtime_task" where
  "workflow_task plan ov prepared t =
     \<lparr>rt_task_id = pt_task_id t, rt_title = pt_title t, rt_description = pt_description t,
      rt_action_type = pt_execution_action_type t,
      rt_inputs = workflow_inputs (pn_raw_request plan) (map_of ov (pt_task_id t)) prepared t,
      rt_dependencies = pt_dependencies t,
      rt_metadata = dict_merge (pt_metadata t)
        [(''plan_id'', PStr (pn_plan_id plan)), (''plan_task_id'', PStr (pt_task_id t)),
         (''plan_task_kind'', PStr (kind_value (pt_kind t))),
         (''agent_id'', input_value (pt_metadata t) ''agent_id'')],
      rt_worker_requirement = pt_worker_requirement t, rt_preferred_worker = pt_preferred_worker t,
      rt_permit = pt_permit t\<rparr>"

text \<open>\<open>workflow_tasks[tid]\<close>: of two tasks with one id the later one.\<close>

definition task_named :: "execution_plan \<Rightarrow> string \<Rightarrow> plan_task option" where
  "task_named plan tid = List.find (\<lambda>t. pt_task_id t = tid) (rev (pn_tasks plan))"

section \<open>Routing\<close>

record 'w workflow_env =
  we_route :: "'w \<Rightarrow> router_request \<Rightarrow> (string, routing_decision) result \<times> 'w"
  we_run_batch :: "'w \<Rightarrow> (runtime_task \<times> routing_decision) list \<Rightarrow> runtime_result list \<times> 'w"
  we_evidence :: "pyval \<Rightarrow> runtime_result \<Rightarrow> pyval"
  we_now :: int

definition bypassed_routing :: "string \<Rightarrow> routing_decision" where
  "bypassed_routing action =
     \<lparr>rd_provider_id = [], rd_model_id = [],
      rd_reasoning_summary = ''Bypassed provider routing for tool task: '' @ action,
      rd_constraints = [],
      rd_execution_constraints = \<lparr>ec_requires_local_model = False, ec_network_allowed = True,
                                  ec_privacy_category = PUBLIC\<rparr>,
      rd_metadata = [(''bypassed_routing'', PBool True)]\<rparr>"

definition route_task ::
  "'w workflow_env \<Rightarrow> execution_plan \<Rightarrow> plan_task \<Rightarrow> 'w \<Rightarrow> (string, routing_decision) result \<times> 'w" where
  "route_task E plan t w =
     (if pt_execution_action_type t \<notin> set CONTEXT_ACTIONS
      then (Inr (bypassed_routing (pt_execution_action_type t)), w)
      else we_route E w (case pt_router_request t of Some q \<Rightarrow> q | None \<Rightarrow> pn_router_request plan))"

definition bare_result :: "string \<Rightarrow> task_status \<Rightarrow> string option \<Rightarrow> (string, pyval) dict \<Rightarrow> runtime_result" where
  "bare_result task status err metadata =
     \<lparr>rr_task_id = task, rr_status = status, rr_routing = None, rr_pause = None, rr_output = [],
      rr_error = err, rr_started_at = None, rr_finished_at = None, rr_duration = 0,
      rr_metadata = metadata\<rparr>"

text \<open>The routed tasks of a batch, and a failed result for each one the router raised for.\<close>

fun route_batch ::
  "'w workflow_env \<Rightarrow> execution_plan \<Rightarrow> overrides \<Rightarrow> pyval option \<Rightarrow> plan_task list \<Rightarrow> 'w \<Rightarrow>
   runtime_result list \<times> (runtime_task \<times> routing_decision) list \<times> 'w" where
  "route_batch E plan ov prepared [] w = ([], [], w)"
| "route_batch E plan ov prepared (t # ts) w =
     (let t = (case task_named plan (pt_task_id t) of Some u \<Rightarrow> u | None \<Rightarrow> t);
          (routing, w) = route_task E plan t w;
          (failures, routed, w) = route_batch E plan ov prepared ts w
      in case routing of
           Inl e \<Rightarrow> (bare_result (pt_task_id t) FAILED (Some (''Routing failed: '' @ e)) [] # failures, routed, w)
         | Inr d \<Rightarrow> (failures, (workflow_task plan ov prepared t, d) # routed, w))"

section \<open>The loop\<close>

record 'w loop_state =
  lp_state :: workflow_state
  lp_scheduler :: scheduler
  lp_outputs :: "runtime_result list"
  lp_prepared :: "pyval option"
  lp_pauses :: pause_manager
  lp_metrics :: workflow_metrics
  lp_world :: 'w
  lp_dispatched :: "(runtime_task \<times> string list) list"
  \<comment> \<open>what was handed to the runtime so far, each with the tasks completed by then\<close>

definition finish_internal :: "plan_task \<Rightarrow> 'w loop_state \<Rightarrow> 'w loop_state" where
  "finish_internal t L =
     (let s = lp_state L;
          r = bare_result (pt_task_id t) COMPLETED None
                [(''internal_workflow_task'', PStr (kind_value (pt_kind t)))]
      in L\<lparr>lp_state := s\<lparr>ws_results := ws_results s @ [r], ws_current_step := ws_current_step s + 1,
                         ws_completed_steps := ws_completed_steps s + 1\<rparr>,
           lp_scheduler := mark_completed (pt_task_id t) (lp_scheduler L)\<rparr>)"

text \<open>One result of a batch; a paused one ends the run there, and the results behind it are lost.\<close>

definition take_result :: "'w workflow_env \<Rightarrow> execution_plan \<Rightarrow> runtime_result \<Rightarrow> 'w loop_state \<Rightarrow> 'w loop_state" where
  "take_result E plan r L =
     (let tid = rr_task_id r;
          L = L\<lparr>lp_outputs := lp_outputs L @ [r],
                lp_state := (lp_state L)\<lparr>ws_results := ws_results (lp_state L) @ [r],
                                         ws_current_step := ws_current_step (lp_state L) + 1\<rparr>\<rparr>;
          s = lp_state L
      in if rr_status r = COMPLETED then
           L\<lparr>lp_state := s\<lparr>ws_completed_steps := ws_completed_steps s + 1,
                           ws_completed_ids := List.insert tid (ws_completed_ids s)\<rparr>,
             lp_scheduler := mark_completed tid (lp_scheduler L),
             lp_prepared := (if map_option pt_execution_action_type (task_named plan tid) = Some ''tool''
                             then map_option (\<lambda>v. we_evidence E v r) (lp_prepared L) else lp_prepared L)\<rparr>
         else if rr_status r = PAUSED then
           L\<lparr>lp_state := s\<lparr>ws_status := EXEC_PAUSED\<rparr>,
             lp_pauses := (case rr_pause r of
                             Some p \<Rightarrow> register_pause (pn_plan_id plan) tid p (lp_pauses L)
                           | None \<Rightarrow> lp_pauses L)\<rparr>
         else
           L\<lparr>lp_state := s\<lparr>ws_failed_step := Some (ws_current_step s),
                           ws_failed_ids := List.insert tid (ws_failed_ids s),
                           ws_errors := ws_errors s @ (case rr_error r of
                             Some e \<Rightarrow> if e \<noteq> [] then [e] else [] | None \<Rightarrow> [])\<rparr>,
             lp_scheduler := mark_failed tid (lp_scheduler L)\<rparr>)"

fun take_results ::
  "'w workflow_env \<Rightarrow> execution_plan \<Rightarrow> runtime_result list \<Rightarrow> 'w loop_state \<Rightarrow> bool \<times> 'w loop_state" where
  "take_results E plan [] L = (False, L)"
| "take_results E plan (r # rs) L =
     (let L = take_result E plan r L in
      if rr_status r = PAUSED then (True, L) else take_results E plan rs L)"

text \<open>One batch: whether the run pauses, and the state after it.\<close>

definition run_workflow_batch ::
  "'w workflow_env \<Rightarrow> execution_plan \<Rightarrow> overrides \<Rightarrow> plan_task list \<Rightarrow> 'w loop_state \<Rightarrow> bool \<times> 'w loop_state" where
  "run_workflow_batch E plan ov batch L =
     (let L = L\<lparr>lp_metrics := record_batch (length batch) (lp_metrics L)\<rparr>;
          L = fold finish_internal (filter (\<lambda>t. pt_kind t \<noteq> KIND_EXECUTE_VIA_RUNTIME) batch) L;
          batch = filter (\<lambda>t. pt_kind t = KIND_EXECUTE_VIA_RUNTIME) batch
      in if batch = [] then (False, L)
         else let (failures, routed, w) = route_batch E plan ov (lp_prepared L) batch (lp_world L);
                  (results, w) = (if routed = [] then ([], w) else we_run_batch E w routed)
              in take_results E plan (failures @ results)
                   (L\<lparr>lp_world := w, lp_dispatched := lp_dispatched L @
                        map (\<lambda>(t, _). (t, sd_completed (lp_scheduler L))) routed\<rparr>))"

datatype loop_end = LoopFinished | LoopPaused | LoopDeadlocked

fun workflow_loop ::
  "nat \<Rightarrow> 'w workflow_env \<Rightarrow> execution_plan \<Rightarrow> overrides \<Rightarrow> 'w loop_state \<Rightarrow> (loop_end \<times> 'w loop_state) option" where
  "workflow_loop 0 E plan ov L = None"
| "workflow_loop (Suc n) E plan ov L =
     (if is_finished (lp_scheduler L) then Some (LoopFinished, L)
      else let batch = next_batch (lp_scheduler L) in
           if batch = []
           then Some (LoopDeadlocked, L\<lparr>lp_metrics := record_scheduling_failure (lp_metrics L)\<rparr>)
           else let (paused, L) = run_workflow_batch E plan ov batch L in
                if paused then Some (LoopPaused, L) else workflow_loop n E plan ov L)"

section \<open>A run\<close>

record workflow_result =
  wf_success :: bool
  wf_state :: workflow_state
  wf_outputs :: "runtime_result list"

definition fail_workflow :: "'w workflow_env \<Rightarrow> string \<Rightarrow> 'w loop_state \<Rightarrow> workflow_result \<times> 'w loop_state" where
  "fail_workflow E err L =
     (let s = (lp_state L)\<lparr>ws_status := EXEC_FAILED, ws_finished_at := Some (we_now E),
                           ws_errors := ws_errors (lp_state L) @ [err]\<rparr>;
          L = L\<lparr>lp_state := s, lp_metrics := record_workflow False (lp_metrics L)\<rparr>
      in (\<lparr>wf_success = False, wf_state = s, wf_outputs = []\<rparr>, L))"

definition blocked_task_result :: "plan_task \<Rightarrow> runtime_result" where
  "blocked_task_result t =
     bare_result (pt_task_id t) BLOCKED_BY_DEPENDENCY (Some ''Blocked by dependency failure'') []"

definition finish_workflow :: "'w workflow_env \<Rightarrow> 'w loop_state \<Rightarrow> workflow_result \<times> 'w loop_state" where
  "finish_workflow E L =
     (let sd = lp_scheduler L;
          rs = map blocked_task_result (blocked_tasks (sd_graph sd) (sd_failed sd));
          success = (sd_failed sd = [] \<and> rs = []);
          s = (lp_state L)\<lparr>ws_results := ws_results (lp_state L) @ rs,
                           ws_current_step := ws_current_step (lp_state L) + length rs,
                           ws_status := (if success then EXEC_COMPLETED else EXEC_FAILED),
                           ws_finished_at := Some (we_now E)\<rparr>;
          L = L\<lparr>lp_state := s, lp_outputs := lp_outputs L @ rs,
                lp_metrics := record_workflow success (lp_metrics L)\<rparr>
      in (\<lparr>wf_success = success, wf_state = s, wf_outputs = lp_outputs L\<rparr>, L))"

definition start_workflow ::
  "'w workflow_env \<Rightarrow> execution_plan \<Rightarrow> workflow_state option \<Rightarrow> pyval option \<Rightarrow> pause_manager \<Rightarrow>
   workflow_metrics \<Rightarrow> 'w \<Rightarrow> 'w loop_state" where
  "start_workflow E plan resume prepared pm metrics w =
     (let s = (case resume of
                 Some s \<Rightarrow> s\<lparr>ws_status := EXEC_RUNNING\<rparr>
               | None \<Rightarrow> new_workflow_state (pn_plan_id plan) (length (pn_tasks plan)) (we_now E))
      in \<lparr>lp_state = s,
          lp_scheduler = \<lparr>sd_graph = plan_graph (pn_tasks plan), sd_completed = ws_completed_ids s,
                          sd_failed = ws_failed_ids s\<rparr>,
          lp_outputs = [], lp_prepared = prepared, lp_pauses = pm, lp_metrics = metrics, lp_world = w,
          lp_dispatched = []\<rparr>)"

definition run_workflow ::
  "nat \<Rightarrow> 'w workflow_env \<Rightarrow> execution_plan \<Rightarrow> workflow_state option \<Rightarrow> pyval option \<Rightarrow> pause_manager \<Rightarrow>
   workflow_metrics \<Rightarrow> 'w \<Rightarrow> (workflow_result \<times> 'w loop_state) option" where
  "run_workflow fuel E plan resume prepared pm metrics w =
     (let L = start_workflow E plan resume prepared pm metrics w in
      if pn_tasks plan = []
      then Some (fail_workflow E ''No workflow tasks were produced for execution.'' L)
      else if workflow_cyclic (sd_graph (lp_scheduler L))
      then Some (fail_workflow E ''Cycle detected in execution plan dependencies.'' L)
      else let ov = (case get_pending_pause pm (pn_plan_id plan) of
                       Some p \<Rightarrow> pp_overrides p | None \<Rightarrow> []);
               L = L\<lparr>lp_pauses := snd (resolve_pause (pn_plan_id plan) pm)\<rparr>
           in case workflow_loop fuel E plan ov L of
                None \<Rightarrow> None
              | Some (LoopPaused, L) \<Rightarrow>
                  Some (\<lparr>wf_success = False, wf_state = lp_state L, wf_outputs = lp_outputs L\<rparr>, L)
              | Some (LoopDeadlocked, L) \<Rightarrow>
                  Some (fail_workflow E ''Scheduling failure: deadlocked or unresolved dependencies.'' L)
              | Some (LoopFinished, L) \<Rightarrow> Some (finish_workflow E L))"

section \<open>Lemmas\<close>

text \<open>What the loop relies on of the runtime: one result per dispatched task, in order.\<close>

definition answers_batch :: "'w workflow_env \<Rightarrow> bool" where
  "answers_batch E \<longleftrightarrow>
     (\<forall>w routed. map rr_task_id (fst (we_run_batch E w routed)) = map (\<lambda>(t, _). rt_task_id t) routed)"

definition plan_ids :: "execution_plan \<Rightarrow> string list" where
  "plan_ids plan = map pt_task_id (pn_tasks plan)"

lemma bare_result_simps [simp]:
  "rr_task_id (bare_result t st e m) = t" "rr_status (bare_result t st e m) = st"
  by (simp_all add: bare_result_def)

lemma workflow_task_simps [simp]:
  "rt_task_id (workflow_task plan ov p t) = pt_task_id t"
  "rt_dependencies (workflow_task plan ov p t) = pt_dependencies t"
  "rt_action_type (workflow_task plan ov p t) = pt_execution_action_type t"
  "rt_permit (workflow_task plan ov p t) = pt_permit t"
  by (simp_all add: workflow_task_def)

lemma task_named_SomeD: "task_named plan tid = Some u \<Longrightarrow> u \<in> set (pn_tasks plan) \<and> pt_task_id u = tid"
  by (auto simp: task_named_def dest: find_SomeD)

lemma distinct_map_inj: "distinct (map f xs) \<Longrightarrow> x \<in> set xs \<Longrightarrow> y \<in> set xs \<Longrightarrow> f x = f y \<Longrightarrow> x = y"
  by (auto simp: distinct_map inj_on_def)

lemma task_named_own:
  assumes "distinct (plan_ids plan)" "t \<in> set (pn_tasks plan)"
  shows "task_named plan (pt_task_id t) = Some t"
proof -
  have "task_named plan (pt_task_id t) \<noteq> None" using assms(2) by (auto simp: task_named_def find_None_iff)
  then obtain u where u: "task_named plan (pt_task_id t) = Some u" by blast
  then have "u = t"
    using task_named_SomeD [OF u] assms by (auto simp: plan_ids_def intro: distinct_map_inj)
  with u show ?thesis by simp
qed

text \<open>Routing splits a batch: every task either fails there or is handed on.\<close>

lemma route_batch_ids:
  "route_batch E plan ov p ts w = (failures, routed, w') \<Longrightarrow>
     set (map rr_task_id failures) \<union> set (map (\<lambda>(t, _). rt_task_id t) routed) = set (map pt_task_id ts) \<and>
     length failures + length routed = length ts \<and> (\<forall>r \<in> set failures. rr_status r = FAILED) \<and>
     (\<forall>(t, d) \<in> set routed. \<exists>u. t = workflow_task plan ov p u \<and>
        (\<exists>v \<in> set ts. pt_task_id u = pt_task_id v \<and> (u = v \<or> task_named plan (pt_task_id v) = Some u)))"
proof (induction ts arbitrary: failures routed w w')
  case (Cons t ts)
  let ?u = "case task_named plan (pt_task_id t) of Some u \<Rightarrow> u | None \<Rightarrow> t"
  obtain routing w1 where r: "route_task E plan ?u w = (routing, w1)" by fastforce
  obtain fs rs w2 where rest: "route_batch E plan ov p ts w1 = (fs, rs, w2)" by (metis prod_cases3)
  have u: "pt_task_id ?u = pt_task_id t" "?u = t \<or> task_named plan (pt_task_id t) = Some ?u"
    by (auto split: option.split dest: task_named_SomeD)
  note IH = Cons.IH [OF rest]
  show ?case
  proof (cases routing)
    case (Inl e)
    then have "failures = bare_result (pt_task_id ?u) FAILED (Some (''Routing failed: '' @ e)) [] # fs" "routed = rs"
      using Cons.prems r rest by (simp_all add: Let_def)
    with IH u show ?thesis by (intro conjI) (simp, simp, simp, fastforce)
  next
    case (Inr d)
    then have "failures = fs" "routed = (workflow_task plan ov p ?u, d) # rs"
      using Cons.prems r rest by (simp_all add: Let_def)
    with IH u show ?thesis by (intro conjI) (simp, simp, simp, fastforce)
  qed
qed simp

text \<open>What the fields the loop schedules by become.\<close>

definition handled :: "'w loop_state \<Rightarrow> string set" where
  "handled L = set (sd_completed (lp_scheduler L)) \<union> set (sd_failed (lp_scheduler L))"

lemma mark_simps [simp]:
  "sd_graph (mark_completed t s) = sd_graph s" "sd_graph (mark_failed t s) = sd_graph s"
  "set (sd_completed (mark_completed t s)) = insert t (set (sd_completed s))"
  "sd_failed (mark_completed t s) = sd_failed s"
  "set (sd_failed (mark_failed t s)) = insert t (set (sd_failed s))"
  "sd_completed (mark_failed t s) = sd_completed s"
  by (simp_all add: mark_completed_def mark_failed_def)

lemma fold_finish_internal:
  "lp_scheduler (fold finish_internal ts L) = fold mark_completed (map pt_task_id ts) (lp_scheduler L)"
  "lp_dispatched (fold finish_internal ts L) = lp_dispatched L"
  "lp_prepared (fold finish_internal ts L) = lp_prepared L"
  "lp_world (fold finish_internal ts L) = lp_world L"
  by (induction ts arbitrary: L) (simp_all add: finish_internal_def Let_def)

lemma fold_mark_completed:
  "set (sd_completed (fold mark_completed ids s)) = set ids \<union> set (sd_completed s)"
  "sd_failed (fold mark_completed ids s) = sd_failed s"
  "sd_graph (fold mark_completed ids s) = sd_graph s"
  by (induction ids arbitrary: s) auto

lemma take_result_scheduler:
  "lp_scheduler (take_result E plan r L) =
     (if rr_status r = COMPLETED then mark_completed (rr_task_id r) (lp_scheduler L)
      else if rr_status r = PAUSED then lp_scheduler L
      else mark_failed (rr_task_id r) (lp_scheduler L))"
  "lp_dispatched (take_result E plan r L) = lp_dispatched L"
  by (simp_all add: take_result_def Let_def)

lemma take_results_frame:
  "take_results E plan rs L = (paused, L') \<Longrightarrow>
     lp_dispatched L' = lp_dispatched L \<and> sd_graph (lp_scheduler L') = sd_graph (lp_scheduler L)"
proof (induction rs arbitrary: L)
  case (Cons r rs)
  show ?case
    using Cons.prems Cons.IH [of "take_result E plan r L"]
    by (cases "rr_status r = PAUSED") (auto simp: take_result_scheduler Let_def split: if_splits)
qed simp

lemma take_results_mono:
  "take_results E plan rs L = (paused, L') \<Longrightarrow>
     set (sd_completed (lp_scheduler L)) \<subseteq> set (sd_completed (lp_scheduler L')) \<and>
     set (sd_failed (lp_scheduler L)) \<subseteq> set (sd_failed (lp_scheduler L'))"
proof (induction rs arbitrary: L)
  case (Cons r rs)
  show ?case
    using Cons.prems Cons.IH [of "take_result E plan r L"]
    by (cases "rr_status r = PAUSED") (auto simp: take_result_scheduler Let_def split: if_splits)
qed simp

lemma take_results_completed:
  "take_results E plan rs L = (paused, L') \<Longrightarrow>
     set (sd_completed (lp_scheduler L')) \<subseteq>
       set (sd_completed (lp_scheduler L)) \<union> rr_task_id ` {r \<in> set rs. rr_status r = COMPLETED}"
proof (induction rs arbitrary: L)
  case (Cons r rs)
  show ?case
    using Cons.prems Cons.IH [of "take_result E plan r L"]
    by (cases "rr_status r = PAUSED") (fastforce simp: take_result_scheduler Let_def split: if_splits)+
qed simp

lemma take_results_failed:
  "take_results E plan rs L = (paused, L') \<Longrightarrow>
     set (sd_failed (lp_scheduler L')) \<subseteq>
       set (sd_failed (lp_scheduler L)) \<union> rr_task_id ` {r \<in> set rs. rr_status r \<noteq> COMPLETED}"
proof (induction rs arbitrary: L)
  case (Cons r rs)
  show ?case
    using Cons.prems Cons.IH [of "take_result E plan r L"]
    by (cases "rr_status r = PAUSED") (fastforce simp: take_result_scheduler Let_def split: if_splits)+
qed simp

lemma take_results_handled:
  "take_results E plan rs L = (False, L') \<Longrightarrow> handled L' = handled L \<union> rr_task_id ` set rs"
proof (induction rs arbitrary: L)
  case (Cons r rs)
  show ?case
    using Cons.prems Cons.IH [of "take_result E plan r L"]
    by (cases "rr_status r = PAUSED") (auto simp: take_result_scheduler handled_def Let_def split: if_splits)
qed (simp add: handled_def)

lemma parted:
  "C' \<subseteq> A \<union> I \<union> C \<Longrightarrow> F' \<subseteq> B \<union> F \<Longrightarrow> C \<inter> F = {} \<Longrightarrow> C \<subseteq> X \<Longrightarrow> F \<subseteq> X \<Longrightarrow> A \<inter> B = {} \<Longrightarrow>
   (A \<union> B) \<inter> (I \<union> X) = {} \<Longrightarrow> I \<inter> X = {} \<Longrightarrow> C' \<inter> F' = {}"
  by blast

lemma joined:
  "C' \<subseteq> A \<union> I \<union> C \<Longrightarrow> F' \<subseteq> B \<union> F \<Longrightarrow> C \<subseteq> X \<Longrightarrow> F \<subseteq> X \<Longrightarrow> C' \<union> F' \<subseteq> A \<union> B \<union> (I \<union> X)"
  by blast

text \<open>One batch of ready tasks of the plan.\<close>

lemma run_workflow_batch_spec:
  assumes run: "run_workflow_batch E plan ov batch L = (paused, L')"
    and answers: "answers_batch E" and ids: "distinct (plan_ids plan)"
    and batch: "set batch \<subseteq> set (pn_tasks plan)" "distinct (map pt_task_id batch)"
  obtains new where "lp_dispatched L' = lp_dispatched L @ new"
    "distinct (map (rt_task_id \<circ> fst) new)"
    "\<forall>(rt, before) \<in> set new. (\<exists>t \<in> set batch. \<exists>pc. rt = workflow_task plan ov pc t \<and>
       pt_kind t = KIND_EXECUTE_VIA_RUNTIME \<and> set (sd_completed (lp_scheduler L)) \<subseteq> set before) \<and>
       set before \<subseteq> set (sd_completed (lp_scheduler L'))"
    "sd_graph (lp_scheduler L') = sd_graph (lp_scheduler L)"
    "set (sd_completed (lp_scheduler L)) \<subseteq> set (sd_completed (lp_scheduler L'))"
    "set (sd_failed (lp_scheduler L)) \<subseteq> set (sd_failed (lp_scheduler L'))"
    "handled L' \<subseteq> handled L \<union> pt_task_id ` set batch"
    "\<not> paused \<longrightarrow> handled L' = handled L \<union> pt_task_id ` set batch"
    "set (sd_completed (lp_scheduler L)) \<inter> set (sd_failed (lp_scheduler L)) = {} \<longrightarrow>
     handled L \<inter> pt_task_id ` set batch = {} \<longrightarrow>
     set (sd_completed (lp_scheduler L')) \<inter> set (sd_failed (lp_scheduler L')) = {}"
proof -
  define internal where "internal = filter (\<lambda>t. pt_kind t \<noteq> KIND_EXECUTE_VIA_RUNTIME) batch"
  define external where "external = filter (\<lambda>t. pt_kind t = KIND_EXECUTE_VIA_RUNTIME) batch"
  define L1 where "L1 = fold finish_internal internal (L\<lparr>lp_metrics := record_batch (length batch) (lp_metrics L)\<rparr>)"
  have split: "set batch = set internal \<union> set external" "distinct (map pt_task_id external)"
    "pt_task_id ` set internal \<inter> pt_task_id ` set external = {}"
    using batch(2) by (auto simp: internal_def external_def distinct_map inj_on_def)
  have L1: "sd_graph (lp_scheduler L1) = sd_graph (lp_scheduler L)" "lp_dispatched L1 = lp_dispatched L"
    "set (sd_completed (lp_scheduler L1)) = set (sd_completed (lp_scheduler L)) \<union> pt_task_id ` set internal"
    "sd_failed (lp_scheduler L1) = sd_failed (lp_scheduler L)"
    by (auto simp: L1_def fold_finish_internal fold_mark_completed)
  note unfold = run [unfolded run_workflow_batch_def Let_def, folded internal_def external_def, folded L1_def]
  show thesis
  proof (cases "external = []")
    case True
    then have eq: "L' = L1" "\<not> paused" using unfold by simp_all
    show ?thesis
      by (rule that [of "[]"]) (use L1 split True in \<open>auto simp: eq handled_def\<close>)
  next
    case False
    obtain failures routed w where r: "route_batch E plan ov (lp_prepared L1) external (lp_world L1) = (failures, routed, w)"
      by (metis prod_cases3)
    obtain results w' where res: "(if routed = [] then ([], w) else we_run_batch E w routed) = (results, w')"
      by fastforce
    define new where "new = map (\<lambda>(t, _). (t, sd_completed (lp_scheduler L1))) routed"
    define L2 where "L2 = L1\<lparr>lp_world := w', lp_dispatched := lp_dispatched L1 @ new\<rparr>"
    have take: "take_results E plan (failures @ results) L2 = (paused, L')"
      using unfold False r res by (simp add: L2_def new_def)
    have L2: "lp_scheduler L2 = lp_scheduler L1" "lp_dispatched L2 = lp_dispatched L @ new" "handled L2 = handled L1"
      by (simp_all add: L2_def L1 handled_def)
    note rb = route_batch_ids [OF r]
    have rids: "map rr_task_id results = map (\<lambda>(t, _). rt_task_id t) routed"
      using res answers by (auto simp: answers_batch_def split: if_splits) (metis fst_conv)
    then have rset: "rr_task_id ` set results = (\<lambda>(t, _). rt_task_id t) ` set routed" by (metis set_map)
    have out: "rr_task_id ` set (failures @ results) = pt_task_id ` set external"
      unfolding set_append image_Un rset using rb by simp
    have "length (failures @ results) = length external" using rb rids by (metis length_append length_map)
    then have "card (set (map rr_task_id (failures @ results))) = length (map rr_task_id (failures @ results))"
      using out split(2) by (metis distinct_card length_map set_map)
    then have dist: "distinct (map rr_task_id (failures @ results))" by (rule card_distinct)
    have once: "r = r'" if "r \<in> set (failures @ results)" "r' \<in> set (failures @ results)" "rr_task_id r = rr_task_id r'" for r r'
      using distinct_map_inj [OF dist] that by blast
    note frame = take_results_frame [OF take, unfolded L2(1,2)]
    note mono = take_results_mono [OF take, unfolded L2(1) L1(3,4)]
    let ?C = "rr_task_id ` {r \<in> set (failures @ results). rr_status r = COMPLETED}"
    let ?F = "rr_task_id ` {r \<in> set (failures @ results). rr_status r \<noteq> COMPLETED}"
    have C: "set (sd_completed (lp_scheduler L')) \<subseteq>
        set (sd_completed (lp_scheduler L)) \<union> pt_task_id ` set internal \<union> ?C"
      using take_results_completed [OF take] unfolding L2(1) L1(3) .
    have F: "set (sd_failed (lp_scheduler L')) \<subseteq> set (sd_failed (lp_scheduler L)) \<union> ?F"
      using take_results_failed [OF take] unfolding L2(1) L1(4) .
    have within: "?C \<subseteq> pt_task_id ` set external" "?F \<subseteq> pt_task_id ` set external"
      unfolding out [symmetric] by blast+
    show ?thesis
    proof (rule that [of new])
      have "map (rt_task_id \<circ> fst) new = map (\<lambda>(t, _). rt_task_id t) routed" by (auto simp: new_def)
      then show "distinct (map (rt_task_id \<circ> fst) new)" using dist rids by simp
    next
      show "\<forall>(rt, before) \<in> set new. (\<exists>t \<in> set batch. \<exists>pc. rt = workflow_task plan ov pc t \<and>
          pt_kind t = KIND_EXECUTE_VIA_RUNTIME \<and> set (sd_completed (lp_scheduler L)) \<subseteq> set before) \<and>
          set before \<subseteq> set (sd_completed (lp_scheduler L'))"
      proof clarify
        fix rt before assume "(rt, before) \<in> set new"
        then obtain d where d: "(rt, d) \<in> set routed" "before = sd_completed (lp_scheduler L1)"
          by (auto simp: new_def)
        then obtain u v where uv: "rt = workflow_task plan ov (lp_prepared L1) u" "v \<in> set external"
            "u = v \<or> task_named plan (pt_task_id v) = Some u"
          using rb by fastforce
        then have "u = v" using task_named_own [OF ids, of v] batch(1) split(1) by auto
        then have "\<exists>t \<in> set batch. \<exists>pc. rt = workflow_task plan ov pc t \<and>
            pt_kind t = KIND_EXECUTE_VIA_RUNTIME \<and> set (sd_completed (lp_scheduler L)) \<subseteq> set before"
          using uv d L1 by (auto simp: external_def)
        moreover have "set before \<subseteq> set (sd_completed (lp_scheduler L'))" using mono d(2) L1(3) by simp
        ultimately show "(\<exists>t \<in> set batch. \<exists>pc. rt = workflow_task plan ov pc t \<and>
            pt_kind t = KIND_EXECUTE_VIA_RUNTIME \<and> set (sd_completed (lp_scheduler L)) \<subseteq> set before) \<and>
            set before \<subseteq> set (sd_completed (lp_scheduler L'))" ..
      qed
    next
      show "set (sd_completed (lp_scheduler L)) \<inter> set (sd_failed (lp_scheduler L)) = {} \<longrightarrow>
        handled L \<inter> pt_task_id ` set batch = {} \<longrightarrow>
        set (sd_completed (lp_scheduler L')) \<inter> set (sd_failed (lp_scheduler L')) = {}"
      proof (intro impI)
      assume dis: "set (sd_completed (lp_scheduler L)) \<inter> set (sd_failed (lp_scheduler L)) = {}"
        and fresh: "handled L \<inter> pt_task_id ` set batch = {}"
      have apart: "?C \<inter> ?F = {}" using once by blast
      have new_ids: "(set (sd_completed (lp_scheduler L)) \<union> set (sd_failed (lp_scheduler L))) \<inter>
          (pt_task_id ` set internal \<union> pt_task_id ` set external) = {}"
        using fresh unfolding handled_def split(1) image_Un .
      from C F apart within dis new_ids split(3)
      show "set (sd_completed (lp_scheduler L')) \<inter> set (sd_failed (lp_scheduler L')) = {}"
        by (rule parted)
      qed
    next
      show "lp_dispatched L' = lp_dispatched L @ new" "sd_graph (lp_scheduler L') = sd_graph (lp_scheduler L)"
        using frame L1(1) by simp_all
      show "set (sd_completed (lp_scheduler L)) \<subseteq> set (sd_completed (lp_scheduler L'))"
        "set (sd_failed (lp_scheduler L)) \<subseteq> set (sd_failed (lp_scheduler L'))"
        using mono by simp_all
      show "handled L' \<subseteq> handled L \<union> pt_task_id ` set batch"
        unfolding handled_def split(1) image_Un by (rule joined [OF C F within])
      show "\<not> paused \<longrightarrow> handled L' = handled L \<union> pt_task_id ` set batch"
      proof
      have "handled L1 = handled L \<union> pt_task_id ` set internal" using L1 by (auto simp: handled_def)
      moreover assume "\<not> paused"
      then have "handled L' = handled L1 \<union> pt_task_id ` set external"
        using take_results_handled [of E plan "failures @ results" L2 L'] take out L2(3) by simp
      ultimately show "handled L' = handled L \<union> pt_task_id ` set batch"
        unfolding split(1) image_Un by (simp add: Un_assoc)
      qed
    qed
  qed
qed

section \<open>Invariants of the loop\<close>

lemma map_of_dependency_fold:
  "map_of (fold (\<lambda>(t, ds) d. AList.update t ds d) xs d) k =
     (case map_of (rev xs) k of Some ds \<Rightarrow> Some ds | None \<Rightarrow> map_of d k)"
  by (induction xs arbitrary: d) (auto simp: map_of_append split: option.splits)

lemma dependency_dict_plan:
  assumes "distinct (plan_ids plan)" "t \<in> set (pn_tasks plan)"
  shows "map_of (dependency_dict (plan_graph (pn_tasks plan))) (pt_task_id t) = Some (pt_dependencies t)"
proof -
  let ?xs = "map (\<lambda>t. (pt_task_id t, pt_dependencies t)) (pn_tasks plan)"
  have "distinct (map fst (rev ?xs))"
    using assms(1) by (simp add: plan_ids_def comp_def flip: rev_map)
  moreover have "(pt_task_id t, pt_dependencies t) \<in> set (rev ?xs)" using assms(2) by auto
  ultimately have "map_of (rev ?xs) (pt_task_id t) = Some (pt_dependencies t)" by (rule map_of_is_SomeI)
  then show ?thesis
    by (simp add: dependency_dict_def plan_graph_def map_of_dependency_fold)
qed

lemma plan_task_deps:
  assumes "distinct (plan_ids plan)" "t \<in> set (pn_tasks plan)"
  shows "dependencies_of (plan_graph (pn_tasks plan)) t = pt_dependencies t"
  using dependency_dict_plan [OF assms] by (simp add: dependencies_of_def)

definition dispatched_ids :: "'w loop_state \<Rightarrow> string list" where
  "dispatched_ids L = map (rt_task_id \<circ> fst) (lp_dispatched L)"

text \<open>Every task was handed over after the ones it depends on had completed, and only once.\<close>

definition dispatch_ok :: "execution_plan \<Rightarrow> overrides \<Rightarrow> string set \<Rightarrow> 'w loop_state \<Rightarrow> bool" where
  "dispatch_ok plan ov done_before L \<longleftrightarrow>
     (\<forall>(rt, before) \<in> set (lp_dispatched L).
        (\<exists>t \<in> set (pn_tasks plan). \<exists>pc. rt = workflow_task plan ov pc t \<and> pt_kind t = KIND_EXECUTE_VIA_RUNTIME \<and>
           set (pt_dependencies t) \<subseteq> set before) \<and>
        set before \<subseteq> set (sd_completed (lp_scheduler L))) \<and>
     distinct (dispatched_ids L) \<and> set (dispatched_ids L) \<inter> done_before = {}"

definition loop_ok :: "execution_plan \<Rightarrow> string set \<Rightarrow> 'w loop_state \<Rightarrow> bool" where
  "loop_ok plan done_before L \<longleftrightarrow>
     sd_graph (lp_scheduler L) = plan_graph (pn_tasks plan) \<and>
     set (sd_completed (lp_scheduler L)) \<inter> set (sd_failed (lp_scheduler L)) = {} \<and>
     done_before \<subseteq> handled L \<and> handled L \<subseteq> set (plan_ids plan)"

lemma metrics_keep:
  "loop_ok plan d (L\<lparr>lp_metrics := m\<rparr>) = loop_ok plan d L"
  "dispatch_ok plan ov d (L\<lparr>lp_metrics := m\<rparr>) = dispatch_ok plan ov d L"
  by (simp_all add: loop_ok_def dispatch_ok_def handled_def dispatched_ids_def)

lemma next_batch_sound:
  assumes "loop_ok plan d L" "distinct (plan_ids plan)"
  shows "set (next_batch (lp_scheduler L)) \<subseteq> set (pn_tasks plan)"
    "distinct (map pt_task_id (next_batch (lp_scheduler L)))"
    "handled L \<inter> pt_task_id ` set (next_batch (lp_scheduler L)) = {}"
    "t \<in> set (next_batch (lp_scheduler L)) \<Longrightarrow> set (pt_dependencies t) \<subseteq> set (sd_completed (lp_scheduler L))"
proof -
  have g: "sd_graph (lp_scheduler L) = plan_graph (pn_tasks plan)" using assms by (simp add: loop_ok_def)
  show sub: "set (next_batch (lp_scheduler L)) \<subseteq> set (pn_tasks plan)"
    by (auto simp: next_batch_def ready_tasks_def g plan_graph_def)
  show "distinct (map pt_task_id (next_batch (lp_scheduler L)))"
    using assms(2) by (simp add: next_batch_def ready_tasks_def g plan_graph_def plan_ids_def distinct_map_filter)
  show "handled L \<inter> pt_task_id ` set (next_batch (lp_scheduler L)) = {}"
    by (auto simp: next_batch_def ready_tasks_def handled_def)
  assume t: "t \<in> set (next_batch (lp_scheduler L))"
  then have "set (dependencies_of (plan_graph (pn_tasks plan)) t) \<subseteq> set (sd_completed (lp_scheduler L))"
    by (auto simp: next_batch_def ready_tasks_def g list_all_iff)
  then show "set (pt_dependencies t) \<subseteq> set (sd_completed (lp_scheduler L))"
    using plan_task_deps [OF assms(2) subsetD [OF sub t]] by simp
qed

lemma loop_step:
  assumes ok: "loop_ok plan d L" "dispatch_ok plan ov d L" "set (dispatched_ids L) \<subseteq> handled L"
    and answers: "answers_batch E" and ids: "distinct (plan_ids plan)"
    and run: "run_workflow_batch E plan ov (next_batch (lp_scheduler L)) L = (paused, L')"
  shows "loop_ok plan d L'" "dispatch_ok plan ov d L'"
    "\<not> paused \<Longrightarrow> set (dispatched_ids L') \<subseteq> handled L'"
    "\<not> paused \<Longrightarrow> handled L' = handled L \<union> pt_task_id ` set (next_batch (lp_scheduler L))"
proof -
  let ?batch = "next_batch (lp_scheduler L)"
  note nb = next_batch_sound [OF ok(1) ids]
  obtain new where new: "lp_dispatched L' = lp_dispatched L @ new" "distinct (map (rt_task_id \<circ> fst) new)"
    and origin: "\<forall>(rt, before) \<in> set new. (\<exists>t \<in> set ?batch. \<exists>pc. rt = workflow_task plan ov pc t \<and>
       pt_kind t = KIND_EXECUTE_VIA_RUNTIME \<and> set (sd_completed (lp_scheduler L)) \<subseteq> set before) \<and>
       set before \<subseteq> set (sd_completed (lp_scheduler L'))"
    and graph: "sd_graph (lp_scheduler L') = sd_graph (lp_scheduler L)"
    and mono: "set (sd_completed (lp_scheduler L)) \<subseteq> set (sd_completed (lp_scheduler L'))"
      "set (sd_failed (lp_scheduler L)) \<subseteq> set (sd_failed (lp_scheduler L'))"
    and handled: "handled L' \<subseteq> handled L \<union> pt_task_id ` set ?batch"
      "\<not> paused \<longrightarrow> handled L' = handled L \<union> pt_task_id ` set ?batch"
    and apart: "set (sd_completed (lp_scheduler L)) \<inter> set (sd_failed (lp_scheduler L)) = {} \<longrightarrow>
      handled L \<inter> pt_task_id ` set ?batch = {} \<longrightarrow>
      set (sd_completed (lp_scheduler L')) \<inter> set (sd_failed (lp_scheduler L')) = {}"
    by (rule run_workflow_batch_spec [OF run answers ids nb(1,2)])
  have new_ids: "rt_task_id (fst x) \<in> pt_task_id ` set ?batch" if "x \<in> set new" for x
    using origin that by fastforce
  have ids': "dispatched_ids L' = dispatched_ids L @ map (rt_task_id \<circ> fst) new"
    by (simp add: dispatched_ids_def new)
  have "handled L \<subseteq> handled L'" using mono by (auto simp: handled_def)
  moreover have "pt_task_id ` set ?batch \<subseteq> set (plan_ids plan)" using nb(1) by (auto simp: plan_ids_def)
  moreover have "set (sd_completed (lp_scheduler L')) \<inter> set (sd_failed (lp_scheduler L')) = {}"
    using apart nb(3) ok(1) by (simp add: loop_ok_def)
  ultimately show "loop_ok plan d L'"
    using ok(1) graph subset_trans [OF handled(1), of "set (plan_ids plan)"] by (auto simp: loop_ok_def)
  show "dispatch_ok plan ov d L'"
    unfolding dispatch_ok_def
  proof (intro conjI)
    show "distinct (dispatched_ids L')"
      using ok(2,3) nb(3) new(2) new_ids unfolding ids' dispatch_ok_def by fastforce
    have "d \<subseteq> handled L" using ok(1) by (simp add: loop_ok_def)
    then show "set (dispatched_ids L') \<inter> d = {}"
      using ok(2) nb(3) new_ids unfolding ids' dispatch_ok_def by fastforce
    show "\<forall>(rt, before) \<in> set (lp_dispatched L').
        (\<exists>t \<in> set (pn_tasks plan). \<exists>pc. rt = workflow_task plan ov pc t \<and> pt_kind t = KIND_EXECUTE_VIA_RUNTIME \<and>
           set (pt_dependencies t) \<subseteq> set before) \<and>
        set before \<subseteq> set (sd_completed (lp_scheduler L'))"
    proof clarify
      fix rt before assume "(rt, before) \<in> set (lp_dispatched L')"
      then consider "(rt, before) \<in> set (lp_dispatched L)" | "(rt, before) \<in> set new" using new by auto
      then show "(\<exists>t \<in> set (pn_tasks plan). \<exists>pc. rt = workflow_task plan ov pc t \<and> pt_kind t = KIND_EXECUTE_VIA_RUNTIME \<and>
          set (pt_dependencies t) \<subseteq> set before) \<and> set before \<subseteq> set (sd_completed (lp_scheduler L'))"
      proof cases
        case 1
        then show ?thesis using ok(2) mono(1) unfolding dispatch_ok_def by blast
      next
        case 2
        then obtain t pc where "t \<in> set ?batch" "rt = workflow_task plan ov pc t" "pt_kind t = KIND_EXECUTE_VIA_RUNTIME"
          "set (sd_completed (lp_scheduler L)) \<subseteq> set before"
          using origin by blast
        then show ?thesis using nb(1) nb(4) [of t] origin 2 by blast
      qed
    qed
  qed
  assume "\<not> paused"
  then show h: "handled L' = handled L \<union> pt_task_id ` set ?batch" using handled(2) by simp
  show "set (dispatched_ids L') \<subseteq> handled L'"
    unfolding h ids' using ok(3) new_ids by auto
qed

text \<open>The loop keeps the invariants to its end, and enough fuel brings it there.\<close>

lemma workflow_loop_ok:
  assumes "answers_batch E" "distinct (plan_ids plan)" "workflow_loop n E plan ov L = Some (out, L')"
    and "loop_ok plan d L" "dispatch_ok plan ov d L" "set (dispatched_ids L) \<subseteq> handled L"
  shows "loop_ok plan d L' \<and> dispatch_ok plan ov d L' \<and>
    (out = LoopFinished \<longrightarrow> is_finished (lp_scheduler L')) \<and>
    (out = LoopDeadlocked \<longrightarrow> \<not> is_finished (lp_scheduler L') \<and> next_batch (lp_scheduler L') = [])"
  using assms(3-)
proof (induction n arbitrary: L)
  case (Suc n)
  let ?batch = "next_batch (lp_scheduler L)"
  show ?case
  proof (cases "is_finished (lp_scheduler L) \<or> ?batch = []")
    case True
    then show ?thesis
      using Suc.prems by (auto simp: Let_def metrics_keep split: if_splits)
  next
    case False
    obtain paused L1 where run: "run_workflow_batch E plan ov ?batch L = (paused, L1)" by fastforce
    note step = loop_step [OF Suc.prems(2-4) assms(1,2) run]
    show ?thesis
    proof (cases paused)
      case True
      then show ?thesis using Suc.prems(1) False run step by (simp add: Let_def)
    next
      case False': False
      then have "workflow_loop n E plan ov L1 = Some (out, L')"
        using Suc.prems(1) False run by (simp add: Let_def)
      from Suc.IH [OF this step(1,2) step(3) [OF False']] show ?thesis .
    qed
  qed
qed simp

lemma workflow_loop_ends:
  assumes "answers_batch E" "distinct (plan_ids plan)"
    and "loop_ok plan d L" "dispatch_ok plan ov d L" "set (dispatched_ids L) \<subseteq> handled L"
    and "card (set (plan_ids plan) - handled L) < n"
  shows "workflow_loop n E plan ov L \<noteq> None"
  using assms(3-)
proof (induction n arbitrary: L)
  case (Suc n)
  let ?batch = "next_batch (lp_scheduler L)"
  obtain paused L1 where run: "run_workflow_batch E plan ov ?batch L = (paused, L1)" by fastforce
  note step = loop_step [OF Suc.prems(1-3) assms(1,2) run]
  show ?case
  proof (cases "is_finished (lp_scheduler L) \<or> ?batch = [] \<or> paused")
    case True
    then show ?thesis using run by (auto simp: Let_def)
  next
    case False
    then have h: "handled L1 = handled L \<union> pt_task_id ` set ?batch" using step(4) by simp
    note nb = next_batch_sound [OF Suc.prems(1) assms(2)]
    have "hd ?batch \<in> set ?batch" using False by simp
    then have "set (plan_ids plan) - handled L1 \<subset> set (plan_ids plan) - handled L"
      unfolding h using nb(1,3) by (fastforce simp: plan_ids_def)
    then have "card (set (plan_ids plan) - handled L1) < card (set (plan_ids plan) - handled L)"
      by (intro psubset_card_mono) simp_all
    then have "card (set (plan_ids plan) - handled L1) < n" using Suc.prems(4) by simp
    then have "workflow_loop n E plan ov L1 \<noteq> None" using Suc.IH step(1-3) False by blast
    then show ?thesis using False run by (simp add: Let_def)
  qed
qed simp

section \<open>How a run ends\<close>

lemma neighbours_plan:
  assumes "distinct (plan_ids plan)" "t \<in> set (pn_tasks plan)"
  shows "neighbours (dependency_dict (plan_graph (pn_tasks plan))) (pt_task_id t) = pt_dependencies t"
  using dependency_dict_plan [OF assms] by (simp add: neighbours_def)

lemma finite_waits_for: "finite (waits_for g)"
proof -
  have "waits_for g \<subseteq> graph_ids (search_graph (dependency_dict g)) \<times> graph_ids (search_graph (dependency_dict g))"
    using deps_of_in deps_of_outside by (fastforce simp: waits_for_def neighbours_deps)
  then show ?thesis by (rule finite_subset) simp
qed

lemma blocked_closed:
  assumes "distinct (plan_ids plan)" "t \<in> set (pn_tasks plan)" "d \<in> set (pt_dependencies t)"
    and "d \<in> set (plan_ids plan)" "d \<in> set failed \<or> d \<in> set (blocked_ids (plan_graph (pn_tasks plan)) failed)"
    and "pt_task_id t \<notin> set failed"
  shows "pt_task_id t \<in> set (blocked_ids (plan_graph (pn_tasks plan)) failed)"
proof -
  let ?g = "plan_graph (pn_tasks plan)"
  have "(d, pt_task_id t) \<in> depends_chain ?g"
    using assms(2-4) plan_task_deps [OF assms(1,2)]
    by (auto simp: depends_chain_def children_iff plan_ids_def plan_graph_def)
  then show ?thesis
    using assms(5,6) by (auto simp: set_blocked_ids intro: trancl_into_trancl)
qed

lemma blocked_task_ids:
  "set (map pt_task_id (blocked_tasks g failed)) = pt_task_id ` set (wg_tasks g) \<inter> set (blocked_ids g failed)"
  by (auto simp: blocked_tasks_def)

text \<open>A task is accounted for when it completed, failed, or waits for one that failed.\<close>

definition accounted :: "execution_plan \<Rightarrow> 'w loop_state \<Rightarrow> string set" where
  "accounted plan L =
     handled L \<union> (set (plan_ids plan) \<inter> set (blocked_ids (plan_graph (pn_tasks plan)) (sd_failed (lp_scheduler L))))"

lemma is_finished_iff:
  assumes "loop_ok plan d L" "distinct (plan_ids plan)"
  shows "is_finished (lp_scheduler L) \<longleftrightarrow> accounted plan L = set (plan_ids plan)"
proof -
  have g: "sd_graph (lp_scheduler L) = plan_graph (pn_tasks plan)" using assms by (simp add: loop_ok_def)
  have a: "accounted plan L \<subseteq> set (plan_ids plan)" using assms(1) by (auto simp: accounted_def loop_ok_def)
  have "is_finished (lp_scheduler L) \<longleftrightarrow> length (plan_ids plan) \<le> card (accounted plan L)"
    unfolding is_finished_def blocked_task_ids g
    by (simp add: accounted_def handled_def plan_graph_def plan_ids_def)
  also have "\<dots> \<longleftrightarrow> card (set (plan_ids plan)) \<le> card (accounted plan L)"
    using assms(2) by (simp add: distinct_card)
  also have "\<dots> \<longleftrightarrow> accounted plan L = set (plan_ids plan)"
    using a by (metis card_seteq finite_set order_refl)
  finally show ?thesis .
qed

lemma some_task_ready:
  assumes ok: "loop_ok plan d L" and ids: "distinct (plan_ids plan)"
    and known: "\<forall>t \<in> set (pn_tasks plan). set (pt_dependencies t) \<subseteq> set (plan_ids plan)"
    and acyclic: "\<not> workflow_cyclic (plan_graph (pn_tasks plan))"
    and unfinished: "\<not> is_finished (lp_scheduler L)"
  shows "next_batch (lp_scheduler L) \<noteq> []"
proof -
  let ?g = "plan_graph (pn_tasks plan)"
  have g: "sd_graph (lp_scheduler L) = ?g" using ok by (simp add: loop_ok_def)
  have "accounted plan L \<subseteq> set (plan_ids plan)" using ok by (auto simp: accounted_def loop_ok_def)
  then obtain x where x: "x \<in> set (plan_ids plan) - accounted plan L"
    using unfinished unfolding is_finished_iff [OF ok ids] by blast
  have "wf ((waits_for ?g)\<inverse>)"
    using acyclic finite_waits_for by (intro finite_acyclic_wf_converse) (simp_all add: workflow_cyclic_iff)
  then obtain y where y: "y \<in> set (plan_ids plan) - accounted plan L"
    and least: "\<And>z. (z, y) \<in> (waits_for ?g)\<inverse> \<Longrightarrow> z \<notin> set (plan_ids plan) - accounted plan L"
    using x by (rule wfE_min) blast
  from y obtain t where t: "t \<in> set (pn_tasks plan)" "pt_task_id t = y" by (auto simp: plan_ids_def)
  have completed: "e \<in> set (sd_completed (lp_scheduler L))" if e: "e \<in> set (pt_dependencies t)" for e
  proof -
    have "e \<in> set (plan_ids plan)" using known t(1) e by blast
    moreover have "(y, e) \<in> waits_for ?g"
      using neighbours_plan [OF ids t(1)] e t(2) by (simp add: waits_for_def)
    ultimately have "e \<in> accounted plan L" using least by blast
    moreover have "\<not> (e \<in> set (sd_failed (lp_scheduler L)) \<or> e \<in> set (blocked_ids ?g (sd_failed (lp_scheduler L))))"
      using blocked_closed [OF ids t(1) e] known t e y by (auto simp: accounted_def handled_def)
    ultimately show ?thesis by (auto simp: accounted_def handled_def)
  qed
  moreover have "\<not> list_ex (\<lambda>e. e \<in> set (sd_failed (lp_scheduler L))) (pt_dependencies t)"
    using completed ok by (auto simp: list_ex_iff loop_ok_def)
  ultimately have "t \<in> set (next_batch (lp_scheduler L))"
    using t y plan_task_deps [OF ids t(1)]
    by (auto simp: next_batch_def ready_tasks_def g plan_graph_def list_all_iff accounted_def handled_def)
  then show ?thesis by auto
qed

lemma start_workflow_ok:
  fixes resume :: "workflow_state option"
  defines "d \<equiv> (case resume of Some s \<Rightarrow> set (ws_completed_ids s) \<union> set (ws_failed_ids s) | None \<Rightarrow> {})"
  assumes "d \<subseteq> set (plan_ids plan)"
    and "case resume of Some s \<Rightarrow> set (ws_completed_ids s) \<inter> set (ws_failed_ids s) = {} | None \<Rightarrow> True"
  shows "loop_ok plan d (start_workflow E plan resume prepared pm metrics w)"
    "dispatch_ok plan ov d (start_workflow E plan resume prepared pm metrics w)"
    "dispatched_ids (start_workflow E plan resume prepared pm metrics w) = []"
    "handled (start_workflow E plan resume prepared pm metrics w) = d"
  using assms
  by (auto simp: start_workflow_def loop_ok_def dispatch_ok_def dispatched_ids_def handled_def d_def
      new_workflow_state_def split: option.splits)

text \<open>When the loop has finished, every task is accounted for.\<close>

lemma finished_run:
  assumes "loop_ok plan d L" "distinct (plan_ids plan)" "is_finished (lp_scheduler L)"
  shows "\<forall>tid \<in> set (plan_ids plan). tid \<in> set (sd_completed (lp_scheduler L)) \<or> tid \<in> set (sd_failed (lp_scheduler L)) \<or>
      (\<exists>f \<in> set (sd_failed (lp_scheduler L)). (f, tid) \<in> (depends_chain (plan_graph (pn_tasks plan)))\<^sup>+)"
    "wf_success (fst (finish_workflow E L)) \<longleftrightarrow> set (plan_ids plan) \<subseteq> set (sd_completed (lp_scheduler L))"
proof -
  let ?g = "plan_graph (pn_tasks plan)" and ?c = "set (sd_completed (lp_scheduler L))" and ?f = "sd_failed (lp_scheduler L)"
  have all: "accounted plan L = set (plan_ids plan)" using is_finished_iff [OF assms(1,2)] assms(3) by simp
  then show "\<forall>tid \<in> set (plan_ids plan). tid \<in> ?c \<or> tid \<in> set ?f \<or> (\<exists>f \<in> set ?f. (f, tid) \<in> (depends_chain ?g)\<^sup>+)"
    by (auto simp: accounted_def handled_def set_blocked_ids)
  have apart: "?c \<inter> set ?f = {}" and f: "set ?f \<subseteq> set (plan_ids plan)" and g: "sd_graph (lp_scheduler L) = ?g"
    using assms(1) by (auto simp: loop_ok_def handled_def)
  have "wf_success (fst (finish_workflow E L)) \<longleftrightarrow> ?f = [] \<and> blocked_tasks ?g ?f = []"
    by (auto simp: finish_workflow_def Let_def g)
  moreover have "?f = [] \<and> blocked_tasks ?g ?f = []" if "set (plan_ids plan) \<subseteq> ?c"
  proof -
    have "?f = []" using that f apart by (metis inf.absorb_iff2 inf.orderE set_empty subset_trans Int_commute)
    then show ?thesis by (simp add: blocked_tasks_def set_blocked_ids)
  qed
  moreover have "set (plan_ids plan) \<subseteq> ?c" if "?f = []"
    using all that by (auto simp: accounted_def handled_def set_blocked_ids)
  ultimately show "wf_success (fst (finish_workflow E L)) \<longleftrightarrow> set (plan_ids plan) \<subseteq> ?c" by blast
qed

text \<open>A run that pauses says so in its state.\<close>

lemma take_results_paused: "take_results E plan rs L = (True, L') \<Longrightarrow> ws_status (lp_state L') = EXEC_PAUSED"
proof (induction rs arbitrary: L)
  case (Cons r rs)
  then show ?case by (cases "rr_status r = PAUSED") (auto simp: Let_def take_result_def split: if_splits)
qed simp

lemma run_workflow_batch_paused:
  "run_workflow_batch E plan ov batch L = (True, L') \<Longrightarrow> ws_status (lp_state L') = EXEC_PAUSED"
  by (auto simp: run_workflow_batch_def Let_def split: if_splits prod.splits dest: take_results_paused)

lemma workflow_loop_paused:
  "workflow_loop n E plan ov L = Some (LoopPaused, L') \<Longrightarrow> ws_status (lp_state L') = EXEC_PAUSED"
proof (induction n arbitrary: L)
  case (Suc n)
  then show ?case by (auto simp: Let_def split: if_splits prod.splits dest: run_workflow_batch_paused)
qed simp

lemma finish_workflow_keeps:
  "lp_scheduler (snd (finish_workflow E L)) = lp_scheduler L"
  "lp_dispatched (snd (finish_workflow E L)) = lp_dispatched L"
  "lp_scheduler (snd (fail_workflow E err L)) = lp_scheduler L"
  "lp_dispatched (snd (fail_workflow E err L)) = lp_dispatched L"
  by (simp_all add: finish_workflow_def fail_workflow_def Let_def)

text \<open>A resumed state names tasks of the plan, none both as completed and as failed.\<close>

definition resumable :: "execution_plan \<Rightarrow> workflow_state option \<Rightarrow> bool" where
  "resumable plan resume =
     (case resume of
        None \<Rightarrow> True
      | Some s \<Rightarrow> set (ws_completed_ids s) \<union> set (ws_failed_ids s) \<subseteq> set (plan_ids plan) \<and>
                   set (ws_completed_ids s) \<inter> set (ws_failed_ids s) = {})"

definition resumed_ids :: "workflow_state option \<Rightarrow> string set" where
  "resumed_ids resume =
     (case resume of Some s \<Rightarrow> set (ws_completed_ids s) \<union> set (ws_failed_ids s) | None \<Rightarrow> {})"

lemma start_workflow_resumable:
  assumes "resumable plan resume"
  shows "loop_ok plan (resumed_ids resume) (start_workflow E plan resume prepared pm metrics w)"
    "dispatch_ok plan ov (resumed_ids resume) (start_workflow E plan resume prepared pm metrics w)"
    "dispatched_ids (start_workflow E plan resume prepared pm metrics w) = []"
    "handled (start_workflow E plan resume prepared pm metrics w) = resumed_ids resume"
proof -
  have "resumed_ids resume \<subseteq> set (plan_ids plan)"
    "case resume of Some s \<Rightarrow> set (ws_completed_ids s) \<inter> set (ws_failed_ids s) = {} | None \<Rightarrow> True"
    using assms by (auto simp: resumable_def resumed_ids_def split: option.splits)
  note start = start_workflow_ok [OF this [unfolded resumed_ids_def], folded resumed_ids_def]
  show "loop_ok plan (resumed_ids resume) (start_workflow E plan resume prepared pm metrics w)"
    "dispatch_ok plan ov (resumed_ids resume) (start_workflow E plan resume prepared pm metrics w)"
    "dispatched_ids (start_workflow E plan resume prepared pm metrics w) = []"
    "handled (start_workflow E plan resume prepared pm metrics w) = resumed_ids resume"
    by (rule start)+
qed

lemma pauses_keep [simp]:
  "loop_ok plan d (L\<lparr>lp_pauses := p\<rparr>) = loop_ok plan d L"
  "dispatch_ok plan ov d (L\<lparr>lp_pauses := p\<rparr>) = dispatch_ok plan ov d L"
  "dispatched_ids (L\<lparr>lp_pauses := p\<rparr>) = dispatched_ids L" "handled (L\<lparr>lp_pauses := p\<rparr>) = handled L"
  by (simp_all add: loop_ok_def dispatch_ok_def dispatched_ids_def handled_def)

lemma scheduler_keep:
  assumes "lp_scheduler L = lp_scheduler L'" "lp_dispatched L = lp_dispatched L'"
  shows "loop_ok plan d L = loop_ok plan d L'" "dispatch_ok plan ov d L = dispatch_ok plan ov d L'"
  using assms by (simp_all add: loop_ok_def dispatch_ok_def dispatched_ids_def handled_def)

text \<open>The loop of a run and what becomes of its end.\<close>

lemma run_workflow_cases:
  assumes "run_workflow fuel E plan resume prepared pm metrics w = Some (res, L)"
  obtains (refused) err where "(res, L) = fail_workflow E err (start_workflow E plan resume prepared pm metrics w)"
      "pn_tasks plan = [] \<or> workflow_cyclic (plan_graph (pn_tasks plan))"
  | (ran) ov out L' where "workflow_loop fuel E plan ov ((start_workflow E plan resume prepared pm metrics w)
        \<lparr>lp_pauses := snd (resolve_pause (pn_plan_id plan) pm)\<rparr>) = Some (out, L')"
      "lp_scheduler L = lp_scheduler L'" "lp_dispatched L = lp_dispatched L'"
      "out = LoopPaused \<longrightarrow> wf_state res = lp_state L'"
      "out = LoopFinished \<longrightarrow> (res, L) = finish_workflow E L'"
proof -
  let ?S = "start_workflow E plan resume prepared pm metrics w"
  have g: "sd_graph (lp_scheduler ?S) = plan_graph (pn_tasks plan)" by (simp add: start_workflow_def Let_def)
  show thesis
  proof (cases "pn_tasks plan = [] \<or> workflow_cyclic (plan_graph (pn_tasks plan))")
    case True
    then show ?thesis
      using assms refused [OF sym True] by (auto simp: run_workflow_def Let_def g split: if_splits)
  next
    case False
    define ov where "ov = (case get_pending_pause pm (pn_plan_id plan) of Some p \<Rightarrow> pp_overrides p | None \<Rightarrow> [])"
    define L0 where "L0 = ?S\<lparr>lp_pauses := snd (resolve_pause (pn_plan_id plan) pm)\<rparr>"
    have "run_workflow fuel E plan resume prepared pm metrics w =
        (case workflow_loop fuel E plan ov L0 of
                None \<Rightarrow> None
              | Some (LoopPaused, L) \<Rightarrow>
                  Some (\<lparr>wf_success = False, wf_state = lp_state L, wf_outputs = lp_outputs L\<rparr>, L)
              | Some (LoopDeadlocked, L) \<Rightarrow>
                  Some (fail_workflow E ''Scheduling failure: deadlocked or unresolved dependencies.'' L)
              | Some (LoopFinished, L) \<Rightarrow> Some (finish_workflow E L))"
      using False by (simp add: run_workflow_def Let_def g ov_def L0_def)
    with assms obtain out L' where l: "workflow_loop fuel E plan ov L0 = Some (out, L')"
      "(case out of LoopPaused \<Rightarrow> (\<lparr>wf_success = False, wf_state = lp_state L', wf_outputs = lp_outputs L'\<rparr>, L')
        | LoopDeadlocked \<Rightarrow> fail_workflow E ''Scheduling failure: deadlocked or unresolved dependencies.'' L'
        | LoopFinished \<Rightarrow> finish_workflow E L') = (res, L)"
      by (auto split: option.splits prod.splits loop_end.splits)
    show ?thesis
    proof (rule ran [OF l(1) [unfolded L0_def]])
      show "lp_scheduler L = lp_scheduler L'" "lp_dispatched L = lp_dispatched L'"
        using l(2) by (cases out; simp; metis finish_workflow_keeps snd_conv)+
      show "out = LoopPaused \<longrightarrow> wf_state res = lp_state L'" "out = LoopFinished \<longrightarrow> (res, L) = finish_workflow E L'"
        using l(2) by auto
    qed
  qed
qed

lemma run_workflow_ends:
  assumes "answers_batch E" "distinct (plan_ids plan)" "resumable plan resume" "length (pn_tasks plan) < fuel"
  shows "run_workflow fuel E plan resume prepared pm metrics w \<noteq> None"
proof -
  let ?L = "(start_workflow E plan resume prepared pm metrics w)\<lparr>lp_pauses := snd (resolve_pause (pn_plan_id plan) pm)\<rparr>"
  note start = start_workflow_resumable [OF assms(3), where E = E and prepared = prepared and pm = pm and metrics = metrics and w = w]
  define ov where "ov = (case get_pending_pause pm (pn_plan_id plan) of Some p \<Rightarrow> pp_overrides p | None \<Rightarrow> [])"
  have "card (set (plan_ids plan) - handled ?L) < fuel"
    using assms(4) card_length [of "plan_ids plan"] card_mono [of "set (plan_ids plan)" "set (plan_ids plan) - handled ?L"]
    by (simp add: plan_ids_def)
  then have "workflow_loop fuel E plan ov ?L \<noteq> None"
    by (intro workflow_loop_ends [OF assms(1,2), where d = "resumed_ids resume"]) (simp_all add: start)
  then obtain out L' where "workflow_loop fuel E plan ov ?L = Some (out, L')" by auto
  then show ?thesis unfolding run_workflow_def Let_def ov_def [symmetric] by (cases out) simp_all
qed

lemma run_workflow_ok:
  assumes "answers_batch E" "distinct (plan_ids plan)" "resumable plan resume"
    and "run_workflow fuel E plan resume prepared pm metrics w = Some (res, L)"
  shows "\<exists>ov. loop_ok plan (resumed_ids resume) L \<and> dispatch_ok plan ov (resumed_ids resume) L"
proof -
  note start = start_workflow_resumable [OF assms(3), where E = E and prepared = prepared and pm = pm and metrics = metrics and w = w]
  show ?thesis
  proof (cases rule: run_workflow_cases [OF assms(4), case_names refused ran])
    case (refused err)
    then have "lp_scheduler L = lp_scheduler (start_workflow E plan resume prepared pm metrics w)"
      "lp_dispatched L = lp_dispatched (start_workflow E plan resume prepared pm metrics w)"
      using finish_workflow_keeps(3,4) by (metis snd_conv)+
    from scheduler_keep [OF this] show ?thesis using start(1,2) by blast
  next
    case (ran ov out L')
    have "loop_ok plan (resumed_ids resume) L' \<and> dispatch_ok plan ov (resumed_ids resume) L'"
      using workflow_loop_ok [OF assms(1,2) ran(1), of "resumed_ids resume"] start by simp
    with ran(2,3) show ?thesis using scheduler_keep by blast
  qed
qed

end
