(* ===== verification/Permit_Flow.thy ===== *)
theory Permit_Flow
  imports Workflow_Engine
begin

text \<open>
  From the authorisation stage to the gate: what the permit of a task is bound to when the
  orchestrator issues it, and what the runtime's gate computes from the task the workflow builds.
  The inputs of the two differ in the keys the digest leaves out and in the prepared context;
  everything else agrees.
\<close>

section \<open>The payload a digest sees\<close>

definition visible :: "(string, pyval) dict \<Rightarrow> (string, pyval) dict" where
  "visible d = filter (\<lambda>(k, _). k \<notin> set INCIDENTAL_OPERATION_KEYS) d"

lemma keep_fields_visible:
  "keep_fields (map (\<lambda>(k, v). (k, f v)) d) = keep_fields (map (\<lambda>(k, v). (k, f v)) (visible d))"
  unfolding keep_fields_def visible_def by (simp add: filter_map comp_def case_prod_beta)

lemma operation_digest_visible:
  "visible d = visible e \<Longrightarrow> operation_digest C a t d = operation_digest C a t e"
  unfolding operation_digest_def operation_text_def canonical_operation_def normalize_operation_payload.simps
  using keep_fields_visible [of _ d] keep_fields_visible [of _ e] by metis

lemma visible_update:
  "visible (AList.update k v d) =
     (if k \<in> set INCIDENTAL_OPERATION_KEYS then visible d else AList.update k v (visible d))"
  by (induction d) (auto simp: visible_def)

lemma visible_delete: "visible (AList.delete k d) = AList.delete k (visible d)"
  by (induction d) (auto simp: visible_def AList.delete_eq)

lemma map_of_visible: "k \<notin> set INCIDENTAL_OPERATION_KEYS \<Longrightarrow> map_of (visible d) k = map_of d k"
  by (induction d) (auto simp: visible_def)

lemma dict_merge_simps [simp]:
  "dict_merge d [] = d" "dict_merge d ((k, v) # e) = dict_merge (AList.update k v d) e"
  by (simp_all add: dict_merge_def)

lemma visible_merge: "visible (dict_merge d e) = dict_merge (visible d) (visible e)"
proof (induction e arbitrary: d)
  case (Cons x e)
  obtain k v where "x = (k, v)" by fastforce
  with Cons show ?case by (simp add: visible_update) (simp add: visible_def)
qed (simp add: visible_def)

lemma visible_authorization_payload:
  "visible (authorization_payload a d) = authorization_payload a (visible d)"
proof -
  have keys: "''prompt'' \<notin> set INCIDENTAL_OPERATION_KEYS" "''messages'' \<notin> set INCIDENTAL_OPERATION_KEYS"
    by (simp_all add: INCIDENTAL_OPERATION_KEYS_def)
  have bind: "visible (bind_prompt b p) = bind_prompt b (visible p)" for b p
    by (auto simp: bind_prompt_def map_of_visible keys visible_update split: option.splits)
  show ?thesis
    by (simp add: authorization_payload_def Let_def bind visible_delete map_of_visible keys)
qed

lemma delete_update_same: "AList.delete k (AList.update k v d) = AList.delete k d"
  by (induction d) (auto simp: AList.delete_eq)

lemma payload_without_context:
  "authorization_payload a (AList.update ''prepared_context'' v d) = authorization_payload a d"
proof -
  have "AList.delete ''prepared_context'' (AList.delete ''messages'' (AList.update ''prepared_context'' v d)) =
      AList.delete ''prepared_context'' (AList.delete ''messages'' d)"
    by (metis AList.delete_twist delete_update_same)
  moreover have "map_of (AList.update ''prepared_context'' v d) ''messages'' = map_of d ''messages''" by simp
  ultimately show ?thesis unfolding authorization_payload_def Let_def by (simp only:)
qed

section \<open>The inputs agree\<close>

definition bare_inputs :: "string \<Rightarrow> plan_task \<Rightarrow> (string, pyval) dict" where
  "bare_inputs raw t =
     dict_merge [(''prompt'', PStr raw), (''plan_task_id'', PStr (pt_task_id t)),
                 (''plan_task_kind'', PStr (kind_value (pt_kind t)))] (task_args t)"

lemma execution_payload:
  "authorization_payload a (execution_inputs raw t) = authorization_payload a (bare_inputs raw t)"
  by (simp add: execution_inputs_def bare_inputs_def Let_def payload_without_context split: option.split)

text \<open>A system prompt is part of the payload of the provider actions only.\<close>

lemma payload_without_system:
  assumes "normalize_action_type a \<notin> set PROVIDER_ACTIONS"
  shows "authorization_payload a (AList.update ''system_prompt'' v d) = authorization_payload a d"
proof -
  have "AList.delete ''system_prompt'' (AList.delete ''prompt'' (AList.delete ''prepared_context''
      (AList.delete ''messages'' (AList.update ''system_prompt'' v d)))) =
    AList.delete ''system_prompt'' (AList.delete ''prompt'' (AList.delete ''prepared_context'' (AList.delete ''messages'' d)))"
    by (simp add: AList.delete_update delete_update_same)
  with assms show ?thesis by (simp add: authorization_payload_def Let_def)
qed

lemma swap_context:
  "authorization_payload a (AList.update ''system_prompt'' v (AList.update ''prepared_context'' w d)) =
     authorization_payload a (AList.update ''system_prompt'' v d)"
proof -
  have "AList.delete ''prepared_context'' (AList.delete ''messages'' (AList.update ''system_prompt'' v
      (AList.update ''prepared_context'' w d))) =
    AList.delete ''prepared_context'' (AList.delete ''messages'' (AList.update ''system_prompt'' v d))"
    by (simp add: AList.delete_update delete_update_same)
  moreover have "map_of (AList.update ''system_prompt'' v (AList.update ''prepared_context'' w d)) ''messages'' =
      map_of (AList.update ''system_prompt'' v d) ''messages''" by simp
  ultimately show ?thesis unfolding authorization_payload_def Let_def by (simp only:)
qed

lemma workflow_payload:
  assumes "pt_kind t = KIND_EXECUTE_VIA_RUNTIME"
    and "normalize_action_type a \<in> set PROVIDER_ACTIONS \<longrightarrow>
      (case map_of (pt_metadata t) ''system_prompt'' of Some v \<Rightarrow> \<not> truthy v | None \<Rightarrow> True)"
  shows "authorization_payload a (workflow_inputs raw None prepared t) = authorization_payload a (bare_inputs raw t)"
  using assms
  by (cases "normalize_action_type a \<in> set PROVIDER_ACTIONS")
    (auto simp: workflow_inputs_def bare_inputs_def workflow_args_def Let_def payload_without_context
      payload_without_system split: option.splits)

text \<open>What the authorisation adds to a task's metadata.\<close>

definition same_request :: "plan_task \<Rightarrow> plan_task \<Rightarrow> bool" where
  "same_request t t' \<longleftrightarrow>
     pt_task_id t' = pt_task_id t \<and> pt_kind t' = pt_kind t \<and>
     pt_execution_action_type t' = pt_execution_action_type t \<and>
     visible (task_args t') = visible (task_args t) \<and>
     map_of (pt_metadata t') ''tool'' = map_of (pt_metadata t) ''tool'' \<and>
     map_of (pt_metadata t') ''system_prompt'' = map_of (pt_metadata t) ''system_prompt''"

lemma bare_payload_same:
  assumes "same_request t t'"
  shows "visible (authorization_payload a (bare_inputs raw t')) = visible (authorization_payload a (bare_inputs raw t))"
  using assms
  by (simp add: visible_authorization_payload bare_inputs_def visible_merge same_request_def)

lemma task_args_set:
  assumes "map_of (pt_metadata t') ''action'' = map_of (pt_metadata t) ''action''"
    and "pt_execution_action_type t' = pt_execution_action_type t"
    and "map_of (pt_metadata t') ''args'' = map_of (pt_metadata t) ''args'' \<or>
         map_of (pt_metadata t') ''args'' =
           Some (PDict (AList.update ''_cap_permit'' v
             (case map_of (pt_metadata t) ''args'' of Some (PDict d) \<Rightarrow> d | _ \<Rightarrow> [])))"
  shows "visible (task_args t') = visible (task_args t)"
proof -
  have keys: "''_cap_permit'' \<in> set INCIDENTAL_OPERATION_KEYS" "''action'' \<notin> set INCIDENTAL_OPERATION_KEYS"
    by (simp_all add: INCIDENTAL_OPERATION_KEYS_def)
  from assms(3) show ?thesis
  proof
    assume "map_of (pt_metadata t') ''args'' = map_of (pt_metadata t) ''args''"
    then show ?thesis unfolding task_args_def assms(1,2) by (simp only:)
  next
    assume "map_of (pt_metadata t') ''args'' =
        Some (PDict (AList.update ''_cap_permit'' v
          (case map_of (pt_metadata t) ''args'' of Some (PDict d) \<Rightarrow> d | _ \<Rightarrow> [])))"
    then show ?thesis
      using assms(1,2)
      by (simp add: task_args_def Let_def visible_update keys split: option.split)
  qed
qed

lemma authorised_metadata:
  assumes "authorise_task A raw q n t st = Some (t', st')" "pt_kind t = KIND_EXECUTE_VIA_RUNTIME"
  obtains p where "pt_permit t' = Some p" "same_request t t'"
    "map_of (pt_metadata t') ''required_permissions'' = Some (PList (map (\<lambda>s. PStr (scope_value s)) (ep_required p)))"
    "map_of (pt_metadata t') ''execution_constraints'' = Some (constraints_value (ep_constraints p))"
proof -
  from assms obtain a where a: "policy_action t = Some a"
    by (auto simp: authorise_task_def split: option.splits)
  obtain p st1 where p: "authorize (az_crypto A) (az_key A) (az_permit_id A n) (az_now A n) (az_get A) (az_put A) st
      \<lparr>ar_action = planned_task_action raw t a, ar_policy = evaluate (az_show A) (planned_task_action raw t a),
       ar_operation = Some (task_operation raw t), ar_remember = False\<rparr>
      (az_subject A) (az_session A) (az_workspace A) = (p, st1)" by fastforce
  let ?m = "AList.update ''execution_constraints'' (constraints_value (ep_constraints p))
    (AList.update ''required_permissions'' (PList (map (\<lambda>s. PStr (scope_value s)) (ep_required p))) (pt_metadata t))"
  define t1 where "t1 = t\<lparr>pt_permit := Some p, pt_metadata := ?m,
    pt_router_request := Some (constrain_request (ep_constraints p)
      (case pt_router_request t of Some q \<Rightarrow> q | None \<Rightarrow> q))\<rparr>"
  have t': "t' = (if is_internet_task t1 then t1\<lparr>pt_metadata := set_arg ''_cap_permit''
      (PStr (decision_value (ep_decision p))) (pt_metadata t1)\<rparr> else t1)"
    using assms(1) unfolding authorise_task_def a option.case Let_def p prod.case t1_def
    by (simp only: assms(2) not_True_eq_False simp_thms if_False option.inject prod.inject)
  have fields: "pt_permit t' = Some p" "pt_task_id t' = pt_task_id t" "pt_kind t' = pt_kind t"
    "pt_execution_action_type t' = pt_execution_action_type t"
    by (simp_all add: t' t1_def)
  have meta: "map_of (pt_metadata t') k = map_of ?m k" if "k \<noteq> ''args''" for k
    using that by (simp add: t' t1_def set_arg_def Let_def)
  have args: "map_of (pt_metadata t') ''args'' = map_of (pt_metadata t) ''args'' \<or>
      map_of (pt_metadata t') ''args'' = Some (PDict (AList.update ''_cap_permit'' (PStr (decision_value (ep_decision p)))
        (case map_of (pt_metadata t) ''args'' of Some (PDict d) \<Rightarrow> d | _ \<Rightarrow> [])))"
    by (simp add: t' t1_def set_arg_def Let_def)
  have "visible (task_args t') = visible (task_args t)"
    by (rule task_args_set [OF _ fields(4) args]) (simp add: meta)
  then have "same_request t t'" by (simp add: same_request_def fields meta)
  then show thesis by (rule that [OF fields(1)]) (simp_all add: meta)
qed

section \<open>The gate\<close>

definition EXECUTABLE_TYPES :: "string list" where
  "EXECUTABLE_TYPES = ''tool'' # PROVIDER_ACTIONS"

lemma normalize_executable: "a \<in> set EXECUTABLE_TYPES \<Longrightarrow> normalize_action_type a = a"
  unfolding EXECUTABLE_TYPES_def PROVIDER_ACTIONS_def by (simp, elim disjE; hypsubst, code_simp)

lemma normalize_target_idem: "normalize_target t = Some u \<Longrightarrow> normalize_target (Some u) = Some u"
  by (auto simp: normalize_target_def Let_def split: option.splits if_splits)

lemma normalize_task_target:
  assumes "a \<in> set EXECUTABLE_TYPES"
  shows "normalize_target (Some (authorization_target a tool)) = Some (authorization_target a tool)"
proof (cases "a \<in> set PROVIDER_ACTIONS")
  case True
  then have "normalize_target (Some (''provider:'' @ a)) = Some (''provider:'' @ a)"
    unfolding PROVIDER_ACTIONS_def by (simp, elim disjE; hypsubst, code_simp)
  then show ?thesis using True normalize_executable [OF assms] by (simp add: authorization_target_def)
next
  case False
  then have a: "a = ''tool''" using assms by (simp add: EXECUTABLE_TYPES_def)
  have "normalize_target (Some ''tool'') = Some ''tool''" by code_simp
  then show ?thesis
    using False normalize_target_idem normalize_executable [OF assms] a
    by (auto simp: authorization_target_def Let_def split: option.split)
qed

text \<open>The tool a task names, as the orchestrator and the gate read it.\<close>

definition plain_tool :: "plan_task \<Rightarrow> bool" where
  "plain_tool t = (case map_of (pt_metadata t) ''tool'' of None \<Rightarrow> True | Some (PStr s) \<Rightarrow> True | _ \<Rightarrow> False)"

lemma map_of_dict_merge: "map_of (dict_merge d e) k = (case map_of (rev e) k of Some v \<Rightarrow> Some v | None \<Rightarrow> map_of d k)"
  by (induction e arbitrary: d) (auto simp: map_of_append split: option.splits)

lemma workflow_metadata:
  assumes "k \<notin> {''plan_id'', ''plan_task_id'', ''plan_task_kind'', ''agent_id''}"
  shows "map_of (rt_metadata (workflow_task plan ov pc t)) k = map_of (pt_metadata t) k"
  using assms by (auto simp: workflow_task_def map_of_dict_merge)

lemma same_target:
  assumes "same_request t t'" "plain_tool t" "pt_execution_action_type t \<in> set EXECUTABLE_TYPES"
  shows "authorization_target (pt_execution_action_type t) (task_tool shw (workflow_task plan ov pc t')) = task_target t"
proof (cases "pt_execution_action_type t \<in> set PROVIDER_ACTIONS")
  case True
  then show ?thesis
    using normalize_executable [OF assms(3)] by (simp add: task_target_def authorization_target_def)
next
  case False
  then have "pt_execution_action_type t = ''tool''" using assms(3) by (simp add: EXECUTABLE_TYPES_def)
  moreover have "map_of (rt_metadata (workflow_task plan ov pc t')) ''tool'' = map_of (pt_metadata t) ''tool''"
    using assms(1) by (simp add: workflow_metadata same_request_def)
  ultimately show ?thesis
    using assms(1,2)
    by (auto simp: task_target_def task_tool_def same_request_def plain_tool_def as_str_def
        split: option.splits pyval.splits)
qed

lemma authorised_task_bound:
  assumes auth: "authorise_task A (pn_raw_request plan) q n t st = Some (t', st')"
    and kind: "pt_kind t = KIND_EXECUTE_VIA_RUNTIME" and tool: "plain_tool t"
    and type: "pt_execution_action_type t \<in> set EXECUTABLE_TYPES"
    and system: "pt_execution_action_type t \<in> set PROVIDER_ACTIONS \<longrightarrow>
      (case map_of (pt_metadata t) ''system_prompt'' of Some v \<Rightarrow> \<not> truthy v | None \<Rightarrow> True)"
    and ov: "map_of ov (pt_task_id t) = None"
    and permit: "pt_permit t' = Some p"
    and model: "\<And>ec. validate (constraints_value ec) = Some ec"
    and routing: "pt_execution_action_type t \<in> set PROVIDER_ACTIONS \<longrightarrow> rd_execution_constraints routing = ep_constraints p"
  shows "operation_bound (az_crypto A) shw validate (workflow_task plan ov pc t') routing p"
proof -
  let ?a = "pt_execution_action_type t" and ?rt = "workflow_task plan ov pc t'"
  obtain p' where same: "same_request t t'" and p': "pt_permit t' = Some p'"
    and required: "map_of (pt_metadata t') ''required_permissions'' = Some (PList (map (\<lambda>s. PStr (scope_value s)) (ep_required p)))"
    and constraints: "map_of (pt_metadata t') ''execution_constraints'' = Some (constraints_value (ep_constraints p))"
    by (rule authorised_metadata [OF auth kind]) (use permit in auto)
  have digest: "ep_operation_digest p = operation_digest (az_crypto A) ?a (Some (task_target t))
      (authorization_payload ?a (execution_inputs (pn_raw_request plan) t))"
    and issued: "ep_action_type p = normalize_action_type ?a" "ep_target p = normalize_target (Some (task_target t))"
    using auth kind permit
    by (auto simp: authorise_task_def Let_def authorize_def issue_permit_simps task_operation_def
        split: option.splits prod.splits if_splits)
  have fields: "rt_action_type ?rt = ?a" "pt_task_id t' = pt_task_id t" "pt_kind t' = KIND_EXECUTE_VIA_RUNTIME"
    "pt_execution_action_type t' = ?a"
    using same kind by (simp_all add: same_request_def)
  have "authorization_payload ?a (rt_inputs ?rt) = authorization_payload ?a (bare_inputs (pn_raw_request plan) t')"
    using workflow_payload [OF fields(3)] system same ov fields(2) normalize_executable [OF type]
    by (simp add: workflow_task_def same_request_def)
  then have "visible (authorization_payload ?a (rt_inputs ?rt)) =
      visible (authorization_payload ?a (execution_inputs (pn_raw_request plan) t))"
    using bare_payload_same [OF same] by (simp add: execution_payload)
  then have "operation_digest (az_crypto A) ?a (Some (task_target t)) (authorization_payload ?a (rt_inputs ?rt)) =
      ep_operation_digest p"
    unfolding digest by (rule operation_digest_visible)
  moreover have "permissions_match (map (\<lambda>s. PStr (scope_value s)) (ep_required p)) (ep_required p)"
    by (simp add: permissions_match_def as_str_def)
  ultimately show ?thesis
    unfolding operation_bound_def
    using same_target [OF same tool type] required constraints model routing issued
      normalize_executable [OF type] normalize_task_target [OF type]
    by (simp add: fields workflow_metadata py_tuple_def task_target_def)
qed

section \<open>A system prompt\<close>

lemma normalized_keys:
  assumes "normalize_operation_payload isof (PDict p) = normalize_operation_payload isof (PDict q)"
    and "k \<notin> set INCIDENTAL_OPERATION_KEYS"
  shows "k \<in> fst ` set p \<longleftrightarrow> k \<in> fst ` set q"
proof -
  have keys: "fst ` set (keep_fields (map (\<lambda>(k, v). (k, f v)) d)) = fst ` set d - set INCIDENTAL_OPERATION_KEYS"
    for f and d :: "(string, pyval) dict" unfolding keep_fields_def by force
  from assms(1) have "keep_fields (map (\<lambda>(k, v). (k, normalize_operation_payload isof v)) p) =
      keep_fields (map (\<lambda>(k, v). (k, normalize_operation_payload isof v)) q)" by simp
  from arg_cong [OF this, of "\<lambda>x. fst ` set x"] show ?thesis unfolding keys using assms(2) by blast
qed

lemma provider_payload_key:
  assumes "normalize_action_type a \<in> set PROVIDER_ACTIONS" "k \<notin> {''prompt'', ''messages'', ''prepared_context''}"
  shows "k \<in> fst ` set (authorization_payload a d) \<longleftrightarrow> map_of d k \<noteq> None"
proof -
  have "map_of (authorization_payload a d) k = map_of d k"
    using assms by (auto simp: authorization_payload_def Let_def bind_prompt_def AList.delete_conv' AList.update_conv'
        split: option.splits)
  then show ?thesis by (metis map_of_eq_None_iff)
qed

lemma set_update_dict: "set (AList.update k v d) \<subseteq> insert (k, v) (set d)"
  by (induction d) auto

lemma set_dict_merge: "set (dict_merge d e) \<subseteq> set d \<union> set e"
proof (induction e arbitrary: d)
  case (Cons x e)
  obtain k v where "x = (k, v)" by fastforce
  with Cons [of "AList.update k v d"] set_update_dict [of k v d] show ?case by auto
qed simp

lemma set_delete_dict: "set (AList.delete k d) \<subseteq> set d"
  by (auto simp: AList.delete_eq)

lemma floats_ok_dict: "floats_ok (PDict d) \<longleftrightarrow> (\<forall>x\<in>set d. floats_ok (snd x))"
  by (auto simp: list_all_iff)

lemma floats_ok_sub: "set e \<subseteq> set d \<Longrightarrow> floats_ok (PDict d) \<Longrightarrow> floats_ok (PDict e)"
  unfolding floats_ok_dict by blast

lemma floats_ok_update: "floats_ok (PDict d) \<Longrightarrow> floats_ok v \<Longrightarrow> floats_ok (PDict (AList.update k v d))"
  unfolding floats_ok_dict using set_update_dict [of k v d] by auto

lemma floats_ok_merge: "floats_ok (PDict d) \<Longrightarrow> floats_ok (PDict e) \<Longrightarrow> floats_ok (PDict (dict_merge d e))"
  unfolding floats_ok_dict using set_dict_merge [of d e] by auto

lemma floats_ok_payload:
  assumes "floats_ok (PDict d)"
  shows "floats_ok (PDict (authorization_payload a d))"
proof -
  have del: "floats_ok (PDict e) \<Longrightarrow> floats_ok (PDict (AList.delete k e))" for k e
    by (rule floats_ok_sub [OF set_delete_dict])
  have bind: "floats_ok (PDict e) \<Longrightarrow> floats_ok (PDict (bind_prompt b e))" for b e
    using floats_ok_update [of e "PStr _" "''prompt''"]
    by (auto simp: bind_prompt_def simp del: floats_ok.simps(4) split: option.split)
  show ?thesis using assms del bind by (simp add: authorization_payload_def Let_def del: floats_ok.simps)
qed

lemma floats_ok_visible: "floats_ok (PDict d) \<Longrightarrow> floats_ok (PDict (visible d))"
  by (rule floats_ok_sub) (auto simp: visible_def)

lemma visible_idem [simp]: "visible (visible d) = visible d"
  by (simp add: visible_def)

text \<open>The operation a permit is bound to lacks the system prompt that the workflow adds to the inputs.\<close>

lemma system_prompt_unbound:
  assumes sha: "inj (sha256 (az_crypto A))"
    and auth: "authorise_task A (pn_raw_request plan) q n t st = Some (t', st')" "pt_permit t' = Some p"
    and kind: "pt_kind t = KIND_EXECUTE_VIA_RUNTIME" and type: "pt_execution_action_type t \<in> set PROVIDER_ACTIONS"
    and system: "map_of (pt_metadata t) ''system_prompt'' = Some v" "truthy v" "map_of (task_args t) ''system_prompt'' = None"
    and floats: "floats_ok v" "floats_ok (PDict (task_args t))" and ov: "map_of ov (pt_task_id t) = None"
  shows "\<not> operation_bound (az_crypto A) shw validate (workflow_task plan ov pc t') routing p"
proof
  let ?a = "pt_execution_action_type t" and ?rt = "workflow_task plan ov pc t'"
  have exe: "?a \<in> set EXECUTABLE_TYPES" using type by (simp add: EXECUTABLE_TYPES_def)
  note a = normalize_executable [OF exe]
  obtain p' where same: "same_request t t'" by (rule authorised_metadata [OF auth(1) kind])
  have digest: "ep_operation_digest p = operation_digest (az_crypto A) ?a (Some (task_target t))
      (authorization_payload ?a (execution_inputs (pn_raw_request plan) t))"
    using auth kind
    by (auto simp: authorise_task_def Let_def authorize_def issue_permit_simps task_operation_def
        split: option.splits prod.splits if_splits)
  assume "operation_bound (az_crypto A) shw validate ?rt routing p"
  then have "ep_operation_digest p = operation_digest (az_crypto A) ?a
      (Some (authorization_target ?a (task_tool shw ?rt))) (authorization_payload ?a (rt_inputs ?rt))"
    using same by (simp add: operation_bound_def workflow_task_def same_request_def)
  with digest have "operation_digest (az_crypto A) ?a (Some (task_target t))
      (visible (authorization_payload ?a (execution_inputs (pn_raw_request plan) t))) =
    operation_digest (az_crypto A) ?a (Some (authorization_target ?a (task_tool shw ?rt)))
      (visible (authorization_payload ?a (rt_inputs ?rt)))"
    using operation_digest_visible [OF visible_idem] by metis
  from injD [OF sha this [unfolded operation_digest_def]]
  have texts: "operation_text (az_crypto A) ?a (Some (task_target t))
      (visible (authorization_payload ?a (execution_inputs (pn_raw_request plan) t))) =
    operation_text (az_crypto A) ?a (Some (authorization_target ?a (task_tool shw ?rt)))
      (visible (authorization_payload ?a (rt_inputs ?rt)))" .
  have "floats_ok (PDict (authorization_payload ?a (bare_inputs (pn_raw_request plan) t)))"
    unfolding bare_inputs_def by (intro floats_ok_payload floats_ok_merge floats(2)) simp
  then have f1: "floats_ok (PDict (visible (authorization_payload ?a (execution_inputs (pn_raw_request plan) t))))"
    unfolding execution_payload by (rule floats_ok_visible)
  have inputs: "rt_inputs ?rt = workflow_inputs (pn_raw_request plan) None pc t'"
    using ov same by (simp add: workflow_task_def same_request_def)
  have kind': "pt_kind t' = KIND_EXECUTE_VIA_RUNTIME" using same kind by (simp add: same_request_def)
  have sys: "map_of (pt_metadata t') ''system_prompt'' = Some v" using system(1) same by (simp add: same_request_def)
  have "authorization_payload ?a (rt_inputs ?rt) =
      authorization_payload ?a (AList.update ''system_prompt'' v (bare_inputs (pn_raw_request plan) t'))"
    unfolding inputs
    by (cases pc) (simp_all add: workflow_inputs_def bare_inputs_def workflow_args_def Let_def sys system(2) kind'
        payload_without_context swap_context)
  moreover have "visible (AList.update ''system_prompt'' v (bare_inputs (pn_raw_request plan) t')) =
      visible (AList.update ''system_prompt'' v (bare_inputs (pn_raw_request plan) t))"
    using same by (simp add: visible_update bare_inputs_def visible_merge same_request_def)
  ultimately have "visible (authorization_payload ?a (rt_inputs ?rt)) =
      visible (authorization_payload ?a (AList.update ''system_prompt'' v (bare_inputs (pn_raw_request plan) t)))"
    by (simp add: visible_authorization_payload)
  moreover have "floats_ok (PDict (authorization_payload ?a (AList.update ''system_prompt'' v (bare_inputs (pn_raw_request plan) t))))"
    unfolding bare_inputs_def by (intro floats_ok_payload floats_ok_update floats_ok_merge floats) simp
  ultimately have f2: "floats_ok (PDict (visible (authorization_payload ?a (rt_inputs ?rt))))"
    using floats_ok_visible by metis
  from operation_text_binds [OF f1 f2 texts]
  have norm: "normalize_operation_payload (isoformat (az_crypto A)) (PDict (visible (authorization_payload ?a (execution_inputs (pn_raw_request plan) t)))) =
      normalize_operation_payload (isoformat (az_crypto A)) (PDict (visible (authorization_payload ?a (rt_inputs ?rt))))" by blast
  have free: "''system_prompt'' \<notin> set INCIDENTAL_OPERATION_KEYS" by (simp add: INCIDENTAL_OPERATION_KEYS_def)
  have "map_of (rt_inputs ?rt) ''system_prompt'' = Some v"
    using system(1,2) same by (simp add: workflow_task_def workflow_inputs_def same_request_def Let_def)
  moreover have "map_of (execution_inputs (pn_raw_request plan) t) ''system_prompt'' = None"
  proof -
    have "map_of (dict_merge d (task_args t)) ''system_prompt'' = map_of d ''system_prompt''" for d
    proof -
      have "map_of (rev (task_args t)) ''system_prompt'' = None"
        using system(3) unfolding map_of_eq_None_iff set_rev .
      then show ?thesis by (simp add: map_of_dict_merge)
    qed
    then show ?thesis by (simp add: execution_inputs_def Let_def split: option.split)
  qed
  moreover have "''system_prompt'' \<in> fst ` set (visible d) \<longleftrightarrow> ''system_prompt'' \<in> fst ` set d" for d
    using free by (force simp: visible_def)
  ultimately show False
    using normalized_keys [OF norm free] provider_payload_key [of ?a "''system_prompt''"] type a by simp
qed

end
