(* ===== verification/Sample_Delivery.thy ===== *)
theory Sample_Delivery
  imports Permit_Flow Sample_World
begin

text \<open>
  Concrete inputs for the path from a plan to a provider: a principal's authorisation environment,
  tasks and plans of one or two text generations, a router with one local model, a provider
  manager, and a workflow environment. A text is seen to carry no signal by its words alone.
\<close>

section \<open>Texts without a signal\<close>

text \<open>A pattern that starts with a word needs that word in the text.\<close>

lemma rx_match_word: "rx_match (map Lit w @ p) prev s \<Longrightarrow> py_startswith (py_lower s) (py_lower w)"
proof (induction w arbitrary: prev s)
  case (Cons c w)
  then show ?case by (cases s) (auto simp: py_lower_def)
qed (simp add: py_lower_def)

lemma rx_search_word:
  assumes "rx_search (Bound # map Lit w @ p) prev s"
  shows "py_contains (py_lower s) (py_lower w)"
  using assms
proof (induction s arbitrary: prev)
  case Nil
  then show ?case by (cases w) (simp_all add: py_lower_def)
next
  case (Cons c s)
  then consider "py_startswith (py_lower (c # s)) (py_lower w)" | "py_contains (py_lower s) (py_lower w)"
    using rx_match_word [of w p prev "c # s"] by auto
  then show ?case by cases (cases w; simp add: py_lower_def)+
qed

definition signal_words :: "(string \<times> rx list) list" where
  "signal_words =
     [(''password'', [Bound]), (''api'', Opt ''_ -'' # map Lit ''key'' @ [Bound]), (''secret'', [Bound]),
      (''private key'', [Bound]), (''seed phrase'', [Bound]), (''token'', [Bound]), (''ssn'', [Bound]),
      (''social security'', [Bound]), (''credit card'', [Bound]), (''bank'', [Bound]), (''medical'', [Bound]),
      (''health'', [Bound]), (''legal'', [Bound])]"

lemma signal_patterns: "critical_patterns @ sensitive_patterns = map (\<lambda>(w, p). Bound # map Lit w @ p) signal_words"
  by (simp add: critical_patterns_def sensitive_patterns_def word_pattern_def signal_words_def)

lemma no_signals:
  assumes "\<not> list_ex (\<lambda>(w, p). py_contains (py_lower (classifier_text shw (classified_value a))) (py_lower w)) signal_words"
  shows "\<not> signals shw a"
  using assms rx_search_word unfolding signals_def signal_patterns by (fastforce simp: list_ex_iff)

section \<open>Tasks and plans\<close>

definition sample_authority :: "permission_store authorisation_env" where
  "sample_authority = \<lparr>az_crypto = sample_crypto, az_key = ''k'', az_show = sample_show, az_get = store_get,
     az_put = store_set, az_subject = ''ann'', az_session = None, az_workspace = None,
     az_permit_id = (\<lambda>_. ''p1''), az_now = (\<lambda>_. Aware 0 0)\<rparr>"

definition sample_plan_task :: "string \<Rightarrow> string list \<Rightarrow> plan_task" where
  "sample_plan_task tid deps = \<lparr>pt_task_id = tid, pt_title = ''text_generation'',
     pt_kind = KIND_EXECUTE_VIA_RUNTIME, pt_description = [], pt_dependencies = deps,
     pt_router_request = None, pt_execution_action_type = ''text_generation'', pt_metadata = [],
     pt_worker_requirement = None, pt_preferred_worker = None, pt_permit = None\<rparr>"
lemma sample_plain: "\<not> signals sample_show (planned_task_action ''work offline'' (sample_plan_task ''t1'' []) ''text_generation'')"
  by (rule no_signals) code_simp

lemma sample_secret: "signals sample_show (planned_task_action ''my password is x'' (sample_plan_task ''t1'' []) ''text_generation'')"
  by code_simp

lemma sample_required: "pd_required (evaluate sample_show
    (planned_task_action ''work offline'' (sample_plan_task ''t1'' []) ''text_generation'')) = []"
  unfolding evaluate_simps by code_simp

lemma sample_policy_action [simp]: "policy_action (sample_plan_task tid deps) = Some ''text_generation''"
  by (simp add: policy_action_def sample_plan_task_def is_internet_task_def base_action_def as_str_def)

lemma authorise_task_total:
  assumes "policy_action t = Some a"
  shows "\<exists>t' st'. authorise_task A raw q n t st = Some (t', st')"
  using assms by (simp add: authorise_task_def Let_def split: prod.split)

definition sample_router_request :: router_request where
  "sample_router_request = \<lparr>qr_purpose = ''chat'', qr_complexity = COMPLEXITY_LOW, qr_estimated_context_tokens = 0,
     qr_requires_local_model = True, qr_requires_code = False, qr_requires_reasoning = False,
     qr_requires_fast_response = False, qr_max_latency_ms = None, qr_max_cost_per_1k_tokens = None,
     qr_execution_constraints = sample_constraints\<rparr>"

definition sample_plan :: "plan_task list \<Rightarrow> execution_plan" where
  "sample_plan ts = \<lparr>pn_plan_id = ''plan'', pn_raw_request = ''work offline'', pn_tasks = ts,
     pn_router_request = sample_router_request\<rparr>"

text \<open>Pydantic's validation of dumped constraints.\<close>

definition sample_decode :: "pyval \<Rightarrow> execution_constraints option" where
  "sample_decode v =
     (case v of
        PDict [(_, PBool l), (_, PBool n), (_, PEnum c)] \<Rightarrow>
          map_option (\<lambda>p. \<lparr>ec_requires_local_model = l, ec_network_allowed = n, ec_privacy_category = p\<rparr>)
            (List.find (\<lambda>p. privacy_value p = c) [PUBLIC, INTERNAL, PERSONAL, SENSITIVE, CRITICAL_DATA])
      | _ \<Rightarrow> None)"

lemma sample_decode_value: "sample_decode (constraints_value ec) = Some ec"
proof -
  obtain c where "ec_privacy_category ec = c" by simp
  then show ?thesis by (cases c) (cases ec; simp add: sample_decode_def constraints_value_def)+
qed

section \<open>A router\<close>

definition sample_registration :: "string \<Rightarrow> model_registration" where
  "sample_registration pid = \<lparr>mr_provider_id = pid, mr_model_id = ''m'', mr_capabilities = [''text_generation''],
     mr_execution_location = LOCAL, mr_metadata = [(''provider_kind'', ''local'')]\<rparr>"

definition sample_capability :: "string \<Rightarrow> int \<Rightarrow> provider_capability" where
  "sample_capability pid speed = \<lparr>cap_provider_id = pid, cap_model_id = ''m'', cap_capabilities = [''text_generation''],
     cap_execution_location = LOCAL, cap_reasoning_score = 0, cap_coding_score = 0, cap_speed_score = speed,
     cap_privacy_score = 9, cap_cost_score = 0, cap_context_window = 0, cap_maximum_output = 0,
     cap_input_cost_per_1k = 0, cap_output_cost_per_1k = 0, cap_latency_ms = None, cap_version = None,
     cap_metadata = []\<rparr>"

definition sample_router :: "health option \<Rightarrow> model_router" where
  "sample_router h = \<lparr>ro_registry = [sample_registration ''slow'', sample_registration ''fast''],
     ro_capabilities = Some [((''slow'', ''m''), sample_capability ''slow'' 3), ((''fast'', ''m''), sample_capability ''fast'' 7)],
     ro_policy = default_routing_policy, ro_models = None, ro_health = h, ro_preferred = None,
     ro_metrics = \<lparr>rm_decisions = 0, rm_successful = 0, rm_failed = 0\<rparr>\<rparr>"

lemma sample_router_simps [simp]:
  "ro_models (sample_router h) = None" "ro_health (sample_router h) = h" "ro_preferred (sample_router h) = None"
  "ro_policy (sample_router h) = default_routing_policy"
  by (simp_all add: sample_router_def)

lemma sample_filed: "capabilities_filed (sample_router h)"
  by (simp add: capabilities_filed_def sample_router_def sample_capability_def)

lemma sample_initial: "initial_candidates (sample_router h) sample_router_request =
    [sample_registration ''slow'', sample_registration ''fast'']"
proof -
  have "py_contains (py_lower ''chat'') ''tool_execution'' \<or> py_contains (py_lower ''chat'') ''tool execution'' \<longleftrightarrow> False"
    by code_simp
  then have "capability_of_request sample_router_request = ''text_generation''"
    by (simp add: capability_of_request_def sample_router_request_def Let_def)
  moreover have "local_registration (sample_registration pid)" for pid
    by (simp add: local_registration_def sample_registration_def provider_kind_def)
  ultimately show ?thesis
    by (simp add: initial_candidates_def router_candidates_def sample_router_def sample_registration_def Let_def)
qed

lemma sample_routable: "routable now (sample_router None) sample_router_request =
    [sample_registration ''slow'', sample_registration ''fast'']"
  by (simp add: routable_def eligible_candidates_def sample_initial)

lemma sample_capability_for:
  "capability_for (sample_router h) (sample_registration ''slow'') = Some (sample_capability ''slow'' 3)"
  "capability_for (sample_router h) (sample_registration ''fast'') = Some (sample_capability ''fast'' 7)"
  by (simp_all add: capability_for_def sample_router_def sample_registration_def get_capability_def)

lemma sample_scoreable: "scoreable_capabilities (sample_router h) [sample_registration ''slow'', sample_registration ''fast''] =
    [sample_capability ''slow'' 3, sample_capability ''fast'' 7]"
  by (simp add: scoreable_capabilities_def capabilities_for_candidates_def List.map_filter_def sample_capability_for)
     (simp add: sample_router_def sample_registration_def sample_capability_def)

lemma sample_scores:
  "sc_score (score_capability sample_router_request (sample_capability pid speed) default_routing_policy) = speed + 45"
  "capability_eligible sample_router_request (sample_capability pid speed) default_routing_policy"
  by (simp_all add: score_capability_def score_line_def capability_eligible_def or_limit_def sample_router_request_def
      sample_capability_def default_routing_policy_def Let_def)

lemma sample_route_decides: "rd_constraints (fst (route shw now (sample_router None) sample_router_request)) = []"
proof -
  have "rank_capabilities sample_router_request [sample_capability ''slow'' 3, sample_capability ''fast'' 7]
      default_routing_policy \<noteq> []"
    by (simp add: rank_capabilities_def sample_scores sort_desc_def)
  then have "rd_constraints (choose_route shw (sample_router None) sample_router_request
      [sample_registration ''slow'', sample_registration ''fast'']) = []"
    by (auto simp: choose_route_def sample_scoreable Let_def opt_nonempty_def scored_decision_def split: list.split)
  then show ?thesis
    using sample_routable [of now]
    by (auto simp: route_def Let_def routable_def split: option.splits)
qed

section \<open>A provider manager\<close>

text \<open>Two providers; the one that is \<open>False\<close> reports a failure.\<close>

definition sample_answer :: "bool \<Rightarrow> raw_response" where
  "sample_answer ok = \<lparr>rw_response = None, rw_success = Some ok, rw_message = None, rw_content = Some ''hi'',
     rw_provider_id = None, rw_model_id = None, rw_finish_reason = None, rw_usage = [], rw_cost = [],
     rw_latency_ms = None, rw_metadata = []\<rparr>"

definition sample_provider_env :: "int \<Rightarrow> bool provider_env" where
  "sample_provider_env now = \<lparr>pe_clock = (\<lambda>_. now), pe_answer = (\<lambda>_ p _. Inr (sample_answer p)),
     pe_stream = (\<lambda>_ _ _. ([], None)), pe_show = sample_show, pe_float = (\<lambda>_. 0), pe_value = (\<lambda>_. PNone)\<rparr>"

definition sample_info :: "string \<Rightarrow> provider_info" where
  "sample_info pid = \<lparr>pi_provider_id = pid, pi_capabilities = [''text_generation''], pi_models = [''m''],
     pi_supported_models = [], pi_execution_location = LOCAL, pi_maximum_context = 0\<rparr>"

definition sample_payload :: provider_payload where
  "sample_payload = \<lparr>pl_prompt = PStr ''hi'', pl_max_tokens = None, pl_messages = None, pl_model_id = None, pl_other = []\<rparr>"

definition sample_manager :: "health \<Rightarrow> bool provider_manager" where
  "sample_manager h = \<lparr>pm_registry = [(''slow'', False, sample_info ''slow''), (''fast'', True, sample_info ''fast'')],
     pm_settings = default_provider_settings, pm_health = h, pm_metrics = []\<rparr>"

definition sample_cooling :: health where
  "sample_cooling = mark_cooldown 0 ''slow'' (Some 60) (new_health default_provider_settings)"

definition sample_checked :: health where
  "sample_checked = record_success 0 ''fast'' 1 (new_health default_provider_settings)"

section \<open>A workflow\<close>

definition sample_workflow :: "unit workflow_env" where
  "sample_workflow = \<lparr>we_route = (\<lambda>w q. (Inr sample_routing, w)),
     we_run_batch = (\<lambda>w routed. (map (\<lambda>(t, _). bare_result (rt_task_id t) COMPLETED None []) routed, w)),
     we_evidence = (\<lambda>v _. v), we_now = 0\<rparr>"

definition sample_counters :: workflow_metrics where
  "sample_counters = \<lparr>wm_executions = 0, wm_successes = 0, wm_failures = 0, wm_parallel_batches = 0,
     wm_concurrent_tasks = 0, wm_scheduling_failures = 0\<rparr>"

definition sample_steps :: execution_plan where
  "sample_steps = sample_plan [sample_plan_task ''b'' [''a''], sample_plan_task ''a'' []]"

definition sample_workflow_run :: "(workflow_result \<times> unit loop_state) option" where
  "sample_workflow_run = run_workflow 3 sample_workflow sample_steps None None [] sample_counters ()"

lemma sample_answers: "answers_batch sample_workflow"
  by (simp add: answers_batch_def sample_workflow_def bare_result_def comp_def case_prod_beta)

lemma sample_steps_ids: "plan_ids sample_steps = [''b'', ''a'']"
  by (simp add: plan_ids_def sample_steps_def sample_plan_def sample_plan_task_def)

lemma sample_steps_tasks: "pn_tasks sample_steps = [sample_plan_task ''b'' [''a''], sample_plan_task ''a'' []]"
  by (simp add: sample_steps_def sample_plan_def)

lemma sample_resumable: "resumable sample_steps None"
  by (simp add: resumable_def)

lemma sample_known: "\<forall>t \<in> set (pn_tasks sample_steps). set (pt_dependencies t) \<subseteq> set (plan_ids sample_steps)"
  by (simp add: sample_steps_tasks sample_steps_ids sample_plan_task_def)

lemma sample_acyclic: "\<not> workflow_cyclic (plan_graph (pn_tasks sample_steps))"
proof -
  have n: "neighbours (dependency_dict (plan_graph (pn_tasks sample_steps))) x = (if x = ''b'' then [''a''] else [])" for x
    by (simp add: sample_steps_tasks plan_graph_def dependency_dict_def neighbours_def sample_plan_task_def)
  have "waits_for (plan_graph (pn_tasks sample_steps)) = {(''b'', ''a'')}"
    by (auto simp: waits_for_def n split: if_splits)
  moreover have "acyclic {(''b'' :: string, ''a'')}"
    by (rule acyclicI) (auto dest: trancl_subset_Sigma_aux elim: tranclE)
  ultimately show ?thesis by (simp add: workflow_cyclic_iff)
qed

lemma sample_run_ends: "sample_workflow_run \<noteq> None"
  unfolding sample_workflow_run_def
  by (rule run_workflow_ends [OF sample_answers _ sample_resumable]) (simp_all add: sample_steps_ids sample_steps_tasks)

end
