(* ===== verification/Delivery.thy ===== *)
theory Delivery
  imports Sample_Delivery
begin

text \<open>
  From the plan to the provider: the authorised task, the router's choice, the fallback of the
  provider manager and the order of a workflow. The identifiers are those of the manifest.
\<close>

section \<open>Sensitive tasks\<close>

text \<open>A registry whose providers are filed under the id of their own metadata.\<close>

definition registry_filed :: "'p provider_registry \<Rightarrow> bool" where
  "registry_filed r \<longleftrightarrow> dict_ok r \<and> list_all (\<lambda>(k, _, i). k = pi_provider_id i) r"

lemma filed_lookup:
  assumes "registry_filed r" "i \<in> set (list_providers r)"
  shows "get_info r (pi_provider_id i) = Some i"
proof -
  from assms(2) obtain k p where e: "(k, p, i) \<in> set r" by (auto simp: list_providers_def)
  then have "k = pi_provider_id i" using assms(1) by (auto simp: registry_filed_def list_all_iff)
  with e assms(1) show ?thesis
    by (simp add: get_info_def registry_filed_def dict_ok_def)
qed

lemma authorised_request:
  assumes "authorise_task A raw q n t st = Some (t', st')" "pt_kind t = KIND_EXECUTE_VIA_RUNTIME"
    and "policy_action t = Some a"
  obtains p q' where "pt_permit t' = Some p" "pt_router_request t' = Some q'"
    "ec_requires_local_model (ep_constraints p) = signals (az_show A) (planned_task_action raw t a)"
    "qr_requires_local_model q' = ec_requires_local_model (ep_constraints p)"
    "qr_execution_constraints q' = ep_constraints p"
  by (rule authorise_task_permit [OF assms(1,2)])
     (use assms(3) in \<open>auto simp: constrain_request_def signals_local\<close>)

text \<open>A decision for a request that requires a local model, when it names a provider at all.\<close>

lemma local_route:
  assumes "router_requires_local q" "rd_constraints (fst (route shw now ro q)) = []"
  shows "\<exists>c \<in> set (ro_registry ro). local_registration c \<and>
    rd_provider_id (fst (route shw now ro q)) = mr_provider_id c \<and>
    rd_model_id (fst (route shw now ro q)) = mr_model_id c"
proof -
  obtain c where c: "c \<in> set (routable now ro q)" "rd_provider_id (fst (route shw now ro q)) = mr_provider_id c"
    "rd_model_id (fst (route shw now ro q)) = mr_model_id c"
    using route_member [OF assms(2)] by blast
  note init = routable_sound(1) [OF c(1)]
  show ?thesis using c(2,3) initial_candidates_sound(1) [OF init] initial_candidates_sound(2) [OF init assms(1)] by blast
qed

text \<open>A decision that refuses names neither a provider nor a model.\<close>

lemma refusal_names_nothing:
  assumes "rd_constraints (fst (route shw now ro q)) \<noteq> []"
  shows "rd_provider_id (fst (route shw now ro q)) = [] \<and> rd_model_id (fst (route shw now ro q)) = []"
proof (cases rule: route_fst_cases [of shw now ro q])
  case (refused summary constraint)
  then show ?thesis by (simp add: refused_decision_def)
next
  case chosen
  with assms have "rd_constraints (choose_route shw ro q (routable now ro q)) \<noteq> []" by simp
  then have "\<exists>a b. choose_route shw ro q (routable now ro q) = refused_decision q a b"
    by (auto simp: choose_route_def scored_decision_def Let_def split: option.splits list.splits if_splits)
  with chosen(2) show ?thesis by (auto simp: refused_decision_def)
qed

text \<open>C13: a task that runs through the runtime and carries one of the critical or sensitive signals stays on this
  machine: whatever the router is made of, its decision for the task refuses and names no provider, or names a
  registered local one that is no mock; and with any provider manager whose providers are filed under the id of their
  own metadata, the execution of the task calls local providers only, whatever the decision it is handed, the
  fallback and the stream included.\<close>

theorem sensitive_tasks_stay_local:
  assumes "authorise_task A raw q n t st = Some (t', st')" "pt_kind t = KIND_EXECUTE_VIA_RUNTIME"
    and "policy_action t = Some a" "signals (az_show A) (planned_task_action raw t a)"
  shows "\<exists>q'. pt_router_request t' = Some q' \<and>
    (\<forall>shw now ro. rd_constraints (fst (route shw now ro q')) \<noteq> [] \<and>
         rd_provider_id (fst (route shw now ro q')) = [] \<and> rd_model_id (fst (route shw now ro q')) = [] \<or>
       (\<exists>c \<in> set (ro_registry ro). local_registration c \<and>
          rd_provider_id (fst (route shw now ro q')) = mr_provider_id c \<and>
          rd_model_id (fst (route shw now ro q')) = mr_model_id c)) \<and>
    (\<forall>X ctx plan ov pc routing m. registry_filed (pm_registry m) \<longrightarrow>
       (\<forall>pid \<in> set (tried (fst (snd (call_provider X ctx (workflow_task plan ov pc t') routing m)))).
          \<exists>i. get_info (pm_registry m) pid = Some i \<and> pi_execution_location i = LOCAL))"
proof -
  obtain p q' where p: "pt_permit t' = Some p" "pt_router_request t' = Some q'"
    "ec_requires_local_model (ep_constraints p)" "qr_requires_local_model q'"
    by (rule authorised_request [OF assms(1-3)]) (use assms(4) in simp)
  have "\<exists>i. get_info (pm_registry m) pid = Some i \<and> pi_execution_location i = LOCAL"
    if filed: "registry_filed (pm_registry m)"
      and tried: "pid \<in> set (tried (fst (snd (call_provider X ctx (workflow_task plan ov pc t') routing m))))"
    for X ctx plan ov pc routing pid and m :: "'b provider_manager"
  proof -
    obtain i where i: "pid = pi_provider_id i" "i \<in> set (candidate_infos m (rd_provider_id routing)
        (Some [pt_execution_action_type t']) (Some (ep_constraints p)))"
      using subsetD [OF call_provider_tries tried] p(1) by auto
    show ?thesis
      using filed_lookup [OF filed candidate_listed [OF i(2)]] candidate_infos_sound(2) [OF i(2) refl p(3)] i(1) by auto
  qed
  moreover have "rd_constraints (fst (route shw now ro q')) \<noteq> [] \<and>
        rd_provider_id (fst (route shw now ro q')) = [] \<and> rd_model_id (fst (route shw now ro q')) = [] \<or>
      (\<exists>c \<in> set (ro_registry ro). local_registration c \<and>
         rd_provider_id (fst (route shw now ro q')) = mr_provider_id c \<and>
         rd_model_id (fst (route shw now ro q')) = mr_model_id c)" for shw now ro
    using refusal_names_nothing [of shw now ro q'] local_route [of q' shw now ro] p(4)
    by (auto simp: router_requires_local_def)
  ultimately show ?thesis using p(2) by blast
qed

theorem sensitive_tasks_stay_local_witness:
  "\<exists>t' st' q'. authorise_task sample_authority ''my password is x'' sample_router_request 0 (sample_plan_task ''t1'' []) None
       = Some (t', st') \<and> pt_router_request t' = Some q' \<and>
     (\<forall>shw now ro. rd_provider_id (fst (route shw now ro q')) \<noteq> [] \<longrightarrow>
        (\<exists>c \<in> set (ro_registry ro). local_registration c \<and>
           rd_provider_id (fst (route shw now ro q')) = mr_provider_id c))"
proof -
  obtain t' st' where a: "authorise_task sample_authority ''my password is x'' sample_router_request 0
      (sample_plan_task ''t1'' []) None = Some (t', st')"
    using authorise_task_total [OF sample_policy_action] by blast
  have "pt_kind (sample_plan_task ''t1'' []) = KIND_EXECUTE_VIA_RUNTIME" by (simp add: sample_plan_task_def)
  note k = this
  have "signals (az_show sample_authority) (planned_task_action ''my password is x'' (sample_plan_task ''t1'' []) ''text_generation'')"
    using sample_secret by (simp add: sample_authority_def)
  from sensitive_tasks_stay_local [OF a k sample_policy_action this] obtain q' where
    "pt_router_request t' = Some q'"
    "\<forall>shw now ro. rd_constraints (fst (route shw now ro q')) \<noteq> [] \<and>
         rd_provider_id (fst (route shw now ro q')) = [] \<and> rd_model_id (fst (route shw now ro q')) = [] \<or>
       (\<exists>c \<in> set (ro_registry ro). local_registration c \<and>
          rd_provider_id (fst (route shw now ro q')) = mr_provider_id c \<and>
          rd_model_id (fst (route shw now ro q')) = mr_model_id c)" by blast
  with a show ?thesis by blast
qed

text \<open>The authorisation replaces what the plan asked for: the router request handed on requires a local model
  exactly when the classifier found a signal, so that a request the planner bound to a local model
  because its user wrote \<open>offline\<close> or \<open>do not send\<close> is released to the cloud.\<close>

theorem request_locality_is_replaced:
  assumes "authorise_task A raw q n t st = Some (t', st')" "pt_kind t = KIND_EXECUTE_VIA_RUNTIME"
    and "policy_action t = Some a"
  shows "\<exists>q'. pt_router_request t' = Some q' \<and>
    (router_requires_local q' \<longleftrightarrow> signals (az_show A) (planned_task_action raw t a))"
  by (rule authorised_request [OF assms]) (auto simp: router_requires_local_def)

theorem request_locality_is_replaced_witness:
  "\<exists>t' st' q'. authorise_task sample_authority ''work offline'' sample_router_request 0 (sample_plan_task ''t1'' []) None
       = Some (t', st') \<and> goal_requires_local ''work offline'' \<and> router_requires_local sample_router_request \<and>
     pt_router_request t' = Some q' \<and> \<not> router_requires_local q'"
proof -
  obtain t' st' where a: "authorise_task sample_authority ''work offline'' sample_router_request 0
      (sample_plan_task ''t1'' []) None = Some (t', st')"
    using authorise_task_total [OF sample_policy_action] by blast
  have "pt_kind (sample_plan_task ''t1'' []) = KIND_EXECUTE_VIA_RUNTIME" by (simp add: sample_plan_task_def)
  moreover have "goal_requires_local ''work offline''" by code_simp
  moreover have "router_requires_local sample_router_request"
    by (simp add: router_requires_local_def sample_router_request_def)
  ultimately show ?thesis
    using request_locality_is_replaced [OF a _ sample_policy_action] sample_plain a by (auto simp: sample_authority_def)
qed

section \<open>Authorised tasks run\<close>

lemma authorize_allowed:
  assumes "pd_allowed (ar_policy req)" "\<not> pd_approval_required (ar_policy req)"
  shows "\<exists>rs src prov. fst (authorize C key pid now get put st req subject session workspace) =
    issue_permit C key pid now (case ar_operation req of Some op \<Rightarrow> op | None \<Rightarrow> ar_action req) subject session
      workspace (ar_policy req) ALLOW rs src prov ''cap.policy_engine''"
  using assms by (auto simp: authorize_def decide_def approval_outcome_of_def Let_def)

lemma authorised_by:
  assumes "authorise_task A raw q n t st = Some (t', st')" "pt_kind t = KIND_EXECUTE_VIA_RUNTIME"
    and "policy_action t = Some a" "pt_permit t' = Some p"
  shows "p = fst (authorize (az_crypto A) (az_key A) (az_permit_id A n) (az_now A n) (az_get A) (az_put A) st
      \<lparr>ar_action = planned_task_action raw t a, ar_policy = evaluate (az_show A) (planned_task_action raw t a),
       ar_operation = Some (task_operation raw t), ar_remember = False\<rparr>
      (az_subject A) (az_session A) (az_workspace A))"
proof -
  obtain p' st1 where p': "authorize (az_crypto A) (az_key A) (az_permit_id A n) (az_now A n) (az_get A) (az_put A) st
      \<lparr>ar_action = planned_task_action raw t a, ar_policy = evaluate (az_show A) (planned_task_action raw t a),
       ar_operation = Some (task_operation raw t), ar_remember = False\<rparr>
      (az_subject A) (az_session A) (az_workspace A) = (p', st1)" by fastforce
  have "pt_permit t' = Some p'"
    using assms(1) unfolding authorise_task_def assms(3) option.case Let_def p' prod.case
    by (auto simp: assms(2) split: if_splits)
  with assms(4) p' show ?thesis by simp
qed

lemma allowed_permit:
  assumes "authorise_task A raw q n t st = Some (t', st')" "pt_kind t = KIND_EXECUTE_VIA_RUNTIME"
    and "policy_action t = Some a" "pd_allowed (evaluate (az_show A) (planned_task_action raw t a))"
    and "pt_permit t' = Some p"
  shows "ep_decision p = ALLOW" "ep_session_id p = az_session A" "ep_workspace_id p = az_workspace A"
    "ep_subject_id p = az_subject A" "ep_action_id p = pt_task_id t"
    "verify_integrity (az_crypto A) (az_key A) p"
    "utc_us (ep_issued_at p) = utc_us (az_now A n)"
    "utc_us (ep_expires_at p) = utc_us (az_now A n) + PERMIT_LIFETIME"
proof -
  let ?req = "\<lparr>ar_action = planned_task_action raw t a, ar_policy = evaluate (az_show A) (planned_task_action raw t a),
       ar_operation = Some (task_operation raw t), ar_remember = False\<rparr>"
  have req: "pd_allowed (ar_policy ?req)" "\<not> pd_approval_required (ar_policy ?req)"
    using assms(4) by (simp_all add: evaluate_simps)
  obtain rs src prov where "fst (authorize (az_crypto A) (az_key A) (az_permit_id A n) (az_now A n) (az_get A) (az_put A) st
      ?req (az_subject A) (az_session A) (az_workspace A)) =
    issue_permit (az_crypto A) (az_key A) (az_permit_id A n) (az_now A n)
      (case ar_operation ?req of Some op \<Rightarrow> op | None \<Rightarrow> ar_action ?req) (az_subject A) (az_session A) (az_workspace A)
      (ar_policy ?req) ALLOW rs src prov ''cap.policy_engine''"
    using authorize_allowed [OF req] by blast
  then have p: "p = issue_permit (az_crypto A) (az_key A) (az_permit_id A n) (az_now A n)
      (task_operation raw t) (az_subject A) (az_session A) (az_workspace A)
      (evaluate (az_show A) (planned_task_action raw t a)) ALLOW rs src prov ''cap.policy_engine''"
    unfolding authorised_by [OF assms(1-3,5)] by simp
  show "ep_decision p = ALLOW" "ep_session_id p = az_session A" "ep_workspace_id p = az_workspace A"
    "ep_subject_id p = az_subject A" "ep_action_id p = pt_task_id t" "verify_integrity (az_crypto A) (az_key A) p"
    "utc_us (ep_issued_at p) = utc_us (az_now A n)" "utc_us (ep_expires_at p) = utc_us (az_now A n) + PERMIT_LIFETIME"
    unfolding p by (simp_all add: issue_permit_simps task_operation_def)
qed

text \<open>C14: a provider or tool task that the policy allows passes the runtime's gate: the permit issued for it is
  accepted for the task the workflow builds, with the decision of any router for its request, as long as the
  principal, session and workspace are those it was issued for, it has not expired, the name of a tool is a text,
  no override of a resume replaces the arguments, and the metadata of a provider task carry no system prompt.\<close>

theorem allowed_task_passes_gate:
  assumes auth: "authorise_task A (pn_raw_request plan) q n t st = Some (t', st')"
    and task: "pt_kind t = KIND_EXECUTE_VIA_RUNTIME" "pt_execution_action_type t \<in> set EXECUTABLE_TYPES" "plain_tool t"
      "pt_execution_action_type t \<in> set PROVIDER_ACTIONS \<longrightarrow>
        (case map_of (pt_metadata t) ''system_prompt'' of Some v \<Rightarrow> \<not> truthy v | None \<Rightarrow> True)"
    and allowed: "policy_action t = Some a"
      "pd_allowed (evaluate (az_show A) (planned_task_action (pn_raw_request plan) t a))"
    and principal: "expected_subject (Some ctx) (workflow_task plan ov pc t') = Some (az_subject A)"
      "rc_session_id ctx = az_session A" "rc_workspace_id ctx = az_workspace A"
    and time: "utc_us (az_now A n) \<le> utc_us now" "utc_us now < utc_us (az_now A n) + PERMIT_LIFETIME"
    and pydantic: "\<And>ec. validate (constraints_value ec) = Some ec"
    and override: "map_of ov (pt_task_id t) = None"
  shows "\<exists>q'. pt_router_request t' = Some q' \<and>
    enforce_cap_permit (az_crypto A) (az_key A) shw validate now (workflow_task plan ov pc t')
      (if pt_execution_action_type t \<in> set PROVIDER_ACTIONS then fst (route shr clock ro q')
       else bypassed_routing (pt_execution_action_type t)) started duration (Some ctx) = Granted"
proof -
  obtain p q' where p: "pt_permit t' = Some p" "pt_router_request t' = Some q'"
    "qr_execution_constraints q' = ep_constraints p"
    by (rule authorised_request [OF auth task(1) allowed(1)]) simp
  let ?routing = "if pt_execution_action_type t \<in> set PROVIDER_ACTIONS then fst (route shr clock ro q')
    else bypassed_routing (pt_execution_action_type t)"
  have "rd_execution_constraints (fst (route shr clock ro q')) = ep_constraints p"
    using route_fst_cases [of shr clock ro q'] choose_route_constraints p(3) by (metis decision_constraints(1))
  then have "operation_bound (az_crypto A) shw validate (workflow_task plan ov pc t') ?routing p"
    by (intro authorised_task_bound [OF auth task(1,3,2,4) override p(1) pydantic]) simp
  moreover have "pt_task_id t' = pt_task_id t"
    by (rule authorised_metadata [OF auth task(1)]) (simp add: same_request_def)
  then have "permit_applies (az_crypto A) (az_key A) now (Some ctx) (workflow_task plan ov pc t') p"
    unfolding permit_applies_def allowed_permit [OF auth task(1) allowed p(1)] principal(1)
    using principal(2,3) time allowed_permit(6) [OF auth task(1) allowed p(1)]
    by (simp add: PERMIT_CLOCK_SKEW_def)
  ultimately show ?thesis using p(1,2) unfolding granted_iff by auto
qed

theorem allowed_task_passes_gate_witness:
  "\<exists>t' st'. authorise_task sample_authority ''work offline'' sample_router_request 0 (sample_plan_task ''t1'' []) None
       = Some (t', st') \<and> (\<exists>q'. pt_router_request t' = Some q' \<and>
     (\<forall>shr clock ro. enforce_cap_permit sample_crypto ''k'' sample_show sample_decode (Aware 0 0)
        (workflow_task (sample_plan [sample_plan_task ''t1'' []]) [] None t') (fst (route shr clock ro q'))
        (Aware 0 0) 0 (Some sample_context) = Granted))"
proof -
  let ?t = "sample_plan_task ''t1'' []" and ?plan = "sample_plan [sample_plan_task ''t1'' []]"
  obtain t' st' where a: "authorise_task sample_authority ''work offline'' sample_router_request 0 ?t None = Some (t', st')"
    using authorise_task_total [OF sample_policy_action] by blast
  have t: "pt_kind ?t = KIND_EXECUTE_VIA_RUNTIME" "pt_execution_action_type ?t = ''text_generation''"
    "pt_metadata ?t = []"
    by (simp_all add: sample_plan_task_def)
  have raw: "pn_raw_request ?plan = ''work offline''" by (simp add: sample_plan_def)
  have f: "az_crypto sample_authority = sample_crypto" "az_key sample_authority = ''k''"
    "az_show sample_authority = sample_show" "az_subject sample_authority = ''ann''"
    "az_session sample_authority = None" "az_workspace sample_authority = None" "az_now sample_authority n = Aware 0 0" for n
    by (simp_all add: sample_authority_def)
  have c: "rc_session_id sample_context = None" "rc_workspace_id sample_context = None"
    by (simp_all add: sample_context_def)
  have subject: "expected_subject (Some sample_context) (workflow_task ?plan [] None t') = Some ''ann''"
    by (simp add: expected_subject_def sample_context_def opt_nonempty_def authorization_subject_id_def str_or_def)
  have "ec_requires_local_model (pd_constraints (evaluate sample_show (planned_task_action ''work offline'' ?t ''text_generation'')))
      = False" using sample_plain signals_local by simp
  then have "pc_category (classify sample_show (classified_value (planned_task_action ''work offline'' ?t ''text_generation'')))
      \<notin> {SENSITIVE, CRITICAL_DATA}" by (simp add: evaluate_simps)
  then have allowed: "pd_allowed (evaluate sample_show (planned_task_action ''work offline'' ?t ''text_generation''))"
    using sample_required unfolding evaluate_simps(3,4) by (simp add: approval_required_for_def risk_for_def evaluate_simps)
  have gate: "\<exists>q'. pt_router_request t' = Some q' \<and>
      enforce_cap_permit sample_crypto ''k'' sample_show sample_decode (Aware 0 0) (workflow_task ?plan [] None t')
        (fst (route shr clock ro q')) (Aware 0 0) 0 (Some sample_context) = Granted" for shr clock ro
    using allowed_task_passes_gate [of sample_authority ?plan sample_router_request 0 ?t None t' st' "''text_generation''"
        sample_context "[]" None "Aware 0 0" sample_decode sample_show shr clock ro "Aware 0 0" 0]
      a t allowed subject sample_decode_value
    by (simp add: f raw c EXECUTABLE_TYPES_def PROVIDER_ACTIONS_def plain_tool_def PERMIT_LIFETIME_def)
  then obtain q' where q': "pt_router_request t' = Some q'" by blast
  then have "enforce_cap_permit sample_crypto ''k'' sample_show sample_decode (Aware 0 0) (workflow_task ?plan [] None t')
      (fst (route shr clock ro q')) (Aware 0 0) 0 (Some sample_context) = Granted" for shr clock ro
    using gate [of shr clock ro] by simp
  then show ?thesis using a q' by blast
qed

text \<open>With a system prompt in its metadata a provider task is refused by the gate whatever the policy decided,
  because the workflow adds the prompt to the inputs of the task and the authorisation did not sign it; the
  hypotheses are a digest without collisions, number texts that JSON can carry and no override.\<close>

theorem system_prompt_is_refused:
  assumes "inj (sha256 (az_crypto A))"
    and auth: "authorise_task A (pn_raw_request plan) q n t st = Some (t', st')"
    and task: "pt_kind t = KIND_EXECUTE_VIA_RUNTIME" "pt_execution_action_type t \<in> set PROVIDER_ACTIONS"
    and system: "map_of (pt_metadata t) ''system_prompt'' = Some v" "truthy v" "map_of (task_args t) ''system_prompt'' = None"
    and floats: "floats_ok v" "floats_ok (PDict (task_args t))" and override: "map_of ov (pt_task_id t) = None"
  shows "enforce_cap_permit (az_crypto A) key shw validate now (workflow_task plan ov pc t') routing started duration context
    \<noteq> Granted"
proof -
  obtain p where "pt_permit t' = Some p" by (rule authorised_metadata [OF auth task(1)])
  moreover have "rt_permit (workflow_task plan ov pc t') = pt_permit t'" by (simp add: workflow_task_def)
  ultimately show ?thesis
    using system_prompt_unbound [OF assms(1) auth _ task system floats override] unfolding granted_iff by auto
qed

theorem system_prompt_is_refused_witness:
  "\<exists>t' st'. authorise_task sample_authority ''hello'' sample_router_request 0
       ((sample_plan_task ''t1'' [])\<lparr>pt_metadata := [(''system_prompt'', PStr ''be kind'')]\<rparr>) None = Some (t', st') \<and>
     enforce_cap_permit sample_crypto ''k'' sample_show sample_decode (Aware 0 0)
       (workflow_task ((sample_plan [sample_plan_task ''t1'' []])\<lparr>pn_raw_request := ''hello''\<rparr>) [] None t')
       (bypassed_routing ''text_generation'') (Aware 0 0) 0 (Some sample_context) \<noteq> Granted"
proof -
  let ?t = "(sample_plan_task ''t1'' [])\<lparr>pt_metadata := [(''system_prompt'', PStr ''be kind'')]\<rparr>"
  let ?plan = "(sample_plan [sample_plan_task ''t1'' []])\<lparr>pn_raw_request := ''hello''\<rparr>"
  have "policy_action ?t = Some ''text_generation''"
    by (simp add: policy_action_def sample_plan_task_def is_internet_task_def base_action_def as_str_def)
  then obtain t' st' where a: "authorise_task sample_authority ''hello'' sample_router_request 0 ?t None = Some (t', st')"
    using authorise_task_total by blast
  have c: "az_crypto sample_authority = sample_crypto" by (simp add: sample_authority_def)
  have t: "pt_kind ?t = KIND_EXECUTE_VIA_RUNTIME" "pt_execution_action_type ?t \<in> set PROVIDER_ACTIONS"
    "map_of (pt_metadata ?t) ''system_prompt'' = Some (PStr ''be kind'')" "task_args ?t = []"
    by (simp_all add: sample_plan_task_def PROVIDER_ACTIONS_def task_args_def)
  have "enforce_cap_permit (az_crypto sample_authority) ''k'' sample_show sample_decode (Aware 0 0)
       (workflow_task ?plan [] None t') (bypassed_routing ''text_generation'') (Aware 0 0) 0 (Some sample_context) \<noteq> Granted"
    by (rule system_prompt_is_refused [where t = ?t and v = "PStr ''be kind''" and q = sample_router_request and n = 0
          and st = None and st' = st'])
      (use a t in \<open>simp_all add: c sample_sha\<close>)
  with a c show ?thesis by auto
qed

section \<open>The choice of a provider\<close>

text \<open>C15: when the router decides for a provider, it takes the configured one if that is among the candidates that
  pass every filter; otherwise, when there is capability data for the providers of these candidates, one whose
  capability is eligible and scores at least as high as every other eligible one; and without capability data the
  first of them.\<close>

theorem scored_choice_is_best:
  assumes "capabilities_filed ro" "rd_constraints (fst (route shw now ro q)) = []"
  shows "if opt_nonempty (ro_preferred ro) \<and> (\<exists>c \<in> set (routable now ro q). Some (mr_provider_id c) = ro_preferred ro)
    then Some (rd_provider_id (fst (route shw now ro q))) = ro_preferred ro
    else if scoreable_capabilities ro (routable now ro q) = []
    then \<exists>c rest. routable now ro q = c # rest \<and> rd_provider_id (fst (route shw now ro q)) = mr_provider_id c \<and>
      rd_model_id (fst (route shw now ro q)) = mr_model_id c
    else \<exists>c k. c \<in> set (routable now ro q) \<and> capability_for ro c = Some k \<and> capability_eligible q k (ro_policy ro) \<and>
      rd_provider_id (fst (route shw now ro q)) = mr_provider_id c \<and>
      rd_model_id (fst (route shw now ro q)) = mr_model_id c \<and>
      (\<forall>c' \<in> set (routable now ro q). \<forall>k'. capability_for ro c' = Some k' \<longrightarrow> capability_eligible q k' (ro_policy ro) \<longrightarrow>
         sc_score (score_capability q k' (ro_policy ro)) \<le> sc_score (score_capability q k (ro_policy ro)))"
proof -
  let ?cs = "routable now ro q" and ?p = "ro_policy ro"
  have r: "fst (route shw now ro q) = choose_route shw ro q ?cs" "?cs \<noteq> []"
    by (rule route_fst_cases [of shw now ro q]; use assms(2) in simp)+
  show ?thesis
  proof (cases "opt_nonempty (ro_preferred ro) \<and> (\<exists>c \<in> set ?cs. Some (mr_provider_id c) = ro_preferred ro)")
    case True
    then obtain c where "List.find (\<lambda>c. Some (mr_provider_id c) = ro_preferred ro) ?cs = Some c"
      by (metis (mono_tags, lifting) find_None_iff not_None_eq)
    then show ?thesis
      using True find_SomeD by (fastforce simp: r(1) choose_route_def Let_def)
  next
    case False
    then have "(if opt_nonempty (ro_preferred ro) then List.find (\<lambda>c. Some (mr_provider_id c) = ro_preferred ro) ?cs
        else None) = None" by (auto simp: find_None_iff)
    note none = this
    show ?thesis
    proof (cases "scoreable_capabilities ro ?cs = []")
      case True
      obtain c rest where cs: "?cs = c # rest" using r(2) by (cases ?cs) auto
      have "fst (route shw now ro q) = chosen_decision q (hd ?cs)
          (''Selected '' @ mr_provider_id (hd ?cs) @ ''/'' @ mr_model_id (hd ?cs) @ '' for capability: '' @ capability_of_request q)
          [(''capability'', PStr (capability_of_request q))]"
        unfolding r(1) choose_route_def Let_def none True by simp
      with cs have "rd_provider_id (fst (route shw now ro q)) = mr_provider_id c"
        "rd_model_id (fst (route shw now ro q)) = mr_model_id c" by (simp_all add: chosen_decision_def)
      with cs show ?thesis unfolding if_not_P [OF False] if_P [OF True] by blast
    next
      case scored: False
    from none have c: "choose_route shw ro q ?cs = (case rank_capabilities q (scoreable_capabilities ro ?cs) ?p of
        best # _ \<Rightarrow> scored_decision shw q ?cs (scoreable_capabilities ro ?cs) best
      | [] \<Rightarrow> refused_decision q ''No eligible model satisfies routing constraints'' ''routing_constraints'')"
      using scored by (simp add: choose_route_def Let_def)
    then obtain best rest where best: "rank_capabilities q (scoreable_capabilities ro ?cs) ?p = best # rest"
      using assms(2) r(1) by (auto split: list.splits)
    obtain c k where k: "c \<in> set ?cs" "capability_for ro c = Some k" "capability_eligible q k ?p"
      "best = score_capability q k ?p"
      "List.find (\<lambda>c. mr_provider_id c = sc_provider_id best \<and> mr_model_id c = sc_model_id best) ?cs \<noteq> None"
      using best_score(1) [OF assms(1) best] by blast
    then obtain d where d: "List.find (\<lambda>c. mr_provider_id c = sc_provider_id best \<and> mr_model_id c = sc_model_id best) ?cs = Some d"
      by blast
    have "rd_provider_id (fst (route shw now ro q)) = sc_provider_id best"
      "rd_model_id (fst (route shw now ro q)) = sc_model_id best"
      using find_SomeD [OF d] d by (simp_all add: r(1) c best scored_decision_def Let_def)
    then have "rd_provider_id (fst (route shw now ro q)) = mr_provider_id c"
      "rd_model_id (fst (route shw now ro q)) = mr_model_id c"
      using k(4) capability_for_ids [OF assms(1) k(2)] by simp_all
    moreover have "sc_score (score_capability q k' ?p) \<le> sc_score (score_capability q k ?p)"
      if "c' \<in> set ?cs" "capability_for ro c' = Some k'" "capability_eligible q k' ?p" for c' k'
      using best_score(2) [OF assms(1) best that] k(4) by simp
    ultimately show ?thesis unfolding if_not_P [OF False] if_not_P [OF scored] using k(1-3) by blast
    qed
  qed
qed

theorem scored_choice_is_best_witness:
  "\<exists>k. rd_provider_id (fst (route (\<lambda>_. []) 0 (sample_router None) sample_router_request)) = cap_provider_id k \<and>
     52 \<le> sc_score (score_capability sample_router_request k default_routing_policy)"
proof -
  let ?cs = "[sample_registration ''slow'', sample_registration ''fast'']"
  have "scoreable_capabilities (sample_router None) (routable 0 (sample_router None) sample_router_request) \<noteq> []"
    unfolding sample_routable sample_scoreable by simp
  with scored_choice_is_best [where shw = "\<lambda>_. []" and now = 0, OF sample_filed sample_route_decides]
  obtain c k where k: "capability_for (sample_router None) c = Some k"
    "rd_provider_id (fst (route (\<lambda>_. []) 0 (sample_router None) sample_router_request)) = mr_provider_id c"
    "sc_score (score_capability sample_router_request (sample_capability ''fast'' 7) default_routing_policy)
      \<le> sc_score (score_capability sample_router_request k default_routing_policy)"
    unfolding sample_routable using sample_capability_for [of None] sample_scores(2)
    by (auto simp: opt_nonempty_def)
  then show ?thesis using capability_for_ids [OF sample_filed k(1)] by (intro exI [of _ k]) (simp add: sample_scores)
qed

section \<open>Providers at rest\<close>

text \<open>C16: whatever queries, checks, calls and cooldowns brought the health checker where it is, a provider whose
  cooldown has not run out is not chosen by the router and not called by the manager, as the routed provider or as
  a fallback, plain or streaming; and the calls leave the checker in such a state again.\<close>

theorem cooling_provider_rests:
  assumes "health_history settings h" "map_of (hc_cooldowns h) pid = Some until"
  shows "(\<forall>shw now ro q. ro_health ro = Some h \<longrightarrow> now < until \<longrightarrow> rd_constraints (fst (route shw now ro q)) = [] \<longrightarrow>
       rd_provider_id (fst (route shw now ro q)) \<noteq> pid) \<and>
    (\<forall>env primary payload mid req cs (m :: 'p provider_manager). pm_health m = h \<longrightarrow> (\<forall>k. pe_clock env k < until) \<longrightarrow>
       pid \<notin> set (tried (fst (snd (execute_provider env primary payload mid req cs m)))) \<and>
       health_history settings (pm_health (snd (snd (execute_provider env primary payload mid req cs m))))) \<and>
    (\<forall>env q (m :: 'p provider_manager). pm_health m = h \<longrightarrow> (\<forall>k. pe_clock env k < until) \<longrightarrow>
       pid \<notin> set (tried (fst (snd (stream_provider env q m)))) \<and>
       health_history settings (pm_health (snd (snd (stream_provider env q m)))))"
proof (intro conjI allI impI)
  have ok: "cooldown_consistent h" by (rule history_consistent [OF assms(1)])
  fix shw now ro q
  assume r: "ro_health ro = Some h" "now < until" "rd_constraints (fst (route shw now ro q)) = []"
  then obtain c where "c \<in> set (routable now ro q)" "rd_provider_id (fst (route shw now ro q)) = mr_provider_id c"
    using route_member by blast
  then show "rd_provider_id (fst (route shw now ro q)) \<noteq> pid"
    using routable_sound(3) r(1) cooling_unavailable(1) [OF ok assms(2) r(2)] by metis
next
  fix env :: "'p provider_env" and primary payload mid req cs and m :: "'p provider_manager"
  assume "pm_health m = h" "\<forall>k. pe_clock env k < until"
  then show "pid \<notin> set (tried (fst (snd (execute_provider env primary payload mid req cs m))))"
    using calls_skip_cooling(1) [of pid until m] history_consistent [OF assms(1)] assms(2) by (simp add: cooling_def)
next
  fix env :: "'p provider_env" and primary payload mid req cs and m :: "'p provider_manager"
  assume "pm_health m = h"
  then show "health_history settings (pm_health (snd (snd (execute_provider env primary payload mid req cs m))))"
    using calls_keep_history(1) assms(1) by blast
next
  fix env :: "'p provider_env" and q and m :: "'p provider_manager"
  assume "pm_health m = h" "\<forall>k. pe_clock env k < until"
  then show "pid \<notin> set (tried (fst (snd (stream_provider env q m))))"
    using calls_skip_cooling(2) [of pid until m] history_consistent [OF assms(1)] assms(2) by (simp add: cooling_def)
next
  fix env :: "'p provider_env" and q and m :: "'p provider_manager"
  assume "pm_health m = h"
  then show "health_history settings (pm_health (snd (snd (stream_provider env q m))))"
    using calls_keep_history(2) assms(1) by blast
qed

theorem cooling_provider_rests_witness:
  "''slow'' \<notin> set (tried (fst (snd (execute_provider (sample_provider_env 5) ''slow'' sample_payload None None None
     (sample_manager sample_cooling)))))"
proof -
  have h: "health_history default_provider_settings sample_cooling"
    unfolding sample_cooling_def by (intro health_history.cooled health_history.start)
  have c: "map_of (hc_cooldowns sample_cooling) ''slow'' = Some 60000000"
    by (simp add: sample_cooling_def mark_cooldown_def new_health_def)
  show ?thesis
    by (rule cooling_provider_rests [OF h c, THEN conjunct2, THEN conjunct1, rule_format, THEN conjunct1])
       (simp_all add: sample_manager_def sample_provider_env_def)
qed

section \<open>A healthy candidate answers\<close>

text \<open>C17: with the fallback on, one candidate whose cached status is available and whose provider does not report
  a failure makes the call succeed, whatever the candidates tried before it answer, as long as no provider
  raises and no candidate declares a context limit.\<close>

theorem some_healthy_candidate_answers:
  assumes "healthy pid m" "get_provider (pm_registry m) pid = Some p" "ps_fallback_enabled (pm_settings m)"
    and "pid \<in> pi_provider_id ` set (candidate_infos m primary req cs)"
    and "\<forall>i \<in> set (candidate_infos m primary req cs). pi_maximum_context i \<le> 0"
    and "\<And>n p' pl. \<exists>raw. pe_answer env n p' pl = Inr raw"
    and "\<And>n pl raw. pe_answer env n p pl = Inr raw \<Longrightarrow> rw_success raw \<noteq> Some False"
  shows "\<exists>r. fst (execute_provider env primary payload mid req cs m) = Responded r \<and> pr_success r"
  using assms by (rule call_answers)

theorem some_healthy_candidate_answers_witness:
  "\<exists>r. fst (execute_provider (sample_provider_env 5) ''slow'' sample_payload None None None
     (sample_manager sample_checked)) = Responded r \<and> pr_success r"
proof (rule some_healthy_candidate_answers [where pid = "''fast''" and p = True])
  let ?m = "sample_manager sample_checked"
  have infos: "candidate_infos ?m ''slow'' None None = [sample_info ''slow'', sample_info ''fast'']"
    by (simp add: candidate_infos_def sample_manager_def get_info_def sample_info_def list_providers_def
        default_provider_settings_def)
  show "healthy ''fast'' ?m"
    by (simp add: healthy_def sample_manager_def sample_checked_def record_success_def status_or_new_def new_health_def
        unseen_status_def)
  show "get_provider (pm_registry ?m) ''fast'' = Some True"
    by (simp add: get_provider_def sample_manager_def)
  show "ps_fallback_enabled (pm_settings ?m)" by (simp add: sample_manager_def default_provider_settings_def)
  show "''fast'' \<in> pi_provider_id ` set (candidate_infos ?m ''slow'' None None)"
    "\<forall>i \<in> set (candidate_infos ?m ''slow'' None None). pi_maximum_context i \<le> 0"
    unfolding infos by (simp_all add: sample_info_def)
qed (auto simp: sample_provider_env_def sample_answer_def)

section \<open>Workflows\<close>

text \<open>C18: in every run of a workflow that comes back, fresh or resumed from a state of the same plan, a task is handed
  to the runtime at most once, never one that the state it resumes from records as completed or failed, and only
  when every task it depends on had completed; the ids of the plan are distinct and the runtime answers a batch with
  one result for each of its tasks. (A state does not record what completed behind a paused result of its batch.)\<close>

theorem workflow_runs_once_in_order:
  assumes "answers_batch E" "distinct (plan_ids plan)" "resumable plan resume"
    and "run_workflow fuel E plan resume prepared pm metrics w = Some (res, L)"
  shows "distinct (map (rt_task_id \<circ> fst) (lp_dispatched L)) \<and>
    rt_task_id ` fst ` set (lp_dispatched L) \<inter> resumed_ids resume = {} \<and>
    (\<forall>(rt, before) \<in> set (lp_dispatched L). set before \<subseteq> set (sd_completed (lp_scheduler L)) \<and>
       (\<exists>t \<in> set (pn_tasks plan). rt_task_id rt = pt_task_id t \<and> rt_permit rt = pt_permit t \<and>
          pt_kind t = KIND_EXECUTE_VIA_RUNTIME \<and> set (pt_dependencies t) \<subseteq> set before))"
proof -
  obtain ov where ok: "dispatch_ok plan ov (resumed_ids resume) L"
    using run_workflow_ok [OF assms] by blast
  then show ?thesis
    unfolding dispatch_ok_def dispatched_ids_def by (fastforce simp: image_comp)
qed

theorem workflow_runs_once_in_order_witness:
  "distinct (map (rt_task_id \<circ> fst) (lp_dispatched (snd (the sample_workflow_run))))"
proof -
  obtain res L where r: "sample_workflow_run = Some (res, L)" using sample_run_ends by auto
  have "distinct (plan_ids sample_steps)" by (simp add: sample_steps_ids)
  from workflow_runs_once_in_order [OF sample_answers this sample_resumable r [unfolded sample_workflow_run_def]]
  show ?thesis unfolding r by simp
qed

text \<open>C19: a run of a plan whose ids are distinct and whose dependencies name tasks of the plan and have no cycle, on a
  runtime that answers a batch with one result for each of its tasks, comes back within one round
  per task and one more; it is paused then, or every task has completed, has failed, or waits for one that failed,
  and it succeeded exactly when every task completed.\<close>

theorem workflow_ends_accounted:
  assumes "answers_batch E" "distinct (plan_ids plan)" "resumable plan resume" "length (pn_tasks plan) < fuel"
    and "pn_tasks plan \<noteq> []" "\<not> workflow_cyclic (plan_graph (pn_tasks plan))"
    and "\<forall>t \<in> set (pn_tasks plan). set (pt_dependencies t) \<subseteq> set (plan_ids plan)"
  shows "\<exists>res L. run_workflow fuel E plan resume prepared pm metrics w = Some (res, L) \<and>
    (ws_status (wf_state res) = EXEC_PAUSED \<or>
      (\<forall>tid \<in> set (plan_ids plan). tid \<in> set (sd_completed (lp_scheduler L)) \<or> tid \<in> set (sd_failed (lp_scheduler L)) \<or>
         (\<exists>f \<in> set (sd_failed (lp_scheduler L)). (f, tid) \<in> (depends_chain (plan_graph (pn_tasks plan)))\<^sup>+)) \<and>
      (wf_success res \<longleftrightarrow> set (plan_ids plan) \<subseteq> set (sd_completed (lp_scheduler L))))"
proof -
  obtain res L where r: "run_workflow fuel E plan resume prepared pm metrics w = Some (res, L)"
    using run_workflow_ends [OF assms(1-4)] by (metis not_None_eq prod.exhaust)
  note start = start_workflow_resumable [OF assms(3), where E = E and prepared = prepared and pm = pm and metrics = metrics and w = w]
  show ?thesis
  proof (cases rule: run_workflow_cases [OF r, case_names refused ran])
    case (refused err)
    then show ?thesis using assms(5,6) by simp
  next
    case (ran ov out L')
    note loop = workflow_loop_ok [OF assms(1,2) ran(1), of "resumed_ids resume"]
    have ok: "loop_ok plan (resumed_ids resume) L'" and ends: "out = LoopFinished \<longrightarrow> is_finished (lp_scheduler L')"
      "out = LoopDeadlocked \<longrightarrow> \<not> is_finished (lp_scheduler L') \<and> next_batch (lp_scheduler L') = []"
      using loop start by simp_all
    from some_task_ready [OF ok assms(2,7,6)] ends(2) have "out \<noteq> LoopDeadlocked" by blast
    then consider "out = LoopPaused" | "out = LoopFinished" by (cases out) auto
    then show ?thesis
    proof cases
      case 1
      then have "ws_status (wf_state res) = EXEC_PAUSED" using ran workflow_loop_paused by auto
      then show ?thesis using r by blast
    next
      case 2
      then have "is_finished (lp_scheduler L')" "fst (finish_workflow E L') = res"
        using ends(1) ran(5) by (auto simp: prod_eq_iff)
      then show ?thesis using finished_run [OF ok assms(2)] r ran(2) by auto
    qed
  qed
qed

theorem workflow_ends_accounted_witness:
  "\<exists>res L. sample_workflow_run = Some (res, L) \<and> (ws_status (wf_state res) = EXEC_PAUSED \<or>
     (wf_success res \<longleftrightarrow> {''a'', ''b''} \<subseteq> set (sd_completed (lp_scheduler L))))"
proof -
  have "distinct (plan_ids sample_steps)" "length (pn_tasks sample_steps) < 3" "pn_tasks sample_steps \<noteq> []"
    by (simp_all add: sample_steps_ids sample_steps_tasks)
  from workflow_ends_accounted [OF sample_answers this(1) sample_resumable this(2,3) sample_acyclic sample_known,
      of None "[]" sample_counters "()"]
  show ?thesis unfolding sample_workflow_run_def [symmetric] sample_steps_ids by auto
qed

end
