(* ===== verification/Checkpoint_Store.thy ===== *)
theory Checkpoint_Store
  imports Gov_Chain Execution_State
begin

text \<open>
  The checkpoint store (\<open>app/runtime/checkpoint.py\<close>): a cache of snapshots, a directory with one
  JSON file per execution, and an integrity index that records the generation and the digest of the
  file last written. A file is the JSON value its text stands for, or the reason it has none; a
  dictionary is compared, signed and validated without regard to the order of its keys. Pydantic's
  \<open>model_validate\<close> and the digest are arguments. Writes of the disk succeed; what a crash between
  the two writes of a save leaves behind is stated below. Repairing the access rights of the index
  (\<open>secure_file\<close>) is left out: an index that cannot be read refuses the start. The values some
  error texts print are left out as well.
\<close>

section \<open>Checkpoints\<close>

datatype checkpoint_failure =
    SECURITY_STATE_ACCESS_DENIED | INTEGRITY_INDEX_MALFORMED | INTEGRITY_INDEX_AUTHENTICATION_FAILED
  | CHECKPOINT_MALFORMED | CHECKPOINT_AUTHENTICATION_FAILED | CHECKPOINT_ANTI_ROLLBACK_FAILED
  | CHECKPOINT_SCHEMA_UNSUPPORTED | CHECKPOINT_ORPHANED | CHECKPOINT_RECOVERY_UNSAFE

text \<open>
  A \<open>CheckpointError\<close> with its code and message; \<open>compare_digest\<close> raises a \<open>TypeError\<close> of its
  own on text that is not ASCII.
\<close>

datatype checkpoint_error = CheckpointFailed checkpoint_failure string | DigestNotAscii

definition CHECKPOINT_SCHEMA_VERSION :: int where
  "CHECKPOINT_SCHEMA_VERSION = 1"

type_synonym json_fields = "(string \<times> json) list"

text \<open>The two times are kept as the text \<open>model_dump\<close> writes; nothing computes with them.\<close>

record recovery_checkpoint =
  cp_schema_version :: int
  cp_generation :: int
  cp_execution_id :: string
  cp_principal_id :: string
  cp_session_id :: string
  cp_execution_state :: json_fields
  cp_pipeline_state :: "json_fields option"
  cp_conversation :: "json_fields list option"
  cp_resolved_approval_ids :: "string list"
  cp_operation_outcomes :: "(string, string) dict"
  cp_operation_results :: "(string, json_fields) dict"
  cp_retry_attempts :: "(string, int) dict"
  cp_recovery_safe :: bool
  cp_created_at :: string
  cp_updated_at :: string
  cp_integrity_digest :: "string option"

text \<open>\<open>model_dump(mode="json")\<close>: the digest aside, and whole.\<close>

definition checkpoint_body :: "recovery_checkpoint \<Rightarrow> json_fields" where
  "checkpoint_body c =
     [(''schema_version'', JInt (cp_schema_version c)),
      (''generation'', JInt (cp_generation c)),
      (''execution_id'', JStr (cp_execution_id c)),
      (''principal_id'', JStr (cp_principal_id c)),
      (''session_id'', JStr (cp_session_id c)),
      (''execution_state'', JObj (cp_execution_state c)),
      (''pipeline_state'', (case cp_pipeline_state c of None \<Rightarrow> JNull | Some p \<Rightarrow> JObj p)),
      (''conversation'', (case cp_conversation c of None \<Rightarrow> JNull | Some ms \<Rightarrow> JArr (map JObj ms))),
      (''resolved_approval_ids'', JArr (map JStr (cp_resolved_approval_ids c))),
      (''operation_outcomes'', JObj (map (\<lambda>(k, v). (k, JStr v)) (cp_operation_outcomes c))),
      (''operation_results'', JObj (map (\<lambda>(k, v). (k, JObj v)) (cp_operation_results c))),
      (''retry_attempts'', JObj (map (\<lambda>(k, v). (k, JInt v)) (cp_retry_attempts c))),
      (''recovery_safe'', JBool (cp_recovery_safe c)),
      (''created_at'', JStr (cp_created_at c)),
      (''updated_at'', JStr (cp_updated_at c))]"

definition checkpoint_dump :: "recovery_checkpoint \<Rightarrow> json_fields" where
  "checkpoint_dump c = checkpoint_body c @ [(''integrity_digest'', opt_json (cp_integrity_digest c))]"

definition SECRET_MARKERS :: "string list" where
  "SECRET_MARKERS = [''api_key'', ''apikey'', ''secret'', ''password'', ''credential'']"

definition secret_marked :: "string \<Rightarrow> bool" where
  "secret_marked k = list_ex (\<lambda>m. py_contains m (py_lower k)) SECRET_MARKERS"

fun contains_secret_key :: "json \<Rightarrow> bool" where
  "contains_secret_key (JObj fs) = list_ex (\<lambda>(k, v). secret_marked k \<or> contains_secret_key v) fs"
| "contains_secret_key (JArr vs) = list_ex contains_secret_key vs"
| "contains_secret_key _ = False"

text \<open>
  \<open>_checkpoint_signature\<close>: the payload without its digest, compact and with sorted keys. The
  digest may also be the last of a payload that has none yet.
\<close>

definition checkpoint_signature :: "(string \<Rightarrow> string \<Rightarrow> string) \<Rightarrow> json_fields \<Rightarrow> string \<Rightarrow> string" where
  "checkpoint_signature hmac payload key =
     hmac key (json_dumps compact_style (JObj (AList.delete ''integrity_digest'' payload)))"

section \<open>The store\<close>

datatype snapshot = StateSnapshot execution_state | Recovery recovery_checkpoint

text \<open>What is found under a name in the directory.\<close>

datatype checkpoint_file = JsonFile json | UnreadableFile | BrokenFile string

record index_entry =
  ie_generation :: int
  ie_digest :: string

text \<open>The index as \<open>_save_integrity_index\<close> writes it: the entries and the digest over them.\<close>

datatype index_file =
    IndexMissing | IndexUnreadable | IndexMalformed string | IndexFile "(string, index_entry) dict" "json option"

text \<open>
  The settings of a store. Without a directory it lives in the process; \<open>ce_key\<close> and
  \<open>ce_indexed\<close> are the integrity key and whether an index is kept.
\<close>

record checkpoint_env =
  ce_durable :: bool
  ce_key :: "string option"
  ce_indexed :: bool
  ce_max_cached_terminal :: int
  ce_hmac :: "string \<Rightarrow> string \<Rightarrow> string"
  ce_stamp :: "int \<Rightarrow> string"
  ce_validate :: "json_fields \<Rightarrow> (string, recovery_checkpoint) result"

record checkpoint_store =
  cs_cache :: "(string, snapshot) dict"
  cs_entries :: "(string, index_entry) dict"
  cs_files :: "(string, checkpoint_file) dict"
  cs_index :: index_file

definition path_characters :: string where
  "path_characters = lower_letters @ upper_letters @ digits @ ''-_''"

definition path_ok :: "string \<Rightarrow> bool" where
  "path_ok execution_id = (execution_id \<noteq> [] \<and> list_all (\<lambda>c. c \<in> set path_characters) execution_id)"

text \<open>\<open>_path\<close>: \<open>None\<close> when there is a path.\<close>

definition path_error :: "checkpoint_env \<Rightarrow> string \<Rightarrow> checkpoint_error option" where
  "path_error E execution_id =
     (if \<not> path_ok execution_id then
        Some (CheckpointFailed CHECKPOINT_MALFORMED ''Invalid execution ID for checkpoint path.'')
      else if \<not> ce_durable E then
        Some (CheckpointFailed CHECKPOINT_MALFORMED ''Checkpoint store is not durable.'')
      else None)"

definition index_payload :: "(string, index_entry) dict \<Rightarrow> json_fields" where
  "index_payload entries =
     [(''schema_version'', JInt 1),
      (''entries'', JObj (map (\<lambda>(k, e). (k, JObj [(''generation'', JInt (ie_generation e)),
                                              (''integrity_digest'', JStr (ie_digest e))])) entries))]"

definition the_key :: "checkpoint_env \<Rightarrow> string" where
  "the_key E = (case ce_key E of None \<Rightarrow> [] | Some k \<Rightarrow> k)"

definition save_integrity_index :: "checkpoint_env \<Rightarrow> checkpoint_store \<Rightarrow> checkpoint_store" where
  "save_integrity_index E s =
     s\<lparr>cs_index := IndexFile (cs_entries s)
         (Some (JStr (checkpoint_signature (ce_hmac E) (index_payload (cs_entries s)) (the_key E))))\<rparr>"

section \<open>The cache of terminal executions\<close>

definition terminal_values :: "string list" where
  "terminal_values = [''completed'', ''failed'', ''denied'', ''cancelled'', ''timed_out'']"

text \<open>\<open>str(execution_state.get("status", ""))\<close>: a status is written as a string.\<close>

definition checkpoint_status :: "recovery_checkpoint \<Rightarrow> string" where
  "checkpoint_status c = (case map_of (cp_execution_state c) ''status'' of Some (JStr s) \<Rightarrow> s | _ \<Rightarrow> [])"

fun snapshot_terminal :: "snapshot \<Rightarrow> bool" where
  "snapshot_terminal (Recovery c) = (checkpoint_status c \<in> set terminal_values)"
| "snapshot_terminal (StateSnapshot e) = (execution_value (es_status e) \<in> set terminal_values)"

fun drop_excess :: "string \<Rightarrow> string list \<Rightarrow> int \<Rightarrow> (string, snapshot) dict \<Rightarrow> (string, snapshot) dict" where
  "drop_excess preserve [] excess cache = cache"
| "drop_excess preserve (i # is) excess cache =
     (if excess \<le> 0 then cache
      else if i = preserve then drop_excess preserve is excess cache
      else drop_excess preserve is (excess - 1) (AList.delete i cache))"

definition prune_cached_terminal :: "checkpoint_env \<Rightarrow> string \<Rightarrow> checkpoint_store \<Rightarrow> checkpoint_store" where
  "prune_cached_terminal E preserve s =
     (if \<not> ce_durable E then s
      else
        (let ids = map fst (filter (\<lambda>(i, c). snapshot_terminal c) (cs_cache s))
         in s\<lparr>cs_cache := drop_excess preserve ids (int (length ids) - max 1 (ce_max_cached_terminal E)) (cs_cache s)\<rparr>))"

section \<open>Saving\<close>

text \<open>The checkpoint as it is kept: stamped, and signed when there is a key.\<close>

definition sealed_checkpoint :: "checkpoint_env \<Rightarrow> int \<Rightarrow> recovery_checkpoint \<Rightarrow> recovery_checkpoint" where
  "sealed_checkpoint E now c =
     (let stamped = c\<lparr>cp_updated_at := ce_stamp E now\<rparr>
      in case ce_key E of
           None \<Rightarrow> stamped
         | Some key \<Rightarrow> stamped\<lparr>cp_integrity_digest :=
             Some (checkpoint_signature (ce_hmac E) (checkpoint_dump stamped) key)\<rparr>)"

definition digest_text :: "recovery_checkpoint \<Rightarrow> string" where
  "digest_text c = (case cp_integrity_digest c of None \<Rightarrow> [] | Some d \<Rightarrow> d)"

text \<open>The file, then the index: two writes, with a crash possible between them.\<close>

definition write_checkpoint_file :: "recovery_checkpoint \<Rightarrow> checkpoint_store \<Rightarrow> checkpoint_store" where
  "write_checkpoint_file c s =
     s\<lparr>cs_files := AList.update (cp_execution_id c) (JsonFile (sort_fields (JObj (checkpoint_dump c)))) (cs_files s)\<rparr>"

definition write_checkpoint_index :: "checkpoint_env \<Rightarrow> recovery_checkpoint \<Rightarrow> checkpoint_store \<Rightarrow> checkpoint_store" where
  "write_checkpoint_index E c s =
     (if ce_indexed E then
        save_integrity_index E
          (s\<lparr>cs_entries := AList.update (cp_execution_id c)
               \<lparr>ie_generation = cp_generation c, ie_digest = digest_text c\<rparr> (cs_entries s)\<rparr>)
      else s)"

definition stale_generation :: "recovery_checkpoint \<Rightarrow> checkpoint_store \<Rightarrow> bool" where
  "stale_generation c s =
     ((case map_of (cs_cache s) (cp_execution_id c) of
         Some (Recovery old) \<Rightarrow> cp_generation c \<le> cp_generation old | _ \<Rightarrow> False) \<or>
      (case map_of (cs_entries s) (cp_execution_id c) of
         Some e \<Rightarrow> cp_generation c \<le> ie_generation e | None \<Rightarrow> False))"

definition save_recovery ::
  "checkpoint_env \<Rightarrow> int \<Rightarrow> recovery_checkpoint \<Rightarrow> checkpoint_store \<Rightarrow>
   (checkpoint_error, unit) result \<times> checkpoint_store" where
  "save_recovery E now c0 s =
     (if cp_schema_version c0 \<noteq> CHECKPOINT_SCHEMA_VERSION then
        (Inl (CheckpointFailed CHECKPOINT_SCHEMA_UNSUPPORTED ''Unsupported checkpoint schema version.''), s)
      else
        (let c = sealed_checkpoint E now c0; i = cp_execution_id c
         in if contains_secret_key (JObj (checkpoint_dump c)) then
              (Inl (CheckpointFailed CHECKPOINT_MALFORMED ''Checkpoint payload contains secret-bearing fields.''), s)
            else if stale_generation c s then
              (Inl (CheckpointFailed CHECKPOINT_ANTI_ROLLBACK_FAILED ''Checkpoint generation does not supersede.''), s)
            else
              (let s1 = s\<lparr>cs_cache := AList.update i (Recovery c) (cs_cache s)\<rparr>
               in if ce_durable E then
                    (case path_error E i of
                       Some e \<Rightarrow> (Inl e, s1)
                     | None \<Rightarrow> (Inr (), prune_cached_terminal E i
                                  (write_checkpoint_index E c (write_checkpoint_file c s1))))
                  else (Inr (), prune_cached_terminal E i s1))))"

definition save_checkpoint ::
  "checkpoint_env \<Rightarrow> int \<Rightarrow> snapshot \<Rightarrow> checkpoint_store \<Rightarrow> (checkpoint_error, unit) result \<times> checkpoint_store" where
  "save_checkpoint E now snap s =
     (case snap of
        Recovery c \<Rightarrow> save_recovery E now c s
      | StateSnapshot e \<Rightarrow>
          (Inr (), s\<lparr>cs_cache := AList.update (es_execution_id e) (StateSnapshot (e\<lparr>es_updated_at := Some now\<rparr>)) (cs_cache s)\<rparr>))"

section \<open>Loading\<close>

text \<open>
  Python's equality of a JSON value with an integer: \<open>True\<close> and \<open>1.0\<close> equal \<open>1\<close>. A float that
  is whole prints with \<open>.0\<close>.
\<close>

definition json_is_int :: "json option \<Rightarrow> int \<Rightarrow> bool" where
  "json_is_int v n =
     (case v of Some (JInt i) \<Rightarrow> i = n
      | Some (JBool b) \<Rightarrow> n = (if b then 1 else 0)
      | Some (JFloat t) \<Rightarrow> t = int_str n @ ''.0''
      | _ \<Rightarrow> False)"

definition ascii_text :: "string \<Rightarrow> bool" where
  "ascii_text t = list_all (\<lambda>c. of_char c < (128 :: nat)) t"

text \<open>\<open>hmac.compare_digest\<close> of two strings.\<close>

definition compare_digest :: "string \<Rightarrow> string \<Rightarrow> (checkpoint_error, bool) result" where
  "compare_digest a b = (if ascii_text a \<and> ascii_text b then Inr (a = b) else Inl DigestNotAscii)"

text \<open>The fields of a dictionary in sorted order, nested ones included.\<close>

definition canonical_fields :: "json_fields \<Rightarrow> json_fields" where
  "canonical_fields fs = sort_key fst (map (\<lambda>(k, v). (k, sort_fields v)) fs)"

definition json_object :: "json \<Rightarrow> json_fields option" where
  "json_object v = (case v of JObj fs \<Rightarrow> Some fs | _ \<Rightarrow> None)"

definition check_integrity ::
  "checkpoint_env \<Rightarrow> (string, index_entry) dict \<Rightarrow> string \<Rightarrow> json_fields \<Rightarrow> (checkpoint_error, unit) result" where
  "check_integrity E entries i payload =
     (case ce_key E of
        None \<Rightarrow> Inr ()
      | Some key \<Rightarrow>
          (case map_of payload ''integrity_digest'' of
             Some (JStr digest) \<Rightarrow>
               res_bind (compare_digest digest (checkpoint_signature (ce_hmac E) payload key)) (\<lambda>same.
               if \<not> same then
                 Inl (CheckpointFailed CHECKPOINT_AUTHENTICATION_FAILED ''Checkpoint integrity authentication failed.'')
               else if \<not> ce_indexed E then Inr ()
               else case map_of entries i of
                 None \<Rightarrow> Inl (CheckpointFailed CHECKPOINT_ORPHANED
                            ''Checkpoint is not present in the protected integrity index.'')
               | Some e \<Rightarrow>
                   if \<not> json_is_int (map_of payload ''generation'') (ie_generation e) then
                     Inl (CheckpointFailed CHECKPOINT_ANTI_ROLLBACK_FAILED
                            ''Checkpoint rollback or integrity-index mismatch detected.'')
                   else res_bind (compare_digest (ie_digest e) digest) (\<lambda>same.
                     if same then Inr ()
                     else Inl (CheckpointFailed CHECKPOINT_ANTI_ROLLBACK_FAILED
                            ''Checkpoint rollback or integrity-index mismatch detected.'')))
           | _ \<Rightarrow> Inl (CheckpointFailed CHECKPOINT_AUTHENTICATION_FAILED
                    ''Checkpoint integrity authentication failed.'')))"

text \<open>The file is read, checked against the key and the index, and validated.\<close>

definition read_checkpoint ::
  "checkpoint_env \<Rightarrow> (string, index_entry) dict \<Rightarrow> string \<Rightarrow> checkpoint_file \<Rightarrow>
   (checkpoint_error, recovery_checkpoint) result" where
  "read_checkpoint E entries i file =
     (case file of
        UnreadableFile \<Rightarrow>
          Inl (CheckpointFailed SECURITY_STATE_ACCESS_DENIED ''Checkpoint security state is not accessible.'')
      | BrokenFile t \<Rightarrow> Inl (CheckpointFailed CHECKPOINT_MALFORMED (''Checkpoint JSON is malformed: '' @ t))
      | JsonFile v \<Rightarrow>
          (case json_object v of
             None \<Rightarrow> Inl (CheckpointFailed CHECKPOINT_SCHEMA_UNSUPPORTED ''Checkpoint schema is incompatible.'')
           | Some payload \<Rightarrow>
               if \<not> json_is_int (map_of payload ''schema_version'') CHECKPOINT_SCHEMA_VERSION then
                 Inl (CheckpointFailed CHECKPOINT_SCHEMA_UNSUPPORTED ''Checkpoint schema is incompatible.'')
               else if contains_secret_key (JObj payload) then
                 Inl (CheckpointFailed CHECKPOINT_MALFORMED ''Checkpoint contains forbidden secret-bearing fields.'')
               else res_bind (check_integrity E entries i payload) (\<lambda>_.
                 case ce_validate E (canonical_fields payload) of
                   Inl t \<Rightarrow> Inl (CheckpointFailed CHECKPOINT_MALFORMED (''Checkpoint validation failed: '' @ t))
                 | Inr c \<Rightarrow>
                     if cp_execution_id c \<noteq> i then
                       Inl (CheckpointFailed CHECKPOINT_MALFORMED
                              ''Checkpoint execution identity does not match filename.'')
                     else Inr c)))"

definition load_checkpoint ::
  "checkpoint_env \<Rightarrow> bool \<Rightarrow> string \<Rightarrow> checkpoint_store \<Rightarrow>
   (checkpoint_error, snapshot option) result \<times> checkpoint_store" where
  "load_checkpoint E refresh i s =
     (case (if refresh then None else map_of (cs_cache s) i) of
        Some snap \<Rightarrow> (Inr (Some snap), s)
      | None \<Rightarrow>
          if \<not> ce_durable E then (Inr None, s)
          else case path_error E i of
            Some e \<Rightarrow> (Inl e, s)
          | None \<Rightarrow>
              (case map_of (cs_files s) i of
                 None \<Rightarrow> (Inr None, s)
               | Some file \<Rightarrow>
                   (case read_checkpoint E (cs_entries s) i file of
                      Inl e \<Rightarrow> (Inl e, s)
                    | Inr c \<Rightarrow> (Inr (Some (Recovery c)),
                               prune_cached_terminal E i
                                 (s\<lparr>cs_cache := AList.update i (Recovery c) (cs_cache s)\<rparr>)))))"

section \<open>Deleting, listing and reconciling\<close>

definition delete_checkpoint ::
  "checkpoint_env \<Rightarrow> string \<Rightarrow> checkpoint_store \<Rightarrow> (checkpoint_error, unit) result \<times> checkpoint_store" where
  "delete_checkpoint E i s =
     (let s1 = s\<lparr>cs_cache := AList.delete i (cs_cache s)\<rparr>
      in if \<not> ce_durable E then (Inr (), s1)
         else case path_error E i of
           Some e \<Rightarrow> (Inl e, s1)
         | None \<Rightarrow>
             (let s2 = s1\<lparr>cs_files := AList.delete i (cs_files s1)\<rparr>
              in (Inr (), if ce_indexed E
                          then save_integrity_index E (s2\<lparr>cs_entries := AList.delete i (cs_entries s2)\<rparr>)
                          else s2)))"

text \<open>\<open>CheckpointError\<close> is skipped; anything else goes up and ends the listing.\<close>

fun list_from ::
  "checkpoint_env \<Rightarrow> string list \<Rightarrow> checkpoint_store \<Rightarrow> (checkpoint_error, snapshot list) result \<times> checkpoint_store" where
  "list_from E [] s = (Inr [], s)"
| "list_from E (i # is) s =
     (case load_checkpoint E False i s of
        (Inl DigestNotAscii, s') \<Rightarrow> (Inl DigestNotAscii, s')
      | (Inl (CheckpointFailed _ _), s') \<Rightarrow> list_from E is s'
      | (Inr None, s') \<Rightarrow> list_from E is s'
      | (Inr (Some snap), s') \<Rightarrow>
          (case list_from E is s' of (r, s'') \<Rightarrow> (res_bind r (\<lambda>snaps. Inr (snap # snaps)), s'')))"

definition checkpoint_ids :: "checkpoint_env \<Rightarrow> checkpoint_store \<Rightarrow> string list" where
  "checkpoint_ids E s =
     sort (dedupe (map fst (cs_cache s) @ (if ce_durable E then map fst (cs_files s) else [])))"

definition list_checkpoints ::
  "checkpoint_env \<Rightarrow> checkpoint_store \<Rightarrow> (checkpoint_error, snapshot list) result \<times> checkpoint_store" where
  "list_checkpoints E s = list_from E (checkpoint_ids E s) s"

record checkpoint_rejection =
  cj_execution_id :: string
  cj_code :: checkpoint_failure
  cj_detail :: string
  cj_active :: bool

record checkpoint_reconciliation =
  cc_total_files :: nat
  cc_valid_terminal :: nat
  cc_valid_recoverable :: nat
  cc_valid_unsafe :: nat
  cc_rejected :: "checkpoint_rejection list"

definition classify_snapshot :: "snapshot \<Rightarrow> checkpoint_reconciliation \<Rightarrow> checkpoint_reconciliation" where
  "classify_snapshot snap r =
     (if snapshot_terminal snap then r\<lparr>cc_valid_terminal := cc_valid_terminal r + 1\<rparr>
      else if (case snap of Recovery c \<Rightarrow> cp_recovery_safe c | StateSnapshot _ \<Rightarrow> False)
           then r\<lparr>cc_valid_recoverable := cc_valid_recoverable r + 1\<rparr>
           else r\<lparr>cc_valid_unsafe := cc_valid_unsafe r + 1\<rparr>)"

fun reconcile_from ::
  "checkpoint_env \<Rightarrow> string list \<Rightarrow> string list \<Rightarrow> checkpoint_reconciliation \<Rightarrow> checkpoint_store \<Rightarrow>
   (checkpoint_error, checkpoint_reconciliation) result \<times> checkpoint_store" where
  "reconcile_from E active [] r s = (Inr r, s)"
| "reconcile_from E active (i # is) r s =
     (case load_checkpoint E True i s of
        (Inl DigestNotAscii, s') \<Rightarrow> (Inl DigestNotAscii, s')
      | (Inl (CheckpointFailed code detail), s') \<Rightarrow>
          reconcile_from E active is
            (r\<lparr>cc_rejected := cc_rejected r @
               [\<lparr>cj_execution_id = i, cj_code = code, cj_detail = detail, cj_active = (i \<in> set active)\<rparr>]\<rparr>) s'
      | (Inr None, s') \<Rightarrow> reconcile_from E active is r s'
      | (Inr (Some snap), s') \<Rightarrow> reconcile_from E active is (classify_snapshot snap r) s')"

definition reconcile ::
  "checkpoint_env \<Rightarrow> string list \<Rightarrow> checkpoint_store \<Rightarrow>
   (checkpoint_error, checkpoint_reconciliation) result \<times> checkpoint_store" where
  "reconcile E active s =
     (if \<not> ce_durable E then
        (Inr \<lparr>cc_total_files = 0, cc_valid_terminal = 0, cc_valid_recoverable = 0, cc_valid_unsafe = 0,
              cc_rejected = []\<rparr>, s)
      else reconcile_from E active (sort (map fst (cs_files s)))
             \<lparr>cc_total_files = length (cs_files s), cc_valid_terminal = 0, cc_valid_recoverable = 0,
              cc_valid_unsafe = 0, cc_rejected = []\<rparr> s)"

section \<open>Opening\<close>

text \<open>A missing index is refused when there are files it should have protected.\<close>

definition load_integrity_index ::
  "checkpoint_env \<Rightarrow> (string, checkpoint_file) dict \<Rightarrow> index_file \<Rightarrow>
   (checkpoint_error, (string, index_entry) dict) result" where
  "load_integrity_index E files index =
     (case index of
        IndexMissing \<Rightarrow>
          if ce_durable E \<and> files \<noteq> [] then
            Inl (CheckpointFailed INTEGRITY_INDEX_AUTHENTICATION_FAILED
                   (''Checkpoint integrity index is missing while durable checkpoints exist; '' @
                    ''automatic re-anchoring was refused.''))
          else Inr []
      | IndexUnreadable \<Rightarrow>
          Inl (CheckpointFailed SECURITY_STATE_ACCESS_DENIED
                 ''Checkpoint integrity security state is not accessible.'')
      | IndexMalformed t \<Rightarrow>
          Inl (CheckpointFailed INTEGRITY_INDEX_MALFORMED (''Checkpoint integrity index is malformed: '' @ t))
      | IndexFile entries digest \<Rightarrow>
          (case digest of
             Some (JStr d) \<Rightarrow>
               if \<not> (ascii_text d \<and>
                     ascii_text (checkpoint_signature (ce_hmac E) (index_payload entries) (the_key E))) then
                 Inl (CheckpointFailed INTEGRITY_INDEX_MALFORMED ''Checkpoint integrity index is malformed: '')
               else if d = checkpoint_signature (ce_hmac E) (index_payload entries) (the_key E) then Inr entries
               else Inl (CheckpointFailed INTEGRITY_INDEX_AUTHENTICATION_FAILED
                           ''Checkpoint integrity index authentication failed.'')
           | _ \<Rightarrow> Inl (CheckpointFailed INTEGRITY_INDEX_AUTHENTICATION_FAILED
                    ''Checkpoint integrity index authentication failed.'')))"

text \<open>A new store over what is on the disk. A key has at least 32 bytes, an index needs a key.\<close>

datatype open_error = ShortKey | IndexWithoutKey | IndexRefused checkpoint_error

definition open_store ::
  "checkpoint_env \<Rightarrow> (string, checkpoint_file) dict \<Rightarrow> index_file \<Rightarrow> (open_error, checkpoint_store) result" where
  "open_store E files index =
     (if (case ce_key E of None \<Rightarrow> False | Some k \<Rightarrow> length k < 32) then Inl ShortKey
      else if ce_indexed E \<and> ce_key E = None then Inl IndexWithoutKey
      else if ce_indexed E then
        (case load_integrity_index E files index of
           Inl e \<Rightarrow> Inl (IndexRefused e)
         | Inr entries \<Rightarrow> Inr \<lparr>cs_cache = [], cs_entries = entries, cs_files = files, cs_index = index\<rparr>)
      else Inr \<lparr>cs_cache = [], cs_entries = [], cs_files = files, cs_index = index\<rparr>)"


section \<open>Canonical payloads\<close>

lemma canonical_fields_JObj: "sort_fields (JObj fs) = JObj (canonical_fields fs)"
  by (simp add: canonical_fields_def)

lemma sort_fields_idem [simp]: "sort_fields (sort_fields v) = sort_fields v"
proof (induction v rule: sort_fields.induct)
  case (2 fs)
  have "sort_fields (JObj (canonical_fields fs)) = JObj (canonical_fields fs)"
    by (rule sort_fields_obj) (use 2 in \<open>auto simp: canonical_fields_def\<close>)
  then show ?case by (simp only: canonical_fields_JObj)
qed simp_all

lemma canonical_fields_idem [simp]: "canonical_fields (canonical_fields fs) = canonical_fields fs"
  using sort_fields_idem [of "JObj fs"] by (simp only: canonical_fields_JObj json.inject)

lemma map_of_sort_key:
  assumes "distinct (map fst fs)"
  shows "map_of (sort_key fst fs) = map_of fs"
  using assms by (subst map_of_inject_set) (auto simp: distinct_map)

lemma map_of_canonical:
  assumes "dict_ok fs"
  shows "map_of (canonical_fields fs) k = map_option sort_fields (map_of fs k)"
proof -
  have keys: "map fst (map (\<lambda>(k, v). (k, sort_fields v)) fs) = map fst fs" by (induction fs) auto
  have "map_of (canonical_fields fs) = map_of (map (\<lambda>(k, v). (k, sort_fields v)) fs)"
    using assms unfolding canonical_fields_def dict_ok_def by (intro map_of_sort_key) (simp only: keys)
  then show ?thesis by (simp add: map_of_map_snd)
qed

lemma canonical_fields_ok:
  assumes "dict_ok fs"
  shows "dict_ok (canonical_fields fs)"
proof -
  have "map fst (map (\<lambda>(k, v). (k, sort_fields v)) fs) = map fst fs" by (induction fs) auto
  then have "distinct (map fst (map (\<lambda>(k, v). (k, sort_fields v)) fs))"
    using assms by (simp only: dict_ok_def)
  then show ?thesis
    unfolding dict_ok_def canonical_fields_def distinct_map distinct_sort set_sort .
qed

lemma delete_canonical:
  "AList.delete k (canonical_fields fs) = canonical_fields (AList.delete k fs)"
proof -
  have "filter (\<lambda>(k', v). k \<noteq> k') (map (\<lambda>(k, v). (k, sort_fields v)) fs)
      = map (\<lambda>(k, v). (k, sort_fields v)) (filter (\<lambda>(k', v). k \<noteq> k') fs)"
    by (induction fs) auto
  then show ?thesis
    by (simp add: canonical_fields_def AList.delete_eq filter_sort)
qed

lemma signature_canonical [simp]:
  "checkpoint_signature hmac (canonical_fields fs) key = checkpoint_signature hmac fs key"
  unfolding checkpoint_signature_def json_dumps_def
  by (simp only: delete_canonical canonical_fields_JObj canonical_fields_idem)

lemma signature_dump: "checkpoint_signature hmac (checkpoint_dump c) key = checkpoint_signature hmac (checkpoint_body c) key"
  by (simp add: checkpoint_signature_def checkpoint_dump_def checkpoint_body_def)

lemma secret_canonical [simp]:
  "contains_secret_key (sort_fields v) = contains_secret_key v"
proof (induction v rule: sort_fields.induct)
  case (2 fs)
  have "(\<exists>x \<in> set fs. secret_marked (fst x) \<or> contains_secret_key (sort_fields (snd x))) \<longleftrightarrow>
      (\<exists>x \<in> set fs. secret_marked (fst x) \<or> contains_secret_key (snd x))"
    using 2 by (intro bex_cong refl) (metis prod.collapse)
  then show ?case by (simp add: list_ex_iff case_prod_beta)
qed (auto simp: list_ex_iff)

lemma secret_canonical_fields [simp]:
  "contains_secret_key (JObj (canonical_fields fs)) = contains_secret_key (JObj fs)"
  using secret_canonical [of "JObj fs"] by (simp only: canonical_fields_JObj)

lemma checkpoint_dump_ok: "dict_ok (checkpoint_dump c)"
  by (simp add: dict_ok_def checkpoint_dump_def checkpoint_body_def)

definition stored_fields :: "recovery_checkpoint \<Rightarrow> json_fields" where
  "stored_fields c = canonical_fields (checkpoint_dump c)"

lemma stored_field:
  "map_of (stored_fields c) ''schema_version'' = Some (JInt (cp_schema_version c))"
  "map_of (stored_fields c) ''generation'' = Some (JInt (cp_generation c))"
  "map_of (stored_fields c) ''integrity_digest'' = Some (opt_json (cp_integrity_digest c))"
  unfolding stored_fields_def map_of_canonical [OF checkpoint_dump_ok]
  by (simp_all add: checkpoint_dump_def checkpoint_body_def opt_json_def split: option.split)

lemma sealed_simps [simp]:
  "cp_schema_version (sealed_checkpoint E now c) = cp_schema_version c"
  "cp_generation (sealed_checkpoint E now c) = cp_generation c"
  "cp_execution_id (sealed_checkpoint E now c) = cp_execution_id c"
  "cp_recovery_safe (sealed_checkpoint E now c) = cp_recovery_safe c"
  "cp_execution_state (sealed_checkpoint E now c) = cp_execution_state c"
  by (simp_all add: sealed_checkpoint_def Let_def split: option.split)

section \<open>An authenticated store\<close>

text \<open>A durable store with a key, an index and a digest that writes ASCII.\<close>

definition authentic :: "checkpoint_env \<Rightarrow> bool" where
  "authentic E \<longleftrightarrow> ce_durable E \<and> ce_indexed E \<and>
     (\<exists>k. ce_key E = Some k \<and> 32 \<le> length k \<and> (\<forall>t. ascii_text (ce_hmac E k t)))"

definition seal_of :: "checkpoint_env \<Rightarrow> recovery_checkpoint \<Rightarrow> string" where
  "seal_of E c = checkpoint_signature (ce_hmac E) (checkpoint_body c) (the_key E)"

definition entry_of :: "recovery_checkpoint \<Rightarrow> index_entry" where
  "entry_of c = \<lparr>ie_generation = cp_generation c, ie_digest = digest_text c\<rparr>"

text \<open>A checkpoint as the store keeps it: sealed, without secrets, read back by the validation.\<close>

definition well_sealed :: "checkpoint_env \<Rightarrow> recovery_checkpoint \<Rightarrow> bool" where
  "well_sealed E c \<longleftrightarrow> path_ok (cp_execution_id c) \<and> cp_schema_version c = CHECKPOINT_SCHEMA_VERSION \<and>
     cp_integrity_digest c = Some (seal_of E c) \<and> \<not> contains_secret_key (JObj (checkpoint_dump c)) \<and>
     ce_validate E (stored_fields c) = Inr c"

definition kept :: "checkpoint_env \<Rightarrow> checkpoint_store \<Rightarrow> string \<Rightarrow> recovery_checkpoint \<Rightarrow> bool" where
  "kept E s i c \<longleftrightarrow> cp_execution_id c = i \<and> well_sealed E c \<and>
     map_of (cs_files s) i = Some (JsonFile (JObj (stored_fields c))) \<and>
     map_of (cs_entries s) i = Some (entry_of c)"

definition index_current :: "checkpoint_env \<Rightarrow> checkpoint_store \<Rightarrow> bool" where
  "index_current E s \<longleftrightarrow> cs_index s = cs_index (save_integrity_index E s) \<or>
     cs_index s = IndexMissing \<and> cs_entries s = [] \<and> cs_files s = []"

definition store_ok :: "checkpoint_env \<Rightarrow> checkpoint_store \<Rightarrow> bool" where
  "store_ok E s \<longleftrightarrow> index_current E s \<and>
     (\<forall>i snap. map_of (cs_cache s) i = Some snap \<longrightarrow> (\<exists>c. snap = Recovery c \<and> kept E s i c)) \<and>
     (\<forall>i. map_of (cs_files s) i \<noteq> None \<longrightarrow> (\<exists>c. kept E s i c)) \<and>
     (\<forall>i. map_of (cs_entries s) i \<noteq> None \<longrightarrow> (\<exists>c. kept E s i c))"

lemma authenticD:
  assumes "authentic E"
  shows "ce_durable E" "ce_indexed E" "ce_key E = Some (the_key E)" "32 \<le> length (the_key E)"
    "ascii_text (ce_hmac E (the_key E) t)" "ascii_text (checkpoint_signature (ce_hmac E) fs (the_key E))"
  using assms by (auto simp: authentic_def the_key_def checkpoint_signature_def)

lemma seal_of_cong [simp]: "seal_of E (c\<lparr>cp_integrity_digest := d\<rparr>) = seal_of E c"
  by (simp add: seal_of_def checkpoint_body_def)

lemma sealed_digest:
  assumes "authentic E"
  shows "cp_integrity_digest (sealed_checkpoint E now c) = Some (seal_of E (sealed_checkpoint E now c))"
  using authenticD(3) [OF assms]
  by (simp add: sealed_checkpoint_def Let_def signature_dump) (simp add: seal_of_def)

lemma read_kept:
  assumes "authentic E" "kept E s i c"
  shows "read_checkpoint E (cs_entries s) i (JsonFile (JObj (stored_fields c))) = Inr c"
proof -
  have sig: "checkpoint_signature (ce_hmac E) (stored_fields c) (the_key E) = seal_of E c"
    by (simp add: stored_fields_def signature_dump seal_of_def)
  have canon: "canonical_fields (stored_fields c) = stored_fields c"
    by (simp add: stored_fields_def)
  have secret: "\<not> contains_secret_key (JObj (stored_fields c))"
    using assms(2) unfolding kept_def well_sealed_def stored_fields_def secret_canonical_fields by blast
  have ascii: "ascii_text (seal_of E c)"
    using authenticD(6) [OF assms(1)] by (simp add: seal_of_def)
  have "check_integrity E (cs_entries s) i (stored_fields c) = Inr ()"
    using assms(2) authenticD(2,3) [OF assms(1)] ascii
    by (simp add: check_integrity_def kept_def well_sealed_def stored_field sig opt_json_def
        compare_digest_def entry_of_def digest_text_def json_is_int_def)
  with assms(2) secret show ?thesis
    by (simp add: read_checkpoint_def json_object_def stored_field json_is_int_def kept_def
        well_sealed_def canon del: contains_secret_key.simps)
qed

section \<open>The store as a map\<close>

text \<open>What the store promises: a map from executions to the checkpoint last accepted.\<close>

definition checkpoint_map :: "checkpoint_env \<Rightarrow> checkpoint_store \<Rightarrow> string \<Rightarrow> recovery_checkpoint option" where
  "checkpoint_map E s i =
     (case map_of (cs_files s) i of
        None \<Rightarrow> None
      | Some f \<Rightarrow> (case read_checkpoint E (cs_entries s) i f of Inl _ \<Rightarrow> None | Inr c \<Rightarrow> Some c))"

datatype store_op =
    SaveOp int recovery_checkpoint | LoadOp bool string | DeleteOp string | ReopenOp

datatype store_answer = Refused | Done | Found "recovery_checkpoint option"

fun snapshot_answer :: "(checkpoint_error, snapshot option) result \<Rightarrow> store_answer" where
  "snapshot_answer (Inl e) = Refused"
| "snapshot_answer (Inr (Some (Recovery c))) = Found (Some c)"
| "snapshot_answer (Inr _) = Found None"

definition unit_answer :: "('e, unit) result \<Rightarrow> store_answer" where
  "unit_answer r = (if returned r then Done else Refused)"

fun store_step :: "checkpoint_env \<Rightarrow> store_op \<Rightarrow> checkpoint_store \<Rightarrow> store_answer \<times> checkpoint_store" where
  "store_step E (SaveOp now c) s = map_prod unit_answer id (save_checkpoint E now (Recovery c) s)"
| "store_step E (LoadOp refresh i) s = map_prod snapshot_answer id (load_checkpoint E refresh i s)"
| "store_step E (DeleteOp i) s = map_prod unit_answer id (delete_checkpoint E i s)"
| "store_step E ReopenOp s =
     (case open_store E (cs_files s) (cs_index s) of Inl _ \<Rightarrow> (Refused, s) | Inr s' \<Rightarrow> (Done, s'))"

fun map_step ::
  "checkpoint_env \<Rightarrow> store_op \<Rightarrow> (string \<Rightarrow> recovery_checkpoint option) \<Rightarrow>
   store_answer \<times> (string \<Rightarrow> recovery_checkpoint option)" where
  "map_step E (SaveOp now c) m =
     (let c' = sealed_checkpoint E now c; i = cp_execution_id c
      in if contains_secret_key (JObj (checkpoint_dump c')) \<or>
            (\<exists>old. m i = Some old \<and> cp_generation c \<le> cp_generation old) then (Refused, m)
         else (Done, m(i := Some c')))"
| "map_step E (LoadOp refresh i) m = (if path_ok i then (Found (m i), m) else (Refused, m))"
| "map_step E (DeleteOp i) m = (if path_ok i then (Done, m(i := None)) else (Refused, m))"
| "map_step E ReopenOp m = (Done, m)"

fun store_run :: "checkpoint_env \<Rightarrow> store_op list \<Rightarrow> checkpoint_store \<Rightarrow> store_answer list \<times> checkpoint_store" where
  "store_run E [] s = ([], s)"
| "store_run E (op # ops) s =
     (case store_step E op s of (a, s') \<Rightarrow> (case store_run E ops s' of (as, t) \<Rightarrow> (a # as, t)))"

fun map_run ::
  "checkpoint_env \<Rightarrow> store_op list \<Rightarrow> (string \<Rightarrow> recovery_checkpoint option) \<Rightarrow>
   store_answer list \<times> (string \<Rightarrow> recovery_checkpoint option)" where
  "map_run E [] m = ([], m)"
| "map_run E (op # ops) m =
     (case map_step E op m of (a, m') \<Rightarrow> (case map_run E ops m' of (as, t) \<Rightarrow> (a # as, t)))"

text \<open>
  What a saved checkpoint has to satisfy: the current schema, a name that is a path, and that
  validation reads the stored form back.
\<close>

definition storable :: "checkpoint_env \<Rightarrow> int \<Rightarrow> recovery_checkpoint \<Rightarrow> bool" where
  "storable E now c \<longleftrightarrow> path_ok (cp_execution_id c) \<and> cp_schema_version c = CHECKPOINT_SCHEMA_VERSION \<and>
     ce_validate E (stored_fields (sealed_checkpoint E now c)) = Inr (sealed_checkpoint E now c)"

fun op_storable :: "checkpoint_env \<Rightarrow> store_op \<Rightarrow> bool" where
  "op_storable E (SaveOp now c) = storable E now c"
| "op_storable E _ = True"

lemma map_of_drop_excess:
  "map_of (drop_excess p is n cache) i = Some snap \<Longrightarrow> map_of cache i = Some snap"
  by (induction p "is" n cache rule: drop_excess.induct) (auto split: if_splits)

lemma prune_frame [simp]:
  "cs_files (prune_cached_terminal E p s) = cs_files s"
  "cs_entries (prune_cached_terminal E p s) = cs_entries s"
  "cs_index (prune_cached_terminal E p s) = cs_index s"
  by (simp_all add: prune_cached_terminal_def Let_def)

lemma prune_cache:
  "map_of (cs_cache (prune_cached_terminal E p s)) i = Some snap \<Longrightarrow> map_of (cs_cache s) i = Some snap"
  by (auto simp: prune_cached_terminal_def Let_def dest: map_of_drop_excess split: if_splits)

lemma kept_frame:
  assumes "cs_files s' = cs_files s" "cs_entries s' = cs_entries s"
  shows "kept E s' = kept E s" "checkpoint_map E s' = checkpoint_map E s"
  unfolding kept_def checkpoint_map_def assms by (rule refl)+

lemma store_okD:
  assumes "store_ok E s"
  shows "index_current E s"
    "map_of (cs_cache s) i = Some snap \<Longrightarrow> \<exists>c. snap = Recovery c \<and> kept E s i c"
    "map_of (cs_files s) i = Some f \<Longrightarrow> \<exists>c. kept E s i c"
    "map_of (cs_entries s) i = Some e \<Longrightarrow> \<exists>c. kept E s i c"
  using assms unfolding store_ok_def by blast+

lemma prune_ok:
  assumes "store_ok E s"
  shows "store_ok E (prune_cached_terminal E p s)"
proof -
  let ?s = "prune_cached_terminal E p s"
  have "kept E ?s = kept E s" by (rule kept_frame) simp_all
  moreover have "index_current E ?s" using assms
    by (auto simp: store_ok_def index_current_def save_integrity_index_def)
  moreover have "\<exists>c. snap = Recovery c \<and> kept E s i c" if "map_of (cs_cache ?s) i = Some snap" for i snap
    using assms prune_cache [OF that] unfolding store_ok_def by blast
  ultimately show ?thesis using assms by (simp add: store_ok_def)
qed

lemma map_of_kept:
  assumes "authentic E" "kept E s i c"
  shows "checkpoint_map E s i = Some c"
proof -
  have "map_of (cs_files s) i = Some (JsonFile (JObj (stored_fields c)))"
    using assms(2) unfolding kept_def by blast
  with read_kept [OF assms] show ?thesis unfolding checkpoint_map_def by simp
qed

lemma kept_unique:
  assumes "authentic E" "kept E s i c" "kept E s i d"
  shows "c = d"
  using map_of_kept [OF assms(1,2)] map_of_kept [OF assms(1,3)] by simp

lemma map_of_unkept:
  assumes "store_ok E s" "\<nexists>c. kept E s i c"
  shows "map_of (cs_files s) i = None" "map_of (cs_entries s) i = None" "map_of (cs_cache s) i = None"
    "checkpoint_map E s i = None"
proof -
  show f: "map_of (cs_files s) i = None"
    using assms(2) store_okD(3) [OF assms(1)] by (cases "map_of (cs_files s) i") blast+
  then show "checkpoint_map E s i = None" by (simp add: checkpoint_map_def)
  show "map_of (cs_entries s) i = None"
    using assms(2) store_okD(4) [OF assms(1)] by (cases "map_of (cs_entries s) i") blast+
  show "map_of (cs_cache s) i = None"
    using assms(2) store_okD(2) [OF assms(1)] by (cases "map_of (cs_cache s) i") blast+
qed

lemma cached_kept:
  assumes "store_ok E s" "authentic E" "kept E s i c" "map_of (cs_cache s) i = Some snap"
  shows "snap = Recovery c"
  using store_okD(2) [OF assms(1,4)] kept_unique [OF assms(2,3)] by blast

lemma stale_generation_iff:
  assumes "store_ok E s" "authentic E"
  shows "stale_generation c s \<longleftrightarrow>
    (\<exists>old. checkpoint_map E s (cp_execution_id c) = Some old \<and> cp_generation c \<le> cp_generation old)"
proof (cases "\<exists>d. kept E s (cp_execution_id c) d")
  case True
  then obtain d where d: "kept E s (cp_execution_id c) d" by blast
  have e: "map_of (cs_entries s) (cp_execution_id c) = Some (entry_of d)"
    using d unfolding kept_def by blast
  show ?thesis
    using cached_kept [OF assms d]
    by (cases "map_of (cs_cache s) (cp_execution_id c)")
       (simp_all add: stale_generation_def e entry_of_def map_of_kept [OF assms(2) d])
next
  case False
  with map_of_unkept [OF assms(1)] show ?thesis by (simp add: stale_generation_def)
qed


text \<open>Writing a checkpoint and its entry, and removing both.\<close>

lemma kept_write:
  assumes "well_sealed E c" "authentic E"
    "s' = write_checkpoint_index E c (write_checkpoint_file c s1)" "cs_files s1 = cs_files s"
    "cs_entries s1 = cs_entries s"
  shows "kept E s' i d \<longleftrightarrow> (if i = cp_execution_id c then d = c else kept E s i d)"
proof (cases "i = cp_execution_id c")
  case True
  have f: "map_of (cs_files s') i = Some (JsonFile (JObj (stored_fields c)))"
    "map_of (cs_entries s') i = Some (entry_of c)"
    using assms(3) True authenticD(2) [OF assms(2)]
    by (simp_all add: write_checkpoint_index_def write_checkpoint_file_def save_integrity_index_def
        canonical_fields_JObj stored_fields_def entry_of_def del: sort_fields.simps)
  then have k: "kept E s' i c" using assms(1) True by (simp add: kept_def)
  then show ?thesis using True kept_unique [OF assms(2) k] by auto
next
  case False
  with assms(3-5) authenticD(2) [OF assms(2)] show ?thesis
    by (simp add: kept_def write_checkpoint_index_def write_checkpoint_file_def save_integrity_index_def)
qed

lemma index_current_save: "index_current E (save_integrity_index E s)"
  by (simp add: index_current_def save_integrity_index_def)

lemma write_ok:
  assumes "store_ok E s" "authentic E" "well_sealed E c"
    "s' = write_checkpoint_index E c (write_checkpoint_file c
            (s\<lparr>cs_cache := AList.update (cp_execution_id c) (Recovery c) (cs_cache s)\<rparr>))"
  shows "store_ok E s' \<and> checkpoint_map E s' = (checkpoint_map E s)(cp_execution_id c := Some c)"
proof -
  let ?i = "cp_execution_id c"
  have k: "kept E s' i d \<longleftrightarrow> (if i = ?i then d = c else kept E s i d)" for i d
    by (rule kept_write [OF assms(3,2,4)]) simp_all
  have c: "cs_cache s' = AList.update ?i (Recovery c) (cs_cache s)"
    "\<And>i. i \<noteq> ?i \<Longrightarrow> map_of (cs_files s') i = map_of (cs_files s) i"
    "\<And>i. i \<noteq> ?i \<Longrightarrow> map_of (cs_entries s') i = map_of (cs_entries s) i"
    "index_current E s'"
    using assms(4) authenticD(2) [OF assms(2)]
    by (simp_all add: write_checkpoint_index_def write_checkpoint_file_def save_integrity_index_def
        index_current_def)
  have "store_ok E s'" unfolding store_ok_def
  proof (intro conjI allI impI)
    show "index_current E s'" by (rule c(4))
  next
    fix i snap assume a: "map_of (cs_cache s') i = Some snap"
    show "\<exists>d. snap = Recovery d \<and> kept E s' i d"
    proof (cases "i = ?i")
      case True
      with a show ?thesis by (simp add: k c(1))
    next
      case False
      with a have "map_of (cs_cache s) i = Some snap" by (simp add: c(1))
      from store_okD(2) [OF assms(1) this] False show ?thesis by (simp add: k)
    qed
  next
    fix i assume a: "map_of (cs_files s') i \<noteq> None"
    show "\<exists>d. kept E s' i d"
      using a c(2) [of i] store_okD(3) [OF assms(1), of i] by (cases "i = ?i") (auto simp: k)
  next
    fix i assume a: "map_of (cs_entries s') i \<noteq> None"
    show "\<exists>d. kept E s' i d"
      using a c(3) [of i] store_okD(4) [OF assms(1), of i] by (cases "i = ?i") (auto simp: k)
  qed
  moreover have "checkpoint_map E s' i = ((checkpoint_map E s)(?i := Some c)) i" for i
  proof (cases "i = ?i")
    case True
    then show ?thesis using map_of_kept [OF assms(2), of s' ?i c] by (simp add: k)
  next
    case False
    show ?thesis
    proof (cases "\<exists>d. kept E s i d")
      case True
      then obtain d where d: "kept E s i d" by blast
      with False have "kept E s' i d" by (simp add: k)
      with False map_of_kept [OF assms(2) d] map_of_kept [OF assms(2), of s' i d] show ?thesis by simp
    next
      case unkept: False
      with False have "\<nexists>d. kept E s' i d" by (simp add: k)
      with False map_of_unkept(4) [OF assms(1) unkept] map_of_unkept(4) [OF \<open>store_ok E s'\<close>]
      show ?thesis by simp
    qed
  qed
  ultimately show ?thesis by (simp add: fun_eq_iff)
qed


lemma delete_ok:
  assumes "store_ok E s" "authentic E"
    "s' = save_integrity_index E (s\<lparr>cs_cache := AList.delete i (cs_cache s),
            cs_files := AList.delete i (cs_files s), cs_entries := AList.delete i (cs_entries s)\<rparr>)"
  shows "store_ok E s' \<and> checkpoint_map E s' = (checkpoint_map E s)(i := None)"
proof -
  have d: "cs_cache s' = AList.delete i (cs_cache s)" "cs_files s' = AList.delete i (cs_files s)"
    "cs_entries s' = AList.delete i (cs_entries s)" "index_current E s'"
    using assms(3) by (simp_all add: save_integrity_index_def index_current_def)
  have k: "kept E s' j c \<longleftrightarrow> j \<noteq> i \<and> kept E s j c" for j c by (auto simp: kept_def d)
  have "store_ok E s'" unfolding store_ok_def
  proof (intro conjI allI impI)
    show "index_current E s'" by (rule d(4))
  next
    fix j snap assume "map_of (cs_cache s') j = Some snap"
    then show "\<exists>c. snap = Recovery c \<and> kept E s' j c"
      using store_okD(2) [OF assms(1), of j snap] by (auto simp: d(1) k split: if_splits)
  next
    fix j assume "map_of (cs_files s') j \<noteq> None"
    then show "\<exists>c. kept E s' j c"
      using store_okD(3) [OF assms(1), of j] by (auto simp: d(2) k split: if_splits)
  next
    fix j assume "map_of (cs_entries s') j \<noteq> None"
    then show "\<exists>c. kept E s' j c"
      using store_okD(4) [OF assms(1), of j] by (auto simp: d(3) k split: if_splits)
  qed
  moreover have "checkpoint_map E s' j = ((checkpoint_map E s)(i := None)) j" for j
  proof (cases "\<exists>c. kept E s' j c")
    case True
    then obtain c where c: "kept E s' j c" by blast
    then have "kept E s j c" "j \<noteq> i" by (simp_all add: k)
    with map_of_kept [OF assms(2) c] map_of_kept [OF assms(2), of s j c] show ?thesis by simp
  next
    case False
    then have "j = i \<or> (\<nexists>c. kept E s j c)" by (simp add: k)
    with map_of_unkept(4) [OF \<open>store_ok E s'\<close> False] map_of_unkept(4) [OF assms(1), of j]
    show ?thesis by auto
  qed
  ultimately show ?thesis by (simp add: fun_eq_iff)
qed

lemma well_sealed_sealed:
  assumes "authentic E" "storable E now c" "\<not> contains_secret_key (JObj (checkpoint_dump (sealed_checkpoint E now c)))"
  shows "well_sealed E (sealed_checkpoint E now c)"
  using assms(2,3) sealed_digest [OF assms(1)] by (simp add: well_sealed_def storable_def)

lemma prune_map: "checkpoint_map E (prune_cached_terminal E p s) = checkpoint_map E s"
  by (rule kept_frame) simp_all

lemma save_refines:
  assumes "store_ok E s" "authentic E" "storable E now c"
    "store_step E (SaveOp now c) s = (a, s')" "map_step E (SaveOp now c) (checkpoint_map E s) = (b, m)"
  shows "a = b \<and> store_ok E s' \<and> checkpoint_map E s' = m"
proof -
  let ?c = "sealed_checkpoint E now c"
  have v: "cp_schema_version c = CHECKPOINT_SCHEMA_VERSION" "path_error E (cp_execution_id c) = None"
    using assms(3) authenticD(1) [OF assms(2)] by (simp_all add: storable_def path_error_def)
  have stale: "stale_generation ?c s \<longleftrightarrow>
      (\<exists>old. checkpoint_map E s (cp_execution_id c) = Some old \<and> cp_generation c \<le> cp_generation old)"
    using stale_generation_iff [OF assms(1,2), of ?c] by simp
  show ?thesis
  proof (cases "contains_secret_key (JObj (checkpoint_dump ?c)) \<or> stale_generation ?c s")
    case True
    with assms(4) have "a = Refused" "s' = s"
      by (auto simp: save_checkpoint_def save_recovery_def Let_def v unit_answer_def
          simp del: contains_secret_key.simps split: if_splits)
    moreover have "b = Refused" "m = checkpoint_map E s"
      using True assms(5)
      by (auto simp: Let_def stale simp del: contains_secret_key.simps split: if_splits)
    ultimately show ?thesis using assms(1) by simp
  next
    case False
    define t where "t = write_checkpoint_index E ?c (write_checkpoint_file ?c
      (s\<lparr>cs_cache := AList.update (cp_execution_id ?c) (Recovery ?c) (cs_cache s)\<rparr>))"
    have "well_sealed E ?c" using False by (intro well_sealed_sealed assms) blast
    from write_ok [OF assms(1,2) this t_def]
    have t: "store_ok E t" "checkpoint_map E t = (checkpoint_map E s)(cp_execution_id c := Some ?c)" by simp_all
    have "a = Done" "s' = prune_cached_terminal E (cp_execution_id c) t"
      using False assms(4) authenticD(1) [OF assms(2)]
      by (simp_all add: save_checkpoint_def save_recovery_def Let_def v unit_answer_def t_def
          del: contains_secret_key.simps)
    moreover have "b = Done" "m = (checkpoint_map E s)(cp_execution_id c := Some ?c)"
      using False assms(5)
      by (auto simp: Let_def stale simp del: contains_secret_key.simps split: if_splits)
    ultimately show ?thesis using prune_ok [OF t(1)] t(2) by (simp add: prune_map)
  qed
qed

lemma load_kept:
  assumes "store_ok E s" "authentic E" "load_checkpoint E refresh i s = (r, s')"
  shows "store_ok E s' \<and> checkpoint_map E s' = checkpoint_map E s \<and>
    r = (if path_ok i then Inr (map_option Recovery (checkpoint_map E s i))
         else Inl (CheckpointFailed CHECKPOINT_MALFORMED ''Invalid execution ID for checkpoint path.''))"
proof (cases "\<exists>c. kept E s i c")
  case True
  then obtain c where c: "kept E s i c" by blast
  have p: "path_ok i" "map_of (cs_files s) i = Some (JsonFile (JObj (stored_fields c)))"
    using c by (auto simp: kept_def well_sealed_def)
  note m = map_of_kept [OF assms(2) c]
  show ?thesis
  proof (cases "refresh \<or> map_of (cs_cache s) i = None")
    case True
    then have "(if refresh then None else map_of (cs_cache s) i) = None" by auto
    with assms(3) authenticD(1) [OF assms(2)] p read_kept [OF assms(2) c]
    have a: "r = Inr (Some (Recovery c))"
      "s' = prune_cached_terminal E i (s\<lparr>cs_cache := AList.update i (Recovery c) (cs_cache s)\<rparr>)"
      by (simp_all add: load_checkpoint_def path_error_def)
    let ?t = "s\<lparr>cs_cache := AList.update i (Recovery c) (cs_cache s)\<rparr>"
    have k: "kept E ?t = kept E s" "checkpoint_map E ?t = checkpoint_map E s" by (rule kept_frame; simp)+
    have "store_ok E ?t" unfolding store_ok_def
    proof (intro conjI allI impI)
      show "index_current E ?t" using store_okD(1) [OF assms(1)]
        by (simp add: index_current_def save_integrity_index_def)
    next
      fix j snap assume "map_of (cs_cache ?t) j = Some snap"
      then show "\<exists>d. snap = Recovery d \<and> kept E ?t j d"
        using store_okD(2) [OF assms(1), of j snap] c unfolding k by (auto split: if_splits)
    next
      fix j assume "map_of (cs_files ?t) j \<noteq> None"
      then show "\<exists>d. kept E ?t j d" using store_okD(3) [OF assms(1), of j] unfolding k by auto
    next
      fix j assume "map_of (cs_entries ?t) j \<noteq> None"
      then show "\<exists>d. kept E ?t j d" using store_okD(4) [OF assms(1), of j] unfolding k by auto
    qed
    from prune_ok [OF this] show ?thesis by (simp add: a m p(1) prune_map k)
  next
    case False
    then obtain snap where "map_of (cs_cache s) i = Some snap" "\<not> refresh" by auto
    moreover from cached_kept [OF assms(1,2) c this(1)] have "snap = Recovery c" .
    ultimately have "r = Inr (Some (Recovery c))" "s' = s" using assms(3) by (simp_all add: load_checkpoint_def)
    then show ?thesis using assms(1) m p(1) by simp
  qed
next
  case False
  note n = map_of_unkept [OF assms(1) False]
  have e: "(if refresh then None else map_of (cs_cache s) i) = None" by (simp add: n(3))
  show ?thesis
    using assms(3) authenticD(1) [OF assms(2)] assms(1) n(4)
    by (cases "path_ok i") (auto simp: load_checkpoint_def e n(1) path_error_def)
qed

lemma load_refines:
  assumes "store_ok E s" "authentic E"
    "store_step E (LoadOp refresh i) s = (a, s')" "map_step E (LoadOp refresh i) (checkpoint_map E s) = (b, m)"
  shows "a = b \<and> store_ok E s' \<and> checkpoint_map E s' = m"
proof -
  obtain r s1 where l: "load_checkpoint E refresh i s = (r, s1)" by fastforce
  from load_kept [OF assms(1,2) l] assms(3,4) l show ?thesis
    by (cases "path_ok i"; cases "checkpoint_map E s i") auto
qed

text \<open>A listing gives the checkpoints of the map, each once.\<close>

lemma list_from_kept:
  assumes "store_ok E s" "authentic E" "list_from E is s = (r, s')"
  shows "store_ok E s' \<and> checkpoint_map E s' = checkpoint_map E s \<and>
    r = Inr (map Recovery (List.map_filter (\<lambda>i. if path_ok i then checkpoint_map E s i else None) is))"
  using assms(1,3)
proof (induction "is" arbitrary: s r s')
  case (Cons i ids)
  obtain q t where l: "load_checkpoint E False i s = (q, t)" by fastforce
  note L = load_kept [OF Cons.prems(1) assms(2) l]
  obtain q' t' where r: "list_from E ids t = (q', t')" by fastforce
  have ok: "store_ok E t" "checkpoint_map E t = checkpoint_map E s" using L by simp_all
  from Cons.IH [OF ok(1) r, unfolded ok(2)] Cons.prems(2) L show ?case
    by (cases "path_ok i"; cases "checkpoint_map E s i")
       (auto simp: l r List.map_filter_simps)
qed (simp add: List.map_filter_simps)

lemma delete_refines:
  assumes "store_ok E s" "authentic E"
    "store_step E (DeleteOp i) s = (a, s')" "map_step E (DeleteOp i) (checkpoint_map E s) = (b, m)"
  shows "a = b \<and> store_ok E s' \<and> checkpoint_map E s' = m"
proof (cases "path_ok i")
  case True
  with assms(3) authenticD(1,2) [OF assms(2)] have "a = Done"
    "s' = save_integrity_index E (s\<lparr>cs_cache := AList.delete i (cs_cache s),
            cs_files := AList.delete i (cs_files s), cs_entries := AList.delete i (cs_entries s)\<rparr>)"
    by (simp_all add: delete_checkpoint_def Let_def path_error_def unit_answer_def)
  with delete_ok [OF assms(1,2) this(2)] assms(4) True show ?thesis by simp
next
  case False
  then have unkept: "\<nexists>c. kept E s i c" by (auto simp: kept_def well_sealed_def)
  then have "AList.delete i (cs_cache s) = cs_cache s"
    using map_of_unkept(3) [OF assms(1) unkept] by (simp add: map_of_eq_None_iff delete_id)
  with False assms(3,4) authenticD(1) [OF assms(2)] assms(1) show ?thesis
    by (simp add: delete_checkpoint_def Let_def path_error_def unit_answer_def)
qed

lemma reopen_refines:
  assumes "store_ok E s" "authentic E"
    "store_step E ReopenOp s = (a, s')" "map_step E ReopenOp (checkpoint_map E s) = (b, m)"
  shows "a = b \<and> store_ok E s' \<and> checkpoint_map E s' = m"
proof -
  let ?t = "s\<lparr>cs_cache := []\<rparr>"
  have "load_integrity_index E (cs_files s) (cs_index s) = Inr (cs_entries s)"
    using store_okD(1) [OF assms(1)] authenticD(6) [OF assms(2)]
    by (auto simp: index_current_def save_integrity_index_def load_integrity_index_def)
  then have "a = Done" "s' = ?t"
    using assms(3) authenticD(2,3,4) [OF assms(2)] by (auto simp: open_store_def split: option.splits)
  moreover have k: "kept E ?t = kept E s" "checkpoint_map E ?t = checkpoint_map E s" by (rule kept_frame; simp)+
  moreover have "store_ok E ?t"
    using assms(1) unfolding store_ok_def k
    by (simp add: index_current_def save_integrity_index_def)
  ultimately show ?thesis using assms(4) by simp
qed

lemma store_step_refines:
  assumes "store_ok E s" "authentic E" "op_storable E op"
    "store_step E op s = (a, s')" "map_step E op (checkpoint_map E s) = (b, m)"
  shows "a = b \<and> store_ok E s' \<and> checkpoint_map E s' = m"
proof (cases op)
  case (SaveOp now c)
  with assms show ?thesis using save_refines [OF assms(1,2)] by (metis op_storable.simps(1))
next
  case (LoadOp refresh i)
  with assms show ?thesis using load_refines [OF assms(1,2)] by metis
next
  case (DeleteOp i)
  with assms show ?thesis using delete_refines [OF assms(1,2)] by metis
next
  case ReopenOp
  with assms show ?thesis using reopen_refines [OF assms(1,2)] by metis
qed

lemma store_run_refines:
  assumes "store_ok E s" "authentic E" "list_all (op_storable E) ops"
  shows "fst (store_run E ops s) = fst (map_run E ops (checkpoint_map E s)) \<and>
    store_ok E (snd (store_run E ops s)) \<and>
    checkpoint_map E (snd (store_run E ops s)) = snd (map_run E ops (checkpoint_map E s))"
  using assms(1,3)
proof (induction ops arbitrary: s)
  case (Cons op ops)
  obtain a s' where a: "store_step E op s = (a, s')" by fastforce
  obtain b m where b: "map_step E op (checkpoint_map E s) = (b, m)" by fastforce
  from Cons.prems(2) have op: "op_storable E op" "list_all (op_storable E) ops" by simp_all
  from store_step_refines [OF Cons.prems(1) assms(2) op(1) a b]
  have r: "a = b" "store_ok E s'" "checkpoint_map E s' = m" by simp_all
  from Cons.IH [OF r(2) op(2)] r(1,3) show ?case
    by (cases "store_run E ops s'"; cases "map_run E ops m") (simp add: a b)
qed simp


section \<open>What the disk may be turned into\<close>

text \<open>
  Whoever can write the directory but neither the index nor the key cannot make the store take a
  file other than the one the index names: the digest of the file has to be the one the entry
  holds, and the digest is a digest of everything else in the file.
\<close>

lemma delete_signature:
  assumes "inj (hmac key)" "json_ok (JObj fs)" "json_ok (JObj gs)"
    "checkpoint_signature hmac fs key = checkpoint_signature hmac gs key"
  shows "canonical_fields (AList.delete ''integrity_digest'' fs) =
    canonical_fields (AList.delete ''integrity_digest'' gs)"
proof -
  have ok: "json_ok (JObj (AList.delete k hs))" if "json_ok (JObj hs)" for k hs
    using that by (auto simp: list_all_iff AList.delete_eq)
  have "json_dumps compact_style (JObj (AList.delete ''integrity_digest'' fs)) =
      json_dumps compact_style (JObj (AList.delete ''integrity_digest'' gs))"
    using assms(1,4) unfolding checkpoint_signature_def by (simp add: inj_eq)
  from json_text_inj [OF compact_style_ok ok [OF assms(2)] ok [OF assms(3)] this]
  show ?thesis by (simp only: canonical_fields_JObj json.inject)
qed

lemma set_delete:
  assumes "dict_ok fs" "map_of fs k = Some v"
  shows "set fs = insert (k, v) (set (AList.delete k fs))"
proof -
  have one: "w = v" if "(k, w) \<in> set fs" for w
    using map_of_is_SomeI [OF _ that] assms by (simp add: dict_ok_def)
  have pairs: "(k', w) \<in> set fs \<longleftrightarrow> (k', w) \<in> insert (k, v) (set (AList.delete k fs))" for k' w
  proof (cases "k' = k")
    case True
    have "k \<notin> fst ` set (AList.delete k fs)" by (simp add: AList.delete_eq image_iff case_prod_beta)
    with True map_of_SomeD [OF assms(2)] one [of w] show ?thesis by (auto simp: rev_image_eqI)
  next
    case False
    then show ?thesis by (simp add: AList.delete_eq)
  qed
  show ?thesis
  proof (rule set_eqI)
    fix x show "x \<in> set fs \<longleftrightarrow> x \<in> insert (k, v) (set (AList.delete k fs))"
      by (cases x) (simp only: pairs)
  qed
qed

lemma same_sorted:
  assumes "set ys = set xs" "distinct (map f ys)" "distinct (map f xs)"
  shows "sort_key f ys = sort_key f xs"
proof (rule sort_key_permuted)
  show "set ys = set (sort_key f xs)" using assms(1) by simp
  show "distinct ys" using assms(2) by (simp add: distinct_map)
  show "sorted (map f (sort_key f xs))" by simp
  show "distinct (map f (sort_key f xs))" using assms(3) by (simp add: distinct_map)
qed

lemma canonical_same:
  assumes "dict_ok fs" "dict_ok gs" "map_of fs k = Some v" "map_of gs k = Some v"
    "canonical_fields (AList.delete k fs) = canonical_fields (AList.delete k gs)"
  shows "canonical_fields fs = canonical_fields gs"
proof -
  let ?f = "\<lambda>(k :: string, v). (k, sort_fields v)"
  have keys: "map fst (map ?f hs) = map fst hs" for hs by (induction hs) auto
  have d: "distinct (map fst (map ?f fs))" "distinct (map fst (map ?f gs))"
    using assms(1,2) by (simp_all only: dict_ok_def keys)
  have "set (map ?f (AList.delete k fs)) = set (map ?f (AList.delete k gs))"
    using arg_cong [OF assms(5), of set] unfolding canonical_fields_def set_sort .
  then have "set (map ?f fs) = set (map ?f gs)"
    using set_delete [OF assms(1,3)] set_delete [OF assms(2,4)] by (simp only: set_map image_insert)
  then have "sort_key fst (map ?f fs) = sort_key fst (map ?f gs)"
    using d by (rule same_sorted)
  then show ?thesis by (simp only: canonical_fields_def)
qed

lemma read_genuine:
  assumes "authentic E" "inj (ce_hmac E (the_key E))" "well_sealed E c"
    "map_of entries i = Some (entry_of c)" "cp_execution_id c = i" "dict_ok payload" "json_ok (JObj payload)"
    "json_ok (JObj (checkpoint_dump c))" "read_checkpoint E entries i (JsonFile (JObj payload)) = Inr d"
  shows "d = c"
proof -
  let ?sig = "\<lambda>fs. checkpoint_signature (ce_hmac E) fs (the_key E)"
  have seal: "digest_text c = seal_of E c" using assms(3) by (simp add: well_sealed_def digest_text_def)
  obtain u where u: "check_integrity E entries i payload = Inr u"
    and v: "ce_validate E (canonical_fields payload) = Inr d"
    using assms(9) by (auto simp: read_checkpoint_def json_object_def res_bind_Inr_iff
        simp del: contains_secret_key.simps split: if_splits sum.splits)
  obtain digest where digest: "map_of payload ''integrity_digest'' = Some (JStr digest)"
    "digest = ?sig payload" "digest = seal_of E c"
    using u authenticD(2,3) [OF assms(1)] assms(4) seal
    by (auto simp: check_integrity_def compare_digest_def entry_of_def split: option.splits json.splits if_splits)
  have "?sig payload = ?sig (checkpoint_dump c)"
    using digest(2,3) by (simp add: seal_of_def signature_dump)
  from delete_signature [OF assms(2,7,8) this]
  have same: "canonical_fields (AList.delete ''integrity_digest'' payload) =
    canonical_fields (AList.delete ''integrity_digest'' (checkpoint_dump c))" .
  have dump: "map_of (checkpoint_dump c) ''integrity_digest'' = Some (JStr digest)"
    using assms(3) digest(3)
    by (simp add: checkpoint_dump_def checkpoint_body_def well_sealed_def opt_json_def)
  from canonical_same [OF assms(6) checkpoint_dump_ok digest(1) dump same]
  have "canonical_fields payload = stored_fields c" by (simp add: stored_fields_def)
  with v assms(3) show ?thesis by (simp add: well_sealed_def)
qed

text \<open>A file written without its entry is refused: the entry is missing or names another generation.\<close>

lemma unindexed_refused:
  assumes "authentic E" "store_ok E s" "well_sealed E c" "\<not> stale_generation c s"
  shows "\<exists>e. read_checkpoint E (cs_entries s) (cp_execution_id c) (JsonFile (JObj (stored_fields c))) = Inl e"
proof -
  let ?i = "cp_execution_id c"
  have sig: "checkpoint_signature (ce_hmac E) (stored_fields c) (the_key E) = seal_of E c"
    by (simp add: stored_fields_def signature_dump seal_of_def)
  have ascii: "ascii_text (seal_of E c)"
    using authenticD(6) [OF assms(1)] by (simp add: seal_of_def)
  have "\<exists>e. check_integrity E (cs_entries s) ?i (stored_fields c) = Inl e"
  proof (cases "map_of (cs_entries s) ?i")
    case None
    with assms(3) authenticD(2,3) [OF assms(1)] ascii show ?thesis
      by (simp add: check_integrity_def stored_field well_sealed_def opt_json_def compare_digest_def sig)
  next
    case (Some e)
    with assms(4) have "ie_generation e < cp_generation c" by (simp add: stale_generation_def)
    with Some assms(3) authenticD(2,3) [OF assms(1)] ascii show ?thesis
      by (simp add: check_integrity_def stored_field well_sealed_def opt_json_def compare_digest_def sig json_is_int_def)
  qed
  then obtain e where "check_integrity E (cs_entries s) ?i (stored_fields c) = Inl e" by blast
  then show ?thesis by (simp add: read_checkpoint_def json_object_def del: contains_secret_key.simps)
qed

end
