(* ===== verification/Execution_Coordinator.thy ===== *)
theory Execution_Coordinator
  imports Workflow_Engine Checkpoint_Store
begin

text \<open>
  The execution coordinator (\<open>app/core/execution_coordinator.py\<close>): it owns the lifecycle of every
  execution around the orchestrator. An operation here is what the event loop runs without being
  interrupted, from one \<open>await\<close> to the next: starting an execution, a job reaching the semaphore, a
  pipeline coming back, an answered approval, a cancellation, a checkpoint taken by the runtime, a
  restart. What the orchestrator answers is an argument of the operation. Records live in a heap and
  are named by their address there, since a job keeps hold of its record when the registry has
  dropped it. Sessions, the \<open>model_dump\<close> and \<open>model_validate\<close> of the states in a checkpoint and of
  the report in a result are fields of the environment; conversations pass through unread. A save
  fails only with a \<open>CheckpointError\<close>.
\<close>

section \<open>State\<close>

datatype execution_truth =
    TRUTH_NOT_STARTED | TRUTH_PLANNED | TRUTH_WAITING_APPROVAL | TRUTH_APPROVED | TRUTH_EXECUTING
  | TRUTH_SUCCEEDED | TRUTH_FAILED | TRUTH_DENIED | TRUTH_CANCELLED | TRUTH_TIMED_OUT

text \<open>The fields of a report and of a pipeline state the coordinator reads or writes.\<close>

record execution_report =
  xr_plan_id :: string
  xr_success :: bool
  xr_truth :: execution_truth
  xr_approval_status :: string
  xr_errors :: "string list"
  xr_metadata :: "(string, pyval) dict"

record pipeline_state =
  pl_request :: string
  pl_plan :: "execution_plan option"
  pl_result :: "runtime_result option"
  pl_workflow :: "workflow_state option"
  pl_report :: "execution_report option"

datatype bus_event =
    BusCreated | BusStatus execution_status "string option" | BusCheckpoint nat | BusApproval string string
  | BusRecoveryStarted | BusRecoveryCompleted execution_status

datatype job_kind = InitialJob | ResumeJob string "string list"

datatype job_phase = JobCreated | JobWaiting | JobRunning | JobDone

text \<open>How the coroutine of a job ended: normally, with \<open>CancelledError\<close>, or with another exception.\<close>

datatype job_end = EndedOk | EndedCancelled | EndedRaised string

record job =
  jb_record :: nat
  jb_kind :: job_kind
  jb_phase :: job_phase

record active_execution =
  ax_state :: execution_state
  ax_conversation :: "json_fields list option"
  ax_pipeline :: "pipeline_state option"
  ax_task :: "nat option"
  ax_resolved :: "string list"
  ax_cancelled :: bool
  ax_failure :: "string option"
  ax_generation :: nat
  ax_outcomes :: "(string, string) dict"
  ax_results :: "(string, json_fields) dict"
  ax_retries :: "(string, int) dict"
  ax_recovered :: bool
  ax_events :: "bus_event list"

datatype evidence_event =
    EvidenceCreated string | EvidenceChanged string execution_status execution_status "string option"
  | EvidenceApprovalRequested string string | EvidenceApprovalResolved string string string
  | EvidenceDenied string | EvidenceTimedOut string | EvidenceCancelled string

record coordinator =
  co_records :: "active_execution list"
  co_registry :: "(string, nat) dict"
  co_jobs :: "job list"
  co_free :: nat
  co_store :: "checkpoint_store option"
  co_evidence :: "evidence_event list"

record coordinator_env =
  cv_store :: checkpoint_env
  cv_evidence :: bool
  cv_max_active :: nat
  cv_max_pending :: nat
  cv_max_retained :: nat
  cv_session_ok :: "string \<Rightarrow> string \<Rightarrow> bool"
  cv_dump_state :: "execution_state \<Rightarrow> json_fields"
  cv_load_state :: "json_fields \<Rightarrow> execution_state option"
  cv_dump_pipeline :: "pipeline_state \<Rightarrow> json_fields"
  cv_load_pipeline :: "json_fields \<Rightarrow> pipeline_state option"
  cv_dump_report :: "execution_report \<Rightarrow> pyval"
  cv_show :: "pyval \<Rightarrow> string"

datatype coordinator_error =
    ExecutionNotFound | ExecutionAccess | ExecutionConflict string | ExecutionCapacity
  | ApprovalDecisionUnknown | SessionRefused string | TransitionRefused string | JobRaised string

abbreviation max_active :: "coordinator_env \<Rightarrow> nat" where
  "max_active V \<equiv> max 1 (cv_max_active V)"

definition record_at :: "coordinator \<Rightarrow> nat \<Rightarrow> active_execution" where
  "record_at co a = co_records co ! a"

definition upd :: "nat \<Rightarrow> (active_execution \<Rightarrow> active_execution) \<Rightarrow> coordinator \<Rightarrow> coordinator" where
  "upd a f co = co\<lparr>co_records := (co_records co)[a := f (co_records co ! a)]\<rparr>"

definition upd_state :: "nat \<Rightarrow> (execution_state \<Rightarrow> execution_state) \<Rightarrow> coordinator \<Rightarrow> coordinator" where
  "upd_state a f = upd a (\<lambda>r. r\<lparr>ax_state := f (ax_state r)\<rparr>)"

definition state_at :: "coordinator \<Rightarrow> nat \<Rightarrow> execution_state" where
  "state_at co a = ax_state (record_at co a)"

definition status_at :: "coordinator \<Rightarrow> nat \<Rightarrow> execution_status" where
  "status_at co a = es_status (state_at co a)"

definition terminal_at :: "coordinator \<Rightarrow> nat \<Rightarrow> bool" where
  "terminal_at co a = es_terminal (state_at co a)"

definition publish :: "nat \<Rightarrow> bus_event \<Rightarrow> coordinator \<Rightarrow> coordinator" where
  "publish a ev = upd a (\<lambda>r. r\<lparr>ax_events := ax_events r @ [ev]\<rparr>)"

definition emit :: "coordinator_env \<Rightarrow> evidence_event \<Rightarrow> coordinator \<Rightarrow> coordinator" where
  "emit V ev co = (if cv_evidence V then co\<lparr>co_evidence := co_evidence co @ [ev]\<rparr> else co)"

section \<open>Checkpoints and transitions\<close>

definition or_empty :: "string option \<Rightarrow> string" where
  "or_empty t = (case t of None \<Rightarrow> [] | Some s \<Rightarrow> s)"

definition record_checkpoint :: "coordinator_env \<Rightarrow> int \<Rightarrow> bool \<Rightarrow> active_execution \<Rightarrow> recovery_checkpoint" where
  "record_checkpoint V now safe r =
     \<lparr>cp_schema_version = CHECKPOINT_SCHEMA_VERSION, cp_generation = int (ax_generation r),
      cp_execution_id = es_execution_id (ax_state r), cp_principal_id = or_empty (es_principal_id (ax_state r)),
      cp_session_id = or_empty (es_session_id (ax_state r)),
      cp_execution_state = cv_dump_state V (ax_state r),
      cp_pipeline_state = map_option (cv_dump_pipeline V) (ax_pipeline r),
      cp_conversation = (case ax_conversation r of Some (m # ms) \<Rightarrow> Some (m # ms) | _ \<Rightarrow> None),
      cp_resolved_approval_ids = sort (dedupe (ax_resolved r)), cp_operation_outcomes = ax_outcomes r,
      cp_operation_results = ax_results r, cp_retry_attempts = ax_retries r, cp_recovery_safe = safe,
      cp_created_at = ce_stamp (cv_store V) now, cp_updated_at = ce_stamp (cv_store V) now,
      cp_integrity_digest = None\<rparr>"

text \<open>The generation counts saves that were attempted; a refused one is not reported.\<close>

definition save_record :: "coordinator_env \<Rightarrow> int \<Rightarrow> bool \<Rightarrow> nat \<Rightarrow> coordinator \<Rightarrow> coordinator" where
  "save_record V now safe a co =
     (case co_store co of
        None \<Rightarrow> co
      | Some st \<Rightarrow>
          (let co1 = upd a (\<lambda>r. r\<lparr>ax_generation := ax_generation r + 1\<rparr>) co
           in case save_checkpoint (cv_store V) now (Recovery (record_checkpoint V now safe (record_at co1 a))) st of
                (Inl _, st') \<Rightarrow> co1\<lparr>co_store := Some st'\<rparr>
              | (Inr _, st') \<Rightarrow> publish a (BusCheckpoint (ax_generation (record_at co1 a))) (co1\<lparr>co_store := Some st'\<rparr>)))"

fun prune_loop :: "coordinator \<Rightarrow> nat option \<Rightarrow> (string \<times> nat) list \<Rightarrow> int \<Rightarrow> (string, nat) dict \<Rightarrow> (string, nat) dict" where
  "prune_loop co preserve [] excess reg = reg"
| "prune_loop co preserve ((i, a) # xs) excess reg =
     (if excess \<le> 0 then reg
      else if preserve = Some a then prune_loop co preserve xs excess reg
      else prune_loop co preserve xs (excess - 1) (AList.delete i reg))"

definition prune_terminal_records :: "coordinator_env \<Rightarrow> nat option \<Rightarrow> coordinator \<Rightarrow> coordinator" where
  "prune_terminal_records V preserve co =
     (let terminal = filter (\<lambda>(i, a). terminal_at co a) (co_registry co)
      in co\<lparr>co_registry := prune_loop co preserve terminal
              (int (length terminal) - int (max 1 (cv_max_retained V))) (co_registry co)\<rparr>)"

definition transition_record ::
  "coordinator_env \<Rightarrow> int \<Rightarrow> execution_status \<Rightarrow> string option \<Rightarrow> nat \<Rightarrow> coordinator \<Rightarrow>
   (string, unit) result \<times> coordinator" where
  "transition_record V now status error a co =
     (case transition now status error (state_at co a) of
        Inl t \<Rightarrow> (Inl t, co)
      | Inr e \<Rightarrow>
          (let co1 = publish a (BusStatus status error) (upd_state a (\<lambda>_. e) co);
               co2 = save_record V now (status = EXEC_PLANNING) a co1;
               co3 = emit V (EvidenceChanged (es_execution_id e) (status_at co a) status error) co2
           in (Inr (), if status_terminal status then prune_terminal_records V (Some a) co3 else co3)))"

section \<open>Results\<close>

fun truth_of :: "execution_status \<Rightarrow> execution_truth" where
  "truth_of EXEC_DENIED = TRUTH_DENIED"
| "truth_of EXEC_CANCELLED = TRUTH_CANCELLED"
| "truth_of EXEC_TIMED_OUT = TRUTH_TIMED_OUT"
| "truth_of _ = TRUTH_FAILED"

text \<open>\<open>_set_terminal_result\<close>, which is called with the four statuses of failure only.\<close>

definition terminal_report :: "execution_status \<Rightarrow> string \<Rightarrow> active_execution \<Rightarrow> execution_report" where
  "terminal_report status error r =
     (let i = es_execution_id (ax_state r)
      in \<lparr>xr_plan_id = (case ax_pipeline r of
             Some p \<Rightarrow> (case pl_plan p of Some plan \<Rightarrow> pn_plan_id plan | None \<Rightarrow> i) | None \<Rightarrow> i),
          xr_success = False, xr_truth = truth_of status, xr_approval_status = execution_value status,
          xr_errors = [error],
          xr_metadata = [(''execution_id'', PStr i), (''lifecycle_status'', PStr (execution_value status))]\<rparr>)"

definition terminal_result ::
  "coordinator_env \<Rightarrow> execution_status \<Rightarrow> string \<Rightarrow> bool \<Rightarrow> active_execution \<Rightarrow> active_execution" where
  "terminal_result V status error preserve r =
     (let e = ax_state r; i = es_execution_id e;
          report = terminal_report status error r;
          p = (case ax_pipeline r of Some p \<Rightarrow> p
               | None \<Rightarrow> \<lparr>pl_request = or_empty (es_request e), pl_plan = None, pl_result = None,
                          pl_workflow = None, pl_report = None\<rparr>);
          fresh = bare_result
                    (case es_pending_task_id e of Some (c # cs) \<Rightarrow> c # cs | _ \<Rightarrow> i)
                    (if status = EXEC_CANCELLED then CANCELLED else FAILED) (Some error) [];
          res = (if preserve then (case pl_result p of Some x \<Rightarrow> x | None \<Rightarrow> fresh) else fresh);
          marked = res\<lparr>rr_metadata := AList.update ''execution_id'' (PStr i)
                       (AList.update ''execution_report'' (cv_dump_report V report) (rr_metadata res))\<rparr>
      in r\<lparr>ax_pipeline := Some (p\<lparr>pl_result := Some marked, pl_report := Some report\<rparr>),
           ax_state := e\<lparr>es_result_available := True\<rparr>\<rparr>)"

definition set_terminal_result ::
  "coordinator_env \<Rightarrow> execution_status \<Rightarrow> string \<Rightarrow> bool \<Rightarrow> nat \<Rightarrow> coordinator \<Rightarrow> coordinator" where
  "set_terminal_result V status error preserve a = upd a (terminal_result V status error preserve)"

text \<open>\<open>int(value)\<close> on what a counter is stored as; text that is no number raises \<open>ValueError\<close>.\<close>

fun int_of_py :: "pyval \<Rightarrow> int option" where
  "int_of_py (PInt i) = Some i"
| "int_of_py (PBool b) = Some (if b then 1 else 0)"
| "int_of_py (PStr s) =
     (let t = py_strip s in if t \<noteq> [] \<and> list_all is_digit t then Some (int (str_nat t)) else None)"
| "int_of_py _ = None"

text \<open>\<open>_capture_workflow_reliability\<close>: what the results of a workflow say about its operations.\<close>

fun capture_results ::
  "coordinator_env \<Rightarrow> runtime_result list \<Rightarrow> active_execution \<Rightarrow> (string, unit) result \<times> active_execution" where
  "capture_results V [] r = (Inr (), r)"
| "capture_results V (x # xs) r =
     (let r1 = (case (map_of (rr_metadata x) ''operation_id'', map_of (rr_metadata x) ''operation_outcome'') of
                  (Some op, Some out) \<Rightarrow>
                    if truthy op \<and> truthy out
                    then r\<lparr>ax_outcomes := AList.update (py_str (cv_show V) op) (py_str (cv_show V) out) (ax_outcomes r)\<rparr>
                    else r
                | _ \<Rightarrow> r)
      in case map_of (rr_metadata x) ''retry_count'' of
           None \<Rightarrow> capture_results V xs r1
         | Some PNone \<Rightarrow> capture_results V xs r1
         | Some n \<Rightarrow>
             (case int_of_py n of
                None \<Rightarrow> (Inl ''invalid literal for int()'', r1)
              | Some k \<Rightarrow> capture_results V xs (r1\<lparr>ax_retries := AList.update (rr_task_id x) (k + 1) (ax_retries r1)\<rparr>)))"

definition capture_reliability ::
  "coordinator_env \<Rightarrow> pipeline_state \<Rightarrow> nat \<Rightarrow> coordinator \<Rightarrow> (string, unit) result \<times> coordinator" where
  "capture_reliability V p a co =
     (case pl_workflow p of
        None \<Rightarrow> (Inr (), co)
      | Some w \<Rightarrow>
          (let r = record_at co a;
               r1 = r\<lparr>ax_state := (ax_state r)\<lparr>es_completed_tasks := dedupe (ws_completed_ids w),
                                              es_failed_tasks := dedupe (ws_failed_ids w)\<rparr>\<rparr>
           in case capture_results V (ws_results w) r1 of (u, r2) \<Rightarrow> (u, upd a (\<lambda>_. r2) co)))"

section \<open>Settling a pipeline\<close>

definition clear_pending :: "execution_state \<Rightarrow> execution_state" where
  "clear_pending e = e\<lparr>es_pending_approval_id := None, es_pending_task_id := None\<rparr>"

definition settle_paused ::
  "coordinator_env \<Rightarrow> int \<Rightarrow> nat \<Rightarrow> string \<Rightarrow> coordinator \<Rightarrow> (string, unit) result \<times> coordinator" where
  "settle_paused V now a task co =
     (let co1 = upd_state a (\<lambda>e. e\<lparr>es_pending_approval_id := Some task, es_pending_task_id := Some task\<rparr>) co
      in case transition_record V now EXEC_AWAITING_APPROVAL None a co1 of
           (Inl t, co2) \<Rightarrow> (Inl t, co2)
         | (Inr _, co2) \<Rightarrow>
             (let co3 = save_record V now False a co2
              in (Inr (), emit V (EvidenceApprovalRequested (es_execution_id (state_at co3 a)) task) co3)))"

definition settled_status :: "runtime_result option \<Rightarrow> execution_status \<times> string option" where
  "settled_status res =
     (case res of
        None \<Rightarrow> (EXEC_FAILED, Some ''Pipeline produced no result.'')
      | Some x \<Rightarrow> if rr_status x = COMPLETED then (EXEC_COMPLETED, None)
                  else if rr_status x = CANCELLED then (EXEC_CANCELLED, None)
                  else (EXEC_FAILED, rr_error x))"

definition settle_ended ::
  "coordinator_env \<Rightarrow> int \<Rightarrow> nat \<Rightarrow> runtime_result option \<Rightarrow> coordinator \<Rightarrow> (string, unit) result \<times> coordinator" where
  "settle_ended V now a res co =
     (let co1 = upd_state a (\<lambda>e. (clear_pending e)\<lparr>es_result_available := (res \<noteq> None)\<rparr>) co
      in case transition_record V now (fst (settled_status res)) (snd (settled_status res)) a co1 of
           (Inl t, co2) \<Rightarrow> (Inl t, co2)
         | (Inr _, co2) \<Rightarrow> (Inr (), save_record V now False a co2))"

definition settle_pipeline ::
  "coordinator_env \<Rightarrow> int \<Rightarrow> nat \<Rightarrow> pipeline_state \<Rightarrow> coordinator \<Rightarrow> (string, unit) result \<times> coordinator" where
  "settle_pipeline V now a p co =
     (case capture_reliability V p a co of
        (Inl t, co1) \<Rightarrow> (Inl t, co1)
      | (Inr _, co1) \<Rightarrow>
          (case pl_result p of
             Some x \<Rightarrow> if rr_status x = PAUSED then settle_paused V now a (rr_task_id x) co1
                       else settle_ended V now a (Some x) co1
           | None \<Rightarrow> settle_ended V now a None co1))"

section \<open>Jobs\<close>

text \<open>
  What an interrupted or finished call of the orchestrator gives. A call that swallows its
  cancellation comes back with one of the others.
\<close>

datatype pipeline_answer =
    PipelineReturned pipeline_state | PipelineRaised string | PipelineTimeout string | PipelineCancelled

definition upd_job :: "nat \<Rightarrow> (job \<Rightarrow> job) \<Rightarrow> coordinator \<Rightarrow> coordinator" where
  "upd_job j f co = co\<lparr>co_jobs := (co_jobs co)[j := f (co_jobs co ! j)]\<rparr>"

definition phase_at :: "coordinator \<Rightarrow> nat \<Rightarrow> job_phase" where
  "phase_at co j = jb_phase (co_jobs co ! j)"

definition job_done :: "nat \<Rightarrow> coordinator \<Rightarrow> coordinator" where
  "job_done j = upd_job j (\<lambda>b. b\<lparr>jb_phase := JobDone\<rparr>)"

definition or_text :: "string option \<Rightarrow> string \<Rightarrow> string" where
  "or_text t d = (case t of Some (c # cs) \<Rightarrow> c # cs | _ \<Rightarrow> d)"

text \<open>The move to a terminal status of the handlers; what it raises ends the coroutine.\<close>

definition end_as ::
  "coordinator_env \<Rightarrow> int \<Rightarrow> execution_status \<Rightarrow> string option \<Rightarrow> nat \<Rightarrow> coordinator \<Rightarrow>
   (string, unit) result \<times> coordinator" where
  "end_as V now status error a co =
     (if terminal_at co a then (Inr (), co) else transition_record V now status error a co)"

definition save_if :: "bool \<Rightarrow> coordinator_env \<Rightarrow> int \<Rightarrow> nat \<Rightarrow> coordinator \<Rightarrow> coordinator" where
  "save_if b V now a co = (if b then save_record V now False a co else co)"

text \<open>The three handlers; only those of the first run save once more.\<close>

definition handle_raised ::
  "coordinator_env \<Rightarrow> int \<Rightarrow> bool \<Rightarrow> string \<Rightarrow> nat \<Rightarrow> coordinator \<Rightarrow> job_end \<times> coordinator" where
  "handle_raised V now initial t a co =
     (case end_as V now EXEC_FAILED (Some t) a (upd a (\<lambda>r. r\<lparr>ax_failure := Some t\<rparr>) co) of
        (Inl e, co1) \<Rightarrow> (EndedRaised e, co1)
      | (Inr _, co1) \<Rightarrow>
          (EndedOk, save_if initial V now a (set_terminal_result V EXEC_FAILED t False a co1)))"

definition handle_timeout ::
  "coordinator_env \<Rightarrow> int \<Rightarrow> string \<Rightarrow> nat \<Rightarrow> coordinator \<Rightarrow> job_end \<times> coordinator" where
  "handle_timeout V now t a co =
     (let t = or_text (Some t) ''Execution timed out.''
      in case end_as V now EXEC_TIMED_OUT (Some t) a co of
           (Inl e, co1) \<Rightarrow> (EndedRaised e, co1)
         | (Inr _, co1) \<Rightarrow> (EndedOk, save_record V now False a (set_terminal_result V EXEC_TIMED_OUT t False a co1)))"

definition handle_cancelled ::
  "coordinator_env \<Rightarrow> int \<Rightarrow> bool \<Rightarrow> nat \<Rightarrow> coordinator \<Rightarrow> job_end \<times> coordinator" where
  "handle_cancelled V now initial a co =
     (case end_as V now EXEC_CANCELLED None a co of
        (Inl e, co1) \<Rightarrow> (EndedRaised e, co1)
      | (Inr _, co1) \<Rightarrow>
          (EndedCancelled, save_if initial V now a (set_terminal_result V
             (if status_at co1 a = EXEC_TIMED_OUT then EXEC_TIMED_OUT else EXEC_CANCELLED)
             (or_text (es_error (state_at co1 a)) ''Execution cancelled.'') False a co1)))"

text \<open>\<open>_execute_initial_pipeline\<close> behind the call, and the handlers of \<open>_run_initial\<close>.\<close>

definition finish_initial ::
  "coordinator_env \<Rightarrow> int \<Rightarrow> nat \<Rightarrow> pipeline_answer \<Rightarrow> coordinator \<Rightarrow> job_end \<times> coordinator" where
  "finish_initial V now a answer co =
     (case answer of
        PipelineReturned p \<Rightarrow>
          (case settle_pipeline V now a p (upd a (\<lambda>r. r\<lparr>ax_pipeline := Some p\<rparr>) co) of
             (Inl t, co1) \<Rightarrow> handle_raised V now True t a co1
           | (Inr _, co1) \<Rightarrow>
               (EndedOk, if ax_recovered (record_at co1 a)
                         then publish a (BusRecoveryCompleted (status_at co1 a)) co1 else co1))
      | PipelineRaised t \<Rightarrow> handle_raised V now True t a co
      | PipelineTimeout t \<Rightarrow> handle_timeout V now t a co
      | PipelineCancelled \<Rightarrow> handle_cancelled V now True a co)"

definition settle_denied ::
  "coordinator_env \<Rightarrow> int \<Rightarrow> nat \<Rightarrow> pipeline_state \<Rightarrow> coordinator \<Rightarrow> (string, unit) result \<times> coordinator" where
  "settle_denied V now a p co =
     (let co1 = upd_state a (\<lambda>e. (clear_pending e)\<lparr>es_result_available := (pl_result p \<noteq> None)\<rparr>) co;
          co2 = set_terminal_result V EXEC_DENIED
                  (or_text (case pl_result p of Some x \<Rightarrow> rr_error x | None \<Rightarrow> None) ''Execution denied by user.'')
                  True a co1
      in case transition_record V now EXEC_DENIED None a co2 of
           (Inl t, co3) \<Rightarrow> (Inl t, co3)
         | (Inr _, co3) \<Rightarrow> (Inr (), emit V (EvidenceDenied (es_execution_id (state_at co3 a))) co3))"

definition finish_resume ::
  "coordinator_env \<Rightarrow> int \<Rightarrow> nat \<Rightarrow> string \<Rightarrow> pipeline_answer \<Rightarrow> coordinator \<Rightarrow> job_end \<times> coordinator" where
  "finish_resume V now a decision answer co =
     (case answer of
        PipelineReturned p \<Rightarrow>
          (let co1 = upd a (\<lambda>r. r\<lparr>ax_pipeline := Some p\<rparr>) co
           in case (if decision = ''deny'' then settle_denied V now a p co1 else settle_pipeline V now a p co1) of
                (Inl t, co2) \<Rightarrow> handle_raised V now False t a co2
              | (Inr _, co2) \<Rightarrow> (EndedOk, co2))
      | PipelineRaised t \<Rightarrow> handle_raised V now False t a co
      | PipelineTimeout t \<Rightarrow> handle_raised V now False t a co
      | PipelineCancelled \<Rightarrow> handle_cancelled V now False a co)"

definition finish_record ::
  "coordinator_env \<Rightarrow> int \<Rightarrow> job_kind \<Rightarrow> nat \<Rightarrow> pipeline_answer \<Rightarrow> coordinator \<Rightarrow> job_end \<times> coordinator" where
  "finish_record V now kind a answer co =
     (case kind of
        InitialJob \<Rightarrow> finish_initial V now a answer co
      | ResumeJob decision reasons \<Rightarrow> finish_resume V now a decision answer co)"

text \<open>The semaphore is held by the first runs that have started, and by nothing else.\<close>

definition holds_permit :: "job \<Rightarrow> bool" where
  "holds_permit b = (jb_kind b = InitialJob \<and> jb_phase b = JobRunning)"

definition release_permit :: "coordinator \<Rightarrow> coordinator" where
  "release_permit co = co\<lparr>co_free := co_free co + 1\<rparr>"

definition end_job ::
  "coordinator_env \<Rightarrow> int \<Rightarrow> nat \<Rightarrow> pipeline_answer \<Rightarrow> coordinator \<Rightarrow> job_end \<times> coordinator" where
  "end_job V now j answer co =
     (let b = co_jobs co ! j;
          co1 = job_done j (if holds_permit b then release_permit co else co)
      in finish_record V now (jb_kind b) (jb_record b) answer co1)"

text \<open>The job is scheduled: at its start, or when it was woken at the semaphore.\<close>

definition enter_initial ::
  "coordinator_env \<Rightarrow> int \<Rightarrow> nat \<Rightarrow> nat \<Rightarrow> coordinator \<Rightarrow> job_end option \<times> coordinator" where
  "enter_initial V now j a co =
     (if co_free co = 0 then (None, upd_job j (\<lambda>b. b\<lparr>jb_phase := JobWaiting\<rparr>) co)
      else if ax_cancelled (record_at co a) \<or> terminal_at co a then (Some EndedOk, job_done j co)
      else
        (let co1 = (upd_job j (\<lambda>b. b\<lparr>jb_phase := JobRunning\<rparr>) co)\<lparr>co_free := co_free co - 1\<rparr>
         in if status_at co a \<in> {EXEC_PLANNING, EXEC_RECOVERING} then
              (case transition_record V now EXEC_RUNNING None a co1 of
                 (Inl t, co2) \<Rightarrow> map_prod Some id (end_job V now j (PipelineRaised t) co2)
               | (Inr _, co2) \<Rightarrow> (None, co2))
            else (None, co1)))"

definition begin_job ::
  "coordinator_env \<Rightarrow> int \<Rightarrow> nat \<Rightarrow> coordinator \<Rightarrow> job_end option \<times> coordinator" where
  "begin_job V now j co =
     (let b = co_jobs co ! j
      in case jb_kind b of
           InitialJob \<Rightarrow> enter_initial V now j (jb_record b) co
         | ResumeJob _ _ \<Rightarrow> (None, upd_job j (\<lambda>b. b\<lparr>jb_phase := JobRunning\<rparr>) co))"

definition create_job :: "nat \<Rightarrow> job_kind \<Rightarrow> coordinator \<Rightarrow> coordinator" where
  "create_job a kind co =
     upd a (\<lambda>r. r\<lparr>ax_task := Some (length (co_jobs co))\<rparr>)
       (co\<lparr>co_jobs := co_jobs co @ [\<lparr>jb_record = a, jb_kind = kind, jb_phase = JobCreated\<rparr>]\<rparr>)"

section \<open>Starting\<close>

definition live_count :: "coordinator \<Rightarrow> nat" where
  "live_count co = length (filter (\<lambda>(i, a). \<not> terminal_at co a) (co_registry co))"

definition new_execution :: "execution_state \<Rightarrow> json_fields list option \<Rightarrow> active_execution" where
  "new_execution e conversation =
     \<lparr>ax_state = e, ax_conversation = conversation, ax_pipeline = None, ax_task = None, ax_resolved = [],
      ax_cancelled = False, ax_failure = None, ax_generation = 0, ax_outcomes = [], ax_results = [],
      ax_retries = [], ax_recovered = False, ax_events = []\<rparr>"

text \<open>A record is entered in the registry under its execution id.\<close>

definition register :: "active_execution \<Rightarrow> coordinator \<Rightarrow> coordinator" where
  "register r co = co\<lparr>co_records := co_records co @ [r],
     co_registry := AList.update (es_execution_id (ax_state r)) (length (co_records co)) (co_registry co)\<rparr>"

text \<open>\<open>session\<close> is what the session manager resolved, \<open>i\<close> the id given or drawn.\<close>

definition start_execution ::
  "coordinator_env \<Rightarrow> int \<Rightarrow> (string, string) result \<Rightarrow> string \<Rightarrow> string \<Rightarrow> string \<Rightarrow> (string, pyval) dict \<Rightarrow>
   json_fields list option \<Rightarrow> coordinator \<Rightarrow> (coordinator_error, execution_state) result \<times> coordinator" where
  "start_execution V now session i owner request metadata conversation co =
     (case session of
        Inl t \<Rightarrow> (Inl (SessionRefused t), co)
      | Inr sid \<Rightarrow>
          if dict_has i (co_registry co) then (Inl (ExecutionConflict ''Execution ID already exists.''), co)
          else if live_count co \<ge> max_active V + cv_max_pending V then (Inl ExecutionCapacity, co)
          else
            (let a = length (co_records co);
                 r = new_execution (new_execution_state i owner sid request metadata now) conversation;
                 co1 = publish a BusCreated (save_record V now True a (register r co));
                 co2 = emit V (EvidenceCreated i) co1
             in case transition_record V now EXEC_PLANNING None a co2 of
                  (Inl t, co3) \<Rightarrow> (Inl (TransitionRefused t), co3)
                | (Inr _, co3) \<Rightarrow>
                    (let co4 = create_job a InitialJob co3 in (Inr (state_at co4 a), co4))))"

section \<open>Approvals\<close>

definition owned :: "coordinator \<Rightarrow> string \<Rightarrow> string \<Rightarrow> (coordinator_error, nat) result" where
  "owned co i owner =
     (case map_of (co_registry co) i of
        None \<Rightarrow> Inl ExecutionNotFound
      | Some a \<Rightarrow> if es_principal_id (state_at co a) \<noteq> Some owner then Inl ExecutionAccess else Inr a)"

definition approval_refusal :: "coordinator \<Rightarrow> nat \<Rightarrow> string \<Rightarrow> string \<Rightarrow> coordinator_error option" where
  "approval_refusal co a approval decision =
     (let r = record_at co a; e = ax_state r
      in if es_status e \<noteq> EXEC_AWAITING_APPROVAL then
           Some (ExecutionConflict ''Execution is not awaiting approval.'')
         else if es_pending_approval_id e \<noteq> Some approval then
           Some (ExecutionConflict ''Approval ID does not match this execution.'')
         else if approval \<in> set (ax_resolved r) then
           Some (ExecutionConflict ''Approval has already been resolved.'')
         else if decision \<notin> {''allow'', ''deny''} then Some ApprovalDecisionUnknown
         else if ax_pipeline r = None \<or> es_pending_task_id e = None then
           Some (ExecutionConflict ''Pending pipeline state is unavailable.'')
         else None)"

text \<open>The approval is taken: recorded, saved, published, and moved on when it allows.\<close>

definition take_approval ::
  "coordinator_env \<Rightarrow> int \<Rightarrow> string \<Rightarrow> nat \<Rightarrow> string \<Rightarrow> string \<Rightarrow> coordinator \<Rightarrow> coordinator" where
  "take_approval V now i a approval d co =
     emit V (EvidenceApprovalResolved i approval d)
       (publish a (BusApproval approval d)
         (save_record V now False a (upd a (\<lambda>r. r\<lparr>ax_resolved := approval # ax_resolved r\<rparr>) co)))"

definition move_approved ::
  "coordinator_env \<Rightarrow> int \<Rightarrow> nat \<Rightarrow> string \<Rightarrow> coordinator \<Rightarrow> (string, unit) result \<times> coordinator" where
  "move_approved V now a d co =
     (if d = ''allow'' then
        (case transition_record V now EXEC_APPROVED None a co of
           (Inl t, co1) \<Rightarrow> (Inl t, co1)
         | (Inr _, co1) \<Rightarrow> transition_record V now EXEC_RUNNING None a co1)
      else (Inr (), co))"

definition submit_approval ::
  "coordinator_env \<Rightarrow> int \<Rightarrow> string \<Rightarrow> string \<Rightarrow> string \<Rightarrow> string \<Rightarrow> string list \<Rightarrow> coordinator \<Rightarrow>
   (coordinator_error, execution_state) result \<times> coordinator" where
  "submit_approval V now i approval decision owner reasons co =
     (case owned co i owner of
        Inl e \<Rightarrow> (Inl e, co)
      | Inr a \<Rightarrow>
          (let d = py_lower (py_strip decision)
           in case approval_refusal co a approval d of
                Some e \<Rightarrow> (Inl e, co)
              | None \<Rightarrow>
                  (case move_approved V now a d (take_approval V now i a approval d co) of
                     (Inl t, co1) \<Rightarrow> (Inl (TransitionRefused t), co1)
                   | (Inr _, co1) \<Rightarrow>
                       (let co2 = create_job a (ResumeJob d reasons) co1 in (Inr (state_at co2 a), co2)))))"

section \<open>Cancelling and timing out\<close>

text \<open>
  \<open>task.cancel()\<close> and the wait for the task. A job that has not started never runs its handlers; one
  that waits at the semaphore runs them; one inside the orchestrator gets \<open>answer\<close>.
\<close>

definition interrupt ::
  "coordinator_env \<Rightarrow> int \<Rightarrow> nat \<Rightarrow> pipeline_answer \<Rightarrow> coordinator \<Rightarrow> job_end \<times> coordinator" where
  "interrupt V now a answer co =
     (case ax_task (record_at co a) of
        None \<Rightarrow> (EndedOk, co)
      | Some j \<Rightarrow>
          (case phase_at co j of
             JobDone \<Rightarrow> (EndedOk, co)
           | JobCreated \<Rightarrow> (EndedCancelled, job_done j co)
           | JobWaiting \<Rightarrow> end_job V now j PipelineCancelled co
           | JobRunning \<Rightarrow> end_job V now j answer co))"

definition close_execution ::
  "coordinator_env \<Rightarrow> int \<Rightarrow> execution_status \<Rightarrow> string \<Rightarrow> nat \<Rightarrow> coordinator \<Rightarrow> coordinator" where
  "close_execution V now status t a co =
     save_record V now False a (upd_state a clear_pending (set_terminal_result V status t False a co))"

definition cancel_execution ::
  "coordinator_env \<Rightarrow> int \<Rightarrow> string \<Rightarrow> string \<Rightarrow> pipeline_answer \<Rightarrow> coordinator \<Rightarrow>
   (coordinator_error, execution_state) result \<times> coordinator" where
  "cancel_execution V now i owner answer co =
     (case owned co i owner of
        Inl e \<Rightarrow> (Inl e, co)
      | Inr a \<Rightarrow>
          if terminal_at co a then (Inr (state_at co a), co)
          else
            (case interrupt V now a answer (upd a (\<lambda>r. r\<lparr>ax_cancelled := True\<rparr>) co) of
               (EndedRaised t, co1) \<Rightarrow> (Inl (JobRaised t), co1)
             | (_, co1) \<Rightarrow>
                 (case end_as V now EXEC_CANCELLED None a co1 of
                    (Inl t, co2) \<Rightarrow> (Inl (TransitionRefused t), co2)
                  | (Inr _, co2) \<Rightarrow>
                      (let co3 = emit V (EvidenceCancelled i)
                                   (close_execution V now EXEC_CANCELLED ''Execution cancelled.'' a co2)
                       in (Inr (state_at co3 a), co3)))))"

definition timeout_execution ::
  "coordinator_env \<Rightarrow> int \<Rightarrow> string \<Rightarrow> string \<Rightarrow> string \<Rightarrow> pipeline_answer \<Rightarrow> coordinator \<Rightarrow>
   (coordinator_error, execution_state) result \<times> coordinator" where
  "timeout_execution V now i owner t answer co =
     (case owned co i owner of
        Inl e \<Rightarrow> (Inl e, co)
      | Inr a \<Rightarrow>
          if terminal_at co a then (Inr (state_at co a), co)
          else
            (case transition_record V now EXEC_TIMED_OUT (Some t) a co of
               (Inl u, co1) \<Rightarrow> (Inl (TransitionRefused u), co1)
             | (Inr _, co1) \<Rightarrow>
                 (case interrupt V now a answer (upd a (\<lambda>r. r\<lparr>ax_cancelled := True\<rparr>) co1) of
                    (EndedRaised u, co2) \<Rightarrow> (Inl (JobRaised u), co2)
                  | (_, co2) \<Rightarrow>
                      (let co3 = emit V (EvidenceTimedOut i) (close_execution V now EXEC_TIMED_OUT t a co2)
                       in (Inr (state_at co3 a), co3)))))"

section \<open>Checkpoints of the runtime\<close>

text \<open>\<open>_runtime_checkpoint\<close>; an argument that was not given is \<open>None\<close>.\<close>

definition runtime_checkpoint ::
  "coordinator_env \<Rightarrow> int \<Rightarrow> nat \<Rightarrow> pipeline_state option \<Rightarrow> string option \<Rightarrow> string option \<Rightarrow> string option \<Rightarrow>
   int option \<Rightarrow> json_fields option \<Rightarrow> bool \<Rightarrow> coordinator \<Rightarrow> (string, unit) result \<times> coordinator" where
  "runtime_checkpoint V now a p task op outcome attempt res safe co =
     (case (case p of None \<Rightarrow> (Inr (), co)
            | Some q \<Rightarrow> capture_reliability V q a (upd a (\<lambda>r. r\<lparr>ax_pipeline := Some q\<rparr>) co)) of
        (Inl t, co1) \<Rightarrow> (Inl t, co1)
      | (Inr _, co1) \<Rightarrow>
          (let co2 = upd a (\<lambda>r. case (op, outcome) of
                 (Some (x # xs), Some (y # ys)) \<Rightarrow> r\<lparr>ax_outcomes := AList.update (x # xs) (y # ys) (ax_outcomes r)\<rparr>
               | _ \<Rightarrow> r) co1;
               co3 = upd a (\<lambda>r. case (op, res) of
                 (Some (x # xs), Some v) \<Rightarrow> r\<lparr>ax_results := AList.update (x # xs) v (ax_results r)\<rparr> | _ \<Rightarrow> r) co2;
               co4 = upd a (\<lambda>r. case (task, attempt) of
                 (Some (x # xs), Some n) \<Rightarrow> r\<lparr>ax_retries := AList.update (x # xs) n (ax_retries r)\<rparr> | _ \<Rightarrow> r) co3
           in (Inr (), save_record V now safe a co4)))"

section \<open>Recovery\<close>

fun recover_from :: "(string \<times> nat) list \<Rightarrow> coordinator \<Rightarrow> string list \<times> coordinator" where
  "recover_from [] co = ([], co)"
| "recover_from ((i, a) # xs) co =
     (if status_at co a \<noteq> EXEC_RECOVERING then recover_from xs co
      else (case recover_from xs (create_job a InitialJob (publish a BusRecoveryStarted co)) of
              (is, co') \<Rightarrow> (es_execution_id (state_at co a) # is, co')))"

definition recover_pending :: "coordinator \<Rightarrow> string list \<times> coordinator" where
  "recover_pending co = recover_from (co_registry co) co"

text \<open>The statuses of an execution that was interrupted.\<close>

definition interrupted :: "execution_status \<Rightarrow> bool" where
  "interrupted s = (s \<in> {EXEC_CREATED, EXEC_PLANNING, EXEC_APPROVED, EXEC_RUNNING, EXEC_RECOVERING})"

definition restored_record ::
  "coordinator_env \<Rightarrow> recovery_checkpoint \<Rightarrow> active_execution option" where
  "restored_record V c =
     (case cv_load_state V (cp_execution_state c) of
        None \<Rightarrow> None
      | Some e \<Rightarrow>
          if es_execution_id e \<noteq> cp_execution_id c \<or> \<not> cv_session_ok V (cp_principal_id c) (cp_session_id c) then None
          else
            (case (case cp_pipeline_state c of None \<Rightarrow> Some None | Some p \<Rightarrow> map_option Some (cv_load_pipeline V p)) of
               None \<Rightarrow> None
             | Some p \<Rightarrow>
                 Some \<lparr>ax_state = e, ax_conversation = cp_conversation c, ax_pipeline = p, ax_task = None,
                       ax_resolved = cp_resolved_approval_ids c, ax_cancelled = False, ax_failure = None,
                       ax_generation = nat (cp_generation c), ax_outcomes = cp_operation_outcomes c,
                       ax_results = cp_operation_results c, ax_retries = cp_retry_attempts c,
                       ax_recovered = True, ax_events = []\<rparr>))"

text \<open>The recovery of one record: replay when it was marked safe, otherwise failure.\<close>

definition mark_recovered ::
  "coordinator_env \<Rightarrow> int \<Rightarrow> bool \<Rightarrow> active_execution \<Rightarrow> (string, active_execution) result" where
  "mark_recovered V now safe r =
     (let e = ax_state r
      in if \<not> interrupted (es_status e) then Inr r
         else if safe then
           res_bind (if es_terminal e \<or> es_status e = EXEC_RECOVERING then Inr e
                     else transition now EXEC_RECOVERING None e) (\<lambda>e'.
           Inr (r\<lparr>ax_state := e'\<lparr>es_metadata := AList.update ''recovery_safe'' (PBool True) (es_metadata e')\<rparr>\<rparr>))
         else
           res_bind (if es_terminal e then Inr e
                     else transition now EXEC_FAILED
                            (Some ''Recovery cannot prove the interrupted operation is safe to replay.'') e) (\<lambda>e'.
           Inr (terminal_result V EXEC_FAILED (or_text (es_error e') ''Unsafe recovery state.'') False
                  (r\<lparr>ax_state := e'\<rparr>))))"

text \<open>A checkpoint that does not load is skipped; a refused transition ends the constructor.\<close>

fun restore_from ::
  "coordinator_env \<Rightarrow> int \<Rightarrow> snapshot list \<Rightarrow> coordinator \<Rightarrow> (string, coordinator) result" where
  "restore_from V now [] co = Inr co"
| "restore_from V now (StateSnapshot e # ss) co = restore_from V now ss co"
| "restore_from V now (Recovery c # ss) co =
     (case restored_record V c of
        None \<Rightarrow> restore_from V now ss co
      | Some r \<Rightarrow>
          res_bind (mark_recovered V now (cp_recovery_safe c) r) (\<lambda>r'.
          restore_from V now ss
            (publish (length (co_records co)) (BusRecoveryCompleted (es_status (ax_state r'))) (register r' co))))"

definition empty_coordinator :: "coordinator_env \<Rightarrow> checkpoint_store option \<Rightarrow> coordinator" where
  "empty_coordinator V store =
     \<lparr>co_records = [], co_registry = [], co_jobs = [], co_free = max_active V, co_store = store,
      co_evidence = []\<rparr>"

text \<open>The constructor: \<open>_restore_checkpoints\<close>, then \<open>_prune_terminal_records\<close>.\<close>

definition new_coordinator ::
  "coordinator_env \<Rightarrow> int \<Rightarrow> checkpoint_store option \<Rightarrow> (string, coordinator) result" where
  "new_coordinator V now store =
     (case store of
        None \<Rightarrow> Inr (empty_coordinator V None)
      | Some st \<Rightarrow>
          (case list_checkpoints (cv_store V) st of
             (Inl e, st') \<Rightarrow> Inl ''comparing strings with non-ASCII characters is not supported''
           | (Inr snaps, st') \<Rightarrow>
               res_bind (restore_from V now snaps (empty_coordinator V (Some st')))
                 (\<lambda>co. Inr (prune_terminal_records V None co))))"

section \<open>Reading\<close>

definition inspect_execution ::
  "string \<Rightarrow> string \<Rightarrow> coordinator \<Rightarrow> (coordinator_error, execution_state) result" where
  "inspect_execution i owner co = res_bind (owned co i owner) (\<lambda>a. Inr (state_at co a))"

record approval_notice =
  an_execution_id :: string
  an_approval_id :: "string option"
  an_reason :: string
  an_metadata :: "(string, pyval) dict"

definition pending_approval ::
  "string \<Rightarrow> string \<Rightarrow> coordinator \<Rightarrow> (coordinator_error, approval_notice option) result" where
  "pending_approval i owner co =
     res_bind (owned co i owner) (\<lambda>a.
       if status_at co a \<noteq> EXEC_AWAITING_APPROVAL then Inr None
       else
         (let pause = (case ax_pipeline (record_at co a) of None \<Rightarrow> None
                       | Some p \<Rightarrow> (case pl_result p of None \<Rightarrow> None | Some x \<Rightarrow> rr_pause x))
          in Inr (Some \<lparr>an_execution_id = i, an_approval_id = es_pending_approval_id (state_at co a),
                        an_reason = (case pause of None \<Rightarrow> ''Approval required'' | Some x \<Rightarrow> xp_reason x),
                        an_metadata = (case pause of None \<Rightarrow> [] | Some x \<Rightarrow> xp_metadata x)\<rparr>)))"

definition execution_result ::
  "string \<Rightarrow> string \<Rightarrow> coordinator \<Rightarrow> (coordinator_error, runtime_result option) result" where
  "execution_result i owner co =
     res_bind (owned co i owner) (\<lambda>a.
       Inr (case ax_pipeline (record_at co a) of None \<Rightarrow> None | Some p \<Rightarrow> pl_result p))"

definition execution_events ::
  "string \<Rightarrow> string \<Rightarrow> nat \<Rightarrow> coordinator \<Rightarrow> (coordinator_error, bus_event list) result" where
  "execution_events i owner after co =
     res_bind (owned co i owner) (\<lambda>a. Inr (drop after (ax_events (record_at co a))))"

definition active_execution_ids :: "coordinator \<Rightarrow> string list" where
  "active_execution_ids co = map fst (filter (\<lambda>(i, a). \<not> terminal_at co a) (co_registry co))"

section \<open>Steps\<close>

text \<open>One step of the event loop, in an environment that answers as it likes.\<close>

inductive coordinator_step :: "coordinator_env \<Rightarrow> coordinator \<Rightarrow> coordinator \<Rightarrow> bool" where
  step_start: "i \<noteq> [] \<Longrightarrow>
    coordinator_step V co (snd (start_execution V now session i owner request metadata conversation co))"
| step_begin: "j < length (co_jobs co) \<Longrightarrow> phase_at co j \<in> {JobCreated, JobWaiting} \<Longrightarrow>
    coordinator_step V co (snd (begin_job V now j co))"
| step_end: "j < length (co_jobs co) \<Longrightarrow> phase_at co j = JobRunning \<Longrightarrow>
    coordinator_step V co (snd (end_job V now j answer co))"
| step_submit: "coordinator_step V co (snd (submit_approval V now i approval decision owner reasons co))"
| step_cancel: "coordinator_step V co (snd (cancel_execution V now i owner answer co))"
| step_timeout: "coordinator_step V co (snd (timeout_execution V now i owner t answer co))"
| step_checkpoint: "j < length (co_jobs co) \<Longrightarrow> phase_at co j = JobRunning \<Longrightarrow> a = jb_record (co_jobs co ! j) \<Longrightarrow>
    coordinator_step V co (snd (runtime_checkpoint V now a p task op outcome attempt res safe co))"
| step_pipeline: "j < length (co_jobs co) \<Longrightarrow> phase_at co j = JobRunning \<Longrightarrow> a = jb_record (co_jobs co ! j) \<Longrightarrow>
    ax_pipeline (record_at co a) = Some q \<Longrightarrow> coordinator_step V co (upd a (\<lambda>r. r\<lparr>ax_pipeline := Some p\<rparr>) co)"
| step_recover: "coordinator_step V co (snd (recover_pending co))"

inductive coordinator_runs :: "coordinator_env \<Rightarrow> coordinator \<Rightarrow> coordinator \<Rightarrow> bool" where
  runs_here: "coordinator_runs V co co"
| runs_step: "coordinator_runs V co co' \<Longrightarrow> coordinator_step V co' co'' \<Longrightarrow> coordinator_runs V co co''"

inductive coordinator_reachable :: "coordinator_env \<Rightarrow> coordinator \<Rightarrow> bool" where
  reachable_new: "new_coordinator V now store = Inr co \<Longrightarrow> coordinator_reachable V co"
| reachable_step: "coordinator_reachable V co \<Longrightarrow> coordinator_step V co co' \<Longrightarrow> coordinator_reachable V co'"

end
