(* ===== verification/Coordinator_Invariants.thy ===== *)
theory Coordinator_Invariants
  imports Execution_Coordinator
begin

text \<open>
  What every step of the coordinator keeps. A record only evolves: its identity stays, its status
  moves along the table and approvals once resolved stay resolved. The registry only loses terminal
  executions, except where a start enters a new one, and the semaphore is held by the first runs that
  are under way. Each part of a step is shown to evolve its records, and a step is a composition.
\<close>

named_theorems evolving \<open>parts of a step that evolve the records\<close>

section \<open>Evolution of the records\<close>

definition advances_record :: "active_execution \<Rightarrow> active_execution \<Rightarrow> bool" where
  "advances_record r r' \<longleftrightarrow>
     es_execution_id (ax_state r') = es_execution_id (ax_state r) \<and>
     es_principal_id (ax_state r') = es_principal_id (ax_state r) \<and>
     moves (es_status (ax_state r)) (es_status (ax_state r')) \<and>
     set (ax_resolved r) \<subseteq> set (ax_resolved r') \<and> ax_generation r \<le> ax_generation r'"

text \<open>Only the creation of a job changes which one a record waits for.\<close>

definition evolves_record :: "active_execution \<Rightarrow> active_execution \<Rightarrow> bool" where
  "evolves_record r r' \<longleftrightarrow> advances_record r r' \<and> ax_task r' = ax_task r"

lemmas evolves_record_defs = evolves_record_def advances_record_def

definition evolves :: "coordinator \<Rightarrow> coordinator \<Rightarrow> bool" where
  "evolves co co' \<longleftrightarrow> length (co_records co') = length (co_records co) \<and>
     (\<forall>a < length (co_records co). evolves_record (record_at co a) (record_at co' a)) \<and>
     co_jobs co' = co_jobs co \<and> co_free co' = co_free co \<and>
     set (co_registry co') \<subseteq> set (co_registry co) \<and>
     (dict_ok (co_registry co) \<longrightarrow> dict_ok (co_registry co'))"

lemma evolves_record_refl [simp]: "evolves_record r r"
  by (simp add: evolves_record_defs moves.here)

lemma advances_record_refl [simp]: "advances_record r r"
  by (simp add: advances_record_def moves.here)

lemma advances_record_trans: "advances_record r s \<Longrightarrow> advances_record s t \<Longrightarrow> advances_record r t"
  by (auto simp: advances_record_def intro: moves_trans)

lemma evolves_record_trans: "evolves_record r s \<Longrightarrow> evolves_record s t \<Longrightarrow> evolves_record r t"
  by (auto simp: evolves_record_def intro: advances_record_trans)

lemma evolves_refl [simp, evolving]: "evolves co co"
  by (simp add: evolves_def)

lemma evolves_trans [trans]: "evolves a b \<Longrightarrow> evolves b c \<Longrightarrow> evolves a c"
  unfolding evolves_def by (metis evolves_record_trans subset_trans)

lemma record_at_upd:
  "record_at (upd a f co) b = (if b = a \<and> a < length (co_records co) then f (record_at co a) else record_at co b)"
  by (cases "a < length (co_records co)") (auto simp: record_at_def upd_def nth_list_update list_update_beyond)

lemma upd_frame [simp]:
  "co_registry (upd a f co) = co_registry co" "co_jobs (upd a f co) = co_jobs co"
  "co_free (upd a f co) = co_free co" "co_store (upd a f co) = co_store co"
  "length (co_records (upd a f co)) = length (co_records co)"
  "co_evidence (upd a f co) = co_evidence co"
  by (simp_all add: upd_def)

lemma evolves_upd:
  assumes "\<And>r. r = record_at co a \<Longrightarrow> evolves_record r (f r)"
  shows "evolves co (upd a f co)"
  using assms by (simp add: evolves_def record_at_upd)

lemma evolves_publish [evolving]: "evolves co (publish a ev co)"
  unfolding publish_def by (rule evolves_upd) (simp add: evolves_record_defs moves.here)

lemma publish_frame [simp]:
  "co_registry (publish a ev co) = co_registry co" "co_jobs (publish a ev co) = co_jobs co"
  "co_free (publish a ev co) = co_free co" "co_store (publish a ev co) = co_store co"
  "length (co_records (publish a ev co)) = length (co_records co)"
  by (simp_all add: publish_def)

lemma emit_frame [simp]:
  "co_records (emit V ev co) = co_records co" "co_registry (emit V ev co) = co_registry co"
  "co_jobs (emit V ev co) = co_jobs co" "co_free (emit V ev co) = co_free co" "co_store (emit V ev co) = co_store co"
  by (simp_all add: emit_def)

lemma evolves_emit [evolving]: "evolves co (emit V ev co)"
  by (simp add: evolves_def record_at_def)

lemma upd_state_frame [simp]:
  "co_registry (upd_state a f co) = co_registry co" "co_jobs (upd_state a f co) = co_jobs co"
  "co_free (upd_state a f co) = co_free co" "co_store (upd_state a f co) = co_store co"
  "length (co_records (upd_state a f co)) = length (co_records co)"
  by (simp_all add: upd_state_def)

lemma evolves_upd_state:
  assumes "\<And>e. e = state_at co a \<Longrightarrow> es_execution_id (f e) = es_execution_id e \<and>
    es_principal_id (f e) = es_principal_id e \<and> moves (es_status e) (es_status (f e))"
  shows "evolves co (upd_state a f co)"
  unfolding upd_state_def
  by (rule evolves_upd) (use assms in \<open>simp add: evolves_record_defs state_at_def\<close>)

lemma evolves_save_record [evolving]: "evolves co (save_record V now safe a co)"
proof (cases "co_store co")
  case None
  then show ?thesis by (simp add: save_record_def)
next
  case (Some st)
  let ?co1 = "upd a (\<lambda>r. r\<lparr>ax_generation := ax_generation r + 1\<rparr>) co"
  have up: "evolves co ?co1" by (rule evolves_upd) (simp add: evolves_record_defs moves.here)
  obtain r st' where s:
    "save_checkpoint (cv_store V) now (Recovery (record_checkpoint V now safe (record_at ?co1 a))) st = (r, st')"
    by fastforce
  let ?co2 = "?co1\<lparr>co_store := Some st'\<rparr>"
  have "evolves ?co1 ?co2" by (simp add: evolves_def record_at_def)
  with up have set: "evolves co ?co2" by (rule evolves_trans)
  show ?thesis
  proof (cases r)
    case (Inl e)
    with set s show ?thesis by (simp add: save_record_def Some Let_def)
  next
    case (Inr u)
    with evolves_trans [OF set evolves_publish] s show ?thesis by (simp add: save_record_def Some Let_def)
  qed
qed

lemma save_record_frame [simp]:
  "co_registry (save_record V now safe a co) = co_registry co" "co_jobs (save_record V now safe a co) = co_jobs co"
  "co_free (save_record V now safe a co) = co_free co"
  "length (co_records (save_record V now safe a co)) = length (co_records co)"
  by (simp_all add: save_record_def Let_def split: option.split prod.split sum.split)

lemma prune_loop_delete:
  "set (prune_loop co p xs n reg) \<subseteq> set reg \<and> (dict_ok reg \<longrightarrow> dict_ok (prune_loop co p xs n reg))"
proof (induction co p xs n reg rule: prune_loop.induct)
  case (2 co p i a xs n reg)
  moreover have "set (AList.delete i reg) \<subseteq> set reg" by (auto simp: AList.delete_eq)
  ultimately show ?case by auto
qed simp

lemma evolves_prune [evolving]: "evolves co (prune_terminal_records V p co)"
  using prune_loop_delete by (simp add: evolves_def prune_terminal_records_def Let_def record_at_def)

text \<open>A part that returns a result evolves the records whatever it returns.\<close>

lemma evolves_transition [evolving]: "evolves co (snd (transition_record V now status err a co))"
proof (cases "transition now status err (state_at co a)")
  case (Inl t)
  then show ?thesis by (simp add: transition_record_def)
next
  case (Inr e)
  from transition_Inr [OF Inr]
  have "evolves co (upd_state a (\<lambda>_. e) co)"
    by (intro evolves_upd_state) (metis here transition_keeps [OF Inr])
  also have "evolves \<dots> (publish a (BusStatus status err) (upd_state a (\<lambda>_. e) co))" by (rule evolves_publish)
  also have "evolves \<dots> (save_record V now (status = EXEC_PLANNING) a \<dots>)" by (rule evolves_save_record)
  also have "evolves \<dots> (emit V (EvidenceChanged (es_execution_id e) (status_at co a) status err) \<dots>)"
    by (rule evolves_emit)
  finally show ?thesis
    by (auto simp: transition_record_def Inr Let_def intro: evolves_trans [OF _ evolves_prune])
qed

text \<open>A part that goes on with what another returned.\<close>

lemma evolves_result:
  assumes "evolves co (snd m)" "\<And>t c. evolves c (snd (f t c))" "\<And>u c. evolves c (snd (g u c))"
  shows "evolves co (snd (case m of (r, c) \<Rightarrow> (case r of Inl t \<Rightarrow> f t c | Inr u \<Rightarrow> g u c)))"
  using assms(1) evolves_trans [OF _ assms(2)] evolves_trans [OF _ assms(3)]
  by (cases m; cases "fst m") auto

lemma evolves_then: "evolves co c \<Longrightarrow> evolves c c' \<Longrightarrow> evolves co c'"
  by (rule evolves_trans)

lemma capture_results_evolves: "evolves_record r (snd (capture_results V xs r))"
proof (induction xs arbitrary: r)
  case (Cons x xs)
  define r1 where "r1 = (case (map_of (rr_metadata x) ''operation_id'', map_of (rr_metadata x) ''operation_outcome'') of
      (Some op, Some out) \<Rightarrow>
        if truthy op \<and> truthy out
        then r\<lparr>ax_outcomes := AList.update (py_str (cv_show V) op) (py_str (cv_show V) out) (ax_outcomes r)\<rparr>
        else r
    | _ \<Rightarrow> r)"
  have r1: "evolves_record r r1"
    by (auto simp: r1_def evolves_record_defs moves.here split: option.split)
  have up: "evolves_record r1 (r1\<lparr>ax_retries := d\<rparr>)" for d
    by (simp add: evolves_record_defs moves.here)
  note on = evolves_record_trans [OF r1 Cons.IH]
  note counted = evolves_record_trans [OF evolves_record_trans [OF r1 up] Cons.IH]
  have step: "capture_results V (x # xs) r =
      (case map_of (rr_metadata x) ''retry_count'' of
         None \<Rightarrow> capture_results V xs r1
       | Some n \<Rightarrow> if n = PNone then capture_results V xs r1
         else (case int_of_py n of None \<Rightarrow> (Inl ''invalid literal for int()'', r1)
               | Some k \<Rightarrow> capture_results V xs (r1\<lparr>ax_retries := AList.update (rr_task_id x) (k + 1) (ax_retries r1)\<rparr>)))"
    unfolding capture_results.simps r1_def [symmetric] Let_def
    by (cases "map_of (rr_metadata x) ''retry_count''"; cases "the (map_of (rr_metadata x) ''retry_count'')") simp_all
  show ?case
  proof (cases "map_of (rr_metadata x) ''retry_count''")
    case None
    then show ?thesis by (simp add: step on del: capture_results.simps)
  next
    case (Some n)
    then show ?thesis
      by (cases "int_of_py n") (simp_all add: step on counted r1 del: capture_results.simps)
  qed
qed simp

lemma evolves_capture [evolving]: "evolves co (snd (capture_reliability V p a co))"
proof (cases "pl_workflow p")
  case (Some w)
  let ?r1 = "(record_at co a)\<lparr>ax_state := (ax_state (record_at co a))\<lparr>es_completed_tasks := dedupe (ws_completed_ids w),
      es_failed_tasks := dedupe (ws_failed_ids w)\<rparr>\<rparr>"
  obtain u r2 where c: "capture_results V (ws_results w) ?r1 = (u, r2)" by fastforce
  have "evolves_record (record_at co a) ?r1" by (simp add: evolves_record_defs moves.here)
  from evolves_record_trans [OF this capture_results_evolves [of ?r1 V "ws_results w"]]
  have "evolves co (upd a (\<lambda>_. r2) co)" by (intro evolves_upd) (simp add: c)
  then show ?thesis by (simp add: capture_reliability_def Some Let_def c)
qed (simp add: capture_reliability_def)

lemma evolves_terminal_result [evolving]: "evolves co (set_terminal_result V status t preserve a co)"
  unfolding set_terminal_result_def
  by (rule evolves_upd) (simp add: evolves_record_defs terminal_result_def Let_def moves.here)

lemma evolves_upd_keeps:
  assumes "\<And>r. ax_state (f r) = ax_state r" "\<And>r. set (ax_resolved r) \<subseteq> set (ax_resolved (f r))"
    "\<And>r. ax_generation (f r) = ax_generation r" "\<And>r. ax_task (f r) = ax_task r"
  shows "evolves co (upd a f co)"
  by (rule evolves_upd) (use assms in \<open>simp add: evolves_record_defs moves.here\<close>)

lemma evolves_settle_paused [evolving]: "evolves co (snd (settle_paused V now a task co))"
  unfolding settle_paused_def Let_def
  by (rule evolves_result, rule evolves_then [OF _ evolves_transition], rule evolves_upd_state)
     (auto intro: moves.here evolves_then [OF evolves_save_record evolves_emit])

lemma evolves_settle_ended [evolving]: "evolves co (snd (settle_ended V now a res co))"
  unfolding settle_ended_def Let_def
  by (rule evolves_result, rule evolves_then [OF _ evolves_transition], rule evolves_upd_state)
     (auto simp: clear_pending_def intro: moves.here evolves_save_record)

lemma evolves_settle [evolving]: "evolves co (snd (settle_pipeline V now a p co))"
  unfolding settle_pipeline_def
  by (rule evolves_result, rule evolves_capture)
     (auto intro: evolves_settle_paused evolves_settle_ended split: option.split)

lemma evolves_end_as [evolving]: "evolves co (snd (end_as V now status err a co))"
  by (simp add: end_as_def evolves_transition)

lemma evolves_save_if [evolving]: "evolves co (save_if b V now a co)"
  by (simp add: save_if_def evolves_save_record)

lemma evolves_closing: "evolves co (save_if b V now a (set_terminal_result V status t preserve a co))"
  by (rule evolves_then [OF evolves_terminal_result evolves_save_if])

lemma evolves_handle_raised [evolving]: "evolves co (snd (handle_raised V now initial t a co))"
  unfolding handle_raised_def
  by (rule evolves_result, rule evolves_then [OF _ evolves_end_as], rule evolves_upd_keeps)
     (simp_all add: evolves_closing)

lemma evolves_handle_timeout [evolving]: "evolves co (snd (handle_timeout V now t a co))"
  unfolding handle_timeout_def Let_def
  by (rule evolves_result, rule evolves_end_as)
     (simp_all add: evolves_then [OF evolves_terminal_result evolves_save_record])

lemma evolves_handle_cancelled [evolving]: "evolves co (snd (handle_cancelled V now initial a co))"
  unfolding handle_cancelled_def
  by (rule evolves_result, rule evolves_end_as) (simp_all add: evolves_closing)

lemma evolves_finish_initial [evolving]: "evolves co (snd (finish_initial V now a answer co))"
proof (cases answer)
  case (PipelineReturned p)
  show ?thesis unfolding finish_initial_def PipelineReturned pipeline_answer.case
    by (rule evolves_result, rule evolves_then [OF _ evolves_settle], rule evolves_upd_keeps)
       (simp_all add: evolves_handle_raised evolves_publish)
qed (simp_all add: finish_initial_def evolves_handle_raised evolves_handle_timeout evolves_handle_cancelled)

lemma evolves_settle_denied [evolving]: "evolves co (snd (settle_denied V now a p co))"
  unfolding settle_denied_def Let_def
  by (rule evolves_result, rule evolves_then [OF evolves_then [OF _ evolves_terminal_result] evolves_transition],
      rule evolves_upd_state)
     (auto simp: clear_pending_def intro: moves.here evolves_emit)

lemma evolves_finish_resume [evolving]: "evolves co (snd (finish_resume V now a decision answer co))"
proof (cases answer)
  case (PipelineReturned p)
  let ?co1 = "upd a (\<lambda>r. r\<lparr>ax_pipeline := Some p\<rparr>) co"
  have "evolves co ?co1" by (rule evolves_upd_keeps) simp_all
  moreover have "evolves ?co1 (snd (if decision = ''deny'' then settle_denied V now a p ?co1
      else settle_pipeline V now a p ?co1))"
    by (simp add: evolves_settle_denied evolves_settle)
  ultimately have "evolves co (snd (if decision = ''deny'' then settle_denied V now a p ?co1
      else settle_pipeline V now a p ?co1))" by (rule evolves_trans)
  from evolves_result [OF this evolves_handle_raised] show ?thesis
    by (simp add: finish_resume_def PipelineReturned Let_def)
qed (simp_all add: finish_resume_def evolves_handle_raised evolves_handle_cancelled)

lemma evolves_finish_record [evolving]: "evolves co (snd (finish_record V now kind a answer co))"
  by (cases kind) (simp_all add: finish_record_def evolves_finish_initial evolves_finish_resume)


section \<open>The coordinator as a whole\<close>

definition coordinator_ok :: "coordinator_env \<Rightarrow> coordinator \<Rightarrow> bool" where
  "coordinator_ok V co \<longleftrightarrow> dict_ok (co_registry co) \<and>
     (\<forall>(i, a) \<in> set (co_registry co). a < length (co_records co) \<and> es_execution_id (state_at co a) = i) \<and>
     (\<forall>b \<in> set (co_jobs co). jb_record b < length (co_records co)) \<and>
     (\<forall>a < length (co_records co). \<forall>j. ax_task (record_at co a) = Some j \<longrightarrow> j < length (co_jobs co)) \<and>
     co_free co + length (filter holds_permit (co_jobs co)) = max_active V"

definition advances :: "coordinator \<Rightarrow> coordinator \<Rightarrow> bool" where
  "advances co co' \<longleftrightarrow> length (co_records co) \<le> length (co_records co') \<and>
     (\<forall>a < length (co_records co). advances_record (record_at co a) (record_at co' a))"

definition ok_step :: "coordinator_env \<Rightarrow> coordinator \<Rightarrow> coordinator \<Rightarrow> bool" where
  "ok_step V co co' \<longleftrightarrow> coordinator_ok V co' \<and> advances co co' \<and> live_count co' \<le> live_count co \<and>
     set (co_registry co') \<subseteq> set (co_registry co)"

lemma advances_refl [simp]: "advances co co"
  by (simp add: advances_def)

lemma advances_trans: "advances a b \<Longrightarrow> advances b c \<Longrightarrow> advances a c"
  unfolding advances_def by (meson advances_record_trans le_trans less_le_trans)

lemma evolves_advances: "evolves co co' \<Longrightarrow> advances co co'"
  by (simp add: evolves_def advances_def evolves_record_def)

lemma ok_step_refl: "coordinator_ok V co \<Longrightarrow> ok_step V co co"
  by (simp add: ok_step_def)

lemma ok_step_trans: "ok_step V a b \<Longrightarrow> ok_step V b c \<Longrightarrow> ok_step V a c"
  unfolding ok_step_def using advances_trans by (meson le_trans subset_trans)

lemma advances_record_terminal:
  assumes "advances_record r r'" "es_terminal (ax_state r)"
  shows "es_status (ax_state r') = es_status (ax_state r)"
  using assms moves_terminal by (auto simp: advances_record_def es_terminal_def)

lemma terminal_at_mono:
  assumes "advances co co'" "a < length (co_records co)" "terminal_at co a"
  shows "terminal_at co' a"
  using assms advances_record_terminal [of "record_at co a" "record_at co' a"]
  by (simp add: advances_def terminal_at_def state_at_def es_terminal_def)

text \<open>Live executions, counted over distinct ids.\<close>

definition live_ids :: "coordinator \<Rightarrow> string set" where
  "live_ids co = fst ` {(i, a) \<in> set (co_registry co). \<not> terminal_at co a}"

lemma live_count_card:
  assumes "dict_ok (co_registry co)"
  shows "live_count co = card (live_ids co)"
proof -
  let ?xs = "filter (\<lambda>(i, a). \<not> terminal_at co a) (co_registry co)"
  have "distinct (map fst ?xs)" using assms by (simp add: dict_ok_def distinct_map_filter)
  then have "length ?xs = card (fst ` set ?xs)" by (metis distinct_card length_map set_map)
  moreover have "set ?xs = {(i, a) \<in> set (co_registry co). \<not> terminal_at co a}" by auto
  ultimately show ?thesis unfolding live_count_def live_ids_def by simp
qed

lemma finite_live_ids: "finite (live_ids co)"
  unfolding live_ids_def by (rule finite_imageI, rule finite_subset [of _ "set (co_registry co)"]) auto

lemma live_count_mono:
  assumes "coordinator_ok V co" "coordinator_ok V co'" "advances co co'"
    "set (co_registry co') \<subseteq> set (co_registry co)"
  shows "live_count co' \<le> live_count co"
proof -
  have "live_ids co' \<subseteq> live_ids co"
  proof
    fix i assume "i \<in> live_ids co'"
    then obtain a where a: "(i, a) \<in> set (co_registry co')" "\<not> terminal_at co' a" by (auto simp: live_ids_def)
    with assms(4) have r: "(i, a) \<in> set (co_registry co)" by blast
    with assms(1) have "a < length (co_records co)" by (auto simp: coordinator_ok_def)
    with a(2) terminal_at_mono [OF assms(3)] have "\<not> terminal_at co a" by blast
    with r show "i \<in> live_ids co" by (force simp: live_ids_def)
  qed
  then show ?thesis
    using assms(1,2) card_mono [OF finite_live_ids] by (simp add: live_count_card coordinator_ok_def)
qed

lemma ok_stepI:
  assumes "coordinator_ok V co" "coordinator_ok V co'" "advances co co'"
    "set (co_registry co') \<subseteq> set (co_registry co)"
  shows "ok_step V co co'"
  using assms live_count_mono [OF assms] by (simp add: ok_step_def)

lemma evolves_identity:
  assumes "evolves co co'" "a < length (co_records co)"
  shows "es_execution_id (state_at co' a) = es_execution_id (state_at co a)"
  using assms by (simp add: evolves_def evolves_record_defs state_at_def)

lemma evolves_ok:
  assumes "coordinator_ok V co" "evolves co co'"
  shows "ok_step V co co'"
proof (rule ok_stepI [OF assms(1)])
  have reg: "set (co_registry co') \<subseteq> set (co_registry co)" using assms(2) by (simp add: evolves_def)
  then show "set (co_registry co') \<subseteq> set (co_registry co)" .
  show "advances co co'" by (rule evolves_advances [OF assms(2)])
  have len: "length (co_records co') = length (co_records co)" using assms(2) by (simp add: evolves_def)
  have "a < length (co_records co') \<and> es_execution_id (state_at co' a) = i" if "(i, a) \<in> set (co_registry co')" for i a
  proof -
    from that reg have "(i, a) \<in> set (co_registry co)" by blast
    then have "a < length (co_records co)" "es_execution_id (state_at co a) = i"
      using assms(1) by (auto simp: coordinator_ok_def)
    then show ?thesis using evolves_identity [OF assms(2)] len by simp
  qed
  then have "\<forall>(i, a) \<in> set (co_registry co'). a < length (co_records co') \<and> es_execution_id (state_at co' a) = i"
    by blast
  then show "coordinator_ok V co'"
    using assms by (simp add: coordinator_ok_def evolves_def evolves_record_def)
qed

section \<open>Jobs and permits\<close>

lemma filter_update:
  assumes "j < length xs"
  shows "length (filter P (xs[j := y])) + (if P (xs ! j) then 1 else 0) =
    length (filter P xs) + (if P y then 1 else 0)"
  using assms
proof (induction xs arbitrary: j)
  case (Cons x xs)
  then show ?case by (cases j) auto
qed simp

lemma holds_permit_pos:
  assumes "j < length xs" "P (xs ! j)"
  shows "0 < length (filter P xs)"
  using assms by (metis filter_empty_conv length_greater_0_conv nth_mem)

lemma jobs_ok_step:
  assumes "coordinator_ok V co" "co_records co' = co_records co" "co_registry co' = co_registry co"
    "\<forall>b \<in> set (co_jobs co'). jb_record b < length (co_records co)"
    "length (co_jobs co) \<le> length (co_jobs co')"
    "co_free co' + length (filter holds_permit (co_jobs co')) =
     co_free co + length (filter holds_permit (co_jobs co))"
  shows "ok_step V co co'"
proof (rule ok_stepI [OF assms(1)])
  have "state_at co' = state_at co" "record_at co' = record_at co"
    by (simp_all add: fun_eq_iff state_at_def record_at_def assms(2))
  then show "coordinator_ok V co'" using assms by (fastforce simp: coordinator_ok_def)
  show "advances co co'" by (simp add: advances_def record_at_def assms(2))
  show "set (co_registry co') \<subseteq> set (co_registry co)" by (simp add: assms(3))
qed

lemma jobs_in:
  assumes "coordinator_ok V co" "j < length (co_jobs co)" "\<And>b. jb_record (f b) = jb_record b"
  shows "\<forall>b \<in> set (co_jobs (upd_job j f co)). jb_record b < length (co_records co)"
proof
  fix b assume "b \<in> set (co_jobs (upd_job j f co))"
  then have "b = f (co_jobs co ! j) \<or> b \<in> set (co_jobs co)"
    using set_update_subset_insert by (fastforce simp: upd_job_def)
  then show "jb_record b < length (co_records co)" using assms by (auto simp: coordinator_ok_def)
qed

lemma upd_job_ok:
  assumes "coordinator_ok V co" "j < length (co_jobs co)" "\<And>b. jb_record (f b) = jb_record b"
    "co_records co' = co_records co" "co_registry co' = co_registry co" "co_jobs co' = (co_jobs co)[j := f (co_jobs co ! j)]"
    "co_free co' + (if holds_permit (f (co_jobs co ! j)) then 1 else 0) =
     co_free co + (if holds_permit (co_jobs co ! j) then 1 else 0)"
  shows "ok_step V co co'"
proof (rule jobs_ok_step [OF assms(1,4,5)])
  show "\<forall>b \<in> set (co_jobs co'). jb_record b < length (co_records co)"
    using jobs_in [OF assms(1-3)] by (simp add: upd_job_def assms(6))
  show "length (co_jobs co) \<le> length (co_jobs co')" by (simp add: assms(6))
  show "co_free co' + length (filter holds_permit (co_jobs co')) =
      co_free co + length (filter holds_permit (co_jobs co))"
    using filter_update [OF assms(2), of holds_permit "f (co_jobs co ! j)"] assms(7)
    by (cases "holds_permit (co_jobs co ! j)"; cases "holds_permit (f (co_jobs co ! j))") (simp_all add: assms(6))
qed

lemma done_ok:
  assumes "coordinator_ok V co" "j < length (co_jobs co)"
  shows "ok_step V co (job_done j (if holds_permit (co_jobs co ! j) then release_permit co else co))"
  by (rule upd_job_ok [OF assms, of "\<lambda>b. b\<lparr>jb_phase := JobDone\<rparr>"])
     (simp_all add: job_done_def upd_job_def release_permit_def holds_permit_def)

lemma end_job_ok:
  assumes "coordinator_ok V co" "j < length (co_jobs co)"
  shows "ok_step V co (snd (end_job V now j answer co))"
proof -
  note d = done_ok [OF assms]
  then have "coordinator_ok V (job_done j (if holds_permit (co_jobs co ! j) then release_permit co else co))"
    by (simp only: ok_step_def)
  from evolves_ok [OF this evolves_finish_record] show ?thesis
    unfolding end_job_def Let_def by (rule ok_step_trans [OF d])
qed

lemma create_job_ok:
  assumes "coordinator_ok V co" "a < length (co_records co)"
  shows "ok_step V co (create_job a kind co)"
proof -
  let ?co1 = "co\<lparr>co_jobs := co_jobs co @ [\<lparr>jb_record = a, jb_kind = kind, jb_phase = JobCreated\<rparr>]\<rparr>"
  have one: "ok_step V co ?co1"
    by (rule jobs_ok_step [OF assms(1)]) (use assms in \<open>auto simp: holds_permit_def coordinator_ok_def\<close>)
  then have "coordinator_ok V ?co1" by (simp add: ok_step_def)
  note ok = this
  have at: "record_at (create_job a kind co) b =
      (if b = a then (record_at co a)\<lparr>ax_task := Some (length (co_jobs co))\<rparr> else record_at co b)" for b
    using assms(2) by (simp add: create_job_def record_at_upd) (simp add: record_at_def)
  then have "state_at (create_job a kind co) = state_at co" by (simp add: fun_eq_iff state_at_def)
  then show ?thesis
    using ok at assms(2) by (intro ok_stepI [OF assms(1)])
      (auto simp: coordinator_ok_def advances_def advances_record_def moves.here create_job_def state_at_def record_at_def)
qed

lemma waiting_ok:
  assumes "coordinator_ok V co" "j < length (co_jobs co)" "phase_at co j \<in> {JobCreated, JobWaiting}"
  shows "ok_step V co (upd_job j (\<lambda>b. b\<lparr>jb_phase := JobWaiting\<rparr>) co)" "ok_step V co (job_done j co)"
    "jb_kind (co_jobs co ! j) \<noteq> InitialJob \<Longrightarrow> ok_step V co (upd_job j (\<lambda>b. b\<lparr>jb_phase := JobRunning\<rparr>) co)"
    "jb_kind (co_jobs co ! j) = InitialJob \<Longrightarrow> 0 < co_free co \<Longrightarrow>
     ok_step V co ((upd_job j (\<lambda>b. b\<lparr>jb_phase := JobRunning\<rparr>) co)\<lparr>co_free := co_free co - 1\<rparr>)"
proof -
  have n: "\<not> holds_permit (co_jobs co ! j)" using assms(3) by (auto simp: holds_permit_def phase_at_def)
  note U = upd_job_ok [OF assms(1,2)]
  show "ok_step V co (upd_job j (\<lambda>b. b\<lparr>jb_phase := JobWaiting\<rparr>) co)"
    by (rule U [of "\<lambda>b. b\<lparr>jb_phase := JobWaiting\<rparr>"]) (use n in \<open>simp_all add: upd_job_def holds_permit_def\<close>)
  show "ok_step V co (job_done j co)" using done_ok [OF assms(1,2)] n by simp
  show "ok_step V co (upd_job j (\<lambda>b. b\<lparr>jb_phase := JobRunning\<rparr>) co)" if "jb_kind (co_jobs co ! j) \<noteq> InitialJob"
    by (rule U [of "\<lambda>b. b\<lparr>jb_phase := JobRunning\<rparr>"]) (use that in \<open>simp_all add: upd_job_def holds_permit_def\<close>)
  show "ok_step V co ((upd_job j (\<lambda>b. b\<lparr>jb_phase := JobRunning\<rparr>) co)\<lparr>co_free := co_free co - 1\<rparr>)"
    if "jb_kind (co_jobs co ! j) = InitialJob" "0 < co_free co"
    by (rule U [of "\<lambda>b. b\<lparr>jb_phase := JobRunning\<rparr>"]) (use n that in \<open>simp_all add: upd_job_def holds_permit_def\<close>)
qed


section \<open>Every step\<close>

lemma ok_step_ok: "ok_step V co co' \<Longrightarrow> coordinator_ok V co'"
  by (simp add: ok_step_def)

lemma ok_step_len: "ok_step V co co' \<Longrightarrow> a < length (co_records co) \<Longrightarrow> a < length (co_records co')"
  by (simp add: ok_step_def advances_def)

text \<open>A part that goes on with what another returned, again.\<close>

lemma ok_result:
  assumes "ok_step V co (snd m)" "\<And>t c. ok_step V co c \<Longrightarrow> ok_step V c (snd (f t c))"
    "\<And>u c. ok_step V co c \<Longrightarrow> ok_step V c (snd (g u c))"
  shows "ok_step V co (snd (case m of (r, c) \<Rightarrow> (case r of Inl t \<Rightarrow> f t c | Inr u \<Rightarrow> g u c)))"
proof -
  obtain r c where m: "m = (r, c)" by fastforce
  with assms(1) have c: "ok_step V co c" by simp
  show ?thesis using ok_step_trans [OF c assms(2) [OF c]] ok_step_trans [OF c assms(3) [OF c]]
    by (cases r) (simp_all add: m)
qed

lemma owned_len:
  assumes "coordinator_ok V co" "owned co i owner = Inr a"
  shows "a < length (co_records co)" "map_of (co_registry co) i = Some a"
    "es_principal_id (state_at co a) = Some owner" "es_execution_id (state_at co a) = i"
proof -
  show r: "map_of (co_registry co) i = Some a" "es_principal_id (state_at co a) = Some owner"
    using assms(2) by (auto simp: owned_def split: option.splits if_splits)
  from map_of_SomeD [OF r(1)] assms(1)
  show "a < length (co_records co)" "es_execution_id (state_at co a) = i"
    by (auto simp: coordinator_ok_def)
qed

lemma enter_initial_ok:
  assumes "coordinator_ok V co" "j < length (co_jobs co)" "phase_at co j \<in> {JobCreated, JobWaiting}"
    "jb_kind (co_jobs co ! j) = InitialJob"
  shows "ok_step V co (snd (enter_initial V now j a co))"
proof -
  note W = waiting_ok [OF assms(1-3)]
  let ?co1 = "(upd_job j (\<lambda>b. b\<lparr>jb_phase := JobRunning\<rparr>) co)\<lparr>co_free := co_free co - 1\<rparr>"
  show ?thesis
  proof (cases "co_free co = 0 \<or> ax_cancelled (record_at co a) \<or> terminal_at co a")
    case True
    with W(1,2) show ?thesis by (auto simp: enter_initial_def)
  next
    case False
    then have one: "ok_step V co ?co1" by (intro W(4) assms(4)) simp
    let ?t = "transition_record V now EXEC_RUNNING None a ?co1"
    from evolves_ok [OF ok_step_ok [OF one] evolves_transition]
    have two: "ok_step V ?co1 (snd ?t)" .
    have len: "j < length (co_jobs (snd ?t))" using assms(2)
        evolves_transition [of ?co1 V now EXEC_RUNNING None a] by (simp only: evolves_def) (simp add: upd_job_def)
    have end_step: "ok_step V (snd ?t) (snd (end_job V now j ans (snd ?t)))" for ans
      by (rule end_job_ok [OF ok_step_ok [OF two] len])
    have both: "ok_step V co (snd ?t)" by (rule ok_step_trans [OF one two])
    obtain r c where t: "?t = (r, c)" by fastforce
    have go: "enter_initial V now j a co =
        (if status_at co a \<in> {EXEC_PLANNING, EXEC_RECOVERING} then
           (case r of Inl t \<Rightarrow> map_prod Some id (end_job V now j (PipelineRaised t) c) | Inr _ \<Rightarrow> (None, c))
         else (None, ?co1))"
    proof -
      have "co_free co \<noteq> 0" "\<not> (ax_cancelled (record_at co a) \<or> terminal_at co a)" using False by simp_all
      then show ?thesis by (simp only: enter_initial_def t Let_def prod.case if_False)
    qed
    show ?thesis
    proof (cases "status_at co a \<in> {EXEC_PLANNING, EXEC_RECOVERING}")
      case True
      have "ok_step V co c" using both unfolding t by simp
      moreover have "ok_step V co (snd (end_job V now j ans c))" for ans
        using ok_step_trans [OF both end_step] unfolding t by simp
      ultimately show ?thesis unfolding go if_P [OF True] by (cases r) simp_all
    next
      case False
      with one show ?thesis unfolding go if_not_P [OF False] by simp
    qed
  qed
qed

lemma begin_job_ok:
  assumes "coordinator_ok V co" "j < length (co_jobs co)" "phase_at co j \<in> {JobCreated, JobWaiting}"
  shows "ok_step V co (snd (begin_job V now j co))"
  using enter_initial_ok [OF assms] waiting_ok(3) [OF assms]
  by (simp add: begin_job_def Let_def split: job_kind.split)

lemma evolves_take_approval: "evolves co (take_approval V now i a approval d co)"
  unfolding take_approval_def
  by (rule evolves_then [OF evolves_then [OF evolves_then [OF _ evolves_save_record] evolves_publish] evolves_emit],
      rule evolves_upd_keeps) auto

lemma evolves_move_approved: "evolves co (snd (move_approved V now a d co))"
proof (cases "d = ''allow''")
  case True
  show ?thesis unfolding move_approved_def if_P [OF True]
    by (rule evolves_result, rule evolves_transition) (simp_all add: evolves_transition)
qed (simp add: move_approved_def)

lemma submit_approval_ok:
  assumes "coordinator_ok V co"
  shows "ok_step V co (snd (submit_approval V now i approval decision owner reasons co))"
proof (cases "owned co i owner")
  case (Inl e)
  then show ?thesis using ok_step_refl [OF assms] by (simp add: submit_approval_def)
next
  case (Inr a)
  note len = owned_len(1) [OF assms Inr]
  let ?d = "py_lower (py_strip decision)"
  show ?thesis
  proof (cases "approval_refusal co a approval ?d")
    case (Some e)
    then show ?thesis using ok_step_refl [OF assms] by (simp add: submit_approval_def Inr)
  next
    case None
    from evolves_ok [OF assms evolves_then [OF evolves_take_approval evolves_move_approved]]
    have "ok_step V co (snd (move_approved V now a ?d (take_approval V now i a approval ?d co)))" .
    then show ?thesis
      unfolding submit_approval_def Inr sum.case Let_def None option.case
      by (rule ok_result) (simp_all add: ok_step_refl ok_step_ok create_job_ok ok_step_len [OF _ len])
  qed
qed

lemma interrupt_ok:
  assumes "coordinator_ok V co" "\<And>j. ax_task (record_at co a) = Some j \<Longrightarrow> j < length (co_jobs co)"
  shows "ok_step V co (snd (interrupt V now a answer co))"
proof (cases "ax_task (record_at co a)")
  case (Some j)
  note j = assms(2) [OF Some]
  show ?thesis
    using ok_step_refl [OF assms(1)] waiting_ok(2) [OF assms(1) j] end_job_ok [OF assms(1) j]
    by (simp add: interrupt_def Some split: job_phase.split)
qed (simp add: interrupt_def ok_step_refl [OF assms(1)])

lemma evolves_close: "evolves co (close_execution V now status t a co)"
  unfolding close_execution_def
  by (rule evolves_then [OF evolves_then [OF evolves_terminal_result] evolves_save_record], rule evolves_upd_state)
     (simp add: clear_pending_def moves.here)


lemma task_in_record:
  assumes "coordinator_ok V co" "a < length (co_records co)" "ax_task (record_at co a) = Some j"
  shows "j < length (co_jobs co)"
  using assms by (simp add: coordinator_ok_def)

lemma evolves_cancelling: "evolves co (upd a (\<lambda>r. r\<lparr>ax_cancelled := True\<rparr>) co)"
  by (rule evolves_upd_keeps) simp_all

text \<open>The interruption of a job and what its end leads to.\<close>

lemma ok_ended:
  assumes "ok_step V co (snd m)" "\<And>t c. ok_step V co c \<Longrightarrow> ok_step V c (snd (f t c))"
    "\<And>c. ok_step V co c \<Longrightarrow> ok_step V c (snd (g c))"
  shows "ok_step V co (snd (case m of (EndedRaised t, c) \<Rightarrow> f t c | (_, c) \<Rightarrow> g c))"
proof -
  obtain r c where m: "m = (r, c)" by fastforce
  with assms(1) have c: "ok_step V co c" by simp
  show ?thesis using ok_step_trans [OF c assms(2) [OF c]] ok_step_trans [OF c assms(3) [OF c]]
    by (cases r) (simp_all add: m)
qed

lemma interrupted_ok:
  assumes "coordinator_ok V co" "a < length (co_records co)"
  shows "ok_step V co (snd (interrupt V now a answer (upd a (\<lambda>r. r\<lparr>ax_cancelled := True\<rparr>) co)))"
proof -
  note one = evolves_ok [OF assms(1) evolves_cancelling]
  note ok = ok_step_ok [OF one]
  show ?thesis
    by (rule ok_step_trans [OF one interrupt_ok [OF ok]]) (rule task_in_record [OF ok ok_step_len [OF one assms(2)]])
qed

lemma cancel_execution_ok:
  assumes "coordinator_ok V co"
  shows "ok_step V co (snd (cancel_execution V now i owner answer co))"
proof (cases "owned co i owner")
  case (Inl e)
  then show ?thesis using ok_step_refl [OF assms] by (simp add: cancel_execution_def)
next
  case (Inr a)
  note len = owned_len(1) [OF assms Inr]
  have last: "ok_step V c (snd (case end_as V now EXEC_CANCELLED None a c of
      (Inl t, co2) \<Rightarrow> (Inl (TransitionRefused t), co2)
    | (Inr _, co2) \<Rightarrow>
        (let co3 = emit V (EvidenceCancelled i) (close_execution V now EXEC_CANCELLED ''Execution cancelled.'' a co2)
         in (Inr (state_at co3 a), co3))))" if "coordinator_ok V c" for c
    unfolding Let_def
    by (rule evolves_ok [OF that evolves_result [OF evolves_end_as]])
       (simp_all add: evolves_then [OF evolves_close evolves_emit])
  show ?thesis
  proof (cases "terminal_at co a")
    case True
    then show ?thesis using ok_step_refl [OF assms] by (simp add: cancel_execution_def Inr)
  next
    case False
    show ?thesis
      unfolding cancel_execution_def Inr sum.case if_not_P [OF False]
      by (rule ok_ended [OF interrupted_ok [OF assms len]])
         (use last ok_step_ok ok_step_refl in simp_all)
  qed
qed

lemma timeout_execution_ok:
  assumes "coordinator_ok V co"
  shows "ok_step V co (snd (timeout_execution V now i owner t answer co))"
proof (cases "owned co i owner")
  case (Inl e)
  then show ?thesis using ok_step_refl [OF assms] by (simp add: timeout_execution_def)
next
  case (Inr a)
  note len = owned_len(1) [OF assms Inr]
  have last: "ok_step V c (emit V (EvidenceTimedOut i) (close_execution V now EXEC_TIMED_OUT t a c))"
    if "coordinator_ok V c" for c
    by (rule evolves_ok [OF that evolves_then [OF evolves_close evolves_emit]])
  show ?thesis
  proof (cases "terminal_at co a")
    case True
    then show ?thesis using ok_step_refl [OF assms] by (simp add: timeout_execution_def Inr)
  next
    case False
    show ?thesis
      unfolding timeout_execution_def Inr sum.case if_not_P [OF False]
    proof (rule ok_result [OF evolves_ok [OF assms evolves_transition]])
      fix c assume "ok_step V co c"
      then show "ok_step V c (snd (Inl (TransitionRefused u), c))" for u by (simp add: ok_step_refl ok_step_ok)
    next
      fix c assume c: "ok_step V co c"
      show "ok_step V c (snd (case interrupt V now a answer (upd a (\<lambda>r. r\<lparr>ax_cancelled := True\<rparr>) c) of
          (EndedRaised u, co2) \<Rightarrow> (Inl (JobRaised u), co2)
        | (_, co2) \<Rightarrow>
            (let co3 = emit V (EvidenceTimedOut i) (close_execution V now EXEC_TIMED_OUT t a co2)
             in (Inr (state_at co3 a), co3))))"
        by (rule ok_ended [OF interrupted_ok [OF ok_step_ok [OF c] ok_step_len [OF c len]]])
           (simp_all add: Let_def last ok_step_ok ok_step_refl)
    qed
  qed
qed

lemma evolves_checkpoint: "evolves co (snd (runtime_checkpoint V now a p task op outcome attempt res safe co))"
proof -
  have up: "evolves c (upd a f c)" if "\<And>r. evolves_record r (f r)" for f c
    by (rule evolves_upd) (rule that)
  have first: "evolves co (snd (case p of None \<Rightarrow> (Inr (), co)
      | Some q \<Rightarrow> capture_reliability V q a (upd a (\<lambda>r. r\<lparr>ax_pipeline := Some q\<rparr>) co)))"
  proof (cases p)
    case (Some q)
    have "evolves co (upd a (\<lambda>r. r\<lparr>ax_pipeline := Some q\<rparr>) co)" by (rule evolves_upd_keeps) simp_all
    from evolves_then [OF this evolves_capture] show ?thesis by (simp add: Some)
  qed simp
  define f1 :: "active_execution \<Rightarrow> active_execution" where "f1 = (\<lambda>r. case (op, outcome) of
      (Some (x # xs), Some (y # ys)) \<Rightarrow> r\<lparr>ax_outcomes := AList.update (x # xs) (y # ys) (ax_outcomes r)\<rparr> | _ \<Rightarrow> r)"
  define f2 :: "active_execution \<Rightarrow> active_execution" where "f2 = (\<lambda>r. case (op, res) of
      (Some (x # xs), Some v) \<Rightarrow> r\<lparr>ax_results := AList.update (x # xs) v (ax_results r)\<rparr> | _ \<Rightarrow> r)"
  define f3 :: "active_execution \<Rightarrow> active_execution" where "f3 = (\<lambda>r. case (task, attempt) of
      (Some (x # xs), Some n) \<Rightarrow> r\<lparr>ax_retries := AList.update (x # xs) n (ax_retries r)\<rparr> | _ \<Rightarrow> r)"
  have r: "evolves_record r (f1 r)" "evolves_record r (f2 r)" "evolves_record r (f3 r)" for r
    by (auto simp: f1_def f2_def f3_def evolves_record_defs moves.here split: option.split list.split)
  then have "evolves c (upd a f1 c)" "evolves c (upd a f2 c)" "evolves c (upd a f3 c)" for c
    using up by simp_all
  then have last: "evolves c (save_record V now safe a (upd a f3 (upd a f2 (upd a f1 c))))" for c
    by (meson evolves_then evolves_save_record)
  show ?thesis
    unfolding runtime_checkpoint_def Let_def f1_def [symmetric] f2_def [symmetric] f3_def [symmetric]
    by (rule evolves_result [OF first]) (simp_all add: last)
qed

lemma recover_from_ok:
  assumes "coordinator_ok V co" "\<forall>(i, a) \<in> set xs. a < length (co_records co)"
  shows "ok_step V co (snd (recover_from xs co))"
  using assms
proof (induction xs co rule: recover_from.induct)
  case (2 i a xs co)
  show ?case
  proof (cases "status_at co a \<noteq> EXEC_RECOVERING")
    case True
    then show ?thesis using 2 by simp
  next
    case False
    let ?c = "create_job a InitialJob (publish a BusRecoveryStarted co)"
    have len: "a < length (co_records co)" using 2(4) by simp
    note one = evolves_ok [OF 2(3) evolves_publish [of co a BusRecoveryStarted]]
    note two = ok_step_trans [OF one create_job_ok [OF ok_step_ok [OF one] ok_step_len [OF one len], of InitialJob]]
    have "\<forall>(i, a) \<in> set xs. a < length (co_records ?c)"
      using 2(4) ok_step_len [OF two] by auto
    from 2(2) [OF False ok_step_ok [OF two] this]
    have "ok_step V ?c (snd (recover_from xs ?c))" .
    from ok_step_trans [OF two this] False show ?thesis
      by (cases "recover_from xs ?c") simp
  qed
qed (simp add: ok_step_refl)

lemma recover_pending_ok:
  assumes "coordinator_ok V co"
  shows "ok_step V co (snd (recover_pending co))"
  unfolding recover_pending_def
  by (rule recover_from_ok [OF assms]) (use assms in \<open>auto simp: coordinator_ok_def\<close>)


section \<open>New records\<close>

lemma set_update_pairs: "set (AList.update k v d) \<subseteq> insert (k, v) (set d)"
  by (induction d) auto

lemma record_at_register:
  "record_at (register r co) a = (if a = length (co_records co) then r else record_at co a)"
  if "a \<le> length (co_records co)"
  using that by (simp add: record_at_def register_def nth_append)

lemma register_ok:
  assumes "coordinator_ok V co" "ax_task r = None"
  shows "coordinator_ok V (register r co)" "advances co (register r co)"
    "live_count (register r co) \<le> Suc (live_count co)"
proof -
  let ?n = "length (co_records co)" and ?i = "es_execution_id (ax_state r)"
  let ?co' = "register r co"
  have old: "record_at ?co' a = record_at co a" if "a < ?n" for a
    using that by (simp add: record_at_register)
  have new: "record_at ?co' ?n = r" by (simp add: record_at_register)
  have reg: "set (co_registry ?co') \<subseteq> insert (?i, ?n) (set (co_registry co))"
    using set_update_pairs by (simp add: register_def)
  have ids: "a < length (co_records ?co') \<and> es_execution_id (state_at ?co' a) = i" if "(i, a) \<in> set (co_registry ?co')" for i a
  proof -
    from that reg have "(i, a) = (?i, ?n) \<or> (i, a) \<in> set (co_registry co)" by blast
    then show ?thesis
    proof
      assume "(i, a) = (?i, ?n)"
      with new show ?thesis by (simp add: register_def state_at_def)
    next
      assume "(i, a) \<in> set (co_registry co)"
      then have "a < ?n" "es_execution_id (state_at co a) = i" using assms(1) by (auto simp: coordinator_ok_def)
      with old show ?thesis by (simp add: register_def state_at_def)
    qed
  qed
  have tasks: "j < length (co_jobs ?co')" if "a < length (co_records ?co')" "ax_task (record_at ?co' a) = Some j" for a j
  proof (cases "a = ?n")
    case True
    with that(2) new assms(2) show ?thesis by simp
  next
    case False
    with that(1) have "a < ?n" by (simp add: register_def)
    with that(2) old assms(1) show ?thesis by (simp add: coordinator_ok_def register_def)
  qed
  show ok: "coordinator_ok V ?co'"
    unfolding coordinator_ok_def
  proof (intro conjI)
    show "dict_ok (co_registry ?co')" using assms(1) by (simp add: coordinator_ok_def register_def)
    show "\<forall>(i, a) \<in> set (co_registry ?co'). a < length (co_records ?co') \<and> es_execution_id (state_at ?co' a) = i"
      using ids by blast
    show "\<forall>b \<in> set (co_jobs ?co'). jb_record b < length (co_records ?co')"
      using assms(1) by (force simp: coordinator_ok_def register_def)
    show "\<forall>a < length (co_records ?co'). \<forall>j. ax_task (record_at ?co' a) = Some j \<longrightarrow> j < length (co_jobs ?co')"
      using tasks by blast
    show "co_free ?co' + length (filter holds_permit (co_jobs ?co')) = max_active V"
      using assms(1) by (simp add: coordinator_ok_def register_def)
  qed
  show "advances co ?co'" using old by (simp add: advances_def register_def)
  have "live_ids ?co' \<subseteq> insert ?i (live_ids co)"
  proof
    fix i assume "i \<in> live_ids ?co'"
    then obtain a where a: "(i, a) \<in> set (co_registry ?co')" "\<not> terminal_at ?co' a" by (auto simp: live_ids_def)
    show "i \<in> insert ?i (live_ids co)"
    proof (cases "(i, a) \<in> set (co_registry co)")
      case True
      then have "a < ?n" using assms(1) by (auto simp: coordinator_ok_def)
      with a(2) old have "\<not> terminal_at co a" by (simp add: terminal_at_def state_at_def)
      with True show ?thesis by (force simp: live_ids_def)
    next
      case False
      with a(1) reg show ?thesis by blast
    qed
  qed
  then have "card (live_ids ?co') \<le> Suc (card (live_ids co))"
    using card_mono [OF _ \<open>live_ids ?co' \<subseteq> _\<close>] finite_live_ids card_insert_le_m1
    by (metis card_insert_if finite.insertI le_Suc_eq le_trans order_refl)
  then show "live_count ?co' \<le> Suc (live_count co)"
    using live_count_card assms(1) ok by (simp add: coordinator_ok_def)
qed

text \<open>What a step may do to the coordinator: keep it well formed, advance its records, and let the
  live executions grow up to the capacity.\<close>

definition next_ok :: "coordinator_env \<Rightarrow> coordinator \<Rightarrow> coordinator \<Rightarrow> bool" where
  "next_ok V co co' \<longleftrightarrow> coordinator_ok V co' \<and> advances co co' \<and>
     live_count co' \<le> max (live_count co) (max_active V + cv_max_pending V)"

lemma ok_next: "ok_step V co co' \<Longrightarrow> next_ok V co co'"
  by (auto simp: ok_step_def next_ok_def)

lemma start_execution_ok:
  assumes "coordinator_ok V co"
  shows "next_ok V co (snd (start_execution V now session i owner request metadata conversation co))"
proof (cases session)
  case (Inl t)
  then show ?thesis using ok_next [OF ok_step_refl [OF assms]] by (simp add: start_execution_def)
next
  case (Inr sid)
  show ?thesis
  proof (cases "dict_has i (co_registry co) \<or> live_count co \<ge> max_active V + cv_max_pending V")
    case True
    then show ?thesis using ok_next [OF ok_step_refl [OF assms]] by (auto simp: start_execution_def Inr)
  next
    case False
    let ?a = "length (co_records co)"
    let ?r = "new_execution (new_execution_state i owner sid request metadata now) conversation"
    note R = register_ok [OF assms, of ?r]
    have task: "ax_task ?r = None" by (simp add: new_execution_def)
    define co2 where "co2 = emit V (EvidenceCreated i) (publish ?a BusCreated (save_record V now True ?a (register ?r co)))"
    have "evolves (register ?r co) co2"
      unfolding co2_def by (rule evolves_then [OF evolves_then [OF evolves_save_record evolves_publish] evolves_emit])
    from evolves_then [OF this evolves_transition]
    have "ok_step V (register ?r co) (snd (transition_record V now EXEC_PLANNING None ?a co2))"
      by (rule evolves_ok [OF R(1) [OF task]])
    then have step: "ok_step V (register ?r co) (snd (case transition_record V now EXEC_PLANNING None ?a co2 of
        (Inl t, co3) \<Rightarrow> (Inl (TransitionRefused t), co3)
      | (Inr _, co3) \<Rightarrow> (let co4 = create_job ?a InitialJob co3 in (Inr (state_at co4 ?a), co4))))"
    proof (rule ok_result)
      fix c assume c: "ok_step V (register ?r co) c"
      then show "ok_step V c (snd (Inl (TransitionRefused t), c))" for t by (simp add: ok_step_refl ok_step_ok)
      have "?a < length (co_records c)" by (rule ok_step_len [OF c]) (simp add: register_def)
      then show "ok_step V c (snd (let co4 = create_job ?a InitialJob c in (Inr (state_at co4 ?a), co4)))"
        using create_job_ok [OF ok_step_ok [OF c]] by (simp add: Let_def)
    qed
    have F: "\<not> dict_has i (co_registry co)" "\<not> live_count co \<ge> max_active V + cv_max_pending V" using False by simp_all
    have e: "snd (start_execution V now session i owner request metadata conversation co) =
      snd (case transition_record V now EXEC_PLANNING None ?a co2 of
        (Inl t, co3) \<Rightarrow> (Inl (TransitionRefused t), co3)
      | (Inr _, co3) \<Rightarrow> (let co4 = create_job ?a InitialJob co3 in (Inr (state_at co4 ?a), co4)))"
      by (simp only: start_execution_def Inr sum.case F if_False Let_def co2_def)
    show ?thesis
      unfolding e using step R [OF task] F(2) advances_trans
      by (auto simp: ok_step_def next_ok_def simp del: max.coboundedI1)
  qed
qed

lemma coordinator_step_ok:
  assumes "coordinator_step V co co'" "coordinator_ok V co"
  shows "next_ok V co co'"
  using assms
proof (induction rule: coordinator_step.induct)
  case step_start
  then show ?case by (intro start_execution_ok)
next
  case step_begin
  then show ?case by (intro ok_next begin_job_ok)
next
  case step_end
  then show ?case by (intro ok_next end_job_ok)
next
  case step_submit
  then show ?case by (intro ok_next submit_approval_ok)
next
  case step_cancel
  then show ?case by (intro ok_next cancel_execution_ok)
next
  case step_timeout
  then show ?case by (intro ok_next timeout_execution_ok)
next
  case step_checkpoint
  then show ?case by (intro ok_next evolves_ok evolves_checkpoint)
next
  case step_pipeline
  then show ?case by (intro ok_next evolves_ok evolves_upd_keeps) simp_all
next
  case step_recover
  then show ?case by (intro ok_next recover_pending_ok)
qed

lemma coordinator_runs_ok:
  assumes "coordinator_runs V co co'" "coordinator_ok V co"
  shows "next_ok V co co'"
  using assms
proof (induction rule: coordinator_runs.induct)
  case (runs_here V co)
  then show ?case by (simp add: next_ok_def)
next
  case (runs_step V co co' co'')
  then have one: "next_ok V co co'" by simp
  then have "next_ok V co' co''" using coordinator_step_ok [OF runs_step.hyps(2)] by (simp add: next_ok_def)
  with one show ?case using advances_trans by (auto simp: next_ok_def)
qed

section \<open>Restoring\<close>

lemma mark_recovered_task: "mark_recovered V now safe r = Inr r' \<Longrightarrow> ax_task r' = ax_task r"
  by (auto simp: mark_recovered_def Let_def res_bind_Inr_iff terminal_result_def split: if_splits)

lemma restored_task: "restored_record V c = Some r \<Longrightarrow> ax_task r = None"
  by (auto simp: restored_record_def split: option.splits if_splits)

lemma restore_from_ok:
  assumes "restore_from V now snaps co = Inr co'" "coordinator_ok V co"
  shows "coordinator_ok V co'"
  using assms
proof (induction V now snaps co arbitrary: co' rule: restore_from.induct)
  case (3 V now c ss co)
  show ?case
  proof (cases "restored_record V c")
    case None
    then show ?thesis using 3 by simp
  next
    case (Some r)
    then obtain r' where r': "mark_recovered V now (cp_recovery_safe c) r = Inr r'"
      "restore_from V now ss
            (publish (length (co_records co)) (BusRecoveryCompleted (es_status (ax_state r'))) (register r' co)) = Inr co'"
      using 3(3) by (auto simp: res_bind_Inr_iff)
    have "ax_task r' = None" using mark_recovered_task [OF r'(1)] restored_task [OF Some] by simp
    from evolves_ok [OF register_ok(1) [OF 3(4) this] evolves_publish]
    show ?thesis using 3(2) [OF Some r'(2)] ok_step_ok by blast
  qed
qed simp_all

lemma new_coordinator_ok:
  assumes "new_coordinator V now store = Inr co"
  shows "coordinator_ok V co"
proof -
  have new: "coordinator_ok V (empty_coordinator V st)" for st
    by (simp add: coordinator_ok_def empty_coordinator_def)
  have prune: "coordinator_ok V (prune_terminal_records V None c)" if "coordinator_ok V c" for c
    using evolves_ok [OF that evolves_prune] by (rule ok_step_ok)
  show ?thesis
    using assms new prune restore_from_ok
    by (auto simp: new_coordinator_def res_bind_Inr_iff split: option.splits prod.splits sum.splits)
qed

lemma reachable_ok: "coordinator_reachable V co \<Longrightarrow> coordinator_ok V co"
proof (induction rule: coordinator_reachable.induct)
  case (reachable_new V now store co)
  then show ?case by (rule new_coordinator_ok)
next
  case (reachable_step V co co')
  then show ?case using coordinator_step_ok by (auto simp: next_ok_def)
qed


section \<open>The state behind a part\<close>

lemma state_at_upd [simp]: "(\<And>r. ax_state (f r) = ax_state r) \<Longrightarrow> state_at (upd a f co) = state_at co"
  by (simp add: fun_eq_iff state_at_def record_at_upd)

lemma state_at_frame [simp]:
  "state_at (publish a ev co) = state_at co" "state_at (emit V ee co) = state_at co"
  "state_at (prune_terminal_records V p co) = state_at co"
  "state_at (co\<lparr>co_store := st\<rparr>) = state_at co" "state_at (co\<lparr>co_free := n\<rparr>) = state_at co"
  "state_at (upd_job j g co) = state_at co"
  by (simp add: publish_def)
     (simp_all add: fun_eq_iff state_at_def record_at_def prune_terminal_records_def Let_def emit_def upd_job_def)

lemma state_at_save [simp]: "state_at (save_record V now safe a co) = state_at co"
  by (simp add: save_record_def Let_def split: option.split prod.split sum.split)

lemma record_at_store [simp]: "record_at (co\<lparr>co_store := st\<rparr>) = record_at co"
  by (simp add: fun_eq_iff record_at_def)

lemma save_record_fields:
  "ax_outcomes (record_at (save_record V now safe a co) b) = ax_outcomes (record_at co b)"
  "ax_results (record_at (save_record V now safe a co) b) = ax_results (record_at co b)"
  by (simp_all add: save_record_def Let_def publish_def record_at_upd split: option.split prod.split sum.split)

lemma state_at_upd_state:
  "a < length (co_records co) \<Longrightarrow> state_at (upd_state a f co) a = f (state_at co a)"
  by (simp add: upd_state_def state_at_def record_at_upd)

lemma transition_record_state:
  assumes "transition_record V now status err a co = (Inr u, co')" "a < length (co_records co)"
  shows "transition now status err (state_at co a) = Inr (state_at co' a)"
  using assms(1) state_at_upd_state [OF assms(2)]
  by (auto simp: transition_record_def Let_def split: sum.splits if_splits)

lemma transition_record_refused:
  assumes "transition now status err (state_at co a) = Inl t"
  shows "transition_record V now status err a co = (Inl t, co)"
  using assms by (simp add: transition_record_def)

lemma transition_pending:
  "transition now s err e = Inr e' \<Longrightarrow> es_pending_approval_id e' = es_pending_approval_id e"
  by (auto simp: transition_def split: if_splits)


section \<open>Where a restored record comes from\<close>

definition restored_from :: "coordinator_env \<Rightarrow> int \<Rightarrow> recovery_checkpoint \<Rightarrow> active_execution \<Rightarrow> bool" where
  "restored_from V now c x \<longleftrightarrow>
     (\<exists>r r'. restored_record V c = Some r \<and> mark_recovered V now (cp_recovery_safe c) r = Inr r' \<and>
        es_execution_id (ax_state r') = cp_execution_id c \<and> ax_state x = ax_state r' \<and>
        ax_resolved x = cp_resolved_approval_ids c \<and> ax_results x = cp_operation_results c)"

lemma restored_fields:
  assumes "restored_record V c = Some r"
  shows "es_execution_id (ax_state r) = cp_execution_id c \<and> ax_resolved r = cp_resolved_approval_ids c \<and>
    ax_results r = cp_operation_results c \<and> cv_load_state V (cp_execution_state c) = Some (ax_state r)"
  using assms by (auto simp: restored_record_def split: option.splits if_splits)

lemma mark_recovered_fields:
  assumes "mark_recovered V now safe r = Inr r'"
  shows "es_execution_id (ax_state r') = es_execution_id (ax_state r) \<and> ax_resolved r' = ax_resolved r \<and>
    ax_results r' = ax_results r"
  using assms transition_keeps(1)
  by (auto simp: mark_recovered_def Let_def res_bind_Inr_iff terminal_result_def split: if_splits)

lemma restore_from_traced:
  assumes "restore_from V now snaps co = Inr co'" "coordinator_ok V co" "(i, a) \<in> set (co_registry co')"
  shows "(i, a) \<in> set (co_registry co) \<and> record_at co' a = record_at co a \<or>
    (\<exists>c. Recovery c \<in> set snaps \<and> cp_execution_id c = i \<and> restored_from V now c (record_at co' a))"
  using assms
proof (induction V now snaps co arbitrary: co' rule: restore_from.induct)
  case (3 V now c ss co)
  show ?case
  proof (cases "restored_record V c")
    case None
    then show ?thesis using 3 by auto
  next
    case (Some r)
    then obtain r' where r': "mark_recovered V now (cp_recovery_safe c) r = Inr r'"
      "restore_from V now ss
            (publish (length (co_records co)) (BusRecoveryCompleted (es_status (ax_state r'))) (register r' co)) = Inr co'"
      using 3(3) by (auto simp: res_bind_Inr_iff)
    let ?n = "length (co_records co)"
    let ?co1 = "publish ?n (BusRecoveryCompleted (es_status (ax_state r'))) (register r' co)"
    have task: "ax_task r' = None" using mark_recovered_task [OF r'(1)] restored_task [OF Some] by simp
    have ok1: "coordinator_ok V ?co1"
      by (rule ok_step_ok [OF evolves_ok [OF register_ok(1) [OF 3(4) task] evolves_publish]])
    have id: "es_execution_id (ax_state r') = cp_execution_id c"
      using restored_fields [OF Some] mark_recovered_fields [OF r'(1)] by simp
    have at: "ax_state (record_at ?co1 ?n) = ax_state r'" "ax_resolved (record_at ?co1 ?n) = ax_resolved r'"
      "ax_results (record_at ?co1 ?n) = ax_results r'"
      by (simp_all add: publish_def record_at_upd register_def) (simp_all add: record_at_def)
    have old: "record_at ?co1 b = record_at co b" if "b < ?n" for b
      using that by (simp add: publish_def record_at_upd record_at_register)
    have new: "restored_from V now c (record_at ?co1 ?n)"
      unfolding restored_from_def using Some r'(1) id restored_fields [OF Some] mark_recovered_fields [OF r'(1)]
      by (intro exI [of _ r] exI [of _ r'] conjI) (simp_all only: at)
    have reg: "set (co_registry ?co1) \<subseteq> insert (cp_execution_id c, ?n) (set (co_registry co))"
      using set_update_pairs by (simp add: register_def id)
    from 3(2) [OF Some r'(2) ok1 3(5)] show ?thesis
    proof
      assume a: "(i, a) \<in> set (co_registry ?co1) \<and> record_at co' a = record_at ?co1 a"
      with reg consider "i = cp_execution_id c" "a = ?n" | "(i, a) \<in> set (co_registry co)" by blast
      then show ?thesis
      proof cases
        case 1
        with a new show ?thesis by auto
      next
        case 2
        then have "a < ?n" using 3(4) by (auto simp: coordinator_ok_def)
        with 2 a old show ?thesis by simp
      qed
    qed auto
  qed
qed auto

lemma new_coordinator_traced:
  assumes "new_coordinator V now (Some st) = Inr co" "(i, a) \<in> set (co_registry co)"
    "list_checkpoints (cv_store V) st = (Inr snaps, st')"
  shows "\<exists>c. Recovery c \<in> set snaps \<and> cp_execution_id c = i \<and> restored_from V now c (record_at co a)"
proof -
  let ?e = "empty_coordinator V (Some st')"
  obtain co1 where co1: "restore_from V now snaps ?e = Inr co1" "co = prune_terminal_records V None co1"
    using assms(1,3) by (auto simp: new_coordinator_def res_bind_Inr_iff)
  have e: "evolves co1 co" unfolding co1(2) by (rule evolves_prune)
  then have "(i, a) \<in> set (co_registry co1)" using assms(2) by (auto simp: evolves_def)
  moreover have "coordinator_ok V ?e" by (simp add: coordinator_ok_def empty_coordinator_def)
  moreover have "record_at co a = record_at co1 a"
    by (simp add: co1(2) prune_terminal_records_def Let_def record_at_def)
  ultimately show ?thesis using restore_from_traced [OF co1(1)] by (simp add: empty_coordinator_def)
qed

text \<open>The status a record is given by its recovery.\<close>

lemma restored_status:
  assumes "restored_from V now c x" "cv_load_state V (cp_execution_state c) = Some e"
  shows "es_status (ax_state x) = (if \<not> interrupted (es_status e) then es_status e
    else if cp_recovery_safe c then EXEC_RECOVERING else EXEC_FAILED)"
proof -
  obtain r r' where r: "restored_record V c = Some r" "mark_recovered V now (cp_recovery_safe c) r = Inr r'"
    "ax_state x = ax_state r'" using assms(1) by (auto simp: restored_from_def)
  have "ax_state r = e" using restored_fields [OF r(1)] assms(2) by simp
  moreover have "es_status (ax_state r') = (if \<not> interrupted (es_status (ax_state r)) then es_status (ax_state r)
    else if cp_recovery_safe c then EXEC_RECOVERING else EXEC_FAILED)"
    using r(2) transition_keeps(5)
    by (auto simp: mark_recovered_def Let_def res_bind_Inr_iff terminal_result_def es_terminal_def interrupted_def
        split: if_splits)
  ultimately show ?thesis using r(3) by simp
qed

end
