(* ===== verification/Sample_Recovery.thy ===== *)
theory Sample_Recovery
  imports Coordinator_Invariants
begin

text \<open>
  Concrete inputs for the checkpoint store and the coordinator: a store with a key, an index and a
  digest that spells its text in hexadecimal, two checkpoints of one execution, and a coordinator
  without a store whose one execution pauses for an approval.
\<close>

section \<open>A store\<close>

definition hex_text :: "string \<Rightarrow> string" where
  "hex_text t = concat (map (\<lambda>c. [hex_digit (of_char c div 16), hex_digit (of_char c mod 16)]) t)"

lemma hex_digit_inj: "m < 16 \<Longrightarrow> n < 16 \<Longrightarrow> hex_digit m = hex_digit n \<Longrightarrow> m = n"
proof -
  have "distinct (map hex_digit [0..<16])" by code_simp
  then show "m < 16 \<Longrightarrow> n < 16 \<Longrightarrow> hex_digit m = hex_digit n \<Longrightarrow> m = n"
    by (auto simp: distinct_map inj_on_def)
qed

lemma hex_digit_ascii: "n < 16 \<Longrightarrow> of_char (hex_digit n) < (128 :: nat)"
proof -
  have "list_all (\<lambda>n. of_char (hex_digit n) < (128 :: nat)) [0..<16]" by code_simp
  then show "n < 16 \<Longrightarrow> of_char (hex_digit n) < (128 :: nat)" by (auto simp: list_all_iff)
qed

lemma char_halves: "(of_char c :: nat) div 16 < 16" "(of_char c :: nat) mod 16 < 16"
  using nat_of_char_less_256 [of c] by (simp_all add: less_mult_imp_div_less)

lemma hex_text_inj: "inj hex_text"
proof (rule injI)
  fix s t :: string
  show "hex_text s = hex_text t \<Longrightarrow> s = t"
  proof (induction s arbitrary: t)
    case Nil
    then show ?case by (cases t) (simp_all add: hex_text_def)
  next
    case (Cons c s)
    then obtain d t' where t: "t = d # t'" by (cases t) (auto simp: hex_text_def)
    with Cons.prems have h: "hex_digit (of_char c div 16) = hex_digit (of_char d div 16)"
      "hex_digit (of_char c mod 16) = hex_digit (of_char d mod 16)" "hex_text s = hex_text t'"
      by (simp_all add: hex_text_def)
    have "of_char c = (of_char d :: nat)"
      using hex_digit_inj [OF char_halves(1) char_halves(1) h(1)] hex_digit_inj [OF char_halves(2) char_halves(2) h(2)]
      by (metis div_mult_mod_eq)
    with Cons.IH [OF h(3)] t show ?case by simp
  qed
qed

lemma hex_text_ascii: "ascii_text (hex_text t)"
  by (induction t) (simp_all add: ascii_text_def hex_text_def hex_digit_ascii char_halves)

definition sample_key :: string where
  "sample_key = replicate 32 CHR ''k''"

text \<open>The validation knows the stored form of the checkpoints given to it.\<close>

definition lookup_validate :: "recovery_checkpoint list \<Rightarrow> json_fields \<Rightarrow> (string, recovery_checkpoint) result" where
  "lookup_validate cs d = (case find (\<lambda>c. stored_fields c = d) cs of Some c \<Rightarrow> Inr c | None \<Rightarrow> Inl ''unknown'')"

definition sample_store_env :: "recovery_checkpoint list \<Rightarrow> checkpoint_env" where
  "sample_store_env cs =
     \<lparr>ce_durable = True, ce_key = Some sample_key, ce_indexed = True, ce_max_cached_terminal = 4,
      ce_hmac = (\<lambda>k t. hex_text t), ce_stamp = int_str, ce_validate = lookup_validate cs\<rparr>"

definition sample_checkpoint :: "int \<Rightarrow> recovery_checkpoint" where
  "sample_checkpoint g =
     \<lparr>cp_schema_version = 1, cp_generation = g, cp_execution_id = ''run1'', cp_principal_id = ''anna'',
      cp_session_id = ''default'', cp_execution_state = [(''status'', JStr ''running'')],
      cp_pipeline_state = None, cp_conversation = None, cp_resolved_approval_ids = [],
      cp_operation_outcomes = [], cp_operation_results = [], cp_retry_attempts = [],
      cp_recovery_safe = False, cp_created_at = ''0'', cp_updated_at = ''0'', cp_integrity_digest = None\<rparr>"

lemma sealed_same: "sealed_checkpoint (sample_store_env cs) now c = sealed_checkpoint (sample_store_env []) now c"
  by (simp add: sealed_checkpoint_def sample_store_env_def Let_def)

definition kept_checkpoint :: "int \<Rightarrow> recovery_checkpoint" where
  "kept_checkpoint g = sealed_checkpoint (sample_store_env []) 0 (sample_checkpoint g)"

definition sample_env :: checkpoint_env where
  "sample_env = sample_store_env [kept_checkpoint 1, kept_checkpoint 2]"

lemma sample_authentic: "authentic sample_env" "inj (ce_hmac sample_env (the_key sample_env))"
  by (simp_all add: authentic_def sample_env_def sample_store_env_def sample_key_def hex_text_ascii hex_text_inj)

lemma sample_sealed: "sealed_checkpoint sample_env 0 (sample_checkpoint g) = kept_checkpoint g"
  unfolding sample_env_def kept_checkpoint_def by (rule sealed_same)

lemma kept_checkpoint_simps [simp]:
  "cp_generation (kept_checkpoint g) = g" "cp_execution_id (kept_checkpoint g) = ''run1''"
  by (simp_all add: kept_checkpoint_def sample_checkpoint_def)

lemma stored_kept_distinct: "stored_fields (kept_checkpoint 1) \<noteq> stored_fields (kept_checkpoint 2)"
proof
  assume "stored_fields (kept_checkpoint 1) = stored_fields (kept_checkpoint 2)"
  then have "map_of (stored_fields (kept_checkpoint 1)) ''generation'' =
    map_of (stored_fields (kept_checkpoint 2)) ''generation''" by simp
  then show False by (simp add: stored_field)
qed

lemma sample_storable: "g \<in> {1, 2} \<Longrightarrow> storable sample_env 0 (sample_checkpoint g)"
proof -
  have path: "path_ok ''run1''" by code_simp
  assume "g \<in> {1, 2}"
  moreover have "ce_validate sample_env (stored_fields (kept_checkpoint g)) = Inr (kept_checkpoint g)"
    if "g \<in> {1, 2}"
    using that stored_kept_distinct
    by (auto simp: sample_env_def sample_store_env_def lookup_validate_def)
  ultimately show ?thesis
    using path by (simp add: storable_def sample_sealed)
       (simp add: sample_checkpoint_def CHECKPOINT_SCHEMA_VERSION_def)
qed

lemma sample_no_secret: "\<not> contains_secret_key (JObj (checkpoint_dump (kept_checkpoint g)))"
proof -
  have "\<not> list_ex secret_marked [''schema_version'', ''generation'', ''execution_id'', ''principal_id'', ''session_id'',
    ''execution_state'', ''pipeline_state'', ''conversation'', ''resolved_approval_ids'', ''operation_outcomes'',
    ''operation_results'', ''retry_attempts'', ''recovery_safe'', ''created_at'', ''updated_at'',
    ''integrity_digest'', ''status'']" by code_simp
  then show ?thesis
    by (simp add: kept_checkpoint_def sealed_checkpoint_def Let_def checkpoint_dump_def checkpoint_body_def
        sample_checkpoint_def sample_store_env_def opt_json_def)
qed

lemma sample_json_ok: "json_ok (JObj (checkpoint_dump (kept_checkpoint g)))"
  by (simp add: kept_checkpoint_def sealed_checkpoint_def Let_def checkpoint_dump_def checkpoint_body_def
      sample_checkpoint_def sample_store_env_def opt_json_def)

definition fresh_store :: checkpoint_store where
  "fresh_store = \<lparr>cs_cache = [], cs_entries = [], cs_files = [], cs_index = IndexMissing\<rparr>"

lemma fresh_store_ok: "store_ok E fresh_store"
  by (simp add: store_ok_def fresh_store_def index_current_def)

lemma fresh_store_map: "checkpoint_map E fresh_store = Map.empty"
  by (simp add: checkpoint_map_def fresh_store_def fun_eq_iff)

text \<open>The store after the first checkpoint.\<close>

definition sample_saved :: checkpoint_store where
  "sample_saved = snd (save_recovery sample_env 0 (sample_checkpoint 1) fresh_store)"

lemma sample_save:
  "save_recovery sample_env 0 (sample_checkpoint 1) fresh_store = (Inr (), sample_saved)"
  "store_ok sample_env sample_saved" "checkpoint_map sample_env sample_saved = [''run1'' \<mapsto> kept_checkpoint 1]"
proof -
  obtain r s where s: "save_recovery sample_env 0 (sample_checkpoint 1) fresh_store = (r, s)" by fastforce
  then have step: "store_step sample_env (SaveOp 0 (sample_checkpoint 1)) fresh_store = (unit_answer r, s)"
    by (simp add: save_checkpoint_def)
  have map: "map_step sample_env (SaveOp 0 (sample_checkpoint 1)) (checkpoint_map sample_env fresh_store) =
      (Done, [''run1'' \<mapsto> kept_checkpoint 1])"
    using sample_no_secret [of 1]
    by (simp add: sample_sealed fresh_store_map Let_def del: contains_secret_key.simps)
       (simp add: sample_checkpoint_def)
  from save_refines [OF fresh_store_ok sample_authentic(1) sample_storable step map]
  have "unit_answer r = Done" "store_ok sample_env s" "checkpoint_map sample_env s = [''run1'' \<mapsto> kept_checkpoint 1]"
    by simp_all
  moreover have "r = Inr ()" using \<open>unit_answer r = Done\<close> by (cases r) (simp_all add: unit_answer_def)
  ultimately show "save_recovery sample_env 0 (sample_checkpoint 1) fresh_store = (Inr (), sample_saved)"
    "store_ok sample_env sample_saved" "checkpoint_map sample_env sample_saved = [''run1'' \<mapsto> kept_checkpoint 1]"
    by (simp_all add: sample_saved_def s)
qed


lemma sample_kept: "kept sample_env sample_saved ''run1'' (kept_checkpoint 1)"
proof -
  have "\<exists>c. kept sample_env sample_saved ''run1'' c"
    using map_of_unkept(4) [OF sample_save(2), of "''run1''"] sample_save(3) by auto
  then show ?thesis using map_of_kept [OF sample_authentic(1)] sample_save(3) by fastforce
qed

section \<open>A coordinator\<close>

definition sample_coordinator_env :: coordinator_env where
  "sample_coordinator_env =
     \<lparr>cv_store = sample_store_env [], cv_evidence = True, cv_max_active = 1, cv_max_pending = 2, cv_max_retained = 4,
      cv_session_ok = (\<lambda>_ _. True), cv_dump_state = (\<lambda>_. []), cv_load_state = (\<lambda>_. None),
      cv_dump_pipeline = (\<lambda>_. []), cv_load_pipeline = (\<lambda>_. None), cv_dump_report = (\<lambda>_. PNone),
      cv_show = (\<lambda>_. [])\<rparr>"

definition sample_pause :: pipeline_state where
  "sample_pause = \<lparr>pl_request = ''hello'', pl_plan = None, pl_result = Some (bare_result ''t1'' PAUSED None []),
     pl_workflow = None, pl_report = None\<rparr>"

definition coordinator_0 :: coordinator where
  "coordinator_0 = empty_coordinator sample_coordinator_env None"

definition coordinator_started :: coordinator where
  "coordinator_started =
     snd (start_execution sample_coordinator_env 0 (Inr ''default'') ''run1'' ''anna'' ''hello'' [] None coordinator_0)"

definition coordinator_running :: coordinator where
  "coordinator_running = snd (begin_job sample_coordinator_env 0 0 coordinator_started)"

definition coordinator_paused :: coordinator where
  "coordinator_paused = snd (end_job sample_coordinator_env 0 0 (PipelineReturned sample_pause) coordinator_running)"

definition coordinator_answer :: "string \<Rightarrow> (coordinator_error, execution_state) result \<times> coordinator" where
  "coordinator_answer decision =
     submit_approval sample_coordinator_env 0 ''run1'' ''t1'' decision ''anna'' [] coordinator_paused"

definition coordinator_resumed :: "string \<Rightarrow> coordinator" where
  "coordinator_resumed decision = snd (begin_job sample_coordinator_env 0 1 (snd (coordinator_answer decision)))"

lemma sample_started_facts:
  "length (co_jobs coordinator_started) = 1" "phase_at coordinator_started 0 = JobCreated"
  "phase_at coordinator_running 0 = JobRunning" "length (co_jobs coordinator_running) = 1"
  by code_simp+

lemma sample_paused_facts:
  "status_at coordinator_paused 0 = EXEC_AWAITING_APPROVAL" "owned coordinator_paused ''run1'' ''anna'' = Inr 0"
  "map_of (co_registry coordinator_paused) ''run1'' = Some 0"
  by code_simp+

lemma sample_answer_facts:
  "returned (fst (coordinator_answer ''allow''))" "returned (fst (coordinator_answer ''deny''))"
  "length (co_jobs (snd (coordinator_answer d))) = (if returned (fst (coordinator_answer d)) then 2 else 1)"
  if "d \<in> {''allow'', ''deny''}"
  using that by (auto; code_simp)+

lemma coordinator_0_ok: "new_coordinator sample_coordinator_env 0 None = Inr coordinator_0"
  by (simp add: new_coordinator_def coordinator_0_def)

lemma sample_reachable:
  "coordinator_reachable sample_coordinator_env coordinator_0"
  "coordinator_reachable sample_coordinator_env coordinator_paused"
  "coordinator_runs sample_coordinator_env coordinator_0 coordinator_paused"
proof -
  let ?V = sample_coordinator_env
  have s1: "coordinator_step ?V coordinator_0 coordinator_started"
    unfolding coordinator_started_def by (rule step_start) simp
  have s2: "coordinator_step ?V coordinator_started coordinator_running"
    unfolding coordinator_running_def by (rule step_begin) (simp_all add: sample_started_facts)
  have s3: "coordinator_step ?V coordinator_running coordinator_paused"
    unfolding coordinator_paused_def by (rule step_end) (simp_all add: sample_started_facts)
  show r: "coordinator_reachable ?V coordinator_0" by (rule reachable_new [OF coordinator_0_ok])
  show "coordinator_reachable ?V coordinator_paused"
    by (rule reachable_step [OF reachable_step [OF reachable_step [OF r s1] s2] s3])
  show "coordinator_runs ?V coordinator_0 coordinator_paused"
    by (rule runs_step [OF runs_step [OF runs_step [OF runs_here s1] s2] s3])
qed


lemma sample_resumed_reachable:
  "coordinator_reachable sample_coordinator_env (coordinator_resumed d)" if "d \<in> {''allow'', ''deny''}"
proof -
  let ?V = sample_coordinator_env and ?co = "snd (coordinator_answer d)"
  have one: "coordinator_step ?V coordinator_paused ?co" unfolding coordinator_answer_def by (rule step_submit)
  have "1 < length (co_jobs (snd (coordinator_answer ''allow''))) \<and> phase_at (snd (coordinator_answer ''allow'')) 1 = JobCreated"
    "1 < length (co_jobs (snd (coordinator_answer ''deny''))) \<and> phase_at (snd (coordinator_answer ''deny'')) 1 = JobCreated"
    by code_simp+
  with that have "1 < length (co_jobs ?co) \<and> phase_at ?co 1 = JobCreated" by blast
  then have "coordinator_step ?V ?co (coordinator_resumed d)"
    unfolding coordinator_resumed_def by (intro step_begin) simp_all
  with one show ?thesis using reachable_step sample_reachable(2) by blast
qed


section \<open>A restart\<close>

definition interrupted_run :: execution_state where
  "interrupted_run = (new_execution_state ''run1'' ''anna'' ''default'' ''hello'' [] 0)\<lparr>es_status := EXEC_RUNNING\<rparr>"

definition loading_env :: "checkpoint_env \<Rightarrow> coordinator_env" where
  "loading_env E = sample_coordinator_env\<lparr>cv_store := E, cv_load_state := (\<lambda>_. Some interrupted_run)\<rparr>"

lemma loading_env_simps [simp]:
  "cv_store (loading_env E) = E" "cv_load_state (loading_env E) d = Some interrupted_run"
  "cv_session_ok (loading_env E) p q = True" "cv_max_retained (loading_env E) = 4"
  by (simp_all add: loading_env_def sample_coordinator_env_def)

lemma sample_ids: "checkpoint_ids sample_env sample_saved = [''run1'']"
proof -
  let ?xs = "map fst (cs_cache sample_saved) @ map fst (cs_files sample_saved)"
  have "i = ''run1''" if "map_of (cs_cache sample_saved) i \<noteq> None \<or> map_of (cs_files sample_saved) i \<noteq> None" for i
  proof -
    from that obtain c where "kept sample_env sample_saved i c"
      using store_okD(2,3) [OF sample_save(2)] by blast
    from map_of_kept [OF sample_authentic(1) this] sample_save(3) show ?thesis by (auto split: if_splits)
  qed
  moreover have "map_of (cs_files sample_saved) ''run1'' \<noteq> None" using sample_kept by (simp add: kept_def)
  ultimately have one: "set ?xs = {''run1''}" by (auto simp: map_of_eq_None_iff)
  define ids where "ids = sort (dedupe ?xs)"
  have ids: "set ids = {''run1''}" "distinct ids" using one by (simp_all add: ids_def)
  have "length ids = 1" using distinct_card [OF ids(2)] by (simp add: ids(1))
  with ids(1) have "ids = [''run1'']" by (cases ids) simp_all
  then have "sort (dedupe ?xs) = [''run1'']" by (simp only: ids_def)
  moreover have "ce_durable sample_env" using authenticD(1) [OF sample_authentic(1)] .
  ultimately show ?thesis by (simp add: checkpoint_ids_def)
qed

lemma sample_restart:
  "\<exists>co. new_coordinator (loading_env sample_env) 5 (Some sample_saved) = Inr co \<and> (''run1'', 0) \<in> set (co_registry co)"
proof -
  let ?V = "loading_env sample_env" and ?c = "kept_checkpoint 1"
  obtain r s' where l: "list_from sample_env [''run1''] sample_saved = (r, s')" by fastforce
  have "path_ok ''run1''" by code_simp
  with list_from_kept [OF sample_save(2) sample_authentic(1) l] sample_save(3)
  have list: "list_checkpoints sample_env sample_saved = (Inr [Recovery ?c], s')"
    using l by (simp add: list_checkpoints_def sample_ids List.map_filter_simps)
  have c: "cp_execution_id ?c = ''run1''" "cp_pipeline_state ?c = None" "\<not> cp_recovery_safe ?c"
    by (simp_all add: kept_checkpoint_def sample_checkpoint_def sealed_checkpoint_def Let_def split: option.split)
  have id: "es_execution_id interrupted_run = ''run1''" "es_status interrupted_run = EXEC_RUNNING"
    by (simp_all add: interrupted_run_def new_execution_state_def)
  obtain x where x: "restored_record ?V ?c = Some x" "ax_state x = interrupted_run"
    using c id by (simp add: restored_record_def)
  obtain y where y: "mark_recovered ?V 5 False x = Inr y"
    using x(2) id by (simp add: mark_recovered_def Let_def interrupted_def es_terminal_def transition_def)
  have "es_execution_id (ax_state y) = ''run1''" using mark_recovered_fields [OF y] x(2) id by simp
  then have reg: "co_registry (register y (empty_coordinator ?V st)) = [(''run1'', 0)]" for st
    by (simp add: register_def empty_coordinator_def)
  show ?thesis
    by (simp add: new_coordinator_def list x(1) y c(3) prune_terminal_records_def Let_def reg)
qed

end
