(* ===== verification/Lifecycle.thy ===== *)
theory Lifecycle
  imports Sample_Recovery
begin

text \<open>
  What the life of an execution comes to: the table of statuses, approvals, the bounds of the
  coordinator, and what survives a restart. The identifiers are those of the manifest.
\<close>

section \<open>The lifecycle\<close>

text \<open>C20: in every run of the coordinator an execution keeps its id and its principal, its status only moves along
  the transition table, and once it is terminal it never changes again.\<close>

theorem executions_follow_the_table:
  assumes "coordinator_reachable V co" "coordinator_runs V co co'" "a < length (co_records co)"
  shows "moves (status_at co a) (status_at co' a) \<and>
    (terminal_at co a \<longrightarrow> status_at co' a = status_at co a) \<and>
    es_execution_id (state_at co' a) = es_execution_id (state_at co a) \<and>
    es_principal_id (state_at co' a) = es_principal_id (state_at co a)"
proof -
  have "advances co co'"
    using coordinator_runs_ok [OF assms(2) reachable_ok [OF assms(1)]] by (simp add: next_ok_def)
  then have "advances_record (record_at co a) (record_at co' a)" using assms(3) by (simp add: advances_def)
  then show ?thesis
    using advances_record_terminal [of "record_at co a" "record_at co' a"]
    by (simp add: advances_record_def status_at_def state_at_def terminal_at_def)
qed

theorem executions_follow_the_table_witness:
  "\<exists>co'. coordinator_runs sample_coordinator_env coordinator_paused co' \<and>
     moves (status_at coordinator_paused 0) (status_at co' 0) \<and> status_at co' 0 = EXEC_CANCELLED"
proof -
  let ?co' = "snd (cancel_execution sample_coordinator_env 0 ''run1'' ''anna'' PipelineCancelled coordinator_paused)"
  have run: "coordinator_runs sample_coordinator_env coordinator_paused ?co'"
    by (rule runs_step [OF runs_here step_cancel])
  have "0 < length (co_records coordinator_paused)" "status_at ?co' 0 = EXEC_CANCELLED" by code_simp+
  with executions_follow_the_table [OF sample_reachable(2) run] run show ?thesis by blast
qed

text \<open>Whatever happened since its start, the registry of a coordinator names every execution once, by a record
  that carries its id, every job belongs to a record, and a record only waits for a job that exists.\<close>

theorem registry_is_well_formed:
  assumes "coordinator_reachable V co"
  shows "dict_ok (co_registry co) \<and>
    (\<forall>(i, a) \<in> set (co_registry co). a < length (co_records co) \<and> es_execution_id (state_at co a) = i) \<and>
    (\<forall>b \<in> set (co_jobs co). jb_record b < length (co_records co)) \<and>
    (\<forall>a < length (co_records co). \<forall>j. ax_task (record_at co a) = Some j \<longrightarrow> j < length (co_jobs co))"
  using reachable_ok [OF assms] by (simp add: coordinator_ok_def)

theorem registry_is_well_formed_witness:
  "dict_ok (co_registry coordinator_paused) \<and> co_registry coordinator_paused = [(''run1'', 0)]"
proof -
  have "co_registry coordinator_paused = [(''run1'', 0)]" by code_simp
  with registry_is_well_formed [OF sample_reachable(2)] show ?thesis by blast
qed

text \<open>C21: first runs hold a permit of the semaphore each, so at most the configured number of them is under way,
  and starting never takes the live executions beyond the configured capacity, or beyond what a restart had
  restored when that is more.\<close>

theorem capacity_is_kept:
  assumes "new_coordinator V now store = Inr co" "coordinator_runs V co co'"
  shows "length (filter holds_permit (co_jobs co')) \<le> max_active V \<and>
    live_count co' \<le> max (live_count co) (max_active V + cv_max_pending V)"
  using coordinator_runs_ok [OF assms(2) new_coordinator_ok [OF assms(1)]]
  by (auto simp: next_ok_def coordinator_ok_def)

theorem capacity_is_kept_witness:
  "length (filter holds_permit (co_jobs coordinator_paused)) \<le> 1 \<and> live_count coordinator_paused \<le> 3"
proof -
  have "live_count coordinator_0 = 0" by (simp add: live_count_def coordinator_0_def empty_coordinator_def)
  with capacity_is_kept [OF coordinator_0_ok sample_reachable(3)] show ?thesis
    by (simp add: sample_coordinator_env_def)
qed

section \<open>Approvals\<close>

lemma submit_accepted:
  assumes "submit_approval V now i approval d owner reasons co = (Inr e, co1)"
  obtains a where "owned co i owner = Inr a" "approval_refusal co a approval (py_lower (py_strip d)) = None"
    "evolves (upd a (\<lambda>r. r\<lparr>ax_resolved := approval # ax_resolved r\<rparr>) co) (take_approval V now i a approval (py_lower (py_strip d)) co)"
    "\<exists>u c. move_approved V now a (py_lower (py_strip d)) (take_approval V now i a approval (py_lower (py_strip d)) co) = (Inr u, c) \<and>
      co1 = create_job a (ResumeJob (py_lower (py_strip d)) reasons) c"
proof -
  from assms obtain a where a: "owned co i owner = Inr a"
    by (cases "owned co i owner") (simp_all add: submit_approval_def)
  from assms have none: "approval_refusal co a approval (py_lower (py_strip d)) = None"
    by (cases "approval_refusal co a approval (py_lower (py_strip d))") (simp_all add: submit_approval_def a)
  have "evolves (upd a (\<lambda>r. r\<lparr>ax_resolved := approval # ax_resolved r\<rparr>) co)
      (take_approval V now i a approval (py_lower (py_strip d)) co)"
    unfolding take_approval_def
    by (rule evolves_then [OF evolves_then [OF evolves_save_record evolves_publish] evolves_emit])
  moreover obtain r c where m:
    "move_approved V now a (py_lower (py_strip d)) (take_approval V now i a approval (py_lower (py_strip d)) co) = (r, c)"
    by fastforce
  moreover have "\<exists>u. r = Inr u \<and> co1 = create_job a (ResumeJob (py_lower (py_strip d)) reasons) c"
    using assms by (cases r) (simp_all add: submit_approval_def a none m Let_def)
  ultimately show ?thesis using that [OF a none] by metis
qed

lemma resolved_advances:
  "advances co co' \<Longrightarrow> a < length (co_records co) \<Longrightarrow> set (ax_resolved (record_at co a)) \<subseteq> set (ax_resolved (record_at co' a))"
  by (simp add: advances_def advances_record_def)

lemma submit_resolves:
  assumes "coordinator_ok V co" "submit_approval V now i approval d owner reasons co = (Inr e, co1)"
    "map_of (co_registry co) i = Some a"
  shows "approval \<in> set (ax_resolved (record_at co1 a))" "a < length (co_records co1)"
proof -
  obtain b where b: "owned co i owner = Inr b"
    "evolves (upd b (\<lambda>r. r\<lparr>ax_resolved := approval # ax_resolved r\<rparr>) co) (take_approval V now i b approval (py_lower (py_strip d)) co)"
    and moved: "\<exists>u c. move_approved V now b (py_lower (py_strip d)) (take_approval V now i b approval (py_lower (py_strip d)) co) = (Inr u, c) \<and>
      co1 = create_job b (ResumeJob (py_lower (py_strip d)) reasons) c"
    by (rule submit_accepted [OF assms(2)])
  obtain u c where m:
    "move_approved V now b (py_lower (py_strip d)) (take_approval V now i b approval (py_lower (py_strip d)) co) = (Inr u, c)"
    "co1 = create_job b (ResumeJob (py_lower (py_strip d)) reasons) c"
    using moved by blast
  have ab: "b = a" "a < length (co_records co)" using owned_len [OF assms(1) b(1)] assms(3) by simp_all
  let ?co0 = "upd a (\<lambda>r. r\<lparr>ax_resolved := approval # ax_resolved r\<rparr>) co"
  have ok0: "coordinator_ok V ?co0"
    by (rule ok_step_ok [OF evolves_ok [OF assms(1) evolves_upd_keeps]]) auto
  have "evolves ?co0 c"
    using evolves_then [OF b(2) evolves_move_approved, of V now b "py_lower (py_strip d)"] m(1) ab(1) by simp
  from ok_step_trans [OF evolves_ok [OF ok0 this] create_job_ok] ok_step_ok [OF evolves_ok [OF ok0 this]]
  have step: "ok_step V ?co0 co1" using ab m(2) \<open>evolves ?co0 c\<close> by (simp add: evolves_def)
  have len: "a < length (co_records ?co0)" using ab(2) by simp
  have "approval \<in> set (ax_resolved (record_at ?co0 a))" using ab(2) by (simp add: record_at_upd)
  with resolved_advances [OF _ len] step show "approval \<in> set (ax_resolved (record_at co1 a))"
    by (auto simp: ok_step_def)
  show "a < length (co_records co1)" by (rule ok_step_len [OF step len])
qed

lemma resolved_refused:
  assumes "map_of (co_registry co) i = Some a" "approval \<in> set (ax_resolved (record_at co a))"
  shows "\<not> returned (fst (submit_approval V now i approval d owner reasons co))"
proof (cases "owned co i owner")
  case (Inl e)
  then show ?thesis by (simp add: submit_approval_def)
next
  case (Inr b)
  then have "b = a" using assms(1) by (auto simp: owned_def split: if_splits)
  then have "approval_refusal co b approval (py_lower (py_strip d)) \<noteq> None"
    using assms(2) by (simp add: approval_refusal_def Let_def)
  then show ?thesis by (auto simp: submit_approval_def Inr)
qed

text \<open>C22: an answer to an approval is only taken from the principal the execution belongs to, while the execution
  waits for that very approval, and it is taken once: whatever happens afterwards, the same approval of that
  execution is never accepted again.\<close>

theorem approval_answered_once:
  assumes "coordinator_reachable V co"
    "submit_approval V now i approval d owner reasons co = (Inr e, co1)" "coordinator_runs V co1 co2"
    "map_of (co_registry co) i = Some a" "map_of (co_registry co2) i = Some a"
  shows "status_at co a = EXEC_AWAITING_APPROVAL \<and> es_pending_approval_id (state_at co a) = Some approval \<and>
    es_principal_id (state_at co a) = Some owner \<and> py_lower (py_strip d) \<in> {''allow'', ''deny''} \<and>
    \<not> returned (fst (submit_approval V now' i approval d' owner' reasons' co2))"
proof -
  note ok = reachable_ok [OF assms(1)]
  from submit_accepted [OF assms(2)] obtain b where b: "owned co i owner = Inr b"
    "approval_refusal co b approval (py_lower (py_strip d)) = None" by metis
  note o = owned_len [OF ok b(1)]
  have ab: "b = a" using o(2) assms(4) by simp
  note R = submit_resolves [OF ok assms(2,4)]
  have "coordinator_reachable V co1"
    using reachable_step [OF assms(1) step_submit, of now i approval d owner reasons] assms(2) by simp
  then have "advances co1 co2" using coordinator_runs_ok [OF assms(3) reachable_ok] by (simp add: next_ok_def)
  from resolved_advances [OF this R(2)] R(1)
  have "\<not> returned (fst (submit_approval V now' i approval d' owner' reasons' co2))"
    by (intro resolved_refused [OF assms(5)]) blast
  with b(2) o(3) ab show ?thesis
    by (auto simp: approval_refusal_def Let_def status_at_def state_at_def split: if_splits)
qed

theorem approval_answered_once_witness:
  "\<exists>e co1. coordinator_answer ''allow'' = (Inr e, co1) \<and>
     \<not> returned (fst (submit_approval sample_coordinator_env 9 ''run1'' ''t1'' ''allow'' ''anna'' [] co1))"
proof -
  obtain r co1 where s: "coordinator_answer ''allow'' = (r, co1)" by fastforce
  then obtain e where e: "r = Inr e" using sample_answer_facts(1) [of "''allow''"] by (cases r) simp_all
  have "co_registry (snd (coordinator_answer ''allow'')) = [(''run1'', 0)]" by code_simp
  then have reg: "map_of (co_registry co1) ''run1'' = Some 0" by (simp add: s)
  from approval_answered_once [OF sample_reachable(2) _ runs_here sample_paused_facts(3) reg,
      of 0 "''t1''" "''allow''" "''anna''" "[]" e]
  show ?thesis using s e by (auto simp: coordinator_answer_def)
qed


text \<open>An execution that waits for an approval it has already resolved takes no answer at all.\<close>

lemma stuck_refused:
  assumes "coordinator_ok V co" "map_of (co_registry co) i = Some a"
    "t \<in> set (ax_resolved (record_at co a))" "evolves co co'" "es_pending_approval_id (state_at co' a) = Some t"
  shows "\<not> returned (fst (submit_approval V now i approval d owner reasons co'))"
proof (cases "owned co' i owner")
  case (Inl e)
  then show ?thesis by (simp add: submit_approval_def)
next
  case (Inr b)
  have ok: "coordinator_ok V co'" by (rule ok_step_ok [OF evolves_ok [OF assms(1,4)]])
  have "(i, b) \<in> set (co_registry co)"
    using map_of_SomeD [OF owned_len(2) [OF ok Inr]] assms(4) by (auto simp: evolves_def)
  then have ab: "b = a" using assms(1,2) by (simp add: coordinator_ok_def dict_ok_def map_of_eq_Some_iff)
  have "a < length (co_records co)" using map_of_SomeD [OF assms(2)] assms(1) by (auto simp: coordinator_ok_def)
  then have "t \<in> set (ax_resolved (record_at co' a))"
    using assms(3) resolved_advances [OF evolves_advances [OF assms(4)]] by blast
  then have "approval_refusal co' b approval (py_lower (py_strip d)) \<noteq> None"
    using assms(5) ab by (auto simp: approval_refusal_def Let_def state_at_def)
  then show ?thesis by (auto simp: submit_approval_def Inr)
qed

text \<open>C23: an approval is named after its task, so a task that pauses again after it was approved leaves its execution
  waiting for an approval that counts as resolved: it awaits an answer, and every answer is refused.\<close>

theorem repeated_pause_cannot_be_answered:
  assumes "coordinator_reachable V co" "map_of (co_registry co) i = Some a"
    "pl_result p = Some x" "rr_status x = PAUSED" "rr_task_id x \<in> set (ax_resolved (record_at co a))"
    "settle_pipeline V now a p co = (Inr (), co')"
  shows "status_at co' a = EXEC_AWAITING_APPROVAL \<and>
    es_pending_approval_id (state_at co' a) = Some (rr_task_id x) \<and>
    \<not> returned (fst (submit_approval V now' i approval d owner reasons co'))"
proof -
  let ?t = "rr_task_id x"
  note ok = reachable_ok [OF assms(1)]
  have len: "a < length (co_records co)" using map_of_SomeD [OF assms(2)] ok by (auto simp: coordinator_ok_def)
  obtain q co1 where c: "capture_reliability V p a co = (q, co1)" by fastforce
  then have q: "q = Inr ()" "settle_paused V now a ?t co1 = (Inr (), co')"
    using assms(3,4,6) by (cases q; simp add: settle_pipeline_def)+
  have e1: "evolves co co1" using evolves_capture [of co V p a] by (simp add: c)
  let ?co2 = "upd_state a (\<lambda>e. e\<lparr>es_pending_approval_id := Some ?t, es_pending_task_id := Some ?t\<rparr>) co1"
  have len1: "a < length (co_records co1)" using e1 len by (simp add: evolves_def)
  have pend: "es_pending_approval_id (state_at ?co2 a) = Some ?t" by (simp add: state_at_upd_state [OF len1])
  obtain r co3 where tr: "transition_record V now EXEC_AWAITING_APPROVAL None a ?co2 = (r, co3)" by fastforce
  then have r: "r = Inr ()" using q(2) by (cases r) (simp_all add: settle_paused_def)
  have "a < length (co_records ?co2)" using len1 by simp
  from transition_record_state [OF tr [unfolded r] this]
  have st: "transition now EXEC_AWAITING_APPROVAL None (state_at ?co2 a) = Inr (state_at co3 a)" .
  have same: "state_at co' = state_at co3" using q(2) tr r by (auto simp: settle_paused_def Let_def)
  have pend': "es_pending_approval_id (state_at co' a) = Some ?t"
    using transition_pending [OF st] pend same by simp
  have "evolves co co'" using evolves_settle [of co V now a p] assms(6) by simp
  from stuck_refused [OF ok assms(2,5) this pend']
  have "\<not> returned (fst (submit_approval V now' i approval d owner reasons co'))" .
  then show ?thesis using pend' transition_keeps(5) [OF st] same by (simp add: status_at_def)
qed


theorem repeated_pause_cannot_be_answered_witness:
  "\<exists>co'. settle_pipeline sample_coordinator_env 9 0 sample_pause (coordinator_resumed ''allow'') = (Inr (), co') \<and>
     status_at co' 0 = EXEC_AWAITING_APPROVAL \<and>
     \<not> returned (fst (submit_approval sample_coordinator_env 10 ''run1'' ''t1'' ''allow'' ''anna'' [] co'))"
proof -
  let ?V = sample_coordinator_env
  obtain r co' where s: "settle_pipeline ?V 9 0 sample_pause (coordinator_resumed ''allow'') = (r, co')" by fastforce
  have "returned (fst (settle_pipeline ?V 9 0 sample_pause (coordinator_resumed ''allow'')))" by code_simp
  with s have s': "settle_pipeline ?V 9 0 sample_pause (coordinator_resumed ''allow'') = (Inr (), co')"
    by (cases r) simp_all
  have facts: "map_of (co_registry (coordinator_resumed ''allow'')) ''run1'' = Some 0"
    "rr_task_id (bare_result ''t1'' PAUSED None []) \<in> set (ax_resolved (record_at (coordinator_resumed ''allow'') 0))"
    by code_simp+
  from repeated_pause_cannot_be_answered [OF sample_resumed_reachable [of "''allow''", simplified] facts(1) _ _ facts(2) s'] s'
  show ?thesis by (auto simp: sample_pause_def)
qed

text \<open>A denial whose resumed pipeline raises is lost: the table has no way from waiting to failed, so the job ends
  with an exception, the execution still waits, and no answer to its approval is accepted any more.\<close>

theorem failed_denial_is_stuck:
  assumes "coordinator_reachable V co" "map_of (co_registry co) i = Some a"
    "co_jobs co ! j = \<lparr>jb_record = a, jb_kind = ResumeJob ''deny'' reasons, jb_phase = JobRunning\<rparr>"
    "j < length (co_jobs co)" "status_at co a = EXEC_AWAITING_APPROVAL"
    "es_pending_approval_id (state_at co a) = Some t" "t \<in> set (ax_resolved (record_at co a))"
    "end_job V now j (PipelineRaised u) co = (ended, co')"
  shows "(\<exists>msg. ended = EndedRaised msg) \<and> status_at co' a = EXEC_AWAITING_APPROVAL \<and>
    \<not> returned (fst (submit_approval V now' i approval d owner reasons' co'))"
proof -
  note ok = reachable_ok [OF assms(1)]
  let ?co1 = "job_done j co"
  let ?co2 = "upd a (\<lambda>r. r\<lparr>ax_failure := Some u\<rparr>) ?co1"
  have st: "state_at ?co2 = state_at co" by (simp add: job_done_def)
  have notterm: "\<not> terminal_at ?co2 a" using assms(5) st by (simp add: terminal_at_def es_terminal_def status_at_def)
  obtain msg where refused: "transition now EXEC_FAILED (Some u) (state_at ?co2 a) = Inl msg"
    using assms(5) st by (auto simp: transition_def status_at_def es_terminal_def)
  have "end_job V now j (PipelineRaised u) co = (EndedRaised msg, ?co2)"
    using notterm transition_record_refused [OF refused]
    by (simp add: end_job_def assms(3) holds_permit_def finish_record_def finish_resume_def handle_raised_def end_as_def)
  then have e: "ended = EndedRaised msg" "co' = ?co2" using assms(8) by simp_all
  have "holds_permit (co_jobs co ! j) = False" by (simp add: assms(3) holds_permit_def)
  with done_ok [OF ok assms(4)] have ok1: "coordinator_ok V ?co1" by (simp add: ok_step_def)
  have same: "record_at ?co1 = record_at co" "co_registry ?co1 = co_registry co"
    by (simp_all add: job_done_def upd_job_def record_at_def fun_eq_iff)
  have "evolves ?co1 ?co2" by (rule evolves_upd_keeps) simp_all
  from stuck_refused [OF ok1 _ _ this, of i a t]
  have "\<not> returned (fst (submit_approval V now' i approval d owner reasons' co'))"
    using assms(2,6,7) st e(2) same by simp
  with e st assms(5) show ?thesis by (simp add: status_at_def)
qed

theorem failed_denial_is_stuck_witness:
  "\<exists>ended co'. end_job sample_coordinator_env 9 1 (PipelineRaised ''expired'') (coordinator_resumed ''deny'') = (ended, co') \<and>
     status_at co' 0 = EXEC_AWAITING_APPROVAL"
proof -
  let ?V = sample_coordinator_env
  obtain ended co' where s: "end_job ?V 9 1 (PipelineRaised ''expired'') (coordinator_resumed ''deny'') = (ended, co')"
    by fastforce
  have facts: "map_of (co_registry (coordinator_resumed ''deny'')) ''run1'' = Some 0"
    "co_jobs (coordinator_resumed ''deny'') ! 1 =
       \<lparr>jb_record = 0, jb_kind = ResumeJob ''deny'' [], jb_phase = JobRunning\<rparr>"
    "1 < length (co_jobs (coordinator_resumed ''deny''))"
    "status_at (coordinator_resumed ''deny'') 0 = EXEC_AWAITING_APPROVAL"
    "es_pending_approval_id (state_at (coordinator_resumed ''deny'') 0) = Some ''t1''"
    "''t1'' \<in> set (ax_resolved (record_at (coordinator_resumed ''deny'') 0))"
    by code_simp+
  from failed_denial_is_stuck [OF sample_resumed_reachable [of "''deny''", simplified] facts s] s show ?thesis by blast
qed


section \<open>Checkpoints\<close>

text \<open>C24: seen from outside, a keyed and indexed store is a map from executions to the checkpoint last accepted: every
  sequence of saves, loads, deletions and restarts is answered as the map answers it, whatever the cache has
  dropped, and leaves what the map holds. A save is accepted when its generation is new and no key names a secret.\<close>

theorem checkpoint_store_refines_map:
  assumes "authentic E" "list_all (op_storable E) ops"
  shows "fst (store_run E ops fresh_store) = fst (map_run E ops Map.empty) \<and>
    checkpoint_map E (snd (store_run E ops fresh_store)) = snd (map_run E ops Map.empty)"
  using store_run_refines [OF fresh_store_ok assms] by (simp add: fresh_store_map)

theorem checkpoint_store_refines_map_witness:
  "fst (store_run sample_env [SaveOp 0 (sample_checkpoint 1), SaveOp 0 (sample_checkpoint 2), ReopenOp,
      SaveOp 0 (sample_checkpoint 1), LoadOp False ''run1''] fresh_store) =
   [Done, Done, Done, Refused, Found (Some (kept_checkpoint 2))]"
proof -
  let ?ops = "[SaveOp 0 (sample_checkpoint 1), SaveOp 0 (sample_checkpoint 2), ReopenOp,
      SaveOp 0 (sample_checkpoint 1), LoadOp False ''run1'']"
  have id: "cp_execution_id (sample_checkpoint g) = ''run1''" "cp_generation (sample_checkpoint g) = g" for g
    by (simp_all add: sample_checkpoint_def)
  have "path_ok ''run1''" by code_simp
  then have "fst (map_run sample_env ?ops Map.empty) = [Done, Done, Done, Refused, Found (Some (kept_checkpoint 2))]"
    using sample_no_secret by (simp add: sample_sealed id Let_def del: contains_secret_key.simps)
  moreover have "list_all (op_storable sample_env) ?ops" using sample_storable by simp
  ultimately show ?thesis using checkpoint_store_refines_map [OF sample_authentic(1)] by metis
qed

text \<open>C25: whatever is done to the files behind the store's back, short of the index and the key, a load from disk
  gives nothing when the file of the execution is gone, and otherwise the checkpoint that was saved last or an error:
  never an older one or an altered one. A file that is a JSON object has distinct keys and well-formed numbers,
  as every text that json.loads accepts.\<close>

theorem tampered_checkpoint_refused:
  assumes "authentic E" "inj (ce_hmac E (the_key E))" "storable E now c"
    "json_ok (JObj (checkpoint_dump (sealed_checkpoint E now c)))"
    "save_recovery E now c s = (Inr (), s1)" "cs_entries t = cs_entries s1"
    "\<And>fs. map_of (cs_files t) (cp_execution_id c) = Some (JsonFile (JObj fs)) \<Longrightarrow> dict_ok fs \<and> json_ok (JObj fs)"
  shows "if map_of (cs_files t) (cp_execution_id c) = None
    then fst (load_checkpoint E True (cp_execution_id c) t) = Inr None
    else (\<exists>e. fst (load_checkpoint E True (cp_execution_id c) t) = Inl e) \<or>
      fst (load_checkpoint E True (cp_execution_id c) t) = Inr (Some (Recovery (sealed_checkpoint E now c)))"
proof -
  let ?c = "sealed_checkpoint E now c" and ?i = "cp_execution_id c"
  have v: "cp_schema_version c = CHECKPOINT_SCHEMA_VERSION" "path_error E ?i = None"
    using assms(3) authenticD(1) [OF assms(1)] by (simp_all add: storable_def path_error_def)
  from assms(5) have ns: "\<not> contains_secret_key (JObj (checkpoint_dump ?c))"
    by (auto simp: save_recovery_def Let_def v simp del: contains_secret_key.simps split: if_splits)
  from assms(5) have "s1 = prune_cached_terminal E ?i (write_checkpoint_index E ?c (write_checkpoint_file ?c
      (s\<lparr>cs_cache := AList.update ?i (Recovery ?c) (cs_cache s)\<rparr>)))"
    using authenticD(1) [OF assms(1)]
    by (auto simp: save_recovery_def Let_def v simp del: contains_secret_key.simps split: if_splits)
  then have entry: "map_of (cs_entries t) ?i = Some (entry_of ?c)"
    using authenticD(2) [OF assms(1)]
    by (simp add: assms(6) write_checkpoint_index_def write_checkpoint_file_def save_integrity_index_def entry_of_def)
  show ?thesis
  proof (cases "map_of (cs_files t) ?i")
    case None
    then show ?thesis using authenticD(1) [OF assms(1)] by (simp add: load_checkpoint_def v)
  next
    case (Some f)
    have "d = ?c" if d: "read_checkpoint E (cs_entries t) ?i f = Inr d" for d
    proof -
      from d obtain fs where fs: "f = JsonFile (JObj fs)"
        by (auto simp: read_checkpoint_def json_object_def split: checkpoint_file.splits json.splits option.splits)
      from read_genuine [OF assms(1,2) well_sealed_sealed [OF assms(1,3) ns] entry sealed_simps(3) _ _ assms(4) d [unfolded fs]]
        assms(7) [OF Some [unfolded fs]] show ?thesis by blast
    qed
    then show ?thesis
      using Some authenticD(1) [OF assms(1)] by (auto simp: load_checkpoint_def v split: sum.split)
  qed
qed

theorem tampered_checkpoint_refused_witness:
  "\<exists>t'. load_checkpoint sample_env True ''run1'' sample_saved = (Inr (Some (Recovery (kept_checkpoint 1))), t')"
proof -
  have id: "cp_execution_id (sample_checkpoint 1) = ''run1''" by (simp add: sample_checkpoint_def)
  obtain r t' where l: "load_checkpoint sample_env True ''run1'' sample_saved = (r, t')" by fastforce
  have path: "path_ok ''run1''" by code_simp
  from load_kept [OF sample_save(2) sample_authentic(1) l] path sample_save(3)
  have r: "r = Inr (Some (Recovery (kept_checkpoint 1)))" by simp
  from sample_kept have disk: "map_of (cs_files sample_saved) ''run1'' = Some (JsonFile (JObj (stored_fields (kept_checkpoint 1))))"
    by (simp add: kept_def)
  have "dict_ok (stored_fields (kept_checkpoint 1))" "json_ok (JObj (stored_fields (kept_checkpoint 1)))"
    using canonical_fields_ok [OF checkpoint_dump_ok] json_ok_sort_fields [OF sample_json_ok [of 1]]
    by (simp_all add: stored_fields_def canonical_fields_JObj del: json_ok.simps sort_fields.simps)
  with tampered_checkpoint_refused [OF sample_authentic sample_storable [of 1] _ sample_save(1) refl,
      unfolded sample_sealed id, OF _ sample_json_ok] disk l r
  show ?thesis by auto
qed

text \<open>A save writes the file and then the index; a crash between the two leaves a file the index does not know,
  so after the restart neither the new checkpoint nor the one before it can be loaded.\<close>

theorem crash_between_writes_loses_checkpoint:
  assumes "authentic E" "store_ok E s" "storable E now c" "save_recovery E now c s = (Inr (), s1)"
  shows "case open_store E (cs_files (write_checkpoint_file (sealed_checkpoint E now c) s)) (cs_index s) of
      Inl e \<Rightarrow> cs_entries s = []
    | Inr t \<Rightarrow> \<exists>e. load_checkpoint E False (cp_execution_id c) t = (Inl e, t)"
proof -
  let ?c = "sealed_checkpoint E now c" and ?i = "cp_execution_id c"
  let ?files = "cs_files (write_checkpoint_file ?c s)"
  have v: "cp_schema_version c = CHECKPOINT_SCHEMA_VERSION" "path_error E ?i = None" "path_ok ?i"
    using assms(3) authenticD(1) [OF assms(1)] by (simp_all add: storable_def path_error_def)
  have ns: "\<not> contains_secret_key (JObj (checkpoint_dump ?c))" and fresh: "\<not> stale_generation ?c s"
    using assms(4)
    by (auto simp: save_recovery_def Let_def v simp del: contains_secret_key.simps split: if_splits)
  obtain e where e: "read_checkpoint E (cs_entries s) ?i (JsonFile (JObj (stored_fields ?c))) = Inl e"
    using unindexed_refused [OF assms(1,2) well_sealed_sealed [OF assms(1,3) ns] fresh] by auto
  have written: "map_of ?files ?i = Some (JsonFile (JObj (stored_fields ?c)))" "?files \<noteq> []"
    using map_of_SomeD by (force simp: write_checkpoint_file_def canonical_fields_JObj stored_fields_def
        simp del: sort_fields.simps)+
  consider "cs_index s = cs_index (save_integrity_index E s)" | "cs_index s = IndexMissing" "cs_entries s = []"
    using store_okD(1) [OF assms(2)] by (auto simp: index_current_def)
  then show ?thesis
  proof cases
    case 1
    then have "open_store E ?files (cs_index s) =
        Inr \<lparr>cs_cache = [], cs_entries = cs_entries s, cs_files = ?files, cs_index = cs_index s\<rparr>"
      using authenticD(2,3,4,6) [OF assms(1)]
      by (simp add: open_store_def load_integrity_index_def save_integrity_index_def split: option.splits)
    then show ?thesis using e authenticD(1) [OF assms(1)] by (simp add: load_checkpoint_def v written(1))
  next
    case 2
    then show ?thesis
      using written(2) authenticD(1-4) [OF assms(1)]
      by (simp add: open_store_def load_integrity_index_def split: option.splits)
  qed
qed

theorem crash_between_writes_loses_checkpoint_witness:
  "\<exists>t e. open_store sample_env (cs_files (write_checkpoint_file (kept_checkpoint 2) sample_saved)) (cs_index sample_saved) = Inr t \<and>
     load_checkpoint sample_env False ''run1'' t = (Inl e, t)"
proof -
  have id: "cp_execution_id (sample_checkpoint g) = ''run1''" for g by (simp add: sample_checkpoint_def)
  obtain r s2 where s: "save_recovery sample_env 0 (sample_checkpoint 2) sample_saved = (r, s2)" by fastforce
  have "map_step sample_env (SaveOp 0 (sample_checkpoint 2)) (checkpoint_map sample_env sample_saved) =
      (Done, [''run1'' \<mapsto> kept_checkpoint 2])"
    using sample_no_secret [of 2] sample_save(3)
    by (simp add: sample_sealed Let_def del: contains_secret_key.simps) (simp add: sample_checkpoint_def)
  with save_refines [OF sample_save(2) sample_authentic(1) sample_storable [of 2]] s
  have "unit_answer r = Done" by (simp add: save_checkpoint_def)
  then have ok: "save_recovery sample_env 0 (sample_checkpoint 2) sample_saved = (Inr (), s2)"
    using s by (cases r) (simp_all add: unit_answer_def)
  have "cs_entries sample_saved \<noteq> []" using sample_kept by (auto simp: kept_def)
  with crash_between_writes_loses_checkpoint [OF sample_authentic(1) sample_save(2) sample_storable [of 2] ok,
      unfolded sample_sealed id]
  show ?thesis by (auto split: sum.splits)
qed


section \<open>Recovery\<close>

lemma list_checkpoints_kept:
  assumes "store_ok E s" "authentic E"
  shows "\<exists>snaps s'. list_checkpoints E s = (Inr snaps, s') \<and>
    (\<forall>c. Recovery c \<in> set snaps \<longrightarrow> checkpoint_map E s (cp_execution_id c) = Some c)"
proof -
  obtain r s' where l: "list_from E (checkpoint_ids E s) s = (r, s')" by fastforce
  note L = list_from_kept [OF assms l]
  have own: "cp_execution_id c = i" if "checkpoint_map E s i = Some c" for i c
    using map_of_unkept(4) [OF assms(1), of i] map_of_kept [OF assms(2), of s i] that by (fastforce simp: kept_def)
  show ?thesis
    using L l own by (auto simp: list_checkpoints_def map_filter_def split: if_splits)
qed

text \<open>C26: a restarted coordinator knows an execution only from the checkpoint its store holds for it, with the
  approvals resolved and the operations completed by then; an execution that was under way is taken up again only if
  that checkpoint was marked safe, and is failed otherwise, and every other one keeps its status.\<close>

theorem restart_restores_what_was_saved:
  assumes "authentic (cv_store V)" "store_ok (cv_store V) st" "new_coordinator V now (Some st) = Inr co"
    "(i, a) \<in> set (co_registry co)"
  shows "\<exists>c e. checkpoint_map (cv_store V) st i = Some c \<and> cv_load_state V (cp_execution_state c) = Some e \<and>
    ax_resolved (record_at co a) = cp_resolved_approval_ids c \<and>
    ax_results (record_at co a) = cp_operation_results c \<and>
    status_at co a = (if \<not> interrupted (es_status e) then es_status e
      else if cp_recovery_safe c then EXEC_RECOVERING else EXEC_FAILED)"
proof -
  obtain snaps st' where s: "list_checkpoints (cv_store V) st = (Inr snaps, st')"
    "\<forall>c. Recovery c \<in> set snaps \<longrightarrow> checkpoint_map (cv_store V) st (cp_execution_id c) = Some c"
    using list_checkpoints_kept [OF assms(2,1)] by blast
  obtain c where c: "Recovery c \<in> set snaps" "cp_execution_id c = i" "restored_from V now c (record_at co a)"
    using new_coordinator_traced [OF assms(3,4) s(1)] by blast
  obtain r where r: "restored_record V c = Some r" using c(3) by (auto simp: restored_from_def)
  have e: "cv_load_state V (cp_execution_state c) = Some (ax_state r)" using restored_fields [OF r] by simp
  have "ax_resolved (record_at co a) = cp_resolved_approval_ids c"
    "ax_results (record_at co a) = cp_operation_results c" using c(3) by (auto simp: restored_from_def)
  with s(2) c(1,2) e restored_status [OF c(3) e] show ?thesis by (auto simp: status_at_def state_at_def)
qed

theorem restart_restores_what_was_saved_witness:
  "\<exists>co. new_coordinator (loading_env sample_env) 5 (Some sample_saved) = Inr co \<and> status_at co 0 = EXEC_FAILED"
proof -
  obtain co where co: "new_coordinator (loading_env sample_env) 5 (Some sample_saved) = Inr co"
    "(''run1'', 0) \<in> set (co_registry co)" using sample_restart by blast
  have "authentic (cv_store (loading_env sample_env))" "store_ok (cv_store (loading_env sample_env)) sample_saved"
    using sample_authentic(1) sample_save(2) by simp_all
  from restart_restores_what_was_saved [OF this co]
  have "status_at co 0 = EXEC_FAILED"
    using sample_save(3) by (auto simp: interrupted_run_def new_execution_state_def interrupted_def
        kept_checkpoint_def sample_checkpoint_def)
  with co show ?thesis by blast
qed

text \<open>The mark of a checkpoint speaks for its last operation only: while a mutation is under way, the checkpoint
  another task takes as it starts marks the execution safe, though the mutation is still recorded as started and
  has no result; a restart from it takes the execution up again, mutation included.\<close>

theorem later_checkpoint_hides_mutation:
  assumes "a < length (co_records co)" "op \<noteq> []" "op' \<noteq> []" "op \<noteq> op'"
    "runtime_checkpoint V now a None task (Some op) (Some ''started'') n None False co = (Inr u, co1)"
    "runtime_checkpoint V now' a None task' (Some op') (Some out) n' None True co1 = (Inr v, co2)"
    "c = record_checkpoint V now' True (record_at co2 a)"
    "restored_record V c = Some r" "es_status (ax_state r) = EXEC_RUNNING"
  shows "map_of (cp_operation_outcomes c) op = Some ''started'' \<and>
    map_of (cp_operation_results c) op = map_of (ax_results (record_at co a)) op \<and>
    (\<exists>r'. mark_recovered V now'' (cp_recovery_safe c) r = Inr r' \<and> es_status (ax_state r') = EXEC_RECOVERING)"
proof -
  have save: "ax_outcomes (record_at (save_record V t safe a x) b) = ax_outcomes (record_at x b)"
    "ax_results (record_at (save_record V t safe a x) b) = ax_results (record_at x b)" for t safe x b
    by (simp_all add: save_record_fields)
  obtain y ys where op: "op = y # ys" using assms(2) by (cases op) auto
  obtain z zs where op': "op' = z # zs" using assms(3) by (cases op') auto
  have len1: "a < length (co_records co1)"
    using evolves_checkpoint [of co V now a None task "Some op" "Some ''started''" n None False] assms(1,5)
    by (simp add: evolves_def)
  have one: "map_of (ax_outcomes (record_at co1 a)) op = Some ''started''"
    "ax_results (record_at co1 a) = ax_results (record_at co a)"
    using assms(1,5) by (auto simp: runtime_checkpoint_def Let_def save record_at_upd op split: option.splits list.splits)
  have two: "map_of (ax_outcomes (record_at co2 a)) op = Some ''started''"
    "ax_results (record_at co2 a) = ax_results (record_at co1 a)"
    using assms(4,6) len1 one
    by (auto simp: runtime_checkpoint_def Let_def save record_at_upd op op' split: option.splits list.splits)
  have "\<exists>r'. mark_recovered V now'' True r = Inr r' \<and> es_status (ax_state r') = EXEC_RECOVERING"
    using assms(9) by (simp add: mark_recovered_def Let_def interrupted_def es_terminal_def transition_def)
  with one two show ?thesis by (simp add: assms(7) record_checkpoint_def)
qed


theorem later_checkpoint_hides_mutation_witness:
  "\<exists>c :: recovery_checkpoint. map_of (cp_operation_outcomes c) ''pay'' = Some ''started'' \<and> cp_recovery_safe c"
proof -
  let ?V = "loading_env (sample_store_env [])" and ?co = coordinator_running
  obtain q co1 where one: "runtime_checkpoint ?V 1 0 None (Some ''t1'') (Some ''pay'') (Some ''started'') (Some 1) None
      False ?co = (q, co1)" by fastforce
  obtain q' co2 where two: "runtime_checkpoint ?V 2 0 None (Some ''t2'') (Some ''read'') (Some ''started'') (Some 1) None
      True co1 = (q', co2)" by fastforce
  have q: "q = Inr ()" "q' = Inr ()" using one two by (auto simp: runtime_checkpoint_def)
  let ?c = "record_checkpoint ?V 2 True (record_at co2 0)"
  have "es_execution_id (state_at ?co 0) = ''run1''" "0 < length (co_records ?co)" by code_simp+
  moreover from this have "es_execution_id (state_at co2 0) = es_execution_id (state_at ?co 0)"
    using evolves_identity [OF evolves_then [OF evolves_checkpoint evolves_checkpoint], of 0 ?co] one two by (metis snd_conv)
  ultimately have id: "cp_execution_id ?c = ''run1''" by (simp add: record_checkpoint_def state_at_def)
  have "ax_pipeline (record_at (snd (runtime_checkpoint ?V 2 0 None (Some ''t2'') (Some ''read'') (Some ''started'') (Some 1)
      None True (snd (runtime_checkpoint ?V 1 0 None (Some ''t1'') (Some ''pay'') (Some ''started'') (Some 1) None
      False ?co)))) 0) = None" by code_simp
  then have pipe: "cp_pipeline_state ?c = None" by (simp add: one two record_checkpoint_def)
  obtain r where r: "restored_record ?V ?c = Some r" "ax_state r = interrupted_run"
    using id pipe by (simp add: restored_record_def interrupted_run_def new_execution_state_def)
  then have run: "es_status (ax_state r) = EXEC_RUNNING" by (simp add: interrupted_run_def)
  from later_checkpoint_hides_mutation [OF \<open>0 < length (co_records ?co)\<close> _ _ _ one [unfolded q] two [unfolded q] refl r(1) run]
  have "map_of (cp_operation_outcomes ?c) ''pay'' = Some ''started''" by simp
  moreover have "cp_recovery_safe ?c" by (simp add: record_checkpoint_def)
  ultimately show ?thesis by blast
qed

end
