(* ===== verification/Oversight.thy ===== *)
theory Oversight
  imports Sample_World
begin

text \<open>
  What the governance engine guarantees of its histories and of its decisions. The states meant
  are those its operations lead to from an engine as it is constructed, over logs that are empty
  or were filled before, with or without durable tables.
\<close>

section \<open>Histories\<close>

text \<open>C27: whatever operations an engine performs over a record store and an audit trail that verify (empty ones
  among them), its record chain and its audit chain verify, no two records share an id, and every evaluation has
  been counted under exactly one decision.\<close>

theorem governed_histories_verify:
  "{st. \<exists>recs log. record_store_ok (sha256 (ge_crypto G)) recs \<and> audit_log_ok (ge_show G) (sha256 (ge_crypto G)) log \<and>
          (governance_step G)\<^sup>*\<^sup>* (governance_init [] dflt recs log) st} \<subseteq>
   {st. verify_records (sha256 (ge_crypto G)) (gs_records st) \<and>
        verify_audit (ge_show G) (sha256 (ge_crypto G)) (gs_audit st) \<and>
        distinct (map er_record_id (rs_records (gs_records st))) \<and>
        gm_evaluations (gs_metrics st) =
          gm_allow (gs_metrics st) + gm_ask_user (gs_metrics st) + gm_deny (gs_metrics st)}"
proof
  fix st
  assume "st \<in> {st. \<exists>recs log. record_store_ok (sha256 (ge_crypto G)) recs \<and>
          audit_log_ok (ge_show G) (sha256 (ge_crypto G)) log \<and>
          (governance_step G)\<^sup>*\<^sup>* (governance_init [] dflt recs log) st}"
  then have "governance_ok G st" using governance_steps_ok governance_init_stores_ok by blast
  then show "st \<in> {st. verify_records (sha256 (ge_crypto G)) (gs_records st) \<and>
        verify_audit (ge_show G) (sha256 (ge_crypto G)) (gs_audit st) \<and>
        distinct (map er_record_id (rs_records (gs_records st))) \<and>
        gm_evaluations (gs_metrics st) =
          gm_allow (gs_metrics st) + gm_ask_user (gs_metrics st) + gm_deny (gs_metrics st)}"
    by (simp add: governance_ok_def record_store_ok_def audit_log_ok_def metrics_ok_def)
qed

text \<open>C28: the histories are append-only: from any state, every sequence of operations leaves what was
  recorded and audited as a prefix of what is recorded and audited after it.\<close>

theorem histories_are_append_only:
  "(governance_step G)\<^sup>*\<^sup>* \<le>
     (\<lambda>st st'. prefix (rs_records (gs_records st)) (rs_records (gs_records st')) \<and>
               prefix (al_entries (gs_audit st)) (al_entries (gs_audit st')))"
proof (intro predicate2I)
  fix st st'
  assume "(governance_step G)\<^sup>*\<^sup>* st st'"
  then have "extends_logs st st'"
    by (induction rule: rtranclp_induct) (auto intro: extends_logs_trans governance_step_extends)
  then show "prefix (rs_records (gs_records st)) (rs_records (gs_records st')) \<and>
      prefix (al_entries (gs_audit st)) (al_entries (gs_audit st'))"
    by (simp add: extends_logs_def)
qed

lemma er_status_content: "er_status (record_content r) = er_status r" "er_status (seal_record H p r) = er_status r"
  by (simp_all add: record_content_def seal_record_def)

lemma sample_records: "map er_status (rs_records (tie_store H)) = [STATUS_EXECUTED, STATUS_EXECUTED]"
  by (simp add: tie_store_def Let_def append_record_def empty_record_store_def dict_has_def
      er_status_content)

text \<open>C29: a record of a verified chain cannot be rewritten in place: if anything it says is changed and
  its stored hash is kept, the chain no longer verifies.\<close>

theorem rewritten_record_detected:
  assumes "good_hash H" "verify_records H st" "i < length (rs_records st)"
    and "er_hash r = er_hash (rs_records st ! i)" "record_content r \<noteq> record_content (rs_records st ! i)"
  shows "\<not> verify_records H (st\<lparr>rs_records := (rs_records st)[i := r]\<rparr>)"
  using record_chain.chain_tamper [OF assms(1) _ assms(3,4)] assms(2,5)
  by (simp add: verify_records_def)

theorem rewritten_record_detected_witness:
  "\<not> verify_records sample_hash ((tie_store sample_hash)\<lparr>rs_records :=
      (rs_records (tie_store sample_hash))[0 := (rs_records (tie_store sample_hash) ! 0)\<lparr>er_status := STATUS_FAILED\<rparr>]\<rparr>)"
proof (rule rewritten_record_detected)
  show "good_hash sample_hash" using sample_good_hash by (simp add: sample_crypto_def)
  show "verify_records sample_hash (tie_store sample_hash)" using tie_store_ok by (simp add: record_store_ok_def)
  show "0 < length (rs_records (tie_store sample_hash))"
    using sample_records [of sample_hash] by (metis length_greater_0_conv list.map_disc_iff list.discI)
  have "er_status (rs_records (tie_store sample_hash) ! 0) = STATUS_EXECUTED"
    using sample_records [of sample_hash] by (cases "rs_records (tie_store sample_hash)") auto
  then have "er_status (record_content ((rs_records (tie_store sample_hash) ! 0)\<lparr>er_status := STATUS_FAILED\<rparr>))
      \<noteq> er_status (record_content (rs_records (tie_store sample_hash) ! 0))"
    by (simp only: er_status_content) simp
  then show "record_content ((rs_records (tie_store sample_hash) ! 0)\<lparr>er_status := STATUS_FAILED\<rparr>)
      \<noteq> record_content (rs_records (tie_store sample_hash) ! 0)" by metis
qed simp

text \<open>The head of the audit chain binds the whole trail: two verified trails with the same head hash
  list the same entries, detail by detail.\<close>

theorem audit_head_binds_trail:
  assumes "good_hash H" "verify_audit show H a" "verify_audit show H b"
    and "\<forall>e\<in>set (al_entries a) \<union> set (al_entries b). audit_ok show e"
    and "head_hash ae_hash (al_entries a) = head_hash ae_hash (al_entries b)"
  shows "map (audit_content show) (al_entries a) = map (audit_content show) (al_entries b)"
  by (rule audit_chain.chain_head_binds [OF assms(1) assms(2,3) [unfolded verify_audit_def] assms(4,5)])

definition sample_trail :: "string \<Rightarrow> audit_log" where
  "sample_trail key = snd (audit_record sample_show sample_hash ''t'' ''c'' ''a'' ''s'' ''r'' [(key, PInt 1)]
     (empty_audit_log (Some [])))"

theorem audit_head_binds_trail_witness:
  "map (audit_content sample_show) (al_entries (sample_trail ''k'')) =
   map (audit_content sample_show) (al_entries ((sample_trail ''k'')\<lparr>al_seq := 7, al_backing := None\<rparr>))"
proof (rule audit_head_binds_trail [of sample_hash])
  show "good_hash sample_hash" using sample_good_hash by (simp add: sample_crypto_def)
  have "audit_log_ok sample_show sample_hash (sample_trail ''k'')"
    unfolding sample_trail_def
    by (rule audit_record_ok) (rule empty_log_ok)
  then show v: "verify_audit sample_show sample_hash (sample_trail ''k'')" by (simp add: audit_log_ok_def)
  then show "verify_audit sample_show sample_hash ((sample_trail ''k'')\<lparr>al_seq := 7, al_backing := None\<rparr>)"
    by (simp add: verify_audit_def)
qed (simp_all add: sample_trail_def audit_record_parts(1) empty_audit_log_def audit_ok_def)

text \<open>C30: a history in durable tables, not empty, whose records carry strictly increasing times, whose audit clock
  did not run backwards and whose details are made of texts, numbers, sequences, dictionaries and enumerations
  (no times, models or other objects), is read back from the rows of its tables: the
  records, their index and their chain as they were; the entries of the audit trail in their order, with the
  counter, each with the details that its JSON form is read back as (tuples as lists, enumerations as their
  texts), so that they say and hash the same and the chain verifies. An engine constructed over the two is the
  one before, with its counters at zero.\<close>

theorem histories_survive_reload:
  assumes "governance_ok G st" "rs_backing (gs_records st) \<noteq> None" "al_backing (gs_audit st) \<noteq> None"
    and "rs_records (gs_records st) \<noteq> []" "al_entries (gs_audit st) \<noteq> []"
    and "sorted (map er_recorded_at (rs_records (gs_records st)))"
    and "distinct (map er_recorded_at (rs_records (gs_records st)))"
    and "sorted (map ae_recorded_at (al_entries (gs_audit st)))"
    and "\<forall>e\<in>set (al_entries (gs_audit st)). serialisable (PDict (ae_details e))"
  shows "load_record_store (rs_backing (gs_records st)) = Inr (gs_records st) \<and>
    (\<exists>log. load_audit_log (al_backing (gs_audit st)) = Inr log \<and>
       log = (gs_audit st)\<lparr>al_entries := map (reloaded_entry (ge_show G)) (al_entries (gs_audit st))\<rparr> \<and>
       map (audit_content (ge_show G)) (al_entries log) = map (audit_content (ge_show G)) (al_entries (gs_audit st)) \<and>
       verify_audit (ge_show G) (sha256 (ge_crypto G)) log \<and>
       governance_init (gs_registry st) (gs_default st) (gs_records st) log
         = st\<lparr>gs_audit := log, gs_metrics := zero_metrics\<rparr>)"
proof -
  from assms(1) have ok: "record_store_ok (sha256 (ge_crypto G)) (gs_records st)"
    "audit_log_ok (ge_show G) (sha256 (ge_crypto G)) (gs_audit st)" by (simp_all add: governance_ok_def)
  let ?log = "(gs_audit st)\<lparr>al_entries := map (reloaded_entry (ge_show G)) (al_entries (gs_audit st))\<rparr>"
  have "verify_audit (ge_show G) (sha256 (ge_crypto G)) ?log"
    using ok(2) by (simp add: audit_log_ok_def verify_audit_def reloaded_chain)
  moreover have "governance_init (gs_registry st) (gs_default st) (gs_records st) ?log
      = st\<lparr>gs_audit := ?log, gs_metrics := zero_metrics\<rparr>"
    using assms(4,5) by (simp add: governance_init_def)
  ultimately show ?thesis
    using reload_records [OF ok(1) assms(2,6,7)] reload_audit [OF ok(2) assms(3,8,9)]
    by (simp add: reloaded_content)
qed

definition sample_governance :: governance_env where
  "sample_governance = \<lparr>ge_crypto = sample_crypto, ge_key = ''k'', ge_show = sample_show\<rparr>"

definition seed_record :: execution_record where
  "seed_record = build_execution_record sample_hash ''t1'' ''n'' ''r1'' ''t1'' TARGET_TOOL ''notes'' ''ALLOW'' ''LOW''
     STATUS_EXECUTED [''read''] None None None None"

definition seed_details :: "(string, pyval) dict" where
  "seed_details = [(''granted'', PTuple [PEnum ''read'', PFloat ''nan''])]"

definition seeded_engine :: governance_state where
  "seeded_engine = governance_init [] None
     (snd (append_record sample_hash seed_record (empty_record_store (Some []))))
     (snd (audit_record sample_show sample_hash ''t1'' ''c'' ''a'' ''s'' ''r'' seed_details (empty_audit_log (Some []))))"

lemma seeded_records:
  "rs_records (snd (append_record H r (empty_record_store (Some [])))) = [seal_record H [] r]"
  "rs_backing (snd (append_record H r (empty_record_store (Some [])))) = Some [(er_record_id r, record_row (seal_record H [] r))]"
  by (simp_all add: append_record_def empty_record_store_def dict_has_def head_hash_def Let_def)

lemma seeded_parts:
  "rs_records (gs_records seeded_engine) = [seal_record sample_hash [] seed_record]"
  "rs_backing (gs_records seeded_engine) \<noteq> None" "al_backing (gs_audit seeded_engine) \<noteq> None"
  "map ae_details (al_entries (gs_audit seeded_engine)) = [seed_details]"
  by (simp_all add: seeded_engine_def governance_init_def seeded_records audit_record_parts empty_audit_log_def)

lemma seeded_ok: "governance_ok sample_governance seeded_engine"
  unfolding seeded_engine_def
  by (rule governance_init_stores_ok)
    (simp_all add: sample_governance_def sample_crypto_def append_record_ok audit_record_ok empty_store_ok empty_log_ok)

theorem histories_survive_reload_witness:
  "load_record_store (rs_backing (gs_records seeded_engine)) = Inr (gs_records seeded_engine) \<and>
   (\<exists>log. load_audit_log (al_backing (gs_audit seeded_engine)) = Inr log \<and>
      map ae_details (al_entries log) = [[(''granted'', PList [PStr ''read'', PFloat ''nan''])]] \<and>
      verify_audit sample_show (sha256 sample_crypto) log)"
proof -
  obtain e where e: "al_entries (gs_audit seeded_engine) = [e]" "ae_details e = seed_details"
    using seeded_parts(4) by (cases "al_entries (gs_audit seeded_engine)") auto
  have plain: "\<forall>x\<in>set (al_entries (gs_audit seeded_engine)). serialisable (PDict (ae_details x))"
    unfolding e(1) by (simp add: e(2) seed_details_def)
  have "ae_details (reloaded_entry sample_show e) = [(''granted'', PList [PStr ''read'', PFloat ''nan''])]"
    by (simp add: reloaded_entry_def e(2) seed_details_def py_fields_def json_float_def float_of_json_def)
  moreover have "load_record_store (rs_backing (gs_records seeded_engine)) = Inr (gs_records seeded_engine) \<and>
    (\<exists>log. load_audit_log (al_backing (gs_audit seeded_engine)) = Inr log \<and>
       log = (gs_audit seeded_engine)\<lparr>al_entries :=
         map (reloaded_entry (ge_show sample_governance)) (al_entries (gs_audit seeded_engine))\<rparr> \<and>
       map (audit_content (ge_show sample_governance)) (al_entries log) =
         map (audit_content (ge_show sample_governance)) (al_entries (gs_audit seeded_engine)) \<and>
       verify_audit (ge_show sample_governance) (sha256 (ge_crypto sample_governance)) log \<and>
       governance_init (gs_registry seeded_engine) (gs_default seeded_engine) (gs_records seeded_engine) log
         = seeded_engine\<lparr>gs_audit := log, gs_metrics := zero_metrics\<rparr>)"
    by (rule histories_survive_reload [OF seeded_ok seeded_parts(2,3) _ _ _ _ _ plain])
      (simp_all add: seeded_parts(1) e(1))
  ultimately show ?thesis by (auto simp: sample_governance_def e(1))
qed

text \<open>Two records of the same instant whose ids are not in the order they were recorded come back in the
  other order, and the engine then rejects the history it wrote itself.\<close>

theorem same_instant_breaks_reload:
  assumes "good_hash H"
  shows "record_store_ok H (tie_store H) \<and>
    (\<exists>st. load_record_store (rs_backing (tie_store H)) = Inr st \<and> \<not> verify_records H st)"
  using tie_store_ok tie_store_reload(2) [OF assms] by blast

theorem same_instant_breaks_reload_witness:
  "record_store_ok sample_hash (tie_store sample_hash) \<and>
   (\<exists>st. load_record_store (rs_backing (tie_store sample_hash)) = Inr st \<and> \<not> verify_records sample_hash st)"
  by (rule same_instant_breaks_reload) (use sample_good_hash in \<open>simp add: sample_crypto_def\<close>)

text \<open>Tables that are empty when the engine is constructed are never written: the constructor drops them, and no
  operation brings them back, so that nothing the engine records outlives it.\<close>

theorem empty_tables_are_dropped:
  assumes "(governance_step G)\<^sup>*\<^sup>* (fresh_engine durable dflt) st"
  shows "rs_backing (gs_records st) = None \<and> al_backing (gs_audit st) = None"
  using assms
proof (induction rule: rtranclp_induct)
  case base
  show ?case by (simp add: fresh_engine_def governance_init_def empty_record_store_def empty_audit_log_def Let_def)
next
  case (step st st')
  then show ?case using governance_step_tables [OF step(2)] by simp
qed

theorem empty_tables_are_dropped_witness:
  "rs_backing (gs_records (snd (blocked_payload sample_governance ''t'' (violation_of ''c'' ''m''
     (decide_subject sample_governance (Aware 0 0) (fresh_engine True None) TARGET_TOOL ''notes'' [TOOL_READ] [] None None
        False None)) (fresh_engine True None)))) = None"
  by (rule empty_tables_are_dropped [where durable = True and dflt = None, THEN conjunct1])
    (rule r_into_rtranclp, rule governance_step.blocking)

section \<open>Decisions\<close>

text \<open>C31: a tool call is let through exactly when every permission it declares or asks for is granted (by its
  rule of the active policy, or by its own declaration when there is none) and either no human is asked for or
  a valid permit of the subject comes with it; a permit that is not valid always blocks it.\<close>

theorem tool_enforcement_exact:
  "(\<exists>d. fst (enforce_tool G now stamp tool declared requested pid subject permit st) = Inr d) \<longleftrightarrow>
     set declared \<union> set requested \<subseteq> set (granted_permissions
        (case resolve_policy pid st of None \<Rightarrow> None | Some p \<Rightarrow> rule_for p TARGET_TOOL tool) False declared) \<and>
     (case permit of None \<Rightarrow> \<not> asks_human st TARGET_TOOL tool declared requested pid
      | Some p \<Rightarrow> governance_permit_valid G now subject p)"
  unfolding enforce_tool_def enforce_allowed_Inr gov_evaluate_fst
  by (auto simp: decide_subject_decision decide_subject_fields(4) split: option.splits)

text \<open>A capability is let through exactly when the tool behind it declares every permission the policy
  requires of the capability, and either no human is asked for or a valid permit of the subject comes with it.\<close>

theorem capability_enforcement_exact:
  "(\<exists>d. fst (enforce_capability G now stamp cap tool declared pid subject permit st) = Inr d) \<longleftrightarrow>
     (case resolve_policy pid st of None \<Rightarrow> True
      | Some p \<Rightarrow> (case rule_for p TARGET_CAPABILITY cap of None \<Rightarrow> True
          | Some r \<Rightarrow> set (pr_permissions r) \<subseteq> set declared)) \<and>
     (case permit of None \<Rightarrow> \<not> asks_human st TARGET_CAPABILITY cap declared [] pid
      | Some p \<Rightarrow> governance_permit_valid G now subject p)"
proof -
  have granted: "set (granted_permissions rule True declared) = set declared" for rule
    by (simp add: granted_permissions_def split: option.splits)
  show ?thesis
    unfolding enforce_capability_Inr
    by (simp add: decide_subject_decision decide_subject_fields(4,5) granted split: option.splits)
qed

text \<open>A policy named by its bare id is never applied: in every state an engine reaches, such a name
  resolves to no policy, also when \<open>has\<close> answers that the registry knows it.\<close>

theorem bare_policy_id_never_applies:
  assumes "(governance_step G)\<^sup>*\<^sup>* (fresh_engine durable dflt) st" "CHR ''@'' \<notin> set k" "k \<noteq> []"
  shows "resolve_policy (Some k) st = None"
  using governance_reachable_ok [OF assms(1)] assms(2,3)
  by (intro bare_policy_unresolved) (simp_all add: governance_ok_def)

definition sample_document :: governance_policy where
  "sample_document = \<lparr>gp_policy_id = ''strict'', gp_version = ''1.0.0'', gp_name = ''Strict'', gp_default_risk = HIGH,
     gp_default_approval = True, gp_capabilities = [], gp_providers = [], gp_tools = [], gp_risks = [],
     gp_approvals = [], gp_rollbacks = []\<rparr>"

theorem bare_policy_id_never_applies_witness:
  "\<exists>st. has_policy (gs_registry st) ''strict'' \<and> resolve_policy (Some ''strict'') st = None"
proof -
  let ?st = "snd (set_default_policy sample_document (fresh_engine True None))"
  have "(governance_step sample_governance)\<^sup>*\<^sup>* (fresh_engine True None) ?st"
    by (intro r_into_rtranclp governance_step.policy)
  then have "resolve_policy (Some ''strict'') ?st = None" by (rule bare_policy_id_never_applies) simp_all
  moreover have "validate_policy sample_document = []" "policy_key sample_document = ''strict@1.0.0''"
    by code_simp+
  then have "gs_registry ?st = [(''strict@1.0.0'', sample_document)]"
    by (simp add: set_default_policy_def register_policy_def fresh_engine_def governance_init_def dict_has_def Let_def)
  then have "has_policy (gs_registry ?st) ''strict''"
    by (simp add: has_policy_def latest_policy_def sample_document_def)
  ultimately show ?thesis by blast
qed

text \<open>Asking for more permissions never lowers the risk of a subject, as long as the policy has no risk
  rules of its own and its default risk is at most medium.\<close>

lemma more_permissions_no_less_risk:
  assumes "set ps \<subseteq> set qs"
    and "case policy of None \<Rightarrow> True | Some p \<Rightarrow> gp_risks p = [] \<and> gp_default_risk p \<le> MEDIUM"
  shows "fst (classify_risk tt target ps approval policy) \<le> fst (classify_risk tt target qs approval policy)"
  using assms scope_risk_mono [OF assms(1), of _ approval approval]
  by (auto simp: classify_risk_def split: option.splits)

text \<open>With a default risk above medium the condition of the last lemma cannot be dropped.\<close>

lemma declared_write_lowers_high_default:
  "fst (classify_risk TARGET_TOOL ''notes'' [] False (Some sample_document)) = HIGH"
  "fst (classify_risk TARGET_TOOL ''notes'' [TOOL_WRITE] False (Some sample_document)) = MEDIUM"
  by (simp_all add: classify_risk_def sample_document_def scope_risk_def any_permission_def)

end
