(* ===== verification/Coordination.thy ===== *)
theory Coordination
  imports Sample_World
begin

text \<open>
  What the batch scheduler and the plugin resolver guarantee: every task of a batch is answered,
  a task runs only after its dependencies have completed, cycles are refused, and plugins load
  after what they were bound to.
\<close>

section \<open>Batches\<close>

text \<open>The results of the schedule stand under the ids they carry.\<close>

definition keyed :: "schedule_state \<Rightarrow> bool" where
  "keyed st \<longleftrightarrow> (\<forall>k r. map_of (ss_results st) k = Some r \<longrightarrow> rr_task_id r = k)"

lemma keyed_admit: "keyed (fst sr) \<Longrightarrow> keyed (fst (admit_task g tasks t sr))"
  by (auto simp: admit_task_def keyed_def plain_result_def Let_def split: option.splits prod.splits)

lemma keyed_admits: "keyed (fst sr) \<Longrightarrow> keyed (fst (fold (admit_task g tasks) ts sr))"
  by (induction ts arbitrary: sr) (auto simp: keyed_admit)

lemma keyed_finish: "keyed st \<Longrightarrow> keyed (finish_task ti st)"
  by (auto simp: finish_task_def keyed_def plain_result_def Let_def split: prod.splits sum.splits run_fault.splits)

lemma keyed_finishes: "keyed st \<Longrightarrow> keyed (fold finish_task tis st)"
  by (induction tis arbitrary: st) (auto simp: keyed_finish)

lemma keyed_level: "keyed st \<Longrightarrow> keyed (run_level g tasks run1 level st)"
proof -
  assume k: "keyed st"
  obtain st1 ready where f: "fold (admit_task g tasks) level (st, []) = (st1, ready)" by fastforce
  with keyed_admits [of "(st, [])" g tasks level] k have "keyed st1" by simp
  then have "keyed (st1\<lparr>ss_ran := ss_ran st1 @ map rt_task_id ready\<rparr>)" by (simp add: keyed_def)
  with k show ?thesis by (simp add: run_level_def f keyed_finishes)
qed

lemma keyed_final: "keyed (schedule_final g tasks run1)"
proof -
  have "keyed (fold (run_level g tasks run1) ls st)" if "keyed st" for ls st
    using that by (induction ls arbitrary: st) (auto simp: keyed_level)
  moreover have "keyed start_schedule" by (simp add: keyed_def start_schedule_def)
  ultimately show ?thesis unfolding schedule_final_def by blast
qed

lemma map_filter_total:
  "\<forall>x\<in>set xs. f x \<noteq> None \<Longrightarrow> List.map_filter f xs = map (\<lambda>x. the (f x)) xs"
  by (induction xs) (auto simp: List.map_filter_simps)

text \<open>What a batch needs to be scheduled, and the schedule it leads to.\<close>

definition own_answers :: "worker_env \<Rightarrow> bool" where
  "own_answers W \<longleftrightarrow> (\<forall>tid k r. we_answer W tid k = AnswerResult r \<longrightarrow> rr_task_id r = tid)"

definition no_retries :: "worker_env \<Rightarrow> worker_env" where
  "no_retries W = W\<lparr>we_recovery := \<lparr>fr_max_retries = 0, fr_backoff_base = 0\<rparr>\<rparr>"

abbreviation batch_schedule :: "worker_env \<Rightarrow> runtime_task list \<Rightarrow> schedule_state" where
  "batch_schedule W tasks \<equiv> schedule_final (batch_graph tasks) tasks (run_one (no_retries W))"

definition task_needs :: "runtime_task list \<Rightarrow> (string \<times> string) set" where
  "task_needs tasks = {(rt_task_id t, d) | t d. t \<in> set tasks \<and> d \<in> set (rt_dependencies t)}"

lemma batch_needs:
  assumes "distinct (map rt_task_id tasks)" "\<not> external_dependency tasks"
  shows "dep_rel (batch_graph tasks) = task_needs tasks"
    and "validate_graph (batch_graph tasks) = Inr () \<longleftrightarrow> acyclic (task_needs tasks)"
proof -
  note f = batch_graph_facts [OF assms]
  have out: "deps_of (batch_graph tasks) n = []" if "n \<notin> rt_task_id ` set tasks" for n
    using deps_of_outside that f(4) by simp
  show r: "dep_rel (batch_graph tasks) = task_needs tasks"
  proof (intro set_eqI, rename_tac x, case_tac x, clarify)
    fix n d
    show "(n, d) \<in> dep_rel (batch_graph tasks) \<longleftrightarrow> (n, d) \<in> task_needs tasks"
    proof (cases "n \<in> rt_task_id ` set tasks")
      case True
      then obtain t where t: "t \<in> set tasks" "n = rt_task_id t" by blast
      then have only: "x = t" if "x \<in> set tasks" "rt_task_id x = n" for x
        using that assms(1) by (auto simp: distinct_map dest: inj_onD)
      have "deps_of (batch_graph tasks) n = rt_dependencies t" using t f(2) by blast
      moreover have "(n, d) \<in> task_needs tasks \<longleftrightarrow> d \<in> set (rt_dependencies t)"
        unfolding task_needs_def using t only by blast
      ultimately show ?thesis by (simp add: dep_rel_def)
    next
      case False
      then show ?thesis using out [OF False] by (auto simp: dep_rel_def task_needs_def)
    qed
  qed
  have "graph_ids (batch_graph tasks) = set (eg_task_ids (batch_graph tasks))"
    using f(4) by (simp add: batch_graph_def)
  then show "validate_graph (batch_graph tasks) = Inr () \<longleftrightarrow> acyclic (task_needs tasks)"
    unfolding validate_graph_iff valid_graph_def r by simp
qed

text \<open>A schedule that was not broken is that of workers whose runs are not cancelled.\<close>

lemma batch_schedule_calm:
  assumes "own_answers W" "\<not> ss_broken (batch_schedule W tasks)"
  obtains run1 where "own_ids run1" "batch_schedule W tasks = schedule_final (batch_graph tasks) tasks run1"
proof
  have "rr_task_id r = rt_task_id t" if "run_one (no_retries W) t = Inr r" for t r
    by (rule run_one_answers_own [OF _ that]) (use assms(1) in \<open>simp add: own_answers_def no_retries_def\<close>)
  then show "own_ids (calm (run_one (no_retries W)))" by (rule calm_own)
  show "batch_schedule W tasks = schedule_final (batch_graph tasks) tasks (calm (run_one (no_retries W)))"
    using assms(2) by (rule schedule_final_calm)
qed

lemma batch_schedule_broken:
  "ss_broken (batch_schedule W tasks) \<Longrightarrow> \<exists>t\<in>set tasks. \<exists>k. we_answer W (rt_task_id t) k = AnswerCancelled"
  by (drule schedule_final_broken) (fastforce simp: no_retries_def dest: run_one_cancelled)

lemma batch_schedule_ok:
  assumes "own_answers W" "distinct (map rt_task_id tasks)" "\<not> external_dependency tasks" "acyclic (task_needs tasks)"
    "\<not> ss_broken (batch_schedule W tasks)"
  shows "consistent (batch_schedule W tasks)"
    and "ran_after_deps (batch_graph tasks) tasks (batch_schedule W tasks)"
    and "distinct (ss_ran (batch_schedule W tasks))"
    and "\<forall>t\<in>set tasks. map_of (ss_results (batch_schedule W tasks)) (rt_task_id t) \<noteq> None"
proof -
  note f = batch_graph_facts [OF assms(2,3)]
  obtain run1 where own: "own_ids run1"
    and same: "batch_schedule W tasks = schedule_final (batch_graph tasks) tasks run1"
    using batch_schedule_calm [OF assms(1,5)] .
  have v: "validate_graph (batch_graph tasks) = Inr ()" using batch_needs(2) [OF assms(2,3)] assms(4) by simp
  have d: "\<forall>t\<in>set tasks. task_deps (batch_graph tasks) t = deps_of (batch_graph tasks) (rt_task_id t)"
    using f(2,3) by simp
  from schedule_final_ok [OF own f(1) v f(4) d]
  show "consistent (batch_schedule W tasks)"
    "ran_after_deps (batch_graph tasks) tasks (batch_schedule W tasks)"
    "distinct (ss_ran (batch_schedule W tasks))"
    "\<forall>t\<in>set tasks. map_of (ss_results (batch_schedule W tasks)) (rt_task_id t) \<noteq> None"
    unfolding same by blast+
qed

text \<open>The order in which tasks are handed to workers.\<close>

definition ran_in_order :: "execution_graph \<Rightarrow> runtime_task list \<Rightarrow> schedule_state \<Rightarrow> bool" where
  "ran_in_order g tasks st \<longleftrightarrow> ss_completed st \<subseteq> set (ss_ran st) \<and>
     (\<forall>pre t post. ss_ran st = pre @ t # post \<longrightarrow>
        (\<exists>task. task_in tasks t = Some task \<and> set (task_deps g task) \<subseteq> set pre))"

lemma admits_order:
  "fold (admit_task g tasks) ts (st, ready) = (st', ready') \<Longrightarrow>
     ss_completed st' = ss_completed st \<and> ss_ran st' = ss_ran st \<and>
     (\<exists>new. ready' = ready @ new \<and> (\<forall>task\<in>set new. task_in tasks (rt_task_id task) = Some task \<and>
        set (task_deps g task) \<subseteq> ss_completed st))"
proof (induction ts arbitrary: st ready)
  case (Cons t ts)
  obtain st1 ready1 where a: "admit_task g tasks t (st, ready) = (st1, ready1)" by fastforce
  have same: "ss_completed st1 = ss_completed st" "ss_ran st1 = ss_ran st"
    and new: "ready1 = ready \<or> (\<exists>task. ready1 = ready @ [task] \<and> task_in tasks (rt_task_id task) = Some task \<and>
        set (task_deps g task) \<subseteq> ss_completed st)"
    using a by (auto simp: admit_task_def Let_def list_all_iff task_in_id split: option.splits if_splits)
  from Cons.prems a have "fold (admit_task g tasks) ts (st1, ready1) = (st', ready')" by simp
  from Cons.IH [OF this] same new show ?case by auto
qed simp

lemma finishes_order:
  assumes "own_ids run1" "\<not> ss_broken st"
  shows "ss_ran (fold finish_task (map (\<lambda>t. (t, run1 t)) new) st) = ss_ran st \<and>
    ss_completed (fold finish_task (map (\<lambda>t. (t, run1 t)) new) st) \<subseteq> ss_completed st \<union> rt_task_id ` set new"
  using assms(2)
proof (induction new arbitrary: st)
  case (Cons t new)
  from Cons.IH [of "note_result (rt_task_id t) (answered t (run1 t)) st"] Cons.prems show ?case
    by (auto simp: finish_task_note [OF assms(1)] split: if_splits)
qed simp

lemma ran_in_order_level:
  assumes own: "own_ids run1" and ok: "ran_in_order g tasks st"
  shows "ran_in_order g tasks (run_level g tasks run1 level st)"
proof (cases "ss_broken st")
  case True
  with ok show ?thesis by (simp add: run_level_def)
next
  case False
  obtain st1 new where f: "fold (admit_task g tasks) level (st, []) = (st1, new)" by fastforce
  let ?s2 = "st1\<lparr>ss_ran := ss_ran st1 @ map rt_task_id new\<rparr>"
  let ?s3 = "fold finish_task (map (\<lambda>t. (t, run1 t)) new) ?s2"
  from admits_order [OF f] have a: "ss_completed st1 = ss_completed st" "ss_ran st1 = ss_ran st"
    "\<forall>task\<in>set new. task_in tasks (rt_task_id task) = Some task \<and> set (task_deps g task) \<subseteq> ss_completed st" by auto
  have calm: "\<not> ss_broken ?s2" using admit_ready [OF f] False by simp
  from finishes_order [OF own calm, of new] have b: "ss_ran ?s3 = ss_ran st @ map rt_task_id new"
    "ss_completed ?s3 \<subseteq> ss_completed st \<union> rt_task_id ` set new" using a by auto
  have settled: "ss_completed st \<subseteq> set (ss_ran st)" using ok by (simp add: ran_in_order_def)
  have "\<exists>task. task_in tasks t = Some task \<and> set (task_deps g task) \<subseteq> set pre"
    if split: "ss_ran ?s3 = pre @ t # post" for pre t post
  proof -
    from split b(1) consider us where "ss_ran st = pre @ t # us" | vs where "pre = ss_ran st @ vs" "map rt_task_id new = vs @ t # post"
      by (auto simp: append_eq_append_conv2 append_eq_Cons_conv)
    then show ?thesis
    proof cases
      case 1
      with ok show ?thesis by (auto simp: ran_in_order_def)
    next
      case 2
      then have "t \<in> rt_task_id ` set new" by (metis in_set_conv_decomp set_map)
      with a(3) settled 2(1) show ?thesis by fastforce
    qed
  qed
  moreover have "run_level g tasks run1 level st = ?s3" using False by (simp add: run_level_def f)
  ultimately show ?thesis using b settled by (auto simp: ran_in_order_def)
qed

lemma ran_in_order_final:
  assumes "own_ids run1"
  shows "ran_in_order g tasks (schedule_final g tasks run1)"
proof -
  have "ran_in_order g tasks (fold (run_level g tasks run1) ls st)" if "ran_in_order g tasks st" for ls st
    using that by (induction ls arbitrary: st) (auto simp: ran_in_order_level [OF assms])
  moreover have "ran_in_order g tasks start_schedule" by (simp add: ran_in_order_def start_schedule_def)
  ultimately show ?thesis unfolding schedule_final_def by blast
qed

text \<open>C32: a batch is answered completely, whatever its workers do short of raising \<open>CancelledError\<close>: for tasks with
  distinct ids, no dependency outside the batch and no cycle, when every result a worker returns carries the
  id of the task it was given, the results are one for each task, in the order the tasks were given; otherwise
  the collection of the results has raised, and a worker of one of the tasks has been cancelled.\<close>

theorem batch_answers_every_task:
  assumes "own_answers W" "distinct (map rt_task_id tasks)" "\<not> external_dependency tasks" "acyclic (task_needs tasks)"
  shows "(\<exists>results. run_batch W answer tasks = Inr results \<and> map rr_task_id results = map rt_task_id tasks) \<or>
    (run_batch W answer tasks = Inl CollectionBroken \<and>
       (\<exists>t\<in>set tasks. \<exists>k. we_answer W (rt_task_id t) k = AnswerCancelled))"
proof -
  let ?f = "\<lambda>t. map_of (ss_results (batch_schedule W tasks)) (rt_task_id t)"
  have v: "validate_graph (batch_graph tasks) = Inr ()" using batch_needs(2) [OF assms(2,3)] assms(4) by simp
  show ?thesis
  proof (cases "ss_broken (batch_schedule W tasks)")
    case True
    then have "run_batch W answer tasks = Inl CollectionBroken"
      using assms(3) v by (simp add: run_batch_def schedule_def no_retries_def)
    with batch_schedule_broken [OF True] show ?thesis by blast
  next
    case False
    note all = batch_schedule_ok(4) [OF assms False]
    have "List.map_filter ?f tasks = map (\<lambda>t. the (?f t)) tasks" using all by (rule map_filter_total)
    then have "run_batch W answer tasks = Inr (map (\<lambda>t. the (?f t)) tasks)"
      using assms(3) v False by (simp add: run_batch_def schedule_def no_retries_def)
    moreover have "rr_task_id (the (?f t)) = rt_task_id t" if "t \<in> set tasks" for t
      using all that keyed_final [of "batch_graph tasks" tasks "run_one (no_retries W)"] by (auto simp: keyed_def)
    ultimately show ?thesis by simp
  qed
qed

definition sample_batch :: "runtime_task list" where
  "sample_batch = [(sample_task ''tool'' None)\<lparr>rt_task_id := ''b'', rt_dependencies := [''a'']\<rparr>,
     (sample_task ''tool'' None)\<lparr>rt_task_id := ''a''\<rparr>]"

definition sample_workers :: worker_env where
  "sample_workers = \<lparr>we_find = (\<lambda>_. Inr None), we_cancelled = (\<lambda>_ _. False), we_allocates = (\<lambda>_. True),
     we_answer = (\<lambda>tid _. AnswerResult (plain_result tid COMPLETED [])), we_confidence = (\<lambda>_. Inr 1),
     we_recovery = \<lparr>fr_max_retries = 0, fr_backoff_base = 0\<rparr>\<rparr>"

lemma sample_batch_fits:
  "own_answers sample_workers" "distinct (map rt_task_id sample_batch)" "\<not> external_dependency sample_batch"
  "acyclic (task_needs sample_batch)"
proof -
  show "own_answers sample_workers" by (simp add: own_answers_def sample_workers_def plain_result_def)
  show "distinct (map rt_task_id sample_batch)" "\<not> external_dependency sample_batch"
    by (simp_all add: sample_batch_def external_dependency_def sample_task_def)
  have "task_needs sample_batch \<subseteq> {(''b'', ''a'')}"
    by (auto simp: task_needs_def sample_batch_def sample_task_def)
  moreover have "acyclic {(''b'', ''a'')}" by (simp add: acyclic_insert wf_acyclic)
  ultimately show "acyclic (task_needs sample_batch)" by (rule acyclic_subset [rotated])
qed

theorem batch_answers_every_task_witness:
  "\<forall>answer. \<exists>results. run_batch sample_workers answer sample_batch = Inr results \<and> map rr_task_id results = [''b'', ''a'']"
  using batch_answers_every_task [OF sample_batch_fits] by (simp add: sample_batch_def sample_workers_def)

text \<open>C33: in a batch of tasks with distinct ids, no dependency outside the batch and no cycle, whose workers answer
  with the ids of their tasks and whose results could all be collected, a task is handed to a worker at most
  once, only after each of its dependencies has been handed to one, and only if all of them have completed.
  (With a dependency outside the batch all tasks are started at once, in whatever order they depend on one
  another.)\<close>

theorem batch_runs_after_dependencies:
  assumes "own_answers W" "distinct (map rt_task_id tasks)" "\<not> external_dependency tasks" "acyclic (task_needs tasks)"
    "\<not> ss_broken (batch_schedule W tasks)"
    and "ss_ran (batch_schedule W tasks) = pre @ rt_task_id t # post" "t \<in> set tasks" "d \<in> set (rt_dependencies t)"
  shows "d \<in> set pre \<and> rt_task_id t \<notin> set pre \<union> set post \<and>
    (\<exists>r. map_of (ss_results (batch_schedule W tasks)) d = Some r \<and> rr_status r = COMPLETED)"
proof -
  note f = batch_graph_facts [OF assms(2,3)] and ok = batch_schedule_ok [OF assms(1-5)]
  obtain run1 where own: "own_ids run1"
    and same: "batch_schedule W tasks = schedule_final (batch_graph tasks) tasks run1"
    using batch_schedule_calm [OF assms(1,5)] .
  have task: "task_in tasks (rt_task_id t) = Some t" by (rule task_in_member [OF assms(2,7)])
  from ran_in_order_final [OF own, of "batch_graph tasks" tasks] assms(6)
  obtain task' where "task_in tasks (rt_task_id t) = Some task'" "set (task_deps (batch_graph tasks) task') \<subseteq> set pre"
    unfolding same ran_in_order_def by blast
  with task f(3) assms(7,8) have "d \<in> set pre" by auto
  moreover have "rt_task_id t \<in> set (ss_ran (batch_schedule W tasks))" using assms(6) by simp
  with ok(2) task f(3) assms(7,8) have "d \<in> ss_completed (batch_schedule W tasks)"
    by (fastforce simp: ran_after_deps_def)
  with consistent_at [OF ok(1), of d]
  have "\<exists>r. map_of (ss_results (batch_schedule W tasks)) d = Some r \<and> rr_status r = COMPLETED"
    by (auto split: option.splits)
  ultimately show ?thesis using ok(3) assms(6) by simp
qed

theorem batch_runs_after_dependencies_witness:
  "\<exists>r. map_of (ss_results (batch_schedule sample_workers sample_batch)) ''a'' = Some r \<and> rr_status r = COMPLETED"
proof -
  have "ss_ran (batch_schedule sample_workers sample_batch) = [''a''] @ rt_task_id (hd sample_batch) # []"
    by code_simp
  moreover have "\<not> ss_broken (batch_schedule sample_workers sample_batch)" by code_simp
  moreover have "hd sample_batch \<in> set sample_batch" "''a'' \<in> set (rt_dependencies (hd sample_batch))"
    by (simp_all add: sample_batch_def)
  ultimately show ?thesis using batch_runs_after_dependencies [OF sample_batch_fits] by blast
qed

text \<open>C34: without outside dependencies a batch of distinct tasks is refused exactly when its dependencies have
  a cycle.\<close>

theorem batch_refused_iff_cyclic:
  assumes "distinct (map rt_task_id tasks)" "\<not> external_dependency tasks"
  shows "(\<exists>e. run_batch W answer tasks = Inl (GraphRefused e)) \<longleftrightarrow> \<not> acyclic (task_needs tasks)"
  using assms batch_needs(2) [OF assms]
  by (cases "validate_graph (batch_graph tasks)") (auto simp: run_batch_def schedule_def Let_def)

theorem batch_refused_iff_cyclic_witness:
  "\<forall>answer. \<exists>e. run_batch sample_workers answer [(sample_task ''tool'' None)\<lparr>rt_dependencies := [''t1'']\<rparr>] =
     Inl (GraphRefused e)"
proof -
  let ?ts = "[(sample_task ''tool'' None)\<lparr>rt_dependencies := [''t1'']\<rparr>]"
  have "(''t1'', ''t1'') \<in> task_needs ?ts" by (auto simp: task_needs_def sample_task_def)
  then have "\<not> acyclic (task_needs ?ts)" by (auto simp: acyclic_def)
  then show ?thesis
    by (intro allI, subst batch_refused_iff_cyclic) (simp_all add: external_dependency_def sample_task_def)
qed

text \<open>The resolver's topological order lists every task of a valid graph once, after its dependencies.\<close>

theorem topological_order_correct:
  assumes "dict_ok (eg_dependencies g)" "validate_graph g = Inr ()"
  shows "distinct (topological_order g) \<and> set (topological_order g) = set (eg_task_ids g) \<and>
    (\<forall>pre t post. topological_order g = pre @ t # post \<longrightarrow> set (deps_of g t) \<subseteq> set pre)"
proof -
  have l: "levels_ok g {} (map (\<lambda>n. [n]) (topological_order g))" using assms by (rule topological_order_ok)
  have c: "concat (map (\<lambda>n. [n]) xs) = xs" for xs :: "string list" by (induction xs) auto
  have "set (deps_of g t) \<subseteq> set pre" if "topological_order g = pre @ t # post" for pre t post
  proof -
    have "map (\<lambda>n. [n]) (topological_order g) = map (\<lambda>n. [n]) pre @ [t] # map (\<lambda>n. [n]) post" by (simp add: that)
    with l have "set (deps_of g t) \<subseteq> {} \<union> set (concat (map (\<lambda>n. [n]) pre))"
      unfolding levels_ok_def by (metis list.set_intros(1))
    then show ?thesis by (simp add: c)
  qed
  moreover have "graph_ids g = set (eg_task_ids g)" using assms(2) by (simp add: validate_graph_iff valid_graph_def)
  ultimately show ?thesis using l by (simp add: levels_ok_def c)
qed

theorem topological_order_correct_witness:
  "set (topological_order (batch_graph sample_batch)) = {''a'', ''b''}"
proof -
  have "validate_graph (batch_graph sample_batch) = Inr ()" "dict_ok (eg_dependencies (batch_graph sample_batch))"
    using sample_batch_fits(4) batch_needs(2) [OF sample_batch_fits(2,3)]
      batch_graph_facts(1) [OF sample_batch_fits(2,3)] by simp_all
  from topological_order_correct [OF this(2,1)] show ?thesis
    by (auto simp: batch_graph_def sample_batch_def sample_task_def)
qed

section \<open>Plugins\<close>

text \<open>C35: a load order is only given when some registered plugin satisfies each declared dependency; it lists
  every registered plugin once, and each plugin that declares dependencies after the one chosen for the last of
  them: a registered plugin of that id in a version the constraint admits. (The choices for a plugin are kept under
  one key, so that those before the last take no part: a plugin can stand before another one it declares to need.)\<close>

theorem load_order_sound:
  assumes "resolve_load_order records loaded = Inr order" "distinct (map record_key records)"
  shows "distinct order \<and> set order = record_key ` set records \<and>
    (\<forall>r\<in>set records. \<forall>d\<in>set (pm_dependencies (pl_manifest r)).
       choose_candidate records (dep_plugin_id d) (dep_version d) loaded \<noteq> None) \<and>
    (\<forall>pre r post. order = pre @ record_key r # post \<longrightarrow> r \<in> set records \<longrightarrow> pm_dependencies (pl_manifest r) \<noteq> [] \<longrightarrow>
       (\<exists>c. choose_candidate records (dep_plugin_id (last (pm_dependencies (pl_manifest r))))
              (dep_version (last (pm_dependencies (pl_manifest r)))) loaded = Some c \<and>
            record_id c = dep_plugin_id (last (pm_dependencies (pl_manifest r))) \<and>
            candidate (dep_version (last (pm_dependencies (pl_manifest r)))) c \<and> record_key c \<in> set pre))"
proof -
  obtain selected where s: "select_dependency_keys records loaded = Inr selected"
    "toposort records selected None = Inr order"
    using assms(1) by (auto simp: resolve_load_order_def res_bind_Inr_iff)
  have met: "\<forall>r\<in>set records. unmet records loaded r = []"
    using s(1) by (auto simp: select_dependency_keys_cases Let_def split: if_splits)
  then have met: "choose_candidate records (dep_plugin_id d) (dep_version d) loaded \<noteq> None"
    if "r \<in> set records" "d \<in> set (pm_dependencies (pl_manifest r))" for r d
    using that by (auto simp: unmet_def filter_empty_conv)
  note order = toposort_keys [OF s(2)]
  have "\<exists>c. choose_candidate records (dep_plugin_id (last (pm_dependencies (pl_manifest r))))
              (dep_version (last (pm_dependencies (pl_manifest r)))) loaded = Some c \<and>
            record_id c = dep_plugin_id (last (pm_dependencies (pl_manifest r))) \<and>
            candidate (dep_version (last (pm_dependencies (pl_manifest r)))) c \<and> record_key c \<in> set pre"
    if o: "order = pre @ record_key r # post" and r: "r \<in> set records" and ds: "pm_dependencies (pl_manifest r) \<noteq> []"
    for pre r post
  proof -
    obtain c where c: "choose_candidate records (dep_plugin_id (last (pm_dependencies (pl_manifest r))))
        (dep_version (last (pm_dependencies (pl_manifest r)))) loaded = Some c"
      using met [OF r] ds by fastforce
    have "record_of records (record_key r) = Some r"
      unfolding record_of_def using r assms(2)
      by (intro map_of_is_SomeI) (auto simp: rev_map [symmetric] comp_def)
    then have "dep_key_of records selected (record_key r) = Some (record_key c)"
      using selected_last [OF s(1) r assms(2)] c ds by (simp add: dep_key_of_def Let_def)
    moreover note m = choose_candidate_Some(1) [OF c]
    ultimately have "record_key c \<in> set pre" using order o by (auto simp: sorted_keys_def)
    with c m show ?thesis by blast
  qed
  moreover have "distinct order \<and> set order = record_key ` set records" using order by (auto simp: sorted_keys_def)
  ultimately show ?thesis using met by blast
qed

definition sample_plugin :: "string \<Rightarrow> plugin_dependency list \<Rightarrow> plugin_record" where
  "sample_plugin pid deps =
     \<lparr>pl_manifest = \<lparr>pm_schema_version = ''1.0'', pm_id = pid, pm_name = pid, pm_version = ''1.0.0'',
        pm_description = [], pm_kind = KIND_TOOL, pm_author = [], pm_entry = pid, pm_dependencies = deps,
        pm_capabilities = [], pm_permissions = [], pm_metadata = [], pm_api_version = 1, pm_min_version = None,
        pm_max_version = None, pm_actions = []\<rparr>,
      pl_state = REGISTERED\<rparr>"

definition sample_plugins :: "plugin_record list" where
  "sample_plugins =
     [sample_plugin ''app'' [\<lparr>dep_plugin_id = ''zip'', dep_version = ''^1.0.0''\<rparr>, \<lparr>dep_plugin_id = ''lib'', dep_version = ''*''\<rparr>],
      sample_plugin ''lib'' [], sample_plugin ''zip'' []]"

lemma sample_selection:
  "select_dependency_keys sample_plugins {} = Inr [((''app'', ''app@1.0.0''), ''lib@1.0.0'')]"
  by code_simp

lemma sample_toposort:
  "toposort sample_plugins [((''app'', ''app@1.0.0''), ''lib@1.0.0'')] None =
     Inr [''lib@1.0.0'', ''app@1.0.0'', ''zip@1.0.0'']"
  by code_simp

lemma sample_load_order: "resolve_load_order sample_plugins {} = Inr [''lib@1.0.0'', ''app@1.0.0'', ''zip@1.0.0'']"
  unfolding resolve_load_order_def sample_selection by (simp add: sample_toposort)

theorem load_order_sound_witness:
  "\<exists>c. choose_candidate sample_plugins ''lib'' ''*'' {} = Some c \<and> record_id c = ''lib'' \<and> record_key c = ''lib@1.0.0''"
proof -
  let ?app = "sample_plugin ''app'' [\<lparr>dep_plugin_id = ''zip'', dep_version = ''^1.0.0''\<rparr>, \<lparr>dep_plugin_id = ''lib'', dep_version = ''*''\<rparr>]"
  have "distinct (map record_key sample_plugins)"
    by (simp add: sample_plugins_def sample_plugin_def record_key_def manifest_key_def)
  note all = load_order_sound [OF sample_load_order this]
  have split: "[''lib@1.0.0'', ''app@1.0.0'', ''zip@1.0.0''] = [''lib@1.0.0''] @ record_key ?app # [''zip@1.0.0'']"
    by (simp add: sample_plugin_def record_key_def manifest_key_def)
  have m: "?app \<in> set sample_plugins" by (simp add: sample_plugins_def)
  have ne: "pm_dependencies (pl_manifest ?app) \<noteq> []" by (simp add: sample_plugin_def)
  have l: "last (pm_dependencies (pl_manifest ?app)) = \<lparr>dep_plugin_id = ''lib'', dep_version = ''*''\<rparr>"
    by (simp add: sample_plugin_def)
  from all [THEN conjunct2, THEN conjunct2, THEN conjunct2, rule_format, OF split m ne, unfolded l]
  show ?thesis by auto
qed

text \<open>The load order fails only for a reason it names: a declared dependency that no registered record
  satisfies, or keys each of which is bound to another one of them.\<close>

theorem load_order_fails_for_a_reason:
  assumes "resolve_load_order records loaded = Inl e"
  shows "(\<exists>r\<in>set records. \<exists>d\<in>set (pm_dependencies (pl_manifest r)).
       choose_candidate records (dep_plugin_id d) (dep_version d) loaded = None \<and>
       (\<exists>m. e = Unresolvable m \<and> missing_text records r d \<in> set m)) \<or>
    (\<exists>selected ks. select_dependency_keys records loaded = Inr selected \<and> e = Circular ks \<and> ks \<noteq> [] \<and>
       set ks \<subseteq> record_key ` set records \<and>
       (\<forall>k\<in>set ks. \<exists>d\<in>set ks. dep_key_of records selected k = Some d))"
proof (cases "select_dependency_keys records loaded")
  case (Inl e')
  with assms have "e' = e" by (simp add: resolve_load_order_def)
  with Inl have e: "concat (map (\<lambda>r. map (missing_text records r) (unmet records loaded r)) records) \<noteq> []"
    "e = Unresolvable (concat (map (\<lambda>r. map (missing_text records r) (unmet records loaded r)) records))"
    by (auto simp: select_dependency_keys_cases Let_def split: if_splits)
  from e(1) obtain r where r: "r \<in> set records" "unmet records loaded r \<noteq> []" by auto
  then obtain d where d: "d \<in> set (unmet records loaded r)" by (meson list.set_sel(1))
  with r e(2) have "d \<in> set (pm_dependencies (pl_manifest r))"
    "choose_candidate records (dep_plugin_id d) (dep_version d) loaded = None"
    "\<exists>m. e = Unresolvable m \<and> missing_text records r d \<in> set m"
    by (auto simp: unmet_def)
  with r(1) show ?thesis by blast
next
  case (Inr selected)
  with assms have "toposort records selected None = Inl e" by (simp add: resolve_load_order_def)
  from toposort_circular [OF this] Inr show ?thesis by (auto simp: sorted_keys_def)
qed

theorem load_order_fails_for_a_reason_witness:
  "\<exists>m. resolve_load_order [hd sample_plugins] {} = Inl (Unresolvable m) \<and> m \<noteq> []"
proof -
  have "select_dependency_keys [hd sample_plugins] {} = Inl (Unresolvable
      [''app@1.0.0 requires zip@^1.0.0 (available: none)'', ''app@1.0.0 requires lib@* (available: none)''])"
    by code_simp
  then have fails: "resolve_load_order [hd sample_plugins] {} = Inl (Unresolvable
      [''app@1.0.0 requires zip@^1.0.0 (available: none)'', ''app@1.0.0 requires lib@* (available: none)''])"
    unfolding resolve_load_order_def by simp
  from load_order_fails_for_a_reason [OF fails] show ?thesis unfolding fails by blast
qed

text \<open>Only the last dependency a plugin declares is bound; the ones before it take no part in the order,
  so that a plugin can be loaded before a plugin it requires.\<close>

theorem only_last_dependency_binds:
  assumes "select_dependency_keys records loaded = Inr selected" "r \<in> set records"
    and "distinct (map record_key records)"
  shows "dep_key_of records selected (record_key r) =
    (if pm_dependencies (pl_manifest r) = [] then None
     else map_option record_key (choose_candidate records
       (dep_plugin_id (last (pm_dependencies (pl_manifest r))))
       (dep_version (last (pm_dependencies (pl_manifest r)))) loaded))"
proof -
  have "record_of records (record_key r) = Some r"
    unfolding record_of_def using assms(2,3)
    by (intro map_of_is_SomeI) (auto simp: rev_map [symmetric] comp_def)
  then show ?thesis using selected_last [OF assms] by (simp add: dep_key_of_def Let_def)
qed

theorem only_last_dependency_binds_witness:
  "dep_key_of sample_plugins [((''app'', ''app@1.0.0''), ''lib@1.0.0'')] (record_key (hd sample_plugins)) =
     map_option record_key (choose_candidate sample_plugins ''lib'' ''*'' {})"
proof -
  have "hd sample_plugins \<in> set sample_plugins" by (simp add: sample_plugins_def)
  moreover have "distinct (map record_key sample_plugins)"
    by (simp add: sample_plugins_def sample_plugin_def record_key_def manifest_key_def)
  ultimately show ?thesis
    by (subst only_last_dependency_binds [OF sample_selection])
      (simp_all add: sample_plugins_def sample_plugin_def)
qed

lemma digit_not_space: "is_digit c \<Longrightarrow> \<not> is_space c"
proof -
  have "\<forall>c\<in>set digits. \<not> is_space c" by code_simp
  then show "is_digit c \<Longrightarrow> \<not> is_space c" by (simp add: is_digit_def)
qed

lemma drop_spaces: "dropWhile is_space (replicate m CHR '' '' @ s) = dropWhile is_space s"
proof -
  have "is_space CHR '' ''" by code_simp
  then show ?thesis by (induction m) auto
qed

lemma strip_padded: "trimmed s \<Longrightarrow> py_strip (replicate m CHR '' '' @ s @ replicate n CHR '' '') = s"
proof (cases "s = []")
  case True
  have "dropWhile is_space (replicate m CHR '' '' @ replicate n CHR '' '') = []"
    using drop_spaces [of m "replicate n CHR '' ''"] drop_spaces [of n "[]"] by (simp only: append_Nil2) simp
  with True show ?thesis by (simp add: py_strip_def del: dropWhile_eq_Nil_conv)
next
  case False
  moreover assume "trimmed s"
  ultimately have "\<not> is_space (hd s)" "\<not> is_space (last s)" by (auto simp: trimmed_def)
  with False show ?thesis
    using drop_spaces [of n "rev s"] by (simp add: py_strip_def drop_spaces dropWhile_id hd_rev)
qed

lemma trimmed_version_text: "trimmed (version_text v)"
proof -
  have "\<not> is_space (hd (nat_str k))" "\<not> is_space (last (nat_str k))" for k
    using is_digit_nat_str [of "hd (nat_str k)" k] is_digit_nat_str [of "last (nat_str k)" k]
    by (simp_all add: digit_not_space)
  then show ?thesis by (simp add: trimmed_def version_text_def hd_append last_append)
qed

text \<open>A version that is printed is read back, whatever white space surrounds it.\<close>

theorem version_roundtrip:
  "parse_version (replicate m CHR '' '' @ version_text v @ replicate n CHR '' '') = Inr v"
  using match_version_text [of "[]" v]
  by (simp add: parse_version_def strip_padded trimmed_version_text suffix_ok_def)

text \<open>A caret constraint on a version admits the versions from it up to the next major one, a tilde
  constraint those up to the next minor one, and a bare version only itself.\<close>

theorem constraint_ranges:
  "satisfies v (Some (''^'' @ version_text b)) = Inr (b \<le> v \<and> v < Semver (Suc (sv_major b)) 0 0) \<and>
   satisfies v (Some (''~'' @ version_text b)) = Inr (b \<le> v \<and> v < Semver (sv_major b) (Suc (sv_minor b)) 0) \<and>
   satisfies v (Some (version_text b)) = Inr (v = b)"
proof -
  have p: "parse_version (version_text b) = Inr b"
    using match_version_text [of "[]" b]
    by (simp add: parse_version_def py_strip_trimmed_id trimmed_version_text suffix_ok_def)
  obtain c cs where c: "version_text b = c # cs" "is_digit c"
    using is_digit_nat_str [of "hd (nat_str (sv_major b))" "sv_major b"]
    by (cases "nat_str (sv_major b)") (auto simp: version_text_def)
  have marks: "\<forall>c\<in>set digits. c \<notin> set ''*><=^~''" by code_simp
  have "c \<notin> set ''*><=^~''" using marks c(2) by (simp add: is_digit_def)
  then have plain: "version_text b \<notin> {'''', ''*''}" "\<not> py_startswith (version_text b) ''>=''"
    "\<not> py_startswith (version_text b) ''<=''" "\<not> py_startswith (version_text b) ''>''"
    "\<not> py_startswith (version_text b) ''<''" "\<not> py_startswith (version_text b) ''==''"
    "\<not> py_startswith (version_text b) ''^''" "\<not> py_startswith (version_text b) ''~''"
    by (auto simp: c(1))
  have "satisfies v (Some (version_text b)) = res_bind (parse_version (version_text b)) (\<lambda>b. Inr (v = b))"
    unfolding satisfies_def option.case py_strip_trimmed_id [OF trimmed_version_text] Let_def
    by (simp only: plain if_False)
  with p show ?thesis by (simp add: satisfies_caret satisfies_tilde trimmed_version_text)
qed

end
