(* ===== verification/Consent.thy ===== *)
theory Consent
  imports Sample_World Evidence_Sanitizer
begin

text \<open>
  What the policy engine lets through without asking, what the permission memory can come to
  hold, what a retry costs, and what of a value reaches the durable evidence.
\<close>

section \<open>The policy\<close>

text \<open>C36: the policy allows an action on its own exactly when it needs no permission but the use of a model and
  its texts are classified public, internal or personal.\<close>

theorem policy_allows_exactly:
  "pd_allowed (evaluate show a) \<longleftrightarrow>
     set (pd_required (evaluate show a)) \<subseteq> {MODEL_CLOUD, MODEL_LOCAL} \<and>
     pc_category (pd_privacy (evaluate show a)) \<in> {PUBLIC, INTERNAL, PERSONAL}"
proof -
  let ?ps = "pd_required (evaluate show a)" and ?r = "pd_risk (evaluate show a)"
  have r: "?r = risk_for (normalize_action_type (pa_action_type a)) (pc_category (pd_privacy (evaluate show a))) ?ps"
    by (simp add: evaluate_simps)
  have none: "set ?ps \<inter> {WRITE, DELETE, EXECUTE, NETWORK, READ} = {} \<longleftrightarrow> set ?ps \<subseteq> {MODEL_CLOUD, MODEL_LOCAL}"
    by (auto, metis permission_scope.exhaust)
  have "pd_allowed (evaluate show a) \<longleftrightarrow> ?r \<notin> {HIGH, CRITICAL} \<and> set ?ps \<inter> {WRITE, DELETE, EXECUTE, NETWORK, READ} = {}"
    unfolding evaluate_simps(5,6) approval_required_for_def by auto
  also have "\<dots> \<longleftrightarrow> set ?ps \<subseteq> {MODEL_CLOUD, MODEL_LOCAL} \<and>
      pc_category (pd_privacy (evaluate show a)) \<in> {PUBLIC, INTERNAL, PERSONAL}"
    unfolding none r
    by (cases "pc_category (pd_privacy (evaluate show a))") (auto simp: risk_for_def)
  finally show ?thesis .
qed

text \<open>An action is bound to a local model exactly when one of the critical or sensitive signals occurs in its
  description, target or payload, and such an action is never allowed without a human.\<close>

theorem sensitive_signals_stay_local:
  "(ec_requires_local_model (pd_constraints (evaluate show a)) \<longleftrightarrow>
      list_ex (\<lambda>p. rx_search p None (classifier_text show (classified_value a))) (critical_patterns @ sensitive_patterns)) \<and>
   \<not> (ec_requires_local_model (pd_constraints (evaluate show a)) \<and> pd_allowed (evaluate show a))"
proof
  show "ec_requires_local_model (pd_constraints (evaluate show a)) \<longleftrightarrow>
      list_ex (\<lambda>p. rx_search p None (classifier_text show (classified_value a))) (critical_patterns @ sensitive_patterns)"
    using signals_local by (simp add: signals_def)
  show "\<not> (ec_requires_local_model (pd_constraints (evaluate show a)) \<and> pd_allowed (evaluate show a))"
    by (auto simp: evaluate_simps approval_required_for_def risk_for_def)
qed

section \<open>The permission memory\<close>

text \<open>C37: however many requests the approval engine serves, its memory only ever allows the use of a model: no
  read, write, delete, execute or network permission is granted without a human being asked each time.\<close>

theorem memory_holds_only_model_use:
  "{scope. \<exists>s subject resource. served store_get store_set [] show s \<and>
       store_get s subject resource scope = ALLOWED} \<subseteq> {MODEL_CLOUD, MODEL_LOCAL}"
  by (auto dest: memory_store.served_scopes)

text \<open>What a principal has let the engine remember is found again, for every request of that principal on the
  same resource (up to case and surrounding blanks) that needs no more, and for nobody else.\<close>

theorem remembered_permission_found:
  assumes "pd_required (ar_policy req') \<noteq> []"
    and "set (pd_required (ar_policy req')) \<subseteq> set (pd_required (ar_policy req))"
    and "resource_key (permission_resource (ar_action req')) = resource_key (permission_resource (ar_action req))"
  shows "remembered_permission store_get (Some (store_allow_permissions store_set req subject [])) req' other = ALLOWED
    \<longleftrightarrow> other = subject"
proof
  assume "other = subject"
  with memory_store.remembered_after_store [OF assms]
  show "remembered_permission store_get (Some (store_allow_permissions store_set req subject [])) req' other = ALLOWED"
    by simp
next
  assume "remembered_permission store_get (Some (store_allow_permissions store_set req subject [])) req' other = ALLOWED"
  with assms(1) obtain scope where "store_get (store_allow_permissions store_set req subject []) other
      (permission_resource (ar_action req')) scope = ALLOWED"
    unfolding remembered_ALLOWED_iff by (metis list.set_sel(1) option.inject)
  then show "other = subject"
    by (auto simp: memory_store.get_store_allow memory_store.get_empty split: if_splits)
qed

definition cloud_request :: "string \<Rightarrow> approval_request" where
  "cloud_request target = \<lparr>ar_action = sample_action ''summarize'' target,
     ar_policy = sample_policy\<lparr>pd_required := [MODEL_CLOUD]\<rparr>, ar_operation = None, ar_remember = True\<rparr>"

theorem remembered_permission_found_witness:
  "remembered_permission store_get (Some (store_allow_permissions store_set (cloud_request ''Notes'') ''ann'' []))
     (cloud_request '' notes'') ''ann'' = ALLOWED"
proof -
  have "resource_key (permission_resource (ar_action (cloud_request '' notes''))) =
      resource_key (permission_resource (ar_action (cloud_request ''Notes'')))" by code_simp
  then show ?thesis by (subst remembered_permission_found) (simp_all add: cloud_request_def)
qed

section \<open>Retries\<close>

text \<open>The delays before the retries never shrink and stay between zero and the declared maximum.\<close>

lemma retry_delays_bounded:
  assumes "retry_policy_ok p" "m \<le> n"
  shows "0 \<le> delay_for_retry p m \<and> delay_for_retry p m \<le> delay_for_retry p n \<and>
    delay_for_retry p n \<le> rp_max_delay p"
  using delay_nonneg [OF assms(1)] delay_mono [OF assms] delay_bounded [OF assms(1)] by blast

text \<open>Four of the failure classes are never reported: a text that mentions a credential or a rate limit is
  classified by an earlier branch, and nothing reports an external timeout.\<close>

lemma unreported_failures:
  "classify_failure error action_type \<notin>
     {CREDENTIAL_UNAVAILABLE, CREDENTIAL_EXPIRED, EXTERNAL_RATE_LIMIT, EXTERNAL_TIMEOUT}"
  unfolding classify_failure_def by (rule classify_text_shadowed)

section \<open>The evidence\<close>

text \<open>C38: of a value made of dictionaries and lists, the sanitised form holds, at every depth, under a key that names
  a secret \<open>***\<close> alone or eight characters before it, and under a key that names content a marker alone; and
  nothing more can be learnt from it: a value that agrees with the first outside such keys, in the first eight
  characters of the secrets that have more than eight, and in the kind and length of the content, has the very
  same sanitised form.\<close>

theorem secrets_are_redacted:
  assumes "plain_value v"
  shows "redacted (sanitize_recursive depth v) \<and>
    {w. alike v w} \<subseteq> {w. sanitize_recursive depth w = sanitize_recursive depth v}"
  using sanitize_redacts [OF assms] sanitize_alike by fastforce

theorem secrets_are_redacted_witness:
  "redacted (sanitize_recursive 0 (PDict [(''user'', PDict [(''Password'', PStr ''hunter2'')])])) \<and>
   sanitize_recursive 0 (PDict [(''user'', PDict [(''Password'', PStr ''swordf1'')])]) =
   sanitize_recursive 0 (PDict [(''user'', PDict [(''Password'', PStr ''hunter2'')])])"
proof -
  let ?v = "\<lambda>p. PDict [(''user'', PDict [(''Password'', PStr p)])]"
  have k: "is_secret_key ''Password''" "\<not> is_secret_key ''user''" "\<not> is_content_key ''user''" by code_simp+
  have "alike (?v ''hunter2'') (?v ''swordf1'')"
    by (intro alike.dict) (simp add: k secret_shown_def alike.dict)
  moreover have "plain_value (?v ''hunter2'')" by simp
  ultimately show ?thesis using secrets_are_redacted [of "?v ''hunter2''" 0] by blast
qed

end
