(* ===== verification/Tool_Framework.thy ===== *)
theory Tool_Framework
  imports Complex_Main Gov_Policy Runtime_Gate
begin

text \<open>
  The tool framework (\<open>app/tools/registry.py\<close>, \<open>manager.py\<close>, \<open>capability_registry.py\<close> and
  \<open>framework/\<close>): the registry of tools with their metadata, the check of arguments against a
  schema, the health monitor, the memory of uses, and the dispatcher with its time limits, retries
  and cancellation. A tool is a value of type \<open>'t\<close>; what one run of it comes to, the clock and the
  health it reports are the environment of a call. Durations are in milliseconds.
\<close>

section \<open>Tools and their metadata\<close>

datatype capability_availability =
  PRODUCTION_READY | LOCAL_ONLY | SIMULATED | CAPABILITY_UNAVAILABLE | INTERNAL_ONLY | EXPERIMENTAL

record tool_result =
  tr_ok :: bool
  tr_data :: "(string, pyval) dict"
  tr_error :: "string option"
  tr_metadata :: "(string, pyval) dict"

record tool_policy =
  tp_permissions :: "tool_permission list"
  tp_default_timeout :: nat
  tp_max_retries :: int
  tp_rollback_supported :: bool
  tp_idempotent_mutation :: bool

definition default_tool_policy :: tool_policy where
  "default_tool_policy =
     \<lparr>tp_permissions = [], tp_default_timeout = 30000, tp_max_retries = 0, tp_rollback_supported = False,
      tp_idempotent_mutation = False\<rparr>"

record tool_info =
  ti_tool_id :: string
  ti_capabilities :: "string list"
  ti_version :: "string option"
  ti_input_schema :: "(string, pyval) dict"
  ti_category :: "string option"
  ti_permissions :: "string list"
  ti_supported_actions :: "string list"
  ti_available :: bool
  ti_policy :: "tool_policy option"
  ti_product_domain :: "string option"
  ti_execution_mode :: capability_availability
  ti_side_effect_actions :: "string list"
  ti_advertised :: bool

record tool_context =
  tc_request_id :: string
  tc_user_id :: string
  tc_session_id :: string
  tc_granted_permissions :: "tool_permission list"
  tc_timeout :: "nat option"

definition empty_context :: tool_context where
  "empty_context = \<lparr>tc_request_id = [], tc_user_id = [], tc_session_id = [], tc_granted_permissions = [],
     tc_timeout = None\<rparr>"

definition permits :: "tool_context \<Rightarrow> tool_permission \<Rightarrow> bool" where
  "permits c p = (p \<in> set (tc_granted_permissions c))"

section \<open>The registry\<close>

type_synonym 't tool_registry = "(string, 't \<times> tool_info) dict"

definition register_tool ::
  "string \<Rightarrow> 't \<Rightarrow> tool_info \<Rightarrow> 't tool_registry \<Rightarrow> (string, 't tool_registry) result" where
  "register_tool i tool info reg =
     (if dict_has i reg then Inl (''Tool already registered: '' @ i) else Inr (AList.update i (tool, info) reg))"

definition unregister_tool :: "string \<Rightarrow> 't tool_registry \<Rightarrow> bool \<times> 't tool_registry" where
  "unregister_tool i reg = (dict_has i reg, AList.delete i reg)"

definition get_tool :: "'t tool_registry \<Rightarrow> string \<Rightarrow> 't option" where
  "get_tool reg i = map_option fst (map_of reg i)"

definition info_for :: "'t tool_registry \<Rightarrow> string \<Rightarrow> tool_info option" where
  "info_for reg i = map_option snd (map_of reg i)"

definition list_tools :: "'t tool_registry \<Rightarrow> tool_info list" where
  "list_tools reg = map (\<lambda>(_, _, info). info) reg"

definition find_tools_by_capability :: "'t tool_registry \<Rightarrow> string \<Rightarrow> tool_info list" where
  "find_tools_by_capability reg c =
     filter (\<lambda>info. py_lower c \<in> set (map py_lower (ti_capabilities info))) (list_tools reg)"

definition find_tools_by_category :: "'t tool_registry \<Rightarrow> string \<Rightarrow> tool_info list" where
  "find_tools_by_category reg c =
     filter (\<lambda>info. (case ti_category info of Some x \<Rightarrow> x | None \<Rightarrow> []) = c) (list_tools reg)"

definition find_tools_by_version :: "'t tool_registry \<Rightarrow> string \<Rightarrow> tool_info list" where
  "find_tools_by_version reg v = filter (\<lambda>info. ti_version info = Some v) (list_tools reg)"

definition find_available_tools :: "'t tool_registry \<Rightarrow> tool_info list" where
  "find_available_tools reg = filter ti_available (list_tools reg)"

definition set_availability :: "string \<Rightarrow> bool \<Rightarrow> 't tool_registry \<Rightarrow> bool \<times> 't tool_registry" where
  "set_availability i b reg =
     (case map_of reg i of
        None \<Rightarrow> (False, reg)
      | Some (tool, info) \<Rightarrow> (True, AList.update i (tool, info\<lparr>ti_available := b\<rparr>) reg))"

definition validate_dependencies :: "'t tool_registry \<Rightarrow> string list \<Rightarrow> bool" where
  "validate_dependencies reg ids = list_all (\<lambda>i. dict_has i reg) ids"

definition validate_tool_capabilities :: "'t tool_registry \<Rightarrow> string \<Rightarrow> string list \<Rightarrow> bool" where
  "validate_tool_capabilities reg i required =
     (case find (\<lambda>info. ti_tool_id info = i) (list_tools reg) of
        Some info \<Rightarrow> list_all (\<lambda>c. c \<in> set (ti_capabilities info)) required | None \<Rightarrow> False)"

section \<open>Capability domains\<close>

record capability_entry =
  ca_domain :: string
  ca_tool_id :: "string option"
  ca_supported_actions :: "string list"
  ca_permissions :: "string list"
  ca_availability :: capability_availability
  ca_side_effect_actions :: "string list"
  ca_advertised :: bool

type_synonym domain_registry = "(string, capability_entry) dict"

definition domain_registry_of :: "capability_entry list \<Rightarrow> domain_registry" where
  "domain_registry_of entries = fold (\<lambda>e. AList.update (py_lower (ca_domain e)) e) entries []"

definition entry_for :: "domain_registry \<Rightarrow> string \<Rightarrow> capability_entry option" where
  "entry_for reg domain = map_of reg (py_lower domain)"

definition is_installed :: "domain_registry \<Rightarrow> string \<Rightarrow> bool" where
  "is_installed reg domain =
     (case entry_for reg domain of
        Some e \<Rightarrow> opt_nonempty (ca_tool_id e) \<and> ca_availability e \<noteq> CAPABILITY_UNAVAILABLE | None \<Rightarrow> False)"

definition is_action_available :: "domain_registry \<Rightarrow> string \<Rightarrow> string \<Rightarrow> bool" where
  "is_action_available reg domain action =
     (is_installed reg domain \<and>
      (case entry_for reg domain of Some e \<Rightarrow> action \<in> set (ca_supported_actions e) | None \<Rightarrow> False))"

definition register_domain ::
  "capability_entry \<Rightarrow> domain_registry \<Rightarrow> (string, domain_registry) result" where
  "register_domain e reg =
     (if dict_has (py_lower (ca_domain e)) reg then Inl (''Capability domain already installed: '' @ ca_domain e)
      else Inr (AList.update (py_lower (ca_domain e)) e reg))"

definition unregister_domain :: "string \<Rightarrow> domain_registry \<Rightarrow> bool \<times> domain_registry" where
  "unregister_domain domain reg = (dict_has (py_lower domain) reg, AList.delete (py_lower domain) reg)"

definition tool_for :: "domain_registry \<Rightarrow> string \<Rightarrow> string option" where
  "tool_for reg domain = (case entry_for reg domain of Some e \<Rightarrow> ca_tool_id e | None \<Rightarrow> None)"

definition capability_of_info :: "string \<Rightarrow> tool_info \<Rightarrow> capability_entry" where
  "capability_of_info domain info =
     \<lparr>ca_domain = domain, ca_tool_id = (if ti_available info then Some (ti_tool_id info) else None),
      ca_supported_actions =
        (if ti_supported_actions info \<noteq> [] then ti_supported_actions info else ti_capabilities info),
      ca_permissions = ti_permissions info,
      ca_availability = (if ti_available info then ti_execution_mode info else CAPABILITY_UNAVAILABLE),
      ca_side_effect_actions = ti_side_effect_actions info,
      ca_advertised = (ti_advertised info \<and> ti_available info)\<rparr>"

definition absent_capability :: "string \<Rightarrow> capability_entry" where
  "absent_capability domain =
     \<lparr>ca_domain = domain, ca_tool_id = None, ca_supported_actions = [], ca_permissions = [],
      ca_availability = CAPABILITY_UNAVAILABLE, ca_side_effect_actions = [], ca_advertised = False\<rparr>"

definition from_tool_registry :: "'t tool_registry \<Rightarrow> domain_registry" where
  "from_tool_registry reg =
     (let infos = filter (\<lambda>info. opt_nonempty (ti_product_domain info)) (list_tools reg);
          entries = map (\<lambda>info. capability_of_info (the (ti_product_domain info)) info) infos
      in domain_registry_of
           (entries @ map absent_capability
              (filter (\<lambda>d. d \<notin> set (map ca_domain entries)) [''browser'', ''media''])))"

section \<open>Arguments and permissions\<close>

text \<open>
  A schema whose bounds are no numbers, whose choices are no collection or whose type cannot be hashed makes the
  code raise a \<open>TypeError\<close>, which is \<open>None\<close> here. \<open>vn_number\<close> reads the token of a float and \<open>vn_show\<close> prints
  a value, \<open>vn_type\<close> the name of its class.
\<close>

record validator_env =
  vn_number :: "string \<Rightarrow> rat"
  vn_show :: "pyval \<Rightarrow> string"
  vn_type :: "pyval \<Rightarrow> string"

definition number_of :: "validator_env \<Rightarrow> pyval \<Rightarrow> rat option" where
  "number_of N v =
     (case v of PInt i \<Rightarrow> Some (of_int i) | PBool b \<Rightarrow> Some (if b then 1 else 0)
      | PFloat t \<Rightarrow> Some (vn_number N t) | _ \<Rightarrow> None)"

datatype expected_kind = KindStr | KindInt | KindFloat | KindNumber | KindBool | KindList | KindDict

definition type_checks :: "(string, expected_kind \<times> string) dict" where
  "type_checks =
     [(''string'', KindStr, ''string''), (''int'', KindInt, ''integer''), (''integer'', KindInt, ''integer''),
      (''float'', KindFloat, ''float''), (''number'', KindNumber, ''number''), (''bool'', KindBool, ''boolean''),
      (''boolean'', KindBool, ''boolean''), (''list'', KindList, ''list''), (''array'', KindList, ''array''),
      (''dict'', KindDict, ''object''), (''object'', KindDict, ''object'')]"

fun is_instance :: "expected_kind \<Rightarrow> pyval \<Rightarrow> bool" where
  "is_instance KindStr v = (case v of PStr _ \<Rightarrow> True | PEnum _ \<Rightarrow> True | _ \<Rightarrow> False)"
| "is_instance KindInt v = (case v of PInt _ \<Rightarrow> True | PBool _ \<Rightarrow> True | _ \<Rightarrow> False)"
| "is_instance KindFloat v = (case v of PFloat _ \<Rightarrow> True | _ \<Rightarrow> False)"
| "is_instance KindNumber v = (case v of PInt _ \<Rightarrow> True | PBool _ \<Rightarrow> True | PFloat _ \<Rightarrow> True | _ \<Rightarrow> False)"
| "is_instance KindBool v = (case v of PBool _ \<Rightarrow> True | _ \<Rightarrow> False)"
| "is_instance KindList v = (case v of PList _ \<Rightarrow> True | _ \<Rightarrow> False)"
| "is_instance KindDict v = (case v of PDict _ \<Rightarrow> True | _ \<Rightarrow> False)"

definition is_bool :: "pyval \<Rightarrow> bool" where
  "is_bool v = (case v of PBool _ \<Rightarrow> True | _ \<Rightarrow> False)"

definition kind_refused :: "expected_kind \<Rightarrow> pyval \<Rightarrow> bool" where
  "kind_refused k v =
     ((\<not> is_instance k v \<or> is_bool v \<and> k = KindInt) \<and>
      \<not> (k = KindFloat \<and> is_instance KindNumber v \<and> \<not> is_bool v))"

text \<open>\<open>spec.get(a, spec.get(b))\<close>, \<open>PNone\<close> when both are absent.\<close>

definition spec_value :: "(string, pyval) dict \<Rightarrow> string \<Rightarrow> string \<Rightarrow> pyval" where
  "spec_value spec a b =
     (case map_of spec a of Some v \<Rightarrow> v
      | None \<Rightarrow> (case map_of spec b of Some v \<Rightarrow> v | None \<Rightarrow> PNone))"

text \<open>One bound: the errors it adds.\<close>

definition bound_errors ::
  "validator_env \<Rightarrow> pyval \<Rightarrow> (rat \<Rightarrow> bool) \<Rightarrow> string \<Rightarrow> string list option" where
  "bound_errors N bound violated message =
     (if bound = PNone then Some []
      else map_option (\<lambda>b. if violated b then [message @ py_str (vn_show N) bound] else []) (number_of N bound))"

definition text_of :: "pyval \<Rightarrow> string" where
  "text_of v = (case v of PStr s \<Rightarrow> s | PEnum s \<Rightarrow> s | _ \<Rightarrow> [])"

definition among_choices :: "pyval \<Rightarrow> string \<Rightarrow> bool option" where
  "among_choices choices value =
     (case choices of
        PList vs \<Rightarrow> Some (list_ex (\<lambda>v. is_instance KindStr v \<and> text_of v = value) vs)
      | PTuple vs \<Rightarrow> Some (list_ex (\<lambda>v. is_instance KindStr v \<and> text_of v = value) vs)
      | PDict fs \<Rightarrow> Some (dict_has value fs)
      | PStr t \<Rightarrow> Some (py_contains t value)
      | PEnum t \<Rightarrow> Some (py_contains t value)
      | _ \<Rightarrow> None)"

definition enum_errors :: "validator_env \<Rightarrow> string \<Rightarrow> pyval \<Rightarrow> string \<Rightarrow> string list option" where
  "enum_errors N prefix choices value =
     (if \<not> truthy choices then Some []
      else map_option (\<lambda>found. if found then [] else [prefix @ ''must be one of '' @ vn_show N choices])
             (among_choices choices value))"

definition concat_errors :: "string list option list \<Rightarrow> string list option" where
  "concat_errors es = (if None \<in> set es then None else Some (concat (map the es)))"

definition string_errors :: "validator_env \<Rightarrow> string \<Rightarrow> (string, pyval) dict \<Rightarrow> string \<Rightarrow> string list option" where
  "string_errors N prefix spec s =
     concat_errors
       [bound_errors N (spec_value spec ''max_length'' ''maxLength'') (\<lambda>b. b < of_nat (length s))
          (prefix @ ''exceeds max length ''),
        bound_errors N (spec_value spec ''min_length'' ''minLength'') (\<lambda>b. of_nat (length s) < b)
          (prefix @ ''below min length ''),
        enum_errors N prefix (spec_value spec ''enum'' ''enum'') s]"

definition number_errors :: "validator_env \<Rightarrow> string \<Rightarrow> (string, pyval) dict \<Rightarrow> rat \<Rightarrow> string list option" where
  "number_errors N prefix spec x =
     concat_errors
       [bound_errors N (spec_value spec ''min'' ''minimum'') (\<lambda>b. x < b) (prefix @ ''below minimum ''),
        bound_errors N (spec_value spec ''max'' ''maximum'') (\<lambda>b. b < x) (prefix @ ''above maximum '')]"

definition argument_prefix :: "string \<Rightarrow> string \<Rightarrow> string" where
  "argument_prefix tool field = tool @ '': argument '' @ [CHR 0x27] @ field @ [CHR 0x27] @ '' ''"

definition value_errors ::
  "validator_env \<Rightarrow> string \<Rightarrow> string \<Rightarrow> (string, pyval) dict \<Rightarrow> pyval \<Rightarrow> string list option" where
  "value_errors N tool field spec value =
     (let prefix = argument_prefix tool field;
          expected = (case map_of spec ''type'' of Some v \<Rightarrow> as_str (Some v) | None \<Rightarrow> Some ''string'');
          check = (case expected of Some e \<Rightarrow> map_of type_checks e | None \<Rightarrow> None)
      in if (case map_of spec ''type'' of Some (PList _) \<Rightarrow> True | Some (PDict _) \<Rightarrow> True | _ \<Rightarrow> False) then None
         else case check of
           Some (k, label) \<Rightarrow>
             (if kind_refused k value
              then Some [prefix @ ''must be a '' @ label @ '', got '' @ vn_type N value]
              else if expected = Some ''string'' \<and> is_instance KindStr value then
                string_errors N prefix spec (text_of value)
              else if expected \<in> Some ` {''int'', ''integer'', ''float'', ''number''} \<and> \<not> is_bool value then
                (case number_of N value of Some x \<Rightarrow> number_errors N prefix spec x | None \<Rightarrow> Some [])
              else Some [])
         | None \<Rightarrow> Some [])"

definition field_errors ::
  "validator_env \<Rightarrow> string \<Rightarrow> (string, pyval) dict \<Rightarrow> string \<times> pyval \<Rightarrow> string list option" where
  "field_errors N tool args entry =
     (case entry of
        (field, PDict spec) \<Rightarrow>
          (case map_of args field of
             None \<Rightarrow>
               Some (if opt_truthy (map_of spec ''required'')
                     then [tool @ '': missing required argument '' @ [CHR 0x27] @ field @ [CHR 0x27]] else [])
           | Some value \<Rightarrow> value_errors N tool field spec value)
      | _ \<Rightarrow> Some [])"

text \<open>The object form of a schema, rewritten to the flat one.\<close>

definition flat_schema :: "(string, pyval) dict \<Rightarrow> (string, pyval) dict option" where
  "flat_schema schema =
     (case (map_of schema ''type'', map_of schema ''properties'') of
        (Some ty, Some (PDict properties)) \<Rightarrow>
          (if as_str (Some ty) \<noteq> Some ''object'' then Some schema
           else map_option (\<lambda>required. List.map_filter (\<lambda>(name, spec). case spec of
                     PDict s \<Rightarrow> Some (name, PDict (AList.update ''required'' (PBool (PStr name \<in> set required)) s))
                   | _ \<Rightarrow> None) properties)
                  (case map_of schema ''required'' of
                     Some v \<Rightarrow> if truthy v then py_tuple (Some v) else Some [] | None \<Rightarrow> Some []))
      | _ \<Rightarrow> Some schema)"

definition empty_errors :: "string \<Rightarrow> (string, pyval) dict \<Rightarrow> string list" where
  "empty_errors tool args =
     List.map_filter (\<lambda>key. case map_of args key of
         Some v \<Rightarrow> if v = PNone \<or> is_instance KindStr v \<and> py_strip (text_of v) = []
                   then Some (argument_prefix tool key @ ''must not be empty'') else None
       | None \<Rightarrow> None) [''path'', ''url'', ''command'', ''query'']"

definition validate_arguments ::
  "validator_env \<Rightarrow> string \<Rightarrow> (string, pyval) dict \<Rightarrow> (string, pyval) dict \<Rightarrow> string list option" where
  "validate_arguments N tool args schema =
     (if schema = [] then Some []
      else case flat_schema schema of
        None \<Rightarrow> None
      | Some flat \<Rightarrow>
          map_option (\<lambda>es. es @ empty_errors tool args) (concat_errors (map (field_errors N tool args) flat)))"

definition missing_permissions :: "tool_policy \<Rightarrow> tool_context \<Rightarrow> tool_permission list" where
  "missing_permissions policy c = filter (\<lambda>p. \<not> permits c p) (tp_permissions policy)"

section \<open>Health and memory\<close>

datatype tool_status = TOOL_AVAILABLE | TOOL_UNAVAILABLE | TOOL_ERROR | TOOL_DISABLED

definition status_of_text :: "string \<Rightarrow> tool_status" where
  "status_of_text s =
     (if s = ''available'' then TOOL_AVAILABLE else if s = ''error'' then TOOL_ERROR
      else if s = ''disabled'' then TOOL_DISABLED else TOOL_UNAVAILABLE)"

text \<open>What \<open>health_check\<close> comes to: absent, \<open>False\<close>, a text, another value, an exception.\<close>

datatype health_answer = NoChecker | CheckFalse | CheckText string | CheckOther | CheckRaised string

fun checked_status :: "health_answer \<Rightarrow> tool_status" where
  "checked_status NoChecker = TOOL_AVAILABLE"
| "checked_status CheckFalse = TOOL_UNAVAILABLE"
| "checked_status (CheckText s) = status_of_text s"
| "checked_status CheckOther = TOOL_AVAILABLE"
| "checked_status (CheckRaised e) = TOOL_ERROR"

type_synonym health_cache = "(string, tool_status \<times> nat) dict"

definition HEALTH_TTL :: nat where "HEALTH_TTL = 30000"

definition check_health :: "nat \<Rightarrow> health_answer \<Rightarrow> string \<Rightarrow> health_cache \<Rightarrow> tool_status \<times> health_cache" where
  "check_health now answer i cache =
     (case map_of cache i of
        Some (s, since) \<Rightarrow>
          if HEALTH_TTL < now - since then (checked_status answer, AList.update i (checked_status answer, now) cache)
          else (s, cache)
      | None \<Rightarrow> (checked_status answer, AList.update i (checked_status answer, now) cache))"

definition TOOL_SECRET_MARKERS :: "string list" where
  "TOOL_SECRET_MARKERS =
     [''token'', ''password'', ''secret'', ''api_key'', ''apikey'', ''credential'', ''oauth'', ''bearer'',
      ''authorization'', ''private_key'']"

definition tool_secret_key :: "string \<Rightarrow> bool" where
  "tool_secret_key key = list_ex (\<lambda>m. py_contains (py_lower key) m) TOOL_SECRET_MARKERS"

record usage_entry =
  ue_tool_id :: string
  ue_action :: string
  ue_status :: string
  ue_user_id :: string

record tool_memory =
  tm_history :: "usage_entry list"
  tm_preferences :: "(string, (string, pyval) dict) dict"
  tm_permissions :: "(string, string) dict"
  tm_config :: "(string, (string, pyval) dict) dict"

definition USAGE_CAPACITY :: nat where "USAGE_CAPACITY = 500"

definition last_n :: "nat \<Rightarrow> 'a list \<Rightarrow> 'a list" where
  "last_n n xs = drop (length xs - n) xs"

definition record_tool_usage :: "usage_entry \<Rightarrow> tool_memory \<Rightarrow> tool_memory" where
  "record_tool_usage u m = m\<lparr>tm_history := last_n USAGE_CAPACITY (tm_history m @ [u])\<rparr>"

definition store_nested ::
  "string \<Rightarrow> string \<Rightarrow> pyval \<Rightarrow> (string, (string, pyval) dict) dict \<Rightarrow> (string, (string, pyval) dict) dict" where
  "store_nested i k v d =
     AList.update i (AList.update k v (case map_of d i of Some e \<Rightarrow> e | None \<Rightarrow> [])) d"

definition record_preference ::
  "string \<Rightarrow> string \<Rightarrow> pyval \<Rightarrow> tool_memory \<Rightarrow> (string, tool_memory) result" where
  "record_preference i k v m =
     (if tool_secret_key k
      then Inl (''refusing to store secret preference '' @ [CHR 0x27] @ k @ [CHR 0x27])
      else Inr (m\<lparr>tm_preferences := store_nested i k v (tm_preferences m)\<rparr>))"

definition set_tool_config :: "string \<Rightarrow> string \<Rightarrow> pyval \<Rightarrow> tool_memory \<Rightarrow> (string, tool_memory) result" where
  "set_tool_config i k v m =
     (if tool_secret_key k then Inl (''refusing to store secret config '' @ [CHR 0x27] @ k @ [CHR 0x27])
      else Inr (m\<lparr>tm_config := store_nested i k v (tm_config m)\<rparr>))"

definition set_tool_permission :: "string \<Rightarrow> string \<Rightarrow> tool_memory \<Rightarrow> tool_memory" where
  "set_tool_permission i decision m = m\<lparr>tm_permissions := AList.update i decision (tm_permissions m)\<rparr>"

definition usage_history :: "string option \<Rightarrow> nat \<Rightarrow> tool_memory \<Rightarrow> usage_entry list" where
  "usage_history i limit m =
     (let rs = (case i of None \<Rightarrow> tm_history m | Some i \<Rightarrow> filter (\<lambda>r. ue_tool_id r = i) (tm_history m))
      in if limit = 0 then rs else last_n limit rs)"

end
