(* ===== verification/Tool_Dispatcher.thy ===== *)
theory Tool_Dispatcher
  imports Tool_Framework
begin

text \<open>
  The tool dispatcher (\<open>app/tools/framework/dispatcher.py\<close>) and the tool manager over it
  (\<open>app/tools/manager.py\<close>): resolution, health, permissions, arguments, the attempts of one call,
  and calls in the order of their dependencies. The answer of each attempt is an argument. Calls
  that the code starts concurrently are taken in their order.
\<close>

section \<open>The attempts of one call\<close>

text \<open>
  What one run of a tool comes to: a result, another value, the time limit, a \<open>ToolTimeoutError\<close> or
  another \<open>ToolError\<close> of its own, any other exception, or the cancellation of the task.
\<close>

datatype tool_answer =
    ToolAnswered tool_result | OtherValue pyval | RunTimedOut | OwnTimeout string | OwnError string
  | RunRaised string | RunCancelled

text \<open>The outcome of a call: its result with status, retries and error; \<open>None\<close> when it is cancelled.\<close>

type_synonym attempt_outcome = "(tool_result \<times> string \<times> nat \<times> string option) option"

definition error_result :: "string \<Rightarrow> tool_result" where
  "error_result e = \<lparr>tr_ok = False, tr_data = [], tr_error = Some e, tr_metadata = []\<rparr>"

text \<open>\<open>runs\<close> counts the calls of \<open>tool.run\<close>.\<close>

function run_attempts ::
  "(nat \<Rightarrow> bool) \<Rightarrow> (nat \<Rightarrow> tool_answer) \<Rightarrow> string \<Rightarrow> string \<Rightarrow> int \<Rightarrow> nat \<Rightarrow> attempt_outcome \<times> nat" where
  "run_attempts cancelled answer tool limit retries attempt =
     (if cancelled attempt
      then (Some (error_result ''Execution cancelled'', ''cancelled'', attempt, Some ''Execution cancelled''), 0)
      else
        (case answer attempt of
           ToolAnswered r \<Rightarrow> (Some (r, if tr_ok r then ''ok'' else ''failed'', attempt, tr_error r), 1)
         | OtherValue v \<Rightarrow>
             (Some (\<lparr>tr_ok = True, tr_data = [(''output'', v)], tr_error = None, tr_metadata = []\<rparr>,
                    ''ok'', attempt, None), 1)
         | RunTimedOut \<Rightarrow>
             (if int attempt < retries
              then (case run_attempts cancelled answer tool limit retries (Suc attempt) of (r, n) \<Rightarrow> (r, Suc n))
              else (Some (error_result limit, ''timeout'', attempt, Some limit), 1))
         | OwnTimeout e \<Rightarrow>
             (if int attempt < retries
              then (case run_attempts cancelled answer tool limit retries (Suc attempt) of (r, n) \<Rightarrow> (r, Suc n))
              else (Some (error_result e, ''timeout'', attempt, Some e), 1))
         | OwnError e \<Rightarrow> (Some (error_result e, ''failed'', attempt, Some e), 1)
         | RunRaised e \<Rightarrow>
             (let message = ''Tool '' @ [CHR 0x27] @ tool @ [CHR 0x27] @ '' failed: '' @ e
              in (Some (error_result message, ''failed'', attempt, Some message), 1))
         | RunCancelled \<Rightarrow> (None, 1)))"
  by pat_completeness auto
termination
  by (relation "measure (\<lambda>(_, _, _, _, retries, attempt). nat (retries - int attempt))") auto

declare run_attempts.simps [simp del]

section \<open>One call\<close>

record tool_report =
  tx_tool_id :: string
  tx_capability :: string
  tx_action :: string
  tx_status :: string
  tx_retries :: nat
  tx_error :: "string option"
  tx_output :: "(string, pyval) dict option"

record tool_dispatcher =
  td_health :: health_cache
  td_memory :: tool_memory
  td_reports :: "tool_report list"

text \<open>
  What one call reads of the world: the health the tool reports, the clock, the flags of a
  cancellation event and the answers of its attempts, the printed number of seconds of a limit.
\<close>

record call_env =
  ne_validator :: validator_env
  ne_health :: health_answer
  ne_now :: nat
  ne_cancelled :: "nat \<Rightarrow> bool"
  ne_answer :: "nat \<Rightarrow> tool_answer"
  ne_seconds :: "nat \<Rightarrow> string"

definition call_action :: "call_env \<Rightarrow> (string, pyval) dict \<Rightarrow> string" where
  "call_action V args =
     (case map_of args ''action'' of Some v \<Rightarrow> py_str (vn_show (ne_validator V)) v | None \<Rightarrow> [])"

definition record_report ::
  "call_env \<Rightarrow> string \<Rightarrow> string \<Rightarrow> (string, pyval) dict \<Rightarrow> string \<Rightarrow> nat \<Rightarrow> string option \<Rightarrow> tool_result \<Rightarrow>
   tool_dispatcher \<Rightarrow> tool_dispatcher" where
  "record_report V tool capability args status retries error result st =
     st\<lparr>td_reports := td_reports st @
        [\<lparr>tx_tool_id = tool, tx_capability = capability, tx_action = call_action V args, tx_status = status,
          tx_retries = retries, tx_error = error,
          tx_output = (if tr_ok result then Some (tr_data result) else None)\<rparr>]\<rparr>"

definition fail_call ::
  "call_env \<Rightarrow> string \<Rightarrow> string \<Rightarrow> string \<Rightarrow> string \<Rightarrow> (string, pyval) dict \<Rightarrow> tool_dispatcher \<Rightarrow>
   tool_result \<times> tool_dispatcher" where
  "fail_call V tool capability status error args st =
     (error_result error, record_report V tool capability args status 0 (Some error) (error_result error) st)"

definition policy_for :: "tool_info \<Rightarrow> tool_policy" where
  "policy_for info = (case ti_policy info of Some p \<Rightarrow> p | None \<Rightarrow> default_tool_policy)"

text \<open>\<open>context.timeout_s or policy.default_timeout_s or 30.0\<close>.\<close>

definition timeout_for :: "tool_policy \<Rightarrow> tool_context \<Rightarrow> nat" where
  "timeout_for policy c =
     (case tc_timeout c of
        Some t \<Rightarrow> if t \<noteq> 0 then t else if tp_default_timeout policy \<noteq> 0 then tp_default_timeout policy else 30000
      | None \<Rightarrow> if tp_default_timeout policy \<noteq> 0 then tp_default_timeout policy else 30000)"

definition retries_for :: "tool_info \<Rightarrow> string \<Rightarrow> int" where
  "retries_for info action =
     (if action \<in> set (ti_side_effect_actions info) \<and> \<not> tp_idempotent_mutation (policy_for info) then 0
      else tp_max_retries (policy_for info))"

definition timeout_text :: "call_env \<Rightarrow> string \<Rightarrow> nat \<Rightarrow> string" where
  "timeout_text V tool limit =
     ''Tool '' @ [CHR 0x27] @ tool @ [CHR 0x27] @ '' exceeded '' @ ne_seconds V limit @ ''s timeout''"

text \<open>
  A call ends without a result when its task is cancelled or the schema of the tool is malformed; it
  is returned with the number of times the tool ran.
\<close>

datatype call_fault = CallCancelled | SchemaFault

definition run_tool ::
  "call_env \<Rightarrow> string \<Rightarrow> tool_info \<Rightarrow> (string, pyval) dict \<Rightarrow> tool_context \<Rightarrow> tool_dispatcher \<Rightarrow>
   (call_fault, tool_result) result \<times> nat \<times> tool_dispatcher" where
  "run_tool V tool info args c st =
     (let capability = (case ti_category info of Some x \<Rightarrow> x | None \<Rightarrow> ''None''); action = call_action V args;
          (outcome, runs) = run_attempts (ne_cancelled V) (ne_answer V) tool
             (timeout_text V tool (timeout_for (policy_for info) c)) (retries_for info action) 0
      in case outcome of
           None \<Rightarrow> (Inl CallCancelled, runs, st)
         | Some (result, status, retries, error) \<Rightarrow>
             (let st = record_report V tool capability args status retries error result st
              in (Inr result, runs,
                  st\<lparr>td_memory := record_tool_usage
                       \<lparr>ue_tool_id = tool, ue_action = action, ue_status = status, ue_user_id = tc_user_id c\<rparr>
                       (td_memory st)\<rparr>)))"

definition checked_call ::
  "call_env \<Rightarrow> string \<Rightarrow> tool_info \<Rightarrow> (string, pyval) dict \<Rightarrow> tool_context option \<Rightarrow> tool_dispatcher \<Rightarrow>
   (call_fault, tool_result) result \<times> nat \<times> tool_dispatcher" where
  "checked_call V tool info args given st =
     (let capability = (case ti_category info of Some x \<Rightarrow> x | None \<Rightarrow> ''None'');
          missing = (case given of None \<Rightarrow> [] | Some c \<Rightarrow> missing_permissions (policy_for info) c)
      in if missing \<noteq> [] then
           (case fail_call V tool capability ''permission_denied''
                   (''Missing permission(s): '' @ py_join '', '' (map permission_value missing)) args st of
              (r, st) \<Rightarrow> (Inr r, 0, st))
         else
           (case validate_arguments (ne_validator V) tool args (ti_input_schema info) of
              None \<Rightarrow> (Inl SchemaFault, 0, st)
            | Some errors \<Rightarrow>
                (if errors \<noteq> [] then
                   (case fail_call V tool capability ''validation_error'' (py_join ''; '' errors) args st of
                      (r, st) \<Rightarrow> (Inr r, 0, st))
                 else run_tool V tool info args (case given of Some c \<Rightarrow> c | None \<Rightarrow> empty_context) st)))"

definition dispatch_tool ::
  "call_env \<Rightarrow> 't tool_registry \<Rightarrow> string \<Rightarrow> (string, pyval) dict \<Rightarrow> tool_context option \<Rightarrow> tool_dispatcher \<Rightarrow>
   (call_fault, tool_result) result \<times> nat \<times> tool_dispatcher" where
  "dispatch_tool V reg tool args given st =
     (case map_of reg tool of
        None \<Rightarrow>
          (case fail_call V tool [] ''unavailable'' (''Tool not found: '' @ tool) args st of
             (r, st) \<Rightarrow> (Inr r, 0, st))
      | Some (_, info) \<Rightarrow>
          (case check_health (ne_now V) (ne_health V) tool (td_health st) of
             (status, cache) \<Rightarrow>
               (let st = st\<lparr>td_health := cache\<rparr>
                in if status \<noteq> TOOL_AVAILABLE then
                     (case fail_call V tool (case ti_category info of Some x \<Rightarrow> x | None \<Rightarrow> ''None'') ''unavailable''
                             (''Tool '' @ [CHR 0x27] @ tool @ [CHR 0x27] @ '' is unavailable'') args st of
                        (r, st) \<Rightarrow> (Inr r, 0, st))
                   else checked_call V tool info args given st)))"

section \<open>Calls with dependencies\<close>

record tool_call =
  tl_tool_id :: string
  tl_arguments :: "(string, pyval) dict"

datatype order_error = InvalidDependency nat | DependencyCycle | CallInterrupted call_fault

text \<open>Every call of a round runs, in order; the interruption of one ends the whole.\<close>

fun execute_round ::
  "(nat \<Rightarrow> call_env) \<Rightarrow> 't tool_registry \<Rightarrow> tool_call list \<Rightarrow> tool_context option \<Rightarrow> nat list \<Rightarrow>
   tool_dispatcher \<Rightarrow> (order_error, (nat \<times> tool_result) list) result \<times> tool_dispatcher" where
  "execute_round W reg calls c [] st = (Inr [], st)"
| "execute_round W reg calls c (i # is) st =
     (case dispatch_tool (W i) reg (tl_tool_id (calls ! i)) (tl_arguments (calls ! i)) c st of
        (Inl e, _, st) \<Rightarrow> (Inl (CallInterrupted e), st)
      | (Inr r, _, st) \<Rightarrow>
          (case execute_round W reg calls c is st of
             (Inl e, st) \<Rightarrow> (Inl e, st)
           | (Inr rs, st) \<Rightarrow> (Inr ((i, r) # rs), st)))"

definition invalid_dependency :: "nat \<Rightarrow> (nat \<times> int list) list \<Rightarrow> nat option" where
  "invalid_dependency n deps =
     map_option fst (find (\<lambda>(i, ps). list_ex (\<lambda>p. p < 0 \<or> int n \<le> p \<or> p = int i) ps) deps)"

definition prerequisites :: "(nat \<times> int list) list \<Rightarrow> nat \<Rightarrow> nat list" where
  "prerequisites deps i = (case map_of deps i of Some ps \<Rightarrow> map nat ps | None \<Rightarrow> [])"

definition ready_calls :: "(nat \<Rightarrow> nat list) \<Rightarrow> nat list \<Rightarrow> (nat \<times> tool_result) list \<Rightarrow> nat list" where
  "ready_calls req pending results = filter (\<lambda>i. list_all (\<lambda>p. p \<in> fst ` set results) (req i)) pending"

lemma ready_calls_fewer:
  "ready_calls req pending results \<noteq> [] \<Longrightarrow>
     length (filter (\<lambda>i. i \<notin> set (ready_calls req pending results)) pending) < length pending"
  using sum_length_filter_compl [of "\<lambda>i. i \<notin> set (ready_calls req pending results)" pending]
  by (cases "ready_calls req pending results") (auto simp: ready_calls_def filter_eq_Cons_iff)

function execute_levels ::
  "(nat \<Rightarrow> call_env) \<Rightarrow> 't tool_registry \<Rightarrow> tool_call list \<Rightarrow> tool_context option \<Rightarrow> (nat \<Rightarrow> nat list) \<Rightarrow> nat list \<Rightarrow>
   (nat \<times> tool_result) list \<Rightarrow> tool_dispatcher \<Rightarrow>
   (order_error, (nat \<times> tool_result) list) result \<times> tool_dispatcher" where
  "execute_levels W reg calls c req pending results st =
     (if pending = [] then (Inr results, st)
      else if ready_calls req pending results = [] then (Inl DependencyCycle, st)
      else (case execute_round W reg calls c (ready_calls req pending results) st of
              (Inl e, st) \<Rightarrow> (Inl e, st)
            | (Inr rs, st) \<Rightarrow>
                execute_levels W reg calls c req
                  (filter (\<lambda>i. i \<notin> set (ready_calls req pending results)) pending) (results @ rs) st))"
  by pat_completeness auto
termination
  by (relation "measure (\<lambda>(_, _, _, _, _, pending, _, _). length pending)") (auto dest: ready_calls_fewer)

declare execute_levels.simps [simp del]

definition execute_ordered ::
  "(nat \<Rightarrow> call_env) \<Rightarrow> 't tool_registry \<Rightarrow> tool_call list \<Rightarrow> (nat \<times> int list) list \<Rightarrow> tool_context option \<Rightarrow>
   tool_dispatcher \<Rightarrow> (order_error, tool_result list) result \<times> tool_dispatcher" where
  "execute_ordered W reg calls deps c st =
     (case invalid_dependency (length calls) deps of
        Some i \<Rightarrow> (Inl (InvalidDependency i), st)
      | None \<Rightarrow>
          (case execute_levels W reg calls c (prerequisites deps) [0..<length calls] [] st of
             (Inl e, st) \<Rightarrow> (Inl e, st)
           | (Inr rs, st) \<Rightarrow> (Inr (map (\<lambda>i. the (map_of rs i)) [0..<length calls]), st)))"

section \<open>The manager\<close>

record 't tool_manager =
  tn_registry :: "'t tool_registry"
  tn_dispatcher :: tool_dispatcher
  tn_executions :: nat
  tn_failures :: nat

definition execute_tool ::
  "call_env \<Rightarrow> string \<Rightarrow> (string, pyval) dict \<Rightarrow> tool_context option \<Rightarrow> 't tool_manager \<Rightarrow>
   (call_fault, tool_result) result \<times> nat \<times> 't tool_manager" where
  "execute_tool V tool args c m =
     (case dispatch_tool V (tn_registry m) tool args c (tn_dispatcher m) of
        (Inl e, runs, st) \<Rightarrow> (Inl e, runs, m\<lparr>tn_dispatcher := st\<rparr>)
      | (Inr r, runs, st) \<Rightarrow>
          (Inr r, runs,
           m\<lparr>tn_dispatcher := st, tn_executions := Suc (tn_executions m),
             tn_failures := (if tr_ok r then tn_failures m else Suc (tn_failures m))\<rparr>))"

section \<open>How often a tool runs\<close>

lemma run_attempts_bound:
  "snd (run_attempts cancelled answer tool limit retries attempt) \<le> Suc (nat (retries - int attempt))"
proof (induction cancelled answer tool limit retries attempt rule: run_attempts.induct)
  case (1 cancelled answer tool limit retries attempt)
  have step: "snd (case r of (r, n) \<Rightarrow> (r, Suc n)) \<le> Suc (nat (retries - int attempt))"
    if "snd r \<le> Suc (nat (retries - int (Suc attempt)))" "int attempt < retries" for r :: "attempt_outcome \<times> nat"
    using that by (cases r) simp
  show ?case
    using 1 step by (subst run_attempts.simps) (auto simp: Let_def split: tool_answer.split)
qed

text \<open>An attempt that comes to an end of its own is the last; only a time limit is tried again.\<close>

definition timed_out :: "tool_answer \<Rightarrow> bool" where
  "timed_out a = (case a of RunTimedOut \<Rightarrow> True | OwnTimeout _ \<Rightarrow> True | _ \<Rightarrow> False)"

lemma run_attempts_earlier:
  "k + 1 < snd (run_attempts cancelled answer tool limit retries attempt) \<Longrightarrow>
     timed_out (answer (attempt + k)) \<and> \<not> cancelled (attempt + k)"
proof (induction cancelled answer tool limit retries attempt arbitrary: k rule: run_attempts.induct)
  case (1 cancelled answer tool limit retries attempt)
  let ?next = "run_attempts cancelled answer tool limit retries (Suc attempt)"
  from 1(3) have go: "\<not> cancelled attempt" "timed_out (answer attempt)" "int attempt < retries" "k < snd ?next"
    by (subst (asm) run_attempts.simps, auto simp: timed_out_def Let_def split: if_splits tool_answer.splits prod.splits)+
  show ?case
  proof (cases k)
    case (Suc j)
    then have j: "j + 1 < snd ?next" using go(4) by simp
    from go(2) consider "answer attempt = RunTimedOut" | e where "answer attempt = OwnTimeout e"
      by (auto simp: timed_out_def split: tool_answer.splits)
    then have "timed_out (answer (Suc attempt + j)) \<and> \<not> cancelled (Suc attempt + j)"
      by cases (use 1(1,2) go(1,3) j in blast)+
    with Suc show ?thesis by simp
  qed (use go in simp)
qed

lemma dispatch_runs:
  assumes "dispatch_tool V reg tool args given st = (r, runs, st')" "runs \<noteq> 0"
  shows "\<exists>t info. map_of reg tool = Some (t, info) \<and>
    fst (check_health (ne_now V) (ne_health V) tool (td_health st)) = TOOL_AVAILABLE \<and>
    (case given of None \<Rightarrow> True | Some c \<Rightarrow> missing_permissions (policy_for info) c = []) \<and>
    validate_arguments (ne_validator V) tool args (ti_input_schema info) = Some [] \<and>
    runs \<le> Suc (nat (retries_for info (call_action V args)))"
proof -
  obtain t info where tool: "map_of reg tool = Some (t, info)"
    using assms by (cases "map_of reg tool") (auto simp: dispatch_tool_def fail_call_def)
  obtain s cache where health: "check_health (ne_now V) (ne_health V) tool (td_health st) = (s, cache)" by fastforce
  let ?st = "st\<lparr>td_health := cache\<rparr>"
  have s: "s = TOOL_AVAILABLE" and c: "checked_call V tool info args given ?st = (r, runs, st')"
    using assms tool health by (auto simp: dispatch_tool_def fail_call_def Let_def split: if_splits)
  define missing where "missing = (case given of None \<Rightarrow> [] | Some c \<Rightarrow> missing_permissions (policy_for info) c)"
  from c assms(2) have m: "missing = []" "validate_arguments (ne_validator V) tool args (ti_input_schema info) = Some []"
    by (auto simp: checked_call_def Let_def fail_call_def missing_def [symmetric] split: if_splits option.splits)
  then have "\<exists>c. run_tool V tool info args c ?st = (r, runs, st')"
    using c by (auto simp: checked_call_def Let_def missing_def [symmetric])
  then obtain c where run: "run_tool V tool info args c ?st = (r, runs, st')" ..
  let ?limit = "timeout_text V tool (timeout_for (policy_for info) c)"
  have "runs = snd (run_attempts (ne_cancelled V) (ne_answer V) tool ?limit (retries_for info (call_action V args)) 0)"
    using run by (auto simp: run_tool_def Let_def split: prod.splits option.splits)
  then have "runs \<le> Suc (nat (retries_for info (call_action V args)))"
    using run_attempts_bound [of "ne_cancelled V" "ne_answer V" tool ?limit "retries_for info (call_action V args)" 0]
    by simp
  with tool health s m show ?thesis by (auto simp: missing_def split: option.splits)
qed

end
