(* ===== verification/Python_Library.thy ===== *)
theory Python_Library
  imports Evidence_Sanitizer "HOL-Library.Word" "HOL-Library.Sublist"
begin

text \<open>
  What the tool boundary uses of Python's standard library, for ASCII text: \<open>shlex.split\<close> in its
  mode without escapes, \<open>urllib.parse.urlparse\<close> with the properties of its result, POSIX paths
  as \<open>pathlib\<close> and \<open>os.path\<close> see them, and the address classes of \<open>ipaddress\<close> (Python 3.12). An
  address is a word of 32 or 128 bits, a network the words that agree with it on a prefix.
\<close>

section \<open>Texts\<close>

text \<open>\<open>s.strip(chars)\<close> and \<open>s.rstrip(chars)\<close>.\<close>

definition strip_chars :: "string \<Rightarrow> string \<Rightarrow> string" where
  "strip_chars cs s = rev (dropWhile (\<lambda>c. c \<in> set cs) (rev (dropWhile (\<lambda>c. c \<in> set cs) s)))"

definition rstrip_chars :: "string \<Rightarrow> string \<Rightarrow> string" where
  "rstrip_chars cs s = rev (dropWhile (\<lambda>c. c \<in> set cs) (rev s))"

text \<open>\<open>s.split(c)\<close> at one character.\<close>

fun split_char :: "char \<Rightarrow> string \<Rightarrow> string list" where
  "split_char c [] = [[]]"
| "split_char c (x # s) =
     (if x = c then [] # split_char c s
      else (case split_char c s of [] \<Rightarrow> [[x]] | w # ws \<Rightarrow> (x # w) # ws))"

text \<open>\<open>s.partition(c)\<close>: the text before the first \<open>c\<close>, and the text behind it if there is one.\<close>

fun partition_at :: "char \<Rightarrow> string \<Rightarrow> string \<times> string option" where
  "partition_at c [] = ([], None)"
| "partition_at c (x # s) =
     (if x = c then ([], Some s) else (case partition_at c s of (a, b) \<Rightarrow> (x # a, b)))"

text \<open>\<open>s.rpartition(c)\<close>: the text before the last \<open>c\<close> if there is one, and the text behind it.\<close>

definition rpartition_at :: "char \<Rightarrow> string \<Rightarrow> string option \<times> string" where
  "rpartition_at c s =
     (case partition_at c (rev s) of (a, b) \<Rightarrow> (map_option rev b, rev a))"

lemma split_char_notin: "w \<in> set (split_char c s) \<Longrightarrow> c \<notin> set w"
  by (induction s arbitrary: w) (auto split: if_splits list.splits)

section \<open>\<open>shlex.split(s, posix=False)\<close>\<close>

datatype shlex_state = BetweenWords | InQuotes char | InWord

definition shlex_space :: "char \<Rightarrow> bool" where
  "shlex_space c = (c \<in> set [CHR '' '', CHR 0x09, CHR 0x0D, CHR 0x0A])"

definition shlex_quote :: "char \<Rightarrow> bool" where
  "shlex_quote c = (c \<in> {CHR 0x22, CHR 0x27})"

text \<open>The token read so far is kept in reverse; \<open>None\<close> is the unclosed quotation.\<close>

fun shlex_from :: "shlex_state \<Rightarrow> string \<Rightarrow> string \<Rightarrow> string list option" where
  "shlex_from (InQuotes q) t [] = None"
| "shlex_from BetweenWords t [] = Some []"
| "shlex_from InWord t [] = Some [rev t]"
| "shlex_from BetweenWords t (c # s) =
     (if shlex_space c then shlex_from BetweenWords [] s
      else if shlex_quote c then shlex_from (InQuotes c) [c] s
      else shlex_from InWord [c] s)"
| "shlex_from (InQuotes q) t (c # s) =
     (if c = q then map_option ((#) (rev (c # t))) (shlex_from BetweenWords [] s)
      else shlex_from (InQuotes q) (c # t) s)"
| "shlex_from InWord t (c # s) =
     (if shlex_space c then map_option ((#) (rev t)) (shlex_from BetweenWords [] s)
      else shlex_from InWord (c # t) s)"

definition shlex_split :: "string \<Rightarrow> string list option" where
  "shlex_split s = shlex_from BetweenWords [] s"

section \<open>\<open>urllib.parse.urlparse\<close>\<close>

text \<open>The part of the result the code reads: the scheme and the network location.\<close>

record parsed_url =
  pu_scheme :: string
  pu_netloc :: string

definition scheme_char :: "char \<Rightarrow> bool" where
  "scheme_char c = (c \<in> set (upper_letters @ lower_letters @ digits @ ''+-.''))"

definition ascii_alpha :: "char \<Rightarrow> bool" where
  "ascii_alpha c = (c \<in> set (upper_letters @ lower_letters))"

definition clean_url :: "string \<Rightarrow> string" where
  "clean_url url =
     filter (\<lambda>c. c \<notin> set [CHR 0x09, CHR 0x0D, CHR 0x0A])
       (dropWhile (\<lambda>c. of_char c \<le> (32 :: nat)) url)"

definition split_scheme :: "string \<Rightarrow> string \<times> string" where
  "split_scheme url =
     (case partition_at (CHR '':'') url of
        (s, Some rest) \<Rightarrow>
          if s \<noteq> [] \<and> ascii_alpha (hd s) \<and> list_all scheme_char s then (py_lower s, rest) else ([], url)
      | (_, None) \<Rightarrow> ([], url))"

text \<open>\<open>bracket_ok\<close> stands for the parser of an address literal in brackets; \<open>None\<close> is the \<open>ValueError\<close>.\<close>

definition urlparse :: "(string \<Rightarrow> bool) \<Rightarrow> string \<Rightarrow> parsed_url option" where
  "urlparse bracket_ok text =
     (case split_scheme (clean_url text) of
        (scheme, rest) \<Rightarrow>
          (let netloc = (if py_startswith rest ''//'' then takeWhile (\<lambda>c. c \<notin> set ''/?#'') (drop 2 rest) else []);
               opens = CHR ''['' \<in> set netloc; closes = CHR '']'' \<in> set netloc
           in if opens \<noteq> closes then None
              else if opens \<and> closes \<and>
                \<not> bracket_ok (fst (partition_at (CHR '']'')
                    (case partition_at (CHR ''['') netloc of (_, Some r) \<Rightarrow> r | (_, None) \<Rightarrow> [])))
              then None
              else Some \<lparr>pu_scheme = scheme, pu_netloc = netloc\<rparr>))"

text \<open>\<open>.username\<close> and \<open>.password\<close>, \<open>None\<close> when absent.\<close>

definition url_userinfo :: "parsed_url \<Rightarrow> string option \<times> string option" where
  "url_userinfo u =
     (case rpartition_at (CHR ''@'') (pu_netloc u) of
        (None, _) \<Rightarrow> (None, None)
      | (Some info, _) \<Rightarrow> (case partition_at (CHR '':'') info of (name, pass) \<Rightarrow> (Some name, pass)))"

text \<open>The host and the port as written.\<close>

definition url_hostinfo :: "parsed_url \<Rightarrow> string \<times> string" where
  "url_hostinfo u =
     (case rpartition_at (CHR ''@'') (pu_netloc u) of
        (_, host) \<Rightarrow>
          (case partition_at (CHR ''['') host of
             (_, Some bracketed) \<Rightarrow>
               (case partition_at (CHR '']'') bracketed of
                  (name, rest) \<Rightarrow>
                    (name, case partition_at (CHR '':'') (case rest of Some r \<Rightarrow> r | None \<Rightarrow> []) of
                             (_, Some p) \<Rightarrow> p | (_, None) \<Rightarrow> []))
           | (_, None) \<Rightarrow>
               (case partition_at (CHR '':'') host of
                  (name, p) \<Rightarrow> (name, case p of Some p \<Rightarrow> p | None \<Rightarrow> []))))"

text \<open>\<open>.hostname\<close>; the empty text stands for \<open>None\<close>, which the code replaces by it.\<close>

definition url_hostname :: "parsed_url \<Rightarrow> string" where
  "url_hostname u =
     (case partition_at (CHR 0x25) (fst (url_hostinfo u)) of
        (name, None) \<Rightarrow> py_lower name
      | (name, Some zone) \<Rightarrow> py_lower name @ [CHR 0x25] @ zone)"

text \<open>\<open>.port\<close>: absent, a number, or the \<open>ValueError\<close> of a text that is none in range.\<close>

definition url_port :: "parsed_url \<Rightarrow> nat option option" where
  "url_port u =
     (let p = snd (url_hostinfo u)
      in if p = [] then Some None
         else if list_all is_digit p \<and> str_nat p \<le> 65535 then Some (Some (str_nat p)) else None)"

section \<open>POSIX paths\<close>

text \<open>A path is absolute or not and has parts, none of them empty or a single dot.\<close>

type_synonym path = "bool \<times> string list"

definition path_of :: "string \<Rightarrow> path" where
  "path_of text =
     (py_startswith text ''/'', filter (\<lambda>p. p \<noteq> [] \<and> p \<noteq> ''.'') (split_char (CHR ''/'') text))"

definition path_text :: "string list \<Rightarrow> string" where
  "path_text parts = ''/'' @ py_join ''/'' parts"

text \<open>\<open>os.path.abspath\<close> of an absolute path: each \<open>..\<close> takes the part before it away.\<close>

definition abspath :: "string list \<Rightarrow> string list" where
  "abspath parts = fold (\<lambda>p acc. if p = ''..'' then butlast acc else acc @ [p]) parts []"

fun common_prefix :: "'a list \<Rightarrow> 'a list \<Rightarrow> 'a list" where
  "common_prefix (x # xs) (y # ys) = (if x = y then x # common_prefix xs ys else [])"
| "common_prefix _ _ = []"

lemma common_prefix_iff: "common_prefix xs ys = ys \<longleftrightarrow> prefix ys xs"
  by (induction xs ys rule: common_prefix.induct) auto

text \<open>The path a resolution returns: parts that \<open>abspath\<close> keeps.\<close>

definition canonical_parts :: "string list \<Rightarrow> bool" where
  "canonical_parts parts = list_all (\<lambda>p. p \<noteq> ''..'' \<and> p \<noteq> ''.'' \<and> p \<noteq> [] \<and> CHR ''/'' \<notin> set p) parts"

lemma abspath_from:
  "list_all (\<lambda>p. p \<noteq> ''..'') parts \<Longrightarrow>
     fold (\<lambda>p acc. if p = ''..'' then butlast acc else acc @ [p]) parts acc = acc @ parts"
  by (induction parts arbitrary: acc) simp_all

lemma abspath_canonical: "canonical_parts parts \<Longrightarrow> abspath parts = parts"
  unfolding abspath_def canonical_parts_def
  using abspath_from [of parts "[]"] by (simp add: list_all_iff)

lemma split_char_append:
  "c \<notin> set a \<Longrightarrow> split_char c (a @ c # s) = a # split_char c s"
  by (induction a) auto

lemma split_char_none: "c \<notin> set a \<Longrightarrow> split_char c a = [a]"
  by (induction a) auto

lemma split_char_join:
  "parts \<noteq> [] \<Longrightarrow> \<forall>p\<in>set parts. c \<notin> set p \<Longrightarrow> split_char c (py_join [c] parts) = parts"
proof (induction "[c]" parts rule: py_join.induct)
  case (3 s t ss)
  then show ?case using split_char_append [of c s "py_join [c] (t # ss)"] by simp
qed (simp_all add: split_char_none)

text \<open>The text of a canonical path reads back as the path.\<close>

lemma path_of_text:
  assumes "canonical_parts parts"
  shows "path_of (path_text parts) = (True, parts)"
proof (cases "parts = []")
  case True
  then show ?thesis by (simp add: path_of_def path_text_def)
next
  case False
  with assms have "split_char (CHR ''/'') (py_join ''/'' parts) = parts"
    by (intro split_char_join) (simp_all add: canonical_parts_def list_all_iff)
  moreover have "filter (\<lambda>p. p \<noteq> [] \<and> p \<noteq> ''.'') parts = parts"
    using assms by (simp add: canonical_parts_def list_all_iff filter_id_conv)
  ultimately show ?thesis by (simp add: path_of_def path_text_def)
qed

section \<open>Addresses\<close>

type_synonym ip4 = "32 word"
type_synonym ip6 = "128 word"

text \<open>What \<open>ipaddress.ip_address\<close> reads; \<open>NoAddress\<close> is a text it rejects.\<close>

datatype ip_address = V4 ip4 | V6 ip6 | NoAddress

text \<open>The network of the words that agree with \<open>net\<close> on the first \<open>n\<close> bits.\<close>

definition in_network :: "'a :: len word \<times> nat \<Rightarrow> 'a word \<Rightarrow> bool" where
  "in_network net a =
     (drop_bit (LENGTH('a) - snd net) a = drop_bit (LENGTH('a) - snd net) (fst net))"

definition in_networks :: "('a :: len word \<times> nat) list \<Rightarrow> 'a word \<Rightarrow> bool" where
  "in_networks nets a = list_ex (\<lambda>net. in_network net a) nets"

definition LOOPBACK4 :: "ip4 \<times> nat" where "LOOPBACK4 = (0x7F000000, 8)"
definition LINK_LOCAL4 :: "ip4 \<times> nat" where "LINK_LOCAL4 = (0xA9FE0000, 16)"
definition MULTICAST4 :: "ip4 \<times> nat" where "MULTICAST4 = (0xE0000000, 4)"
definition RESERVED4 :: "ip4 \<times> nat" where "RESERVED4 = (0xF0000000, 4)"

definition PRIVATE4 :: "(ip4 \<times> nat) list" where
  "PRIVATE4 =
     [(0, 8), (0x0A000000, 8), LOOPBACK4, LINK_LOCAL4, (0xAC100000, 12), (0xC0000000, 24),
      (0xC00000AA, 31), (0xC0000200, 24), (0xC0A80000, 16), (0xC6120000, 15), (0xC6336400, 24),
      (0xCB007100, 24), RESERVED4, (0xFFFFFFFF, 32)]"

definition PRIVATE4_EXCEPTIONS :: "(ip4 \<times> nat) list" where
  "PRIVATE4_EXCEPTIONS = [(0xC0000009, 32), (0xC000000A, 32)]"

definition private4 :: "ip4 \<Rightarrow> bool" where
  "private4 a = (in_networks PRIVATE4 a \<and> \<not> in_networks PRIVATE4_EXCEPTIONS a)"

definition LINK_LOCAL6 :: "ip6 \<times> nat" where
  "LINK_LOCAL6 = (0xFE800000000000000000000000000000, 10)"
definition MULTICAST6 :: "ip6 \<times> nat" where
  "MULTICAST6 = (0xFF000000000000000000000000000000, 8)"

definition RESERVED6 :: "(ip6 \<times> nat) list" where
  "RESERVED6 =
     [(0, 8), (0x01000000000000000000000000000000, 8), (0x02000000000000000000000000000000, 7),
      (0x04000000000000000000000000000000, 6), (0x08000000000000000000000000000000, 5),
      (0x10000000000000000000000000000000, 4), (0x40000000000000000000000000000000, 3),
      (0x60000000000000000000000000000000, 3), (0x80000000000000000000000000000000, 3),
      (0xA0000000000000000000000000000000, 3), (0xC0000000000000000000000000000000, 3),
      (0xE0000000000000000000000000000000, 4), (0xF0000000000000000000000000000000, 5),
      (0xF8000000000000000000000000000000, 6), (0xFE000000000000000000000000000000, 9)]"

definition PRIVATE6 :: "(ip6 \<times> nat) list" where
  "PRIVATE6 =
     [(1, 128), (0, 128), (0xFFFF00000000, 96), (0x0064FF9B000100000000000000000000, 48),
      (0x01000000000000000000000000000000, 64), (0x20010000000000000000000000000000, 23),
      (0x20010DB8000000000000000000000000, 32), (0x20020000000000000000000000000000, 16),
      (0xFC000000000000000000000000000000, 7), LINK_LOCAL6]"

definition PRIVATE6_EXCEPTIONS :: "(ip6 \<times> nat) list" where
  "PRIVATE6_EXCEPTIONS =
     [(0x20010001000000000000000000000001, 128), (0x20010001000000000000000000000002, 128),
      (0x20010003000000000000000000000000, 32), (0x20010004011200000000000000000000, 48),
      (0x20010020000000000000000000000000, 28), (0x20010030000000000000000000000000, 28)]"

definition ipv4_mapped :: "ip6 \<Rightarrow> ip4 option" where
  "ipv4_mapped a = (if drop_bit 32 a = 0xFFFF then Some (ucast a) else None)"

definition private6 :: "ip6 \<Rightarrow> bool" where
  "private6 a =
     (case ipv4_mapped a of
        Some b \<Rightarrow> private4 b
      | None \<Rightarrow> in_networks PRIVATE6 a \<and> \<not> in_networks PRIVATE6_EXCEPTIONS a)"

text \<open>Networks whose base is aligned are intervals of numbers.\<close>

lemma in_network_iff:
  "in_network (net, n) a \<longleftrightarrow>
     unat a div 2 ^ (LENGTH('a :: len) - n) = unat (net :: 'a word) div 2 ^ (LENGTH('a) - n)"
  unfolding in_network_def word_unat_eq_iff unat_drop_bit_eq by (simp add: drop_bit_eq_div)

end
