(* ===== verification/Tool_Security.thy ===== *)
theory Tool_Security
  imports Python_Library Runtime_Gate
begin

text \<open>
  The security policy of the tools (\<open>app/tools/security.py\<close>): which paths, commands, actions of
  the desktop and addresses an authorised operation may touch. The validator has no effect; it
  answers a decision with the arguments the tool is to receive. Paths are POSIX paths. The file
  system (the resolution of links, the existence and the size of a file), the resolver of host
  names and the home directory are the environment. What the code lets escape as an exception is
  the left side of the result.
\<close>

section \<open>Policies, contexts and decisions\<close>

datatype security_reason =
    SEC_ALLOWED | NO_ALLOWED_ROOT | OUTSIDE_ALLOWED_ROOT | UNSUPPORTED_PATH | PROTECTED_TARGET
  | OPERATION_NOT_ALLOWED | OVERWRITE_NOT_ALLOWED | RESOURCE_LIMIT | TARGET_MISMATCH
  | SHELL_EXECUTABLE_DENIED | SHELL_ARGUMENT_DENIED | SHELL_CWD_DENIED | SHELL_ENV_DENIED
  | PROCESS_ACTION_DENIED | PROCESS_RESOURCE_LIMIT | NETWORK_SCHEME_DENIED | NETWORK_HOST_DENIED
  | NETWORK_ADDRESS_DENIED | NETWORK_CREDENTIAL_FORWARDING_DENIED

fun reason_value :: "security_reason \<Rightarrow> string" where
  "reason_value SEC_ALLOWED = ''allowed''"
| "reason_value NO_ALLOWED_ROOT = ''no_allowed_root''"
| "reason_value OUTSIDE_ALLOWED_ROOT = ''outside_allowed_root''"
| "reason_value UNSUPPORTED_PATH = ''unsupported_path''"
| "reason_value PROTECTED_TARGET = ''protected_target''"
| "reason_value OPERATION_NOT_ALLOWED = ''operation_not_allowed''"
| "reason_value OVERWRITE_NOT_ALLOWED = ''overwrite_not_allowed''"
| "reason_value RESOURCE_LIMIT = ''resource_limit''"
| "reason_value TARGET_MISMATCH = ''target_mismatch''"
| "reason_value SHELL_EXECUTABLE_DENIED = ''shell_executable_denied''"
| "reason_value SHELL_ARGUMENT_DENIED = ''shell_argument_denied''"
| "reason_value SHELL_CWD_DENIED = ''shell_cwd_denied''"
| "reason_value SHELL_ENV_DENIED = ''shell_env_denied''"
| "reason_value PROCESS_ACTION_DENIED = ''process_action_denied''"
| "reason_value PROCESS_RESOURCE_LIMIT = ''process_resource_limit''"
| "reason_value NETWORK_SCHEME_DENIED = ''network_scheme_denied''"
| "reason_value NETWORK_HOST_DENIED = ''network_host_denied''"
| "reason_value NETWORK_ADDRESS_DENIED = ''network_address_denied''"
| "reason_value NETWORK_CREDENTIAL_FORWARDING_DENIED = ''network_credential_forwarding_denied''"

text \<open>Roots and protected paths are resolved when a policy is built: absolute, without links.\<close>

record filesystem_policy =
  fp_allowed_roots :: "string list list"
  fp_default_root :: "string list option"
  fp_protected_paths :: "string list list"
  fp_max_read_bytes :: nat
  fp_max_write_bytes :: nat
  fp_max_path_length :: nat

record shell_policy =
  sp_allowed_executables :: "string list"
  sp_allowed_roots :: "string list list"
  sp_default_root :: "string list option"
  sp_max_path_length :: nat
  sp_allowed_env_vars :: "string list"

record process_policy =
  op_max_clipboard_bytes :: nat
  op_allow_clipboard_write :: bool
  op_allow_terminal :: bool

record network_policy =
  np_allowed_schemes :: "string list"
  np_allowed_hosts :: "string list"
  np_blocked_hosts :: "string list"
  np_allow_private_addresses :: bool
  np_allow_localhost :: bool
  np_allowed_ports :: "nat list"
  np_sensitive_header_allowlist :: "string list"

record tool_security =
  ts_filesystem :: filesystem_policy
  ts_shell :: shell_policy
  ts_process :: process_policy
  ts_network :: network_policy

text \<open>The fields of a context the validators read.\<close>

record security_context =
  sx_principal_id :: string
  sx_execution_id :: string
  sx_task_id :: string
  sx_tool_name :: string
  sx_action :: string
  sx_operation_digest :: string
  sx_allowed_roots :: "string list"
  sx_read_allowed :: bool
  sx_write_allowed :: bool
  sx_delete_allowed :: bool
  sx_overwrite_allowed :: bool
  sx_shell_cwd :: "string option"
  sx_network_url :: "string option"
  sx_policy_reference :: string

record security_decision =
  sd_allowed :: bool
  sd_reason :: security_reason
  sd_message :: string
  sd_target :: "string option"
  sd_arguments :: "(string, pyval) dict"
  sd_scope :: "string option"

text \<open>
  Exceptions of the library calls that no branch catches: an \<open>OSError\<close> or a loop of links, a
  value that is no dictionary or cannot be iterated, a malformed URL or port, and a host name that
  has no IDNA form.
\<close>

datatype security_raise = PathUnreadable | NoDictionary | NotIterable | MalformedUrl | MalformedPort | MalformedHost

datatype lookup_answer = Addresses "(ip_address \<times> string) list" | NotFound | HostNotEncodable

record tool_env =
  te_show :: "pyval \<Rightarrow> string"
  te_resolve :: "path \<Rightarrow> string list option"
  te_exists :: "string list \<Rightarrow> bool option"
  te_size :: "string list \<Rightarrow> nat option"
  te_home :: "string list option"
  te_system_root :: "string list option"
  te_bracket_ok :: "string \<Rightarrow> bool"
  te_lookup :: "string \<Rightarrow> lookup_answer"

text \<open>\<open>te_resolve\<close> is \<open>Path.resolve\<close>: its answer has no dots and is its own resolution.\<close>

definition resolves_canonically :: "tool_env \<Rightarrow> bool" where
  "resolves_canonically E \<longleftrightarrow>
     (\<forall>p parts. te_resolve E p = Some parts \<longrightarrow> canonical_parts parts \<and> te_resolve E (True, parts) = Some parts)"

definition sec_allow ::
  "(string, pyval) dict \<Rightarrow> string list option \<Rightarrow> string list option \<Rightarrow> security_decision" where
  "sec_allow args target scope =
     \<lparr>sd_allowed = True, sd_reason = SEC_ALLOWED,
      sd_message = ''Filesystem operation is within the permitted scope.'',
      sd_target = map_option path_text target, sd_arguments = args, sd_scope = map_option path_text scope\<rparr>"

definition sec_deny :: "security_reason \<Rightarrow> string \<Rightarrow> security_decision" where
  "sec_deny reason message =
     \<lparr>sd_allowed = False, sd_reason = reason, sd_message = message, sd_target = None, sd_arguments = [],
      sd_scope = None\<rparr>"

definition context_for ::
  "tool_security \<Rightarrow> string \<Rightarrow> string \<Rightarrow> string \<Rightarrow> string \<Rightarrow> string \<Rightarrow> string \<Rightarrow> security_context" where
  "context_for T owner execution task tool action digest =
     \<lparr>sx_principal_id = owner, sx_execution_id = execution, sx_task_id = task, sx_tool_name = tool,
      sx_action = action, sx_operation_digest = digest,
      sx_allowed_roots = map path_text (fp_allowed_roots (ts_filesystem T)),
      sx_read_allowed = True, sx_write_allowed = True, sx_delete_allowed = True, sx_overwrite_allowed = True,
      sx_shell_cwd = None, sx_network_url = None, sx_policy_reference = ''p7a.filesystem.v1''\<rparr>"

section \<open>Paths\<close>

definition inside_path :: "string list \<Rightarrow> string list \<Rightarrow> bool" where
  "inside_path p root = (common_prefix (abspath p) (abspath root) = abspath root)"

definition same_path :: "string list \<Rightarrow> string list \<Rightarrow> bool" where
  "same_path p q = (abspath p = abspath q)"

text \<open>\<open>_WINDOWS_DEVICE\<close>: a device name, alone or with an extension; \<open>$\<close> admits a final newline.\<close>

definition device_stems :: "string list" where
  "device_stems = [''con'', ''prn'', ''aux'', ''nul''] @
     concat (map (\<lambda>d. [''com'' @ [d], ''lpt'' @ [d]]) ''123456789'')"

definition line_end :: "string \<Rightarrow> bool" where
  "line_end s = (s = [] \<or> s = [CHR 0x0A])"

definition device_rest :: "string \<Rightarrow> bool" where
  "device_rest s =
     (line_end s \<or> (s \<noteq> [] \<and> hd s = CHR ''.'' \<and> line_end (dropWhile (\<lambda>c. c \<noteq> CHR 0x0A) (tl s))))"

definition windows_device :: "string \<Rightarrow> bool" where
  "windows_device part =
     list_ex (\<lambda>stem. py_startswith (py_lower part) stem \<and> device_rest (drop (length stem) part)) device_stems"

definition drive_relative :: "string \<Rightarrow> bool" where
  "drive_relative text =
     (case text of
        d # c # x # _ \<Rightarrow> ascii_alpha d \<and> c = CHR '':'' \<and> x \<notin> {CHR 0x5C, CHR ''/''}
      | _ \<Rightarrow> False)"

definition unquoted_path :: "string \<Rightarrow> string" where
  "unquoted_path raw =
     (let text = strip_chars [CHR 0x27] (strip_chars [CHR 0x22] (py_strip raw))
      in if text = [] then ''.'' else text)"

text \<open>
  The two resolvers differ in the policy's limits and in the reasons and messages of their refusals.
  On POSIX no root begins with two backslashes, so a UNC text is always refused.
\<close>

definition UNC_PREFIX :: string where "UNC_PREFIX = [CHR 0x5C, CHR 0x5C]"

definition path_refusal ::
  "nat \<Rightarrow> string \<Rightarrow> security_reason \<Rightarrow> string \<Rightarrow> string \<Rightarrow> security_decision option" where
  "path_refusal limit text outside subject unc =
     (let lowered = py_replace (CHR ''/'') (CHR 0x5C) (py_lower text)
      in if limit < length text \<or> CHR 0x00 \<in> set text then
           Some (sec_deny UNSUPPORTED_PATH (subject @ '' path is unsupported.''))
         else if drive_relative text then
           Some (sec_deny UNSUPPORTED_PATH (''Drive-relative '' @ py_lower subject @ '' paths are not permitted.''))
         else if py_startswith lowered (UNC_PREFIX @ [CHR ''?'', CHR 0x5C]) \<or>
                 py_startswith lowered (UNC_PREFIX @ [CHR ''.'', CHR 0x5C]) then
           Some (sec_deny UNSUPPORTED_PATH ''Windows device paths are not permitted.'')
         else if py_startswith lowered UNC_PREFIX then
           Some (sec_deny outside (''UNC '' @ unc @ '' paths are outside the permitted workspace.''))
         else if CHR 0x25 \<in> set text \<or> py_startswith text [CHR 0x7E] \<or> CHR ''$'' \<in> set text then
           Some (sec_deny UNSUPPORTED_PATH (subject @ '' path expansion is not permitted.''))
         else if list_ex (\<lambda>p. windows_device (rstrip_chars '' .'' p)) (snd (path_of text)) then
           Some (sec_deny UNSUPPORTED_PATH ''Windows special-device names are not permitted.'')
         else None)"

definition outside_message :: "string list \<Rightarrow> string list option \<Rightarrow> string" where
  "outside_message target root =
     ''Requested destination '' @ path_text target @
     '' is outside Samaktha's configured filesystem access. Workspace: '' @
     (case root of Some r \<Rightarrow> path_text r | None \<Rightarrow> ''None'') @
     ''. Choose that workspace or change the workspace in setup. Nothing was redirected or written.''"

definition scope_of :: "string list list \<Rightarrow> string list \<Rightarrow> string list option" where
  "scope_of roots target = find (\<lambda>root. inside_path target root) roots"

definition candidate_path :: "string list \<Rightarrow> path \<Rightarrow> path" where
  "candidate_path root p = (if fst p then p else (True, root @ snd p))"

text \<open>\<open>_resolve\<close>: a refusal, or the target with the root it lies in.\<close>

definition resolve_path ::
  "tool_env \<Rightarrow> filesystem_policy \<Rightarrow> string list \<Rightarrow> string \<Rightarrow>
   (security_raise, security_decision + string list \<times> string list) result" where
  "resolve_path E P root raw =
     (let text = unquoted_path raw
      in case path_refusal (fp_max_path_length P) text OUTSIDE_ALLOWED_ROOT ''Filesystem'' ''filesystem'' of
           Some d \<Rightarrow> Inr (Inl d)
         | None \<Rightarrow>
             (case te_resolve E (candidate_path root (path_of text)) of
                None \<Rightarrow> Inl PathUnreadable
              | Some target \<Rightarrow>
                  (case scope_of (fp_allowed_roots P) target of
                     None \<Rightarrow> Inr (Inl (sec_deny OUTSIDE_ALLOWED_ROOT (outside_message target (fp_default_root P))))
                   | Some scope \<Rightarrow> Inr (Inr (target, scope)))))"

text \<open>\<open>_resolve_shell_cwd\<close>.\<close>

definition resolve_shell_cwd ::
  "tool_env \<Rightarrow> shell_policy \<Rightarrow> string \<Rightarrow>
   (security_raise, security_decision + string list \<times> string list) result" where
  "resolve_shell_cwd E P raw =
     (let text = unquoted_path raw; p = path_of text
      in case path_refusal (sp_max_path_length P) text SHELL_CWD_DENIED ''Shell cwd'' ''cwd'' of
           Some d \<Rightarrow> Inr (Inl d)
         | None \<Rightarrow>
             (if \<not> fst p \<and> sp_default_root P = None then
                Inr (Inl (sec_deny SHELL_CWD_DENIED ''Shell cwd requires a default root.''))
              else
                (case te_resolve E (candidate_path (case sp_default_root P of Some r \<Rightarrow> r | None \<Rightarrow> []) p) of
                   None \<Rightarrow> Inl PathUnreadable
                 | Some target \<Rightarrow>
                     (case scope_of (sp_allowed_roots P) target of
                        None \<Rightarrow> Inr (Inl (sec_deny SHELL_CWD_DENIED
                                   ''Shell cwd is outside the permitted workspace.''))
                      | Some scope \<Rightarrow> Inr (Inr (target, scope))))))"

definition is_protected :: "filesystem_policy \<Rightarrow> string list \<Rightarrow> bool" where
  "is_protected P target = list_ex (\<lambda>q. inside_path target q) (fp_protected_paths P)"

text \<open>\<open>_critical_destructive_target\<close>; a home that cannot be read counts as critical.\<close>

definition critical_target :: "tool_env \<Rightarrow> string list \<Rightarrow> bool" where
  "critical_target E target =
     (same_path target [] \<or>
      (case te_home E of None \<Rightarrow> True | Some home \<Rightarrow> same_path target home) \<or>
      (case te_system_root E of None \<Rightarrow> False | Some root \<Rightarrow> inside_path target root))"

section \<open>Files\<close>

definition FILE_READ_ACTIONS :: "string list" where
  "FILE_READ_ACTIONS =
     [''exists'', ''check_exists'', ''read'', ''read_file'', ''list'', ''list_directory'', ''ls'', ''dir'',
      ''search'', ''remember'', ''read_document'', ''summarize_document'', ''extract_text'',
      ''extract_tables'', ''extract_metadata'', ''read_pdf'', ''page_count'', ''metadata'', ''analyze'',
      ''read_image'']"

definition FILE_WRITE_ACTIONS :: "string list" where
  "FILE_WRITE_ACTIONS = [''write'', ''write_file'', ''copy'', ''move'', ''mkdir'']"

definition FILE_DELETE_ACTIONS :: "string list" where
  "FILE_DELETE_ACTIONS = [''delete'', ''move'']"

definition DESTINATION_ACTIONS :: "string list" where
  "DESTINATION_ACTIONS = [''copy'', ''move'']"

definition SIZED_READS :: "string list" where
  "SIZED_READS = [''read'', ''read_file'', ''read_document'', ''extract_text'', ''read_pdf'']"

definition PATH_TOOLS :: "string list" where
  "PATH_TOOLS = [''filesystem'', ''resolver'', ''document'', ''pdf'', ''image'']"

text \<open>\<open>a or b or default\<close> over the arguments.\<close>

definition arg_or :: "(string, pyval) dict \<Rightarrow> string \<Rightarrow> pyval \<Rightarrow> pyval" where
  "arg_or args k v =
     (case map_of args k of Some x \<Rightarrow> if truthy x then x else v | None \<Rightarrow> v)"

definition security_action :: "tool_env \<Rightarrow> (string, pyval) dict \<Rightarrow> string \<Rightarrow> string \<Rightarrow> string" where
  "security_action E args context fallback =
     py_lower (py_strip (py_str (te_show E)
       (arg_or args ''action'' (PStr (if context \<noteq> [] then context else fallback)))))"

text \<open>The refusals that need no path, in their order.\<close>

definition operation_refusal :: "security_context \<Rightarrow> string \<Rightarrow> security_decision option" where
  "operation_refusal X action =
     (if action \<in> set FILE_READ_ACTIONS \<and> \<not> sx_read_allowed X then
        Some (sec_deny OPERATION_NOT_ALLOWED ''Filesystem read access is denied.'')
      else if action \<in> set FILE_WRITE_ACTIONS \<and> \<not> sx_write_allowed X then
        Some (sec_deny OPERATION_NOT_ALLOWED ''Filesystem write access is denied.'')
      else if action \<in> set FILE_DELETE_ACTIONS \<and> \<not> sx_delete_allowed X then
        Some (sec_deny OPERATION_NOT_ALLOWED ''Filesystem delete access is denied.'')
      else None)"

definition target_refusal :: "tool_env \<Rightarrow> filesystem_policy \<Rightarrow> string \<Rightarrow> string list \<Rightarrow> security_decision option" where
  "target_refusal E P action target =
     (if is_protected P target then
        Some (sec_deny PROTECTED_TARGET ''Filesystem access to a protected target is denied.'')
      else if action \<in> set FILE_DELETE_ACTIONS \<and> list_ex (same_path target) (fp_allowed_roots P) then
        Some (sec_deny PROTECTED_TARGET ''The permitted filesystem root cannot be removed.'')
      else if action \<in> set FILE_DELETE_ACTIONS \<and> critical_target E target then
        Some (sec_deny PROTECTED_TARGET ''A protected system target cannot be modified.'')
      else None)"

text \<open>\<open>target.exists() and target.stat().st_size > limit\<close>, an \<open>OSError\<close> being a refusal.\<close>

definition read_refusal :: "tool_env \<Rightarrow> filesystem_policy \<Rightarrow> string list \<Rightarrow> security_decision option" where
  "read_refusal E P target =
     (case te_exists E target of
        Some False \<Rightarrow> None
      | Some True \<Rightarrow>
          (case te_size E target of
             Some n \<Rightarrow> if fp_max_read_bytes P < n then
                         Some (sec_deny RESOURCE_LIMIT ''Filesystem read exceeds the configured size limit.'')
                       else None
           | None \<Rightarrow> Some (sec_deny UNSUPPORTED_PATH ''Filesystem target cannot be inspected safely.''))
      | None \<Rightarrow> Some (sec_deny UNSUPPORTED_PATH ''Filesystem target cannot be inspected safely.''))"

definition wants_overwrite :: "(string, pyval) dict \<Rightarrow> bool" where
  "wants_overwrite args = opt_truthy (map_of args ''overwrite'')"

definition arg_text :: "tool_env \<Rightarrow> (string, pyval) dict \<Rightarrow> string \<Rightarrow> string" where
  "arg_text E args k = (case map_of args k of Some v \<Rightarrow> py_str (te_show E) v | None \<Rightarrow> [])"

definition write_refusal ::
  "tool_env \<Rightarrow> filesystem_policy \<Rightarrow> security_context \<Rightarrow> (string, pyval) dict \<Rightarrow> string list \<Rightarrow>
   (security_raise, security_decision option) result" where
  "write_refusal E P X args target =
     (if fp_max_write_bytes P < utf8_length (arg_text E args ''content'') then
        Inr (Some (sec_deny RESOURCE_LIMIT ''Filesystem write exceeds the configured size limit.''))
      else
        (case te_exists E target of
           None \<Rightarrow> Inl PathUnreadable
         | Some False \<Rightarrow> Inr None
         | Some True \<Rightarrow>
             if \<not> wants_overwrite args then
               Inr (Some (sec_deny OVERWRITE_NOT_ALLOWED ''Existing file requires explicit overwrite permission.''))
             else if \<not> sx_overwrite_allowed X then
               Inr (Some (sec_deny OVERWRITE_NOT_ALLOWED ''Filesystem overwrite is denied.''))
             else Inr None))"

definition effect_refusal ::
  "tool_env \<Rightarrow> filesystem_policy \<Rightarrow> security_context \<Rightarrow> (string, pyval) dict \<Rightarrow> string \<Rightarrow> string list \<Rightarrow>
   (security_raise, security_decision option) result" where
  "effect_refusal E P X args action target =
     (if action \<in> set SIZED_READS then Inr (read_refusal E P target)
      else if action \<in> {''write'', ''write_file''} then write_refusal E P X args target
      else Inr None)"

text \<open>The destination of a copy or a move; the arguments with it, or a refusal.\<close>

definition validate_destination ::
  "tool_env \<Rightarrow> filesystem_policy \<Rightarrow> string list \<Rightarrow> (string, pyval) dict \<Rightarrow> (string, pyval) dict \<Rightarrow>
   (security_raise, security_decision + (string, pyval) dict) result" where
  "validate_destination E P root args normalized =
     (if \<not> opt_truthy (map_of args ''destination'') then
        Inr (Inl (sec_deny TARGET_MISMATCH ''Filesystem destination is required.''))
      else
        res_bind (resolve_path E P root (arg_text E args ''destination'')) (\<lambda>r.
          case r of
            Inl d \<Rightarrow> Inr (Inl d)
          | Inr (dest, _) \<Rightarrow>
              if is_protected P dest then
                Inr (Inl (sec_deny PROTECTED_TARGET ''Filesystem access to a protected target is denied.''))
              else (case te_exists E dest of
                      None \<Rightarrow> Inl PathUnreadable
                    | Some e \<Rightarrow>
                        if e \<and> \<not> wants_overwrite args then
                          Inr (Inl (sec_deny OVERWRITE_NOT_ALLOWED
                                 ''Existing destination requires explicit overwrite permission.''))
                        else Inr (Inr (AList.update ''destination'' (PStr (path_text dest)) normalized)))))"

definition normalized_path :: "(string, pyval) dict \<Rightarrow> string list \<Rightarrow> (string, pyval) dict" where
  "normalized_path args target =
     AList.delete ''target_path'' (AList.update ''path'' (PStr (path_text target)) args)"

definition validate_target ::
  "tool_env \<Rightarrow> filesystem_policy \<Rightarrow> security_context \<Rightarrow> (string, pyval) dict \<Rightarrow> string \<Rightarrow> string list \<Rightarrow>
   string list \<Rightarrow> string list \<Rightarrow> (security_raise, security_decision) result" where
  "validate_target E P X args action root target scope =
     (case target_refusal E P action target of
        Some d \<Rightarrow> Inr d
      | None \<Rightarrow>
          res_bind (effect_refusal E P X args action target) (\<lambda>refused.
            case refused of
              Some d \<Rightarrow> Inr d
            | None \<Rightarrow>
                if action \<in> set DESTINATION_ACTIONS then
                  res_bind (validate_destination E P root args (normalized_path args target)) (\<lambda>r.
                    case r of Inl d \<Rightarrow> Inr d
                    | Inr normalized \<Rightarrow> Inr (sec_allow normalized (Some target) (Some scope)))
                else Inr (sec_allow (normalized_path args target) (Some target) (Some scope))))"

definition validate_filesystem ::
  "tool_env \<Rightarrow> tool_security \<Rightarrow> security_context \<Rightarrow> (string, pyval) dict \<Rightarrow>
   (security_raise, security_decision) result" where
  "validate_filesystem E T X args =
     (let P = ts_filesystem T
      in case fp_default_root P of
           None \<Rightarrow> Inr (sec_deny NO_ALLOWED_ROOT ''Filesystem access is not configured.'')
         | Some root \<Rightarrow>
             (if fp_allowed_roots P = [] then
                Inr (sec_deny NO_ALLOWED_ROOT ''Filesystem access is not configured.'')
              else
                (let action = security_action E args (sx_action X) ''read''
                 in case operation_refusal X action of
                      Some d \<Rightarrow> Inr d
                    | None \<Rightarrow>
                        res_bind (resolve_path E P root (py_str (te_show E)
                                    (arg_or args ''path'' (arg_or args ''target_path'' (PStr ''.''))))) (\<lambda>r.
                          case r of
                            Inl d \<Rightarrow> Inr d
                          | Inr (target, scope) \<Rightarrow> validate_target E P X args action root target scope))))"

section \<open>Commands\<close>

text \<open>\<open>dict(v)\<close> of a value whose keys are texts; anything else ends in an exception.\<close>

definition pair_of :: "pyval \<Rightarrow> (string \<times> pyval) option" where
  "pair_of v = (case py_tuple (Some v) of Some [PStr k, x] \<Rightarrow> Some (k, x) | _ \<Rightarrow> None)"

definition py_dict :: "pyval \<Rightarrow> (string, pyval) dict option" where
  "py_dict v =
     (case v of
        PDict d \<Rightarrow> Some d
      | PModel d \<Rightarrow> Some d
      | _ \<Rightarrow>
          (case py_tuple (Some v) of
             None \<Rightarrow> None
           | Some items \<Rightarrow>
               (if list_all (\<lambda>x. pair_of x \<noteq> None) items
                then Some (fold (\<lambda>(k, x). AList.update k x) (map (\<lambda>x. the (pair_of x)) items) []) else None)))"

definition py_upper :: "string \<Rightarrow> string" where
  "py_upper s = map char_upper s"

definition shell_arguments ::
  "(string, pyval) dict \<Rightarrow> string \<Rightarrow> string list \<Rightarrow> string list option \<Rightarrow> (string, pyval) dict \<Rightarrow>
   (string, pyval) dict" where
  "shell_arguments args executable argv cwd env =
     fold (\<lambda>(k, v). AList.update k v)
       [(''command'', PStr executable), (''args'', PList (map PStr argv)),
        (''_parsed_executable'', PStr executable), (''_parsed_args'', PList (map PStr argv)),
        (''_validated_cwd'', PStr (case cwd of Some c \<Rightarrow> path_text c | None \<Rightarrow> ''None'')),
        (''_validated_env'', PDict env)] args"

definition shell_cwd ::
  "tool_env \<Rightarrow> shell_policy \<Rightarrow> security_context \<Rightarrow> (string, pyval) dict \<Rightarrow>
   (security_raise, security_decision + string list option) result" where
  "shell_cwd E P X args =
     (let cwd = arg_or args ''cwd'' (case sx_shell_cwd X of Some c \<Rightarrow> PStr c | None \<Rightarrow> PNone)
      in if truthy cwd then
           res_bind (resolve_shell_cwd E P (py_str (te_show E) cwd)) (\<lambda>r.
             case r of Inl d \<Rightarrow> Inr (Inl d) | Inr (target, _) \<Rightarrow> Inr (Inr (Some target)))
         else Inr (Inr (sp_default_root P)))"

definition env_refusal :: "shell_policy \<Rightarrow> (string, pyval) dict \<Rightarrow> security_decision option" where
  "env_refusal P env =
     (case find (\<lambda>(k, _). py_upper k \<notin> set (map py_upper (sp_allowed_env_vars P))) env of
        Some (k, _) \<Rightarrow>
          Some (sec_deny SHELL_ENV_DENIED (''Environment variable '' @ [CHR 0x27] @ k @ [CHR 0x27] @
                  '' is not in the allowed list.''))
      | None \<Rightarrow> None)"

definition finish_shell ::
  "tool_env \<Rightarrow> shell_policy \<Rightarrow> security_context \<Rightarrow> (string, pyval) dict \<Rightarrow> string \<Rightarrow> string list \<Rightarrow>
   (security_raise, security_decision) result" where
  "finish_shell E P X args executable argv =
     res_bind (shell_cwd E P X args) (\<lambda>r.
       case r of
         Inl d \<Rightarrow> Inr d
       | Inr cwd \<Rightarrow>
           (case (case map_of args ''env'' of None \<Rightarrow> Some [] | Some v \<Rightarrow> py_dict v) of
              None \<Rightarrow> Inl NoDictionary
            | Some env \<Rightarrow>
                (case env_refusal P env of
                   Some d \<Rightarrow> Inr d
                 | None \<Rightarrow> Inr (sec_allow (shell_arguments args executable argv cwd env) cwd cwd))))"

definition validate_shell ::
  "tool_env \<Rightarrow> tool_security \<Rightarrow> security_context \<Rightarrow> (string, pyval) dict \<Rightarrow>
   (security_raise, security_decision) result" where
  "validate_shell E T X args =
     (let P = ts_shell T; command = py_strip (arg_text E args ''command'')
      in if command = [] then Inr (sec_deny SHELL_ARGUMENT_DENIED ''Shell command is required.'')
         else case shlex_split command of
           None \<Rightarrow> Inr (sec_deny SHELL_ARGUMENT_DENIED ''Shell command parsing failed.'')
         | Some [] \<Rightarrow> Inr (sec_deny SHELL_ARGUMENT_DENIED ''Shell command is empty after parsing.'')
         | Some (word # words) \<Rightarrow>
             (case py_tuple (map_of args ''args'') of
                None \<Rightarrow> Inl NotIterable
              | Some extra \<Rightarrow>
                  (let executable = py_lower word; argv = words @ map (py_str (te_show E)) extra
                   in if sp_allowed_executables P \<noteq> [] \<and> executable \<notin> set (sp_allowed_executables P) then
                        Inr (sec_deny SHELL_EXECUTABLE_DENIED
                               (''Shell executable '' @ [CHR 0x27] @ executable @ [CHR 0x27] @
                                '' is not in the allowed list.''))
                      else finish_shell E P X args executable argv)))"

section \<open>The desktop\<close>

definition validate_windows ::
  "tool_env \<Rightarrow> tool_security \<Rightarrow> security_context \<Rightarrow> (string, pyval) dict \<Rightarrow>
   (security_raise, security_decision) result" where
  "validate_windows E T X args =
     (let P = ts_process T; action = py_lower (py_strip (arg_text E args ''action''))
      in if action \<in> {''processes'', ''clipboard_get''} then Inr (sec_allow args None None)
         else if action = ''clipboard_set'' then
           (if \<not> op_allow_clipboard_write P then
              Inr (sec_deny PROCESS_ACTION_DENIED ''Clipboard write is disabled by policy.'')
            else if op_max_clipboard_bytes P < utf8_length (arg_text E args ''content'') then
              Inr (sec_deny PROCESS_RESOURCE_LIMIT
                     (''Clipboard content exceeds '' @ nat_str (op_max_clipboard_bytes P) @ '' byte limit.''))
            else Inr (sec_allow args None None))
         else if action = ''terminal'' then
           (if \<not> op_allow_terminal P then
              Inr (sec_deny PROCESS_ACTION_DENIED
                     ''Windows terminal action is disabled; use shell tool instead.'')
            else validate_shell E T X
                   [(''command'', case map_of args ''command'' of Some v \<Rightarrow> v | None \<Rightarrow> PStr [])])
         else Inr (sec_deny PROCESS_ACTION_DENIED (''Unsupported Windows action: '' @ action)))"

section \<open>Addresses and hosts\<close>

text \<open>
  \<open>_is_address_allowed\<close> of an IPv4 address. The loopback and the private networks overlap, so an
  address of the loopback needs both permissions.
\<close>

definition METADATA_ADDRESS :: ip4 where "METADATA_ADDRESS = 0xA9FEA9FE"

definition allowed4 :: "network_policy \<Rightarrow> ip4 \<Rightarrow> bool" where
  "allowed4 P a =
     (if in_network LOOPBACK4 a \<and> \<not> np_allow_localhost P then False
      else if private4 a \<and> \<not> np_allow_private_addresses P then False
      else if in_network LINK_LOCAL4 a then False
      else if in_network MULTICAST4 a then False
      else if a = 0 then False
      else if in_network RESERVED4 a then False
      else if a = METADATA_ADDRESS then False
      else True)"

definition allowed6 :: "network_policy \<Rightarrow> ip6 \<Rightarrow> bool" where
  "allowed6 P a =
     (if a = 1 \<and> \<not> np_allow_localhost P then False
      else if private6 a \<and> \<not> np_allow_private_addresses P then False
      else if in_network LINK_LOCAL6 a then False
      else if in_network MULTICAST6 a then False
      else if a = 0 then False
      else if in_networks RESERVED6 a then False
      else (case ipv4_mapped a of
              Some b \<Rightarrow> allowed4 P b \<and> \<not> private6 a
            | None \<Rightarrow> \<not> private6 a))"

fun is_address_allowed :: "network_policy \<Rightarrow> ip_address \<Rightarrow> bool" where
  "is_address_allowed P (V4 a) = allowed4 P a"
| "is_address_allowed P (V6 a) = allowed6 P a"
| "is_address_allowed P NoAddress = False"

text \<open>The message names the first address refused.\<close>

definition host_refusal :: "tool_env \<Rightarrow> network_policy \<Rightarrow> string \<Rightarrow> (security_raise, security_decision option) result" where
  "host_refusal E P host =
     (if host = [] then
        Inr (Some (sec_deny NETWORK_HOST_DENIED ''Network URL must have a valid hostname.''))
      else if host \<in> set (np_blocked_hosts P) then
        Inr (Some (sec_deny NETWORK_HOST_DENIED (''Host '' @ [CHR 0x27] @ host @ [CHR 0x27] @ '' is blocked.'')))
      else if np_allowed_hosts P \<noteq> [] \<and> host \<notin> set (np_allowed_hosts P) then
        Inr (Some (sec_deny NETWORK_HOST_DENIED
               (''Host '' @ [CHR 0x27] @ host @ [CHR 0x27] @ '' is not in the allowed list.'')))
      else
        (case te_lookup E host of
           HostNotEncodable \<Rightarrow> Inl MalformedHost
         | NotFound \<Rightarrow>
             Inr (Some (sec_deny NETWORK_ADDRESS_DENIED
                    (''Could not resolve hostname '' @ [CHR 0x27] @ host @ [CHR 0x27] @ ''.'')))
         | Addresses addrs \<Rightarrow>
             (case find (\<lambda>a. \<not> is_address_allowed P (fst a)) addrs of
                Some (_, text) \<Rightarrow>
                  Inr (Some (sec_deny NETWORK_ADDRESS_DENIED
                         (''Resolved address '' @ [CHR 0x27] @ text @ [CHR 0x27] @ '' is not allowed.'')))
              | None \<Rightarrow> Inr None)))"

definition SENSITIVE_HEADERS :: "string list" where
  "SENSITIVE_HEADERS = [''authorization'', ''x-api-key'', ''x-subscription-token'']"

definition header_refusal :: "network_policy \<Rightarrow> (string, pyval) dict \<Rightarrow> security_decision option" where
  "header_refusal P headers =
     (case find (\<lambda>(k, _). py_lower k \<in> set SENSITIVE_HEADERS \<and>
                         py_lower k \<notin> set (np_sensitive_header_allowlist P)) headers of
        Some (k, _) \<Rightarrow>
          Some (sec_deny NETWORK_CREDENTIAL_FORWARDING_DENIED
                  (''Sensitive header '' @ [CHR 0x27] @ k @ [CHR 0x27] @ '' is not allowed for this destination.''))
      | None \<Rightarrow> None)"

text \<open>\<open>parsed.port or (443 if https else 80)\<close>.\<close>

definition effective_port :: "string \<Rightarrow> nat option \<Rightarrow> nat" where
  "effective_port scheme port =
     (let fallback = (if scheme = ''https'' then 443 else 80)
      in case port of Some p \<Rightarrow> if p = 0 then fallback else p | None \<Rightarrow> fallback)"

definition fetch_arguments ::
  "(string, pyval) dict \<Rightarrow> string \<Rightarrow> string \<Rightarrow> string \<Rightarrow> nat \<Rightarrow> (string, pyval) dict \<Rightarrow> (string, pyval) dict" where
  "fetch_arguments args url scheme host port headers =
     fold (\<lambda>(k, v). AList.update k v)
       [(''url'', PStr url), (''_parsed_scheme'', PStr scheme), (''_parsed_host'', PStr host),
        (''_parsed_port'', PInt (int port)), (''_validated_headers'', PDict headers)] args"

definition validate_port ::
  "network_policy \<Rightarrow> (string, pyval) dict \<Rightarrow> string \<Rightarrow> parsed_url \<Rightarrow> (security_raise, security_decision) result" where
  "validate_port P args url u =
     (case url_port u of
        None \<Rightarrow> Inl MalformedPort
      | Some written \<Rightarrow>
          (let port = effective_port (pu_scheme u) written
           in if np_allowed_ports P \<noteq> [] \<and> port \<notin> set (np_allowed_ports P) then
                Inr (sec_deny NETWORK_ADDRESS_DENIED (''Port '' @ nat_str port @ '' is not allowed.''))
              else
                (case (case map_of args ''headers'' of None \<Rightarrow> Some [] | Some v \<Rightarrow> py_dict v) of
                   None \<Rightarrow> Inl NoDictionary
                 | Some headers \<Rightarrow>
                     (case header_refusal P headers of
                        Some d \<Rightarrow> Inr d
                      | None \<Rightarrow>
                          Inr (sec_allow (fetch_arguments args url (pu_scheme u) (url_hostname u) port headers)
                                 None None)))))"

definition validate_fetch ::
  "tool_env \<Rightarrow> network_policy \<Rightarrow> security_context \<Rightarrow> (string, pyval) dict \<Rightarrow>
   (security_raise, security_decision) result" where
  "validate_fetch E P X args =
     (let url = py_strip (py_str (te_show E) (arg_or args ''url''
                  (PStr (case sx_network_url X of Some u \<Rightarrow> u | None \<Rightarrow> []))))
      in if url = [] then Inr (sec_deny NETWORK_HOST_DENIED ''Network URL is required for fetch action.'')
         else case urlparse (te_bracket_ok E) url of
           None \<Rightarrow> Inl MalformedUrl
         | Some u \<Rightarrow>
             (if pu_scheme u \<notin> set (np_allowed_schemes P) then
                Inr (sec_deny NETWORK_SCHEME_DENIED
                       (''Scheme '' @ [CHR 0x27] @ pu_scheme u @ [CHR 0x27] @ '' is not allowed.''))
              else if opt_nonempty (fst (url_userinfo u)) \<or> opt_nonempty (snd (url_userinfo u)) then
                Inr (sec_deny NETWORK_CREDENTIAL_FORWARDING_DENIED
                       ''Embedded credentials in URL are not allowed.'')
              else
                res_bind (host_refusal E P (url_hostname u)) (\<lambda>refused.
                  case refused of Some d \<Rightarrow> Inr d | None \<Rightarrow> validate_port P args url u)))"

definition validate_network ::
  "tool_env \<Rightarrow> tool_security \<Rightarrow> security_context \<Rightarrow> (string, pyval) dict \<Rightarrow>
   (security_raise, security_decision) result" where
  "validate_network E T X args =
     (let action = security_action E args (sx_action X) []
      in if action = ''fetch'' then validate_fetch E (ts_network T) X args
         else if action \<in> {''search'', ''news'', ''suggest''} then Inr (sec_allow args None None)
         else Inr (sec_deny NETWORK_HOST_DENIED (''Unsupported network action: '' @ action)))"

section \<open>The validator\<close>

definition validate_tool ::
  "tool_env \<Rightarrow> tool_security \<Rightarrow> security_context \<Rightarrow> (string, pyval) dict \<Rightarrow>
   (security_raise, security_decision) result" where
  "validate_tool E T X args =
     (if sx_tool_name X \<in> set PATH_TOOLS then validate_filesystem E T X args
      else if sx_tool_name X = ''shell'' then validate_shell E T X args
      else if sx_tool_name X = ''windows'' then validate_windows E T X args
      else if sx_tool_name X = ''internet'' then validate_network E T X args
      else Inr (sec_allow args None None))"

section \<open>Building the policies\<close>

text \<open>
  The checks of the two builders with a root; \<open>None\<close> is the \<open>ValueError\<close> of a default root outside
  of the roots. The roots arrive resolved.
\<close>

definition inside_any :: "string list \<Rightarrow> string list list \<Rightarrow> bool" where
  "inside_any p roots = list_ex (inside_path p) roots"

definition default_root :: "string list list \<Rightarrow> string list option \<Rightarrow> string list option option" where
  "default_root roots fallback =
     (let d = (case fallback of Some r \<Rightarrow> Some r | None \<Rightarrow> (case roots of r # _ \<Rightarrow> Some r | [] \<Rightarrow> None))
      in case d of Some r \<Rightarrow> if inside_any r roots then Some d else None | None \<Rightarrow> Some None)"

definition build_filesystem_policy ::
  "string list list \<Rightarrow> string list option \<Rightarrow> string list list \<Rightarrow> nat \<Rightarrow> nat \<Rightarrow> nat \<Rightarrow> filesystem_policy option" where
  "build_filesystem_policy roots fallback protected reads writes len =
     map_option (\<lambda>d. \<lparr>fp_allowed_roots = roots, fp_default_root = d, fp_protected_paths = protected,
        fp_max_read_bytes = reads, fp_max_write_bytes = writes, fp_max_path_length = len\<rparr>)
       (default_root roots fallback)"

section \<open>What an accepted path is\<close>

definition filesystem_policy_ok :: "filesystem_policy \<Rightarrow> bool" where
  "filesystem_policy_ok P \<longleftrightarrow>
     list_all canonical_parts (fp_allowed_roots P) \<and> list_all canonical_parts (fp_protected_paths P)"

text \<open>A target the policy admits: below a root and below no protected path.\<close>

definition admitted :: "filesystem_policy \<Rightarrow> string list \<Rightarrow> bool" where
  "admitted P t \<longleftrightarrow>
     canonical_parts t \<and> (\<exists>root\<in>set (fp_allowed_roots P). prefix root t) \<and>
     (\<forall>q\<in>set (fp_protected_paths P). \<not> prefix q t)"

lemma inside_path_canonical:
  "canonical_parts p \<Longrightarrow> canonical_parts q \<Longrightarrow> inside_path p q \<longleftrightarrow> prefix q p"
  by (simp add: inside_path_def abspath_canonical common_prefix_iff)

lemma same_path_canonical: "canonical_parts p \<Longrightarrow> canonical_parts q \<Longrightarrow> same_path p q \<longleftrightarrow> p = q"
  by (simp add: same_path_def abspath_canonical)

lemma scope_of_Some: "scope_of roots t = Some s \<Longrightarrow> s \<in> set roots \<and> inside_path t s"
  by (auto simp: scope_of_def find_Some_iff)

lemma resolve_path_target:
  assumes "resolve_path E P root raw = Inr (Inr (t, s))"
  shows "scope_of (fp_allowed_roots P) t = Some s" "\<exists>p. te_resolve E p = Some t"
proof -
  let ?p = "candidate_path root (path_of (unquoted_path raw))"
  from assms have "te_resolve E ?p = Some t" "scope_of (fp_allowed_roots P) t = Some s"
    by (auto simp: resolve_path_def Let_def split: option.splits)
  then show "scope_of (fp_allowed_roots P) t = Some s" "\<exists>p. te_resolve E p = Some t" by blast+
qed

lemma resolved_canonical:
  "resolves_canonically E \<Longrightarrow> te_resolve E p = Some t \<Longrightarrow> canonical_parts t \<and> te_resolve E (True, t) = Some t"
  unfolding resolves_canonically_def by blast

lemma resolve_path_admitted:
  assumes "resolves_canonically E" "filesystem_policy_ok P" "resolve_path E P root raw = Inr (Inr (t, s))"
    "\<not> is_protected P t"
  shows "admitted P t"
proof -
  have t: "canonical_parts t" using resolve_path_target(2) [OF assms(3)] resolved_canonical [OF assms(1)] by blast
  have roots: "canonical_parts q" if "q \<in> set (fp_allowed_roots P) \<union> set (fp_protected_paths P)" for q
    using assms(2) that by (auto simp: filesystem_policy_ok_def list_all_iff)
  from scope_of_Some [OF resolve_path_target(1) [OF assms(3)]] have "s \<in> set (fp_allowed_roots P)" "inside_path t s"
    by simp_all
  with t roots assms(4) show ?thesis
    by (auto simp: admitted_def inside_path_canonical is_protected_def list_ex_iff)
qed

lemma sec_deny_refuses [simp]: "\<not> sd_allowed (sec_deny r m)"
  by (simp add: sec_deny_def)

lemma sec_allow_fields [simp]:
  "sd_allowed (sec_allow a t s)" "sd_arguments (sec_allow a t s) = a"
  by (simp_all add: sec_allow_def)

lemma path_refusal_denies: "path_refusal n text r a b = Some d \<Longrightarrow> \<not> sd_allowed d"
  by (auto simp: path_refusal_def Let_def split: if_splits)

lemma resolve_path_denies: "resolve_path E P root raw = Inr (Inl d) \<Longrightarrow> \<not> sd_allowed d"
  by (auto simp: resolve_path_def Let_def dest: path_refusal_denies split: option.splits)

lemma operation_refusal_denies: "operation_refusal X action = Some d \<Longrightarrow> \<not> sd_allowed d"
  by (auto simp: operation_refusal_def split: if_splits)

lemma target_refusal_denies: "target_refusal E P action t = Some d \<Longrightarrow> \<not> sd_allowed d"
  by (auto simp: target_refusal_def split: if_splits)

lemma effect_refusal_denies: "effect_refusal E P X args action t = Inr (Some d) \<Longrightarrow> \<not> sd_allowed d"
  by (auto simp: effect_refusal_def read_refusal_def write_refusal_def split: if_splits option.splits bool.splits)

lemma validate_destination_denies: "validate_destination E P root args n = Inr (Inl d) \<Longrightarrow> \<not> sd_allowed d"
proof (cases "opt_truthy (map_of args ''destination'')")
  case True
  assume "validate_destination E P root args n = Inr (Inl d)"
  with True obtain r where r: "resolve_path E P root (arg_text E args ''destination'') = Inr r"
    and d: "(case r of Inl d \<Rightarrow> Inr (Inl d)
          | Inr (dest, s) \<Rightarrow>
              if is_protected P dest then
                Inr (Inl (sec_deny PROTECTED_TARGET ''Filesystem access to a protected target is denied.''))
              else (case te_exists E dest of
                      None \<Rightarrow> Inl PathUnreadable
                    | Some e \<Rightarrow>
                        if e \<and> \<not> wants_overwrite args then
                          Inr (Inl (sec_deny OVERWRITE_NOT_ALLOWED
                                 ''Existing destination requires explicit overwrite permission.''))
                        else Inr (Inr (AList.update ''destination'' (PStr (path_text dest)) n)))) = Inr (Inl d)"
    by (auto simp: validate_destination_def res_bind_Inr_iff)
  show ?thesis
  proof (cases r)
    case (Inl e)
    with r d resolve_path_denies show ?thesis by simp
  next
    case (Inr ts)
    with d show ?thesis by (cases ts) (auto split: if_splits option.splits)
  qed
qed (auto simp: validate_destination_def)

text \<open>A destination is resolved, not protected, and does not exist unless it may be overwritten.\<close>

lemma validate_destination_accepts:
  assumes "validate_destination E P root args n = Inr (Inr m)"
  shows "\<exists>dest s. resolve_path E P root (arg_text E args ''destination'') = Inr (Inr (dest, s)) \<and>
    \<not> is_protected P dest \<and> te_exists E dest \<noteq> None \<and> (te_exists E dest = Some True \<longrightarrow> wants_overwrite args) \<and>
    m = AList.update ''destination'' (PStr (path_text dest)) n"
proof -
  from assms obtain r where r: "resolve_path E P root (arg_text E args ''destination'') = Inr r"
    by (auto simp: validate_destination_def res_bind_Inr_iff split: if_splits)
  show ?thesis
  proof (cases r)
    case (Inl d)
    with assms r show ?thesis by (simp add: validate_destination_def split: if_splits)
  next
    case (Inr ts)
    with assms r show ?thesis
      by (cases ts) (auto simp: validate_destination_def split: if_splits option.splits)
  qed
qed

text \<open>What was checked when a target is accepted.\<close>

lemma validate_target_accepts:
  assumes "validate_target E P X args action root t s = Inr d" "sd_allowed d"
  shows "target_refusal E P action t = None" "effect_refusal E P X args action t = Inr None"
    "action \<notin> set DESTINATION_ACTIONS \<Longrightarrow> d = sec_allow (normalized_path args t) (Some t) (Some s)"
    "action \<in> set DESTINATION_ACTIONS \<Longrightarrow>
       \<exists>m. validate_destination E P root args (normalized_path args t) = Inr (Inr m) \<and> d = sec_allow m (Some t) (Some s)"
proof -
  let ?n = "normalized_path args t" and ?allow = "\<lambda>m. sec_allow m (Some t) (Some s)"
  show target: "target_refusal E P action t = None"
    using assms target_refusal_denies by (fastforce simp: validate_target_def split: option.splits)
  with assms obtain x where x: "effect_refusal E P X args action t = Inr x"
    and d: "(case x of Some d \<Rightarrow> Inr d | None \<Rightarrow>
        if action \<in> set DESTINATION_ACTIONS then
          res_bind (validate_destination E P root args ?n) (\<lambda>r. case r of Inl d \<Rightarrow> Inr d | Inr m \<Rightarrow> Inr (?allow m))
        else Inr (?allow ?n)) = Inr d"
    by (auto simp: validate_target_def res_bind_Inr_iff)
  have none: "x = None" using d x assms(2) effect_refusal_denies by (cases x) auto
  with x show "effect_refusal E P X args action t = Inr None" by simp
  show "d = ?allow ?n" if "action \<notin> set DESTINATION_ACTIONS" using d none that by simp
  show "\<exists>m. validate_destination E P root args ?n = Inr (Inr m) \<and> d = ?allow m"
    if "action \<in> set DESTINATION_ACTIONS"
  proof -
    from d none that obtain r where r: "validate_destination E P root args ?n = Inr r"
      "(case r of Inl d \<Rightarrow> Inr d | Inr m \<Rightarrow> Inr (?allow m)) = (Inr d :: (security_raise, security_decision) result)"
      by (auto simp: res_bind_Inr_iff)
    then show ?thesis using assms(2) validate_destination_denies by (cases r) auto
  qed
qed

text \<open>An accepted call of a path tool, taken apart.\<close>

definition path_argument :: "tool_env \<Rightarrow> (string, pyval) dict \<Rightarrow> string" where
  "path_argument E args = py_str (te_show E) (arg_or args ''path'' (arg_or args ''target_path'' (PStr ''.'')))"

lemma validate_filesystem_accepts:
  assumes "validate_filesystem E T X args = Inr d" "sd_allowed d"
  shows "\<exists>root t s. fp_default_root (ts_filesystem T) = Some root \<and> fp_allowed_roots (ts_filesystem T) \<noteq> [] \<and>
    operation_refusal X (security_action E args (sx_action X) ''read'') = None \<and>
    resolve_path E (ts_filesystem T) root (path_argument E args) = Inr (Inr (t, s)) \<and>
    validate_target E (ts_filesystem T) X args (security_action E args (sx_action X) ''read'') root t s = Inr d"
proof -
  let ?P = "ts_filesystem T" and ?action = "security_action E args (sx_action X) ''read''"
  from assms operation_refusal_denies obtain root r where
    root: "fp_default_root ?P = Some root" "fp_allowed_roots ?P \<noteq> []" "operation_refusal X ?action = None"
    and r: "resolve_path E ?P root (path_argument E args) = Inr r"
    and d: "(case r of Inl d \<Rightarrow> Inr d | Inr (t, s) \<Rightarrow> validate_target E ?P X args ?action root t s) = Inr d"
    by (auto simp: validate_filesystem_def path_argument_def Let_def res_bind_Inr_iff split: option.splits if_splits)
  from d r assms(2) resolve_path_denies obtain t s where "r = Inr (t, s)" by (cases r) auto
  with root r d show ?thesis by auto
qed

lemma target_refusal_None:
  assumes "target_refusal E P action t = None"
  shows "\<not> is_protected P t" "action \<in> set FILE_DELETE_ACTIONS \<Longrightarrow> \<not> list_ex (same_path t) (fp_allowed_roots P)"
    "action \<in> set FILE_DELETE_ACTIONS \<Longrightarrow> \<not> critical_target E t"
  using assms by (auto simp: target_refusal_def split: if_splits)

lemma normalized_path_lookup [simp]:
  "map_of (normalized_path args t) ''path'' = Some (PStr (path_text t))"
  "k \<notin> {''path'', ''target_path''} \<Longrightarrow> map_of (normalized_path args t) k = map_of args k"
  "map_of (normalized_path args t) ''target_path'' = None"
  by (auto simp: normalized_path_def)

section \<open>Validating twice\<close>

text \<open>A text the resolver takes as it is.\<close>

definition plain_path :: "filesystem_policy \<Rightarrow> string list \<Rightarrow> bool" where
  "plain_path P t \<longleftrightarrow>
     unquoted_path (path_text t) = path_text t \<and>
     path_refusal (fp_max_path_length P) (path_text t) OUTSIDE_ALLOWED_ROOT ''Filesystem'' ''filesystem'' = None"

lemma resolve_path_again:
  assumes "resolves_canonically E" "resolve_path E P root raw = Inr (Inr (t, s))" "plain_path P t"
  shows "resolve_path E P root (path_text t) = Inr (Inr (t, s))"
proof -
  obtain p where "te_resolve E p = Some t" using resolve_path_target(2) [OF assms(2)] by blast
  from resolved_canonical [OF assms(1) this] have t: "canonical_parts t" "te_resolve E (True, t) = Some t"
    by simp_all
  with assms(3) resolve_path_target(1) [OF assms(2)] show ?thesis
    by (simp add: resolve_path_def plain_path_def path_of_text candidate_path_def)
qed

lemma update_same: "map_of d k = Some v \<Longrightarrow> AList.update k v d = d"
  by (induction d) auto

lemma delete_absent: "map_of d k = None \<Longrightarrow> AList.delete k d = d"
  by (induction d) (auto split: if_splits)

lemma path_text_not_Nil [simp]: "path_text t \<noteq> []"
  by (simp add: path_text_def)

text \<open>Arguments that agree with those accepted wherever the validator looks.\<close>

lemma accepted_arguments:
  assumes "validate_target E P X args action root t s = Inr d" "sd_allowed d"
  shows "map_of (sd_arguments d) ''path'' = Some (PStr (path_text t))" "map_of (sd_arguments d) ''target_path'' = None"
    "k \<notin> {''path'', ''target_path'', ''destination''} \<Longrightarrow> map_of (sd_arguments d) k = map_of args k"
proof -
  have "sd_arguments d = normalized_path args t \<or>
      (\<exists>v. sd_arguments d = AList.update ''destination'' v (normalized_path args t))"
  proof (cases "action \<in> set DESTINATION_ACTIONS")
    case True
    with validate_target_accepts(4) [OF assms] validate_destination_accepts show ?thesis by fastforce
  next
    case False
    with validate_target_accepts(3) [OF assms] show ?thesis by simp
  qed
  then show "map_of (sd_arguments d) ''path'' = Some (PStr (path_text t))" "map_of (sd_arguments d) ''target_path'' = None"
    "k \<notin> {''path'', ''target_path'', ''destination''} \<Longrightarrow> map_of (sd_arguments d) k = map_of args k"
    by auto
qed

lemma normalized_path_again:
  "map_of a ''path'' = Some (PStr (path_text t)) \<Longrightarrow> map_of a ''target_path'' = None \<Longrightarrow> normalized_path a t = a"
  by (simp add: normalized_path_def update_same delete_absent)

lemma normalized_path_idem [simp]: "normalized_path (normalized_path a t) t = normalized_path a t"
  by (rule normalized_path_again) simp_all

lemma effect_refusal_cong:
  "\<forall>k\<in>{''content'', ''overwrite''}. map_of a k = map_of args k \<Longrightarrow>
     effect_refusal E P X a action t = effect_refusal E P X args action t"
  by (simp add: effect_refusal_def write_refusal_def arg_text_def wants_overwrite_def)

text \<open>The destination of accepted arguments passes again and changes nothing.\<close>

lemma validate_destination_again:
  assumes "resolves_canonically E" "validate_destination E P root args n = Inr (Inr m)"
    "\<And>dest s. resolve_path E P root (arg_text E args ''destination'') = Inr (Inr (dest, s)) \<Longrightarrow> plain_path P dest"
    "map_of a ''overwrite'' = map_of args ''overwrite''" "map_of a ''destination'' = map_of m ''destination''"
    "map_of m' ''destination'' = map_of m ''destination''"
  shows "validate_destination E P root a m' = Inr (Inr m')"
proof -
  from validate_destination_accepts [OF assms(2)] obtain dest s where
    dest: "resolve_path E P root (arg_text E args ''destination'') = Inr (Inr (dest, s))"
      "\<not> is_protected P dest" "te_exists E dest \<noteq> None"
      "te_exists E dest = Some True \<longrightarrow> wants_overwrite args"
      "m = AList.update ''destination'' (PStr (path_text dest)) n" by blast
  then have a: "map_of a ''destination'' = Some (PStr (path_text dest))"
    and m': "map_of m' ''destination'' = Some (PStr (path_text dest))" using assms(5,6) by simp_all
  have "resolve_path E P root (arg_text E a ''destination'') = Inr (Inr (dest, s))"
    using resolve_path_again [OF assms(1) dest(1) assms(3) [OF dest(1)]] a by (simp add: arg_text_def)
  moreover have "wants_overwrite a = wants_overwrite args" using assms(4) by (simp add: wants_overwrite_def)
  ultimately show ?thesis
    using dest a m' by (auto simp: validate_destination_def opt_truthy_def update_same split: option.splits)
qed

lemma validate_filesystem_again:
  assumes "resolves_canonically E" "validate_filesystem E T X args = Inr d" "sd_allowed d"
    "\<And>raw root t s. resolve_path E (ts_filesystem T) root raw = Inr (Inr (t, s)) \<Longrightarrow> plain_path (ts_filesystem T) t"
  shows "validate_filesystem E T X (sd_arguments d) = Inr d"
proof -
  let ?P = "ts_filesystem T" and ?a = "sd_arguments d" and ?action = "security_action E args (sx_action X) ''read''"
  from validate_filesystem_accepts [OF assms(2,3)] obtain root t s where
    root: "fp_default_root ?P = Some root" "fp_allowed_roots ?P \<noteq> []" "operation_refusal X ?action = None"
    and r: "resolve_path E ?P root (path_argument E args) = Inr (Inr (t, s))"
    and v: "validate_target E ?P X args ?action root t s = Inr d" by blast
  note acc = accepted_arguments [OF v assms(3)]
  have action: "security_action E ?a (sx_action X) ''read'' = ?action"
    by (simp add: security_action_def arg_or_def acc(3))
  have path: "path_argument E ?a = path_text t"
    using acc(1) by (simp add: path_argument_def arg_or_def)
  note t = validate_target_accepts [OF v assms(3)]
  have effect: "effect_refusal E ?P X ?a ?action t = Inr None"
    using t(2) effect_refusal_cong [of ?a args E ?P X ?action t] acc(3) by simp
  have "validate_target E ?P X ?a ?action root t s = Inr d"
  proof (cases "?action \<in> set DESTINATION_ACTIONS")
    case False
    with t effect show ?thesis
      by (simp add: validate_target_def)
  next
    case True
    from t(4) [OF this] obtain m where m:
      "validate_destination E ?P root args (normalized_path args t) = Inr (Inr m)"
      "d = sec_allow m (Some t) (Some s)" by blast
    have "validate_destination E ?P root ?a ?a = Inr (Inr ?a)"
      using acc(3) [of "''overwrite''"] m(2) by (intro validate_destination_again [OF assms(1) m(1) assms(4)]) simp_all
    moreover have "normalized_path m t = m" using normalized_path_again [OF acc(1,2)] m(2) by simp
    ultimately show ?thesis using True t(1) effect m(2) by (simp add: validate_target_def)
  qed
  with root path resolve_path_again [OF assms(1) r assms(4) [OF r]] show ?thesis
    by (simp add: validate_filesystem_def action path_argument_def [symmetric])
qed

section \<open>What an accepted address is\<close>

definition DEFAULT_NETWORK :: network_policy where
  "DEFAULT_NETWORK =
     \<lparr>np_allowed_schemes = [''http'', ''https''], np_allowed_hosts = [], np_blocked_hosts = [],
      np_allow_private_addresses = False, np_allow_localhost = False, np_allowed_ports = [80, 443],
      np_sensitive_header_allowlist = []\<rparr>"

lemma in_network4_iff:
  "n \<le> 32 \<Longrightarrow> in_network ((net :: ip4), n) a \<longleftrightarrow> unat a div 2 ^ (32 - n) = unat net div 2 ^ (32 - n)"
  using in_network_iff [of net n a] by simp

lemma allowed4_networks:
  assumes "allowed4 P a" "\<not> np_allow_private_addresses P"
  shows "\<not> private4 a" "\<not> in_network LINK_LOCAL4 a" "\<not> in_network MULTICAST4 a" "a \<noteq> 0"
    "\<not> in_network RESERVED4 a"
  using assms by (auto simp: allowed4_def split: if_splits)

lemma in_networksI: "net \<in> set nets \<Longrightarrow> in_network net a \<Longrightarrow> in_networks nets a"
  by (auto simp: in_networks_def list_ex_iff)

lemma private4_exceptions: "in_networks PRIVATE4_EXCEPTIONS a \<Longrightarrow> unat a = 0xC0000009 \<or> unat a = 0xC000000A"
  by (auto simp: in_networks_def PRIVATE4_EXCEPTIONS_def in_network4_iff)

lemma not_private4:
  assumes "\<not> private4 a" "net \<in> set PRIVATE4" "in_network net a"
  shows "unat a = 0xC0000009 \<or> unat a = 0xC000000A"
  using assms in_networksI private4_exceptions by (fastforce simp: private4_def)

text \<open>The blocks nobody should be led to: this host, the private networks, the link and the loopback.\<close>

definition internal4 :: "ip4 \<Rightarrow> bool" where
  "internal4 a \<longleftrightarrow>
     unat a < 2 ^ 24 \<or> 10 * 2 ^ 24 \<le> unat a \<and> unat a < 11 * 2 ^ 24 \<or>
     127 * 2 ^ 24 \<le> unat a \<and> unat a < 128 * 2 ^ 24 \<or>
     (169 * 256 + 254) * 2 ^ 16 \<le> unat a \<and> unat a < (169 * 256 + 255) * 2 ^ 16 \<or>
     (172 * 16 + 1) * 2 ^ 20 \<le> unat a \<and> unat a < (172 * 16 + 2) * 2 ^ 20 \<or>
     (192 * 256 + 168) * 2 ^ 16 \<le> unat a \<and> unat a < (192 * 256 + 169) * 2 ^ 16 \<or>
     224 * 2 ^ 24 \<le> unat a"

lemma in_block4:
  assumes "\<not> private4 a" "(net, n) \<in> set PRIVATE4" "n \<le> 32" "unat net = k * 2 ^ (32 - n)"
    "k * 2 ^ (32 - n) \<le> unat a" "unat a < Suc k * 2 ^ (32 - n)"
  shows "unat a = 0xC0000009 \<or> unat a = 0xC000000A"
proof -
  have "unat a div 2 ^ (32 - n) = k" using assms(5,6) by (simp add: div_nat_eqI mult.commute)
  with assms(3,4) have "in_network (net, n) a" by (simp add: in_network4_iff)
  with assms(1,2) show ?thesis by (rule not_private4)
qed

lemma allowed4_external:
  assumes "allowed4 P a" "\<not> np_allow_private_addresses P"
  shows "\<not> internal4 a"
proof
  note n = allowed4_networks [OF assms]
  assume "internal4 a"
  then consider "unat a < 2 ^ 24" | "10 * 2 ^ 24 \<le> unat a \<and> unat a < 11 * 2 ^ 24"
    | "127 * 2 ^ 24 \<le> unat a \<and> unat a < 128 * 2 ^ 24"
    | "43518 * 2 ^ 16 \<le> unat a \<and> unat a < 43519 * 2 ^ 16"
    | "2753 * 2 ^ 20 \<le> unat a \<and> unat a < 2754 * 2 ^ 20"
    | "49320 * 2 ^ 16 \<le> unat a \<and> unat a < 49321 * 2 ^ 16" | "224 * 2 ^ 24 \<le> unat a"
    by (auto simp: internal4_def)
  then show False
  proof cases
    case 1
    with in_block4 [where net = 0 and n = 8 and k = 0, OF n(1)] show ?thesis by (simp add: PRIVATE4_def)
  next
    case 2
    with in_block4 [where net = "0x0A000000" and n = 8 and k = 10, OF n(1)] show ?thesis by (simp add: PRIVATE4_def)
  next
    case 3
    with in_block4 [where net = "0x7F000000" and n = 8 and k = 127, OF n(1)] show ?thesis by (simp add: PRIVATE4_def LOOPBACK4_def)
  next
    case 4
    with in_block4 [where net = "0xA9FE0000" and n = 16 and k = 43518, OF n(1)] show ?thesis by (simp add: PRIVATE4_def LINK_LOCAL4_def)
  next
    case 5
    with in_block4 [where net = "0xAC100000" and n = 12 and k = 2753, OF n(1)] show ?thesis by (simp add: PRIVATE4_def)
  next
    case 6
    with in_block4 [where net = "0xC0A80000" and n = 16 and k = 49320, OF n(1)] show ?thesis by (simp add: PRIVATE4_def)
  next
    case 7
    have "unat a < 2 ^ 32" using unsigned_less [of a] by simp
    then have "unat a div 2 ^ 28 < 16" by (simp add: div_less_iff_less_mult)
    moreover have "14 \<le> unat a div 2 ^ 28" using 7 by (simp add: less_eq_div_iff_mult_less_eq)
    ultimately have "unat a div 2 ^ 28 = 14 \<or> unat a div 2 ^ 28 = 15" by arith
    with n(3,5) show ?thesis by (auto simp: MULTICAST4_def RESERVED4_def in_network4_iff)
  qed
qed

text \<open>IPv6: what is left are global unicast addresses, and the old site-local ones.\<close>

definition GLOBAL6 :: "ip6 \<times> nat" where "GLOBAL6 = (0x20000000000000000000000000000000, 3)"
definition SITE_LOCAL6 :: "ip6 \<times> nat" where "SITE_LOCAL6 = (0xFEC00000000000000000000000000000, 10)"
definition SHARED4 :: "ip4 \<times> nat" where "SHARED4 = (0x64400000, 10)"

lemma in_network6_iff:
  "n \<le> 128 \<Longrightarrow> in_network ((net :: ip6), n) a \<longleftrightarrow> unat a div 2 ^ (128 - n) = unat net div 2 ^ (128 - n)"
  using in_network_iff [of net n a] by simp

text \<open>A network of at most ten bits is decided by the first ten.\<close>

lemma in_network6_head:
  assumes "n \<le> 10"
  shows "in_network ((net :: ip6), n) a \<longleftrightarrow> (unat a div 2 ^ 118) div 2 ^ (10 - n) = unat net div 2 ^ (128 - n)"
proof -
  have "128 - n = 118 + (10 - n)" using assms by simp
  then have "(2 :: nat) ^ (128 - n) = 2 ^ 118 * 2 ^ (10 - n)" by (simp only: power_add)
  with assms show ?thesis by (simp add: in_network6_iff div_mult2_eq)
qed

definition short6 :: "nat \<Rightarrow> bool" where
  "short6 h \<longleftrightarrow>
     list_ex (\<lambda>(k, v). h div 2 ^ k = v)
       [(2, 0), (2, 1), (3, 1), (4, 1), (5, 1), (6, 1), (7, 2), (7, 3), (7, 4), (7, 5), (7, 6), (6, 14), (5, 30),
        (4, 62), (1, 508), (3, 126), (0, 1018), (2, 255)]"

lemma head_cases:
  assumes h: "h < 1024" "\<not> short6 h"
  shows "h div 2 ^ 7 = 1 \<or> h = 1019"
proof -
  have iff: "h div c = v \<longleftrightarrow> c * v \<le> h \<and> h < c * v + c" if "0 < c" for c v :: nat
  proof -
    have "h div c = v \<longleftrightarrow> v \<le> h div c \<and> h div c < Suc v" by arith
    with that show ?thesis by (simp add: less_eq_div_iff_mult_less_eq div_less_iff_less_mult algebra_simps)
  qed
  have out: "h < c * v \<or> c * v + c \<le> h" if "\<not> (h div c = v)" "0 < c" for c v
    using that iff [of c v] by (meson leI)
  from h(2) have o: "h div 2 ^ 2 \<noteq> 0" "h div 2 ^ 2 \<noteq> 1" "h div 2 ^ 3 \<noteq> 1" "h div 2 ^ 4 \<noteq> 1" "h div 2 ^ 5 \<noteq> 1"
      "h div 2 ^ 6 \<noteq> 1" "h div 2 ^ 7 \<noteq> 2" "h div 2 ^ 7 \<noteq> 3" "h div 2 ^ 7 \<noteq> 4" "h div 2 ^ 7 \<noteq> 5"
      "h div 2 ^ 7 \<noteq> 6" "h div 2 ^ 6 \<noteq> 14" "h div 2 ^ 5 \<noteq> 30" "h div 2 ^ 4 \<noteq> 62"
      "h div 2 ^ 3 \<noteq> 126" "h div 2 ^ 1 \<noteq> 508" "h div 2 ^ 0 \<noteq> 1018" "h div 2 ^ 2 \<noteq> 255"
    by (simp_all add: short6_def)
  from out [OF o(1)] have "4 \<le> h" by simp
  with out [OF o(2)] have "8 \<le> h" by simp
  with out [OF o(3)] have "16 \<le> h" by simp
  with out [OF o(4)] have "32 \<le> h" by simp
  with out [OF o(5)] have "64 \<le> h" by simp
  with out [OF o(6)] have "128 \<le> h" by simp
  then have low: "h div 2 ^ 7 = 1" if "h < 256" using that by (intro div_nat_eqI) simp_all
  show ?thesis
  proof (cases "h < 256")
    case False
    with out [OF o(7)] have "384 \<le> h" by simp
    with out [OF o(8)] have "512 \<le> h" by simp
    with out [OF o(9)] have "640 \<le> h" by simp
    with out [OF o(10)] have "768 \<le> h" by simp
    with out [OF o(11)] have "896 \<le> h" by simp
    with out [OF o(12)] have "960 \<le> h" by simp
    with out [OF o(13)] have "992 \<le> h" by simp
    with out [OF o(14)] have "1008 \<le> h" by simp
    with out [OF o(15)] have "1016 \<le> h" by simp
    with out [OF o(16)] have "1018 \<le> h" by simp
    with out [OF o(17)] have "1019 \<le> h" by simp
    with out [OF o(18)] h(1) show ?thesis by simp
  qed (use low in simp)
qed

lemma in_network_shorter:
  assumes "in_network (net :: 'a :: len word, n) a" "m \<le> n" "n \<le> LENGTH('a)"
  shows "in_network (net, m) a"
proof -
  have e: "LENGTH('a) - m = (n - m) + (LENGTH('a) - n)" using assms(2,3) by simp
  from assms(1) show ?thesis unfolding in_network_def by (simp add: e flip: drop_bit_drop_bit)
qed

lemma exceptions_global:
  assumes "in_networks PRIVATE6_EXCEPTIONS a"
  shows "in_network GLOBAL6 a"
proof -
  have global: "in_network GLOBAL6 a" if "in_network (net, n) a" "3 \<le> n" "n \<le> 128" "unat net div 2 ^ 125 = 1" for net n
    using in_network_shorter [OF that(1,2)] that(3,4) by (simp add: GLOBAL6_def in_network6_iff)
  from assms show ?thesis
    by (simp add: in_networks_def PRIVATE6_EXCEPTIONS_def) (elim disjE; drule global; simp)
qed

lemma mapped_reserved:
  assumes "ipv4_mapped a = Some b"
  shows "in_networks RESERVED6 a"
proof -
  have "unat a div 2 ^ 32 = 0xFFFF"
  proof -
    from assms have "drop_bit 32 a = 0xFFFF" by (simp add: ipv4_mapped_def split: if_splits)
    then have "unat (drop_bit 32 a) = unat (0xFFFF :: ip6)" by simp
    then have "drop_bit 32 (unat a) = 0xFFFF" unfolding unat_drop_bit_eq by simp
    then show ?thesis by (simp add: drop_bit_eq_div)
  qed
  then have "unat a div 2 ^ 120 = 0" using div_mult2_eq [of "unat a" "2 ^ 32" "2 ^ 88"] by simp
  then have "in_network (0, 8) a" by (simp add: in_network6_iff)
  then show ?thesis by (simp add: RESERVED6_def in_networks_def)
qed

lemma allowed6_networks:
  assumes "allowed6 P a" "\<not> np_allow_private_addresses P"
  shows "\<not> in_networks RESERVED6 a" "\<not> in_network LINK_LOCAL6 a" "\<not> in_network MULTICAST6 a"
    "\<not> in_networks PRIVATE6 a \<or> in_networks PRIVATE6_EXCEPTIONS a"
  using assms mapped_reserved [of a]
  by (auto simp: allowed6_def private6_def split: if_splits option.splits)

lemma allowed6_external:
  assumes "allowed6 P a" "\<not> np_allow_private_addresses P"
  shows "in_network GLOBAL6 a \<or> in_network SITE_LOCAL6 a"
proof (cases "in_networks PRIVATE6_EXCEPTIONS a")
  case False
  note n = allowed6_networks [OF assms]
  let ?h = "unat a div 2 ^ 118"
  have "unat a < 2 ^ 118 * 1024" using unsigned_less [of a] by simp
  then have "?h < 1024" by (simp add: div_less_iff_less_mult)
  moreover have "\<not> short6 ?h"
    using n False
    by (auto simp: short6_def in_networks_def RESERVED6_def PRIVATE6_def LINK_LOCAL6_def MULTICAST6_def
        in_network6_head)
  ultimately have "?h div 2 ^ 7 = 1 \<or> ?h = 1019" by (rule head_cases)
  then show ?thesis by (simp add: GLOBAL6_def SITE_LOCAL6_def in_network6_head)
qed (simp add: exceptions_global)

fun external_address :: "ip_address \<Rightarrow> bool" where
  "external_address (V4 a) = (\<not> internal4 a)"
| "external_address (V6 a) = (in_network GLOBAL6 a \<or> in_network SITE_LOCAL6 a)"
| "external_address NoAddress = False"

lemma allowed_external: "is_address_allowed P a \<Longrightarrow> \<not> np_allow_private_addresses P \<Longrightarrow> external_address a"
  using allowed4_external allowed6_external by (cases a) auto

section \<open>What an accepted fetch is\<close>

lemma find_None: "find f xs = None \<longleftrightarrow> (\<forall>x\<in>set xs. \<not> f x)"
  by (auto simp: find_None_iff)

lemma host_refusal_None:
  assumes "host_refusal E P host = Inr None"
  shows "host \<noteq> []" "host \<notin> set (np_blocked_hosts P)" "np_allowed_hosts P \<noteq> [] \<Longrightarrow> host \<in> set (np_allowed_hosts P)"
    "\<exists>addrs. te_lookup E host = Addresses addrs \<and> (\<forall>a\<in>set addrs. is_address_allowed P (fst a))"
  using assms
  by (auto simp: host_refusal_def find_None split: if_splits lookup_answer.splits option.splits prod.splits)

lemma host_refusal_denies: "host_refusal E P host = Inr (Some d) \<Longrightarrow> \<not> sd_allowed d"
  by (auto simp: host_refusal_def split: if_splits lookup_answer.splits option.splits prod.splits)

lemma header_refusal_denies: "header_refusal P hs = Some d \<Longrightarrow> \<not> sd_allowed d"
  by (auto simp: header_refusal_def split: option.splits prod.splits)

lemma fetch_arguments_lookup [simp]: "map_of (fetch_arguments args url scheme host port headers) ''url'' = Some (PStr url)"
  by (simp add: fetch_arguments_def)

lemma validate_port_accepts:
  assumes "validate_port P args url u = Inr d" "sd_allowed d"
  shows "map_of (sd_arguments d) ''url'' = Some (PStr url)"
    "\<exists>written. url_port u = Some written \<and>
       (np_allowed_ports P \<noteq> [] \<longrightarrow> effective_port (pu_scheme u) written \<in> set (np_allowed_ports P))"
  using assms header_refusal_denies
  by (auto simp: validate_port_def Let_def split: option.splits if_splits)

text \<open>A fetch the policy admits: the URL, its scheme, its host and every address of it, its port.\<close>

definition fetch_admitted :: "tool_env \<Rightarrow> network_policy \<Rightarrow> string \<Rightarrow> bool" where
  "fetch_admitted E P url \<longleftrightarrow>
     (\<exists>u addrs written. urlparse (te_bracket_ok E) url = Some u \<and> pu_scheme u \<in> set (np_allowed_schemes P) \<and>
        \<not> opt_nonempty (fst (url_userinfo u)) \<and> \<not> opt_nonempty (snd (url_userinfo u)) \<and>
        url_hostname u \<notin> set (np_blocked_hosts P) \<and>
        te_lookup E (url_hostname u) = Addresses addrs \<and> (\<forall>a\<in>set addrs. is_address_allowed P (fst a)) \<and>
        url_port u = Some written \<and>
        (np_allowed_ports P \<noteq> [] \<longrightarrow> effective_port (pu_scheme u) written \<in> set (np_allowed_ports P)))"

lemma validate_fetch_accepts:
  assumes "validate_fetch E P X args = Inr d" "sd_allowed d"
  shows "\<exists>url. map_of (sd_arguments d) ''url'' = Some (PStr url) \<and> fetch_admitted E P url"
proof -
  define url where "url = py_strip (py_str (te_show E) (arg_or args ''url''
                  (PStr (case sx_network_url X of Some u \<Rightarrow> u | None \<Rightarrow> []))))"
  from assms obtain u where u: "urlparse (te_bracket_ok E) url = Some u" "pu_scheme u \<in> set (np_allowed_schemes P)"
    "\<not> opt_nonempty (fst (url_userinfo u))" "\<not> opt_nonempty (snd (url_userinfo u))"
    and rest: "res_bind (host_refusal E P (url_hostname u)) (\<lambda>refused.
                  case refused of Some d \<Rightarrow> Inr d | None \<Rightarrow> validate_port P args url u) = Inr d"
    by (auto simp: validate_fetch_def Let_def url_def [symmetric] split: if_splits option.splits)
  from rest obtain x where x: "host_refusal E P (url_hostname u) = Inr x"
    "(case x of Some d \<Rightarrow> Inr d | None \<Rightarrow> validate_port P args url u) = Inr d"
    by (auto simp: res_bind_Inr_iff)
  with assms(2) host_refusal_denies have none: "x = None" by (cases x) auto
  with x have port: "validate_port P args url u = Inr d" and host: "host_refusal E P (url_hostname u) = Inr None"
    by simp_all
  from host_refusal_None(4) [OF host] obtain addrs where
    a: "te_lookup E (url_hostname u) = Addresses addrs" "\<forall>a\<in>set addrs. is_address_allowed P (fst a)" by blast
  from validate_port_accepts(2) [OF port assms(2)] obtain written where w: "url_port u = Some written"
    "np_allowed_ports P \<noteq> [] \<longrightarrow> effective_port (pu_scheme u) written \<in> set (np_allowed_ports P)" by blast
  have "fetch_admitted E P url"
    unfolding fetch_admitted_def using u host_refusal_None(2) [OF host] a w by blast
  with validate_port_accepts(1) [OF port assms(2)] show ?thesis by blast
qed

section \<open>What an accepted command is\<close>

lemma shell_arguments_lookup:
  "map_of (shell_arguments args exe argv cwd env) ''_parsed_executable'' = Some (PStr exe)"
  "map_of (shell_arguments args exe argv cwd env) ''_parsed_args'' = Some (PList (map PStr argv))"
  "map_of (shell_arguments args exe argv cwd env) ''env'' = map_of args ''env''"
  "map_of (shell_arguments args exe argv cwd env) ''_validated_cwd'' =
     Some (PStr (case cwd of Some c \<Rightarrow> path_text c | None \<Rightarrow> ''None''))"
  "map_of (shell_arguments args exe argv cwd env) ''_validated_env'' = Some (PDict env)"
  by (simp_all add: shell_arguments_def)

lemma resolve_shell_cwd_denies: "resolve_shell_cwd E P raw = Inr (Inl d) \<Longrightarrow> \<not> sd_allowed d"
  by (auto simp: resolve_shell_cwd_def Let_def dest: path_refusal_denies split: option.splits if_splits)

lemma resolve_shell_cwd_scope:
  assumes "resolve_shell_cwd E P raw = Inr (Inr (t, s))"
  shows "scope_of (sp_allowed_roots P) t = Some s"
proof -
  obtain p where "te_resolve E p = Some t" "scope_of (sp_allowed_roots P) t = Some s"
    using assms by (auto simp: resolve_shell_cwd_def Let_def split: option.splits if_splits)
  then show ?thesis by simp
qed

lemma env_refusal_None:
  "env_refusal P env = None \<Longrightarrow> (k, v) \<in> set env \<Longrightarrow> py_upper k \<in> set (map py_upper (sp_allowed_env_vars P))"
  by (auto simp: env_refusal_def find_None split: option.splits)

lemma env_refusal_denies: "env_refusal P env = Some d \<Longrightarrow> \<not> sd_allowed d"
  by (auto simp: env_refusal_def split: option.splits prod.splits)

text \<open>The directory of a command: given and below a root, or the default of the policy.\<close>

lemma shell_cwd_accepts:
  assumes "shell_cwd E P X args = Inr r"
  shows "(\<exists>d. r = Inl d \<and> \<not> sd_allowed d) \<or>
    (\<exists>cwd. r = Inr cwd \<and> (cwd = sp_default_root P \<or> (\<exists>c s. cwd = Some c \<and> scope_of (sp_allowed_roots P) c = Some s)))"
proof -
  let ?cwd = "arg_or args ''cwd'' (case sx_shell_cwd X of Some c \<Rightarrow> PStr c | None \<Rightarrow> PNone)"
  show ?thesis
  proof (cases "truthy ?cwd")
    case True
    with assms obtain x where x: "resolve_shell_cwd E P (py_str (te_show E) ?cwd) = Inr x"
      "(case x of Inl d \<Rightarrow> Inr (Inl d) | Inr (target, _) \<Rightarrow> Inr (Inr (Some target))) = (Inr r ::
         (security_raise, security_decision + string list option) result)"
      by (auto simp: shell_cwd_def Let_def res_bind_Inr_iff)
    then show ?thesis
    proof (cases x)
      case (Inl d)
      with x resolve_shell_cwd_denies show ?thesis by auto
    next
      case (Inr ts)
      with x resolve_shell_cwd_scope show ?thesis by (cases ts) auto
    qed
  qed (use assms in \<open>auto simp: shell_cwd_def Let_def\<close>)
qed

text \<open>A command the policy admits, in the arguments the tool reads.\<close>

definition command_admitted :: "shell_policy \<Rightarrow> (string, pyval) dict \<Rightarrow> bool" where
  "command_admitted P args \<longleftrightarrow>
     (\<exists>exe argv cwd env. map_of args ''_parsed_executable'' = Some (PStr exe) \<and>
        map_of args ''_parsed_args'' = Some (PList (map PStr argv)) \<and>
        map_of args ''_validated_cwd'' = Some (PStr (case cwd of Some c \<Rightarrow> path_text c | None \<Rightarrow> ''None'')) \<and>
        map_of args ''_validated_env'' = Some (PDict env) \<and>
        (case map_of args ''env'' of None \<Rightarrow> Some [] | Some v \<Rightarrow> py_dict v) = Some env \<and>
        (sp_allowed_executables P \<noteq> [] \<longrightarrow> exe \<in> set (sp_allowed_executables P)) \<and>
        (cwd = sp_default_root P \<or> (\<exists>c root. cwd = Some c \<and> root \<in> set (sp_allowed_roots P) \<and> inside_path c root)) \<and>
        (\<forall>(k, v)\<in>set env. py_upper k \<in> set (map py_upper (sp_allowed_env_vars P))))"

lemma validate_shell_accepts:
  assumes "validate_shell E T X args = Inr d" "sd_allowed d"
  shows "command_admitted (ts_shell T) (sd_arguments d)"
proof -
  let ?P = "ts_shell T"
  from assms obtain exe argv where
    exe: "sp_allowed_executables ?P \<noteq> [] \<longrightarrow> exe \<in> set (sp_allowed_executables ?P)"
    and rest: "finish_shell E ?P X args exe argv = Inr d"
    by (auto simp: validate_shell_def Let_def split: if_splits option.splits list.splits)
  from rest obtain r where r: "shell_cwd E ?P X args = Inr r" by (auto simp: finish_shell_def res_bind_Inr_iff)
  from shell_cwd_accepts [OF r] consider (refused) e where "r = Inl e" "\<not> sd_allowed e"
    | (accepted) cwd where "r = Inr cwd"
        "cwd = sp_default_root ?P \<or> (\<exists>c s. cwd = Some c \<and> scope_of (sp_allowed_roots ?P) c = Some s)" by blast
  then show ?thesis
  proof cases
    case refused
    with rest r assms(2) show ?thesis by (simp add: finish_shell_def)
  next
    case cwd: (accepted cwd)
    with rest r obtain env where env: "env_refusal ?P env = None"
      "d = sec_allow (shell_arguments args exe argv cwd env) cwd cwd"
      "(case map_of args ''env'' of None \<Rightarrow> Some [] | Some v \<Rightarrow> py_dict v) = Some env"
      using assms(2) env_refusal_denies by (auto simp: finish_shell_def split: option.splits)
    from cwd(2) have "cwd = sp_default_root ?P \<or>
        (\<exists>c root. cwd = Some c \<and> root \<in> set (sp_allowed_roots ?P) \<and> inside_path c root)"
      using scope_of_Some by blast
    moreover have "\<forall>(k, v)\<in>set env. py_upper k \<in> set (map py_upper (sp_allowed_env_vars ?P))"
      using env_refusal_None [OF env(1)] by blast
    ultimately show ?thesis
      unfolding command_admitted_def env(2) sec_allow_fields using exe shell_arguments_lookup env(3) by metis
  qed
qed

section \<open>The blocks that pass\<close>

lemma bit_of_network4: "n \<le> 32 \<Longrightarrow> in_network ((net :: ip4), n) a \<Longrightarrow> m \<le> n \<Longrightarrow>
    unat a div 2 ^ (32 - m) = unat net div 2 ^ (32 - m)"
  using in_network_shorter [of net n a m] by (simp add: in_network4_iff)

lemma shared4_range:
  assumes "in_network SHARED4 a"
  shows "0x64400000 \<le> unat a" "unat a < 0x64800000"
proof -
  from assms have "unat a div 2 ^ 22 = 401" by (simp add: SHARED4_def in_network4_iff)
  then show "0x64400000 \<le> unat a" "unat a < 0x64800000" by (simp_all add: div_nat_eqI) (linarith+)?
qed

lemma shared4_allowed:
  assumes "in_network SHARED4 a"
  shows "allowed4 P a"
proof -
  note r = shared4_range [OF assms]
  have "unat a div 2 ^ 24 = 100" using r by (intro div_nat_eqI) simp_all
  then have out: "\<not> in_network (net, n) a" if "8 \<le> n" "n \<le> 32" "unat net div 2 ^ 24 \<noteq> 100" for net n
    using bit_of_network4 [of n net a 8] that by auto
  have top: "unat a div 2 ^ 28 = 6" using r by (intro div_nat_eqI) simp_all
  have res: "\<not> in_network MULTICAST4 a" "\<not> in_network RESERVED4 a"
    using top by (simp_all add: MULTICAST4_def RESERVED4_def in_network4_iff)
  then have "\<not> in_networks PRIVATE4 a"
    by (simp add: in_networks_def PRIVATE4_def out LOOPBACK4_def LINK_LOCAL4_def)
  moreover have "\<not> in_network LOOPBACK4 a" "\<not> in_network LINK_LOCAL4 a" by (simp_all add: LOOPBACK4_def LINK_LOCAL4_def out)
  moreover note res
  moreover have "a \<noteq> 0" "a \<noteq> METADATA_ADDRESS" using r by (auto simp: METADATA_ADDRESS_def)
  ultimately show ?thesis by (simp add: allowed4_def private4_def)
qed

lemma site_local6_allowed:
  assumes "in_network SITE_LOCAL6 a"
  shows "allowed6 P a"
proof -
  from assms have h: "unat a div 2 ^ 118 = 1019" by (simp add: SITE_LOCAL6_def in_network6_iff)
  have out: "\<not> in_network (net, n) a" if "10 \<le> n" "n \<le> 128" "unat net div 2 ^ 118 \<noteq> 1019" for net n
    using in_network_shorter [of net n a 10] that h by (auto simp: in_network6_iff)
  have low: "\<not> in_network (net, n) a" if "n \<le> 10" "1019 div 2 ^ (10 - n) \<noteq> unat net div 2 ^ (128 - n)" for net n
    using that h in_network6_head [of n net a] by simp
  have "\<not> in_networks RESERVED6 a" by (simp add: in_networks_def RESERVED6_def low)
  moreover from this have "ipv4_mapped a = None" using mapped_reserved [of a] by (cases "ipv4_mapped a") auto
  moreover have "\<not> in_networks PRIVATE6 a" by (simp add: in_networks_def PRIVATE6_def LINK_LOCAL6_def low out)
  moreover have "\<not> in_network LINK_LOCAL6 a" "\<not> in_network MULTICAST6 a"
    by (simp_all add: LINK_LOCAL6_def MULTICAST6_def low)
  moreover have "a \<noteq> 0" "a \<noteq> 1" using h by auto
  ultimately show ?thesis by (simp add: allowed6_def private6_def)
qed

section \<open>What accepted arguments name\<close>

lemma accepted_paths:
  assumes "resolves_canonically E" "filesystem_policy_ok (ts_filesystem T)"
    "validate_filesystem E T X args = Inr d" "sd_allowed d"
  shows "(\<exists>t. map_of (sd_arguments d) ''path'' = Some (PStr (path_text t)) \<and> admitted (ts_filesystem T) t \<and>
      (security_action E (sd_arguments d) (sx_action X) ''read'' \<in> set FILE_DELETE_ACTIONS \<longrightarrow>
         t \<notin> set (fp_allowed_roots (ts_filesystem T)))) \<and>
    (security_action E (sd_arguments d) (sx_action X) ''read'' \<in> set DESTINATION_ACTIONS \<longrightarrow>
      (\<exists>dest. map_of (sd_arguments d) ''destination'' = Some (PStr (path_text dest)) \<and> admitted (ts_filesystem T) dest))"
proof -
  let ?P = "ts_filesystem T" and ?action = "security_action E args (sx_action X) ''read''"
  from validate_filesystem_accepts [OF assms(3,4)] obtain root t s where
    r: "resolve_path E ?P root (path_argument E args) = Inr (Inr (t, s))"
    and v: "validate_target E ?P X args ?action root t s = Inr d" by blast
  note acc = accepted_arguments [OF v assms(4)]
  have action: "security_action E (sd_arguments d) (sx_action X) ''read'' = ?action"
    by (simp add: security_action_def arg_or_def acc(3))
  note t = validate_target_accepts [OF v assms(4)] and no = target_refusal_None [OF validate_target_accepts(1) [OF v assms(4)]]
  have adm: "admitted ?P t" by (rule resolve_path_admitted [OF assms(1,2) r no(1)])
  then have root: "t \<notin> set (fp_allowed_roots ?P)" if "?action \<in> set FILE_DELETE_ACTIONS"
    using no(2) [OF that] by (auto simp: list_ex_iff same_path_def)
  have dest: "\<exists>dest. map_of (sd_arguments d) ''destination'' = Some (PStr (path_text dest)) \<and> admitted ?P dest"
    if "?action \<in> set DESTINATION_ACTIONS"
  proof -
    from t(4) [OF that] obtain m where m:
      "validate_destination E ?P root args (normalized_path args t) = Inr (Inr m)" "d = sec_allow m (Some t) (Some s)"
      by blast
    from validate_destination_accepts [OF m(1)] obtain dest s' where
      dest: "resolve_path E ?P root (arg_text E args ''destination'') = Inr (Inr (dest, s'))" "\<not> is_protected ?P dest"
        "m = AList.update ''destination'' (PStr (path_text dest)) (normalized_path args t)" by blast
    from resolve_path_admitted [OF assms(1,2) dest(1,2)] dest(3) m(2) show ?thesis by auto
  qed
  from acc(1) adm root dest show ?thesis unfolding action by blast
qed

end
