(* ===== verification/Tool_Executor.thy ===== *)
theory Tool_Executor
  imports Tool_Dispatcher Tool_Security Provider_Executor
begin

text \<open>
  \<open>ToolExecutor\<close> (\<open>app/runtime/executor.py\<close>) with the tool guard (\<open>app/security/tool_guard.py\<close>)
  and the scanner of its inputs (\<open>input_scanner.py\<close>): the network constraint of the permit, the
  guard, the governance engine, the security policy, the call through the tool manager, and the
  record and rollback decision that follow. All four parts are present, as \<open>app/core/app.py\<close>
  composes them. Traces, events and log lines are left out.
\<close>

section \<open>The scanner of inputs\<close>

datatype security_level = LEVEL_LOW | LEVEL_MEDIUM | LEVEL_HIGH | LEVEL_CRITICAL

fun level_value :: "security_level \<Rightarrow> string" where
  "level_value LEVEL_LOW = ''low''"
| "level_value LEVEL_MEDIUM = ''medium''"
| "level_value LEVEL_HIGH = ''high''"
| "level_value LEVEL_CRITICAL = ''critical''"

record guard_decision =
  gx_allowed :: bool
  gx_reason :: "string option"
  gx_policy_id :: "string option"
  gx_level :: security_level

definition guard_allow :: guard_decision where
  "guard_allow = \<lparr>gx_allowed = True, gx_reason = None, gx_policy_id = None, gx_level = LEVEL_LOW\<rparr>"

definition guard_deny :: "string \<Rightarrow> string \<Rightarrow> security_level \<Rightarrow> guard_decision" where
  "guard_deny reason policy level =
     \<lparr>gx_allowed = False, gx_reason = Some reason, gx_policy_id = Some policy, gx_level = level\<rparr>"

definition credential_words :: "rx list list" where
  "credential_words =
     [map Lit ''api'' @ [Opt ''_-''] @ map Lit ''key'', map Lit ''password'', map Lit ''secret'',
      map Lit ''token'', map Lit ''private'' @ [Opt ''_-''] @ map Lit ''key'']"

text \<open>\<open>\s*[:=]\s*['"]?[a-zA-Z0-9_\-]+\<close>: what follows the name of a credential.\<close>

definition credential_value :: "string \<Rightarrow> bool" where
  "credential_value s =
     (case dropWhile is_space s of
        c # r \<Rightarrow>
          c \<in> set '':='' \<and>
          (let v = dropWhile is_space r; w = (if v \<noteq> [] \<and> hd v \<in> {CHR 0x27, CHR 0x22} then tl v else v)
           in w \<noteq> [] \<and> hd w \<in> set (word_chars @ ''-''))
      | [] \<Rightarrow> False)"

definition credential_at :: "char option \<Rightarrow> string \<Rightarrow> bool" where
  "credential_at prev s =
     list_ex (\<lambda>p. case rx_rest p prev s of Some r \<Rightarrow> credential_value r | None \<Rightarrow> False) credential_words"

fun credential_search :: "char option \<Rightarrow> string \<Rightarrow> bool" where
  "credential_search prev [] = credential_at prev []"
| "credential_search prev (c # s) = (credential_at prev (c # s) \<or> credential_search (Some c) s)"

definition DANGEROUS_COMMANDS :: "string list" where
  "DANGEROUS_COMMANDS = [''rm -rf'', ''mkfs'', ''dd if='', ''> /dev/sda'']"

definition scan_text :: "string \<Rightarrow> guard_decision" where
  "scan_text text =
     (if text = [] then guard_allow
      else if py_contains text ''../'' \<or> py_contains text (''..'' @ [CHR 0x5C]) then
        guard_deny ''Path traversal attempt detected'' ''policy_path_traversal'' LEVEL_CRITICAL
      else (case find (py_contains text) DANGEROUS_COMMANDS of
              Some c \<Rightarrow> guard_deny (''Dangerous command detected: '' @ c) ''policy_dangerous_command'' LEVEL_CRITICAL
            | None \<Rightarrow>
                if credential_search None text then
                  guard_deny ''Credential leakage detected in input'' ''policy_credential_leak'' LEVEL_HIGH
                else guard_allow))"

text \<open>\<open>^(api[_-]?key|password|...)$\<close>; \<open>$\<close> admits a final newline.\<close>

definition SENSITIVE_KEYS :: "rx list list" where
  "SENSITIVE_KEYS = credential_words @ [map Lit ''passwd'', map Lit ''pwd'']"

definition sensitive_key :: "string \<Rightarrow> bool" where
  "sensitive_key k = list_ex (\<lambda>p. case rx_rest p None k of Some r \<Rightarrow> line_end r | None \<Rightarrow> False) SENSITIVE_KEYS"

definition string_value :: "pyval \<Rightarrow> string option" where
  "string_value v = (case v of PStr s \<Rightarrow> Some s | PEnum s \<Rightarrow> Some s | _ \<Rightarrow> None)"

text \<open>The first refusal; a list is scanned for texts and dictionaries, not for lists inside it.\<close>

fun first_denied :: "guard_decision list \<Rightarrow> guard_decision" where
  "first_denied [] = guard_allow"
| "first_denied (d # ds) = (if gx_allowed d then first_denied ds else d)"

fun scan_value :: "pyval \<Rightarrow> guard_decision" and scan_item :: "pyval \<Rightarrow> guard_decision" where
  "scan_value (PStr s) = scan_text s"
| "scan_value (PEnum s) = scan_text s"
| "scan_value (PDict fs) =
     first_denied (map (\<lambda>(k, v).
       if sensitive_key k \<and> opt_nonempty (string_value v)
       then guard_deny ''Credential leakage detected in input'' ''policy_credential_leak'' LEVEL_HIGH
       else scan_value v) fs)"
| "scan_value (PList vs) = first_denied (map scan_item vs)"
| "scan_value v = guard_allow"
| "scan_item (PList vs) = guard_allow"
| "scan_item v = scan_value v"

definition validate_request :: "(string, pyval) dict \<Rightarrow> guard_decision" where
  "validate_request d = scan_value (PDict d)"

section \<open>The guard\<close>

record tool_guard =
  gu_blocked_tools :: "string list"
  gu_policy_checks :: nat
  gu_tool_denials :: nat
  gu_blocked_requests :: nat

definition CRITICAL_TOOLS :: "string list" where
  "CRITICAL_TOOLS =
     [''filesystem.delete'', ''system.exec'', ''notes.delete'', ''tasks.delete'', ''contacts.delete'',
      ''calendar.delete'', ''reminder.cancel'']"

definition set_blocked_tools :: "string list \<Rightarrow> tool_guard \<Rightarrow> tool_guard" where
  "set_blocked_tools tools g = g\<lparr>gu_blocked_tools := tools\<rparr>"

definition guard_refusal ::
  "tool_guard \<Rightarrow> 't tool_registry \<Rightarrow> string \<Rightarrow> security_level \<Rightarrow> guard_decision option" where
  "guard_refusal g reg tool level =
     (if tool \<in> set (gu_blocked_tools g) then
        Some (guard_deny (''Tool '' @ tool @ '' is explicitly blocked'') ''policy_blocked_tool'' LEVEL_CRITICAL)
      else if get_tool reg tool = None then
        Some (guard_deny (''Tool '' @ tool @ '' not found'') ''policy_tool_not_found'' LEVEL_LOW)
      else if tool \<in> set CRITICAL_TOOLS \<and> level \<noteq> LEVEL_CRITICAL then
        Some (guard_deny (''Tool '' @ tool @ '' requires CRITICAL security level, but context is '' @ level_value level)
                ''policy_insufficient_privilege'' LEVEL_CRITICAL)
      else None)"

definition authorize_tool_execution ::
  "'t tool_registry \<Rightarrow> string \<Rightarrow> (string, pyval) dict \<Rightarrow> security_level \<Rightarrow> tool_guard \<Rightarrow> guard_decision \<times> tool_guard" where
  "authorize_tool_execution reg tool args level g =
     (let g = g\<lparr>gu_policy_checks := Suc (gu_policy_checks g)\<rparr>
      in case guard_refusal g reg tool level of
           Some d \<Rightarrow> (d, g\<lparr>gu_tool_denials := Suc (gu_tool_denials g)\<rparr>)
         | None \<Rightarrow>
             (let d = validate_request args
              in if gx_allowed d then (guard_allow, g)
                 else (d, g\<lparr>gu_blocked_requests := Suc (gu_blocked_requests g)\<rparr>)))"

section \<open>The executor\<close>

record tool_executor_env =
  tv_call :: call_env
  tv_security :: tool_env
  tv_now :: pydatetime
  tv_stamp :: string
  tv_audit_stamp :: string
  tv_nonce :: string
  tv_fault_text :: string

record 't tool_world =
  tw_manager :: "'t tool_manager"
  tw_guard :: tool_guard
  tw_governance :: governance_state

datatype tool_executor_error =
    ToolRecordError record_error | ToolViolationWithoutDecision | SecurityRaised security_raise | ToolCancelled

text \<open>Runs of tools: the tool, its arguments and how often it ran.\<close>

type_synonym tool_runs = "(string \<times> (string, pyval) dict \<times> nat) list"

definition permission_of_text :: "string \<Rightarrow> tool_permission option" where
  "permission_of_text s =
     find (\<lambda>p. permission_value p = s)
       [TOOL_READ, TOOL_WRITE, TOOL_MODIFY, TOOL_DELETE, TOOL_EXECUTE, TOOL_NETWORK, TOOL_ADMIN]"

definition declared_permissions :: "tool_info option \<Rightarrow> tool_permission list" where
  "declared_permissions info =
     (case info of None \<Rightarrow> [] | Some i \<Rightarrow> List.map_filter permission_of_text (ti_permissions i))"

definition permit_permissions :: "execution_permit option \<Rightarrow> tool_permission list" where
  "permit_permissions permit =
     (case permit of
        None \<Rightarrow> []
      | Some p \<Rightarrow>
          fold (\<lambda>t acc. if t \<in> set acc then acc else acc @ [t])
            (List.map_filter (\<lambda>s. permission_of_text (scope_value s)) (ep_required p)) [])"

text \<open>\<open>task.metadata.get("tool") if task.action_type == "tool" else task.action_type\<close>.\<close>

definition executed_tool :: "(pyval \<Rightarrow> string) \<Rightarrow> runtime_task \<Rightarrow> string" where
  "executed_tool show task =
     (if rt_action_type task = ''tool''
      then (case map_of (rt_metadata task) ''tool'' of Some v \<Rightarrow> py_str show v | None \<Rightarrow> ''None'')
      else rt_action_type task)"

definition failed_tool ::
  "runtime_task \<Rightarrow> routing_decision \<Rightarrow> string \<Rightarrow> (string, pyval) dict \<Rightarrow> runtime_result" where
  "failed_tool task routing error metadata =
     \<lparr>rr_task_id = rt_task_id task, rr_status = FAILED, rr_routing = Some routing, rr_pause = None,
      rr_output = [], rr_error = Some error, rr_started_at = None, rr_finished_at = None, rr_duration = 0,
      rr_metadata = metadata\<rparr>"

definition network_blocked :: "runtime_task \<Rightarrow> routing_decision \<Rightarrow> string \<Rightarrow> runtime_result option" where
  "network_blocked task routing tool =
     (case rt_permit task of
        Some p \<Rightarrow>
          (if tool = ''internet'' \<and> \<not> ec_network_allowed (ep_constraints p) then
             Some (failed_tool task routing
               ''Runtime execution blocked: Network access is disabled by CAP constraints.''
               [(''diagnostic'', PStr ''network_constraint_denied''), (''security_blocked'', PBool True),
                (''failure_type'', PStr ''network_constraint_denied''),
                (''operation_outcome'', PStr ''failed_before_effect''), (''tool'', PStr tool),
                (''permit_id'', PStr (ep_permit_id p)), (''operation_digest'', PStr (ep_operation_digest p)),
                (''authorization_decision'', PStr (decision_value (ep_decision p)))])
           else None)
      | None \<Rightarrow> None)"

definition guard_blocked :: "runtime_task \<Rightarrow> routing_decision \<Rightarrow> string \<Rightarrow> guard_decision \<Rightarrow> runtime_result" where
  "guard_blocked task routing tool d =
     failed_tool task routing
       (if opt_nonempty (gx_reason d) then the (gx_reason d) else ''Tool execution blocked by security policy'')
       [(''security_blocked'', PBool True), (''security_reason'', opt_py (gx_reason d)),
        (''security_policy_id'', opt_py (gx_policy_id d)), (''security_level'', PStr (level_value (gx_level d))),
        (''tool'', PStr tool)]"

definition tool_governance_blocked ::
  "runtime_task \<Rightarrow> routing_decision \<Rightarrow> string \<Rightarrow> policy_violation \<Rightarrow> governance_decision \<Rightarrow> string \<Rightarrow> runtime_result" where
  "tool_governance_blocked task routing tool v d record_id =
     failed_tool task routing
       (if pv_message v \<noteq> [] then pv_message v else ''Tool execution blocked by governance policy'')
       [(''governance_blocked'', PBool True), (''governance_violation'', PStr (pv_code v)),
        (''governance_reason'', PStr (pv_message v)),
        (''governance_decision'', PStr (decision_value (gd_decision d))),
        (''governance_risk'', PStr (risk_value (gd_risk d))), (''record_id'', PStr record_id),
        (''tool'', PStr tool)]"

text \<open>The arguments before validation: a reminder learns whose it is from the context.\<close>

definition execution_arguments ::
  "runtime_context \<Rightarrow> runtime_task \<Rightarrow> string \<Rightarrow> string \<Rightarrow> (string, pyval) dict" where
  "execution_arguments ctx task tool subject =
     (if tool = ''reminder'' then
        fold (\<lambda>(k, v). AList.update k v)
          [(''_schedule_principal_id'', PStr subject),
           (''_schedule_session_id'', PStr (if opt_nonempty (rc_session_id ctx) then the (rc_session_id ctx)
                                            else ''default'')),
           (''_schedule_workspace_id'', opt_py (rc_workspace_id ctx))] (rt_inputs task)
      else rt_inputs task)"

definition task_action :: "(pyval \<Rightarrow> string) \<Rightarrow> runtime_task \<Rightarrow> string" where
  "task_action show task = (case map_of (rt_inputs task) ''action'' of Some v \<Rightarrow> py_str show v | None \<Rightarrow> [])"

definition raw_action :: "runtime_task \<Rightarrow> pyval" where
  "raw_action task = (case map_of (rt_inputs task) ''action'' of Some v \<Rightarrow> v | None \<Rightarrow> PStr [])"

definition task_security_context ::
  "tool_executor_env \<Rightarrow> tool_security \<Rightarrow> runtime_context \<Rightarrow> runtime_task \<Rightarrow> string \<Rightarrow> security_context" where
  "task_security_context V T ctx task tool =
     context_for T (provider_subject ctx task) (rc_request_id ctx) (rt_task_id task) tool
       (task_action (te_show (tv_security V)) task)
       (case rt_permit task of Some p \<Rightarrow> ep_operation_digest p | None \<Rightarrow> [])"

definition security_blocked ::
  "runtime_task \<Rightarrow> routing_decision \<Rightarrow> string \<Rightarrow> string \<Rightarrow> security_decision \<Rightarrow> string \<Rightarrow> runtime_result" where
  "security_blocked task routing tool policy d record_id =
     failed_tool task routing (sd_message d)
       [(''security_blocked'', PBool True), (''security_reason'', PStr (reason_value (sd_reason d))),
        (''security_policy_id'', PStr policy), (''security_scope'', opt_py (sd_scope d)),
        (''failure_type'', PStr ''tool_security_denied''), (''operation_outcome'', PStr ''failed_before_effect''),
        (''tool'', PStr tool), (''action'', raw_action task), (''record_id'', PStr record_id)]"

text \<open>What the answer of the tool manager comes to; \<open>None\<close> when the task is cancelled.\<close>

definition tool_outcome ::
  "tool_executor_env \<Rightarrow> runtime_task \<Rightarrow> routing_decision \<Rightarrow> string \<Rightarrow> (call_fault, tool_result) result \<Rightarrow>
   runtime_result option" where
  "tool_outcome V task routing tool answer =
     (let failed = failed_tool task routing; called = [(''tool'', PStr tool), (''action'', raw_action task)]
      in case answer of
           Inl CallCancelled \<Rightarrow> None
         | Inl SchemaFault \<Rightarrow> Some (failed (tv_fault_text V) [])
         | Inr r \<Rightarrow>
             (if tr_ok r then
                Some ((failed [] (called @ [(''args'', PDict (rt_inputs task))]))
                        \<lparr>rr_status := COMPLETED, rr_output := tr_data r, rr_error := None\<rparr>)
              else if tr_error r = Some ''MULTIPLE_MATCHES'' then
                Some ((failed ''MULTIPLE_MATCHES'' (called @ [(''args'', PDict (rt_inputs task))]))
                        \<lparr>rr_status := PAUSED,
                         rr_pause := Some \<lparr>xp_reason = ''multiple_matches'',
                           xp_metadata = [(''candidates'', case map_of (tr_data r) ''candidates'' of
                                             Some v \<Rightarrow> v | None \<Rightarrow> PList [])]\<rparr>\<rparr>)
              else
                Some (failed (if opt_nonempty (tr_error r) then the (tr_error r) else ''Tool execution failed'')
                        (dict_merge (tr_metadata r) called))))"

definition tool_metadata ::
  "runtime_task \<Rightarrow> string \<Rightarrow> string \<Rightarrow> bool \<Rightarrow> string list \<Rightarrow> (string, pyval) dict \<Rightarrow> (string, pyval) dict" where
  "tool_metadata task tool record_id rollback reasons md =
     fold (\<lambda>(k, v). AList.update k v)
       [(''record_id'', PStr record_id), (''governance_rollback'', PBool rollback),
        (''governance_rollback_reasons'', PList (map PStr reasons)), (''tool'', PStr tool),
        (''action'', arg_or (rt_inputs task) ''action''
                       (case map_of (rt_inputs task) ''Action'' of Some v \<Rightarrow> v | None \<Rightarrow> PStr [])),
        (''args'', PDict (rt_inputs task))] md"

text \<open>The record of an outcome, with the decision about a rollback.\<close>

definition record_outcome ::
  "tool_executor_env \<Rightarrow> governance_env \<Rightarrow> runtime_context \<Rightarrow> runtime_task \<Rightarrow> string \<Rightarrow> tool_info option \<Rightarrow>
   governance_decision \<Rightarrow> runtime_result \<Rightarrow> governance_state \<Rightarrow>
   (tool_executor_error, runtime_result) result \<times> governance_state" where
  "record_outcome V G ctx task tool info d result st =
     (let supported = (case info of Some i \<Rightarrow> (case ti_policy i of Some p \<Rightarrow> tp_rollback_supported p | None \<Rightarrow> False)
                       | None \<Rightarrow> False);
          ((rollback, reasons), st1) =
            gov_should_rollback TARGET_TOOL tool supported (rr_status result = FAILED)
              (opt_truthy (map_of (rr_metadata result) ''governance_blocked'')) (Some (gd_risk d)) (gd_policy_id d) st
      in case record_execution G (tv_stamp V) (tv_audit_stamp V) (tv_nonce V) d (rc_request_id ctx)
                (rt_task_id task)
                (if rr_status result = COMPLETED then STATUS_EXECUTED
                 else if rollback then STATUS_ROLLED_BACK else STATUS_FAILED)
                (rr_error result) (Some (provider_subject ctx task)) st1 of
           (Inl e, st2) \<Rightarrow> (Inl (ToolRecordError e), st2)
         | (Inr rec, st2) \<Rightarrow>
             (Inr (result\<lparr>rr_metadata :=
                tool_metadata task tool (er_record_id rec) rollback reasons (rr_metadata result)\<rparr>), st2))"

text \<open>The context of a call, and the call once everything has cleared it.\<close>

definition call_context :: "runtime_context \<Rightarrow> tool_info option \<Rightarrow> governance_decision \<Rightarrow> tool_context" where
  "call_context ctx info d =
     \<lparr>tc_request_id = rc_request_id ctx,
      tc_user_id = (case rc_user_id ctx of Some u \<Rightarrow> u | None \<Rightarrow> []),
      tc_session_id = (case rc_session_id ctx of Some s \<Rightarrow> s | None \<Rightarrow> []),
      tc_granted_permissions = gd_granted d,
      tc_timeout = (case info of Some i \<Rightarrow> map_option tp_default_timeout (ti_policy i) | None \<Rightarrow> None)\<rparr>"

definition call_tool ::
  "tool_executor_env \<Rightarrow> governance_env \<Rightarrow> runtime_context \<Rightarrow> runtime_task \<Rightarrow> routing_decision \<Rightarrow> string \<Rightarrow>
   governance_decision \<Rightarrow> (string, pyval) dict \<Rightarrow> 't tool_world \<Rightarrow>
   (tool_executor_error, runtime_result) result \<times> tool_runs \<times> 't tool_world" where
  "call_tool V G ctx task routing tool d args w =
     (let info = info_for (tn_registry (tw_manager w)) tool;
          (answer, runs, m) = execute_tool (tv_call V) tool args (Some (call_context ctx info d)) (tw_manager w);
          w = w\<lparr>tw_manager := m\<rparr>
      in case tool_outcome V task routing tool answer of
           None \<Rightarrow> (Inl ToolCancelled, [(tool, args, runs)], w)
         | Some result \<Rightarrow>
             (case record_outcome V G ctx task tool info d result (tw_governance w) of
                (r, st) \<Rightarrow> (r, [(tool, args, runs)], w\<lparr>tw_governance := st\<rparr>)))"

definition secured_call ::
  "tool_executor_env \<Rightarrow> governance_env \<Rightarrow> tool_security \<Rightarrow> runtime_context \<Rightarrow> runtime_task \<Rightarrow> routing_decision \<Rightarrow>
   string \<Rightarrow> governance_decision \<Rightarrow> 't tool_world \<Rightarrow>
   (tool_executor_error, runtime_result) result \<times> tool_runs \<times> 't tool_world" where
  "secured_call V G T ctx task routing tool d w =
     (let X = task_security_context V T ctx task tool;
          subject = provider_subject ctx task
      in case validate_tool (tv_security V) T X (execution_arguments ctx task tool subject) of
           Inl e \<Rightarrow> (Inl (SecurityRaised e), [], w)
         | Inr s \<Rightarrow>
             (if sd_allowed s then call_tool V G ctx task routing tool d (sd_arguments s) w
              else (case record_execution G (tv_stamp V) (tv_audit_stamp V) (tv_nonce V) d (rc_request_id ctx)
                           (rt_task_id task) STATUS_FAILED (Some (sd_message s)) (Some subject)
                           (tw_governance w) of
                      (Inl e, st) \<Rightarrow> (Inl (ToolRecordError e), [], w\<lparr>tw_governance := st\<rparr>)
                    | (Inr rec, st) \<Rightarrow>
                        (Inr (security_blocked task routing tool (sx_policy_reference X) s (er_record_id rec)), [],
                         w\<lparr>tw_governance := st\<rparr>))))"

definition governed_call ::
  "tool_executor_env \<Rightarrow> governance_env \<Rightarrow> tool_security \<Rightarrow> runtime_context \<Rightarrow> runtime_task \<Rightarrow> routing_decision \<Rightarrow>
   string \<Rightarrow> 't tool_world \<Rightarrow> (tool_executor_error, runtime_result) result \<times> tool_runs \<times> 't tool_world" where
  "governed_call V G T ctx task routing tool w =
     (let info = info_for (tn_registry (tw_manager w)) tool; subject = provider_subject ctx task
      in case enforce_tool G (tv_now V) (tv_stamp V) tool (declared_permissions info)
                (permit_permissions (rt_permit task)) None (Some subject) (rt_permit task) (tw_governance w) of
           (Inl v, st) \<Rightarrow>
             (case pv_decision v of
                None \<Rightarrow> (Inl ToolViolationWithoutDecision, [], w\<lparr>tw_governance := st\<rparr>)
              | Some d \<Rightarrow>
                  (case record_execution G (tv_stamp V) (tv_audit_stamp V) (tv_nonce V) d (rc_request_id ctx)
                          (rt_task_id task)
                          (if gd_approval_required d then STATUS_APPROVAL_REQUIRED else STATUS_BLOCKED)
                          (Some (pv_message v)) (Some subject) st of
                     (Inl e, st) \<Rightarrow> (Inl (ToolRecordError e), [], w\<lparr>tw_governance := st\<rparr>)
                   | (Inr rec, st) \<Rightarrow>
                       (Inr (tool_governance_blocked task routing tool v d (er_record_id rec)), [],
                        w\<lparr>tw_governance := st\<rparr>)))
         | (Inr d, st) \<Rightarrow> secured_call V G T ctx task routing tool d (w\<lparr>tw_governance := st\<rparr>))"

definition tool_execute ::
  "tool_executor_env \<Rightarrow> governance_env \<Rightarrow> tool_security \<Rightarrow> runtime_context \<Rightarrow> runtime_task \<Rightarrow> routing_decision \<Rightarrow>
   't tool_world \<Rightarrow> (tool_executor_error, runtime_result) result \<times> tool_runs \<times> 't tool_world" where
  "tool_execute V G T ctx task routing w =
     (let tool = executed_tool (te_show (tv_security V)) task
      in case network_blocked task routing tool of
           Some r \<Rightarrow> (Inr r, [], w)
         | None \<Rightarrow>
             (case authorize_tool_execution (tn_registry (tw_manager w)) tool (rt_inputs task) LEVEL_MEDIUM
                     (tw_guard w) of
                (g, guard) \<Rightarrow>
                  (let w = w\<lparr>tw_guard := guard\<rparr>
                   in if gx_allowed g then governed_call V G T ctx task routing tool w
                      else (Inr (guard_blocked task routing tool g), [], w))))"

section \<open>What a run of a tool went through\<close>

lemma call_tool_runs:
  "fst (snd (call_tool V G ctx task routing tool d args w)) =
     [(tool, args, fst (snd (execute_tool (tv_call V) tool args
        (Some (call_context ctx (info_for (tn_registry (tw_manager w)) tool) d)) (tw_manager w))))]"
  by (simp add: call_tool_def Let_def split: option.split prod.split)

lemma secured_call_runs:
  assumes "secured_call V G T ctx task routing tool d w = (r, runs, w')" "x \<in> set runs"
  shows "\<exists>s. validate_tool (tv_security V) T (task_security_context V T ctx task tool)
       (execution_arguments ctx task tool (provider_subject ctx task)) = Inr s \<and> sd_allowed s \<and>
     call_tool V G ctx task routing tool d (sd_arguments s) w = (r, runs, w')"
  using assms by (auto simp: secured_call_def Let_def split: sum.splits if_splits prod.splits)

lemma governed_call_runs:
  assumes "governed_call V G T ctx task routing tool w = (r, runs, w')" "x \<in> set runs"
  shows "\<exists>d st. enforce_tool G (tv_now V) (tv_stamp V) tool
       (declared_permissions (info_for (tn_registry (tw_manager w)) tool))
       (permit_permissions (rt_permit task)) None (Some (provider_subject ctx task)) (rt_permit task)
       (tw_governance w) = (Inr d, st) \<and>
     secured_call V G T ctx task routing tool d (w\<lparr>tw_governance := st\<rparr>) = (r, runs, w')"
  using assms by (auto simp: governed_call_def Let_def split: sum.splits prod.splits option.splits)

lemma tool_execute_runs:
  assumes "tool_execute V G T ctx task routing w = (r, runs, w')" "x \<in> set runs"
  shows "network_blocked task routing (executed_tool (te_show (tv_security V)) task) = None"
    "\<exists>g guard. authorize_tool_execution (tn_registry (tw_manager w)) (executed_tool (te_show (tv_security V)) task)
        (rt_inputs task) LEVEL_MEDIUM (tw_guard w) = (g, guard) \<and> gx_allowed g \<and>
      governed_call V G T ctx task routing (executed_tool (te_show (tv_security V)) task)
        (w\<lparr>tw_guard := guard\<rparr>) = (r, runs, w')"
  using assms by (auto simp: tool_execute_def Let_def split: option.splits prod.splits if_splits)

lemma enforce_tool_allowed: "enforce_tool G now stamp t ds rs pid subject p st = (Inr d, st') \<Longrightarrow> gd_allowed d"
  by (auto simp: enforce_tool_def enforce_allowed_def split: if_splits)

text \<open>A run of a tool has passed the whole chain.\<close>

definition run_cleared ::
  "tool_executor_env \<Rightarrow> tool_security \<Rightarrow> runtime_context \<Rightarrow> runtime_task \<Rightarrow> 't tool_world \<Rightarrow> string \<Rightarrow>
   (string, pyval) dict \<Rightarrow> governance_decision \<Rightarrow> tool_info \<Rightarrow> bool" where
  "run_cleared V T ctx task w tool args d info \<longleftrightarrow>
     (tool = ''internet'' \<longrightarrow> (\<forall>p. rt_permit task = Some p \<longrightarrow> ec_network_allowed (ep_constraints p))) \<and>
     tool \<notin> set (gu_blocked_tools (tw_guard w)) \<and> tool \<notin> set CRITICAL_TOOLS \<and>
     gx_allowed (validate_request (rt_inputs task)) \<and>
     gd_allowed d \<and> set (tp_permissions (policy_for info)) \<subseteq> set (gd_granted d) \<and>
     (\<exists>s. validate_tool (tv_security V) T (task_security_context V T ctx task tool)
            (execution_arguments ctx task tool (provider_subject ctx task)) = Inr s \<and>
          sd_allowed s \<and> args = sd_arguments s) \<and>
     validate_arguments (ne_validator (tv_call V)) tool args (ti_input_schema info) = Some []"

lemma guard_allows:
  assumes "authorize_tool_execution reg tool args level g = (d, g')" "gx_allowed d"
  shows "tool \<notin> set (gu_blocked_tools g)" "tool \<in> set CRITICAL_TOOLS \<Longrightarrow> level = LEVEL_CRITICAL"
    "gx_allowed (validate_request args)"
  using assms by (auto simp: authorize_tool_execution_def guard_refusal_def guard_deny_def Let_def split: if_splits option.splits)

lemma missing_subset: "missing_permissions p c = [] \<Longrightarrow> set (tp_permissions p) \<subseteq> set (tc_granted_permissions c)"
  by (auto simp: missing_permissions_def permits_def filter_empty_conv)

lemma run_is_cleared:
  assumes run: "tool_execute V G T ctx task routing w = (r, runs, w')" "(tool, args, n) \<in> set runs" "0 < n"
  shows "\<exists>d st t info. enforce_tool G (tv_now V) (tv_stamp V) tool
       (declared_permissions (info_for (tn_registry (tw_manager w)) tool))
       (permit_permissions (rt_permit task)) None (Some (provider_subject ctx task)) (rt_permit task)
       (tw_governance w) = (Inr d, st) \<and> tool = executed_tool (te_show (tv_security V)) task \<and>
     map_of (tn_registry (tw_manager w)) tool = Some (t, info) \<and> run_cleared V T ctx task w tool args d info \<and>
     n \<le> Suc (nat (retries_for info (call_action (tv_call V) args)))"
proof -
  let ?tool = "executed_tool (te_show (tv_security V)) task"
  from tool_execute_runs [OF run(1,2)] obtain g guard where
    net: "network_blocked task routing ?tool = None"
    and g: "authorize_tool_execution (tn_registry (tw_manager w)) ?tool (rt_inputs task) LEVEL_MEDIUM
        (tw_guard w) = (g, guard)" "gx_allowed g"
    and gov: "governed_call V G T ctx task routing ?tool (w\<lparr>tw_guard := guard\<rparr>) = (r, runs, w')" by blast
  from governed_call_runs [OF gov run(2)] obtain d st where
    d: "enforce_tool G (tv_now V) (tv_stamp V) ?tool
       (declared_permissions (info_for (tn_registry (tw_manager w)) ?tool))
       (permit_permissions (rt_permit task)) None (Some (provider_subject ctx task)) (rt_permit task)
       (tw_governance w) = (Inr d, st)"
    and sec: "secured_call V G T ctx task routing ?tool d (w\<lparr>tw_guard := guard, tw_governance := st\<rparr>) = (r, runs, w')"
    by auto
  from secured_call_runs [OF sec run(2)] obtain s where
    s: "validate_tool (tv_security V) T (task_security_context V T ctx task ?tool)
       (execution_arguments ctx task ?tool (provider_subject ctx task)) = Inr s" "sd_allowed s"
    and call: "call_tool V G ctx task routing ?tool d (sd_arguments s)
       (w\<lparr>tw_guard := guard, tw_governance := st\<rparr>) = (r, runs, w')" by blast
  define c where "c = call_context ctx (info_for (tn_registry (tw_manager w)) ?tool) d"
  have same: "tool = ?tool" "args = sd_arguments s" "tc_granted_permissions c = gd_granted d"
    and "n = fst (snd (execute_tool (tv_call V) ?tool (sd_arguments s) (Some c) (tw_manager w)))"
    using run(2) call call_tool_runs [of V G ctx task routing ?tool d "sd_arguments s"
        "w\<lparr>tw_guard := guard, tw_governance := st\<rparr>"] by (simp_all add: c_def call_context_def)
  then obtain answer m where
    ex: "execute_tool (tv_call V) ?tool (sd_arguments s) (Some c) (tw_manager w) = (answer, n, m)"
    by (cases "execute_tool (tv_call V) ?tool (sd_arguments s) (Some c) (tw_manager w)") auto
  have "\<exists>r st'. dispatch_tool (tv_call V) (tn_registry (tw_manager w)) ?tool (sd_arguments s) (Some c)
      (tn_dispatcher (tw_manager w)) = (r, n, st')"
    using ex by (auto simp: execute_tool_def split: prod.splits sum.splits)
  then obtain r' st' where disp: "dispatch_tool (tv_call V) (tn_registry (tw_manager w)) ?tool (sd_arguments s) (Some c)
      (tn_dispatcher (tw_manager w)) = (r', n, st')" by blast
  from dispatch_runs [OF disp] run(3) obtain t info where
    info: "map_of (tn_registry (tw_manager w)) ?tool = Some (t, info)"
      "missing_permissions (policy_for info) c = []"
      "validate_arguments (ne_validator (tv_call V)) ?tool (sd_arguments s) (ti_input_schema info) = Some []"
      "n \<le> Suc (nat (retries_for info (call_action (tv_call V) (sd_arguments s))))" by auto
  have "?tool = ''internet'' \<longrightarrow> (\<forall>p. rt_permit task = Some p \<longrightarrow> ec_network_allowed (ep_constraints p))"
    using net by (auto simp: network_blocked_def split: option.splits if_splits)
  moreover have "?tool \<notin> set CRITICAL_TOOLS" using guard_allows(2) [OF g] by auto
  ultimately have "run_cleared V T ctx task w ?tool (sd_arguments s) d info"
    using guard_allows(1,3) [OF g] enforce_tool_allowed [OF d] missing_subset [OF info(2)] s info(3) same(3)
    by (simp add: run_cleared_def)
  with d same info show ?thesis by blast
qed

text \<open>And what passes the chain is called.\<close>

lemma fst_gov_evaluate:
  "fst (gov_evaluate G now stamp tt target ds rs pid subject from permit st) =
     decide_subject G now st tt target ds rs pid subject from permit"
  by (simp add: gov_evaluate_def Let_def)

lemma enforce_tool_passes:
  assumes "gd_allowed (decide_subject G now st TARGET_TOOL tool ds rs pid subject False permit)"
  shows "\<exists>st'. enforce_tool G now stamp tool ds rs pid subject permit st =
    (Inr (decide_subject G now st TARGET_TOOL tool ds rs pid subject False permit), st')"
  using assms by (simp add: enforce_tool_def enforce_allowed_def fst_gov_evaluate)

lemma cleared_tool_runs:
  assumes tool: "executed_tool (te_show (tv_security V)) task = tool" "tn_registry (tw_manager w) = reg"
    and "network_blocked task routing tool = None"
    "gx_allowed (fst (authorize_tool_execution reg tool (rt_inputs task) LEVEL_MEDIUM (tw_guard w)))"
    "decide_subject G (tv_now V) (tw_governance w) TARGET_TOOL tool (declared_permissions (info_for reg tool))
       (permit_permissions (rt_permit task)) None (Some (provider_subject ctx task)) False (rt_permit task) = d"
    "gd_allowed d"
    "validate_tool (tv_security V) T (task_security_context V T ctx task tool)
       (execution_arguments ctx task tool (provider_subject ctx task)) = Inr s" "sd_allowed s"
  shows "fst (snd (tool_execute V G T ctx task routing w)) =
    [(tool, sd_arguments s, fst (snd (execute_tool (tv_call V) tool (sd_arguments s)
       (Some (call_context ctx (info_for reg tool) d)) (tw_manager w))))]"
proof -
  obtain g guard where g: "authorize_tool_execution reg tool (rt_inputs task) LEVEL_MEDIUM (tw_guard w) = (g, guard)"
    by fastforce
  obtain st where st: "enforce_tool G (tv_now V) (tv_stamp V) tool (declared_permissions (info_for reg tool))
      (permit_permissions (rt_permit task)) None (Some (provider_subject ctx task)) (rt_permit task)
      (tw_governance w) = (Inr d, st)"
    using enforce_tool_passes assms(5,6) by metis
  let ?w = "w\<lparr>tw_guard := guard, tw_governance := st\<rparr>"
  have "tool_execute V G T ctx task routing w = call_tool V G ctx task routing tool d (sd_arguments s) ?w"
    using assms(3,4,7,8) g st
    by (simp add: tool_execute_def tool governed_call_def secured_call_def)
  then show ?thesis by (simp add: call_tool_runs tool)
qed

text \<open>The action the security policy sees, in the inputs of the task and in the arguments of a run.\<close>

definition validated_action :: "tool_executor_env \<Rightarrow> runtime_context \<Rightarrow> runtime_task \<Rightarrow> string" where
  "validated_action V ctx task =
     security_action (tv_security V) (rt_inputs task) (task_action (te_show (tv_security V)) task) []"

definition path_action :: "tool_executor_env \<Rightarrow> runtime_context \<Rightarrow> runtime_task \<Rightarrow> (string, pyval) dict \<Rightarrow> string" where
  "path_action V ctx task args =
     security_action (tv_security V) args (task_action (te_show (tv_security V)) task) ''read''"

end
