(* ===== verification/Shell_Tool.thy ===== *)
theory Shell_Tool
  imports Tool_Security
begin

text \<open>
  The shell tool (\<open>app/tools/shell.py\<close>): from the arguments it is handed to the process it starts.
  \<open>float\<close> of the time limit and the environment of the host are arguments; reading the output of the
  process and killing it are left out.
\<close>

definition SHELL_DENYLIST :: "string list" where
  "SHELL_DENYLIST = [''rm -rf /'', ''rm -rf *'', ''deltree'', ''del /f /s /q'', ''format c:'', ''format /q'', ''mkfs'',
     ''dd if='', ''shutdown'', ''reboot'', ''--no-preserve-root'', ''diskpart'', ''reg delete'', '':(){:|:&};:'']"

definition SHELL_BASE_ENV :: "string list" where
  "SHELL_BASE_ENV = [''PATH'', ''SYSTEMROOT'', ''TEMP'', ''TMP'', ''HOME'', ''USERPROFILE'', ''COMSPEC'', ''PATHEXT'']"

text \<open>What \<open>run\<close> comes to before there is output: an exception, an error, or a process with its words, its time
  limit, its directory and its environment.\<close>

datatype 't shell_answer =
  ShellRaised | ShellError string | ShellProcess "string list" 't pyval "(string, pyval) dict"

definition arg_given :: "(string, pyval) dict \<Rightarrow> string \<Rightarrow> pyval option" where
  "arg_given args k = (case map_of args k of Some PNone \<Rightarrow> None | v \<Rightarrow> v)"

text \<open>The words of the command: the parsed ones the validator left, or the command split again.\<close>

definition shell_words ::
  "tool_env \<Rightarrow> (string, pyval) dict \<Rightarrow> string \<Rightarrow> (string option, string list) result" where
  "shell_words E args command =
     (case (arg_given args ''_parsed_executable'', arg_given args ''_parsed_args'') of
        (Some exe, Some parsed) \<Rightarrow>
          (case py_tuple (Some parsed) of
             None \<Rightarrow> Inl None
           | Some vs \<Rightarrow> Inr (py_str (te_show E) exe # map (py_str (te_show E)) vs))
      | _ \<Rightarrow>
          (case shlex_split command of
             None \<Rightarrow> Inl (Some ''Shell command parsing failed'')
           | Some [] \<Rightarrow> Inl (Some ''Shell command is empty'')
           | Some parts \<Rightarrow> Inr parts))"

definition shell_environment :: "(string, string) dict \<Rightarrow> (string, pyval) dict \<Rightarrow> (string, pyval) dict option" where
  "shell_environment host args =
     (case py_dict (arg_or args ''_validated_env'' (arg_or args ''env'' (PDict []))) of
        None \<Rightarrow> None
      | Some env \<Rightarrow>
          Some (dict_merge (map (\<lambda>(k, v). (k, PStr v)) (filter (\<lambda>(k, v). py_upper k \<in> set SHELL_BASE_ENV) host)) env))"

definition shell_run ::
  "tool_env \<Rightarrow> (pyval \<Rightarrow> 't option) \<Rightarrow> (string, string) dict \<Rightarrow> (string, pyval) dict \<Rightarrow> 't shell_answer" where
  "shell_run E number host args =
     (let command = py_strip (arg_text E args ''command'')
      in case number (case map_of args ''timeout_s'' of Some v \<Rightarrow> v | None \<Rightarrow> PInt 15) of
           None \<Rightarrow> ShellRaised
         | Some limit \<Rightarrow>
             (if command = [] then ShellError (''ShellTool requires a '' @ [CHR 0x27] @ ''command'' @ [CHR 0x27])
              else
                (case (if dict_has ''_parsed_executable'' args then None
                       else List.find (py_contains (py_lower command)) SHELL_DENYLIST) of
                   Some pattern \<Rightarrow>
                     ShellError (''ShellTool refused command matching denylist pattern '' @ [CHR 0x27] @ pattern @ [CHR 0x27])
                 | None \<Rightarrow>
                     (case shell_words E args command of
                        Inl None \<Rightarrow> ShellRaised
                      | Inl (Some e) \<Rightarrow> ShellError e
                      | Inr ws \<Rightarrow>
                          (case shell_environment host args of
                             None \<Rightarrow> ShellRaised
                           | Some env \<Rightarrow>
                               ShellProcess ws limit
                                 (arg_or args ''_validated_cwd'' (case map_of args ''cwd'' of Some v \<Rightarrow> v | None \<Rightarrow> PNone))
                                 env)))))"

section \<open>A confined process\<close>

text \<open>
  The first word is an allowed executable when there is a list of them, the directory is below an allowed root
  or the default one (the text \<open>None\<close> when the policy has no default root), and every variable is one of the
  policy or a basic one of the host, as the host has it.
\<close>

definition process_confined ::
  "shell_policy \<Rightarrow> (string, string) dict \<Rightarrow> string list \<Rightarrow> pyval \<Rightarrow> (string, pyval) dict \<Rightarrow> bool" where
  "process_confined P host ws cwd env \<longleftrightarrow>
     (\<exists>exe argv. ws = exe # argv \<and> (sp_allowed_executables P \<noteq> [] \<longrightarrow> exe \<in> set (sp_allowed_executables P))) \<and>
     ((\<exists>c root. cwd = PStr (path_text c) \<and> root \<in> set (sp_allowed_roots P) \<and> inside_path c root) \<or>
      (case sp_default_root P of Some c \<Rightarrow> cwd = PStr (path_text c) | None \<Rightarrow> cwd = PStr ''None'')) \<and>
     (\<forall>k v. map_of env k = Some v \<longrightarrow> py_upper k \<in> set (map py_upper (sp_allowed_env_vars P)) \<or>
        py_upper k \<in> set SHELL_BASE_ENV \<and> (\<exists>w. (k, w) \<in> set host \<and> v = PStr w))"

lemma map_of_merge_cases: "map_of (dict_merge d e) k = Some v \<Longrightarrow> (k, v) \<in> set e \<or> map_of d k = Some v"
  unfolding dict_merge_def
proof (induction e arbitrary: d)
  case (Cons x e)
  obtain a b where x: "x = (a, b)" by fastforce
  show ?case using Cons.IH [of "AList.update a b d"] Cons.prems by (auto simp: x update_conv' split: if_splits)
qed simp

lemma shell_run_confined:
  assumes ok: "command_admitted P args" and run: "shell_run E number host args = ShellProcess ws limit cwd env"
  shows "process_confined P host ws cwd env"
proof -
  from ok obtain exe argv dir vars where a: "map_of args ''_parsed_executable'' = Some (PStr exe)"
      "map_of args ''_parsed_args'' = Some (PList (map PStr argv))"
      "map_of args ''_validated_cwd'' = Some (PStr (case dir of Some c \<Rightarrow> path_text c | None \<Rightarrow> ''None''))"
      "map_of args ''_validated_env'' = Some (PDict vars)"
      "(case map_of args ''env'' of None \<Rightarrow> Some [] | Some v \<Rightarrow> py_dict v) = Some vars"
    and p: "sp_allowed_executables P \<noteq> [] \<longrightarrow> exe \<in> set (sp_allowed_executables P)"
      "dir = sp_default_root P \<or> (\<exists>c root. dir = Some c \<and> root \<in> set (sp_allowed_roots P) \<and> inside_path c root)"
      "\<forall>(k, v)\<in>set vars. py_upper k \<in> set (map py_upper (sp_allowed_env_vars P))"
    unfolding command_admitted_def by blast
  have words: "shell_words E args command = Inr (exe # map (py_str (te_show E)) (map PStr argv))" for command
    by (simp add: shell_words_def arg_given_def a(1,2) py_tuple_def)
  have ne: "(case dir of Some c \<Rightarrow> path_text c | None \<Rightarrow> ''None'') \<noteq> []" by (cases dir) (simp_all add: path_text_def)
  have env0: "py_dict (arg_or args ''_validated_env'' (arg_or args ''env'' (PDict []))) = Some vars"
  proof (cases "vars = []")
    case True
    then show ?thesis using a(4,5) by (auto simp: arg_or_def py_dict_def split: option.splits if_splits)
  qed (simp add: arg_or_def a(4) py_dict_def)
  define start where "start = map (\<lambda>(k, v). (k, PStr v)) (filter (\<lambda>(k, v). py_upper k \<in> set SHELL_BASE_ENV) host)"
  have e: "shell_environment host args = Some (dict_merge start vars)"
    by (simp add: shell_environment_def env0 start_def)
  have dir: "arg_or args ''_validated_cwd'' v = PStr (case dir of Some c \<Rightarrow> path_text c | None \<Rightarrow> ''None'')" for v
    using ne by (simp add: arg_or_def a(3))
  have parts: "ws = exe # map (py_str (te_show E)) (map PStr argv)" "env = dict_merge start vars"
    "cwd = PStr (case dir of Some c \<Rightarrow> path_text c | None \<Rightarrow> ''None'')"
    using run by (simp_all add: shell_run_def Let_def words e dir split: option.splits if_splits)
  have "py_upper k \<in> set (map py_upper (sp_allowed_env_vars P)) \<or>
      py_upper k \<in> set SHELL_BASE_ENV \<and> (\<exists>w. (k, w) \<in> set host \<and> v = PStr w)" if "map_of env k = Some v" for k v
    using map_of_merge_cases [OF that [unfolded parts(2)]] p(3) by (auto simp: start_def dest!: map_of_SomeD)
  then show ?thesis unfolding process_confined_def parts(1,3) using p(1,2) by (auto split: option.splits)
qed

end
