(* ===== verification/Sample_Tools.thy ===== *)
theory Sample_Tools
  imports Tool_Executor Shell_Tool Sample_World
begin

text \<open>
  Concrete inputs for the tool boundary: a workspace with one protected directory, a file system
  without links, a resolver that knows one public host, three tools, and the policies of an
  installation. Every tool answers with an empty result.
\<close>

definition sample_part :: "string \<Rightarrow> bool" where
  "sample_part p = (p \<noteq> ''..'' \<and> p \<noteq> ''.'' \<and> p \<noteq> [] \<and> CHR ''/'' \<notin> set p)"

definition sample_resolve :: "path \<Rightarrow> string list option" where
  "sample_resolve p = Some (filter sample_part (abspath (snd p)))"

definition sample_lookup :: "string \<Rightarrow> lookup_answer" where
  "sample_lookup host =
     (if host = ''example.org'' then Addresses [(V4 0x5DB8D70E, ''93.184.215.14'')]
      else if host = ''intranet'' then Addresses [(V4 0x0A000001, ''10.0.0.1'')] else NotFound)"

definition sample_tool_env :: tool_env where
  "sample_tool_env =
     \<lparr>te_show = sample_show, te_resolve = sample_resolve, te_exists = (\<lambda>_. Some False),
      te_size = (\<lambda>_. Some 0), te_home = Some [''home'', ''ann''], te_system_root = None,
      te_bracket_ok = (\<lambda>_. False), te_lookup = sample_lookup\<rparr>"

lemma sample_resolves: "resolves_canonically sample_tool_env"
proof -
  have c: "canonical_parts (filter sample_part xs)" for xs
    by (auto simp: canonical_parts_def sample_part_def list_all_iff)
  have "filter sample_part (abspath (filter sample_part xs)) = filter sample_part xs" for xs
    by (simp add: abspath_canonical [OF c])
  with c show ?thesis by (simp add: resolves_canonically_def sample_tool_env_def sample_resolve_def)
qed

definition sample_security :: tool_security where
  "sample_security =
     \<lparr>ts_filesystem = \<lparr>fp_allowed_roots = [[''work'']], fp_default_root = Some [''work''],
        fp_protected_paths = [[''work'', ''keys'']], fp_max_read_bytes = 100, fp_max_write_bytes = 100,
        fp_max_path_length = 100\<rparr>,
      ts_shell = \<lparr>sp_allowed_executables = [''git''], sp_allowed_roots = [[''work'']],
        sp_default_root = Some [''work''], sp_max_path_length = 100, sp_allowed_env_vars = [''PATH'']\<rparr>,
      ts_process = \<lparr>op_max_clipboard_bytes = 100, op_allow_clipboard_write = True, op_allow_terminal = False\<rparr>,
      ts_network = DEFAULT_NETWORK\<rparr>"

lemma sample_policy_ok: "filesystem_policy_ok (ts_filesystem sample_security)"
  by code_simp

definition sample_tool_info :: "string \<Rightarrow> string list \<Rightarrow> tool_info" where
  "sample_tool_info i effects =
     \<lparr>ti_tool_id = i, ti_capabilities = [], ti_version = None, ti_input_schema = [], ti_category = None,
      ti_permissions = [''read''], ti_supported_actions = [], ti_available = True,
      ti_policy = Some (default_tool_policy\<lparr>tp_permissions := [TOOL_READ], tp_max_retries := 2\<rparr>),
      ti_product_domain = None, ti_execution_mode = PRODUCTION_READY, ti_side_effect_actions = effects,
      ti_advertised = False\<rparr>"

definition sample_tools :: "unit tool_manager" where
  "sample_tools =
     \<lparr>tn_registry = [(''filesystem'', (), sample_tool_info ''filesystem'' [''write'']),
                     (''internet'', (), sample_tool_info ''internet'' []), (''shell'', (), sample_tool_info ''shell'' [])],
      tn_dispatcher = \<lparr>td_health = [],
        td_memory = \<lparr>tm_history = [], tm_preferences = [], tm_permissions = [], tm_config = []\<rparr>, td_reports = []\<rparr>,
      tn_executions = 0, tn_failures = 0\<rparr>"

definition sample_tool_world :: "unit tool_world" where
  "sample_tool_world =
     \<lparr>tw_manager = sample_tools,
      tw_guard = \<lparr>gu_blocked_tools = [], gu_policy_checks = 0, gu_tool_denials = 0, gu_blocked_requests = 0\<rparr>,
      tw_governance = fresh_engine False None\<rparr>"

definition sample_call_env :: "(nat \<Rightarrow> tool_answer) \<Rightarrow> call_env" where
  "sample_call_env answer =
     \<lparr>ne_validator = \<lparr>vn_number = (\<lambda>_. 0), vn_show = sample_show, vn_type = sample_show\<rparr>,
      ne_health = NoChecker, ne_now = 0, ne_cancelled = (\<lambda>_. False), ne_answer = answer, ne_seconds = nat_str\<rparr>"

definition answers_empty :: "nat \<Rightarrow> tool_answer" where
  "answers_empty n = ToolAnswered \<lparr>tr_ok = True, tr_data = [], tr_error = None, tr_metadata = []\<rparr>"

definition times_out :: "nat \<Rightarrow> tool_answer" where
  "times_out n = RunTimedOut"

definition sample_executor :: "(nat \<Rightarrow> tool_answer) \<Rightarrow> tool_executor_env" where
  "sample_executor answer =
     \<lparr>tv_call = sample_call_env answer, tv_security = sample_tool_env, tv_now = Aware 0 0, tv_stamp = ''s'',
      tv_audit_stamp = ''a'', tv_nonce = ''n'', tv_fault_text = []\<rparr>"

definition sample_tool_governance :: governance_env where
  "sample_tool_governance = \<lparr>ge_crypto = sample_crypto, ge_key = ''k'', ge_show = sample_show\<rparr>"

definition tool_task :: "string \<Rightarrow> (string, pyval) dict \<Rightarrow> runtime_task" where
  "tool_task tool inputs =
     (sample_task ''tool'' None)\<lparr>rt_inputs := inputs, rt_metadata := [(''tool'', PStr tool)]\<rparr>"

definition sample_execute ::
  "(nat \<Rightarrow> tool_answer) \<Rightarrow> string \<Rightarrow> (string, pyval) dict \<Rightarrow>
   (tool_executor_error, runtime_result) result \<times> tool_runs \<times> unit tool_world" where
  "sample_execute answer tool inputs =
     tool_execute (sample_executor answer) sample_tool_governance sample_security sample_context
       (tool_task tool inputs) sample_routing sample_tool_world"

definition write_inputs :: "(string, pyval) dict" where
  "write_inputs = [(''action'', PStr ''write''), (''path'', PStr ''notes/a.txt''), (''content'', PStr ''hi'')]"

definition fetch_inputs :: "string \<Rightarrow> (string, pyval) dict" where
  "fetch_inputs url = [(''action'', PStr ''fetch''), (''url'', PStr url)]"

definition git_inputs :: "(string, pyval) dict" where
  "git_inputs = [(''command'', PStr ''git status'')]"

text \<open>The chain on these inputs, part by part.\<close>

lemma sample_tools_fields:
  "tn_registry sample_tools = [(''filesystem'', (), sample_tool_info ''filesystem'' [''write'']),
     (''internet'', (), sample_tool_info ''internet'' []), (''shell'', (), sample_tool_info ''shell'' [])]"
  "td_health (tn_dispatcher sample_tools) = []"
  by (simp_all add: sample_tools_def)

lemma sample_guard:
  assumes "tool \<in> {''filesystem'', ''internet'', ''shell''}" "gx_allowed (validate_request inputs)"
  shows "gx_allowed (fst (authorize_tool_execution (tn_registry sample_tools) tool inputs LEVEL_MEDIUM
     (tw_guard sample_tool_world)))"
  using assms
  by (auto simp: authorize_tool_execution_def guard_refusal_def get_tool_def sample_tools_fields
      sample_tool_world_def CRITICAL_TOOLS_def guard_allow_def)

lemma sample_inputs_clean:
  "gx_allowed (validate_request write_inputs)" "gx_allowed (validate_request git_inputs)"
  "gx_allowed (validate_request (fetch_inputs ''https://example.org/x''))"
  by code_simp+

definition sample_decision :: "string \<Rightarrow> governance_decision" where
  "sample_decision tool =
     decide_subject sample_tool_governance (Aware 0 0) (fresh_engine False None) TARGET_TOOL tool [TOOL_READ] []
       None (Some ''ann'') False None"

lemma sample_decided:
  "gd_allowed (sample_decision ''filesystem'')" "gd_granted (sample_decision ''filesystem'') = [TOOL_READ]"
  "gd_allowed (sample_decision ''internet'')" "gd_granted (sample_decision ''internet'') = [TOOL_READ]"
  "gd_allowed (sample_decision ''shell'')" "gd_granted (sample_decision ''shell'') = [TOOL_READ]"
  by code_simp+

lemma sample_attempts:
  "run_attempts (\<lambda>_. False) answers_empty t l r 0 =
     (Some (\<lparr>tr_ok = True, tr_data = [], tr_error = None, tr_metadata = []\<rparr>, ''ok'', 0, None), 1)"
  "snd (run_attempts (\<lambda>_. False) times_out t l 2 0) = 3" "snd (run_attempts (\<lambda>_. False) times_out t l 0 0) = 1"
  by (simp_all add: run_attempts.simps answers_empty_def times_out_def)

lemma sample_dispatch:
  assumes "map_of (tn_registry sample_tools) tool = Some ((), sample_tool_info tool effects)"
    "tc_granted_permissions c = [TOOL_READ]"
  shows "fst (snd (execute_tool (sample_call_env answer) tool args (Some c) sample_tools)) =
    snd (run_attempts (\<lambda>_. False) answer tool
      (timeout_text (sample_call_env answer) tool (timeout_for (policy_for (sample_tool_info tool effects)) c))
      (retries_for (sample_tool_info tool effects) (call_action (sample_call_env answer) args)) 0)"
proof -
  let ?V = "sample_call_env answer" and ?i = "sample_tool_info tool effects"
  let ?st = "(tn_dispatcher sample_tools)\<lparr>td_health := [(tool, TOOL_AVAILABLE, 0)]\<rparr>"
  have "checked_call ?V tool ?i args (Some c) ?st = run_tool ?V tool ?i args c ?st"
    by (simp add: checked_call_def missing_permissions_def permits_def assms(2) policy_for_def sample_tool_info_def
        validate_arguments_def)
  then have "dispatch_tool ?V (tn_registry sample_tools) tool args (Some c) (tn_dispatcher sample_tools) =
      run_tool ?V tool ?i args c ?st"
    by (simp add: dispatch_tool_def assms(1) check_health_def sample_tools_fields(2) sample_call_env_def)
  then show ?thesis
    by (auto simp: execute_tool_def run_tool_def Let_def sample_call_env_def split: prod.split option.split sum.split)
qed

lemma sample_retries:
  "retries_for (sample_tool_info tool effects) action = (if action \<in> set effects then 0 else 2)"
  by (simp add: retries_for_def sample_tool_info_def policy_for_def default_tool_policy_def)

lemma sample_run_calls:
  assumes "(tool, effects) \<in> {(''filesystem'', [''write'']), (''internet'', []), (''shell'', [])}"
    "gx_allowed (validate_request inputs)"
    "validate_tool sample_tool_env sample_security
       (task_security_context (sample_executor answer) sample_security sample_context (tool_task tool inputs) tool)
       inputs = Inr s" "sd_allowed s"
  shows "fst (snd (sample_execute answer tool inputs)) =
    [(tool, sd_arguments s, snd (run_attempts (\<lambda>_. False) answer tool
      (timeout_text (sample_call_env answer) tool 30000)
      (if call_action (sample_call_env answer) (sd_arguments s) \<in> set effects then 0 else 2) 0))]"
proof -
  have tool: "tool \<in> {''filesystem'', ''internet'', ''shell''}" using assms(1) by auto
  have info: "map_of (tn_registry sample_tools) tool = Some ((), sample_tool_info tool effects)"
    using assms(1) by (auto simp: sample_tools_fields)
  let ?V = "sample_executor answer" and ?task = "tool_task tool inputs"
  have d: "decide_subject sample_tool_governance (tv_now ?V) (tw_governance sample_tool_world) TARGET_TOOL tool
      (declared_permissions (info_for (tn_registry sample_tools) tool)) (permit_permissions (rt_permit ?task)) None
      (Some (provider_subject sample_context ?task)) False (rt_permit ?task) = sample_decision tool"
    using info
    by (simp add: sample_decision_def sample_executor_def sample_tool_world_def info_for_def sample_tool_info_def
        declared_permissions_def permission_of_text_def permit_permissions_def tool_task_def sample_task_def
        provider_subject_def sample_context_def authorization_subject_id_def str_or_def)
  have g: "gd_allowed (sample_decision tool)" "gd_granted (sample_decision tool) = [TOOL_READ]"
    using tool sample_decided by auto
  have "fst (snd (sample_execute answer tool inputs)) = [(tool, sd_arguments s,
      fst (snd (execute_tool (tv_call ?V) tool (sd_arguments s)
        (Some (call_context sample_context (info_for (tn_registry sample_tools) tool) (sample_decision tool)))
        (tw_manager sample_tool_world))))]"
    unfolding sample_execute_def
  proof (rule cleared_tool_runs)
    show "executed_tool (te_show (tv_security ?V)) ?task = tool" by (simp add: executed_tool_def tool_task_def sample_task_def)
    show "tn_registry (tw_manager sample_tool_world) = tn_registry sample_tools" by (simp add: sample_tool_world_def)
    show "network_blocked ?task sample_routing tool = None"
      by (simp add: network_blocked_def tool_task_def sample_task_def)
    show "gx_allowed (fst (authorize_tool_execution (tn_registry sample_tools) tool (rt_inputs ?task) LEVEL_MEDIUM
        (tw_guard sample_tool_world)))"
      using sample_guard [OF tool assms(2)] by (simp add: tool_task_def)
    show "validate_tool (tv_security ?V) sample_security (task_security_context ?V sample_security sample_context ?task tool)
        (execution_arguments sample_context ?task tool (provider_subject sample_context ?task)) = Inr s"
      using assms(1,3) by (auto simp: execution_arguments_def tool_task_def sample_executor_def)
  qed (use d g assms(4) in simp_all)
  moreover have "timeout_for (policy_for (sample_tool_info tool effects))
      (call_context sample_context (info_for (tn_registry sample_tools) tool) (sample_decision tool)) = 30000"
    using info by (simp add: timeout_for_def policy_for_def sample_tool_info_def default_tool_policy_def call_context_def info_for_def)
  moreover have "tw_manager sample_tool_world = sample_tools" "tv_call ?V = sample_call_env answer"
    by (simp_all add: sample_tool_world_def sample_executor_def)
  ultimately show ?thesis
    using sample_dispatch [OF info, of "call_context sample_context (info_for (tn_registry sample_tools) tool)
        (sample_decision tool)" answer "sd_arguments s"] g(2)
    by (simp add: call_context_def sample_retries)
qed

lemma sample_call_action: "call_action (sample_call_env answer) args =
    (case map_of args ''action'' of Some v \<Rightarrow> py_str sample_show v | None \<Rightarrow> [])"
  by (simp add: call_action_def sample_call_env_def split: option.split)

lemma sample_accepted:
  "validate_tool sample_tool_env sample_security
     (task_security_context (sample_executor answers_empty) sample_security sample_context
        (tool_task ''filesystem'' write_inputs) ''filesystem'') write_inputs =
   Inr (sec_allow [(''action'', PStr ''write''), (''path'', PStr ''/work/notes/a.txt''), (''content'', PStr ''hi'')]
          (Some [''work'', ''notes'', ''a.txt'']) (Some [''work'']))"
  by code_simp

lemma sample_context_same:
  "task_security_context (sample_executor a) T ctx task tool = task_security_context (sample_executor b) T ctx task tool"
  by (simp add: task_security_context_def sample_executor_def)

lemma sample_write_runs:
  "fst (snd (sample_execute answers_empty ''filesystem'' write_inputs)) =
     [(''filesystem'', [(''action'', PStr ''write''), (''path'', PStr ''/work/notes/a.txt''), (''content'', PStr ''hi'')], 1)]"
  "fst (snd (sample_execute times_out ''filesystem'' write_inputs)) =
     [(''filesystem'', [(''action'', PStr ''write''), (''path'', PStr ''/work/notes/a.txt''), (''content'', PStr ''hi'')], 1)]"
  using sample_run_calls [of "''filesystem''" "[''write'']", OF _ sample_inputs_clean(1) sample_accepted]
    sample_run_calls [of "''filesystem''" "[''write'']", OF _ sample_inputs_clean(1)
      sample_accepted [unfolded sample_context_same [of answers_empty _ _ _ _ times_out]]]
  by (simp_all add: sample_attempts sample_call_action)

lemma sample_fetch_accepted:
  "\<exists>s. validate_tool sample_tool_env sample_security
     (task_security_context (sample_executor answers_empty) sample_security sample_context
        (tool_task ''internet'' (fetch_inputs ''https://example.org/x'')) ''internet'')
     (fetch_inputs ''https://example.org/x'') = Inr s \<and> sd_allowed s \<and>
     map_of (sd_arguments s) ''url'' = Some (PStr ''https://example.org/x'')"
proof -
  have "(case validate_tool sample_tool_env sample_security
     (task_security_context (sample_executor answers_empty) sample_security sample_context
        (tool_task ''internet'' (fetch_inputs ''https://example.org/x'')) ''internet'')
     (fetch_inputs ''https://example.org/x'') of Inl _ \<Rightarrow> False
     | Inr s \<Rightarrow> sd_allowed s \<and> map_of (sd_arguments s) ''url'' = Some (PStr ''https://example.org/x''))" by code_simp
  then show ?thesis by (auto split: sum.splits)
qed

lemma sample_fetch_runs:
  "\<exists>args. fst (snd (sample_execute answers_empty ''internet'' (fetch_inputs ''https://example.org/x''))) = [(''internet'', args, 1)] \<and>
     map_of args ''url'' = Some (PStr ''https://example.org/x'')"
  using sample_fetch_accepted sample_run_calls [of "''internet''" "[]" "fetch_inputs ''https://example.org/x''" answers_empty]
    sample_inputs_clean(3)
  by (auto simp: sample_attempts)

text \<open>What the shell tool starts with the accepted arguments, on a host with two variables.\<close>

definition sample_shell_run :: "(string, pyval) dict \<Rightarrow> unit shell_answer" where
  "sample_shell_run = shell_run sample_tool_env (\<lambda>_. Some ()) [(''PATH'', ''/bin''), (''TOKEN'', ''x'')]"

abbreviation sample_process :: "unit shell_answer" where
  "sample_process \<equiv> ShellProcess [''git'', ''status''] () (PStr ''/work'') [(''PATH'', PStr ''/bin'')]"

lemma sample_shell_accepted:
  "\<exists>s. validate_tool sample_tool_env sample_security
     (task_security_context (sample_executor answers_empty) sample_security sample_context
        (tool_task ''shell'' git_inputs) ''shell'') git_inputs = Inr s \<and> sd_allowed s \<and>
     sample_shell_run (sd_arguments s) = sample_process"
proof -
  have "(case validate_tool sample_tool_env sample_security
     (task_security_context (sample_executor answers_empty) sample_security sample_context
        (tool_task ''shell'' git_inputs) ''shell'') git_inputs of Inl _ \<Rightarrow> False
     | Inr s \<Rightarrow> sd_allowed s \<and> sample_shell_run (sd_arguments s) = sample_process)" by code_simp
  then show ?thesis by (auto split: sum.splits)
qed

lemma sample_shell_runs:
  "\<exists>args. fst (snd (sample_execute answers_empty ''shell'' git_inputs)) = [(''shell'', args, 1)] \<and>
     sample_shell_run args = sample_process"
  using sample_shell_accepted sample_run_calls [of "''shell''" "[]" git_inputs answers_empty] sample_inputs_clean(2)
  by (auto simp: sample_attempts)

section \<open>A file system of one place\<close>

text \<open>Everything resolves to one file, so every resolved path is a plain text.\<close>

definition plain_tool_env :: tool_env where
  "plain_tool_env = sample_tool_env\<lparr>te_resolve := (\<lambda>_. Some [''work'', ''a''])\<rparr>"

definition sample_file_context :: security_context where
  "sample_file_context = context_for sample_security ''ann'' ''r1'' ''t1'' ''filesystem'' ''write'' []"

lemma plain_resolves: "resolves_canonically plain_tool_env"
  by (simp add: resolves_canonically_def plain_tool_env_def canonical_parts_def)

lemma plain_paths:
  assumes "resolve_path plain_tool_env (ts_filesystem sample_security) base raw = Inr (Inr (t, s))"
  shows "plain_path (ts_filesystem sample_security) t"
proof -
  from resolve_path_target(2) [OF assms] have "t = [''work'', ''a'']" by (auto simp: plain_tool_env_def)
  moreover have "plain_path (ts_filesystem sample_security) [''work'', ''a'']" by code_simp
  ultimately show ?thesis by simp
qed

lemma plain_accepts: "\<exists>d. validate_filesystem plain_tool_env sample_security sample_file_context write_inputs = Inr d \<and> sd_allowed d"
proof -
  have "(case validate_filesystem plain_tool_env sample_security sample_file_context write_inputs of
      Inl _ \<Rightarrow> False | Inr d \<Rightarrow> sd_allowed d)" by code_simp
  then show ?thesis by (auto split: sum.splits)
qed

end
