(* ===== verification/Confinement.thy ===== *)
theory Confinement
  imports Sample_Tools
begin

text \<open>
  What a tool may touch: nothing runs before the whole chain of checks has passed, a side effect is
  tried once, files stay in the workspace, requests leave the internal networks alone, commands are
  listed ones. The identifiers are those of the manifest.
\<close>

section \<open>The chain of checks\<close>

text \<open>C8: when the executor has a tool run, the tool is the task's and is registered, neither the network
  constraint of the permit nor the guard nor governance refused it, the permissions its policy asks for are granted by
  the governance decision, its arguments are those the security policy returned, and they fit its schema.\<close>

theorem tool_runs_only_when_cleared:
  assumes "tool_execute V G T ctx task routing w = (r, runs, w')" "(tool, args, n) \<in> set runs" "0 < n"
  shows "tool = executed_tool (te_show (tv_security V)) task \<and>
    (\<exists>d st t info. map_of (tn_registry (tw_manager w)) tool = Some (t, info) \<and>
       enforce_tool G (tv_now V) (tv_stamp V) tool
         (declared_permissions (info_for (tn_registry (tw_manager w)) tool))
         (permit_permissions (rt_permit task)) None (Some (provider_subject ctx task)) (rt_permit task)
         (tw_governance w) = (Inr d, st) \<and>
       run_cleared V T ctx task w tool args d info)"
  using run_is_cleared [OF assms] by blast

theorem tool_runs_only_when_cleared_witness:
  "\<exists>d info. run_cleared (sample_executor answers_empty) sample_security sample_context
     (tool_task ''filesystem'' write_inputs) sample_tool_world ''filesystem''
     [(''action'', PStr ''write''), (''path'', PStr ''/work/notes/a.txt''), (''content'', PStr ''hi'')] d info"
proof -
  obtain r runs w' where e: "sample_execute answers_empty ''filesystem'' write_inputs = (r, runs, w')"
    by (metis prod_cases3)
  then have "(''filesystem'', [(''action'', PStr ''write''), (''path'', PStr ''/work/notes/a.txt''),
      (''content'', PStr ''hi'')], 1) \<in> set runs"
    using sample_write_runs(1) by simp
  from tool_runs_only_when_cleared [OF e [unfolded sample_execute_def] this] show ?thesis by auto
qed

text \<open>C9: a tool runs at most once more than its policy allows retries, and exactly once for an action with a side
  effect unless the policy declares the mutation idempotent.\<close>

theorem side_effects_run_once:
  assumes "tool_execute V G T ctx task routing w = (r, runs, w')" "(tool, args, n) \<in> set runs" "0 < n"
  shows "\<exists>t info. map_of (tn_registry (tw_manager w)) tool = Some (t, info) \<and>
    n \<le> Suc (nat (tp_max_retries (policy_for info))) \<and>
    (call_action (tv_call V) args \<in> set (ti_side_effect_actions info) \<and>
     \<not> tp_idempotent_mutation (policy_for info) \<longrightarrow> n = 1)"
proof -
  from run_is_cleared [OF assms] obtain t info where i: "map_of (tn_registry (tw_manager w)) tool = Some (t, info)"
    "n \<le> Suc (nat (retries_for info (call_action (tv_call V) args)))" by blast
  then have "n \<le> Suc (nat (tp_max_retries (policy_for info)))"
    by (simp add: retries_for_def split: if_splits)
  with i assms(3) show ?thesis by (auto simp: retries_for_def)
qed

theorem side_effects_run_once_witness:
  "\<exists>args. map (\<lambda>(t, a, n). n) (fst (snd (sample_execute times_out ''filesystem'' write_inputs))) = [1] \<and>
     call_action (sample_call_env times_out) args = ''write''"
proof -
  obtain r runs w' where e: "sample_execute times_out ''filesystem'' write_inputs = (r, runs, w')"
    by (metis prod_cases3)
  let ?args = "[(''action'', PStr ''write''), (''path'', PStr ''/work/notes/a.txt''), (''content'', PStr ''hi'')]"
  have runs: "runs = [(''filesystem'', ?args, 1)]" using sample_write_runs(2) e by simp
  have act: "call_action (sample_call_env times_out) ?args = ''write''"
    by (simp add: call_action_def sample_call_env_def)
  from side_effects_run_once [OF e [unfolded sample_execute_def], of "''filesystem''" ?args 1] runs
  have "\<exists>t info. map_of (tn_registry (tw_manager sample_tool_world)) ''filesystem'' = Some (t, info)" by auto
  with e runs act show ?thesis by auto
qed

section \<open>Files\<close>

text \<open>C10: a path tool only ever runs on a path that, links resolved, lies below an allowed root and below no
  protected path; the destination of a copy or a move lies there too, and what is deleted or moved away is no root.\<close>

theorem files_stay_in_the_workspace:
  assumes "tool_execute V G T ctx task routing w = (r, runs, w')" "(tool, args, n) \<in> set runs" "0 < n"
    "tool \<in> set PATH_TOOLS" "resolves_canonically (tv_security V)" "filesystem_policy_ok (ts_filesystem T)"
  shows "(\<exists>t. map_of args ''path'' = Some (PStr (path_text t)) \<and> admitted (ts_filesystem T) t \<and>
      (path_action V ctx task args \<in> set FILE_DELETE_ACTIONS \<longrightarrow> t \<notin> set (fp_allowed_roots (ts_filesystem T)))) \<and>
    (path_action V ctx task args \<in> set DESTINATION_ACTIONS \<longrightarrow>
      (\<exists>dest. map_of args ''destination'' = Some (PStr (path_text dest)) \<and> admitted (ts_filesystem T) dest))"
proof -
  from run_is_cleared [OF assms(1-3)] obtain d info where "run_cleared V T ctx task w tool args d info" by blast
  then obtain s where s: "validate_tool (tv_security V) T (task_security_context V T ctx task tool)
      (execution_arguments ctx task tool (provider_subject ctx task)) = Inr s" "sd_allowed s" "args = sd_arguments s"
    by (auto simp: run_cleared_def)
  have "sx_tool_name (task_security_context V T ctx task tool) = tool"
    by (simp add: task_security_context_def context_for_def)
  with s assms(4) have "validate_filesystem (tv_security V) T (task_security_context V T ctx task tool)
      (execution_arguments ctx task tool (provider_subject ctx task)) = Inr s"
    by (simp add: validate_tool_def)
  from accepted_paths [OF assms(5,6) this s(2)] show ?thesis
    by (simp add: s(3) path_action_def task_security_context_def context_for_def)
qed

theorem files_stay_in_the_workspace_witness:
  "\<exists>t. path_text t = ''/work/notes/a.txt'' \<and> admitted (ts_filesystem sample_security) t"
proof -
  let ?args = "[(''action'', PStr ''write''), (''path'', PStr ''/work/notes/a.txt''), (''content'', PStr ''hi'')]"
  obtain r runs w' where e: "sample_execute answers_empty ''filesystem'' write_inputs = (r, runs, w')"
    by (metis prod_cases3)
  have runs: "(''filesystem'', ?args, 1) \<in> set runs" using sample_write_runs(1) e by simp
  have "tv_security (sample_executor answers_empty) = sample_tool_env" by (simp add: sample_executor_def)
  with files_stay_in_the_workspace [OF e [unfolded sample_execute_def] runs] sample_resolves sample_policy_ok
  have "\<exists>t. map_of ?args ''path'' = Some (PStr (path_text t)) \<and> admitted (ts_filesystem sample_security) t"
    by (auto simp: PATH_TOOLS_def)
  then show ?thesis by auto
qed

text \<open>The file tool validates its arguments a second time; arguments the policy accepted are accepted again with
  the same decision, whenever the resolved paths are texts the resolver takes as they are.\<close>

theorem accepted_arguments_pass_again:
  assumes "resolves_canonically E" "validate_filesystem E T X args = Inr d" "sd_allowed d"
    "\<forall>raw base t s. resolve_path E (ts_filesystem T) base raw = Inr (Inr (t, s)) \<longrightarrow> plain_path (ts_filesystem T) t"
  shows "validate_filesystem E T X (sd_arguments d) = Inr d"
  using validate_filesystem_again [OF assms(1-3)] assms(4) by blast

theorem accepted_arguments_pass_again_witness:
  "\<exists>d. sd_allowed d \<and> validate_filesystem plain_tool_env sample_security sample_file_context (sd_arguments d) = Inr d"
proof -
  obtain d where d: "validate_filesystem plain_tool_env sample_security sample_file_context write_inputs = Inr d"
    "sd_allowed d" using plain_accepts by blast
  from accepted_arguments_pass_again [OF plain_resolves d] plain_paths d(2) show ?thesis by blast
qed

section \<open>The network\<close>

text \<open>C11: unless the policy allows private addresses, a fetch of the internet tool only runs for a URL of an
  allowed scheme, without a user name or password, with a port that is allowed when the policy lists ports, whose
  host is not blocked and resolves to addresses outside the internal, loopback, link-local and multicast networks
  only.\<close>

theorem fetches_reach_external_addresses:
  assumes "tool_execute V G T ctx task routing w = (r, runs, w')" "(tool, args, n) \<in> set runs" "0 < n"
    "tool = ''internet''" "validated_action V ctx task = ''fetch''" "\<not> np_allow_private_addresses (ts_network T)"
  shows "\<exists>url u addrs. map_of args ''url'' = Some (PStr url) \<and> urlparse (te_bracket_ok (tv_security V)) url = Some u \<and>
    pu_scheme u \<in> set (np_allowed_schemes (ts_network T)) \<and>
    \<not> opt_nonempty (fst (url_userinfo u)) \<and> \<not> opt_nonempty (snd (url_userinfo u)) \<and>
    (\<exists>written. url_port u = Some written \<and> (np_allowed_ports (ts_network T) \<noteq> [] \<longrightarrow>
       effective_port (pu_scheme u) written \<in> set (np_allowed_ports (ts_network T)))) \<and>
    url_hostname u \<notin> set (np_blocked_hosts (ts_network T)) \<and>
    te_lookup (tv_security V) (url_hostname u) = Addresses addrs \<and> (\<forall>a\<in>set addrs. external_address (fst a))"
proof -
  from run_is_cleared [OF assms(1-3)] obtain d info where "run_cleared V T ctx task w tool args d info" by blast
  then obtain s where s: "validate_tool (tv_security V) T (task_security_context V T ctx task tool)
      (execution_arguments ctx task tool (provider_subject ctx task)) = Inr s" "sd_allowed s" "args = sd_arguments s"
    by (auto simp: run_cleared_def)
  have "sx_tool_name (task_security_context V T ctx task tool) = tool"
    by (simp add: task_security_context_def context_for_def)
  with s assms(4,5) have "validate_fetch (tv_security V) (ts_network T) (task_security_context V T ctx task tool)
      (rt_inputs task) = Inr s"
    by (simp add: validate_tool_def PATH_TOOLS_def validate_network_def execution_arguments_def validated_action_def
        task_security_context_def context_for_def)
  from validate_fetch_accepts [OF this s(2)] obtain url u addrs written where
    "map_of args ''url'' = Some (PStr url)" "urlparse (te_bracket_ok (tv_security V)) url = Some u"
    "pu_scheme u \<in> set (np_allowed_schemes (ts_network T))" "url_hostname u \<notin> set (np_blocked_hosts (ts_network T))"
    "\<not> opt_nonempty (fst (url_userinfo u))" "\<not> opt_nonempty (snd (url_userinfo u))" "url_port u = Some written"
    "np_allowed_ports (ts_network T) \<noteq> [] \<longrightarrow> effective_port (pu_scheme u) written \<in> set (np_allowed_ports (ts_network T))"
    "te_lookup (tv_security V) (url_hostname u) = Addresses addrs"
    "\<forall>a\<in>set addrs. is_address_allowed (ts_network T) (fst a)"
    unfolding s(3) fetch_admitted_def by blast
  then show ?thesis using allowed_external [OF _ assms(6)] by blast
qed

theorem fetches_reach_external_addresses_witness:
  "\<exists>u addrs. urlparse (\<lambda>_. False) ''https://example.org/x'' = Some u \<and> sample_lookup (url_hostname u) = Addresses addrs \<and>
     list_all (\<lambda>a. external_address (fst a)) addrs"
proof -
  obtain r runs w' where e: "sample_execute answers_empty ''internet'' (fetch_inputs ''https://example.org/x'') = (r, runs, w')"
    by (metis prod_cases3)
  with sample_fetch_runs obtain args where runs: "(''internet'', args, 1) \<in> set runs"
    "map_of args ''url'' = Some (PStr ''https://example.org/x'')" by auto
  have p: "\<not> np_allow_private_addresses (ts_network sample_security)"
    by (simp add: sample_security_def DEFAULT_NETWORK_def)
  have v: "validated_action (sample_executor answers_empty) sample_context
      (tool_task ''internet'' (fetch_inputs ''https://example.org/x'')) = ''fetch''" by code_simp
  from fetches_reach_external_addresses [OF e [unfolded sample_execute_def] runs(1) _ refl v p] runs(2) show ?thesis
    by (auto simp: sample_executor_def sample_tool_env_def list_all_iff)
qed

text \<open>The shared addresses of carriers, 100.64.0.0/10, and the site-local ones of IPv6, fec0::/10, are accepted by
  every network policy although neither block is reachable from the public network.\<close>

theorem shared_and_site_local_pass:
  "(in_network SHARED4 a \<longrightarrow> is_address_allowed P (V4 a)) \<and> (in_network SITE_LOCAL6 b \<longrightarrow> is_address_allowed P (V6 b))"
  using shared4_allowed site_local6_allowed by auto

theorem shared_and_site_local_pass_witness:
  "is_address_allowed DEFAULT_NETWORK (V4 0x646464C8) \<and> is_address_allowed DEFAULT_NETWORK (V6 0xFEC00000000000000000000000000001)"
proof -
  have "in_network SHARED4 (0x646464C8 :: ip4)" "in_network SITE_LOCAL6 (0xFEC00000000000000000000000000001 :: ip6)"
    by (simp_all add: SHARED4_def SITE_LOCAL6_def in_network4_iff in_network6_iff)
  with shared_and_site_local_pass [of "0x646464C8" DEFAULT_NETWORK "0xFEC00000000000000000000000000001"] show ?thesis by blast
qed

section \<open>Commands\<close>

text \<open>C12: whatever process the shell tool starts when the executor has it run, its first word is an executable of
  the allow list, if there is one, its directory lies below an allowed root or is the default one (the directory
  named None when the policy has no default), and its variables are those of the policy and the basic ones of the
  host.\<close>

theorem commands_are_listed:
  assumes "tool_execute V G T ctx task routing w = (r, runs, w')" "(tool, args, n) \<in> set runs" "0 < n" "tool = ''shell''"
    and "shell_run E number host args = ShellProcess ws limit cwd env"
  shows "process_confined (ts_shell T) host ws cwd env"
proof -
  from run_is_cleared [OF assms(1-3)] obtain d info where "run_cleared V T ctx task w tool args d info" by blast
  then obtain s where s: "validate_tool (tv_security V) T (task_security_context V T ctx task tool)
      (execution_arguments ctx task tool (provider_subject ctx task)) = Inr s" "sd_allowed s" "args = sd_arguments s"
    by (auto simp: run_cleared_def)
  have "sx_tool_name (task_security_context V T ctx task tool) = tool"
    by (simp add: task_security_context_def context_for_def)
  with s assms(4) have "validate_shell (tv_security V) T (task_security_context V T ctx task tool)
      (execution_arguments ctx task tool (provider_subject ctx task)) = Inr s"
    by (simp add: validate_tool_def PATH_TOOLS_def)
  from validate_shell_accepts [OF this s(2)] have "command_admitted (ts_shell T) args" by (simp add: s(3))
  from shell_run_confined [OF this assms(5)] show ?thesis .
qed

theorem commands_are_listed_witness:
  "process_confined (ts_shell sample_security) [(''PATH'', ''/bin''), (''TOKEN'', ''x'')] [''git'', ''status'']
     (PStr ''/work'') [(''PATH'', PStr ''/bin'')]"
proof -
  obtain r runs w' where e: "sample_execute answers_empty ''shell'' git_inputs = (r, runs, w')"
    by (metis prod_cases3)
  with sample_shell_runs obtain args where runs: "(''shell'', args, 1) \<in> set runs"
    "sample_shell_run args = sample_process" by auto
  from commands_are_listed [OF e [unfolded sample_execute_def] runs(1) _ refl runs(2) [unfolded sample_shell_run_def]]
  show ?thesis by simp
qed

end
