(* ===== verification/Plugin_Registry.thy ===== *)
theory Plugin_Registry
  imports Plugin_Dependencies Tool_Framework Python_Library Evidence_Sanitizer
begin

text \<open>
  What the plugin manager stands on: the records of the registry (\<open>app/plugins/models.py\<close>,
  \<open>registry.py\<close>), the validation of manifests and plugins (\<open>validation.py\<close>), the isolation
  boundaries (\<open>isolation.py\<close>), the tracker of active tools (\<open>activity.py\<close>, \<open>tool_adapter.py\<close>) and the
  discovery of manifests (\<open>discovery.py\<close>). The texts of \<open>repr\<close> and of a manifest's JSON are arguments;
  the classes of a module, the tools of a plugin and the files of a directory are what third-party
  code and the file system answer.
\<close>

section \<open>Tools and plugins\<close>

text \<open>A contributed tool, by the attributes the host reads; absent ones are empty.\<close>

record plugin_tool =
  ptl_name :: string
  ptl_capabilities :: "string list"
  ptl_policy :: "tool_policy option"
  ptl_permissions :: "string list"
  ptl_category :: "string option"
  ptl_input_schema :: "(string, pyval) dict"
  ptl_supported_actions :: "string list"

text \<open>What \<open>provide_tools\<close> lists: a \<open>Tool\<close>, or an object of another type.\<close>

datatype tool_contribution = ToolContribution plugin_tool | OtherContribution string

datatype tools_answer = ToolsRaised string | NotAToolList string | ToolList "tool_contribution list"

text \<open>A communication provider, by \<open>provider_id\<close> or the name of its class.\<close>

datatype provider_contribution = ProviderContribution string | OtherProvider string

datatype providers_answer = ProvidersRaised string | ProviderList "provider_contribution list"

section \<open>Records\<close>

text \<open>The rest of a record; an instance of a plugin is a number.\<close>

record plugin_entry = plugin_record +
  pl_loaded_at :: "pydatetime option"
  pl_unloaded_at :: "pydatetime option"
  pl_error :: "string option"
  pl_contributions :: "string list"
  pl_plugin :: "nat option"
  pl_installed_at :: "pydatetime option"
  pl_uninstalled_at :: "pydatetime option"
  pl_enabled :: bool
  pl_enabled_at :: "pydatetime option"
  pl_disabled_at :: "pydatetime option"
  pl_health :: string
  pl_health_checked_at :: "pydatetime option"
  pl_health_details :: "string option"

definition new_entry :: "plugin_manifest \<Rightarrow> plugin_entry" where
  "new_entry m =
     \<lparr>pl_manifest = m, pl_state = REGISTERED, pl_loaded_at = None, pl_unloaded_at = None, pl_error = None,
      pl_contributions = [], pl_plugin = None, pl_installed_at = None, pl_uninstalled_at = None,
      pl_enabled = False, pl_enabled_at = None, pl_disabled_at = None, pl_health = ''healthy'',
      pl_health_checked_at = None, pl_health_details = None\<rparr>"

section \<open>The registry\<close>

type_synonym plugin_registry = "(string, plugin_entry) dict"

datatype plugin_exn =
    PluginLoadError string | PluginUnloadError string | PluginIsolationError string
  | PluginRegistrationError string | PluginError string | DiscoveryError string | PluginRaised string
  | LoadDiverged

definition register_plugin :: "plugin_manifest \<Rightarrow> plugin_registry \<Rightarrow> (plugin_exn, plugin_registry) result" where
  "register_plugin m reg =
     (if dict_has (manifest_key m) reg
      then Inl (PluginRegistrationError (''Plugin already registered: '' @ manifest_key m))
      else Inr (AList.update (manifest_key m) (new_entry m) reg))"

definition unregister_plugin :: "string \<Rightarrow> plugin_registry \<Rightarrow> bool \<times> plugin_registry" where
  "unregister_plugin key reg = (dict_has key reg, AList.delete key reg)"

definition entry_semver :: "plugin_entry \<Rightarrow> (version_error, nat \<times> nat \<times> nat) result" where
  "entry_semver r = res_bind (parse_version (pm_version (pl_manifest r))) (\<lambda>v. Inr (version_tuple v))"

text \<open>\<open>max\<close> over the version and the key; a version that does not parse is an error.\<close>

definition get_by_id :: "plugin_registry \<Rightarrow> string \<Rightarrow> (version_error, plugin_entry option) result" where
  "get_by_id reg pid =
     (let matches = filter (\<lambda>r. pm_id (pl_manifest r) = pid) (map snd reg)
      in case List.find (\<lambda>r. \<not> returned (entry_semver r)) matches of
           Some r \<Rightarrow> res_bind (entry_semver r) (\<lambda>_. Inr None)
         | None \<Rightarrow>
             (case sort_desc (\<lambda>r. (case entry_semver r of Inr v \<Rightarrow> v | Inl _ \<Rightarrow> (0, 0, 0),
                                  manifest_key (pl_manifest r))) matches of
                [] \<Rightarrow> Inr None | r # _ \<Rightarrow> Inr (Some r)))"

definition plugin_versions :: "plugin_registry \<Rightarrow> string \<Rightarrow> string list" where
  "plugin_versions reg pid =
     sort (map (\<lambda>(_, r). pm_version (pl_manifest r)) (filter (\<lambda>(_, r). pm_id (pl_manifest r) = pid) reg))"

definition list_plugins :: "plugin_registry \<Rightarrow> plugin_entry list" where
  "list_plugins reg = map (\<lambda>k. the (map_of reg k)) (sort (map fst reg))"

definition is_loaded_state :: "plugin_state \<Rightarrow> bool" where
  "is_loaded_state s = (s \<in> {LOADED, ACTIVE})"

definition list_loaded :: "plugin_registry \<Rightarrow> plugin_entry list" where
  "list_loaded reg = filter (\<lambda>r. is_loaded_state (pl_state r)) (list_plugins reg)"

definition list_by_kind :: "plugin_registry \<Rightarrow> plugin_kind \<Rightarrow> plugin_entry list" where
  "list_by_kind reg kind = filter (\<lambda>r. pm_kind (pl_manifest r) = kind) (list_plugins reg)"

text \<open>An update in place of a record that is there.\<close>

definition update_entry :: "string \<Rightarrow> (plugin_entry \<Rightarrow> plugin_entry) \<Rightarrow> plugin_registry \<Rightarrow> plugin_registry" where
  "update_entry key f reg =
     (case map_of reg key of None \<Rightarrow> reg | Some r \<Rightarrow> AList.update key (f r) reg)"

definition update_state :: "string \<Rightarrow> plugin_state \<Rightarrow> plugin_registry \<Rightarrow> plugin_registry" where
  "update_state key s = update_entry key (\<lambda>r. r\<lparr>pl_state := s\<rparr>)"

definition note_error :: "string \<Rightarrow> string \<Rightarrow> plugin_registry \<Rightarrow> plugin_registry" where
  "note_error key e = update_entry key (\<lambda>r. r\<lparr>pl_error := Some e\<rparr>)"

text \<open>\<open>manifest.check_compatibility\<close>.\<close>

definition manifest_compatible :: "plugin_manifest \<Rightarrow> string \<Rightarrow> (version_error, bool) result" where
  "manifest_compatible m version =
     res_bind (if opt_nonempty (pm_min_version m)
               then res_bind (parse_version version) (\<lambda>v.
                      res_bind (parse_version (the (pm_min_version m))) (\<lambda>w. Inr (\<not> v < w)))
               else Inr True) (\<lambda>ok.
       if \<not> ok then Inr False
       else if opt_nonempty (pm_max_version m)
         then res_bind (parse_version version) (\<lambda>v.
                res_bind (parse_version (the (pm_max_version m))) (\<lambda>w. Inr (\<not> w < v)))
         else Inr True)"

section \<open>Validation\<close>

record validation_env =
  vp_repr :: "string \<Rightarrow> string"
  vp_list :: "string list \<Rightarrow> string"
  vp_json :: "plugin_manifest \<Rightarrow> string"

definition ident_start :: string where "ident_start = lower_letters"
definition ident_chars :: string where "ident_chars = lower_letters @ digits @ ''._-''"
definition segment_start :: string where "segment_start = upper_letters @ lower_letters @ ''_''"
definition segment_chars :: string where "segment_chars = segment_start @ digits"

text \<open>\<open>^[start][chars]*$\<close>, where \<open>$\<close> admits a final newline.\<close>

definition matches_word :: "string \<Rightarrow> string \<Rightarrow> string \<Rightarrow> bool" where
  "matches_word start chars s =
     (case s of [] \<Rightarrow> False
      | c # cs \<Rightarrow> c \<in> set start \<and> (let rest = dropWhile (\<lambda>x. x \<in> set chars) cs in rest = [] \<or> rest = [CHR 0x0A]))"

definition is_identifier :: "string \<Rightarrow> bool" where
  "is_identifier = matches_word ident_start ident_chars"

definition valid_module_path :: "string \<Rightarrow> bool" where
  "valid_module_path s =
     (s \<noteq> [] \<and> hd s \<noteq> CHR ''.'' \<and> last s \<noteq> CHR ''.'' \<and> \<not> py_contains s ''..'' \<and>
      list_all (matches_word segment_start segment_chars) (split_char (CHR ''.'') s))"

definition entry_contained :: "string \<Rightarrow> bool" where
  "entry_contained s =
     (valid_module_path s \<and> \<not> py_startswith s ''..'' \<and> CHR ''/'' \<notin> set s \<and> CHR 0x5C \<notin> set s)"

definition version_error_text :: "validation_env \<Rightarrow> version_error \<Rightarrow> string" where
  "version_error_text E e =
     (case e of InvalidVersion s \<Rightarrow> ''Invalid semantic version: '' @ vp_repr E s @ ''.''
      | ConstraintNotString \<Rightarrow> ''Constraint must be a string.'')"

definition VALID_PERMISSION_SCOPES :: "string list" where
  "VALID_PERMISSION_SCOPES = [''admin'', ''delete'', ''execute'', ''modify'', ''network'', ''read'', ''write'']"

definition VALID_SIDE_EFFECT_CLASSES :: "string list" where
  "VALID_SIDE_EFFECT_CLASSES = [''IDEMPOTENT_MUTATION'', ''NON_IDEMPOTENT_MUTATION'', ''READ_ONLY'']"

definition SUPPORTED_API_VERSIONS :: "int list" where "SUPPORTED_API_VERSIONS = [1]"

definition MAX_MANIFEST_BYTES :: nat where "MAX_MANIFEST_BYTES = 64 * 1024"
definition MAX_ACTIONS :: nat where "MAX_ACTIONS = 50"
definition MAX_DESCRIPTION_LENGTH :: nat where "MAX_DESCRIPTION_LENGTH = 2000"
definition MAX_AUTHOR_LENGTH :: nat where "MAX_AUTHOR_LENGTH = 256"
definition MAX_METADATA_KEYS :: nat where "MAX_METADATA_KEYS = 100"

definition when_error :: "bool \<Rightarrow> string \<Rightarrow> string list" where
  "when_error b e = (if b then [e] else [])"

definition version_errors :: "validation_env \<Rightarrow> string \<Rightarrow> string option \<Rightarrow> string list" where
  "version_errors E what v =
     (case v of None \<Rightarrow> []
      | Some s \<Rightarrow> (case parse_version s of Inl e \<Rightarrow> [what @ version_error_text E e] | Inr _ \<Rightarrow> []))"

definition nonempty_opt :: "string option \<Rightarrow> string option" where
  "nonempty_opt s = (if opt_nonempty s then s else None)"

definition identity_errors :: "validation_env \<Rightarrow> plugin_manifest \<Rightarrow> string list" where
  "identity_errors E m =
     when_error (pm_schema_version m \<noteq> ''1.0'')
       (''Unsupported schema version '' @ vp_repr E (pm_schema_version m) @ ''; supported: '' @
        vp_list E [''1.0''] @ ''.'') @
     when_error (\<not> is_identifier (pm_id m))
       (''Invalid plugin id '' @ vp_repr E (pm_id m) @ '': must be lowercase identifier matching [a-z][a-z0-9._-]*.'') @
     when_error (py_strip (pm_name m) = []) ''Plugin name must not be empty.'' @
     version_errors E ''Invalid plugin version: '' (Some (pm_version m)) @
     when_error (\<not> valid_module_path (pm_entry m))
       (''Invalid entry module path '' @ vp_repr E (pm_entry m) @
        '': must be a dotted module path with Python identifiers.'') @
     when_error (pm_api_version m \<notin> set SUPPORTED_API_VERSIONS)
       (''Unsupported plugin API version '' @ int_str (pm_api_version m) @ ''; supported: [1].'') @
     version_errors E ''Invalid min_samaktha_version: '' (nonempty_opt (pm_min_version m)) @
     version_errors E ''Invalid max_samaktha_version: '' (nonempty_opt (pm_max_version m))"

text \<open>The errors of a list of declarations, each seen with the names before it.\<close>

fun declared_errors :: "('a \<Rightarrow> string) \<Rightarrow> ('a \<Rightarrow> bool \<Rightarrow> string list) \<Rightarrow> string list \<Rightarrow> 'a list \<Rightarrow> string list" where
  "declared_errors name errors seen [] = []"
| "declared_errors name errors seen (x # xs) =
     errors x (name x \<in> set seen) @ declared_errors name errors (name x # seen) xs"

definition dependency_errors :: "validation_env \<Rightarrow> plugin_dependency \<Rightarrow> bool \<Rightarrow> string list" where
  "dependency_errors E d again =
     when_error (\<not> is_identifier (dep_plugin_id d))
       (''Invalid dependency plugin id '' @ vp_repr E (dep_plugin_id d) @ ''.'') @
     when_error again (''Duplicate dependency on plugin '' @ vp_repr E (dep_plugin_id d) @ ''.'') @
     (case validate_constraint (Some (dep_version d)) of
        Inl e \<Rightarrow> [''Invalid dependency constraint '' @ vp_repr E (dep_version d) @ '' for '' @
                  vp_repr E (dep_plugin_id d) @ '': '' @ version_error_text E e]
      | Inr _ \<Rightarrow> [])"

definition capability_errors :: "validation_env \<Rightarrow> plugin_capability \<Rightarrow> bool \<Rightarrow> string list" where
  "capability_errors E c again =
     when_error (\<not> is_identifier (pcp_name c)) (''Invalid capability name '' @ vp_repr E (pcp_name c) @ ''.'') @
     when_error again (''Duplicate capability declaration '' @ vp_repr E (pcp_name c) @ ''.'')"

definition permission_errors :: "validation_env \<Rightarrow> plugin_permission \<Rightarrow> bool \<Rightarrow> string list" where
  "permission_errors E p again =
     when_error (pps_scope p \<notin> set VALID_PERMISSION_SCOPES)
       (''Unknown permission scope '' @ vp_repr E (pps_scope p) @ ''; valid scopes are '' @
        vp_list E VALID_PERMISSION_SCOPES @ ''.'') @
     when_error again (''Duplicate permission declaration '' @ vp_repr E (pps_scope p) @ ''.'')"

definition action_errors :: "validation_env \<Rightarrow> string list \<Rightarrow> plugin_action \<Rightarrow> bool \<Rightarrow> string list" where
  "action_errors E scopes a again =
     when_error (\<not> is_identifier (pat_name a)) (''Invalid action name '' @ vp_repr E (pat_name a) @ ''.'') @
     when_error again (''Duplicate action name '' @ vp_repr E (pat_name a) @ ''.'') @
     when_error (pat_side_effect_class a \<notin> set VALID_SIDE_EFFECT_CLASSES)
       (''Action '' @ vp_repr E (pat_name a) @ '' has invalid side_effect_class '' @
        vp_repr E (pat_side_effect_class a) @ ''; valid: '' @ vp_list E VALID_SIDE_EFFECT_CLASSES @ ''.'') @
     when_error (pat_timeout_seconds a \<le> 0 \<or> 3600 < pat_timeout_seconds a)
       (''Action '' @ vp_repr E (pat_name a) @ '' timeout must be between 1 and 3600 seconds.'') @
     concat (map (\<lambda>p. when_error (p \<notin> set scopes)
       (''Action '' @ vp_repr E (pat_name a) @ '' requires undeclared permission '' @ vp_repr E p @ ''.''))
       (pat_required_permissions a))"

definition bounds_errors :: "validation_env \<Rightarrow> plugin_manifest \<Rightarrow> string list" where
  "bounds_errors E m =
     when_error (MAX_MANIFEST_BYTES < utf8_length (vp_json E m))
       (''Manifest size '' @ nat_str (length (vp_json E m)) @ '' bytes exceeds maximum of '' @
        nat_str MAX_MANIFEST_BYTES @ '' bytes.'') @
     when_error (MAX_DESCRIPTION_LENGTH < length (pm_description m))
       (''Description length '' @ nat_str (length (pm_description m)) @ '' exceeds maximum of '' @
        nat_str MAX_DESCRIPTION_LENGTH @ ''.'') @
     when_error (MAX_AUTHOR_LENGTH < length (pm_author m))
       (''Author length '' @ nat_str (length (pm_author m)) @ '' exceeds maximum of '' @
        nat_str MAX_AUTHOR_LENGTH @ ''.'') @
     when_error (MAX_METADATA_KEYS < length (pm_metadata m))
       (''Metadata has '' @ nat_str (length (pm_metadata m)) @ '' keys, exceeds maximum of '' @
        nat_str MAX_METADATA_KEYS @ ''.'')"

definition validate_manifest :: "validation_env \<Rightarrow> plugin_manifest \<Rightarrow> string list" where
  "validate_manifest E m =
     identity_errors E m @
     declared_errors dep_plugin_id (dependency_errors E) [] (pm_dependencies m) @
     declared_errors pcp_name (capability_errors E) [] (pm_capabilities m) @
     declared_errors pps_scope (permission_errors E) [] (pm_permissions m) @
     (if pm_kind m = KIND_TOOL \<and> pm_actions m \<noteq> [] then
        when_error (MAX_ACTIONS < length (pm_actions m))
          (''Plugin declares '' @ nat_str (length (pm_actions m)) @ '' actions, exceeds maximum of '' @
           nat_str MAX_ACTIONS @ ''.'') @
        declared_errors pat_name (action_errors E (map pps_scope (pm_permissions m))) [] (pm_actions m)
      else []) @
     bounds_errors E m"

text \<open>The one warning: a minimum above the maximum.\<close>

definition manifest_warnings :: "plugin_manifest \<Rightarrow> string list" where
  "manifest_warnings m =
     (case (nonempty_opt (pm_min_version m), nonempty_opt (pm_max_version m)) of
        (Some lo, Some hi) \<Rightarrow>
          (case (parse_version lo, parse_version hi) of
             (Inr v, Inr w) \<Rightarrow>
               when_error (w < v) (''min_samaktha_version ('' @ lo @ '') is greater than max_samaktha_version ('' @ hi @ '')'')
           | _ \<Rightarrow> [])
      | _ \<Rightarrow> [])"

definition contribution_errors :: "validation_env \<Rightarrow> tool_contribution \<Rightarrow> string list" where
  "contribution_errors E c =
     (case c of
        OtherContribution ty \<Rightarrow> [''Tool contribution must be a Tool instance, got '' @ ty @ ''.'']
      | ToolContribution t \<Rightarrow>
          when_error (\<not> is_identifier (ptl_name t)) (''Invalid tool name '' @ vp_repr E (ptl_name t) @ ''.''))"

definition tools_of :: "tool_contribution list \<Rightarrow> plugin_tool list" where
  "tools_of cs = List.map_filter (\<lambda>c. case c of ToolContribution t \<Rightarrow> Some t | OtherContribution _ \<Rightarrow> None) cs"

text \<open>\<open>validate_plugin\<close>: \<open>pid\<close> and \<open>version\<close> are those of the instance's own manifest.\<close>

definition validate_plugin ::
  "validation_env \<Rightarrow> string \<Rightarrow> string \<Rightarrow> tools_answer \<Rightarrow> plugin_manifest \<Rightarrow> string list" where
  "validate_plugin E pid version answer m =
     when_error (pid \<noteq> pm_id m)
       (''Plugin entry manifest id '' @ vp_repr E pid @ '' does not match registered id '' @ vp_repr E (pm_id m) @ ''.'') @
     when_error (version \<noteq> pm_version m)
       (''Plugin entry manifest version '' @ vp_repr E version @ '' does not match registered version '' @
        vp_repr E (pm_version m) @ ''.'') @
     (case answer of
        ToolsRaised e \<Rightarrow> [''provide_tools() raised: '' @ e]
      | NotAToolList _ \<Rightarrow> [''provide_tools() must return a list of Tool instances.'']
      | ToolList cs \<Rightarrow>
          concat (map (contribution_errors E) cs) @
          when_error (\<not> distinct (map ptl_name (tools_of cs)))
            ''Tool names contributed by a plugin must be unique.'')"

section \<open>Isolation\<close>

definition policy_permissions :: "plugin_tool \<Rightarrow> string list" where
  "policy_permissions t =
     (case ptl_policy t of None \<Rightarrow> [] | Some p \<Rightarrow> map permission_value (tp_permissions p))"

definition undeclared :: "string list \<Rightarrow> string list \<Rightarrow> string list" where
  "undeclared declared required = sort (dedupe (filter (\<lambda>x. x \<notin> set declared) required))"

definition permission_boundary :: "validation_env \<Rightarrow> string list \<Rightarrow> plugin_tool \<Rightarrow> (plugin_exn, unit) result" where
  "permission_boundary E scopes t =
     (let missing = undeclared scopes (policy_permissions t)
      in if missing \<noteq> []
         then Inl (PluginIsolationError (''Tool '' @ [CHR 0x27] @ ptl_name t @ [CHR 0x27] @
                '' requires undeclared permission(s): '' @ vp_list E missing @ ''.''))
         else Inr ())"

definition capability_boundary :: "validation_env \<Rightarrow> string list \<Rightarrow> plugin_tool \<Rightarrow> (plugin_exn, unit) result" where
  "capability_boundary E declared t =
     (let missing = undeclared declared (ptl_capabilities t)
      in if missing \<noteq> []
         then Inl (PluginIsolationError (''Tool '' @ [CHR 0x27] @ ptl_name t @ [CHR 0x27] @
                '' provides undeclared capability/capabilities: '' @ vp_list E missing @ ''.''))
         else Inr ())"

definition tool_boundary :: "tool_contribution \<Rightarrow> (plugin_exn, plugin_tool) result" where
  "tool_boundary c =
     (case c of ToolContribution t \<Rightarrow> Inr t
      | OtherContribution ty \<Rightarrow>
          Inl (PluginIsolationError (''Tool contributions must be instances of app.tools.base.Tool; got '' @ ty @
                 ''. Arbitrary callables are not registered as tools.'')))"

definition provider_boundary :: "provider_contribution \<Rightarrow> (plugin_exn, string) result" where
  "provider_boundary c =
     (case c of ProviderContribution name \<Rightarrow> Inr name
      | OtherProvider ty \<Rightarrow>
          Inl (PluginIsolationError (''Provider contributions must be instances of '' @
                 ''app.communication.provider.CommunicationProvider; got '' @ ty @ ''.'')))"

text \<open>Every tool, then every provider.\<close>

fun check_tools ::
  "validation_env \<Rightarrow> string list \<Rightarrow> string list \<Rightarrow> tool_contribution list \<Rightarrow> (plugin_exn, unit) result" where
  "check_tools E scopes declared [] = Inr ()"
| "check_tools E scopes declared (c # cs) =
     res_bind (tool_boundary c) (\<lambda>t.
       res_bind (permission_boundary E scopes t) (\<lambda>_.
         res_bind (capability_boundary E declared t) (\<lambda>_. check_tools E scopes declared cs)))"

fun check_providers :: "provider_contribution list \<Rightarrow> (plugin_exn, unit) result" where
  "check_providers [] = Inr ()"
| "check_providers (c # cs) = res_bind (provider_boundary c) (\<lambda>_. check_providers cs)"

section \<open>Active tools\<close>

definition begin_activity :: "string \<Rightarrow> (string, nat) dict \<Rightarrow> (string, nat) dict" where
  "begin_activity i counts = AList.update i (Suc (case map_of counts i of Some n \<Rightarrow> n | None \<Rightarrow> 0)) counts"

definition end_activity :: "string \<Rightarrow> (string, nat) dict \<Rightarrow> (string, nat) dict" where
  "end_activity i counts =
     (let n = (case map_of counts i of Some n \<Rightarrow> n | None \<Rightarrow> 0)
      in if n \<le> 1 then AList.delete i counts else AList.update i (n - 1) counts)"

definition in_use :: "(string, nat) dict \<Rightarrow> string \<Rightarrow> bool" where
  "in_use counts i = (case map_of counts i of Some n \<Rightarrow> 0 < n | None \<Rightarrow> False)"

definition active_tool_ids :: "(string, nat) dict \<Rightarrow> string list" where
  "active_tool_ids counts = map fst counts"

section \<open>Discovery\<close>

text \<open>A file: its size, and what parsing and validating its text by Pydantic comes to.\<close>

record manifest_file =
  mf_size :: nat
  mf_manifest :: "plugin_manifest option"

definition load_manifest :: "manifest_file \<Rightarrow> plugin_manifest option" where
  "load_manifest f = (if MAX_MANIFEST_BYTES < mf_size f then None else mf_manifest f)"

fun discover_files :: "string list \<Rightarrow> manifest_file list \<Rightarrow> plugin_manifest list" where
  "discover_files seen [] = []"
| "discover_files seen (f # fs) =
     (case load_manifest f of
        None \<Rightarrow> discover_files seen fs
      | Some m \<Rightarrow>
          (if manifest_key m \<in> set seen then discover_files seen fs
           else m # discover_files (manifest_key m # seen) fs))"

section \<open>Instances\<close>

text \<open>
  What constructing a plugin comes to: an instance, an object of another type, a \<open>TypeError\<close>, another
  exception. A module is what the host reads of it: its factory, its \<open>plugin\<close> attribute when that is an
  instance, and its plugin classes.
\<close>

datatype construct_answer = Constructed nat | ConstructedOther | ConstructTypeError string | ConstructRaised string

record plugin_module =
  mo_factory :: "construct_answer option"
  mo_plugin :: "nat option"
  mo_classes :: "construct_answer list"

fun first_instance :: "construct_answer list \<Rightarrow> (plugin_exn, nat option) result" where
  "first_instance [] = Inr None"
| "first_instance (Constructed p # cs) = Inr (Some p)"
| "first_instance (ConstructedOther # cs) = first_instance cs"
| "first_instance (ConstructTypeError e # cs) = first_instance cs"
| "first_instance (ConstructRaised e # cs) = Inl (PluginRaised e)"

definition instantiate_plugin :: "plugin_module \<Rightarrow> plugin_manifest \<Rightarrow> (plugin_exn, nat) result" where
  "instantiate_plugin mo m =
     (case mo_factory mo of
        Some (Constructed p) \<Rightarrow> Inr p
      | Some ConstructedOther \<Rightarrow> Inl (PluginLoadError ''create_plugin() must return a Plugin instance.'')
      | Some (ConstructTypeError e) \<Rightarrow> Inl (PluginRaised e)
      | Some (ConstructRaised e) \<Rightarrow> Inl (PluginRaised e)
      | None \<Rightarrow>
          (case mo_plugin mo of
             Some p \<Rightarrow> Inr p
           | None \<Rightarrow>
               res_bind (first_instance (mo_classes mo)) (\<lambda>found.
                 case found of
                   Some p \<Rightarrow> Inr p
                 | None \<Rightarrow>
                     Inl (PluginLoadError (''Plugin entry '' @ [CHR 0x27] @ pm_entry m @ [CHR 0x27] @
                       '' must expose a '' @ [CHR 0x27] @ ''create_plugin'' @ [CHR 0x27] @ '' factory, a '' @
                       [CHR 0x27] @ ''plugin'' @ [CHR 0x27] @ '' instance, or a Plugin subclass.'')))))"

end
