(* ===== verification/Plugin_Manager.thy ===== *)
theory Plugin_Manager
  imports Plugin_Registry
begin

text \<open>
  The plugin manager (\<open>app/plugins/manager.py\<close>): discovery, loading with dependencies, the
  registration of contributions in the canonical registries, unloading, reloading with rollback,
  activation, the installation and enabling of plugins, health and updates. An operation runs to its end
  before the next one; what module, instance and files answer is its environment. Lifecycle events are
  kept in a list; their listeners and the evidence are left out, and what the hooks of a plugin do to
  the registries they are handed is not part of the model.
\<close>

section \<open>The state\<close>

text \<open>A registered tool: one of the host, or the adapter of a plugin's tool with the key of the plugin.\<close>

datatype 'h installed_tool = HostTool 'h | PluginToolAdapter string plugin_tool

record 'h plugin_manager =
  mg_records :: plugin_registry
  mg_tools :: "'h installed_tool tool_registry"
  mg_providers :: "(string, string option) dict option"
  mg_domains :: domain_registry
  mg_activity :: "(string, nat) dict"
  mg_require_enable :: bool
  mg_events :: "(string \<times> string \<times> plugin_state) list"

record plugin_env =
  pg_validation :: validation_env
  pg_now :: pydatetime
  pg_module :: "string \<Rightarrow> (string, plugin_module) result"
  pg_manifest :: "nat \<Rightarrow> string \<times> string"
  pg_tools :: "nat \<Rightarrow> nat \<Rightarrow> tools_answer"
  pg_providers :: "nat \<Rightarrow> providers_answer"
  pg_start :: "nat \<Rightarrow> string option"
  pg_stop :: "nat \<Rightarrow> string option"
  pg_snapshot :: "nat \<Rightarrow> (string, pyval option) result"
  pg_restore :: "nat \<Rightarrow> pyval \<Rightarrow> string option"
  pg_files :: "string \<Rightarrow> (string, manifest_file list) result"
  pg_app_version :: string
  pg_import_error :: string

text \<open>
  \<open>pg_tools p k\<close> is the answer of an instance to the \<open>k\<close>-th question for its tools: by the validation,
  by the load, by the snapshot of a reload. The providers of the registry carry the key of their plugin.
  \<open>pg_import_error\<close> is the text of the \<open>ImportError\<close> for a name that \<open>models.py\<close> does not define.
\<close>

definition the_entry :: "'h plugin_manager \<Rightarrow> string \<Rightarrow> plugin_entry" where
  "the_entry m key = the (map_of (mg_records m) key)"

definition upd_entry :: "string \<Rightarrow> (plugin_entry \<Rightarrow> plugin_entry) \<Rightarrow> 'h plugin_manager \<Rightarrow> 'h plugin_manager" where
  "upd_entry key f m = m\<lparr>mg_records := update_entry key f (mg_records m)\<rparr>"

definition set_plugin_state :: "string \<Rightarrow> plugin_state \<Rightarrow> 'h plugin_manager \<Rightarrow> 'h plugin_manager" where
  "set_plugin_state key s m = m\<lparr>mg_records := update_state key s (mg_records m)\<rparr>"

definition emit_plugin :: "string \<Rightarrow> string \<Rightarrow> plugin_state \<Rightarrow> 'h plugin_manager \<Rightarrow> 'h plugin_manager" where
  "emit_plugin event key s m = m\<lparr>mg_events := mg_events m @ [(event, key, s)]\<rparr>"

text \<open>The error of a failure, its state and its event.\<close>

definition fail_plugin :: "string \<Rightarrow> string \<Rightarrow> 'h plugin_manager \<Rightarrow> 'h plugin_manager" where
  "fail_plugin key e m =
     emit_plugin ''failed'' key PLUGIN_FAILED
       (set_plugin_state key PLUGIN_FAILED (m\<lparr>mg_records := note_error key e (mg_records m)\<rparr>))"

definition is_loaded :: "'h plugin_manager \<Rightarrow> string \<Rightarrow> bool" where
  "is_loaded m key = (case map_of (mg_records m) key of None \<Rightarrow> False | Some r \<Rightarrow> is_loaded_state (pl_state r))"

definition resolver_records :: "'h plugin_manager \<Rightarrow> plugin_record list" where
  "resolver_records m = map plugin_record.truncate (list_plugins (mg_records m))"

definition loaded_keys :: "'h plugin_manager \<Rightarrow> string set" where
  "loaded_keys m = set (map (\<lambda>r. manifest_key (pl_manifest r)) (list_loaded (mg_records m)))"

text \<open>\<open>target_key.split("@", 1)[0]\<close>.\<close>

definition key_id :: "string \<Rightarrow> string" where
  "key_id key = fst (partition_at (CHR ''@'') key)"

definition declares_dependency :: "plugin_entry \<Rightarrow> string \<Rightarrow> bool" where
  "declares_dependency r key = list_ex (\<lambda>d. dep_plugin_id d = key_id key) (pm_dependencies (pl_manifest r))"

definition dependent_keys :: "'h plugin_manager \<Rightarrow> string \<Rightarrow> string list" where
  "dependent_keys m key =
     map (\<lambda>r. manifest_key (pl_manifest r))
       (filter (\<lambda>r. manifest_key (pl_manifest r) \<noteq> key \<and> declares_dependency r key) (list_plugins (mg_records m)))"

definition loaded_dependents :: "'h plugin_manager \<Rightarrow> string \<Rightarrow> string list" where
  "loaded_dependents m key = filter (is_loaded m) (dependent_keys m key)"

section \<open>Contributions\<close>

definition build_tool_info :: "plugin_tool \<Rightarrow> tool_info" where
  "build_tool_info t =
     \<lparr>ti_tool_id = ptl_name t, ti_capabilities = ptl_capabilities t, ti_version = None,
      ti_input_schema = ptl_input_schema t, ti_category = ptl_category t,
      ti_permissions = (if ptl_permissions t \<noteq> [] then ptl_permissions t else policy_permissions t),
      ti_supported_actions = ptl_supported_actions t, ti_available = True, ti_policy = ptl_policy t,
      ti_product_domain = None, ti_execution_mode = INTERNAL_ONLY, ti_side_effect_actions = [],
      ti_advertised = False\<rparr>"

text \<open>Each registration stops at the first refusal and keeps what is registered by then.\<close>

fun register_tools ::
  "string \<Rightarrow> tool_contribution list \<Rightarrow> 'h plugin_manager \<Rightarrow> (plugin_exn, string list) result \<times> 'h plugin_manager" where
  "register_tools key [] m = (Inr [], m)"
| "register_tools key (OtherContribution ty # cs) m =
     (Inl (PluginRaised (ty @ '' object has no attribute name'')), m)"
| "register_tools key (ToolContribution t # cs) m =
     (if dict_has (ptl_name t) (mg_tools m)
      then (Inl (PluginLoadError (''Tool id already registered: '' @ ptl_name t)), m)
      else
        (case register_tools key cs (m\<lparr>mg_tools :=
                AList.update (ptl_name t) (PluginToolAdapter key t, build_tool_info t) (mg_tools m)\<rparr>) of
           (Inl e, m') \<Rightarrow> (Inl e, m')
         | (Inr names, m') \<Rightarrow> (Inr ((''tool:'' @ ptl_name t) # names), m')))"

definition provider_name :: "provider_contribution \<Rightarrow> string" where
  "provider_name c = py_lower (case c of ProviderContribution n \<Rightarrow> n | OtherProvider ty \<Rightarrow> ty)"

fun register_providers ::
  "string \<Rightarrow> provider_contribution list \<Rightarrow> 'h plugin_manager \<Rightarrow> (plugin_exn, string list) result \<times> 'h plugin_manager" where
  "register_providers key [] m = (Inr [], m)"
| "register_providers key (c # cs) m =
     (case mg_providers m of
        None \<Rightarrow> (Inr [], m)
      | Some ps \<Rightarrow>
          (if dict_has (provider_name c) ps
           then (Inl (PluginLoadError (''Communication provider already registered: '' @ provider_name c)), m)
           else
             (case register_providers key cs
                     (m\<lparr>mg_providers := Some (AList.update (provider_name c) (Some key) ps)\<rparr>) of
                (Inl e, m') \<Rightarrow> (Inl e, m')
              | (Inr names, m') \<Rightarrow> (Inr ((''provider:'' @ provider_name c) # names), m'))))"

definition tool_providing :: "tool_contribution list \<Rightarrow> string \<Rightarrow> plugin_tool option" where
  "tool_providing cs name = List.find (\<lambda>t. name \<in> set (ptl_capabilities t)) (tools_of cs)"

definition plugin_domain :: "plugin_capability \<Rightarrow> plugin_tool \<Rightarrow> capability_entry" where
  "plugin_domain c t =
     \<lparr>ca_domain = pcp_name c, ca_tool_id = Some (ptl_name t), ca_supported_actions = [], ca_permissions = [],
      ca_availability = INTERNAL_ONLY, ca_side_effect_actions = [], ca_advertised = False\<rparr>"

fun register_domains ::
  "tool_contribution list \<Rightarrow> plugin_capability list \<Rightarrow> 'h plugin_manager \<Rightarrow>
   (plugin_exn, string list) result \<times> 'h plugin_manager" where
  "register_domains tools [] m = (Inr [], m)"
| "register_domains tools (c # cs) m =
     (case tool_providing tools (pcp_name c) of
        None \<Rightarrow>
          (Inl (PluginLoadError (''Declared capability '' @ [CHR 0x27] @ pcp_name c @ [CHR 0x27] @
                  '' is not provided by any contributed tool.'')), m)
      | Some t \<Rightarrow>
          (if is_installed (mg_domains m) (pcp_name c)
           then (Inl (PluginLoadError (''Capability domain already installed: '' @ pcp_name c)), m)
           else
             (case register_domain (plugin_domain c t) (mg_domains m) of
                Inl e \<Rightarrow> (Inl (PluginRaised e), m)
              | Inr ds \<Rightarrow>
                  (case register_domains tools cs (m\<lparr>mg_domains := ds\<rparr>) of
                     (Inl e, m') \<Rightarrow> (Inl e, m')
                   | (Inr names, m') \<Rightarrow> (Inr ((''capability:'' @ pcp_name c) # names), m')))))"

definition register_contributions ::
  "string \<Rightarrow> plugin_manifest \<Rightarrow> tool_contribution list \<Rightarrow> provider_contribution list \<Rightarrow> 'h plugin_manager \<Rightarrow>
   (plugin_exn, string list) result \<times> 'h plugin_manager" where
  "register_contributions key manifest tools providers m =
     (case register_tools key tools m of
        (Inl e, m1) \<Rightarrow> (Inl e, m1)
      | (Inr a, m1) \<Rightarrow>
          (case register_providers key providers m1 of
             (Inl e, m2) \<Rightarrow> (Inl e, m2)
           | (Inr b, m2) \<Rightarrow>
               (case register_domains tools (pm_capabilities manifest) m2 of
                  (Inl e, m3) \<Rightarrow> (Inl e, m3)
                | (Inr c, m3) \<Rightarrow> (Inr (a @ b @ c), m3))))"

definition unregister_contribution :: "string \<Rightarrow> 'h plugin_manager \<Rightarrow> 'h plugin_manager" where
  "unregister_contribution c m =
     (case partition_at (CHR '':'') c of
        (kind, rest) \<Rightarrow>
          (let name = (case rest of Some n \<Rightarrow> n | None \<Rightarrow> [])
           in if kind = ''tool'' then m\<lparr>mg_tools := snd (unregister_tool name (mg_tools m))\<rparr>
              else if kind = ''provider'' then
                m\<lparr>mg_providers := map_option (AList.delete (py_lower name)) (mg_providers m)\<rparr>
              else if kind = ''capability'' then m\<lparr>mg_domains := snd (unregister_domain name (mg_domains m))\<rparr>
              else m))"

definition unregister_contributions :: "string list \<Rightarrow> 'h plugin_manager \<Rightarrow> 'h plugin_manager" where
  "unregister_contributions cs m = fold unregister_contribution (rev cs) m"

section \<open>Loading\<close>

definition plugin_module_of :: "plugin_env \<Rightarrow> plugin_manifest \<Rightarrow> (plugin_exn, nat) result" where
  "plugin_module_of E manifest =
     (case pg_module E (pm_entry manifest) of
        Inl e \<Rightarrow> Inl (PluginRaised e) | Inr mo \<Rightarrow> instantiate_plugin mo manifest)"

definition structural_errors :: "plugin_env \<Rightarrow> plugin_manifest \<Rightarrow> nat \<Rightarrow> string list" where
  "structural_errors E manifest p =
     (case pg_manifest E p of (i, v) \<Rightarrow> validate_plugin (pg_validation E) i v (pg_tools E p 0) manifest)"

definition listed_tools :: "tools_answer \<Rightarrow> (plugin_exn, tool_contribution list) result" where
  "listed_tools a =
     (case a of ToolsRaised e \<Rightarrow> Inl (PluginRaised e) | NotAToolList e \<Rightarrow> Inl (PluginRaised e) | ToolList cs \<Rightarrow> Inr cs)"

definition listed_providers :: "providers_answer \<Rightarrow> (plugin_exn, provider_contribution list) result" where
  "listed_providers a = (case a of ProvidersRaised e \<Rightarrow> Inl (PluginRaised e) | ProviderList cs \<Rightarrow> Inr cs)"

text \<open>The instance with its tools and providers, once they are inside the boundaries.\<close>

definition prepare_plugin ::
  "plugin_env \<Rightarrow> plugin_manifest \<Rightarrow>
   (plugin_exn, nat \<times> tool_contribution list \<times> provider_contribution list) result" where
  "prepare_plugin E manifest =
     res_bind (plugin_module_of E manifest) (\<lambda>p.
       (let errors = structural_errors E manifest p
        in if errors \<noteq> [] then Inl (PluginLoadError (py_join ''; '' errors))
           else
             res_bind (listed_tools (pg_tools E p 1)) (\<lambda>tools.
               res_bind (listed_providers (pg_providers E p)) (\<lambda>providers.
                 res_bind (check_tools (pg_validation E) (map pps_scope (pm_permissions manifest))
                             (map pcp_name (pm_capabilities manifest)) tools) (\<lambda>_.
                   res_bind (check_providers providers) (\<lambda>_. Inr (p, tools, providers)))))))"

definition start_plugin ::
  "plugin_env \<Rightarrow> string \<Rightarrow> plugin_manifest \<Rightarrow> 'h plugin_manager \<Rightarrow>
   (plugin_exn, nat \<times> string list) result \<times> 'h plugin_manager" where
  "start_plugin E key manifest m =
     (case prepare_plugin E manifest of
        Inl e \<Rightarrow> (Inl e, m)
      | Inr (p, tools, providers) \<Rightarrow>
          (case register_contributions key manifest tools providers m of
             (Inl e, m1) \<Rightarrow> (Inl e, m1)
           | (Inr names, m1) \<Rightarrow>
               (case pg_start E p of Some e \<Rightarrow> (Inl (PluginRaised e), m1) | None \<Rightarrow> (Inr (p, names), m1))))"

text \<open>The error of a plugin's own exceptions stays what it was; another exception leaves its text.\<close>

definition load_failed :: "string \<Rightarrow> plugin_exn \<Rightarrow> 'h plugin_manager \<Rightarrow> (plugin_exn, unit) result \<times> 'h plugin_manager" where
  "load_failed key e m =
     (case e of
        PluginRaised text \<Rightarrow> (Inl (PluginLoadError text), fail_plugin key text m)
      | _ \<Rightarrow>
          (Inl e, emit_plugin ''failed'' key PLUGIN_FAILED (set_plugin_state key PLUGIN_FAILED
             (upd_entry key (\<lambda>r. r\<lparr>pl_error := Some (case pl_error r of Some x \<Rightarrow> x
                                                      | None \<Rightarrow> ''Plugin failed to load.'')\<rparr>) m))))"

definition activated_entry :: "plugin_env \<Rightarrow> nat \<Rightarrow> string list \<Rightarrow> plugin_entry \<Rightarrow> plugin_entry" where
  "activated_entry E p names r =
     r\<lparr>pl_contributions := names, pl_plugin := Some p, pl_loaded_at := Some (pg_now E), pl_error := None\<rparr>"

definition load_single ::
  "plugin_env \<Rightarrow> string \<Rightarrow> 'h plugin_manager \<Rightarrow> (plugin_exn, unit) result \<times> 'h plugin_manager" where
  "load_single E key m =
     (let m1 = emit_plugin ''loading'' key LOADING (set_plugin_state key LOADING m)
      in case start_plugin E key (pl_manifest (the_entry m key)) m1 of
           (Inl e, m2) \<Rightarrow> load_failed key e m2
         | (Inr (p, names), m2) \<Rightarrow>
             (Inr (), emit_plugin ''active'' key ACTIVE (set_plugin_state key ACTIVE
                        (upd_entry key (activated_entry E p names) m2))))"

definition dependency_text :: "dependency_error \<Rightarrow> string" where
  "dependency_text e =
     (case e of
        Unresolvable missing \<Rightarrow> ''Unresolvable plugin dependencies: '' @ py_join ''; '' missing
      | Circular ks \<Rightarrow> ''Circular plugin dependency detected involving: '' @ py_join '', '' ks)"

fun load_dependencies ::
  "(string \<Rightarrow> 'h plugin_manager \<Rightarrow> (plugin_exn, unit) result \<times> 'h plugin_manager) \<Rightarrow> bool \<Rightarrow> string \<Rightarrow>
   string list \<Rightarrow> 'h plugin_manager \<Rightarrow> (plugin_exn, unit) result \<times> 'h plugin_manager" where
  "load_dependencies loader auto key [] m = (Inr (), m)"
| "load_dependencies loader auto key (d # ds) m =
     (if is_loaded m d then load_dependencies loader auto key ds m
      else if auto then
        (case loader d m of
           (Inl e, m') \<Rightarrow> (Inl e, m') | (Inr _, m') \<Rightarrow> load_dependencies loader auto key ds m')
      else (Inl (PluginLoadError (''Plugin dependency is not loaded: '' @ d)),
            fail_plugin key (''Plugin dependency is not loaded: '' @ d) m))"

text \<open>Loading calls itself for a dependency; the first argument bounds the depth of these calls.\<close>

primrec load_within ::
  "nat \<Rightarrow> plugin_env \<Rightarrow> bool \<Rightarrow> string \<Rightarrow> 'h plugin_manager \<Rightarrow> (plugin_exn, unit) result \<times> 'h plugin_manager" where
  "load_within 0 E auto key m = (Inl LoadDiverged, m)"
| "load_within (Suc n) E auto key m =
     (case map_of (mg_records m) key of
        None \<Rightarrow> (Inl (PluginLoadError (''Plugin is not registered: '' @ key)), m)
      | Some r \<Rightarrow>
          (if mg_require_enable m \<and> \<not> pl_enabled r
           then (Inl (PluginLoadError (''Plugin is not enabled: '' @ key)), m)
           else if pl_state r \<in> {LOADED, ACTIVE, LOADING} then (Inr (), m)
           else
             (case resolve_dependencies (resolver_records m) key (loaded_keys m) of
                Inl e \<Rightarrow> (Inl (PluginLoadError (dependency_text e)), fail_plugin key (dependency_text e) m)
              | Inr ds \<Rightarrow>
                  (case load_dependencies (load_within n E True) auto key ds m of
                     (Inl e, m') \<Rightarrow> (Inl e, m')
                   | (Inr _, m') \<Rightarrow> load_single E key m'))))"

text \<open>A depth that is enough: after the first dependency, a call follows a plugin that has been loaded.\<close>

definition load_depth :: "'h plugin_manager \<Rightarrow> nat" where
  "load_depth m = length (mg_records m) + 2"

definition load_plugin ::
  "plugin_env \<Rightarrow> bool \<Rightarrow> string \<Rightarrow> 'h plugin_manager \<Rightarrow> (plugin_exn, unit) result \<times> 'h plugin_manager" where
  "load_plugin E auto key m = load_within (load_depth m) E auto key m"

end
