(* ===== verification/Plugin_Lifecycle.thy ===== *)
theory Plugin_Lifecycle
  imports Plugin_Manager
begin

text \<open>
  The other operations of the plugin manager (\<open>app/plugins/manager.py\<close>): unloading and reloading,
  activation, installation, enabling, health, discovery and updates, and the step relation of all of
  them. The unloads that the code starts by \<open>asyncio.run\<close> are taken outside of a running event loop.
\<close>

fun plugin_state_value :: "plugin_state \<Rightarrow> string" where
  "plugin_state_value DISCOVERED = ''discovered''"
| "plugin_state_value REGISTERED = ''registered''"
| "plugin_state_value LOADING = ''loading''"
| "plugin_state_value LOADED = ''loaded''"
| "plugin_state_value ACTIVE = ''active''"
| "plugin_state_value UNLOADING = ''unloading''"
| "plugin_state_value UNLOADED = ''unloaded''"
| "plugin_state_value PLUGIN_DISABLED = ''disabled''"
| "plugin_state_value PLUGIN_FAILED = ''failed''"
| "plugin_state_value INSTALLING = ''installing''"
| "plugin_state_value INSTALLED = ''installed''"
| "plugin_state_value UNINSTALLING = ''uninstalling''"
| "plugin_state_value UNINSTALLED = ''uninstalled''"
| "plugin_state_value ENABLED = ''enabled''"

definition quoted_key :: "string \<Rightarrow> string" where
  "quoted_key s = [CHR 0x27] @ s @ [CHR 0x27]"

definition exn_text :: "plugin_exn \<Rightarrow> string" where
  "exn_text e =
     (case e of PluginLoadError t \<Rightarrow> t | PluginUnloadError t \<Rightarrow> t | PluginIsolationError t \<Rightarrow> t
      | PluginRegistrationError t \<Rightarrow> t | PluginError t \<Rightarrow> t | DiscoveryError t \<Rightarrow> t | PluginRaised t \<Rightarrow> t
      | LoadDiverged \<Rightarrow> [])"

section \<open>Unloading\<close>

text \<open>The names of the tools a record contributed, as the code reads them off the contributions.\<close>

definition contributed_tools :: "plugin_entry \<Rightarrow> string list" where
  "contributed_tools r =
     List.map_filter (\<lambda>c. if py_startswith c ''tool:'' then snd (partition_at (CHR '':'') c) else None)
       (pl_contributions r)"

definition tools_in_use :: "'h plugin_manager \<Rightarrow> plugin_entry \<Rightarrow> string list" where
  "tools_in_use m r = filter (\<lambda>n. n \<in> set (active_tool_ids (mg_activity m))) (contributed_tools r)"

definition in_use_text :: "plugin_env \<Rightarrow> 'h plugin_manager \<Rightarrow> plugin_entry \<Rightarrow> string" where
  "in_use_text E m r =
     ''Cannot unload '' @ quoted_key (manifest_key (pl_manifest r)) @ '': active tasks still use tools '' @
     vp_list (pg_validation E) (sort (tools_in_use m r))"

definition dependents_text :: "plugin_env \<Rightarrow> string \<Rightarrow> string \<Rightarrow> string list \<Rightarrow> string" where
  "dependents_text E what key ks =
     ''Cannot '' @ what @ '' '' @ quoted_key key @ '': loaded dependents '' @
     vp_list (pg_validation E) (sort ks) @ '' still depend on it.''"

definition unloaded_entry :: "plugin_env \<Rightarrow> plugin_entry \<Rightarrow> plugin_entry" where
  "unloaded_entry E r =
     r\<lparr>pl_contributions := [], pl_plugin := None, pl_unloaded_at := Some (pg_now E), pl_error := None\<rparr>"

definition stop_plugin :: "plugin_env \<Rightarrow> plugin_entry \<Rightarrow> string option" where
  "stop_plugin E r = (case pl_plugin r of None \<Rightarrow> None | Some p \<Rightarrow> pg_stop E p)"

definition unload_plugin ::
  "plugin_env \<Rightarrow> string \<Rightarrow> 'h plugin_manager \<Rightarrow> (plugin_exn, unit) result \<times> 'h plugin_manager" where
  "unload_plugin E key m =
     (case map_of (mg_records m) key of
        None \<Rightarrow> (Inl (PluginUnloadError (''Plugin is not registered: '' @ key)), m)
      | Some r \<Rightarrow>
          (if pl_state r = UNLOADED then (Inr (), m)
           else if pl_state r = LOADING then
             (Inl (PluginUnloadError (''Cannot unload a plugin while loading: '' @ key)), m)
           else if loaded_dependents m key \<noteq> [] then
             (Inl (PluginUnloadError (dependents_text E ''unload'' key (loaded_dependents m key))), m)
           else if tools_in_use m r \<noteq> [] then (Inl (PluginUnloadError (in_use_text E m r)), m)
           else
             (let m1 = emit_plugin ''unloading'' key UNLOADING (set_plugin_state key UNLOADING m)
              in case stop_plugin E r of
                   Some e \<Rightarrow> (Inl (PluginUnloadError e), fail_plugin key e m1)
                 | None \<Rightarrow>
                     (Inr (), emit_plugin ''unloaded'' key UNLOADED (set_plugin_state key UNLOADED
                        (upd_entry key (unloaded_entry E)
                           (unregister_contributions (pl_contributions r) m1)))))))"

section \<open>Reloading\<close>

record reload_snapshot =
  sn_plugin :: "nat option"
  sn_tools :: "tool_contribution list"
  sn_providers :: "provider_contribution list"
  sn_state :: plugin_state
  sn_loaded_at :: "pydatetime option"
  sn_data :: "pyval option"
  sn_contributions :: "string list"

definition snapshot_for_reload :: "plugin_env \<Rightarrow> plugin_entry \<Rightarrow> (plugin_exn, reload_snapshot) result" where
  "snapshot_for_reload E r =
     (let taken = (\<lambda>tools providers data.
            \<lparr>sn_plugin = pl_plugin r, sn_tools = tools, sn_providers = providers, sn_state = pl_state r,
             sn_loaded_at = pl_loaded_at r, sn_data = data, sn_contributions = pl_contributions r\<rparr>)
      in case pl_plugin r of
           None \<Rightarrow> Inr (taken [] [] None)
         | Some p \<Rightarrow>
             res_bind (listed_tools (pg_tools E p 2)) (\<lambda>tools.
               res_bind (listed_providers (pg_providers E p)) (\<lambda>providers.
                 case pg_snapshot E p of
                   Inl e \<Rightarrow> Inl (PluginRaised e) | Inr data \<Rightarrow> Inr (taken tools providers data))))"

definition rolled_back_entry :: "reload_snapshot \<Rightarrow> string list \<Rightarrow> plugin_entry \<Rightarrow> plugin_entry" where
  "rolled_back_entry S names r =
     r\<lparr>pl_contributions := names, pl_plugin := sn_plugin S, pl_loaded_at := sn_loaded_at S, pl_error := None\<rparr>"

definition rollback_reload :: "string \<Rightarrow> reload_snapshot \<Rightarrow> 'h plugin_manager \<Rightarrow> 'h plugin_manager" where
  "rollback_reload key S m =
     (case map_of (mg_records m) key of
        None \<Rightarrow> m
      | Some r \<Rightarrow>
          (case register_contributions key (pl_manifest r) (sn_tools S) (sn_providers S)
                  (unregister_contributions (sn_contributions S) m) of
             (Inl e, m') \<Rightarrow> fail_plugin key (''Rollback failed: '' @ exn_text e) m'
           | (Inr names, m') \<Rightarrow>
               emit_plugin ''rollback'' key (sn_state S) (set_plugin_state key (sn_state S)
                 (upd_entry key (rolled_back_entry S names) m'))))"

definition restore_migrated :: "plugin_env \<Rightarrow> plugin_entry \<Rightarrow> pyval option \<Rightarrow> (plugin_exn, unit) result" where
  "restore_migrated E r data =
     (case (data, pl_plugin r) of
        (Some v, Some p) \<Rightarrow> (case pg_restore E p v of Some e \<Rightarrow> Inl (PluginRaised e) | None \<Rightarrow> Inr ())
      | _ \<Rightarrow> Inr ())"

definition swap_plugin ::
  "plugin_env \<Rightarrow> string \<Rightarrow> reload_snapshot \<Rightarrow> 'h plugin_manager \<Rightarrow> (plugin_exn, unit) result \<times> 'h plugin_manager" where
  "swap_plugin E key S m =
     (case unload_plugin E key m of
        (Inl e, m1) \<Rightarrow> (Inl e, m1)
      | (Inr _, m1) \<Rightarrow>
          (case load_plugin E True key m1 of
             (Inl (PluginLoadError e), m2) \<Rightarrow> (Inl (PluginLoadError e), rollback_reload key S m2)
           | (Inl e, m2) \<Rightarrow> (Inl e, m2)
           | (Inr _, m2) \<Rightarrow> (restore_migrated E (the_entry m2 key) (sn_data S), m2)))"

definition reload_plugin ::
  "plugin_env \<Rightarrow> string \<Rightarrow> 'h plugin_manager \<Rightarrow> (plugin_exn, unit) result \<times> 'h plugin_manager" where
  "reload_plugin E key m =
     (case map_of (mg_records m) key of
        None \<Rightarrow> (Inl (PluginLoadError (''Plugin is not registered: '' @ key)), m)
      | Some r \<Rightarrow>
          (if loaded_dependents m key \<noteq> [] then
             (Inl (PluginUnloadError (dependents_text E ''reload'' key (loaded_dependents m key))), m)
           else if is_loaded_state (pl_state r) \<and> tools_in_use m r \<noteq> [] then
             (Inl (PluginUnloadError (in_use_text E m r)), m)
           else
             (case snapshot_for_reload E r of
                Inl e \<Rightarrow> (Inl e, m)
              | Inr S \<Rightarrow> swap_plugin E key S (emit_plugin ''reloading'' key (sn_state S) m))))"

section \<open>Activation\<close>

definition activate_plugin ::
  "plugin_env \<Rightarrow> string \<Rightarrow> 'h plugin_manager \<Rightarrow> (plugin_exn, unit) result \<times> 'h plugin_manager" where
  "activate_plugin E key m =
     (case map_of (mg_records m) key of
        None \<Rightarrow> (Inl (PluginError (''Plugin is not registered: '' @ key)), m)
      | Some r \<Rightarrow>
          (if pl_state r = ACTIVE then (Inr (), m)
           else if pl_state r \<in> {UNLOADED, PLUGIN_FAILED} then load_plugin E True key m
           else if pl_state r \<noteq> LOADED then
             (Inl (PluginError (''Cannot activate plugin in state '' @ plugin_state_value (pl_state r) @ '': '' @ key)), m)
           else
             (case (case pl_plugin r of None \<Rightarrow> None | Some p \<Rightarrow> pg_start E p) of
                Some e \<Rightarrow> (Inl (PluginRaised e), m)
              | None \<Rightarrow> (Inr (), emit_plugin ''activated'' key ACTIVE (set_plugin_state key ACTIVE m)))))"

definition deactivate_plugin ::
  "plugin_env \<Rightarrow> string \<Rightarrow> 'h plugin_manager \<Rightarrow> (plugin_exn, unit) result \<times> 'h plugin_manager" where
  "deactivate_plugin E key m =
     (case map_of (mg_records m) key of
        None \<Rightarrow> (Inl (PluginError (''Plugin is not registered: '' @ key)), m)
      | Some r \<Rightarrow>
          (if pl_state r \<noteq> ACTIVE then (Inr (), m)
           else
             (case stop_plugin E r of
                Some e \<Rightarrow> (Inl (PluginRaised e), m)
              | None \<Rightarrow> (Inr (), emit_plugin ''deactivated'' key LOADED (set_plugin_state key LOADED m)))))"

section \<open>Installation and enabling\<close>

definition installed_entry :: "plugin_env \<Rightarrow> plugin_entry \<Rightarrow> plugin_entry" where
  "installed_entry E r = r\<lparr>pl_installed_at := Some (pg_now E), pl_state := INSTALLED\<rparr>"

definition install_plugin ::
  "plugin_env \<Rightarrow> string \<Rightarrow> 'h plugin_manager \<Rightarrow> (plugin_exn, unit) result \<times> 'h plugin_manager" where
  "install_plugin E key m =
     (case map_of (mg_records m) key of
        None \<Rightarrow> (Inl (PluginError (''Plugin is not registered: '' @ key)), m)
      | Some r \<Rightarrow>
          (if pl_state r \<in> {INSTALLED, ENABLED, LOADED, ACTIVE} then (Inr (), m)
           else (Inr (), emit_plugin ''installed'' key INSTALLED (upd_entry key (installed_entry E) m))))"

text \<open>The unload in front of an uninstall or a disable.\<close>

definition unload_if_loaded ::
  "plugin_env \<Rightarrow> string \<Rightarrow> plugin_entry \<Rightarrow> 'h plugin_manager \<Rightarrow> (plugin_exn, unit) result \<times> 'h plugin_manager" where
  "unload_if_loaded E key r m =
     (if pl_state r \<in> {LOADED, ACTIVE, LOADING} then unload_plugin E key m else (Inr (), m))"

definition uninstalled_entry :: "plugin_env \<Rightarrow> plugin_entry \<Rightarrow> plugin_entry" where
  "uninstalled_entry E r = r\<lparr>pl_uninstalled_at := Some (pg_now E), pl_state := UNINSTALLED\<rparr>"

definition uninstall_plugin ::
  "plugin_env \<Rightarrow> string \<Rightarrow> 'h plugin_manager \<Rightarrow> (plugin_exn, unit) result \<times> 'h plugin_manager" where
  "uninstall_plugin E key m =
     (case map_of (mg_records m) key of
        None \<Rightarrow> (Inl (PluginError (''Plugin is not registered: '' @ key)), m)
      | Some r \<Rightarrow>
          (case unload_if_loaded E key r m of
             (Inl e, m') \<Rightarrow> (Inl e, m')
           | (Inr _, m') \<Rightarrow>
               (Inr (), emit_plugin ''uninstalled'' key UNINSTALLED (upd_entry key (uninstalled_entry E) m'))))"

definition enabled_entry :: "plugin_env \<Rightarrow> plugin_entry \<Rightarrow> plugin_entry" where
  "enabled_entry E r =
     r\<lparr>pl_enabled := True, pl_enabled_at := Some (pg_now E), pl_disabled_at := None, pl_state := ENABLED\<rparr>"

definition enable_plugin ::
  "plugin_env \<Rightarrow> string \<Rightarrow> 'h plugin_manager \<Rightarrow> (plugin_exn, unit) result \<times> 'h plugin_manager" where
  "enable_plugin E key m =
     (case map_of (mg_records m) key of
        None \<Rightarrow> (Inl (PluginError (''Plugin is not registered: '' @ key)), m)
      | Some r \<Rightarrow>
          (if pl_state r \<in> {UNINSTALLED, UNINSTALLING} then
             (Inl (PluginError (''Cannot enable uninstalled plugin: '' @ key)), m)
           else if pl_enabled r then (Inr (), m)
           else (Inr (), emit_plugin ''enabled'' key ENABLED (upd_entry key (enabled_entry E) m))))"

definition disabled_entry :: "plugin_env \<Rightarrow> plugin_entry \<Rightarrow> plugin_entry" where
  "disabled_entry E r =
     r\<lparr>pl_enabled := False, pl_disabled_at := Some (pg_now E), pl_enabled_at := None, pl_state := PLUGIN_DISABLED\<rparr>"

definition disable_plugin ::
  "plugin_env \<Rightarrow> string \<Rightarrow> 'h plugin_manager \<Rightarrow> (plugin_exn, unit) result \<times> 'h plugin_manager" where
  "disable_plugin E key m =
     (case map_of (mg_records m) key of
        None \<Rightarrow> (Inl (PluginError (''Plugin is not registered: '' @ key)), m)
      | Some r \<Rightarrow>
          (if \<not> pl_enabled r then (Inr (), m)
           else
             (case unload_if_loaded E key r m of
                (Inl e, m') \<Rightarrow> (Inl e, m')
              | (Inr _, m') \<Rightarrow>
                  (Inr (), emit_plugin ''disabled'' key PLUGIN_DISABLED (upd_entry key (disabled_entry E) m')))))"

definition is_enabled :: "'h plugin_manager \<Rightarrow> string \<Rightarrow> bool" where
  "is_enabled m key = (case map_of (mg_records m) key of None \<Rightarrow> False | Some r \<Rightarrow> pl_enabled r)"

section \<open>Health\<close>

definition health_error :: "plugin_env \<Rightarrow> plugin_manifest \<Rightarrow> string option" where
  "health_error E manifest =
     (case plugin_module_of E manifest of
        Inl e \<Rightarrow> Some (exn_text e)
      | Inr p \<Rightarrow>
          (let errors = structural_errors E manifest p
           in if errors \<noteq> []
              then Some (''Structural validation failed: '' @ vp_list (pg_validation E) errors) else None))"

definition checked_entry :: "plugin_env \<Rightarrow> plugin_entry \<Rightarrow> plugin_entry" where
  "checked_entry E r =
     r\<lparr>pl_health := (case health_error E (pl_manifest r) of None \<Rightarrow> ''healthy'' | Some _ \<Rightarrow> ''unhealthy''),
       pl_health_details := health_error E (pl_manifest r), pl_health_checked_at := Some (pg_now E)\<rparr>"

definition check_plugin_health ::
  "plugin_env \<Rightarrow> string \<Rightarrow> 'h plugin_manager \<Rightarrow> (plugin_exn, unit) result \<times> 'h plugin_manager" where
  "check_plugin_health E key m =
     (case map_of (mg_records m) key of
        None \<Rightarrow> (Inl (PluginError (''Plugin is not registered: '' @ key)), m)
      | Some r \<Rightarrow> (Inr (), emit_plugin ''health_checked'' key (pl_state r) (upd_entry key (checked_entry E) m)))"

section \<open>Discovery\<close>

fun register_manifests ::
  "plugin_env \<Rightarrow> plugin_manifest list \<Rightarrow> 'h plugin_manager \<Rightarrow> string list \<times> 'h plugin_manager" where
  "register_manifests E [] m = ([], m)"
| "register_manifests E (x # xs) m =
     (if validate_manifest (pg_validation E) x \<noteq> [] then register_manifests E xs m
      else
        (case register_plugin x (mg_records m) of
           Inl _ \<Rightarrow> register_manifests E xs m
         | Inr reg \<Rightarrow>
             (case register_manifests E xs
                     (emit_plugin ''registered'' (manifest_key x) REGISTERED (m\<lparr>mg_records := reg\<rparr>)) of
                (keys, m') \<Rightarrow> (manifest_key x # keys, m'))))"

definition discover_plugins ::
  "plugin_env \<Rightarrow> string \<Rightarrow> 'h plugin_manager \<Rightarrow> (plugin_exn, string list) result \<times> 'h plugin_manager" where
  "discover_plugins E directory m =
     (case pg_files E directory of
        Inl e \<Rightarrow> (Inl (DiscoveryError e), m)
      | Inr fs \<Rightarrow> (case register_manifests E (discover_files [] fs) m of (keys, m') \<Rightarrow> (Inr keys, m')))"

fun discover_in_roots ::
  "plugin_env \<Rightarrow> string list \<Rightarrow> 'h plugin_manager \<Rightarrow> (plugin_exn, string list) result \<times> 'h plugin_manager" where
  "discover_in_roots E [] m = (Inr [], m)"
| "discover_in_roots E (d # ds) m =
     (case discover_plugins E d m of
        (Inl e, m') \<Rightarrow> (Inl e, m')
      | (Inr keys, m') \<Rightarrow>
          (case discover_in_roots E ds m' of
             (Inl e, m'') \<Rightarrow> (Inl e, m'') | (Inr others, m'') \<Rightarrow> (Inr (keys @ others), m'')))"

text \<open>A plugin that fails to load is skipped, any other exception ends the whole.\<close>

fun load_discovered ::
  "plugin_env \<Rightarrow> bool \<Rightarrow> string list \<Rightarrow> 'h plugin_manager \<Rightarrow> (plugin_exn, string list) result \<times> 'h plugin_manager" where
  "load_discovered E auto [] m = (Inr [], m)"
| "load_discovered E auto (k # ks) m =
     (case load_plugin E auto k m of
        (Inl (PluginLoadError _), m') \<Rightarrow> load_discovered E auto ks m'
      | (Inl e, m') \<Rightarrow> (Inl e, m')
      | (Inr _, m') \<Rightarrow>
          (case load_discovered E auto ks m' of
             (Inl e, m'') \<Rightarrow> (Inl e, m'') | (Inr others, m'') \<Rightarrow> (Inr (k # others), m'')))"

definition load_directory ::
  "plugin_env \<Rightarrow> bool \<Rightarrow> string \<Rightarrow> 'h plugin_manager \<Rightarrow> (plugin_exn, string list) result \<times> 'h plugin_manager" where
  "load_directory E auto directory m =
     (case discover_plugins E directory m of
        (Inl e, m') \<Rightarrow> (Inl e, m') | (Inr keys, m') \<Rightarrow> load_discovered E auto keys m')"

text \<open>The module does not import \<open>asyncio\<close>, so that every load ends in a \<open>NameError\<close>, which is caught.\<close>

definition ASYNCIO_MISSING :: string where
  "ASYNCIO_MISSING = ''name '' @ [CHR 0x27] @ ''asyncio'' @ [CHR 0x27] @ '' is not defined''"

definition load_directory_safe ::
  "plugin_env \<Rightarrow> string \<Rightarrow> 'h plugin_manager \<Rightarrow> (plugin_exn, string list) result \<times> 'h plugin_manager" where
  "load_directory_safe E directory m =
     (case discover_plugins E directory m of
        (Inl e, m') \<Rightarrow> (Inl e, m')
      | (Inr keys, m') \<Rightarrow> (Inr [], fold (\<lambda>k. fail_plugin k ASYNCIO_MISSING) keys m'))"

section \<open>Versions and updates\<close>

definition check_compatibility :: "plugin_env \<Rightarrow> string \<Rightarrow> 'h plugin_manager \<Rightarrow> (plugin_exn, bool) result" where
  "check_compatibility E key m =
     (case map_of (mg_records m) key of
        None \<Rightarrow> Inl (PluginError (''Plugin is not registered: '' @ key))
      | Some r \<Rightarrow>
          (case manifest_compatible (pl_manifest r) (pg_app_version E) of
             Inl e \<Rightarrow> Inl (PluginRaised (version_error_text (pg_validation E) e)) | Inr b \<Rightarrow> Inr b))"

text \<open>The supported versions are imported from \<open>models.py\<close>, which does not define them: the import raises.\<close>

definition check_api_version :: "plugin_env \<Rightarrow> string \<Rightarrow> 'h plugin_manager \<Rightarrow> (plugin_exn, bool) result" where
  "check_api_version E key m =
     (case map_of (mg_records m) key of
        None \<Rightarrow> Inl (PluginError (''Plugin is not registered: '' @ key))
      | Some r \<Rightarrow> Inl (PluginRaised (pg_import_error E)))"

definition updated_entry :: "plugin_entry \<Rightarrow> plugin_entry \<Rightarrow> plugin_entry" where
  "updated_entry old r =
     r\<lparr>pl_installed_at := pl_installed_at old, pl_enabled := pl_enabled old, pl_state := pl_state old\<rparr>"

definition switch_manifest ::
  "string \<Rightarrow> plugin_manifest \<Rightarrow> plugin_entry \<Rightarrow> 'h plugin_manager \<Rightarrow> (plugin_exn, unit) result \<times> 'h plugin_manager" where
  "switch_manifest key new old m =
     (case register_plugin new (mg_records m) of
        Inl _ \<Rightarrow> (Inl (PluginLoadError (''Plugin with key '' @ manifest_key new @ '' already exists'')), m)
      | Inr reg \<Rightarrow>
          (Inr (), emit_plugin ''updated'' (manifest_key new) (pl_state old)
             (m\<lparr>mg_records := snd (unregister_plugin key (update_entry (manifest_key new) (updated_entry old) reg))\<rparr>)))"

definition update_plugin ::
  "plugin_env \<Rightarrow> string \<Rightarrow> plugin_manifest \<Rightarrow> 'h plugin_manager \<Rightarrow> (plugin_exn, unit) result \<times> 'h plugin_manager" where
  "update_plugin E key new m =
     (case map_of (mg_records m) key of
        None \<Rightarrow> (Inl (PluginError (''Plugin is not registered: '' @ key)), m)
      | Some old \<Rightarrow>
          (let errors = validate_manifest (pg_validation E) new
           in if errors \<noteq> [] then
                (Inl (PluginLoadError (''New manifest invalid: '' @ vp_list (pg_validation E) errors)), m)
              else
                (case check_compatibility E (manifest_key new) m of
                   Inl e \<Rightarrow> (Inl e, m)
                 | Inr ok \<Rightarrow>
                     (if \<not> ok then
                        (Inl (PluginLoadError (''Plugin '' @ manifest_key new @
                                '' is incompatible with current Samaktha version'')), m)
                      else
                        (case check_api_version E (manifest_key new) m of
                           Inl e \<Rightarrow> (Inl e, m)
                         | Inr supported \<Rightarrow>
                             (if \<not> supported then
                                (Inl (PluginLoadError (''Plugin API version '' @ int_str (pm_api_version new) @
                                        '' is not supported'')), m)
                              else switch_manifest key new old m))))))"

definition migrated_entry :: "(string, pyval) dict \<Rightarrow> plugin_entry \<Rightarrow> plugin_entry" where
  "migrated_entry config r =
     r\<lparr>pl_manifest := (pl_manifest r)\<lparr>pm_metadata := dict_merge (pm_metadata (pl_manifest r)) config\<rparr>\<rparr>"

definition migrate_config ::
  "string \<Rightarrow> (string, pyval) dict \<Rightarrow> 'h plugin_manager \<Rightarrow> (plugin_exn, unit) result \<times> 'h plugin_manager" where
  "migrate_config key config m =
     (case map_of (mg_records m) key of
        None \<Rightarrow> (Inl (PluginError (''Plugin is not registered: '' @ key)), m)
      | Some r \<Rightarrow> (Inr (), emit_plugin ''config_migrated'' key (pl_state r) (upd_entry key (migrated_entry config) m)))"

section \<open>The steps\<close>

text \<open>Every operation with its environment, and the begin and end of a plugin tool's run.\<close>

inductive plugin_step :: "'h plugin_manager \<Rightarrow> 'h plugin_manager \<Rightarrow> bool" where
  plug_discover: "plugin_step m (snd (discover_plugins E directory m))"
| plug_load: "plugin_step m (snd (load_plugin E auto key m))"
| plug_unload: "plugin_step m (snd (unload_plugin E key m))"
| plug_reload: "plugin_step m (snd (reload_plugin E key m))"
| plug_activate: "plugin_step m (snd (activate_plugin E key m))"
| plug_deactivate: "plugin_step m (snd (deactivate_plugin E key m))"
| plug_install: "plugin_step m (snd (install_plugin E key m))"
| plug_uninstall: "plugin_step m (snd (uninstall_plugin E key m))"
| plug_enable: "plugin_step m (snd (enable_plugin E key m))"
| plug_disable: "plugin_step m (snd (disable_plugin E key m))"
| plug_health: "plugin_step m (snd (check_plugin_health E key m))"
| plug_load_directory: "plugin_step m (snd (load_directory E auto directory m))"
| plug_load_safe: "plugin_step m (snd (load_directory_safe E directory m))"
| plug_update: "plugin_step m (snd (update_plugin E key new m))"
| plug_migrate: "plugin_step m (snd (migrate_config key config m))"
| plug_begin: "plugin_step m (m\<lparr>mg_activity := begin_activity i (mg_activity m)\<rparr>)"
| plug_end: "plugin_step m (m\<lparr>mg_activity := end_activity i (mg_activity m)\<rparr>)"

definition fresh_manager ::
  "'h tool_registry \<Rightarrow> (string, string option) dict option \<Rightarrow> domain_registry \<Rightarrow> bool \<Rightarrow> 'h plugin_manager" where
  "fresh_manager tools providers domains require_enable =
     \<lparr>mg_records = [], mg_tools = map (\<lambda>(n, t, info). (n, HostTool t, info)) tools, mg_providers = providers,
      mg_domains = domains, mg_activity = [], mg_require_enable = require_enable, mg_events = []\<rparr>"

definition plugin_reachable :: "'h plugin_manager \<Rightarrow> 'h plugin_manager \<Rightarrow> bool" where
  "plugin_reachable m m' = plugin_step\<^sup>*\<^sup>* m m'"

end
