(* ===== verification/Plugin_Invariants.thy ===== *)
theory Plugin_Invariants
  imports Plugin_Lifecycle
begin

text \<open>
  What the operations of the plugin manager keep: the tools, providers and domains of the host, the
  identity of the records, that only enabled plugins are loaded; what loading and unloading come to;
  and that loading ends.
\<close>

section \<open>Fields\<close>

lemma map_of_update_entry:
  "map_of (update_entry key f reg) k = (if k = key then map_option f (map_of reg key) else map_of reg k)"
  by (auto simp: update_entry_def split: option.splits)

lemma update_entry_keys [simp]: "map fst (update_entry key f reg) = map fst reg"
proof (cases "map_of reg key")
  case (Some r)
  then have "key \<in> fst ` set reg" by (metis map_of_eq_None_iff option.distinct(1))
  then show ?thesis by (simp add: update_entry_def Some update_keys image_iff)
qed (simp add: update_entry_def)

lemma upd_entry_fields [simp]:
  "mg_tools (upd_entry key f m) = mg_tools m"
  "mg_providers (upd_entry key f m) = mg_providers m"
  "mg_domains (upd_entry key f m) = mg_domains m"
  "mg_activity (upd_entry key f m) = mg_activity m"
  "mg_require_enable (upd_entry key f m) = mg_require_enable m"
  "map fst (mg_records (upd_entry key f m)) = map fst (mg_records m)"
  by (simp_all add: upd_entry_def)

lemma map_of_upd_entry [simp]:
  "map_of (mg_records (upd_entry key f m)) k =
     (if k = key then map_option f (map_of (mg_records m) key) else map_of (mg_records m) k)"
  by (simp add: upd_entry_def map_of_update_entry)

lemma set_state_upd: "set_plugin_state key s m = upd_entry key (\<lambda>r. r\<lparr>pl_state := s\<rparr>) m"
  by (simp add: set_plugin_state_def upd_entry_def update_state_def)

lemma emit_fields [simp]:
  "mg_tools (emit_plugin e key s m) = mg_tools m"
  "mg_providers (emit_plugin e key s m) = mg_providers m"
  "mg_domains (emit_plugin e key s m) = mg_domains m"
  "mg_activity (emit_plugin e key s m) = mg_activity m"
  "mg_require_enable (emit_plugin e key s m) = mg_require_enable m"
  "mg_records (emit_plugin e key s m) = mg_records m"
  by (simp_all add: emit_plugin_def)

definition failed_entry :: "string \<Rightarrow> plugin_entry \<Rightarrow> plugin_entry" where
  "failed_entry e r = r\<lparr>pl_error := Some e, pl_state := PLUGIN_FAILED\<rparr>"

lemma fail_plugin_upd: "fail_plugin key e m = emit_plugin ''failed'' key PLUGIN_FAILED (upd_entry key (failed_entry e) m)"
proof -
  have "update_entry key f (update_entry key g reg) = update_entry key (\<lambda>r. f (g r)) reg" for f g reg
    by (cases "map_of reg key") (simp_all add: update_entry_def update_last)
  then show ?thesis
    by (simp add: fail_plugin_def set_plugin_state_def upd_entry_def update_state_def note_error_def
        failed_entry_def [abs_def])
qed

lemma entry_fields [simp]:
  "pl_manifest (failed_entry e r) = pl_manifest r" "pl_state (failed_entry e r) = PLUGIN_FAILED"
  "pl_enabled (failed_entry e r) = pl_enabled r" "pl_contributions (failed_entry e r) = pl_contributions r"
  "pl_plugin (failed_entry e r) = pl_plugin r" "pl_error (failed_entry e r) = Some e"
  by (simp_all add: failed_entry_def)

section \<open>Loading keeps the plugins\<close>

text \<open>The records keep their order, manifests and permissions to run; what is loaded stays loaded.\<close>

definition same_plugins :: "'h plugin_manager \<Rightarrow> 'h plugin_manager \<Rightarrow> bool" where
  "same_plugins m m' \<longleftrightarrow>
     map fst (mg_records m') = map fst (mg_records m) \<and> mg_require_enable m' = mg_require_enable m \<and>
     mg_activity m' = mg_activity m \<and>
     (\<forall>key r. map_of (mg_records m) key = Some r \<longrightarrow>
        (\<exists>r'. map_of (mg_records m') key = Some r' \<and> pl_manifest r' = pl_manifest r \<and> pl_enabled r' = pl_enabled r))"

lemma same_plugins_refl [simp]: "same_plugins m m"
  by (simp add: same_plugins_def)

lemma same_plugins_trans: "same_plugins a b \<Longrightarrow> same_plugins b c \<Longrightarrow> same_plugins a c"
  unfolding same_plugins_def by (metis (no_types, lifting))

lemma same_records: "mg_records m' = mg_records m \<Longrightarrow> mg_require_enable m' = mg_require_enable m \<Longrightarrow>
    mg_activity m' = mg_activity m \<Longrightarrow> same_plugins m m'"
  by (simp add: same_plugins_def)

lemma same_upd_entry:
  "(\<And>r. pl_manifest (f r) = pl_manifest r) \<Longrightarrow> (\<And>r. pl_enabled (f r) = pl_enabled r) \<Longrightarrow>
     same_plugins m (upd_entry key f m)"
  by (auto simp: same_plugins_def)

lemma same_emit [simp]: "same_plugins m (emit_plugin e key s m') \<longleftrightarrow> same_plugins m m'"
  by (simp add: same_plugins_def)

lemma same_fail: "same_plugins m (fail_plugin key e m)"
  by (simp add: fail_plugin_upd same_upd_entry)

lemma same_set_state: "same_plugins m (set_plugin_state key s m)"
  by (simp add: set_state_upd same_upd_entry)

text \<open>Registration does not touch the records.\<close>

lemma register_tools_records:
  "mg_records (snd (register_tools key cs m)) = mg_records m \<and>
   mg_providers (snd (register_tools key cs m)) = mg_providers m \<and>
   mg_domains (snd (register_tools key cs m)) = mg_domains m \<and>
   mg_activity (snd (register_tools key cs m)) = mg_activity m \<and>
   mg_require_enable (snd (register_tools key cs m)) = mg_require_enable m"
proof (induction key cs m rule: register_tools.induct)
  case (3 key t cs m)
  then show ?case by (auto split: sum.split prod.split)
qed simp_all

lemma register_providers_records:
  "mg_records (snd (register_providers key cs m)) = mg_records m \<and>
   mg_tools (snd (register_providers key cs m)) = mg_tools m \<and>
   mg_domains (snd (register_providers key cs m)) = mg_domains m \<and>
   mg_activity (snd (register_providers key cs m)) = mg_activity m \<and>
   mg_require_enable (snd (register_providers key cs m)) = mg_require_enable m"
proof (induction key cs m rule: register_providers.induct)
  case (2 key c cs m)
  then show ?case by (auto split: sum.split prod.split option.split)
qed simp_all

lemma register_domains_records:
  "mg_records (snd (register_domains tools cs m)) = mg_records m \<and>
   mg_tools (snd (register_domains tools cs m)) = mg_tools m \<and>
   mg_providers (snd (register_domains tools cs m)) = mg_providers m \<and>
   mg_activity (snd (register_domains tools cs m)) = mg_activity m \<and>
   mg_require_enable (snd (register_domains tools cs m)) = mg_require_enable m"
proof (induction tools cs m rule: register_domains.induct)
  case (2 tools c cs m)
  consider "tool_providing tools (pcp_name c) = None" | t where "tool_providing tools (pcp_name c) = Some t"
      "is_installed (mg_domains m) (pcp_name c)"
    | t e where "tool_providing tools (pcp_name c) = Some t" "\<not> is_installed (mg_domains m) (pcp_name c)"
        "register_domain (plugin_domain c t) (mg_domains m) = Inl e"
    | t ds where "tool_providing tools (pcp_name c) = Some t" "\<not> is_installed (mg_domains m) (pcp_name c)"
        "register_domain (plugin_domain c t) (mg_domains m) = Inr ds"
    by (metis option.exhaust sum.exhaust)
  then show ?case
  proof cases
    case 4
    with "2.IH" [OF 4] show ?thesis by (simp split: sum.split prod.split) (metis snd_conv)
  qed simp_all
qed simp_all

lemma register_kept:
  "register_tools key cs m = (r, m') \<Longrightarrow> mg_records m' = mg_records m \<and> mg_activity m' = mg_activity m \<and>
     mg_require_enable m' = mg_require_enable m"
  "register_providers key ps m = (r, m') \<Longrightarrow> mg_records m' = mg_records m \<and> mg_activity m' = mg_activity m \<and>
     mg_require_enable m' = mg_require_enable m"
  "register_domains cs ds m = (r, m') \<Longrightarrow> mg_records m' = mg_records m \<and> mg_activity m' = mg_activity m \<and>
     mg_require_enable m' = mg_require_enable m"
  using register_tools_records [of key cs m] register_providers_records [of key ps m]
    register_domains_records [of cs ds m] by simp_all

lemma register_contributions_kept:
  "register_contributions key manifest tools providers m = (r, m') \<Longrightarrow> mg_records m' = mg_records m \<and>
     mg_activity m' = mg_activity m \<and> mg_require_enable m' = mg_require_enable m"
  by (auto simp: register_contributions_def dest!: register_kept split: sum.splits prod.splits)

lemma start_plugin_kept:
  "start_plugin E key manifest m = (r, m') \<Longrightarrow> mg_records m' = mg_records m \<and>
     mg_activity m' = mg_activity m \<and> mg_require_enable m' = mg_require_enable m"
  by (auto simp: start_plugin_def dest!: register_contributions_kept split: sum.splits prod.splits option.splits)

lemma start_plugin_same: "start_plugin E key manifest m = (r, m') \<Longrightarrow> same_plugins m m'"
  by (simp add: start_plugin_kept same_records)

definition refused_entry :: "plugin_entry \<Rightarrow> plugin_entry" where
  "refused_entry r = r\<lparr>pl_error := Some (case pl_error r of Some x \<Rightarrow> x | None \<Rightarrow> ''Plugin failed to load.''),
     pl_state := PLUGIN_FAILED\<rparr>"

lemma refused_fields [simp]:
  "pl_manifest (refused_entry r) = pl_manifest r" "pl_state (refused_entry r) = PLUGIN_FAILED"
  "pl_enabled (refused_entry r) = pl_enabled r" "pl_contributions (refused_entry r) = pl_contributions r"
  "pl_plugin (refused_entry r) = pl_plugin r"
  by (simp_all add: refused_entry_def)

lemma upd_entry_twice: "upd_entry key f (upd_entry key g m) = upd_entry key (\<lambda>r. f (g r)) m"
  by (cases "map_of (mg_records m) key") (simp_all add: upd_entry_def update_entry_def)

text \<open>A failed load: the same change of the record whatever was raised.\<close>

lemma load_failed_cases:
  obtains f where "snd (load_failed key e m) = emit_plugin ''failed'' key PLUGIN_FAILED (upd_entry key f m)"
    "\<And>r. pl_manifest (f r) = pl_manifest r" "\<And>r. pl_state (f r) = PLUGIN_FAILED"
    "\<And>r. pl_enabled (f r) = pl_enabled r" "\<And>r. pl_contributions (f r) = pl_contributions r"
    "\<And>r. pl_plugin (f r) = pl_plugin r"
proof (cases "\<exists>t. e = PluginRaised t")
  case True
  then obtain t where "snd (load_failed key e m) = emit_plugin ''failed'' key PLUGIN_FAILED (upd_entry key (failed_entry t) m)"
    by (auto simp: load_failed_def fail_plugin_upd)
  then show ?thesis by (rule that) simp_all
next
  case False
  then have "snd (load_failed key e m) = emit_plugin ''failed'' key PLUGIN_FAILED (upd_entry key refused_entry m)"
    by (cases e) (simp_all add: load_failed_def set_state_upd upd_entry_twice refused_entry_def [abs_def])
  then show ?thesis by (rule that) simp_all
qed

lemma load_failed_raises: "\<exists>e'. fst (load_failed key e m) = Inl e'"
  by (cases e) (simp_all add: load_failed_def)

section \<open>The registries of the host\<close>

text \<open>A contribution that names nothing of the host: removing it leaves the host's registries alone.\<close>

definition foreign :: "'h plugin_manager \<Rightarrow> string \<Rightarrow> bool" where
  "foreign m0 c \<longleftrightarrow>
     (case partition_at (CHR '':'') c of
        (kind, rest) \<Rightarrow>
          (let name = (case rest of Some n \<Rightarrow> n | None \<Rightarrow> [])
           in (kind = ''tool'' \<longrightarrow> \<not> dict_has name (mg_tools m0)) \<and>
              (kind = ''provider'' \<longrightarrow> (\<forall>ps. mg_providers m0 = Some ps \<longrightarrow> \<not> dict_has (py_lower name) ps)) \<and>
              (kind = ''capability'' \<longrightarrow> \<not> dict_has (py_lower name) (mg_domains m0))))"

definition extends_dict :: "('k, 'v) dict \<Rightarrow> ('k, 'v) dict \<Rightarrow> bool" where
  "extends_dict d0 d \<longleftrightarrow> (\<forall>k v. map_of d0 k = Some v \<longrightarrow> map_of d k = Some v)"

definition extends_providers :: "('k, 'v) dict option \<Rightarrow> ('k, 'v) dict option \<Rightarrow> bool" where
  "extends_providers d0 d \<longleftrightarrow>
     (case (d0, d) of (None, None) \<Rightarrow> True | (Some a, Some b) \<Rightarrow> extends_dict a b | _ \<Rightarrow> False)"

definition host_kept :: "'h plugin_manager \<Rightarrow> 'h plugin_manager \<Rightarrow> bool" where
  "host_kept m0 m \<longleftrightarrow> extends_dict (mg_tools m0) (mg_tools m) \<and> extends_dict (mg_domains m0) (mg_domains m) \<and>
     extends_providers (mg_providers m0) (mg_providers m)"

text \<open>Every other tool is the adapter of a registered plugin's tool, under the name of the tool.\<close>

definition adapters :: "'h plugin_manager \<Rightarrow> 'h plugin_manager \<Rightarrow> bool" where
  "adapters m0 m \<longleftrightarrow>
     (\<forall>n t info. map_of (mg_tools m) n = Some (t, info) \<longrightarrow> dict_has n (mg_tools m0) \<or>
        (\<exists>key tool. t = PluginToolAdapter key tool \<and> ptl_name tool = n \<and> info = build_tool_info tool \<and>
           dict_has key (mg_records m)))"

definition registries_ok :: "'h plugin_manager \<Rightarrow> 'h plugin_manager \<Rightarrow> bool" where
  "registries_ok m0 m \<longleftrightarrow> host_kept m0 m \<and> adapters m0 m"

lemma extends_update: "extends_dict d0 d \<Longrightarrow> \<not> dict_has k d0 \<Longrightarrow> extends_dict d0 (AList.update k v d)"
  by (auto simp: extends_dict_def dict_has_iff)

lemma extends_delete: "extends_dict d0 d \<Longrightarrow> \<not> dict_has k d0 \<Longrightarrow> extends_dict d0 (AList.delete k d)"
  by (auto simp: extends_dict_def dict_has_iff)

lemma extends_fresh: "extends_dict d0 d \<Longrightarrow> \<not> dict_has k d \<Longrightarrow> \<not> dict_has k d0"
  unfolding extends_dict_def dict_has_iff by (metis option.exhaust option.distinct(1))

lemma dict_has_fst: "dict_has k d \<longleftrightarrow> k \<in> set (map fst d)"
  by (metis dict_has_iff map_of_eq_None_iff list.set_map)

lemma registries_ok_cong:
  assumes "mg_tools m' = mg_tools m" "mg_domains m' = mg_domains m" "mg_providers m' = mg_providers m"
    "map fst (mg_records m') = map fst (mg_records m)"
  shows "registries_ok m0 m' \<longleftrightarrow> registries_ok m0 m"
  using assms by (simp add: registries_ok_def host_kept_def adapters_def dict_has_fst)

lemma registries_upd [simp]: "registries_ok m0 (upd_entry key f m) \<longleftrightarrow> registries_ok m0 m"
  by (rule registries_ok_cong) simp_all

lemma registries_emit [simp]: "registries_ok m0 (emit_plugin e key s m) \<longleftrightarrow> registries_ok m0 m"
  by (rule registries_ok_cong) simp_all

lemma partition_kind:
  "partition_at (CHR '':'') (''tool:'' @ n) = (''tool'', Some n)"
  "partition_at (CHR '':'') (''provider:'' @ n) = (''provider'', Some n)"
  "partition_at (CHR '':'') (''capability:'' @ n) = (''capability'', Some n)"
  by simp_all

lemma foreign_kinds:
  "foreign m0 (''tool:'' @ n) \<longleftrightarrow> \<not> dict_has n (mg_tools m0)"
  "foreign m0 (''provider:'' @ n) \<longleftrightarrow> (\<forall>ps. mg_providers m0 = Some ps \<longrightarrow> \<not> dict_has (py_lower n) ps)"
  "foreign m0 (''capability:'' @ n) \<longleftrightarrow> \<not> dict_has (py_lower n) (mg_domains m0)"
  by (simp_all add: foreign_def)

lemma register_tools_ok:
  assumes "registries_ok m0 m" "dict_has key (mg_records m)" "register_tools key cs m = (r, m')"
  shows "registries_ok m0 m' \<and> (\<forall>names. r = Inr names \<longrightarrow> (\<forall>c\<in>set names. foreign m0 c))"
  using assms
proof (induction key cs m arbitrary: r m' rule: register_tools.induct)
  case (3 key t cs m)
  show ?case
  proof (cases "dict_has (ptl_name t) (mg_tools m)")
    case False
    let ?m = "m\<lparr>mg_tools := AList.update (ptl_name t) (PluginToolAdapter key t, build_tool_info t) (mg_tools m)\<rparr>"
    have new: "\<not> dict_has (ptl_name t) (mg_tools m0)"
      using extends_fresh "3.prems"(1) False by (metis host_kept_def registries_ok_def)
    have "registries_ok m0 ?m"
      using "3.prems"(1,2) extends_update [OF _ new] by (auto simp: registries_ok_def host_kept_def adapters_def)
    moreover obtain x where "register_tools key cs ?m = (x, m')" and
      x: "r = (case x of Inl e \<Rightarrow> Inl e | Inr names \<Rightarrow> Inr ((''tool:'' @ ptl_name t) # names))"
      using "3.prems"(3) False by (auto split: prod.splits sum.splits)
    ultimately have "registries_ok m0 m' \<and> (\<forall>names. x = Inr names \<longrightarrow> (\<forall>c\<in>set names. foreign m0 c))"
      using "3.IH" [OF False] "3.prems"(2) by simp
    with x new show ?thesis by (auto simp: foreign_kinds simp del: append.simps split: sum.splits)
  qed (use "3.prems" in auto)
qed auto

lemma register_providers_ok:
  assumes "registries_ok m0 m" "register_providers key cs m = (r, m')"
  shows "registries_ok m0 m' \<and> (\<forall>names. r = Inr names \<longrightarrow> (\<forall>c\<in>set names. foreign m0 c))"
  using assms
proof (induction key cs m arbitrary: r m' rule: register_providers.induct)
  case (2 key c cs m)
  consider "mg_providers m = None" | ps where "mg_providers m = Some ps" "dict_has (provider_name c) ps"
    | ps where "mg_providers m = Some ps" "\<not> dict_has (provider_name c) ps" by blast
  then show ?case
  proof cases
    case (3 ps)
    let ?m = "m\<lparr>mg_providers := Some (AList.update (provider_name c) (Some key) ps)\<rparr>"
    have new: "\<not> dict_has (provider_name c) p0" if "mg_providers m0 = Some p0" for p0
    proof (rule extends_fresh)
      show "extends_dict p0 ps" using "2.prems"(1) 3 that by (simp add: host_kept_def registries_ok_def extends_providers_def)
    qed (rule 3(2))
    have "registries_ok m0 ?m"
      using "2.prems"(1) 3 extends_update new
      by (auto simp: registries_ok_def host_kept_def adapters_def extends_providers_def split: option.splits)
    moreover obtain x where "register_providers key cs ?m = (x, m')" and
      x: "r = (case x of Inl e \<Rightarrow> Inl e | Inr names \<Rightarrow> Inr ((''provider:'' @ provider_name c) # names))"
      using "2.prems"(2) 3 by (auto split: prod.splits sum.splits)
    ultimately have "registries_ok m0 m' \<and> (\<forall>names. x = Inr names \<longrightarrow> (\<forall>c\<in>set names. foreign m0 c))"
      using "2.IH" [OF 3] by simp
    moreover have "foreign m0 (''provider:'' @ provider_name c)"
      using new by (simp add: foreign_kinds provider_name_def del: append.simps)
    ultimately show ?thesis using x by (auto simp del: append.simps split: sum.splits)
  qed (use "2.prems" in auto)
qed auto

lemma register_domain_Inr:
  "register_domain e ds = Inr ds' \<Longrightarrow> \<not> dict_has (py_lower (ca_domain e)) ds \<and> ds' = AList.update (py_lower (ca_domain e)) e ds"
  by (auto simp: register_domain_def split: if_splits)

lemma register_domains_ok:
  assumes "registries_ok m0 m" "register_domains tools cs m = (r, m')"
  shows "registries_ok m0 m' \<and> (\<forall>names. r = Inr names \<longrightarrow> (\<forall>c\<in>set names. foreign m0 c))"
  using assms
proof (induction tools cs m arbitrary: r m' rule: register_domains.induct)
  case (2 tools c cs m)
  consider "tool_providing tools (pcp_name c) = None" | t where "tool_providing tools (pcp_name c) = Some t"
      "is_installed (mg_domains m) (pcp_name c)"
    | t e where "tool_providing tools (pcp_name c) = Some t" "\<not> is_installed (mg_domains m) (pcp_name c)"
        "register_domain (plugin_domain c t) (mg_domains m) = Inl e"
    | t ds where "tool_providing tools (pcp_name c) = Some t" "\<not> is_installed (mg_domains m) (pcp_name c)"
        "register_domain (plugin_domain c t) (mg_domains m) = Inr ds"
    by (metis option.exhaust sum.exhaust)
  then show ?case
  proof cases
    case (4 t ds)
    have ds: "\<not> dict_has (py_lower (pcp_name c)) (mg_domains m)"
        "ds = AList.update (py_lower (pcp_name c)) (plugin_domain c t) (mg_domains m)"
      using register_domain_Inr [OF 4(3)] by (simp_all add: plugin_domain_def)
    then have new: "\<not> dict_has (py_lower (pcp_name c)) (mg_domains m0)"
      using extends_fresh "2.prems"(1) by (metis host_kept_def registries_ok_def)
    have "registries_ok m0 (m\<lparr>mg_domains := ds\<rparr>)"
      using "2.prems"(1) extends_update [OF _ new] ds(2) by (auto simp: registries_ok_def host_kept_def adapters_def)
    moreover obtain x where "register_domains tools cs (m\<lparr>mg_domains := ds\<rparr>) = (x, m')" and
      x: "r = (case x of Inl e \<Rightarrow> Inl e | Inr names \<Rightarrow> Inr ((''capability:'' @ pcp_name c) # names))"
      using "2.prems"(2) 4 by (auto split: prod.splits sum.splits)
    ultimately have "registries_ok m0 m' \<and> (\<forall>names. x = Inr names \<longrightarrow> (\<forall>c\<in>set names. foreign m0 c))"
      using "2.IH" [OF 4] by simp
    with x new show ?thesis by (auto simp: foreign_kinds simp del: append.simps split: sum.splits)
  qed (use "2.prems" in auto)
qed auto

lemma register_contributions_ok:
  assumes "registries_ok m0 m" "dict_has key (mg_records m)"
    "register_contributions key manifest tools providers m = (r, m')"
  shows "registries_ok m0 m' \<and> (\<forall>names. r = Inr names \<longrightarrow> (\<forall>c\<in>set names. foreign m0 c))"
proof -
  obtain a m1 where 1: "register_tools key tools m = (a, m1)" by (metis prod.exhaust)
  obtain b m2 where 2: "register_providers key providers m1 = (b, m2)" by (metis prod.exhaust)
  obtain c m3 where 3: "register_domains tools (pm_capabilities manifest) m2 = (c, m3)" by (metis prod.exhaust)
  note o1 = register_tools_ok [OF assms(1,2) 1]
  then have o2: "registries_ok m0 m2 \<and> (\<forall>names. b = Inr names \<longrightarrow> (\<forall>c\<in>set names. foreign m0 c))"
    using register_providers_ok [OF _ 2] by blast
  then have o3: "registries_ok m0 m3 \<and> (\<forall>names. c = Inr names \<longrightarrow> (\<forall>c\<in>set names. foreign m0 c))"
    using register_domains_ok [OF _ 3] by blast
  from o1 o2 o3 show ?thesis
    using assms(3) by (auto simp: register_contributions_def 1 2 3 split: sum.splits)
qed

lemma start_plugin_ok:
  assumes "registries_ok m0 m" "dict_has key (mg_records m)" "start_plugin E key manifest m = (r, m')"
  shows "registries_ok m0 m' \<and> (\<forall>p names. r = Inr (p, names) \<longrightarrow> (\<forall>c\<in>set names. foreign m0 c))"
proof (cases "prepare_plugin E manifest")
  case (Inl e)
  with assms show ?thesis by (auto simp: start_plugin_def)
next
  case (Inr x)
  obtain p tools providers where x: "x = (p, tools, providers)" by (cases x) auto
  obtain a m1 where a: "register_contributions key manifest tools providers m = (a, m1)" by (metis prod.exhaust)
  from register_contributions_ok [OF assms(1,2) a] assms(3) show ?thesis
    by (auto simp: start_plugin_def Inr x a split: sum.splits option.splits)
qed

lemma unregister_contribution_ok:
  assumes "registries_ok m0 m" "foreign m0 c"
  shows "registries_ok m0 (unregister_contribution c m)"
proof -
  obtain kind rest where p: "partition_at (CHR '':'') c = (kind, rest)" by (metis prod.exhaust)
  let ?n = "case rest of Some n \<Rightarrow> n | None \<Rightarrow> []"
  consider "kind = ''tool''" | "kind = ''provider''" | "kind = ''capability''" | "kind \<notin> {''tool'', ''provider'', ''capability''}"
    by blast
  then show ?thesis
  proof cases
    case 1
    with assms(2) p have "\<not> dict_has ?n (mg_tools m0)" by (simp add: foreign_def)
    with assms(1) extends_delete p 1 show ?thesis
      by (auto simp: unregister_contribution_def registries_ok_def host_kept_def adapters_def unregister_tool_def Let_def)
  next
    case 2
    with assms(2) p have "mg_providers m0 = Some ps \<Longrightarrow> \<not> dict_has (py_lower ?n) ps" for ps by (simp add: foreign_def)
    with assms(1) extends_delete p 2 show ?thesis
      by (auto simp: unregister_contribution_def registries_ok_def host_kept_def adapters_def extends_providers_def
          Let_def split: option.splits)
  next
    case 3
    with assms(2) p have "\<not> dict_has (py_lower ?n) (mg_domains m0)" by (simp add: foreign_def)
    with assms(1) extends_delete p 3 show ?thesis
      by (auto simp: unregister_contribution_def registries_ok_def host_kept_def adapters_def unregister_domain_def Let_def)
  next
    case 4
    with assms(1) p show ?thesis by (simp add: unregister_contribution_def)
  qed
qed

lemma unregister_contribution_fields [simp]:
  "mg_records (unregister_contribution c m) = mg_records m"
  "mg_activity (unregister_contribution c m) = mg_activity m"
  "mg_require_enable (unregister_contribution c m) = mg_require_enable m"
  by (simp_all add: unregister_contribution_def Let_def split: prod.split)

lemma unregister_contributions_fields [simp]:
  "mg_records (unregister_contributions cs m) = mg_records m"
  "mg_activity (unregister_contributions cs m) = mg_activity m"
  "mg_require_enable (unregister_contributions cs m) = mg_require_enable m"
proof -
  have "mg_records (fold unregister_contribution xs m) = mg_records m \<and>
      mg_activity (fold unregister_contribution xs m) = mg_activity m \<and>
      mg_require_enable (fold unregister_contribution xs m) = mg_require_enable m" for xs
    by (induction xs arbitrary: m) simp_all
  then show "mg_records (unregister_contributions cs m) = mg_records m"
    "mg_activity (unregister_contributions cs m) = mg_activity m"
    "mg_require_enable (unregister_contributions cs m) = mg_require_enable m"
    by (simp_all add: unregister_contributions_def)
qed

lemma unregister_contributions_ok:
  assumes "registries_ok m0 m" "\<forall>c\<in>set cs. foreign m0 c"
  shows "registries_ok m0 (unregister_contributions cs m)"
proof -
  have "registries_ok m0 (fold unregister_contribution xs m)" if "\<forall>c\<in>set xs. foreign m0 c" for xs
    using assms(1) that by (induction xs arbitrary: m) (simp_all add: unregister_contribution_ok)
  with assms(2) show ?thesis by (simp add: unregister_contributions_def)
qed

section \<open>One load\<close>

definition loading_manager :: "string \<Rightarrow> 'h plugin_manager \<Rightarrow> 'h plugin_manager" where
  "loading_manager key m = emit_plugin ''loading'' key LOADING (upd_entry key (\<lambda>r. r\<lparr>pl_state := LOADING\<rparr>) m)"

lemma loading_fields [simp]:
  "mg_tools (loading_manager key m) = mg_tools m" "mg_providers (loading_manager key m) = mg_providers m"
  "mg_domains (loading_manager key m) = mg_domains m" "mg_activity (loading_manager key m) = mg_activity m"
  "mg_require_enable (loading_manager key m) = mg_require_enable m"
  "map fst (mg_records (loading_manager key m)) = map fst (mg_records m)"
  "registries_ok m0 (loading_manager key m) \<longleftrightarrow> registries_ok m0 m"
  "map_of (mg_records (loading_manager key m)) k =
     (if k = key then map_option (\<lambda>r. r\<lparr>pl_state := LOADING\<rparr>) (map_of (mg_records m) key) else map_of (mg_records m) k)"
  by (simp_all add: loading_manager_def)

definition active_entry :: "plugin_env \<Rightarrow> nat \<Rightarrow> string list \<Rightarrow> plugin_entry \<Rightarrow> plugin_entry" where
  "active_entry E p names r = (activated_entry E p names r)\<lparr>pl_state := ACTIVE\<rparr>"

lemma active_entry_fields [simp]:
  "pl_manifest (active_entry E p names r) = pl_manifest r" "pl_state (active_entry E p names r) = ACTIVE"
  "pl_enabled (active_entry E p names r) = pl_enabled r" "pl_contributions (active_entry E p names r) = names"
  "pl_plugin (active_entry E p names r) = Some p" "pl_error (active_entry E p names r) = None"
  by (simp_all add: active_entry_def activated_entry_def)

lemma load_single_eq:
  "load_single E key m =
     (case start_plugin E key (pl_manifest (the_entry m key)) (loading_manager key m) of
        (Inl e, m2) \<Rightarrow> load_failed key e m2
      | (Inr (p, names), m2) \<Rightarrow> (Inr (), emit_plugin ''active'' key ACTIVE (upd_entry key (active_entry E p names) m2)))"
  unfolding load_single_def Let_def set_state_upd upd_entry_twice loading_manager_def active_entry_def [abs_def]
  by (rule refl)

text \<open>Either the plugin is active with what it contributed, or it has failed and its record says so.\<close>

lemma load_single_cases:
  assumes r: "map_of (mg_records m) key = Some r" and l: "load_single E key m = (x, m')"
  obtains (active) p names m2 where "start_plugin E key (pl_manifest r) (loading_manager key m) = (Inr (p, names), m2)"
      "x = Inr ()" "m' = emit_plugin ''active'' key ACTIVE (upd_entry key (active_entry E p names) m2)"
      "mg_records m2 = mg_records (loading_manager key m)"
    | (failed) e e' f m2 where "start_plugin E key (pl_manifest r) (loading_manager key m) = (Inl e, m2)"
      "x = Inl e'" "m' = emit_plugin ''failed'' key PLUGIN_FAILED (upd_entry key f m2)"
      "mg_records m2 = mg_records (loading_manager key m)" "\<And>r. pl_manifest (f r) = pl_manifest r"
      "\<And>r. pl_state (f r) = PLUGIN_FAILED" "\<And>r. pl_enabled (f r) = pl_enabled r"
      "\<And>r. pl_contributions (f r) = pl_contributions r" "\<And>r. pl_plugin (f r) = pl_plugin r"
proof -
  obtain y m2 where y: "start_plugin E key (pl_manifest r) (loading_manager key m) = (y, m2)" by (metis prod.exhaust)
  note kept = start_plugin_kept [OF y]
  have the: "pl_manifest (the_entry m key) = pl_manifest r" by (simp add: the_entry_def r)
  show ?thesis
  proof (cases y)
    case (Inl e)
    obtain f where f: "snd (load_failed key e m2) = emit_plugin ''failed'' key PLUGIN_FAILED (upd_entry key f m2)"
      "\<And>r. pl_manifest (f r) = pl_manifest r" "\<And>r. pl_state (f r) = PLUGIN_FAILED"
      "\<And>r. pl_enabled (f r) = pl_enabled r" "\<And>r. pl_contributions (f r) = pl_contributions r"
      "\<And>r. pl_plugin (f r) = pl_plugin r" by (rule load_failed_cases [of key e m2]) (rule that)
    obtain e' where e': "fst (load_failed key e m2) = Inl e'" using load_failed_raises by blast
    have "(x, m') = load_failed key e m2" using l y Inl by (simp add: load_single_eq the)
    then have "x = Inl e'" "m' = emit_plugin ''failed'' key PLUGIN_FAILED (upd_entry key f m2)"
      using e' f(1) by (metis fst_conv, metis snd_conv)
    then show ?thesis using y Inl kept f(2-) by (intro failed [of e m2 e' f]) simp_all
  next
    case (Inr pn)
    with l y kept show ?thesis by (cases pn) (auto simp: load_single_eq the intro: active)
  qed
qed

lemma load_single_record:
  assumes r: "map_of (mg_records m) key = Some r" and l: "load_single E key m = (x, m')"
  shows "\<exists>r'. map_of (mg_records m') key = Some r' \<and> pl_manifest r' = pl_manifest r \<and> pl_enabled r' = pl_enabled r \<and>
       pl_state r' = (case x of Inl _ \<Rightarrow> PLUGIN_FAILED | Inr _ \<Rightarrow> ACTIVE)"
    "k \<noteq> key \<Longrightarrow> map_of (mg_records m') k = map_of (mg_records m) k"
    "map fst (mg_records m') = map fst (mg_records m)" "mg_require_enable m' = mg_require_enable m"
    "mg_activity m' = mg_activity m"
proof -
  have all: "(\<exists>r'. map_of (mg_records m') key = Some r' \<and> pl_manifest r' = pl_manifest r \<and> pl_enabled r' = pl_enabled r \<and>
       pl_state r' = (case x of Inl _ \<Rightarrow> PLUGIN_FAILED | Inr _ \<Rightarrow> ACTIVE)) \<and>
    (\<forall>k. k \<noteq> key \<longrightarrow> map_of (mg_records m') k = map_of (mg_records m) k) \<and>
    map fst (mg_records m') = map fst (mg_records m) \<and> mg_require_enable m' = mg_require_enable m \<and>
    mg_activity m' = mg_activity m"
    using r l
  proof (cases rule: load_single_cases)
    case (active p names m2)
    from start_plugin_kept [OF active(1)] active r show ?thesis by simp
  next
    case (failed e e' f m2)
    from start_plugin_kept [OF failed(1)] failed r show ?thesis by simp
  qed
  then show "\<exists>r'. map_of (mg_records m') key = Some r' \<and> pl_manifest r' = pl_manifest r \<and> pl_enabled r' = pl_enabled r \<and>
       pl_state r' = (case x of Inl _ \<Rightarrow> PLUGIN_FAILED | Inr _ \<Rightarrow> ACTIVE)"
    "k \<noteq> key \<Longrightarrow> map_of (mg_records m') k = map_of (mg_records m) k"
    "map fst (mg_records m') = map fst (mg_records m)" "mg_require_enable m' = mg_require_enable m"
    "mg_activity m' = mg_activity m" by blast+
qed

lemma load_single_same:
  assumes "map_of (mg_records m) key = Some r" "load_single E key m = (x, m')"
  shows "same_plugins m m'"
  unfolding same_plugins_def using load_single_record [OF assms] assms(1) by (metis option.inject)

section \<open>Records in order\<close>

definition entry_ok :: "'h plugin_manager \<Rightarrow> string \<Rightarrow> plugin_entry \<Rightarrow> bool" where
  "entry_ok m0 key r \<longleftrightarrow> manifest_key (pl_manifest r) = key \<and> (\<forall>c\<in>set (pl_contributions r). foreign m0 c) \<and>
     pl_state r \<noteq> LOADING \<and> (mg_require_enable m0 \<and> is_loaded_state (pl_state r) \<longrightarrow> pl_enabled r)"

definition plugin_ok :: "'h plugin_manager \<Rightarrow> 'h plugin_manager \<Rightarrow> bool" where
  "plugin_ok m0 m \<longleftrightarrow> dict_ok (mg_records m) \<and> registries_ok m0 m \<and> mg_require_enable m = mg_require_enable m0 \<and>
     (\<forall>key r. map_of (mg_records m) key = Some r \<longrightarrow> entry_ok m0 key r)"

lemma plugin_ok_change:
  assumes "plugin_ok m0 m" "registries_ok m0 m'" "mg_require_enable m' = mg_require_enable m"
    "map fst (mg_records m') = map fst (mg_records m)"
    "\<And>k. k \<noteq> key \<Longrightarrow> map_of (mg_records m') k = map_of (mg_records m) k"
    "\<And>r. map_of (mg_records m') key = Some r \<Longrightarrow> entry_ok m0 key r"
  shows "plugin_ok m0 m'"
  using assms unfolding plugin_ok_def dict_ok_def by metis

lemma plugin_ok_upd:
  assumes "plugin_ok m0 m" "\<And>r. map_of (mg_records m) key = Some r \<Longrightarrow> entry_ok m0 key (f r)"
  shows "plugin_ok m0 (upd_entry key f m)"
  using assms(1)
proof (rule plugin_ok_change [where key = key])
  show "registries_ok m0 (upd_entry key f m)" using assms(1) by (simp add: plugin_ok_def)
qed (use assms(2) in auto)

lemma plugin_ok_emit [simp]: "plugin_ok m0 (emit_plugin e key s m) \<longleftrightarrow> plugin_ok m0 m"
  by (simp add: plugin_ok_def)

lemma plugin_ok_entry: "plugin_ok m0 m \<Longrightarrow> map_of (mg_records m) key = Some r \<Longrightarrow> entry_ok m0 key r"
  by (simp add: plugin_ok_def)

lemma plugin_ok_has: "map_of (mg_records m) key = Some r \<Longrightarrow> dict_has key (mg_records m)"
  by (simp add: dict_has_iff)

lemma entry_ok_failed:
  assumes "entry_ok m0 key r" "pl_manifest r' = pl_manifest r" "pl_contributions r' = pl_contributions r"
    "\<not> is_loaded_state (pl_state r')" "pl_state r' \<noteq> LOADING"
  shows "entry_ok m0 key r'"
  using assms by (simp add: entry_ok_def)

lemma fail_plugin_ok: "plugin_ok m0 m \<Longrightarrow> plugin_ok m0 (fail_plugin key e m)"
  unfolding fail_plugin_upd plugin_ok_emit
  by (rule plugin_ok_upd) (auto dest!: plugin_ok_entry elim!: entry_ok_failed simp: is_loaded_state_def)

lemma load_single_ok:
  assumes ok: "plugin_ok m0 m" and r: "map_of (mg_records m) key = Some r"
    and enabled: "mg_require_enable m0 \<Longrightarrow> pl_enabled r" and l: "load_single E key m = (x, m')"
  shows "plugin_ok m0 m'"
proof -
  note rec = load_single_record [OF r l] and e = plugin_ok_entry [OF ok r]
  have reg: "registries_ok m0 (loading_manager key m)" "dict_has key (mg_records (loading_manager key m))"
    using ok r by (simp_all add: plugin_ok_def dict_has_iff)
  show ?thesis using r l
  proof (cases rule: load_single_cases)
    case (active p names m2)
    note s = start_plugin_ok [OF reg active(1)]
    show ?thesis using ok
    proof (rule plugin_ok_change [where key = key])
      show "registries_ok m0 m'" using s active(3) by simp
      show "entry_ok m0 key r'" if "map_of (mg_records m') key = Some r'" for r'
        using that s e enabled active(3,4) r by (auto simp: entry_ok_def)
    qed (use rec in auto)
  next
    case (failed y e' f m2)
    note s = start_plugin_ok [OF reg failed(1)]
    show ?thesis using ok
    proof (rule plugin_ok_change [where key = key])
      show "registries_ok m0 m'" using s failed(3) by simp
      show "entry_ok m0 key r'" if "map_of (mg_records m') key = Some r'" for r'
        using that e failed(3-) r by (auto simp: entry_ok_def is_loaded_state_def)
    qed (use rec in auto)
  qed
qed

section \<open>Loads with dependencies\<close>

lemma load_dependencies_induct:
  assumes loader: "\<And>d m x m'. P m \<Longrightarrow> \<not> is_loaded m d \<Longrightarrow> d \<in> D \<Longrightarrow> loader d m = (x, m') \<Longrightarrow> P m' \<and> R m m'"
    and fail: "\<And>d m. P m \<Longrightarrow> P (fail_plugin key d m) \<and> R m (fail_plugin key d m)"
    and refl: "\<And>m. R m m" and trans: "\<And>a b c. R a b \<Longrightarrow> R b c \<Longrightarrow> R a c"
    and "P m" "set ds \<subseteq> D" "load_dependencies loader auto key ds m = (x, m')"
  shows "P m' \<and> R m m'"
  using assms(5-7)
proof (induction ds arbitrary: m)
  case (Cons d ds)
  consider "is_loaded m d" | "\<not> is_loaded m d" "\<not> auto" | "\<not> is_loaded m d" "auto" by blast
  then show ?case
  proof cases
    case 3
    obtain y m1 where y: "loader d m = (y, m1)" by (metis prod.exhaust)
    have 1: "P m1 \<and> R m m1" by (rule loader [OF _ 3(1) _ y]) (use Cons.prems in auto)
    show ?thesis
    proof (cases y)
      case (Inr u)
      have "P m' \<and> R m1 m'" by (rule Cons.IH) (use Cons.prems 1 3 y Inr in auto)
      with 1 trans show ?thesis by blast
    qed (use Cons.prems 1 3 y in auto)
  qed (use Cons fail in auto)
qed (use refl in auto)

lemma load_within_ok:
  assumes "plugin_ok m0 m" "load_within n E auto key m = (x, m')"
  shows "plugin_ok m0 m' \<and> same_plugins m m'"
  using assms
proof (induction n arbitrary: auto key m x m')
  case (Suc n)
  consider "map_of (mg_records m) key = None"
    | r where "map_of (mg_records m) key = Some r" "mg_require_enable m \<and> \<not> pl_enabled r"
    | r where "map_of (mg_records m) key = Some r" "\<not> (mg_require_enable m \<and> \<not> pl_enabled r)"
        "pl_state r \<in> {LOADED, ACTIVE, LOADING}"
    | (go) r where "map_of (mg_records m) key = Some r" "\<not> (mg_require_enable m \<and> \<not> pl_enabled r)"
        "pl_state r \<notin> {LOADED, ACTIVE, LOADING}" by blast
  then show ?case
  proof cases
    case (go r)
    show ?thesis
    proof (cases "resolve_dependencies (resolver_records m) key (loaded_keys m)")
      case (Inl e)
      with Suc.prems go show ?thesis by (auto simp: fail_plugin_ok same_fail)
    next
      case (Inr ds)
      obtain y m1 where d: "load_dependencies (load_within n E True) auto key ds m = (y, m1)" by (metis prod.exhaust)
      have 1: "plugin_ok m0 m1 \<and> same_plugins m m1"
      proof (rule load_dependencies_induct [where P = "plugin_ok m0" and R = same_plugins and D = UNIV, OF _ _ _ _ _ _ d])
        show "plugin_ok m0 m2 \<and> same_plugins m3 m2"
          if "plugin_ok m0 m3" "load_within n E True d m3 = (z, m2)" for d m3 z m2
          using that by (rule Suc.IH)
      qed (use Suc.prems fail_plugin_ok same_fail same_plugins_trans in auto)
      show ?thesis
      proof (cases y)
        case (Inl e)
        with Suc.prems(2) go Inr d 1 show ?thesis by auto
      next
        case y: (Inr u)
        from 1 go(1) obtain r1 where r1: "map_of (mg_records m1) key = Some r1" "pl_enabled r1 = pl_enabled r"
          unfolding same_plugins_def by blast
        have l: "load_single E key m1 = (x, m')" using Suc.prems(2) go Inr d y by auto
        have "mg_require_enable m0 \<Longrightarrow> pl_enabled r1" using go(2) Suc.prems(1) r1(2) by (simp add: plugin_ok_def)
        from load_single_ok [OF conjunct1 [OF 1] r1(1) this l] load_single_same [OF r1(1) l] 1 same_plugins_trans
        show ?thesis by blast
      qed
    qed
  qed (use Suc.prems in auto)
qed simp

lemma load_plugin_ok:
  "plugin_ok m0 m \<Longrightarrow> load_plugin E auto key m = (x, m') \<Longrightarrow> plugin_ok m0 m' \<and> same_plugins m m'"
  unfolding load_plugin_def by (rule load_within_ok)

section \<open>The other operations\<close>

definition gone_entry :: "plugin_env \<Rightarrow> plugin_entry \<Rightarrow> plugin_entry" where
  "gone_entry E r = (unloaded_entry E r)\<lparr>pl_state := UNLOADED\<rparr>"

lemma gone_entry_fields [simp]:
  "pl_manifest (gone_entry E r) = pl_manifest r" "pl_state (gone_entry E r) = UNLOADED"
  "pl_enabled (gone_entry E r) = pl_enabled r" "pl_contributions (gone_entry E r) = []"
  "pl_plugin (gone_entry E r) = None"
  by (simp_all add: gone_entry_def unloaded_entry_def)

text \<open>An unload refuses, fails in the hook of the plugin, or removes what the plugin contributed.\<close>

lemma unload_cases:
  assumes "unload_plugin E key m = (x, m')"
  obtains (refused) e where "x = Inl e" "m' = m"
    | (already) r where "map_of (mg_records m) key = Some r" "pl_state r = UNLOADED" "x = Inr ()" "m' = m"
    | (stuck) r e where "map_of (mg_records m) key = Some r" "x = Inl (PluginUnloadError e)"
        "loaded_dependents m key = []" "tools_in_use m r = []"
        "m' = fail_plugin key e (emit_plugin ''unloading'' key UNLOADING (set_plugin_state key UNLOADING m))"
    | (gone) r where "map_of (mg_records m) key = Some r" "x = Inr ()" "pl_state r \<notin> {UNLOADED, LOADING}"
        "loaded_dependents m key = []" "tools_in_use m r = []" "stop_plugin E r = None"
        "m' = emit_plugin ''unloaded'' key UNLOADED (set_plugin_state key UNLOADED (upd_entry key (unloaded_entry E)
           (unregister_contributions (pl_contributions r)
             (emit_plugin ''unloading'' key UNLOADING (set_plugin_state key UNLOADING m)))))"
proof (cases "map_of (mg_records m) key")
  case None
  with assms show ?thesis by (auto simp: unload_plugin_def intro: refused)
next
  case (Some r)
  note eq = assms [unfolded unload_plugin_def Some option.case]
  consider "pl_state r = UNLOADED" | "pl_state r = LOADING" | "pl_state r \<notin> {UNLOADED, LOADING}" "loaded_dependents m key \<noteq> []"
    | "pl_state r \<notin> {UNLOADED, LOADING}" "loaded_dependents m key = []" "tools_in_use m r \<noteq> []"
    | (on) "pl_state r \<notin> {UNLOADED, LOADING}" "loaded_dependents m key = []" "tools_in_use m r = []" by blast
  then show ?thesis
  proof cases
    case on
    show ?thesis
    proof (cases "stop_plugin E r")
      case None
      with eq on show ?thesis by (intro gone [OF Some]) (simp_all add: Let_def)
    next
      case e: (Some e)
      with eq on show ?thesis by (intro stuck [OF Some, of e]) (simp_all add: Let_def)
    qed
  next
    case 1
    with eq show ?thesis by (intro already [OF Some]) simp_all
  qed (use eq in \<open>auto intro: refused\<close>)
qed

lemma upd_plugin_ok:
  assumes "plugin_ok m0 m" "\<And>r. entry_ok m0 key r \<Longrightarrow> entry_ok m0 key (f r)"
  shows "plugin_ok m0 (upd_entry key f m)"
  using assms(1) by (rule plugin_ok_upd) (auto dest!: plugin_ok_entry [OF assms(1)] intro: assms(2))

lemma set_state_ok:
  "plugin_ok m0 m \<Longrightarrow> \<not> is_loaded_state s \<Longrightarrow> s \<noteq> LOADING \<Longrightarrow> plugin_ok m0 (set_plugin_state key s m)"
  unfolding set_state_upd by (rule upd_plugin_ok) (auto simp: entry_ok_def)

lemma unregister_plugin_ok:
  assumes "plugin_ok m0 m" "\<forall>c\<in>set cs. foreign m0 c"
  shows "plugin_ok m0 (unregister_contributions cs m)"
  using assms unregister_contributions_ok by (auto simp: plugin_ok_def)

lemma unload_plugin_ok:
  assumes "plugin_ok m0 m" "unload_plugin E key m = (x, m')"
  shows "plugin_ok m0 m' \<and> same_plugins m m'"
  using assms(2)
proof (cases rule: unload_cases)
  case (stuck r e)
  with assms(1) same_plugins_trans [OF same_set_state same_fail] show ?thesis
    by (simp add: fail_plugin_ok set_state_ok is_loaded_state_def) (simp add: same_plugins_def fail_plugin_upd set_state_upd)
next
  case (gone r)
  have "\<forall>c\<in>set (pl_contributions r). foreign m0 c" using plugin_ok_entry [OF assms(1) gone(1)] by (simp add: entry_ok_def)
  then have "plugin_ok m0 (unregister_contributions (pl_contributions r)
      (emit_plugin ''unloading'' key UNLOADING (set_plugin_state key UNLOADING m)))"
    using assms(1) by (intro unregister_plugin_ok) (simp_all add: set_state_ok is_loaded_state_def)
  then have "plugin_ok m0 (upd_entry key (unloaded_entry E) (unregister_contributions (pl_contributions r)
      (emit_plugin ''unloading'' key UNLOADING (set_plugin_state key UNLOADING m))))"
    by (rule upd_plugin_ok) (auto simp: entry_ok_def unloaded_entry_def)
  then show ?thesis unfolding gone(7)
    by (simp add: set_state_ok is_loaded_state_def) (simp add: same_plugins_def set_state_upd unloaded_entry_def)
qed (use assms in simp_all)

lemma snapshot_contributions:
  "snapshot_for_reload E r = Inr S \<Longrightarrow> sn_contributions S = pl_contributions r \<and> sn_state S = pl_state r"
proof (cases "pl_plugin r")
  case (Some p)
  moreover assume "snapshot_for_reload E r = Inr S"
  ultimately show ?thesis
    by (cases "pg_snapshot E p") (auto simp: snapshot_for_reload_def Let_def res_bind_Inr_iff)
qed (auto simp: snapshot_for_reload_def Let_def)

lemma rollback_ok:
  assumes "plugin_ok m0 m" "\<forall>c\<in>set (sn_contributions S). foreign m0 c" "sn_state S \<noteq> LOADING"
    and enabled: "\<And>r. map_of (mg_records m) key = Some r \<Longrightarrow> mg_require_enable m0 \<Longrightarrow> is_loaded_state (sn_state S) \<Longrightarrow> pl_enabled r"
  shows "plugin_ok m0 (rollback_reload key S m)"
proof (cases "map_of (mg_records m) key")
  case (Some r)
  let ?m = "unregister_contributions (sn_contributions S) m"
  obtain y m1 where y: "register_contributions key (pl_manifest r) (sn_tools S) (sn_providers S) ?m = (y, m1)"
    by (metis prod.exhaust)
  have ok: "plugin_ok m0 ?m" by (rule unregister_plugin_ok) (use assms in auto)
  have has: "dict_has key (mg_records ?m)" using Some by (simp add: dict_has_iff)
  have reg: "registries_ok m0 m1 \<and> (\<forall>names. y = Inr names \<longrightarrow> (\<forall>c\<in>set names. foreign m0 c))"
    by (rule register_contributions_ok [OF _ has y]) (use ok in \<open>simp add: plugin_ok_def\<close>)
  from register_contributions_kept [OF y] have kept: "mg_records m1 = mg_records m" "mg_require_enable m1 = mg_require_enable m"
    by simp_all
  then have ok1: "plugin_ok m0 m1" using assms(1) reg by (simp add: plugin_ok_def)
  show ?thesis
  proof (cases y)
    case (Inl e)
    with Some y ok1 show ?thesis by (simp add: rollback_reload_def fail_plugin_ok)
  next
    case (Inr names)
    have "plugin_ok m0 (upd_entry key (\<lambda>r. (rolled_back_entry S names r)\<lparr>pl_state := sn_state S\<rparr>) m1)"
    proof (rule plugin_ok_upd [OF ok1])
      fix r' assume "map_of (mg_records m1) key = Some r'"
      with kept have r': "map_of (mg_records m) key = Some r'" by simp
      from plugin_ok_entry [OF assms(1) r'] enabled [OF r'] reg Inr assms(3)
      show "entry_ok m0 key ((rolled_back_entry S names r')\<lparr>pl_state := sn_state S\<rparr>)"
        by (auto simp: entry_ok_def rolled_back_entry_def)
    qed
    with Some y Inr show ?thesis by (simp add: rollback_reload_def set_state_upd upd_entry_twice)
  qed
qed (simp add: rollback_reload_def assms(1))

lemma swap_plugin_ok:
  assumes ok: "plugin_ok m0 m" and S: "\<forall>c\<in>set (sn_contributions S). foreign m0 c" "sn_state S \<noteq> LOADING"
    and r: "map_of (mg_records m) key = Some r" and enabled: "mg_require_enable m0 \<Longrightarrow> is_loaded_state (sn_state S) \<Longrightarrow> pl_enabled r"
    and s: "swap_plugin E key S m = (x, m')"
  shows "plugin_ok m0 m'"
proof -
  obtain y m1 where y: "unload_plugin E key m = (y, m1)" by (metis prod.exhaust)
  note 1 = unload_plugin_ok [OF ok y]
  show ?thesis
  proof (cases y)
    case (Inl e)
    with s y 1 show ?thesis by (simp add: swap_plugin_def)
  next
    case (Inr u)
    obtain z m2 where z: "load_plugin E True key m1 = (z, m2)" by (metis prod.exhaust)
    note 2 = load_plugin_ok [OF conjunct1 [OF 1] z]
    have "same_plugins m m2" using 1 2 same_plugins_trans by blast
    with r have en: "map_of (mg_records m2) key = Some r' \<Longrightarrow> pl_enabled r' = pl_enabled r" for r'
      unfolding same_plugins_def by fastforce
    have "plugin_ok m0 (rollback_reload key S m2)"
      by (rule rollback_ok) (use 2 S en enabled in auto)
    with s y Inr z 2 show ?thesis by (auto simp: swap_plugin_def split: sum.splits plugin_exn.splits)
  qed
qed

lemma reload_plugin_ok:
  assumes ok: "plugin_ok m0 m" and x: "reload_plugin E key m = (x, m')"
  shows "plugin_ok m0 m'"
proof (cases "map_of (mg_records m) key")
  case (Some r)
  note e = plugin_ok_entry [OF ok Some]
  show ?thesis
  proof (cases "\<exists>S. snapshot_for_reload E r = Inr S \<and> swap_plugin E key S (emit_plugin ''reloading'' key (sn_state S) m) = (x, m')")
    case True
    then obtain S where S: "snapshot_for_reload E r = Inr S"
      "swap_plugin E key S (emit_plugin ''reloading'' key (sn_state S) m) = (x, m')" by blast
    show ?thesis
      by (rule swap_plugin_ok [OF _ _ _ _ _ S(2)]) (use ok e Some snapshot_contributions [OF S(1)] in \<open>auto simp: entry_ok_def\<close>)
  next
    case False
    with ok x Some show ?thesis by (auto simp: reload_plugin_def split: if_splits sum.splits)
  qed
qed (use ok x in \<open>simp add: reload_plugin_def\<close>)

lemma unload_if_loaded_ok:
  "plugin_ok m0 m \<Longrightarrow> unload_if_loaded E key r m = (x, m') \<Longrightarrow> plugin_ok m0 m'"
  using unload_plugin_ok [of m0 m E key x m'] by (simp add: unload_if_loaded_def split: if_splits)

lemma activate_ok:
  assumes "plugin_ok m0 m"
  shows "plugin_ok m0 (snd (activate_plugin E key m))"
proof (cases "map_of (mg_records m) key")
  case (Some r)
  have load: "plugin_ok m0 (snd (load_plugin E True key m))"
    using load_plugin_ok [OF assms, of E True key] by (metis prod.exhaust snd_conv)
  have up: "plugin_ok m0 (set_plugin_state key ACTIVE m)" if "pl_state r = LOADED"
    unfolding set_state_upd using plugin_ok_entry [OF assms Some] that Some
    by (intro plugin_ok_upd [OF assms]) (auto simp: entry_ok_def is_loaded_state_def)
  show ?thesis using Some assms load up by (auto simp: activate_plugin_def split: option.split)
qed (simp add: activate_plugin_def assms)

lemma deactivate_ok:
  assumes "plugin_ok m0 m"
  shows "plugin_ok m0 (snd (deactivate_plugin E key m))"
proof (cases "map_of (mg_records m) key")
  case (Some r)
  have up: "plugin_ok m0 (set_plugin_state key LOADED m)" if "pl_state r = ACTIVE"
    unfolding set_state_upd using plugin_ok_entry [OF assms Some] that Some
    by (intro plugin_ok_upd [OF assms]) (auto simp: entry_ok_def is_loaded_state_def)
  show ?thesis using Some assms up by (auto simp: deactivate_plugin_def split: option.split)
qed (simp add: deactivate_plugin_def assms)

lemma administration_ok:
  assumes "plugin_ok m0 m"
  shows "plugin_ok m0 (snd (install_plugin E key m))" "plugin_ok m0 (snd (uninstall_plugin E key m))"
    "plugin_ok m0 (snd (enable_plugin E key m))" "plugin_ok m0 (snd (disable_plugin E key m))"
    "plugin_ok m0 (snd (check_plugin_health E key m))" "plugin_ok m0 (snd (migrate_config key config m))"
proof -
  have un: "plugin_ok m0 (snd (unload_if_loaded E key r m))" for r
    using unload_if_loaded_ok [OF assms] by (metis prod.exhaust snd_conv)
  show "plugin_ok m0 (snd (install_plugin E key m))"
    using assms by (auto simp: install_plugin_def installed_entry_def entry_ok_def is_loaded_state_def
        split: option.split intro!: upd_plugin_ok)
  show "plugin_ok m0 (snd (uninstall_plugin E key m))"
    using assms un by (auto simp: uninstall_plugin_def uninstalled_entry_def entry_ok_def is_loaded_state_def
        split: option.split sum.split prod.split intro!: upd_plugin_ok) (metis snd_conv)+
  show "plugin_ok m0 (snd (enable_plugin E key m))"
    using assms by (auto simp: enable_plugin_def enabled_entry_def entry_ok_def is_loaded_state_def
        split: option.split intro!: upd_plugin_ok)
  show "plugin_ok m0 (snd (disable_plugin E key m))"
    using assms un by (auto simp: disable_plugin_def disabled_entry_def entry_ok_def is_loaded_state_def
        split: option.split sum.split prod.split intro!: upd_plugin_ok) (metis snd_conv)+
  show "plugin_ok m0 (snd (check_plugin_health E key m))"
    using assms by (auto simp: check_plugin_health_def checked_entry_def entry_ok_def split: option.split intro!: upd_plugin_ok)
  show "plugin_ok m0 (snd (migrate_config key config m))"
    using assms by (auto simp: migrate_config_def migrated_entry_def entry_ok_def manifest_key_def
        split: option.split intro!: upd_plugin_ok)
qed

section \<open>Discovery and updates\<close>

lemma registries_register:
  assumes "registries_ok m0 m" "set (map fst (mg_records m)) \<subseteq> set (map fst reg)"
  shows "registries_ok m0 (m\<lparr>mg_records := reg\<rparr>)"
proof -
  have "adapters m0 (m\<lparr>mg_records := reg\<rparr>)" unfolding adapters_def
  proof (intro allI impI)
    fix n t info assume t: "map_of (mg_tools (m\<lparr>mg_records := reg\<rparr>)) n = Some (t, info)"
    then have "map_of (mg_tools m) n = Some (t, info)" by simp
    with assms(1) have "dict_has n (mg_tools m0) \<or> (\<exists>key tool. t = PluginToolAdapter key tool \<and> ptl_name tool = n \<and>
        info = build_tool_info tool \<and> dict_has key (mg_records m))"
      unfolding registries_ok_def adapters_def by (elim conjE allE impE) assumption
    then consider "dict_has n (mg_tools m0)" | key tool where "t = PluginToolAdapter key tool" "ptl_name tool = n"
        "info = build_tool_info tool" "dict_has key (mg_records m)"
      by (elim disjE exE conjE)
    then show "dict_has n (mg_tools m0) \<or> (\<exists>key tool. t = PluginToolAdapter key tool \<and> ptl_name tool = n \<and>
        info = build_tool_info tool \<and> dict_has key (mg_records (m\<lparr>mg_records := reg\<rparr>)))"
    proof cases
      case (2 key tool)
      then have "dict_has key (mg_records (m\<lparr>mg_records := reg\<rparr>))" using subsetD [OF assms(2)] by (simp add: dict_has_fst)
      with 2 show ?thesis by blast
    qed blast
  qed
  with assms(1) show ?thesis by (simp add: registries_ok_def host_kept_def)
qed

lemma register_plugin_manager_ok:
  assumes ok: "plugin_ok m0 m" and reg: "register_plugin x (mg_records m) = Inr reg"
  shows "plugin_ok m0 (m\<lparr>mg_records := reg\<rparr>)"
proof -
  from reg have new: "\<not> dict_has (manifest_key x) (mg_records m)"
    and reg: "reg = AList.update (manifest_key x) (new_entry x) (mg_records m)"
    by (auto simp: register_plugin_def split: if_splits)
  have "set (map fst (mg_records m)) \<subseteq> set (map fst reg)" by (auto simp: reg update_keys)
  then have "registries_ok m0 (m\<lparr>mg_records := reg\<rparr>)"
    using ok by (intro registries_register) (simp_all add: plugin_ok_def)
  moreover have "dict_ok reg" using ok by (simp add: plugin_ok_def dict_ok_def reg distinct_update)
  moreover have "entry_ok m0 key r" if "map_of reg key = Some r" for key r
    using that ok by (auto simp: plugin_ok_def reg update_conv' entry_ok_def new_entry_def is_loaded_state_def
        split: if_splits)
  ultimately show ?thesis using ok by (simp add: plugin_ok_def)
qed

lemma register_manifests_ok:
  "plugin_ok m0 m \<Longrightarrow> register_manifests E xs m = (keys, m') \<Longrightarrow> plugin_ok m0 m'"
proof (induction E xs m arbitrary: keys m' rule: register_manifests.induct)
  case (2 E x xs m)
  consider "validate_manifest (pg_validation E) x \<noteq> []"
    | e where "validate_manifest (pg_validation E) x = []" "register_plugin x (mg_records m) = Inl e"
    | reg where "validate_manifest (pg_validation E) x = []" "register_plugin x (mg_records m) = Inr reg"
    by (metis sum.exhaust)
  then show ?case
  proof cases
    case 1
    with "2.IH"(1) "2.prems" show ?thesis by simp
  next
    case e: 2
    with "2.IH"(2) "2.prems" show ?thesis by simp
  next
    case (3 reg)
    obtain ks m1 where m1: "register_manifests E xs
        (emit_plugin ''registered'' (manifest_key x) REGISTERED (m\<lparr>mg_records := reg\<rparr>)) = (ks, m1)" by (metis prod.exhaust)
    have "plugin_ok m0 (emit_plugin ''registered'' (manifest_key x) REGISTERED (m\<lparr>mg_records := reg\<rparr>))"
      using register_plugin_manager_ok [OF "2.prems"(1) 3(2)] by simp
    with "2.IH"(3) 3 m1 have "plugin_ok m0 m1" by simp
    with "2.prems"(2) 3 m1 show ?thesis by simp
  qed
qed simp

lemma discover_ok: "plugin_ok m0 m \<Longrightarrow> discover_plugins E d m = (x, m') \<Longrightarrow> plugin_ok m0 m'"
  using register_manifests_ok by (auto simp: discover_plugins_def split: sum.splits prod.splits)

lemma discover_in_roots_ok: "plugin_ok m0 m \<Longrightarrow> discover_in_roots E ds m = (x, m') \<Longrightarrow> plugin_ok m0 m'"
proof (induction E ds m arbitrary: x m' rule: discover_in_roots.induct)
  case (2 E d ds m)
  obtain y m1 where y: "discover_plugins E d m = (y, m1)" by (metis prod.exhaust)
  have 1: "plugin_ok m0 m1" by (rule discover_ok [OF "2.prems"(1) y])
  show ?case
  proof (cases y)
    case (Inr ks)
    obtain z m2 where z: "discover_in_roots E ds m1 = (z, m2)" by (metis prod.exhaust)
    have "plugin_ok m0 m2" by (rule "2.IH" [OF y [symmetric] Inr 1 z])
    with "2.prems"(2) y Inr z show ?thesis by (auto split: sum.splits)
  qed (use "2.prems"(2) y 1 in auto)
qed simp

lemma load_discovered_ok: "plugin_ok m0 m \<Longrightarrow> load_discovered E auto ks m = (x, m') \<Longrightarrow> plugin_ok m0 m'"
proof (induction ks arbitrary: m x m')
  case (Cons k ks)
  obtain y m1 where y: "load_plugin E auto k m = (y, m1)" by (metis prod.exhaust)
  have 1: "plugin_ok m0 m1" using load_plugin_ok [OF Cons.prems(1) y] by blast
  obtain z m2 where z: "load_discovered E auto ks m1 = (z, m2)" by (metis prod.exhaust)
  note 2 = Cons.IH [OF 1]
  consider e where "y = Inl (PluginLoadError e)" | e where "y = Inl e" "\<And>t. e \<noteq> PluginLoadError t" | u where "y = Inr u"
    by (metis sum.exhaust)
  then show ?case
  proof cases
    case 1
    with Cons.prems(2) y z 2 show ?thesis by simp
  next
    case other: 2
    then have "m' = m1" using Cons.prems(2) y by (cases e) auto
    with 1 show ?thesis by simp
  next
    case 3
    with Cons.prems(2) y z have "m' = m2" by (auto split: sum.splits)
    with 2 [OF z] show ?thesis by simp
  qed
qed simp

lemma load_directory_ok: "plugin_ok m0 m \<Longrightarrow> load_directory E auto d m = (x, m') \<Longrightarrow> plugin_ok m0 m'"
proof -
  assume ok: "plugin_ok m0 m" and x: "load_directory E auto d m = (x, m')"
  obtain y m1 where y: "discover_plugins E d m = (y, m1)" by (metis prod.exhaust)
  have 1: "plugin_ok m0 m1" by (rule discover_ok [OF ok y])
  show ?thesis
  proof (cases y)
    case (Inr ks)
    then have "load_discovered E auto ks m1 = (x, m')" using x y by (simp add: load_directory_def)
    then show ?thesis by (rule load_discovered_ok [OF 1])
  qed (use x y 1 in \<open>simp add: load_directory_def\<close>)
qed

lemma load_directory_safe_ok:
  assumes "plugin_ok m0 m" "load_directory_safe E d m = (x, m')"
  shows "plugin_ok m0 m'"
proof -
  obtain y m1 where y: "discover_plugins E d m = (y, m1)" by (metis prod.exhaust)
  have 1: "plugin_ok m0 m1" by (rule discover_ok [OF assms(1) y])
  have "plugin_ok m0 (fold (\<lambda>k. fail_plugin k ASYNCIO_MISSING) ks m1)" for ks
    using 1 by (induction ks arbitrary: m1) (simp_all add: fail_plugin_ok)
  with 1 y assms(2) show ?thesis by (auto simp: load_directory_safe_def split: sum.splits)
qed

text \<open>An update checks the compatibility of the new key before it registers it, so it never gets to the end.\<close>

lemma check_registered:
  "check_compatibility E key m = Inr b \<Longrightarrow> dict_has key (mg_records m)"
  by (auto simp: check_compatibility_def dict_has_iff split: option.splits)

lemma update_plugin_refuses: "\<exists>e. update_plugin E key new m = (Inl e, m)"
proof (cases "check_compatibility E (manifest_key new) m")
  case (Inl e)
  then show ?thesis by (simp add: update_plugin_def Let_def split: option.split)
next
  case (Inr ok)
  then have "register_plugin new (mg_records m) =
      Inl (PluginRegistrationError (''Plugin already registered: '' @ manifest_key new))"
    by (simp add: register_plugin_def check_registered)
  with Inr show ?thesis
    by (simp add: update_plugin_def switch_manifest_def Let_def split: option.split sum.split)
qed

text \<open>The question for the version of the interface is never answered.\<close>

lemma api_version_unanswered: "\<exists>e. check_api_version E key m = Inl e"
  by (simp add: check_api_version_def split: option.split)

section \<open>Every step\<close>

lemma plugin_ok_activity [simp]: "plugin_ok m0 (m\<lparr>mg_activity := a\<rparr>) \<longleftrightarrow> plugin_ok m0 m"
proof -
  have "registries_ok m0 (m\<lparr>mg_activity := a\<rparr>) \<longleftrightarrow> registries_ok m0 m" by (rule registries_ok_cong) simp_all
  then show ?thesis by (simp add: plugin_ok_def)
qed

lemma plugin_step_ok:
  assumes "plugin_step m m'" "plugin_ok m0 m"
  shows "plugin_ok m0 m'"
  using assms
proof (induction rule: plugin_step.induct)
  case (plug_discover m E directory)
  then show ?case by (metis discover_ok prod.collapse)
next
  case (plug_load m E auto key)
  then show ?case by (metis load_plugin_ok prod.collapse)
next
  case (plug_unload m E key)
  then show ?case by (metis unload_plugin_ok prod.collapse)
next
  case (plug_reload m E key)
  then show ?case by (metis reload_plugin_ok prod.collapse)
next
  case (plug_load_directory m E auto directory)
  then show ?case by (metis load_directory_ok prod.collapse)
next
  case (plug_load_safe m E directory)
  then show ?case by (metis load_directory_safe_ok prod.collapse)
next
  case (plug_update m E key new)
  then show ?case by (metis update_plugin_refuses snd_conv)
qed (simp_all add: activate_ok deactivate_ok administration_ok)

lemma plugin_reachable_ok:
  assumes "plugin_reachable m m'" "plugin_ok m0 m"
  shows "plugin_ok m0 m'"
  using assms(1) [unfolded plugin_reachable_def] assms(2) by (induction rule: rtranclp_induct) (auto intro: plugin_step_ok)

lemma fresh_manager_ok:
  "plugin_ok (fresh_manager tools providers domains b) (fresh_manager tools providers domains b)"
proof -
  have has: "dict_has n d" if "map_of d n = Some v" for n v and d :: "('k, 'v) dict" using that by (simp add: dict_has_iff)
  show ?thesis
    unfolding plugin_ok_def registries_ok_def host_kept_def adapters_def
    by (auto simp: fresh_manager_def dict_ok_def extends_dict_def extends_providers_def intro: has split: option.splits)
qed

end
