(* ===== verification/Plugin_Loading.thy ===== *)
theory Plugin_Loading
  imports Plugin_Invariants
begin

text \<open>
  What a load and an unload come to: registration and removal are inverse to each other, an unload is
  refused for as long as the plugin is needed, and the calls of a load for its dependencies end within
  the depth that \<open>load_depth\<close> gives them.
\<close>

section \<open>Removal undoes registration\<close>

lemma unregister_Nil [simp]: "unregister_contributions [] m = m"
  by (simp add: unregister_contributions_def)

lemma unregister_Cons: "unregister_contributions (c # cs) m = unregister_contribution c (unregister_contributions cs m)"
  by (simp add: unregister_contributions_def)

lemma unregister_append: "unregister_contributions (a @ b) m = unregister_contributions a (unregister_contributions b m)"
  by (simp add: unregister_contributions_def)

lemma delete_fresh: "\<not> dict_has k d \<Longrightarrow> AList.delete k (AList.update k v d) = d"
  by (simp add: delete_update_same dict_has_fst)

lemma unregister_kinds:
  "unregister_contribution (''tool:'' @ n) m = m\<lparr>mg_tools := AList.delete n (mg_tools m)\<rparr>"
  "unregister_contribution (''provider:'' @ n) m =
     m\<lparr>mg_providers := map_option (AList.delete (py_lower n)) (mg_providers m)\<rparr>"
  "unregister_contribution (''capability:'' @ n) m = m\<lparr>mg_domains := AList.delete (py_lower n) (mg_domains m)\<rparr>"
  unfolding unregister_contribution_def partition_kind
  by (simp_all add: Let_def unregister_tool_def unregister_domain_def)

lemma register_tools_undone: "register_tools key cs m = (Inr names, m') \<Longrightarrow> unregister_contributions names m' = m"
proof (induction key cs m arbitrary: names m' rule: register_tools.induct)
  case (3 key t cs m)
  let ?m = "m\<lparr>mg_tools := AList.update (ptl_name t) (PluginToolAdapter key t, build_tool_info t) (mg_tools m)\<rparr>"
  have new: "\<not> dict_has (ptl_name t) (mg_tools m)" using "3.prems" by (auto split: if_splits)
  obtain rest where rest: "register_tools key cs ?m = (Inr rest, m')" "names = (''tool:'' @ ptl_name t) # rest"
    using "3.prems" new by (auto split: prod.splits sum.splits)
  from "3.IH" [OF new rest(1)] show ?case
    unfolding rest(2) unregister_Cons by (simp add: unregister_kinds delete_fresh [OF new] del: append.simps)
qed simp_all

lemma register_providers_undone:
  "register_providers key cs m = (Inr names, m') \<Longrightarrow> unregister_contributions names m' = m"
proof (induction key cs m arbitrary: names m' rule: register_providers.induct)
  case (2 key c cs m)
  show ?case
  proof (cases "mg_providers m")
    case (Some ps)
    let ?m = "m\<lparr>mg_providers := Some (AList.update (provider_name c) (Some key) ps)\<rparr>"
    have new: "\<not> dict_has (provider_name c) ps" using "2.prems" Some by (auto split: if_splits)
    obtain rest where rest: "register_providers key cs ?m = (Inr rest, m')"
      "names = (''provider:'' @ provider_name c) # rest"
      using "2.prems" Some new by (auto split: prod.splits sum.splits)
    have low: "py_lower (provider_name c) = provider_name c" by (simp add: provider_name_def)
    from "2.IH" [OF Some new rest(1)] Some show ?thesis
      unfolding rest(2) unregister_Cons by (simp add: unregister_kinds low delete_fresh [OF new] del: append.simps)
  qed (use "2.prems" in simp)
qed simp

lemma register_domains_undone:
  "register_domains tools cs m = (Inr names, m') \<Longrightarrow> unregister_contributions names m' = m"
proof (induction tools cs m arbitrary: names m' rule: register_domains.induct)
  case (2 tools c cs m)
  obtain t where t: "tool_providing tools (pcp_name c) = Some t"
    using "2.prems" by (cases "tool_providing tools (pcp_name c)") auto
  have free: "\<not> is_installed (mg_domains m) (pcp_name c)" using "2.prems" t by (auto split: if_splits)
  obtain ds where ds: "register_domain (plugin_domain c t) (mg_domains m) = Inr ds"
    using "2.prems" t free by (cases "register_domain (plugin_domain c t) (mg_domains m)") auto
  obtain rest where rest: "register_domains tools cs (m\<lparr>mg_domains := ds\<rparr>) = (Inr rest, m')"
    "names = (''capability:'' @ pcp_name c) # rest"
    using "2.prems" t free ds by (auto split: prod.splits sum.splits)
  have new: "\<not> dict_has (py_lower (pcp_name c)) (mg_domains m)"
    "ds = AList.update (py_lower (pcp_name c)) (plugin_domain c t) (mg_domains m)"
    using register_domain_Inr [OF ds] by (simp_all add: plugin_domain_def)
  from "2.IH" [OF t free ds rest(1)] show ?case
    unfolding rest(2) unregister_Cons new(2) by (simp add: unregister_kinds delete_fresh [OF new(1)] del: append.simps)
qed simp

lemma register_contributions_undone:
  assumes "register_contributions key manifest tools providers m = (Inr names, m')"
  shows "unregister_contributions names m' = m"
proof -
  obtain a m1 where 1: "register_tools key tools m = (Inr a, m1)"
    using assms by (auto simp: register_contributions_def split: prod.splits sum.splits)
  obtain b m2 where 2: "register_providers key providers m1 = (Inr b, m2)"
    using assms 1 by (auto simp: register_contributions_def split: prod.splits sum.splits)
  obtain c where 3: "register_domains tools (pm_capabilities manifest) m2 = (Inr c, m')" "names = a @ b @ c"
    using assms 1 2 by (auto simp: register_contributions_def split: prod.splits sum.splits)
  show ?thesis unfolding 3(2) unregister_append
    by (simp only: register_domains_undone [OF 3(1)] register_providers_undone [OF 2] register_tools_undone [OF 1])
qed

text \<open>Removal reads nothing but the registries.\<close>

definition registries :: "'h plugin_manager \<Rightarrow>
    'h installed_tool tool_registry \<times> (string, string option) dict option \<times> domain_registry" where
  "registries m = (mg_tools m, mg_providers m, mg_domains m)"

lemma registries_same [simp]:
  "registries (upd_entry key f m) = registries m" "registries (emit_plugin e key s m) = registries m"
  "registries (set_plugin_state key s m) = registries m" "registries (fail_plugin key t m) = registries m"
  "registries (loading_manager key m) = registries m"
  by (simp_all add: registries_def set_state_upd fail_plugin_upd loading_manager_def)

lemma unregister_registries_one:
  "registries m = registries n \<Longrightarrow> registries (unregister_contribution c m) = registries (unregister_contribution c n)"
proof -
  assume same: "registries m = registries n"
  obtain kind rest where p: "partition_at (CHR '':'') c = (kind, rest)" by (metis prod.exhaust)
  consider "kind = ''tool''" | "kind = ''provider''" | "kind = ''capability''" | "kind \<notin> {''tool'', ''provider'', ''capability''}"
    by blast
  then show ?thesis
    by cases (use same in \<open>simp_all add: registries_def unregister_contribution_def p Let_def\<close>)
qed

lemma unregister_registries:
  "registries m = registries n \<Longrightarrow> registries (unregister_contributions cs m) = registries (unregister_contributions cs n)"
proof (induction cs)
  case (Cons c cs)
  then show ?case unfolding unregister_Cons by (intro unregister_registries_one) simp
qed simp

lemma start_plugin_undone:
  assumes "start_plugin E key manifest m = (Inr (p, names), m')"
  shows "unregister_contributions names m' = m"
proof -
  obtain q tools providers where q: "prepare_plugin E manifest = Inr (q, tools, providers)"
    using assms by (cases "prepare_plugin E manifest") (auto simp: start_plugin_def)
  obtain y m1 where y: "register_contributions key manifest tools providers m = (y, m1)" by (metis prod.exhaust)
  from assms q y have "y = Inr names \<and> m1 = m'"
    by (cases y; cases "pg_start E q") (auto simp: start_plugin_def)
  with y show ?thesis by (simp add: register_contributions_undone)
qed

lemma load_single_undone:
  assumes r: "map_of (mg_records m) key = Some r" and l: "load_single E key m = (Inr (), m')"
    and r': "map_of (mg_records m') key = Some r'"
  shows "registries (unregister_contributions (pl_contributions r') m') = registries m"
  using r l
proof (cases rule: load_single_cases)
  case (active p names m2)
  have "pl_contributions r' = names" using r' active(3,4) r by (metis active_entry_fields(4) emit_fields(6) loading_fields(8) map_of_upd_entry option.map(2) option.inject)
  moreover have "registries (unregister_contributions names m') = registries (unregister_contributions names m2)"
    by (rule unregister_registries) (simp add: active(3))
  ultimately show ?thesis using start_plugin_undone [OF active(1)] by simp
qed simp

lemma unload_active:
  assumes "map_of (mg_records m) key = Some r" "pl_state r = ACTIVE" "unload_plugin E key m = (Inr (), m')"
  shows "registries m' = registries (unregister_contributions (pl_contributions r) m) \<and>
    map_of (mg_records m') key = Some (gone_entry E r)"
  using assms(3)
proof (cases rule: unload_cases)
  case (gone r0)
  then have r0: "r0 = r" using assms(1) by simp
  have "registries (unregister_contributions (pl_contributions r)
      (emit_plugin ''unloading'' key UNLOADING (set_plugin_state key UNLOADING m))) =
      registries (unregister_contributions (pl_contributions r) m)" by (rule unregister_registries) simp
  with gone(7) r0 assms(1) show ?thesis
    by (simp add: set_state_upd gone_entry_def unloaded_entry_def)
qed (use assms in auto)

text \<open>Loading a plugin whose dependencies are loaded, then unloading it, gives back the registries.\<close>

lemma load_plugin_single:
  assumes r: "map_of (mg_records m) key = Some r" and s: "pl_state r \<notin> {LOADED, ACTIVE, LOADING}"
    and ds: "resolve_dependencies (resolver_records m) key (loaded_keys m) = Inr ds" "\<forall>d\<in>set ds. is_loaded m d"
    and l: "load_plugin E auto key m = (Inr (), m')"
  shows "load_single E key m = (Inr (), m')"
proof -
  have nop: "load_dependencies f auto key ds m = (Inr (), m)" for f
    using ds(2) by (induction ds) simp_all
  obtain n where "load_depth m = Suc n" by (simp add: load_depth_def)
  with l r s ds(1) nop show ?thesis
    by (cases "mg_require_enable m \<and> \<not> pl_enabled r") (auto simp: load_plugin_def)
qed

lemma load_then_unload:
  assumes r: "map_of (mg_records m) key = Some r" and s: "pl_state r \<notin> {LOADED, ACTIVE, LOADING}"
    and ds: "resolve_dependencies (resolver_records m) key (loaded_keys m) = Inr ds" "\<forall>d\<in>set ds. is_loaded m d"
    and l: "load_plugin E auto key m = (Inr (), m1)" and u: "unload_plugin E' key m1 = (Inr (), m2)"
  shows "mg_tools m2 = mg_tools m \<and> mg_providers m2 = mg_providers m \<and> mg_domains m2 = mg_domains m"
proof -
  have one: "load_single E key m = (Inr (), m1)" by (rule load_plugin_single [OF r s ds l])
  obtain r1 where r1: "map_of (mg_records m1) key = Some r1" "pl_state r1 = ACTIVE"
    using load_single_record(1) [OF r one] by auto
  have "registries m2 = registries m"
    using unload_active [OF r1 u] load_single_undone [OF r one r1(1)] by simp
  then show ?thesis by (simp add: registries_def)
qed

section \<open>What an unload waits for\<close>

lemma unload_refused:
  assumes "map_of (mg_records m) key = Some r" "pl_state r \<noteq> UNLOADED"
    "loaded_dependents m key \<noteq> [] \<or> tools_in_use m r \<noteq> []"
  shows "\<exists>e. unload_plugin E key m = (Inl (PluginUnloadError e), m)"
  using assms by (auto simp: unload_plugin_def)

section \<open>The dependencies of a dependency\<close>

lemma dep_key_record: "dep_key_of records selected k = Some d \<Longrightarrow> k \<in> record_key ` set records"
  by (auto simp: dep_key_of_def record_of_def map_of_eq_None_iff rev_map [symmetric] image_iff
      dest!: map_of_SomeD split: option.splits)

lemma toposort_path:
  assumes order: "toposort records selected (Some S) = Inr order" "order = pre @ d # post"
    and S: "(dep_edges records selected)\<^sup>+ `` {d} \<subseteq> S"
    and path: "(d, e) \<in> (dep_edges records selected)\<^sup>+" "e \<in> record_key ` set records"
  shows "e \<in> set pre"
  using path
proof (induction rule: trancl_induct)
  case (base e)
  then have "(d, e) \<in> (dep_edges records selected)\<^sup>+" by blast
  with S base toposort_keys [OF order(1)] order(2) show ?case
    by (auto simp: dep_edges_def sorted_keys_def)
next
  case (step e f)
  have "e \<in> record_key ` set records" using step.hyps(2) by (auto simp: dep_edges_def dest: dep_key_record)
  then have "e \<in> set pre" by (rule step.IH)
  then obtain pre1 pre2 where pre: "pre = pre1 @ e # pre2" by (auto dest: split_list)
  have "f \<in> S" using S step.hyps by (auto intro: trancl_into_trancl)
  then have "f \<in> set pre1"
    using toposort_keys [OF order(1)] order(2) pre step.hyps(2) step.prems
    by (auto simp: dep_edges_def sorted_keys_def)
  then show ?case using pre by simp
qed

text \<open>What a dependency needs comes before it in the order of the plugin that needs it.\<close>

lemma resolve_nested:
  assumes outer: "resolve_dependencies records key L = Inr ds" "ds = pre @ d # post"
    and inner: "resolve_dependencies records d L = Inr ds'"
  shows "set ds' \<subseteq> set pre"
proof -
  obtain selected where sel: "select_dependency_keys records L = Inr selected"
    using outer(1) by (auto simp: resolve_dependencies_def res_bind_Inr_iff)
  let ?E = "(dep_edges records selected)\<^sup>+"
  obtain order where o: "toposort records selected (Some (insert key (?E `` {key}))) = Inr order"
      "ds = filter (\<lambda>k. k \<noteq> key) order"
    using outer(1) sel by (auto simp: resolve_dependencies_def res_bind_Inr_iff closure_loop_reach simp del: closure_loop.simps)
  obtain order' where o': "toposort records selected (Some (insert d (?E `` {d}))) = Inr order'"
      "ds' = filter (\<lambda>k. k \<noteq> d) order'"
    using inner sel by (auto simp: resolve_dependencies_def res_bind_Inr_iff closure_loop_reach simp del: closure_loop.simps)
  note k = toposort_keys [OF o(1)] and k' = toposort_keys [OF o'(1)]
  have "d \<in> set ds" using outer(2) by simp
  then have d: "d \<in> set order" "d \<noteq> key" using o(2) by auto
  obtain us vs where us: "order = us @ d # vs" using d(1) by (auto dest: split_list)
  have "pre @ d # post = filter (\<lambda>k. k \<noteq> key) us @ d # filter (\<lambda>k. k \<noteq> key) vs"
    using outer(2) o(2) us d(2) by simp
  moreover have "distinct ds" using k o(2) by simp
  ultimately have pre: "pre = filter (\<lambda>k. k \<noteq> key) us"
    using k us outer(2) by (subst (asm) append_Cons_eq_iff) auto
  have reach: "(key, d) \<in> ?E" using k d by (auto simp: sorted_keys_def)
  have S: "?E `` {d} \<subseteq> insert key (?E `` {key})" using reach by (auto intro: trancl_trans)
  note before = toposort_path [OF o(1) us S]
  show ?thesis
  proof
    fix e assume "e \<in> set ds'"
    then have e: "(d, e) \<in> ?E" "e \<in> record_key ` set records" using k' o'(2) by (auto simp: sorted_keys_def)
    have "e \<noteq> key"
    proof
      assume "e = key"
      with e(1) reach have "(d, d) \<in> ?E" by (auto intro: trancl_trans)
      moreover have "d \<in> record_key ` set records" using k d(1) by (auto simp: sorted_keys_def)
      ultimately have "d \<in> set us" by (rule before)
      with k us show False by simp
    qed
    with before [OF e] pre show "e \<in> set pre" by simp
  qed
qed

section \<open>Loads end\<close>

definition grows :: "'h plugin_manager \<Rightarrow> 'h plugin_manager \<Rightarrow> bool" where
  "grows m m' \<longleftrightarrow> map fst (mg_records m') = map fst (mg_records m) \<and> (\<forall>k. is_loaded m k \<longrightarrow> is_loaded m' k)"

lemma grows_refl [simp]: "grows m m"
  by (simp add: grows_def)

lemma grows_trans: "grows a b \<Longrightarrow> grows b c \<Longrightarrow> grows a c"
  by (simp add: grows_def)

lemma load_single_grows:
  assumes "map_of (mg_records m) key = Some r" "load_single E key m = (Inr (), m')"
  shows "grows m m' \<and> is_loaded m' key"
proof -
  note rec = load_single_record [OF assms]
  have key: "is_loaded m' key" using rec(1) by (auto simp: is_loaded_def is_loaded_state_def)
  have "is_loaded m' k" if "is_loaded m k" for k
    using that key rec(2) [of k] by (cases "k = key") (simp_all add: is_loaded_def)
  with key rec(3) show ?thesis by (simp add: grows_def)
qed

lemma load_dependencies_grows:
  assumes loader: "\<And>d m m'. plugin_ok m0 m \<Longrightarrow> loader d m = (Inr (), m') \<Longrightarrow> plugin_ok m0 m' \<and> grows m m'"
    and "plugin_ok m0 m" "load_dependencies loader auto key ds m = (Inr (), m')"
  shows "plugin_ok m0 m' \<and> grows m m'"
  using assms(2,3)
proof (induction ds arbitrary: m)
  case (Cons d ds)
  show ?case
  proof (cases "is_loaded m d")
    case False
    then have auto using Cons.prems(2) by (cases auto) simp_all
    obtain y m1 where y: "loader d m = (y, m1)" by (metis prod.exhaust)
    then have "y = Inr ()" and rest: "load_dependencies loader auto key ds m1 = (Inr (), m')"
      using Cons.prems(2) False \<open>auto\<close> by (cases y; simp)+
    with loader [OF Cons.prems(1)] y have 1: "plugin_ok m0 m1" "grows m m1" by auto
    with Cons.IH [OF 1(1) rest] grows_trans show ?thesis by blast
  qed (use Cons in simp)
qed simp

lemma load_within_grows:
  assumes "plugin_ok m0 m" "load_within n E auto key m = (Inr (), m')"
  shows "grows m m' \<and> is_loaded m' key"
  using assms
proof (induction n arbitrary: auto key m m')
  case (Suc n)
  then obtain r where r: "map_of (mg_records m) key = Some r" "\<not> (mg_require_enable m \<and> \<not> pl_enabled r)"
    by (auto split: option.splits if_splits)
  show ?case
  proof (cases "pl_state r \<in> {LOADED, ACTIVE, LOADING}")
    case True
    have "pl_state r \<noteq> LOADING" using plugin_ok_entry [OF Suc.prems(1) r(1)] by (simp add: entry_ok_def)
    with True r have "is_loaded m key" by (auto simp: is_loaded_def is_loaded_state_def)
    with Suc.prems(2) r True show ?thesis by auto
  next
    case False
    obtain ds where ds: "resolve_dependencies (resolver_records m) key (loaded_keys m) = Inr ds"
      using Suc.prems(2) r False by (cases "resolve_dependencies (resolver_records m) key (loaded_keys m)") auto
    obtain y m1 where y: "load_dependencies (load_within n E True) auto key ds m = (y, m1)" by (metis prod.exhaust)
    have y': "y = Inr ()" and l: "load_single E key m1 = (Inr (), m')"
      using Suc.prems(2) r False ds y by (cases y; auto)+
    have 1: "plugin_ok m0 m1 \<and> grows m m1"
    proof (rule load_dependencies_grows [OF _ Suc.prems(1) y [unfolded y']])
      show "plugin_ok m0 m3 \<and> grows m2 m3" if "plugin_ok m0 m2" "load_within n E True d m2 = (Inr (), m3)" for d m2 m3
        using Suc.IH [OF that] load_within_ok [OF that] by blast
    qed
    then have "map fst (mg_records m1) = map fst (mg_records m)" by (simp add: grows_def)
    with r(1) obtain r1 where "map_of (mg_records m1) key = Some r1"
      by (metis dict_has_fst dict_has_iff option.exhaust option.distinct(1))
    from load_single_grows [OF this l] 1 grows_trans show ?thesis by blast
  qed
qed simp

subsection \<open>What is raised\<close>

lemma prepare_ends: "prepare_plugin E manifest \<noteq> Inl LoadDiverged"
proof -
  have classes: "first_instance cs \<noteq> Inl LoadDiverged" for cs by (induction cs rule: first_instance.induct) simp_all
  have tools: "check_tools V scopes declared cs \<noteq> Inl LoadDiverged" for V scopes declared cs
    by (induction V scopes declared cs rule: check_tools.induct)
      (auto simp: tool_boundary_def permission_boundary_def capability_boundary_def Let_def res_bind_def
        split: sum.splits tool_contribution.splits if_splits)
  have providers: "check_providers cs \<noteq> Inl LoadDiverged" for cs
    by (induction cs) (auto simp: provider_boundary_def res_bind_def split: sum.splits provider_contribution.splits)
  have module: "plugin_module_of E manifest \<noteq> Inl LoadDiverged"
    using classes by (auto simp: plugin_module_of_def instantiate_plugin_def res_bind_def
        split: sum.splits option.splits construct_answer.splits)
  show ?thesis
    using tools providers module
    by (auto simp: prepare_plugin_def listed_tools_def listed_providers_def Let_def res_bind_def
        split: sum.splits tools_answer.splits providers_answer.splits if_splits)
qed

lemma register_ends: "fst (register_contributions key manifest tools providers m) \<noteq> Inl LoadDiverged"
proof -
  have 1: "fst (register_tools key cs m) \<noteq> Inl LoadDiverged" for cs m
    by (induction key cs m rule: register_tools.induct) (auto split: sum.splits prod.splits)
  have 2: "fst (register_providers key cs m) \<noteq> Inl LoadDiverged" for cs m
    by (induction key cs m rule: register_providers.induct) (auto split: sum.splits prod.splits option.splits)
  have 3: "fst (register_domains ts cs m) \<noteq> Inl LoadDiverged" for ts cs m
  proof (induction ts cs m rule: register_domains.induct)
    case (2 tools c cs m)
    then show ?case
      by (cases "tool_providing tools (pcp_name c)"; cases "is_installed (mg_domains m) (pcp_name c)")
        (simp_all, fastforce split: sum.splits prod.splits)
  qed simp
  obtain a m1 where a: "register_tools key tools m = (a, m1)" by (metis prod.exhaust)
  obtain b m2 where b: "register_providers key providers m1 = (b, m2)" by (metis prod.exhaust)
  obtain c m3 where c: "register_domains tools (pm_capabilities manifest) m2 = (c, m3)" by (metis prod.exhaust)
  from 1 [of tools m] 2 [of providers m1] 3 [of tools "pm_capabilities manifest" m2] show ?thesis
    by (auto simp: register_contributions_def a b c split: sum.splits)
qed

lemma load_single_ends: "fst (load_single E key m) \<noteq> Inl LoadDiverged"
proof -
  have failed: "fst (load_failed key e m) \<noteq> Inl LoadDiverged" if "e \<noteq> LoadDiverged" for e m
    using that by (cases e) (simp_all add: load_failed_def)
  have started: "fst (start_plugin E key manifest m) \<noteq> Inl LoadDiverged" for manifest m
  proof (cases "prepare_plugin E manifest")
    case (Inr q)
    obtain p tools providers where q: "q = (p, tools, providers)" by (cases q) auto
    obtain y m2 where "register_contributions key manifest tools providers m = (y, m2)" by (metis prod.exhaust)
    with register_ends [of key manifest tools providers m] Inr q show ?thesis
      by (auto simp: start_plugin_def split: sum.splits option.splits)
  qed (use prepare_ends [of E manifest] in \<open>auto simp: start_plugin_def\<close>)
  obtain y m2 where "start_plugin E key (pl_manifest (the_entry m key)) (loading_manager key m) = (y, m2)"
    by (metis prod.exhaust)
  with started [of "pl_manifest (the_entry m key)" "loading_manager key m"] failed show ?thesis
    by (cases y) (auto simp: load_single_eq split: prod.splits)
qed

subsection \<open>The depth\<close>

definition unloaded :: "'h plugin_manager \<Rightarrow> nat" where
  "unloaded m = card {k \<in> set (map fst (mg_records m)). \<not> is_loaded m k}"

lemma unloaded_grows:
  assumes "grows m m'"
  shows "unloaded m' \<le> unloaded m"
    and "is_loaded m' d \<Longrightarrow> \<not> is_loaded m d \<Longrightarrow> unloaded m' < unloaded m"
proof -
  let ?U = "\<lambda>m. {k \<in> set (map fst (mg_records m)). \<not> is_loaded m k}"
  have sub: "?U m' \<subseteq> ?U m" and keys: "map fst (mg_records m') = map fst (mg_records m)"
    using assms by (auto simp: grows_def simp del: set_map)
  then show "unloaded m' \<le> unloaded m" unfolding unloaded_def by (intro card_mono) simp_all
  assume d: "is_loaded m' d" "\<not> is_loaded m d"
  then have "d \<in> set (map fst (mg_records m'))"
    by (auto simp: is_loaded_def map_of_eq_None_iff image_iff dest!: map_of_SomeD split: option.splits intro: rev_bexI)
  with d keys have "d \<in> ?U m - ?U m'" by simp
  with sub have "?U m' \<subset> ?U m" by blast
  then show "unloaded m' < unloaded m" unfolding unloaded_def by (intro psubset_card_mono) simp_all
qed

definition needs_nothing :: "'h plugin_manager \<Rightarrow> string \<Rightarrow> bool" where
  "needs_nothing m key \<longleftrightarrow>
     (\<forall>ds. resolve_dependencies (resolver_records m) key (loaded_keys m) = Inr ds \<longrightarrow> (\<forall>d\<in>set ds. is_loaded m d))"

lemma load_within_leaf:
  assumes "needs_nothing m key"
  shows "fst (load_within (Suc n) E auto key m) \<noteq> Inl LoadDiverged"
proof -
  have "load_dependencies f auto key ds m = (Inr (), m)" if "\<forall>d\<in>set ds. is_loaded m d" for f ds
    using that by (induction ds) simp_all
  with assms load_single_ends [of E key m] show ?thesis
    by (auto simp: needs_nothing_def split: option.splits sum.splits)
qed

text \<open>The first dependency that is not loaded needs nothing else; a later one follows a load.\<close>

lemma load_dependencies_end:
  assumes later: "\<And>d m1. plugin_ok m0 m1 \<Longrightarrow> unloaded m1 < unloaded m \<Longrightarrow>
      fst (load_within n E True d m1) \<noteq> Inl LoadDiverged"
    and n: "n \<noteq> 0" and ok: "plugin_ok m0 m" "plugin_ok m0 m1"
    and ds: "resolve_dependencies (resolver_records m) key (loaded_keys m) = Inr (pre @ ds)"
    and now: "m1 = m \<and> (\<forall>d\<in>set pre. is_loaded m d) \<or> unloaded m1 < unloaded m"
  shows "fst (load_dependencies (load_within n E True) auto key ds m1) \<noteq> Inl LoadDiverged"
  using ok(2) ds now
proof (induction ds arbitrary: m1 pre)
  case (Cons d ds)
  note IH = Cons.IH [of _ "pre @ [d]"]
  consider "is_loaded m1 d" | "\<not> is_loaded m1 d" "\<not> auto" | (load) "\<not> is_loaded m1 d" auto by blast
  then show ?case
  proof cases
    case 1
    with IH [of m1] Cons.prems show ?thesis by auto
  next
    case load
    obtain y m2 where y: "load_within n E True d m1 = (y, m2)" by (metis prod.exhaust)
    note ok2 = load_within_ok [OF Cons.prems(1) y]
    have ends: "y \<noteq> Inl LoadDiverged"
      using Cons.prems(3)
    proof
      assume same: "m1 = m \<and> (\<forall>d\<in>set pre. is_loaded m d)"
      have "needs_nothing m d" unfolding needs_nothing_def
        using resolve_nested [OF Cons.prems(2) refl] same by blast
      with load_within_leaf [of m d "n - 1" E True] n same y show ?thesis by simp
    next
      assume "unloaded m1 < unloaded m"
      then have "fst (load_within n E True d m1) \<noteq> Inl LoadDiverged" by (rule later [OF Cons.prems(1)])
      with y show ?thesis by simp
    qed
    show ?thesis
    proof (cases y)
      case (Inr u)
      then have g: "grows m1 m2 \<and> is_loaded m2 d" using load_within_grows [OF Cons.prems(1)] y by simp
      then have "unloaded m2 < unloaded m1" using unloaded_grows(2) load(1) by blast
      then have "unloaded m2 < unloaded m" using Cons.prems(3) by auto
      with IH [of m2] Cons.prems(2) ok2 load y Inr show ?thesis by auto
    qed (use load y ends in auto)
  qed (use Cons.prems in simp)
qed simp

lemma load_within_ends:
  "plugin_ok m0 m \<Longrightarrow> unloaded m + 2 \<le> n \<Longrightarrow> fst (load_within n E auto key m) \<noteq> Inl LoadDiverged"
proof (induction n arbitrary: auto key m)
  case (Suc n)
  have "fst (load_dependencies (load_within n E True) auto key ds m) \<noteq> Inl LoadDiverged"
    if "resolve_dependencies (resolver_records m) key (loaded_keys m) = Inr ds" for ds
    using load_dependencies_end [of m0 m n E m key "[]" ds auto] Suc that by fastforce
  then show ?case
    using load_single_ends [of E key]
    by (auto split: option.splits sum.splits prod.splits)
qed simp

lemma load_plugin_ends:
  assumes "plugin_ok m0 m"
  shows "fst (load_plugin E auto key m) \<noteq> Inl LoadDiverged"
proof -
  have "unloaded m \<le> card (set (map fst (mg_records m)))" unfolding unloaded_def by (intro card_mono) auto
  also have "\<dots> \<le> length (mg_records m)" by (metis card_length length_map)
  finally show ?thesis unfolding load_plugin_def load_depth_def using assms by (intro load_within_ends) simp_all
qed

lemma load_plugin_grows:
  "plugin_ok m0 m \<Longrightarrow> load_plugin E auto key m = (Inr (), m') \<Longrightarrow> grows m m' \<and> is_loaded m' key"
  unfolding load_plugin_def by (rule load_within_grows)

section \<open>What a load registers\<close>

definition within_manifest :: "plugin_manifest \<Rightarrow> plugin_tool \<Rightarrow> bool" where
  "within_manifest manifest t \<longleftrightarrow> set (policy_permissions t) \<subseteq> set (map pps_scope (pm_permissions manifest)) \<and>
     set (ptl_capabilities t) \<subseteq> set (map pcp_name (pm_capabilities manifest))"

lemma undeclared_empty: "undeclared declared required = [] \<longleftrightarrow> set required \<subseteq> set declared"
proof -
  have "undeclared declared required = [] \<longleftrightarrow> set (undeclared declared required) = {}" by simp
  also have "set (undeclared declared required) = set required - set declared" by (auto simp: undeclared_def)
  finally show ?thesis by blast
qed

lemma check_tools_within:
  "check_tools V scopes declared cs = Inr () \<Longrightarrow> ToolContribution t \<in> set cs \<Longrightarrow>
     set (policy_permissions t) \<subseteq> set scopes \<and> set (ptl_capabilities t) \<subseteq> set declared"
proof (induction V scopes declared cs rule: check_tools.induct)
  case (2 V scopes declared c cs)
  then show ?case
    by (cases c) (auto simp: res_bind_Inr_iff tool_boundary_def permission_boundary_def capability_boundary_def
        Let_def undeclared_empty split: if_splits)
qed simp

lemma register_tools_new:
  "register_tools key cs m = (x, m') \<Longrightarrow> map_of (mg_tools m') n = Some (t, info) \<Longrightarrow>
     map_of (mg_tools m) n = Some (t, info) \<or>
     (\<exists>tool. ToolContribution tool \<in> set cs \<and> t = PluginToolAdapter key tool \<and> info = build_tool_info tool)"
proof (induction key cs m arbitrary: x m' rule: register_tools.induct)
  case (3 key tool cs m)
  show ?case
  proof (cases "dict_has (ptl_name tool) (mg_tools m)")
    case False
    let ?m = "m\<lparr>mg_tools := AList.update (ptl_name tool) (PluginToolAdapter key tool, build_tool_info tool) (mg_tools m)\<rparr>"
    obtain y where "register_tools key cs ?m = (y, m')" using "3.prems"(1) False by (auto split: prod.splits sum.splits)
    from "3.IH" [OF False this "3.prems"(2)] show ?thesis by (auto simp: update_conv' split: if_splits)
  qed (use "3.prems" in simp)
qed simp_all

lemma register_contributions_tools:
  assumes "register_contributions key manifest tools providers m = (x, m')"
  shows "\<exists>y m1. register_tools key tools m = (y, m1) \<and> mg_tools m' = mg_tools m1"
proof -
  obtain a m1 where a: "register_tools key tools m = (a, m1)" by (metis prod.exhaust)
  obtain b m2 where b: "register_providers key providers m1 = (b, m2)" by (metis prod.exhaust)
  obtain c m3 where c: "register_domains tools (pm_capabilities manifest) m2 = (c, m3)" by (metis prod.exhaust)
  have "mg_tools m2 = mg_tools m1" "mg_tools m3 = mg_tools m2"
    using register_providers_records [of key providers m1] register_domains_records [of tools "pm_capabilities manifest" m2]
    by (simp_all add: b c)
  with assms show ?thesis by (auto simp: register_contributions_def a b c split: sum.splits)
qed

lemma start_plugin_new:
  assumes s: "start_plugin E key manifest m = (x, m')" and t: "map_of (mg_tools m') n = Some (t, info)"
  shows "map_of (mg_tools m) n = Some (t, info) \<or>
    (\<exists>tool. t = PluginToolAdapter key tool \<and> info = build_tool_info tool \<and> within_manifest manifest tool)"
proof (cases "prepare_plugin E manifest")
  case (Inr q)
  obtain p tools providers where q: "q = (p, tools, providers)" by (cases q) auto
  obtain y m1 where y: "register_contributions key manifest tools providers m = (y, m1)" by (metis prod.exhaust)
  have m': "m' = m1" using s Inr q y by (auto simp: start_plugin_def split: sum.splits option.splits)
  have "check_tools (pg_validation E) (map pps_scope (pm_permissions manifest))
      (map pcp_name (pm_capabilities manifest)) tools = Inr ()"
    using Inr q by (auto simp: prepare_plugin_def res_bind_Inr_iff Let_def split: if_splits)
  note within = check_tools_within [OF this]
  obtain z m2 where "register_tools key tools m = (z, m2)" "mg_tools m1 = mg_tools m2"
    using register_contributions_tools [OF y] by blast
  with register_tools_new [of key tools m z m2 n t info] t m' within show ?thesis
    by (auto simp: within_manifest_def)
qed (use assms in \<open>auto simp: start_plugin_def\<close>)

text \<open>Every tool is an old one or within the manifest of the plugin that contributed it.\<close>

definition tools_declared :: "'h plugin_manager \<Rightarrow> 'h plugin_manager \<Rightarrow> bool" where
  "tools_declared m m' \<longleftrightarrow>
     (\<forall>n t info. map_of (mg_tools m') n = Some (t, info) \<longrightarrow> map_of (mg_tools m) n = Some (t, info) \<or>
        (\<exists>key tool r. t = PluginToolAdapter key tool \<and> info = build_tool_info tool \<and>
           map_of (mg_records m) key = Some r \<and> within_manifest (pl_manifest r) tool))"

lemma tools_declared_same: "mg_tools m2 = mg_tools m1 \<Longrightarrow> tools_declared m m2 \<longleftrightarrow> tools_declared m m1"
  by (simp add: tools_declared_def)

lemma load_single_tools:
  assumes "map_of (mg_records m) key = Some r" "load_single E key m = (x, m')"
  shows "\<exists>y m2. start_plugin E key (pl_manifest r) (loading_manager key m) = (y, m2) \<and> mg_tools m' = mg_tools m2"
  using assms by (cases rule: load_single_cases) auto

lemma load_within_declared:
  assumes "same_plugins m0 m" "tools_declared m0 m" "load_within n E auto key m = (x, m')"
  shows "same_plugins m0 m' \<and> tools_declared m0 m'"
  using assms
proof (induction n arbitrary: auto key m x m')
  case (Suc n)
  have fail: "same_plugins m0 (fail_plugin k e m1) \<and> tools_declared m0 (fail_plugin k e m1)"
    if "same_plugins m0 m1 \<and> tools_declared m0 m1" for k e and m1 :: "'a plugin_manager"
  proof -
    have "same_plugins m0 (fail_plugin k e m1)" using that same_plugins_trans [OF _ same_fail] by blast
    moreover have "mg_tools (fail_plugin k e m1) = mg_tools m1" by (simp add: fail_plugin_upd)
    ultimately show ?thesis using that tools_declared_same by blast
  qed
  consider "map_of (mg_records m) key = None"
    | r where "map_of (mg_records m) key = Some r" "mg_require_enable m \<and> \<not> pl_enabled r \<or> pl_state r \<in> {LOADED, ACTIVE, LOADING}"
    | (go) r where "map_of (mg_records m) key = Some r" "\<not> (mg_require_enable m \<and> \<not> pl_enabled r)"
        "pl_state r \<notin> {LOADED, ACTIVE, LOADING}" by blast
  then show ?case
  proof cases
    case (go r)
    show ?thesis
    proof (cases "resolve_dependencies (resolver_records m) key (loaded_keys m)")
      case (Inl e)
      with Suc.prems go fail [of m] show ?thesis by auto
    next
      case (Inr ds)
      obtain y m1 where d: "load_dependencies (load_within n E True) auto key ds m = (y, m1)" by (metis prod.exhaust)
      have 1: "(same_plugins m0 m1 \<and> tools_declared m0 m1) \<and> True"
      proof (rule load_dependencies_induct [where P = "\<lambda>m. same_plugins m0 m \<and> tools_declared m0 m"
              and R = "\<lambda>_ _. True" and D = UNIV, OF _ _ _ _ _ _ d])
        show "(same_plugins m0 m2 \<and> tools_declared m0 m2) \<and> True"
          if "same_plugins m0 m3 \<and> tools_declared m0 m3" "load_within n E True d m3 = (z, m2)" for d m3 z m2
          using Suc.IH [OF _ _ that(2)] that(1) by blast
      qed (use Suc.prems fail in auto)
      show ?thesis
      proof (cases y)
        case (Inl e)
        with Suc.prems(3) go Inr d 1 show ?thesis by auto
      next
        case y: (Inr u)
        have m1: "map fst (mg_records m1) = map fst (mg_records m)"
          using 1 Suc.prems(1) by (simp add: same_plugins_def)
        then obtain r1 where r1: "map_of (mg_records m1) key = Some r1"
          using go(1) by (metis dict_has_fst dict_has_iff option.exhaust option.distinct(1))
        have "map fst (mg_records m1) = map fst (mg_records m0)" using 1 by (simp add: same_plugins_def)
        then obtain r0 where r0: "map_of (mg_records m0) key = Some r0"
          using r1 by (metis dict_has_fst dict_has_iff option.exhaust option.distinct(1))
        have man: "pl_manifest r1 = pl_manifest r0" using 1 r0 r1 unfolding same_plugins_def by fastforce
        have l: "load_single E key m1 = (x, m')" using Suc.prems(3) go Inr d y by auto
        obtain z m2 where z: "start_plugin E key (pl_manifest r1) (loading_manager key m1) = (z, m2)"
          "mg_tools m' = mg_tools m2" using load_single_tools [OF r1 l] by blast
        have "tools_declared m0 m'" unfolding tools_declared_def
        proof (intro allI impI)
          fix n t info assume "map_of (mg_tools m') n = Some (t, info)"
          then have "map_of (mg_tools m1) n = Some (t, info) \<or>
              (\<exists>tool. t = PluginToolAdapter key tool \<and> info = build_tool_info tool \<and> within_manifest (pl_manifest r1) tool)"
            using start_plugin_new [OF z(1)] z(2) by simp
          then show "map_of (mg_tools m0) n = Some (t, info) \<or>
              (\<exists>key tool r. t = PluginToolAdapter key tool \<and> info = build_tool_info tool \<and>
                 map_of (mg_records m0) key = Some r \<and> within_manifest (pl_manifest r) tool)"
            using 1 r0 man unfolding tools_declared_def by metis
        qed
        with load_single_same [OF r1 l] 1 same_plugins_trans show ?thesis by blast
      qed
    qed
  qed (use Suc.prems in \<open>auto split: if_splits\<close>)
qed simp

lemma load_plugin_declared: "load_plugin E auto key m = (x, m') \<Longrightarrow> tools_declared m m'"
  using load_within_declared [of m m "load_depth m" E auto key x m'] by (simp add: load_plugin_def tools_declared_def)

end
