(* ===== verification/Extension.thy ===== *)
theory Extension
  imports Plugin_Loading Sample_Tools
begin

text \<open>
  What the plugin manager guarantees to the host: its own tools, domains and providers stay what they
  are, only enabled plugins are loaded, a load registers what the manifests declare and comes to an
  end, an unload takes everything back and waits for as long as the plugin is needed.
\<close>

section \<open>A plugin\<close>

definition echo_tool :: plugin_tool where
  "echo_tool = \<lparr>ptl_name = ''echo'', ptl_capabilities = [''echoing''],
     ptl_policy = Some (default_tool_policy\<lparr>tp_permissions := [TOOL_READ]\<rparr>), ptl_permissions = [],
     ptl_category = None, ptl_input_schema = [], ptl_supported_actions = []\<rparr>"

definition echo_manifest :: plugin_manifest where
  "echo_manifest = \<lparr>pm_schema_version = ''1.0'', pm_id = ''echo'', pm_name = ''Echo'', pm_version = ''1.0.0'',
     pm_description = [], pm_kind = KIND_TOOL, pm_author = [], pm_entry = ''plugins.echo'', pm_dependencies = [],
     pm_capabilities = [\<lparr>pcp_name = ''echoing'', pcp_description = []\<rparr>],
     pm_permissions = [\<lparr>pps_scope = ''read'', pps_description = []\<rparr>], pm_metadata = [], pm_api_version = 1,
     pm_min_version = None, pm_max_version = None, pm_actions = []\<rparr>"

definition echo_user :: plugin_manifest where
  "echo_user = echo_manifest\<lparr>pm_id := ''loud'', pm_name := ''Loud'', pm_entry := ''plugins.loud'',
     pm_dependencies := [\<lparr>dep_plugin_id = ''echo'', dep_version = ''^1.0.0''\<rparr>], pm_capabilities := []\<rparr>"

definition echo_env :: plugin_env where
  "echo_env = \<lparr>pg_validation = \<lparr>vp_repr = id, vp_list = concat, vp_json = (\<lambda>_. [])\<rparr>, pg_now = Aware 0 0,
     pg_module = (\<lambda>entry. Inr \<lparr>mo_factory = Some (Constructed (if entry = ''plugins.echo'' then 1 else 2)),
        mo_plugin = None, mo_classes = []\<rparr>),
     pg_manifest = (\<lambda>p. (if p = 1 then ''echo'' else ''loud'', ''1.0.0'')),
     pg_tools = (\<lambda>p k. ToolList (if p = 1 then [ToolContribution echo_tool] else [])),
     pg_providers = (\<lambda>p. ProviderList []), pg_start = (\<lambda>p. None), pg_stop = (\<lambda>p. None),
     pg_snapshot = (\<lambda>p. Inr None), pg_restore = (\<lambda>p v. None),
     pg_files = (\<lambda>d. Inr [\<lparr>mf_size = 100, mf_manifest = Some echo_manifest\<rparr>,
                            \<lparr>mf_size = 100, mf_manifest = Some echo_user\<rparr>]), pg_app_version = ''1.0.0'', pg_import_error = []\<rparr>"

definition plugin_host :: "unit plugin_manager" where
  "plugin_host = fresh_manager (tn_registry sample_tools) None [] True"

definition found_manager :: "unit plugin_manager" where
  "found_manager = snd (discover_plugins echo_env ''plugins'' plugin_host)"

definition enabled_manager :: "unit plugin_manager" where
  "enabled_manager = snd (enable_plugin echo_env ''echo@1.0.0'' (snd (enable_plugin echo_env ''loud@1.0.0'' found_manager)))"


definition loud_manager :: "unit plugin_manager" where
  "loud_manager = snd (load_plugin echo_env True ''loud@1.0.0'' enabled_manager)"























lemma host_tools: "map fst (mg_tools plugin_host) = [''filesystem'', ''internet'', ''shell'']"
  by (simp add: plugin_host_def fresh_manager_def sample_tools_fields)





section \<open>Properties\<close>










text \<open>A plugin that was loaded alone and unloaded again has left the host's registries as they were.\<close>

theorem load_then_unload_restores:
  assumes "map_of (mg_records m) key = Some r" "pl_state r \<notin> {LOADED, ACTIVE, LOADING}"
    and "resolve_dependencies (resolver_records m) key (loaded_keys m) = Inr []"
    and "load_plugin E auto key m = (Inr (), m1)" "unload_plugin E' key m1 = (Inr (), m2)"
  shows "mg_tools m2 = mg_tools m \<and> mg_providers m2 = mg_providers m \<and> mg_domains m2 = mg_domains m"
  using load_then_unload [OF assms(1-3) _ assms(4,5)] by simp

end
