(* ===== verification/Spec2Isabelle.thy ===== *)
theory Spec2Isabelle
  imports Authority Delivery Lifecycle Oversight Coordination Consent Confinement Extension
begin

text \<open>
  A model of the authority, governance, routing, scheduling and recovery core of Samaktha, an
  assistant that plans actions, decides whether they are allowed, and runs them through model
  providers, tools and plugins. File names are relative to \<open>src/\<close>.

  \<^bold>\<open>The program.\<close> A request becomes an execution of the coordinator
  (\<open>app/core/execution_coordinator.py\<close>), which runs the orchestrator's pipeline for it, persists
  checkpoints and answers approvals. The orchestrator plans; its step 5 asks CAP
  (\<open>app/core/cap/\<close>) for a policy decision and a signed permit for each task that has an
  effect. The workflow engine (\<open>app/workflow/\<close>) releases the tasks in the order of their
  dependencies, has the router (\<open>app/router/\<close>) choose a model for each and hands them to the
  runtime (\<open>app/runtime/\<close>). The runtime's gate checks the permit again for every attempt, the
  retry policy decides about failures, and an executor calls a provider through the provider
  manager and its fallback (\<open>app/providers/\<close>), or a tool: behind the guard
  (\<open>app/security/\<close>), governance and the security policy of the tools (\<open>app/tools/security.py\<close>) the
  tool manager and its dispatcher (\<open>app/tools/\<close>) run it. The governance engine
  (\<open>app/governance/\<close>) is consulted by the executors and keeps hash-chained histories. Batches
  of runtime tasks may go through \<open>app/runtime_parallel/\<close>. Plugins are validated, ordered by their
  dependencies, loaded into the registries of the host and taken out again by \<open>app/plugins/\<close>. What is recorded as evidence passes the sanitizer (\<open>app/evidence/\<close>).

  \<^bold>\<open>Theories, in the order of their imports.\<close>
  \<^item> \<open>Prelude\<close>: dictionaries as association lists with distinct keys, strings, results
    (\<open>Inl\<close> the raised error, \<open>Inr\<close> the value), sorting, hexadecimal text.
  \<^item> \<open>Canonical_Json\<close>: Python values, JSON values, the text of \<open>json.dumps\<close>, and that it
    determines the value.
  \<^item> \<open>Cap_Policy\<close>, \<open>Cap_Permit\<close>, \<open>Cap_Approval\<close>: \<open>app/core/contracts/policy.py\<close> and
    \<open>app/core/cap/\<close>: the privacy classifier, the policy engine, normalisation and digest of an
    operation, signature and expiry of a permit, the permission store as the locale
    \<open>permission_interface\<close> with its in-memory provider, the approval engine with every refusal.
  \<^item> \<open>Runtime_Gate\<close>, \<open>Runtime_Reliability\<close>, \<open>Runtime_Engine\<close>: \<open>app/runtime/governance.py\<close>,
    \<open>reliability.py\<close>, \<open>dispatcher.py\<close>, \<open>engine.py\<close>: the permit gate, failure classes and retries,
    and the attempt loop with every effect in a log.
  \<^item> \<open>Evidence_Sanitizer\<close>: \<open>app/evidence/sanitizer.py\<close>.
  \<^item> \<open>Gov_Chain\<close>, \<open>Gov_Policy\<close>, \<open>Gov_Engine\<close>: \<open>app/governance/\<close>: both histories over the locale
    \<open>hash_chain\<close> with the JSON rows of their tables (\<open>SQLiteJsonTable\<close> of \<open>app/db/base.py\<close>), policies and
    their rules, evaluation and enforcement.
  \<^item> \<open>Provider_Health\<close>, \<open>Model_Routing\<close>, \<open>Provider_Fallback\<close>, \<open>Provider_Executor\<close>:
    \<open>app/providers/\<close>, \<open>app/models/\<close>, \<open>app/router/\<close>, \<open>ProviderExecutor\<close> of
    \<open>app/runtime/executor.py\<close> and \<open>payload.py\<close>.
  \<^item> \<open>Python_Library\<close>: what the tools use of the standard library: stripping and splitting,
    \<open>shlex.split\<close>, \<open>urlparse\<close>, POSIX paths, the networks of \<open>ipaddress\<close> over words of 32 and 128 bits.
  \<^item> \<open>Tool_Security\<close>: \<open>app/tools/security.py\<close>: the policies for files, commands, the desktop and
    the network, the validators with every refusal, and what an accepted call names.
  \<^item> \<open>Shell_Tool\<close>: \<open>app/tools/shell.py\<close>: the process that a command comes to, with its words, its directory
    and its environment.
  \<^item> \<open>Tool_Framework\<close>, \<open>Tool_Dispatcher\<close>: \<open>app/tools/registry.py\<close>, \<open>capability_registry.py\<close>,
    \<open>manager.py\<close> and \<open>framework/\<close>: registries, schemas, health, memory of uses, attempts and retries,
    calls with dependencies.
  \<^item> \<open>Tool_Executor\<close>: \<open>app/security/input_scanner.py\<close>, \<open>tool_guard.py\<close> and \<open>ToolExecutor\<close> of
    \<open>app/runtime/executor.py\<close>, and what a run of a tool went through.
  \<^item> \<open>Task_Authorization\<close>, \<open>Permit_Flow\<close>: step 5 of \<open>app/core/orchestrator/engine.py\<close>, and that
    what it signs is what the gate computes later.
  \<^item> \<open>Workflow_Graph\<close>, \<open>Workflow_Engine\<close>: \<open>app/core/contracts/workflow.py\<close> and \<open>app/workflow/\<close>.
  \<^item> \<open>Execution_State\<close>, \<open>Checkpoint_Store\<close>, \<open>Execution_Coordinator\<close>, \<open>Coordinator_Invariants\<close>:
    \<open>app/core/contracts/state.py\<close>, \<open>app/runtime/checkpoint.py\<close>,
    \<open>app/core/execution_coordinator.py\<close>, and what every step of the coordinator keeps.
  \<^item> \<open>Parallel_Graph\<close>, \<open>Parallel_Scheduler\<close>: \<open>app/runtime_parallel/\<close> and \<open>run_batch\<close>.
  \<^item> \<open>Plugin_Semver\<close>, \<open>Plugin_Dependencies\<close>: \<open>app/plugins/semver.py\<close> and \<open>dependencies.py\<close>.
  \<^item> \<open>Plugin_Registry\<close>: \<open>registry.py\<close>, \<open>validation.py\<close>, \<open>isolation.py\<close>, \<open>activity.py\<close>, \<open>discovery.py\<close> and
    the models of \<open>app/plugins/\<close>. \<open>Plugin_Manager\<close>, \<open>Plugin_Lifecycle\<close>: \<open>manager.py\<close>: loading, and every
    other operation as a step. \<open>Plugin_Invariants\<close>, \<open>Plugin_Loading\<close>: what every step keeps, that removal
    undoes registration, and that a load ends.
  \<^item> \<open>Sample_World\<close>, \<open>Sample_Delivery\<close>, \<open>Sample_Recovery\<close>, \<open>Sample_Tools\<close>: concrete inputs at which the properties
    are applied.

  A class is a record of its state and a method a function that returns the state it leaves;
  the definitions keep the names of the code where a name is free. Where control returns to an
  event loop between two states, the operations are the steps of an inductive relation:
  \<open>coordinator_step\<close> for the coordinator, \<open>governance_step\<close> for the histories of the governance engine,
  \<open>plugin_step\<close> for the plugin manager.

  \<^bold>\<open>Properties.\<close> They stand in eight theories.
  \<^item> \<open>Authority\<close>: nothing runs without a permit that traces back to a policy decision or to the
    answer of its own principal; permits are tamper evident and bound to one operation; a mutation's
    permit is used once and a mutation is retried only when it had no effect.
  \<^item> \<open>Oversight\<close>: the histories of the governance engine verify, only grow, show a rewritten
    record and are read back from the JSON rows of their tables; enforcement of tools is exact. Beside them stands
    what goes wrong with records of one instant and with tables that are empty when the engine is constructed.
  \<^item> \<open>Coordination\<close>: a batch answers every task, after its dependencies, unless a worker was cancelled, and is
    refused exactly when it is cyclic; the load order of plugins respects the last dependency of each.
  \<^item> \<open>Consent\<close>: what policy allows without asking, what the permission memory can hold, what of a
    secret can be learnt from the evidence.
  \<^item> \<open>Delivery\<close>: sensitive tasks stay on local models through routing and fallback, an allowed
    task passes the gate (and one with a system prompt does not, a lemma beside it), the scored choice is the best, a workflow runs each task once and in
    order, and its end accounts for all of them.
  \<^item> \<open>Lifecycle\<close>: executions move along the table of statuses, the capacity is kept in every
    reachable state, an approval is answered once, the checkpoint store refines a map
    from executions to checkpoints and refuses tampered files, and what a restart restores. One
    property states a failure the code has, a second pause of an approved task; lemmas beside it state
    others: a denial whose resume raises, a crash between the two writes of a save.
  \<^item> \<open>Confinement\<close>: a tool runs only after the whole chain of checks; a side effect is tried once; files
    stay below the allowed roots, fetches outside of the internal networks, and the process of the shell tool on
    its list. A lemma states which special networks the address check lets through.
  \<^item> \<open>Extension\<close>: plugins leave the host's own tools, domains and providers alone, and a load ends, loads only
    what was enabled and registers only what the manifests declare.

  \<^bold>\<open>Assumptions.\<close> Digests and HMACs are arguments; what is relied on is that they are injective
  (\<open>good_hash\<close>, \<open>authentic\<close>), and \<open>Sample_World\<close> and \<open>Sample_Recovery\<close> hold instances. Pydantic's
  validation and dump, \<open>int()\<close>, the printing of floats, clocks, nonces and environment variables are
  arguments too. What a provider, an executor, the orchestrator's pipeline or a tool answers is an
  argument of the operation that calls it, with no assumption unless a property names one. The file system
  of the tools' paths is an argument; \<open>resolves_canonically\<close> is the documented behaviour of
  \<open>Path.resolve\<close>, whose answer is absolute, without dots or links. A plugin's module, tools, providers and hooks are arguments; its hooks
  do not change the registries they are given, and the operations of the plugin manager run one after another,
  outside of an event loop where the code starts one. Paths are POSIX paths, and the special
  networks those of Python 3.12.

  \<^bold>\<open>Loops and fuel.\<close> The attempt loop of the runtime is bounded by the attempts of the retry policy.
  The loop of the workflow takes fuel, one unit per task and one more; it is enough since every round
  completes, fails or skips a task or ends the loop, which the lemmas on the scheduler prove. The scheduler
  of a batch runs over the finitely many levels of its graph. The attempts of a tool end since each uses up
  a retry, the rounds of dependent calls since each leaves fewer calls pending. The loops that drop old terminal
  records take the number of records. Closures of dependencies are bounded by the number of records, and the calls
  of a plugin load for its dependencies by that number plus two, which \<open>load_plugin_ends\<close> proves enough.

  \<^bold>\<open>Not modelled.\<close> The natural-language planner and the text heuristics around it, memory, the
  personality and the interfaces: they decide nothing about authority or order. The adapters of the
  vendors, HTTP, and the concrete tools but for what the shell tool starts: I/O. The selector and the diagnostics of the tools, and the limits
  of the security policy that only the concrete tools read. The evidence store (SQLite) and instrumentation, traces,
  logs and metrics of the event bus. Of the plugins: events and their listeners, evidence and the SDK. Of the
  coordinator: the session helpers and the wait for a task. The
  flag \<open>cancel_requested\<close> of the orchestrator is part of its answer. Of the checkpoint store: the
  text of its files below their value, file permissions, and failing writes other than a
  crash between two of them. The routing of a batch, which the code starts concurrently, is in order
  here. Threads and real time are not modelled: what a timeout or a concurrent attempt comes to is an
  answer of the environment. Rolling the integrity index itself back is outside of what the store
  can detect.
\<close>

end
